(* ===== verification/Bx_Prelude.thy ===== *)
theory Bx_Prelude
  imports Complex_Main "HOL-Library.Word" "HOL-Library.AList" "HOL-Library.Multiset"
begin

text \<open>
  Shared vocabulary of the development.

  \<^item> Python exceptions are the values of \<open>py_error\<close>; an operation that may raise returns
    \<open>'a result = py_error + 'a\<close>, sequenced by \<open>rbind\<close>; a \<open>for\<close> loop whose body may raise is
    \<open>rfold\<close>.
  \<^item> Bytes are \<open>8 word\<close>; \<open>bslice\<close> is Python's slice with non-negative bounds, \<open>bput\<close> an
    in-place write, \<open>pack_into\<close>/\<open>unpack_from\<close> are \<open>struct.pack_into\<close>/\<open>struct.unpack_from\<close> for
    the little-endian unsigned formats \<open>B\<close>, \<open>H\<close>, \<open>L\<close>, \<open>I\<close>, \<open>Q\<close>.
  \<^item> Dictionaries (\<open>dict\<close>, \<open>OrderedDict\<close>, \<open>defaultdict\<close>) are association lists in insertion
    order, updated by \<open>AList.update\<close> (in place when the key is there, at the end otherwise) and
    \<open>AList.delete\<close>.
  \<^item> The locale \<open>buffer_codec\<close> is the contract between a serializer of one item and the loops
    that write and read lists of items; \<open>guarded_system\<close> is the contract between the
    operations of a component and the invariant that holds along every run of it.
\<close>

named_theorems byte_simps \<open>reading back what was written into a byte buffer\<close>
named_theorems result_simps \<open>exceptions: evaluation of sequenced results\<close>

subsection \<open>Exceptions as values\<close>

datatype py_error =
    ValueError | TypeError | KeyError | IndexError | AssertionError | StructError
  | NotImplementedErr | RuntimeErr | ParseError | PayloadLenError | UnrecognizedCommandError
  | MessageValidationError | ControlFlagValidationError nat | NonVersionMessageError bool
  | UnauthorizedMessageError | MemoryErr | AttributeErr | UnicodeDecodeErr | ConnectionAuthenticationError | OverflowErr
  | GenericException | DecryptionError

type_synonym 'a result = "py_error + 'a"

type_synonym time = real

definition rbind :: "'a result \<Rightarrow> ('a \<Rightarrow> 'b result) \<Rightarrow> 'b result" where
  "rbind m f = (case m of Inl e \<Rightarrow> Inl e | Inr x \<Rightarrow> f x)"

definition rassert :: "py_error \<Rightarrow> bool \<Rightarrow> unit result" where
  "rassert e b = (if b then Inr () else Inl e)"

primrec rfold :: "('s \<Rightarrow> 'a \<Rightarrow> 's result) \<Rightarrow> 's \<Rightarrow> 'a list \<Rightarrow> 's result" where
  "rfold f s [] = Inr s"
| "rfold f s (x # xs) = rbind (f s x) (\<lambda>s'. rfold f s' xs)"

lemma rbind_Inl [simp, result_simps]: "rbind (Inl e) f = Inl e"
  by (simp add: rbind_def)

lemma rbind_Inr [simp, result_simps]: "rbind (Inr x) f = f x"
  by (simp add: rbind_def)

lemma rbind_eq_Inr: "rbind m f = Inr y \<longleftrightarrow> (\<exists>x. m = Inr x \<and> f x = Inr y)"
  by (cases m) auto

lemma rbind_assoc: "rbind (rbind m f) g = rbind m (\<lambda>x. rbind (f x) g)"
  by (cases m) auto

lemma rassert_True [simp, result_simps]: "rassert e True = Inr ()"
  by (simp add: rassert_def)

lemma rassert_False [simp, result_simps]: "rassert e False = Inl e"
  by (simp add: rassert_def)

lemma rassert_eq_Inr [simp]: "rassert e b = Inr u \<longleftrightarrow> b"
  by (simp add: rassert_def)

lemma rfold_append: "rfold f s (xs @ ys) = rbind (rfold f s xs) (\<lambda>s'. rfold f s' ys)"
  by (induction xs arbitrary: s) (auto simp: rbind_assoc)

text \<open>A loop whose body never raises under an invariant runs to its end and keeps it.\<close>

lemma rfold_invariant:
  assumes "I s"
    and "\<And>s x. I s \<Longrightarrow> x \<in> set xs \<Longrightarrow> \<exists>s'. f s x = Inr s' \<and> I s'"
  shows "\<exists>s'. rfold f s xs = Inr s' \<and> I s'"
  using assms
proof (induction xs arbitrary: s)
  case Nil
  then show ?case by simp
next
  case (Cons x xs)
  obtain s1 where s1: "f s x = Inr s1" "I s1"
    using Cons.prems(2)[OF Cons.prems(1)] by auto
  have "\<exists>s'. rfold f s1 xs = Inr s' \<and> I s'"
    using Cons.IH[OF s1(2)] Cons.prems(2) by auto
  with s1 show ?case by simp
qed

subsection \<open>Little-endian integers and byte buffers\<close>

type_synonym byte = "8 word"
type_synonym bytes = "byte list"

primrec le_bytes :: "nat \<Rightarrow> nat \<Rightarrow> bytes" where
  "le_bytes 0 v = []"
| "le_bytes (Suc n) v = of_nat (v mod 256) # le_bytes n (v div 256)"

primrec of_le :: "bytes \<Rightarrow> nat" where
  "of_le [] = 0"
| "of_le (b # bs) = unat b + 256 * of_le bs"

definition bslice :: "nat \<Rightarrow> nat \<Rightarrow> 'a list \<Rightarrow> 'a list" where
  "bslice a b xs = take (b - a) (drop a xs)"

definition bput :: "nat \<Rightarrow> 'a list \<Rightarrow> 'a list \<Rightarrow> 'a list" where
  "bput off xs buf = take off buf @ xs @ drop (off + length xs) buf"

definition pack_into :: "nat \<Rightarrow> bytes \<Rightarrow> nat \<Rightarrow> nat \<Rightarrow> bytes result" where
  "pack_into w buf off v =
     (if v < 256 ^ w \<and> off + w \<le> length buf then Inr (bput off (le_bytes w v) buf)
      else Inl StructError)"

definition unpack_from :: "nat \<Rightarrow> bytes \<Rightarrow> nat \<Rightarrow> nat result" where
  "unpack_from w buf off =
     (if off + w \<le> length buf then Inr (of_le (bslice off (off + w) buf)) else Inl StructError)"

text \<open>\<open>struct\<close> format \<open><ns\<close>: the bytes are cut or zero-padded to \<open>n\<close>.\<close>

definition pad_to :: "nat \<Rightarrow> bytes \<Rightarrow> bytes" where
  "pad_to n s = take n (s @ replicate n 0)"

definition pack_s :: "nat \<Rightarrow> bytes \<Rightarrow> nat \<Rightarrow> bytes \<Rightarrow> bytes result" where
  "pack_s n buf off s =
     (if off + n \<le> length buf then Inr (bput off (pad_to n s) buf) else Inl StructError)"

definition unpack_s :: "nat \<Rightarrow> bytes \<Rightarrow> nat \<Rightarrow> bytes result" where
  "unpack_s n buf off =
     (if off + n \<le> length buf then Inr (bslice off (off + n) buf) else Inl StructError)"

text \<open>\<open>bytes.rstrip(b"\x00")\<close>.\<close>

definition rstrip0 :: "bytes \<Rightarrow> bytes" where
  "rstrip0 bs = rev (dropWhile (\<lambda>b. b = 0) (rev bs))"

text \<open>Slice assignment to a \<open>bytearray\<close>: \<open>buf[a:b] = xs\<close>.\<close>

definition slice_assign :: "nat \<Rightarrow> nat \<Rightarrow> 'a list \<Rightarrow> 'a list \<Rightarrow> 'a list" where
  "slice_assign a b xs buf = take a buf @ xs @ drop (max a b) buf"

lemma length_le_bytes [simp, byte_simps]: "length (le_bytes n v) = n"
  by (induction n arbitrary: v) auto

lemma of_le_le_bytes [byte_simps]: "v < 256 ^ n \<Longrightarrow> of_le (le_bytes n v) = v"
proof (induction n arbitrary: v)
  case 0
  then show ?case by simp
next
  case (Suc n)
  have "v div 256 < 256 ^ n"
    using Suc.prems by (simp add: less_mult_imp_div_less mult.commute)
  then have "of_le (le_bytes n (v div 256)) = v div 256" by (rule Suc.IH)
  moreover have "unat (of_nat (v mod 256) :: byte) = v mod 256"
    by (simp add: unat_of_nat)
  ultimately show ?case by simp
qed

lemma of_le_bound: "of_le bs < 256 ^ length bs"
proof (induction bs)
  case Nil
  then show ?case by simp
next
  case (Cons b bs)
  have "unat b < 256" using unsigned_less[of b] by simp
  moreover have "of_le bs + 1 \<le> 256 ^ length bs" using Cons.IH by simp
  then have "256 * (of_le bs + 1) \<le> 256 * 256 ^ length bs" by (rule mult_le_mono2)
  ultimately show ?case by simp
qed

lemma le_bytes_of_le [byte_simps]: "le_bytes (length bs) (of_le bs) = bs"
proof (induction bs)
  case Nil
  then show ?case by simp
next
  case (Cons b bs)
  have b: "unat b < 256" using unsigned_less[of b] by simp
  have "(unat b + 256 * of_le bs) mod 256 = unat b" using b by simp
  moreover have "(unat b + 256 * of_le bs) div 256 = of_le bs" using b by simp
  ultimately show ?case using Cons.IH by simp
qed

lemma le_bytes_zero [simp]: "le_bytes n 0 = replicate n 0"
  by (induction n) auto

lemma of_le_replicate_0 [simp]: "of_le (replicate n 0) = 0"
  by (induction n) auto

lemma length_bslice [simp, byte_simps]: "length (bslice a b xs) = min (b - a) (length xs - a)"
  by (simp add: bslice_def min.commute)

lemma length_bput [simp, byte_simps]:
  "off + length xs \<le> length buf \<Longrightarrow> length (bput off xs buf) = length buf"
  by (simp add: bput_def)

lemma bslice_0 [simp]: "bslice 0 n xs = take n xs"
  by (simp add: bslice_def)

lemma bslice_bput_same [byte_simps]:
  "off \<le> length buf \<Longrightarrow> b = off + length xs \<Longrightarrow> bslice off b (bput off xs buf) = xs"
  by (simp add: bslice_def bput_def)

lemma bslice_bput_before [byte_simps]:
  "b \<le> off \<Longrightarrow> off \<le> length buf \<Longrightarrow> bslice a b (bput off xs buf) = bslice a b buf"
  by (cases "a \<le> b") (auto simp: bslice_def bput_def drop_take[symmetric] min_def)

lemma bslice_bput_after [byte_simps]:
  "off + length xs \<le> a \<Longrightarrow> off + length xs \<le> length buf \<Longrightarrow>
   bslice a b (bput off xs buf) = bslice a b buf"
  by (simp add: bslice_def bput_def)

lemma nth_bput_other:
  assumes "off + length xs \<le> length buf" and "i < off \<or> off + length xs \<le> i"
  shows "bput off xs buf ! i = buf ! i"
  using assms by (auto simp: bput_def nth_append)

lemma bput_append_left [byte_simps]:
  "off + length xs \<le> length buf \<Longrightarrow> bput off xs (buf @ rest) = bput off xs buf @ rest"
  by (simp add: bput_def)

lemma bput_bput_same:
  "off + length xs \<le> length buf \<Longrightarrow> length ys = length xs \<Longrightarrow>
   bput off ys (bput off xs buf) = bput off ys buf"
  by (simp add: bput_def)

lemma bput_at_end: "bput (length pre) xs (pre @ ys @ post) = pre @ xs @ post"
  if "length xs = length ys"
  using that by (simp add: bput_def)

lemma bslice_middle: "bslice (length pre) (length pre + length xs) (pre @ xs @ post) = xs"
  by (simp add: bslice_def)

lemma length_pad_to [simp, byte_simps]: "length (pad_to n s) = n"
  by (simp add: pad_to_def)

lemma pad_to_exact [simp]: "length s = n \<Longrightarrow> pad_to n s = s"
  by (simp add: pad_to_def)

lemma rstrip0_append_zeros: "rstrip0 (s @ replicate n 0) = rstrip0 s"
proof (induction n)
  case 0
  then show ?case by simp
next
  case (Suc n)
  have "s @ replicate (Suc n) 0 = (s @ replicate n 0) @ [0]"
    by (simp add: replicate_append_same)
  then have "rstrip0 (s @ replicate (Suc n) 0) = rstrip0 (s @ replicate n 0)"
    by (simp add: rstrip0_def del: replicate_Suc)
  with Suc.IH show ?case by simp
qed

lemma rstrip0_id: "s = [] \<or> last s \<noteq> 0 \<Longrightarrow> rstrip0 s = s"
  by (cases s rule: rev_cases) (auto simp: rstrip0_def)

lemma rstrip0_pad_to:
  assumes "length s \<le> n" and "s = [] \<or> last s \<noteq> 0"
  shows "rstrip0 (pad_to n s) = s"
proof -
  have "pad_to n s = s @ replicate (n - length s) 0"
    using assms(1) by (simp add: pad_to_def)
  then show ?thesis using assms(2) by (simp add: rstrip0_append_zeros rstrip0_id)
qed

lemma unpack_pack [byte_simps]:
  assumes "pack_into w buf off v = Inr buf'"
  shows "unpack_from w buf' off = Inr v"
  using assms by (auto simp: pack_into_def unpack_from_def byte_simps split: if_splits)

lemma pack_into_length: "pack_into w buf off v = Inr buf' \<Longrightarrow> length buf' = length buf"
  by (auto simp: pack_into_def split: if_splits)

lemma slice_assign_bput:
  "b = a + length xs \<Longrightarrow> slice_assign a b xs buf = bput a xs buf"
  by (simp add: slice_assign_def bput_def)

lemma unpack_from_middle:
  "length xs = w \<Longrightarrow> unpack_from w (pre @ xs @ post) (length pre) = Inr (of_le xs)"
  by (simp add: unpack_from_def bslice_def)

lemma unpack_s_middle:
  "length xs = n \<Longrightarrow> unpack_s n (pre @ xs @ post) (length pre) = Inr xs"
  by (simp add: unpack_s_def bslice_def)

subsection \<open>Lists of serialized items\<close>

text \<open>
  The serializers write the items of a list one after the other at a running offset
  (\<open>put_items\<close>) and read a known number of items back (\<open>get_items\<close>); the item format is a
  parameter of both loops.
\<close>

primrec put_items ::
    "(bytes \<Rightarrow> nat \<Rightarrow> 'a \<Rightarrow> (bytes \<times> nat) result) \<Rightarrow> bytes \<Rightarrow> nat \<Rightarrow> 'a list \<Rightarrow> (bytes \<times> nat) result" where
  "put_items put buf off [] = Inr (buf, off)"
| "put_items put buf off (x # xs) =
     rbind (put buf off x) (\<lambda>(buf', off'). put_items put buf' off' xs)"

primrec get_items ::
    "(bytes \<Rightarrow> nat \<Rightarrow> ('a \<times> nat) result) \<Rightarrow> bytes \<Rightarrow> nat \<Rightarrow> nat \<Rightarrow> ('a list \<times> nat) result" where
  "get_items get buf off 0 = Inr ([], off)"
| "get_items get buf off (Suc n) =
     rbind (get buf off) (\<lambda>(x, off').
       rbind (get_items get buf off' n) (\<lambda>(xs, off''). Inr (x # xs, off'')))"

locale buffer_codec =
  fixes enc :: "'a \<Rightarrow> bytes"
    and put :: "bytes \<Rightarrow> nat \<Rightarrow> 'a \<Rightarrow> (bytes \<times> nat) result"
    and get :: "bytes \<Rightarrow> nat \<Rightarrow> ('a \<times> nat) result"
    and valid :: "'a \<Rightarrow> bool"
  assumes put_enc: "valid x \<Longrightarrow> off + length (enc x) \<le> length buf \<Longrightarrow>
      put buf off x = Inr (bput off (enc x) buf, off + length (enc x))"
    and get_enc: "valid x \<Longrightarrow>
      get (pre @ enc x @ post) (length pre) = Inr (x, length pre + length (enc x))"
begin

definition enc_list :: "'a list \<Rightarrow> bytes" where
  "enc_list xs = concat (map enc xs)"

lemma enc_list_simps [simp]: "enc_list [] = []" "enc_list (x # xs) = enc x @ enc_list xs"
  by (simp_all add: enc_list_def)

lemma put_items_enc:
  "list_all valid xs \<Longrightarrow> off + length (enc_list xs) \<le> length buf \<Longrightarrow>
   put_items put buf off xs = Inr (bput off (enc_list xs) buf, off + length (enc_list xs))"
proof (induction xs arbitrary: buf off)
  case Nil
  then show ?case by (simp add: bput_def)
next
  case (Cons x xs)
  let ?b1 = "bput off (enc x) buf"
  have p: "put buf off x = Inr (?b1, off + length (enc x))"
    using Cons.prems by (intro put_enc) auto
  have "put_items put ?b1 (off + length (enc x)) xs
      = Inr (bput (off + length (enc x)) (enc_list xs) ?b1, off + length (enc x) + length (enc_list xs))"
    using Cons.prems by (intro Cons.IH) auto
  moreover have "bput (off + length (enc x)) (enc_list xs) ?b1 = bput off (enc x @ enc_list xs) buf"
    using Cons.prems by (simp add: bput_def ac_simps)
  ultimately show ?case using p by (simp add: add.assoc)
qed

lemma get_items_enc:
  "list_all valid xs \<Longrightarrow>
   get_items get (pre @ enc_list xs @ post) (length pre) (length xs)
     = Inr (xs, length pre + length (enc_list xs))"
proof (induction xs arbitrary: pre)
  case Nil
  then show ?case by simp
next
  case (Cons x xs)
  have g: "get (pre @ enc x @ enc_list xs @ post) (length pre) = Inr (x, length pre + length (enc x))"
    using Cons.prems by (intro get_enc) simp
  have "get_items get ((pre @ enc x) @ enc_list xs @ post) (length (pre @ enc x)) (length xs)
      = Inr (xs, length (pre @ enc x) + length (enc_list xs))"
    using Cons.prems by (intro Cons.IH) simp
  with g show ?case by (simp add: add.assoc)
qed

lemma put_get_items:
  assumes "list_all valid xs" and "off + length (enc_list xs) \<le> length buf"
  shows "rbind (put_items put buf off xs) (\<lambda>(buf', _). get_items get buf' off (length xs))
           = Inr (xs, off + length (enc_list xs))"
proof -
  have "get_items get (take off buf @ enc_list xs @ drop (off + length (enc_list xs)) buf)
          (length (take off buf)) (length xs)
        = Inr (xs, length (take off buf) + length (enc_list xs))"
    using assms(1) by (rule get_items_enc)
  then show ?thesis using assms by (simp add: put_items_enc bput_def)
qed

end

subsection \<open>Runs of a component\<close>

text \<open>
  A component is a step function over its operations. The contract: from a state that satisfies
  the invariant, an admissible operation does not raise and keeps the invariant. Its client fact
  is that whole runs do not raise and keep it; \<open>refined_system\<close> adds an abstract step function
  that the steps implement, so that whole runs implement the fold of the abstract steps.
\<close>

locale guarded_system =
  fixes step :: "'s \<Rightarrow> 'o \<Rightarrow> 's result"
    and inv :: "'s \<Rightarrow> bool"
    and admissible :: "'o \<Rightarrow> bool"
  assumes step_total: "inv s \<Longrightarrow> admissible x \<Longrightarrow> \<exists>s'. step s x = Inr s' \<and> inv s'"
begin

lemma run_total:
  assumes "inv s" and "list_all admissible xs"
  shows "\<exists>s'. rfold step s xs = Inr s' \<and> inv s'"
  using assms by (intro rfold_invariant) (auto simp: list_all_iff intro: step_total)

end

locale refined_system = guarded_system step inv admissible
  for step :: "'s \<Rightarrow> 'o \<Rightarrow> 's result" and inv :: "'s \<Rightarrow> bool" and admissible :: "'o \<Rightarrow> bool" +
  fixes abs :: "'s \<Rightarrow> 'a"
    and astep :: "'a \<Rightarrow> 'o \<Rightarrow> 'a"
  assumes step_refines: "inv s \<Longrightarrow> admissible x \<Longrightarrow> step s x = Inr s' \<Longrightarrow> abs s' = astep (abs s) x"
begin

lemma run_refines:
  assumes "inv s" and "list_all admissible xs"
  shows "\<exists>s'. rfold step s xs = Inr s' \<and> inv s' \<and> abs s' = foldl astep (abs s) xs"
  using assms
proof (induction xs arbitrary: s)
  case Nil
  then show ?case by simp
next
  case (Cons x xs)
  then obtain s1 where s1: "step s x = Inr s1" "inv s1"
    using step_total[of s x] by auto
  then have "abs s1 = astep (abs s) x" using Cons.prems by (intro step_refines) auto
  with s1 Cons.IH[OF s1(2)] Cons.prems show ?case by simp
qed

end

subsection \<open>Dictionaries\<close>

lemma map_of_update [simp]: "map_of (AList.update k v al) = (map_of al)(k \<mapsto> v)"
  by (rule update_conv')

lemma map_of_delete [simp]: "map_of (AList.delete k al) = (map_of al)(k := None)"
  by (rule delete_conv')

lemma distinct_keys_update [simp, intro]:
  "distinct (map fst al) \<Longrightarrow> distinct (map fst (AList.update k v al))"
  by (rule distinct_update)

lemma distinct_keys_delete [simp, intro]:
  "distinct (map fst al) \<Longrightarrow> distinct (map fst (AList.delete k al))"
  by (rule distinct_delete)

lemma keys_update: "fst ` set (AList.update k v al) = insert k (fst ` set al)"
  by (simp add: dom_map_of_conv_image_fst[symmetric] update_conv')

lemma keys_delete: "fst ` set (AList.delete k al) = fst ` set al - {k}"
  by (simp add: dom_map_of_conv_image_fst[symmetric] delete_conv')

lemma delete_absent: "map_of al k = None \<Longrightarrow> AList.delete k al = al"
  by (induction al) (auto split: if_splits)

lemma length_delete_present:
  "distinct (map fst al) \<Longrightarrow> k \<in> fst ` set al \<Longrightarrow> Suc (length (AList.delete k al)) = length al"
proof (induction al)
  case Nil
  then show ?case by simp
next
  case (Cons p al)
  show ?case
  proof (cases "fst p = k")
    case True
    then have "AList.delete k (p # al) = AList.delete k al" by (cases p) simp
    moreover have "map_of al k = None" using True Cons.prems by (simp add: map_of_eq_None_iff)
    ultimately show ?thesis by (simp add: delete_absent)
  next
    case False
    then have "AList.delete k (p # al) = p # AList.delete k al" by (cases p) auto
    with Cons False show ?thesis by auto
  qed
qed

end
