(* ===== verification/Collections_Bx.thy ===== *)
theory Collections_Bx
  imports Bx_Prelude
begin

text \<open>
  The bounded and expiring containers of \<open>bxcommon/utils\<close>: \<open>ExpirationQueue\<close>
  (\<open>expiration_queue.py\<close>), \<open>LimitedSizeDict\<close> and \<open>LimitedSizeSet\<close>
  (\<open>limited_size_dict.py\<close>, \<open>limited_size_set.py\<close>) and \<open>PriorityQueue\<close>
  (\<open>collections/priority_queue.py\<close>).

  \<open>remove_expired\<close> and \<open>remove_oldest\<close> call back into the object that owns the queue, and the
  callback may change the queue while the loop runs. The loops are therefore functions of the
  owner's state, given how the queue is read from and written to it; the locale
  \<open>expiry_owner\<close> states what the loops need of the callback.
\<close>

subsection \<open>ExpirationQueue\<close>

record 'a ExpirationQueue =
  time_to_live_sec :: time
  queue :: "('a \<times> time) list"

definition ExpirationQueue_init :: "time \<Rightarrow> 'a ExpirationQueue result" where
  "ExpirationQueue_init ttl =
     (if ttl < 0 then Inl ValueError else Inr \<lparr>time_to_live_sec = ttl, queue = []\<rparr>)"

definition ExpirationQueue_len :: "'a ExpirationQueue \<Rightarrow> nat" where
  "ExpirationQueue_len q = length (queue q)"

definition ExpirationQueue_bool :: "'a ExpirationQueue \<Rightarrow> bool" where
  "ExpirationQueue_bool q \<longleftrightarrow> ExpirationQueue_len q > 0"

definition ExpirationQueue_add :: "time \<Rightarrow> 'a \<Rightarrow> 'a ExpirationQueue \<Rightarrow> 'a ExpirationQueue" where
  "ExpirationQueue_add now item q = q\<lparr>queue := AList.update item now (queue q)\<rparr>"

definition ExpirationQueue_remove :: "'a \<Rightarrow> 'a ExpirationQueue \<Rightarrow> 'a ExpirationQueue" where
  "ExpirationQueue_remove item q =
     (if item \<in> fst ` set (queue q) then q\<lparr>queue := AList.delete item (queue q)\<rparr> else q)"

definition ExpirationQueue_get_oldest :: "'a ExpirationQueue \<Rightarrow> 'a option" where
  "ExpirationQueue_get_oldest q = (case queue q of [] \<Rightarrow> None | (item, _) # _ \<Rightarrow> Some item)"

definition ExpirationQueue_get_oldest_item_timestamp :: "'a ExpirationQueue \<Rightarrow> time option" where
  "ExpirationQueue_get_oldest_item_timestamp q =
     (case ExpirationQueue_get_oldest q of None \<Rightarrow> None | Some oldest_item \<Rightarrow> map_of (queue q) oldest_item)"

text \<open>
  The \<open>while\<close> loop of \<open>remove_expired\<close>: the first argument is the number of iterations the
  limit still allows.
\<close>

primrec ExpirationQueue_remove_expired_loop ::
    "nat \<Rightarrow> ('s \<Rightarrow> 'a ExpirationQueue) \<Rightarrow> ('a ExpirationQueue \<Rightarrow> 's \<Rightarrow> 's) \<Rightarrow>
     ('a \<Rightarrow> 's \<Rightarrow> 's result) \<Rightarrow> time \<Rightarrow> 's \<Rightarrow> ('a list \<times> 's) result" where
  "ExpirationQueue_remove_expired_loop 0 get_q set_q remove_callback current_time s = Inr ([], s)"
| "ExpirationQueue_remove_expired_loop (Suc n) get_q set_q remove_callback current_time s =
     (case queue (get_q s) of
        [] \<Rightarrow> Inr ([], s)
      | (item, _) # rest \<Rightarrow>
          (case ExpirationQueue_get_oldest_item_timestamp (get_q s) of
             None \<Rightarrow> Inl TypeError
           | Some oldest \<Rightarrow>
               if current_time - oldest > time_to_live_sec (get_q s) then
                 rbind (remove_callback item (set_q ((get_q s)\<lparr>queue := rest\<rparr>) s)) (\<lambda>s'.
                 rbind (ExpirationQueue_remove_expired_loop n get_q set_q remove_callback current_time s')
                   (\<lambda>(removed, s''). Inr (item # removed, s'')))
               else Inr ([], s)))"

definition ExpirationQueue_remove_expired ::
    "('s \<Rightarrow> 'a ExpirationQueue) \<Rightarrow> ('a ExpirationQueue \<Rightarrow> 's \<Rightarrow> 's) \<Rightarrow> ('a \<Rightarrow> 's \<Rightarrow> 's result) \<Rightarrow>
     time \<Rightarrow> time option \<Rightarrow> nat option \<Rightarrow> 's \<Rightarrow> ('a list \<times> 's) result" where
  "ExpirationQueue_remove_expired get_q set_q remove_callback now current_time limit s =
     (let current_time' = (case current_time of None \<Rightarrow> now | Some t \<Rightarrow> t);
          limit' = (case limit of None \<Rightarrow> length (queue (get_q s)) | Some l \<Rightarrow> l)
      in ExpirationQueue_remove_expired_loop limit' get_q set_q remove_callback current_time' s)"

definition ExpirationQueue_remove_oldest ::
    "('s \<Rightarrow> 'a ExpirationQueue) \<Rightarrow> ('a ExpirationQueue \<Rightarrow> 's \<Rightarrow> 's) \<Rightarrow> ('a \<Rightarrow> 's \<Rightarrow> 's result) \<Rightarrow>
     's \<Rightarrow> 's result" where
  "ExpirationQueue_remove_oldest get_q set_q remove_callback s =
     (case queue (get_q s) of
        [] \<Rightarrow> Inr s
      | (item, _) # rest \<Rightarrow> remove_callback item (set_q ((get_q s)\<lparr>queue := rest\<rparr>) s))"

definition ExpirationQueue_clear :: "'a ExpirationQueue \<Rightarrow> 'a ExpirationQueue" where
  "ExpirationQueue_clear q = q\<lparr>queue := []\<rparr>"

text \<open>The queue on its own: no callback (\<open>remove_callback=None\<close>).\<close>

definition no_callback :: "'a \<Rightarrow> 's \<Rightarrow> 's result" where
  "no_callback item s = Inr s"

definition ExpirationQueue_remove_expired_plain ::
    "time \<Rightarrow> nat option \<Rightarrow> 'a ExpirationQueue \<Rightarrow> ('a list \<times> 'a ExpirationQueue) result" where
  "ExpirationQueue_remove_expired_plain now limit q =
     ExpirationQueue_remove_expired id (\<lambda>q' _. q') no_callback now None limit q"

definition eq_wf :: "'a ExpirationQueue \<Rightarrow> bool" where
  "eq_wf q \<longleftrightarrow> distinct (map fst (queue q))"

definition eq_in_time_order :: "'a ExpirationQueue \<Rightarrow> bool" where
  "eq_in_time_order q \<longleftrightarrow> sorted (map snd (queue q))"

definition eq_expired :: "time \<Rightarrow> 'a ExpirationQueue \<Rightarrow> 'a \<times> time \<Rightarrow> bool" where
  "eq_expired now q p \<longleftrightarrow> now - snd p > time_to_live_sec q"

lemma no_callback_apply: "no_callback x s = Inr s"
  by (simp add: no_callback_def)

lemma queue_ops [simp]:
  "queue (ExpirationQueue_add now x q) = AList.update x now (queue q)"
  "queue (ExpirationQueue_remove x q) = AList.delete x (queue q)"
  "queue (ExpirationQueue_clear q) = []"
  "time_to_live_sec (ExpirationQueue_add now x q) = time_to_live_sec q"
  "time_to_live_sec (ExpirationQueue_remove x q) = time_to_live_sec q"
  "time_to_live_sec (ExpirationQueue_clear q) = time_to_live_sec q"
  by (auto simp: ExpirationQueue_add_def ExpirationQueue_remove_def ExpirationQueue_clear_def)

lemma get_oldest_item_timestamp_Cons [simp]:
  "queue q = (x, t) # rest \<Longrightarrow> ExpirationQueue_get_oldest_item_timestamp q = Some t"
  by (simp add: ExpirationQueue_get_oldest_item_timestamp_def ExpirationQueue_get_oldest_def)

lemma eq_wf_ops [simp, intro]:
  "eq_wf q \<Longrightarrow> eq_wf (ExpirationQueue_add now x q)"
  "eq_wf q \<Longrightarrow> eq_wf (ExpirationQueue_remove x q)"
  "eq_wf (ExpirationQueue_clear q)"
  by (auto simp: eq_wf_def)

lemma update_fresh: "k \<notin> fst ` set al \<Longrightarrow> AList.update k v al = al @ [(k, v)]"
  by (induction al) auto

lemma sorted_keys_delete: "sorted (map snd al) \<Longrightarrow> sorted (map snd (AList.delete k al))"
  by (induction al) (auto simp: AList.delete_eq)

lemma eq_in_time_order_ops:
  "eq_in_time_order q \<Longrightarrow> x \<notin> fst ` set (queue q) \<Longrightarrow> \<forall>t \<in> snd ` set (queue q). t \<le> now \<Longrightarrow>
   eq_in_time_order (ExpirationQueue_add now x q)"
  "eq_in_time_order q \<Longrightarrow> eq_in_time_order (ExpirationQueue_remove x q)"
  by (auto simp: eq_in_time_order_def update_fresh sorted_append sorted_keys_delete)

text \<open>Without a callback the loop splits the queue at the first entry that is not expired.\<close>

lemma remove_expired_plain_loop:
  "eq_wf q \<Longrightarrow> length (queue q) \<le> n \<Longrightarrow>
   ExpirationQueue_remove_expired_loop n id (\<lambda>q' _. q') no_callback now q
     = Inr (map fst (takeWhile (eq_expired now q) (queue q)),
            q\<lparr>queue := dropWhile (eq_expired now q) (queue q)\<rparr>)"
proof (induction n arbitrary: q)
  case 0
  then show ?case by simp
next
  case (Suc n)
  show ?case
  proof (cases "queue q")
    case Nil
    then show ?thesis by simp
  next
    case (Cons p rest)
    obtain x t where p: "p = (x, t)" by (cases p)
    let ?q' = "q\<lparr>queue := rest\<rparr>"
    have same: "eq_expired now ?q' = eq_expired now q" by (auto simp: eq_expired_def)
    have "ExpirationQueue_remove_expired_loop n id (\<lambda>q' _. q') no_callback now ?q'
        = Inr (map fst (takeWhile (eq_expired now ?q') (queue ?q')),
               ?q'\<lparr>queue := dropWhile (eq_expired now ?q') (queue ?q')\<rparr>)"
      using Suc.prems Cons by (intro Suc.IH) (auto simp: eq_wf_def)
    moreover have "ExpirationQueue_remove_expired_loop (Suc n) id (\<lambda>q' _. q') no_callback now q
        = (if eq_expired now q p
           then rbind (ExpirationQueue_remove_expired_loop n id (\<lambda>q' _. q') no_callback now ?q')
                  (\<lambda>(removed, s''). Inr (x # removed, s''))
           else Inr ([], q))"
      using Cons p by (simp add: no_callback_apply eq_expired_def)
    moreover have "q\<lparr>queue := (x, t) # rest\<rparr> = q"
      using Cons p by simp
    ultimately show ?thesis
      using Cons p by (simp add: same del: ExpirationQueue_remove_expired_loop.simps id_apply)
  qed
qed

lemma sorted_takeWhile_eq_filter:
  assumes "sorted (map f xs)" and "\<And>x y. f x \<le> f y \<Longrightarrow> P y \<Longrightarrow> P x"
  shows "takeWhile P xs = filter P xs \<and> dropWhile P xs = filter (\<lambda>x. \<not> P x) xs"
  using assms(1)
proof (induction xs)
  case Nil
  then show ?case by simp
next
  case (Cons x xs)
  show ?case
  proof (cases "P x")
    case True
    with Cons show ?thesis by auto
  next
    case False
    then have "\<forall>y \<in> set xs. \<not> P y" using Cons.prems assms(2) by fastforce
    with False show ?thesis by (auto simp: filter_empty_conv filter_id_conv)
  qed
qed

subsection \<open>The owner of an expiration queue\<close>

locale expiry_owner =
  fixes get_q :: "'s \<Rightarrow> 'a ExpirationQueue"
    and set_q :: "'a ExpirationQueue \<Rightarrow> 's \<Rightarrow> 's"
    and cb :: "'a \<Rightarrow> 's \<Rightarrow> 's result"
    and owner_inv :: "'s \<Rightarrow> bool"
  assumes owner_wf: "owner_inv s \<Longrightarrow> eq_wf (get_q s)"
    and cb_total: "owner_inv s \<Longrightarrow> queue (get_q s) = (x, t) # rest \<Longrightarrow>
      \<exists>s'. cb x (set_q ((get_q s)\<lparr>queue := rest\<rparr>) s) = Inr s' \<and> owner_inv s'
         \<and> set (queue (get_q s')) \<subseteq> set rest"
begin

lemma distinct_subset_length:
  "distinct (map fst xs) \<Longrightarrow> set xs \<subseteq> set ys \<Longrightarrow> length xs \<le> length ys"
  by (metis card_mono distinct_card distinct_map List.finite_set card_length le_trans)

lemma remove_expired_loop_total:
  "owner_inv s \<Longrightarrow>
   \<exists>removed s'. ExpirationQueue_remove_expired_loop n get_q set_q cb now s = Inr (removed, s')
     \<and> owner_inv s' \<and> set (queue (get_q s')) \<subseteq> set (queue (get_q s)) \<and> length removed \<le> n"
proof (induction n arbitrary: s)
  case 0
  then show ?case by simp
next
  case (Suc n)
  show ?case
  proof (cases "queue (get_q s)")
    case Nil
    with Suc.prems show ?thesis by simp
  next
    case (Cons p rest)
    obtain x t where p: "p = (x, t)" by (cases p)
    note q = Cons[unfolded p]
    obtain s1 where s1: "cb x (set_q ((get_q s)\<lparr>queue := rest\<rparr>) s) = Inr s1" "owner_inv s1"
        "set (queue (get_q s1)) \<subseteq> set rest"
      using cb_total[OF Suc.prems q] by blast
    obtain r s2 where s2: "ExpirationQueue_remove_expired_loop n get_q set_q cb now s1 = Inr (r, s2)"
        "owner_inv s2" "set (queue (get_q s2)) \<subseteq> set (queue (get_q s1))" "length r \<le> n"
      using Suc.IH[OF s1(2)] by blast
    show ?thesis
    proof (cases "now - t > time_to_live_sec (get_q s)")
      case True
      have "ExpirationQueue_remove_expired_loop (Suc n) get_q set_q cb now s = Inr (x # r, s2)"
        using q s1(1) s2(1) True by simp
      moreover have "set (queue (get_q s2)) \<subseteq> set (queue (get_q s))"
        using s1(3) s2(3) q by auto
      ultimately show ?thesis using s2(2,4) by auto
    next
      case False
      with q Suc.prems show ?thesis by simp
    qed
  qed
qed

lemma remove_expired_total:
  assumes "owner_inv s"
  shows "\<exists>removed s'. ExpirationQueue_remove_expired get_q set_q cb now ct limit s = Inr (removed, s')
     \<and> owner_inv s' \<and> set (queue (get_q s')) \<subseteq> set (queue (get_q s))"
  unfolding ExpirationQueue_remove_expired_def Let_def
  using remove_expired_loop_total[OF assms] by blast

text \<open>
  How far the loop comes: what it removed has left the queue, and it stops at the limit, at an empty
  queue or at an item that has not expired.
\<close>

lemma remove_expired_loop_progress:
  "owner_inv s \<Longrightarrow> ExpirationQueue_remove_expired_loop n get_q set_q cb now s = Inr (removed, s') \<Longrightarrow>
   length (queue (get_q s')) + length removed \<le> length (queue (get_q s))
   \<and> set removed \<subseteq> fst ` set (queue (get_q s)) \<and> set removed \<inter> fst ` set (queue (get_q s')) = {}
   \<and> (length removed = n \<or> queue (get_q s') = [] \<or> \<not> now - snd (hd (queue (get_q s'))) > time_to_live_sec (get_q s'))"
proof (induction n arbitrary: s removed)
  case 0
  then show ?case by simp
next
  case (Suc n)
  show ?case
  proof (cases "queue (get_q s)")
    case Nil
    with Suc.prems show ?thesis by simp
  next
    case (Cons p rest)
    obtain x t where p: "p = (x, t)" by (cases p)
    note q = Cons[unfolded p]
    show ?thesis
    proof (cases "now - t > time_to_live_sec (get_q s)")
      case False
      with q Suc.prems show ?thesis by auto
    next
      case True
      obtain s1 where s1: "cb x (set_q ((get_q s)\<lparr>queue := rest\<rparr>) s) = Inr s1" "owner_inv s1"
          "set (queue (get_q s1)) \<subseteq> set rest"
        using cb_total[OF Suc.prems(1) q] by blast
      obtain r where r: "ExpirationQueue_remove_expired_loop n get_q set_q cb now s1 = Inr (r, s')" "removed = x # r"
        using Suc.prems(2) q s1(1) True by (auto simp: rbind_eq_Inr)
      have len: "length (queue (get_q s1)) \<le> length rest"
        using owner_wf[OF s1(2)] s1(3) by (intro distinct_subset_length) (auto simp: eq_wf_def)
      have x: "x \<notin> fst ` set rest" using owner_wf[OF Suc.prems(1)] q by (auto simp: eq_wf_def)
      have "set (queue (get_q s')) \<subseteq> set (queue (get_q s1))"
        using remove_expired_loop_total[OF s1(2), of n now] r(1) by auto
      then have "fst ` set (queue (get_q s')) \<subseteq> fst ` set rest" using s1(3) by blast
      moreover have "set r \<subseteq> fst ` set rest" using Suc.IH[OF s1(2) r(1)] s1(3) by blast
      ultimately show ?thesis
        using Suc.IH[OF s1(2) r(1)] len x q by (auto simp: r(2))
    qed
  qed
qed

lemma remove_oldest_total:
  assumes "owner_inv s"
  shows "\<exists>s'. ExpirationQueue_remove_oldest get_q set_q cb s = Inr s' \<and> owner_inv s'
     \<and> set (queue (get_q s')) \<subseteq> set (queue (get_q s))
     \<and> (queue (get_q s) \<noteq> [] \<longrightarrow> length (queue (get_q s')) < length (queue (get_q s)))"
proof (cases "queue (get_q s)")
  case Nil
  with assms show ?thesis by (simp add: ExpirationQueue_remove_oldest_def)
next
  case (Cons p rest)
  obtain x t where p: "p = (x, t)" by (cases p)
  obtain s1 where s1: "cb x (set_q ((get_q s)\<lparr>queue := rest\<rparr>) s) = Inr s1" "owner_inv s1"
      "set (queue (get_q s1)) \<subseteq> set rest"
    using cb_total[OF assms Cons[unfolded p]] by blast
  have "length (queue (get_q s1)) \<le> length rest"
    using owner_wf[OF s1(2)] s1(3) by (intro distinct_subset_length) (auto simp: eq_wf_def)
  with s1 Cons p show ?thesis by (auto simp: ExpirationQueue_remove_oldest_def)
qed

end

interpretation plain_queue: expiry_owner id "\<lambda>q _. q" no_callback eq_wf
  by unfold_locales (auto simp: no_callback_def eq_wf_def)

text \<open>
  \<open>ExpirationQueue.remove_expired\<close> without a limit, on a queue whose timestamps are in insertion
  order, removes and returns exactly the items whose age exceeds the time to live, in queue order,
  and keeps exactly the others.
\<close>

theorem remove_expired_exact:
  assumes "eq_wf q" and "eq_in_time_order q"
  shows "ExpirationQueue_remove_expired_plain now None q
    = Inr (map fst (filter (eq_expired now q) (queue q)),
           q\<lparr>queue := filter (\<lambda>p. \<not> eq_expired now q p) (queue q)\<rparr>)"
proof -
  have "takeWhile (eq_expired now q) (queue q) = filter (eq_expired now q) (queue q)
      \<and> dropWhile (eq_expired now q) (queue q) = filter (\<lambda>p. \<not> eq_expired now q p) (queue q)"
    using assms(2) by (intro sorted_takeWhile_eq_filter[where f = snd])
      (auto simp: eq_in_time_order_def eq_expired_def)
  then show ?thesis
    using assms(1) by (simp add: ExpirationQueue_remove_expired_plain_def
        ExpirationQueue_remove_expired_def remove_expired_plain_loop)
qed

theorem remove_expired_exact_witness:
  "ExpirationQueue_remove_expired_plain 20 None
     \<lparr>time_to_live_sec = 5, queue = [(''a'', 10), (''b'', 12), (''c'', 18)]\<rparr>
   = Inr ([''a'', ''b''], \<lparr>time_to_live_sec = 5, queue = [(''c'', 18)]\<rparr>)"
  using remove_expired_exact[of "\<lparr>time_to_live_sec = 5, queue = [(''a'', 10), (''b'', 12), (''c'', 18)]\<rparr>" 20]
  by (simp add: eq_wf_def eq_in_time_order_def eq_expired_def)

text \<open>
  Adding an item that is already queued refreshes its timestamp but leaves its place, so
  \<open>get_oldest\<close> may return an item that is not the oldest one, and an expired item behind it is not
  removed.
\<close>

theorem readd_keeps_place:
  "let q = ExpirationQueue_add 9 ''a'' (ExpirationQueue_add 1 ''b'' (ExpirationQueue_add 0 ''a''
             \<lparr>time_to_live_sec = 5, queue = []\<rparr>))
   in ExpirationQueue_get_oldest q = Some ''a'' \<and> map_of (queue q) ''a'' = Some 9
      \<and> map_of (queue q) ''b'' = Some 1
      \<and> ExpirationQueue_remove_expired_plain 10 None q = Inr ([], q)"
  by (simp add: ExpirationQueue_add_def ExpirationQueue_get_oldest_def
      ExpirationQueue_remove_expired_plain_def ExpirationQueue_remove_expired_def
      ExpirationQueue_get_oldest_item_timestamp_def)

subsection \<open>LimitedSizeDict\<close>

record ('k, 'v) LimitedSizeDict =
  lsd_contents :: "('k \<times> 'v) list"
  key_tracker :: "'k list"
  lsd_max_size :: nat

definition LimitedSizeDict_init :: "nat \<Rightarrow> ('k, 'v) LimitedSizeDict" where
  "LimitedSizeDict_init max_size = \<lparr>lsd_contents = [], key_tracker = [], lsd_max_size = max_size\<rparr>"

definition LimitedSizeDict_contains :: "'k \<Rightarrow> ('k, 'v) LimitedSizeDict \<Rightarrow> bool" where
  "LimitedSizeDict_contains item d \<longleftrightarrow> item \<in> fst ` set (lsd_contents d)"

text \<open>
  \<open>_make_room_for_new_item\<close>: recursion on the tracker. An empty tracker that is still too long
  (\<open>max_size = 0\<close>) raises \<open>IndexError\<close>; a tracked key that is no longer stored raises \<open>KeyError\<close>.
\<close>

fun LimitedSizeDict_make_room ::
    "nat \<Rightarrow> 'k list \<Rightarrow> ('k \<times> 'v) list \<Rightarrow> ('k list \<times> ('k \<times> 'v) list) result" where
  "LimitedSizeDict_make_room max_size [] contents =
     (if 0 \<ge> max_size then Inl IndexError else Inr ([], contents))"
| "LimitedSizeDict_make_room max_size (key # tracker) contents =
     (if Suc (length tracker) \<ge> max_size then
        (if key \<in> fst ` set contents
         then LimitedSizeDict_make_room max_size tracker (AList.delete key contents)
         else Inl KeyError)
      else Inr (key # tracker, contents))"

definition LimitedSizeDict_add ::
    "'k \<Rightarrow> 'v \<Rightarrow> ('k, 'v) LimitedSizeDict \<Rightarrow> ('k, 'v) LimitedSizeDict result" where
  "LimitedSizeDict_add key value d =
     rbind (LimitedSizeDict_make_room (lsd_max_size d) (key_tracker d) (lsd_contents d))
       (\<lambda>(tracker, contents).
          Inr (d\<lparr>lsd_contents := AList.update key value contents, key_tracker := tracker @ [key]\<rparr>))"

definition LimitedSizeDict_setitem ::
    "'k \<Rightarrow> 'v \<Rightarrow> ('k, 'v) LimitedSizeDict \<Rightarrow> ('k, 'v) LimitedSizeDict result" where
  "LimitedSizeDict_setitem key value d =
     (if LimitedSizeDict_contains key d
      then Inr (d\<lparr>lsd_contents := AList.update key value (lsd_contents d)\<rparr>)
      else LimitedSizeDict_add key value d)"

definition LimitedSizeDict_delitem ::
    "'k \<Rightarrow> ('k, 'v) LimitedSizeDict \<Rightarrow> ('k, 'v) LimitedSizeDict result" where
  "LimitedSizeDict_delitem key d =
     (if \<not> LimitedSizeDict_contains key d then Inl KeyError
      else if key \<notin> set (key_tracker d) then Inl ValueError
      else Inr (d\<lparr>lsd_contents := AList.delete key (lsd_contents d),
                  key_tracker := remove1 key (key_tracker d)\<rparr>))"

definition LimitedSizeDict_getitem :: "'k \<Rightarrow> ('k, 'v) LimitedSizeDict \<Rightarrow> 'v result" where
  "LimitedSizeDict_getitem item d =
     (case map_of (lsd_contents d) item of None \<Rightarrow> Inl KeyError | Some v \<Rightarrow> Inr v)"

definition LimitedSizeDict_len :: "('k, 'v) LimitedSizeDict \<Rightarrow> nat" where
  "LimitedSizeDict_len d = length (lsd_contents d)"

definition LimitedSizeDict_get :: "'k \<Rightarrow> 'v option \<Rightarrow> ('k, 'v) LimitedSizeDict \<Rightarrow> 'v option" where
  "LimitedSizeDict_get key default_value d =
     (case map_of (lsd_contents d) key of None \<Rightarrow> default_value | Some v \<Rightarrow> Some v)"

definition lsd_inv :: "('k, 'v) LimitedSizeDict \<Rightarrow> bool" where
  "lsd_inv d \<longleftrightarrow> map fst (lsd_contents d) = key_tracker d \<and> distinct (key_tracker d)
     \<and> length (key_tracker d) \<le> lsd_max_size d \<and> 0 < lsd_max_size d"

lemma lsd_inv_len: "lsd_inv d \<Longrightarrow> length (key_tracker d) = LimitedSizeDict_len d"
  by (metis LimitedSizeDict_len_def length_map lsd_inv_def)

lemma make_room_aligned:
  "map fst contents = tracker \<Longrightarrow> distinct tracker \<Longrightarrow> 0 < m \<Longrightarrow>
   LimitedSizeDict_make_room m tracker contents
     = Inr (drop (Suc (length tracker) - m) tracker, drop (Suc (length tracker) - m) contents)"
proof (induction m tracker contents rule: LimitedSizeDict_make_room.induct)
  case (1 m contents)
  then show ?case by simp
next
  case (2 m key tracker contents)
  obtain v rest where c: "contents = (key, v) # rest" "map fst rest = tracker"
    using 2(2) by (cases contents) auto
  have "key \<notin> fst ` set rest" using 2(3) c(2) by force
  then have del: "AList.delete key contents = rest" by (simp add: c(1))
  show ?case
  proof (cases "m \<le> Suc (length tracker)")
    case True
    have "LimitedSizeDict_make_room m tracker rest
        = Inr (drop (Suc (length tracker) - m) tracker, drop (Suc (length tracker) - m) rest)"
      using 2 c del True by auto
    moreover have "Suc (Suc (length tracker)) - m = Suc (Suc (length tracker) - m)"
      using True by arith
    ultimately show ?thesis using True del by (simp add: c(1))
  next
    case False
    then show ?thesis by simp
  qed
qed

lemma update_keys_present: "k \<in> fst ` set al \<Longrightarrow> map fst (AList.update k v al) = map fst al"
  by (induction al) auto

lemma map_fst_delete: "distinct (map fst al) \<Longrightarrow> map fst (AList.delete k al) = remove1 k (map fst al)"
  by (simp add: AList.delete_keys distinct_remove1_removeAll)

lemma LimitedSizeDict_add_fresh:
  assumes "lsd_inv d" and "\<not> LimitedSizeDict_contains k d"
  shows "LimitedSizeDict_add k v d = Inr (d\<lparr>
      lsd_contents := drop (Suc (LimitedSizeDict_len d) - lsd_max_size d) (lsd_contents d) @ [(k, v)],
      key_tracker := drop (Suc (LimitedSizeDict_len d) - lsd_max_size d) (key_tracker d) @ [k]\<rparr>)"
proof -
  let ?n = "Suc (LimitedSizeDict_len d) - lsd_max_size d"
  have len: "length (key_tracker d) = LimitedSizeDict_len d"
    using assms(1) by (rule lsd_inv_len)
  have "k \<notin> fst ` set (drop ?n (lsd_contents d))"
    using assms(2) by (auto simp: LimitedSizeDict_contains_def dest: in_set_dropD)
  then show ?thesis
    using assms(1) len by (simp add: LimitedSizeDict_add_def make_room_aligned lsd_inv_def update_fresh)
qed

lemma lsd_inv_setitem:
  assumes "lsd_inv d"
  shows "\<exists>d'. LimitedSizeDict_setitem k v d = Inr d' \<and> lsd_inv d'"
proof (cases "LimitedSizeDict_contains k d")
  case True
  with assms show ?thesis
    by (auto simp: LimitedSizeDict_setitem_def lsd_inv_def LimitedSizeDict_contains_def
        update_keys_present)
next
  case False
  let ?n = "Suc (LimitedSizeDict_len d) - lsd_max_size d"
  have k: "k \<notin> set (key_tracker d)"
    using False assms by (auto simp: lsd_inv_def LimitedSizeDict_contains_def simp flip: set_map)
  have len: "length (key_tracker d) = LimitedSizeDict_len d"
    using assms by (rule lsd_inv_len)
  have "distinct (drop ?n (key_tracker d) @ [k])"
    using assms k by (auto simp: lsd_inv_def dest: in_set_dropD)
  moreover have "length (drop ?n (key_tracker d) @ [k]) \<le> lsd_max_size d"
    using assms len by (auto simp: lsd_inv_def)
  moreover have "map fst (drop ?n (lsd_contents d) @ [(k, v)]) = drop ?n (key_tracker d) @ [k]"
    using assms by (simp add: lsd_inv_def drop_map[symmetric])
  ultimately show ?thesis
    using False LimitedSizeDict_add_fresh[OF assms False, of v] assms
    by (simp add: LimitedSizeDict_setitem_def lsd_inv_def)
qed

lemma lsd_inv_delitem:
  assumes "lsd_inv d" and "LimitedSizeDict_contains k d"
  shows "\<exists>d'. LimitedSizeDict_delitem k d = Inr d' \<and> lsd_inv d'"
proof -
  let ?d = "d\<lparr>lsd_contents := AList.delete k (lsd_contents d),
              key_tracker := remove1 k (key_tracker d)\<rparr>"
  have "k \<in> set (key_tracker d)"
    using assms by (metis LimitedSizeDict_contains_def list.set_map lsd_inv_def)
  then have "LimitedSizeDict_delitem k d = Inr ?d"
    using assms(2) by (simp add: LimitedSizeDict_delitem_def)
  moreover have "lsd_inv ?d"
    using assms(1) by (auto simp: lsd_inv_def map_fst_delete length_remove1)
  ultimately show ?thesis by blast
qed

definition lsd_set_step ::
    "('k, 'v) LimitedSizeDict \<Rightarrow> 'k \<times> 'v \<Rightarrow> ('k, 'v) LimitedSizeDict result" where
  "lsd_set_step d p = LimitedSizeDict_setitem (fst p) (snd p) d"

interpretation lsd: guarded_system lsd_set_step lsd_inv "\<lambda>_. True"
  by unfold_locales (auto simp: lsd_set_step_def intro: lsd_inv_setitem)

text \<open>
  Any sequence of item assignments to a fresh \<open>LimitedSizeDict\<close> of positive size succeeds, and
  afterwards the dictionary holds at most \<open>max_size\<close> entries whose keys are exactly the tracked keys,
  in order.
\<close>

theorem limited_size_dict_bounded:
  assumes "0 < m"
  shows "\<exists>d. rfold lsd_set_step (LimitedSizeDict_init m) kvs = Inr d
     \<and> LimitedSizeDict_len d \<le> lsd_max_size d \<and> map fst (lsd_contents d) = key_tracker d
     \<and> distinct (key_tracker d)"
proof -
  have "lsd_inv (LimitedSizeDict_init m)"
    using assms by (simp add: lsd_inv_def LimitedSizeDict_init_def)
  moreover have "list_all (\<lambda>_. True) kvs" by (simp add: list_all_iff)
  ultimately obtain d where "rfold lsd_set_step (LimitedSizeDict_init m) kvs = Inr d" "lsd_inv d"
    using lsd.run_total by blast
  moreover from this(2) have "LimitedSizeDict_len d = length (key_tracker d)"
    by (simp add: lsd_inv_len)
  ultimately show ?thesis
    by (auto simp: lsd_inv_def)
qed

theorem limited_size_dict_bounded_witness:
  "\<exists>d. rfold lsd_set_step (LimitedSizeDict_init 2) [(1::nat, ''a''), (2, ''b''), (3, ''c'')] = Inr d
     \<and> LimitedSizeDict_len d \<le> lsd_max_size d \<and> map fst (lsd_contents d) = key_tracker d
     \<and> distinct (key_tracker d)"
  by (rule limited_size_dict_bounded) simp

text \<open>
  Assigning a new key to a full \<open>LimitedSizeDict\<close> evicts exactly the key that was inserted
  first and appends the new one.
\<close>

theorem limited_size_dict_evicts_oldest:
  assumes "lsd_inv d" and "\<not> LimitedSizeDict_contains k d"
    and "LimitedSizeDict_len d = lsd_max_size d"
  shows "LimitedSizeDict_setitem k v d
    = Inr (d\<lparr>lsd_contents := tl (lsd_contents d) @ [(k, v)], key_tracker := tl (key_tracker d) @ [k]\<rparr>)"
  using assms LimitedSizeDict_add_fresh[OF assms(1,2), of v]
  by (simp add: LimitedSizeDict_setitem_def drop_Suc)

theorem limited_size_dict_evicts_oldest_witness:
  "LimitedSizeDict_setitem (3::nat) ''c''
     \<lparr>lsd_contents = [(1, ''a''), (2, ''b'')], key_tracker = [1, 2], lsd_max_size = 2\<rparr>
   = Inr \<lparr>lsd_contents = [(2, ''b''), (3, ''c'')], key_tracker = [2, 3], lsd_max_size = 2\<rparr>"
  using limited_size_dict_evicts_oldest
    [of "\<lparr>lsd_contents = [(1, ''a''), (2, ''b'')], key_tracker = [1, 2], lsd_max_size = 2\<rparr>" "3::nat" "''c''"]
  by (simp add: lsd_inv_def LimitedSizeDict_contains_def LimitedSizeDict_len_def)

subsection \<open>LimitedSizeSet\<close>

record 'a LimitedSizeSet =
  lss_contents :: "'a set"
  item_tracker :: "'a list"
  lss_max_size :: nat

definition LimitedSizeSet_init :: "nat \<Rightarrow> 'a LimitedSizeSet" where
  "LimitedSizeSet_init max_size = \<lparr>lss_contents = {}, item_tracker = [], lss_max_size = max_size\<rparr>"

definition LimitedSizeSet_contains :: "'a \<Rightarrow> 'a LimitedSizeSet \<Rightarrow> bool" where
  "LimitedSizeSet_contains item st \<longleftrightarrow> item \<in> lss_contents st"

definition LimitedSizeSet_len :: "'a LimitedSizeSet \<Rightarrow> nat" where
  "LimitedSizeSet_len st = card (lss_contents st)"

definition LimitedSizeSet_remove :: "'a \<Rightarrow> 'a LimitedSizeSet \<Rightarrow> 'a LimitedSizeSet result" where
  "LimitedSizeSet_remove item st =
     (if item \<notin> lss_contents st then Inl KeyError
      else if item \<notin> set (item_tracker st) then Inl ValueError
      else Inr (st\<lparr>lss_contents := lss_contents st - {item},
                   item_tracker := remove1 item (item_tracker st)\<rparr>))"

fun LimitedSizeSet_make_room :: "nat \<Rightarrow> 'a list \<Rightarrow> 'a set \<Rightarrow> ('a list \<times> 'a set) result" where
  "LimitedSizeSet_make_room max_size [] contents =
     (if card contents > max_size then Inl IndexError else Inr ([], contents))"
| "LimitedSizeSet_make_room max_size (key # tracker) contents =
     (if card contents > max_size then
        (if key \<in> contents then LimitedSizeSet_make_room max_size tracker (contents - {key})
         else Inl KeyError)
      else Inr (key # tracker, contents))"

definition LimitedSizeSet_add :: "'a \<Rightarrow> 'a LimitedSizeSet \<Rightarrow> 'a LimitedSizeSet result" where
  "LimitedSizeSet_add item st =
     (let contents = insert item (lss_contents st) in
      if card contents \<noteq> length (item_tracker st) then
        rbind (LimitedSizeSet_make_room (lss_max_size st) (item_tracker st) contents)
          (\<lambda>(tracker, contents'). Inr (st\<lparr>lss_contents := contents', item_tracker := tracker @ [item]\<rparr>))
      else Inr (st\<lparr>lss_contents := contents\<rparr>))"

definition lss_inv :: "'a LimitedSizeSet \<Rightarrow> bool" where
  "lss_inv st \<longleftrightarrow> set (item_tracker st) = lss_contents st \<and> distinct (item_tracker st)
     \<and> length (item_tracker st) \<le> lss_max_size st \<and> 0 < lss_max_size st"

lemma LimitedSizeSet_make_room_ok:
  assumes "distinct tracker" and "x \<notin> set tracker" and "length tracker \<le> m" and "0 < m"
  shows "LimitedSizeSet_make_room m tracker (insert x (set tracker))
     = Inr (if length tracker = m then (tl tracker, insert x (set (tl tracker)))
            else (tracker, insert x (set tracker)))"
proof (cases tracker)
  case Nil
  with assms(4) show ?thesis by simp
next
  case (Cons y ys)
  have c: "card (insert x (set tracker)) = Suc (length tracker)"
    using assms by (simp add: distinct_card)
  have c': "card (insert x (set ys)) = Suc (length ys)"
    using assms Cons by (simp add: distinct_card)
  have rest: "insert x (set tracker) - {y} = insert x (set ys)"
    using assms Cons by auto
  have last: "LimitedSizeSet_make_room m ys (insert x (set ys)) = Inr (ys, insert x (set ys))"
    if "length tracker = m"
    using that c' Cons by (cases ys) auto
  show ?thesis
    using Cons c rest last assms(3) by auto
qed

lemma LimitedSizeSet_add_cases:
  assumes "lss_inv st"
  shows "LimitedSizeSet_add x st = Inr (
     if x \<in> lss_contents st then st
     else if length (item_tracker st) = lss_max_size st
     then st\<lparr>lss_contents := insert x (set (tl (item_tracker st))), item_tracker := tl (item_tracker st) @ [x]\<rparr>
     else st\<lparr>lss_contents := insert x (lss_contents st), item_tracker := item_tracker st @ [x]\<rparr>)"
proof (cases "x \<in> lss_contents st")
  case True
  then have "card (insert x (lss_contents st)) = length (item_tracker st)"
    using assms by (metis distinct_card insert_absorb lss_inv_def)
  with True show ?thesis by (simp add: LimitedSizeSet_add_def insert_absorb)
next
  case False
  have set: "lss_contents st = set (item_tracker st)" and d: "distinct (item_tracker st)"
    using assms by (auto simp: lss_inv_def)
  have "card (insert x (lss_contents st)) \<noteq> length (item_tracker st)"
    using False set d by (simp add: distinct_card)
  moreover have "LimitedSizeSet_make_room (lss_max_size st) (item_tracker st) (insert x (set (item_tracker st)))
     = Inr (if length (item_tracker st) = lss_max_size st
            then (tl (item_tracker st), insert x (set (tl (item_tracker st))))
            else (item_tracker st, insert x (set (item_tracker st))))"
    using assms False by (intro LimitedSizeSet_make_room_ok) (auto simp: lss_inv_def)
  ultimately show ?thesis
    using False by (simp add: LimitedSizeSet_add_def set)
qed

lemma lss_inv_add:
  assumes "lss_inv st"
  shows "\<exists>st'. LimitedSizeSet_add x st = Inr st' \<and> lss_inv st' \<and> LimitedSizeSet_contains x st'"
proof -
  have "distinct (tl (item_tracker st))" "set (tl (item_tracker st)) \<subseteq> set (item_tracker st)"
    using assms by (cases "item_tracker st"; auto simp: lss_inv_def)+
  then show ?thesis
    using assms by (auto simp: LimitedSizeSet_add_cases lss_inv_def LimitedSizeSet_contains_def)
qed

interpretation lss: guarded_system "\<lambda>st x. LimitedSizeSet_add x st" lss_inv "\<lambda>_. True"
proof unfold_locales
  fix st :: "'a LimitedSizeSet" and x
  assume "lss_inv st"
  from lss_inv_add[OF this, of x] show "\<exists>st'. LimitedSizeSet_add x st = Inr st' \<and> lss_inv st'"
    by blast
qed

text \<open>
  Any sequence of \<open>LimitedSizeSet.add\<close> calls on a fresh set of positive size succeeds; the set
  then holds at most \<open>max_size\<close> items, and its items are exactly the tracked ones, without repetition.
\<close>

theorem limited_size_set_bounded:
  assumes "0 < m"
  shows "\<exists>st. rfold (\<lambda>st x. LimitedSizeSet_add x st) (LimitedSizeSet_init m) xs = Inr st
     \<and> LimitedSizeSet_len st \<le> lss_max_size st \<and> set (item_tracker st) = lss_contents st
     \<and> distinct (item_tracker st)"
proof -
  have "lss_inv (LimitedSizeSet_init m)"
    using assms by (simp add: lss_inv_def LimitedSizeSet_init_def)
  moreover have "list_all (\<lambda>_. True) xs" by (simp add: list_all_iff)
  ultimately obtain st where "rfold (\<lambda>st x. LimitedSizeSet_add x st) (LimitedSizeSet_init m) xs = Inr st"
      and inv: "lss_inv st"
    using lss.run_total by blast
  moreover have "LimitedSizeSet_len st \<le> lss_max_size st"
    using inv by (metis LimitedSizeSet_len_def distinct_card lss_inv_def)
  ultimately show ?thesis by (auto simp: lss_inv_def)
qed

theorem limited_size_set_bounded_witness:
  "\<exists>st. rfold (\<lambda>st x. LimitedSizeSet_add x st) (LimitedSizeSet_init 2) [1::nat, 2, 1, 3] = Inr st
     \<and> LimitedSizeSet_len st \<le> lss_max_size st \<and> set (item_tracker st) = lss_contents st
     \<and> distinct (item_tracker st)"
  by (rule limited_size_set_bounded) simp

subsection \<open>PriorityQueue\<close>

text \<open>
  A priority item is the object with the function that computes its priority, which is called
  when \<open>update_priority\<close> sorts. \<open>sorted(..., reverse=True)\<close> keeps equal elements in their order:
  it reverses, sorts stably and reverses again.
\<close>

record ('a, 'p) ObjectPriority =
  op_get_priority :: "'a \<Rightarrow> 'p"
  op_obj :: 'a

record ('a, 'p) PriorityQueue =
  items_dict :: "('a \<times> ('a, 'p) ObjectPriority) list"
  items_tracker :: "('a \<times> ('a, 'p) ObjectPriority) list"
  is_reversed :: bool

definition ObjectPriority_get_priority :: "('a, 'p) ObjectPriority \<Rightarrow> 'p" where
  "ObjectPriority_get_priority item = op_get_priority item (op_obj item)"

definition PriorityQueue_init :: "bool \<Rightarrow> ('a, 'p) PriorityQueue" where
  "PriorityQueue_init rvsd = \<lparr>items_dict = [], items_tracker = [], is_reversed = rvsd\<rparr>"

definition PriorityQueue_add ::
    "('a, 'p) ObjectPriority \<Rightarrow> ('a, 'p) PriorityQueue \<Rightarrow> ('a, 'p) PriorityQueue result" where
  "PriorityQueue_add item pq =
     (if op_obj item \<notin> fst ` set (items_tracker pq) then
        Inr (pq\<lparr>items_tracker := AList.update (op_obj item) item (items_tracker pq),
                items_dict := AList.update (op_obj item) item (items_dict pq)\<rparr>)
      else Inl ValueError)"

definition PriorityQueue_push :: "'a \<Rightarrow> ('a, 'p) PriorityQueue \<Rightarrow> ('a, 'p) PriorityQueue result" where
  "PriorityQueue_push obj pq =
     (case map_of (items_tracker pq) obj of
        None \<Rightarrow> Inl ValueError
      | Some priority_item \<Rightarrow>
          Inr (if obj \<notin> fst ` set (items_dict pq)
               then pq\<lparr>items_dict := AList.update obj priority_item (items_dict pq)\<rparr> else pq))"

definition PriorityQueue_remove :: "'a \<Rightarrow> ('a, 'p) PriorityQueue \<Rightarrow> ('a, 'p) PriorityQueue" where
  "PriorityQueue_remove obj pq =
     (if obj \<in> fst ` set (items_tracker pq)
      then pq\<lparr>items_tracker := AList.delete obj (items_tracker pq),
              items_dict := AList.delete obj (items_dict pq)\<rparr>
      else pq)"

definition PriorityQueue_pop :: "('a, 'p) PriorityQueue \<Rightarrow> ('a \<times> ('a, 'p) PriorityQueue) result" where
  "PriorityQueue_pop pq =
     (if items_dict pq = [] then Inl KeyError
      else Inr (fst (last (items_dict pq)), pq\<lparr>items_dict := butlast (items_dict pq)\<rparr>))"

definition PriorityQueue_try_remove_from_queue ::
    "'a \<Rightarrow> ('a, 'p) PriorityQueue \<Rightarrow> ('a, 'p) PriorityQueue result" where
  "PriorityQueue_try_remove_from_queue obj pq =
     (if obj \<in> fst ` set (items_tracker pq)
      then Inr (pq\<lparr>items_dict := AList.delete obj (items_dict pq)\<rparr>) else Inl ValueError)"

definition py_sorted :: "('b \<Rightarrow> 'p::linorder) \<Rightarrow> bool \<Rightarrow> 'b list \<Rightarrow> 'b list" where
  "py_sorted key rvs xs = (if rvs then rev (sort_key key (rev xs)) else sort_key key xs)"

definition PriorityQueue_update_priority ::
    "('a, 'p::linorder) PriorityQueue \<Rightarrow> ('a, 'p) PriorityQueue" where
  "PriorityQueue_update_priority pq =
     (let sorted_items = py_sorted ObjectPriority_get_priority (is_reversed pq) (map snd (items_dict pq))
      in pq\<lparr>items_dict := fold (\<lambda>item d. AList.update (op_obj item) item d) sorted_items []\<rparr>)"

text \<open>The invariant: both dictionaries map an object to an item that wraps it, and a queued object is
  tracked with the same item.\<close>

definition pq_inv :: "('a, 'p) PriorityQueue \<Rightarrow> bool" where
  "pq_inv pq \<longleftrightarrow> distinct (map fst (items_dict pq)) \<and> distinct (map fst (items_tracker pq))
     \<and> (\<forall>p \<in> set (items_tracker pq). op_obj (snd p) = fst p)
     \<and> set (items_dict pq) \<subseteq> set (items_tracker pq)"

lemma set_update_fresh: "k \<notin> fst ` set al \<Longrightarrow> set (AList.update k v al) = insert (k, v) (set al)"
  by (simp add: update_fresh)

lemma set_delete: "set (AList.delete k al) = {p \<in> set al. fst p \<noteq> k}"
  by (auto simp: AList.delete_eq)

lemma pq_inv_ops:
  assumes "pq_inv pq"
  shows "PriorityQueue_add item pq = Inr pq' \<Longrightarrow> pq_inv pq'"
    and "PriorityQueue_push obj pq = Inr pq' \<Longrightarrow> pq_inv pq'"
    and "pq_inv (PriorityQueue_remove obj pq)"
    and "PriorityQueue_pop pq = Inr (y, pq') \<Longrightarrow> pq_inv pq'"
    and "PriorityQueue_try_remove_from_queue obj pq = Inr pq' \<Longrightarrow> pq_inv pq'"
proof -
  have sub: "fst ` set (items_dict pq) \<subseteq> fst ` set (items_tracker pq)"
    using assms by (auto simp: pq_inv_def)
  show "PriorityQueue_add item pq = Inr pq' \<Longrightarrow> pq_inv pq'"
  proof (clarsimp simp: PriorityQueue_add_def split: if_splits)
    assume new: "op_obj item \<notin> fst ` set (items_tracker pq)"
    then have "op_obj item \<notin> fst ` set (items_dict pq)" using sub by blast
    with new assms show "pq_inv (pq\<lparr>items_tracker := AList.update (op_obj item) item (items_tracker pq),
        items_dict := AList.update (op_obj item) item (items_dict pq)\<rparr>)"
      by (auto simp: pq_inv_def set_update_fresh)
  qed
  show "PriorityQueue_push obj pq = Inr pq' \<Longrightarrow> pq_inv pq'"
    using assms by (cases "obj \<in> fst ` set (items_dict pq)")
      (auto simp: PriorityQueue_push_def pq_inv_def set_update_fresh dest!: map_of_SomeD
        split: option.splits)
  show "pq_inv (PriorityQueue_remove obj pq)"
    using assms by (auto simp: PriorityQueue_remove_def pq_inv_def set_delete)
  show "PriorityQueue_pop pq = Inr (y, pq') \<Longrightarrow> pq_inv pq'"
    using assms by (auto simp: PriorityQueue_pop_def pq_inv_def map_butlast distinct_butlast
        split: if_splits dest!: in_set_butlastD)
  show "PriorityQueue_try_remove_from_queue obj pq = Inr pq' \<Longrightarrow> pq_inv pq'"
    using assms by (auto simp: PriorityQueue_try_remove_from_queue_def pq_inv_def set_delete
        split: if_splits)
qed

lemma fold_update_distinct:
  "distinct (map f xs) \<Longrightarrow> (\<forall>x \<in> set xs. f x \<notin> fst ` set d) \<Longrightarrow>
   fold (\<lambda>x d. AList.update (f x) x d) xs d = d @ map (\<lambda>x. (f x, x)) xs"
proof (induction xs arbitrary: d)
  case Nil
  then show ?case by simp
next
  case (Cons x xs)
  have "\<forall>y \<in> set xs. f y \<notin> fst ` set (d @ [(f x, x)])"
    using Cons.prems by (auto, metis imageI)
  then have "fold (\<lambda>x d. AList.update (f x) x d) xs (d @ [(f x, x)])
      = (d @ [(f x, x)]) @ map (\<lambda>x. (f x, x)) xs"
    using Cons.prems(1) by (intro Cons.IH) auto
  moreover have "AList.update (f x) x d = d @ [(f x, x)]"
    using Cons.prems(2) by (simp add: update_fresh)
  ultimately show ?case by simp
qed

lemma mset_py_sorted: "mset (py_sorted key r xs) = mset xs"
  by (simp add: py_sorted_def)

lemma set_py_sorted [simp]: "set (py_sorted key r xs) = set xs"
  by (simp add: py_sorted_def)

lemma py_sorted_last:
  assumes "x \<in> set xs"
  shows "if r then key (last (py_sorted key r xs)) \<le> key x else key x \<le> key (last (py_sorted key r xs))"
proof (cases r)
  case True
  have "x \<in> set (sort_key key (rev xs))" using assms by simp
  moreover have "sorted (map key (sort_key key (rev xs)))" by simp
  ultimately have "key (hd (sort_key key (rev xs))) \<le> key x"
    by (cases "sort_key key (rev xs)") auto
  moreover have "sort_key key (rev xs) \<noteq> []" using assms by (metis length_pos_if_in_set length_sort list.size(3) length_rev less_irrefl)
  ultimately show ?thesis using True by (simp add: py_sorted_def last_rev)
next
  case False
  have "x \<in> set (sort_key key xs)" using assms by simp
  moreover have "sorted (map key (sort_key key xs))" by simp
  ultimately have "key x \<le> key (last (sort_key key xs))"
    by (cases "sort_key key xs" rule: rev_cases) (auto simp: sorted_append)
  with False show ?thesis by (simp add: py_sorted_def)
qed

lemma pq_dict_objects:
  assumes "pq_inv pq"
  shows "map (op_obj \<circ> snd) (items_dict pq) = map fst (items_dict pq)"
proof (rule map_cong)
  fix p assume "p \<in> set (items_dict pq)"
  then have "p \<in> set (items_tracker pq)" using assms by (auto simp: pq_inv_def)
  then show "(op_obj \<circ> snd) p = fst p" using assms by (auto simp: pq_inv_def)
qed simp

lemma update_priority_dict:
  assumes "pq_inv pq"
  shows "items_dict (PriorityQueue_update_priority pq)
    = map (\<lambda>item. (op_obj item, item))
        (py_sorted ObjectPriority_get_priority (is_reversed pq) (map snd (items_dict pq)))"
proof -
  let ?s = "py_sorted ObjectPriority_get_priority (is_reversed pq) (map snd (items_dict pq))"
  have "mset (map op_obj ?s) = mset (map fst (items_dict pq))"
    unfolding pq_dict_objects[OF assms, symmetric] mset_map mset_py_sorted multiset.map_comp ..
  then have "distinct (map op_obj ?s)"
    using assms by (metis mset_eq_imp_distinct_iff pq_inv_def)
  then show ?thesis
    by (simp add: PriorityQueue_update_priority_def fold_update_distinct)
qed

text \<open>
  After \<open>update_priority\<close>, \<open>PriorityQueue.pop\<close> returns a queued object of smallest priority
  when the queue is reversed (the default) and of largest priority otherwise; no object is lost or
  duplicated by the sort.
\<close>

theorem priority_queue_pop_extreme:
  assumes "pq_inv pq" and "items_dict pq \<noteq> []"
  shows "\<exists>x pq'. PriorityQueue_pop (PriorityQueue_update_priority pq) = Inr (x, pq')
    \<and> (\<exists>item. (x, item) \<in> set (items_dict pq)
        \<and> (\<forall>(y, other) \<in> set (items_dict pq).
              if is_reversed pq then ObjectPriority_get_priority item \<le> ObjectPriority_get_priority other
              else ObjectPriority_get_priority other \<le> ObjectPriority_get_priority item))
    \<and> mset (items_dict pq') + {#(x, the (map_of (items_dict pq) x))#} = mset (items_dict pq)"
proof -
  let ?pr = "ObjectPriority_get_priority"
  let ?s = "py_sorted ?pr (is_reversed pq) (map snd (items_dict pq))"
  let ?mk = "\<lambda>item. (op_obj item, item)"
  have ms: "mset (map ?mk ?s) = mset (items_dict pq)"
  proof -
    have "mset (map ?mk ?s) = mset (map (?mk \<circ> snd) (items_dict pq))"
      by (simp add: mset_map mset_py_sorted multiset.map_comp)
    moreover have "map (?mk \<circ> snd) (items_dict pq) = items_dict pq"
      using assms(1) by (intro map_idI) (force simp: pq_inv_def)
    ultimately show ?thesis by simp
  qed
  have ne: "?s \<noteq> []"
    using assms(2) mset_py_sorted[of ?pr "is_reversed pq" "map snd (items_dict pq)"] by auto
  let ?l = "last ?s"
  have in_dict: "?mk ?l \<in> set (items_dict pq)"
  proof -
    have "set (map ?mk ?s) = set (items_dict pq)" using ms by (rule mset_eq_setD)
    moreover have "?mk ?l \<in> set (map ?mk ?s)" using last_in_set[OF ne] by simp
    ultimately show ?thesis by simp
  qed
  have extreme: "if is_reversed pq then ?pr ?l \<le> ?pr it else ?pr it \<le> ?pr ?l" if "it \<in> set ?s" for it
    using that by (intro py_sorted_last) (simp add: set_py_sorted)
  have pop: "PriorityQueue_pop (PriorityQueue_update_priority pq)
      = Inr (op_obj ?l, (PriorityQueue_update_priority pq)\<lparr>items_dict := butlast (map ?mk ?s)\<rparr>)"
    using ne by (simp add: PriorityQueue_pop_def update_priority_dict[OF assms(1)] last_map)
  have the_l: "the (map_of (items_dict pq) (op_obj ?l)) = ?l"
    using in_dict assms(1) by (simp add: pq_inv_def map_of_is_SomeI)
  have "map ?mk ?s = butlast (map ?mk ?s) @ [?mk ?l]"
    using append_butlast_last_id[of "map ?mk ?s"] ne by (simp add: last_map)
  then have "mset (map ?mk ?s) = mset (butlast (map ?mk ?s) @ [?mk ?l])" by (rule arg_cong)
  then have "mset (butlast (map ?mk ?s)) + {#?mk ?l#} = mset (map ?mk ?s)" by simp
  then have mset_pop: "mset (butlast (map ?mk ?s)) + {#(op_obj ?l, the (map_of (items_dict pq) (op_obj ?l)))#}
      = mset (items_dict pq)"
    using ms by (simp add: the_l)
  have all_worse: "\<forall>(y, other) \<in> set (items_dict pq).
      if is_reversed pq then ?pr ?l \<le> ?pr other else ?pr other \<le> ?pr ?l"
  proof
    fix p assume "p \<in> set (items_dict pq)"
    then have "snd p \<in> set ?s"
      by force
    from extreme[OF this] show "case p of (y, other) \<Rightarrow>
        if is_reversed pq then ?pr ?l \<le> ?pr other else ?pr other \<le> ?pr ?l"
      by (cases p) (simp only: prod.case snd_conv)
  qed
  have "\<exists>item. (op_obj ?l, item) \<in> set (items_dict pq)
      \<and> (\<forall>(y, other) \<in> set (items_dict pq).
            if is_reversed pq then ?pr item \<le> ?pr other else ?pr other \<le> ?pr item)"
    using in_dict all_worse by blast
  moreover have "mset (items_dict ((PriorityQueue_update_priority pq)\<lparr>items_dict := butlast (map ?mk ?s)\<rparr>))
      + {#(op_obj ?l, the (map_of (items_dict pq) (op_obj ?l)))#} = mset (items_dict pq)"
    using mset_pop by simp
  ultimately show ?thesis using pop by blast
qed

theorem priority_queue_pop_extreme_witness:
  "\<exists>x pq'. PriorityQueue_pop (PriorityQueue_update_priority
        \<lparr>items_dict = [(''a'', \<lparr>op_get_priority = length, op_obj = ''a''\<rparr>)],
         items_tracker = [(''a'', \<lparr>op_get_priority = length, op_obj = ''a''\<rparr>)],
         is_reversed = True\<rparr>) = Inr (x, pq')"
  using priority_queue_pop_extreme
    [of "\<lparr>items_dict = [(''a'', \<lparr>op_get_priority = length, op_obj = ''a''\<rparr>)],
         items_tracker = [(''a'', \<lparr>op_get_priority = length, op_obj = ''a''\<rparr>)],
         is_reversed = True\<rparr>"]
  by (auto simp: pq_inv_def)

end
