(* ===== verification/Heap_Queue.thy ===== *)
theory Heap_Queue
  imports Bx_Prelude
begin

text \<open>
  The binary heap of Python's \<open>heapq\<close> module on lists, as the alarm queue uses it: \<open>heappush\<close>,
  \<open>heappop\<close> and their sift loops, with the comparison \<open>lt\<close> (the elements' \<open>__lt__\<close>) as an
  argument. The locale \<open>heap_order\<close> is the contract of that comparison; inside it the heap
  property is shown to be kept by both operations, the root to be a minimum and the elements to
  be preserved as a multiset.
\<close>

definition parent :: "nat \<Rightarrow> nat" where
  "parent i = (i - 1) div 2"

function siftdown_loop :: "('a \<Rightarrow> 'a \<Rightarrow> bool) \<Rightarrow> 'a \<Rightarrow> nat \<Rightarrow> 'a list \<Rightarrow> nat \<Rightarrow> 'a list" where
  "siftdown_loop lt newitem startpos heap pos =
     (if startpos < pos \<and> lt newitem (heap ! parent pos)
      then siftdown_loop lt newitem startpos (heap[pos := heap ! parent pos]) (parent pos)
      else heap[pos := newitem])"
  by pat_completeness auto
termination
  by (relation "measure (\<lambda>(lt, newitem, startpos, heap, pos). pos)") (auto simp: parent_def)

definition siftdown :: "('a \<Rightarrow> 'a \<Rightarrow> bool) \<Rightarrow> 'a list \<Rightarrow> nat \<Rightarrow> nat \<Rightarrow> 'a list" where
  "siftdown lt heap startpos pos = siftdown_loop lt (heap ! pos) startpos heap pos"

definition smaller_child :: "('a \<Rightarrow> 'a \<Rightarrow> bool) \<Rightarrow> 'a list \<Rightarrow> nat \<Rightarrow> nat" where
  "smaller_child lt heap childpos =
     (if childpos + 1 < length heap \<and> \<not> lt (heap ! childpos) (heap ! (childpos + 1))
      then childpos + 1 else childpos)"

function siftup_loop :: "('a \<Rightarrow> 'a \<Rightarrow> bool) \<Rightarrow> 'a list \<Rightarrow> nat \<Rightarrow> 'a list \<times> nat" where
  "siftup_loop lt heap pos =
     (if 2 * pos + 1 < length heap
      then let childpos = smaller_child lt heap (2 * pos + 1)
           in siftup_loop lt (heap[pos := heap ! childpos]) childpos
      else (heap, pos))"
  by pat_completeness auto
termination
  by (relation "measure (\<lambda>(lt, heap, pos). length heap - pos)") (auto simp: smaller_child_def)

definition siftup :: "('a \<Rightarrow> 'a \<Rightarrow> bool) \<Rightarrow> 'a list \<Rightarrow> nat \<Rightarrow> 'a list" where
  "siftup lt heap pos =
     (let (heap', pos') = siftup_loop lt heap pos
      in siftdown lt (heap'[pos' := heap ! pos]) pos pos')"

definition heappush :: "('a \<Rightarrow> 'a \<Rightarrow> bool) \<Rightarrow> 'a list \<Rightarrow> 'a \<Rightarrow> 'a list" where
  "heappush lt heap item = siftdown lt (heap @ [item]) 0 (length heap)"

definition heappop :: "('a \<Rightarrow> 'a \<Rightarrow> bool) \<Rightarrow> 'a list \<Rightarrow> ('a \<times> 'a list) result" where
  "heappop lt heap =
     (if heap = [] then Inl IndexError
      else let lastelt = last heap; rest = butlast heap
           in if rest = [] then Inr (lastelt, [])
              else Inr (rest ! 0, siftup lt (rest[0 := lastelt]) 0))"

declare siftdown_loop.simps [simp del] siftup_loop.simps [simp del]

definition is_heap :: "('a \<Rightarrow> 'a \<Rightarrow> bool) \<Rightarrow> 'a list \<Rightarrow> bool" where
  "is_heap lt h \<longleftrightarrow> (\<forall>i. 0 < i \<longrightarrow> i < length h \<longrightarrow> \<not> lt (h ! i) (h ! parent i))"

text \<open>
  The heap property with one position left out: \<open>heap_but_up\<close> when the element at \<open>p\<close> may be
  smaller than its parent, \<open>heap_hole\<close> when it is unrelated to its neighbours.
\<close>

definition heap_but_up :: "('a \<Rightarrow> 'a \<Rightarrow> bool) \<Rightarrow> 'a list \<Rightarrow> nat \<Rightarrow> bool" where
  "heap_but_up lt h p \<longleftrightarrow>
     (\<forall>i. 0 < i \<longrightarrow> i < length h \<longrightarrow> i \<noteq> p \<longrightarrow> \<not> lt (h ! i) (h ! parent i))
     \<and> (\<forall>i. 0 < i \<longrightarrow> i < length h \<longrightarrow> parent i = p \<longrightarrow> 0 < p \<longrightarrow> \<not> lt (h ! i) (h ! parent p))"

definition heap_hole :: "('a \<Rightarrow> 'a \<Rightarrow> bool) \<Rightarrow> 'a list \<Rightarrow> nat \<Rightarrow> bool" where
  "heap_hole lt h p \<longleftrightarrow>
     (\<forall>i. 0 < i \<longrightarrow> i < length h \<longrightarrow> i \<noteq> p \<longrightarrow> parent i \<noteq> p \<longrightarrow> \<not> lt (h ! i) (h ! parent i))
     \<and> (\<forall>i. 0 < i \<longrightarrow> i < length h \<longrightarrow> parent i = p \<longrightarrow> 0 < p \<longrightarrow> \<not> lt (h ! i) (h ! parent p))"

lemma parent_less [simp]: "0 < i \<Longrightarrow> parent i < i"
  by (simp add: parent_def)

lemma parent_neq [simp]: "0 < i \<Longrightarrow> parent i \<noteq> i" "0 < i \<Longrightarrow> i \<noteq> parent i"
  by (simp_all add: parent_def)

lemma parent_eq_iff: "0 < i \<Longrightarrow> parent i = p \<longleftrightarrow> i = 2 * p + 1 \<or> i = 2 * p + 2"
  by (auto simp: parent_def)

lemma length_siftdown_loop [simp]: "length (siftdown_loop lt x s h p) = length h"
  by (induction lt x s h p rule: siftdown_loop.induct) (subst siftdown_loop.simps, simp)

lemma smaller_child_less: "c < length h \<Longrightarrow> smaller_child lt h c < length h"
  by (simp add: smaller_child_def)

lemma smaller_child_cases: "smaller_child lt h c = c \<or> smaller_child lt h c = c + 1"
  by (simp add: smaller_child_def)

lemma length_siftup_loop [simp]: "length (fst (siftup_loop lt h p)) = length h"
  by (induction lt h p rule: siftup_loop.induct) (subst siftup_loop.simps, simp add: Let_def)

lemma siftup_loop_pos:
  "p < length h \<Longrightarrow> snd (siftup_loop lt h p) < length h"
proof (induction lt h p rule: siftup_loop.induct)
  case (1 lt h p)
  then show ?case
    by (subst siftup_loop.simps) (auto simp: Let_def smaller_child_less)
qed

lemma mset_siftdown_loop:
  "p < length h \<Longrightarrow> mset (siftdown_loop lt x s h p) = mset (h[p := x])"
proof (induction lt x s h p rule: siftdown_loop.induct)
  case (1 lt x s h p)
  show ?case
  proof (cases "s < p \<and> lt x (h ! parent p)")
    case True
    have "mset (siftdown_loop lt x s (h[p := h ! parent p]) (parent p))
        = mset (h[p := h ! parent p, parent p := x])"
      using True 1 by (intro 1(1)) (auto intro: less_trans[OF parent_less])
    also have "\<dots> = mset (h[p := x])"
      using mset_swap[of "parent p" "h[p := x]" p] True 1(2) less_trans[OF parent_less 1(2)]
      by (simp add: nth_list_update)
    finally show ?thesis using True by (subst siftdown_loop.simps) simp
  next
    case False
    then show ?thesis by (subst siftdown_loop.simps) auto
  qed
qed

lemma mset_siftup_loop:
  "p < length h \<Longrightarrow> siftup_loop lt h p = (h', p') \<Longrightarrow> mset (h'[p' := x]) = mset (h[p := x])"
proof (induction lt h p arbitrary: h' p' rule: siftup_loop.induct)
  case (1 lt h p)
  show ?case
  proof (cases "2 * p + 1 < length h")
    case True
    let ?c = "smaller_child lt h (2 * p + 1)"
    have c: "?c < length h" "?c \<noteq> p"
      using smaller_child_less[OF True] smaller_child_cases[of lt h "2 * p + 1"] by auto
    have "siftup_loop lt (h[p := h ! ?c]) ?c = (h', p')"
      using 1(3) True by (subst (asm) siftup_loop.simps) (simp add: Let_def)
    then have "mset (h'[p' := x]) = mset (h[p := h ! ?c, ?c := x])"
      using 1(1)[OF True refl] c by simp
    also have "\<dots> = mset (h[p := x])"
      using mset_swap[of ?c "h[p := x]" p] c 1(2) by simp
    finally show ?thesis .
  next
    case False
    then show ?thesis using 1(3) by (subst (asm) siftup_loop.simps) simp
  qed
qed

locale heap_order =
  fixes lt :: "'a \<Rightarrow> 'a \<Rightarrow> bool"
  assumes lt_irrefl: "\<not> lt x x"
    and lt_trans: "lt x y \<Longrightarrow> lt y z \<Longrightarrow> lt x z"
    and not_lt_trans: "\<not> lt x y \<Longrightarrow> \<not> lt y z \<Longrightarrow> \<not> lt x z"
begin

lemma lt_asym: "lt x y \<Longrightarrow> \<not> lt y x"
  using lt_irrefl lt_trans by blast

lemma siftdown_loop_heap:
  "p < length h \<Longrightarrow> heap_but_up lt (h[p := x]) p \<Longrightarrow> is_heap lt (siftdown_loop lt x 0 h p)"
proof (induction p arbitrary: h rule: less_induct)
  case (less p)
  show ?case
  proof (cases "0 < p \<and> lt x (h ! parent p)")
    case True
    let ?q = "parent p" and ?v = "h ! parent p"
    have q: "?q < p" "?q < length h" using True less.prems by (auto intro: less_trans[OF parent_less])
    have but: "\<And>i. 0 < i \<Longrightarrow> i < length h \<Longrightarrow> i \<noteq> p \<Longrightarrow> \<not> lt (h[p := x] ! i) (h[p := x] ! parent i)"
      and kids: "\<And>i. 0 < i \<Longrightarrow> i < length h \<Longrightarrow> parent i = p \<Longrightarrow> \<not> lt (h ! i) ?v"
    proof -
      show "\<not> lt (h[p := x] ! i) (h[p := x] ! parent i)" if "0 < i" "i < length h" "i \<noteq> p" for i
        using less.prems(2) that by (simp add: heap_but_up_def)
      show "\<not> lt (h ! i) ?v" if "0 < i" "i < length h" "parent i = p" for i
      proof -
        have "\<not> lt (h[p := x] ! i) (h[p := x] ! ?q)"
          using less.prems(2) that True by (simp add: heap_but_up_def)
        then show ?thesis using that q parent_less[of i] by (simp add: nth_list_update)
      qed
    qed
    have "heap_but_up lt (h[p := ?v, ?q := x]) ?q"
      unfolding heap_but_up_def
    proof (intro conjI allI impI)
      fix i assume i: "0 < i" "i < length (h[p := ?v, ?q := x])" "i \<noteq> ?q"
      show "\<not> lt (h[p := ?v, ?q := x] ! i) (h[p := ?v, ?q := x] ! parent i)"
      proof (cases "i = p")
        case True
        then show ?thesis using i q \<open>0 < p \<and> lt x (h ! parent p)\<close> lt_asym by simp
      next
        case ip: False
        show ?thesis
        proof (cases "parent i = p")
          case True
          then show ?thesis using kids[of i] i ip q less.prems(1) by simp
        next
          case False
          have "\<not> lt (h ! i) (h ! parent i)" using but[of i] i ip False by simp
          moreover have "\<not> lt (h ! i) x" if "parent i = ?q"
          proof
            assume "lt (h ! i) x"
            then have "lt (h ! i) ?v" using True lt_trans by blast
            then show False using but[of i] i ip q that by simp
          qed
          ultimately show ?thesis using i ip False q by (cases "parent i = ?q") auto
        qed
      qed
    next
      fix i assume i: "0 < i" "i < length (h[p := ?v, ?q := x])" "parent i = ?q" "0 < ?q"
      have pq: "parent ?q < ?q" using i by simp
      have vq: "\<not> lt ?v (h ! parent ?q)" using but[of ?q] i q pq by simp
      have pn: "p \<noteq> parent ?q" "p \<noteq> ?q" using q pq by simp_all
      show "\<not> lt (h[p := ?v, ?q := x] ! i) (h[p := ?v, ?q := x] ! parent ?q)"
      proof (cases "i = p")
        case True
        then show ?thesis using vq i q pq pn by simp
      next
        case False
        have iq: "i \<noteq> ?q" using i parent_less[of i] by auto
        have "\<not> lt (h ! i) ?v" using but[of i] i False iq q pn by simp
        then have "\<not> lt (h ! i) (h ! parent ?q)" using vq not_lt_trans by blast
        then show ?thesis using i q pq pn False iq by simp
      qed
    qed
    then have "is_heap lt (siftdown_loop lt x 0 (h[p := ?v]) ?q)"
      using less.IH[OF q(1), of "h[p := ?v]"] q by simp
    then show ?thesis using True by (subst siftdown_loop.simps) simp
  next
    case False
    have "is_heap lt (h[p := x])"
      unfolding is_heap_def
    proof (intro allI impI)
      fix i assume i: "0 < i" "i < length (h[p := x])"
      show "\<not> lt (h[p := x] ! i) (h[p := x] ! parent i)"
      proof (cases "i = p")
        case True
        then show ?thesis using False i parent_less[of p] less.prems(1) by auto
      next
        case False
        then show ?thesis using less.prems i by (simp add: heap_but_up_def)
      qed
    qed
    then show ?thesis using False by (subst siftdown_loop.simps) auto
  qed
qed

lemma siftup_loop_hole:
  assumes "p < length h" and "heap_hole lt h p" and "siftup_loop lt h p = (h', p')"
  shows "heap_hole lt h' p' \<and> length h' \<le> 2 * p' + 1"
  using assms
proof (induction "length h - p" arbitrary: h p rule: less_induct)
  case less
  show ?case
  proof (cases "2 * p + 1 < length h")
    case True
    let ?c = "smaller_child lt h (2 * p + 1)"
    let ?h = "h[p := h ! ?c]"
    have c: "?c < length h" "p < ?c" "parent ?c = p" "0 < ?c"
      using smaller_child_less[OF True] smaller_child_cases[of lt h "2 * p + 1"] by (auto simp: parent_def)
    have ok: "\<And>i. 0 < i \<Longrightarrow> i < length h \<Longrightarrow> i \<noteq> p \<Longrightarrow> parent i \<noteq> p \<Longrightarrow> \<not> lt (h ! i) (h ! parent i)"
      and up: "\<And>i. 0 < i \<Longrightarrow> i < length h \<Longrightarrow> parent i = p \<Longrightarrow> 0 < p \<Longrightarrow> \<not> lt (h ! i) (h ! parent p)"
      using less.prems(2) by (auto simp: heap_hole_def)
    have least: "\<not> lt (h ! i) (h ! ?c)" if "0 < i" "i < length h" "parent i = p" for i
    proof -
      have "i = 2 * p + 1 \<or> i = 2 * p + 2" using that parent_eq_iff by blast
      then show ?thesis using that(2) lt_irrefl lt_asym by (auto simp: smaller_child_def)
    qed
    have "heap_hole lt ?h ?c"
      unfolding heap_hole_def
    proof (intro conjI allI impI)
      fix i assume i: "0 < i" "i < length ?h" "i \<noteq> ?c" "parent i \<noteq> ?c"
      show "\<not> lt (?h ! i) (?h ! parent i)"
      proof (cases "i = p")
        case True
        then show ?thesis using up[of ?c] c i less.prems(1) parent_less[of p] by simp
      next
        case False
        then show ?thesis
          using least[of i] ok[of i] i less.prems(1) by (cases "parent i = p") auto
      qed
    next
      fix i assume i: "0 < i" "i < length ?h" "parent i = ?c"
      have "i \<noteq> p" using i c parent_less[of i] by auto
      moreover have "\<not> lt (h ! i) (h ! ?c)" using ok[of i] i c \<open>i \<noteq> p\<close> by simp
      ultimately show "\<not> lt (?h ! i) (?h ! parent ?c)" using i c less.prems(1) by simp
    qed
    moreover have "siftup_loop lt ?h ?c = (h', p')"
      using less.prems(3) True by (subst (asm) siftup_loop.simps) (simp add: Let_def)
    ultimately show ?thesis using less.hyps[of ?h ?c] c less.prems(1) by simp
  next
    case False
    then show ?thesis using less.prems by (subst (asm) siftup_loop.simps) auto
  qed
qed

lemma heappush_is_heap:
  assumes "is_heap lt h"
  shows "is_heap lt (heappush lt h x)"
proof -
  have "heap_but_up lt (h @ [x]) (length h)"
    unfolding heap_but_up_def
  proof (intro conjI allI impI)
    fix i assume i: "0 < i" "i < length (h @ [x])" "i \<noteq> length h"
    then show "\<not> lt ((h @ [x]) ! i) ((h @ [x]) ! parent i)"
      using assms less_trans[OF parent_less[of i], of "length h"] by (auto simp: is_heap_def nth_append)
  next
    fix i assume "0 < i" "i < length (h @ [x])" "parent i = length h"
    then show "\<not> lt ((h @ [x]) ! i) ((h @ [x]) ! parent (length h))"
      using parent_less[of i] by auto
  qed
  then show ?thesis by (auto simp: heappush_def siftdown_def intro!: siftdown_loop_heap)
qed

lemma heappop_is_heap:
  assumes "is_heap lt h" and "h \<noteq> []"
  shows "\<exists>h'. heappop lt h = Inr (h ! 0, h') \<and> is_heap lt h' \<and> add_mset (h ! 0) (mset h') = mset h"
proof (cases "butlast h = []")
  case True
  then have "h = [last h]" using assms(2) append_butlast_last_id by fastforce
  moreover from this have "h ! 0 = last h" by (metis nth_Cons_0)
  moreover from calculation have "mset h = {#last h#}" by (metis mset_single_iff_right)
  ultimately show ?thesis using True assms(2) by (auto simp: heappop_def is_heap_def)
next
  case False
  let ?r = "butlast h" and ?x = "last h"
  let ?h = "?r[0 := ?x]"
  have split: "h = ?r @ [?x]" using assms(2) by simp
  have n0: "0 < length ?r" using False by (metis length_greater_0_conv)
  have r0: "?r ! 0 = h ! 0" using n0 by (simp add: nth_butlast)
  obtain h1 p1 where loop: "siftup_loop lt ?h 0 = (h1, p1)" by (cases "siftup_loop lt ?h 0")
  have len1: "length h1 = length ?r" using length_siftup_loop[of lt ?h 0] loop by simp
  have p1: "p1 < length h1" using siftup_loop_pos[of 0 ?h lt] loop n0 len1 by simp
  have "heap_hole lt ?h 0"
    unfolding heap_hole_def
  proof (intro conjI allI impI)
    fix i assume i: "0 < i" "i < length ?h" "i \<noteq> 0" "parent i \<noteq> 0"
    then have "\<not> lt (h ! i) (h ! parent i)" using assms(1) by (auto simp: is_heap_def)
    then show "\<not> lt (?h ! i) (?h ! parent i)"
      using i less_trans[OF parent_less[of i], of "length ?r"] by (simp add: nth_butlast)
  qed simp
  then have hole: "heap_hole lt h1 p1" and leaf: "length h1 \<le> 2 * p1 + 1"
    using siftup_loop_hole[OF _ _ loop] n0 by simp_all
  have no_kids: "parent i \<noteq> p1" if "0 < i" "i < length h1" for i
    using leaf parent_eq_iff[of i p1] that by auto
  have "heap_but_up lt (h1[p1 := ?x]) p1"
    using hole no_kids not_sym[OF no_kids] by (simp add: heap_but_up_def heap_hole_def)
  then have "is_heap lt (siftup lt ?h 0)"
    using p1 n0 loop by (auto simp: siftup_def siftdown_def intro!: siftdown_loop_heap)
  moreover have "mset (siftup lt ?h 0) = mset ?h"
    using loop n0 p1 mset_siftup_loop[OF _ loop, of ?x]
    by (simp add: siftup_def siftdown_def mset_siftdown_loop)
  moreover have "add_mset (h ! 0) (mset ?h) = mset h"
  proof -
    obtain a r' where ar: "?r = a # r'" using False by (cases ?r) auto
    then have "mset h = mset (a # r') + {#?x#}" using split by (metis mset.simps mset_append)
    then show ?thesis using ar r0 by simp
  qed
  ultimately show ?thesis using False assms(2) r0 by (simp add: heappop_def Let_def)
qed

lemma mset_heappush: "mset (heappush lt h x) = add_mset x (mset h)"
  by (simp add: heappush_def siftdown_def mset_siftdown_loop)

lemma heap_root_least:
  assumes "is_heap lt h" and "i < length h"
  shows "\<not> lt (h ! i) (h ! 0)"
  using assms(2)
proof (induction i rule: less_induct)
  case (less i)
  show ?case
  proof (cases "i = 0")
    case True
    then show ?thesis using lt_irrefl by simp
  next
    case False
    then have "\<not> lt (h ! i) (h ! parent i)" using assms(1) less.prems by (simp add: is_heap_def)
    moreover have "\<not> lt (h ! parent i) (h ! 0)"
      using False less by (intro less.IH) (auto intro: less_trans[OF parent_less])
    ultimately show ?thesis using not_lt_trans by blast
  qed
qed

lemma heap_root_least_set:
  assumes "is_heap lt h" and "x \<in> set h"
  shows "\<not> lt x (h ! 0)"
  using assms heap_root_least by (metis in_set_conv_nth)

end

end
