(* ===== verification/Alarm_Queue.thy ===== *)
theory Alarm_Queue
  imports Heap_Queue "HOL-Library.Product_Lexorder"
begin

text \<open>
  The timer queue of \<open>bxcommon/utils/alarm_queue.py\<close>. An \<open>AlarmId\<close> is a mutable object shared by
  the main heap, by the heap of approximate alarms of its function and by the caller who may
  cancel it, so the objects live in a store (\<open>alarm_objects\<close>) and the heaps hold references
  (positions in the store). Callbacks belong to the rest of the program: an environment gives the
  clock and the effect of firing a function, which may change the world and the queue itself and
  may raise. The \<open>RLock\<close> is not modelled (every operation holds it for its whole body); alarm names
  and the hooks that log durations are left out.
\<close>

record ('f, 'a) Alarm =
  fn :: 'f
  args :: 'a
  alarm_fire_time :: time

record ('f, 'a) AlarmId =
  fire_time :: time
  count :: nat
  alarm :: "('f, 'a) Alarm"
  is_active :: bool

definition AlarmId_lt :: "('f, 'a) AlarmId \<Rightarrow> ('f, 'a) AlarmId \<Rightarrow> bool" where
  "AlarmId_lt self other \<longleftrightarrow>
     fire_time self < fire_time other \<or> (fire_time self = fire_time other \<and> count self < count other)"

record ('f, 'a) AlarmQueue =
  alarms :: "nat list"
  uniq_count :: nat
  approx_alarms_scheduled :: "('f \<times> nat list) list"
  alarm_objects :: "('f, 'a) AlarmId list"

text \<open>What the caller passes as \<open>fn\<close>: a hashable callable, an unhashable object or \<open>None\<close>.\<close>

datatype 'f handle = Callable 'f | Unhashable | NoHandle

text \<open>
  The environment: the clock of a world and what firing a callable does to world and queue.
\<close>

record ('f, 'a, 'w) environment =
  clock :: "'w \<Rightarrow> time"
  fire :: "'f \<Rightarrow> 'a \<Rightarrow> 'w \<Rightarrow> ('f, 'a) AlarmQueue \<Rightarrow> time option result \<times> 'w \<times> ('f, 'a) AlarmQueue"

abbreviation alarm_lt :: "('f, 'a) AlarmId list \<Rightarrow> nat \<Rightarrow> nat \<Rightarrow> bool" where
  "alarm_lt objs \<equiv> (\<lambda>a b. AlarmId_lt (objs ! a) (objs ! b))"

definition AlarmQueue_init :: "('f, 'a) AlarmQueue" where
  "AlarmQueue_init = \<lparr>alarms = [], uniq_count = 0, approx_alarms_scheduled = [], alarm_objects = []\<rparr>"

definition Alarm_fire ::
    "('f, 'a, 'w) environment \<Rightarrow> ('f, 'a) Alarm \<Rightarrow> 'w \<Rightarrow> ('f, 'a) AlarmQueue
     \<Rightarrow> time option result \<times> 'w \<times> ('f, 'a) AlarmQueue" where
  "Alarm_fire env self w q = fire env (fn self) (args self) w q"

definition AlarmQueue_register_alarm ::
    "('f, 'a, 'w) environment \<Rightarrow> time \<Rightarrow> 'f handle \<Rightarrow> 'a \<Rightarrow> bool \<Rightarrow> 'w \<Rightarrow> ('f, 'a) AlarmQueue
     \<Rightarrow> nat result \<times> 'w \<times> ('f, 'a) AlarmQueue" where
  "AlarmQueue_register_alarm env fire_delay h arguments fire_immediately w q =
     (if h = Unhashable then (Inl ValueError, w, q)
      else if fire_delay < 0 then (Inl ValueError, w, q)
      else case h of
        Callable f \<Rightarrow>
          let t = clock env w + fire_delay;
              al = \<lparr>fn = f, args = arguments, alarm_fire_time = t\<rparr>;
              ref = length (alarm_objects q);
              q1 = q\<lparr>alarm_objects := alarm_objects q @
                      [\<lparr>fire_time = t, count = uniq_count q, alarm = al, is_active = True\<rparr>]\<rparr>
          in if fire_immediately \<and> fire_delay = 0
             then (case Alarm_fire env al w q1 of (r, w', q') \<Rightarrow>
                     (case r of Inl e \<Rightarrow> (Inl e, w', q') | Inr _ \<Rightarrow> (Inr ref, w', q')))
             else (Inr ref, w,
                   q1\<lparr>alarms := heappush (alarm_lt (alarm_objects q1)) (alarms q1) ref,
                      uniq_count := uniq_count q1 + 1\<rparr>)
      | _ \<Rightarrow> (Inl ValueError, w, q))"

definition AlarmQueue_register_approx_alarm ::
    "('f, 'a, 'w) environment \<Rightarrow> time \<Rightarrow> time \<Rightarrow> 'f handle \<Rightarrow> 'a \<Rightarrow> 'w \<Rightarrow> ('f, 'a) AlarmQueue
     \<Rightarrow> unit result \<times> 'w \<times> ('f, 'a) AlarmQueue" where
  "AlarmQueue_register_approx_alarm env fire_delay slop h arguments w q =
     (if h = Unhashable then (Inl ValueError, w, q)
      else if fire_delay < 0 then (Inl ValueError, w, q)
      else if slop < 0 then (Inl ValueError, w, q)
      else let scheduled = (case h of Callable f \<Rightarrow> map_of (approx_alarms_scheduled q) f | _ \<Rightarrow> None);
               now = clock env w;
               late_time = fire_delay + now + slop;
               early_time = fire_delay + now - slop
      in if list_ex (\<lambda>r. early_time \<le> fire_time (alarm_objects q ! r)
                        \<and> fire_time (alarm_objects q ! r) \<le> late_time)
              (case scheduled of None \<Rightarrow> [] | Some heap \<Rightarrow> heap)
      then (Inr (), w, q)
      else case AlarmQueue_register_alarm env fire_delay h arguments False w q of (r, w', q') \<Rightarrow>
        (case (r, h) of
           (Inr ref, Callable f) \<Rightarrow>
             (Inr (), w', q'\<lparr>approx_alarms_scheduled :=
                AList.update f
                  (heappush (alarm_lt (alarm_objects q')) (case scheduled of None \<Rightarrow> [] | Some heap \<Rightarrow> heap) ref)
                  (approx_alarms_scheduled q')\<rparr>)
         | (Inr ref, _) \<Rightarrow> (Inr (), w', q')
         | (Inl e, _) \<Rightarrow> (Inl e, w', q')))"

lemma length_siftdown [simp]: "length (siftdown lt h s p) = length h"
  by (simp add: siftdown_def)

lemma length_siftup [simp]: "length (siftup lt h p) = length h"
  using length_siftup_loop[of lt h p] by (cases "siftup_loop lt h p") (simp add: siftup_def)

lemma length_heappop: "heappop lt h = Inr (x, h') \<Longrightarrow> Suc (length h') = length h"
  by (cases h rule: rev_cases) (auto simp: heappop_def Let_def split: if_splits)

text \<open>The loop of \<open>unregister_alarm\<close>: cancelled alarms are popped from the top of the heap.\<close>

function drop_inactive :: "('f, 'a) AlarmId list \<Rightarrow> nat list \<Rightarrow> nat list" where
  "drop_inactive objs [] = []"
| "drop_inactive objs (r # rs) =
     (if is_active (objs ! r) then r # rs
      else case heappop (alarm_lt objs) (r # rs) of
        Inl e \<Rightarrow> r # rs
      | Inr (x, rest) \<Rightarrow> drop_inactive objs rest)"
  by pat_completeness auto
termination
  by (relation "measure (\<lambda>(objs, h). length h)") (auto dest: length_heappop)

definition AlarmQueue_unregister_alarm :: "nat \<Rightarrow> ('f, 'a) AlarmQueue \<Rightarrow> ('f, 'a) AlarmQueue" where
  "AlarmQueue_unregister_alarm ref q =
     (let objs = (alarm_objects q)[ref := (alarm_objects q ! ref)\<lparr>is_active := False\<rparr>]
      in q\<lparr>alarm_objects := objs, alarms := drop_inactive objs (alarms q)\<rparr>)"

definition AlarmQueue_time_to_next_alarm ::
    "('f, 'a, 'w) environment \<Rightarrow> 'w \<Rightarrow> ('f, 'a) AlarmQueue \<Rightarrow> time option" where
  "AlarmQueue_time_to_next_alarm env w q =
     (case alarms q of [] \<Rightarrow> None | r # _ \<Rightarrow> Some (fire_time (alarm_objects q ! r) - clock env w))"

definition AlarmQueue_pop_and_cleanup_approx_alarm ::
    "nat \<Rightarrow> ('f, 'a) AlarmQueue \<Rightarrow> ('f, 'a) AlarmQueue result" where
  "AlarmQueue_pop_and_cleanup_approx_alarm ref q =
     (let objs = alarm_objects q; f = fn (alarm (objs ! ref))
      in case map_of (approx_alarms_scheduled q) f of
           None \<Rightarrow> Inl KeyError
         | Some [] \<Rightarrow> Inl IndexError
         | Some (first # rest) \<Rightarrow>
             if count (objs ! first) \<noteq> count (objs ! ref) then Inl AssertionError
             else rbind (heappop (alarm_lt objs) (first # rest)) (\<lambda>(_, alarm_heap).
               Inr (q\<lparr>approx_alarms_scheduled :=
                 (if alarm_heap = [] then AList.delete f (approx_alarms_scheduled q)
                  else AList.update f alarm_heap (approx_alarms_scheduled q))\<rparr>)))"

text \<open>
  One pass of the body of the loop in \<open>fire_alarms\<close>: the popped alarm \<open>ref\<close> is fired, then
  rescheduled or cleaned up.
\<close>

definition cleanup_fired :: "nat \<Rightarrow> ('f, 'a) AlarmQueue \<Rightarrow> ('f, 'a) AlarmQueue result" where
  "cleanup_fired ref q =
     (if map_of (approx_alarms_scheduled q) (fn (alarm (alarm_objects q ! ref))) \<noteq> None
      then AlarmQueue_pop_and_cleanup_approx_alarm ref q else Inr q)"

definition reschedule :: "nat \<Rightarrow> time \<Rightarrow> ('f, 'a) AlarmQueue \<Rightarrow> ('f, 'a) AlarmQueue" where
  "reschedule ref next_time q =
     (let a = alarm_objects q ! ref;
          objs = (alarm_objects q)[ref :=
            a\<lparr>fire_time := next_time, alarm := (alarm a)\<lparr>alarm_fire_time := next_time\<rparr>\<rparr>]
      in q\<lparr>alarm_objects := objs, alarms := heappush (alarm_lt objs) (alarms q) ref\<rparr>)"

definition fire_popped ::
    "('f, 'a, 'w) environment \<Rightarrow> nat \<Rightarrow> 'w \<Rightarrow> ('f, 'a) AlarmQueue
     \<Rightarrow> unit result \<times> 'w \<times> ('f, 'a) AlarmQueue" where
  "fire_popped env ref w q =
     (if \<not> is_active (alarm_objects q ! ref) then (Inr (), w, q)
      else case Alarm_fire env (alarm (alarm_objects q ! ref)) w q of (r, w', q') \<Rightarrow>
        (case r of
           Inr (Some d) \<Rightarrow>
             if 0 < d then (Inr (), w', reschedule ref (clock env w' + d) q')
             else (case cleanup_fired ref q' of Inl e \<Rightarrow> (Inl e, w', q') | Inr q'' \<Rightarrow> (Inr (), w', q''))
         | _ \<Rightarrow> (case cleanup_fired ref q' of Inl e \<Rightarrow> (Inl e, w', q') | Inr q'' \<Rightarrow> (Inr (), w', q''))))"

primrec fire_alarms_loop ::
    "('f, 'a, 'w) environment \<Rightarrow> time \<Rightarrow> nat \<Rightarrow> 'w \<Rightarrow> ('f, 'a) AlarmQueue
     \<Rightarrow> (unit result \<times> 'w \<times> ('f, 'a) AlarmQueue) option" where
  "fire_alarms_loop env curr_time 0 w q = None"
| "fire_alarms_loop env curr_time (Suc fuel) w q =
     (if alarms q = [] \<or> \<not> fire_time (alarm_objects q ! (alarms q ! 0)) \<le> curr_time
      then Some (Inr (), w, q)
      else case heappop (alarm_lt (alarm_objects q)) (alarms q) of
        Inl e \<Rightarrow> Some (Inl e, w, q)
      | Inr (ref, rest) \<Rightarrow>
          (case fire_popped env ref w (q\<lparr>alarms := rest\<rparr>) of (r, w', q') \<Rightarrow>
            (case r of Inl e \<Rightarrow> Some (Inl e, w', q')
             | Inr _ \<Rightarrow> fire_alarms_loop env curr_time fuel w' q')))"

definition AlarmQueue_fire_alarms ::
    "('f, 'a, 'w) environment \<Rightarrow> nat \<Rightarrow> 'w \<Rightarrow> ('f, 'a) AlarmQueue
     \<Rightarrow> (unit result \<times> 'w \<times> ('f, 'a) AlarmQueue) option" where
  "AlarmQueue_fire_alarms env fuel w q =
     (if alarms q = [] then Some (Inr (), w, q) else fire_alarms_loop env (clock env w) fuel w q)"

primrec fire_ready_loop ::
    "('f, 'a, 'w) environment \<Rightarrow> nat \<Rightarrow> nat \<Rightarrow> 'w \<Rightarrow> ('f, 'a) AlarmQueue
     \<Rightarrow> (time option result \<times> 'w \<times> ('f, 'a) AlarmQueue) option" where
  "fire_ready_loop env fuel 0 w q = None"
| "fire_ready_loop env fuel (Suc n) w q =
     (case AlarmQueue_time_to_next_alarm env w q of
        Some d \<Rightarrow>
          if d \<le> 0 then
            (case AlarmQueue_fire_alarms env fuel w q of
               None \<Rightarrow> None
             | Some (r, w', q') \<Rightarrow>
                 (case r of Inl e \<Rightarrow> Some (Inl e, w', q') | Inr _ \<Rightarrow> fire_ready_loop env fuel n w' q'))
          else Some (Inr (Some d), w, q)
      | None \<Rightarrow> Some (Inr None, w, q))"

definition AlarmQueue_fire_ready_alarms ::
    "('f, 'a, 'w) environment \<Rightarrow> nat \<Rightarrow> 'w \<Rightarrow> ('f, 'a) AlarmQueue
     \<Rightarrow> (time option result \<times> 'w \<times> ('f, 'a) AlarmQueue) option" where
  "AlarmQueue_fire_ready_alarms env fuel w q = fire_ready_loop env fuel fuel w q"

subsection \<open>Heap order and invariant\<close>

interpretation alarm_heap: heap_order "alarm_lt objs" for objs
  by unfold_locales (auto simp: AlarmId_lt_def)

definition aq_inv :: "('f, 'a) AlarmQueue \<Rightarrow> bool" where
  "aq_inv q \<longleftrightarrow> is_heap (alarm_lt (alarm_objects q)) (alarms q)
     \<and> distinct (alarms q) \<and> (\<forall>r \<in> set (alarms q). r < length (alarm_objects q))
     \<and> (\<forall>r \<in> set (alarms q). count (alarm_objects q ! r) < uniq_count q)
     \<and> inj_on (\<lambda>r. count (alarm_objects q ! r)) (set (alarms q))"

lemma is_heap_cong:
  assumes "\<And>a b. a \<in> set h \<Longrightarrow> b \<in> set h \<Longrightarrow> lt a b = lt' a b" and "is_heap lt h"
  shows "is_heap lt' h"
  unfolding is_heap_def
proof (intro allI impI)
  fix i assume i: "0 < i" "i < length h"
  then have "parent i < length h" using less_trans[OF parent_less] by blast
  then show "\<not> lt' (h ! i) (h ! parent i)"
    using assms(1)[of "h ! i" "h ! parent i"] assms(2) i by (simp add: is_heap_def)
qed


lemma set_heappush: "set (heappush (alarm_lt objs) h r) = insert r (set h)"
  using mset_eq_setD[of "heappush (alarm_lt objs) h r" "r # h"] alarm_heap.mset_heappush[of objs h r] by simp

lemma distinct_heappush: "distinct (heappush (alarm_lt objs) h r) \<longleftrightarrow> r \<notin> set h \<and> distinct h"
  using mset_eq_imp_distinct_iff[of "heappush (alarm_lt objs) h r" "r # h"]
    alarm_heap.mset_heappush[of objs h r] by simp

lemma aq_inv_push:
  assumes "aq_inv q" and "r \<notin> set (alarms q)" and "r < length (alarm_objects q)"
    and "count (alarm_objects q ! r) < uniq_count q"
    and "\<And>x. x \<in> set (alarms q) \<Longrightarrow> count (alarm_objects q ! x) \<noteq> count (alarm_objects q ! r)"
  shows "aq_inv (q\<lparr>alarms := heappush (alarm_lt (alarm_objects q)) (alarms q) r\<rparr>)"
proof -
  have "count (alarm_objects q ! r) \<notin> (\<lambda>x. count (alarm_objects q ! x)) ` set (alarms q)"
    by (rule notI, erule imageE) (drule assms(5), simp)
  then have "inj_on (\<lambda>x. count (alarm_objects q ! x)) (insert r (set (alarms q)))"
    using assms(1,2) by (simp add: aq_inv_def inj_on_insert)
  then show ?thesis
    using assms(1-4) by (simp add: aq_inv_def set_heappush distinct_heappush
      alarm_heap.heappush_is_heap)
qed

lemma aq_inv_pop:
  assumes "aq_inv q" and "alarms q \<noteq> []"
  obtains rest where
    "heappop (alarm_lt (alarm_objects q)) (alarms q) = Inr (alarms q ! 0, rest)"
    "aq_inv (q\<lparr>alarms := rest\<rparr>)" "set (alarms q) = insert (alarms q ! 0) (set rest)"
    "alarms q ! 0 \<notin> set rest" "mset (alarms q) = add_mset (alarms q ! 0) (mset rest)"
proof -
  obtain rest where pop: "heappop (alarm_lt (alarm_objects q)) (alarms q) = Inr (alarms q ! 0, rest)"
    and heap: "is_heap (alarm_lt (alarm_objects q)) rest"
    and ms: "add_mset (alarms q ! 0) (mset rest) = mset (alarms q)"
    using alarm_heap.heappop_is_heap[of "alarm_objects q" "alarms q"] assms by (auto simp: aq_inv_def)
  have set: "set (alarms q) = insert (alarms q ! 0) (set rest)"
    using mset_eq_setD[of "alarms q" "alarms q ! 0 # rest"] ms by simp
  have dist: "alarms q ! 0 \<notin> set rest \<and> distinct rest"
    using mset_eq_imp_distinct_iff[of "alarms q" "alarms q ! 0 # rest"] ms assms(1)
    by (simp add: aq_inv_def)
  have "aq_inv (q\<lparr>alarms := rest\<rparr>)"
    using assms(1) heap set dist by (auto simp: aq_inv_def inj_on_insert)
  with pop set dist ms show thesis using that by simp
qed

text \<open>Changing objects without changing the keys of the queued ones keeps the invariant.\<close>

lemma aq_inv_objects:
  assumes "aq_inv q"
    and same: "\<And>x. x \<in> set (alarms q) \<Longrightarrow> x < length objs
      \<and> fire_time (objs ! x) = fire_time (alarm_objects q ! x) \<and> count (objs ! x) = count (alarm_objects q ! x)"
  shows "aq_inv (q\<lparr>alarm_objects := objs\<rparr>)"
proof -
  have heap: "is_heap (alarm_lt (alarm_objects q)) (alarms q)"
    and inj: "inj_on (\<lambda>x. count (alarm_objects q ! x)) (set (alarms q))"
    using assms(1) by (simp_all add: aq_inv_def)
  have "is_heap (alarm_lt objs) (alarms q)"
    by (rule is_heap_cong[OF _ heap]) (simp add: AlarmId_lt_def same)
  moreover have "inj_on (\<lambda>x. count (objs ! x)) (set (alarms q))"
    using inj same by (metis (no_types, lifting) inj_on_cong)
  ultimately show ?thesis using assms(1) same by (simp add: aq_inv_def)
qed

lemma aq_inv_set_object:
  assumes "aq_inv q" and "r \<notin> set (alarms q)"
  shows "aq_inv (q\<lparr>alarm_objects := (alarm_objects q)[r := a]\<rparr>)"
  using assms(1)
proof (rule aq_inv_objects)
  fix x assume x: "x \<in> set (alarms q)"
  then have "r \<noteq> x" using assms(2) by auto
  then show "x < length ((alarm_objects q)[r := a])
      \<and> fire_time ((alarm_objects q)[r := a] ! x) = fire_time (alarm_objects q ! x)
      \<and> count ((alarm_objects q)[r := a] ! x) = count (alarm_objects q ! x)"
    using assms(1) x by (simp add: aq_inv_def)
qed

lemma aq_inv_new_object:
  assumes "aq_inv q"
  shows "aq_inv (q\<lparr>alarm_objects := alarm_objects q @ [a]\<rparr>)"
  using assms by (rule aq_inv_objects) (use assms in \<open>auto simp: aq_inv_def nth_append\<close>)

lemma aq_inv_uniq_count: "aq_inv q \<Longrightarrow> uniq_count q \<le> n \<Longrightarrow> aq_inv (q\<lparr>uniq_count := n\<rparr>)"
  by (auto simp: aq_inv_def)

lemma aq_inv_approx [simp]: "aq_inv (q\<lparr>approx_alarms_scheduled := al\<rparr>) = aq_inv q"
  by (simp add: aq_inv_def)

lemma register_alarm_queued:
  assumes "aq_inv q" and "0 \<le> d" and "\<not> (imm \<and> d = 0)"
  obtains q' where
    "AlarmQueue_register_alarm env d (Callable f) a imm w q = (Inr (length (alarm_objects q)), w, q')"
    "aq_inv q'" "mset (alarms q') = add_mset (length (alarm_objects q)) (mset (alarms q))"
    "uniq_count q' = uniq_count q + 1" "approx_alarms_scheduled q' = approx_alarms_scheduled q"
    "alarm_objects q' = alarm_objects q @ [\<lparr>fire_time = clock env w + d, count = uniq_count q,
       alarm = \<lparr>fn = f, args = a, alarm_fire_time = clock env w + d\<rparr>, is_active = True\<rparr>]"
proof -
  let ?o = "\<lparr>fire_time = clock env w + d, count = uniq_count q,
       alarm = \<lparr>fn = f, args = a, alarm_fire_time = clock env w + d\<rparr>, is_active = True\<rparr>"
  let ?r = "length (alarm_objects q)"
  let ?q = "q\<lparr>alarm_objects := alarm_objects q @ [?o], uniq_count := uniq_count q + 1\<rparr>"
  let ?q' = "?q\<lparr>alarms := heappush (alarm_lt (alarm_objects ?q)) (alarms ?q) ?r\<rparr>"
  have "aq_inv ?q"
    using aq_inv_uniq_count[OF aq_inv_new_object[OF assms(1), of ?o], of "uniq_count q + 1"] by simp
  moreover have "?r \<notin> set (alarms ?q)" using assms(1) by (auto simp: aq_inv_def)
  moreover have "count (alarm_objects ?q ! x) \<noteq> uniq_count q" if "x \<in> set (alarms ?q)" for x
    using assms(1) that by (auto simp: aq_inv_def nth_append)
  ultimately have "aq_inv ?q'" by (intro aq_inv_push) simp_all
  moreover have "AlarmQueue_register_alarm env d (Callable f) a imm w q = (Inr ?r, w, ?q')"
    using assms(2,3) by (auto simp: AlarmQueue_register_alarm_def Let_def)
  ultimately show thesis
    by (intro that[of ?q']) (simp_all add: alarm_heap.mset_heappush)
qed

lemma drop_inactive_inv:
  assumes "aq_inv q"
  shows "aq_inv (q\<lparr>alarms := drop_inactive (alarm_objects q) (alarms q)\<rparr>)
    \<and> {r \<in> set (alarms q). is_active (alarm_objects q ! r)}
        = {r \<in> set (drop_inactive (alarm_objects q) (alarms q)). is_active (alarm_objects q ! r)}
    \<and> (drop_inactive (alarm_objects q) (alarms q) = []
       \<or> is_active (alarm_objects q ! (drop_inactive (alarm_objects q) (alarms q) ! 0)))"
  using assms
proof (induction "length (alarms q)" arbitrary: q rule: less_induct)
  case less
  show ?case
  proof (cases "alarms q")
    case Nil
    then show ?thesis by (simp add: aq_inv_def is_heap_def)
  next
    case (Cons r rs)
    show ?thesis
    proof (cases "is_active (alarm_objects q ! r)")
      case True
      then have "drop_inactive (alarm_objects q) (alarms q) = alarms q" using Cons by simp
      moreover have "is_active (alarm_objects q ! (alarms q ! 0))" using True Cons by simp
      ultimately show ?thesis using less.prems by simp
    next
      case False
      obtain rest where rest:
        "heappop (alarm_lt (alarm_objects q)) (alarms q) = Inr (alarms q ! 0, rest)"
        "aq_inv (q\<lparr>alarms := rest\<rparr>)" "set (alarms q) = insert (alarms q ! 0) (set rest)"
        using aq_inv_pop[OF less.prems] Cons by (metis list.distinct(1))
      have "length rest < length (alarms q)" using length_heappop[OF rest(1)] by simp
      then have ih: "aq_inv (q\<lparr>alarms := drop_inactive (alarm_objects q) rest\<rparr>)
        \<and> {r \<in> set rest. is_active (alarm_objects q ! r)}
            = {r \<in> set (drop_inactive (alarm_objects q) rest). is_active (alarm_objects q ! r)}
        \<and> (drop_inactive (alarm_objects q) rest = []
           \<or> is_active (alarm_objects q ! (drop_inactive (alarm_objects q) rest ! 0)))"
        using less.hyps[of "q\<lparr>alarms := rest\<rparr>"] rest(2) by simp
      have "drop_inactive (alarm_objects q) (alarms q) = drop_inactive (alarm_objects q) rest"
        using rest(1) Cons False by simp
      moreover have "{r \<in> set (alarms q). is_active (alarm_objects q ! r)}
          = {r \<in> set rest. is_active (alarm_objects q ! r)}"
        using rest(3) Cons False by auto
      ultimately show ?thesis using ih by simp
    qed
  qed
qed


subsection \<open>Firing\<close>

text \<open>
  The environment that records calls: every callable \<open>f\<close> with arguments \<open>a\<close> has the outcome
  \<open>outcome f a\<close> (an exception, \<open>None\<close> or a delay), takes no time and leaves the queue alone.
\<close>

definition recording ::
    "('f \<Rightarrow> 'a \<Rightarrow> time option result) \<Rightarrow> ('f, 'a, time \<times> ('f \<times> 'a) list) environment" where
  "recording outcome = \<lparr>clock = fst,
     fire = (\<lambda>f a w q. (outcome f a, (fst w, snd w @ [(f, a)]), q))\<rparr>"

abbreviation alarm_key :: "('f, 'a) AlarmQueue \<Rightarrow> nat \<Rightarrow> time \<times> nat" where
  "alarm_key q r \<equiv> (fire_time (alarm_objects q ! r), count (alarm_objects q ! r))"

abbreviation alarm_call :: "('f, 'a) AlarmQueue \<Rightarrow> nat \<Rightarrow> 'f \<times> 'a" where
  "alarm_call q r \<equiv> (fn (alarm (alarm_objects q ! r)), args (alarm (alarm_objects q ! r)))"

definition due_now :: "time \<Rightarrow> ('f, 'a) AlarmQueue \<Rightarrow> nat list" where
  "due_now now q = filter (\<lambda>r. is_active (alarm_objects q ! r) \<and> fire_time (alarm_objects q ! r) \<le> now) (alarms q)"

definition due_order :: "time \<Rightarrow> ('f, 'a) AlarmQueue \<Rightarrow> nat list" where
  "due_order now q = sort_key (alarm_key q) (due_now now q)"

definition wants_again :: "('f \<Rightarrow> 'a \<Rightarrow> time option result) \<Rightarrow> ('f, 'a) AlarmQueue \<Rightarrow> nat \<Rightarrow> bool" where
  "wants_again outcome q r \<longleftrightarrow>
     (case outcome (fst (alarm_call q r)) (snd (alarm_call q r)) of Inr (Some d) \<Rightarrow> 0 < d | _ \<Rightarrow> False)"

lemma recording_simps [simp]:
  "clock (recording outcome) w = fst w"
  "Alarm_fire (recording outcome) al w q = (outcome (fn al) (args al), (fst w, snd w @ [(fn al, args al)]), q)"
  by (simp_all add: recording_def Alarm_fire_def)

lemma inj_alarm_key: "aq_inv q \<Longrightarrow> inj_on (alarm_key q) (set (alarms q))"
  by (auto simp: aq_inv_def inj_on_def)

lemma set_due_order: "set (due_order now q) = set (due_now now q)"
  by (simp add: due_order_def)

lemma due_order_unique:
  assumes "aq_inv q" and "mset rs = mset (due_now now q)" and "sorted (map (alarm_key q) rs)"
  shows "due_order now q = rs"
proof -
  have "inj_on (alarm_key q) (set (due_now now q))"
    using inj_alarm_key[OF assms(1)] by (rule inj_on_subset) (auto simp: due_now_def)
  then show ?thesis
    unfolding due_order_def using assms(2,3) by (intro sort_key_inj_key_eq) simp_all
qed

text \<open>
  What one popped alarm leaves behind: \<open>same_elsewhere\<close> says that the queue is the old one without
  the root \<open>r\<close>, except that \<open>r\<close> may be queued again with a time after \<open>now\<close>.
\<close>

definition same_elsewhere :: "time \<Rightarrow> nat \<Rightarrow> nat list \<Rightarrow> bool \<Rightarrow> ('f, 'a) AlarmQueue \<Rightarrow> ('f, 'a) AlarmQueue \<Rightarrow> bool" where
  "same_elsewhere now r rest again q q' \<longleftrightarrow>
     aq_inv q' \<and> approx_alarms_scheduled q' = []
     \<and> mset (alarms q') = (if again then add_mset r (mset rest) else mset rest)
     \<and> (\<forall>x. x \<noteq> r \<longrightarrow> alarm_objects q' ! x = alarm_objects q ! x)
     \<and> alarm_call q' r = alarm_call q r
     \<and> (again \<longrightarrow> now < fire_time (alarm_objects q' ! r))"

lemma same_elsewhere_set:
  "same_elsewhere now r rest again q q' \<Longrightarrow> set (alarms q') = (if again then insert r (set rest) else set rest)"
  unfolding same_elsewhere_def using mset_eq_setD[of "alarms q'" "r # rest"] mset_eq_setD[of "alarms q'" rest]
  by auto

lemma due_now_step:
  assumes "same_elsewhere now r rest again q q'" and "r \<notin> set rest"
  shows "mset (due_now now q') =
    filter_mset (\<lambda>x. is_active (alarm_objects q ! x) \<and> fire_time (alarm_objects q ! x) \<le> now) (mset rest)"
proof -
  let ?P = "\<lambda>p x. is_active (alarm_objects p ! x) \<and> fire_time (alarm_objects p ! x) \<le> now"
  have neq: "x \<noteq> r" if "x \<in># mset rest" for x using that assms(2) by auto
  have "mset (due_now now q') = filter_mset (?P q') (mset (alarms q'))"
    by (simp add: due_now_def mset_filter)
  also have "\<dots> = filter_mset (?P q') (mset rest)"
    using assms(1) by (cases again) (auto simp: same_elsewhere_def)
  also have "\<dots> = filter_mset (?P q) (mset rest)"
    using assms(1) neq by (intro filter_mset_cong) (auto simp: same_elsewhere_def)
  finally show ?thesis .
qed

lemma due_order_step:
  assumes inv: "aq_inv q" and ne: "alarms q \<noteq> []"
    and due: "fire_time (alarm_objects q ! (alarms q ! 0)) \<le> now"
    and rest: "mset (alarms q) = add_mset (alarms q ! 0) (mset rest)" "alarms q ! 0 \<notin> set rest"
    and same: "same_elsewhere now (alarms q ! 0) rest again q q'"
  shows "due_order now q =
    (if is_active (alarm_objects q ! (alarms q ! 0)) then [alarms q ! 0] else []) @ due_order now q'"
proof -
  let ?r = "alarms q ! 0"
  let ?P = "\<lambda>x. is_active (alarm_objects q ! x) \<and> fire_time (alarm_objects q ! x) \<le> now"
  let ?l = "(if is_active (alarm_objects q ! ?r) then [?r] else []) @ due_order now q'"
  have "mset (due_now now q) = filter_mset ?P (add_mset ?r (mset rest))"
    by (simp add: due_now_def mset_filter flip: rest(1))
  then have ms: "mset ?l = mset (due_now now q)"
    using due_now_step[OF same rest(2)] due by (simp add: due_order_def)
  have sub: "set (due_order now q') \<subseteq> set rest"
    using arg_cong[OF due_now_step[OF same rest(2)], of set_mset] by (auto simp: set_due_order)
  have other: "alarm_objects q' ! x = alarm_objects q ! x" if "x \<in> set (due_order now q')" for x
  proof -
    have "x \<noteq> ?r" using that sub rest(2) by auto
    then show ?thesis using same by (simp add: same_elsewhere_def)
  qed
  then have keys: "map (alarm_key q') (due_order now q') = map (alarm_key q) (due_order now q')"
    by simp
  have "sorted (map (alarm_key q') (due_order now q'))" by (simp add: due_order_def)
  then have srt: "sorted (map (alarm_key q) (due_order now q'))" using keys by simp
  have least: "alarm_key q ?r \<le> alarm_key q x" if "x \<in> set (due_order now q')" for x
  proof -
    have "x \<in> set (alarms q)" using that sub mset_eq_setD[of "alarms q" "?r # rest"] rest(1) by auto
    then have "\<not> alarm_lt (alarm_objects q) x ?r"
      using alarm_heap.heap_root_least_set[of "alarm_objects q" "alarms q" x] inv by (simp add: aq_inv_def)
    then show ?thesis by (auto simp: AlarmId_lt_def less_eq_prod_def)
  qed
  have "sorted (map (alarm_key q) ?l)" using srt least by (simp add: sorted_append)
  with ms show ?thesis by (rule due_order_unique[OF inv])
qed


lemma fire_popped_recording:
  assumes inv: "aq_inv (q\<lparr>alarms := rest\<rparr>)" and r: "r \<notin> set rest" "r < length (alarm_objects q)"
    and cnt: "count (alarm_objects q ! r) < uniq_count q"
      "\<And>x. x \<in> set rest \<Longrightarrow> count (alarm_objects q ! x) \<noteq> count (alarm_objects q ! r)"
    and approx: "approx_alarms_scheduled q = []"
  shows "\<exists>q'. fire_popped (recording outcome) r (now, past) (q\<lparr>alarms := rest\<rparr>)
      = (Inr (), (now, past @ (if is_active (alarm_objects q ! r) then [alarm_call q r] else [])), q')
    \<and> same_elsewhere now r rest (is_active (alarm_objects q ! r) \<and> wants_again outcome q r) q q'"
proof -
  let ?q = "q\<lparr>alarms := rest\<rparr>"
  have stay: "same_elsewhere now r rest False q ?q"
    using inv approx by (simp add: same_elsewhere_def)
  have clean: "cleanup_fired r ?q = Inr ?q" using approx by (simp add: cleanup_fired_def)
  have push: "same_elsewhere now r rest True q (reschedule r (now + d) ?q)" if "0 < d" for d
  proof -
    let ?o = "(alarm_objects q)[r := (alarm_objects q ! r)\<lparr>fire_time := now + d,
      alarm := (alarm (alarm_objects q ! r))\<lparr>alarm_fire_time := now + d\<rparr>\<rparr>]"
    let ?q1 = "?q\<lparr>alarm_objects := ?o\<rparr>"
    have o: "?o ! x = alarm_objects q ! x" if "x \<noteq> r" for x using that by simp
    have "aq_inv ?q1" using aq_inv_set_object[OF inv, of r] r(1) by simp
    moreover have "count (?o ! x) \<noteq> count (?o ! r)" if "x \<in> set rest" for x
    proof -
      have "x \<noteq> r" using that r(1) by auto
      then show ?thesis using cnt(2)[OF that] r(2) by simp
    qed
    ultimately have "aq_inv (?q1\<lparr>alarms := heappush (alarm_lt (alarm_objects ?q1)) (alarms ?q1) r\<rparr>)"
      using r cnt(1) by (intro aq_inv_push) simp_all
    moreover have "reschedule r (now + d) ?q
        = ?q1\<lparr>alarms := heappush (alarm_lt (alarm_objects ?q1)) (alarms ?q1) r\<rparr>"
      by (simp add: reschedule_def Let_def)
    ultimately show ?thesis
      using that r(2) approx by (simp add: same_elsewhere_def alarm_heap.mset_heappush)
  qed
  show ?thesis
  proof (cases "is_active (alarm_objects q ! r)")
    case False
    then show ?thesis using stay by (simp add: fire_popped_def)
  next
    case True
    then show ?thesis
      using stay clean push
      by (auto simp: fire_popped_def wants_again_def split: sum.splits option.splits)
  qed
qed

abbreviation due_count :: "time \<Rightarrow> ('f, 'a) AlarmQueue \<Rightarrow> nat" where
  "due_count now q \<equiv> size (filter_mset (\<lambda>r. fire_time (alarm_objects q ! r) \<le> now) (mset (alarms q)))"

lemma due_count_step:
  assumes "same_elsewhere now r rest again q q'" and "r \<notin> set rest"
    and "mset (alarms q) = add_mset r (mset rest)" and "fire_time (alarm_objects q ! r) \<le> now"
  shows "Suc (due_count now q') = due_count now q"
proof -
  let ?P = "\<lambda>p x. fire_time (alarm_objects p ! x) \<le> now"
  have neq: "x \<noteq> r" if "x \<in># mset rest" for x using that assms(2) by auto
  have "filter_mset (?P q') (mset (alarms q')) = filter_mset (?P q') (mset rest)"
    using assms(1) by (cases again) (auto simp: same_elsewhere_def)
  also have "\<dots> = filter_mset (?P q) (mset rest)"
    using assms(1) neq by (intro filter_mset_cong) (auto simp: same_elsewhere_def)
  finally show ?thesis using assms(3,4) by simp
qed

lemma fire_alarms_loop_recording:
  assumes "aq_inv q" and "approx_alarms_scheduled q = []" and "due_count now q < fuel"
  shows "\<exists>q'. fire_alarms_loop (recording outcome) now fuel (now, past) q
      = Some (Inr (), (now, past @ map (alarm_call q) (due_order now q)), q')
    \<and> aq_inv q'
    \<and> set (alarms q') = {r \<in> set (alarms q). now < fire_time (alarm_objects q ! r)}
        \<union> {r \<in> set (due_order now q). wants_again outcome q r}
    \<and> (\<forall>r \<in> set (alarms q'). now < fire_time (alarm_objects q' ! r))"
  using assms
proof (induction fuel arbitrary: q past)
  case 0
  then show ?case by simp
next
  case (Suc fuel)
  let ?r = "alarms q ! 0"
  have root: "\<not> alarm_lt (alarm_objects q) x ?r" if "x \<in> set (alarms q)" for x
    using alarm_heap.heap_root_least_set[of "alarm_objects q" "alarms q" x] that Suc.prems(1)
    by (simp add: aq_inv_def)
  show ?case
  proof (cases "alarms q = [] \<or> \<not> fire_time (alarm_objects q ! ?r) \<le> now")
    case True
    have late: "now < fire_time (alarm_objects q ! x)" if "x \<in> set (alarms q)" for x
    proof -
      have "\<not> fire_time (alarm_objects q ! ?r) \<le> now" using True that by auto
      then show ?thesis using root[OF that] by (auto simp: AlarmId_lt_def)
    qed
    then have "due_now now q = []" by (auto simp: due_now_def filter_empty_conv not_le)
    then have "due_order now q = []" by (simp add: due_order_def)
    with True Suc.prems late show ?thesis by auto
  next
    case False
    obtain rest where pop:
      "heappop (alarm_lt (alarm_objects q)) (alarms q) = Inr (?r, rest)"
      and inv': "aq_inv (q\<lparr>alarms := rest\<rparr>)" and st: "set (alarms q) = insert ?r (set rest)"
      and nin: "?r \<notin> set rest" and ms: "mset (alarms q) = add_mset ?r (mset rest)"
      using aq_inv_pop[OF Suc.prems(1)] False by blast
    let ?act = "is_active (alarm_objects q ! ?r)"
    let ?again = "?act \<and> wants_again outcome q ?r"
    have r_ok: "?r < length (alarm_objects q)" "count (alarm_objects q ! ?r) < uniq_count q"
      "\<And>x. x \<in> set rest \<Longrightarrow> count (alarm_objects q ! x) \<noteq> count (alarm_objects q ! ?r)"
      using Suc.prems(1) nin unfolding aq_inv_def st inj_on_insert by (simp_all add: image_iff) metis
    obtain q1 where fp: "fire_popped (recording outcome) ?r (now, past) (q\<lparr>alarms := rest\<rparr>)
        = (Inr (), (now, past @ (if ?act then [alarm_call q ?r] else [])), q1)"
      and same: "same_elsewhere now ?r rest ?again q q1"
      using fire_popped_recording[OF inv' nin r_ok(1,2) r_ok(3) Suc.prems(2), where past = past and now = now] by blast
    have q1: "aq_inv q1" "approx_alarms_scheduled q1 = []" using same by (simp_all add: same_elsewhere_def)
    have "due_count now q1 < fuel"
      using due_count_step[OF same nin ms] False Suc.prems(3) by simp
    from Suc.IH[OF q1 this, where past = "past @ (if ?act then [alarm_call q ?r] else [])"]
    obtain q' where q': "fire_alarms_loop (recording outcome) now fuel
          (now, past @ (if ?act then [alarm_call q ?r] else [])) q1
        = Some (Inr (), (now, (past @ (if ?act then [alarm_call q ?r] else [])) @ map (alarm_call q1) (due_order now q1)), q')"
      "aq_inv q'" "\<forall>r \<in> set (alarms q'). now < fire_time (alarm_objects q' ! r)"
      "set (alarms q') = {r \<in> set (alarms q1). now < fire_time (alarm_objects q1 ! r)}
        \<union> {r \<in> set (due_order now q1). wants_again outcome q1 r}"
      by blast
    have order: "due_order now q = (if ?act then [?r] else []) @ due_order now q1"
      using due_order_step[OF Suc.prems(1) _ _ ms nin same] False by simp
    have calls: "alarm_call q1 x = alarm_call q x" for x
      using same by (cases "x = ?r") (auto simp: same_elsewhere_def)
    have wants: "wants_again outcome q1 = wants_again outcome q"
      unfolding wants_again_def calls by simp
    have run: "fire_alarms_loop (recording outcome) now (Suc fuel) (now, past) q
        = Some (Inr (), (now, past @ map (alarm_call q) (due_order now q)), q')"
      using False pop fp q'(1) order calls by simp
    have "{r \<in> set (alarms q1). now < fire_time (alarm_objects q1 ! r)}
        = {r \<in> set rest. now < fire_time (alarm_objects q ! r)} \<union> (if ?again then {?r} else {})"
      using same nin by (auto simp: same_elsewhere_set[OF same] same_elsewhere_def split: if_splits) metis+
    then have "set (alarms q') = {r \<in> set (alarms q). now < fire_time (alarm_objects q ! r)}
        \<union> {r \<in> set (due_order now q). wants_again outcome q r}"
      using q'(4) False order st by (auto simp: wants split: if_splits)
    then show ?thesis using run q'(2,3) by blast
  qed
qed


text \<open>
  C23. On a queue without approximate alarms, while the clock stands still and with callbacks that only
  record their call and leave the queue alone, \<open>fire_alarms\<close> calls exactly the active alarms that are
  due, each once, in the order of their fire times (ties in registration order), whatever each call
  returns or raises; cancelled due alarms are dropped without a call. Afterwards the queue holds the alarms that were not due and
  the fired ones that returned a positive delay, all of them later than now. As many passes as there
  are alarms, plus one to see that none is left, are enough.
\<close>

theorem fire_alarms_in_order:
  assumes "aq_inv q" and "approx_alarms_scheduled q = []" and "length (alarms q) < fuel"
  shows "\<exists>q'. AlarmQueue_fire_alarms (recording outcome) fuel (now, past) q
      = Some (Inr (), (now, past @ map (alarm_call q) (due_order now q)), q')
    \<and> aq_inv q'
    \<and> set (alarms q') = {r \<in> set (alarms q). now < fire_time (alarm_objects q ! r)}
        \<union> {r \<in> set (due_order now q). wants_again outcome q r}
    \<and> (\<forall>r \<in> set (alarms q'). now < fire_time (alarm_objects q' ! r))"
proof (cases "alarms q = []")
  case True
  then show ?thesis using assms(1) by (simp add: AlarmQueue_fire_alarms_def due_order_def due_now_def)
next
  case False
  have "due_count now q \<le> length (alarms q)"
    using size_filter_mset_lesseq[of "\<lambda>r. fire_time (alarm_objects q ! r) \<le> now" "mset (alarms q)"] by simp
  then have "due_count now q < fuel" using assms(3) by simp
  from fire_alarms_loop_recording[OF assms(1,2) this, of outcome past] False show ?thesis
    by (simp add: AlarmQueue_fire_alarms_def)
qed

theorem fire_alarms_in_order_witness:
  "\<exists>q'. AlarmQueue_fire_alarms (recording (\<lambda>f a. Inr None)) 3 (5, [])
      \<lparr>alarms = [0, 1], uniq_count = 2, approx_alarms_scheduled = [],
       alarm_objects =
         [\<lparr>fire_time = 3, count = 0, alarm = \<lparr>fn = ''f'', args = (), alarm_fire_time = 3\<rparr>, is_active = True\<rparr>,
          \<lparr>fire_time = 9, count = 1, alarm = \<lparr>fn = ''g'', args = (), alarm_fire_time = 9\<rparr>, is_active = True\<rparr>]\<rparr>
      = Some (Inr (), (5, [(''f'', ())]), q') \<and> set (alarms q') = {1}"
  using fire_alarms_in_order
    [of "\<lparr>alarms = [0, 1], uniq_count = 2, approx_alarms_scheduled = [],
       alarm_objects =
         [\<lparr>fire_time = 3, count = 0, alarm = \<lparr>fn = ''f'', args = (), alarm_fire_time = 3\<rparr>, is_active = True\<rparr>,
          \<lparr>fire_time = 9, count = 1, alarm = \<lparr>fn = ''g'', args = (), alarm_fire_time = 9\<rparr>, is_active = True\<rparr>]\<rparr>"
      3 "\<lambda>f a. Inr None" 5 "[]"]
  by (auto simp: aq_inv_def is_heap_def parent_def AlarmId_lt_def due_order_def due_now_def
      wants_again_def less_Suc_eq numeral_2_eq_2 split: if_splits)

subsection \<open>Runs of the queue\<close>

datatype ('f, 'a) aq_command =
    Register time 'f 'a
  | RegisterApprox time time 'f 'a
  | Unregister nat

text \<open>One call at a given time; the world is the time alone, and no call fires a callback.\<close>

definition timer_env :: "('f, 'a, time) environment" where
  "timer_env = \<lparr>clock = id, fire = (\<lambda>f a w q. (Inr None, w, q))\<rparr>"

fun aq_step :: "('f, 'a) AlarmQueue \<Rightarrow> time \<times> ('f, 'a) aq_command \<Rightarrow> ('f, 'a) AlarmQueue result" where
  "aq_step q (now, Register d f a) =
     (case AlarmQueue_register_alarm timer_env d (Callable f) a False now q of
        (Inl e, _, _) \<Rightarrow> Inl e | (Inr _, _, q') \<Rightarrow> Inr q')"
| "aq_step q (now, RegisterApprox d slop f a) =
     (case AlarmQueue_register_approx_alarm timer_env d slop (Callable f) a now q of
        (Inl e, _, _) \<Rightarrow> Inl e | (Inr _, _, q') \<Rightarrow> Inr q')"
| "aq_step q (now, Unregister r) = Inr (AlarmQueue_unregister_alarm r q)"

fun aq_admissible :: "time \<times> ('f, 'a) aq_command \<Rightarrow> bool" where
  "aq_admissible (now, Register d f a) \<longleftrightarrow> 0 \<le> d"
| "aq_admissible (now, RegisterApprox d slop f a) \<longleftrightarrow> 0 \<le> d \<and> 0 \<le> slop"
| "aq_admissible (now, Unregister r) \<longleftrightarrow> True"

lemma aq_inv_init [simp]: "aq_inv AlarmQueue_init"
  by (simp add: aq_inv_def AlarmQueue_init_def is_heap_def)

lemma unregister_inv:
  assumes "aq_inv q"
  shows "aq_inv (AlarmQueue_unregister_alarm r q)"
    and "alarms (AlarmQueue_unregister_alarm r q) = [] \<or>
      is_active (alarm_objects (AlarmQueue_unregister_alarm r q) ! (alarms (AlarmQueue_unregister_alarm r q) ! 0))"
    and "{x \<in> set (alarms (AlarmQueue_unregister_alarm r q)). is_active (alarm_objects (AlarmQueue_unregister_alarm r q) ! x)}
      = {x \<in> set (alarms q). is_active (alarm_objects q ! x) \<and> x \<noteq> r}"
proof -
  let ?o = "(alarm_objects q)[r := (alarm_objects q ! r)\<lparr>is_active := False\<rparr>]"
  let ?q = "q\<lparr>alarm_objects := ?o\<rparr>"
  have bound: "x < length (alarm_objects q)" if "x \<in> set (alarms q)" for x
    using that assms by (simp add: aq_inv_def)
  have inv: "aq_inv ?q"
    using assms
  proof (rule aq_inv_objects)
    fix x assume "x \<in> set (alarms q)"
    then show "x < length ?o \<and> fire_time (?o ! x) = fire_time (alarm_objects q ! x)
        \<and> count (?o ! x) = count (alarm_objects q ! x)"
      using bound by (cases "r = x") auto
  qed
  have def: "AlarmQueue_unregister_alarm r q = ?q\<lparr>alarms := drop_inactive (alarm_objects ?q) (alarms ?q)\<rparr>"
    by (simp add: AlarmQueue_unregister_alarm_def Let_def)
  note drop = drop_inactive_inv[OF inv]
  show "aq_inv (AlarmQueue_unregister_alarm r q)"
    unfolding def using drop by blast
  show "alarms (AlarmQueue_unregister_alarm r q) = [] \<or>
      is_active (alarm_objects (AlarmQueue_unregister_alarm r q) ! (alarms (AlarmQueue_unregister_alarm r q) ! 0))"
    unfolding def using drop by simp
  have "{x \<in> set (alarms q). is_active (?o ! x)} = {x \<in> set (alarms q). is_active (alarm_objects q ! x) \<and> x \<noteq> r}"
  proof (rule Collect_cong)
    fix x show "(x \<in> set (alarms q) \<and> is_active (?o ! x)) = (x \<in> set (alarms q) \<and> is_active (alarm_objects q ! x) \<and> x \<noteq> r)"
      using bound by (cases "r = x") auto
  qed
  then show "{x \<in> set (alarms (AlarmQueue_unregister_alarm r q)). is_active (alarm_objects (AlarmQueue_unregister_alarm r q) ! x)}
      = {x \<in> set (alarms q). is_active (alarm_objects q ! x) \<and> x \<noteq> r}"
    unfolding def using drop by simp
qed

definition approx_queue :: "'f \<Rightarrow> ('f, 'a) AlarmQueue \<Rightarrow> nat list" where
  "approx_queue f q = (case map_of (approx_alarms_scheduled q) f of None \<Rightarrow> [] | Some heap \<Rightarrow> heap)"

lemma init_empty: "approx_queue f AlarmQueue_init = []" "alarm_objects AlarmQueue_init = []"
  by (simp_all add: approx_queue_def AlarmQueue_init_def)

lemma register_approx_callable:
  assumes "0 \<le> d" and "0 \<le> slop"
  shows "AlarmQueue_register_approx_alarm env d slop (Callable f) a w q =
    (if list_ex (\<lambda>r. d + clock env w - slop \<le> fire_time (alarm_objects q ! r)
                        \<and> fire_time (alarm_objects q ! r) \<le> d + clock env w + slop) (approx_queue f q)
     then (Inr (), w, q)
     else case AlarmQueue_register_alarm env d (Callable f) a False w q of (r, w', q') \<Rightarrow>
       (case r of Inl e \<Rightarrow> (Inl e, w', q')
        | Inr ref \<Rightarrow> (Inr (), w', q'\<lparr>approx_alarms_scheduled := AList.update f
            (heappush (alarm_lt (alarm_objects q')) (approx_queue f q) ref) (approx_alarms_scheduled q')\<rparr>)))"
  using assms
  by (simp add: AlarmQueue_register_approx_alarm_def approx_queue_def Let_def split: prod.split sum.split)

lemma register_approx_cases:
  assumes "aq_inv q" and "0 \<le> d" and "0 \<le> slop"
  obtains (nearby) "\<exists>r \<in> set (approx_queue f q). \<bar>fire_time (alarm_objects q ! r) - (clock env w + d)\<bar> \<le> slop"
      "AlarmQueue_register_approx_alarm env d slop (Callable f) a w q = (Inr (), w, q)"
  | (scheduled) q1 q' where
      "\<not> (\<exists>r \<in> set (approx_queue f q). \<bar>fire_time (alarm_objects q ! r) - (clock env w + d)\<bar> \<le> slop)"
      "AlarmQueue_register_approx_alarm env d slop (Callable f) a w q = (Inr (), w, q')"
      "AlarmQueue_register_alarm env d (Callable f) a False w q = (Inr (length (alarm_objects q)), w, q1)"
      "aq_inv q1" "alarms q' = alarms q1" "alarm_objects q' = alarm_objects q1" "aq_inv q'"
      "set (approx_queue f q') = insert (length (alarm_objects q)) (set (approx_queue f q))"
      "fire_time (alarm_objects q' ! length (alarm_objects q)) = clock env w + d"
proof -
  have near: "list_ex (\<lambda>r. d + clock env w - slop \<le> fire_time (alarm_objects q ! r)
                        \<and> fire_time (alarm_objects q ! r) \<le> d + clock env w + slop) (approx_queue f q)
      \<longleftrightarrow> (\<exists>r \<in> set (approx_queue f q). \<bar>fire_time (alarm_objects q ! r) - (clock env w + d)\<bar> \<le> slop)"
    by (auto simp: list_ex_iff abs_le_iff) (smt (verit))+
  show thesis
  proof (cases "\<exists>r \<in> set (approx_queue f q). \<bar>fire_time (alarm_objects q ! r) - (clock env w + d)\<bar> \<le> slop")
    case True
    moreover from this near have "AlarmQueue_register_approx_alarm env d slop (Callable f) a w q = (Inr (), w, q)"
      by (simp add: register_approx_callable[OF assms(2,3)])
    ultimately show thesis by (rule nearby)
  next
    case False
    obtain q1 where q1: "AlarmQueue_register_alarm env d (Callable f) a False w q = (Inr (length (alarm_objects q)), w, q1)"
      "aq_inv q1" "alarm_objects q1 = alarm_objects q @ [\<lparr>fire_time = clock env w + d, count = uniq_count q,
       alarm = \<lparr>fn = f, args = a, alarm_fire_time = clock env w + d\<rparr>, is_active = True\<rparr>]"
      using register_alarm_queued[OF assms(1,2), of False env f a w] by blast
    let ?q' = "q1\<lparr>approx_alarms_scheduled := AList.update f
       (heappush (alarm_lt (alarm_objects q1)) (approx_queue f q) (length (alarm_objects q))) (approx_alarms_scheduled q1)\<rparr>"
    have "AlarmQueue_register_approx_alarm env d slop (Callable f) a w q = (Inr (), w, ?q')"
      using q1(1) by (simp add: register_approx_callable[OF assms(2,3)] near False)
    moreover have "set (approx_queue f ?q') = insert (length (alarm_objects q)) (set (approx_queue f q))"
      by (simp add: approx_queue_def[of f ?q'] set_heappush)
    ultimately show thesis
      by (intro scheduled[OF False, of ?q' q1]) (simp_all add: q1)
  qed
qed

interpretation aq: guarded_system aq_step aq_inv aq_admissible
proof unfold_locales
  fix q :: "('a, 'b) AlarmQueue" and x :: "time \<times> ('a, 'b) aq_command"
  assume inv: "aq_inv q" and adm: "aq_admissible x"
  obtain now c where x: "x = (now, c)" by (cases x)
  show "\<exists>q'. aq_step q x = Inr q' \<and> aq_inv q'"
  proof (cases c)
    case (Register d f a)
    then have "0 \<le> d" using adm x by simp
    then obtain q1 where "AlarmQueue_register_alarm timer_env d (Callable f) a False now q
        = (Inr (length (alarm_objects q)), now, q1)" "aq_inv q1"
      by (rule register_alarm_queued[OF inv, of d False timer_env f a now]) auto
    then show ?thesis using x Register by simp
  next
    case (RegisterApprox d slop f a)
    then have "0 \<le> d" "0 \<le> slop" using adm x by simp_all
    from register_approx_cases[OF inv this, of f timer_env now a] show ?thesis
      using x RegisterApprox inv by cases auto
  next
    case (Unregister r)
    then show ?thesis using x unregister_inv(1)[OF inv] by simp
  qed
qed


text \<open>
  Along every sequence of registrations, approximate registrations and cancellations the queue
  keeps its heap, and \<open>time_to_next_alarm\<close> is the delay to the earliest queued alarm (\<open>None\<close> exactly
  when nothing is queued).
\<close>

theorem time_to_next_alarm_earliest:
  assumes "list_all aq_admissible cs"
  shows "\<exists>q. rfold aq_step AlarmQueue_init cs = Inr q \<and> aq_inv q
    \<and> AlarmQueue_time_to_next_alarm env w q =
        (if alarms q = [] then None
         else Some (Min ((\<lambda>r. fire_time (alarm_objects q ! r)) ` set (alarms q)) - clock env w))"
proof -
  obtain q where q: "rfold aq_step AlarmQueue_init cs = Inr q" "aq_inv q"
    using aq.run_total[OF aq_inv_init assms] by blast
  have "Min ((\<lambda>r. fire_time (alarm_objects q ! r)) ` set (alarms q)) = fire_time (alarm_objects q ! (alarms q ! 0))"
    if "alarms q \<noteq> []"
  proof (rule Min_eqI)
    fix t assume "t \<in> (\<lambda>r. fire_time (alarm_objects q ! r)) ` set (alarms q)"
    then obtain x where x: "x \<in> set (alarms q)" "t = fire_time (alarm_objects q ! x)" by blast
    then have "\<not> alarm_lt (alarm_objects q) x (alarms q ! 0)"
      using alarm_heap.heap_root_least_set[of "alarm_objects q" "alarms q" x] q(2) by (simp add: aq_inv_def)
    then show "fire_time (alarm_objects q ! (alarms q ! 0)) \<le> t" using x(2) by (auto simp: AlarmId_lt_def)
  qed (use that in auto)
  moreover have "AlarmQueue_time_to_next_alarm env w q = Some (fire_time (alarm_objects q ! (alarms q ! 0)) - clock env w)"
    if "alarms q \<noteq> []"
    using that by (cases "alarms q") (simp_all add: AlarmQueue_time_to_next_alarm_def)
  moreover have "AlarmQueue_time_to_next_alarm env w q = None" if "alarms q = []"
    using that by (simp add: AlarmQueue_time_to_next_alarm_def)
  ultimately show ?thesis using q by simp
qed

theorem time_to_next_alarm_earliest_witness:
  "\<exists>q. rfold aq_step AlarmQueue_init [(0, Register 7 ''f'' ()), (1, RegisterApprox 2 1 ''g'' ()), (2, Unregister 1)]
      = Inr q \<and> aq_inv q"
  using time_to_next_alarm_earliest
    [of "[(0, Register 7 ''f'' ()), (1, RegisterApprox 2 1 ''g'' ()), (2, Unregister 1)]" timer_env 0]
  by auto

text \<open>
  \<open>register_approx_alarm\<close> leaves, for its function, an approximate alarm whose time is within
  \<open>slop\<close> of the requested one, and schedules at most one: when such an alarm was scheduled before the call
  nothing changes, otherwise exactly the new alarm is queued.
\<close>

theorem register_approx_alarm_once:
  assumes "aq_inv q" and "0 \<le> d" and "0 \<le> slop"
  shows "\<exists>q'. AlarmQueue_register_approx_alarm env d slop (Callable f) a w q = (Inr (), w, q')
    \<and> (\<exists>r \<in> set (approx_queue f q'). \<bar>fire_time (alarm_objects q' ! r) - (clock env w + d)\<bar> \<le> slop)
    \<and> (if \<exists>r \<in> set (approx_queue f q). \<bar>fire_time (alarm_objects q ! r) - (clock env w + d)\<bar> \<le> slop
       then q' = q
       else set (approx_queue f q') = insert (length (alarm_objects q)) (set (approx_queue f q)))"
proof (cases rule: register_approx_cases[OF assms, of f env w a, case_names nearby scheduled])
  case nearby
  then show ?thesis by auto
next
  case (scheduled q1 q')
  have "\<exists>r \<in> set (approx_queue f q'). \<bar>fire_time (alarm_objects q' ! r) - (clock env w + d)\<bar> \<le> slop"
    using scheduled(8,9) assms(3) by auto
  then show ?thesis using scheduled(1,2,8) by auto
qed

theorem register_approx_alarm_once_witness:
  "\<exists>q'. AlarmQueue_register_approx_alarm timer_env 10 5 (Callable ''f'') () 0 AlarmQueue_init = (Inr (), 0, q')
    \<and> set (approx_queue ''f'' q') = {0}"
  using register_approx_alarm_once[of AlarmQueue_init 10 5 timer_env "''f''" "()" 0]
  by (auto simp: init_empty)

definition again_then_stop :: "(nat, unit, time \<times> nat) environment" where
  "again_then_stop = \<lparr>clock = fst,
     fire = (\<lambda>f a w q. (Inr (if snd w = 0 then Some 50 else None), (fst w, Suc (snd w)), q))\<rparr>"

definition two_approx_alarms :: "(nat, unit) AlarmQueue" where
  "two_approx_alarms =
     \<lparr>alarms = [0, 1], uniq_count = 2, approx_alarms_scheduled = [(7, [0, 1])],
      alarm_objects =
        [\<lparr>fire_time = 10, count = 0, alarm = \<lparr>fn = 7, args = (), alarm_fire_time = 10\<rparr>, is_active = True\<rparr>,
         \<lparr>fire_time = 20, count = 1, alarm = \<lparr>fn = 7, args = (), alarm_fire_time = 20\<rparr>, is_active = True\<rparr>]\<rparr>"

lemma heappop_two: "heappop lt [a, b] = Inr (a, [b])"
  by (simp add: heappop_def siftup_def siftdown_def siftup_loop.simps siftdown_loop.simps Let_def)

lemma heappush_one: "heappush lt [a] b = (if lt b a then [b, a] else [a, b])"
  by (simp add: heappush_def siftdown_def siftdown_loop.simps parent_def)

text \<open>
  An approximate alarm whose function asks to be called again moves its time while it sits in the
  heap of its function, which is then out of order: when two such alarms are scheduled and the
  second ends, \<open>_pop_and_cleanup_approx_alarm\<close> finds the first one on top and its assertion fails
  inside \<open>fire_alarms\<close>. Shown on two alarms of one function, called first with the outcome 50 and then
  with the outcome \<open>None\<close>.
\<close>

theorem approx_reschedule_assertion:
  "rbind (aq_step AlarmQueue_init (0, RegisterApprox 10 1 7 ())) (\<lambda>q. aq_step q (0, RegisterApprox 20 1 7 ()))
     = Inr two_approx_alarms
   \<and> (\<exists>w q. AlarmQueue_fire_alarms again_then_stop 3 (20, 0) two_approx_alarms = Some (Inl AssertionError, w, q))"
proof
  have push0: "heappush lt [] b = [b]" for lt :: "nat \<Rightarrow> nat \<Rightarrow> bool" and b
    by (simp add: heappush_def siftdown_def siftdown_loop.simps)
  show "rbind (aq_step AlarmQueue_init (0, RegisterApprox 10 1 7 ())) (\<lambda>q. aq_step q (0, RegisterApprox 20 1 7 ()))
     = Inr two_approx_alarms"
    by (simp add: AlarmQueue_register_approx_alarm_def AlarmQueue_register_alarm_def AlarmQueue_init_def
        timer_env_def two_approx_alarms_def push0 heappush_one AlarmId_lt_def Let_def)
  show "\<exists>w q. AlarmQueue_fire_alarms again_then_stop 3 (20, 0) two_approx_alarms = Some (Inl AssertionError, w, q)"
    by (simp add: AlarmQueue_fire_alarms_def two_approx_alarms_def again_then_stop_def numeral_3_eq_3
        heappop_two heappush_one fire_popped_def Alarm_fire_def reschedule_def cleanup_fired_def
        AlarmQueue_pop_and_cleanup_approx_alarm_def AlarmId_lt_def Let_def)
qed

end
