(* ===== verification/Expiring_Collections.thy ===== *)
theory Expiring_Collections
  imports Collections_Bx Alarm_Queue
begin

text \<open>
  \<open>ExpiringSet\<close> and \<open>ExpiringDict\<close> (\<open>bxcommon/utils/expiring_set.py\<close>, \<open>expiring_dict.py\<close>): contents
  with an \<open>ExpirationQueue\<close>, and a cleanup alarm that every \<open>add\<close> schedules on the shared
  \<open>AlarmQueue\<close> by \<open>register_approx_alarm\<close>. The bound method \<open>self.cleanup\<close> that is handed to the alarm
  queue is an argument \<open>cleanup\<close>. The locale \<open>quiet_owner\<close> extends the contract of queue owners to those
  whose callback leaves the queue alone: their contents lose exactly the expired items.
\<close>

locale quiet_owner = expiry_owner get_q set_q cb owner_inv
  for get_q :: "'s \<Rightarrow> 'a ExpirationQueue"
    and set_q :: "'a ExpirationQueue \<Rightarrow> 's \<Rightarrow> 's"
    and cb :: "'a \<Rightarrow> 's \<Rightarrow> 's result"
    and owner_inv :: "'s \<Rightarrow> bool" +
  fixes view :: "'s \<Rightarrow> 'v"
    and without :: "'a \<Rightarrow> 'v \<Rightarrow> 'v"
  assumes get_set: "get_q (set_q q s) = q"
    and view_set: "view (set_q q s) = view s"
    and cb_quiet: "cb x s = Inr s' \<Longrightarrow> get_q s' = get_q s \<and> view s' = without x (view s)"
begin

lemma remove_expired_loop_quiet:
  assumes "owner_inv s" and "length (queue (get_q s)) \<le> n"
  shows "\<exists>s'. ExpirationQueue_remove_expired_loop n get_q set_q cb now s
      = Inr (map fst (takeWhile (eq_expired now (get_q s)) (queue (get_q s))), s')
    \<and> owner_inv s'
    \<and> get_q s' = (get_q s)\<lparr>queue := dropWhile (eq_expired now (get_q s)) (queue (get_q s))\<rparr>
    \<and> view s' = fold without (map fst (takeWhile (eq_expired now (get_q s)) (queue (get_q s)))) (view s)"
  using assms
proof (induction n arbitrary: s)
  case 0
  then show ?case by simp
next
  case (Suc n)
  show ?case
  proof (cases "queue (get_q s)")
    case Nil
    moreover have "(get_q s)\<lparr>queue := []\<rparr> = get_q s" using Nil by simp
    ultimately show ?thesis using Suc.prems by simp
  next
    case (Cons p rest)
    obtain x t where p: "p = (x, t)" by (cases p)
    show ?thesis
    proof (cases "eq_expired now (get_q s) p")
      case False
      moreover have "(get_q s)\<lparr>queue := (x, t) # rest\<rparr> = get_q s" using Cons p by simp
      ultimately show ?thesis using Cons p Suc.prems by (simp add: eq_expired_def)
    next
      case True
      obtain s1 where s1: "cb x (set_q ((get_q s)\<lparr>queue := rest\<rparr>) s) = Inr s1" "owner_inv s1"
        using cb_total[OF Suc.prems(1) Cons[unfolded p]] by blast
      have g1: "get_q s1 = (get_q s)\<lparr>queue := rest\<rparr>" "view s1 = without x (view s)"
        using cb_quiet[OF s1(1)] by (simp_all add: get_set view_set)
      have same: "eq_expired now ((get_q s)\<lparr>queue := rest\<rparr>) = eq_expired now (get_q s)"
        by (simp add: eq_expired_def fun_eq_iff)
      obtain s' where s': "ExpirationQueue_remove_expired_loop n get_q set_q cb now s1
          = Inr (map fst (takeWhile (eq_expired now (get_q s)) rest), s')" "owner_inv s'"
        "get_q s' = (get_q s)\<lparr>queue := dropWhile (eq_expired now (get_q s)) rest\<rparr>"
        "view s' = fold without (map fst (takeWhile (eq_expired now (get_q s)) rest)) (without x (view s))"
        using Suc.IH[OF s1(2)] Suc.prems(2) Cons by (auto simp: same g1)
      have "ExpirationQueue_remove_expired_loop (Suc n) get_q set_q cb now s
          = Inr (x # map fst (takeWhile (eq_expired now (get_q s)) rest), s')"
        using Cons p True s1(1) s'(1) by (simp add: eq_expired_def)
      then show ?thesis using Cons p True s' by simp
    qed
  qed
qed

lemma remove_expired_quiet:
  assumes "owner_inv s"
  shows "\<exists>s'. ExpirationQueue_remove_expired get_q set_q cb now None None s
      = Inr (map fst (takeWhile (eq_expired now (get_q s)) (queue (get_q s))), s')
    \<and> owner_inv s'
    \<and> get_q s' = (get_q s)\<lparr>queue := dropWhile (eq_expired now (get_q s)) (queue (get_q s))\<rparr>
    \<and> view s' = fold without (map fst (takeWhile (eq_expired now (get_q s)) (queue (get_q s)))) (view s)"
  using remove_expired_loop_quiet[OF assms order_refl] by (simp add: ExpirationQueue_remove_expired_def)

end

subsection \<open>ExpiringSet\<close>

record 'a ExpiringSet =
  set_contents :: "'a set"
  set_expiration_queue :: "'a ExpirationQueue"
  set_expiration_time :: time

definition ExpiringSet_init :: "time \<Rightarrow> 'a ExpiringSet result" where
  "ExpiringSet_init expiration_time_s =
     rbind (ExpirationQueue_init expiration_time_s) (\<lambda>q.
       Inr \<lparr>set_contents = {}, set_expiration_queue = q, set_expiration_time = expiration_time_s\<rparr>)"

definition ExpiringSet_contains :: "'a \<Rightarrow> 'a ExpiringSet \<Rightarrow> bool" where
  "ExpiringSet_contains item s \<longleftrightarrow> item \<in> set_contents s"

definition ExpiringSet_len :: "'a ExpiringSet \<Rightarrow> nat" where
  "ExpiringSet_len s = card (set_contents s)"

definition ExpiringSet_add ::
    "('f, 'b, 'w) environment \<Rightarrow> 'f \<Rightarrow> 'b \<Rightarrow> 'a \<Rightarrow> 'w \<Rightarrow> 'a ExpiringSet \<Rightarrow> ('f, 'b) AlarmQueue
     \<Rightarrow> unit result \<times> 'a ExpiringSet \<times> 'w \<times> ('f, 'b) AlarmQueue" where
  "ExpiringSet_add env cleanup no_args item w s q =
     (let s' = s\<lparr>set_contents := insert item (set_contents s),
                 set_expiration_queue := ExpirationQueue_add (clock env w) item (set_expiration_queue s)\<rparr>
      in case AlarmQueue_register_approx_alarm env (set_expiration_time s * 2) (set_expiration_time s)
                (Callable cleanup) no_args w q of (r, w', q') \<Rightarrow> (r, s', w', q'))"

definition ExpiringSet_remove :: "'a \<Rightarrow> 'a ExpiringSet \<Rightarrow> 'a ExpiringSet result" where
  "ExpiringSet_remove item s =
     (if item \<in> set_contents s then Inr (s\<lparr>set_contents := set_contents s - {item}\<rparr>) else Inl KeyError)"

definition ExpiringSet_get_recent_items :: "nat \<Rightarrow> 'a ExpiringSet \<Rightarrow> 'a list" where
  "ExpiringSet_get_recent_items n s = take n (rev (map fst (queue (set_expiration_queue s))))"

definition ExpiringSet_safe_remove_item :: "'a \<Rightarrow> 'a ExpiringSet \<Rightarrow> 'a ExpiringSet result" where
  "ExpiringSet_safe_remove_item item s =
     (if item \<in> set_contents s then Inr (s\<lparr>set_contents := set_contents s - {item}\<rparr>) else Inr s)"

definition ExpiringSet_cleanup :: "time \<Rightarrow> 'a ExpiringSet \<Rightarrow> (time \<times> 'a ExpiringSet) result" where
  "ExpiringSet_cleanup now s =
     rbind (ExpirationQueue_remove_expired set_expiration_queue
              (\<lambda>q s. s\<lparr>set_expiration_queue := q\<rparr>) ExpiringSet_safe_remove_item now None None s)
       (\<lambda>(removed, s'). Inr (0, s'))"

interpretation expiring_set: quiet_owner set_expiration_queue "\<lambda>q s. s\<lparr>set_expiration_queue := q\<rparr>"
    ExpiringSet_safe_remove_item "\<lambda>s. eq_wf (set_expiration_queue s)" set_contents "\<lambda>x c. c - {x}"
  by unfold_locales (auto simp: ExpiringSet_safe_remove_item_def eq_wf_def split: if_splits)

lemma fold_minus: "fold (\<lambda>x c. c - {x}) xs c = c - set xs"
  by (induction xs arbitrary: c) auto

text \<open>
  \<open>ExpiringSet.cleanup\<close> drops from the set exactly the expired items of its queue (when the queue is
  in time order) and answers 0, so that the alarm that runs it is not scheduled again.
\<close>

theorem expiring_set_cleanup_exact:
  assumes "eq_wf (set_expiration_queue s)" and "eq_in_time_order (set_expiration_queue s)"
  shows "\<exists>s'. ExpiringSet_cleanup now s = Inr (0, s')
    \<and> set_contents s' = set_contents s -
        fst ` {p \<in> set (queue (set_expiration_queue s)). now - snd p > time_to_live_sec (set_expiration_queue s)}
    \<and> set (queue (set_expiration_queue s')) =
        {p \<in> set (queue (set_expiration_queue s)). \<not> now - snd p > time_to_live_sec (set_expiration_queue s)}"
proof -
  let ?q = "set_expiration_queue s"
  have split: "takeWhile (eq_expired now ?q) (queue ?q) = filter (eq_expired now ?q) (queue ?q)
      \<and> dropWhile (eq_expired now ?q) (queue ?q) = filter (\<lambda>p. \<not> eq_expired now ?q p) (queue ?q)"
    using assms(2) by (intro sorted_takeWhile_eq_filter[where f = snd])
      (auto simp: eq_in_time_order_def eq_expired_def)
  obtain s' where "ExpirationQueue_remove_expired set_expiration_queue
        (\<lambda>q s. s\<lparr>set_expiration_queue := q\<rparr>) ExpiringSet_safe_remove_item now None None s
      = Inr (map fst (filter (eq_expired now ?q) (queue ?q)), s')"
    "set_expiration_queue s' = ?q\<lparr>queue := filter (\<lambda>p. \<not> eq_expired now ?q p) (queue ?q)\<rparr>"
    "set_contents s' = set_contents s - set (map fst (filter (eq_expired now ?q) (queue ?q)))"
    using expiring_set.remove_expired_quiet[of s now] assms(1) split by (auto simp: fold_minus)
  then show ?thesis
    by (auto simp: ExpiringSet_cleanup_def eq_expired_def)
qed

theorem expiring_set_cleanup_exact_witness:
  "\<exists>s'. ExpiringSet_cleanup 20 \<lparr>set_contents = {''a'', ''b''},
      set_expiration_queue = \<lparr>time_to_live_sec = 5, queue = [(''a'', 10), (''b'', 18)]\<rparr>,
      set_expiration_time = 5\<rparr> = Inr (0, s') \<and> set_contents s' = {''b''}"
proof -
  have "fst ` {p \<in> {(''a'', 10 :: real), (''b'', 18)}. 5 < 20 - snd p} = {''a''}"
    by (simp add: Collect_disj_eq conj_disj_distribR Collect_conv_if cong: conj_cong)
  then show ?thesis
    using expiring_set_cleanup_exact[of "\<lparr>set_contents = {''a'', ''b''},
      set_expiration_queue = \<lparr>time_to_live_sec = 5, queue = [(''a'', 10), (''b'', 18)]\<rparr>,
      set_expiration_time = 5\<rparr>" 20]
    by (simp add: eq_wf_def eq_in_time_order_def) blast
qed

text \<open>
  \<open>remove\<close> takes an item out of the set but not out of its expiration queue, so
  \<open>get_recent_items\<close> still returns it.
\<close>

theorem recent_items_after_remove:
  assumes "ExpiringSet_remove item s = Inr s'"
  shows "\<not> ExpiringSet_contains item s'
    \<and> ExpiringSet_get_recent_items n s' = ExpiringSet_get_recent_items n s"
  using assms
  by (auto simp: ExpiringSet_remove_def ExpiringSet_contains_def ExpiringSet_get_recent_items_def
      split: if_splits)

theorem recent_items_after_remove_witness:
  "ExpiringSet_get_recent_items 1 \<lparr>set_contents = {''a'', ''b''} - {''b''},
      set_expiration_queue = \<lparr>time_to_live_sec = 5, queue = [(''a'', 10), (''b'', 18)]\<rparr>,
      set_expiration_time = 5\<rparr> = [''b'']"
  using recent_items_after_remove[of "''b''" "\<lparr>set_contents = {''a'', ''b''},
      set_expiration_queue = \<lparr>time_to_live_sec = 5, queue = [(''a'', 10), (''b'', 18)]\<rparr>,
      set_expiration_time = 5\<rparr>" "\<lparr>set_contents = {''a'', ''b''} - {''b''},
      set_expiration_queue = \<lparr>time_to_live_sec = 5, queue = [(''a'', 10), (''b'', 18)]\<rparr>,
      set_expiration_time = 5\<rparr>" 1]
  by (simp add: ExpiringSet_remove_def ExpiringSet_get_recent_items_def)

subsection \<open>ExpiringDict\<close>

record ('k, 'v) ExpiringDict =
  dict_contents :: "('k \<times> 'v) list"
  dict_expiration_queue :: "'k ExpirationQueue"
  dict_expiration_time :: time

definition ExpiringDict_init :: "time \<Rightarrow> ('k, 'v) ExpiringDict result" where
  "ExpiringDict_init expiration_time_s =
     rbind (ExpirationQueue_init expiration_time_s) (\<lambda>q.
       Inr \<lparr>dict_contents = [], dict_expiration_queue = q, dict_expiration_time = expiration_time_s\<rparr>)"

definition ExpiringDict_contains :: "'k \<Rightarrow> ('k, 'v) ExpiringDict \<Rightarrow> bool" where
  "ExpiringDict_contains k s \<longleftrightarrow> map_of (dict_contents s) k \<noteq> None"

definition ExpiringDict_add ::
    "('f, 'b, 'w) environment \<Rightarrow> 'f \<Rightarrow> 'b \<Rightarrow> 'k \<Rightarrow> 'v \<Rightarrow> 'w \<Rightarrow> ('k, 'v) ExpiringDict \<Rightarrow> ('f, 'b) AlarmQueue
     \<Rightarrow> unit result \<times> ('k, 'v) ExpiringDict \<times> 'w \<times> ('f, 'b) AlarmQueue" where
  "ExpiringDict_add env cleanup no_args k v w s q =
     (let s' = s\<lparr>dict_contents := AList.update k v (dict_contents s),
                 dict_expiration_queue := ExpirationQueue_add (clock env w) k (dict_expiration_queue s)\<rparr>
      in case AlarmQueue_register_approx_alarm env (dict_expiration_time s * 2) (dict_expiration_time s)
                (Callable cleanup) no_args w q of (r, w', q') \<Rightarrow> (r, s', w', q'))"

definition ExpiringDict_setitem ::
    "('f, 'b, 'w) environment \<Rightarrow> 'f \<Rightarrow> 'b \<Rightarrow> 'k \<Rightarrow> 'v \<Rightarrow> 'w \<Rightarrow> ('k, 'v) ExpiringDict \<Rightarrow> ('f, 'b) AlarmQueue
     \<Rightarrow> unit result \<times> ('k, 'v) ExpiringDict \<times> 'w \<times> ('f, 'b) AlarmQueue" where
  "ExpiringDict_setitem env cleanup no_args k v w s q =
     (if ExpiringDict_contains k s
      then (Inr (), s\<lparr>dict_contents := AList.update k v (dict_contents s)\<rparr>, w, q)
      else ExpiringDict_add env cleanup no_args k v w s q)"

definition ExpiringDict_delitem :: "'k \<Rightarrow> ('k, 'v) ExpiringDict \<Rightarrow> ('k, 'v) ExpiringDict result" where
  "ExpiringDict_delitem k s =
     (if ExpiringDict_contains k s
      then Inr (s\<lparr>dict_contents := AList.delete k (dict_contents s),
                  dict_expiration_queue := ExpirationQueue_remove k (dict_expiration_queue s)\<rparr>)
      else Inl KeyError)"

definition ExpiringDict_getitem :: "'k \<Rightarrow> ('k, 'v) ExpiringDict \<Rightarrow> 'v result" where
  "ExpiringDict_getitem k s = (case map_of (dict_contents s) k of None \<Rightarrow> Inl KeyError | Some v \<Rightarrow> Inr v)"

definition ExpiringDict_remove_item ::
    "'k \<Rightarrow> ('k, 'v) ExpiringDict \<Rightarrow> 'v option \<times> ('k, 'v) ExpiringDict" where
  "ExpiringDict_remove_item k s =
     (if ExpiringDict_contains k s
      then (map_of (dict_contents s) k, s\<lparr>dict_contents := AList.delete k (dict_contents s)\<rparr>)
      else (None, s))"

definition ExpiringDict_cleanup :: "time \<Rightarrow> ('k, 'v) ExpiringDict \<Rightarrow> (time \<times> ('k, 'v) ExpiringDict) result" where
  "ExpiringDict_cleanup now s =
     rbind (ExpirationQueue_remove_expired dict_expiration_queue
              (\<lambda>q s. s\<lparr>dict_expiration_queue := q\<rparr>) (\<lambda>k s. Inr (snd (ExpiringDict_remove_item k s)))
              now None None s)
       (\<lambda>(removed, s'). Inr (0, s'))"

text \<open>Every key of the dictionary is watched by its queue.\<close>

definition ed_inv :: "('k, 'v) ExpiringDict \<Rightarrow> bool" where
  "ed_inv s \<longleftrightarrow> eq_wf (dict_expiration_queue s) \<and> distinct (map fst (dict_contents s))
     \<and> fst ` set (dict_contents s) = fst ` set (queue (dict_expiration_queue s))"

definition dict_mapping :: "('k, 'v) ExpiringDict \<Rightarrow> 'k \<Rightarrow> 'v option" where
  "dict_mapping s = map_of (dict_contents s)"

interpretation expiring_dict: quiet_owner dict_expiration_queue "\<lambda>q s. s\<lparr>dict_expiration_queue := q\<rparr>"
    "\<lambda>k s. Inr (snd (ExpiringDict_remove_item k s))" ed_inv dict_mapping "\<lambda>k m. m(k := None)"
  by unfold_locales (auto simp: ExpiringDict_remove_item_def ExpiringDict_contains_def ed_inv_def
      eq_wf_def dict_mapping_def keys_delete image_iff map_of_eq_None_iff fun_upd_idem_iff
      intro!: ext split: if_splits)


lemma ed_inv_ops:
  assumes "ed_inv s"
  shows "ed_inv (fst (snd (ExpiringDict_add env cl na k v w s q)))"
    and "ed_inv (fst (snd (ExpiringDict_setitem env cl na k v w s q)))"
    and "ExpiringDict_delitem k s = Inr s' \<Longrightarrow> ed_inv s'"
proof -
  show add: "ed_inv (fst (snd (ExpiringDict_add env cl na k v w s q)))"
    using assms by (auto simp: ed_inv_def eq_wf_def ExpiringDict_add_def Let_def keys_update split: prod.split)
  have "fst ` set (AList.update k v (dict_contents s)) = fst ` set (dict_contents s)"
    if "ExpiringDict_contains k s"
    using that by (auto simp: ExpiringDict_contains_def keys_update map_of_eq_None_iff)
  then show "ed_inv (fst (snd (ExpiringDict_setitem env cl na k v w s q)))"
    using assms add by (auto simp: ed_inv_def ExpiringDict_setitem_def)
  show "ed_inv s'" if "ExpiringDict_delitem k s = Inr s'"
  proof -
    have "s' = s\<lparr>dict_contents := AList.delete k (dict_contents s),
        dict_expiration_queue := ExpirationQueue_remove k (dict_expiration_queue s)\<rparr>"
      using that by (simp add: ExpiringDict_delitem_def split: if_splits)
    then show ?thesis using assms by (simp add: ed_inv_def eq_wf_def keys_delete)
  qed
qed

lemma fold_forget: "fold (\<lambda>k m. m(k := None)) ks m = (\<lambda>k. if k \<in> set ks then None else m k)"
  by (induction ks arbitrary: m) auto

text \<open>
  After \<open>ExpiringDict.cleanup\<close> a lookup finds exactly the entries whose key was added at most
  the expiration time ago, with their values unchanged, and every entry is still watched by the queue.
\<close>

theorem expiring_dict_cleanup_lookup:
  assumes "ed_inv s" and "eq_in_time_order (dict_expiration_queue s)"
  shows "\<exists>s'. ExpiringDict_cleanup now s = Inr (0, s') \<and> ed_inv s'
    \<and> (\<forall>k. ExpiringDict_getitem k s' =
        (case map_of (queue (dict_expiration_queue s)) k of
           None \<Rightarrow> Inl KeyError
         | Some t \<Rightarrow> if now - t > time_to_live_sec (dict_expiration_queue s) then Inl KeyError
                     else ExpiringDict_getitem k s))"
proof -
  let ?q = "dict_expiration_queue s"
  let ?expired = "filter (eq_expired now ?q) (queue ?q)"
  have "takeWhile (eq_expired now ?q) (queue ?q) = ?expired"
    using assms(2) by (intro sorted_takeWhile_eq_filter[where f = snd, THEN conjunct1])
      (auto simp: eq_in_time_order_def eq_expired_def)
  then obtain s' where s': "ExpiringDict_cleanup now s = Inr (0, s')" "ed_inv s'"
    "dict_mapping s' = (\<lambda>k. if k \<in> set (map fst ?expired) then None else dict_mapping s k)"
    using expiring_dict.remove_expired_quiet[OF assms(1), of now]
    by (auto simp: ExpiringDict_cleanup_def fold_forget)
  have wf: "distinct (map fst (queue ?q))" using assms(1) by (simp add: ed_inv_def eq_wf_def)
  have key: "k \<in> set (map fst ?expired) \<longleftrightarrow>
      (\<exists>t. map_of (queue ?q) k = Some t \<and> now - t > time_to_live_sec ?q)" for k
    using wf by (force simp: eq_expired_def)
  have absent: "dict_mapping s k = None" if "map_of (queue ?q) k = None" for k
    using that assms(1) by (simp add: dict_mapping_def ed_inv_def map_of_eq_None_iff)
  have "ExpiringDict_getitem k s' =
        (case map_of (queue ?q) k of
           None \<Rightarrow> Inl KeyError
         | Some t \<Rightarrow> if now - t > time_to_live_sec ?q then Inl KeyError
                     else ExpiringDict_getitem k s)" for k
    using s'(3) key[of k] absent[of k] unfolding ExpiringDict_getitem_def dict_mapping_def[symmetric]
    by (auto split: option.splits)
  with s' show ?thesis by blast
qed

theorem expiring_dict_cleanup_lookup_witness:
  "\<exists>s'. ExpiringDict_cleanup 20 \<lparr>dict_contents = [(''a'', True), (''b'', False)],
      dict_expiration_queue = \<lparr>time_to_live_sec = 5, queue = [(''a'', 10), (''b'', 18)]\<rparr>,
      dict_expiration_time = 5\<rparr> = Inr (0, s') \<and> ExpiringDict_getitem ''a'' s' = Inl KeyError
      \<and> ExpiringDict_getitem ''b'' s' = Inr False"
  using expiring_dict_cleanup_lookup[of "\<lparr>dict_contents = [(''a'', True), (''b'', False)],
      dict_expiration_queue = \<lparr>time_to_live_sec = 5, queue = [(''a'', 10), (''b'', 18)]\<rparr>,
      dict_expiration_time = 5\<rparr>" 20]
  by (auto simp: ed_inv_def eq_wf_def eq_in_time_order_def ExpiringDict_getitem_def)

end
