(* ===== verification/Basic_Values.thy ===== *)
theory Basic_Values
  imports Bx_Prelude
begin

unbundle bit_operations_syntax

text \<open>
  The small value types the components share: hexadecimal conversion and the table from node types to
  connection types (\<open>bxcommon/utils/convert.py\<close>), hash objects (\<open>utils/object_hash.py\<close>), the flag
  enumerations (\<open>models/transaction_flag.py\<close>, \<open>models/node_type.py\<close>,
  \<open>connections/connection_type.py\<close>) and the home-made flag class of \<open>utils/flag_enum.py\<close>.

  Members of an \<open>enum.Flag\<close> are their bit masks (\<open>nat\<close>); \<open>flag_in\<close> is the \<open>in\<close> of such flags.
\<close>

subsection \<open>Hexadecimal strings\<close>

definition hex_digits :: string where
  "hex_digits = ''0123456789abcdef''"

definition hex_digit :: "nat \<Rightarrow> char" where
  "hex_digit n = hex_digits ! n"

definition hex_values :: "(char \<times> nat) list" where
  "hex_values = zip hex_digits [0..<16] @ zip ''ABCDEF'' [10..<16]"

definition hex_byte :: "byte \<Rightarrow> string" where
  "hex_byte b = [hex_digit (unat b div 16), hex_digit (unat b mod 16)]"

definition bytes_to_hex :: "bytes \<Rightarrow> string" where
  "bytes_to_hex s = concat (map hex_byte s)"

definition bytes_to_hex_string_format :: "bytes \<Rightarrow> string" where
  "bytes_to_hex_string_format s = ''0x'' @ bytes_to_hex s"

fun hex_to_bytes :: "string \<Rightarrow> bytes result" where
  "hex_to_bytes [] = Inr []"
| "hex_to_bytes [c] = Inl ValueError"
| "hex_to_bytes (c # d # cs) =
     (case (map_of hex_values c, map_of hex_values d) of
        (Some h, Some l) \<Rightarrow> rbind (hex_to_bytes cs) (\<lambda>bs. Inr (of_nat (16 * h + l) # bs))
      | _ \<Rightarrow> Inl ValueError)"

definition str_to_bool :: "string \<Rightarrow> bool \<Rightarrow> bool" where
  "str_to_bool v dflt =
     (if dflt then v \<notin> {''False'', ''false'', ''0''} else v \<in> {''True'', ''true'', ''1''})"

lemma hex_value_digit: "n < 16 \<Longrightarrow> map_of hex_values (hex_digit n) = Some n"
proof -
  have "\<forall>n \<in> set [0..<16]. map_of hex_values (hex_digit n) = Some n"
    by (simp add: hex_values_def hex_digit_def hex_digits_def upt_rec numeral_nat)
  then show "n < 16 \<Longrightarrow> map_of hex_values (hex_digit n) = Some n" by simp
qed

lemma hex_value_x: "map_of hex_values CHR ''x'' = None"
  by (simp add: hex_values_def hex_digits_def upt_rec numeral_nat)

lemma length_bytes_to_hex [simp]: "length (bytes_to_hex bs) = 2 * length bs"
  by (induction bs) (simp_all add: bytes_to_hex_def hex_byte_def)

lemma hex_round_trip: "hex_to_bytes (bytes_to_hex bs) = Inr bs"
proof (induction bs)
  case Nil
  then show ?case by (simp add: bytes_to_hex_def)
next
  case (Cons b bs)
  have b: "unat b < 256" using unsigned_less[of b] by simp
  have "map_of hex_values (hex_digit (unat b div 16)) = Some (unat b div 16)"
    "map_of hex_values (hex_digit (unat b mod 16)) = Some (unat b mod 16)"
    using b by (auto intro!: hex_value_digit simp: less_mult_imp_div_less)
  moreover have "of_nat (16 * (unat b div 16) + unat b mod 16) = b"
    by (simp only: mult_div_mod_eq) simp
  ultimately show ?case using Cons.IH by (simp add: bytes_to_hex_def hex_byte_def)
qed

lemma bytes_to_hex_inj: "bytes_to_hex a = bytes_to_hex b \<longleftrightarrow> a = b"
  by (metis hex_round_trip sum.inject(2))

lemma hex_to_bytes_length: "hex_to_bytes s = Inr bs \<Longrightarrow> length s = 2 * length bs"
  by (induction s arbitrary: bs rule: hex_to_bytes.induct) (auto simp: rbind_eq_Inr split: option.splits)

subsection \<open>Hash objects\<close>

definition SHA256_HASH_LEN :: nat where "SHA256_HASH_LEN = 32"
definition PARTIAL_HASH_LENGTH :: nat where "PARTIAL_HASH_LENGTH = 4"

record object_hash =
  binary :: bytes
  hash_value :: nat

definition AbstractObjectHash_init :: "bytes \<Rightarrow> object_hash result" where
  "AbstractObjectHash_init b =
     (let partial = drop (length b - PARTIAL_HASH_LENGTH) b
      in if length partial = 4 then Inr \<lparr>binary = b, hash_value = of_le partial\<rparr> else Inl StructError)"

definition AbstractObjectHash_eq :: "object_hash \<Rightarrow> object_hash \<Rightarrow> bool" where
  "AbstractObjectHash_eq self other \<longleftrightarrow> binary self = binary other"

definition AbstractObjectHash_lt :: "object_hash \<Rightarrow> object_hash option \<Rightarrow> bool" where
  "AbstractObjectHash_lt self other \<longleftrightarrow>
     (case other of None \<Rightarrow> True
      | Some h \<Rightarrow> (binary self, binary h) \<in> lexord {(a, b). a < b})"

definition Sha256Hash_init :: "bytes \<Rightarrow> object_hash result" where
  "Sha256Hash_init b = (if length b \<noteq> SHA256_HASH_LEN then Inl ValueError else AbstractObjectHash_init b)"

definition Sha256Hash_to_string :: "bool \<Rightarrow> object_hash \<Rightarrow> string" where
  "Sha256Hash_to_string prefix h = (if prefix then ''0x'' @ bytes_to_hex (binary h) else bytes_to_hex (binary h))"

definition Sha256Hash_from_string :: "string \<Rightarrow> object_hash result" where
  "Sha256Hash_from_string s =
     rbind (hex_to_bytes (if take 2 s = ''0x'' then drop 2 s else s)) Sha256Hash_init"

definition ConcatHash_init :: "bytes \<Rightarrow> nat \<Rightarrow> object_hash result" where
  "ConcatHash_init b hashstart =
     rbind (AbstractObjectHash_init b) (\<lambda>h.
       let partial = bslice hashstart (hashstart + PARTIAL_HASH_LENGTH) b
       in if length partial = 4 then Inr (h\<lparr>hash_value := of_le partial\<rparr>) else Inl StructError)"

text \<open>\<open>wrap_sha256\<close>: the argument is a hash object, raw bytes or a hexadecimal string.\<close>

datatype hash_arg = HashObj object_hash | RawBytes bytes | HexStr string

definition wrap_sha256 :: "hash_arg \<Rightarrow> object_hash result" where
  "wrap_sha256 a =
     (case a of
        HashObj h \<Rightarrow> Inr h
      | RawBytes b \<Rightarrow> Sha256Hash_init b
      | HexStr s \<Rightarrow> rbind (hex_to_bytes s) Sha256Hash_init)"

lemma Sha256Hash_init_ok:
  "length b = 32 \<Longrightarrow> Sha256Hash_init b = Inr \<lparr>binary = b, hash_value = of_le (drop 28 b)\<rparr>"
  by (simp add: Sha256Hash_init_def AbstractObjectHash_init_def SHA256_HASH_LEN_def PARTIAL_HASH_LENGTH_def)

text \<open>
  Hexadecimal conversion is lossless: decoding the encoding of any bytes gives them back (so
  distinct byte strings have distinct keys), a string of odd length or with a foreign character is
  rejected with a \<open>ValueError\<close>, and a hash object survives \<open>to_string\<close> and \<open>from_string\<close>.
\<close>

theorem hex_conversion_round_trip:
  "hex_to_bytes (bytes_to_hex bs) = Inr bs
   \<and> (odd (length s) \<longrightarrow> hex_to_bytes s = Inl ValueError)
   \<and> (length (binary h) = 32 \<longrightarrow>
        (\<exists>h'. Sha256Hash_from_string (Sha256Hash_to_string prefix h) = Inr h' \<and> AbstractObjectHash_eq h' h))"
proof (intro conjI impI)
  show "hex_to_bytes (bytes_to_hex bs) = Inr bs" by (rule hex_round_trip)
  show "hex_to_bytes s = Inl ValueError" if "odd (length s)"
    using that
  proof (induction s rule: hex_to_bytes.induct)
    case (3 c d cs)
    then show ?case by (auto split: option.splits)
  qed simp_all
  assume len: "length (binary h) = 32"
  then obtain b bs where hb: "binary h = b # bs" by (cases "binary h") auto
  have "hex_digit (unat b mod 16) \<noteq> CHR ''x''"
    using hex_value_digit[of "unat b mod 16"] hex_value_x by force
  then have "take 2 (bytes_to_hex (binary h)) \<noteq> ''0x''"
    by (simp add: hb bytes_to_hex_def hex_byte_def numeral_2_eq_2)
  then have "Sha256Hash_from_string (Sha256Hash_to_string prefix h) = Sha256Hash_init (binary h)"
    by (simp add: Sha256Hash_from_string_def Sha256Hash_to_string_def hex_round_trip)
  then show "\<exists>h'. Sha256Hash_from_string (Sha256Hash_to_string prefix h) = Inr h' \<and> AbstractObjectHash_eq h' h"
    using Sha256Hash_init_ok[OF len] by (simp add: AbstractObjectHash_eq_def)
qed

theorem hex_conversion_round_trip_witness:
  "hex_to_bytes (bytes_to_hex [171, 5]) = Inr [171, 5] \<and> hex_to_bytes ''abc'' = Inl ValueError"
  using hex_conversion_round_trip[of "[171, 5]" "''abc''" "\<lparr>binary = replicate 32 0, hash_value = 0\<rparr>" True] by simp

subsection \<open>Flags\<close>

definition flag_in :: "nat \<Rightarrow> nat \<Rightarrow> bool" where
  "flag_in other self \<longleftrightarrow> other AND self = other"

definition TransactionFlag_values :: "(string \<times> nat) list" where
  "TransactionFlag_values =
     [(''NO_FLAGS'', 0), (''STATUS_MONITORING'', 1), (''PAID_TX'', 2), (''STATUS_TRACK'', 3),
      (''NONCE_MONITORING'', 4), (''RE_PROPAGATE'', 8), (''NONCE_TRACK'', 7), (''ENTERPRISE_SENDER'', 16),
      (''LOCAL_REGION'', 32), (''PRIVATE_TX'', 64), (''ELITE_SENDER'', 128), (''DELIVER_TO_NODE'', 256),
      (''VALIDATORS_ONLY'', 512), (''TBD_3'', 1024), (''TBD_4'', 2048), (''TBD_5'', 4096)]"

abbreviation (input) NO_FLAGS :: nat where "NO_FLAGS \<equiv> 0"
abbreviation (input) PAID_TX :: nat where "PAID_TX \<equiv> 2"

text \<open>\<open>TransactionFlag(value)\<close>: a value with a bit that no member has is refused.\<close>

definition TransactionFlag_of :: "nat \<Rightarrow> nat result" where
  "TransactionFlag_of v = (if v < 8192 then Inr v else Inl ValueError)"

definition TransactionFlag_get_quota_type :: "nat \<Rightarrow> string" where
  "TransactionFlag_get_quota_type self =
     (if flag_in PAID_TX self then ''PAID_DAILY_QUOTA'' else ''FREE_DAILY_QUOTA'')"

lemma all_flags_8191: "foldr (OR) (map snd TransactionFlag_values) 0 = 8191"
  by (simp add: TransactionFlag_values_def)

subsection \<open>Node types and connection types\<close>

definition NodeType_values :: "(string \<times> nat) list" where
  "NodeType_values =
     [(''INTERNAL_GATEWAY'', 1), (''EXTERNAL_GATEWAY'', 2), (''GATEWAY'', 3), (''GATEWAY_TYPE'', 3),
      (''RELAY_TRANSACTION'', 4), (''RELAY_BLOCK'', 8), (''RELAY'', 12), (''RELAY_TYPE'', 12),
      (''RELAY_PROXY'', 16), (''RELAY_GROUP'', 28), (''API'', 32), (''API_SOCKET'', 64),
      (''BLOXROUTE_CLOUD_API'', 128), (''JOBS'', 256)]"

definition ConnectionType_values :: "(string \<times> nat) list" where
  "ConnectionType_values =
     [(''NONE'', 0), (''SDN'', 1), (''BLOCKCHAIN_NODE'', 2), (''REMOTE_BLOCKCHAIN_NODE'', 4),
      (''EXTERNAL_GATEWAY'', 8), (''RELAY_TRANSACTION'', 16), (''RELAY_BLOCK'', 32), (''RELAY_ALL'', 48),
      (''INTERNAL_GATEWAY'', 64), (''GATEWAY'', 72), (''RELAY_PROXY'', 128)]"

abbreviation NT :: "string \<Rightarrow> nat" where "NT n \<equiv> the (map_of NodeType_values n)"
abbreviation CT :: "string \<Rightarrow> nat" where "CT n \<equiv> the (map_of ConnectionType_values n)"

definition NODE_TO_CONNECTION_TYPE :: "(nat \<times> (nat \<times> nat) list) list" where
  "NODE_TO_CONNECTION_TYPE =
     [(NT ''GATEWAY'',
        [(NT ''GATEWAY'', CT ''GATEWAY''), (NT ''INTERNAL_GATEWAY'', CT ''GATEWAY''),
         (NT ''EXTERNAL_GATEWAY'', CT ''GATEWAY''), (NT ''RELAY_TRANSACTION'', CT ''RELAY_ALL''),
         (NT ''RELAY_BLOCK'', CT ''RELAY_ALL''), (NT ''RELAY'', CT ''RELAY_ALL'')]),
      (NT ''INTERNAL_GATEWAY'',
        [(NT ''GATEWAY'', CT ''GATEWAY''), (NT ''INTERNAL_GATEWAY'', CT ''INTERNAL_GATEWAY''),
         (NT ''EXTERNAL_GATEWAY'', CT ''EXTERNAL_GATEWAY''), (NT ''RELAY_TRANSACTION'', CT ''RELAY_ALL''),
         (NT ''RELAY_BLOCK'', CT ''RELAY_ALL''), (NT ''RELAY'', CT ''RELAY_ALL''),
         (NT ''RELAY_PROXY'', CT ''RELAY_ALL'')]),
      (NT ''EXTERNAL_GATEWAY'',
        [(NT ''GATEWAY'', CT ''GATEWAY''), (NT ''INTERNAL_GATEWAY'', CT ''INTERNAL_GATEWAY''),
         (NT ''EXTERNAL_GATEWAY'', CT ''EXTERNAL_GATEWAY''), (NT ''RELAY_TRANSACTION'', CT ''RELAY_ALL''),
         (NT ''RELAY_BLOCK'', CT ''RELAY_ALL''), (NT ''RELAY'', CT ''RELAY_ALL''),
         (NT ''RELAY_PROXY'', CT ''RELAY_ALL'')]),
      (NT ''RELAY_BLOCK'',
        [(NT ''GATEWAY'', CT ''GATEWAY''), (NT ''INTERNAL_GATEWAY'', CT ''INTERNAL_GATEWAY''),
         (NT ''EXTERNAL_GATEWAY'', CT ''EXTERNAL_GATEWAY''), (NT ''RELAY_BLOCK'', CT ''RELAY_BLOCK''),
         (NT ''RELAY_PROXY'', CT ''RELAY_PROXY''), (NT ''RELAY'', CT ''RELAY_ALL''),
         (NT ''API_SOCKET'', CT ''SDN'')]),
      (NT ''RELAY_TRANSACTION'',
        [(NT ''GATEWAY'', CT ''GATEWAY''), (NT ''INTERNAL_GATEWAY'', CT ''INTERNAL_GATEWAY''),
         (NT ''EXTERNAL_GATEWAY'', CT ''EXTERNAL_GATEWAY''), (NT ''RELAY_TRANSACTION'', CT ''RELAY_TRANSACTION''),
         (NT ''RELAY_PROXY'', CT ''RELAY_PROXY''), (NT ''RELAY'', CT ''RELAY_ALL''),
         (NT ''API_SOCKET'', CT ''SDN'')]),
      (NT ''RELAY'',
        [(NT ''GATEWAY'', CT ''GATEWAY''), (NT ''INTERNAL_GATEWAY'', CT ''INTERNAL_GATEWAY''),
         (NT ''EXTERNAL_GATEWAY'', CT ''EXTERNAL_GATEWAY''), (NT ''RELAY'', CT ''RELAY_ALL''),
         (NT ''RELAY_PROXY'', CT ''RELAY_PROXY''), (NT ''API_SOCKET'', CT ''SDN'')])]"

definition peer_node_to_connection_type :: "nat \<Rightarrow> nat option \<Rightarrow> nat result" where
  "peer_node_to_connection_type node_type peer_node_type =
     (case peer_node_type of
        None \<Rightarrow> Inl ValueError
      | Some p \<Rightarrow>
          (case map_of NODE_TO_CONNECTION_TYPE node_type of
             None \<Rightarrow> Inl KeyError
           | Some row \<Rightarrow> (case map_of row p of None \<Rightarrow> Inl KeyError | Some c \<Rightarrow> Inr c)))"

definition ConnectionType_format_short :: "nat \<Rightarrow> string option" where
  "ConnectionType_format_short self =
     (if flag_in self (CT ''RELAY_ALL'') then Some ''R''
      else if flag_in self (CT ''BLOCKCHAIN_NODE'') then Some ''B''
      else if flag_in self (CT ''REMOTE_BLOCKCHAIN_NODE'') then Some ''RemoteB''
      else if flag_in self (CT ''GATEWAY'') then Some ''G''
      else map_of (map (\<lambda>(n, v). (v, n)) ConnectionType_values) self)"

subsection \<open>The flag class of \<open>flag_enum.py\<close>\<close>

text \<open>
  Constructing a flag may advance the class counter \<open>last_used_bitwise_shift\<close>, which is threaded
  through; an argument of 0 counts as absent, as in the code.
\<close>

definition Flag_init :: "int option \<Rightarrow> int option \<Rightarrow> nat \<Rightarrow> int \<times> nat" where
  "Flag_init bitwise_shift_value v last_used =
     (case bitwise_shift_value of
        Some b \<Rightarrow> if b \<noteq> 0 then (2 ^ nat b, last_used)
                 else (case v of Some x \<Rightarrow> if x \<noteq> 0 then (x, last_used) else (2 ^ Suc last_used, Suc last_used)
                       | None \<Rightarrow> (2 ^ Suc last_used, Suc last_used))
      | None \<Rightarrow> (case v of Some x \<Rightarrow> if x \<noteq> 0 then (x, last_used) else (2 ^ Suc last_used, Suc last_used)
                 | None \<Rightarrow> (2 ^ Suc last_used, Suc last_used)))"

definition Flag_contains :: "int \<Rightarrow> int \<Rightarrow> bool" where
  "Flag_contains other self \<longleftrightarrow> other AND self = other"

definition Flag_bool :: "int \<Rightarrow> bool" where
  "Flag_bool self \<longleftrightarrow> self \<noteq> 0"

definition Flag_or :: "int \<Rightarrow> int \<Rightarrow> nat \<Rightarrow> int \<times> nat" where
  "Flag_or self other = Flag_init None (Some (self OR other))"

definition Flag_and :: "int \<Rightarrow> int \<Rightarrow> nat \<Rightarrow> int \<times> nat" where
  "Flag_and self other = Flag_init None (Some (self AND other))"

definition Flag_xor :: "int \<Rightarrow> int \<Rightarrow> nat \<Rightarrow> int \<times> nat" where
  "Flag_xor self other = Flag_init None (Some (self XOR other))"

definition Flag_invert :: "int \<Rightarrow> nat \<Rightarrow> int \<times> nat" where
  "Flag_invert self = Flag_init None (Some (NOT self))"

definition Flag_decompose :: "(int \<times> string) list \<Rightarrow> int \<Rightarrow> int list" where
  "Flag_decompose names_map self = filter (\<lambda>flag. Flag_contains flag self) (map fst names_map)"

text \<open>
  The intersection of two disjoint flags is not empty: the value 0 is taken for a missing
  argument, so \<open>a & b\<close> (and \<open>a ^ a\<close>) yields a flag with a bit that was never used before and that
  is true in a condition.
\<close>

theorem flag_and_disjoint_is_fresh:
  assumes "a AND b = 0"
  shows "Flag_and a b last_used = (2 ^ Suc last_used, Suc last_used)
    \<and> Flag_bool (fst (Flag_and a b last_used))
    \<and> Flag_xor a a last_used = (2 ^ Suc last_used, Suc last_used)"
  using assms by (simp add: Flag_and_def Flag_xor_def Flag_init_def Flag_bool_def)

theorem flag_and_disjoint_is_fresh_witness: "Flag_and 2 4 2 = (8, 3)"
  using flag_and_disjoint_is_fresh[of 2 4 2] by simp

end
