(* ===== verification/Serializers.thy ===== *)
theory Serializers
  imports Basic_Values
begin

text \<open>
  The list serializers of \<open>bxcommon/messages/bloxroute\<close>: short ids (\<open>short_ids_serializer.py\<close>,
  \<open>compact_block_short_ids_serializer.py\<close>), short ids of blocks (\<open>blocks_short_ids_serializer.py\<close>),
  transactions with contents, short ids and flags (\<open>txs_serializer.py\<close> and its versions 6 and 15)
  and transaction information (\<open>transactions_info_serializer.py\<close>).

  Each item format is a pair of a writer and a reader at an offset, built from integer fields
  (\<open>put_u\<close>, \<open>get_u\<close>) and raw fields (\<open>put_raw\<close>, \<open>get_raw\<close>); each is an interpretation of
  \<open>buffer_codec\<close>, whose list lemmas give the round trips of whole messages.
\<close>

subsection \<open>Fields\<close>

definition put_u :: "nat \<Rightarrow> bytes \<Rightarrow> nat \<Rightarrow> nat \<Rightarrow> (bytes \<times> nat) result" where
  "put_u w buf off v = rbind (pack_into w buf off v) (\<lambda>buf'. Inr (buf', off + w))"

definition get_u :: "nat \<Rightarrow> bytes \<Rightarrow> nat \<Rightarrow> (nat \<times> nat) result" where
  "get_u w buf off = rbind (unpack_from w buf off) (\<lambda>v. Inr (v, off + w))"

text \<open>\<open>buffer[off:off + n] = xs\<close> and \<open>buffer[off:off + n]\<close>.\<close>

definition put_raw :: "nat \<Rightarrow> bytes \<Rightarrow> nat \<Rightarrow> bytes \<Rightarrow> (bytes \<times> nat) result" where
  "put_raw n buf off xs = Inr (slice_assign off (off + n) xs buf, off + n)"

definition get_raw :: "nat \<Rightarrow> bytes \<Rightarrow> nat \<Rightarrow> (bytes \<times> nat) result" where
  "get_raw n buf off = Inr (bslice off (off + n) buf, off + n)"

text \<open>\<open>Sha256Hash(buffer[off:off + SHA256_HASH_LEN])\<close>; only the bytes of the object are kept.\<close>

definition get_hash :: "bytes \<Rightarrow> nat \<Rightarrow> (bytes \<times> nat) result" where
  "get_hash buf off =
     rbind (Sha256Hash_init (bslice off (off + SHA256_HASH_LEN) buf)) (\<lambda>h. Inr (binary h, off + SHA256_HASH_LEN))"

lemma put_u_ok [byte_simps]:
  "v < 256 ^ w \<Longrightarrow> off + w \<le> length buf \<Longrightarrow> put_u w buf off v = Inr (bput off (le_bytes w v) buf, off + w)"
  by (simp add: put_u_def pack_into_def)

lemma get_u_ok [byte_simps]:
  "v < 256 ^ w \<Longrightarrow> off = length pre \<Longrightarrow> get_u w (pre @ le_bytes w v @ post) off = Inr (v, off + w)"
  by (simp add: get_u_def unpack_from_middle of_le_le_bytes)

lemma put_raw_ok [byte_simps]:
  "length xs = n \<Longrightarrow> put_raw n buf off xs = Inr (bput off xs buf, off + n)"
  by (simp add: put_raw_def slice_assign_def bput_def)

lemma get_raw_ok [byte_simps]:
  "length xs = n \<Longrightarrow> off = length pre \<Longrightarrow> get_raw n (pre @ xs @ post) off = Inr (xs, off + n)"
  by (simp add: get_raw_def bslice_def)

lemma get_hash_ok [byte_simps]:
  "length h = 32 \<Longrightarrow> off = length pre \<Longrightarrow> get_hash (pre @ h @ post) off = Inr (h, off + 32)"
  by (simp add: get_hash_def bslice_def SHA256_HASH_LEN_def Sha256Hash_init_ok)

lemma bput_next [byte_simps]:
  "off' = off + length xs \<Longrightarrow> off + length xs + length ys \<le> length buf \<Longrightarrow>
   bput off' ys (bput off xs buf) = bput off (xs @ ys) buf"
  by (simp add: bput_def ac_simps)

interpretation uint: buffer_codec "le_bytes w" "put_u w" "get_u w" "\<lambda>v. v < 256 ^ w" for w
  by unfold_locales (simp_all add: byte_simps)

lemma uint_enc_list_length [simp]: "length (uint.enc_list w xs) = w * length xs"
  by (induction xs) (simp_all add: uint.enc_list_simps)

lemma get_uints_ok [byte_simps]:
  assumes "list_all (\<lambda>v. v < 256 ^ w) xs" and "off = length pre" and "n = length xs"
  shows "get_items (get_u w) (pre @ uint.enc_list w xs @ post) off n = Inr (xs, off + w * length xs)"
  using uint.get_items_enc[OF assms(1), of pre post] assms(2,3) by simp

lemma put_uints_ok [byte_simps]:
  assumes "list_all (\<lambda>v. v < 256 ^ w) xs" and "off + w * length xs \<le> length buf"
  shows "put_items (put_u w) buf off xs = Inr (bput off (uint.enc_list w xs) buf, off + w * length xs)"
  using uint.put_items_enc[OF assms(1), of off buf] assms(2) by simp

text \<open>
  Writers and readers in sequence: \<open>writes p e\<close> says that \<open>p\<close> puts exactly the bytes \<open>e\<close> at its offset and
  advances behind them, \<open>reads g e x\<close> that \<open>g\<close> finds \<open>x\<close> where the bytes \<open>e\<close> stand.
\<close>

definition writes :: "(bytes \<Rightarrow> nat \<Rightarrow> (bytes \<times> nat) result) \<Rightarrow> bytes \<Rightarrow> bool" where
  "writes p e \<longleftrightarrow> (\<forall>buf off. off + length e \<le> length buf \<longrightarrow> p buf off = Inr (bput off e buf, off + length e))"

definition reads :: "(bytes \<Rightarrow> nat \<Rightarrow> ('a \<times> nat) result) \<Rightarrow> bytes \<Rightarrow> 'a \<Rightarrow> bool" where
  "reads g e x \<longleftrightarrow> (\<forall>pre post. g (pre @ e @ post) (length pre) = Inr (x, length pre + length e))"

lemma writes_u: "v < 256 ^ w \<Longrightarrow> writes (\<lambda>b o'. put_u w b o' v) (le_bytes w v)"
  by (simp add: writes_def byte_simps)

lemma writes_raw: "length xs = n \<Longrightarrow> writes (\<lambda>b o'. put_raw n b o' xs) xs"
  by (simp add: writes_def byte_simps)

lemma writes_uints:
  "list_all (\<lambda>v. v < 256 ^ w) xs \<Longrightarrow> writes (\<lambda>b o'. put_items (put_u w) b o' xs) (uint.enc_list w xs)"
  by (simp add: writes_def byte_simps)

lemma writes_nothing: "writes (\<lambda>b o'. Inr (b, o')) []"
  by (simp add: writes_def bput_def)

lemma writes_seq:
  assumes "writes p e1" and "writes q e2"
  shows "writes (\<lambda>b o'. rbind (p b o') (\<lambda>(b, o'). q b o')) (e1 @ e2)"
  using assms by (simp add: writes_def bput_next)

lemma reads_u: "v < 256 ^ w \<Longrightarrow> reads (get_u w) (le_bytes w v) v"
  by (simp add: reads_def get_u_ok)

lemma reads_raw: "length xs = n \<Longrightarrow> reads (get_raw n) xs xs"
  by (simp add: reads_def get_raw_ok)

lemma reads_hash: "length h = 32 \<Longrightarrow> reads get_hash h h"
  by (simp add: reads_def get_hash_ok)

lemma reads_uints:
  "list_all (\<lambda>v. v < 256 ^ w) xs \<Longrightarrow> n = length xs \<Longrightarrow> reads (\<lambda>b o'. get_items (get_u w) b o' n) (uint.enc_list w xs) xs"
  by (simp add: reads_def get_uints_ok)

lemma reads_return: "x = y \<Longrightarrow> reads (\<lambda>b o'. Inr (x, o')) [] y"
  by (simp add: reads_def)

lemma reads_skip:
  assumes "reads g e x" and "length s = n"
  shows "reads (\<lambda>b o'. g b (o' + n)) (s @ e) x"
  unfolding reads_def
proof (intro allI)
  fix pre post
  have "g ((pre @ s) @ e @ post) (length (pre @ s)) = Inr (x, length (pre @ s) + length e)"
    using assms(1) unfolding reads_def by blast
  then show "g (pre @ (s @ e) @ post) (length pre + n) = Inr (x, length pre + length (s @ e))"
    using assms(2) by (simp add: add.assoc)
qed

lemma reads_seq:
  assumes "reads g e1 x" and "reads (h x) e2 y"
  shows "reads (\<lambda>b o'. rbind (g b o') (\<lambda>(x, o'). h x b o')) (e1 @ e2) y"
  unfolding reads_def
proof (intro allI)
  fix pre post
  have "g (pre @ e1 @ e2 @ post) (length pre) = Inr (x, length pre + length e1)"
    using assms(1) unfolding reads_def by blast
  moreover have "h x ((pre @ e1) @ e2 @ post) (length (pre @ e1)) = Inr (y, length (pre @ e1) + length e2)"
    using assms(2) unfolding reads_def by blast
  ultimately show "rbind (g (pre @ (e1 @ e2) @ post) (length pre)) (\<lambda>(x, o'). h x (pre @ (e1 @ e2) @ post) o')
      = Inr (y, length pre + length (e1 @ e2))"
    by (simp add: add.assoc)
qed

lemma buffer_codecI:
  assumes "\<And>x. valid x \<Longrightarrow> writes (\<lambda>b o'. put b o' x) (enc x)" and "\<And>x. valid x \<Longrightarrow> reads get (enc x) x"
  shows "buffer_codec enc put get valid"
  using assms by unfold_locales (simp_all add: writes_def reads_def)

subsection \<open>Short ids\<close>

definition short_ids_get_serialized_length :: "nat \<Rightarrow> nat" where
  "short_ids_get_serialized_length n = 4 + n * 4"

definition serialize_short_ids_to_buffer :: "nat list \<Rightarrow> bytes \<Rightarrow> nat \<Rightarrow> (bytes \<times> nat) result" where
  "serialize_short_ids_to_buffer short_ids buffer offset =
     rbind (put_u 4 buffer offset (length short_ids)) (\<lambda>(buffer, offset).
       put_items (put_u 4) buffer offset short_ids)"

definition serialize_short_ids :: "nat list \<Rightarrow> bytes result" where
  "serialize_short_ids short_ids =
     rbind (serialize_short_ids_to_buffer short_ids
              (replicate (short_ids_get_serialized_length (length short_ids)) 0) 0)
       (\<lambda>(buffer, _). Inr buffer)"

definition deserialize_short_ids_from_buffer :: "bytes \<Rightarrow> nat \<Rightarrow> (nat list \<times> nat) result" where
  "deserialize_short_ids_from_buffer buffer offset =
     rbind (get_u 4 buffer offset) (\<lambda>(short_ids_count, offset).
       get_items (get_u 4) buffer offset short_ids_count)"

definition deserialize_short_ids :: "bytes \<Rightarrow> nat list result" where
  "deserialize_short_ids buffer =
     rbind (deserialize_short_ids_from_buffer buffer 0) (\<lambda>(short_ids, _). Inr short_ids)"

definition valid_short_ids :: "nat list \<Rightarrow> bool" where
  "valid_short_ids sids \<longleftrightarrow> length sids < 256 ^ 4 \<and> list_all (\<lambda>v. v < 256 ^ 4) sids"

definition short_ids_enc :: "nat list \<Rightarrow> bytes" where
  "short_ids_enc sids = le_bytes 4 (length sids) @ uint.enc_list 4 sids"

interpretation short_ids: buffer_codec short_ids_enc
    "\<lambda>buf off sids. serialize_short_ids_to_buffer sids buf off" deserialize_short_ids_from_buffer valid_short_ids
proof unfold_locales
  fix sids off and buf :: bytes
  assume "valid_short_ids sids" "off + length (short_ids_enc sids) \<le> length buf"
  then show "serialize_short_ids_to_buffer sids buf off
      = Inr (bput off (short_ids_enc sids) buf, off + length (short_ids_enc sids))"
    by (simp add: serialize_short_ids_to_buffer_def valid_short_ids_def short_ids_enc_def byte_simps)
next
  fix sids pre post
  assume v: "valid_short_ids sids"
  have "get_u 4 (pre @ le_bytes 4 (length sids) @ uint.enc_list 4 sids @ post) (length pre)
      = Inr (length sids, length pre + 4)"
    using v by (intro get_u_ok) (simp_all add: valid_short_ids_def)
  moreover have "get_items (get_u 4) ((pre @ le_bytes 4 (length sids)) @ uint.enc_list 4 sids @ post)
      (length pre + 4) (length sids) = Inr (sids, length pre + 4 + 4 * length sids)"
    using v by (intro get_uints_ok) (simp_all add: valid_short_ids_def)
  ultimately show "deserialize_short_ids_from_buffer (pre @ short_ids_enc sids @ post) (length pre)
      = Inr (sids, length pre + length (short_ids_enc sids))"
    by (simp add: deserialize_short_ids_from_buffer_def short_ids_enc_def)
qed

text \<open>The serializer of compact blocks: the same format, and the reader returns the bytes consumed.\<close>

definition compact_get_serialized_short_ids_bytes_len :: "nat list \<Rightarrow> nat" where
  "compact_get_serialized_short_ids_bytes_len short_ids = 4 + length short_ids * 4"

definition compact_serialize_short_ids_into_bytes :: "nat list \<Rightarrow> bytes result" where
  "compact_serialize_short_ids_into_bytes short_ids =
     rbind (put_u 4 (replicate (compact_get_serialized_short_ids_bytes_len short_ids) 0) 0 (length short_ids))
       (\<lambda>(buffer, offset). rbind (put_items (put_u 4) buffer offset short_ids) (\<lambda>(buffer, _). Inr buffer))"

definition compact_deserialize_short_ids_from_buffer :: "bytes \<Rightarrow> nat \<Rightarrow> (nat list \<times> nat) result" where
  "compact_deserialize_short_ids_from_buffer buffer offset =
     rbind (get_u 4 buffer offset) (\<lambda>(short_ids_len, off1).
     rbind (get_items (get_u 4) buffer off1 short_ids_len) (\<lambda>(short_ids, off2).
       Inr (short_ids, off2 - offset)))"

definition get_bx_block_offsets :: "bytes \<Rightarrow> (nat \<times> nat) result" where
  "get_bx_block_offsets bx_block = rbind (unpack_from 8 bx_block 0) (\<lambda>short_id_offset. Inr (short_id_offset, 8))"

lemma bput_fill: "length xs = n \<Longrightarrow> bput 0 xs (replicate n 0) = xs"
  by (simp add: bput_def)

lemma serialize_short_ids_enc:
  assumes "valid_short_ids sids"
  shows "serialize_short_ids sids = Inr (short_ids_enc sids)"
proof -
  have len: "length (short_ids_enc sids) = short_ids_get_serialized_length (length sids)"
    by (simp add: short_ids_enc_def short_ids_get_serialized_length_def)
  then show ?thesis
    using short_ids.put_enc[OF assms, of 0 "replicate (length (short_ids_enc sids)) 0"]
    by (simp add: serialize_short_ids_def bput_fill)
qed

text \<open>
  Short ids survive serialization: any list of 32-bit ids is read back exactly from its
  serialization, wherever that stands in a larger buffer, by both readers, and the serialization has
  the announced length.
\<close>

theorem short_ids_round_trip:
  assumes "valid_short_ids sids"
  shows "\<exists>bs. serialize_short_ids sids = Inr bs \<and> length bs = short_ids_get_serialized_length (length sids)
    \<and> deserialize_short_ids (bs @ post) = Inr sids
    \<and> compact_serialize_short_ids_into_bytes sids = Inr bs
    \<and> compact_deserialize_short_ids_from_buffer (pre @ bs @ post) (length pre) = Inr (sids, length bs)"
proof -
  let ?bs = "short_ids_enc sids"
  have len: "length ?bs = 4 + 4 * length sids" by (simp add: short_ids_enc_def)
  have "deserialize_short_ids_from_buffer ([] @ ?bs @ post) (length ([] :: bytes)) = Inr (sids, length ([] :: bytes) + length ?bs)"
    by (rule short_ids.get_enc[OF assms])
  then have "deserialize_short_ids (?bs @ post) = Inr sids" by (simp add: deserialize_short_ids_def)
  moreover have "deserialize_short_ids_from_buffer (pre @ ?bs @ post) (length pre) = Inr (sids, length pre + length ?bs)"
    by (rule short_ids.get_enc[OF assms])
  then have "compact_deserialize_short_ids_from_buffer (pre @ ?bs @ post) (length pre) = Inr (sids, length ?bs)"
    by (auto simp: deserialize_short_ids_from_buffer_def compact_deserialize_short_ids_from_buffer_def
        rbind_eq_Inr split: prod.splits)
  moreover have "compact_serialize_short_ids_into_bytes sids = Inr ?bs"
    using assms len by (simp add: compact_serialize_short_ids_into_bytes_def valid_short_ids_def byte_simps
        compact_get_serialized_short_ids_bytes_len_def short_ids_enc_def bput_fill)
  ultimately show ?thesis
    using serialize_short_ids_enc[OF assms] len by (simp add: short_ids_get_serialized_length_def)
qed

theorem short_ids_round_trip_witness:
  "rbind (serialize_short_ids [1, 70000]) deserialize_short_ids = Inr [1, 70000]"
proof -
  have "valid_short_ids [1, 70000]" by (simp add: valid_short_ids_def)
  from short_ids_round_trip[OF this, of "[]" "[]"] show ?thesis by auto
qed


subsection \<open>Short ids of blocks\<close>

type_synonym BlockShortIds = "bytes \<times> nat list"

definition get_serialized_blocks_short_ids_bytes_len :: "BlockShortIds list \<Rightarrow> nat" where
  "get_serialized_blocks_short_ids_bytes_len blocks =
     length blocks * SHA256_HASH_LEN + length blocks * 4 + sum_list (map (\<lambda>b. length (snd b)) blocks) * 4"

definition put_block_short_ids :: "bytes \<Rightarrow> nat \<Rightarrow> BlockShortIds \<Rightarrow> (bytes \<times> nat) result" where
  "put_block_short_ids buffer off b =
     rbind (put_raw SHA256_HASH_LEN buffer off (fst b)) (\<lambda>(buffer, off).
     rbind (put_u 4 buffer off (length (snd b))) (\<lambda>(buffer, off).
       put_items (put_u 4) buffer off (snd b)))"

definition serialize_blocks_short_ids_into_bytes :: "BlockShortIds list \<Rightarrow> bytes result" where
  "serialize_blocks_short_ids_into_bytes blocks =
     rbind (put_items put_block_short_ids
              (replicate (get_serialized_blocks_short_ids_bytes_len blocks) 0) 0 blocks)
       (\<lambda>(buffer, _). Inr buffer)"

definition get_block_short_ids :: "bytes \<Rightarrow> nat \<Rightarrow> (BlockShortIds \<times> nat) result" where
  "get_block_short_ids buffer offset =
     rbind (get_hash buffer offset) (\<lambda>(block_hash, offset).
     rbind (get_u 4 buffer offset) (\<lambda>(short_ids_count, offset).
     rbind (get_items (get_u 4) buffer offset short_ids_count) (\<lambda>(short_ids, offset).
       Inr ((block_hash, short_ids), offset))))"

definition deserialize_blocks_short_ids_from_buffer :: "bytes \<Rightarrow> nat \<Rightarrow> nat \<Rightarrow> BlockShortIds list result" where
  "deserialize_blocks_short_ids_from_buffer buffer offset block_count =
     rbind (get_items get_block_short_ids buffer offset block_count) (\<lambda>(blocks, _). Inr blocks)"

definition valid_block_short_ids :: "BlockShortIds \<Rightarrow> bool" where
  "valid_block_short_ids b \<longleftrightarrow> length (fst b) = 32 \<and> valid_short_ids (snd b)"

definition block_short_ids_enc :: "BlockShortIds \<Rightarrow> bytes" where
  "block_short_ids_enc b = fst b @ short_ids_enc (snd b)"

interpretation block_short_ids: buffer_codec block_short_ids_enc put_block_short_ids get_block_short_ids valid_block_short_ids
proof unfold_locales
  fix b off and buf :: bytes
  assume "valid_block_short_ids b" "off + length (block_short_ids_enc b) \<le> length buf"
  then show "put_block_short_ids buf off b
      = Inr (bput off (block_short_ids_enc b) buf, off + length (block_short_ids_enc b))"
    by (simp add: put_block_short_ids_def valid_block_short_ids_def valid_short_ids_def block_short_ids_enc_def
        short_ids_enc_def SHA256_HASH_LEN_def byte_simps)
next
  fix b pre post
  assume v: "valid_block_short_ids b"
  have "get_hash (pre @ fst b @ short_ids_enc (snd b) @ post) (length pre) = Inr (fst b, length pre + 32)"
    using v by (intro get_hash_ok) (simp_all add: valid_block_short_ids_def)
  moreover have "deserialize_short_ids_from_buffer ((pre @ fst b) @ short_ids_enc (snd b) @ post) (length (pre @ fst b))
      = Inr (snd b, length (pre @ fst b) + length (short_ids_enc (snd b)))"
    using v by (intro short_ids.get_enc) (simp add: valid_block_short_ids_def)
  ultimately show "get_block_short_ids (pre @ block_short_ids_enc b @ post) (length pre)
      = Inr (b, length pre + length (block_short_ids_enc b))"
    using v by (auto simp: get_block_short_ids_def block_short_ids_enc_def deserialize_short_ids_from_buffer_def
        rbind_eq_Inr valid_block_short_ids_def split: prod.splits)
qed

lemma blocks_enc_length:
  "list_all valid_block_short_ids blocks \<Longrightarrow>
   length (block_short_ids.enc_list blocks) = get_serialized_blocks_short_ids_bytes_len blocks"
  by (induction blocks) (simp_all add: get_serialized_blocks_short_ids_bytes_len_def block_short_ids_enc_def
      short_ids_enc_def valid_block_short_ids_def SHA256_HASH_LEN_def block_short_ids.enc_list_simps)

text \<open>
  A list of blocks with their short ids is read back exactly from its serialization, which has the
  announced length, at any place of a larger buffer.
\<close>

theorem blocks_short_ids_round_trip:
  assumes "list_all valid_block_short_ids blocks"
  shows "\<exists>bs. serialize_blocks_short_ids_into_bytes blocks = Inr bs
    \<and> length bs = get_serialized_blocks_short_ids_bytes_len blocks
    \<and> deserialize_blocks_short_ids_from_buffer (pre @ bs @ post) (length pre) (length blocks) = Inr blocks"
proof -
  let ?bs = "block_short_ids.enc_list blocks"
  have "put_items put_block_short_ids (replicate (length ?bs) 0) 0 blocks = Inr (?bs, length ?bs)"
    using block_short_ids.put_items_enc[OF assms, of 0 "replicate (length ?bs) 0"] by (simp add: bput_fill)
  then have "serialize_blocks_short_ids_into_bytes blocks = Inr ?bs"
    by (simp add: serialize_blocks_short_ids_into_bytes_def blocks_enc_length[OF assms])
  then show ?thesis
    using block_short_ids.get_items_enc[OF assms, of pre post] blocks_enc_length[OF assms]
    by (simp add: deserialize_blocks_short_ids_from_buffer_def)
qed

theorem blocks_short_ids_round_trip_witness:
  "\<exists>bs. serialize_blocks_short_ids_into_bytes [(replicate 32 7, [1, 2]), (replicate 32 9, [])] = Inr bs
    \<and> deserialize_blocks_short_ids_from_buffer bs 0 2 = Inr [(replicate 32 7, [1, 2]), (replicate 32 9, [])]"
proof -
  have "list_all valid_block_short_ids [(replicate 32 7, [1, 2]), (replicate 32 9, [])]"
    by (simp add: valid_block_short_ids_def valid_short_ids_def)
  from blocks_short_ids_round_trip[OF this, of "[]" "[]"] show ?thesis by (auto simp: numeral_2_eq_2)
qed

subsection \<open>Transactions with contents, short ids and flags\<close>

record TxContentShortIds =
  tcs_tx_hash :: bytes
  tcs_tx_content :: "bytes option"
  tcs_short_ids :: "nat list"
  tcs_short_id_flags :: "nat list"

text \<open>
  The three versions of the format differ in the field that follows the short ids: two bytes of
  transaction flag (current), one byte of quota type (version 15), nothing (version 6). They are
  instances of one writer and one reader with that field as argument: its width, and the
  constructor applied to what is read.
\<close>

definition tx_bytes_len :: "nat \<Rightarrow> TxContentShortIds \<Rightarrow> nat" where
  "tx_bytes_len flag_len t =
     SHA256_HASH_LEN + 4 + (case tcs_tx_content t of None \<Rightarrow> 0 | Some c \<Rightarrow> length c) + 4 + 2
       + (4 + flag_len) * length (tcs_short_ids t)"

definition tx_is_complete :: "TxContentShortIds \<Rightarrow> bool" where
  "tx_is_complete t \<longleftrightarrow> tcs_tx_content t \<noteq> None \<and> 0 \<notin> set (tcs_short_ids t)"

definition put_tx :: "nat \<Rightarrow> bytes \<Rightarrow> nat \<Rightarrow> TxContentShortIds \<Rightarrow> (bytes \<times> nat) result" where
  "put_tx flag_len buffer off t =
     (if \<not> tx_is_complete t then Inr (buffer, off)
      else let content = the (tcs_tx_content t) in
       rbind (put_raw SHA256_HASH_LEN buffer off (tcs_tx_hash t)) (\<lambda>(buffer, off).
       rbind (put_u 4 buffer off (length content)) (\<lambda>(buffer, off).
       rbind (put_raw (length content) buffer off content) (\<lambda>(buffer, off).
       rbind (put_u 4 buffer off 0) (\<lambda>(buffer, off).
       rbind (put_u 2 buffer off (length (tcs_short_ids t))) (\<lambda>(buffer, off).
       rbind (put_items (put_u 4) buffer off (tcs_short_ids t)) (\<lambda>(buffer, off).
         if flag_len = 0 then Inr (buffer, off)
         else rbind (rassert AssertionError (length (tcs_short_id_flags t) = length (tcs_short_ids t))) (\<lambda>_.
                put_items (put_u flag_len) buffer off (tcs_short_id_flags t)))))))))"

definition get_flag :: "nat \<Rightarrow> (nat \<Rightarrow> nat result) \<Rightarrow> bytes \<Rightarrow> nat \<Rightarrow> (nat \<times> nat) result" where
  "get_flag flag_len flag_of buffer offset =
     rbind (get_u flag_len buffer offset) (\<lambda>(v, offset). rbind (flag_of v) (\<lambda>f. Inr (f, offset)))"

definition get_tx :: "nat \<Rightarrow> (nat \<Rightarrow> nat result) \<Rightarrow> bytes \<Rightarrow> nat \<Rightarrow> (TxContentShortIds \<times> nat) result" where
  "get_tx flag_len flag_of buffer offset =
     rbind (get_hash buffer offset) (\<lambda>(tx_hash, offset).
     rbind (get_u 4 buffer offset) (\<lambda>(tx_content_size, offset).
     rbind (get_raw tx_content_size buffer offset) (\<lambda>(tx_content, offset).
     rbind (get_u 2 buffer (offset + 4)) (\<lambda>(short_ids_count, offset).
     rbind (get_items (get_u 4) buffer offset short_ids_count) (\<lambda>(short_ids, offset).
     rbind (if flag_len = 0 then Inr ([], offset)
            else get_items (get_flag flag_len flag_of) buffer offset short_ids_count) (\<lambda>(flags, offset).
       Inr (\<lparr>tcs_tx_hash = tx_hash, tcs_tx_content = Some tx_content, tcs_short_ids = short_ids,
             tcs_short_id_flags = flags\<rparr>, offset)))))))"

definition serialize_txs :: "nat \<Rightarrow> TxContentShortIds list \<Rightarrow> bytes result" where
  "serialize_txs flag_len txs =
     rbind (put_items (put_tx flag_len) (replicate (sum_list (map (tx_bytes_len flag_len) txs)) 0) 0 txs)
       (\<lambda>(buffer, _). Inr buffer)"

definition deserialize_txs ::
    "nat \<Rightarrow> (nat \<Rightarrow> nat result) \<Rightarrow> bytes \<Rightarrow> nat \<Rightarrow> nat \<Rightarrow> TxContentShortIds list result" where
  "deserialize_txs flag_len flag_of buffer offset tx_count =
     rbind (get_items (get_tx flag_len flag_of) buffer offset tx_count) (\<lambda>(txs, _). Inr txs)"

definition QuotaType_of :: "nat \<Rightarrow> nat result" where
  "QuotaType_of v = (if v < 4 then Inr v else Inl ValueError)"

definition get_serialized_tx_content_short_ids_bytes_len :: "TxContentShortIds \<Rightarrow> nat" where
  "get_serialized_tx_content_short_ids_bytes_len = tx_bytes_len 2"

definition get_serialized_txs_content_short_ids_bytes_len :: "TxContentShortIds list \<Rightarrow> nat" where
  "get_serialized_txs_content_short_ids_bytes_len txs =
     sum_list (map get_serialized_tx_content_short_ids_bytes_len txs)"

definition serialize_txs_content_short_ids_into_bytes :: "TxContentShortIds list \<Rightarrow> bytes result" where
  "serialize_txs_content_short_ids_into_bytes = serialize_txs 2"

definition deserialize_txs_content_short_ids_from_buffer :: "bytes \<Rightarrow> nat \<Rightarrow> nat \<Rightarrow> TxContentShortIds list result" where
  "deserialize_txs_content_short_ids_from_buffer = deserialize_txs 2 TransactionFlag_of"

definition serialize_txs_v15 :: "TxContentShortIds list \<Rightarrow> bytes result" where
  "serialize_txs_v15 = serialize_txs 1"

definition deserialize_txs_v15 :: "bytes \<Rightarrow> nat \<Rightarrow> nat \<Rightarrow> TxContentShortIds list result" where
  "deserialize_txs_v15 = deserialize_txs 1 QuotaType_of"

definition serialize_txs_v6 :: "TxContentShortIds list \<Rightarrow> bytes result" where
  "serialize_txs_v6 = serialize_txs 0"

definition deserialize_txs_v6 :: "bytes \<Rightarrow> nat \<Rightarrow> nat \<Rightarrow> TxContentShortIds list result" where
  "deserialize_txs_v6 = deserialize_txs 0 Inr"

definition valid_tx :: "nat \<Rightarrow> (nat \<Rightarrow> nat result) \<Rightarrow> TxContentShortIds \<Rightarrow> bool" where
  "valid_tx flag_len flag_of t \<longleftrightarrow>
     tx_is_complete t \<and> length (tcs_tx_hash t) = 32 \<and> length (the (tcs_tx_content t)) < 256 ^ 4
     \<and> length (tcs_short_ids t) < 256 ^ 2 \<and> list_all (\<lambda>v. v < 256 ^ 4) (tcs_short_ids t)
     \<and> (if flag_len = 0 then tcs_short_id_flags t = []
        else length (tcs_short_id_flags t) = length (tcs_short_ids t)
          \<and> list_all (\<lambda>v. v < 256 ^ flag_len \<and> flag_of v = Inr v) (tcs_short_id_flags t))"

definition tx_enc :: "nat \<Rightarrow> TxContentShortIds \<Rightarrow> bytes" where
  "tx_enc flag_len t =
     tcs_tx_hash t @ le_bytes 4 (length (the (tcs_tx_content t))) @ the (tcs_tx_content t) @ le_bytes 4 0
       @ le_bytes 2 (length (tcs_short_ids t)) @ uint.enc_list 4 (tcs_short_ids t)
       @ uint.enc_list flag_len (tcs_short_id_flags t)"

interpretation flag: buffer_codec "le_bytes w" "put_u w" "get_flag w flag_of" "\<lambda>v. v < 256 ^ w \<and> flag_of v = Inr v"
  for w flag_of
  by unfold_locales (simp_all add: get_flag_def byte_simps)

lemma tx_writes:
  assumes v: "valid_tx w fo t"
  shows "writes (\<lambda>b o'. put_tx w b o' t) (tx_enc w t)"
proof -
  let ?c = "the (tcs_tx_content t)"
  have last: "writes (\<lambda>b o'. if w = 0 then Inr (b, o')
         else rbind (rassert AssertionError (length (tcs_short_id_flags t) = length (tcs_short_ids t)))
           (\<lambda>_. put_items (put_u w) b o' (tcs_short_id_flags t))) (uint.enc_list w (tcs_short_id_flags t))"
  proof (cases "w = 0")
    case True
    then show ?thesis using v by (simp add: valid_tx_def uint.enc_list_simps writes_nothing)
  next
    case False
    then have "list_all (\<lambda>v. v < 256 ^ w) (tcs_short_id_flags t)"
      using v by (simp add: valid_tx_def list_all_iff)
    from writes_uints[OF this] False show ?thesis using v by (simp add: valid_tx_def)
  qed
  have "writes (\<lambda>b o'. rbind (put_raw SHA256_HASH_LEN b o' (tcs_tx_hash t)) (\<lambda>(b, o').
       rbind (put_u 4 b o' (length ?c)) (\<lambda>(b, o').
       rbind (put_raw (length ?c) b o' ?c) (\<lambda>(b, o').
       rbind (put_u 4 b o' 0) (\<lambda>(b, o').
       rbind (put_u 2 b o' (length (tcs_short_ids t))) (\<lambda>(b, o').
       rbind (put_items (put_u 4) b o' (tcs_short_ids t)) (\<lambda>(b, o').
         if w = 0 then Inr (b, o')
         else rbind (rassert AssertionError (length (tcs_short_id_flags t) = length (tcs_short_ids t))) (\<lambda>_.
                put_items (put_u w) b o' (tcs_short_id_flags t))))))))) (tx_enc w t)"
    unfolding tx_enc_def using v
    by (intro writes_seq last writes_raw writes_u writes_uints) (simp_all add: valid_tx_def SHA256_HASH_LEN_def)
  then show ?thesis using v by (simp add: put_tx_def Let_def valid_tx_def)
qed

lemma tx_reads:
  assumes v: "valid_tx w fo t"
  shows "reads (get_tx w fo) (tx_enc w t) t"
proof -
  let ?c = "the (tcs_tx_content t)"
  let ?n = "length (tcs_short_ids t)"
  have last: "reads (\<lambda>b o'. if w = 0 then Inr ([], o') else get_items (get_flag w fo) b o' ?n)
      (uint.enc_list w (tcs_short_id_flags t)) (tcs_short_id_flags t)"
  proof (cases "w = 0")
    case True
    then show ?thesis using v by (simp add: valid_tx_def uint.enc_list_simps reads_return)
  next
    case False
    then have "list_all (\<lambda>v. v < 256 ^ w \<and> fo v = Inr v) (tcs_short_id_flags t)"
      "length (tcs_short_id_flags t) = ?n"
      using v by (simp_all add: valid_tx_def)
    then show ?thesis using flag.get_items_enc[of w fo "tcs_short_id_flags t"] False by (simp add: reads_def)
  qed
  have t: "\<lparr>tcs_tx_hash = tcs_tx_hash t, tcs_tx_content = Some ?c, tcs_short_ids = tcs_short_ids t,
      tcs_short_id_flags = tcs_short_id_flags t\<rparr> = t"
    using v by (simp add: valid_tx_def tx_is_complete_def)
  have enc: "tx_enc w t = tcs_tx_hash t @ le_bytes 4 (length ?c) @ ?c @ (le_bytes 4 0
       @ le_bytes 2 ?n) @ uint.enc_list 4 (tcs_short_ids t) @ uint.enc_list w (tcs_short_id_flags t) @ []"
    by (simp add: tx_enc_def)
  show ?thesis
    unfolding get_tx_def[abs_def] enc using v
    by (intro reads_seq[OF reads_hash] reads_seq[OF reads_u] reads_seq[OF reads_raw]
        reads_seq[OF reads_skip[OF reads_u]] reads_seq[OF reads_uints] reads_seq[OF last] reads_return t)
      (simp_all add: valid_tx_def)
qed

interpretation txs: buffer_codec "tx_enc w" "put_tx w" "get_tx w flag_of" "valid_tx w flag_of" for w flag_of
  by (rule buffer_codecI) (simp_all add: tx_writes tx_reads)

lemma txs_enc_length:
  "list_all (valid_tx w fo) ts \<Longrightarrow> length (txs.enc_list w ts) = sum_list (map (tx_bytes_len w) ts)"
  by (induction ts) (auto simp: txs.enc_list_simps tx_enc_def tx_bytes_len_def valid_tx_def tx_is_complete_def
      SHA256_HASH_LEN_def algebra_simps split: option.splits if_splits)

lemma txs_serialize:
  assumes "list_all (valid_tx w fo) ts"
  shows "serialize_txs w ts = Inr (txs.enc_list w ts)"
    and "deserialize_txs w fo (pre @ txs.enc_list w ts @ post) (length pre) (length ts) = Inr ts"
proof -
  let ?bs = "txs.enc_list w ts"
  have "put_items (put_tx w) (replicate (length ?bs) 0) 0 ts = Inr (?bs, length ?bs)"
    using txs.put_items_enc[OF assms, of 0 "replicate (length ?bs) 0"] by (simp add: bput_fill)
  then show "serialize_txs w ts = Inr ?bs"
    by (simp add: serialize_txs_def txs_enc_length[OF assms])
  show "deserialize_txs w fo (pre @ ?bs @ post) (length pre) (length ts) = Inr ts"
    using txs.get_items_enc[OF assms, of pre post] by (simp add: deserialize_txs_def)
qed

text \<open>
  C31. Complete transactions (contents present, no null short id, one flag per short id, values within
  their fields) are read back exactly from their serialization, which has the announced length, in the
  current format and, with quota types or without flags, in the formats of versions 15 and 6.
\<close>

theorem txs_round_trip:
  assumes "list_all (valid_tx 2 TransactionFlag_of) ts" and "list_all (valid_tx 1 QuotaType_of) ts15"
    and "list_all (valid_tx 0 Inr) ts6"
  shows "(\<exists>bs. serialize_txs_content_short_ids_into_bytes ts = Inr bs
      \<and> length bs = get_serialized_txs_content_short_ids_bytes_len ts
      \<and> deserialize_txs_content_short_ids_from_buffer (pre @ bs @ post) (length pre) (length ts) = Inr ts)
    \<and> (\<exists>bs. serialize_txs_v15 ts15 = Inr bs
      \<and> deserialize_txs_v15 (pre @ bs @ post) (length pre) (length ts15) = Inr ts15)
    \<and> (\<exists>bs. serialize_txs_v6 ts6 = Inr bs
      \<and> deserialize_txs_v6 (pre @ bs @ post) (length pre) (length ts6) = Inr ts6)"
  using txs_serialize[OF assms(1)] txs_serialize[OF assms(2)] txs_serialize[OF assms(3)] txs_enc_length[OF assms(1)]
  by (simp add: serialize_txs_content_short_ids_into_bytes_def deserialize_txs_content_short_ids_from_buffer_def
      get_serialized_txs_content_short_ids_bytes_len_def get_serialized_tx_content_short_ids_bytes_len_def
      serialize_txs_v15_def deserialize_txs_v15_def serialize_txs_v6_def deserialize_txs_v6_def)

theorem txs_round_trip_witness:
  "\<exists>bs. serialize_txs_content_short_ids_into_bytes
        [\<lparr>tcs_tx_hash = replicate 32 7, tcs_tx_content = Some [1, 2, 3], tcs_short_ids = [5], tcs_short_id_flags = [2]\<rparr>] = Inr bs
      \<and> deserialize_txs_content_short_ids_from_buffer bs 0 1
        = Inr [\<lparr>tcs_tx_hash = replicate 32 7, tcs_tx_content = Some [1, 2, 3], tcs_short_ids = [5], tcs_short_id_flags = [2]\<rparr>]"
proof -
  let ?t = "\<lparr>tcs_tx_hash = replicate 32 7, tcs_tx_content = Some [1, 2, 3], tcs_short_ids = [5], tcs_short_id_flags = [2]\<rparr>"
  have "list_all (valid_tx 2 TransactionFlag_of) [?t]"
    by (simp add: valid_tx_def tx_is_complete_def TransactionFlag_of_def)
  from txs_round_trip[OF this, of "[]" "[]" "[]" "[]"] show ?thesis by auto
qed

text \<open>
  A transaction without contents or with the null short id is skipped by the writer, but its space
  is reserved and it still counts: the buffer ends in zero bytes, and a reader that expects as many
  transactions as were given reads a transaction with the all-zero hash out of them.
\<close>

theorem txs_skipped_entry_read_back:
  assumes "length h = 32"
  shows "serialize_txs_content_short_ids_into_bytes
      [\<lparr>tcs_tx_hash = h, tcs_tx_content = None, tcs_short_ids = [], tcs_short_id_flags = []\<rparr>] = Inr (replicate 42 0)
    \<and> deserialize_txs_content_short_ids_from_buffer (replicate 42 0) 0 1
      = Inr [\<lparr>tcs_tx_hash = replicate 32 0, tcs_tx_content = Some [], tcs_short_ids = [], tcs_short_id_flags = []\<rparr>]"
proof
  let ?z = "\<lparr>tcs_tx_hash = replicate 32 0, tcs_tx_content = Some [], tcs_short_ids = [], tcs_short_id_flags = []\<rparr>"
  show "serialize_txs_content_short_ids_into_bytes
      [\<lparr>tcs_tx_hash = h, tcs_tx_content = None, tcs_short_ids = [], tcs_short_id_flags = []\<rparr>] = Inr (replicate 42 0)"
    by (simp add: serialize_txs_content_short_ids_into_bytes_def serialize_txs_def put_tx_def tx_is_complete_def
        tx_bytes_len_def SHA256_HASH_LEN_def)
  have z: "list_all (valid_tx 2 TransactionFlag_of) [?z]"
    by (simp add: valid_tx_def tx_is_complete_def)
  have "txs.enc_list 2 [?z] = replicate 32 0 @ replicate 4 0 @ replicate 4 0 @ replicate 2 0"
    by (simp add: txs.enc_list_simps tx_enc_def uint.enc_list_simps)
  also have "\<dots> = replicate 42 0" by (simp only: replicate_add[symmetric]) simp
  finally show "deserialize_txs_content_short_ids_from_buffer (replicate 42 0) 0 1 = Inr [?z]"
    using txs_serialize(2)[OF z, of "[]" "[]"] by (simp add: deserialize_txs_content_short_ids_from_buffer_def)
qed

theorem txs_skipped_entry_read_back_witness:
  "serialize_txs_content_short_ids_into_bytes
      [\<lparr>tcs_tx_hash = replicate 32 1, tcs_tx_content = None, tcs_short_ids = [], tcs_short_id_flags = []\<rparr>] = Inr (replicate 42 0)"
  using txs_skipped_entry_read_back[of "replicate 32 1"] by simp


subsection \<open>Transaction information\<close>

record TransactionInfo =
  ti_hash :: "bytes option"
  ti_contents :: "bytes option"
  ti_short_id :: "nat option"

record TransactionSearchResult =
  tsr_found :: "TransactionInfo list"
  tsr_missing :: "TransactionInfo list"

definition opt_or :: "py_error \<Rightarrow> 'a option \<Rightarrow> 'a result" where
  "opt_or e x = (case x of None \<Rightarrow> Inl e | Some v \<Rightarrow> Inr v)"

definition transactions_info_get_serialized_length :: "TransactionInfo list \<Rightarrow> nat result" where
  "transactions_info_get_serialized_length txs =
     rfold (\<lambda>message_size tx. rbind (opt_or AssertionError (ti_contents tx)) (\<lambda>c. Inr (message_size + length c)))
       (4 + length txs * (4 + SHA256_HASH_LEN + 4)) txs"

definition put_tx_info :: "bytes \<Rightarrow> nat \<Rightarrow> TransactionInfo \<Rightarrow> (bytes \<times> nat) result" where
  "put_tx_info buffer offset tx =
     rbind (opt_or StructError (ti_short_id tx)) (\<lambda>sid.
     rbind (put_u 4 buffer offset sid) (\<lambda>(buffer, offset).
     rbind (opt_or AssertionError (ti_hash tx)) (\<lambda>tx_hash.
     rbind (put_raw SHA256_HASH_LEN buffer offset tx_hash) (\<lambda>(buffer, offset).
     rbind (opt_or AssertionError (ti_contents tx)) (\<lambda>contents.
     rbind (put_u 4 buffer offset (length contents)) (\<lambda>(buffer, offset).
       put_raw (length contents) buffer offset contents))))))"

definition serialize_transactions_info_to_buffer :: "TransactionInfo list \<Rightarrow> bytes \<Rightarrow> nat \<Rightarrow> (bytes \<times> nat) result" where
  "serialize_transactions_info_to_buffer txs buffer offset =
     rbind (put_u 4 buffer offset (length txs)) (\<lambda>(buffer, offset). put_items put_tx_info buffer offset txs)"

definition serialize_transactions_info :: "TransactionInfo list \<Rightarrow> bytes result" where
  "serialize_transactions_info txs =
     rbind (transactions_info_get_serialized_length txs) (\<lambda>n.
     rbind (serialize_transactions_info_to_buffer txs (replicate n 0) 0) (\<lambda>(buffer, _). Inr buffer))"

definition get_tx_info :: "bytes \<Rightarrow> nat \<Rightarrow> (TransactionInfo \<times> nat) result" where
  "get_tx_info buffer offset =
     rbind (get_u 4 buffer offset) (\<lambda>(tx_sid, offset).
     rbind (get_hash buffer offset) (\<lambda>(tx_hash, offset).
     rbind (get_u 4 buffer offset) (\<lambda>(tx_size, offset).
     rbind (get_raw tx_size buffer offset) (\<lambda>(tx, offset).
       Inr (\<lparr>ti_hash = Some tx_hash, ti_contents = Some tx, ti_short_id = Some tx_sid\<rparr>, offset)))))"

definition deserialize_transactions_info_from_buffer :: "bytes \<Rightarrow> nat \<Rightarrow> (TransactionInfo list \<times> nat) result" where
  "deserialize_transactions_info_from_buffer buffer offset =
     rbind (get_u 4 buffer offset) (\<lambda>(txs_count, offset). get_items get_tx_info buffer offset txs_count)"

definition deserialize_transactions_info :: "bytes \<Rightarrow> TransactionInfo list result" where
  "deserialize_transactions_info buffer =
     rbind (deserialize_transactions_info_from_buffer buffer 0) (\<lambda>(txs, _). Inr txs)"

definition valid_tx_info :: "TransactionInfo \<Rightarrow> bool" where
  "valid_tx_info t \<longleftrightarrow> (\<exists>h c s. ti_hash t = Some h \<and> ti_contents t = Some c \<and> ti_short_id t = Some s
     \<and> length h = 32 \<and> length c < 256 ^ 4 \<and> s < 256 ^ 4)"

definition tx_info_enc :: "TransactionInfo \<Rightarrow> bytes" where
  "tx_info_enc t = le_bytes 4 (the (ti_short_id t)) @ the (ti_hash t)
     @ le_bytes 4 (length (the (ti_contents t))) @ the (ti_contents t)"

lemma tx_info_writes:
  assumes "valid_tx_info t"
  shows "writes (\<lambda>b o'. put_tx_info b o' t) (tx_info_enc t)"
proof -
  obtain h c s where t: "ti_hash t = Some h" "ti_contents t = Some c" "ti_short_id t = Some s"
    "length h = 32" "length c < 256 ^ 4" "s < 256 ^ 4"
    using assms unfolding valid_tx_info_def by blast
  have "writes (\<lambda>b o'. rbind (put_u 4 b o' s) (\<lambda>(b, o').
      rbind (put_raw SHA256_HASH_LEN b o' h) (\<lambda>(b, o').
      rbind (put_u 4 b o' (length c)) (\<lambda>(b, o'). put_raw (length c) b o' c)))) (tx_info_enc t)"
    unfolding tx_info_enc_def t option.sel using t(4-6)
    by (intro writes_seq writes_u writes_raw) (simp_all add: SHA256_HASH_LEN_def)
  then show ?thesis by (simp add: put_tx_info_def t opt_or_def)
qed

lemma tx_info_reads:
  assumes "valid_tx_info t"
  shows "reads get_tx_info (tx_info_enc t) t"
proof -
  obtain h c s where t: "ti_hash t = Some h" "ti_contents t = Some c" "ti_short_id t = Some s"
    "length h = 32" "length c < 256 ^ 4" "s < 256 ^ 4"
    using assms unfolding valid_tx_info_def by blast
  have enc: "tx_info_enc t = le_bytes 4 s @ h @ le_bytes 4 (length c) @ c @ []" by (simp add: tx_info_enc_def t)
  have r: "\<lparr>ti_hash = Some h, ti_contents = Some c, ti_short_id = Some s\<rparr> = t" using t by simp
  show ?thesis
    unfolding get_tx_info_def[abs_def] enc using t(4-6)
    by (intro reads_seq[OF reads_u] reads_seq[OF reads_hash] reads_seq[OF reads_raw] reads_return r) simp_all
qed

interpretation tx_info: buffer_codec tx_info_enc put_tx_info get_tx_info valid_tx_info
  by (rule buffer_codecI) (simp_all add: tx_info_writes tx_info_reads)

lemma tx_info_length:
  assumes "list_all valid_tx_info txs"
  shows "transactions_info_get_serialized_length txs = Inr (4 + length (tx_info.enc_list txs))"
proof -
  have "rfold (\<lambda>m tx. rbind (opt_or AssertionError (ti_contents tx)) (\<lambda>c. Inr (m + length c))) n txs
      = Inr (n + sum_list (map (\<lambda>t. length (the (ti_contents t))) txs))" for n
    using assms by (induction txs arbitrary: n) (auto simp: valid_tx_info_def opt_or_def)
  moreover have "length (tx_info.enc_list txs) = length txs * 40 + sum_list (map (\<lambda>t. length (the (ti_contents t))) txs)"
    using assms by (induction txs) (auto simp: valid_tx_info_def tx_info_enc_def tx_info.enc_list_simps)
  ultimately show ?thesis
    by (simp add: transactions_info_get_serialized_length_def SHA256_HASH_LEN_def)
qed

text \<open>
  Transaction information with hash, contents and short id is read back exactly from its
  serialization; an entry without contents makes the serializer fail its assertion.
\<close>

theorem transactions_info_round_trip:
  assumes "list_all valid_tx_info txs" and "length txs < 256 ^ 4"
  shows "(\<exists>bs. serialize_transactions_info txs = Inr bs \<and> deserialize_transactions_info (bs @ post) = Inr txs)
    \<and> (ti_contents bad = None \<longrightarrow> serialize_transactions_info (txs @ [bad]) = Inl AssertionError)"
proof
  let ?e = "le_bytes 4 (length txs) @ tx_info.enc_list txs"
  have "put_u 4 (replicate (length ?e) 0) 0 (length txs) = Inr (bput 0 (le_bytes 4 (length txs)) (replicate (length ?e) 0), 4)"
    using assms(2) by (simp add: put_u_ok)
  moreover have "put_items put_tx_info (bput 0 (le_bytes 4 (length txs)) (replicate (length ?e) 0)) 4 txs
      = Inr (bput 4 (tx_info.enc_list txs) (bput 0 (le_bytes 4 (length txs)) (replicate (length ?e) 0)), 4 + length (tx_info.enc_list txs))"
    by (rule tx_info.put_items_enc[OF assms(1)]) simp
  moreover have "bput 4 (tx_info.enc_list txs) (bput 0 (le_bytes 4 (length txs)) (replicate (length ?e) 0)) = ?e"
    by (simp add: bput_next bput_fill)
  ultimately have ser: "serialize_transactions_info txs = Inr ?e"
    by (simp add: serialize_transactions_info_def serialize_transactions_info_to_buffer_def tx_info_length[OF assms(1)])
  have "get_u 4 ([] @ le_bytes 4 (length txs) @ tx_info.enc_list txs @ post) 0 = Inr (length txs, 4)"
    using assms(2) get_u_ok[of "length txs" 4 0 "[]"] by simp
  moreover have "get_items get_tx_info (le_bytes 4 (length txs) @ tx_info.enc_list txs @ post)
      (length (le_bytes 4 (length txs))) (length txs)
      = Inr (txs, length (le_bytes 4 (length txs)) + length (tx_info.enc_list txs))"
    by (rule tx_info.get_items_enc[OF assms(1)])
  ultimately show "\<exists>bs. serialize_transactions_info txs = Inr bs \<and> deserialize_transactions_info (bs @ post) = Inr txs"
    using ser by (simp add: deserialize_transactions_info_def deserialize_transactions_info_from_buffer_def)
  have "rfold (\<lambda>m tx. rbind (opt_or AssertionError (ti_contents tx)) (\<lambda>c. Inr (m + length c))) n (txs @ [bad]) = Inl AssertionError"
    if "ti_contents bad = None" for n
    using assms(1) that by (induction txs arbitrary: n) (auto simp: valid_tx_info_def opt_or_def)
  then show "ti_contents bad = None \<longrightarrow> serialize_transactions_info (txs @ [bad]) = Inl AssertionError"
    by (auto simp: serialize_transactions_info_def transactions_info_get_serialized_length_def)
qed

theorem transactions_info_round_trip_witness:
  "\<exists>bs. serialize_transactions_info [\<lparr>ti_hash = Some (replicate 32 3), ti_contents = Some [1], ti_short_id = Some 9\<rparr>] = Inr bs
    \<and> deserialize_transactions_info bs = Inr [\<lparr>ti_hash = Some (replicate 32 3), ti_contents = Some [1], ti_short_id = Some 9\<rparr>]"
proof -
  let ?t = "\<lparr>ti_hash = Some (replicate 32 3), ti_contents = Some [1], ti_short_id = Some 9\<rparr>"
  have "list_all valid_tx_info [?t]" by (simp add: valid_tx_info_def)
  from transactions_info_round_trip[OF this, of "[]" ?t] show ?thesis by auto
qed

end
