(* ===== verification/Transaction_Service.thy ===== *)
theory Transaction_Service
  imports Collections_Bx Serializers
begin

text \<open>
  The transaction cache of \<open>bxcommon/services/transaction_service.py\<close>.

  \<^item> A Python \<open>dict\<close> is an association list in insertion order; a \<open>set\<close> of short ids is a list without
    duplicates (Python leaves its iteration order open, nothing below depends on it).
  \<^item> Hashes are their bytes, cache keys the hexadecimal strings \<open>_tx_hash_to_cache_key\<close> makes of them.
  \<^item> Every operation takes the current time as argument, one reading per call.
  \<^item> \<open>node.alarm_queue.register_alarm\<close> appends to the list \<open>alarm_requests\<close> (delay and callback), which the
    node's alarm queue consumes.
  \<^item> Log lines, Prometheus gauges and the statistics events of \<open>tx_stats\<close> are left out; the methods marked
    \<open>@deprecated\<close> in the source are the \<open>_by_key\<close> methods below applied to \<open>get_transaction_key\<close>.
\<close>

subsection \<open>State\<close>

definition NULL_TX_SID :: nat where "NULL_TX_SID = 0"
definition TX_CONTENT_NO_SID_EXPIRE_S :: time where "TX_CONTENT_NO_SID_EXPIRE_S = 60 * 15"
definition MIN_CLEAN_UP_EXPIRED_TXS_TASK_INTERVAL_S :: time where "MIN_CLEAN_UP_EXPIRED_TXS_TASK_INTERVAL_S = 15"
definition MAX_EXPIRED_TXS_TO_REMOVE :: nat where "MAX_EXPIRED_TXS_TO_REMOVE = 500"
definition DUMP_REMOVED_SHORT_IDS_INTERVAL_S :: time where "DUMP_REMOVED_SHORT_IDS_INTERVAL_S = 5 * 60"
definition CLEAN_UP_SEEN_SHORT_IDS_DELAY_S :: time where "CLEAN_UP_SEEN_SHORT_IDS_DELAY_S = 10"
definition REMOVED_TRANSACTIONS_HISTORY_EXPIRATION_S :: time where "REMOVED_TRANSACTIONS_HISTORY_EXPIRATION_S = 6 * 60 * 60"
definition REMOVED_TRANSACTIONS_HISTORY_CLEANUP_INTERVAL_S :: time where "REMOVED_TRANSACTIONS_HISTORY_CLEANUP_INTERVAL_S = 10"
definition REMOVED_TRANSACTIONS_HISTORY_LENGTH_LIMIT :: nat where "REMOVED_TRANSACTIONS_HISTORY_LENGTH_LIMIT = 500000"
definition DEFAULT_TX_CACHE_MEMORY_LIMIT_BYTES :: int where "DEFAULT_TX_CACHE_MEMORY_LIMIT_BYTES = 250 * 1024 * 1024"
definition DEFAULT_FINAL_TX_CONFIRMATIONS_COUNT :: nat where "DEFAULT_FINAL_TX_CONFIRMATIONS_COUNT = 24"

record TransactionKey =
  transaction_hash :: bytes
  transaction_cache_key :: string

datatype ts_callback =
    ExpireOldAssignments | ExpireContentWithoutSid | ExpireSidWithoutContent
  | TrackSeenShortIds bytes "nat list" | DumpRemovedShortIds | CleanupRemovedTransactionsHistory

record TransactionServiceStats =
  short_id_count :: int
  transaction_content_count :: int
  transactions_removed_by_memory_limit :: int
  transaction_contents_size :: int

text \<open>What the service reads of the node's options and of its blockchain network.\<close>

record BlockchainNetwork =
  net_final_tx_confirmations_count :: nat
  net_removed_transactions_history_expiration_s :: time
  net_tx_contents_memory_limit_bytes :: "int option"

record ts_opts =
  sid_expire_time :: time
  dump_removed_short_ids :: bool
  transaction_pool_memory_limit :: "real option"

record TransactionService =
  opts :: ts_opts
  tx_assign_alarm_scheduled :: bool
  tx_content_without_sid_alarm_scheduled :: bool
  tx_without_content_alarm_scheduled :: bool
  tx_cache_key_to_short_ids :: "(string \<times> nat list) list"
  short_id_to_tx_flag :: "(nat \<times> nat) list"
  short_id_to_tx_cache_key :: "(nat \<times> string) list"
  tx_cache_key_to_contents :: "(string \<times> bytes) list"
  tx_assignment_expire_queue :: "nat ExpirationQueue"
  tx_hashes_without_short_id :: "bytes ExpirationQueue"
  tx_hashes_without_content :: "bytes ExpirationQueue"
  tx_hash_to_time_removed :: "(string \<times> time) list"
  short_id_to_time_removed :: "(nat \<times> time) list"
  final_tx_confirmations_count :: nat
  tx_content_memory_limit :: int
  removed_txs_expiration_time_s :: time
  short_ids_seen_in_block :: "(bytes \<times> nat list) list"
  total_tx_contents_size :: int
  total_tx_removed_by_memory_limit :: int
  last_transaction_stats :: TransactionServiceStats
  removed_short_ids :: "nat list"
  alarm_requests :: "(time \<times> ts_callback) list"

definition set_add :: "'a \<Rightarrow> 'a list \<Rightarrow> 'a list" where
  "set_add x xs = (if x \<in> set xs then xs else xs @ [x])"

definition TransactionService_get_final_tx_confirmations_count :: "BlockchainNetwork option \<Rightarrow> nat" where
  "TransactionService_get_final_tx_confirmations_count network =
     (case network of None \<Rightarrow> DEFAULT_FINAL_TX_CONFIRMATIONS_COUNT | Some n \<Rightarrow> net_final_tx_confirmations_count n)"

definition TransactionService_get_removed_transactions_history_expiration_time_s :: "BlockchainNetwork option \<Rightarrow> time" where
  "TransactionService_get_removed_transactions_history_expiration_time_s network =
     (case network of None \<Rightarrow> REMOVED_TRANSACTIONS_HISTORY_EXPIRATION_S
      | Some n \<Rightarrow> net_removed_transactions_history_expiration_s n)"

text \<open>The option is in MB and may have a fraction; \<open>int\<close> cuts towards zero.\<close>

definition py_int_of_real :: "real \<Rightarrow> int" where
  "py_int_of_real x = (if 0 \<le> x then \<lfloor>x\<rfloor> else \<lceil>x\<rceil>)"

definition TransactionService_get_tx_contents_memory_limit :: "ts_opts \<Rightarrow> BlockchainNetwork option \<Rightarrow> int" where
  "TransactionService_get_tx_contents_memory_limit o' network =
     (case transaction_pool_memory_limit o' of
        Some l \<Rightarrow> py_int_of_real (l * 1024 * 1024)
      | None \<Rightarrow>
          (case network of
             Some n \<Rightarrow> (case net_tx_contents_memory_limit_bytes n of None \<Rightarrow> DEFAULT_TX_CACHE_MEMORY_LIMIT_BYTES | Some l \<Rightarrow> l)
           | None \<Rightarrow> DEFAULT_TX_CACHE_MEMORY_LIMIT_BYTES))"

definition TransactionService_init :: "ts_opts \<Rightarrow> BlockchainNetwork option \<Rightarrow> TransactionService result" where
  "TransactionService_init o' network =
     rbind (ExpirationQueue_init (sid_expire_time o')) (\<lambda>assign_queue.
     rbind (ExpirationQueue_init TX_CONTENT_NO_SID_EXPIRE_S) (\<lambda>no_sid_queue.
     rbind (ExpirationQueue_init TX_CONTENT_NO_SID_EXPIRE_S) (\<lambda>no_content_queue.
       Inr \<lparr>opts = o', tx_assign_alarm_scheduled = False, tx_content_without_sid_alarm_scheduled = False,
            tx_without_content_alarm_scheduled = False, tx_cache_key_to_short_ids = [], short_id_to_tx_flag = [],
            short_id_to_tx_cache_key = [], tx_cache_key_to_contents = [],
            tx_assignment_expire_queue = assign_queue, tx_hashes_without_short_id = no_sid_queue,
            tx_hashes_without_content = no_content_queue, tx_hash_to_time_removed = [],
            short_id_to_time_removed = [],
            final_tx_confirmations_count = TransactionService_get_final_tx_confirmations_count network,
            tx_content_memory_limit = TransactionService_get_tx_contents_memory_limit o' network,
            removed_txs_expiration_time_s = TransactionService_get_removed_transactions_history_expiration_time_s network,
            short_ids_seen_in_block = [], total_tx_contents_size = 0, total_tx_removed_by_memory_limit = 0,
            last_transaction_stats = \<lparr>short_id_count = 0, transaction_content_count = 0,
              transactions_removed_by_memory_limit = 0, transaction_contents_size = 0\<rparr>,
            removed_short_ids = [],
            alarm_requests =
              (if dump_removed_short_ids o' then [(DUMP_REMOVED_SHORT_IDS_INTERVAL_S, DumpRemovedShortIds)] else [])
              @ [(REMOVED_TRANSACTIONS_HISTORY_CLEANUP_INTERVAL_S, CleanupRemovedTransactionsHistory)]\<rparr>)))"

subsection \<open>Keys\<close>

definition TransactionService_tx_hash_to_cache_key :: "bytes \<Rightarrow> string" where
  "TransactionService_tx_hash_to_cache_key h = bytes_to_hex h"

definition TransactionService_tx_cache_key_to_hash :: "string \<Rightarrow> bytes result" where
  "TransactionService_tx_cache_key_to_hash k =
     rbind (hex_to_bytes k) (\<lambda>b. rbind (Sha256Hash_init b) (\<lambda>h. Inr (binary h)))"

definition TransactionService_get_transaction_key :: "bytes option \<Rightarrow> string option \<Rightarrow> TransactionKey result" where
  "TransactionService_get_transaction_key h_arg k_arg =
     rbind (case h_arg of
              Some h \<Rightarrow> rbind (wrap_sha256 (RawBytes h)) (\<lambda>w. Inr (binary w))
            | None \<Rightarrow> (case k_arg of None \<Rightarrow> Inl AssertionError | Some k \<Rightarrow> TransactionService_tx_cache_key_to_hash k))
       (\<lambda>h. Inr \<lparr>transaction_hash = h,
               transaction_cache_key = (case k_arg of Some k \<Rightarrow> k | None \<Rightarrow> TransactionService_tx_hash_to_cache_key h)\<rparr>)"

subsection \<open>Queries\<close>

definition TransactionService_get_short_id_transaction_type :: "nat \<Rightarrow> TransactionService \<Rightarrow> nat" where
  "TransactionService_get_short_id_transaction_type sid s =
     (case map_of (short_id_to_tx_flag s) sid of Some f \<Rightarrow> f | None \<Rightarrow> NO_FLAGS)"

definition TransactionService_get_short_ids_by_key :: "TransactionKey \<Rightarrow> TransactionService \<Rightarrow> nat list" where
  "TransactionService_get_short_ids_by_key key s =
     (case map_of (tx_cache_key_to_short_ids s) (transaction_cache_key key) of Some sids \<Rightarrow> sids | None \<Rightarrow> [NULL_TX_SID])"

definition TransactionService_get_short_id_by_key :: "TransactionKey \<Rightarrow> TransactionService \<Rightarrow> nat result" where
  "TransactionService_get_short_id_by_key key s =
     (case TransactionService_get_short_ids_by_key key s of [] \<Rightarrow> Inl RuntimeErr | sid # _ \<Rightarrow> Inr sid)"

definition TransactionService_get_transaction :: "nat \<Rightarrow> TransactionService \<Rightarrow> TransactionInfo result" where
  "TransactionService_get_transaction sid s =
     (case map_of (short_id_to_tx_cache_key s) sid of
        None \<Rightarrow> Inr \<lparr>ti_hash = None, ti_contents = None, ti_short_id = Some sid\<rparr>
      | Some k \<Rightarrow>
          rbind (TransactionService_tx_cache_key_to_hash k) (\<lambda>h.
            Inr \<lparr>ti_hash = Some h, ti_contents = map_of (tx_cache_key_to_contents s) k, ti_short_id = Some sid\<rparr>))"

definition TransactionService_has_transaction_contents_by_key :: "TransactionKey \<Rightarrow> TransactionService \<Rightarrow> bool" where
  "TransactionService_has_transaction_contents_by_key key s \<longleftrightarrow>
     map_of (tx_cache_key_to_contents s) (transaction_cache_key key) \<noteq> None"

definition TransactionService_has_transaction_short_id_by_key :: "TransactionKey \<Rightarrow> TransactionService \<Rightarrow> bool" where
  "TransactionService_has_transaction_short_id_by_key key s \<longleftrightarrow>
     map_of (tx_cache_key_to_short_ids s) (transaction_cache_key key) \<noteq> None"

definition TransactionService_has_short_id :: "nat \<Rightarrow> TransactionService \<Rightarrow> bool" where
  "TransactionService_has_short_id sid s \<longleftrightarrow> map_of (short_id_to_tx_cache_key s) sid \<noteq> None"

definition TransactionService_has_cache_key_no_sid_entry :: "bytes \<Rightarrow> TransactionService \<Rightarrow> bool" where
  "TransactionService_has_cache_key_no_sid_entry h s \<longleftrightarrow> h \<in> fst ` set (queue (tx_hashes_without_short_id s))"

definition TransactionService_removed_transaction_by_key :: "TransactionKey \<Rightarrow> TransactionService \<Rightarrow> bool" where
  "TransactionService_removed_transaction_by_key key s \<longleftrightarrow>
     map_of (tx_hash_to_time_removed s) (transaction_cache_key key) \<noteq> None"

definition TransactionService_get_transaction_by_key :: "TransactionKey \<Rightarrow> TransactionService \<Rightarrow> bytes option" where
  "TransactionService_get_transaction_by_key key s = map_of (tx_cache_key_to_contents s) (transaction_cache_key key)"

definition TransactionService_get_missing_transactions ::
    "nat list \<Rightarrow> TransactionService \<Rightarrow> (bool \<times> nat list \<times> bytes list) result" where
  "TransactionService_get_missing_transactions sids s =
     rfold (\<lambda>(has_missing, unknown_sids, unknown_hashes) sid.
        (case map_of (short_id_to_tx_cache_key s) sid of
           None \<Rightarrow> Inr (True, unknown_sids @ [sid], unknown_hashes)
         | Some k \<Rightarrow>
             rbind (TransactionService_get_transaction_key None (Some k)) (\<lambda>key.
               if \<not> TransactionService_has_transaction_contents_by_key key s
               then Inr (True, unknown_sids, unknown_hashes @ [transaction_hash key])
               else Inr (has_missing, unknown_sids, unknown_hashes)))) (False, [], []) sids"

definition TransactionService_get_transactions ::
    "bytes option \<Rightarrow> TransactionService \<Rightarrow> TransactionSearchResult result" where
  "TransactionService_get_transactions serialized s =
     (case serialized of
        None \<Rightarrow> Inl AssertionError
      | Some buf \<Rightarrow>
          rbind (deserialize_short_ids buf) (\<lambda>sids.
            rfold (\<lambda>r sid.
              rbind (TransactionService_get_transaction sid s) (\<lambda>info.
                if ti_contents info \<noteq> None then Inr (r\<lparr>tsr_found := tsr_found r @ [info]\<rparr>)
                else Inr (r\<lparr>tsr_missing := tsr_missing r @ [info]\<rparr>)))
              \<lparr>tsr_found = [], tsr_missing = []\<rparr> sids))"

definition TransactionService_get_tx_hash_to_contents_len :: "TransactionService \<Rightarrow> nat" where
  "TransactionService_get_tx_hash_to_contents_len s = length (tx_cache_key_to_contents s)"

definition TransactionService_get_short_id_count :: "TransactionService \<Rightarrow> nat" where
  "TransactionService_get_short_id_count s = length (short_id_to_tx_cache_key s)"

definition TransactionService_get_short_id_assign_time :: "nat \<Rightarrow> TransactionService \<Rightarrow> time" where
  "TransactionService_get_short_id_assign_time sid s =
     (case map_of (queue (tx_assignment_expire_queue s)) sid of Some t \<Rightarrow> t | None \<Rightarrow> 0)"

subsection \<open>Changes\<close>

definition TransactionService_set_short_id_transaction_type :: "nat \<Rightarrow> nat \<Rightarrow> TransactionService \<Rightarrow> TransactionService" where
  "TransactionService_set_short_id_transaction_type sid tx_flag s =
     (if PAID_TX AND tx_flag \<noteq> 0 then s\<lparr>short_id_to_tx_flag := AList.update sid tx_flag (short_id_to_tx_flag s)\<rparr> else s)"

definition TransactionService_set_final_tx_confirmations_count :: "nat \<Rightarrow> TransactionService \<Rightarrow> TransactionService" where
  "TransactionService_set_final_tx_confirmations_count v s = s\<lparr>final_tx_confirmations_count := v\<rparr>"

definition TransactionService_remove_sid_by_key :: "TransactionKey \<Rightarrow> TransactionService \<Rightarrow> TransactionService result" where
  "TransactionService_remove_sid_by_key key s =
     (let k = transaction_cache_key key
      in if map_of (tx_cache_key_to_contents s) k \<noteq> None then Inr s
         else case map_of (tx_cache_key_to_short_ids s) k of
           None \<Rightarrow> Inr s
         | Some sids \<Rightarrow>
             rfold (\<lambda>s sid.
               if map_of (short_id_to_tx_cache_key s) sid = None then Inl KeyError
               else Inr (s\<lparr>short_id_to_tx_cache_key := AList.delete sid (short_id_to_tx_cache_key s),
                           tx_assignment_expire_queue := ExpirationQueue_remove sid (tx_assignment_expire_queue s)\<rparr>))
               (s\<lparr>tx_cache_key_to_short_ids := AList.delete k (tx_cache_key_to_short_ids s)\<rparr>) sids)"

definition request_alarm :: "time \<Rightarrow> ts_callback \<Rightarrow> TransactionService \<Rightarrow> TransactionService" where
  "request_alarm delay cb s = s\<lparr>alarm_requests := alarm_requests s @ [(delay, cb)]\<rparr>"

definition TransactionService_assign_short_id_base_by_key ::
    "time \<Rightarrow> TransactionKey \<Rightarrow> nat \<Rightarrow> bool \<Rightarrow> bool \<Rightarrow> TransactionService \<Rightarrow> TransactionService" where
  "TransactionService_assign_short_id_base_by_key now key sid has_contents call_to_assign s =
     (if sid = NULL_TX_SID then s
      else let
        s1 = (if has_contents then s
              else let s' = s\<lparr>tx_hashes_without_content :=
                              ExpirationQueue_add now (transaction_hash key) (tx_hashes_without_content s)\<rparr>
                   in if tx_without_content_alarm_scheduled s' then s'
                      else (request_alarm TX_CONTENT_NO_SID_EXPIRE_S ExpireSidWithoutContent s')
                             \<lparr>tx_without_content_alarm_scheduled := True\<rparr>);
        k = transaction_cache_key key;
        s2 = (if call_to_assign
              then s1\<lparr>tx_cache_key_to_short_ids :=
                        AList.update k (set_add sid (case map_of (tx_cache_key_to_short_ids s1) k of None \<Rightarrow> [] | Some l \<Rightarrow> l))
                          (tx_cache_key_to_short_ids s1),
                      short_id_to_tx_cache_key := AList.update sid k (short_id_to_tx_cache_key s1)\<rparr>
              else s1);
        s3 = s2\<lparr>tx_assignment_expire_queue := ExpirationQueue_add now sid (tx_assignment_expire_queue s2),
                tx_hashes_without_short_id := ExpirationQueue_remove (transaction_hash key) (tx_hashes_without_short_id s2)\<rparr>
      in if tx_assign_alarm_scheduled s3 then s3
         else (request_alarm (sid_expire_time (opts s3)) ExpireOldAssignments s3)\<lparr>tx_assign_alarm_scheduled := True\<rparr>)"

definition TransactionService_assign_short_id_by_key :: "time \<Rightarrow> TransactionKey \<Rightarrow> nat \<Rightarrow> TransactionService \<Rightarrow> TransactionService" where
  "TransactionService_assign_short_id_by_key now key sid s =
     TransactionService_assign_short_id_base_by_key now key sid
       (map_of (tx_cache_key_to_contents s) (transaction_cache_key key) \<noteq> None) True s"

text \<open>Dropping the contents of a key, as the two removal methods do it.\<close>

definition drop_contents :: "time \<Rightarrow> string \<Rightarrow> TransactionService \<Rightarrow> TransactionService" where
  "drop_contents now k s =
     (case map_of (tx_cache_key_to_contents s) k of
        None \<Rightarrow> s
      | Some c \<Rightarrow> s\<lparr>total_tx_contents_size := total_tx_contents_size s - int (length c),
                   tx_cache_key_to_contents := AList.delete k (tx_cache_key_to_contents s),
                   tx_hash_to_time_removed := AList.update k now (tx_hash_to_time_removed s)\<rparr>)"

definition any_flag :: "TransactionService \<Rightarrow> nat list \<Rightarrow> nat result" where
  "any_flag s sids =
     (case map (\<lambda>sid. TransactionService_get_short_id_transaction_type sid s) sids of
        [] \<Rightarrow> Inl TypeError
      | f # fs \<Rightarrow> Inr (foldl (OR) f fs))"

definition note_removed :: "nat \<Rightarrow> TransactionService \<Rightarrow> TransactionService" where
  "note_removed sid s = (if dump_removed_short_ids (opts s) then s\<lparr>removed_short_ids := set_add sid (removed_short_ids s)\<rparr> else s)"

definition forget_sid_of_key :: "time \<Rightarrow> nat \<Rightarrow> TransactionService \<Rightarrow> TransactionService" where
  "forget_sid_of_key now sid s =
     (let s1 = s\<lparr>short_id_to_time_removed := AList.update sid now (short_id_to_time_removed s)\<rparr>;
          s2 = (if map_of (short_id_to_tx_cache_key s1) sid \<noteq> None
                then s1\<lparr>short_id_to_tx_cache_key := AList.delete sid (short_id_to_tx_cache_key s1),
                        short_id_to_tx_flag := AList.delete sid (short_id_to_tx_flag s1)\<rparr>
                else s1)
      in note_removed sid (s2\<lparr>tx_assignment_expire_queue := ExpirationQueue_remove sid (tx_assignment_expire_queue s2)\<rparr>))"

definition TransactionService_remove_transaction_by_key ::
    "time \<Rightarrow> TransactionKey \<Rightarrow> bool \<Rightarrow> bool \<Rightarrow> TransactionService \<Rightarrow> (nat list option \<times> TransactionService) result" where
  "TransactionService_remove_transaction_by_key now key force assume_no_sid s =
     (let k = transaction_cache_key key
      in case map_of (tx_cache_key_to_short_ids s) k of
           None \<Rightarrow> Inr (None, drop_contents now k s)
         | Some sids \<Rightarrow>
             if assume_no_sid \<and> sids \<noteq> [] then Inr (None, s)
             else rbind (any_flag s sids) (\<lambda>tx_flag.
               if flag_in PAID_TX tx_flag \<and> \<not> force then Inr (None, s)
               else let s1 = s\<lparr>tx_cache_key_to_short_ids := AList.delete k (tx_cache_key_to_short_ids s)\<rparr>
                    in Inr (Some sids, drop_contents now k (fold (forget_sid_of_key now) sids s1))))"

definition forget_duplicate :: "time \<Rightarrow> nat \<Rightarrow> TransactionService \<Rightarrow> TransactionService" where
  "forget_duplicate now dup s =
     note_removed dup (s\<lparr>short_id_to_time_removed := AList.update dup now (short_id_to_time_removed s),
        short_id_to_tx_cache_key := AList.delete dup (short_id_to_tx_cache_key s),
        tx_assignment_expire_queue := ExpirationQueue_remove dup (tx_assignment_expire_queue s)\<rparr>)"

definition TransactionService_remove_transaction_by_short_id ::
    "time \<Rightarrow> bool \<Rightarrow> bool \<Rightarrow> nat \<Rightarrow> TransactionService \<Rightarrow> TransactionService result" where
  "TransactionService_remove_transaction_by_short_id now remove_related force sid s =
     (case map_of (short_id_to_tx_cache_key s) sid of
        None \<Rightarrow> Inr (s\<lparr>tx_assignment_expire_queue := ExpirationQueue_remove sid (tx_assignment_expire_queue s)\<rparr>)
      | Some k \<Rightarrow>
          rbind (case map_of (tx_cache_key_to_short_ids s) k of
                   None \<Rightarrow> Inr (False, [sid])
                 | Some sids \<Rightarrow> rbind (any_flag s sids) (\<lambda>tx_flag. Inr (flag_in PAID_TX tx_flag \<and> \<not> force, sids)))
            (\<lambda>(keep, sids).
             if keep then Inr s
             else let
               s1 = note_removed sid s;
               s2 = s1\<lparr>short_id_to_tx_cache_key := AList.delete sid (short_id_to_tx_cache_key s1),
                       short_id_to_time_removed := AList.update sid now (short_id_to_time_removed s1)\<rparr>
             in rbind (TransactionService_tx_cache_key_to_hash k) (\<lambda>_.
                rbind
                  (if length sids = 1 \<or> remove_related
                   then let s3 = drop_contents now k (fold (forget_duplicate now) (filter (\<lambda>d. d \<noteq> sid) sids) s2)
                        in if map_of (tx_cache_key_to_short_ids s3) k = None then Inl KeyError
                           else Inr (s3\<lparr>tx_cache_key_to_short_ids := AList.delete k (tx_cache_key_to_short_ids s3)\<rparr>)
                   else if sid \<in> set sids
                   then Inr (s2\<lparr>tx_cache_key_to_short_ids :=
                                 AList.update k (remove1 sid sids) (tx_cache_key_to_short_ids s2)\<rparr>)
                   else Inl KeyError)
                  (\<lambda>s4. Inr (s4\<lparr>tx_assignment_expire_queue := ExpirationQueue_remove sid (tx_assignment_expire_queue s4)\<rparr>)))))"

definition TransactionService_clear :: "TransactionService \<Rightarrow> TransactionService" where
  "TransactionService_clear s =
     s\<lparr>tx_cache_key_to_contents := [], tx_cache_key_to_short_ids := [], short_id_to_tx_cache_key := [],
       short_ids_seen_in_block := [], short_id_to_tx_flag := [],
       tx_hashes_without_content := ExpirationQueue_clear (tx_hashes_without_content s),
       tx_hashes_without_short_id := ExpirationQueue_clear (tx_hashes_without_short_id s),
       tx_assignment_expire_queue := ExpirationQueue_clear (tx_assignment_expire_queue s),
       total_tx_contents_size := 0\<rparr>"

definition TransactionService_is_exceeding_memory_limit :: "TransactionService \<Rightarrow> bool" where
  "TransactionService_is_exceeding_memory_limit s \<longleftrightarrow> total_tx_contents_size s > tx_content_memory_limit s"


subsection \<open>The memory limit\<close>

lemma drop_contents_simps [simp]:
  "tx_assignment_expire_queue (drop_contents now k s) = tx_assignment_expire_queue s"
  "tx_hashes_without_short_id (drop_contents now k s) = tx_hashes_without_short_id s"
  "tx_hashes_without_content (drop_contents now k s) = tx_hashes_without_content s"
  "short_id_to_tx_cache_key (drop_contents now k s) = short_id_to_tx_cache_key s"
  "tx_cache_key_to_short_ids (drop_contents now k s) = tx_cache_key_to_short_ids s"
  "tx_cache_key_to_contents (drop_contents now k s) = AList.delete k (tx_cache_key_to_contents s)"
  "tx_content_memory_limit (drop_contents now k s) = tx_content_memory_limit s"
  "tx_assign_alarm_scheduled (drop_contents now k s) = tx_assign_alarm_scheduled s"
  "tx_content_without_sid_alarm_scheduled (drop_contents now k s) = tx_content_without_sid_alarm_scheduled s"
  "tx_without_content_alarm_scheduled (drop_contents now k s) = tx_without_content_alarm_scheduled s"
  "short_ids_seen_in_block (drop_contents now k s) = short_ids_seen_in_block s"
  "final_tx_confirmations_count (drop_contents now k s) = final_tx_confirmations_count s"
  "opts (drop_contents now k s) = opts s"
  by (auto simp: drop_contents_def delete_absent split: option.split)

lemma note_removed_simps [simp]:
  "tx_assignment_expire_queue (note_removed sid s) = tx_assignment_expire_queue s"
  "tx_hashes_without_short_id (note_removed sid s) = tx_hashes_without_short_id s"
  "tx_hashes_without_content (note_removed sid s) = tx_hashes_without_content s"
  "short_id_to_tx_cache_key (note_removed sid s) = short_id_to_tx_cache_key s"
  "tx_cache_key_to_short_ids (note_removed sid s) = tx_cache_key_to_short_ids s"
  "tx_cache_key_to_contents (note_removed sid s) = tx_cache_key_to_contents s"
  "total_tx_contents_size (note_removed sid s) = total_tx_contents_size s"
  "tx_content_memory_limit (note_removed sid s) = tx_content_memory_limit s"
  "tx_assign_alarm_scheduled (note_removed sid s) = tx_assign_alarm_scheduled s"
  "tx_content_without_sid_alarm_scheduled (note_removed sid s) = tx_content_without_sid_alarm_scheduled s"
  "tx_without_content_alarm_scheduled (note_removed sid s) = tx_without_content_alarm_scheduled s"
  "short_ids_seen_in_block (note_removed sid s) = short_ids_seen_in_block s"
  "final_tx_confirmations_count (note_removed sid s) = final_tx_confirmations_count s"
  "short_id_to_time_removed (note_removed sid s) = short_id_to_time_removed s"
  "short_id_to_tx_flag (note_removed sid s) = short_id_to_tx_flag s"
  "opts (note_removed sid s) = opts s"
  by (simp_all add: note_removed_def)

text \<open>The loops over the short ids of one transaction change only a few fields.\<close>

lemma fold_forget_duplicate [simp]:
  "queue (tx_assignment_expire_queue (fold (forget_duplicate now) sids s)) = fold AList.delete sids (queue (tx_assignment_expire_queue s))"
  "short_id_to_tx_cache_key (fold (forget_duplicate now) sids s) = fold AList.delete sids (short_id_to_tx_cache_key s)"
  "tx_hashes_without_short_id (fold (forget_duplicate now) sids s) = tx_hashes_without_short_id s"
  "tx_hashes_without_content (fold (forget_duplicate now) sids s) = tx_hashes_without_content s"
  "tx_cache_key_to_short_ids (fold (forget_duplicate now) sids s) = tx_cache_key_to_short_ids s"
  "tx_cache_key_to_contents (fold (forget_duplicate now) sids s) = tx_cache_key_to_contents s"
  "total_tx_contents_size (fold (forget_duplicate now) sids s) = total_tx_contents_size s"
  "tx_content_memory_limit (fold (forget_duplicate now) sids s) = tx_content_memory_limit s"
  "tx_assign_alarm_scheduled (fold (forget_duplicate now) sids s) = tx_assign_alarm_scheduled s"
  "tx_content_without_sid_alarm_scheduled (fold (forget_duplicate now) sids s) = tx_content_without_sid_alarm_scheduled s"
  "tx_without_content_alarm_scheduled (fold (forget_duplicate now) sids s) = tx_without_content_alarm_scheduled s"
  "short_ids_seen_in_block (fold (forget_duplicate now) sids s) = short_ids_seen_in_block s"
  "final_tx_confirmations_count (fold (forget_duplicate now) sids s) = final_tx_confirmations_count s"
  "opts (fold (forget_duplicate now) sids s) = opts s"
  by (induction sids arbitrary: s) (simp_all add: forget_duplicate_def)

lemma fold_forget_sid_of_key [simp]:
  "queue (tx_assignment_expire_queue (fold (forget_sid_of_key now) sids s)) = fold AList.delete sids (queue (tx_assignment_expire_queue s))"
  "short_id_to_tx_cache_key (fold (forget_sid_of_key now) sids s) = fold AList.delete sids (short_id_to_tx_cache_key s)"
  "tx_hashes_without_short_id (fold (forget_sid_of_key now) sids s) = tx_hashes_without_short_id s"
  "tx_hashes_without_content (fold (forget_sid_of_key now) sids s) = tx_hashes_without_content s"
  "tx_cache_key_to_short_ids (fold (forget_sid_of_key now) sids s) = tx_cache_key_to_short_ids s"
  "tx_cache_key_to_contents (fold (forget_sid_of_key now) sids s) = tx_cache_key_to_contents s"
  "total_tx_contents_size (fold (forget_sid_of_key now) sids s) = total_tx_contents_size s"
  "tx_content_memory_limit (fold (forget_sid_of_key now) sids s) = tx_content_memory_limit s"
  "tx_assign_alarm_scheduled (fold (forget_sid_of_key now) sids s) = tx_assign_alarm_scheduled s"
  "tx_content_without_sid_alarm_scheduled (fold (forget_sid_of_key now) sids s) = tx_content_without_sid_alarm_scheduled s"
  "tx_without_content_alarm_scheduled (fold (forget_sid_of_key now) sids s) = tx_without_content_alarm_scheduled s"
  "short_ids_seen_in_block (fold (forget_sid_of_key now) sids s) = short_ids_seen_in_block s"
  "opts (fold (forget_sid_of_key now) sids s) = opts s"
  by (induction sids arbitrary: s) (simp_all add: forget_sid_of_key_def Let_def delete_absent)

lemma fold_delete_filter: "fold AList.delete ks al = filter (\<lambda>p. fst p \<notin> set ks) al"
proof (induction ks arbitrary: al)
  case Nil
  then show ?case by simp
next
  case (Cons k ks)
  have "AList.delete k al = filter (\<lambda>p. fst p \<noteq> k) al"
    by (simp add: AList.delete_eq case_prod_unfold eq_commute[of k])
  then show ?case using Cons.IH[of "AList.delete k al"] by (simp add: conj_commute)
qed

lemma remove_by_sid_queue_shrinks:
  assumes "TransactionService_remove_transaction_by_short_id now r f sid s = Inr s'"
  shows "length (queue (tx_assignment_expire_queue s')) \<le> length (queue (tx_assignment_expire_queue s))"
proof -
  have del: "length (AList.delete x al) \<le> length al" for x :: nat and al :: "(nat \<times> time) list"
    by (rule length_delete_le)
  have fold: "length (AList.delete sid (fold AList.delete ks al)) \<le> length al" for ks and al :: "(nat \<times> time) list"
    using le_trans[OF del length_filter_le] by (simp add: fold_delete_filter)
  show ?thesis
    using assms del fold
    by (auto simp: TransactionService_remove_transaction_by_short_id_def Let_def rbind_eq_Inr
        split: option.splits if_splits)
qed

abbreviation assign_queue_set :: "nat ExpirationQueue \<Rightarrow> TransactionService \<Rightarrow> TransactionService" where
  "assign_queue_set \<equiv> (\<lambda>q s. s\<lparr>tx_assignment_expire_queue := q\<rparr>)"

definition remove_oldest_assignment :: "time \<Rightarrow> TransactionService \<Rightarrow> TransactionService result" where
  "remove_oldest_assignment now s =
     ExpirationQueue_remove_oldest tx_assignment_expire_queue assign_queue_set
       (TransactionService_remove_transaction_by_short_id now False True) s"

lemma remove_oldest_assignment_shrinks:
  assumes "remove_oldest_assignment now s = Inr s'" and "queue (tx_assignment_expire_queue s) \<noteq> []"
  shows "length (queue (tx_assignment_expire_queue s')) < length (queue (tx_assignment_expire_queue s))"
proof -
  obtain x t rest where q: "queue (tx_assignment_expire_queue s) = (x, t) # rest"
    using assms(2) by (cases "queue (tx_assignment_expire_queue s)") auto
  then have "TransactionService_remove_transaction_by_short_id now False True x
      (s\<lparr>tx_assignment_expire_queue := (tx_assignment_expire_queue s)\<lparr>queue := rest\<rparr>\<rparr>) = Inr s'"
    using assms(1) by (simp add: remove_oldest_assignment_def ExpirationQueue_remove_oldest_def)
  from remove_by_sid_queue_shrinks[OF this] q show ?thesis by simp
qed

text \<open>The \<open>while\<close> loop of \<open>_memory_limit_clean_up\<close>, with its counter.\<close>

function memory_limit_loop :: "time \<Rightarrow> TransactionService \<Rightarrow> int \<Rightarrow> (TransactionService \<times> int) result" where
  "memory_limit_loop now s removed =
     (if TransactionService_is_exceeding_memory_limit s \<and> ExpirationQueue_bool (tx_assignment_expire_queue s)
      then case remove_oldest_assignment now s of
             Inl e \<Rightarrow> Inl e
           | Inr s' \<Rightarrow> memory_limit_loop now s' (removed + 1)
      else Inr (s, removed))"
  by pat_completeness auto
termination
  by (relation "measure (\<lambda>(now, s, n). length (queue (tx_assignment_expire_queue s)))")
    (auto simp: ExpirationQueue_bool_def ExpirationQueue_len_def intro: remove_oldest_assignment_shrinks)

declare memory_limit_loop.simps [simp del]

definition TransactionService_memory_limit_clean_up :: "time \<Rightarrow> TransactionService \<Rightarrow> TransactionService result" where
  "TransactionService_memory_limit_clean_up now s =
     (if total_tx_contents_size s \<le> tx_content_memory_limit s then Inr s
      else rbind (memory_limit_loop now s 0) (\<lambda>(s1, removed).
        let (s2, removed') =
              (if TransactionService_is_exceeding_memory_limit s1 \<and> \<not> ExpirationQueue_bool (tx_assignment_expire_queue s1)
               then (TransactionService_clear s1, removed + int (length (tx_cache_key_to_contents s1)))
               else (s1, removed))
        in Inr (s2\<lparr>total_tx_removed_by_memory_limit := total_tx_removed_by_memory_limit s2 + removed'\<rparr>)))"

text \<open>
  \<open>contents\<close> and \<open>contents_length\<close> are the optional arguments \<open>transaction_contents\<close> and
  \<open>transaction_contents_length\<close>.
\<close>

definition TransactionService_set_transaction_contents_base_by_key ::
    "time \<Rightarrow> TransactionKey \<Rightarrow> bool \<Rightarrow> int \<Rightarrow> bool \<Rightarrow> bytes option \<Rightarrow> int option \<Rightarrow> TransactionService \<Rightarrow> TransactionService result" where
  "TransactionService_set_transaction_contents_base_by_key now key has_short_id previous_size call_set contents contents_length s =
     (let
        s1 = (if has_short_id then s
              else let s' = s\<lparr>tx_hashes_without_short_id :=
                              ExpirationQueue_add now (transaction_hash key) (tx_hashes_without_short_id s)\<rparr>
                   in if tx_content_without_sid_alarm_scheduled s' then s'
                      else (request_alarm TX_CONTENT_NO_SID_EXPIRE_S ExpireContentWithoutSid s')
                             \<lparr>tx_content_without_sid_alarm_scheduled := True\<rparr>);
        s2 = s1\<lparr>tx_hashes_without_content := ExpirationQueue_remove (transaction_hash key) (tx_hashes_without_content s1)\<rparr>;
        s3 = (case contents of
                Some c \<Rightarrow>
                  let s' = s2\<lparr>total_tx_contents_size := total_tx_contents_size s2 + (int (length c) - previous_size)\<rparr>
                  in if call_set
                     then s'\<lparr>tx_cache_key_to_contents := AList.update (transaction_cache_key key) c (tx_cache_key_to_contents s')\<rparr>
                     else s'
              | None \<Rightarrow>
                  (case contents_length of
                     Some l \<Rightarrow> s2\<lparr>total_tx_contents_size := total_tx_contents_size s2 + (l - previous_size)\<rparr>
                   | None \<Rightarrow> s2))
      in TransactionService_memory_limit_clean_up now s3)"

definition TransactionService_set_transaction_contents_by_key ::
    "time \<Rightarrow> TransactionKey \<Rightarrow> bytes \<Rightarrow> TransactionService \<Rightarrow> TransactionService result" where
  "TransactionService_set_transaction_contents_by_key now key contents s =
     TransactionService_set_transaction_contents_base_by_key now key
       (map_of (tx_cache_key_to_short_ids s) (transaction_cache_key key) \<noteq> None)
       (case map_of (tx_cache_key_to_contents s) (transaction_cache_key key) of None \<Rightarrow> 0 | Some c \<Rightarrow> int (length c))
       True (Some contents) None s"


subsection \<open>Expiration\<close>

definition next_expiry :: "time \<Rightarrow> time \<Rightarrow> 'a ExpirationQueue \<Rightarrow> time result" where
  "next_expiry now ttl q =
     (case ExpirationQueue_get_oldest_item_timestamp q of
        None \<Rightarrow> Inl AssertionError
      | Some t \<Rightarrow> Inr (max (t + ttl - now) MIN_CLEAN_UP_EXPIRED_TXS_TASK_INTERVAL_S))"

definition TransactionService_expire_old_assignments :: "time \<Rightarrow> TransactionService \<Rightarrow> (time \<times> TransactionService) result" where
  "TransactionService_expire_old_assignments now s =
     rbind (ExpirationQueue_remove_expired tx_assignment_expire_queue assign_queue_set
              (TransactionService_remove_transaction_by_short_id now False True) now None (Some MAX_EXPIRED_TXS_TO_REMOVE) s)
       (\<lambda>(_, s1).
          if ExpirationQueue_len (tx_assignment_expire_queue s1) > 0
          then rbind (next_expiry now (sid_expire_time (opts s1)) (tx_assignment_expire_queue s1)) (\<lambda>d. Inr (d, s1))
          else Inr (0, s1\<lparr>tx_assign_alarm_scheduled := False\<rparr>))"

abbreviation no_sid_queue_set :: "bytes ExpirationQueue \<Rightarrow> TransactionService \<Rightarrow> TransactionService" where
  "no_sid_queue_set \<equiv> (\<lambda>q s. s\<lparr>tx_hashes_without_short_id := q\<rparr>)"

abbreviation no_content_queue_set :: "bytes ExpirationQueue \<Rightarrow> TransactionService \<Rightarrow> TransactionService" where
  "no_content_queue_set \<equiv> (\<lambda>q s. s\<lparr>tx_hashes_without_content := q\<rparr>)"

text \<open>The callbacks \<open>remove_transaction_by_tx_hash\<close> and \<open>remove_sid_by_tx_hash\<close> (deprecated forms by hash).\<close>

definition TransactionService_remove_transaction_by_tx_hash ::
    "time \<Rightarrow> bool \<Rightarrow> bool \<Rightarrow> bytes \<Rightarrow> TransactionService \<Rightarrow> TransactionService result" where
  "TransactionService_remove_transaction_by_tx_hash now force assume_no_sid h s =
     rbind (TransactionService_get_transaction_key (Some h) None) (\<lambda>key.
     rbind (TransactionService_remove_transaction_by_key now key force assume_no_sid s) (\<lambda>(_, s'). Inr s'))"

definition TransactionService_remove_sid_by_tx_hash :: "bytes \<Rightarrow> TransactionService \<Rightarrow> TransactionService result" where
  "TransactionService_remove_sid_by_tx_hash h s =
     rbind (TransactionService_get_transaction_key (Some h) None) (\<lambda>key. TransactionService_remove_sid_by_key key s)"

definition TransactionService_expire_content_without_sid :: "time \<Rightarrow> TransactionService \<Rightarrow> (time \<times> TransactionService) result" where
  "TransactionService_expire_content_without_sid now s =
     rbind (ExpirationQueue_remove_expired tx_hashes_without_short_id no_sid_queue_set
              (TransactionService_remove_transaction_by_tx_hash now True True) now None (Some MAX_EXPIRED_TXS_TO_REMOVE) s)
       (\<lambda>(_, s1).
          if ExpirationQueue_len (tx_hashes_without_short_id s1) > 0
          then rbind (next_expiry now TX_CONTENT_NO_SID_EXPIRE_S (tx_hashes_without_short_id s1)) (\<lambda>d. Inr (d, s1))
          else Inr (0, s1\<lparr>tx_content_without_sid_alarm_scheduled := False\<rparr>))"

definition TransactionService_expire_sid_without_content :: "time \<Rightarrow> TransactionService \<Rightarrow> (time \<times> TransactionService) result" where
  "TransactionService_expire_sid_without_content now s =
     rbind (ExpirationQueue_remove_expired tx_hashes_without_content no_content_queue_set
              TransactionService_remove_sid_by_tx_hash now None (Some MAX_EXPIRED_TXS_TO_REMOVE) s)
       (\<lambda>(_, s1).
          if ExpirationQueue_len (tx_hashes_without_content s1) > 0
          then rbind (next_expiry now TX_CONTENT_NO_SID_EXPIRE_S (tx_hashes_without_content s1)) (\<lambda>d. Inr (d, s1))
          else Inr (0, s1\<lparr>tx_without_content_alarm_scheduled := False\<rparr>))"

subsection \<open>Blocks and history\<close>

definition TransactionService_track_seen_short_ids :: "time \<Rightarrow> bytes \<Rightarrow> nat list \<Rightarrow> TransactionService \<Rightarrow> TransactionService result" where
  "TransactionService_track_seen_short_ids now block_hash sids s =
     rbind (wrap_sha256 (RawBytes block_hash)) (\<lambda>h.
       let s1 = s\<lparr>short_ids_seen_in_block := AList.update (binary h) sids (short_ids_seen_in_block s)\<rparr>
       in if length (short_ids_seen_in_block s1) \<ge> final_tx_confirmations_count s1
          then (case short_ids_seen_in_block s1 of
                  [] \<Rightarrow> Inl KeyError
                | (_, final_short_ids) # rest \<Rightarrow>
                    rfold (\<lambda>s sid. TransactionService_remove_transaction_by_short_id now True True sid s)
                      (s1\<lparr>short_ids_seen_in_block := rest\<rparr>) final_short_ids)
          else Inr s1)"

definition TransactionService_track_seen_short_ids_delayed :: "bytes \<Rightarrow> nat list \<Rightarrow> TransactionService \<Rightarrow> TransactionService" where
  "TransactionService_track_seen_short_ids_delayed block_hash sids s =
     request_alarm CLEAN_UP_SEEN_SHORT_IDS_DELAY_S (TrackSeenShortIds block_hash sids) s"

definition TransactionService_on_block_cleaned_up :: "bytes \<Rightarrow> TransactionService \<Rightarrow> TransactionService" where
  "TransactionService_on_block_cleaned_up block_hash s =
     s\<lparr>short_ids_seen_in_block := AList.delete block_hash (short_ids_seen_in_block s)\<rparr>"

definition TransactionService_get_tracked_seen_block_count :: "TransactionService \<Rightarrow> nat" where
  "TransactionService_get_tracked_seen_block_count s = length (short_ids_seen_in_block s)"

definition TransactionService_get_short_ids_seen_in_block_count_info :: "TransactionService \<Rightarrow> nat \<times> nat" where
  "TransactionService_get_short_ids_seen_in_block_count_info s =
     (TransactionService_get_tracked_seen_block_count s,
      foldl (\<lambda>total (_, sids). total + length sids) 0 (short_ids_seen_in_block s))"

definition TransactionService_iter_block_seen_by_time :: "int \<Rightarrow> int \<Rightarrow> TransactionService \<Rightarrow> bytes list" where
  "TransactionService_iter_block_seen_by_time skip_start skip_end s =
     (let e = int (length (short_ids_seen_in_block s)) - skip_end
      in map snd (filter (\<lambda>(idx, _). skip_start \<le> int idx \<and> int idx \<le> e)
           (enumerate 0 (map fst (short_ids_seen_in_block s)))))"

definition TransactionService_get_tracked_blocks :: "int \<Rightarrow> int \<Rightarrow> TransactionService \<Rightarrow> (bytes \<times> nat) list" where
  "TransactionService_get_tracked_blocks skip_start skip_end s =
     map (\<lambda>(idx, block). (block, idx)) (enumerate 0 (TransactionService_iter_block_seen_by_time skip_start skip_end s))"

definition TransactionService_get_oldest_tracked_block :: "int \<Rightarrow> TransactionService \<Rightarrow> bytes list" where
  "TransactionService_get_oldest_tracked_block skip_block_count s =
     TransactionService_iter_block_seen_by_time 0 skip_block_count s"

text \<open>One of the two loops of \<open>_cleanup_removed_transactions_history\<close>, on the table it cleans.\<close>

fun cleanup_history_loop :: "time \<Rightarrow> time \<Rightarrow> ('a \<times> time) list \<Rightarrow> ('a \<times> time) list" where
  "cleanup_history_loop now expiration [] = []"
| "cleanup_history_loop now expiration (p # rest) =
     (if now - snd p > expiration \<or> length (p # rest) > REMOVED_TRANSACTIONS_HISTORY_LENGTH_LIMIT
      then cleanup_history_loop now expiration rest else p # rest)"

definition TransactionService_cleanup_removed_transactions_history :: "time \<Rightarrow> TransactionService \<Rightarrow> time \<times> TransactionService" where
  "TransactionService_cleanup_removed_transactions_history now s =
     (REMOVED_TRANSACTIONS_HISTORY_CLEANUP_INTERVAL_S,
      s\<lparr>tx_hash_to_time_removed := cleanup_history_loop now (removed_txs_expiration_time_s s) (tx_hash_to_time_removed s),
        short_id_to_time_removed := cleanup_history_loop now (removed_txs_expiration_time_s s) (short_id_to_time_removed s)\<rparr>)"

text \<open>
  The table of removal times is keyed by strings while the argument may hold hash objects; a hash
  object never equals a string.
\<close>

definition TransactionService_get_removed_tx_hash_time_and_count :: "hash_arg list \<Rightarrow> TransactionService \<Rightarrow> time \<times> nat" where
  "TransactionService_get_removed_tx_hash_time_and_count tx_hashes s =
     foldl (\<lambda>(oldest, n) h.
       (case map_of (map (\<lambda>(k, t). (HexStr k, t)) (tx_hash_to_time_removed s)) h of
          None \<Rightarrow> (oldest, n)
        | Some t \<Rightarrow> (if oldest < t then t else oldest, n + 1))) (0, 0) tx_hashes"

definition TransactionService_get_removed_short_id_time_and_count :: "nat list \<Rightarrow> TransactionService \<Rightarrow> time \<times> nat" where
  "TransactionService_get_removed_short_id_time_and_count sids s =
     foldl (\<lambda>(oldest, n) sid.
       (case map_of (short_id_to_time_removed s) sid of
          None \<Rightarrow> (oldest, n)
        | Some t \<Rightarrow> (if oldest < t then t else oldest, n + 1))) (0, 0) sids"

text \<open>
  \<open>write_file\<close> stands for opening and writing the file that is named after the second: it gets the name and
  the short ids, and may raise, in which case nothing is cleared.
\<close>

definition TransactionService_dump_removed_short_ids ::
    "(int \<Rightarrow> nat list \<Rightarrow> unit result) \<Rightarrow> time \<Rightarrow> TransactionService \<Rightarrow> (time \<times> TransactionService) result" where
  "TransactionService_dump_removed_short_ids write_file now s =
     (if removed_short_ids s \<noteq> []
      then rbind (write_file (py_int_of_real now) (removed_short_ids s))
             (\<lambda>_. Inr (DUMP_REMOVED_SHORT_IDS_INTERVAL_S, s\<lparr>removed_short_ids := []\<rparr>))
      else Inr (DUMP_REMOVED_SHORT_IDS_INTERVAL_S, s))"

subsection \<open>Iteration, snapshots and statistics\<close>

definition TransactionService_iter_transaction_hashes :: "TransactionService \<Rightarrow> bytes list result" where
  "TransactionService_iter_transaction_hashes s =
     rfold (\<lambda>hs (k, _). rbind (TransactionService_tx_cache_key_to_hash k) (\<lambda>h. Inr (hs @ [h]))) [] (tx_cache_key_to_contents s)"

definition TransactionService_iter_transaction_hashes_from_oldest ::
    "time option \<Rightarrow> TransactionService \<Rightarrow> (bytes \<times> time) list result" where
  "TransactionService_iter_transaction_hashes_from_oldest newest_time s =
     rfold (\<lambda>acc (sid, t).
        rbind (TransactionService_get_transaction sid s) (\<lambda>info.
        rbind (opt_or AssertionError (ti_hash info)) (\<lambda>h. Inr (acc @ [(h, t)])))) []
       (takeWhile (\<lambda>p. case newest_time of None \<Rightarrow> True | Some n \<Rightarrow> \<not> snd p > n) (queue (tx_assignment_expire_queue s)))"

text \<open>A single thread: freezing the queue succeeds at the first try and a key that is present is found.\<close>

definition TransactionService_thread_safe_iter_transactions_from_oldest ::
    "time option \<Rightarrow> TransactionService \<Rightarrow> (nat \<times> bytes \<times> time) list result" where
  "TransactionService_thread_safe_iter_transactions_from_oldest newest_time s =
     rfold (\<lambda>acc (sid, t).
        (case map_of (short_id_to_tx_cache_key s) sid of
           None \<Rightarrow> Inr acc
         | Some k \<Rightarrow> rbind (TransactionService_tx_cache_key_to_hash k) (\<lambda>h. Inr (acc @ [(sid, h, t)])))) []
       (takeWhile (\<lambda>p. case newest_time of None \<Rightarrow> True | Some n \<Rightarrow> \<not> snd p > n) (queue (tx_assignment_expire_queue s)))"

definition keys_to_hashes :: "string list \<Rightarrow> bytes list result" where
  "keys_to_hashes ks = rfold (\<lambda>hs k. rbind (TransactionService_tx_cache_key_to_hash k) (\<lambda>h. Inr (hs @ [h]))) [] ks"

definition TransactionService_get_snapshot :: "time \<Rightarrow> time \<Rightarrow> TransactionService \<Rightarrow> (bytes list \<times> TransactionService) result" where
  "TransactionService_get_snapshot now duration s =
     (if duration > 0
      then let recent = map fst (filter (\<lambda>p. snd p > now - duration) (queue (tx_assignment_expire_queue s)));
               known = filter (\<lambda>sid. map_of (short_id_to_tx_cache_key s) sid \<noteq> None) recent;
               stale = filter (\<lambda>sid. map_of (short_id_to_tx_cache_key s) sid = None) recent;
               cache_keys = fold set_add (map (\<lambda>sid. the (map_of (short_id_to_tx_cache_key s) sid)) known) []
           in rbind (keys_to_hashes cache_keys) (\<lambda>hs.
                Inr (hs, s\<lparr>tx_assignment_expire_queue := fold ExpirationQueue_remove stale (tx_assignment_expire_queue s)\<rparr>))
      else rbind (keys_to_hashes (map fst (tx_cache_key_to_contents s))) (\<lambda>hs. Inr (hs, s)))"

definition TransactionServiceStats_sub :: "TransactionServiceStats \<Rightarrow> TransactionServiceStats \<Rightarrow> TransactionServiceStats" where
  "TransactionServiceStats_sub a b =
     \<lparr>short_id_count = short_id_count a - short_id_count b,
      transaction_content_count = transaction_content_count a - transaction_content_count b,
      transactions_removed_by_memory_limit = transactions_removed_by_memory_limit a - transactions_removed_by_memory_limit b,
      transaction_contents_size = transaction_contents_size a - transaction_contents_size b\<rparr>"

text \<open>The date and the cache key of the oldest transaction, the current figures and their change.\<close>

definition TransactionService_get_aggregate_stats ::
    "TransactionService \<Rightarrow> (time \<times> string \<times> TransactionServiceStats \<times> TransactionServiceStats) \<times> TransactionService" where
  "TransactionService_get_aggregate_stats s =
     (let q = tx_assignment_expire_queue s;
          date = (case ExpirationQueue_get_oldest_item_timestamp q of None \<Rightarrow> 0 | Some t \<Rightarrow> t);
          key = (case ExpirationQueue_get_oldest q of
                   None \<Rightarrow> []
                 | Some sid \<Rightarrow> (case map_of (short_id_to_tx_cache_key s) sid of None \<Rightarrow> [] | Some k \<Rightarrow> k));
          current = \<lparr>short_id_count = int (length (short_id_to_tx_cache_key s)),
                     transaction_content_count = int (length (tx_cache_key_to_contents s)),
                     transactions_removed_by_memory_limit = total_tx_removed_by_memory_limit s,
                     transaction_contents_size = total_tx_contents_size s\<rparr>
      in ((date, key, current, TransactionServiceStats_sub current (last_transaction_stats s)),
          s\<lparr>last_transaction_stats := current\<rparr>))"

definition TransactionService_get_cache_state_json :: "nat \<Rightarrow> TransactionService \<Rightarrow> (string \<times> int) list" where
  "TransactionService_get_cache_state_json network_num s =
     [(''tx_hash_to_short_ids_len'', int (length (tx_cache_key_to_short_ids s))),
      (''short_id_to_tx_hash_len'', int (length (short_id_to_tx_cache_key s))),
      (''tx_hash_to_contents_len'', int (length (tx_cache_key_to_contents s))),
      (''short_ids_seen_in_block_len'', int (length (short_ids_seen_in_block s))),
      (''total_tx_contents_size'', total_tx_contents_size s),
      (''network_num'', int network_num)]"

subsection \<open>Synchronization\<close>

record TxSyncMsgProcessingItem =
  item_hash :: bytes
  item_content_length :: nat
  item_short_ids :: "nat list"
  item_transaction_flag_types :: "nat list"

text \<open>The body of the loop of \<open>process_tx_sync_message\<close>.\<close>

definition process_tx_sync_item ::
    "time \<Rightarrow> TxSyncMsgProcessingItem list \<times> TransactionService \<Rightarrow> TxContentShortIds \<Rightarrow>
     (TxSyncMsgProcessingItem list \<times> TransactionService) result" where
  "process_tx_sync_item now p t =
     rbind (TransactionService_get_transaction_key (Some (tcs_tx_hash t)) None) (\<lambda>key.
     let content = (case tcs_tx_content t of None \<Rightarrow> [] | Some c \<Rightarrow> c) in
     rbind (if content \<noteq> [] then TransactionService_set_transaction_contents_by_key now key content (snd p) else Inr (snd p)) (\<lambda>s1.
       Inr (fst p @ [\<lparr>item_hash = transaction_hash key, item_content_length = length content,
                      item_short_ids = tcs_short_ids t, item_transaction_flag_types = tcs_short_id_flags t\<rparr>],
            foldl (\<lambda>s (sid, _). TransactionService_assign_short_id_by_key now key sid s) s1
              (zip (tcs_short_ids t) (tcs_short_id_flags t)))))"

definition TransactionService_process_tx_sync_message ::
    "time \<Rightarrow> TxContentShortIds list \<Rightarrow> TransactionService \<Rightarrow> (TxSyncMsgProcessingItem list \<times> TransactionService) result" where
  "TransactionService_process_tx_sync_message now txs s = rfold (process_tx_sync_item now) ([], s) txs"

end
