(* ===== verification/Transaction_Invariant.thy ===== *)
theory Transaction_Invariant
  imports Transaction_Service
begin

text \<open>
  What the transaction cache of \<open>Transaction_Service\<close> guarantees: the invariant of its tables and queues,
  that every operation keeps it and raises nothing, the bound on the memory used, what lookups return
  after insertions and removals, and what the expiration tasks remove.
\<close>

subsection \<open>Invariant\<close>

text \<open>
  \<open>ts_rel E1 E2 E3 s\<close>: the two short-id tables are inverse to each other, every key is the
  hexadecimal form of a hash, the total is the sum of the content lengths, and the three queues watch
  what they must: the assigned short ids, the contents without short id and the short ids without
  contents, each with the exception of the given items (an item that an expiration loop has just
  popped).
\<close>

abbreviation sids_of :: "TransactionService \<Rightarrow> string \<Rightarrow> nat list option" where
  "sids_of s \<equiv> map_of (tx_cache_key_to_short_ids s)"

abbreviation key_of :: "TransactionService \<Rightarrow> nat \<Rightarrow> string option" where
  "key_of s \<equiv> map_of (short_id_to_tx_cache_key s)"

abbreviation contents_of :: "TransactionService \<Rightarrow> string \<Rightarrow> bytes option" where
  "contents_of s \<equiv> map_of (tx_cache_key_to_contents s)"

abbreviation watched :: "'a ExpirationQueue \<Rightarrow> 'a set" where
  "watched q \<equiv> fst ` set (queue q)"

definition contents_total :: "(string \<times> bytes) list \<Rightarrow> int" where
  "contents_total al = (\<Sum>p\<leftarrow>al. int (length (snd p)))"

definition links_ok :: "(string \<Rightarrow> nat list option) \<Rightarrow> (nat \<Rightarrow> string option) \<Rightarrow> bool" where
  "links_ok K S \<longleftrightarrow>
     (\<forall>k sids. K k = Some sids \<longrightarrow> sids \<noteq> [] \<and> distinct sids \<and> (\<forall>sid \<in> set sids. S sid = Some k))
     \<and> (\<forall>sid k. S sid = Some k \<longrightarrow> (\<exists>sids. K k = Some sids \<and> sid \<in> set sids))"

definition is_key :: "string \<Rightarrow> bool" where
  "is_key k \<longleftrightarrow> (\<exists>h. length h = 32 \<and> k = bytes_to_hex h)"

definition watch_ok :: "bytes set \<Rightarrow> bytes set \<Rightarrow> (string \<Rightarrow> nat list option) \<Rightarrow> (string \<Rightarrow> bytes option) \<Rightarrow> bytes set \<Rightarrow> bytes set \<Rightarrow> bool" where
  "watch_ok E2 E3 K C no_sid no_content \<longleftrightarrow>
     (\<forall>h. C (bytes_to_hex h) \<noteq> None \<longrightarrow> K (bytes_to_hex h) = None \<longrightarrow> h \<in> no_sid \<union> E2)
     \<and> (\<forall>h. K (bytes_to_hex h) \<noteq> None \<longrightarrow> C (bytes_to_hex h) = None \<longrightarrow> h \<in> no_content \<union> E3)"

definition tables_ok :: "TransactionService \<Rightarrow> bool" where
  "tables_ok s \<longleftrightarrow> distinct (map fst (tx_cache_key_to_short_ids s)) \<and> distinct (map fst (short_id_to_tx_cache_key s))
     \<and> distinct (map fst (tx_cache_key_to_contents s))
     \<and> eq_wf (tx_assignment_expire_queue s) \<and> eq_wf (tx_hashes_without_short_id s) \<and> eq_wf (tx_hashes_without_content s)
     \<and> total_tx_contents_size s = contents_total (tx_cache_key_to_contents s)
     \<and> (\<forall>k \<in> dom (sids_of s) \<union> dom (contents_of s). is_key k)
     \<and> (\<forall>h \<in> watched (tx_hashes_without_short_id s) \<union> watched (tx_hashes_without_content s). length h = 32)"

definition alarms_ok :: "TransactionService \<Rightarrow> bool" where
  "alarms_ok s \<longleftrightarrow>
     (queue (tx_assignment_expire_queue s) \<noteq> [] \<longrightarrow> tx_assign_alarm_scheduled s)
     \<and> (queue (tx_hashes_without_short_id s) \<noteq> [] \<longrightarrow> tx_content_without_sid_alarm_scheduled s)
     \<and> (queue (tx_hashes_without_content s) \<noteq> [] \<longrightarrow> tx_without_content_alarm_scheduled s)"

definition ts_rel :: "nat set \<Rightarrow> bytes set \<Rightarrow> bytes set \<Rightarrow> TransactionService \<Rightarrow> bool" where
  "ts_rel E1 E2 E3 s \<longleftrightarrow> tables_ok s \<and> links_ok (sids_of s) (key_of s)
     \<and> watched (tx_assignment_expire_queue s) \<union> E1 = dom (key_of s) \<union> E1
     \<and> watch_ok E2 E3 (sids_of s) (contents_of s) (watched (tx_hashes_without_short_id s)) (watched (tx_hashes_without_content s))
     \<and> alarms_ok s"

definition ts_inv :: "TransactionService \<Rightarrow> bool" where
  "ts_inv s \<longleftrightarrow> ts_rel {} {} {} s"

lemma contents_total_delete:
  "distinct (map fst al) \<Longrightarrow> map_of al k = Some c \<Longrightarrow>
   contents_total (AList.delete k al) = contents_total al - int (length c)"
proof (induction al)
  case Nil
  then show ?case by simp
next
  case (Cons p al)
  show ?case
  proof (cases "fst p = k")
    case True
    then have "map_of al k = None" using Cons.prems by (simp add: map_of_eq_None_iff)
    then show ?thesis using True Cons.prems by (cases p) (simp add: contents_total_def delete_absent)
  next
    case False
    then have "contents_total (AList.delete k al) = contents_total al - int (length c)"
      using Cons by (cases p) simp
    with False show ?thesis by (cases p) (simp add: contents_total_def)
  qed
qed

lemma contents_total_update:
  "distinct (map fst al) \<Longrightarrow>
   contents_total (AList.update k c al) = contents_total al + int (length c)
     - (case map_of al k of None \<Rightarrow> 0 | Some c' \<Rightarrow> int (length c'))"
  by (induction al) (auto simp: contents_total_def map_of_eq_None_iff split: option.splits)

lemma contents_total_nonneg: "0 \<le> contents_total al"
  by (induction al) (simp_all add: contents_total_def)

lemma is_key_hash [simp]: "length h = 32 \<Longrightarrow> is_key (bytes_to_hex h)"
  by (auto simp: is_key_def)

lemma cache_key_to_hash_ok:
  "length h = 32 \<Longrightarrow> TransactionService_tx_cache_key_to_hash (bytes_to_hex h) = Inr h"
  by (simp add: TransactionService_tx_cache_key_to_hash_def hex_round_trip Sha256Hash_init_ok)

lemma is_key_to_hash: "is_key k \<Longrightarrow> \<exists>h. TransactionService_tx_cache_key_to_hash k = Inr h"
  by (auto simp: is_key_def cache_key_to_hash_ok)

lemma get_transaction_key_hash:
  "length h = 32 \<Longrightarrow> TransactionService_get_transaction_key (Some h) None
     = Inr \<lparr>transaction_hash = h, transaction_cache_key = bytes_to_hex h\<rparr>"
  by (simp add: TransactionService_get_transaction_key_def wrap_sha256_def Sha256Hash_init_ok
      TransactionService_tx_hash_to_cache_key_def)

text \<open>The linking tables under the three kinds of change.\<close>

lemma links_keyD:
  "links_ok K S \<Longrightarrow> K k = Some sids \<Longrightarrow> sids \<noteq> [] \<and> distinct sids \<and> (\<forall>x \<in> set sids. S x = Some k)"
  by (simp add: links_ok_def)

lemma links_sidE:
  assumes "links_ok K S" and "S sid = Some k"
  obtains sids where "K k = Some sids" and "sid \<in> set sids"
  using assms unfolding links_ok_def by blast

lemma links_assign:
  assumes "links_ok K S" and "S sid = None \<or> S sid = Some k"
  shows "links_ok (K(k \<mapsto> set_add sid (case K k of None \<Rightarrow> [] | Some l \<Rightarrow> l))) (S(sid \<mapsto> k))"
proof -
  have other: "sid \<notin> set sids" if "K k' = Some sids" "k' \<noteq> k" for k' sids
    using assms that by (force simp: links_ok_def)
  show ?thesis
    using assms other by (fastforce simp: links_ok_def set_add_def split: option.splits)
qed

lemma links_drop_key:
  assumes "links_ok K S" and "K k = Some sids"
  shows "links_ok (K(k := None)) (\<lambda>x. if x \<in> set sids then None else S x)"
proof -
  have mine: "S x = Some k" if "x \<in> set sids" for x using assms that by (simp add: links_ok_def)
  have conv: "x \<in> set sids" if "S x = Some k" for x using assms that by (force simp: links_ok_def)
  show ?thesis
    unfolding links_ok_def
  proof (intro conjI allI impI)
    fix k' sids' assume k': "(K(k := None)) k' = Some sids'"
    then have K: "K k' = Some sids'" "k' \<noteq> k" by (auto split: if_splits)
    show "sids' \<noteq> []" "distinct sids'" using assms(1) K by (simp_all add: links_ok_def)
    show "\<forall>sid \<in> set sids'. (if sid \<in> set sids then None else S sid) = Some k'"
    proof
      fix sid assume "sid \<in> set sids'"
      then have "S sid = Some k'" using assms(1) K by (simp add: links_ok_def)
      then show "(if sid \<in> set sids then None else S sid) = Some k'" using mine K(2) by auto
    qed
  next
    fix sid k' assume "(if sid \<in> set sids then None else S sid) = Some k'"
    then have "S sid = Some k'" "k' \<noteq> k" using conv by (auto split: if_splits)
    then show "\<exists>sids'. (K(k := None)) k' = Some sids' \<and> sid \<in> set sids'"
      using assms(1) by (simp add: links_ok_def)
  qed
qed

lemma links_drop_sid:
  assumes "links_ok K S" and "K k = Some sids" and "sid \<in> set sids" and "length sids \<noteq> 1"
  shows "links_ok (K(k \<mapsto> remove1 sid sids)) (S(sid := None))"
proof -
  have d: "distinct sids" using assms(1,2) by (simp add: links_ok_def)
  have "0 < length sids" using assms(3) by (cases sids) auto
  then have "1 < length sids" using assms(4) by linarith
  then have "length (remove1 sid sids) \<noteq> 0" using assms(3) by (simp add: length_remove1)
  then have ne: "remove1 sid sids \<noteq> []" by auto
  have other: "sid \<notin> set sids'" if "K k' = Some sids'" "k' \<noteq> k" for k' sids'
  proof
    assume "sid \<in> set sids'"
    then have "S sid = Some k'" using assms(1) that(1) by (simp add: links_ok_def)
    moreover have "S sid = Some k" using assms(1-3) by (simp add: links_ok_def)
    ultimately show False using that(2) by simp
  qed
  show ?thesis
    unfolding links_ok_def
  proof (intro conjI allI impI)
    fix k' sids' assume k': "(K(k \<mapsto> remove1 sid sids)) k' = Some sids'"
    have "sids' \<noteq> [] \<and> distinct sids' \<and> (\<forall>x \<in> set sids'. (S(sid := None)) x = Some k')"
    proof (cases "k' = k")
      case True
      then have "sids' = remove1 sid sids" using k' by simp
      then show ?thesis using assms(1,2) d ne True by (simp add: links_ok_def)
    next
      case False
      then have "K k' = Some sids'" using k' by simp
      then show ?thesis using assms(1) other[of k' sids'] False by (auto simp: links_ok_def)
    qed
    then show "sids' \<noteq> []" "distinct sids'" "\<forall>x \<in> set sids'. (S(sid := None)) x = Some k'" by simp_all
  next
    fix x k' assume "(S(sid := None)) x = Some k'"
    then have x: "x \<noteq> sid" "S x = Some k'" by (auto split: if_splits)
    then obtain sids' where "K k' = Some sids'" "x \<in> set sids'" using assms(1) by (force simp: links_ok_def)
    then show "\<exists>sids'. (K(k \<mapsto> remove1 sid sids)) k' = Some sids' \<and> x \<in> set sids'"
      using x(1) assms(2) by (cases "k' = k") auto
  qed
qed


subsection \<open>Removals keep the invariant\<close>

lemma map_of_fold_delete: "map_of (fold AList.delete ks al) = (\<lambda>x. if x \<in> set ks then None else map_of al x)"
  by (induction ks arbitrary: al) (auto simp: fun_eq_iff)

lemma keys_fold_delete: "fst ` set (fold AList.delete ks al) = fst ` set al - set ks"
  by (induction ks arbitrary: al) (auto simp: keys_delete)

lemma distinct_fold_delete: "distinct (map fst al) \<Longrightarrow> distinct (map fst (fold AList.delete ks al))"
  by (induction ks arbitrary: al) auto

lemma set_fold_delete: "set (fold AList.delete ks al) \<subseteq> set al"
  by (auto simp: fold_delete_filter)

lemma set_delete_subset: "set (AList.delete k al) \<subseteq> set al"
  by (auto simp: AList.delete_eq)

lemma drop_contents_total:
  "distinct (map fst (tx_cache_key_to_contents s)) \<Longrightarrow>
   total_tx_contents_size s = contents_total (tx_cache_key_to_contents s) \<Longrightarrow>
   total_tx_contents_size (drop_contents now k s) = contents_total (AList.delete k (tx_cache_key_to_contents s))"
  by (auto simp: drop_contents_def contents_total_delete delete_absent split: option.split)

lemma any_flag_ok: "sids \<noteq> [] \<Longrightarrow> \<exists>f. any_flag s sids = Inr f"
  by (cases sids) (simp_all add: any_flag_def)

text \<open>
  What a removal leaves: everything that concerns other transactions. \<open>removed_only\<close> is the frame
  condition the callers of the removals rely on.
\<close>

definition removed_only :: "TransactionService \<Rightarrow> TransactionService \<Rightarrow> bool" where
  "removed_only s s' \<longleftrightarrow>
     set (queue (tx_assignment_expire_queue s')) \<subseteq> set (queue (tx_assignment_expire_queue s))
     \<and> tx_hashes_without_short_id s' = tx_hashes_without_short_id s
     \<and> tx_hashes_without_content s' = tx_hashes_without_content s
     \<and> tx_content_memory_limit s' = tx_content_memory_limit s
     \<and> short_ids_seen_in_block s' = short_ids_seen_in_block s
     \<and> (\<forall>k. contents_of s' k = contents_of s k \<or> contents_of s' k = None)
     \<and> (\<forall>x. key_of s' x = key_of s x \<or> key_of s' x = None)"

text \<open>Transactions that disappear, with all their short ids and their contents, while every other one stays.\<close>

definition loses :: "string set \<Rightarrow> TransactionService \<Rightarrow> TransactionService \<Rightarrow> bool" where
  "loses K s s' \<longleftrightarrow> (\<forall>x. key_of s' x = (case key_of s x of None \<Rightarrow> None | Some k \<Rightarrow> if k \<in> K then None else Some k))
     \<and> (\<forall>k. contents_of s' k = (if k \<in> K then None else contents_of s k))"

lemma loses_empty: "loses {} s s"
  by (simp add: loses_def split: option.split)

lemma loses_trans: "loses K1 s1 s2 \<Longrightarrow> loses K2 s2 s3 \<Longrightarrow> loses (K1 \<union> K2) s1 s3"
  by (auto simp: loses_def split: option.split)

lemma remove_key_rel:
  assumes rel: "ts_rel E1 E2 E3 s" and K: "sids_of s k = Some sids"
    and E: "E1 \<subseteq> set sids"
    and fields: "tx_cache_key_to_short_ids s' = AList.delete k (tx_cache_key_to_short_ids s)"
      "map_of (short_id_to_tx_cache_key s') = (\<lambda>x. if x \<in> set sids then None else key_of s x)"
      "distinct (map fst (short_id_to_tx_cache_key s'))"
      "tx_cache_key_to_contents s' = AList.delete k (tx_cache_key_to_contents s)"
      "total_tx_contents_size s' = contents_total (AList.delete k (tx_cache_key_to_contents s))"
      "set (queue (tx_assignment_expire_queue s')) \<subseteq> set (queue (tx_assignment_expire_queue s))"
      "watched (tx_assignment_expire_queue s') = watched (tx_assignment_expire_queue s) - set sids"
      "distinct (map fst (queue (tx_assignment_expire_queue s')))"
      "tx_hashes_without_short_id s' = tx_hashes_without_short_id s"
      "tx_hashes_without_content s' = tx_hashes_without_content s"
      "tx_assign_alarm_scheduled s' = tx_assign_alarm_scheduled s"
      "tx_content_without_sid_alarm_scheduled s' = tx_content_without_sid_alarm_scheduled s"
      "tx_without_content_alarm_scheduled s' = tx_without_content_alarm_scheduled s"
  shows "ts_rel {} E2 E3 s'"
proof -
  have t: "tables_ok s" "links_ok (sids_of s) (key_of s)"
    "watched (tx_assignment_expire_queue s) \<union> E1 = dom (key_of s) \<union> E1" "alarms_ok s"
    "watch_ok E2 E3 (sids_of s) (contents_of s) (watched (tx_hashes_without_short_id s)) (watched (tx_hashes_without_content s))"
    using rel by (simp_all add: ts_rel_def)
  have "\<forall>k \<in> dom (sids_of s') \<union> dom (contents_of s'). is_key k"
    using t(1) unfolding fields(1,4) by (auto simp: tables_ok_def)
  then have "tables_ok s'" using t(1) fields by (simp add: tables_ok_def eq_wf_def)
  moreover have "links_ok (sids_of s') (key_of s')"
    using links_drop_key[OF t(2) K] fields(1,2) by simp
  moreover have "watched (tx_assignment_expire_queue s') = dom (key_of s')"
  proof -
    have "watched (tx_assignment_expire_queue s) - set sids = dom (key_of s) - set sids" using t(3) E by blast
    moreover have "dom (key_of s') = dom (key_of s) - set sids" unfolding fields(2) by (auto split: if_splits)
    ultimately show ?thesis using fields(7) by simp
  qed
  moreover have "watch_ok E2 E3 (sids_of s') (contents_of s') (watched (tx_hashes_without_short_id s')) (watched (tx_hashes_without_content s'))"
    using t(5) fields(1,4,9,10) unfolding watch_ok_def by auto
  moreover have "alarms_ok s'" using t(4) fields by (auto simp: alarms_ok_def)
  ultimately show ?thesis by (simp add: ts_rel_def)
qed

lemma remove_by_sid_ok:
  assumes rel: "ts_rel {sid} E2 E3 s"
  shows "\<exists>s'. TransactionService_remove_transaction_by_short_id now r True sid s = Inr s'
    \<and> ts_rel {} E2 E3 s' \<and> removed_only s s' \<and> key_of s' sid = None \<and> (r \<longrightarrow> loses (set_option (key_of s sid)) s s')"
proof -
  have t: "tables_ok s" "links_ok (sids_of s) (key_of s)"
    "watched (tx_assignment_expire_queue s) \<union> {sid} = dom (key_of s) \<union> {sid}" "alarms_ok s"
    "watch_ok E2 E3 (sids_of s) (contents_of s) (watched (tx_hashes_without_short_id s)) (watched (tx_hashes_without_content s))"
    using rel by (simp_all add: ts_rel_def)
  show ?thesis
  proof (cases "key_of s sid")
    case None
    let ?s' = "s\<lparr>tx_assignment_expire_queue := ExpirationQueue_remove sid (tx_assignment_expire_queue s)\<rparr>"
    have "sid \<notin> dom (key_of s)" using None by auto
    then have "watched (tx_assignment_expire_queue s) - {sid} = dom (key_of s)" using t(3) by blast
    then have "ts_rel {} E2 E3 ?s'"
      using t by (auto simp: ts_rel_def tables_ok_def alarms_ok_def keys_delete)
    moreover have "removed_only s ?s'" using set_delete_subset by (simp add: removed_only_def)
    ultimately show ?thesis
      using None loses_empty[of s] by (simp add: TransactionService_remove_transaction_by_short_id_def loses_def)
  next
    case (Some k)
    obtain sids where K: "sids_of s k = Some sids" "sid \<in> set sids" by (rule links_sidE[OF t(2) Some])
    have sids: "sids \<noteq> []" "distinct sids" using links_keyD[OF t(2) K(1)] by simp_all
    obtain f where f: "any_flag s sids = Inr f" using any_flag_ok[OF sids(1)] by blast
    have "is_key k" using t(1) K(1) by (auto simp: tables_ok_def)
    then obtain h where h: "TransactionService_tx_cache_key_to_hash k = Inr h" using is_key_to_hash by blast
    let ?s2 = "(note_removed sid s)\<lparr>short_id_to_tx_cache_key := AList.delete sid (short_id_to_tx_cache_key s),
        short_id_to_time_removed := AList.update sid now (short_id_to_time_removed s)\<rparr>"
    let ?others = "filter (\<lambda>d. d \<noteq> sid) sids"
    show ?thesis
    proof (cases "length sids = 1 \<or> r")
      case True
      let ?s3 = "drop_contents now k (fold (forget_duplicate now) ?others ?s2)"
      let ?s' = "?s3\<lparr>tx_cache_key_to_short_ids := AList.delete k (tx_cache_key_to_short_ids ?s3),
          tx_assignment_expire_queue := ExpirationQueue_remove sid (tx_assignment_expire_queue ?s3)\<rparr>"
      have run: "TransactionService_remove_transaction_by_short_id now r True sid s = Inr ?s'"
        using Some K f h True by (simp add: TransactionService_remove_transaction_by_short_id_def Let_def)
      have S': "key_of ?s' = (\<lambda>x. if x \<in> set sids then None else key_of s x)"
        using K(2) by (auto simp: map_of_fold_delete fun_eq_iff)
      have Q': "watched (tx_assignment_expire_queue ?s') = watched (tx_assignment_expire_queue s) - set sids"
        using K(2) by (auto simp: keys_delete keys_fold_delete)
      have Qs: "set (queue (tx_assignment_expire_queue ?s')) \<subseteq> set (queue (tx_assignment_expire_queue s))"
        using subset_trans[OF set_delete_subset set_fold_delete] by simp
      have d: "distinct (map fst (short_id_to_tx_cache_key s))" "distinct (map fst (queue (tx_assignment_expire_queue s)))"
        using t(1) by (simp_all add: tables_ok_def eq_wf_def)
      have "ts_rel {} E2 E3 ?s'"
      proof (rule remove_key_rel[OF rel K(1)])
        show "{sid} \<subseteq> set sids" using K(2) by simp
        show "key_of ?s' = (\<lambda>x. if x \<in> set sids then None else key_of s x)" by (rule S')
        show "watched (tx_assignment_expire_queue ?s') = watched (tx_assignment_expire_queue s) - set sids" by (rule Q')
        show "set (queue (tx_assignment_expire_queue ?s')) \<subseteq> set (queue (tx_assignment_expire_queue s))" by (rule Qs)
        show "total_tx_contents_size ?s' = contents_total (AList.delete k (tx_cache_key_to_contents s))"
          using t(1) drop_contents_total[of "fold (forget_duplicate now) ?others ?s2" now k] by (simp add: tables_ok_def)
      qed (use d in \<open>simp_all add: distinct_fold_delete\<close>)
      moreover have "removed_only s ?s'"
        using Qs S' by (auto simp: removed_only_def simp del: fold_forget_duplicate(2))
      moreover have "key_of ?s' sid = None" unfolding S' using K(2) by simp
      moreover have "loses (set_option (key_of s sid)) s ?s'"
      proof -
        have "x \<in> set sids \<longleftrightarrow> key_of s x = Some k" for x
          using links_keyD[OF t(2) K(1)] links_sidE[OF t(2), of x k] K(1) by auto
        then show ?thesis unfolding loses_def S' using Some by (auto split: option.split)
      qed
      ultimately show ?thesis using run by (intro exI[of _ ?s'] conjI impI)
    next
      case False
      let ?s' = "?s2\<lparr>tx_cache_key_to_short_ids := AList.update k (remove1 sid sids) (tx_cache_key_to_short_ids s),
          tx_assignment_expire_queue := ExpirationQueue_remove sid (tx_assignment_expire_queue s)\<rparr>"
      have run: "TransactionService_remove_transaction_by_short_id now r True sid s = Inr ?s'"
        using Some K f h False by (simp add: TransactionService_remove_transaction_by_short_id_def Let_def)
      have "watched (tx_assignment_expire_queue s) - {sid} = dom (key_of s) - {sid}" using t(3) by blast
      then have "watched (tx_assignment_expire_queue ?s') = dom (key_of ?s')"
        by (simp add: keys_delete)
      moreover have "links_ok (sids_of ?s') (key_of ?s')"
        using links_drop_sid[OF t(2) K(1,2)] False by simp
      moreover have "tables_ok ?s'" using t(1) K(1) by (auto simp: tables_ok_def)
      moreover have "alarms_ok ?s'" using t(4) by (auto simp: alarms_ok_def)
      moreover have "watch_ok E2 E3 (sids_of ?s') (contents_of ?s') (watched (tx_hashes_without_short_id ?s')) (watched (tx_hashes_without_content ?s'))"
        using t(5) K(1) unfolding watch_ok_def by auto
      ultimately have "ts_rel {} E2 E3 ?s'" by (simp add: ts_rel_def)
      moreover have "removed_only s ?s'" using set_delete_subset by (simp add: removed_only_def)
      ultimately show ?thesis using run False by auto
    qed
  qed
qed

lemma watch_ok_shrink:
  "watch_ok E2 E3 K C A B \<Longrightarrow> C (bytes_to_hex h) = None \<or> K (bytes_to_hex h) \<noteq> None \<Longrightarrow> watch_ok (E2 - {h}) E3 K C A B"
  "watch_ok E2 E3 K C A B \<Longrightarrow> C (bytes_to_hex h) \<noteq> None \<or> K (bytes_to_hex h) = None \<Longrightarrow> watch_ok E2 (E3 - {h}) K C A B"
  by (auto simp: watch_ok_def)

lemma ts_rel_shrink2:
  "ts_rel E1 E2 E3 s \<Longrightarrow> contents_of s (bytes_to_hex h) = None \<or> sids_of s (bytes_to_hex h) \<noteq> None \<Longrightarrow>
   ts_rel E1 (E2 - {h}) E3 s"
  by (simp add: ts_rel_def watch_ok_shrink)

lemma ts_rel_shrink3:
  "ts_rel E1 E2 E3 s \<Longrightarrow> contents_of s (bytes_to_hex h) \<noteq> None \<or> sids_of s (bytes_to_hex h) = None \<Longrightarrow>
   ts_rel E1 E2 (E3 - {h}) s"
  by (simp add: ts_rel_def watch_ok_shrink)

text \<open>A transaction key as \<open>get_transaction_key\<close> makes it.\<close>

definition key_ok :: "TransactionKey \<Rightarrow> bool" where
  "key_ok key \<longleftrightarrow> length (transaction_hash key) = 32 \<and> transaction_cache_key key = bytes_to_hex (transaction_hash key)"

lemma removed_only_refl: "removed_only s s"
  by (simp add: removed_only_def)

lemma removed_only_trans:
  assumes "removed_only s1 s2" and "removed_only s2 s3"
  shows "removed_only s1 s3"
proof -
  have "contents_of s3 k = contents_of s1 k \<or> contents_of s3 k = None" for k
    using assms unfolding removed_only_def by metis
  moreover have "key_of s3 x = key_of s1 x \<or> key_of s3 x = None" for x
    using assms unfolding removed_only_def by metis
  ultimately show ?thesis using assms unfolding removed_only_def by auto
qed

lemma drop_contents_rel:
  assumes rel: "ts_rel {} E2 E3 s" and K: "sids_of s k = None"
  shows "ts_rel {} E2 E3 (drop_contents now k s)"
proof -
  have t: "tables_ok s" "links_ok (sids_of s) (key_of s)"
    "watched (tx_assignment_expire_queue s) = dom (key_of s)" "alarms_ok s"
    "watch_ok E2 E3 (sids_of s) (contents_of s) (watched (tx_hashes_without_short_id s)) (watched (tx_hashes_without_content s))"
    using rel by (simp_all add: ts_rel_def)
  have "tables_ok (drop_contents now k s)"
    using t(1) drop_contents_total[of s now k] by (auto simp: tables_ok_def)
  moreover have "watch_ok E2 E3 (sids_of s) ((contents_of s)(k := None)) (watched (tx_hashes_without_short_id s)) (watched (tx_hashes_without_content s))"
    using t(5) K unfolding watch_ok_def by auto
  ultimately show ?thesis using t(2-4) by (simp add: ts_rel_def alarms_ok_def)
qed

lemma drop_contents_removed_only: "removed_only s (drop_contents now k s)"
  by (auto simp: removed_only_def)

lemma remove_by_key_ok:
  assumes rel: "ts_rel {} E2 E3 s" and key: "key_ok key"
  shows "\<exists>r s'. TransactionService_remove_transaction_by_key now key force assume_no_sid s = Inr (r, s')
    \<and> ts_rel {} (E2 - {transaction_hash key}) E3 s' \<and> removed_only s s'"
proof -
  let ?k = "transaction_cache_key key"
  have k: "?k = bytes_to_hex (transaction_hash key)" using key by (simp add: key_ok_def)
  have t: "tables_ok s" "links_ok (sids_of s) (key_of s)" using rel by (simp_all add: ts_rel_def)
  show ?thesis
  proof (cases "sids_of s ?k")
    case None
    have "ts_rel {} (E2 - {transaction_hash key}) E3 (drop_contents now ?k s)"
      using drop_contents_rel[OF rel None, of now] by (rule ts_rel_shrink2) (simp add: k)
    then show ?thesis
      using None drop_contents_removed_only[of s now ?k] by (simp add: TransactionService_remove_transaction_by_key_def)
  next
    case (Some sids)
    have keep: "ts_rel {} (E2 - {transaction_hash key}) E3 s"
      using rel by (rule ts_rel_shrink2) (use Some k in simp)
    have sids: "sids \<noteq> []" using links_keyD[OF t(2) Some] by simp
    then obtain f where f: "any_flag s sids = Inr f" using any_flag_ok by blast
    let ?s1 = "s\<lparr>tx_cache_key_to_short_ids := AList.delete ?k (tx_cache_key_to_short_ids s)\<rparr>"
    let ?s' = "drop_contents now ?k (fold (forget_sid_of_key now) sids ?s1)"
    have d: "distinct (map fst (short_id_to_tx_cache_key s))" "distinct (map fst (queue (tx_assignment_expire_queue s)))"
      "distinct (map fst (tx_cache_key_to_contents s))" "total_tx_contents_size s = contents_total (tx_cache_key_to_contents s)"
      using t(1) by (simp_all add: tables_ok_def eq_wf_def)
    have S': "key_of ?s' = (\<lambda>x. if x \<in> set sids then None else key_of s x)" by (simp add: map_of_fold_delete)
    have Qs: "set (queue (tx_assignment_expire_queue ?s')) \<subseteq> set (queue (tx_assignment_expire_queue s))"
      using set_fold_delete by simp
    have "ts_rel {} E2 E3 ?s'"
    proof (rule remove_key_rel[OF rel Some])
      show "total_tx_contents_size ?s' = contents_total (AList.delete ?k (tx_cache_key_to_contents s))"
        using d drop_contents_total[of "fold (forget_sid_of_key now) sids ?s1" now ?k] by simp
      show "watched (tx_assignment_expire_queue ?s') = watched (tx_assignment_expire_queue s) - set sids"
        by (simp add: keys_fold_delete)
    qed (use d S' Qs in \<open>simp_all add: distinct_fold_delete\<close>)
    then have gone: "ts_rel {} (E2 - {transaction_hash key}) E3 ?s'"
      by (rule ts_rel_shrink2) (simp add: k)
    have "removed_only s ?s'"
      using Qs S' by (auto simp: removed_only_def simp del: fold_forget_sid_of_key(2))
    with gone keep f Some show ?thesis
      by (auto simp: TransactionService_remove_transaction_by_key_def removed_only_refl Let_def)
  qed
qed

text \<open>The loop of \<open>remove_sid_by_key\<close> over short ids that are assigned.\<close>

lemma remove_sid_loop:
  "distinct sids \<Longrightarrow> \<forall>x \<in> set sids. key_of s x \<noteq> None \<Longrightarrow>
   rfold (\<lambda>s sid.
      if map_of (short_id_to_tx_cache_key s) sid = None then Inl KeyError
      else Inr (s\<lparr>short_id_to_tx_cache_key := AList.delete sid (short_id_to_tx_cache_key s),
                  tx_assignment_expire_queue := ExpirationQueue_remove sid (tx_assignment_expire_queue s)\<rparr>)) s sids
   = Inr (s\<lparr>short_id_to_tx_cache_key := fold AList.delete sids (short_id_to_tx_cache_key s),
            tx_assignment_expire_queue := fold ExpirationQueue_remove sids (tx_assignment_expire_queue s)\<rparr>)"
proof (induction sids arbitrary: s)
  case Nil
  then show ?case by simp
next
  case (Cons x sids)
  let ?s1 = "s\<lparr>short_id_to_tx_cache_key := AList.delete x (short_id_to_tx_cache_key s),
               tx_assignment_expire_queue := ExpirationQueue_remove x (tx_assignment_expire_queue s)\<rparr>"
  have "\<forall>y \<in> set sids. key_of ?s1 y \<noteq> None" using Cons.prems by auto
  then show ?case using Cons.IH[of ?s1] Cons.prems by simp
qed

lemma queue_fold_remove: "queue (fold ExpirationQueue_remove xs q) = fold AList.delete xs (queue q)"
  by (induction xs arbitrary: q) (simp_all add: ExpirationQueue_remove_def)

lemma remove_sid_by_key_ok:
  assumes rel: "ts_rel {} E2 E3 s" and key: "key_ok key"
  shows "\<exists>s'. TransactionService_remove_sid_by_key key s = Inr s'
    \<and> ts_rel {} E2 (E3 - {transaction_hash key}) s' \<and> removed_only s s'"
proof -
  let ?k = "transaction_cache_key key"
  have k: "?k = bytes_to_hex (transaction_hash key)" using key by (simp add: key_ok_def)
  have t: "tables_ok s" "links_ok (sids_of s) (key_of s)" using rel by (simp_all add: ts_rel_def)
  consider (stay) "contents_of s ?k \<noteq> None \<or> sids_of s ?k = None"
    | (go) sids where "contents_of s ?k = None" "sids_of s ?k = Some sids" by blast
  then show ?thesis
  proof cases
    case stay
    have "ts_rel {} E2 (E3 - {transaction_hash key}) s" using rel by (rule ts_rel_shrink3) (use stay k in simp)
    then show ?thesis
      using stay removed_only_refl by (auto simp: TransactionService_remove_sid_by_key_def Let_def)
  next
    case (go sids)
    let ?s' = "s\<lparr>tx_cache_key_to_short_ids := AList.delete ?k (tx_cache_key_to_short_ids s),
        short_id_to_tx_cache_key := fold AList.delete sids (short_id_to_tx_cache_key s),
        tx_assignment_expire_queue := fold ExpirationQueue_remove sids (tx_assignment_expire_queue s)\<rparr>"
    have sids: "distinct sids" "\<forall>x \<in> set sids. key_of s x \<noteq> None" using links_keyD[OF t(2) go(2)] by auto
    have run: "TransactionService_remove_sid_by_key key s = Inr ?s'"
      using go remove_sid_loop[of sids "s\<lparr>tx_cache_key_to_short_ids := AList.delete ?k (tx_cache_key_to_short_ids s)\<rparr>"] sids
      by (simp add: TransactionService_remove_sid_by_key_def)
    have d: "distinct (map fst (short_id_to_tx_cache_key s))" "distinct (map fst (queue (tx_assignment_expire_queue s)))"
      "total_tx_contents_size s = contents_total (tx_cache_key_to_contents s)"
      using t(1) by (simp_all add: tables_ok_def eq_wf_def)
    have Qs: "set (queue (tx_assignment_expire_queue ?s')) \<subseteq> set (queue (tx_assignment_expire_queue s))"
      using set_fold_delete by (simp add: queue_fold_remove)
    have S': "key_of ?s' = (\<lambda>x. if x \<in> set sids then None else key_of s x)" by (simp add: map_of_fold_delete)
    have "ts_rel {} E2 E3 ?s'"
      by (rule remove_key_rel[OF rel go(2)])
        (use d go(1) Qs in \<open>simp_all add: queue_fold_remove map_of_fold_delete keys_fold_delete delete_absent distinct_fold_delete\<close>)
    then have "ts_rel {} E2 (E3 - {transaction_hash key}) ?s'"
      by (rule ts_rel_shrink3) (simp add: k)
    moreover have "removed_only s ?s'" using Qs S' by (auto simp: removed_only_def)
    ultimately show ?thesis using run by blast
  qed
qed

subsection \<open>Insertions keep the invariant\<close>

lemma assign_tables:
  assumes "sid \<noteq> NULL_TX_SID"
  shows "tx_cache_key_to_short_ids (TransactionService_assign_short_id_by_key now key sid s) =
        AList.update (transaction_cache_key key)
          (set_add sid (case sids_of s (transaction_cache_key key) of None \<Rightarrow> [] | Some l \<Rightarrow> l)) (tx_cache_key_to_short_ids s)"
    "short_id_to_tx_cache_key (TransactionService_assign_short_id_by_key now key sid s)
      = AList.update sid (transaction_cache_key key) (short_id_to_tx_cache_key s)"
    "tx_cache_key_to_contents (TransactionService_assign_short_id_by_key now key sid s) = tx_cache_key_to_contents s"
  using assms by (simp_all add: TransactionService_assign_short_id_by_key_def TransactionService_assign_short_id_base_by_key_def
    Let_def request_alarm_def)

lemma assign_ok:
  assumes rel: "ts_rel {} E2 E3 s" and key: "key_ok key"
    and free: "key_of s sid = None \<or> key_of s sid = Some (transaction_cache_key key)"
  shows "ts_rel {} E2 E3 (TransactionService_assign_short_id_by_key now key sid s)"
proof (cases "sid = NULL_TX_SID")
  case True
  then show ?thesis
    using rel by (simp add: TransactionService_assign_short_id_by_key_def TransactionService_assign_short_id_base_by_key_def)
next
  case False
  let ?s' = "TransactionService_assign_short_id_by_key now key sid s"
  let ?k = "transaction_cache_key key" and ?h = "transaction_hash key"
  have k: "?k = bytes_to_hex ?h" "length ?h = 32" using key by (simp_all add: key_ok_def)
  note assign_defs = TransactionService_assign_short_id_by_key_def TransactionService_assign_short_id_base_by_key_def
    Let_def request_alarm_def
  have t: "tables_ok s" "links_ok (sids_of s) (key_of s)"
    "watched (tx_assignment_expire_queue s) = dom (key_of s)" "alarms_ok s"
    "watch_ok E2 E3 (sids_of s) (contents_of s) (watched (tx_hashes_without_short_id s)) (watched (tx_hashes_without_content s))"
    using rel by (simp_all add: ts_rel_def)
  have f: "tx_cache_key_to_short_ids ?s' =
        AList.update ?k (set_add sid (case sids_of s ?k of None \<Rightarrow> [] | Some l \<Rightarrow> l)) (tx_cache_key_to_short_ids s)"
      "short_id_to_tx_cache_key ?s' = AList.update sid ?k (short_id_to_tx_cache_key s)"
      "tx_cache_key_to_contents ?s' = tx_cache_key_to_contents s"
      "total_tx_contents_size ?s' = total_tx_contents_size s"
      "tx_assignment_expire_queue ?s' = ExpirationQueue_add now sid (tx_assignment_expire_queue s)"
      "tx_hashes_without_short_id ?s' = ExpirationQueue_remove ?h (tx_hashes_without_short_id s)"
      "tx_hashes_without_content ?s' = (if contents_of s ?k \<noteq> None then tx_hashes_without_content s
         else ExpirationQueue_add now ?h (tx_hashes_without_content s))"
      "tx_assign_alarm_scheduled ?s'"
      "tx_content_without_sid_alarm_scheduled ?s' = tx_content_without_sid_alarm_scheduled s"
      "tx_without_content_alarm_scheduled ?s' = (tx_without_content_alarm_scheduled s \<or> contents_of s ?k = None)"
    using False by (simp_all add: assign_defs)
  have "\<forall>h \<in> watched (tx_hashes_without_short_id ?s') \<union> watched (tx_hashes_without_content ?s'). length h = 32"
    using t(1) k(2) unfolding f by (auto simp: tables_ok_def keys_update keys_delete)
  moreover have "\<forall>x \<in> dom (sids_of ?s') \<union> dom (contents_of ?s'). is_key x"
    using t(1) k unfolding f by (auto simp: tables_ok_def)
  moreover have "eq_wf (tx_hashes_without_content ?s')" using t(1) by (simp add: f tables_ok_def)
  ultimately have "tables_ok ?s'"
    using t(1) by (simp add: tables_ok_def f(1-6))
  moreover have "links_ok (sids_of ?s') (key_of ?s')"
    using links_assign[OF t(2) free] by (simp add: f)
  moreover have "watched (tx_assignment_expire_queue ?s') = dom (key_of ?s')"
    using t(3) by (simp add: f keys_update)
  moreover have "watch_ok E2 E3 (sids_of ?s') (contents_of ?s') (watched (tx_hashes_without_short_id ?s'))
      (watched (tx_hashes_without_content ?s'))"
    using t(5) k(1) unfolding f watch_ok_def by (auto simp: keys_update keys_delete bytes_to_hex_inj)
  moreover have "alarms_ok ?s'"
    using t(4) f(8) unfolding alarms_ok_def f(5,6,7,9,10) by (auto simp: ExpirationQueue_remove_def)
  ultimately show ?thesis by (simp add: ts_rel_def)
qed

text \<open>Popping the oldest assignment and removing its transaction.\<close>

lemma pop_assignment_rel:
  assumes "ts_inv s" and "queue (tx_assignment_expire_queue s) = (x, t) # rest"
  shows "ts_rel {x} {} {} (s\<lparr>tx_assignment_expire_queue := (tx_assignment_expire_queue s)\<lparr>queue := rest\<rparr>\<rparr>)"
proof -
  have "watched (tx_assignment_expire_queue s) = insert x (fst ` set rest)" using assms(2) by simp
  then have "fst ` set rest \<union> {x} = dom (key_of s) \<union> {x}"
    using assms(1) unfolding ts_inv_def ts_rel_def by blast
  then show ?thesis
    using assms by (simp add: ts_inv_def ts_rel_def tables_ok_def alarms_ok_def eq_wf_def)
qed

lemma remove_oldest_assignment_ok:
  assumes s: "ts_inv s"
  shows "\<exists>s'. remove_oldest_assignment now s = Inr s' \<and> ts_inv s' \<and> removed_only s s'"
proof (cases "queue (tx_assignment_expire_queue s)")
  case Nil
  then show ?thesis
    using s by (simp add: remove_oldest_assignment_def ExpirationQueue_remove_oldest_def removed_only_refl)
next
  case (Cons p rest)
  obtain x t where p: "p = (x, t)" by (cases p)
  let ?s1 = "s\<lparr>tx_assignment_expire_queue := (tx_assignment_expire_queue s)\<lparr>queue := rest\<rparr>\<rparr>"
  obtain s' where s': "TransactionService_remove_transaction_by_short_id now False True x ?s1 = Inr s'"
      "ts_rel {} {} {} s'" "removed_only ?s1 s'"
    using remove_by_sid_ok[OF pop_assignment_rel[OF s Cons[unfolded p]], of now False] by blast
  have "removed_only s ?s1" using Cons by (auto simp: removed_only_def)
  then have "removed_only s s'" using s'(3) by (rule removed_only_trans)
  then show ?thesis
    using s' Cons p by (simp add: remove_oldest_assignment_def ExpirationQueue_remove_oldest_def ts_inv_def)
qed

text \<open>The loop of the memory limit always returns, and stops below the limit or with nothing assigned.\<close>

lemma memory_limit_loop_ok:
  "ts_inv s \<Longrightarrow> \<exists>s' m. memory_limit_loop now s n = Inr (s', m) \<and> ts_inv s' \<and> removed_only s s'
     \<and> (TransactionService_is_exceeding_memory_limit s' \<longrightarrow> queue (tx_assignment_expire_queue s') = [])"
proof (induction now s n rule: memory_limit_loop.induct)
  case (1 now s n)
  show ?case
  proof (cases "TransactionService_is_exceeding_memory_limit s \<and> ExpirationQueue_bool (tx_assignment_expire_queue s)")
    case True
    obtain s1 where s1: "remove_oldest_assignment now s = Inr s1" "ts_inv s1" "removed_only s s1"
      using remove_oldest_assignment_ok[OF "1.prems"] by blast
    have "memory_limit_loop now s n = memory_limit_loop now s1 (n + 1)"
      using True s1(1) by (subst memory_limit_loop.simps) simp
    then show ?thesis
      using "1.IH"[OF True s1(1,2)] s1(3) removed_only_trans by auto
  next
    case False
    then have "memory_limit_loop now s n = Inr (s, n)" by (subst memory_limit_loop.simps) (simp only: if_False)
    then show ?thesis
      using False "1.prems" by (auto simp: removed_only_refl ExpirationQueue_bool_def ExpirationQueue_len_def)
  qed
qed

lemma clear_inv: "ts_inv s \<Longrightarrow> ts_inv (TransactionService_clear s)"
  by (simp add: ts_inv_def ts_rel_def TransactionService_clear_def tables_ok_def links_ok_def watch_ok_def
      alarms_ok_def ExpirationQueue_clear_def eq_wf_def contents_total_def)

lemma memory_limit_clean_up_ok:
  assumes s: "ts_inv s"
  shows "\<exists>s'. TransactionService_memory_limit_clean_up now s = Inr s' \<and> ts_inv s'
     \<and> tx_content_memory_limit s' = tx_content_memory_limit s
     \<and> (\<forall>x. key_of s' x = key_of s x \<or> key_of s' x = None)
     \<and> (0 \<le> tx_content_memory_limit s \<longrightarrow> total_tx_contents_size s' \<le> tx_content_memory_limit s')
     \<and> (total_tx_contents_size s \<le> tx_content_memory_limit s \<longrightarrow> s' = s)"
proof (cases "total_tx_contents_size s \<le> tx_content_memory_limit s")
  case True
  then show ?thesis using s by (simp add: TransactionService_memory_limit_clean_up_def)
next
  case False
  obtain s1 m where s1: "memory_limit_loop now s 0 = Inr (s1, m)" "ts_inv s1" "removed_only s s1"
      "TransactionService_is_exceeding_memory_limit s1 \<longrightarrow> queue (tx_assignment_expire_queue s1) = []"
    using memory_limit_loop_ok[OF s] by blast
  let ?s2 = "if TransactionService_is_exceeding_memory_limit s1 then TransactionService_clear s1 else s1"
  let ?m2 = "if TransactionService_is_exceeding_memory_limit s1 then m + int (length (tx_cache_key_to_contents s1)) else m"
  let ?s' = "?s2\<lparr>total_tx_removed_by_memory_limit := total_tx_removed_by_memory_limit ?s2 + ?m2\<rparr>"
  have inv_field: "ts_inv (s3\<lparr>total_tx_removed_by_memory_limit := v\<rparr>) = ts_inv s3" for s3 v
    by (simp add: ts_inv_def ts_rel_def tables_ok_def alarms_ok_def)
  have "TransactionService_memory_limit_clean_up now s = Inr ?s'"
    using False s1 by (simp add: TransactionService_memory_limit_clean_up_def ExpirationQueue_bool_def ExpirationQueue_len_def)
  moreover have "ts_inv ?s'" using s1(2) by (simp add: inv_field clear_inv)
  moreover have "tx_content_memory_limit ?s' = tx_content_memory_limit s"
    using s1(3) by (simp add: TransactionService_clear_def removed_only_def)
  moreover have "\<forall>x. key_of ?s' x = key_of s x \<or> key_of ?s' x = None"
    using s1(3) by (simp add: TransactionService_clear_def removed_only_def)
  moreover have "0 \<le> tx_content_memory_limit s \<longrightarrow> total_tx_contents_size ?s' \<le> tx_content_memory_limit ?s'"
    using s1(3) by (auto simp: TransactionService_clear_def TransactionService_is_exceeding_memory_limit_def removed_only_def)
  ultimately show ?thesis using False by (intro exI[of _ ?s'] conjI) simp_all
qed

text \<open>Storing contents: the state the memory limit is applied to.\<close>

definition contents_stored :: "time \<Rightarrow> TransactionKey \<Rightarrow> bytes \<Rightarrow> TransactionService \<Rightarrow> TransactionService \<Rightarrow> bool" where
  "contents_stored now key c s s' \<longleftrightarrow>
     tx_cache_key_to_contents s' = AList.update (transaction_cache_key key) c (tx_cache_key_to_contents s)
     \<and> total_tx_contents_size s' = total_tx_contents_size s + int (length c)
         - (case contents_of s (transaction_cache_key key) of None \<Rightarrow> 0 | Some c' \<Rightarrow> int (length c'))
     \<and> tx_cache_key_to_short_ids s' = tx_cache_key_to_short_ids s
     \<and> short_id_to_tx_cache_key s' = short_id_to_tx_cache_key s
     \<and> tx_assignment_expire_queue s' = tx_assignment_expire_queue s
     \<and> tx_hashes_without_content s' = ExpirationQueue_remove (transaction_hash key) (tx_hashes_without_content s)
     \<and> tx_hashes_without_short_id s' =
         (if sids_of s (transaction_cache_key key) \<noteq> None then tx_hashes_without_short_id s
          else ExpirationQueue_add now (transaction_hash key) (tx_hashes_without_short_id s))
     \<and> tx_content_memory_limit s' = tx_content_memory_limit s
     \<and> tx_assign_alarm_scheduled s' = tx_assign_alarm_scheduled s
     \<and> tx_without_content_alarm_scheduled s' = tx_without_content_alarm_scheduled s
     \<and> tx_content_without_sid_alarm_scheduled s' =
         (tx_content_without_sid_alarm_scheduled s \<or> sids_of s (transaction_cache_key key) = None)"

lemma set_contents_run:
  "\<exists>s'. contents_stored now key c s s'
     \<and> TransactionService_set_transaction_contents_by_key now key c s = TransactionService_memory_limit_clean_up now s'"
  unfolding TransactionService_set_transaction_contents_by_key_def
    TransactionService_set_transaction_contents_base_by_key_def Let_def
  by (rule exI, rule conjI[rotated], rule refl) (simp add: contents_stored_def request_alarm_def split: option.split)

lemma contents_stored_inv:
  assumes inv: "ts_inv s" and key: "key_ok key" and st: "contents_stored now key c s s'"
  shows "ts_inv s'"
proof -
  let ?k = "transaction_cache_key key" and ?h = "transaction_hash key"
  have k: "?k = bytes_to_hex ?h" "length ?h = 32" using key by (simp_all add: key_ok_def)
  have f: "tx_hashes_without_content s' = ExpirationQueue_remove ?h (tx_hashes_without_content s)"
    "tx_hashes_without_short_id s' = (if sids_of s ?k \<noteq> None then tx_hashes_without_short_id s
        else ExpirationQueue_add now ?h (tx_hashes_without_short_id s))"
    "sids_of s' = sids_of s" "contents_of s' = (contents_of s)(?k \<mapsto> c)"
    "tx_assignment_expire_queue s' = tx_assignment_expire_queue s"
    "tx_content_without_sid_alarm_scheduled s' = (tx_content_without_sid_alarm_scheduled s \<or> sids_of s ?k = None)"
    "tx_assign_alarm_scheduled s' = tx_assign_alarm_scheduled s"
    "tx_without_content_alarm_scheduled s' = tx_without_content_alarm_scheduled s"
    using st by (simp_all add: contents_stored_def)
  have t: "tables_ok s" "links_ok (sids_of s) (key_of s)"
    "watched (tx_assignment_expire_queue s) = dom (key_of s)" "alarms_ok s"
    "watch_ok {} {} (sids_of s) (contents_of s) (watched (tx_hashes_without_short_id s)) (watched (tx_hashes_without_content s))"
    using inv by (simp_all add: ts_inv_def ts_rel_def)
  have "\<forall>h \<in> watched (tx_hashes_without_short_id s') \<union> watched (tx_hashes_without_content s'). length h = 32"
    using t(1) k(2) unfolding f(1,2) by (auto simp: tables_ok_def keys_update keys_delete)
  moreover have "\<forall>x \<in> dom (sids_of s') \<union> dom (contents_of s'). is_key x"
    using t(1) k unfolding f(3,4) by (auto simp: tables_ok_def)
  moreover have "eq_wf (tx_hashes_without_short_id s')" using t(1) unfolding f(2) by (simp add: tables_ok_def)
  moreover have "total_tx_contents_size s' = contents_total (tx_cache_key_to_contents s')"
    using t(1) st by (simp add: tables_ok_def contents_total_update contents_stored_def)
  ultimately have "tables_ok s'" using t(1) st by (simp add: tables_ok_def contents_stored_def)
  moreover have "watch_ok {} {} (sids_of s') (contents_of s') (watched (tx_hashes_without_short_id s'))
      (watched (tx_hashes_without_content s'))"
    using t(5) k(1) unfolding f(1-4) watch_ok_def by (auto simp: keys_update keys_delete bytes_to_hex_inj)
  moreover have "alarms_ok s'"
    using t(4) unfolding alarms_ok_def f by auto
  ultimately show ?thesis using t(2,3) st by (simp add: ts_inv_def ts_rel_def contents_stored_def)
qed

lemma set_contents_ok:
  assumes inv: "ts_inv s" and key: "key_ok key"
  shows "\<exists>s' s''. contents_stored now key c s s'
     \<and> TransactionService_set_transaction_contents_by_key now key c s = Inr s'' \<and> ts_inv s''
     \<and> tx_content_memory_limit s'' = tx_content_memory_limit s
     \<and> (\<forall>x. key_of s'' x = key_of s x \<or> key_of s'' x = None)
     \<and> (0 \<le> tx_content_memory_limit s \<longrightarrow> total_tx_contents_size s'' \<le> tx_content_memory_limit s)
     \<and> (total_tx_contents_size s' \<le> tx_content_memory_limit s \<longrightarrow> s'' = s')"
proof -
  obtain s' where s': "contents_stored now key c s s'"
      "TransactionService_set_transaction_contents_by_key now key c s = TransactionService_memory_limit_clean_up now s'"
    using set_contents_run by blast
  have "tx_content_memory_limit s' = tx_content_memory_limit s" "key_of s' = key_of s"
    using s'(1) by (simp_all add: contents_stored_def)
  then show ?thesis
    using memory_limit_clean_up_ok[OF contents_stored_inv[OF inv key s'(1)], of now] s' by auto
qed

subsection \<open>Expiration tasks\<close>

lemma key_ok_of_hash:
  "length h = 32 \<Longrightarrow> \<exists>key. TransactionService_get_transaction_key (Some h) None = Inr key \<and> key_ok key \<and> transaction_hash key = h"
  by (simp add: get_transaction_key_hash key_ok_def)

lemma remove_by_tx_hash_ok:
  assumes "ts_rel {} E2 E3 s" and "length h = 32"
  shows "\<exists>s'. TransactionService_remove_transaction_by_tx_hash now force assume_no_sid h s = Inr s'
    \<and> ts_rel {} (E2 - {h}) E3 s' \<and> removed_only s s'"
proof -
  obtain key where key: "TransactionService_get_transaction_key (Some h) None = Inr key" "key_ok key" "transaction_hash key = h"
    using key_ok_of_hash[OF assms(2)] by blast
  obtain r s' where "TransactionService_remove_transaction_by_key now key force assume_no_sid s = Inr (r, s')"
      "ts_rel {} (E2 - {h}) E3 s'" "removed_only s s'"
    using remove_by_key_ok[OF assms(1) key(2)] key(3) by blast
  then show ?thesis using key(1) by (simp add: TransactionService_remove_transaction_by_tx_hash_def)
qed

lemma remove_sid_by_tx_hash_ok:
  assumes "ts_rel {} E2 E3 s" and "length h = 32"
  shows "\<exists>s'. TransactionService_remove_sid_by_tx_hash h s = Inr s' \<and> ts_rel {} E2 (E3 - {h}) s' \<and> removed_only s s'"
proof -
  obtain key where key: "TransactionService_get_transaction_key (Some h) None = Inr key" "key_ok key" "transaction_hash key = h"
    using key_ok_of_hash[OF assms(2)] by blast
  then show ?thesis
    using remove_sid_by_key_ok[OF assms(1) key(2)] by (simp add: TransactionService_remove_sid_by_tx_hash_def)
qed

text \<open>Popping the head of the two other queues.\<close>

lemma pop_no_sid_rel:
  assumes "ts_inv s" and "queue (tx_hashes_without_short_id s) = (h, t) # rest"
  shows "ts_rel {} {h} {} (s\<lparr>tx_hashes_without_short_id := (tx_hashes_without_short_id s)\<lparr>queue := rest\<rparr>\<rparr>) \<and> length h = 32"
  using assms by (auto simp: ts_inv_def ts_rel_def tables_ok_def alarms_ok_def eq_wf_def watch_ok_def)

lemma pop_no_content_rel:
  assumes "ts_inv s" and "queue (tx_hashes_without_content s) = (h, t) # rest"
  shows "ts_rel {} {} {h} (s\<lparr>tx_hashes_without_content := (tx_hashes_without_content s)\<lparr>queue := rest\<rparr>\<rparr>) \<and> length h = 32"
  using assms by (auto simp: ts_inv_def ts_rel_def tables_ok_def alarms_ok_def eq_wf_def watch_ok_def)

lemma ts_inv_wf:
  "ts_inv s \<Longrightarrow> eq_wf (tx_assignment_expire_queue s)"
  "ts_inv s \<Longrightarrow> eq_wf (tx_hashes_without_short_id s)"
  "ts_inv s \<Longrightarrow> eq_wf (tx_hashes_without_content s)"
  by (simp_all add: ts_inv_def ts_rel_def tables_ok_def)

lemma next_expiry_ok:
  assumes "queue q \<noteq> []"
  shows "\<exists>d. next_expiry now ttl q = Inr d \<and> d \<noteq> 0 \<and> MIN_CLEAN_UP_EXPIRED_TXS_TASK_INTERVAL_S \<le> d"
  using assms by (cases "queue q") (auto simp: next_expiry_def MIN_CLEAN_UP_EXPIRED_TXS_TASK_INTERVAL_S_def max_def)

text \<open>
  What the three expiration tasks have in common: they stop at the limit or at an item that is not
  expired, and answer the delay of their next run, 0 when nothing is left to expire.
\<close>

definition expired_up_to :: "time \<Rightarrow> 'a ExpirationQueue \<Rightarrow> 'a ExpirationQueue \<Rightarrow> bool" where
  "expired_up_to now q q' \<longleftrightarrow>
     length (queue q') + MAX_EXPIRED_TXS_TO_REMOVE \<le> length (queue q)
     \<or> queue q' = [] \<or> \<not> now - snd (hd (queue q')) > time_to_live_sec q'"

text \<open>
  The network assigns every short id to one transaction: \<open>A\<close> gives its hash. \<open>ts_ok A\<close> is the invariant
  of a cache whose short ids were assigned as \<open>A\<close> says, together with the memory limit.
\<close>

definition within_limit :: "TransactionService \<Rightarrow> bool" where
  "within_limit s \<longleftrightarrow> (0 \<le> tx_content_memory_limit s \<longrightarrow> total_tx_contents_size s \<le> tx_content_memory_limit s)"

definition ts_ok :: "(nat \<Rightarrow> bytes) \<Rightarrow> TransactionService \<Rightarrow> bool" where
  "ts_ok A s \<longleftrightarrow> ts_inv s \<and> within_limit s \<and> (\<forall>sid k. key_of s sid = Some k \<longrightarrow> k = bytes_to_hex (A sid))"

lemma ts_ok_inv: "ts_ok A s \<Longrightarrow> ts_inv s"
  by (simp add: ts_ok_def)

lemma contents_total_mono:
  assumes "distinct (map fst al')" and "\<forall>k. map_of al' k = map_of al k \<or> map_of al' k = None"
    and "distinct (map fst al)"
  shows "contents_total al' \<le> contents_total al"
proof -
  have "set al' \<subseteq> set al"
  proof
    fix p assume p: "p \<in> set al'"
    then have "map_of al' (fst p) = Some (snd p)" using assms(1) by simp
    then have "map_of al (fst p) = Some (snd p)" using assms(2) by (metis option.distinct(1))
    then show "p \<in> set al" by (metis map_of_SomeD prod.collapse)
  qed
  then have "(\<Sum>p \<in> set al'. int (length (snd p))) \<le> (\<Sum>p \<in> set al. int (length (snd p)))"
    by (rule sum_mono2[rotated]) simp_all
  then show ?thesis
    using assms(1,3) by (simp add: contents_total_def sum_list_distinct_conv_sum_set distinct_map)
qed

text \<open>A change that only forgets short ids and contents.\<close>

definition forgets :: "TransactionService \<Rightarrow> TransactionService \<Rightarrow> bool" where
  "forgets s s' \<longleftrightarrow> (\<forall>x. key_of s' x = key_of s x \<or> key_of s' x = None)
     \<and> (\<forall>k. contents_of s' k = contents_of s k \<or> contents_of s' k = None)
     \<and> tx_content_memory_limit s' = tx_content_memory_limit s"

lemma removed_only_forgets: "removed_only s s' \<Longrightarrow> forgets s s'"
  by (simp add: removed_only_def forgets_def)

lemma ts_ok_forgets:
  assumes ok: "ts_ok A s" and inv: "ts_inv s'" and f: "forgets s s'"
  shows "ts_ok A s'"
proof -
  have d: "distinct (map fst (tx_cache_key_to_contents s))" "total_tx_contents_size s = contents_total (tx_cache_key_to_contents s)"
    "distinct (map fst (tx_cache_key_to_contents s'))" "total_tx_contents_size s' = contents_total (tx_cache_key_to_contents s')"
    using ok inv by (simp_all add: ts_ok_def ts_inv_def ts_rel_def tables_ok_def)
  have "contents_total (tx_cache_key_to_contents s') \<le> contents_total (tx_cache_key_to_contents s)"
    using d f by (intro contents_total_mono) (simp_all add: forgets_def)
  then have "within_limit s'" using ok f d by (auto simp: ts_ok_def within_limit_def forgets_def)
  moreover have "k = bytes_to_hex (A x)" if "key_of s' x = Some k" for x k
  proof -
    have "key_of s x = Some k" using f that unfolding forgets_def by (metis option.distinct(1))
    then show ?thesis using ok by (simp add: ts_ok_def)
  qed
  ultimately show ?thesis using inv by (simp add: ts_ok_def)
qed

lemma ts_ok_removed_only: "ts_ok A s \<Longrightarrow> ts_rel {} {} {} s' \<Longrightarrow> removed_only s s' \<Longrightarrow> ts_ok A s'"
  by (erule ts_ok_forgets) (simp_all add: ts_inv_def removed_only_forgets)

locale expiry_task = expiry_owner get_q set_q cb owner_inv
  for get_q :: "'s \<Rightarrow> 'a ExpirationQueue" and set_q :: "'a ExpirationQueue \<Rightarrow> 's \<Rightarrow> 's"
    and cb :: "'a \<Rightarrow> 's \<Rightarrow> 's result" and owner_inv :: "'s \<Rightarrow> bool" +
  fixes unschedule :: "'s \<Rightarrow> 's"
  assumes unschedule_ok: "owner_inv s \<Longrightarrow> queue (get_q s) = [] \<Longrightarrow>
    owner_inv (unschedule s) \<and> queue (get_q (unschedule s)) = []"
begin

lemma task_total:
  assumes s: "owner_inv s"
  shows "\<exists>d s'. rbind (ExpirationQueue_remove_expired get_q set_q cb now None (Some MAX_EXPIRED_TXS_TO_REMOVE) s)
       (\<lambda>(_, s1). if ExpirationQueue_len (get_q s1) > 0
          then rbind (next_expiry now (ttl s1) (get_q s1)) (\<lambda>d. Inr (d, s1))
          else Inr (0, unschedule s1)) = Inr (d, s')
    \<and> owner_inv s' \<and> expired_up_to now (get_q s) (get_q s')
    \<and> (d = 0 \<longleftrightarrow> queue (get_q s') = []) \<and> (d \<noteq> 0 \<longrightarrow> MIN_CLEAN_UP_EXPIRED_TXS_TASK_INTERVAL_S \<le> d)"
proof -
  obtain removed s1 where s1: "ExpirationQueue_remove_expired_loop MAX_EXPIRED_TXS_TO_REMOVE get_q set_q cb now s
        = Inr (removed, s1)" "owner_inv s1"
    using remove_expired_loop_total[OF s] by blast
  then have run: "ExpirationQueue_remove_expired get_q set_q cb now None (Some MAX_EXPIRED_TXS_TO_REMOVE) s = Inr (removed, s1)"
    by (simp add: ExpirationQueue_remove_expired_def)
  have progress: "expired_up_to now (get_q s) (get_q s1)"
    using remove_expired_loop_progress[OF s s1(1)] by (auto simp: expired_up_to_def)
  show ?thesis
  proof (cases "queue (get_q s1) = []")
    case True
    then show ?thesis
      using run unschedule_ok[OF s1(2)] by (simp add: ExpirationQueue_len_def expired_up_to_def)
  next
    case False
    then obtain d where "next_expiry now (ttl s1) (get_q s1) = Inr d" "d \<noteq> 0" "MIN_CLEAN_UP_EXPIRED_TXS_TASK_INTERVAL_S \<le> d"
      using next_expiry_ok by blast
    then show ?thesis using run s1(2) progress False by (simp add: ExpirationQueue_len_def)
  qed
qed

end

lemma unschedule_inv:
  "ts_ok A s \<Longrightarrow> queue (tx_assignment_expire_queue s) = [] \<Longrightarrow> ts_ok A (s\<lparr>tx_assign_alarm_scheduled := False\<rparr>)"
  "ts_ok A s \<Longrightarrow> queue (tx_hashes_without_short_id s) = [] \<Longrightarrow> ts_ok A (s\<lparr>tx_content_without_sid_alarm_scheduled := False\<rparr>)"
  "ts_ok A s \<Longrightarrow> queue (tx_hashes_without_content s) = [] \<Longrightarrow> ts_ok A (s\<lparr>tx_without_content_alarm_scheduled := False\<rparr>)"
  by (auto simp: ts_ok_def ts_inv_def ts_rel_def tables_ok_def alarms_ok_def within_limit_def)

interpretation assign_task: expiry_task tx_assignment_expire_queue assign_queue_set
  "TransactionService_remove_transaction_by_short_id now False True" "ts_ok A" "\<lambda>s. s\<lparr>tx_assign_alarm_scheduled := False\<rparr>"
  for now A
proof unfold_locales
  fix s x t rest assume s: "ts_ok A s" and q: "queue (tx_assignment_expire_queue s) = (x, t) # rest"
  let ?s1 = "s\<lparr>tx_assignment_expire_queue := (tx_assignment_expire_queue s)\<lparr>queue := rest\<rparr>\<rparr>"
  obtain s' where s': "TransactionService_remove_transaction_by_short_id now False True x ?s1 = Inr s'"
      "ts_rel {} {} {} s'" "removed_only ?s1 s'"
    using remove_by_sid_ok[OF pop_assignment_rel[OF ts_ok_inv[OF s] q], of now False] by blast
  have "ts_ok A s'" by (rule ts_ok_forgets[OF s]) (use s'(2,3) in \<open>simp_all add: ts_inv_def removed_only_def forgets_def\<close>)
  then show "\<exists>s'. TransactionService_remove_transaction_by_short_id now False True x ?s1 = Inr s'
      \<and> ts_ok A s' \<and> set (queue (tx_assignment_expire_queue s')) \<subseteq> set rest"
    using s'(1,3) by (auto simp: removed_only_def)
qed (simp_all add: ts_inv_wf ts_ok_inv unschedule_inv)

interpretation no_sid_task: expiry_task tx_hashes_without_short_id no_sid_queue_set
  "TransactionService_remove_transaction_by_tx_hash now True True" "ts_ok A" "\<lambda>s. s\<lparr>tx_content_without_sid_alarm_scheduled := False\<rparr>"
  for now A
proof unfold_locales
  fix s h t rest assume s: "ts_ok A s" and q: "queue (tx_hashes_without_short_id s) = (h, t) # rest"
  let ?s1 = "s\<lparr>tx_hashes_without_short_id := (tx_hashes_without_short_id s)\<lparr>queue := rest\<rparr>\<rparr>"
  obtain s' where s': "TransactionService_remove_transaction_by_tx_hash now True True h ?s1 = Inr s'"
      "ts_rel {} {} {} s'" "removed_only ?s1 s'"
    using remove_by_tx_hash_ok[of "{h}" "{}" ?s1 h now True True] pop_no_sid_rel[OF ts_ok_inv[OF s] q] by auto
  have "ts_ok A s'" by (rule ts_ok_forgets[OF s]) (use s'(2,3) in \<open>simp_all add: ts_inv_def removed_only_def forgets_def\<close>)
  then show "\<exists>s'. TransactionService_remove_transaction_by_tx_hash now True True h ?s1 = Inr s'
      \<and> ts_ok A s' \<and> set (queue (tx_hashes_without_short_id s')) \<subseteq> set rest"
    using s'(1,3) by (auto simp: removed_only_def)
qed (simp_all add: ts_inv_wf ts_ok_inv unschedule_inv)

interpretation no_content_task: expiry_task tx_hashes_without_content no_content_queue_set
  TransactionService_remove_sid_by_tx_hash "ts_ok A" "\<lambda>s. s\<lparr>tx_without_content_alarm_scheduled := False\<rparr>"
  for A
proof unfold_locales
  fix s h t rest assume s: "ts_ok A s" and q: "queue (tx_hashes_without_content s) = (h, t) # rest"
  let ?s1 = "s\<lparr>tx_hashes_without_content := (tx_hashes_without_content s)\<lparr>queue := rest\<rparr>\<rparr>"
  obtain s' where s': "TransactionService_remove_sid_by_tx_hash h ?s1 = Inr s'"
      "ts_rel {} {} {} s'" "removed_only ?s1 s'"
    using remove_sid_by_tx_hash_ok[of "{}" "{h}" ?s1 h] pop_no_content_rel[OF ts_ok_inv[OF s] q] by auto
  have "ts_ok A s'" by (rule ts_ok_forgets[OF s]) (use s'(2,3) in \<open>simp_all add: ts_inv_def removed_only_def forgets_def\<close>)
  then show "\<exists>s'. TransactionService_remove_sid_by_tx_hash h ?s1 = Inr s'
      \<and> ts_ok A s' \<and> set (queue (tx_hashes_without_content s')) \<subseteq> set rest"
    using s'(1,3) by (auto simp: removed_only_def)
qed (simp_all add: ts_inv_wf ts_ok_inv unschedule_inv)

lemma expire_old_assignments_ok:
  "ts_ok A s \<Longrightarrow> \<exists>d s'. TransactionService_expire_old_assignments now s = Inr (d, s') \<and> ts_ok A s'
     \<and> expired_up_to now (tx_assignment_expire_queue s) (tx_assignment_expire_queue s')
     \<and> (d = 0 \<longleftrightarrow> queue (tx_assignment_expire_queue s') = []) \<and> (d \<noteq> 0 \<longrightarrow> MIN_CLEAN_UP_EXPIRED_TXS_TASK_INTERVAL_S \<le> d)"
  unfolding TransactionService_expire_old_assignments_def by (rule assign_task.task_total)

lemma expire_content_without_sid_ok:
  "ts_ok A s \<Longrightarrow> \<exists>d s'. TransactionService_expire_content_without_sid now s = Inr (d, s') \<and> ts_ok A s'
     \<and> expired_up_to now (tx_hashes_without_short_id s) (tx_hashes_without_short_id s')
     \<and> (d = 0 \<longleftrightarrow> queue (tx_hashes_without_short_id s') = []) \<and> (d \<noteq> 0 \<longrightarrow> MIN_CLEAN_UP_EXPIRED_TXS_TASK_INTERVAL_S \<le> d)"
  unfolding TransactionService_expire_content_without_sid_def by (rule no_sid_task.task_total)

lemma expire_sid_without_content_ok:
  "ts_ok A s \<Longrightarrow> \<exists>d s'. TransactionService_expire_sid_without_content now s = Inr (d, s') \<and> ts_ok A s'
     \<and> expired_up_to now (tx_hashes_without_content s) (tx_hashes_without_content s')
     \<and> (d = 0 \<longleftrightarrow> queue (tx_hashes_without_content s') = []) \<and> (d \<noteq> 0 \<longrightarrow> MIN_CLEAN_UP_EXPIRED_TXS_TASK_INTERVAL_S \<le> d)"
  unfolding TransactionService_expire_sid_without_content_def by (rule no_content_task.task_total)

subsection \<open>The remaining operations\<close>

lemma ts_okD: "ts_ok A s \<Longrightarrow> key_of s sid = Some k \<Longrightarrow> k = bytes_to_hex (A sid)"
  by (simp add: ts_ok_def)

lemma assign_ts_ok:
  assumes ok: "ts_ok A s" and key: "key_ok key" and A: "A sid = transaction_hash key"
  shows "ts_ok A (TransactionService_assign_short_id_by_key now key sid s)"
proof -
  have free: "key_of s sid = None \<or> key_of s sid = Some (transaction_cache_key key)"
    using ok key A ts_okD[OF ok, of sid] by (cases "key_of s sid") (simp_all add: key_ok_def)
  have "ts_inv (TransactionService_assign_short_id_by_key now key sid s)"
    using assign_ok[OF _ key free] ok by (simp add: ts_inv_def ts_ok_def)
  moreover have "key_of (TransactionService_assign_short_id_by_key now key sid s)
      = (if sid = NULL_TX_SID then key_of s else (key_of s)(sid \<mapsto> transaction_cache_key key))"
      "within_limit (TransactionService_assign_short_id_by_key now key sid s) = within_limit s"
    by (simp_all add: TransactionService_assign_short_id_by_key_def TransactionService_assign_short_id_base_by_key_def
        Let_def request_alarm_def within_limit_def)
  ultimately show ?thesis using ok key A by (auto simp: ts_ok_def key_ok_def)
qed

lemma set_contents_ts_ok:
  assumes ok: "ts_ok A s" and key: "key_ok key"
  shows "\<exists>s'. TransactionService_set_transaction_contents_by_key now key c s = Inr s' \<and> ts_ok A s'"
proof -
  obtain s' where s': "TransactionService_set_transaction_contents_by_key now key c s = Inr s'" "ts_inv s'"
      "tx_content_memory_limit s' = tx_content_memory_limit s" "\<forall>x. key_of s' x = key_of s x \<or> key_of s' x = None"
      "0 \<le> tx_content_memory_limit s \<longrightarrow> total_tx_contents_size s' \<le> tx_content_memory_limit s"
    using set_contents_ok[OF ts_ok_inv[OF ok] key, of now c] by blast
  have "k = bytes_to_hex (A x)" if "key_of s' x = Some k" for x k
    using ts_okD[OF ok] s'(4) that by (metis option.distinct(1))
  then show ?thesis using s' by (auto simp: ts_ok_def within_limit_def)
qed

lemma set_some_contents_ts_ok:
  "ts_ok A s \<Longrightarrow> key_ok key \<Longrightarrow>
   \<exists>s'. (if b then TransactionService_set_transaction_contents_by_key now key c s else Inr s) = Inr s' \<and> ts_ok A s'"
  by (cases b) (simp_all add: set_contents_ts_ok)

lemma ts_rel_exempt: "ts_rel {} E2 E3 s \<Longrightarrow> ts_rel {x} E2 E3 s"
  by (simp add: ts_rel_def)

lemma remove_by_sid_unforced:
  "TransactionService_remove_transaction_by_short_id now r False sid s = Inr s
   \<or> TransactionService_remove_transaction_by_short_id now r False sid s
     = TransactionService_remove_transaction_by_short_id now r True sid s"
  by (auto simp: TransactionService_remove_transaction_by_short_id_def any_flag_def split: option.split list.split)

lemma remove_by_sid_ts_ok:
  assumes ok: "ts_ok A s"
  shows "\<exists>s'. TransactionService_remove_transaction_by_short_id now r force sid s = Inr s' \<and> ts_ok A s'"
proof -
  obtain s' where s': "TransactionService_remove_transaction_by_short_id now r True sid s = Inr s'"
      "ts_rel {} {} {} s'" "removed_only s s'"
    using remove_by_sid_ok[OF ts_rel_exempt] ok unfolding ts_ok_def ts_inv_def by blast
  then have "ts_ok A s'" using ok ts_ok_removed_only by blast
  then show ?thesis
    using s'(1) ok remove_by_sid_unforced[of now r sid s] by (cases force) auto
qed

text \<open>Removing the transactions of a block that became final.\<close>

lemma remove_final_sids:
  "ts_ok A s \<Longrightarrow>
   \<exists>s'. rfold (\<lambda>s sid. TransactionService_remove_transaction_by_short_id now True True sid s) s sids = Inr s'
     \<and> ts_ok A s' \<and> removed_only s s' \<and> loses {k. \<exists>sid \<in> set sids. key_of s sid = Some k} s s'"
proof (induction sids arbitrary: s)
  case Nil
  then show ?case by (simp add: removed_only_refl loses_empty)
next
  case (Cons sid sids)
  obtain s1 where s1: "TransactionService_remove_transaction_by_short_id now True True sid s = Inr s1"
      "ts_rel {} {} {} s1" "removed_only s s1" "loses (set_option (key_of s sid)) s s1"
    using remove_by_sid_ok[where r = True and sid = sid and s = s and now = now, OF ts_rel_exempt, of "{}" "{}"] Cons.prems
    by (auto simp: ts_ok_def ts_inv_def)
  then have "ts_ok A s1" using Cons.prems ts_ok_removed_only by blast
  from Cons.IH[OF this] obtain s' where s': "rfold (\<lambda>s sid. TransactionService_remove_transaction_by_short_id now True True sid s) s1 sids = Inr s'"
      "ts_ok A s'" "removed_only s1 s'" "loses {k. \<exists>sid \<in> set sids. key_of s1 sid = Some k} s1 s'"
    by blast
  have "set_option (key_of s sid) \<union> {k. \<exists>sid \<in> set sids. key_of s1 sid = Some k} = {k. \<exists>x \<in> set (sid # sids). key_of s x = Some k}"
  proof -
    have e: "key_of s1 x = Some k \<longleftrightarrow> key_of s x = Some k \<and> key_of s sid \<noteq> Some k" for x k
      using s1(4)[unfolded loses_def, THEN conjunct1, rule_format, of x] by (cases "key_of s x") auto
    show ?thesis unfolding e by auto
  qed
  then show ?case
    using s1 s' removed_only_trans[OF s1(3) s'(3)] loses_trans[OF s1(4) s'(4)] by simp
qed

lemma ts_ok_fields [simp]:
  "ts_ok A (s\<lparr>short_ids_seen_in_block := v\<rparr>) = ts_ok A s"
  "ts_ok A (s\<lparr>short_id_to_tx_flag := fl\<rparr>) = ts_ok A s"
  "ts_ok A (s\<lparr>final_tx_confirmations_count := n\<rparr>) = ts_ok A s"
  "ts_ok A (s\<lparr>removed_short_ids := rs\<rparr>) = ts_ok A s"
  "ts_ok A (s\<lparr>alarm_requests := al\<rparr>) = ts_ok A s"
  "ts_ok A (s\<lparr>last_transaction_stats := st\<rparr>) = ts_ok A s"
  "ts_ok A (s\<lparr>tx_hash_to_time_removed := tr\<rparr>) = ts_ok A s"
  "ts_ok A (s\<lparr>short_id_to_time_removed := sr\<rparr>) = ts_ok A s"
  by (simp_all add: ts_ok_def ts_inv_def ts_rel_def tables_ok_def alarms_ok_def within_limit_def)

lemma track_seen_run:
  fixes sids :: "nat list"
  assumes ok: "ts_ok A s" and h: "length block_hash = 32"
  defines "seen \<equiv> AList.update block_hash sids (short_ids_seen_in_block s)"
  shows "\<exists>s'. TransactionService_track_seen_short_ids now block_hash sids s = Inr s' \<and> ts_ok A s'
    \<and> (if length seen < final_tx_confirmations_count s
       then s' = s\<lparr>short_ids_seen_in_block := seen\<rparr>
       else short_ids_seen_in_block s' = tl seen \<and> loses {k. \<exists>sid \<in> set (snd (hd seen)). key_of s sid = Some k} s s')"
proof -
  have run: "TransactionService_track_seen_short_ids now block_hash sids s =
      (if length seen < final_tx_confirmations_count s then Inr (s\<lparr>short_ids_seen_in_block := seen\<rparr>)
       else case seen of [] \<Rightarrow> Inl KeyError
         | (_, final_short_ids) # rest \<Rightarrow>
             rfold (\<lambda>s sid. TransactionService_remove_transaction_by_short_id now True True sid s)
               (s\<lparr>short_ids_seen_in_block := rest\<rparr>) final_short_ids)"
    using h by (simp add: TransactionService_track_seen_short_ids_def wrap_sha256_def Sha256Hash_init_ok Let_def seen_def not_less
        split: list.split)
  show ?thesis
  proof (cases "length seen < final_tx_confirmations_count s")
    case True
    then show ?thesis using run ok by simp
  next
    case False
    have "block_hash \<in> fst ` set seen" by (simp add: seen_def keys_update)
    then obtain b final rest where seen: "seen = (b, final) # rest" by (cases seen) auto
    let ?s1 = "s\<lparr>short_ids_seen_in_block := rest\<rparr>"
    have "ts_ok A ?s1" using ok by simp
    from remove_final_sids[OF this, of now final] obtain s' where
        s': "rfold (\<lambda>s sid. TransactionService_remove_transaction_by_short_id now True True sid s) ?s1 final = Inr s'"
        "ts_ok A s'" "removed_only ?s1 s'" "loses {k. \<exists>sid \<in> set final. key_of ?s1 sid = Some k} ?s1 s'" by blast
    have "short_ids_seen_in_block s' = rest" using s'(3) by (simp add: removed_only_def)
    moreover have "loses {k. \<exists>sid \<in> set final. key_of s sid = Some k} s s'" using s'(4) by (simp add: loses_def)
    ultimately show ?thesis using run False seen s'(1,2) by simp
  qed
qed

lemma snapshot_ts_ok:
  assumes ok: "ts_ok A s"
  shows "\<exists>hs. TransactionService_get_snapshot now duration s = Inr (hs, s)"
proof -
  have inv: "tables_ok s" "links_ok (sids_of s) (key_of s)" "watched (tx_assignment_expire_queue s) = dom (key_of s)"
    using ok by (simp_all add: ts_ok_def ts_inv_def ts_rel_def)
  have keys: "is_key k" if x: "key_of s x = Some k" for x k
  proof -
    obtain sids where "sids_of s k = Some sids" by (rule links_sidE[OF inv(2) x])
    then show ?thesis using inv(1) by (auto simp: tables_ok_def)
  qed
  have ok_list: "\<exists>hs. keys_to_hashes ks = Inr hs" if "\<forall>k \<in> set ks. is_key k" for ks
    unfolding keys_to_hashes_def
    by (rule rfold_invariant[where I = "\<lambda>_. True", simplified]) (use that is_key_to_hash in fastforce)
  let ?recent = "map fst (filter (\<lambda>p. snd p > now - duration) (queue (tx_assignment_expire_queue s)))"
  have assigned: "key_of s x \<noteq> None" if "x \<in> set ?recent" for x
  proof -
    have "x \<in> watched (tx_assignment_expire_queue s)" using that by force
    then show ?thesis using inv(3) by blast
  qed
  then have stale: "filter (\<lambda>sid. key_of s sid = None) ?recent = []" by (simp only: filter_empty_conv) blast
  have set_fold: "set (fold set_add xs ys) = set xs \<union> set ys" for xs ys :: "string list"
    by (induction xs arbitrary: ys) (auto simp: set_add_def)
  have "\<forall>k \<in> set (fold set_add (map (\<lambda>sid. the (key_of s sid)) (filter (\<lambda>sid. key_of s sid \<noteq> None) ?recent)) []). is_key k"
    using keys unfolding set_fold by auto
  from ok_list[OF this]
  have a: "\<exists>hs. keys_to_hashes (fold set_add (map (\<lambda>sid. the (key_of s sid)) (filter (\<lambda>sid. key_of s sid \<noteq> None) ?recent)) []) = Inr hs" .
  have "\<forall>k \<in> set (map fst (tx_cache_key_to_contents s)). is_key k"
    using inv(1) unfolding tables_ok_def dom_map_of_conv_image_fst by auto
  from ok_list[OF this] have b: "\<exists>hs. keys_to_hashes (map fst (tx_cache_key_to_contents s)) = Inr hs" .
  show ?thesis
    using a b unfolding TransactionService_get_snapshot_def Let_def stale by auto
qed

definition sync_item_ok :: "(nat \<Rightarrow> bytes) \<Rightarrow> TxContentShortIds \<Rightarrow> bool" where
  "sync_item_ok A t \<longleftrightarrow> length (tcs_tx_hash t) = 32 \<and> (\<forall>sid \<in> set (tcs_short_ids t). A sid = tcs_tx_hash t)"

lemma foldl_assign_ts_ok:
  "ts_ok A s \<Longrightarrow> key_ok key \<Longrightarrow> \<forall>p \<in> set ps. A (fst p) = transaction_hash key \<Longrightarrow>
   ts_ok A (foldl (\<lambda>s (sid, _). TransactionService_assign_short_id_by_key now key sid s) s ps)"
  by (induction ps arbitrary: s) (auto simp: assign_ts_ok)

lemma process_tx_sync_ok:
  assumes ok: "ts_ok A s" and items: "list_all (sync_item_ok A) txs"
  shows "\<exists>r s'. TransactionService_process_tx_sync_message now txs s = Inr (r, s') \<and> ts_ok A s'"
proof -
  have "\<exists>p. TransactionService_process_tx_sync_message now txs s = Inr p \<and> ts_ok A (snd p)"
    unfolding TransactionService_process_tx_sync_message_def
  proof (rule rfold_invariant[where I = "\<lambda>p. ts_ok A (snd p)"])
    fix p :: "TxSyncMsgProcessingItem list \<times> TransactionService" and t
    assume p: "ts_ok A (snd p)" and "t \<in> set txs"
    then have t: "length (tcs_tx_hash t) = 32" "\<forall>sid \<in> set (tcs_short_ids t). A sid = tcs_tx_hash t"
      using items by (auto simp: list_all_iff sync_item_ok_def)
    obtain key where key: "TransactionService_get_transaction_key (Some (tcs_tx_hash t)) None = Inr key" "key_ok key"
        "transaction_hash key = tcs_tx_hash t"
      using key_ok_of_hash[OF t(1)] by blast
    let ?c = "case tcs_tx_content t of None \<Rightarrow> [] | Some c \<Rightarrow> c"
    obtain s1 where s1: "(if ?c \<noteq> [] then TransactionService_set_transaction_contents_by_key now key ?c (snd p) else Inr (snd p)) = Inr s1"
        "ts_ok A s1"
      using set_some_contents_ts_ok[OF p key(2)] by blast
    have "ts_ok A (foldl (\<lambda>s (sid, _). TransactionService_assign_short_id_by_key now key sid s) s1
        (zip (tcs_short_ids t) (tcs_short_id_flags t)))"
      using s1(2) key(2) by (rule foldl_assign_ts_ok) (use t(2) key(3) in \<open>auto dest: set_zip_leftD\<close>)
    then show "\<exists>p'. process_tx_sync_item now p t = Inr p' \<and> ts_ok A (snd p')"
      using key(1) s1(1) by (simp add: process_tx_sync_item_def Let_def)
  qed (use ok in simp)
  then show ?thesis by auto
qed

subsection \<open>Runs\<close>

text \<open>
  The calls the node makes, as one step function; a call that only answers leaves the state. The file of
  removed short ids can be written.
\<close>

datatype ts_op =
    AssignShortId time TransactionKey nat
  | SetContents time TransactionKey bytes
  | SetFlag nat nat
  | RemoveByKey time TransactionKey bool bool
  | RemoveSidByKey TransactionKey
  | RemoveByShortId time bool bool nat
  | ClearAll
  | ExpireOld time
  | ExpireContent time
  | ExpireSid time
  | TrackSeen time bytes "nat list"
  | TrackSeenDelayed bytes "nat list"
  | BlockCleanedUp bytes
  | SetFinalCount nat
  | CleanupHistory time
  | DumpRemoved time
  | Snapshot time time
  | AggregateStats
  | SyncTxs time "TxContentShortIds list"

definition ts_step :: "TransactionService \<Rightarrow> ts_op \<Rightarrow> TransactionService result" where
  "ts_step s x =
     (case x of
        AssignShortId now key sid \<Rightarrow> Inr (TransactionService_assign_short_id_by_key now key sid s)
      | SetContents now key c \<Rightarrow> TransactionService_set_transaction_contents_by_key now key c s
      | SetFlag sid f \<Rightarrow> Inr (TransactionService_set_short_id_transaction_type sid f s)
      | RemoveByKey now key force assume_no_sid \<Rightarrow>
          rbind (TransactionService_remove_transaction_by_key now key force assume_no_sid s) (\<lambda>p. Inr (snd p))
      | RemoveSidByKey key \<Rightarrow> TransactionService_remove_sid_by_key key s
      | RemoveByShortId now r force sid \<Rightarrow> TransactionService_remove_transaction_by_short_id now r force sid s
      | ClearAll \<Rightarrow> Inr (TransactionService_clear s)
      | ExpireOld now \<Rightarrow> rbind (TransactionService_expire_old_assignments now s) (\<lambda>p. Inr (snd p))
      | ExpireContent now \<Rightarrow> rbind (TransactionService_expire_content_without_sid now s) (\<lambda>p. Inr (snd p))
      | ExpireSid now \<Rightarrow> rbind (TransactionService_expire_sid_without_content now s) (\<lambda>p. Inr (snd p))
      | TrackSeen now h sids \<Rightarrow> TransactionService_track_seen_short_ids now h sids s
      | TrackSeenDelayed h sids \<Rightarrow> Inr (TransactionService_track_seen_short_ids_delayed h sids s)
      | BlockCleanedUp h \<Rightarrow> Inr (TransactionService_on_block_cleaned_up h s)
      | SetFinalCount n \<Rightarrow> Inr (TransactionService_set_final_tx_confirmations_count n s)
      | CleanupHistory now \<Rightarrow> Inr (snd (TransactionService_cleanup_removed_transactions_history now s))
      | DumpRemoved now \<Rightarrow> rbind (TransactionService_dump_removed_short_ids (\<lambda>_ _. Inr ()) now s) (\<lambda>p. Inr (snd p))
      | Snapshot now d \<Rightarrow> rbind (TransactionService_get_snapshot now d s) (\<lambda>p. Inr (snd p))
      | AggregateStats \<Rightarrow> Inr (snd (TransactionService_get_aggregate_stats s))
      | SyncTxs now txs \<Rightarrow> rbind (TransactionService_process_tx_sync_message now txs s) (\<lambda>p. Inr (snd p)))"

text \<open>What a call must respect: hashes have 32 bytes, and a short id always goes to the hash \<open>A\<close> gives.\<close>

fun ts_admissible :: "(nat \<Rightarrow> bytes) \<Rightarrow> ts_op \<Rightarrow> bool" where
  "ts_admissible A (AssignShortId _ key sid) = (key_ok key \<and> A sid = transaction_hash key)"
| "ts_admissible A (SetContents _ key _) = key_ok key"
| "ts_admissible A (RemoveByKey _ key _ _) = key_ok key"
| "ts_admissible A (RemoveSidByKey key) = key_ok key"
| "ts_admissible A (TrackSeen _ h _) = (length h = 32)"
| "ts_admissible A (SyncTxs _ txs) = list_all (sync_item_ok A) txs"
| "ts_admissible A _ = True"

lemma clear_ts_ok: "ts_ok A s \<Longrightarrow> ts_ok A (TransactionService_clear s)"
  using clear_inv[of s] by (simp add: ts_ok_def within_limit_def TransactionService_clear_def)

lemma ts_rel_of_ok: "ts_ok A s \<Longrightarrow> ts_rel {} {} {} s"
  by (simp add: ts_ok_def ts_inv_def)

lemma remove_by_key_ts_ok:
  "ts_ok A s \<Longrightarrow> key_ok key \<Longrightarrow>
   \<exists>r s'. TransactionService_remove_transaction_by_key now key force ans s = Inr (r, s') \<and> ts_ok A s'"
  using remove_by_key_ok[OF ts_rel_of_ok] ts_ok_removed_only by fastforce

lemma remove_sid_by_key_ts_ok:
  "ts_ok A s \<Longrightarrow> key_ok key \<Longrightarrow> \<exists>s'. TransactionService_remove_sid_by_key key s = Inr s' \<and> ts_ok A s'"
  using remove_sid_by_key_ok[OF ts_rel_of_ok] ts_ok_removed_only by fastforce

lemma ts_step_total:
  assumes ok: "ts_ok A s" and x: "ts_admissible A x"
  shows "\<exists>s'. ts_step s x = Inr s' \<and> ts_ok A s'"
proof (cases x)
  case (RemoveByKey now key force ans)
  then show ?thesis using remove_by_key_ts_ok[OF ok, of key now force ans] x by (auto simp: ts_step_def)
next
  case (ExpireOld now)
  then show ?thesis using expire_old_assignments_ok[OF ok, of now] by (auto simp: ts_step_def)
next
  case (ExpireContent now)
  then show ?thesis using expire_content_without_sid_ok[OF ok, of now] by (auto simp: ts_step_def)
next
  case (ExpireSid now)
  then show ?thesis using expire_sid_without_content_ok[OF ok, of now] by (auto simp: ts_step_def)
next
  case (Snapshot now d)
  then show ?thesis using snapshot_ts_ok[OF ok, of now d] ok by (auto simp: ts_step_def)
next
  case (SyncTxs now txs)
  then show ?thesis using process_tx_sync_ok[OF ok, of txs now] x by (auto simp: ts_step_def)
next
  case (TrackSeen now h sids)
  then show ?thesis using track_seen_run[OF ok, of h now sids] x by (auto simp: ts_step_def)
qed (use ok x in \<open>simp_all add: ts_step_def assign_ts_ok set_contents_ts_ok remove_sid_by_key_ts_ok remove_by_sid_ts_ok clear_ts_ok
      TransactionService_set_short_id_transaction_type_def TransactionService_track_seen_short_ids_delayed_def
      TransactionService_on_block_cleaned_up_def TransactionService_set_final_tx_confirmations_count_def
      TransactionService_cleanup_removed_transactions_history_def TransactionService_dump_removed_short_ids_def
      TransactionService_get_aggregate_stats_def Let_def request_alarm_def\<close>)

interpretation ts_system: guarded_system ts_step "ts_ok A" "ts_admissible A" for A
  by unfold_locales (rule ts_step_total)

lemma init_ts_ok:
  assumes "TransactionService_init o' network = Inr s"
  shows "ts_ok A s"
proof -
  have "tx_cache_key_to_short_ids s = []" "short_id_to_tx_cache_key s = []" "tx_cache_key_to_contents s = []"
    "total_tx_contents_size s = 0" "queue (tx_assignment_expire_queue s) = []" "queue (tx_hashes_without_short_id s) = []"
    "queue (tx_hashes_without_content s) = []"
    using assms by (auto simp: TransactionService_init_def rbind_eq_Inr ExpirationQueue_init_def split: if_splits)
  then show ?thesis
    by (simp add: ts_ok_def ts_inv_def ts_rel_def within_limit_def tables_ok_def links_ok_def watch_ok_def alarms_ok_def
        eq_wf_def contents_total_def)
qed

subsection \<open>Properties\<close>

definition demo_key :: TransactionKey where
  "demo_key = \<lparr>transaction_hash = replicate 32 7, transaction_cache_key = bytes_to_hex (replicate 32 7)\<rparr>"

definition demo_opts :: ts_opts where
  "demo_opts = \<lparr>sid_expire_time = 100, dump_removed_short_ids = False, transaction_pool_memory_limit = Some 1\<rparr>"

lemma demo_key_ok: "key_ok demo_key"
  by (simp add: key_ok_def demo_key_def)

lemma demo_init: "\<exists>s. TransactionService_init demo_opts None = Inr s"
  by (simp add: TransactionService_init_def demo_opts_def ExpirationQueue_init_def TX_CONTENT_NO_SID_EXPIRE_S_def)

text \<open>
  C1. Whatever sequence of calls a fresh transaction service receives (assignments, contents, removals,
  expiration and memory tasks, block tracking, synchronization), none of them raises as long as every
  short id is used for one transaction hash only; afterwards the two short-id tables are inverse to
  each other, the recorded total is the size of the cached contents and does not exceed a
  non-negative memory limit, every content without short id and every short id without content is
  watched for expiration, and every non-empty queue has its alarm scheduled.
\<close>

theorem tx_service_runs_safely:
  assumes "TransactionService_init o' network = Inr s" and "list_all (ts_admissible A) ops"
  shows "\<exists>s'. rfold ts_step s ops = Inr s' \<and> ts_inv s' \<and> within_limit s'"
  using ts_system.run_total[OF init_ts_ok[OF assms(1)] assms(2)] by (auto simp: ts_ok_def)

theorem tx_service_runs_safely_witness:
  "\<exists>s s'. TransactionService_init demo_opts None = Inr s
     \<and> rfold ts_step s [SetContents 0 demo_key [1, 2, 3], AssignShortId 1 demo_key 5, TrackSeen 2 (replicate 32 0) [5],
          RemoveByShortId 3 True True 5, ExpireOld 4] = Inr s' \<and> ts_inv s' \<and> within_limit s'"
proof -
  obtain s where s: "TransactionService_init demo_opts None = Inr s" using demo_init by blast
  have "list_all (ts_admissible (\<lambda>_. replicate 32 7)) [SetContents 0 demo_key [1, 2, 3], AssignShortId 1 demo_key 5,
      TrackSeen 2 (replicate 32 0) [5], RemoveByShortId 3 True True 5, ExpireOld 4]"
    by (simp add: demo_key_ok) (simp add: demo_key_def)
  from tx_service_runs_safely[OF s this] s show ?thesis by blast
qed

text \<open>
  C27. Storing contents that fit below the memory limit makes exactly these contents retrievable under
  their key, leaves the contents of every other key and the set of known short ids as they were, and
  adjusts the recorded total by the difference in length.
\<close>

theorem set_contents_then_get:
  assumes "ts_inv s" and "key_ok key"
    and "total_tx_contents_size s + int (length c)
      - (case TransactionService_get_transaction_by_key key s of None \<Rightarrow> 0 | Some c' \<Rightarrow> int (length c')) \<le> tx_content_memory_limit s"
  shows "\<exists>s'. TransactionService_set_transaction_contents_by_key now key c s = Inr s' \<and> ts_inv s'
     \<and> (\<forall>key'. TransactionService_get_transaction_by_key key' s' =
          (if transaction_cache_key key' = transaction_cache_key key then Some c
           else TransactionService_get_transaction_by_key key' s))
     \<and> (\<forall>sid. TransactionService_has_short_id sid s' = TransactionService_has_short_id sid s)
     \<and> total_tx_contents_size s' = total_tx_contents_size s + int (length c)
      - (case TransactionService_get_transaction_by_key key s of None \<Rightarrow> 0 | Some c' \<Rightarrow> int (length c'))"
proof -
  obtain s' s'' where s': "contents_stored now key c s s'"
      "TransactionService_set_transaction_contents_by_key now key c s = Inr s''" "ts_inv s''"
      "total_tx_contents_size s' \<le> tx_content_memory_limit s \<longrightarrow> s'' = s'"
    using set_contents_ok[OF assms(1,2)] by blast
  have "s'' = s'"
    using s'(1,4) assms(3) by (simp add: contents_stored_def TransactionService_get_transaction_by_key_def)
  then show ?thesis
    using s'(1-3) by (auto simp: contents_stored_def TransactionService_get_transaction_by_key_def TransactionService_has_short_id_def)
qed

theorem set_contents_then_get_witness:
  "\<exists>s s'. TransactionService_init demo_opts None = Inr s
     \<and> TransactionService_set_transaction_contents_by_key 0 demo_key [1, 2, 3] s = Inr s'
     \<and> TransactionService_get_transaction_by_key demo_key s' = Some [1, 2, 3]"
proof -
  obtain s where s: "TransactionService_init demo_opts None = Inr s" using demo_init by blast
  have "ts_inv s" using init_ts_ok[OF s] by (rule ts_ok_inv)
  moreover have "total_tx_contents_size s + int (length [1, 2, 3 :: nat])
      - (case TransactionService_get_transaction_by_key demo_key s of None \<Rightarrow> 0 | Some c' \<Rightarrow> int (length c')) \<le> tx_content_memory_limit s"
    using s by (auto simp: TransactionService_init_def rbind_eq_Inr demo_opts_def TransactionService_get_transaction_by_key_def
        TransactionService_get_tx_contents_memory_limit_def py_int_of_real_def)
  ultimately show ?thesis
    using set_contents_then_get[of s demo_key "[1, 2, 3]" 0] demo_key_ok s by auto
qed

text \<open>
  C28. A short id assigned to a transaction is found under it: \<open>get_transaction\<close> answers the hash and the
  contents cached for it, \<open>get_short_ids_by_key\<close> contains it, and every other short id answers as before.
\<close>

theorem assign_then_get:
  assumes "key_ok key" and "sid \<noteq> NULL_TX_SID"
  shows "TransactionService_get_transaction sid (TransactionService_assign_short_id_by_key now key sid s)
      = Inr \<lparr>ti_hash = Some (transaction_hash key), ti_contents = TransactionService_get_transaction_by_key key s, ti_short_id = Some sid\<rparr>
    \<and> sid \<in> set (TransactionService_get_short_ids_by_key key (TransactionService_assign_short_id_by_key now key sid s))
    \<and> (\<forall>sid'. sid' \<noteq> sid \<longrightarrow> TransactionService_get_transaction sid' (TransactionService_assign_short_id_by_key now key sid s)
          = TransactionService_get_transaction sid' s)"
proof -
  have "TransactionService_tx_cache_key_to_hash (transaction_cache_key key) = Inr (transaction_hash key)"
    using assms(1) by (simp add: key_ok_def cache_key_to_hash_ok)
  then show ?thesis
    by (simp add: TransactionService_get_transaction_def TransactionService_get_short_ids_by_key_def
        TransactionService_get_transaction_by_key_def assign_tables[OF assms(2)] set_add_def split: option.split)
qed

theorem assign_then_get_witness:
  "\<exists>s. TransactionService_init demo_opts None = Inr s
     \<and> TransactionService_get_transaction 5 (TransactionService_assign_short_id_by_key 0 demo_key 5 s)
        = Inr \<lparr>ti_hash = Some (replicate 32 7), ti_contents = TransactionService_get_transaction_by_key demo_key s, ti_short_id = Some 5\<rparr>"
proof -
  obtain s where s: "TransactionService_init demo_opts None = Inr s" using demo_init by blast
  have "(5::nat) \<noteq> NULL_TX_SID" by (simp add: NULL_TX_SID_def)
  from assign_then_get[OF demo_key_ok this, of 0 s] s show ?thesis by (simp add: demo_key_def)
qed

text \<open>Evicting one assignment takes only its own entry out of the queue.\<close>

lemma remove_by_sid_queue:
  assumes "links_ok (sids_of s) (key_of s)"
    and "TransactionService_remove_transaction_by_short_id now False True x s = Inr s'"
  shows "queue (tx_assignment_expire_queue s') = AList.delete x (queue (tx_assignment_expire_queue s))"
proof (cases "key_of s x")
  case None
  then show ?thesis using assms(2) by (simp add: TransactionService_remove_transaction_by_short_id_def) auto
next
  case (Some k)
  obtain sids where K: "sids_of s k = Some sids" "x \<in> set sids" by (rule links_sidE[OF assms(1) Some])
  have "filter (\<lambda>d. d \<noteq> x) sids = []" if "length sids = 1"
    using K(2) that by (cases sids) auto
  then show ?thesis
    using assms(2) Some K
    by (auto simp: TransactionService_remove_transaction_by_short_id_def Let_def rbind_eq_Inr split: if_splits)
qed

lemma remove_oldest_assignment_queue:
  assumes "ts_inv s" and "remove_oldest_assignment now s = Inr s'"
  shows "queue (tx_assignment_expire_queue s') = tl (queue (tx_assignment_expire_queue s))"
proof (cases "queue (tx_assignment_expire_queue s)")
  case Nil
  then show ?thesis using assms(2) by (simp add: remove_oldest_assignment_def ExpirationQueue_remove_oldest_def)
next
  case (Cons p rest)
  obtain x t where p: "p = (x, t)" by (cases p)
  let ?s1 = "s\<lparr>tx_assignment_expire_queue := (tx_assignment_expire_queue s)\<lparr>queue := rest\<rparr>\<rparr>"
  have links: "links_ok (sids_of ?s1) (key_of ?s1)" using assms(1) by (simp add: ts_inv_def ts_rel_def)
  have run: "TransactionService_remove_transaction_by_short_id now False True x ?s1 = Inr s'"
    using assms(2) Cons p by (simp add: remove_oldest_assignment_def ExpirationQueue_remove_oldest_def)
  have "x \<notin> fst ` set rest" using ts_inv_wf(1)[OF assms(1)] Cons p by (simp add: eq_wf_def)
  then have "AList.delete x rest = rest" by (intro delete_absent) (simp add: map_of_eq_None_iff)
  then show ?thesis using remove_by_sid_queue[OF links run] Cons by simp
qed

text \<open>The queue after the expiration of assignments: the entries that are overdue are taken off its front, 500 at most.\<close>

definition overdue :: "time \<Rightarrow> 'a ExpirationQueue \<Rightarrow> 'a \<times> time \<Rightarrow> bool" where
  "overdue now q p \<longleftrightarrow> now - snd p > time_to_live_sec q"

lemma remove_by_sid_ttl:
  assumes "TransactionService_remove_transaction_by_short_id now False True x s = Inr s'"
  shows "time_to_live_sec (tx_assignment_expire_queue s') = time_to_live_sec (tx_assignment_expire_queue s)"
proof -
  have "time_to_live_sec (tx_assignment_expire_queue (fold (forget_duplicate now) xs s)) = time_to_live_sec (tx_assignment_expire_queue s)" for xs s
    by (induction xs arbitrary: s) (simp_all add: forget_duplicate_def Let_def)
  then show ?thesis
    using assms
    by (auto simp: TransactionService_remove_transaction_by_short_id_def Let_def rbind_eq_Inr split: option.splits if_splits)
qed

lemma remove_first_assignment:
  assumes "ts_ok A s" and "queue (tx_assignment_expire_queue s) = (x, t) # rest"
  shows "\<exists>s'. TransactionService_remove_transaction_by_short_id now False True x
        (s\<lparr>tx_assignment_expire_queue := (tx_assignment_expire_queue s)\<lparr>queue := rest\<rparr>\<rparr>) = Inr s'
    \<and> ts_ok A s' \<and> queue (tx_assignment_expire_queue s') = rest
    \<and> time_to_live_sec (tx_assignment_expire_queue s') = time_to_live_sec (tx_assignment_expire_queue s)"
proof -
  obtain s' where s': "TransactionService_remove_transaction_by_short_id now False True x
        (s\<lparr>tx_assignment_expire_queue := (tx_assignment_expire_queue s)\<lparr>queue := rest\<rparr>\<rparr>) = Inr s'" "ts_ok A s'"
    using assign_task.cb_total[OF assms, of now] by blast
  have "remove_oldest_assignment now s = Inr s'"
    using s'(1) assms(2) by (simp add: remove_oldest_assignment_def ExpirationQueue_remove_oldest_def)
  from remove_oldest_assignment_queue[OF ts_ok_inv[OF assms(1)] this] remove_by_sid_ttl[OF s'(1)] s' assms(2)
  show ?thesis by simp
qed

lemma expire_loop_queue:
  "ts_ok A s \<Longrightarrow> ExpirationQueue_remove_expired_loop n tx_assignment_expire_queue assign_queue_set
      (TransactionService_remove_transaction_by_short_id now False True) now s = Inr (removed, s') \<Longrightarrow>
    queue (tx_assignment_expire_queue s') =
      drop (min n (length (takeWhile (overdue now (tx_assignment_expire_queue s)) (queue (tx_assignment_expire_queue s)))))
        (queue (tx_assignment_expire_queue s))"
proof (induction n arbitrary: s removed)
  case 0
  then show ?case by simp
next
  case (Suc n)
  show ?case
  proof (cases "queue (tx_assignment_expire_queue s)")
    case Nil
    then show ?thesis using Suc.prems(2) by simp
  next
    case (Cons p rest)
    obtain x t where p: "p = (x, t)" by (cases p)
    note q = Cons[unfolded p]
    obtain s1 where s1: "TransactionService_remove_transaction_by_short_id now False True x
        (s\<lparr>tx_assignment_expire_queue := (tx_assignment_expire_queue s)\<lparr>queue := rest\<rparr>\<rparr>) = Inr s1"
      "ts_ok A s1" "queue (tx_assignment_expire_queue s1) = rest"
      "time_to_live_sec (tx_assignment_expire_queue s1) = time_to_live_sec (tx_assignment_expire_queue s)"
      using remove_first_assignment[OF Suc.prems(1) q] by blast
    have same: "overdue now (tx_assignment_expire_queue s1) = overdue now (tx_assignment_expire_queue s)"
      using s1(4) by (simp add: overdue_def fun_eq_iff)
    show ?thesis
    proof (cases "overdue now (tx_assignment_expire_queue s) (x, t)")
      case True
      then obtain r1 where "ExpirationQueue_remove_expired_loop n tx_assignment_expire_queue assign_queue_set
          (TransactionService_remove_transaction_by_short_id now False True) now s1 = Inr (r1, s')"
        using Suc.prems(2) q s1(1) by (auto simp: overdue_def rbind_eq_Inr)
      from Suc.IH[OF s1(2) this] show ?thesis using True q s1(3) same by simp
    next
      case False
      then show ?thesis using Suc.prems(2) q by (simp add: overdue_def)
    qed
  qed
qed

lemma expire_old_queue:
  assumes "ts_ok A s" and "TransactionService_expire_old_assignments now s = Inr (d, s')"
  shows "queue (tx_assignment_expire_queue s') =
      drop (min 500 (length (takeWhile (overdue now (tx_assignment_expire_queue s)) (queue (tx_assignment_expire_queue s)))))
        (queue (tx_assignment_expire_queue s))"
proof -
  obtain removed s1 where s1: "ExpirationQueue_remove_expired_loop MAX_EXPIRED_TXS_TO_REMOVE tx_assignment_expire_queue assign_queue_set
      (TransactionService_remove_transaction_by_short_id now False True) now s = Inr (removed, s1)"
    and s': "queue (tx_assignment_expire_queue s') = queue (tx_assignment_expire_queue s1)"
    using assms(2) by (auto simp: TransactionService_expire_old_assignments_def ExpirationQueue_remove_expired_def rbind_eq_Inr split: if_splits)
  show ?thesis using expire_loop_queue[OF assms(1) s1] s' by (simp add: MAX_EXPIRED_TXS_TO_REMOVE_def)
qed

lemma known_short_ids:
  "ts_inv s \<Longrightarrow> TransactionService_has_short_id x s \<longleftrightarrow> x \<in> fst ` set (queue (tx_assignment_expire_queue s))"
  unfolding ts_inv_def ts_rel_def TransactionService_has_short_id_def by (metis Un_empty_right domIff)

lemma set_drop_distinct: "distinct (map fst q) \<Longrightarrow> fst ` set (drop n q) = fst ` set q - fst ` set (take n q)"
proof -
  assume d: "distinct (map fst q)"
  have "distinct (map fst (take n q) @ map fst (drop n q))" using d by (metis append_take_drop_id map_append)
  moreover have "set q = set (take n q) \<union> set (drop n q)" by (metis append_take_drop_id set_append)
  ultimately show ?thesis by (auto simp: image_Un)
qed

text \<open>
  C30. The expiration task for assignments never raises and removes exactly the short ids that are overdue at
  the front of its queue, up to the first that is not, 500 at most: each of them was assigned longer ago
  than the time to live, and every other short id stays. It answers 0 exactly when no short id is left
  to expire, otherwise a delay of at least 15 seconds.
\<close>

theorem expire_old_assignments_exact:
  assumes "ts_ok A s"
  shows "\<exists>d s'. TransactionService_expire_old_assignments now s = Inr (d, s') \<and> ts_ok A s'
     \<and> (let q = queue (tx_assignment_expire_queue s);
            n = min 500 (length (takeWhile (\<lambda>p. now - snd p > time_to_live_sec (tx_assignment_expire_queue s)) q))
        in queue (tx_assignment_expire_queue s') = drop n q
           \<and> (\<forall>sid. TransactionService_has_short_id sid s' \<longleftrightarrow> TransactionService_has_short_id sid s \<and> sid \<notin> fst ` set (take n q)))
     \<and> (d = 0 \<longleftrightarrow> (\<forall>sid. \<not> TransactionService_has_short_id sid s')) \<and> (d \<noteq> 0 \<longrightarrow> 15 \<le> d)"
proof -
  obtain d s' where s': "TransactionService_expire_old_assignments now s = Inr (d, s')" "ts_ok A s'"
      "d = 0 \<longleftrightarrow> queue (tx_assignment_expire_queue s') = []" "d \<noteq> 0 \<longrightarrow> MIN_CLEAN_UP_EXPIRED_TXS_TASK_INTERVAL_S \<le> d"
    using expire_old_assignments_ok[OF assms] by blast
  have q: "queue (tx_assignment_expire_queue s') =
      drop (min 500 (length (takeWhile (\<lambda>p. now - snd p > time_to_live_sec (tx_assignment_expire_queue s)) (queue (tx_assignment_expire_queue s)))))
        (queue (tx_assignment_expire_queue s))"
    using expire_old_queue[OF assms s'(1)] unfolding overdue_def .
  have d: "distinct (map fst (queue (tx_assignment_expire_queue s)))" using ts_inv_wf(1)[OF ts_ok_inv[OF assms]] by (simp add: eq_wf_def)
  note known = known_short_ids[OF ts_ok_inv[OF assms]] known_short_ids[OF ts_ok_inv[OF s'(2)]]
  have "d = 0 \<longleftrightarrow> (\<forall>sid. \<not> TransactionService_has_short_id sid s')" unfolding known(2) s'(3) by auto
  then show ?thesis
    using s'(1,2,4) q set_drop_distinct[OF d]
    by (intro exI[of _ d] exI[of _ s'] conjI) (simp_all add: Let_def known MIN_CLEAN_UP_EXPIRED_TXS_TASK_INTERVAL_S_def)
qed

theorem expire_old_assignments_exact_witness:
  "\<exists>s d s'. TransactionService_init demo_opts None = Inr s
     \<and> TransactionService_expire_old_assignments 200 (TransactionService_assign_short_id_by_key 0 demo_key 5 s) = Inr (d, s')
     \<and> d = 0"
proof -
  obtain s where s: "TransactionService_init demo_opts None = Inr s" using demo_init by blast
  let ?s1 = "TransactionService_assign_short_id_by_key 0 demo_key 5 s"
  have ok: "ts_ok (\<lambda>_. replicate 32 7) ?s1"
    using init_ts_ok[OF s] demo_key_ok by (rule assign_ts_ok) (simp add: demo_key_def)
  have "queue (tx_assignment_expire_queue ?s1) = [(5, 0)]" "time_to_live_sec (tx_assignment_expire_queue ?s1) = 100"
    using s by (auto simp: TransactionService_init_def rbind_eq_Inr ExpirationQueue_init_def demo_opts_def ExpirationQueue_add_def
        TransactionService_assign_short_id_by_key_def TransactionService_assign_short_id_base_by_key_def Let_def request_alarm_def
        NULL_TX_SID_def)
  with expire_old_assignments_exact[OF ok, of 200] s show ?thesis by (auto simp: Let_def known_short_ids[OF ts_ok_inv])
qed

text \<open>Evicting the oldest assignments one by one.\<close>

primrec evict_oldest :: "nat \<Rightarrow> time \<Rightarrow> TransactionService \<Rightarrow> TransactionService result" where
  "evict_oldest 0 now s = Inr s"
| "evict_oldest (Suc n) now s = rbind (remove_oldest_assignment now s) (evict_oldest n now)"

lemma memory_limit_loop_evicts:
  "ts_inv s \<Longrightarrow> memory_limit_loop now s n = Inr (s', m) \<Longrightarrow>
   \<exists>i. evict_oldest i now s = Inr s' \<and> m = n + int i \<and> queue (tx_assignment_expire_queue s') = drop i (queue (tx_assignment_expire_queue s))
     \<and> (\<forall>j < i. \<exists>sj. evict_oldest j now s = Inr sj \<and> TransactionService_is_exceeding_memory_limit sj)
     \<and> (TransactionService_is_exceeding_memory_limit s' \<longrightarrow> queue (tx_assignment_expire_queue s') = [])"
proof (induction now s n rule: memory_limit_loop.induct)
  case (1 now s n)
  show ?case
  proof (cases "TransactionService_is_exceeding_memory_limit s \<and> ExpirationQueue_bool (tx_assignment_expire_queue s)")
    case True
    obtain s1 where s1: "remove_oldest_assignment now s = Inr s1" "ts_inv s1"
      using remove_oldest_assignment_ok[OF "1.prems"(1)] by blast
    have "memory_limit_loop now s1 (n + 1) = Inr (s', m)"
      using True s1(1) "1.prems"(2) by (subst (asm) memory_limit_loop.simps) simp
    then obtain i where i: "evict_oldest i now s1 = Inr s'" "m = n + 1 + int i"
      "queue (tx_assignment_expire_queue s') = drop i (queue (tx_assignment_expire_queue s1))"
      "\<forall>j < i. \<exists>sj. evict_oldest j now s1 = Inr sj \<and> TransactionService_is_exceeding_memory_limit sj"
      "TransactionService_is_exceeding_memory_limit s' \<longrightarrow> queue (tx_assignment_expire_queue s') = []"
      using "1.IH"[OF True s1(1,2)] by blast
    have "\<exists>sj. evict_oldest j now s = Inr sj \<and> TransactionService_is_exceeding_memory_limit sj" if "j < Suc i" for j
      using that True s1(1) i(4) by (cases j) simp_all
    then show ?thesis
      using i(1-3,5) s1(1) remove_oldest_assignment_queue[OF "1.prems"(1) s1(1)] by (intro exI[of _ "Suc i"]) (simp add: drop_Suc)
  next
    case False
    then have "s' = s" "m = n" using "1.prems"(2) by (subst (asm) memory_limit_loop.simps, auto)+
    then show ?thesis using False by (intro exI[of _ 0]) (auto simp: ExpirationQueue_bool_def ExpirationQueue_len_def)
  qed
qed

text \<open>
  C26. The clean-up for the memory limit returns and evicts assignments strictly from the oldest on, and only
  as many as needed: before each eviction the contents are over the limit. It stops with the contents
  within a non-negative limit, and below the limit it changes nothing. Only when they are still over the
  limit with no assignment left are all contents dropped. Every short id that stays belongs to the same
  transaction as before.
\<close>

theorem memory_limit_evicts_oldest:
  assumes "ts_inv s" and "0 \<le> tx_content_memory_limit s"
  shows "\<exists>i si s'. evict_oldest i now s = Inr si
     \<and> queue (tx_assignment_expire_queue si) = drop i (queue (tx_assignment_expire_queue s))
     \<and> (\<forall>j < i. \<exists>sj. evict_oldest j now s = Inr sj \<and> TransactionService_is_exceeding_memory_limit sj)
     \<and> TransactionService_memory_limit_clean_up now s = Inr s' \<and> ts_inv s' \<and> \<not> TransactionService_is_exceeding_memory_limit s'
     \<and> (if TransactionService_is_exceeding_memory_limit si
        then queue (tx_assignment_expire_queue si) = [] \<and> tx_cache_key_to_contents s' = [] \<and> queue (tx_assignment_expire_queue s') = []
        else s' = si\<lparr>total_tx_removed_by_memory_limit := total_tx_removed_by_memory_limit si + int i\<rparr>)
     \<and> (\<forall>p \<in> set (queue (tx_assignment_expire_queue s')). key_of s' (fst p) = key_of s (fst p))"
proof -
  obtain s' where s': "TransactionService_memory_limit_clean_up now s = Inr s'" "ts_inv s'"
      "tx_content_memory_limit s' = tx_content_memory_limit s" "\<forall>x. key_of s' x = key_of s x \<or> key_of s' x = None"
      "total_tx_contents_size s' \<le> tx_content_memory_limit s'"
    using memory_limit_clean_up_ok[OF assms(1), of now] assms(2) by blast
  have "watched (tx_assignment_expire_queue s') = dom (key_of s')" using s'(2) by (simp add: ts_inv_def ts_rel_def)
  then have kept: "key_of s' (fst p) = key_of s (fst p)" if "p \<in> set (queue (tx_assignment_expire_queue s'))" for p
    using that s'(4) by (metis domIff image_eqI)
  have within: "\<not> TransactionService_is_exceeding_memory_limit s'"
    using s'(3,5) by (simp add: TransactionService_is_exceeding_memory_limit_def)
  obtain s1 m where s1: "memory_limit_loop now s 0 = Inr (s1, m)"
    using memory_limit_loop_ok[OF assms(1)] by blast
  then obtain i where i: "evict_oldest i now s = Inr s1" "m = int i"
      "queue (tx_assignment_expire_queue s1) = drop i (queue (tx_assignment_expire_queue s))"
      "\<forall>j < i. \<exists>sj. evict_oldest j now s = Inr sj \<and> TransactionService_is_exceeding_memory_limit sj"
      "TransactionService_is_exceeding_memory_limit s1 \<longrightarrow> queue (tx_assignment_expire_queue s1) = []"
    using memory_limit_loop_evicts[OF assms(1) s1] by auto
  have end_state: "if TransactionService_is_exceeding_memory_limit s1
        then tx_cache_key_to_contents s' = [] \<and> queue (tx_assignment_expire_queue s') = []
        else s' = s1\<lparr>total_tx_removed_by_memory_limit := total_tx_removed_by_memory_limit s1 + int i\<rparr>"
  proof (cases "total_tx_contents_size s \<le> tx_content_memory_limit s")
    case True
    then have "s1 = s \<and> m = 0" using s1 by (subst (asm) memory_limit_loop.simps) (auto simp: TransactionService_is_exceeding_memory_limit_def)
    then show ?thesis using True s'(1) i(2) by (simp add: TransactionService_memory_limit_clean_up_def TransactionService_is_exceeding_memory_limit_def)
  next
    case False
    then show ?thesis
      using s1 s'(1) i(2,5) by (auto simp: TransactionService_memory_limit_clean_up_def TransactionService_clear_def ExpirationQueue_clear_def
          ExpirationQueue_bool_def ExpirationQueue_len_def)
  qed
  show ?thesis
  proof (intro exI conjI)
    show "if TransactionService_is_exceeding_memory_limit s1
        then queue (tx_assignment_expire_queue s1) = [] \<and> tx_cache_key_to_contents s' = [] \<and> queue (tx_assignment_expire_queue s') = []
        else s' = s1\<lparr>total_tx_removed_by_memory_limit := total_tx_removed_by_memory_limit s1 + int i\<rparr>"
      using end_state i(5) by simp
    show "\<forall>p \<in> set (queue (tx_assignment_expire_queue s')). key_of s' (fst p) = key_of s (fst p)" using kept by blast
  qed (fact i(1) i(3) i(4) s'(1) s'(2) within)+
qed

theorem memory_limit_evicts_oldest_witness:
  "\<exists>s s1 s'. TransactionService_init demo_opts None = Inr s
     \<and> TransactionService_set_transaction_contents_by_key 0 demo_key [1, 2, 3] (TransactionService_assign_short_id_by_key 0 demo_key 5 s) = Inr s1
     \<and> TransactionService_is_exceeding_memory_limit (s1\<lparr>tx_content_memory_limit := 2\<rparr>)
     \<and> TransactionService_memory_limit_clean_up 3 (s1\<lparr>tx_content_memory_limit := 2\<rparr>) = Inr s'
     \<and> \<not> TransactionService_is_exceeding_memory_limit s'"
proof -
  obtain s where s: "TransactionService_init demo_opts None = Inr s" using demo_init by blast
  let ?s0 = "TransactionService_assign_short_id_by_key 0 demo_key 5 s"
  have ok: "ts_ok (\<lambda>_. replicate 32 7) ?s0"
    using init_ts_ok[OF s] demo_key_ok by (rule assign_ts_ok) (simp add: demo_key_def)
  have fresh: "contents_of ?s0 k = None" "tx_content_memory_limit ?s0 = 1048576" for k
    using s by (auto simp: TransactionService_init_def rbind_eq_Inr demo_opts_def TransactionService_get_tx_contents_memory_limit_def
        py_int_of_real_def TransactionService_assign_short_id_by_key_def TransactionService_assign_short_id_base_by_key_def Let_def request_alarm_def)
  obtain s1 s2 where s1: "contents_stored 0 demo_key [1, 2, 3] ?s0 s2"
      "TransactionService_set_transaction_contents_by_key 0 demo_key [1, 2, 3] ?s0 = Inr s1" "ts_inv s1"
      "total_tx_contents_size s2 \<le> tx_content_memory_limit ?s0 \<longrightarrow> s1 = s2"
    using set_contents_ok[OF ts_ok_inv[OF ok] demo_key_ok] by blast
  have "total_tx_contents_size ?s0 = 0"
    using s by (auto simp: TransactionService_init_def rbind_eq_Inr TransactionService_assign_short_id_by_key_def
        TransactionService_assign_short_id_base_by_key_def Let_def request_alarm_def)
  then have "total_tx_contents_size s1 = 3" using s1(1,4) fresh by (simp add: contents_stored_def)
  then have over: "TransactionService_is_exceeding_memory_limit (s1\<lparr>tx_content_memory_limit := 2\<rparr>)"
    by (simp add: TransactionService_is_exceeding_memory_limit_def)
  have "ts_inv (s1\<lparr>tx_content_memory_limit := 2\<rparr>)"
    using s1(3) by (simp add: ts_inv_def ts_rel_def tables_ok_def alarms_ok_def)
  from memory_limit_evicts_oldest[OF this, of 3] s s1(2) over show ?thesis by auto
qed

text \<open>
  C29. Tracking a block: while fewer blocks are tracked than count as final confirmations, the block is only
  recorded. Otherwise the block that was tracked first is forgotten, and with it exactly the transactions
  that one of its short ids belongs to: all short ids of these transactions and their contents disappear,
  every other short id and all other contents stay. The number of tracked blocks stays below the number
  of confirmations.
\<close>

theorem track_seen_removes_final:
  assumes "ts_ok A s" and "length block_hash = 32"
    and "TransactionService_get_tracked_seen_block_count s < max 1 (final_tx_confirmations_count s)"
  shows "\<exists>s'. TransactionService_track_seen_short_ids now block_hash sids s = Inr s' \<and> ts_ok A s'
     \<and> (let seen = AList.update block_hash sids (short_ids_seen_in_block s)
        in if length seen < final_tx_confirmations_count s then s' = s\<lparr>short_ids_seen_in_block := seen\<rparr>
           else short_ids_seen_in_block s' = tl seen
             \<and> (\<forall>x. TransactionService_has_short_id x s' \<longleftrightarrow>
                  TransactionService_has_short_id x s \<and> (\<forall>sid \<in> set (snd (hd seen)). key_of s sid \<noteq> key_of s x))
             \<and> (\<forall>k. contents_of s' k = (if \<exists>sid \<in> set (snd (hd seen)). key_of s sid = Some k then None else contents_of s k)))
     \<and> TransactionService_get_tracked_seen_block_count s' < max 1 (final_tx_confirmations_count s)"
proof -
  let ?seen = "AList.update block_hash sids (short_ids_seen_in_block s)"
  obtain s' where s': "TransactionService_track_seen_short_ids now block_hash sids s = Inr s'" "ts_ok A s'"
      "if length ?seen < final_tx_confirmations_count s
       then s' = s\<lparr>short_ids_seen_in_block := ?seen\<rparr>
       else short_ids_seen_in_block s' = tl ?seen \<and> loses {k. \<exists>sid \<in> set (snd (hd ?seen)). key_of s sid = Some k} s s'"
    using track_seen_run[OF assms(1,2)] by blast
  have "length (AList.update k v al) \<le> Suc (length al)" for k and v :: "nat list" and al
    by (induction al) auto
  from this[of block_hash sids "short_ids_seen_in_block s"]
  have count: "TransactionService_get_tracked_seen_block_count s' < max 1 (final_tx_confirmations_count s)"
    using s'(3) assms(3) by (auto simp: TransactionService_get_tracked_seen_block_count_def split: if_splits)
  have known: "TransactionService_has_short_id x s' \<longleftrightarrow>
      TransactionService_has_short_id x s \<and> (\<forall>sid \<in> set (snd (hd ?seen)). key_of s sid \<noteq> key_of s x)"
    if "loses {k. \<exists>sid \<in> set (snd (hd ?seen)). key_of s sid = Some k} s s'" for x
    using that by (cases "key_of s x") (auto simp: loses_def TransactionService_has_short_id_def)
  show ?thesis
    using s'(1,2) count s'(3) known by (intro exI[of _ s'] conjI) (auto simp: Let_def loses_def split: if_splits)
qed

theorem track_seen_removes_final_witness:
  "\<exists>s s'. TransactionService_init demo_opts None = Inr s
     \<and> TransactionService_track_seen_short_ids 9 (replicate 32 1) [5]
          (TransactionService_set_final_tx_confirmations_count 1 (TransactionService_assign_short_id_by_key 0 demo_key 5 s)) = Inr s'
     \<and> \<not> TransactionService_has_short_id 5 s'"
proof -
  obtain s where s: "TransactionService_init demo_opts None = Inr s" using demo_init by blast
  let ?s1 = "TransactionService_set_final_tx_confirmations_count 1 (TransactionService_assign_short_id_by_key 0 demo_key 5 s)"
  have seen: "short_ids_seen_in_block ?s1 = []" "final_tx_confirmations_count ?s1 = 1"
    using s by (auto simp: TransactionService_init_def rbind_eq_Inr TransactionService_set_final_tx_confirmations_count_def
        TransactionService_assign_short_id_by_key_def TransactionService_assign_short_id_base_by_key_def Let_def request_alarm_def)
  have "ts_ok (\<lambda>_. replicate 32 7) (TransactionService_assign_short_id_by_key 0 demo_key 5 s)"
    using init_ts_ok[OF s] demo_key_ok by (rule assign_ts_ok) (simp add: demo_key_def)
  then have "ts_ok (\<lambda>_. replicate 32 7) ?s1" by (simp add: TransactionService_set_final_tx_confirmations_count_def)
  from track_seen_removes_final[OF this, of "replicate 32 1" 9 "[5]"] seen s show ?thesis
    by (auto simp: TransactionService_get_tracked_seen_block_count_def)
qed

lemma cleanup_history_loop_spec:
  "\<exists>dropped. al = dropped @ cleanup_history_loop now e al
     \<and> length (cleanup_history_loop now e al) \<le> REMOVED_TRANSACTIONS_HISTORY_LENGTH_LIMIT
     \<and> (cleanup_history_loop now e al = [] \<or> now - snd (hd (cleanup_history_loop now e al)) \<le> e)"
proof (induction al)
  case Nil
  then show ?case by simp
next
  case (Cons p al)
  show ?case
  proof (cases "now - snd p > e \<or> length (p # al) > REMOVED_TRANSACTIONS_HISTORY_LENGTH_LIMIT")
    case True
    then have "cleanup_history_loop now e (p # al) = cleanup_history_loop now e al" by simp
    then show ?thesis using Cons.IH by (metis append_Cons)
  next
    case False
    then show ?thesis by (auto intro: exI[of _ "[]"])
  qed
qed

text \<open>
  The periodic clean-up of the removal history terminates for both tables, drops entries from the
  front only, leaves at most 500000 entries and stops at the first one that is not older than the
  expiration time.
\<close>

theorem history_cleanup_bounded:
  "\<exists>dh ds. tx_hash_to_time_removed s = dh @ tx_hash_to_time_removed (snd (TransactionService_cleanup_removed_transactions_history now s))
     \<and> short_id_to_time_removed s = ds @ short_id_to_time_removed (snd (TransactionService_cleanup_removed_transactions_history now s))
     \<and> length (tx_hash_to_time_removed (snd (TransactionService_cleanup_removed_transactions_history now s))) \<le> 500000
     \<and> length (short_id_to_time_removed (snd (TransactionService_cleanup_removed_transactions_history now s))) \<le> 500000
     \<and> (case tx_hash_to_time_removed (snd (TransactionService_cleanup_removed_transactions_history now s)) of
          [] \<Rightarrow> True | p # _ \<Rightarrow> now - snd p \<le> removed_txs_expiration_time_s s)
     \<and> (case short_id_to_time_removed (snd (TransactionService_cleanup_removed_transactions_history now s)) of
          [] \<Rightarrow> True | p # _ \<Rightarrow> now - snd p \<le> removed_txs_expiration_time_s s)"
proof -
  let ?e = "removed_txs_expiration_time_s s"
  have head: "case xs of [] \<Rightarrow> True | p # _ \<Rightarrow> now - snd p \<le> ?e" if "xs = [] \<or> now - snd (hd xs) \<le> ?e"
    for xs :: "('k \<times> time) list" using that by (cases xs) auto
  obtain dh ds where "tx_hash_to_time_removed s = dh @ cleanup_history_loop now ?e (tx_hash_to_time_removed s)"
      "short_id_to_time_removed s = ds @ cleanup_history_loop now ?e (short_id_to_time_removed s)"
    using cleanup_history_loop_spec by metis
  then show ?thesis
    using cleanup_history_loop_spec[of "tx_hash_to_time_removed s" now ?e] cleanup_history_loop_spec[of "short_id_to_time_removed s" now ?e]
    by (auto simp: TransactionService_cleanup_removed_transactions_history_def REMOVED_TRANSACTIONS_HISTORY_LENGTH_LIMIT_def
        split: list.split)
qed

lemma reused_short_id_run:
  assumes "TransactionService_init o' network = Inr s" and "sid \<noteq> NULL_TX_SID"
    and "transaction_cache_key key1 \<noteq> transaction_cache_key key2"
  shows "rbind (TransactionService_remove_sid_by_key key1
      (TransactionService_assign_short_id_by_key t2 key2 sid (TransactionService_assign_short_id_by_key t1 key1 sid s)))
    (TransactionService_remove_sid_by_key key2) = Inl KeyError"
proof -
  have f: "tx_cache_key_to_short_ids s = []" "short_id_to_tx_cache_key s = []" "tx_cache_key_to_contents s = []"
    using assms(1) by (auto simp: TransactionService_init_def rbind_eq_Inr)
  let ?s2 = "TransactionService_assign_short_id_by_key t2 key2 sid (TransactionService_assign_short_id_by_key t1 key1 sid s)"
  have g: "tx_cache_key_to_short_ids ?s2 = [(transaction_cache_key key1, [sid]), (transaction_cache_key key2, [sid])]"
    "short_id_to_tx_cache_key ?s2 = [(sid, transaction_cache_key key2)]" "tx_cache_key_to_contents ?s2 = []"
    using assms(3) by (simp_all add: assign_tables[OF assms(2)] set_add_def f)
  show ?thesis using assms(3) by (simp add: TransactionService_remove_sid_by_key_def g)
qed

text \<open>
  When the network reuses a short id for a second transaction, the first one keeps it in its set, and
  the expiration of the two short ids without contents ends in a \<open>KeyError\<close>.
\<close>

theorem reused_short_id_raises:
  "rbind (TransactionService_init demo_opts None) (\<lambda>s.
   rbind (TransactionService_get_transaction_key (Some (replicate 32 8)) None) (\<lambda>key2.
   rbind (TransactionService_remove_sid_by_key demo_key
       (TransactionService_assign_short_id_by_key 2 key2 5 (TransactionService_assign_short_id_by_key 1 demo_key 5 s)))
     (TransactionService_remove_sid_by_key key2))) = Inl KeyError"
proof -
  obtain s where s: "TransactionService_init demo_opts None = Inr s" using demo_init by blast
  have "(5::nat) \<noteq> NULL_TX_SID" by (simp add: NULL_TX_SID_def)
  moreover have "transaction_cache_key demo_key \<noteq> bytes_to_hex (replicate 32 8)"
    by (simp add: demo_key_def bytes_to_hex_inj replicate_eq_replicate)
  ultimately show ?thesis
    using s reused_short_id_run[OF s, of 5 demo_key "\<lparr>transaction_hash = replicate 32 8, transaction_cache_key = bytes_to_hex (replicate 32 8)\<rparr>" 2 1]
    by (simp add: get_transaction_key_hash)
qed

text \<open>
  \<open>get_removed_tx_hash_time_and_count\<close> looks its hash objects up in a table keyed by strings: it
  reports that none was removed, whatever was removed.
\<close>

theorem removed_hash_lookup_misses:
  "TransactionService_get_removed_tx_hash_time_and_count (map HashObj hs) s = (0, 0)"
proof -
  have "map_of (map (\<lambda>(k, t). (HexStr k, t)) al) (HashObj h) = None" for al :: "(string \<times> time) list" and h
    by (induction al) auto
  then have "foldl (\<lambda>(oldest, n) h.
       (case map_of (map (\<lambda>(k, t). (HexStr k, t)) (tx_hash_to_time_removed s)) h of
          None \<Rightarrow> (oldest, n)
        | Some t \<Rightarrow> (if oldest < t then t else oldest, n + 1))) (0, 0) (map HashObj hs) = (0 :: time, 0 :: nat)"
    by (induction hs) auto
  then show ?thesis unfolding TransactionService_get_removed_tx_hash_time_and_count_def .
qed

text \<open>
  Asked to skip \<open>k > 0\<close> blocks from the end, \<open>get_oldest_tracked_block\<close> skips only \<open>k - 1\<close>: with
  \<open>k = 1\<close> it answers every tracked block.
\<close>

theorem oldest_tracked_block_skips_one_less:
  "TransactionService_get_oldest_tracked_block (int (Suc m)) s
     = take (length (short_ids_seen_in_block s) - m) (map fst (short_ids_seen_in_block s))"
proof -
  have filter_take: "map snd (filter (\<lambda>(idx, _). int idx \<le> int n0 + e) (enumerate n0 xs)) = take (nat (e + 1)) xs"
    for n0 e and xs :: "bytes list"
  proof (induction xs arbitrary: n0 e)
    case Nil
    then show ?case by simp
  next
    case (Cons x xs)
    show ?case
    proof (cases "0 \<le> e")
      case True
      then have "nat (e + 1) = Suc (nat (e - 1 + 1))" by simp
      then show ?thesis using True Cons.IH[of "Suc n0" "e - 1"] by (simp add: algebra_simps)
    next
      case False
      then have "filter (\<lambda>(idx, _). int idx \<le> int n0 + e) (enumerate n0 (x # xs)) = []"
        by (auto simp: filter_empty_conv in_set_enumerate_eq)
      then show ?thesis using False by simp
    qed
  qed
  have "nat (int (length (short_ids_seen_in_block s)) - int (Suc m) + 1) = length (short_ids_seen_in_block s) - m" by linarith
  then show ?thesis
    using filter_take[of 0 "int (length (short_ids_seen_in_block s)) - int (Suc m)" "map fst (short_ids_seen_in_block s)"]
    by (simp add: TransactionService_get_oldest_tracked_block_def TransactionService_iter_block_seen_by_time_def Let_def)
qed

end
