(* ===== verification/Buffers.thy ===== *)
theory Buffers
  imports Bx_Prelude
begin

text \<open>
  The byte queues between a socket and a connection (\<open>bxcommon/utils/buffers\<close>): \<open>InputBuffer\<close>
  (\<open>input_buffer.py\<close>), \<open>OutputBuffer\<close> (\<open>output_buffer.py\<close>) and \<open>MessageTracker\<close>
  (\<open>message_tracker.py\<close>).

  Both buffers hold lists of pieces; what they promise is about the bytes those pieces spell
  (\<open>in_content\<close>, \<open>out_content\<close>), whatever the pieces are. The locale \<open>refined_system\<close> is interpreted on
  the input buffer and the tracker: runs of the piece-wise operations implement runs on plain byte
  strings. The promise of the output buffer, where a send may wait, is the step relation \<open>queue_step\<close>.

  A piece is held by value: that a \<open>bytearray\<close> handed to the buffer is extended in place, and is then
  longer for its other holders too, is not modelled.
\<close>

subsection \<open>Python slices\<close>

definition slice_index :: "int \<Rightarrow> nat \<Rightarrow> nat" where
  "slice_index i n = (if i < 0 then nat (max 0 (i + int n)) else min (nat i) n)"

definition py_slice :: "int \<Rightarrow> int \<Rightarrow> 'a list \<Rightarrow> 'a list" where
  "py_slice a b xs = bslice (slice_index a (length xs)) (slice_index b (length xs)) xs"

lemma py_slice_nat:
  "0 \<le> a \<Longrightarrow> 0 \<le> b \<Longrightarrow> py_slice a b xs = bslice (nat a) (nat b) xs"
  by (cases "nat b \<le> length xs"; cases "nat a \<le> length xs")
    (auto simp: py_slice_def slice_index_def bslice_def min_def)

subsection \<open>InputBuffer\<close>

datatype piece_kind = Bytearray | ReadOnly

type_synonym piece = "piece_kind \<times> bytes"

record InputBuffer =
  input_list :: "piece list"
  in_length :: int

definition InputBuffer_init :: InputBuffer where
  "InputBuffer_init = \<lparr>input_list = [], in_length = 0\<rparr>"

fun extend_head :: "int \<Rightarrow> bytes \<Rightarrow> piece list \<Rightarrow> bytes \<times> piece list" where
  "extend_head end head [] = (head, [])"
| "extend_head end head (p # ps) =
     (if end > int (length head) then extend_head end (head @ snd p) ps else (head, p # ps))"

definition InputBuffer_shrink_if_needed :: "int \<Rightarrow> bool \<Rightarrow> InputBuffer \<Rightarrow> InputBuffer" where
  "InputBuffer_shrink_if_needed end ensure_byte_array b =
     (case input_list b of
        [] \<Rightarrow> b
      | (kind, head_message) # rest \<Rightarrow>
          if end > int (length head_message) \<or> ensure_byte_array
          then let (head, rest') = extend_head end head_message rest
               in b\<lparr>input_list := (Bytearray, head) # rest'\<rparr>
          else b)"

definition InputBuffer_add_bytes :: "piece \<Rightarrow> InputBuffer \<Rightarrow> InputBuffer" where
  "InputBuffer_add_bytes p b =
     b\<lparr>input_list := input_list b @ [p], in_length := in_length b + int (length (snd p))\<rparr>"

definition InputBuffer_remove_bytes :: "int option \<Rightarrow> InputBuffer \<Rightarrow> (bytes \<times> InputBuffer) result" where
  "InputBuffer_remove_bytes num_bytes b =
     (case num_bytes of
        None \<Rightarrow> Inl ValueError
      | Some n \<Rightarrow>
          if n < 0 then Inl ValueError
          else let b1 = InputBuffer_shrink_if_needed n True b
          in case input_list b1 of
               [] \<Rightarrow> if n = 0 then Inr ([], b1) else Inl AssertionError
             | (kind, head) # rest \<Rightarrow>
                 if n > 0
                 then Inr (take (nat n) head,
                           b1\<lparr>input_list := (kind, drop (nat n) head) # rest, in_length := in_length b1 - n\<rparr>)
                 else Inr ([], b1))"

definition InputBuffer_peek_message :: "int \<Rightarrow> InputBuffer \<Rightarrow> (bytes \<times> InputBuffer) result" where
  "InputBuffer_peek_message bytes_to_peek b =
     (let n = (if bytes_to_peek > in_length b then in_length b else bytes_to_peek)
      in if n = 0 then Inr ([], b)
         else let b1 = InputBuffer_shrink_if_needed n False b
              in case input_list b1 of [] \<Rightarrow> Inl IndexError | p # _ \<Rightarrow> Inr (snd p, b1))"

definition InputBuffer_get_slice ::
    "int option \<Rightarrow> int option \<Rightarrow> InputBuffer \<Rightarrow> (piece \<times> InputBuffer) result" where
  "InputBuffer_get_slice start end b =
     (case (start, end) of
        (Some s, Some e) \<Rightarrow>
          if in_length b < s then Inl ValueError
          else let b1 = InputBuffer_shrink_if_needed e False b
               in (case input_list b1 of
                     [] \<Rightarrow> Inl IndexError
                   | (kind, head) # _ \<Rightarrow> Inr ((kind, py_slice s e head), b1))
      | _ \<Rightarrow> Inl ValueError)"

definition InputBuffer_len :: "InputBuffer \<Rightarrow> int" where
  "InputBuffer_len b = in_length b"

text \<open>An index is a plain integer or a slice with optional start, stop and step.\<close>

datatype py_index = Index int | Slice "int option" "int option" "int option"

definition InputBuffer_getitem :: "py_index \<Rightarrow> InputBuffer \<Rightarrow> (piece \<times> InputBuffer) result" where
  "InputBuffer_getitem item b =
     (case item of
        Index _ \<Rightarrow> Inl ValueError
      | Slice start stop step \<Rightarrow>
          if step \<noteq> None \<and> step \<noteq> Some 1 then Inl ValueError
          else InputBuffer_get_slice
                 (Some (case start of None \<Rightarrow> 0 | Some s \<Rightarrow> s))
                 (Some (case stop of None \<Rightarrow> in_length b | Some e \<Rightarrow> e)) b)"

definition ends_with :: "bytes \<Rightarrow> bytes \<Rightarrow> bool" where
  "ends_with suffix bs \<longleftrightarrow> length suffix \<le> length bs \<and> drop (length bs - length suffix) bs = suffix"

definition InputBuffer_endswith :: "bytes \<Rightarrow> InputBuffer \<Rightarrow> (bool \<times> InputBuffer) result" where
  "InputBuffer_endswith suffix b =
     (if input_list b = [] then Inr (False, b)
      else rbind
        (if length (snd (last (input_list b))) < length suffix
         then InputBuffer_get_slice (Some (in_length b - int (length suffix))) (Some (in_length b)) b
         else Inr (last (input_list b), b))
        (\<lambda>((kind, end_slice), b1).
           Inr (ends_with suffix end_slice,
                if kind = Bytearray then b1
                else b1\<lparr>input_list := butlast (input_list b1) @ [(Bytearray, end_slice)]\<rparr>)))"

text \<open>What the pieces spell, and the invariant that ties the length to it.\<close>

definition in_content :: "InputBuffer \<Rightarrow> bytes" where
  "in_content b = concat (map snd (input_list b))"

definition ib_inv :: "InputBuffer \<Rightarrow> bool" where
  "ib_inv b \<longleftrightarrow> in_length b = int (length (in_content b))"

lemma extend_head_concat:
  "extend_head e head ps = (head', ps') \<Longrightarrow> head' @ concat (map snd ps') = head @ concat (map snd ps)"
  by (induction e head ps rule: extend_head.induct) (auto split: if_splits)

lemma extend_head_enough:
  "extend_head e head ps = (head', ps') \<Longrightarrow> e \<le> int (length (head @ concat (map snd ps))) \<Longrightarrow>
   e \<le> int (length head')"
  by (induction e head ps rule: extend_head.induct) (auto split: if_splits)

lemma shrink_content [simp]:
  "in_content (InputBuffer_shrink_if_needed e f b) = in_content b"
  "in_length (InputBuffer_shrink_if_needed e f b) = in_length b"
  "ib_inv (InputBuffer_shrink_if_needed e f b) = ib_inv b"
proof -
  show c: "in_content (InputBuffer_shrink_if_needed e f b) = in_content b"
    by (auto simp: InputBuffer_shrink_if_needed_def in_content_def Let_def
        dest: extend_head_concat split: list.splits prod.splits)
  show l: "in_length (InputBuffer_shrink_if_needed e f b) = in_length b"
    by (auto simp: InputBuffer_shrink_if_needed_def Let_def split: list.splits prod.splits)
  show "ib_inv (InputBuffer_shrink_if_needed e f b) = ib_inv b" by (simp add: ib_inv_def c l)
qed

text \<open>After shrinking, the first piece covers the requested bytes.\<close>

lemma shrink_head:
  assumes "input_list b \<noteq> []" and "e \<le> int (length (in_content b))"
  obtains kind head rest where "input_list (InputBuffer_shrink_if_needed e f b) = (kind, head) # rest"
    "e \<le> int (length head)" "in_content b = head @ concat (map snd rest)"
proof -
  obtain kind h rest where l: "input_list b = (kind, h) # rest"
    using assms(1) by (cases "input_list b") auto
  obtain h' rest' where x: "extend_head e h rest = (h', rest')" by (cases "extend_head e h rest")
  have "e \<le> int (length h') \<and> in_content b = h' @ concat (map snd rest')"
    using extend_head_enough[OF x] extend_head_concat[OF x] assms(2) l by (simp add: in_content_def)
  note new = this
  have l': "input_list (InputBuffer_shrink_if_needed e f b)
      = (if e > int (length h) \<or> f then (Bytearray, h') # rest' else (kind, h) # rest)"
    using l x by (simp add: InputBuffer_shrink_if_needed_def)
  have old: "in_content b = h @ concat (map snd rest)" using l by (simp add: in_content_def)
  show thesis
  proof (cases "e > int (length h) \<or> f")
    case True
    with l' new show thesis by (intro that[of Bytearray h' rest']) simp_all
  next
    case False
    with l' show thesis by (intro that[of kind h rest] old) simp_all
  qed
qed

lemma bslice_append: "b \<le> length xs \<Longrightarrow> bslice a b (xs @ ys) = bslice a b xs"
  by (simp add: bslice_def)

lemma add_bytes_content [simp]:
  "in_content (InputBuffer_add_bytes p b) = in_content b @ snd p"
  "ib_inv b \<Longrightarrow> ib_inv (InputBuffer_add_bytes p b)"
  by (auto simp: InputBuffer_add_bytes_def in_content_def ib_inv_def)

lemma remove_bytes_spec:
  assumes "ib_inv b" and "n \<le> length (in_content b)"
  shows "\<exists>b'. InputBuffer_remove_bytes (Some (int n)) b = Inr (take n (in_content b), b')
    \<and> ib_inv b' \<and> in_content b' = drop n (in_content b)"
proof (cases "input_list b = []")
  case True
  then show ?thesis
    using assms by (simp add: InputBuffer_remove_bytes_def InputBuffer_shrink_if_needed_def in_content_def)
next
  case False
  obtain kind head rest where h: "input_list (InputBuffer_shrink_if_needed (int n) True b) = (kind, head) # rest"
    "int n \<le> int (length head)" "in_content b = head @ concat (map snd rest)"
    using shrink_head[OF False, of "int n" True] assms(2) by auto
  show ?thesis
  proof (cases "n = 0")
    case True
    then show ?thesis using h assms(1) by (simp add: InputBuffer_remove_bytes_def)
  next
    case False
    then show ?thesis
      using h assms by (auto simp: InputBuffer_remove_bytes_def ib_inv_def in_content_def)
  qed
qed

lemma remove_bytes_too_many:
  assumes "ib_inv b" and "input_list b = []" and "0 < n"
  shows "InputBuffer_remove_bytes (Some n) b = Inl AssertionError"
  using assms by (simp add: InputBuffer_remove_bytes_def InputBuffer_shrink_if_needed_def)

lemma peek_message_spec:
  assumes "ib_inv b" and "0 \<le> n"
  shows "\<exists>bs b'. InputBuffer_peek_message n b = Inr (bs, b') \<and> ib_inv b' \<and> in_content b' = in_content b
    \<and> (\<exists>rest. in_content b = bs @ rest) \<and> min (nat n) (length (in_content b)) \<le> length bs"
proof -
  let ?n = "if n > in_length b then in_length b else n"
  have n: "?n \<le> int (length (in_content b))" "0 \<le> ?n" using assms by (auto simp: ib_inv_def)
  show ?thesis
  proof (cases "?n = 0")
    case True
    then have "InputBuffer_peek_message n b = Inr ([], b)" by (simp add: InputBuffer_peek_message_def)
    moreover have "min (nat n) (length (in_content b)) = 0" using True assms by (auto simp: ib_inv_def split: if_splits)
    ultimately show ?thesis using assms(1) by simp
  next
    case False
    then have "in_content b \<noteq> []" using n by auto
    then have ne: "input_list b \<noteq> []" by (auto simp: in_content_def)
    obtain kind head rest where h: "input_list (InputBuffer_shrink_if_needed ?n False b) = (kind, head) # rest"
      "?n \<le> int (length head)" "in_content b = head @ concat (map snd rest)"
      using shrink_head[OF ne n(1), of False] by blast
    have "InputBuffer_peek_message n b = Inr (head, InputBuffer_shrink_if_needed ?n False b)"
      using False h(1) by (simp add: InputBuffer_peek_message_def Let_def)
    moreover have "min (nat n) (length (in_content b)) \<le> length head"
      using h(2) assms by (auto simp: ib_inv_def split: if_splits)
    ultimately show ?thesis using assms(1) h(3) by auto
  qed
qed

lemma get_slice_spec:
  assumes "ib_inv b" and "input_list b \<noteq> []" and "s \<le> e" and "e \<le> length (in_content b)"
  shows "\<exists>kind b'. InputBuffer_get_slice (Some (int s)) (Some (int e)) b
      = Inr ((kind, bslice s e (in_content b)), b') \<and> ib_inv b' \<and> in_content b' = in_content b"
proof -
  obtain kind head rest where h: "input_list (InputBuffer_shrink_if_needed (int e) False b) = (kind, head) # rest"
    "int e \<le> int (length head)" "in_content b = head @ concat (map snd rest)"
    using shrink_head[OF assms(2), of "int e" False] assms(4) by auto
  have "py_slice (int s) (int e) head = bslice s e (in_content b)"
    using h(2,3) by (simp add: py_slice_nat bslice_append)
  then show ?thesis
    using h(1) assms by (auto simp: InputBuffer_get_slice_def Let_def ib_inv_def)
qed


text \<open>
  Runs: pieces arrive, the reader peeks, and takes a message off when all its bytes are there.
  The abstract state is the bytes taken and the bytes waiting.
\<close>

datatype in_op = Arrive piece | Take nat | Peek nat

fun in_step :: "InputBuffer \<times> bytes \<Rightarrow> in_op \<Rightarrow> (InputBuffer \<times> bytes) result" where
  "in_step (b, taken) (Arrive p) = Inr (InputBuffer_add_bytes p b, taken)"
| "in_step (b, taken) (Take n) =
     (if int n \<le> InputBuffer_len b
      then rbind (InputBuffer_remove_bytes (Some (int n)) b) (\<lambda>(bs, b'). Inr (b', taken @ bs))
      else Inr (b, taken))"
| "in_step (b, taken) (Peek n) =
     rbind (InputBuffer_peek_message (int n) b) (\<lambda>(_, b'). Inr (b', taken))"

fun in_astep :: "bytes \<times> bytes \<Rightarrow> in_op \<Rightarrow> bytes \<times> bytes" where
  "in_astep (taken, waiting) (Arrive p) = (taken, waiting @ snd p)"
| "in_astep (taken, waiting) (Take n) =
     (if n \<le> length waiting then (taken @ take n waiting, drop n waiting) else (taken, waiting))"
| "in_astep (taken, waiting) (Peek n) = (taken, waiting)"

lemma in_step_spec:
  assumes "ib_inv (fst s)"
  shows "\<exists>s'. in_step s x = Inr s' \<and> ib_inv (fst s')
    \<and> (snd s', in_content (fst s')) = in_astep (snd s, in_content (fst s)) x"
proof -
  obtain b taken where s: "s = (b, taken)" by (cases s)
  have inv: "ib_inv b" using assms s by simp
  show ?thesis
  proof (cases x)
    case (Arrive p)
    then show ?thesis using s inv by simp
  next
    case (Take n)
    then show ?thesis
      using s inv remove_bytes_spec[OF inv, of n] by (auto simp: InputBuffer_len_def ib_inv_def)
  next
    case (Peek n)
    then show ?thesis using s inv peek_message_spec[OF inv, of "int n"] by auto
  qed
qed

interpretation input_buffer: refined_system in_step "\<lambda>s. ib_inv (fst s)" "\<lambda>_. True"
    "\<lambda>s. (snd s, in_content (fst s))" in_astep
proof unfold_locales
  fix s :: "InputBuffer \<times> bytes" and x assume "ib_inv (fst s)"
  from in_step_spec[OF this, of x] show "\<exists>s'. in_step s x = Inr s' \<and> ib_inv (fst s')" by blast
next
  fix s :: "InputBuffer \<times> bytes" and x s' assume inv: "ib_inv (fst s)" and step: "in_step s x = Inr s'"
  from in_step_spec[OF inv, of x] step
  show "(snd s', in_content (fst s')) = in_astep (snd s, in_content (fst s)) x" by auto
qed

text \<open>
  C25. \<open>InputBuffer\<close> is a byte stream: over any sequence of arriving pieces, peeks and removals of
  available bytes it never raises, and the bytes removed and the bytes left are those of the plain
  concatenation of the pieces, however the stream was cut into pieces. Its recorded length is the
  number of bytes left.
\<close>

theorem input_buffer_is_stream:
  "\<exists>b taken. rfold in_step (InputBuffer_init, []) ops = Inr (b, taken)
    \<and> (taken, in_content b) = foldl in_astep ([], []) ops
    \<and> InputBuffer_len b = int (length (in_content b))"
proof -
  have init: "ib_inv (fst (InputBuffer_init, [] :: bytes))"
    by (simp add: ib_inv_def InputBuffer_init_def in_content_def)
  have "\<exists>s'. rfold in_step (InputBuffer_init, []) ops = Inr s' \<and> ib_inv (fst s')
      \<and> (snd s', in_content (fst s')) = foldl in_astep (snd (InputBuffer_init, [] :: bytes), in_content (fst (InputBuffer_init, [] :: bytes))) ops"
    using input_buffer.run_refines[OF init, of ops] by (simp add: list_all_iff)
  moreover have "in_content InputBuffer_init = []" by (simp add: InputBuffer_init_def in_content_def)
  ultimately show ?thesis by (auto simp: InputBuffer_len_def ib_inv_def)
qed

text \<open>
  \<open>endswith\<close> destroys data: when the only piece is not a \<open>bytearray\<close> and is shorter than the
  suffix, the slice from a negative start replaces the piece, so bytes are lost and the recorded
  length no longer matches.
\<close>

theorem endswith_loses_bytes:
  "let b = InputBuffer_add_bytes (ReadOnly, [1, 2, 3]) InputBuffer_init
   in ib_inv b \<and> (\<exists>b'. InputBuffer_endswith [9, 9, 9, 9] b = Inr (False, b')
        \<and> in_content b' = [3] \<and> in_length b' = 3 \<and> \<not> ib_inv b')"
  by (simp add: InputBuffer_add_bytes_def InputBuffer_init_def InputBuffer_endswith_def
      InputBuffer_get_slice_def InputBuffer_shrink_if_needed_def py_slice_def slice_index_def bslice_def
      ends_with_def ib_inv_def in_content_def)

subsection \<open>OutputBuffer\<close>

definition OUTPUT_BUFFER_MIN_SIZE :: nat where "OUTPUT_BUFFER_MIN_SIZE = 65535"
definition OUTPUT_BUFFER_BATCH_MAX_HOLD_TIME :: time where "OUTPUT_BUFFER_BATCH_MAX_HOLD_TIME = 5 / 100"

text \<open>
  \<open>last_memview\<close> is the view of \<open>last_bytearray\<close> and is set and cleared with it, so it has no field of
  its own.
\<close>

record OutputBuffer =
  enable_buffering :: bool
  output_msgs :: "bytes list"
  index :: nat
  out_length :: int
  min_size :: nat
  max_hold_time :: time
  last_bytearray :: "bytes option"
  valid_len :: nat
  last_bytearray_create_time :: "time option"

definition OutputBuffer_init :: "nat option \<Rightarrow> time option \<Rightarrow> bool \<Rightarrow> OutputBuffer" where
  "OutputBuffer_init min_size_arg max_hold_arg buffering =
     \<lparr>enable_buffering = buffering, output_msgs = [], index = 0, out_length = 0,
      min_size = (case min_size_arg of None \<Rightarrow> OUTPUT_BUFFER_MIN_SIZE | Some n \<Rightarrow> n),
      max_hold_time = (case max_hold_arg of None \<Rightarrow> OUTPUT_BUFFER_BATCH_MAX_HOLD_TIME | Some t \<Rightarrow> t),
      last_bytearray = None, valid_len = 0, last_bytearray_create_time = None\<rparr>"

definition OutputBuffer_len :: "OutputBuffer \<Rightarrow> int" where
  "OutputBuffer_len ob = out_length ob"

definition OutputBuffer_has_more_bytes :: "OutputBuffer \<Rightarrow> bool" where
  "OutputBuffer_has_more_bytes ob \<longleftrightarrow> out_length ob \<noteq> 0"

definition OutputBuffer_at_msg_boundary :: "OutputBuffer \<Rightarrow> bool" where
  "OutputBuffer_at_msg_boundary ob \<longleftrightarrow> index ob = 0"

definition OutputBuffer_flush :: "OutputBuffer \<Rightarrow> OutputBuffer" where
  "OutputBuffer_flush ob =
     (case last_bytearray ob of
        None \<Rightarrow> ob
      | Some bs \<Rightarrow> ob\<lparr>output_msgs := output_msgs ob @ [take (valid_len ob) bs],
                     last_bytearray_create_time := None, last_bytearray := None, valid_len := 0\<rparr>)"

definition OutputBuffer_get_buffer :: "time \<Rightarrow> OutputBuffer \<Rightarrow> (bytes \<times> OutputBuffer) result" where
  "OutputBuffer_get_buffer now ob =
     rbind (if enable_buffering ob \<and> last_bytearray ob \<noteq> None
            then (case last_bytearray_create_time ob of
                    None \<Rightarrow> Inl TypeError
                  | Some t \<Rightarrow> Inr (if now - t \<ge> max_hold_time ob then OutputBuffer_flush ob else ob))
            else Inr ob)
       (\<lambda>ob1. case output_msgs ob1 of [] \<Rightarrow> Inr ([], ob1) | m # _ \<Rightarrow> Inr (drop (index ob1) m, ob1))"

text \<open>
  The queued messages are memoryviews, as the comment on \<open>output_msgs\<close> says and as \<open>rawbytes\<close> returns
  them. For a \<open>bytearray\<close> in front, which \<open>enqueue_msgbytes\<close> accepts as well, the text of the error
  message cannot be built (\<open>bytearray\<close> has no \<open>tobytes\<close>), and advancing too far raises \<open>AttributeError\<close>
  instead of the \<open>ValueError\<close> below.
\<close>

definition OutputBuffer_advance_buffer :: "int \<Rightarrow> OutputBuffer \<Rightarrow> OutputBuffer result" where
  "OutputBuffer_advance_buffer num_bytes ob =
     (if num_bytes < 0 then Inl ValueError
      else case output_msgs ob of
        [] \<Rightarrow> if num_bytes > 0 then Inl ValueError else Inl IndexError
      | m # rest \<Rightarrow>
          if index ob + nat num_bytes > length m then Inl ValueError
          else let ob1 = ob\<lparr>index := index ob + nat num_bytes, out_length := out_length ob - num_bytes\<rparr>
               in Inr (if index ob1 = length m then ob1\<lparr>output_msgs := rest, index := 0\<rparr> else ob1))"

definition OutputBuffer_enqueue_msgbytes :: "time \<Rightarrow> bytes \<Rightarrow> OutputBuffer \<Rightarrow> OutputBuffer result" where
  "OutputBuffer_enqueue_msgbytes now msg_bytes ob =
     rbind
       (if \<not> enable_buffering ob then Inr (ob\<lparr>output_msgs := output_msgs ob @ [msg_bytes]\<rparr>)
        else if length msg_bytes + valid_len ob > min_size ob
        then let ob1 = (if last_bytearray ob \<noteq> None then OutputBuffer_flush ob else ob)
             in Inr (ob1\<lparr>output_msgs := output_msgs ob1 @ [msg_bytes]\<rparr>)
        else case last_bytearray ob of
          None \<Rightarrow>
            Inr (ob\<lparr>last_bytearray := Some (slice_assign 0 (length msg_bytes) msg_bytes (replicate (min_size ob) 0)),
                    valid_len := length msg_bytes, last_bytearray_create_time := Some now\<rparr>)
        | Some bs \<Rightarrow>
            (case last_bytearray_create_time ob of
               None \<Rightarrow> Inl ValueError
             | Some t \<Rightarrow>
                 let ob1 = ob\<lparr>last_bytearray :=
                             Some (slice_assign (valid_len ob) (valid_len ob + length msg_bytes) msg_bytes bs),
                             valid_len := valid_len ob + length msg_bytes\<rparr>
                 in Inr (if now - t > max_hold_time ob then OutputBuffer_flush ob1 else ob1)))
       (\<lambda>ob1. Inr (ob1\<lparr>out_length := out_length ob1 + int (length msg_bytes)\<rparr>))"

definition OutputBuffer_prepend_msgbytes :: "bytes \<Rightarrow> OutputBuffer \<Rightarrow> OutputBuffer result" where
  "OutputBuffer_prepend_msgbytes msg_bytes ob =
     rbind
       (if index ob = 0 then Inr (ob\<lparr>output_msgs := msg_bytes # output_msgs ob\<rparr>)
        else case output_msgs ob of
          [] \<Rightarrow> Inl IndexError
        | prev_msg # rest \<Rightarrow> Inr (ob\<lparr>output_msgs := prev_msg # msg_bytes # rest\<rparr>))
       (\<lambda>ob1. Inr (ob1\<lparr>out_length := out_length ob1 + int (length msg_bytes)\<rparr>))"

definition OutputBuffer_safe_empty :: "OutputBuffer \<Rightarrow> OutputBuffer" where
  "OutputBuffer_safe_empty ob =
     (let ob1 = OutputBuffer_flush ob
      in case output_msgs ob1 of
           first # _ \<Rightarrow>
             if index ob1 \<noteq> 0
             then ob1\<lparr>output_msgs := [first], out_length := int (length first) - int (index ob1)\<rparr>
             else ob1\<lparr>output_msgs := [], out_length := 0\<rparr>
         | [] \<Rightarrow> ob1\<lparr>output_msgs := [], out_length := 0\<rparr>)"

text \<open>
  The bytes still to be sent: the rest of the message in progress, then the queued messages, then
  the bytes held back for batching.
\<close>

definition held_back :: "OutputBuffer \<Rightarrow> bytes" where
  "held_back ob = (case last_bytearray ob of None \<Rightarrow> [] | Some bs \<Rightarrow> take (valid_len ob) bs)"

definition out_content :: "OutputBuffer \<Rightarrow> bytes" where
  "out_content ob = drop (index ob) (concat (output_msgs ob)) @ held_back ob"

definition batch_ok :: "OutputBuffer \<Rightarrow> bool" where
  "batch_ok ob \<longleftrightarrow> (case last_bytearray ob of
      None \<Rightarrow> valid_len ob = 0
    | Some bs \<Rightarrow> enable_buffering ob \<and> length bs = min_size ob \<and> valid_len ob \<le> min_size ob
        \<and> last_bytearray_create_time ob \<noteq> None)"

definition ob_inv :: "OutputBuffer \<Rightarrow> bool" where
  "ob_inv ob \<longleftrightarrow> out_length ob = int (length (out_content ob))
     \<and> (case output_msgs ob of [] \<Rightarrow> index ob = 0 | m # _ \<Rightarrow> index ob = 0 \<or> index ob < length m)
     \<and> batch_ok ob"

lemma batch_update [simp]:
  "batch_ok (ob\<lparr>index := i\<rparr>) = batch_ok ob" "batch_ok (ob\<lparr>out_length := l\<rparr>) = batch_ok ob"
  "batch_ok (ob\<lparr>output_msgs := ms\<rparr>) = batch_ok ob"
  "held_back (ob\<lparr>index := i\<rparr>) = held_back ob" "held_back (ob\<lparr>out_length := l\<rparr>) = held_back ob"
  "held_back (ob\<lparr>output_msgs := ms\<rparr>) = held_back ob"
  by (simp_all add: batch_ok_def held_back_def split: option.split)

lemma ob_index_le: "ob_inv ob \<Longrightarrow> index ob \<le> length (concat (output_msgs ob))"
  by (auto simp: ob_inv_def split: list.splits)

lemma flush_spec:
  assumes "ob_inv ob"
  shows "ob_inv (OutputBuffer_flush ob) \<and> out_content (OutputBuffer_flush ob) = out_content ob
    \<and> out_length (OutputBuffer_flush ob) = out_length ob \<and> index (OutputBuffer_flush ob) = index ob
    \<and> last_bytearray (OutputBuffer_flush ob) = None
    \<and> (\<forall>m ms. output_msgs ob = m # ms \<longrightarrow> (\<exists>ms'. output_msgs (OutputBuffer_flush ob) = m # ms'))"
proof (cases "last_bytearray ob")
  case None
  then show ?thesis using assms by (simp add: OutputBuffer_flush_def)
next
  case (Some bs)
  have c: "out_content (OutputBuffer_flush ob) = out_content ob"
    using Some ob_index_le[OF assms] by (simp add: OutputBuffer_flush_def out_content_def held_back_def)
  then show ?thesis
    using Some assms by (auto simp: OutputBuffer_flush_def ob_inv_def batch_ok_def split: list.splits)
qed

lemma get_buffer_spec:
  assumes "ob_inv ob"
  shows "\<exists>bs ob'. OutputBuffer_get_buffer now ob = Inr (bs, ob') \<and> ob_inv ob'
    \<and> out_content ob' = out_content ob \<and> (\<exists>rest. out_content ob = bs @ rest)
    \<and> (case output_msgs ob' of [] \<Rightarrow> bs = [] | m # _ \<Rightarrow> bs = drop (index ob') m)"
proof -
  obtain ob1 where ob1: "ob_inv ob1" "out_content ob1 = out_content ob"
    "OutputBuffer_get_buffer now ob =
      (case output_msgs ob1 of [] \<Rightarrow> Inr ([], ob1) | m # _ \<Rightarrow> Inr (drop (index ob1) m, ob1))"
  proof (cases "enable_buffering ob \<and> last_bytearray ob \<noteq> None")
    case True
    then obtain t where t: "last_bytearray_create_time ob = Some t"
      using assms by (auto simp: ob_inv_def batch_ok_def split: option.splits)
    show thesis
      using True t that[of "OutputBuffer_flush ob"] that[of ob] flush_spec[OF assms] assms
      by (cases "now - t \<ge> max_hold_time ob") (simp_all add: OutputBuffer_get_buffer_def)
  next
    case False
    then show thesis using that[of ob] assms by (auto simp: OutputBuffer_get_buffer_def)
  qed
  show ?thesis
  proof (cases "output_msgs ob1")
    case Nil
    then show ?thesis using ob1 by simp
  next
    case (Cons m ms)
    have "index ob1 \<le> length m" using ob1(1) Cons by (auto simp: ob_inv_def)
    then have "out_content ob1 = drop (index ob1) m @ (concat ms @ held_back ob1)"
      using Cons by (simp add: out_content_def)
    then show ?thesis using ob1 Cons by auto
  qed
qed

lemma advance_spec:
  assumes "ob_inv ob" and "output_msgs ob = m # ms" and "n \<le> length m - index ob"
  shows "\<exists>ob'. OutputBuffer_advance_buffer (int n) ob = Inr ob' \<and> ob_inv ob'
    \<and> out_content ob' = drop n (out_content ob)"
proof -
  have le: "index ob \<le> length m" using assms(1,2) by (auto simp: ob_inv_def)
  have c: "out_content ob = drop (index ob) m @ concat ms @ held_back ob"
    using assms(2) le by (simp add: out_content_def)
  let ?ob1 = "ob\<lparr>index := index ob + n, out_length := out_length ob - int n\<rparr>"
  let ?ob2 = "if index ob + n = length m then ?ob1\<lparr>output_msgs := ms, index := 0\<rparr> else ?ob1"
  have "OutputBuffer_advance_buffer (int n) ob = Inr ?ob2"
    using assms(2,3) le by (simp add: OutputBuffer_advance_buffer_def Let_def)
  moreover have "out_content ?ob2 = drop n (out_content ob)"
    using assms(2,3) le by (auto simp: c out_content_def add.commute)
  moreover from this have "ob_inv ?ob2"
    using assms le c by (auto simp: ob_inv_def split: list.splits)
  ultimately show ?thesis by blast
qed


lemma enqueue_spec:
  assumes "ob_inv ob"
  shows "\<exists>ob'. OutputBuffer_enqueue_msgbytes now msg ob = Inr ob' \<and> ob_inv ob'
    \<and> out_content ob' = out_content ob @ msg"
proof -
  have direct: "ob_inv (ob1\<lparr>output_msgs := output_msgs ob1 @ [msg], out_length := out_length ob1 + int (length msg)\<rparr>)
      \<and> out_content (ob1\<lparr>output_msgs := output_msgs ob1 @ [msg], out_length := out_length ob1 + int (length msg)\<rparr>)
        = out_content ob1 @ msg"
    if "ob_inv ob1" "held_back ob1 = []" for ob1
    using that ob_index_le[OF that(1)]
    by (auto simp: ob_inv_def out_content_def split: list.splits)
  have none: "held_back ob = []" if "last_bytearray ob = None" using that by (simp add: held_back_def)
  have parts: "out_length ob = int (length (out_content ob))"
    "case output_msgs ob of [] \<Rightarrow> index ob = 0 | m # _ \<Rightarrow> index ob = 0 \<or> index ob < length m" "batch_ok ob"
    using assms by (simp_all add: ob_inv_def)
  consider (plain) "\<not> enable_buffering ob"
    | (big) "enable_buffering ob" "length msg + valid_len ob > min_size ob"
    | (first) "enable_buffering ob" "\<not> length msg + valid_len ob > min_size ob" "last_bytearray ob = None"
    | (more) bs where "enable_buffering ob" "\<not> length msg + valid_len ob > min_size ob" "last_bytearray ob = Some bs"
    by (cases "last_bytearray ob") auto
  then show ?thesis
  proof cases
    case plain
    then have "last_bytearray ob = None" using parts(3) by (auto simp: batch_ok_def split: option.splits)
    then show ?thesis
      using plain direct[OF assms none] by (simp add: OutputBuffer_enqueue_msgbytes_def)
  next
    case big
    let ?f = "if last_bytearray ob \<noteq> None then OutputBuffer_flush ob else ob"
    have "ob_inv ?f" "held_back ?f = []" "out_content ?f = out_content ob"
      using flush_spec[OF assms] assms none by (auto simp: held_back_def)
    then show ?thesis
      using big direct[of ?f] by (simp add: OutputBuffer_enqueue_msgbytes_def Let_def)
  next
    case first
    have v: "valid_len ob = 0" using first parts(3) by (simp add: batch_ok_def)
    then show ?thesis
      using first parts by (auto simp: OutputBuffer_enqueue_msgbytes_def ob_inv_def batch_ok_def
          out_content_def held_back_def slice_assign_def split: list.splits)
  next
    case (more bs)
    obtain t where t: "last_bytearray_create_time ob = Some t" "length bs = min_size ob" "valid_len ob \<le> min_size ob"
      using more parts(3) by (auto simp: batch_ok_def)
    let ?ob1 = "ob\<lparr>last_bytearray := Some (slice_assign (valid_len ob) (valid_len ob + length msg) msg bs),
                    valid_len := valid_len ob + length msg\<rparr>"
    let ?ob2 = "?ob1\<lparr>out_length := out_length ob + int (length msg)\<rparr>"
    have c: "out_content ?ob2 = out_content ob @ msg"
      using more t by (simp add: out_content_def held_back_def slice_assign_def)
    have inv: "ob_inv ?ob2"
      using more t parts c by (auto simp: ob_inv_def batch_ok_def slice_assign_def split: list.splits)
    have "(OutputBuffer_flush ?ob1)\<lparr>out_length := out_length ob + int (length msg)\<rparr> = OutputBuffer_flush ?ob2"
      by (simp add: OutputBuffer_flush_def)
    then have "OutputBuffer_enqueue_msgbytes now msg ob = Inr (if now - t > max_hold_time ob then OutputBuffer_flush ?ob2 else ?ob2)"
      using more t by (simp add: OutputBuffer_enqueue_msgbytes_def Let_def) (simp add: OutputBuffer_flush_def)
    then show ?thesis using inv c flush_spec[OF inv] by auto
  qed
qed

lemma prepend_spec:
  assumes "ob_inv ob"
  shows "\<exists>ob'. OutputBuffer_prepend_msgbytes msg ob = Inr ob' \<and> ob_inv ob'
    \<and> (if OutputBuffer_at_msg_boundary ob then out_content ob' = msg @ out_content ob
       else \<exists>m ms. output_msgs ob = m # ms \<and> out_content ob' = drop (index ob) m @ msg @ concat ms @ held_back ob)"
proof (cases "index ob = 0")
  case True
  then show ?thesis
    using assms by (auto simp: OutputBuffer_prepend_msgbytes_def OutputBuffer_at_msg_boundary_def
        ob_inv_def out_content_def split: list.splits)
next
  case False
  then obtain m ms where m: "output_msgs ob = m # ms" "index ob < length m"
    using assms by (auto simp: ob_inv_def split: list.splits)
  then show ?thesis
    using False assms by (auto simp: OutputBuffer_prepend_msgbytes_def OutputBuffer_at_msg_boundary_def
        ob_inv_def out_content_def)
qed

lemma safe_empty_spec:
  assumes "ob_inv ob"
  shows "ob_inv (OutputBuffer_safe_empty ob)
    \<and> out_content (OutputBuffer_safe_empty ob) =
        (if OutputBuffer_at_msg_boundary ob then [] else drop (index ob) (hd (output_msgs ob)))"
proof -
  let ?f = "OutputBuffer_flush ob"
  have f: "ob_inv ?f" "index ?f = index ob" "last_bytearray ?f = None"
    "\<forall>m ms. output_msgs ob = m # ms \<longrightarrow> (\<exists>ms'. output_msgs ?f = m # ms')"
    using flush_spec[OF assms] by auto
  then have h: "held_back ?f = []" "batch_ok ?f" by (simp_all add: held_back_def ob_inv_def)
  show ?thesis
  proof (cases "index ob = 0")
    case True
    then show ?thesis
      using f h by (auto simp: OutputBuffer_safe_empty_def Let_def ob_inv_def out_content_def
          OutputBuffer_at_msg_boundary_def split: list.split)
  next
    case False
    then obtain m ms where m: "output_msgs ob = m # ms" "index ob < length m"
      using assms by (auto simp: ob_inv_def split: list.splits)
    then obtain ms' where "output_msgs ?f = m # ms'" using f(4) by blast
    then show ?thesis
      using False m f h by (auto simp: OutputBuffer_safe_empty_def Let_def ob_inv_def out_content_def
          OutputBuffer_at_msg_boundary_def)
  qed
qed


text \<open>
  The unsent rest of a message that is partly sent, and everything behind it. A batch counts as one
  message once it is flushed.
\<close>

definition in_progress :: "OutputBuffer \<Rightarrow> bytes" where
  "in_progress ob = (if index ob = 0 then [] else drop (index ob) (hd (output_msgs ob)))"

definition waiting :: "OutputBuffer \<Rightarrow> bytes" where
  "waiting ob = (if index ob = 0 then concat (output_msgs ob) else concat (tl (output_msgs ob))) @ held_back ob"

lemma content_parts: "ob_inv ob \<Longrightarrow> out_content ob = in_progress ob @ waiting ob"
  by (auto simp: ob_inv_def in_progress_def waiting_def out_content_def split: list.splits)

text \<open>Operations that leave the message in progress alone.\<close>

definition same_front :: "OutputBuffer \<Rightarrow> OutputBuffer \<Rightarrow> bool" where
  "same_front ob ob' \<longleftrightarrow> index ob' = index ob \<and> (\<forall>m ms. output_msgs ob = m # ms \<longrightarrow> (\<exists>ms'. output_msgs ob' = m # ms'))"

lemma same_front_progress:
  assumes "same_front ob ob'" and "ob_inv ob"
  shows "in_progress ob' = in_progress ob"
  using assms by (cases "output_msgs ob") (auto simp: same_front_def in_progress_def ob_inv_def)

lemma same_front_trans: "same_front a b \<Longrightarrow> same_front b c \<Longrightarrow> same_front a c"
  unfolding same_front_def by metis

lemma same_front_flush: "ob_inv ob \<Longrightarrow> same_front ob (OutputBuffer_flush ob)"
  using flush_spec[of ob] by (simp add: same_front_def)

lemma same_front_append:
  "same_front ob (ob\<lparr>output_msgs := output_msgs ob @ xs, out_length := l\<rparr>)" "same_front ob ob"
  "same_front ob (ob\<lparr>last_bytearray := b, valid_len := v, last_bytearray_create_time := t, out_length := l\<rparr>)"
  "same_front ob (ob\<lparr>last_bytearray := b, valid_len := v, out_length := l\<rparr>)"
  by (auto simp: same_front_def)

lemma flush_out_length: "(OutputBuffer_flush ob)\<lparr>out_length := l\<rparr> = OutputBuffer_flush (ob\<lparr>out_length := l\<rparr>)"
  by (simp add: OutputBuffer_flush_def split: option.split)

lemma flush_front: "same_front ob (OutputBuffer_flush ob)"
  by (auto simp: same_front_def OutputBuffer_flush_def split: option.split)

lemma enqueue_front:
  assumes "OutputBuffer_enqueue_msgbytes now msg ob = Inr ob'"
  shows "same_front ob ob'"
  using assms flush_front[of ob]
  by (auto simp: OutputBuffer_enqueue_msgbytes_def Let_def rbind_eq_Inr same_front_def
      OutputBuffer_flush_def split: if_splits option.splits)

lemma get_buffer_front:
  assumes "OutputBuffer_get_buffer now ob = Inr (bs, ob')"
  shows "same_front ob ob'"
  using assms flush_front[of ob] same_front_append(2)[of ob]
  by (auto simp: OutputBuffer_get_buffer_def rbind_eq_Inr split: if_splits option.splits list.splits)

text \<open>
  Runs of the sending side. \<open>Send now k\<close> is one write to the socket: the buffer is asked for bytes and
  advanced by as many of them as the socket accepted (\<open>k\<close> at most). The ghost component collects
  what was sent.
\<close>

datatype out_op = Enqueue time bytes | Prepend bytes | Flush | Safe_empty | Send time nat

fun out_step :: "OutputBuffer \<times> bytes \<Rightarrow> out_op \<Rightarrow> (OutputBuffer \<times> bytes) result" where
  "out_step (ob, sent) (Enqueue now msg) =
     rbind (OutputBuffer_enqueue_msgbytes now msg ob) (\<lambda>ob'. Inr (ob', sent))"
| "out_step (ob, sent) (Prepend msg) = rbind (OutputBuffer_prepend_msgbytes msg ob) (\<lambda>ob'. Inr (ob', sent))"
| "out_step (ob, sent) Flush = Inr (OutputBuffer_flush ob, sent)"
| "out_step (ob, sent) Safe_empty = Inr (OutputBuffer_safe_empty ob, sent)"
| "out_step (ob, sent) (Send now k) =
     rbind (OutputBuffer_get_buffer now ob) (\<lambda>(bs, ob1).
       if bs = [] then Inr (ob1, sent)
       else rbind (OutputBuffer_advance_buffer (int (min k (length bs))) ob1)
              (\<lambda>ob2. Inr (ob2, sent @ take k bs)))"

text \<open>
  The queue that is promised: bytes sent, the rest of a message that has been started, and what waits
  behind it. New messages go to the end, prepended ones in front of what waits but never into a started
  message; emptying keeps a started message. Sending continues a started message with as much as the
  socket takes of it; otherwise it starts a next message, whose length only the sender knows, or waits
  (for a batch to fill, or because the next message is empty).
\<close>

inductive queue_step :: "out_op \<Rightarrow> bytes \<times> bytes \<times> bytes \<Rightarrow> bytes \<times> bytes \<times> bytes \<Rightarrow> bool" where
  appended: "queue_step (Enqueue now msg) (s, c, w) (s, c, w @ msg)"
| prepended: "queue_step (Prepend msg) (s, c, w) (s, c, msg @ w)"
| flushed: "queue_step Flush (s, c, w) (s, c, w)"
| emptied: "queue_step Safe_empty (s, c, w) (s, c, [])"
| continued: "c \<noteq> [] \<Longrightarrow> queue_step (Send now k) (s, c, w) (s @ take k c, drop k c, w)"
| started: "m \<noteq> [] \<Longrightarrow> 0 < k \<Longrightarrow> queue_step (Send now k) (s, [], m @ w) (s @ take k m, drop k m, w)"
| held_up: "queue_step (Send now k) (s, [], w) (s, [], w)"

inductive queue_run :: "out_op list \<Rightarrow> bytes \<times> bytes \<times> bytes \<Rightarrow> bytes \<times> bytes \<times> bytes \<Rightarrow> bool" where
  stop: "queue_run [] q q"
| more: "queue_step x q q' \<Longrightarrow> queue_run xs q' q'' \<Longrightarrow> queue_run (x # xs) q q''"

definition queue_of :: "OutputBuffer \<times> bytes \<Rightarrow> bytes \<times> bytes \<times> bytes" where
  "queue_of s = (snd s, in_progress (fst s), waiting (fst s))"

lemma queue_of_step:
  assumes "ob_inv ob" and "ob_inv ob'" and "same_front ob ob'" and "out_content ob' = out_content ob @ msg"
  shows "in_progress ob' = in_progress ob" and "waiting ob' = waiting ob @ msg"
  using assms content_parts[OF assms(1)] content_parts[OF assms(2)] same_front_progress[OF assms(3,1)] by auto

lemma send_step:
  assumes "ob_inv ob"
  shows "\<exists>s'. out_step (ob, sent) (Send now k) = Inr s' \<and> ob_inv (fst s') \<and> queue_step (Send now k) (queue_of (ob, sent)) (queue_of s')"
proof -
  obtain bs ob1 where g: "OutputBuffer_get_buffer now ob = Inr (bs, ob1)" "ob_inv ob1"
    "out_content ob1 = out_content ob" "case output_msgs ob1 of [] \<Rightarrow> bs = [] | m # _ \<Rightarrow> bs = drop (index ob1) m"
    using get_buffer_spec[OF assms, of now] by blast
  have same: "in_progress ob1 = in_progress ob" "waiting ob1 = waiting ob"
    using queue_of_step[OF assms g(2) get_buffer_front[OF g(1)], of "[]"] g(3) by simp_all
  show ?thesis
  proof (cases "bs = []")
    case True
    then have "in_progress ob1 = []" using g(2,4) by (auto simp: in_progress_def ob_inv_def split: list.splits)
    then show ?thesis using True g(1,2) same by (simp add: queue_of_def held_up)
  next
    case False
    then obtain m ms where m: "output_msgs ob1 = m # ms" "bs = drop (index ob1) m"
      using g(4) by (auto split: list.splits)
    let ?n = "min k (length bs)"
    obtain ob2 where a: "OutputBuffer_advance_buffer (int ?n) ob1 = Inr ob2" "ob_inv ob2"
      using advance_spec[OF g(2) m(1), of ?n] m(2) by auto
    have ob2: "ob2 = (if index ob1 + ?n = length m then ob1\<lparr>out_length := out_length ob1 - int ?n, output_msgs := ms, index := 0\<rparr>
                      else ob1\<lparr>index := index ob1 + ?n, out_length := out_length ob1 - int ?n\<rparr>)"
      using a(1) m(1) by (auto simp: OutputBuffer_advance_buffer_def Let_def split: if_splits)
    have held: "held_back ob2 = held_back ob1" using ob2 by (simp add: held_back_def split: option.split)
    have "queue_step (Send now k) (sent, in_progress ob1, waiting ob1) (sent @ take k bs, in_progress ob2, waiting ob2)"
    proof (cases "index ob1 = 0")
      case True
      then have first: "in_progress ob1 = []" "waiting ob1 = bs @ concat ms @ held_back ob1" "bs = m"
        using m by (auto simp: in_progress_def waiting_def)
      show ?thesis
      proof (cases "k = 0")
        case True
        then have "ob2 = ob1" using ob2 m(2) False \<open>index ob1 = 0\<close> by auto
        then show ?thesis using True first by (simp add: held_up)
      next
        case n: False
        then have "in_progress ob2 = drop k bs" "waiting ob2 = concat ms @ held_back ob1"
          using ob2 m True False held by (auto simp: in_progress_def waiting_def min_def split: if_splits)
        then show ?thesis using started[of bs k now sent "concat ms @ held_back ob1"] n first False by simp
      qed
    next
      case i: False
      have lt: "index ob1 < length m" using g(2) m(1) i by (simp add: ob_inv_def)
      then have "in_progress ob2 = drop k bs" "waiting ob2 = waiting ob1"
        using ob2 m i held by (auto simp: in_progress_def waiting_def min_def add.commute split: if_splits)
      moreover have "in_progress ob1 = bs" using m i by (simp add: in_progress_def)
      ultimately show ?thesis using continued[of bs now k sent "waiting ob1"] False by simp
    qed
    then show ?thesis using g(1) a False same by (simp add: queue_of_def)
  qed
qed

lemma out_step_spec:
  assumes "ob_inv (fst s)"
  shows "\<exists>s'. out_step s x = Inr s' \<and> ob_inv (fst s') \<and> queue_step x (queue_of s) (queue_of s')"
proof -
  obtain ob sent where s: "s = (ob, sent)" by (cases s)
  have inv: "ob_inv ob" using assms s by simp
  show ?thesis
  proof (cases x)
    case (Enqueue now msg)
    obtain ob' where "OutputBuffer_enqueue_msgbytes now msg ob = Inr ob'" "ob_inv ob'" "out_content ob' = out_content ob @ msg"
      using enqueue_spec[OF inv] by blast
    then show ?thesis using s Enqueue queue_of_step[OF inv _ enqueue_front] by (simp add: queue_of_def appended)
  next
    case (Prepend msg)
    obtain ob' where ob': "OutputBuffer_prepend_msgbytes msg ob = Inr ob'" "ob_inv ob'" using prepend_spec[OF inv] by blast
    have "in_progress ob' = in_progress ob" "waiting ob' = msg @ waiting ob"
      using ob'(1) inv by (auto simp: OutputBuffer_prepend_msgbytes_def rbind_eq_Inr in_progress_def waiting_def split: if_splits list.splits)
    then show ?thesis using s Prepend ob' by (simp add: queue_of_def prepended)
  next
    case Flush
    then show ?thesis using s flush_spec[OF inv] queue_of_step[OF inv _ flush_front, of "[]"] by (simp add: queue_of_def flushed)
  next
    case Safe_empty
    let ?e = "OutputBuffer_safe_empty ob"
    have e: "ob_inv ?e" "out_content ?e = in_progress ob"
      using safe_empty_spec[OF inv] by (simp_all add: OutputBuffer_at_msg_boundary_def in_progress_def)
    have "in_progress ?e = in_progress ob"
      using flush_spec[OF inv] inv by (cases "output_msgs ob")
        (auto simp: OutputBuffer_safe_empty_def in_progress_def Let_def ob_inv_def split: list.split)
    moreover from this have "waiting ?e = []" using e content_parts[OF e(1)] by simp
    ultimately show ?thesis using s Safe_empty e(1) by (simp add: queue_of_def emptied)
  next
    case (Send now k)
    then show ?thesis using s send_step[OF inv] by simp
  qed
qed

lemma out_run_spec:
  "ob_inv (fst s) \<Longrightarrow> \<exists>s'. rfold out_step s ops = Inr s' \<and> ob_inv (fst s') \<and> queue_run ops (queue_of s) (queue_of s')"
proof (induction ops arbitrary: s)
  case Nil
  then show ?case by (simp add: stop)
next
  case (Cons x ops)
  obtain s1 where s1: "out_step s x = Inr s1" "ob_inv (fst s1)" "queue_step x (queue_of s) (queue_of s1)"
    using out_step_spec[OF Cons.prems] by blast
  from Cons.IH[OF s1(2)] show ?case using s1 by (auto intro: queue_run.more)
qed

text \<open>Without prepending and emptying the promised queue is first in, first out.\<close>

fun enqueued :: "out_op \<Rightarrow> bytes" where
  "enqueued (Enqueue now msg) = msg"
| "enqueued _ = []"

fun in_order :: "out_op \<Rightarrow> bool" where
  "in_order (Prepend msg) = False"
| "in_order Safe_empty = False"
| "in_order _ = True"

lemma queue_run_fifo:
  "queue_run ops (s, c, w) (s', c', w') \<Longrightarrow> list_all in_order ops \<Longrightarrow> s' @ c' @ w' = s @ c @ w @ concat (map enqueued ops)"
proof (induction ops "(s, c, w)" "(s', c', w')" arbitrary: s c w rule: queue_run.induct)
  case (more x q' xs)
  obtain s1 c1 w1 where q': "q' = (s1, c1, w1)" by (cases q')
  have "s1 @ c1 @ w1 = s @ c @ w @ enqueued x" using more.hyps(1) more.prems unfolding q' by (auto elim!: queue_step.cases)
  then show ?case using more.hyps(3)[OF q'] more.prems by simp
qed simp

lemma ob_inv_init: "ob_inv (OutputBuffer_init ms mh eb)" "out_content (OutputBuffer_init ms mh eb) = []"
  by (simp_all add: OutputBuffer_init_def ob_inv_def batch_ok_def out_content_def held_back_def)

text \<open>
  C24. \<open>OutputBuffer\<close> implements the promised queue, with or without batching: whatever operations are called
  and whatever sizes the socket accepts, no operation raises, what is sent, in progress and waiting is
  what a run of the queue gives, and the recorded length is the number of bytes held. Without prepending
  and emptying, the bytes sent followed by the bytes held are exactly the enqueued messages in order.
\<close>

theorem output_buffer_fifo:
  "\<exists>ob sent. rfold out_step (OutputBuffer_init ms mh eb, []) ops = Inr (ob, sent)
    \<and> queue_run ops ([], [], []) (sent, in_progress ob, waiting ob)
    \<and> (list_all in_order ops \<longrightarrow> sent @ out_content ob = concat (map enqueued ops))
    \<and> OutputBuffer_len ob = int (length (in_progress ob @ waiting ob))
    \<and> (OutputBuffer_has_more_bytes ob \<longleftrightarrow> in_progress ob @ waiting ob \<noteq> [])"
proof -
  have init: "ob_inv (fst (OutputBuffer_init ms mh eb, [] :: bytes))" by (simp add: ob_inv_init)
  have "queue_of (OutputBuffer_init ms mh eb, []) = ([], [], [])"
    by (simp add: queue_of_def in_progress_def waiting_def OutputBuffer_init_def held_back_def)
  with out_run_spec[OF init, of ops] obtain ob sent where r: "rfold out_step (OutputBuffer_init ms mh eb, []) ops = Inr (ob, sent)"
    "ob_inv ob" "queue_run ops ([], [], []) (sent, in_progress ob, waiting ob)"
    by (auto simp: queue_of_def)
  have l: "out_length ob = int (length (in_progress ob @ waiting ob))"
    using r(2) content_parts[OF r(2)] by (simp add: ob_inv_def)
  show ?thesis
  proof (intro exI conjI impI)
    show "rfold out_step (OutputBuffer_init ms mh eb, []) ops = Inr (ob, sent)" by (fact r(1))
    show "queue_run ops ([], [], []) (sent, in_progress ob, waiting ob)" by (fact r(3))
    show "sent @ out_content ob = concat (map enqueued ops)" if "list_all in_order ops"
      using queue_run_fifo[OF r(3) that] content_parts[OF r(2)] by simp
    show "OutputBuffer_len ob = int (length (in_progress ob @ waiting ob))" using l by (simp add: OutputBuffer_len_def)
    show "OutputBuffer_has_more_bytes ob \<longleftrightarrow> in_progress ob @ waiting ob \<noteq> []"
      using l by (simp add: OutputBuffer_has_more_bytes_def del: length_append append_is_Nil_conv)
  qed
qed

theorem output_buffer_fifo_witness:
  "\<exists>ob sent. rfold out_step (OutputBuffer_init None None False, []) [Enqueue 0 [1, 2], Send 0 1, Prepend [9]] = Inr (ob, sent)
    \<and> queue_run [Enqueue 0 [1, 2], Send 0 1, Prepend [9]] ([], [], []) (sent, in_progress ob, waiting ob)"
  using output_buffer_fifo[of None None False "[Enqueue 0 [1, 2], Send 0 1, Prepend [9]]"] by blast

text \<open>
  \<open>prepend_msgbytes\<close> and \<open>safe_empty\<close> respect message boundaries: a prepended message goes to the
  very front when nothing of the first message has been sent and right behind that message otherwise,
  and \<open>safe_empty\<close> keeps exactly the unsent rest of a message that is partly sent.
\<close>

theorem output_buffer_boundaries:
  assumes "ob_inv ob"
  shows "(\<exists>ob'. OutputBuffer_prepend_msgbytes msg ob = Inr ob' \<and> ob_inv ob'
      \<and> out_content ob' = (if index ob = 0 then msg @ out_content ob
          else drop (index ob) (hd (output_msgs ob)) @ msg @ concat (tl (output_msgs ob)) @ held_back ob))
    \<and> ob_inv (OutputBuffer_safe_empty ob)
    \<and> out_content (OutputBuffer_safe_empty ob) =
        (if index ob = 0 then [] else drop (index ob) (hd (output_msgs ob)))"
  using prepend_spec[OF assms, of msg] safe_empty_spec[OF assms]
  by (auto simp: OutputBuffer_at_msg_boundary_def split: if_splits)

theorem output_buffer_boundaries_witness:
  "\<exists>ob'. OutputBuffer_prepend_msgbytes [7] ((OutputBuffer_init None None False)\<lparr>output_msgs := [[1, 2], [3]], index := 1, out_length := 2\<rparr>)
      = Inr ob' \<and> out_content ob' = [2, 7, 3]"
proof -
  let ?ob = "(OutputBuffer_init None None False)\<lparr>output_msgs := [[1, 2], [3]], index := 1, out_length := 2\<rparr>"
  have held: "held_back (OutputBuffer_init None None False) = []" "batch_ok (OutputBuffer_init None None False)"
    by (simp_all add: held_back_def batch_ok_def OutputBuffer_init_def)
  then have "ob_inv ?ob" by (simp add: ob_inv_def out_content_def)
  from output_buffer_boundaries[OF this, of "[7]"] show ?thesis by (auto simp: held)
qed

subsection \<open>MessageTracker\<close>

record 'm MessageTrackerEntry =
  mt_message :: "'m option"
  mt_label :: "string option"
  sent_bytes :: int
  entry_length :: int
  queued_time :: time
  last_operation_time :: time

record 'm MessageTracker =
  messages :: "'m MessageTrackerEntry list"
  is_working :: bool
  bytes_remaining :: int

definition MessageTrackerEntry_init :: "time \<Rightarrow> 'm option \<Rightarrow> int \<Rightarrow> string option \<Rightarrow> 'm MessageTrackerEntry" where
  "MessageTrackerEntry_init now message length_arg label =
     \<lparr>mt_message = message, mt_label = label, sent_bytes = 0, entry_length = length_arg,
      queued_time = now, last_operation_time = 0\<rparr>"

definition MessageTracker_init :: "'m MessageTracker" where
  "MessageTracker_init = \<lparr>messages = [], is_working = True, bytes_remaining = 0\<rparr>"

definition MessageTracker_is_sending_block_message :: "('m \<Rightarrow> bool) \<Rightarrow> 'm MessageTracker \<Rightarrow> bool" where
  "MessageTracker_is_sending_block_message is_block t \<longleftrightarrow>
     (case messages t of [] \<Rightarrow> False
      | entry # _ \<Rightarrow> (case mt_message entry of None \<Rightarrow> False | Some m \<Rightarrow> is_block m))"

definition entry_left :: "'m MessageTrackerEntry \<Rightarrow> int" where
  "entry_left e = entry_length e - sent_bytes e"

fun advance_bytes_loop ::
    "time \<Rightarrow> int \<Rightarrow> int \<Rightarrow> 'm MessageTrackerEntry list \<Rightarrow> 'm MessageTrackerEntry list \<times> int" where
  "advance_bytes_loop now bytes_left remaining [] = ([], if bytes_left > 0 then 0 else remaining)"
| "advance_bytes_loop now bytes_left remaining (e # es) =
     (if bytes_left > 0 then
        if bytes_left \<ge> entry_left e then advance_bytes_loop now (bytes_left - entry_left e) remaining es
        else (e\<lparr>sent_bytes := sent_bytes e + bytes_left, last_operation_time := now\<rparr> # es, remaining)
      else (e # es, remaining))"

definition MessageTracker_advance_bytes :: "time \<Rightarrow> int \<Rightarrow> 'm MessageTracker \<Rightarrow> 'm MessageTracker" where
  "MessageTracker_advance_bytes now num_bytes t =
     (if \<not> is_working t then t
      else let (es, remaining) = advance_bytes_loop now num_bytes (bytes_remaining t - num_bytes) (messages t)
           in t\<lparr>messages := es, bytes_remaining := remaining\<rparr>)"

definition MessageTracker_append_message ::
    "time \<Rightarrow> int \<Rightarrow> 'm option \<Rightarrow> string option \<Rightarrow> 'm MessageTracker \<Rightarrow> 'm MessageTracker" where
  "MessageTracker_append_message now num_bytes message label t =
     (if \<not> is_working t then t
      else t\<lparr>messages := messages t @ [MessageTrackerEntry_init now message num_bytes label],
             bytes_remaining := bytes_remaining t + num_bytes\<rparr>)"

definition MessageTracker_prepend_message ::
    "time \<Rightarrow> int \<Rightarrow> 'm option \<Rightarrow> string option \<Rightarrow> 'm MessageTracker \<Rightarrow> 'm MessageTracker" where
  "MessageTracker_prepend_message now num_bytes message label t =
     (if \<not> is_working t then t
      else let entry = MessageTrackerEntry_init now message num_bytes label;
               es = (case messages t of
                       in_progress_message # rest \<Rightarrow>
                         if sent_bytes in_progress_message \<noteq> 0 then in_progress_message # entry # rest
                         else messages t @ [entry]
                     | [] \<Rightarrow> messages t @ [entry])
           in t\<lparr>messages := es, bytes_remaining := bytes_remaining t + num_bytes\<rparr>)"

fun empty_bytes_index :: "int \<Rightarrow> int \<Rightarrow> nat \<Rightarrow> 'm MessageTrackerEntry list \<Rightarrow> nat result" where
  "empty_bytes_index skip_bytes bytes_skipped i [] = Inl IndexError"
| "empty_bytes_index skip_bytes bytes_skipped i (e # es) =
     (if bytes_skipped + entry_left e = skip_bytes then Inr (Suc i)
      else if bytes_skipped + entry_left e > skip_bytes then Inr i
      else empty_bytes_index skip_bytes (bytes_skipped + entry_left e) (Suc i) es)"

definition MessageTracker_empty_bytes :: "int \<Rightarrow> 'm MessageTracker \<Rightarrow> 'm MessageTracker result" where
  "MessageTracker_empty_bytes skip_bytes t =
     (if messages t = [] then Inr t
      else rbind (empty_bytes_index skip_bytes 0 0 (messages t)) (\<lambda>i.
        Inr (t\<lparr>messages := take i (messages t),
               bytes_remaining := bytes_remaining t - sum_list (map entry_left (drop i (messages t)))\<rparr>)))"

text \<open>
  To which message each byte that is still to be sent belongs; the tracker is a compressed form of
  this list.
\<close>

definition owners :: "'m MessageTracker \<Rightarrow> 'm option list" where
  "owners t = concat (map (\<lambda>e. replicate (nat (entry_left e)) (mt_message e)) (messages t))"

definition mt_inv :: "'m MessageTracker \<Rightarrow> bool" where
  "mt_inv t \<longleftrightarrow> is_working t \<and> bytes_remaining t = int (length (owners t))
     \<and> (\<forall>e \<in> set (messages t). 0 \<le> entry_left e)"

lemma advance_bytes_loop_spec:
  assumes "\<forall>e \<in> set es. 0 \<le> entry_left e" and "0 \<le> n"
    and "remaining = int (length (concat (map (\<lambda>e. replicate (nat (entry_left e)) (mt_message e)) es))) - n"
    and "advance_bytes_loop now n remaining es = (es', r')"
  shows "concat (map (\<lambda>e. replicate (nat (entry_left e)) (mt_message e)) es')
      = drop (nat n) (concat (map (\<lambda>e. replicate (nat (entry_left e)) (mt_message e)) es))
    \<and> r' = int (length (concat (map (\<lambda>e. replicate (nat (entry_left e)) (mt_message e)) es')))
    \<and> (\<forall>e \<in> set es'. 0 \<le> entry_left e)"
  using assms
proof (induction es arbitrary: n remaining)
  case Nil
  then show ?case by (auto split: if_splits)
next
  case (Cons e es)
  let ?own = "\<lambda>es. concat (map (\<lambda>e. replicate (nat (entry_left e)) (mt_message e)) es)"
  have e: "0 \<le> entry_left e" using Cons.prems(1) by simp
  consider (none) "n = 0" | (whole) "0 < n" "entry_left e \<le> n" | (part) "0 < n" "n < entry_left e"
    using Cons.prems(2) by linarith
  then show ?case
  proof cases
    case none
    then show ?thesis using Cons.prems by auto
  next
    case whole
    have "?own es' = drop (nat (n - entry_left e)) (?own es) \<and> r' = int (length (?own es'))
        \<and> (\<forall>e \<in> set es'. 0 \<le> entry_left e)"
      using Cons.prems whole e by (intro Cons.IH[of "n - entry_left e" remaining]) auto
    moreover have "drop (nat n) (?own (e # es)) = drop (nat (n - entry_left e)) (?own es)"
      using whole e by (simp add: nat_diff_distrib)
    ultimately show ?thesis by simp
  next
    case part
    then have es': "es' = e\<lparr>sent_bytes := sent_bytes e + n, last_operation_time := now\<rparr> # es" "r' = remaining"
      using Cons.prems(4) by auto
    have left: "entry_left (e\<lparr>sent_bytes := sent_bytes e + n, last_operation_time := now\<rparr>) = entry_left e - n"
      by (simp add: entry_left_def)
    have "nat (entry_left e) - nat n = nat (entry_left e - n)" using part by (simp add: nat_diff_distrib)
    then have own: "?own es' = drop (nat n) (?own (e # es))"
      using es'(1) left part by simp
    then have "int (length (?own es')) = int (length (?own (e # es))) - n"
      using part e by simp
    then show ?thesis using own es' left part Cons.prems(1,3) by simp
  qed
qed

lemma advance_bytes_spec:
  assumes "mt_inv t" and "0 \<le> n"
  shows "mt_inv (MessageTracker_advance_bytes now n t)
    \<and> owners (MessageTracker_advance_bytes now n t) = drop (nat n) (owners t)"
proof -
  obtain es' r' where l: "advance_bytes_loop now n (bytes_remaining t - n) (messages t) = (es', r')"
    by (cases "advance_bytes_loop now n (bytes_remaining t - n) (messages t)")
  have "concat (map (\<lambda>e. replicate (nat (entry_left e)) (mt_message e)) es') = drop (nat n) (owners t)
      \<and> r' = int (length (concat (map (\<lambda>e. replicate (nat (entry_left e)) (mt_message e)) es')))
      \<and> (\<forall>e \<in> set es'. 0 \<le> entry_left e)"
    using advance_bytes_loop_spec[OF _ assms(2) _ l] assms(1) by (simp add: mt_inv_def owners_def)
  then show ?thesis
    using l assms(1) by (simp add: MessageTracker_advance_bytes_def mt_inv_def owners_def)
qed

lemma append_message_spec:
  assumes "mt_inv t" and "0 \<le> n"
  shows "mt_inv (MessageTracker_append_message now n m l t)
    \<and> owners (MessageTracker_append_message now n m l t) = owners t @ replicate (nat n) m"
  using assms
  by (auto simp: MessageTracker_append_message_def mt_inv_def owners_def entry_left_def MessageTrackerEntry_init_def)


datatype 'm mt_op = Track time nat "'m option" "string option" | Sent time nat

fun mt_step :: "'m MessageTracker \<Rightarrow> 'm mt_op \<Rightarrow> 'm MessageTracker result" where
  "mt_step t (Track now n m l) = Inr (MessageTracker_append_message now (int n) m l t)"
| "mt_step t (Sent now n) = Inr (MessageTracker_advance_bytes now (int n) t)"

fun mt_astep :: "'m option list \<Rightarrow> 'm mt_op \<Rightarrow> 'm option list" where
  "mt_astep bytes_of (Track now n m l) = bytes_of @ replicate n m"
| "mt_astep bytes_of (Sent now n) = drop n bytes_of"

interpretation tracker: refined_system mt_step mt_inv "\<lambda>_. True" owners mt_astep
proof unfold_locales
  fix t :: "'a MessageTracker" and x assume "mt_inv t"
  then show "\<exists>t'. mt_step t x = Inr t' \<and> mt_inv t'"
    using append_message_spec[of t] advance_bytes_spec[of t] by (cases x) simp_all
next
  fix t :: "'a MessageTracker" and x t' assume "mt_inv t" "mt_step t x = Inr t'"
  then show "owners t' = mt_astep (owners t) x"
    using append_message_spec[of t] advance_bytes_spec[of t] by (cases x) auto
qed

text \<open>
  C32. \<open>MessageTracker\<close> attributes every byte on its way to the socket to the right message: over any
  sequence of appended messages and sent byte counts, also counts that overrun what is tracked, the
  messages its entries assign to the outstanding bytes are those of the plain byte queue, and
  \<open>bytes_remaining\<close> is their number.
\<close>

theorem tracker_attributes_bytes:
  "\<exists>t. rfold mt_step MessageTracker_init ops = Inr t
    \<and> owners t = foldl mt_astep [] ops \<and> bytes_remaining t = int (length (owners t))"
proof -
  let ?t = "MessageTracker_init :: 'a MessageTracker"
  have init: "mt_inv ?t" "owners ?t = []"
    by (simp_all add: mt_inv_def owners_def MessageTracker_init_def)
  obtain t where "rfold mt_step ?t ops = Inr t" "mt_inv t" "owners t = foldl mt_astep (owners ?t) ops"
    using tracker.run_refines[OF init(1), of ops] by (auto simp: list_all_iff)
  then show ?thesis using init(2) by (auto simp: mt_inv_def)
qed

text \<open>
  The tracker and the output buffer disagree about a prepended message when nothing of the first
  message has been sent: \<open>OutputBuffer.prepend_msgbytes\<close> puts its bytes in front of all others,
  \<open>MessageTracker.prepend_message\<close> counts them behind all others.
\<close>

theorem tracker_prepend_order:
  assumes "mt_inv t" and "ob_inv ob" and "index ob = 0"
    and "messages t = [] \<or> sent_bytes (hd (messages t)) = 0"
  shows "owners (MessageTracker_prepend_message now (int (length msg)) m l t)
      = owners t @ replicate (length msg) m
    \<and> (\<exists>ob'. OutputBuffer_prepend_msgbytes msg ob = Inr ob' \<and> out_content ob' = msg @ out_content ob)"
proof -
  have "owners (MessageTracker_prepend_message now (int (length msg)) m l t)
      = owners t @ replicate (length msg) m"
    using assms(1,4) by (cases "messages t") (auto simp: MessageTracker_prepend_message_def mt_inv_def
        owners_def entry_left_def MessageTrackerEntry_init_def Let_def)
  moreover have "\<exists>ob'. OutputBuffer_prepend_msgbytes msg ob = Inr ob' \<and> out_content ob' = msg @ out_content ob"
    using prepend_spec[OF assms(2), of msg] assms(3) by (auto simp: OutputBuffer_at_msg_boundary_def)
  ultimately show ?thesis by simp
qed

theorem tracker_prepend_order_witness:
  "owners (MessageTracker_prepend_message 0 2 (Some ''second'') None
      (MessageTracker_append_message 0 1 (Some ''first'') None MessageTracker_init))
    = [Some ''first'', Some ''second'', Some ''second'']"
proof -
  let ?t = "MessageTracker_append_message 0 1 (Some ''first'') None MessageTracker_init"
  have "mt_inv ?t" "owners ?t = [Some ''first'']" "sent_bytes (hd (messages ?t)) = 0"
    by (simp_all add: MessageTracker_append_message_def MessageTracker_init_def mt_inv_def owners_def
        entry_left_def MessageTrackerEntry_init_def)
  then show ?thesis
    using tracker_prepend_order[of ?t "OutputBuffer_init None None False" 0 "[1, 2]" "Some ''second''" None]
    by (simp add: ob_inv_init(1)) (simp add: OutputBuffer_init_def numeral_2_eq_2)
qed

lemma empty_bytes_index_bound:
  "empty_bytes_index skip acc i es = Inr j \<Longrightarrow> i \<le> j \<and> j \<le> i + length es"
  by (induction skip acc i es rule: empty_bytes_index.induct) (auto split: if_splits)

lemma empty_bytes_index_ok:
  assumes "0 \<le> skip - acc" and "skip - acc \<le> sum_list (map entry_left es)" and "es \<noteq> []"
    and "\<forall>e \<in> set es. 0 \<le> entry_left e"
  shows "\<exists>j. empty_bytes_index skip acc i es = Inr j"
  using assms
proof (induction es arbitrary: acc i)
  case Nil
  then show ?case by simp
next
  case (Cons e es)
  show ?case
  proof (cases "acc + entry_left e \<ge> skip")
    case True
    then show ?thesis by auto
  next
    case False
    then have "es \<noteq> []" using Cons.prems by auto
    then have "\<exists>j. empty_bytes_index skip (acc + entry_left e) (Suc i) es = Inr j"
      using Cons.prems False by (intro Cons.IH) auto
    then show ?thesis using False by simp
  qed
qed

lemma length_owner_bytes:
  "\<forall>e \<in> set es. 0 \<le> entry_left e \<Longrightarrow>
   int (length (concat (map (\<lambda>e. replicate (nat (entry_left e)) (mt_message e)) es))) = sum_list (map entry_left es)"
  by (induction es) auto

text \<open>
  \<open>empty_bytes\<close> with a number of bytes to keep that is at most what is tracked stops tracking later
  messages and keeps the count right; asked to keep more than is tracked (while something is), it runs
  off the end of its list with an \<open>IndexError\<close>.
\<close>

theorem empty_bytes_keeps_count:
  assumes "mt_inv t" and "messages t \<noteq> []" and "0 \<le> skip"
  shows "if skip \<le> bytes_remaining t
    then \<exists>t' k. MessageTracker_empty_bytes skip t = Inr t' \<and> mt_inv t' \<and> owners t' = take k (owners t)
    else MessageTracker_empty_bytes skip t = Inl IndexError"
proof -
  have pos: "\<forall>e \<in> set (messages t). 0 \<le> entry_left e" using assms(1) by (simp add: mt_inv_def)
  have total: "bytes_remaining t = sum_list (map entry_left (messages t))"
    using assms(1) length_owner_bytes[OF pos] by (simp add: mt_inv_def owners_def)
  show ?thesis
  proof (cases "skip \<le> bytes_remaining t")
    case True
    obtain j where j: "empty_bytes_index skip 0 0 (messages t) = Inr j"
      using empty_bytes_index_ok[of skip 0 "messages t" 0] assms total True pos by auto
    let ?own = "\<lambda>es. concat (map (\<lambda>e. replicate (nat (entry_left e)) (mt_message e)) es)"
    let ?t' = "t\<lparr>messages := take j (messages t),
               bytes_remaining := bytes_remaining t - sum_list (map entry_left (drop j (messages t)))\<rparr>"
    have split: "messages t = take j (messages t) @ drop j (messages t)" by simp
    have "owners t = ?own (take j (messages t)) @ ?own (drop j (messages t))"
      unfolding owners_def by (metis split concat_append map_append)
    then have own: "owners ?t' = take (length (?own (take j (messages t)))) (owners t)"
      by (simp add: owners_def[of ?t'])
    have tk: "\<forall>e \<in> set (take j (messages t)). 0 \<le> entry_left e" using pos by (auto dest: in_set_takeD)
    have "sum_list (map entry_left (messages t)) =
        sum_list (map entry_left (take j (messages t))) + sum_list (map entry_left (drop j (messages t)))"
      by (metis split map_append sum_list.append)
    then have "mt_inv ?t'"
      using assms(1) total tk length_owner_bytes[OF tk] by (simp add: mt_inv_def owners_def)
    then show ?thesis using True own j assms(2) by (auto simp: MessageTracker_empty_bytes_def)
  next
    case False
    have "empty_bytes_index skip acc i es = Inl IndexError"
      if "skip > acc + sum_list (map entry_left es)" "\<forall>e \<in> set es. 0 \<le> entry_left e" for acc i
        and es :: "'a MessageTrackerEntry list"
      using that
    proof (induction es arbitrary: acc i)
      case Nil
      then show ?case by simp
    next
      case (Cons e es)
      have "0 \<le> sum_list (map entry_left es)" using Cons.prems(2) by (intro sum_list_nonneg) auto
      with Cons.prems have "acc + entry_left e < skip" by simp
      moreover have "empty_bytes_index skip (acc + entry_left e) (Suc i) es = Inl IndexError"
        using Cons.prems by (intro Cons.IH) auto
      ultimately show ?case by simp
    qed
    then show ?thesis
      using False assms(2) pos total by (simp add: MessageTracker_empty_bytes_def)
  qed
qed

theorem empty_bytes_keeps_count_witness:
  "MessageTracker_empty_bytes 5 (MessageTracker_append_message 0 1 (Some ''first'') None MessageTracker_init)
    = Inl IndexError"
proof -
  let ?t = "MessageTracker_append_message 0 1 (Some ''first'') None MessageTracker_init"
  have "mt_inv ?t" "messages ?t \<noteq> []" "bytes_remaining ?t = 1"
    by (simp_all add: MessageTracker_append_message_def MessageTracker_init_def mt_inv_def owners_def
        entry_left_def MessageTrackerEntry_init_def)
  then show ?thesis using empty_bytes_keeps_count[of ?t 5] by simp
qed

end
