(* ===== verification/Messages.thy ===== *)
theory Messages
  imports Buffers Serializers
begin

text \<open>
  The header and framing of bloXroute messages: \<open>messages/abstract_internal_message.py\<close>,
  \<open>messages/bloxroute/abstract_bloxroute_message.py\<close>, the message types, the message factory
  (\<open>abstract_message_factory.py\<close>, \<open>bloxroute_message_factory.py\<close>) and the validator
  (\<open>bloxroute_message_validator.py\<close>).

  A message object is a record: its buffer (the \<open>memoryview\<close> of the source shares its bytes) and the
  attributes the constructors and accessors cache; subclasses extend the record. A buffer given to a
  constructor is a \<open>bytearray\<close>.
\<close>

subsection \<open>Constants\<close>

definition ascii :: "string \<Rightarrow> bytes" where
  "ascii s = map (\<lambda>c. of_nat (of_char c)) s"

definition STARTING_SEQUENCE_BYTES :: bytes where "STARTING_SEQUENCE_BYTES = [0xFF, 0xFE, 0xFD, 0xFC]"
abbreviation (input) STARTING_SEQUENCE_BYTES_LEN :: nat where "STARTING_SEQUENCE_BYTES_LEN \<equiv> 4"
abbreviation (input) CONTROL_FLAGS_LEN :: nat where "CONTROL_FLAGS_LEN \<equiv> 1"
abbreviation (input) MSG_TYPE_LEN :: nat where "MSG_TYPE_LEN \<equiv> 12"
abbreviation (input) BX_HDR_COMMON_OFF :: nat where "BX_HDR_COMMON_OFF \<equiv> 16"
abbreviation (input) NETWORK_NUM_LEN :: nat where "NETWORK_NUM_LEN \<equiv> 4"
abbreviation (input) VERSION_NUM_LEN :: nat where "VERSION_NUM_LEN \<equiv> 4"
abbreviation (input) NODE_ID_SIZE_IN_BYTES :: nat where "NODE_ID_SIZE_IN_BYTES \<equiv> 16"
definition DEFAULT_MAX_PAYLOAD_LEN_BYTES :: nat where "DEFAULT_MAX_PAYLOAD_LEN_BYTES = 1024 * 1024"

text \<open>\<open>AbstractBloxrouteMessage.HEADER_LENGTH\<close>, which every bloXroute message inherits.\<close>

abbreviation (input) HEADER_LENGTH :: nat where "HEADER_LENGTH \<equiv> 20"

text \<open>\<open>BloxrouteMessageControlFlags\<close>.\<close>

abbreviation (input) VALID :: byte where "VALID \<equiv> 1"

subsection \<open>Message objects\<close>

record message =
  msg_buf :: bytes
  msg_type_field :: "bytes option"
  payload_len_field :: "nat option"
  payload_field :: "bytes option"
  msg_priority :: bool

definition blank_message :: "bytes \<Rightarrow> message" where
  "blank_message b = \<lparr>msg_buf = b, msg_type_field = None, payload_len_field = None, payload_field = None, msg_priority = False\<rparr>"

text \<open>
  \<open>AbstractInternalMessage.__init__\<close>, with the class attributes \<open>HEADER_LENGTH\<close> and
  \<open>STARTING_BYTES_LEN\<close> as arguments. A payload length is never negative here: it is a constant or the
  buffer length minus a header length that was compared with it first.
\<close>

definition AbstractInternalMessage_init ::
    "nat \<Rightarrow> nat \<Rightarrow> bytes \<Rightarrow> nat \<Rightarrow> 'a message_scheme \<Rightarrow> 'a message_scheme result" where
  "AbstractInternalMessage_init header_length starting_bytes_len msg_type payload_len m =
     (if length (msg_buf m) < header_length then Inl ValueError
      else rbind (pack_s MSG_TYPE_LEN (msg_buf m) starting_bytes_len msg_type) (\<lambda>b.
           rbind (pack_into 4 b (starting_bytes_len + MSG_TYPE_LEN) payload_len) (\<lambda>b'.
             Inr (m\<lparr>msg_buf := b', msg_type_field := Some msg_type, payload_len_field := Some payload_len,
                    payload_field := None, msg_priority := False\<rparr>))))"

definition AbstractInternalMessage_unpack :: "nat \<Rightarrow> bytes \<Rightarrow> (bytes \<times> nat) result" where
  "AbstractInternalMessage_unpack starting_bytes_len b =
     rbind (unpack_s MSG_TYPE_LEN b starting_bytes_len) (\<lambda>command.
     rbind (unpack_from 4 b (starting_bytes_len + MSG_TYPE_LEN)) (\<lambda>payload_length.
       Inr (rstrip0 command, payload_length)))"

definition AbstractInternalMessage_validate_payload :: "nat \<Rightarrow> bytes \<Rightarrow> bytes \<times> nat \<Rightarrow> unit result" where
  "AbstractInternalMessage_validate_payload header_length b unpacked_args =
     (if int (snd unpacked_args) \<noteq> int (length b) - int header_length then Inl PayloadLenError else Inr ())"

definition AbstractInternalMessage_payload_len :: "'a message_scheme \<Rightarrow> (nat \<times> 'a message_scheme) result" where
  "AbstractInternalMessage_payload_len m =
     (case payload_len_field m of
        Some n \<Rightarrow> Inr (n, m)
      | None \<Rightarrow> rbind (unpack_from 4 (msg_buf m) (STARTING_SEQUENCE_BYTES_LEN + MSG_TYPE_LEN)) (\<lambda>n.
                  Inr (n, m\<lparr>payload_len_field := Some n\<rparr>)))"

definition AbstractInternalMessage_rawbytes :: "'a message_scheme \<Rightarrow> (bytes \<times> 'a message_scheme) result" where
  "AbstractInternalMessage_rawbytes m =
     rbind (AbstractInternalMessage_payload_len m) (\<lambda>(n, m').
       Inr (if n + HEADER_LENGTH = length (msg_buf m') then msg_buf m' else take (n + HEADER_LENGTH) (msg_buf m'), m'))"

definition AbstractInternalMessage_msg_type :: "'a message_scheme \<Rightarrow> (bytes \<times> 'a message_scheme) result" where
  "AbstractInternalMessage_msg_type m =
     (case msg_type_field m of
        Some t \<Rightarrow> Inr (t, m)
      | None \<Rightarrow> rbind (unpack_s MSG_TYPE_LEN (msg_buf m) STARTING_SEQUENCE_BYTES_LEN) (\<lambda>t.
                  Inr (t, m\<lparr>msg_type_field := Some t\<rparr>)))"

definition AbstractInternalMessage_payload :: "'a message_scheme \<Rightarrow> (bytes \<times> 'a message_scheme) result" where
  "AbstractInternalMessage_payload m =
     (case payload_field m of
        Some p \<Rightarrow> Inr (p, m)
      | None \<Rightarrow> rbind (AbstractInternalMessage_payload_len m) (\<lambda>(n, m').
                  let p = bslice HEADER_LENGTH (n + HEADER_LENGTH) (msg_buf m')
                  in Inr (p, m'\<lparr>payload_field := Some p\<rparr>)))"

definition AbstractInternalMessage_set_priority :: "bool \<Rightarrow> 'a message_scheme \<Rightarrow> 'a message_scheme" where
  "AbstractInternalMessage_set_priority high m = m\<lparr>msg_priority := high\<rparr>"

definition AbstractInternalMessage_get_priority :: "'a message_scheme \<Rightarrow> bool" where
  "AbstractInternalMessage_get_priority m = msg_priority m"

definition AbstractInternalMessage_eq :: "'a message_scheme \<Rightarrow> 'b message_scheme \<Rightarrow> bool result" where
  "AbstractInternalMessage_eq m m2 =
     rbind (AbstractInternalMessage_rawbytes m) (\<lambda>(b1, _).
     rbind (AbstractInternalMessage_rawbytes m2) (\<lambda>(b2, _). Inr (b1 = b2)))"

subsection \<open>Control flags\<close>

text \<open>\<open>buf[-1]\<close> on an empty buffer raises.\<close>

definition AbstractBloxrouteMessage_get_control_flags :: "'a message_scheme \<Rightarrow> byte result" where
  "AbstractBloxrouteMessage_get_control_flags m =
     (if msg_buf m = [] then Inl IndexError else Inr (last (msg_buf m)))"

definition AbstractBloxrouteMessage_set_control_flag :: "byte \<Rightarrow> 'a message_scheme \<Rightarrow> 'a message_scheme result" where
  "AbstractBloxrouteMessage_set_control_flag flag m =
     (if msg_buf m = [] then Inl IndexError
      else Inr (m\<lparr>msg_buf := butlast (msg_buf m) @ [last (msg_buf m) OR flag]\<rparr>))"

definition AbstractBloxrouteMessage_remove_control_flag :: "byte \<Rightarrow> 'a message_scheme \<Rightarrow> 'a message_scheme result" where
  "AbstractBloxrouteMessage_remove_control_flag flag m =
     (if msg_buf m = [] then Inl IndexError
      else Inr (if last (msg_buf m) AND flag \<noteq> 0
                then m\<lparr>msg_buf := butlast (msg_buf m) @ [last (msg_buf m) XOR flag]\<rparr> else m))"

definition AbstractBloxrouteMessage_init :: "bytes \<Rightarrow> nat \<Rightarrow> 'a message_scheme \<Rightarrow> 'a message_scheme result" where
  "AbstractBloxrouteMessage_init msg_type payload_len m =
     rbind (AbstractInternalMessage_init HEADER_LENGTH STARTING_SEQUENCE_BYTES_LEN msg_type payload_len m) (\<lambda>m1.
       AbstractBloxrouteMessage_set_control_flag VALID
         (m1\<lparr>msg_buf := slice_assign 0 STARTING_SEQUENCE_BYTES_LEN STARTING_SEQUENCE_BYTES (msg_buf m1)\<rparr>))"

definition AbstractBloxrouteMessage_unpack :: "bytes \<Rightarrow> (bytes \<times> nat) result" where
  "AbstractBloxrouteMessage_unpack = AbstractInternalMessage_unpack STARTING_SEQUENCE_BYTES_LEN"

definition AbstractBloxrouteMessage_validate_payload :: "bytes \<Rightarrow> bytes \<times> nat \<Rightarrow> unit result" where
  "AbstractBloxrouteMessage_validate_payload = AbstractInternalMessage_validate_payload HEADER_LENGTH"

subsection \<open>Message types and the factory\<close>

datatype bx_class =
    HelloMessage | AckMessage | PingMessage | PongMessage | BroadcastMessageClass | TxMessageClass | GetTxsMessage | TxsMessage
  | GetTxContentsMessage | TxContentsMessage | KeyMessageClass | BlockHoldingMessage | DisconnectRelayPeerMessage
  | TxServiceSyncReqMessage | TxServiceSyncBlocksShortIdsMessage | TxServiceSyncTxsMessage | TxServiceSyncCompleteMessage
  | BlockConfirmationMessage | TransactionCleanupMessage | NotificationMessage | BdnPerformanceStatsMessage
  | RefreshBlockchainNetworkMessage | GetCompressedBlockTxsMessage | CompressedBlockTxsMessage | RoutingUpdateMessageClass

text \<open>\<open>MESSAGE_TYPE\<close> of each class, a value of \<open>BloxrouteMessageType\<close>.\<close>

definition MESSAGE_TYPE :: "bx_class \<Rightarrow> bytes" where
  "MESSAGE_TYPE c = ascii
     (case c of
        HelloMessage \<Rightarrow> ''hello'' | AckMessage \<Rightarrow> ''ack'' | PingMessage \<Rightarrow> ''ping'' | PongMessage \<Rightarrow> ''pong''
      | BroadcastMessageClass \<Rightarrow> ''broadcast'' | TxMessageClass \<Rightarrow> ''tx'' | GetTxsMessage \<Rightarrow> ''gettxs''
      | TxsMessage \<Rightarrow> ''txs'' | GetTxContentsMessage \<Rightarrow> ''getcontents'' | TxContentsMessage \<Rightarrow> ''txcontents''
      | KeyMessageClass \<Rightarrow> ''key'' | BlockHoldingMessage \<Rightarrow> ''blockhold'' | DisconnectRelayPeerMessage \<Rightarrow> ''droprelay''
      | TxServiceSyncReqMessage \<Rightarrow> ''txstart'' | TxServiceSyncBlocksShortIdsMessage \<Rightarrow> ''txblock''
      | TxServiceSyncTxsMessage \<Rightarrow> ''txtxs'' | TxServiceSyncCompleteMessage \<Rightarrow> ''txdone''
      | BlockConfirmationMessage \<Rightarrow> ''blkcnfrm'' | TransactionCleanupMessage \<Rightarrow> ''txclnup''
      | NotificationMessage \<Rightarrow> ''notify'' | BdnPerformanceStatsMessage \<Rightarrow> ''bdnstats''
      | RefreshBlockchainNetworkMessage \<Rightarrow> ''blkntwrk'' | GetCompressedBlockTxsMessage \<Rightarrow> ''getblocktxs''
      | CompressedBlockTxsMessage \<Rightarrow> ''blocktxs'' | RoutingUpdateMessageClass \<Rightarrow> ''routing'')"

definition all_classes :: "bx_class list" where
  "all_classes =
     [HelloMessage, AckMessage, PingMessage, PongMessage, BroadcastMessageClass, TxMessageClass, GetTxsMessage, TxsMessage,
      GetTxContentsMessage, TxContentsMessage, KeyMessageClass, BlockHoldingMessage, DisconnectRelayPeerMessage,
      TxServiceSyncReqMessage, TxServiceSyncBlocksShortIdsMessage, TxServiceSyncTxsMessage, TxServiceSyncCompleteMessage,
      BlockConfirmationMessage, TransactionCleanupMessage, NotificationMessage, BdnPerformanceStatsMessage,
      RefreshBlockchainNetworkMessage, GetCompressedBlockTxsMessage, CompressedBlockTxsMessage, RoutingUpdateMessageClass]"

text \<open>\<open>_MESSAGE_TYPE_MAPPING\<close> of the current protocol version.\<close>

definition message_type_mapping :: "(bytes \<times> bx_class) list" where
  "message_type_mapping = map (\<lambda>c. (MESSAGE_TYPE c, c)) all_classes"

text \<open>
  The constructors applied to a received buffer. Some classes only wrap it, most write the header
  again, with the length of the buffer or with the fixed length of the class (\<open>hello\<close>, \<open>ping\<close>, \<open>pong\<close>,
  \<open>blkntwrk\<close>), and \<open>TxServiceSyncBlocksShortIdsMessage\<close> first appends a control byte.
\<close>

definition construct_from_buf :: "bx_class \<Rightarrow> bytes \<Rightarrow> message result" where
  "construct_from_buf c b =
     (let m = blank_message b;
          init_len = AbstractBloxrouteMessage_init (MESSAGE_TYPE c) (length b - HEADER_LENGTH) m
      in case c of
           AckMessage \<Rightarrow> Inr m
         | DisconnectRelayPeerMessage \<Rightarrow> Inr m
         | GetTxsMessage \<Rightarrow> Inr m
         | GetTxContentsMessage \<Rightarrow> Inr m
         | TxContentsMessage \<Rightarrow> Inr m
         | GetCompressedBlockTxsMessage \<Rightarrow> Inr m
         | HelloMessage \<Rightarrow> AbstractBloxrouteMessage_init (MESSAGE_TYPE c) 25 m
         | PingMessage \<Rightarrow> AbstractBloxrouteMessage_init (MESSAGE_TYPE c) 9 m
         | PongMessage \<Rightarrow> AbstractBloxrouteMessage_init (MESSAGE_TYPE c) 17 m
         | RefreshBlockchainNetworkMessage \<Rightarrow> AbstractBloxrouteMessage_init (MESSAGE_TYPE c) CONTROL_FLAGS_LEN m
         | TxServiceSyncBlocksShortIdsMessage \<Rightarrow>
             AbstractBloxrouteMessage_init (MESSAGE_TYPE c) (length (b @ [0]) - HEADER_LENGTH) (blank_message (b @ [0]))
         | _ \<Rightarrow> init_len)"

definition AbstractInternalMessage_initialize_class :: "bx_class \<Rightarrow> bytes \<Rightarrow> bytes \<times> nat \<Rightarrow> message result" where
  "AbstractInternalMessage_initialize_class c b unpacked_args =
     rbind (construct_from_buf c b) (\<lambda>m.
       Inr (m\<lparr>msg_type_field := Some (fst unpacked_args), payload_len_field := Some (snd unpacked_args)\<rparr>))"

definition AbstractMessageFactory_create_message :: "bytes \<Rightarrow> bytes \<Rightarrow> bytes \<times> nat \<Rightarrow> (bx_class \<times> message) result" where
  "AbstractMessageFactory_create_message command b args =
     (case map_of message_type_mapping command of
        None \<Rightarrow> Inl KeyError
      | Some c \<Rightarrow> rbind (AbstractInternalMessage_initialize_class c b args) (\<lambda>m. Inr (c, m)))"

definition AbstractMessageFactory_create_message_from_buffer :: "bytes \<Rightarrow> (bx_class \<times> message) result" where
  "AbstractMessageFactory_create_message_from_buffer b =
     (if length b < HEADER_LENGTH then Inl ParseError
      else rbind (AbstractBloxrouteMessage_unpack b) (\<lambda>unpacked_args.
           rbind (AbstractBloxrouteMessage_validate_payload b unpacked_args) (\<lambda>_.
             if map_of message_type_mapping (fst unpacked_args) = None then Inl UnrecognizedCommandError
             else AbstractMessageFactory_create_message (fst unpacked_args) b unpacked_args)))"

text \<open>\<open>MessagePreview\<close>.\<close>

record MessagePreview =
  is_full_message :: bool
  preview_command :: "bytes option"
  preview_payload_length :: "nat option"

definition AbstractMessageFactory_get_message_header_preview_from_input_buffer ::
    "InputBuffer \<Rightarrow> (MessagePreview \<times> InputBuffer) result" where
  "AbstractMessageFactory_get_message_header_preview_from_input_buffer input_buffer =
     (if in_length input_buffer < int HEADER_LENGTH
      then Inr (\<lparr>is_full_message = False, preview_command = None, preview_payload_length = None\<rparr>, input_buffer)
      else rbind (InputBuffer_getitem (Slice None (Some (int HEADER_LENGTH)) None) input_buffer) (\<lambda>((_, header), input_buffer').
           rbind (AbstractBloxrouteMessage_unpack header) (\<lambda>(cmd, n).
             Inr (\<lparr>is_full_message = in_length input_buffer' \<ge> int (n + HEADER_LENGTH), preview_command = Some cmd,
                    preview_payload_length = Some n\<rparr>, input_buffer'))))"

subsection \<open>Frames\<close>

text \<open>
  \<open>frame ty body\<close> is a message on the wire: starting sequence, type padded to 12 bytes, length of the
  payload, payload. The last byte of the payload holds the control flags.
\<close>

definition frame :: "bytes \<Rightarrow> bytes \<Rightarrow> bytes" where
  "frame ty body = STARTING_SEQUENCE_BYTES @ pad_to MSG_TYPE_LEN ty @ le_bytes 4 (length body) @ body"

definition good_type :: "bytes \<Rightarrow> bool" where
  "good_type ty \<longleftrightarrow> length ty \<le> MSG_TYPE_LEN \<and> ty \<noteq> [] \<and> last ty \<noteq> 0"

definition good_body :: "bytes \<Rightarrow> bool" where
  "good_body body \<longleftrightarrow> body \<noteq> [] \<and> last body AND VALID \<noteq> 0 \<and> length body < 256 ^ 4"

lemma length_STARTING_SEQUENCE_BYTES [simp]: "length STARTING_SEQUENCE_BYTES = 4"
  by (simp add: STARTING_SEQUENCE_BYTES_def)

lemma length_frame [simp]: "length (frame ty body) = 20 + length body"
  by (simp add: frame_def)

lemma MESSAGE_TYPE_good: "good_type (MESSAGE_TYPE c)"
  by (cases c) (simp_all add: MESSAGE_TYPE_def ascii_def good_type_def)

lemma mapping_MESSAGE_TYPE: "map_of message_type_mapping (MESSAGE_TYPE c) = Some c"
  by (cases c) (simp_all add: message_type_mapping_def all_classes_def MESSAGE_TYPE_def ascii_def)

lemma unpack_frame:
  assumes "good_type ty" and "length body < 256 ^ 4"
  shows "AbstractBloxrouteMessage_unpack (frame ty body @ rest) = Inr (ty, length body)"
proof -
  have "unpack_s 12 (STARTING_SEQUENCE_BYTES @ pad_to 12 ty @ le_bytes 4 (length body) @ body @ rest) (length STARTING_SEQUENCE_BYTES)
      = Inr (pad_to 12 ty)"
    by (rule unpack_s_middle) simp
  moreover have "unpack_from 4 ((STARTING_SEQUENCE_BYTES @ pad_to 12 ty) @ le_bytes 4 (length body) @ body @ rest)
      (length (STARTING_SEQUENCE_BYTES @ pad_to 12 ty)) = Inr (of_le (le_bytes 4 (length body)))"
    by (rule unpack_from_middle) simp
  moreover have "rstrip0 (pad_to 12 ty) = ty" using assms(1) by (intro rstrip0_pad_to) (simp_all add: good_type_def)
  ultimately show ?thesis
    using assms(2) by (simp add: AbstractBloxrouteMessage_unpack_def AbstractInternalMessage_unpack_def frame_def
        of_le_le_bytes)
qed

lemma bslice_take: "b \<le> n \<Longrightarrow> bslice a b (take n xs) = bslice a b xs"
  by (simp add: bslice_def drop_take)

lemma unpack_header_of_frame:
  assumes "good_type ty" and "length body < 256 ^ 4"
  shows "AbstractBloxrouteMessage_unpack (take 20 (frame ty body @ rest)) = Inr (ty, length body)"
proof -
  have "AbstractBloxrouteMessage_unpack (take 20 b) = AbstractBloxrouteMessage_unpack b" if "20 \<le> length b" for b
    using that by (simp add: AbstractBloxrouteMessage_unpack_def AbstractInternalMessage_unpack_def unpack_s_def unpack_from_def
        bslice_take)
  from this[of "frame ty body @ rest"] show ?thesis using unpack_frame[OF assms] by simp
qed

text \<open>A constructor writes the header in front of the payload it finds and sets the \<open>VALID\<close> flag.\<close>

definition mark_valid :: "bytes \<Rightarrow> bytes" where
  "mark_valid body = butlast body @ [last body OR VALID]"

lemma mark_valid_simps [simp]:
  "body \<noteq> [] \<Longrightarrow> length (mark_valid body) = length body" "mark_valid body \<noteq> []"
  by (simp_all add: mark_valid_def)

lemma valid_iff_odd: "b AND VALID \<noteq> 0 \<longleftrightarrow> odd (b :: byte)"
  by (simp add: and_one_eq even_iff_mod_2_eq_zero)

lemma or_valid_odd: "odd (b OR VALID :: byte)"
  by (simp add: even_or_iff)

lemma last_mark_valid [simp]: "last (mark_valid body) AND VALID \<noteq> 0"
  by (simp add: mark_valid_def valid_iff_odd or_valid_odd del: One_nat_def)

lemma or_valid_id: "odd (b :: byte) \<Longrightarrow> b OR VALID = b"
  by (rule bit_word_eqI) (auto simp: bit_simps bit_0)

lemma mark_valid_good: "last body AND VALID \<noteq> (0 :: byte) \<Longrightarrow> body \<noteq> [] \<Longrightarrow> mark_valid body = body"
  by (simp add: mark_valid_def valid_iff_odd or_valid_id)

lemma init_frame:
  assumes "msg_buf m = h @ body" and "length h = 20" and "body \<noteq> []" and "n < 256 ^ 4"
  shows "AbstractBloxrouteMessage_init ty n m
    = Inr (m\<lparr>msg_buf := STARTING_SEQUENCE_BYTES @ pad_to MSG_TYPE_LEN ty @ le_bytes 4 n @ mark_valid body,
             msg_type_field := Some ty, payload_len_field := Some n, payload_field := None, msg_priority := False\<rparr>)"
proof -
  have b: "bput 16 (le_bytes 4 n) (bput 4 (pad_to 12 ty) (h @ body)) = take 4 h @ pad_to 12 ty @ le_bytes 4 n @ body"
    using assms(2) by (simp add: bput_def)
  show ?thesis
    using assms b by (simp add: AbstractBloxrouteMessage_init_def AbstractInternalMessage_init_def pack_s_def pack_into_def
        AbstractBloxrouteMessage_set_control_flag_def slice_assign_def mark_valid_def butlast_append)
qed

lemma construct_frame:
  assumes "good_body body" and "body_len = length body"
  shows "AbstractBloxrouteMessage_init ty body_len (blank_message (frame ty body))
    = Inr (blank_message (frame ty body)\<lparr>msg_type_field := Some ty, payload_len_field := Some body_len\<rparr>)"
proof -
  let ?h = "STARTING_SEQUENCE_BYTES @ pad_to 12 ty @ le_bytes 4 (length body)"
  have "msg_buf (blank_message (frame ty body)) = ?h @ body" "length ?h = 20" "body \<noteq> []" "body_len < 256 ^ 4"
    using assms by (simp_all add: blank_message_def frame_def good_body_def)
  note init_frame[OF this, of ty]
  moreover have "mark_valid body = body" using assms(1) by (simp add: good_body_def mark_valid_good)
  ultimately show ?thesis
    using assms(2) by (simp add: blank_message_def frame_def)
qed

text \<open>The classes with a payload of fixed length.\<close>

definition fixed_payload :: "bx_class \<Rightarrow> nat option" where
  "fixed_payload c =
     (case c of HelloMessage \<Rightarrow> Some 25 | PingMessage \<Rightarrow> Some 9 | PongMessage \<Rightarrow> Some 17
      | RefreshBlockchainNetworkMessage \<Rightarrow> Some 1 | _ \<Rightarrow> None)"

lemma validate_frame [simp]: "AbstractBloxrouteMessage_validate_payload (frame ty body) (ty, length body) = Inr ()"
  by (simp add: AbstractBloxrouteMessage_validate_payload_def AbstractInternalMessage_validate_payload_def)

lemma construct_from_frame:
  assumes "good_body body" and "c \<noteq> TxServiceSyncBlocksShortIdsMessage"
    and "\<forall>n. fixed_payload c = Some n \<longrightarrow> length body = n"
  shows "AbstractInternalMessage_initialize_class c (frame (MESSAGE_TYPE c) body) (MESSAGE_TYPE c, length body)
    = Inr (blank_message (frame (MESSAGE_TYPE c) body)\<lparr>msg_type_field := Some (MESSAGE_TYPE c), payload_len_field := Some (length body)\<rparr>)"
proof -
  note init = construct_frame[OF assms(1) refl, of "MESSAGE_TYPE c"]
  have len: "length (frame (MESSAGE_TYPE c) body) - 20 = length body" by simp
  show ?thesis
    using assms(2,3) init
    by (cases c) (simp_all add: AbstractInternalMessage_initialize_class_def construct_from_buf_def Let_def fixed_payload_def
        blank_message_def)
qed

text \<open>
  The factory turns the bytes of a well-formed frame into a message of the class its type names,
  carrying the same bytes, type and payload length.
\<close>

theorem factory_reads_frame:
  assumes "good_body body" and "c \<noteq> TxServiceSyncBlocksShortIdsMessage"
    and "\<forall>n. fixed_payload c = Some n \<longrightarrow> length body = n"
  shows "\<exists>m. AbstractMessageFactory_create_message_from_buffer (frame (MESSAGE_TYPE c) body) = Inr (c, m)
    \<and> AbstractInternalMessage_rawbytes m = Inr (frame (MESSAGE_TYPE c) body, m)
    \<and> AbstractInternalMessage_msg_type m = Inr (MESSAGE_TYPE c, m)
    \<and> rbind (AbstractInternalMessage_payload m) (\<lambda>(p, m'). Inr p) = Inr body"
proof -
  let ?f = "frame (MESSAGE_TYPE c) body"
  let ?m = "blank_message ?f\<lparr>msg_type_field := Some (MESSAGE_TYPE c), payload_len_field := Some (length body)\<rparr>"
  have u: "AbstractBloxrouteMessage_unpack ?f = Inr (MESSAGE_TYPE c, length body)"
    using unpack_frame[OF MESSAGE_TYPE_good, where rest="[]"] assms(1) by (simp add: good_body_def)
  have "AbstractMessageFactory_create_message_from_buffer ?f = Inr (c, ?m)"
    using u construct_from_frame[OF assms]
    by (simp add: AbstractMessageFactory_create_message_from_buffer_def AbstractMessageFactory_create_message_def
        mapping_MESSAGE_TYPE)
  moreover have "bslice 20 (length body + 20) ?f = body"
    using bslice_middle[of "STARTING_SEQUENCE_BYTES @ pad_to 12 (MESSAGE_TYPE c) @ le_bytes 4 (length body)" body "[]"]
    by (simp add: frame_def add.commute)
  ultimately show ?thesis
    by (intro exI[of _ ?m]) (simp add: AbstractInternalMessage_rawbytes_def AbstractInternalMessage_payload_len_def
        AbstractInternalMessage_msg_type_def AbstractInternalMessage_payload_def blank_message_def)
qed

theorem factory_reads_frame_witness:
  "\<exists>m. AbstractMessageFactory_create_message_from_buffer (frame (MESSAGE_TYPE PingMessage) [1, 2, 3, 4, 5, 6, 7, 8, 1]) = Inr (PingMessage, m)"
proof -
  have "good_body [1, 2, 3, 4, 5, 6, 7, 8, 1 :: byte]" by (simp add: good_body_def)
  from factory_reads_frame[OF this, of PingMessage] show ?thesis by (auto simp: fixed_payload_def)
qed

text \<open>A frame of an unknown type, a wrong length and a short buffer are refused, each by its own error.\<close>

theorem factory_refuses:
  assumes "good_type ty" and "length body < 256 ^ 4"
  shows "(length b < HEADER_LENGTH \<longrightarrow> AbstractMessageFactory_create_message_from_buffer b = Inl ParseError)
    \<and> (extra \<noteq> [] \<longrightarrow> AbstractMessageFactory_create_message_from_buffer (frame ty body @ extra) = Inl PayloadLenError)
    \<and> (ty \<notin> range MESSAGE_TYPE \<longrightarrow>
          AbstractMessageFactory_create_message_from_buffer (frame ty body) = Inl UnrecognizedCommandError)"
proof (intro conjI impI)
  note u = unpack_frame[OF assms]
  show "AbstractMessageFactory_create_message_from_buffer b = Inl ParseError" if "length b < HEADER_LENGTH"
    using that     by (simp add: AbstractMessageFactory_create_message_from_buffer_def)
  show "AbstractMessageFactory_create_message_from_buffer (frame ty body @ extra) = Inl PayloadLenError" if "extra \<noteq> []"
    using that u[of extra] by (simp add: AbstractMessageFactory_create_message_from_buffer_def
        AbstractBloxrouteMessage_validate_payload_def AbstractInternalMessage_validate_payload_def)
  show "AbstractMessageFactory_create_message_from_buffer (frame ty body) = Inl UnrecognizedCommandError"
    if "ty \<notin> range MESSAGE_TYPE"
  proof -
    have "map_of message_type_mapping ty = None"
      using that by (auto simp: message_type_mapping_def map_of_eq_None_iff)
    then show ?thesis
      using u[of "[]"] by (simp add: AbstractMessageFactory_create_message_from_buffer_def)
  qed
qed

text \<open>
  \<open>TxServiceSyncBlocksShortIdsMessage\<close> appends a byte to the buffer it receives, so its object does not
  hold the received bytes: the length it writes into its header is one more than the received one.
\<close>

theorem sync_blocks_message_grows:
  assumes "good_body body" and "length body < 256 ^ 4 - 1"
  shows "\<exists>m. AbstractMessageFactory_create_message_from_buffer (frame (MESSAGE_TYPE TxServiceSyncBlocksShortIdsMessage) body)
      = Inr (TxServiceSyncBlocksShortIdsMessage, m)
    \<and> msg_buf m = frame (MESSAGE_TYPE TxServiceSyncBlocksShortIdsMessage) (body @ [1])
    \<and> payload_len_field m = Some (length body)"
proof -
  let ?c = TxServiceSyncBlocksShortIdsMessage
  let ?f = "frame (MESSAGE_TYPE ?c) body"
  let ?h = "STARTING_SEQUENCE_BYTES @ pad_to 12 (MESSAGE_TYPE ?c) @ le_bytes 4 (length body)"
  have u: "AbstractBloxrouteMessage_unpack ?f = Inr (MESSAGE_TYPE ?c, length body)"
    using unpack_frame[OF MESSAGE_TYPE_good, where rest="[]"] assms(1) by (simp add: good_body_def)
  have "msg_buf (blank_message (?f @ [0])) = ?h @ body @ [0]" "length ?h = 20" "body @ [0] \<noteq> []"
    "Suc (length body) < 256 ^ 4"
    using assms by (simp_all add: blank_message_def frame_def)
  note init_frame[OF this, of "MESSAGE_TYPE ?c"]
  moreover have "mark_valid (body @ [0]) = body @ [1]" by (simp add: mark_valid_def)
  moreover have "length (?f @ [0]) - 20 = Suc (length body)" by simp
  ultimately show ?thesis
    using u by (simp add: AbstractMessageFactory_create_message_from_buffer_def AbstractMessageFactory_create_message_def
        mapping_MESSAGE_TYPE AbstractInternalMessage_initialize_class_def construct_from_buf_def Let_def frame_def
        validate_frame[unfolded frame_def])
qed

theorem factory_refuses_witness:
  "AbstractMessageFactory_create_message_from_buffer (frame (ascii ''nosuch'') [1]) = Inl UnrecognizedCommandError"
proof -
  have "good_type (ascii ''nosuch'')" by (simp add: good_type_def ascii_def)
  moreover have "ascii ''nosuch'' \<noteq> MESSAGE_TYPE c" for c by (cases c) (simp_all add: MESSAGE_TYPE_def ascii_def)
  ultimately show ?thesis using factory_refuses[of "ascii ''nosuch''" "[1]" "[]" "[]"] by auto
qed

theorem sync_blocks_message_grows_witness:
  "\<exists>m. AbstractMessageFactory_create_message_from_buffer (frame (MESSAGE_TYPE TxServiceSyncBlocksShortIdsMessage) [7, 1])
      = Inr (TxServiceSyncBlocksShortIdsMessage, m) \<and> length (msg_buf m) = 23"
proof -
  have "good_body [7, 1 :: byte]" by (simp add: good_body_def)
  from sync_blocks_message_grows[OF this] show ?thesis by auto
qed

subsection \<open>Reading the input buffer\<close>

text \<open>
  An operation that may raise after it has touched the state returns both: the outcome and the
  state the exception handler finds. Operations on the input buffer leave it alone when they raise.
\<close>

definition sbind :: "'a result \<times> 's \<Rightarrow> ('a \<Rightarrow> 's \<Rightarrow> 'b result \<times> 's) \<Rightarrow> 'b result \<times> 's" where
  "sbind r f = (case r of (Inl e, s) \<Rightarrow> (Inl e, s) | (Inr x, s) \<Rightarrow> f x s)"

definition keep_on_error :: "('s \<Rightarrow> ('a \<times> 's) result) \<Rightarrow> 's \<Rightarrow> 'a result \<times> 's" where
  "keep_on_error f s = (case f s of Inl e \<Rightarrow> (Inl e, s) | Inr (x, s') \<Rightarrow> (Inr x, s'))"

lemma sbind_simps [simp]: "sbind (Inl e, s) f = (Inl e, s)" "sbind (Inr x, s) f = f x s"
  by (simp_all add: sbind_def)

lemma input_init [simp]: "in_content InputBuffer_init = []" "ib_inv InputBuffer_init"
  by (simp_all add: InputBuffer_init_def in_content_def ib_inv_def)

lemma input_list_ne: "ib_inv b \<Longrightarrow> in_content b \<noteq> [] \<Longrightarrow> input_list b \<noteq> []"
  by (auto simp: in_content_def)

lemma getitem_prefix:
  assumes "ib_inv b" and "n \<le> length (in_content b)" and "0 < n"
  shows "\<exists>kind b'. InputBuffer_getitem (Slice None (Some (int n)) None) b = Inr ((kind, take n (in_content b)), b')
      \<and> ib_inv b' \<and> in_content b' = in_content b"
proof -
  have "input_list b \<noteq> []" using assms by (intro input_list_ne) auto
  from get_slice_spec[OF assms(1) this, of 0 n] show ?thesis
    using assms by (simp add: InputBuffer_getitem_def)
qed

lemma getitem_range:
  assumes "ib_inv b" and "s \<le> e" and "e \<le> length (in_content b)" and "0 < e"
  shows "\<exists>kind b'. InputBuffer_getitem (Slice (Some (int s)) (Some (int e)) None) b
      = Inr ((kind, bslice s e (in_content b)), b') \<and> ib_inv b' \<and> in_content b' = in_content b"
proof -
  have "input_list b \<noteq> []" using assms by (intro input_list_ne) auto
  from get_slice_spec[OF assms(1) this assms(2,3)] show ?thesis by (simp add: InputBuffer_getitem_def)
qed

text \<open>
  The preview of a stream that holds a prefix of a frame: nothing before the header is complete, then
  the type and the length, and a full message exactly when the last byte of the payload has arrived.
\<close>

lemma preview_short:
  assumes "ib_inv b" and "length (in_content b) < 20"
  shows "AbstractMessageFactory_get_message_header_preview_from_input_buffer b
    = Inr (\<lparr>is_full_message = False, preview_command = None, preview_payload_length = None\<rparr>, b)"
  using assms by (simp add: AbstractMessageFactory_get_message_header_preview_from_input_buffer_def ib_inv_def)

lemma preview_general:
  assumes "ib_inv b" and "20 \<le> length (in_content b)"
  shows "\<exists>b' cmd n. AbstractMessageFactory_get_message_header_preview_from_input_buffer b
      = Inr (\<lparr>is_full_message = (n + 20 \<le> length (in_content b)), preview_command = Some cmd, preview_payload_length = Some n\<rparr>, b')
    \<and> AbstractBloxrouteMessage_unpack (take 20 (in_content b)) = Inr (cmd, n)
    \<and> ib_inv b' \<and> in_content b' = in_content b"
proof -
  obtain kind b' where b': "InputBuffer_getitem (Slice None (Some (int 20)) None) b = Inr ((kind, take 20 (in_content b)), b')"
    "ib_inv b'" "in_content b' = in_content b"
    using getitem_prefix[OF assms(1), of 20] assms(2) by auto
  obtain cmd n where "AbstractBloxrouteMessage_unpack (take 20 (in_content b)) = Inr (cmd, n)"
    using assms(2) by (simp add: AbstractBloxrouteMessage_unpack_def AbstractInternalMessage_unpack_def unpack_s_def
        unpack_from_def)
  then show ?thesis
    using assms b' by (auto simp: AbstractMessageFactory_get_message_header_preview_from_input_buffer_def ib_inv_def)
qed

lemma preview_frame:
  assumes "ib_inv b" and "20 \<le> length (in_content b)" and "good_type ty" and "length body < 256 ^ 4"
    and "in_content b = take k (frame ty body @ rest)"
  shows "\<exists>b'. AbstractMessageFactory_get_message_header_preview_from_input_buffer b
      = Inr (\<lparr>is_full_message = (length body + 20 \<le> length (in_content b)), preview_command = Some ty,
              preview_payload_length = Some (length body)\<rparr>, b')
    \<and> ib_inv b' \<and> in_content b' = in_content b"
proof -
  have "20 \<le> k" using assms(2,5) by (metis length_take min.boundedE)
  then have "take 20 (in_content b) = take 20 (frame ty body @ rest)"
    using assms(5) by (simp only: take_take min.absorb1)
  then show ?thesis
    using preview_general[OF assms(1,2)] unpack_header_of_frame[OF assms(3,4), of rest] by auto
qed

subsection \<open>The validator\<close>

text \<open>\<open>MessageSizeValidationSettings\<close>; both sizes are \<open>None\<close> unless they are set.\<close>

record MessageSizeValidationSettings =
  max_block_size_bytes :: "nat option"
  max_tx_size_bytes :: "nat option"

record BloxrouteMessageValidator =
  size_validation_settings :: "MessageSizeValidationSettings option"
  connection_protocol_version :: nat

abbreviation (input) FIRST_VALIDATING_VERSION :: nat where "FIRST_VALIDATING_VERSION \<equiv> 4"

definition BloxrouteMessageValidator_validate_starting_sequence :: "InputBuffer \<Rightarrow> unit result \<times> InputBuffer" where
  "BloxrouteMessageValidator_validate_starting_sequence input_buffer =
     (if in_length input_buffer < int STARTING_SEQUENCE_BYTES_LEN then (Inr (), input_buffer)
      else sbind (keep_on_error (InputBuffer_getitem (Slice None (Some (int STARTING_SEQUENCE_BYTES_LEN)) None)) input_buffer)
        (\<lambda>(_, starting_sequence_bytes) input_buffer'.
           if starting_sequence_bytes \<noteq> STARTING_SEQUENCE_BYTES then (Inl MessageValidationError, input_buffer')
           else (Inr (), input_buffer')))"

text \<open>Comparing a length with \<open>None\<close> raises a \<open>TypeError\<close>.\<close>

definition check_max :: "nat \<Rightarrow> nat option \<Rightarrow> unit result" where
  "check_max n limit = (case limit of None \<Rightarrow> Inl TypeError | Some l \<Rightarrow> if n > l then Inl MessageValidationError else Inr ())"

definition block_size_types :: "bytes list" where
  "block_size_types = map MESSAGE_TYPE
     [BroadcastMessageClass, TxsMessage, TxServiceSyncBlocksShortIdsMessage, TxServiceSyncTxsMessage,
      TransactionCleanupMessage, BlockConfirmationMessage]"

definition BloxrouteMessageValidator_validate_payload_length ::
    "MessageSizeValidationSettings \<Rightarrow> bytes option \<Rightarrow> nat option \<Rightarrow> unit result" where
  "BloxrouteMessageValidator_validate_payload_length settings msg_type payload_len =
     (case (msg_type, payload_len) of
        (Some ty, Some n) \<Rightarrow>
          if ty = MESSAGE_TYPE TxMessageClass then check_max n (max_tx_size_bytes settings)
          else if ty \<in> set block_size_types then check_max n (max_block_size_bytes settings)
          else if n > DEFAULT_MAX_PAYLOAD_LEN_BYTES then Inl MessageValidationError
          else Inr ()
      | _ \<Rightarrow> Inr ())"

definition BloxrouteMessageValidator_validate_control_flags ::
    "bool \<Rightarrow> nat \<Rightarrow> nat option \<Rightarrow> InputBuffer \<Rightarrow> unit result \<times> InputBuffer" where
  "BloxrouteMessageValidator_validate_control_flags is_full header_len payload_len input_buffer =
     (if \<not> is_full then (Inr (), input_buffer)
      else case payload_len of
        None \<Rightarrow> (Inl AssertionError, input_buffer)
      | Some n \<Rightarrow>
          if in_length input_buffer < int (header_len + n) then (Inl MessageValidationError, input_buffer)
          else sbind (keep_on_error (InputBuffer_getitem
                 (Slice (Some (int (header_len + n) - 1)) (Some (int (header_len + n))) None)) input_buffer)
            (\<lambda>(_, control_flag_byte) input_buffer'.
               case control_flag_byte of
                 [] \<Rightarrow> (Inl IndexError, input_buffer')
               | f # _ \<Rightarrow> if f AND VALID = 0 then (Inl (ControlFlagValidationError (unat f)), input_buffer')
                          else (Inr (), input_buffer')))"

definition BloxrouteMessageValidator_validate ::
    "BloxrouteMessageValidator \<Rightarrow> bool \<Rightarrow> bytes option \<Rightarrow> nat \<Rightarrow> nat option \<Rightarrow> InputBuffer \<Rightarrow> unit result \<times> InputBuffer" where
  "BloxrouteMessageValidator_validate v is_full_msg msg_type header_len payload_len input_buffer =
     sbind (if connection_protocol_version v \<ge> FIRST_VALIDATING_VERSION
            then BloxrouteMessageValidator_validate_starting_sequence input_buffer else (Inr (), input_buffer)) (\<lambda>_ b1.
     sbind (case size_validation_settings v of
              None \<Rightarrow> (Inr (), b1)
            | Some s \<Rightarrow> (BloxrouteMessageValidator_validate_payload_length s msg_type payload_len, b1)) (\<lambda>_ b2.
       if connection_protocol_version v \<ge> FIRST_VALIDATING_VERSION
       then BloxrouteMessageValidator_validate_control_flags is_full_msg header_len payload_len b2 else (Inr (), b2)))"

text \<open>\<open>DefaultMessageValidator.validate\<close> accepts everything.\<close>

definition DefaultMessageValidator_validate ::
    "bool \<Rightarrow> bytes option \<Rightarrow> nat \<Rightarrow> nat option \<Rightarrow> InputBuffer \<Rightarrow> unit result \<times> InputBuffer" where
  "DefaultMessageValidator_validate is_full_msg msg_type header_len payload_len input_buffer = (Inr (), input_buffer)"

subsection \<open>The validator on frames\<close>

text \<open>
  The limit of a message type, as the types are named on the wire: transactions have a limit of their own,
  messages that carry blocks or many transactions have that of blocks, all others have one MiB. A limit
  that is not set admits nothing.
\<close>

definition payload_limit :: "MessageSizeValidationSettings \<Rightarrow> bytes \<Rightarrow> nat option" where
  "payload_limit s ty =
     (if ty = ascii ''tx'' then max_tx_size_bytes s
      else if ty \<in> set (map ascii [''broadcast'', ''txs'', ''txblock'', ''txtxs'', ''txclnup'', ''blkcnfrm'']) then max_block_size_bytes s
      else Some 1048576)"

definition size_ok :: "BloxrouteMessageValidator \<Rightarrow> bytes \<Rightarrow> nat \<Rightarrow> bool" where
  "size_ok v ty n \<longleftrightarrow>
     (case size_validation_settings v of None \<Rightarrow> True | Some s \<Rightarrow> (case payload_limit s ty of None \<Rightarrow> False | Some l \<Rightarrow> n \<le> l))"

lemma size_ok_validate:
  "size_ok v ty n \<longleftrightarrow>
     (case size_validation_settings v of None \<Rightarrow> True
      | Some s \<Rightarrow> BloxrouteMessageValidator_validate_payload_length s (Some ty) (Some n) = Inr ())"
  by (simp add: size_ok_def payload_limit_def BloxrouteMessageValidator_validate_payload_length_def check_max_def block_size_types_def
      MESSAGE_TYPE_def DEFAULT_MAX_PAYLOAD_LEN_BYTES_def split: option.split)

lemma keep_on_error_Inr: "f s = Inr (x, s') \<Longrightarrow> keep_on_error f s = (Inr x, s')"
  by (simp add: keep_on_error_def)

lemma starting_sequence_spec:
  assumes "ib_inv b"
  shows "\<exists>b'. BloxrouteMessageValidator_validate_starting_sequence b
      = (if length (in_content b) < 4 \<or> take 4 (in_content b) = STARTING_SEQUENCE_BYTES then Inr () else Inl MessageValidationError, b')
    \<and> ib_inv b' \<and> in_content b' = in_content b"
proof (cases "length (in_content b) < 4")
  case True
  then show ?thesis using assms by (simp add: BloxrouteMessageValidator_validate_starting_sequence_def ib_inv_def)
next
  case False
  then obtain kind b' where b': "InputBuffer_getitem (Slice None (Some (int 4)) None) b = Inr ((kind, take 4 (in_content b)), b')"
    "ib_inv b'" "in_content b' = in_content b"
    using getitem_prefix[OF assms, of 4] by auto
  then show ?thesis
    using False assms by (auto simp: BloxrouteMessageValidator_validate_starting_sequence_def ib_inv_def keep_on_error_def)
qed

lemma bslice_one: "i < length xs \<Longrightarrow> bslice i (Suc i) xs = [xs ! i]"
  by (simp add: bslice_def Cons_nth_drop_Suc[symmetric])

lemma control_flags_spec:
  assumes "ib_inv b" and "0 < h + n"
  shows "\<exists>b'. BloxrouteMessageValidator_validate_control_flags full h (Some n) b
      = (if \<not> full then Inr ()
         else if length (in_content b) < h + n then Inl MessageValidationError
         else if in_content b ! (h + n - 1) AND VALID = 0 then Inl (ControlFlagValidationError (unat (in_content b ! (h + n - 1))))
         else Inr (), b')
    \<and> ib_inv b' \<and> in_content b' = in_content b"
proof (cases "full \<and> h + n \<le> length (in_content b)")
  case False
  then show ?thesis
    using assms by (auto simp: BloxrouteMessageValidator_validate_control_flags_def ib_inv_def)
next
  case True
  let ?e = "h + n"
  have i: "int ?e - 1 = int (?e - 1)" using assms(2) by arith
  obtain kind b' where b': "InputBuffer_getitem (Slice (Some (int (?e - 1))) (Some (int ?e)) None) b
      = Inr ((kind, bslice (?e - 1) ?e (in_content b)), b')" "ib_inv b'" "in_content b' = in_content b"
    using getitem_range[OF assms(1), of "?e - 1" ?e] True assms(2) by auto
  have "?e - 1 < length (in_content b)" using True assms(2) by arith
  then have "bslice (?e - 1) ?e (in_content b) = [in_content b ! (?e - 1)]"
    using bslice_one[of "?e - 1" "in_content b"] assms(2) by simp
  with b' have "keep_on_error (InputBuffer_getitem (Slice (Some (int ?e - 1)) (Some (int ?e)) None)) b
      = (Inr (kind, [in_content b ! (?e - 1)]), b')"
    unfolding i by (intro keep_on_error_Inr) simp
  then show ?thesis
    using True assms b'(2,3) by (auto simp: BloxrouteMessageValidator_validate_control_flags_def ib_inv_def)
qed

lemma validator_spec:
  assumes "ib_inv b" and "connection_protocol_version v \<ge> FIRST_VALIDATING_VERSION" and "0 < h + n"
  shows "\<exists>r b'. BloxrouteMessageValidator_validate v full (Some ty) h (Some n) b = (r, b')
    \<and> ib_inv b' \<and> in_content b' = in_content b
    \<and> (r = Inr () \<longleftrightarrow>
         (length (in_content b) < 4 \<or> take 4 (in_content b) = STARTING_SEQUENCE_BYTES) \<and> size_ok v ty n
         \<and> (full \<longrightarrow> h + n \<le> length (in_content b) \<and> in_content b ! (h + n - 1) AND VALID \<noteq> 0))"
proof -
  obtain b1 where b1: "BloxrouteMessageValidator_validate_starting_sequence b
      = (if length (in_content b) < 4 \<or> take 4 (in_content b) = STARTING_SEQUENCE_BYTES then Inr () else Inl MessageValidationError, b1)"
    "ib_inv b1" "in_content b1 = in_content b"
    using starting_sequence_spec[OF assms(1)] by blast
  obtain b2 where b2: "BloxrouteMessageValidator_validate_control_flags full h (Some n) b1
      = (if \<not> full then Inr ()
         else if length (in_content b) < h + n then Inl MessageValidationError
         else if in_content b ! (h + n - 1) AND VALID = 0 then Inl (ControlFlagValidationError (unat (in_content b ! (h + n - 1))))
         else Inr (), b2)"
    "ib_inv b2" "in_content b2 = in_content b"
    using control_flags_spec[OF b1(2) assms(3), of full] b1(3) by auto
  let ?r = "case size_validation_settings v of None \<Rightarrow> Inr ()
      | Some s \<Rightarrow> BloxrouteMessageValidator_validate_payload_length s (Some ty) (Some n)"
  have v: "BloxrouteMessageValidator_validate v full (Some ty) h (Some n) b =
      sbind (BloxrouteMessageValidator_validate_starting_sequence b) (\<lambda>_ b1. sbind (?r, b1) (\<lambda>_.
        BloxrouteMessageValidator_validate_control_flags full h (Some n)))"
    using assms(2) by (cases "size_validation_settings v") (simp_all add: BloxrouteMessageValidator_validate_def)
  have s: "size_ok v ty n \<longleftrightarrow> ?r = Inr ()"
    by (simp add: size_ok_validate split: option.split)
  show ?thesis
  proof (cases ?r)
    case (Inl e)
    then show ?thesis unfolding v s b1(1) using b1(2,3) assms(1) by simp
  next
    case (Inr u)
    then show ?thesis unfolding v s b1(1) using b1(2,3) b2 assms(1) by simp
  qed
qed

text \<open>
  C19. What a validator of a current protocol version accepts: a buffer that starts with the starting
  sequence (or is too short to tell), a payload within the limit of its type and, once the whole
  message is there, a last byte with the \<open>VALID\<close> flag. It never changes the bytes it looks at.
\<close>

theorem validator_exact:
  assumes "ib_inv b" and "connection_protocol_version v \<ge> FIRST_VALIDATING_VERSION" and "0 < h + n"
  shows "\<exists>r b'. BloxrouteMessageValidator_validate v full (Some ty) h (Some n) b = (r, b')
    \<and> ib_inv b' \<and> in_content b' = in_content b
    \<and> (r = Inr () \<longleftrightarrow>
         (length (in_content b) < 4 \<or> take 4 (in_content b) = STARTING_SEQUENCE_BYTES) \<and> size_ok v ty n
         \<and> (full \<longrightarrow> h + n \<le> length (in_content b) \<and> in_content b ! (h + n - 1) AND VALID \<noteq> 0))"
  using assms by (rule validator_spec)

theorem validator_exact_witness:
  "\<exists>r b'. BloxrouteMessageValidator_validate
      \<lparr>size_validation_settings = Some \<lparr>max_block_size_bytes = Some 100, max_tx_size_bytes = Some 0\<rparr>, connection_protocol_version = 23\<rparr> True
      (Some (ascii ''tx'')) 20 (Some 1) (InputBuffer_add_bytes (Bytearray, frame (ascii ''tx'') [1]) InputBuffer_init) = (r, b') \<and> r \<noteq> Inr ()"
proof -
  let ?b = "InputBuffer_add_bytes (Bytearray, frame (ascii ''tx'') [1]) InputBuffer_init"
  let ?v = "\<lparr>size_validation_settings = Some \<lparr>max_block_size_bytes = Some 100, max_tx_size_bytes = Some 0\<rparr>, connection_protocol_version = 23\<rparr>"
  have inv: "ib_inv ?b" by simp
  have "\<not> size_ok ?v (ascii ''tx'') 1" by (simp add: size_ok_def payload_limit_def)
  then show ?thesis
    using validator_exact[OF inv, of ?v 20 1 True "ascii ''tx''"] by auto
qed

subsection \<open>The protocol version of a new connection\<close>

abbreviation (input) PROTOCOL_VERSION :: nat where "PROTOCOL_VERSION \<equiv> 23"
abbreviation (input) MIN_SUPPORTED_PROTOCOL_VERSION :: nat where "MIN_SUPPORTED_PROTOCOL_VERSION \<equiv> 6"
abbreviation (input) VERSIONED_HELLO_MSG_MIN_PAYLOAD_LEN :: nat where "VERSIONED_HELLO_MSG_MIN_PAYLOAD_LEN \<equiv> 4 + 4 + 4"

definition HTTP_MESSAGE :: bytes where "HTTP_MESSAGE = ascii ''HTTP''"

definition BITCOIN_MESSAGES :: "bytes list" where
  "BITCOIN_MESSAGES = [[0x03, 0, 0, 0x2F, 0x2A, 0xE0, 0, 0, 0, 0, 0, 0x43], [0xFF, 0, 0x64, 0, 0, 0, 0x01]]"

text \<open>\<open>pattern in data\<close> on byte strings.\<close>

fun bytes_in :: "bytes \<Rightarrow> bytes \<Rightarrow> bool" where
  "bytes_in p [] \<longleftrightarrow> p = []"
| "bytes_in p (x # xs) \<longleftrightarrow> take (length p) (x # xs) = p \<or> bytes_in p xs"

definition AbstractVersionManager_is_protocol_supported :: "nat \<Rightarrow> bool" where
  "AbstractVersionManager_is_protocol_supported protocol_version \<longleftrightarrow> protocol_version \<ge> MIN_SUPPORTED_PROTOCOL_VERSION"

text \<open>
  \<open>get_connection_protocol_version\<close>. The peeked header may be longer than the header of a message; the
  slices and the unpacking below read its first bytes only.
\<close>

definition AbstractVersionManager_get_connection_protocol_version :: "InputBuffer \<Rightarrow> nat result \<times> InputBuffer" where
  "AbstractVersionManager_get_connection_protocol_version input_buffer =
     (if in_length input_buffer < int (STARTING_SEQUENCE_BYTES_LEN + BX_HDR_COMMON_OFF + VERSION_NUM_LEN)
      then (Inr PROTOCOL_VERSION, input_buffer)
      else sbind (keep_on_error (InputBuffer_peek_message (int HEADER_LENGTH)) input_buffer) (\<lambda>header_buf b1.
           sbind (if take STARTING_SEQUENCE_BYTES_LEN header_buf = STARTING_SEQUENCE_BYTES
                  then (rbind (AbstractBloxrouteMessage_unpack header_buf) (\<lambda>(command, payload_len).
                          Inr (command, payload_len, HEADER_LENGTH)), b1)
                  else (Inr (take MSG_TYPE_LEN header_buf, MSG_TYPE_LEN, BX_HDR_COMMON_OFF), b1))
             (\<lambda>(command, payload_len, header_len) b2.
                if command \<noteq> MESSAGE_TYPE HelloMessage
                then if bytes_in HTTP_MESSAGE command then (Inl (NonVersionMessageError True), b2)
                     else if command \<in> set BITCOIN_MESSAGES then (Inl (NonVersionMessageError True), b2)
                     else (Inr PROTOCOL_VERSION, b2)
                else if payload_len < VERSIONED_HELLO_MSG_MIN_PAYLOAD_LEN then (Inr 1, b2)
                else sbind (keep_on_error (InputBuffer_get_slice (Some (int header_len)) (Some (int (header_len + VERSION_NUM_LEN)))) b2)
                  (\<lambda>(_, version_buf) b3. (unpack_from 4 version_buf 0, b3)))))"

lemma unpack_from_prefix:
  "off + w \<le> length a \<Longrightarrow> unpack_from w (a @ r) off = unpack_from w a off"
  "off + w \<le> length a \<Longrightarrow> unpack_s w (a @ r) off = unpack_s w a off"
  by (simp_all add: unpack_from_def unpack_s_def bslice_append)

lemma unpack_prefix:
  assumes "20 \<le> length a"
  shows "AbstractBloxrouteMessage_unpack (a @ r) = AbstractBloxrouteMessage_unpack a"
  using assms by (simp add: AbstractBloxrouteMessage_unpack_def AbstractInternalMessage_unpack_def unpack_from_prefix)

lemma peek_header:
  assumes "ib_inv b" and "20 \<le> length (in_content b)"
  shows "\<exists>bs b'. keep_on_error (InputBuffer_peek_message (int 20)) b = (Inr bs, b') \<and> ib_inv b'
    \<and> in_content b' = in_content b \<and> 20 \<le> length bs \<and> (\<exists>r. in_content b = bs @ r)"
  using peek_message_spec[OF assms(1), of "int 20"] assms(2) by (fastforce simp: keep_on_error_def)

text \<open>
  The version is read from the hello message of the peer as soon as four bytes of its payload are
  there, whatever pieces they arrived in; the buffer keeps its bytes.
\<close>

theorem hello_gives_version:
  assumes "ib_inv b" and "24 \<le> length (in_content b)" and "v < 256 ^ 4" and "8 \<le> length body" and "length body < 256 ^ 4 - 4"
    and "in_content b = take k (frame (MESSAGE_TYPE HelloMessage) (le_bytes 4 v @ body) @ rest)"
  shows "\<exists>b'. AbstractVersionManager_get_connection_protocol_version b = (Inr v, b')
    \<and> ib_inv b' \<and> in_content b' = in_content b"
proof -
  let ?f = "frame (MESSAGE_TYPE HelloMessage) (le_bytes 4 v @ body)"
  obtain hb b1 r where h: "keep_on_error (InputBuffer_peek_message (int 20)) b = (Inr hb, b1)" "ib_inv b1"
    "in_content b1 = in_content b" "20 \<le> length hb" "in_content b = hb @ r"
    using peek_header[OF assms(1)] assms(2) by auto
  have k: "24 \<le> k" using assms(2,6) by (metis length_take min.boundedE)
  have t: "take n hb = take n (?f @ rest)" if "n \<le> 20" for n
  proof -
    have "take n hb = take n (in_content b)" using h(4,5) that by simp
    then show ?thesis using that k unfolding assms(6) by (simp only: take_take min.absorb1)
  qed
  have "take 4 hb = STARTING_SEQUENCE_BYTES" using t[of 4] by (simp add: frame_def)
  moreover have "AbstractBloxrouteMessage_unpack hb = Inr (MESSAGE_TYPE HelloMessage, 4 + length body)"
  proof -
    have "AbstractBloxrouteMessage_unpack hb = AbstractBloxrouteMessage_unpack (take 20 hb)"
      using unpack_prefix[of "take 20 hb" "drop 20 hb"] h(4) by simp
    then show ?thesis
      using t[of 20] unpack_header_of_frame[OF MESSAGE_TYPE_good[of HelloMessage], of "le_bytes 4 v @ body" rest] assms(5)
      by simp
  qed
  moreover obtain kind b2 where g: "InputBuffer_get_slice (Some (int 20)) (Some (int 24)) b1 = Inr ((kind, bslice 20 24 (in_content b)), b2)"
    "ib_inv b2" "in_content b2 = in_content b"
    using get_slice_spec[OF h(2), of 20 24] input_list_ne[OF h(2)] h(3) assms(2) by fastforce
  moreover have "bslice 20 24 (in_content b) = le_bytes 4 v"
  proof -
    have "bslice 20 24 (in_content b) = bslice 20 24 (?f @ rest)" using k assms(6) by (simp only: bslice_take)
    also have "\<dots> = le_bytes 4 v"
      using bslice_middle[of "STARTING_SEQUENCE_BYTES @ pad_to 12 (MESSAGE_TYPE HelloMessage) @ le_bytes 4 (4 + length body)"
          "le_bytes 4 v" "body @ rest"] by (simp add: frame_def)
    finally show ?thesis .
  qed
  moreover have "unpack_from 4 (le_bytes 4 v) 0 = Inr v"
    using unpack_from_middle[of "le_bytes 4 v" 4 "[]" "[]"] assms(3) by (simp add: of_le_le_bytes)
  ultimately show ?thesis
    using h assms(1,2,4) by (simp add: AbstractVersionManager_get_connection_protocol_version_def ib_inv_def keep_on_error_def)
qed

theorem hello_gives_version_witness:
  "\<exists>b'. AbstractVersionManager_get_connection_protocol_version
      (InputBuffer_add_bytes (Bytearray, frame (MESSAGE_TYPE HelloMessage) (le_bytes 4 21 @ replicate 20 0 @ [1])) InputBuffer_init) = (Inr 21, b')"
proof -
  let ?b = "InputBuffer_add_bytes (Bytearray, frame (MESSAGE_TYPE HelloMessage) (le_bytes 4 21 @ replicate 20 0 @ [1])) InputBuffer_init"
  have "ib_inv ?b" by simp
  from hello_gives_version[OF this, of 21 "replicate 20 0 @ [1]" 45 "[]"] show ?thesis by auto
qed

end
