(* ===== verification/Connection.thy ===== *)
theory Connection
  imports Messages Alarm_Queue Basic_Values
begin

text \<open>
  A connection: \<open>connections/abstract_connection.py\<close> on top of the socket protocol object of
  \<open>network/abstract_socket_connection_protocol.py\<close>. One record holds the attributes of the connection,
  of its socket and the node's alarm queue, which the connection writes to. Logging and throughput
  statistics have no effect on that state and are left out.

  The transport belongs to asyncio. It is modelled by the bytes written to it and by a parameter
  \<open>full\<close> that says whether it calls \<open>pause_writing\<close> during a write, given everything written so far.
\<close>

subsection \<open>State\<close>

datatype conn_callback = Send_ping | Pong_msg_timeout | Other_callback nat

record Socket =
  alive :: bool
  initialized :: bool
  can_send :: bool
  sock_should_retry :: bool
  do_not_retry :: bool
  halt_receive :: bool
  has_transport :: bool
  written :: bytes
  aborted :: bool

text \<open>\<open>ConnectionState\<close>: the bits of a flag.\<close>

abbreviation (input) CONNECTING :: nat where "CONNECTING \<equiv> 1"
abbreviation (input) INITIALIZED :: nat where "INITIALIZED \<equiv> 2"
abbreviation (input) HELLO_RECVD :: nat where "HELLO_RECVD \<equiv> 4"
abbreviation (input) HELLO_ACKD :: nat where "HELLO_ACKD \<equiv> 8"
abbreviation (input) ESTABLISHED :: nat where "ESTABLISHED \<equiv> 16"

abbreviation (input) MAX_BAD_MESSAGES :: nat where "MAX_BAD_MESSAGES \<equiv> 3"
abbreviation (input) MAX_LOGGED_BYTES_LEN :: nat where "MAX_LOGGED_BYTES_LEN \<equiv> 512000"
abbreviation (input) PING_INTERVAL_S :: time where "PING_INTERVAL_S \<equiv> 60"
abbreviation (input) PING_PONG_REPLY_TIMEOUT_S :: time where "PING_PONG_REPLY_TIMEOUT_S \<equiv> 300"

text \<open>
  \<open>in_pool\<close> says whether the node's connection pool finds this connection under its file number, which is
  what the socket asks before it sends.
\<close>

record connection =
  inputbuf :: InputBuffer
  outputbuf :: OutputBuffer
  conn_socket :: Socket
  in_pool :: bool
  conn_state :: nat
  established :: bool
  num_bad_messages :: nat
  from_me :: bool
  peer_id :: "string option"
  hello_messages :: "bytes list"
  header_size :: nat
  processing_message_index :: nat
  can_send_pings :: bool
  pong_timeout_enabled :: bool
  pong_message :: "message option"
  ack_message :: "message option"
  ping_alarm_id :: "nat option"
  ping_interval_s :: time
  pong_timeout_alarm_id :: "nat option"
  alarm_queue :: "(conn_callback, unit) AlarmQueue"
  is_authenticated :: bool
  account_id :: "string option"
  tier_name :: "string option"
  close_waiter :: bool

subsection \<open>The socket\<close>

definition Socket_is_sendable :: "Socket \<Rightarrow> bool" where
  "Socket_is_sendable s \<longleftrightarrow> alive s \<and> initialized s \<and> can_send s"

definition Socket_is_receivable :: "Socket \<Rightarrow> bool" where
  "Socket_is_receivable s \<longleftrightarrow> alive s \<and> \<not> halt_receive s"

definition Socket_pause_writing :: "Socket \<Rightarrow> Socket" where
  "Socket_pause_writing s = s\<lparr>can_send := False\<rparr>"

definition Socket_pause_reading :: "Socket \<Rightarrow> Socket result" where
  "Socket_pause_reading s =
     (if alive s then (if has_transport s then Inr (s\<lparr>halt_receive := True\<rparr>) else Inl AssertionError) else Inr s)"

definition Socket_resume_reading :: "Socket \<Rightarrow> Socket result" where
  "Socket_resume_reading s =
     (if alive s then (if has_transport s then Inr (s\<lparr>halt_receive := False\<rparr>) else Inl AssertionError) else Inr s)"

definition Socket_mark_for_close :: "bool \<Rightarrow> Socket \<Rightarrow> unit result \<times> Socket" where
  "Socket_mark_for_close retry s =
     (if \<not> alive s then (Inr (), s)
      else let s1 = s\<lparr>alive := False, sock_should_retry := retry\<rparr>
           in if has_transport s1 then (Inr (), s1\<lparr>aborted := True\<rparr>) else (Inl AssertionError, s1))"

text \<open>The part of \<open>connection_lost\<close> that changes the socket; it reports whether the node has to close the connection.\<close>

definition Socket_connection_lost :: "Socket \<Rightarrow> bool \<times> Socket" where
  "Socket_connection_lost s =
     (alive s, s\<lparr>alive := False, do_not_retry := do_not_retry s \<or> \<not> sock_should_retry s\<rparr>)"

text \<open>\<open>transport.write\<close>, after which the transport may have paused the protocol.\<close>

definition transport_write :: "(bytes \<Rightarrow> bool) \<Rightarrow> bytes \<Rightarrow> Socket \<Rightarrow> Socket" where
  "transport_write full data s =
     (let s1 = s\<lparr>written := written s @ data\<rparr> in if full (written s1) then Socket_pause_writing s1 else s1)"

subsection \<open>Sending\<close>

definition AbstractConnection_is_active :: "'x connection_scheme \<Rightarrow> bool" where
  "AbstractConnection_is_active c \<longleftrightarrow> established c \<and> alive (conn_socket c)"

definition AbstractConnection_is_alive :: "'x connection_scheme \<Rightarrow> bool" where
  "AbstractConnection_is_alive c \<longleftrightarrow> alive (conn_socket c)"

definition AbstractConnection_add_received_bytes :: "piece \<Rightarrow> 'x connection_scheme \<Rightarrow> 'x connection_scheme result" where
  "AbstractConnection_add_received_bytes bytes_received c =
     (if \<not> AbstractConnection_is_alive c then Inl AssertionError
      else Inr (c\<lparr>inputbuf := InputBuffer_add_bytes bytes_received (inputbuf c)\<rparr>))"

definition AbstractConnection_get_bytes_to_send :: "time \<Rightarrow> 'x connection_scheme \<Rightarrow> (bytes \<times> 'x connection_scheme) result" where
  "AbstractConnection_get_bytes_to_send now c =
     (if \<not> AbstractConnection_is_alive c then Inl AssertionError
      else rbind (OutputBuffer_get_buffer now (outputbuf c)) (\<lambda>(data, ob). Inr (data, c\<lparr>outputbuf := ob\<rparr>)))"

text \<open>\<open>advance_bytes_on_buffer\<close> turns a \<open>ValueError\<close> of the buffer into a \<open>RuntimeError\<close>.\<close>

definition AbstractConnection_advance_bytes_on_buffer :: "OutputBuffer \<Rightarrow> int \<Rightarrow> OutputBuffer result" where
  "AbstractConnection_advance_bytes_on_buffer b bytes_written =
     (case OutputBuffer_advance_buffer bytes_written b of
        Inl ValueError \<Rightarrow> Inl RuntimeErr
      | r \<Rightarrow> r)"

definition AbstractConnection_advance_sent_bytes :: "int \<Rightarrow> 'x connection_scheme \<Rightarrow> 'x connection_scheme result" where
  "AbstractConnection_advance_sent_bytes bytes_sent c =
     rbind (AbstractConnection_advance_bytes_on_buffer (outputbuf c) bytes_sent) (\<lambda>ob. Inr (c\<lparr>outputbuf := ob\<rparr>))"

text \<open>The bytes that a buffer still holds bound the number of rounds of the sending loop.\<close>

definition unsent :: "OutputBuffer \<Rightarrow> nat" where
  "unsent ob = length (concat (output_msgs ob)) + length (held_back ob) - index ob"

lemma advance_ok_cases:
  "AbstractConnection_advance_bytes_on_buffer ob n = Inr ob' \<longleftrightarrow> OutputBuffer_advance_buffer n ob = Inr ob'"
  by (simp add: AbstractConnection_advance_bytes_on_buffer_def split: sum.splits py_error.splits)

lemma unsent_flush: "unsent (OutputBuffer_flush ob) = unsent ob"
  by (simp add: OutputBuffer_flush_def unsent_def held_back_def split: option.splits)

lemma get_buffer_cases:
  assumes "OutputBuffer_get_buffer now ob = Inr (data, ob1)"
  shows "unsent ob1 = unsent ob \<and> data = (case output_msgs ob1 of [] \<Rightarrow> [] | m # _ \<Rightarrow> drop (index ob1) m)"
  using assms
  by (auto simp: OutputBuffer_get_buffer_def rbind_eq_Inr unsent_flush split: if_splits option.splits list.splits)

lemma unsent_decreases:
  assumes "OutputBuffer_get_buffer now ob = Inr (data, ob1)" and "data \<noteq> []"
    and "OutputBuffer_advance_buffer (int (length data)) ob1 = Inr ob2"
  shows "unsent ob2 < unsent ob"
proof -
  from get_buffer_cases[OF assms(1)] assms(2) obtain m ms
    where m: "output_msgs ob1 = m # ms" "data = drop (index ob1) m" "unsent ob1 = unsent ob"
    by (cases "output_msgs ob1") auto
  have "index ob1 < length m" using assms(2) m(2) by auto
  then have "index ob1 + length data = length m" using m(2) by simp
  then have "ob2 = ob1\<lparr>out_length := out_length ob1 - int (length data), output_msgs := ms, index := 0\<rparr>"
    using assms(3) m(1) by (auto simp: OutputBuffer_advance_buffer_def Let_def)
  then have "unsent ob2 = length (concat ms) + length (held_back ob1)"
    by (simp add: unsent_def held_back_def split: option.split)
  also have "\<dots> < unsent ob1" using m(1) \<open>index ob1 < length m\<close> by (simp add: unsent_def)
  finally show ?thesis using m(3) by simp
qed

text \<open>The loop of \<open>AbstractSocketConnectionProtocol.send\<close>.\<close>

function send_loop :: "(bytes \<Rightarrow> bool) \<Rightarrow> time \<Rightarrow> 'x connection_scheme \<Rightarrow> unit result \<times> 'x connection_scheme" where
  "send_loop full now c =
     (if \<not> Socket_is_sendable (conn_socket c) then (Inr (), c)
      else case AbstractConnection_get_bytes_to_send now c of
        Inl e \<Rightarrow> (Inl e, c)
      | Inr (data, c1) \<Rightarrow>
          if data = [] then (Inr (), c1)
          else if \<not> has_transport (conn_socket c1) then (Inl AssertionError, c1)
          else (case AbstractConnection_advance_sent_bytes (int (length data))
                       (c1\<lparr>conn_socket := transport_write full data (conn_socket c1)\<rparr>) of
                  Inl e \<Rightarrow> (Inl e, c1\<lparr>conn_socket := transport_write full data (conn_socket c1)\<rparr>)
                | Inr c2 \<Rightarrow> send_loop full now c2))"
  by pat_completeness auto
termination
  by (relation "measure (\<lambda>(_, _, c). unsent (outputbuf c))")
    (auto simp: AbstractConnection_get_bytes_to_send_def AbstractConnection_advance_sent_bytes_def rbind_eq_Inr
      advance_ok_cases split: if_splits intro: unsent_decreases)

declare send_loop.simps [simp del]

definition Socket_send :: "(bytes \<Rightarrow> bool) \<Rightarrow> time \<Rightarrow> 'x connection_scheme \<Rightarrow> unit result \<times> 'x connection_scheme" where
  "Socket_send full now c = (if in_pool c then send_loop full now c else (Inr (), c))"

definition Socket_resume_writing :: "(bytes \<Rightarrow> bool) \<Rightarrow> time \<Rightarrow> 'x connection_scheme \<Rightarrow> unit result \<times> 'x connection_scheme" where
  "Socket_resume_writing full now c =
     Socket_send full now (c\<lparr>conn_socket := (conn_socket c)\<lparr>can_send := True\<rparr>\<rparr>)"

definition AbstractConnection_enqueue_msg_bytes ::
    "(bytes \<Rightarrow> bool) \<Rightarrow> time \<Rightarrow> bytes \<Rightarrow> bool \<Rightarrow> 'x connection_scheme \<Rightarrow> unit result \<times> 'x connection_scheme" where
  "AbstractConnection_enqueue_msg_bytes full now msg_bytes prepend c =
     (if \<not> alive (conn_socket c) then (Inr (), c)
      else case (if prepend then OutputBuffer_prepend_msgbytes msg_bytes (outputbuf c)
                 else OutputBuffer_enqueue_msgbytes now msg_bytes (outputbuf c)) of
        Inl e \<Rightarrow> (Inl e, c)
      | Inr ob \<Rightarrow> Socket_send full now (c\<lparr>outputbuf := ob\<rparr>))"

text \<open>A message attribute that is still \<open>None\<close> has no \<open>log_level\<close>.\<close>

definition AbstractConnection_enqueue_msg ::
    "(bytes \<Rightarrow> bool) \<Rightarrow> time \<Rightarrow> message option \<Rightarrow> bool \<Rightarrow> 'x connection_scheme \<Rightarrow> unit result \<times> 'x connection_scheme" where
  "AbstractConnection_enqueue_msg full now msg prepend c =
     (case msg of
        None \<Rightarrow> (Inl AttributeErr, c)
      | Some m \<Rightarrow> (case AbstractInternalMessage_rawbytes m of
                    Inl e \<Rightarrow> (Inl e, c)
                  | Inr (raw, _) \<Rightarrow> AbstractConnection_enqueue_msg_bytes full now raw prepend c))"

text \<open>\<open>disable_buffering\<close> of \<open>InternalNodeConnection\<close>.\<close>

definition InternalNodeConnection_disable_buffering ::
    "(bytes \<Rightarrow> bool) \<Rightarrow> time \<Rightarrow> 'x connection_scheme \<Rightarrow> unit result \<times> 'x connection_scheme" where
  "InternalNodeConnection_disable_buffering full now c =
     Socket_send full now (c\<lparr>outputbuf := (OutputBuffer_flush (outputbuf c))\<lparr>enable_buffering := False\<rparr>\<rparr>)"

subsection \<open>The byte stream a connection sends\<close>

text \<open>What the peer will have received once everything queued is sent.\<close>

definition outgoing :: "'x connection_scheme \<Rightarrow> bytes" where
  "outgoing c = written (conn_socket c) @ out_content (outputbuf c)"

definition conn_out_inv :: "'x connection_scheme \<Rightarrow> bool" where
  "conn_out_inv c \<longleftrightarrow> ob_inv (outputbuf c) \<and> has_transport (conn_socket c)"

lemma write_simps [simp]:
  "written (transport_write full data s) = written s @ data" "has_transport (transport_write full data s) = has_transport s"
  "alive (transport_write full data s) = alive s" "initialized (transport_write full data s) = initialized s"
  by (simp_all add: transport_write_def Socket_pause_writing_def Let_def)

text \<open>
  The fields a sending operation leaves alone: everything but the output buffer and the socket.
\<close>

definition same_but_output :: "'x connection_scheme \<Rightarrow> 'x connection_scheme \<Rightarrow> bool" where
  "same_but_output c c' \<longleftrightarrow> c'\<lparr>outputbuf := outputbuf c, conn_socket := conn_socket c\<rparr> = c
     \<and> alive (conn_socket c') = alive (conn_socket c)"

lemma same_but_output_refl [simp]: "same_but_output c c"
  by (simp add: same_but_output_def)

lemma same_but_output_trans: "same_but_output a b \<Longrightarrow> same_but_output b c \<Longrightarrow> same_but_output a c"
  unfolding same_but_output_def by (cases a; cases b; cases c) simp

lemma same_but_output_fields:
  assumes "same_but_output a b"
  shows "conn_state b = conn_state a" "established b = established a" "alive (conn_socket b) = alive (conn_socket a)"
    "ping_interval_s b = ping_interval_s a"
  using assms unfolding same_but_output_def by (cases a; cases b; simp)+

lemma same_but_output_updates [simp]:
  "same_but_output c (c\<lparr>outputbuf := ob\<rparr>)"
  "alive s = alive (conn_socket c) \<Longrightarrow> same_but_output c (c\<lparr>outputbuf := ob, conn_socket := s\<rparr>)"
  "alive s = alive (conn_socket c) \<Longrightarrow> same_but_output c (c\<lparr>conn_socket := s\<rparr>)"
  by (simp_all add: same_but_output_def)

lemma send_loop_spec:
  "conn_out_inv c \<Longrightarrow> \<exists>c'. send_loop full now c = (Inr (), c') \<and> conn_out_inv c' \<and> outgoing c' = outgoing c
    \<and> same_but_output c c'"
proof (induction full now c rule: send_loop.induct)
  case (1 full now c)
  show ?case
  proof (cases "Socket_is_sendable (conn_socket c)")
    case False
    then show ?thesis using 1(2) by (subst send_loop.simps) simp
  next
    case True
    have ob: "ob_inv (outputbuf c)" using 1(2) by (simp add: conn_out_inv_def)
    obtain bs ob1 rest where g: "OutputBuffer_get_buffer now (outputbuf c) = Inr (bs, ob1)" "ob_inv ob1"
      "out_content ob1 = out_content (outputbuf c)" "out_content (outputbuf c) = bs @ rest"
      "case output_msgs ob1 of [] \<Rightarrow> bs = [] | m # _ \<Rightarrow> bs = drop (index ob1) m"
      using get_buffer_spec[OF ob, of now] by blast
    let ?c1 = "c\<lparr>outputbuf := ob1\<rparr>"
    have get: "AbstractConnection_get_bytes_to_send now c = Inr (bs, ?c1)"
      using True g(1) by (simp add: AbstractConnection_get_bytes_to_send_def Socket_is_sendable_def AbstractConnection_is_alive_def)
    show ?thesis
    proof (cases "bs = []")
      case True
      then show ?thesis
        using get \<open>Socket_is_sendable _\<close> 1(2) g(2,3)
        by (subst send_loop.simps) (simp add: conn_out_inv_def outgoing_def)
    next
      case False
      then obtain m ms where m: "output_msgs ob1 = m # ms" "bs = drop (index ob1) m"
        using g(5) by (cases "output_msgs ob1") auto
      obtain ob2 where ob2: "OutputBuffer_advance_buffer (int (length bs)) ob1 = Inr ob2" "ob_inv ob2"
        "out_content ob2 = drop (length bs) (out_content ob1)"
        using advance_spec[OF g(2) m(1), of "length bs"] m(2) by auto
      let ?s = "transport_write full bs (conn_socket c)"
      let ?c2 = "c\<lparr>outputbuf := ob2, conn_socket := ?s\<rparr>"
      have adv: "AbstractConnection_advance_sent_bytes (int (length bs))
          (?c1\<lparr>conn_socket := transport_write full bs (conn_socket ?c1)\<rparr>) = Inr ?c2"
        using ob2(1) by (simp add: AbstractConnection_advance_sent_bytes_def advance_ok_cases[THEN iffD2])
      have "conn_out_inv ?c2" using 1(2) ob2(2) by (simp add: conn_out_inv_def)
      moreover have "outgoing ?c2 = outgoing c" using ob2(3) g(3,4) by (simp add: outgoing_def)
      moreover have "same_but_output c ?c2" by simp
      ultimately obtain c' where c': "send_loop full now ?c2 = (Inr (), c')" "conn_out_inv c'" "outgoing c' = outgoing c"
        "same_but_output c c'"
        using 1(1)[OF _ get refl False _ adv] True 1(2) same_but_output_trans by (fastforce simp: conn_out_inv_def)
      moreover have "send_loop full now c = send_loop full now ?c2"
        using get adv False True 1(2) by (subst send_loop.simps) (simp add: conn_out_inv_def)
      ultimately show ?thesis by metis
    qed
  qed
qed

lemma Socket_send_spec:
  assumes "conn_out_inv c"
  shows "\<exists>c'. Socket_send full now c = (Inr (), c') \<and> conn_out_inv c' \<and> outgoing c' = outgoing c \<and> same_but_output c c'"
  using send_loop_spec[OF assms] assms by (simp add: Socket_send_def)

lemma enqueue_msg_bytes_spec:
  assumes "conn_out_inv c" and "alive (conn_socket c)"
  shows "\<exists>c'. AbstractConnection_enqueue_msg_bytes full now msg_bytes False c = (Inr (), c') \<and> conn_out_inv c'
    \<and> outgoing c' = outgoing c @ msg_bytes \<and> same_but_output c c'"
proof -
  obtain ob where ob: "OutputBuffer_enqueue_msgbytes now msg_bytes (outputbuf c) = Inr ob" "ob_inv ob"
    "out_content ob = out_content (outputbuf c) @ msg_bytes"
    using enqueue_spec[of "outputbuf c"] assms(1) by (auto simp: conn_out_inv_def)
  have "conn_out_inv (c\<lparr>outputbuf := ob\<rparr>)" using assms(1) ob(2) by (simp add: conn_out_inv_def)
  from Socket_send_spec[OF this, of full now] obtain c' where c': "Socket_send full now (c\<lparr>outputbuf := ob\<rparr>) = (Inr (), c')"
    "conn_out_inv c'" "outgoing c' = outgoing (c\<lparr>outputbuf := ob\<rparr>)" "same_but_output (c\<lparr>outputbuf := ob\<rparr>) c'" by blast
  moreover have "same_but_output c c'" using c'(4) same_but_output_trans same_but_output_updates(1) by blast
  ultimately show ?thesis
    using assms(2) ob(1,3) by (simp add: AbstractConnection_enqueue_msg_bytes_def outgoing_def)
qed

subsection \<open>Closing, pings and the handshake\<close>

text \<open>\<open>mark_for_close\<close>; without an argument a connection this node opened is retried.\<close>

definition AbstractConnection_mark_for_close :: "bool option \<Rightarrow> 'x connection_scheme \<Rightarrow> unit result \<times> 'x connection_scheme" where
  "AbstractConnection_mark_for_close should_retry c =
     (let retry = (case should_retry of None \<Rightarrow> from_me c | Some r \<Rightarrow> r);
          (r, s) = Socket_mark_for_close retry (conn_socket c)
      in (r, c\<lparr>close_waiter := True, conn_socket := s\<rparr>))"

definition AbstractConnection_unschedule_pings :: "'x connection_scheme \<Rightarrow> 'x connection_scheme" where
  "AbstractConnection_unschedule_pings c =
     (case ping_alarm_id c of
        None \<Rightarrow> c
      | Some existing_alarm \<Rightarrow>
          c\<lparr>alarm_queue := AlarmQueue_unregister_alarm existing_alarm (alarm_queue c), ping_alarm_id := None\<rparr>)"

text \<open>Registering an alarm of the connection: the callable is a method of the connection and never fires at once.\<close>

definition register_conn_alarm ::
    "time \<Rightarrow> time \<Rightarrow> conn_callback \<Rightarrow> (conn_callback, unit) AlarmQueue \<Rightarrow> (nat \<times> (conn_callback, unit) AlarmQueue) result" where
  "register_conn_alarm now delay f q =
     (case AlarmQueue_register_alarm timer_env delay (Callable f) () False now q of
        (Inl e, _, _) \<Rightarrow> Inl e | (Inr ref, _, q') \<Rightarrow> Inr (ref, q'))"

definition AbstractConnection_schedule_pings :: "time \<Rightarrow> 'x connection_scheme \<Rightarrow> 'x connection_scheme result" where
  "AbstractConnection_schedule_pings now c =
     (let c1 = AbstractConnection_unschedule_pings c
      in if can_send_pings c1
         then rbind (register_conn_alarm now (ping_interval_s c1) Send_ping (alarm_queue c1)) (\<lambda>(ref, q).
                Inr (c1\<lparr>alarm_queue := q, ping_alarm_id := Some ref\<rparr>))
         else Inr c1)"

definition AbstractConnection_schedule_pong_timeout :: "time \<Rightarrow> 'x connection_scheme \<Rightarrow> 'x connection_scheme result" where
  "AbstractConnection_schedule_pong_timeout now c =
     (case pong_timeout_alarm_id c of
        None \<Rightarrow> rbind (register_conn_alarm now PING_PONG_REPLY_TIMEOUT_S Pong_msg_timeout (alarm_queue c)) (\<lambda>(ref, q).
                  Inr (c\<lparr>alarm_queue := q, pong_timeout_alarm_id := Some ref\<rparr>))
      | Some _ \<Rightarrow> Inr c)"

definition AbstractConnection_cancel_pong_timeout :: "'x connection_scheme \<Rightarrow> 'x connection_scheme" where
  "AbstractConnection_cancel_pong_timeout c =
     (case pong_timeout_alarm_id c of
        None \<Rightarrow> c
      | Some ref \<Rightarrow> c\<lparr>alarm_queue := AlarmQueue_unregister_alarm ref (alarm_queue c), pong_timeout_alarm_id := None\<rparr>)"

text \<open>
  \<open>send_ping\<close>, which the alarm queue calls: the result is the delay until the next ping or
  \<open>CANCEL_ALARMS\<close>. The ping message is what the abstract method \<open>ping_message\<close> returns.
\<close>

abbreviation (input) CANCEL_ALARMS :: time where "CANCEL_ALARMS \<equiv> 0"

definition AbstractConnection_send_ping ::
    "(bytes \<Rightarrow> bool) \<Rightarrow> time \<Rightarrow> message \<Rightarrow> 'x connection_scheme \<Rightarrow> time result \<times> 'x connection_scheme" where
  "AbstractConnection_send_ping full now ping c =
     (if can_send_pings c \<and> AbstractConnection_is_alive c
      then sbind (AbstractConnection_enqueue_msg full now (Some ping) False c) (\<lambda>_ c1.
             if pong_timeout_enabled c1
             then (case AbstractConnection_schedule_pong_timeout now c1 of
                     Inl e \<Rightarrow> (Inl e, c1) | Inr c2 \<Rightarrow> (Inr (ping_interval_s c2), c2))
             else (Inr (ping_interval_s c1), c1))
      else (Inr CANCEL_ALARMS, c))"

text \<open>\<open>InternalNodeConnection.mark_for_close\<close> also cancels the pong timeout.\<close>

definition InternalNodeConnection_mark_for_close :: "bool option \<Rightarrow> 'x connection_scheme \<Rightarrow> unit result \<times> 'x connection_scheme" where
  "InternalNodeConnection_mark_for_close should_retry c =
     sbind (AbstractConnection_mark_for_close should_retry c) (\<lambda>_ c1. (Inr (), AbstractConnection_cancel_pong_timeout c1))"

text \<open>Methods that subclasses override are arguments: here and below \<open>close\<close> is the \<open>mark_for_close\<close> of the class.\<close>

definition AbstractConnection_pong_msg_timeout ::
    "(bool option \<Rightarrow> 'x connection_scheme \<Rightarrow> unit result \<times> 'x connection_scheme) \<Rightarrow> 'x connection_scheme \<Rightarrow> unit result \<times> 'x connection_scheme" where
  "AbstractConnection_pong_msg_timeout close c =
     (if AbstractConnection_is_alive c
      then sbind (close None c) (\<lambda>_ c1. (Inr (), c1\<lparr>pong_timeout_alarm_id := None\<rparr>))
      else (Inr (), c))"

text \<open>
  \<open>on_connection_established\<close>: the part that changes the connection; the retry counter of the node and
  the model of the peer are not kept here.
\<close>

definition AbstractConnection_on_connection_established :: "'x connection_scheme \<Rightarrow> 'x connection_scheme" where
  "AbstractConnection_on_connection_established c =
     (if \<not> AbstractConnection_is_active c
      then c\<lparr>conn_state := conn_state c OR HELLO_RECVD OR HELLO_ACKD OR ESTABLISHED, established := True\<rparr>
      else c)"

text \<open>
  \<open>msg_hello\<close> of the base class. \<open>duplicate\<close> is what the pool knows under the peer id once that is set, if
  the check applies: whether it is another connection, and whether this node opened that one. The
  first result says whether that other connection is marked for close.
\<close>

definition AbstractConnection_msg_hello ::
    "(bytes \<Rightarrow> bool) \<Rightarrow> time \<Rightarrow> (string option \<Rightarrow> (bool \<times> bool) option) \<Rightarrow> (bool option \<Rightarrow> 'x connection_scheme \<Rightarrow> unit result \<times> 'x connection_scheme)
     \<Rightarrow> string option \<Rightarrow> 'x connection_scheme \<Rightarrow> bool result \<times> 'x connection_scheme" where
  "AbstractConnection_msg_hello full now duplicate close node_id c =
     (let c1 = c\<lparr>conn_state := conn_state c OR HELLO_RECVD\<rparr>;
          c2 = (if peer_id c1 = None then c1\<lparr>peer_id := node_id\<rparr> else c1)
      in sbind (case duplicate (peer_id c2) of
                  Some (True, existing_from_me) \<Rightarrow>
                    sbind (if from_me c2 then close None c2 else (Inr (), c2)) (\<lambda>_ c3. (Inr existing_from_me, c3))
                | _ \<Rightarrow> (Inr False, c2)) (\<lambda>close_other c3.
         sbind (AbstractConnection_enqueue_msg full now (ack_message c3) False c3) (\<lambda>_ c4.
           (Inr close_other,
            if flag_in (INITIALIZED OR HELLO_ACKD) (conn_state c4) then AbstractConnection_on_connection_established c4 else c4))))"

definition AbstractConnection_msg_ack :: "'x connection_scheme \<Rightarrow> 'x connection_scheme" where
  "AbstractConnection_msg_ack c =
     (let c1 = c\<lparr>conn_state := conn_state c OR HELLO_ACKD\<rparr>
      in if flag_in (INITIALIZED OR HELLO_RECVD) (conn_state c1) then AbstractConnection_on_connection_established c1 else c1)"

definition AbstractConnection_msg_ping :: "(bytes \<Rightarrow> bool) \<Rightarrow> time \<Rightarrow> 'x connection_scheme \<Rightarrow> unit result \<times> 'x connection_scheme" where
  "AbstractConnection_msg_ping full now c = AbstractConnection_enqueue_msg full now (pong_message c) False c"

definition AbstractConnection_msg_pong :: "'x connection_scheme \<Rightarrow> 'x connection_scheme" where
  "AbstractConnection_msg_pong c = AbstractConnection_cancel_pong_timeout c"

definition AbstractConnection_set_account_id :: "string option \<Rightarrow> string \<Rightarrow> 'x connection_scheme \<Rightarrow> 'x connection_scheme result" where
  "AbstractConnection_set_account_id account tier c =
     (if is_authenticated c \<and> account \<noteq> account_id c then Inl ConnectionAuthenticationError
      else Inr ((if \<not> is_authenticated c then c\<lparr>account_id := account\<rparr> else c)\<lparr>tier_name := Some tier\<rparr>))"

definition AbstractConnection_get_backlog_size :: "nat \<Rightarrow> 'x connection_scheme \<Rightarrow> int" where
  "AbstractConnection_get_backlog_size socket_buffer_backlog c = out_length (outputbuf c) + int socket_buffer_backlog"

subsection \<open>Processing received messages\<close>

text \<open>\<open>ConnectionMessagePreview\<close>.\<close>

record ConnectionMessagePreview =
  cp_is_full_message :: bool
  cp_should_process_message :: bool
  cp_msg_type :: "bytes option"
  cp_payload_len :: "nat option"

text \<open>
  The methods \<open>process_message\<close> calls on \<open>self\<close> and its attributes: they are overridden by subclasses, the
  handlers of \<open>message_handlers\<close> come from them as well. Each may raise and returns the state it leaves.
\<close>

record 'c conn_methods =
  cm_pre_process_msg :: "'c \<Rightarrow> ConnectionMessagePreview result \<times> 'c"
  cm_validate :: "bool \<Rightarrow> bytes option \<Rightarrow> nat \<Rightarrow> nat option \<Rightarrow> InputBuffer \<Rightarrow> unit result \<times> InputBuffer"
  cm_process_msg_type :: "bytes option \<Rightarrow> bool \<Rightarrow> nat option \<Rightarrow> 'c \<Rightarrow> unit result \<times> 'c"
  cm_pop_next_message :: "nat \<Rightarrow> 'c \<Rightarrow> (bx_class \<times> message) result \<times> 'c"
  cm_message_handlers :: "bytes \<Rightarrow> ((bx_class \<times> message) \<Rightarrow> 'c \<Rightarrow> unit result \<times> 'c) option"
  cm_mark_for_close :: "bool option \<Rightarrow> 'c \<Rightarrow> unit result \<times> 'c"

definition on_inputbuf ::
    "(InputBuffer \<Rightarrow> 'a result \<times> InputBuffer) \<Rightarrow> 'x connection_scheme \<Rightarrow> 'a result \<times> 'x connection_scheme" where
  "on_inputbuf f c = (let (r, b) = f (inputbuf c) in (r, c\<lparr>inputbuf := b\<rparr>))"

definition AbstractConnection_pre_process_msg :: "'x connection_scheme \<Rightarrow> ConnectionMessagePreview result \<times> 'x connection_scheme" where
  "AbstractConnection_pre_process_msg c =
     sbind (on_inputbuf (keep_on_error AbstractMessageFactory_get_message_header_preview_from_input_buffer) c) (\<lambda>p c1.
       (Inr \<lparr>cp_is_full_message = is_full_message p, cp_should_process_message = True,
             cp_msg_type = preview_command p, cp_payload_len = preview_payload_length p\<rparr>, c1))"

definition AbstractConnection_process_msg_type ::
    "bytes option \<Rightarrow> bool \<Rightarrow> nat option \<Rightarrow> 'x connection_scheme \<Rightarrow> unit result \<times> 'x connection_scheme" where
  "AbstractConnection_process_msg_type message_type is_full_msg payload_len c = (Inr (), c)"

definition AbstractConnection_pop_next_bytes :: "nat \<Rightarrow> 'x connection_scheme \<Rightarrow> bytes result \<times> 'x connection_scheme" where
  "AbstractConnection_pop_next_bytes payload_len c =
     on_inputbuf (keep_on_error (InputBuffer_remove_bytes (Some (int (HEADER_LENGTH + payload_len))))) c"

definition AbstractConnection_pop_next_message :: "nat \<Rightarrow> 'x connection_scheme \<Rightarrow> (bx_class \<times> message) result \<times> 'x connection_scheme" where
  "AbstractConnection_pop_next_message payload_len c =
     sbind (AbstractConnection_pop_next_bytes payload_len c) (\<lambda>b c1.
       (AbstractMessageFactory_create_message_from_buffer b, c1))"

text \<open>A length \<open>None\<close> makes the addition in \<open>pop_next_bytes\<close> and \<open>clean_up_current_msg\<close> raise.\<close>

definition need_len :: "nat option \<Rightarrow> (nat \<Rightarrow> 'c \<Rightarrow> 'a result \<times> 'c) \<Rightarrow> 'c \<Rightarrow> 'a result \<times> 'c" where
  "need_len payload_len f c = (case payload_len of None \<Rightarrow> (Inl TypeError, c) | Some n \<Rightarrow> f n c)"

definition AbstractConnection_clean_up_current_msg ::
    "nat option \<Rightarrow> bool \<Rightarrow> 'x connection_scheme \<Rightarrow> unit result \<times> 'x connection_scheme" where
  "AbstractConnection_clean_up_current_msg payload_len msg_is_in_input_buffer c =
     (if msg_is_in_input_buffer
      then need_len payload_len (\<lambda>n c.
             sbind (on_inputbuf (keep_on_error (InputBuffer_remove_bytes (Some (int (header_size c + n))))) c) (\<lambda>_ c1. (Inr (), c1))) c
      else (Inr (), c))"

definition AbstractConnection_report_bad_message ::
    "'x connection_scheme conn_methods \<Rightarrow> 'x connection_scheme \<Rightarrow> bool result \<times> 'x connection_scheme" where
  "AbstractConnection_report_bad_message cm c =
     (if num_bad_messages c = MAX_BAD_MESSAGES
      then sbind (cm_mark_for_close cm None c) (\<lambda>_ c1. (Inr True, c1))
      else (Inr False, c\<lparr>num_bad_messages := num_bad_messages c + 1\<rparr>))"

text \<open>
  \<open>_get_last_msg_bytes\<close> is evaluated for the log in every handler below: it may reorganise the input
  buffer when it peeks at the failed message.
\<close>

definition AbstractConnection_get_last_msg_bytes ::
    "message option \<Rightarrow> int \<Rightarrow> nat option \<Rightarrow> 'x connection_scheme \<Rightarrow> bytes option result \<times> 'x connection_scheme" where
  "AbstractConnection_get_last_msg_bytes msg input_buffer_len_before payload_len c =
     (case msg of
        Some m \<Rightarrow> (rbind (AbstractInternalMessage_rawbytes m) (\<lambda>(raw, _). Inr (Some (take MAX_LOGGED_BYTES_LEN raw))), c)
      | None \<Rightarrow>
          (case payload_len of
             Some n \<Rightarrow>
               if input_buffer_len_before = in_length (inputbuf c)
               then sbind (on_inputbuf (keep_on_error (InputBuffer_peek_message
                      (int (min (header_size c + n) MAX_LOGGED_BYTES_LEN)))) c) (\<lambda>b c1. (Inr (Some b), c1))
               else (Inr None, c)
           | None \<Rightarrow> (Inr None, c)))"

text \<open>The local variables of an iteration that an exception handler reads.\<close>

record msg_locals =
  is_full_msg :: bool
  l_payload_len :: "nat option"
  l_msg :: "message option"

datatype try_exit = Return | Continue | Completed

definition on_conn :: "('c \<Rightarrow> 'a result \<times> 'c) \<Rightarrow> 'c \<times> 'l \<Rightarrow> 'a result \<times> ('c \<times> 'l)" where
  "on_conn f s = (let (r, c) = f (fst s) in (r, (c, snd s)))"

text \<open>
  What happens to a parsed message: before the connection is established only the handshake messages
  are handled, any other closes the connection; a type without handler is ignored.
\<close>

definition process_message_dispatch ::
    "'x connection_scheme conn_methods \<Rightarrow> bytes option \<Rightarrow> bx_class \<times> message
     \<Rightarrow> 'x connection_scheme \<times> msg_locals \<Rightarrow> try_exit result \<times> ('x connection_scheme \<times> msg_locals)" where
  "process_message_dispatch cm msg_type msg s =
     (if \<not> established (fst s) \<and> msg_type \<notin> Some ` set (hello_messages (fst s))
      then sbind (on_conn (cm_mark_for_close cm None) s) (\<lambda>_ s1. (Inr Return, s1))
      else (case Option.bind msg_type (cm_message_handlers cm) of
              None \<Rightarrow> (Inr Completed, s)
            | Some h \<Rightarrow> sbind (on_conn (h msg) s) (\<lambda>_ s1. (Inr Completed, s1))))"

text \<open>
  The body of the \<open>try\<close> statement. \<open>break\<close> and \<open>return\<close> both leave the loop; neither they nor \<open>continue\<close>
  run its \<open>else\<close> clause.
\<close>

definition process_message_try ::
    "'x connection_scheme conn_methods \<Rightarrow> 'x connection_scheme \<times> msg_locals \<Rightarrow> try_exit result \<times> ('x connection_scheme \<times> msg_locals)" where
  "process_message_try cm s =
     (if \<not> alive (conn_socket (fst s)) then (Inr Return, s)
      else sbind (on_conn (cm_pre_process_msg cm) s) (\<lambda>p s1.
        let s2 = (fst s1, \<lparr>is_full_msg = cp_is_full_message p, l_payload_len = cp_payload_len p, l_msg = None\<rparr>)
        in if \<not> cp_should_process_message p \<and> cp_is_full_message p
           then sbind (on_conn (need_len (cp_payload_len p) AbstractConnection_pop_next_bytes) s2) (\<lambda>_ s3. (Inr Continue, s3))
           else sbind (on_conn (\<lambda>c. on_inputbuf (cm_validate cm (cp_is_full_message p) (cp_msg_type p) (header_size c) (cp_payload_len p)) c) s2) (\<lambda>_ s3.
                sbind (on_conn (cm_process_msg_type cm (cp_msg_type p) (cp_is_full_message p) (cp_payload_len p)) s3) (\<lambda>_ s4.
                if \<not> cp_is_full_message p then (Inr Return, s4)
                else sbind (on_conn (need_len (cp_payload_len p) (cm_pop_next_message cm)) s4) (\<lambda>msg s5.
                     sbind (AbstractInternalMessage_rawbytes (snd msg), fst s5, (snd s5)\<lparr>l_msg := Some (snd msg)\<rparr>) (\<lambda>_ s6.
                       process_message_dispatch cm (cp_msg_type p) msg s6))))))"

text \<open>The \<open>except\<close> clauses: True when the loop is left.\<close>

definition recover_or_close ::
    "'x connection_scheme conn_methods \<Rightarrow> int \<Rightarrow> msg_locals \<Rightarrow> 'x connection_scheme \<Rightarrow> bool result \<times> 'x connection_scheme" where
  "recover_or_close cm input_buffer_len_before l c =
     (if is_full_msg l
      then sbind (AbstractConnection_clean_up_current_msg (l_payload_len l) (input_buffer_len_before = in_length (inputbuf c)) c) (\<lambda>_ c1.
             AbstractConnection_report_bad_message cm c1)
      else sbind (cm_mark_for_close cm None c) (\<lambda>_ c1. (Inr True, c1)))"

definition process_message_except ::
    "'x connection_scheme conn_methods \<Rightarrow> int \<Rightarrow> py_error \<Rightarrow> msg_locals \<Rightarrow> 'x connection_scheme \<Rightarrow> bool result \<times> 'x connection_scheme" where
  "process_message_except cm input_buffer_len_before e l c =
     (let last_bytes = AbstractConnection_get_last_msg_bytes (l_msg l) input_buffer_len_before (l_payload_len l)
      in case e of
           PayloadLenError \<Rightarrow> sbind (cm_mark_for_close cm None c) (\<lambda>_ c1. (Inr True, c1))
         | MemoryErr \<Rightarrow> sbind (last_bytes c) (\<lambda>_ c1. (Inl MemoryErr, c1))
         | UnauthorizedMessageError \<Rightarrow>
             sbind (last_bytes c) (\<lambda>_ c1.
             sbind (AbstractConnection_clean_up_current_msg (l_payload_len l) (input_buffer_len_before = in_length (inputbuf c1)) c1) (\<lambda>_ c2.
               AbstractConnection_report_bad_message cm c2))
         | NonVersionMessageError _ \<Rightarrow>
             sbind (last_bytes c) (\<lambda>_ c1. sbind (cm_mark_for_close cm None c1) (\<lambda>_ c2. (Inr True, c2)))
         | _ \<Rightarrow> sbind (last_bytes c) (\<lambda>_ c1. recover_or_close cm input_buffer_len_before l c1))"

text \<open>One iteration: True when the loop goes on.\<close>

definition process_message_iteration ::
    "'x connection_scheme conn_methods \<Rightarrow> 'x connection_scheme \<Rightarrow> bool result \<times> 'x connection_scheme" where
  "process_message_iteration cm c =
     (case process_message_try cm (c, \<lparr>is_full_msg = False, l_payload_len = None, l_msg = None\<rparr>) of
        (Inr Return, c1, _) \<Rightarrow> (Inr False, c1)
      | (Inr Continue, c1, _) \<Rightarrow> (Inr True, c1)
      | (Inr Completed, c1, _) \<Rightarrow>
          (Inr True, c1\<lparr>num_bad_messages := 0, processing_message_index := processing_message_index c1 + 1\<rparr>)
      | (Inl e, c1, l) \<Rightarrow>
          sbind (process_message_except cm (in_length (inputbuf c)) e l c1) (\<lambda>leave c2.
            if leave then (Inr False, c2)
            else (Inr True, c2\<lparr>processing_message_index := processing_message_index c2 + 1\<rparr>)))"

text \<open>The loop, with fuel; None when the fuel does not last.\<close>

primrec process_message_loop ::
    "'x connection_scheme conn_methods \<Rightarrow> nat \<Rightarrow> 'x connection_scheme \<Rightarrow> (unit result \<times> 'x connection_scheme) option" where
  "process_message_loop cm 0 c = None"
| "process_message_loop cm (Suc fuel) c =
     (case process_message_iteration cm c of
        (Inl e, c1) \<Rightarrow> Some (Inl e, c1)
      | (Inr False, c1) \<Rightarrow> Some (Inr (), c1)
      | (Inr True, c1) \<Rightarrow> process_message_loop cm fuel c1)"

definition AbstractConnection_process_message ::
    "'x connection_scheme conn_methods \<Rightarrow> nat \<Rightarrow> 'x connection_scheme \<Rightarrow> (unit result \<times> 'x connection_scheme) option" where
  "AbstractConnection_process_message cm fuel c = process_message_loop cm fuel (c\<lparr>processing_message_index := 0\<rparr>)"

text \<open>\<open>AbstractNode.on_bytes_received\<close> for the connection the pool finds under the file number.\<close>

definition AbstractNode_on_bytes_received ::
    "'x connection_scheme conn_methods \<Rightarrow> nat \<Rightarrow> piece \<Rightarrow> 'x connection_scheme \<Rightarrow> (unit result \<times> 'x connection_scheme) option" where
  "AbstractNode_on_bytes_received cm fuel bytes_received c =
     (if \<not> in_pool c then Some (Inr (), c)
      else if \<not> AbstractConnection_is_alive c then Some (Inr (), c)
      else case AbstractConnection_add_received_bytes bytes_received c of
        Inl e \<Rightarrow> Some (Inl e, c)
      | Inr c1 \<Rightarrow> AbstractConnection_process_message cm fuel c1)"

text \<open>The methods of \<open>AbstractConnection\<close> itself, with the factory of the current protocol version.\<close>

definition base_methods ::
    "(bool \<Rightarrow> bytes option \<Rightarrow> nat \<Rightarrow> nat option \<Rightarrow> InputBuffer \<Rightarrow> unit result \<times> InputBuffer)
     \<Rightarrow> (bytes \<Rightarrow> ((bx_class \<times> message) \<Rightarrow> 'x connection_scheme \<Rightarrow> unit result \<times> 'x connection_scheme) option)
     \<Rightarrow> 'x connection_scheme conn_methods" where
  "base_methods validate handlers =
     \<lparr>cm_pre_process_msg = AbstractConnection_pre_process_msg, cm_validate = validate,
      cm_process_msg_type = AbstractConnection_process_msg_type, cm_pop_next_message = AbstractConnection_pop_next_message,
      cm_message_handlers = handlers, cm_mark_for_close = AbstractConnection_mark_for_close\<rparr>"

subsection \<open>Every iteration that goes on consumes a message\<close>

lemma sbindE:
  assumes "sbind m f = (r, s)"
  obtains e where "m = (Inl e, s)" "r = Inl e" | x s1 where "m = (Inr x, s1)" "f x s1 = (r, s)"
  using assms by (cases m; cases "fst m") auto

definition received :: "'x connection_scheme \<Rightarrow> bytes" where
  "received c = in_content (inputbuf c)"

definition rcv_inv :: "'x connection_scheme \<Rightarrow> bool" where
  "rcv_inv c \<longleftrightarrow> ib_inv (inputbuf c) \<and> header_size c = HEADER_LENGTH"

text \<open>What a step does to the received bytes: it keeps them, or takes the first \<open>k\<close> of them.\<close>

definition takes :: "nat \<Rightarrow> 'x connection_scheme \<Rightarrow> 'x connection_scheme \<Rightarrow> bool" where
  "takes k c c' \<longleftrightarrow> rcv_inv c' \<and> k \<le> length (received c) \<and> received c' = drop k (received c)"

abbreviation keeps :: "'x connection_scheme \<Rightarrow> 'x connection_scheme \<Rightarrow> bool" where
  "keeps \<equiv> takes 0"

lemma keeps_refl: "rcv_inv c \<Longrightarrow> keeps c c"
  by (simp add: takes_def)

lemma takes_trans: "takes j a b \<Longrightarrow> takes k b c \<Longrightarrow> takes (j + k) a c"
  by (auto simp: takes_def add.commute)

lemmas keeps_trans = takes_trans[where j=0 and k=0, simplified] takes_trans[where j=0, simplified] takes_trans[where k=0, simplified]

lemma takes_inv: "takes k c c' \<Longrightarrow> rcv_inv c'"
  by (simp add: takes_def)

lemma rcv_length: "rcv_inv c \<Longrightarrow> in_length (inputbuf c) = int (length (received c))"
  by (simp add: rcv_inv_def ib_inv_def received_def)

text \<open>
  The contract of the methods a connection class plugs into \<open>process_message\<close>: they leave the received
  bytes alone, except that popping a message takes exactly its bytes, and a preview that reports a
  full message gives a length that the buffer covers. Only a handler refuses a message as unauthorized.
\<close>

locale message_processing =
  fixes cm :: "'x connection_scheme conn_methods"
  assumes pre_law: "rcv_inv c \<Longrightarrow> cm_pre_process_msg cm c = (r, c') \<Longrightarrow> keeps c c' \<and> r \<noteq> Inl UnauthorizedMessageError \<and>
      (\<forall>p. r = Inr p \<longrightarrow> cp_is_full_message p \<longrightarrow> (\<exists>n. cp_payload_len p = Some n \<and> HEADER_LENGTH + n \<le> length (received c)))"
    and validate_law: "ib_inv b \<Longrightarrow> cm_validate cm full ty h n b = (r', b') \<Longrightarrow>
      ib_inv b' \<and> in_content b' = in_content b \<and> r' \<noteq> Inl UnauthorizedMessageError"
    and type_law: "rcv_inv c \<Longrightarrow> cm_process_msg_type cm ty full n c = (r', c') \<Longrightarrow>
      keeps c c' \<and> r' \<noteq> Inl UnauthorizedMessageError"
    and pop_law: "rcv_inv c \<Longrightarrow> HEADER_LENGTH + k \<le> length (received c) \<Longrightarrow> cm_pop_next_message cm k c = (rm, c') \<Longrightarrow>
      takes (HEADER_LENGTH + k) c c'"
    and handler_law: "rcv_inv c \<Longrightarrow> cm_message_handlers cm t = Some hnd \<Longrightarrow> hnd msg c = (r', c') \<Longrightarrow> keeps c c'"
    and close_law: "rcv_inv c \<Longrightarrow> cm_mark_for_close cm retry c = (r', c') \<Longrightarrow> keeps c c'"
begin

lemma validate_keeps:
  assumes "rcv_inv c" and "on_inputbuf (cm_validate cm full ty h n) c = (r, c')"
  shows "keeps c c' \<and> r \<noteq> Inl UnauthorizedMessageError"
proof -
  obtain b' where "cm_validate cm full ty h n (inputbuf c) = (r, b')" "c' = c\<lparr>inputbuf := b'\<rparr>"
    using assms(2) by (auto simp: on_inputbuf_def Let_def split: prod.splits)
  then show ?thesis using validate_law[of "inputbuf c"] assms(1) by (auto simp: takes_def rcv_inv_def received_def)
qed

end

lemma remove_bytes_takes:
  assumes "rcv_inv c" and "k \<le> length (received c)"
  shows "\<exists>c'. on_inputbuf (keep_on_error (InputBuffer_remove_bytes (Some (int k)))) c = (Inr (take k (received c)), c')
    \<and> takes k c c' \<and> c' = c\<lparr>inputbuf := inputbuf c'\<rparr>"
  using remove_bytes_spec[of "inputbuf c" k] assms
  by (auto simp: on_inputbuf_def keep_on_error_def takes_def rcv_inv_def received_def)

lemma clean_up_takes:
  assumes "rcv_inv c" and "HEADER_LENGTH + n \<le> length (received c)"
  shows "\<exists>c'. AbstractConnection_clean_up_current_msg (Some n) True c = (Inr (), c') \<and> takes (HEADER_LENGTH + n) c c'
    \<and> c' = c\<lparr>inputbuf := inputbuf c'\<rparr>"
proof -
  have "header_size c = 20" using assms(1) by (simp add: rcv_inv_def)
  then show ?thesis
    using remove_bytes_takes[OF assms] by (auto simp: AbstractConnection_clean_up_current_msg_def need_len_def)
qed

lemma last_bytes_keeps:
  assumes "rcv_inv c" and "AbstractConnection_get_last_msg_bytes msg len n c = (r, c')"
  shows "keeps c c'"
proof -
  have peek: "keeps c c1" if "on_inputbuf (keep_on_error (InputBuffer_peek_message (int k))) c = (r1, c1)" for k r1 c1
    using peek_message_spec[of "inputbuf c" "int k"] assms(1) that
    by (auto simp: on_inputbuf_def keep_on_error_def takes_def rcv_inv_def received_def)
  have "keeps c c" by (rule keeps_refl[OF assms(1)])
  then show ?thesis
    using assms(2) peek by (auto simp: AbstractConnection_get_last_msg_bytes_def Let_def split: option.splits if_splits elim!: sbindE)
qed

text \<open>
  How the body of the \<open>try\<close> statement ends: either no byte has been taken, the locals describe the message
  at the head of the buffer and the loop is left or an exception is raised, or exactly that message has been taken.
\<close>

definition head_message :: "'x connection_scheme \<Rightarrow> msg_locals \<Rightarrow> bool" where
  "head_message c l \<longleftrightarrow> (is_full_msg l \<longrightarrow> (\<exists>n. l_payload_len l = Some n \<and> HEADER_LENGTH + n \<le> length (received c)))"

definition try_outcome :: "'x connection_scheme \<Rightarrow> try_exit result \<Rightarrow> 'x connection_scheme \<Rightarrow> msg_locals \<Rightarrow> bool" where
  "try_outcome c r c' l \<longleftrightarrow>
     (keeps c c' \<and> head_message c l \<and> (r = Inr Return \<or> isl r) \<and> r \<noteq> Inl UnauthorizedMessageError)
     \<or> (is_full_msg l \<and> (\<exists>n. l_payload_len l = Some n \<and> takes (HEADER_LENGTH + n) c c'))"

context message_processing
begin

lemma try_after_pop:
  assumes "takes (HEADER_LENGTH + n) c c5" and "is_full_msg l" and "l_payload_len l = Some n"
    and "process_message_dispatch cm ty msg (c5, l) = (r, c', l')"
  shows "try_outcome c r c' l'"
proof -
  have inv: "rcv_inv c5" using assms(1) by (rule takes_inv)
  have "keeps c5 c' \<and> l' = l"
    using assms(4) close_law[OF inv] handler_law[OF inv, where msg=msg] keeps_refl[OF inv]
    by (auto simp: process_message_dispatch_def on_conn_def Let_def bind_eq_Some_conv split: if_splits option.splits prod.splits elim!: sbindE)
  then show ?thesis using assms(1-3) keeps_trans(3)[OF assms(1)] by (auto simp: try_outcome_def)
qed

lemma try_spec:
  assumes "rcv_inv c" and "process_message_try cm (c, l0) = (r, c', l)" and "\<not> is_full_msg l0"
  shows "try_outcome c r c' l"
proof (cases "alive (conn_socket c)")
  case False
  then show ?thesis
    using assms keeps_refl[OF assms(1)] by (auto simp: process_message_try_def try_outcome_def head_message_def)
next
  case True
  obtain rp c1 where pre: "cm_pre_process_msg cm c = (rp, c1)" by fastforce
  note p1 = pre_law[OF assms(1) pre]
  show ?thesis
  proof (cases rp)
    case (Inl e)
    then show ?thesis
      using True assms p1 pre by (auto simp: process_message_try_def on_conn_def try_outcome_def head_message_def)
  next
    case (Inr p)
    let ?l = "\<lparr>is_full_msg = cp_is_full_message p, l_payload_len = cp_payload_len p, l_msg = None\<rparr>"
    have k1: "keeps c c1" and h1: "head_message c ?l" using p1 Inr by (auto simp: head_message_def)
    have pop: "takes (HEADER_LENGTH + n) c c3" if "keeps c c2" "cp_is_full_message p" "cp_payload_len p = Some n"
      "cm_pop_next_message cm n c2 = (rm, c3)" for n c2 rm c3
    proof -
      have "HEADER_LENGTH + n \<le> length (received c2)" using h1 that(1-3) by (simp add: head_message_def takes_def)
      then show ?thesis using pop_law[OF takes_inv[OF that(1)] _ that(4)] keeps_trans(2)[OF that(1)] by simp
    qed
    show ?thesis
    proof (cases "\<not> cp_should_process_message p \<and> cp_is_full_message p")
      case skip: True
      then obtain n where n: "cp_payload_len p = Some n" "HEADER_LENGTH + n \<le> length (received c1)"
        using h1 k1 by (auto simp: head_message_def takes_def)
      obtain c2 where c2: "AbstractConnection_pop_next_bytes n c1 = (Inr (take (HEADER_LENGTH + n) (received c1)), c2)"
        "takes (HEADER_LENGTH + n) c1 c2"
        using remove_bytes_takes[OF takes_inv[OF k1] n(2)] by (auto simp: AbstractConnection_pop_next_bytes_def)
      then show ?thesis
        using True skip assms(2) pre Inr n keeps_trans(2)[OF k1]
        by (auto simp: process_message_try_def on_conn_def need_len_def try_outcome_def Let_def)
    next
      case go: False
      let ?v = "on_inputbuf (cm_validate cm (cp_is_full_message p) (cp_msg_type p) (header_size c1) (cp_payload_len p)) c1"
      obtain rv c2 where v: "?v = (rv, c2)" by fastforce
      have k2: "keeps c c2" and v': "rv \<noteq> Inl UnauthorizedMessageError"
        using validate_keeps[OF takes_inv[OF k1] v] keeps_trans(1)[OF k1] by simp_all
      obtain rt c3 where t: "cm_process_msg_type cm (cp_msg_type p) (cp_is_full_message p) (cp_payload_len p) c2 = (rt, c3)" by fastforce
      have k3: "keeps c c3" and t': "rt \<noteq> Inl UnauthorizedMessageError"
        using type_law[OF takes_inv[OF k2] t] keeps_trans(1)[OF k2] by simp_all
      note start = assms(2)[unfolded process_message_try_def]
      show ?thesis
      proof (cases "isl rv \<or> isl rt \<or> \<not> cp_is_full_message p")
        case True
        then show ?thesis
          using \<open>alive _\<close> start pre Inr go v t k2 k3 h1 v' t'
          by (cases rv; cases rt) (auto simp: on_conn_def Let_def try_outcome_def head_message_def)
      next
        case full: False
        then obtain n where n: "cp_payload_len p = Some n" using h1 by (auto simp: head_message_def)
        obtain rm c4 where m: "cm_pop_next_message cm n c3 = (rm, c4)" by fastforce
        have k4: "takes (HEADER_LENGTH + n) c c4" using pop[OF k3 _ n m] full by simp
        show ?thesis
        proof (cases rm)
          case (Inl e)
          then show ?thesis
            using True start pre Inr \<open>rp = Inr p\<close> go v t m n full k4
            by (cases rv; cases rt) (auto simp: on_conn_def Let_def need_len_def try_outcome_def)
        next
          case rm: (Inr msg)
          let ?l5 = "?l\<lparr>l_msg := Some (snd msg)\<rparr>"
          show ?thesis
          proof (cases "AbstractInternalMessage_rawbytes (snd msg)")
            case (Inl e)
            then show ?thesis
              using True start pre Inr \<open>rp = Inr p\<close> go v t m n full k4 rm
              by (cases rv; cases rt) (auto simp: on_conn_def Let_def need_len_def try_outcome_def)
          next
            case raw: (Inr raw)
            have "process_message_dispatch cm (cp_msg_type p) msg (c4, ?l5) = (r, c', l)"
              using True start pre \<open>rp = Inr p\<close> go v t m n full rm raw
              by (cases rv; cases rt) (simp_all add: on_conn_def Let_def need_len_def)
            from try_after_pop[OF k4 _ _ this] show ?thesis using full n by simp
          qed
        qed
      qed
    qed
  qed
qed

end

lemma cleanup_cases:
  assumes "rcv_inv c" and "(keeps c c1 \<and> HEADER_LENGTH + n \<le> length (received c)) \<or> takes (HEADER_LENGTH + n) c c1"
  shows "\<exists>c2. AbstractConnection_clean_up_current_msg (Some n) (in_length (inputbuf c) = in_length (inputbuf c1)) c1 = (Inr (), c2)
    \<and> takes (HEADER_LENGTH + n) c c2"
  using assms(2)
proof
  assume k: "keeps c c1 \<and> HEADER_LENGTH + n \<le> length (received c)"
  then have inv: "rcv_inv c1" and r: "received c1 = received c" by (simp_all add: takes_def)
  have "in_length (inputbuf c) = in_length (inputbuf c1)"
    using rcv_length[OF inv] rcv_length[OF assms(1)] r by simp
  moreover obtain c2 where "AbstractConnection_clean_up_current_msg (Some n) True c1 = (Inr (), c2)" "takes (HEADER_LENGTH + n) c1 c2"
    using clean_up_takes[OF inv, of n] k r by auto
  ultimately show ?thesis using k keeps_trans(2) by fastforce
next
  assume k: "takes (HEADER_LENGTH + n) c c1"
  then have inv: "rcv_inv c1" by (rule takes_inv)
  have "in_length (inputbuf c) \<noteq> in_length (inputbuf c1)"
    using rcv_length[OF inv] rcv_length[OF assms(1)] k by (simp add: takes_def)
  then show ?thesis using k by (simp add: AbstractConnection_clean_up_current_msg_def)
qed

context message_processing
begin

lemma report_keeps:
  assumes "rcv_inv c" and "AbstractConnection_report_bad_message cm c = (r, c')"
  shows "keeps c c'"
  using assms close_law[OF assms(1)]
  by (auto simp: AbstractConnection_report_bad_message_def takes_def rcv_inv_def received_def split: if_splits elim!: sbindE)

lemma close_and_leave:
  assumes "rcv_inv c" and "sbind (cm_mark_for_close cm None c) (\<lambda>_ c1. (Inr True, c1)) = (r, c')"
  shows "keeps c c' \<and> r \<noteq> Inr False"
  using assms close_law[OF assms(1)] by (auto elim!: sbindE)

lemma clean_and_report:
  assumes "rcv_inv c" and "(keeps c c1 \<and> HEADER_LENGTH + n \<le> length (received c)) \<or> takes (HEADER_LENGTH + n) c c1"
    and "sbind (AbstractConnection_clean_up_current_msg (Some n) (in_length (inputbuf c) = in_length (inputbuf c1)) c1)
      (\<lambda>_. AbstractConnection_report_bad_message cm) = (r, c')"
  shows "takes (HEADER_LENGTH + n) c c'"
proof -
  obtain c2 where c2: "AbstractConnection_clean_up_current_msg (Some n) (in_length (inputbuf c) = in_length (inputbuf c1)) c1 = (Inr (), c2)"
    "takes (HEADER_LENGTH + n) c c2"
    using cleanup_cases[OF assms(1,2)] by blast
  then show ?thesis
    using assms(3) report_keeps[OF takes_inv[OF c2(2)]] keeps_trans(3)[OF c2(2)] by auto
qed

text \<open>When an exception is handled and the loop goes on, the failed message is gone.\<close>

lemma except_spec:
  assumes "rcv_inv c" and "try_outcome c (Inl e) c1 l"
    and "process_message_except cm (in_length (inputbuf c)) e l c1 = (r, c')"
  shows "\<exists>k. takes k c c' \<and> (r = Inr False \<longrightarrow> 0 < k)"
proof -
  have o1: "keeps c c1 \<and> head_message c l \<and> e \<noteq> UnauthorizedMessageError
      \<or> (is_full_msg l \<and> (\<exists>n. l_payload_len l = Some n \<and> takes (HEADER_LENGTH + n) c c1))"
    using assms(2) by (auto simp: try_outcome_def)
  then obtain j where j: "takes j c c1" by auto
  obtain rl c2 where lb: "AbstractConnection_get_last_msg_bytes (l_msg l) (in_length (inputbuf c)) (l_payload_len l) c1 = (rl, c2)"
    by fastforce
  have k12: "keeps c1 c2" by (rule last_bytes_keeps[OF takes_inv[OF j] lb])
  have j2: "takes j c c2" using keeps_trans(3)[OF j k12] .
  have o2: "keeps c c2 \<and> head_message c l \<and> e \<noteq> UnauthorizedMessageError
      \<or> (is_full_msg l \<and> (\<exists>n. l_payload_len l = Some n \<and> takes (HEADER_LENGTH + n) c c2))"
    using o1 k12 keeps_trans(1,3) by blast
  have full: "\<exists>n. l_payload_len l = Some n \<and> ((keeps c c2 \<and> HEADER_LENGTH + n \<le> length (received c)) \<or> takes (HEADER_LENGTH + n) c c2)"
    if "is_full_msg l"
    using o2 that by (auto simp: head_message_def)
  have leave: "?thesis" if "takes i c c3" "sbind (cm_mark_for_close cm None c3) (\<lambda>_ c1. (Inr True, c1)) = (r, c')" for i c3
    using close_and_leave[OF takes_inv[OF that(1)] that(2)] keeps_trans(3)[OF that(1)] by blast
  have clean: "?thesis" if "is_full_msg l"
    "sbind (AbstractConnection_clean_up_current_msg (l_payload_len l) (in_length (inputbuf c) = in_length (inputbuf c2)) c2)
      (\<lambda>_. AbstractConnection_report_bad_message cm) = (r, c')"
    using full[OF that(1)] clean_and_report[OF assms(1)] that(2) by fastforce
  show ?thesis
  proof (cases "e = PayloadLenError")
    case True
    then show ?thesis using leave[OF j] assms(3) by (simp add: process_message_except_def)
  next
    case False
    show ?thesis
    proof (cases rl)
      case (Inl e2)
      have "r = Inl e2 \<and> c' = c2"
        using False assms(3) lb Inl by (cases e) (simp_all add: process_message_except_def)
      then show ?thesis using j2 by auto
    next
      case (Inr lb')
      consider "e = MemoryErr" | "e = UnauthorizedMessageError" | b where "e = NonVersionMessageError b"
        | "process_message_except cm (in_length (inputbuf c)) e l c1 = recover_or_close cm (in_length (inputbuf c)) l c2"
        using False lb Inr by (cases e) (simp_all add: process_message_except_def)
      then show ?thesis
      proof cases
        case 1
        then show ?thesis using assms(3) lb Inr j2 by (auto simp: process_message_except_def)
      next
        case 2
        then show ?thesis using clean o2 assms(3) lb Inr by (auto simp: process_message_except_def)
      next
        case 3
        then show ?thesis using leave[OF j2] assms(3) lb Inr by (simp add: process_message_except_def)
      next
        case 4
        then show ?thesis
          using clean leave[OF j2] assms(3) by (cases "is_full_msg l") (simp_all add: recover_or_close_def)
      qed
    qed
  qed
qed

lemma iteration_spec:
  assumes "rcv_inv c" and "process_message_iteration cm c = (r, c')"
  shows "\<exists>k. takes k c c' \<and> (r = Inr True \<longrightarrow> 0 < k)"
proof -
  obtain rt c1 l where t: "process_message_try cm (c, \<lparr>is_full_msg = False, l_payload_len = None, l_msg = None\<rparr>) = (rt, c1, l)"
    by (metis prod_cases3)
  have o: "try_outcome c rt c1 l" by (rule try_spec[OF assms(1) t]) simp
  then obtain j where j: "takes j c c1" by (auto simp: try_outcome_def)
  have upd: "takes k c (c2\<lparr>num_bad_messages := b, processing_message_index := i\<rparr>)" "takes k c (c2\<lparr>processing_message_index := i\<rparr>)"
    if "takes k c c2" for k c2 b i
    using that by (simp_all add: takes_def rcv_inv_def received_def)
  show ?thesis
  proof (cases rt)
    case (Inl e)
    obtain re c2 where e: "process_message_except cm (in_length (inputbuf c)) e l c1 = (re, c2)" by fastforce
    obtain k where "takes k c c2" "re = Inr False \<longrightarrow> 0 < k" using except_spec[OF assms(1) _ e] o Inl by blast
    then show ?thesis
      using assms(2) t Inl e upd(2) by (fastforce simp: process_message_iteration_def split: if_splits elim!: sbindE)
  next
    case (Inr x)
    show ?thesis
    proof (cases x)
      case Return
      then show ?thesis using assms(2) t Inr j by (auto simp: process_message_iteration_def)
    next
      case Continue
      then show ?thesis
        using assms(2) t Inr o by (auto simp: process_message_iteration_def try_outcome_def)
    next
      case Completed
      then show ?thesis
        using assms(2) t Inr o upd(1) by (fastforce simp: process_message_iteration_def try_outcome_def)
    qed
  qed
qed

theorem process_message_ends:
  "rcv_inv c \<Longrightarrow> length (received c) < fuel \<Longrightarrow>
    \<exists>r c' k. process_message_loop cm fuel c = Some (r, c') \<and> takes k c c'"
proof (induction fuel arbitrary: c)
  case (Suc fuel)
  obtain r c1 where i: "process_message_iteration cm c = (r, c1)" by fastforce
  from iteration_spec[OF Suc.prems(1) i] obtain k where k: "takes k c c1" "r = Inr True \<longrightarrow> 0 < k" by blast
  show ?case
  proof (cases "r = Inr True")
    case True
    then have "length (received c1) < fuel" using k Suc.prems(2) by (auto simp: takes_def)
    from Suc.IH[OF takes_inv[OF k(1)] this] show ?thesis
      using i True takes_trans[OF k(1)] by fastforce
  next
    case False
    then show ?thesis using i k(1) by (cases r) (auto split: bool.splits)
  qed
qed simp

end

subsection \<open>The base class keeps the contract\<close>

text \<open>
  With its own methods a connection keeps the contract for every validator and all handlers that leave
  the received bytes alone.
\<close>

locale base_processing =
  fixes validate :: "bool \<Rightarrow> bytes option \<Rightarrow> nat \<Rightarrow> nat option \<Rightarrow> InputBuffer \<Rightarrow> unit result \<times> InputBuffer"
    and handlers :: "bytes \<Rightarrow> ((bx_class \<times> message) \<Rightarrow> 'x connection_scheme \<Rightarrow> unit result \<times> 'x connection_scheme) option"
  assumes check_law: "ib_inv b \<Longrightarrow> validate full ty h n b = (r', b') \<Longrightarrow>
      ib_inv b' \<and> in_content b' = in_content b \<and> r' \<noteq> Inl UnauthorizedMessageError"
    and handlers_law: "rcv_inv c \<Longrightarrow> handlers t = Some hnd \<Longrightarrow> hnd msg c = (r', c') \<Longrightarrow> keeps c c'"

lemma pre_process_spec:
  assumes "rcv_inv c"
  shows "\<exists>p c'. AbstractConnection_pre_process_msg c = (Inr p, c') \<and> keeps c c' \<and> c' = c\<lparr>inputbuf := inputbuf c'\<rparr>
    \<and> cp_should_process_message p
    \<and> (if length (received c) < HEADER_LENGTH then \<not> cp_is_full_message p \<and> cp_msg_type p = None \<and> cp_payload_len p = None
       else \<exists>cmd n. AbstractBloxrouteMessage_unpack (take HEADER_LENGTH (received c)) = Inr (cmd, n)
         \<and> cp_msg_type p = Some cmd \<and> cp_payload_len p = Some n
         \<and> (cp_is_full_message p \<longleftrightarrow> HEADER_LENGTH + n \<le> length (received c)))"
proof -
  have inv: "ib_inv (inputbuf c)" using assms by (simp add: rcv_inv_def)
  show ?thesis
  proof (cases "length (received c) < HEADER_LENGTH")
    case True
    then show ?thesis
      using preview_short[OF inv] assms
      by (simp add: received_def AbstractConnection_pre_process_msg_def on_inputbuf_def keep_on_error_def takes_def)
  next
    case False
    then show ?thesis
      using preview_general[OF inv] assms
      by (fastforce simp: received_def AbstractConnection_pre_process_msg_def on_inputbuf_def keep_on_error_def takes_def
          rcv_inv_def add.commute)
  qed
qed

lemma pop_next_message_spec:
  assumes "rcv_inv c" and "HEADER_LENGTH + n \<le> length (received c)"
  shows "\<exists>c'. AbstractConnection_pop_next_message n c
      = (AbstractMessageFactory_create_message_from_buffer (take (HEADER_LENGTH + n) (received c)), c')
    \<and> takes (HEADER_LENGTH + n) c c' \<and> c' = c\<lparr>inputbuf := inputbuf c'\<rparr>"
  using remove_bytes_takes[OF assms]
  by (auto simp: AbstractConnection_pop_next_message_def AbstractConnection_pop_next_bytes_def)

lemma mark_for_close_keeps:
  assumes "rcv_inv c" and "AbstractConnection_mark_for_close retry c = (r, c')"
  shows "keeps c c'"
  using assms by (auto simp: AbstractConnection_mark_for_close_def Let_def takes_def rcv_inv_def received_def split: prod.splits)

sublocale base_processing \<subseteq> message_processing "base_methods validate handlers"
proof
  fix c :: "'x connection_scheme" and r c'
  assume "rcv_inv c" "cm_pre_process_msg (base_methods validate handlers) c = (r, c')"
  then show "keeps c c' \<and> r \<noteq> Inl UnauthorizedMessageError \<and>
      (\<forall>p. r = Inr p \<longrightarrow> cp_is_full_message p \<longrightarrow> (\<exists>n. cp_payload_len p = Some n \<and> HEADER_LENGTH + n \<le> length (received c)))"
    using pre_process_spec[of c] by (auto simp: base_methods_def split: if_splits)
next
  fix c :: "'x connection_scheme" and k rm c'
  assume "rcv_inv c" "HEADER_LENGTH + k \<le> length (received c)" "cm_pop_next_message (base_methods validate handlers) k c = (rm, c')"
  then show "takes (HEADER_LENGTH + k) c c'"
    using pop_next_message_spec[of c k] by (auto simp: base_methods_def)
qed (use check_law handlers_law mark_for_close_keeps keeps_refl in \<open>auto simp: base_methods_def AbstractConnection_process_msg_type_def\<close>)

text \<open>
  Handlers that work on the attributes a subclass adds: \<open>act\<close> is what the handler of a type does with a
  message.
\<close>

definition subclass_handlers ::
    "(bytes \<Rightarrow> (bx_class \<times> message \<Rightarrow> 'x \<Rightarrow> 'x) option)
     \<Rightarrow> bytes \<Rightarrow> ((bx_class \<times> message) \<Rightarrow> 'x connection_scheme \<Rightarrow> unit result \<times> 'x connection_scheme) option" where
  "subclass_handlers act ty = map_option (\<lambda>f msg c. (Inr (), connection.more_update (f msg) c)) (act ty)"

lemma getitem_keeps:
  assumes "ib_inv b" and "keep_on_error (InputBuffer_getitem it) b = (r, b')"
  shows "ib_inv b' \<and> in_content b' = in_content b \<and> r \<noteq> Inl UnauthorizedMessageError"
  using assms
  by (auto simp: keep_on_error_def InputBuffer_getitem_def InputBuffer_get_slice_def Let_def
      split: py_index.splits if_splits sum.splits list.splits)

lemma payload_length_errors:
  "BloxrouteMessageValidator_validate_payload_length s ty n \<noteq> Inl UnauthorizedMessageError"
  by (simp add: BloxrouteMessageValidator_validate_payload_length_def check_max_def split: option.split)

lemma starting_sequence_keeps:
  assumes "ib_inv b" and "BloxrouteMessageValidator_validate_starting_sequence b = (r, b')"
  shows "ib_inv b' \<and> in_content b' = in_content b \<and> r \<noteq> Inl UnauthorizedMessageError"
  using assms getitem_keeps[OF assms(1)]
  by (auto simp: BloxrouteMessageValidator_validate_starting_sequence_def split: if_splits elim!: sbindE)

lemma control_flags_keeps:
  assumes "ib_inv b" and "BloxrouteMessageValidator_validate_control_flags full h n b = (r, b')"
  shows "ib_inv b' \<and> in_content b' = in_content b \<and> r \<noteq> Inl UnauthorizedMessageError"
  using assms getitem_keeps[OF assms(1)]
  by (auto simp: BloxrouteMessageValidator_validate_control_flags_def split: if_splits option.splits list.splits elim!: sbindE)

lemma validator_keeps_content:
  assumes "ib_inv b" and "BloxrouteMessageValidator_validate v full ty h n b = (r, b')"
  shows "ib_inv b' \<and> in_content b' = in_content b \<and> r \<noteq> Inl UnauthorizedMessageError"
proof (cases "connection_protocol_version v \<ge> FIRST_VALIDATING_VERSION")
  case False
  then show ?thesis
    using assms payload_length_errors
    by (auto simp: BloxrouteMessageValidator_validate_def split: option.splits elim!: sbindE)
next
  case True
  obtain r1 b1 where s: "BloxrouteMessageValidator_validate_starting_sequence b = (r1, b1)" by fastforce
  obtain r2 b2 where f: "BloxrouteMessageValidator_validate_control_flags full h n b1 = (r2, b2)" by fastforce
  note k1 = starting_sequence_keeps[OF assms(1) s]
  note k2 = control_flags_keeps[OF conjunct1[OF k1] f]
  show ?thesis
    using assms(2) True s f k1 k2 payload_length_errors
    by (auto simp: BloxrouteMessageValidator_validate_def split: option.splits elim!: sbindE)
qed

interpretation bx_conn: base_processing "BloxrouteMessageValidator_validate v" "subclass_handlers act" for v act
  by unfold_locales (use validator_keeps_content in \<open>auto simp: subclass_handlers_def takes_def rcv_inv_def received_def\<close>)

context base_processing
begin

lemmas ends_within_received = process_message_ends

end

text \<open>
  C4. Processing ends after at most one iteration per received byte, whatever arrives and whatever the
  handlers do, as long as they leave the received bytes alone; what it leaves is a suffix of what
  was received.
\<close>

theorem process_message_terminates:
  assumes "rcv_inv c"
    and "\<forall>t hnd msg c r c'. rcv_inv c \<longrightarrow> handlers t = Some hnd \<longrightarrow> hnd msg c = (r, c') \<longrightarrow> keeps c c'"
  shows "\<exists>r c' k. AbstractConnection_process_message (base_methods (BloxrouteMessageValidator_validate v) handlers)
      (Suc (length (received c))) c = Some (r, c') \<and> rcv_inv c' \<and> received c' = drop k (received c)"
proof -
  have "base_processing (BloxrouteMessageValidator_validate v) handlers"
    using validator_keeps_content assms(2) by unfold_locales blast+
  note ends = base_processing.ends_within_received[OF this]
  have "rcv_inv (c\<lparr>processing_message_index := 0\<rparr>)" "received (c\<lparr>processing_message_index := 0\<rparr>) = received c"
    using assms(1) by (simp_all add: rcv_inv_def received_def)
  then show ?thesis
    using ends[of "c\<lparr>processing_message_index := 0\<rparr>" "Suc (length (received c))"]
    by (auto simp: AbstractConnection_process_message_def takes_def)
qed

definition blank_connection :: "connection" where
  "blank_connection =
     \<lparr>inputbuf = InputBuffer_init, outputbuf = OutputBuffer_init None None False,
      conn_socket = \<lparr>alive = True, initialized = True, can_send = True, sock_should_retry = False, do_not_retry = False,
        halt_receive = False, has_transport = True, written = [], aborted = False\<rparr>,
      in_pool = True, conn_state = CONNECTING, established = False, num_bad_messages = 0, from_me = False, peer_id = None,
      hello_messages = [], header_size = HEADER_LENGTH, processing_message_index = 0, can_send_pings = False,
      pong_timeout_enabled = False, pong_message = None, ack_message = None, ping_alarm_id = None,
      ping_interval_s = PING_INTERVAL_S, pong_timeout_alarm_id = None, alarm_queue = AlarmQueue_init,
      is_authenticated = False, account_id = None, tier_name = None, close_waiter = False\<rparr>"

theorem process_message_terminates_witness:
  "\<exists>r c'. AbstractConnection_process_message (base_methods (BloxrouteMessageValidator_validate
        \<lparr>size_validation_settings = None, connection_protocol_version = 23\<rparr>) (\<lambda>_. None))
      1 blank_connection = Some (r, c') \<and> received c' = []"
proof -
  have "rcv_inv blank_connection" "received blank_connection = []"
    by (simp_all add: rcv_inv_def blank_connection_def received_def)
  then show ?thesis
    using process_message_terminates[of blank_connection "\<lambda>_. None" "\<lparr>size_validation_settings = None, connection_protocol_version = 23\<rparr>"]
    by auto
qed

subsection \<open>Delivery of a stream of messages\<close>

type_synonym wire_message = "bx_class \<times> bytes"

definition frame_of :: "wire_message \<Rightarrow> bytes" where
  "frame_of m = frame (MESSAGE_TYPE (fst m)) (snd m)"

definition message_of :: "wire_message \<Rightarrow> bx_class \<times> message" where
  "message_of m = (fst m, blank_message (frame_of m)\<lparr>msg_type_field := Some (MESSAGE_TYPE (fst m)),
                                                   payload_len_field := Some (length (snd m))\<rparr>)"

text \<open>A message the peer may send: well formed, of the fixed length of its class if there is one, within the limits.\<close>

definition deliverable :: "BloxrouteMessageValidator \<Rightarrow> wire_message \<Rightarrow> bool" where
  "deliverable v m \<longleftrightarrow> good_body (snd m) \<and> fst m \<noteq> TxServiceSyncBlocksShortIdsMessage
     \<and> fixed_payload (fst m) \<in> {None, Some (length (snd m))} \<and> size_ok v (MESSAGE_TYPE (fst m)) (length (snd m))"

lemma length_frame_of [simp]: "length (frame_of m) = 20 + length (snd m)"
  by (simp add: frame_of_def)

lemma frame_of_parts:
  "take 4 (frame_of m) = STARTING_SEQUENCE_BYTES"
  "snd m \<noteq> [] \<Longrightarrow> frame_of m ! (19 + length (snd m)) = last (snd m)"
proof -
  show "take 4 (frame_of m) = STARTING_SEQUENCE_BYTES" by (simp add: frame_of_def frame_def)
  let ?h = "STARTING_SEQUENCE_BYTES @ pad_to 12 (MESSAGE_TYPE (fst m)) @ le_bytes 4 (length (snd m))"
  assume ne: "snd m \<noteq> []"
  have "frame_of m = ?h @ snd m" "length ?h = 20" by (simp_all add: frame_of_def frame_def)
  then show "frame_of m ! (19 + length (snd m)) = last (snd m)"
    using ne by (simp add: nth_append last_conv_nth del: append_assoc)
qed

lemma frame_of_message:
  assumes "deliverable v m"
  shows "AbstractMessageFactory_create_message_from_buffer (frame_of m) = Inr (message_of m)"
proof -
  have "AbstractBloxrouteMessage_unpack (frame_of m) = Inr (MESSAGE_TYPE (fst m), length (snd m))"
    using unpack_frame[OF MESSAGE_TYPE_good, where rest="[]"] assms by (simp add: deliverable_def good_body_def frame_of_def)
  moreover have "AbstractInternalMessage_initialize_class (fst m) (frame_of m) (MESSAGE_TYPE (fst m), length (snd m))
      = Inr (snd (message_of m))"
    using construct_from_frame[of "snd m" "fst m"] assms by (auto simp: deliverable_def frame_of_def message_of_def)
  ultimately show ?thesis
    by (simp add: AbstractMessageFactory_create_message_from_buffer_def AbstractMessageFactory_create_message_def
        mapping_MESSAGE_TYPE frame_of_def message_of_def)
qed

lemma rawbytes_message_of: "AbstractInternalMessage_rawbytes (snd (message_of m)) = Inr (frame_of m, snd (message_of m))"
  by (simp add: message_of_def AbstractInternalMessage_rawbytes_def AbstractInternalMessage_payload_len_def blank_message_def)

lemma preview_of_frame:
  assumes "rcv_inv c" and "received c = take k (frame_of m @ rest)" and "deliverable v m" and "20 \<le> length (received c)"
  shows "\<exists>c'. AbstractConnection_pre_process_msg c
      = (Inr \<lparr>cp_is_full_message = (20 + length (snd m) \<le> length (received c)), cp_should_process_message = True,
              cp_msg_type = Some (MESSAGE_TYPE (fst m)), cp_payload_len = Some (length (snd m))\<rparr>, c')
    \<and> keeps c c' \<and> c' = c\<lparr>inputbuf := inputbuf c'\<rparr>"
proof -
  have "20 \<le> k" using assms(2,4) by (metis length_take min.boundedE)
  then have "take 20 (received c) = take 20 (frame_of m @ rest)"
    using assms(2) by (simp only: take_take min.absorb1)
  then have u: "AbstractBloxrouteMessage_unpack (take 20 (received c)) = Inr (MESSAGE_TYPE (fst m), length (snd m))"
    using unpack_header_of_frame[OF MESSAGE_TYPE_good, of "snd m" "fst m" rest] assms(3)
    by (simp add: frame_of_def deliverable_def good_body_def)
  obtain p c' where p: "AbstractConnection_pre_process_msg c = (Inr p, c')" "keeps c c'" "c' = c\<lparr>inputbuf := inputbuf c'\<rparr>"
    "cp_should_process_message p" "cp_msg_type p = Some (MESSAGE_TYPE (fst m))" "cp_payload_len p = Some (length (snd m))"
    "cp_is_full_message p \<longleftrightarrow> 20 + length (snd m) \<le> length (received c)"
    using pre_process_spec[OF assms(1)] assms(4) u by auto
  have "p = \<lparr>cp_is_full_message = (20 + length (snd m) \<le> length (received c)), cp_should_process_message = True,
              cp_msg_type = Some (MESSAGE_TYPE (fst m)), cp_payload_len = Some (length (snd m))\<rparr>"
    using p(4-7) by (cases p) simp
  then show ?thesis using p(1-3) by blast
qed

lemma validate_prefix:
  assumes "ib_inv b" and "connection_protocol_version v \<ge> FIRST_VALIDATING_VERSION" and "in_content b = take k (frame_of m @ rest)"
    and "length (in_content b) < 20"
  shows "\<exists>b'. BloxrouteMessageValidator_validate v False None h None b = (Inr (), b') \<and> ib_inv b' \<and> in_content b' = in_content b"
proof -
  have "length (in_content b) < 4 \<or> take 4 (in_content b) = STARTING_SEQUENCE_BYTES"
  proof (cases "4 \<le> k")
    case True
    then have "take 4 (in_content b) = take 4 (frame_of m @ rest)" using assms(3) by (simp only: take_take min.absorb1)
    then show ?thesis by (simp add: frame_of_parts(1))
  qed (use assms(3) in simp)
  then obtain b1 where b1: "BloxrouteMessageValidator_validate_starting_sequence b = (Inr (), b1)" "ib_inv b1"
    "in_content b1 = in_content b"
    using starting_sequence_spec[OF assms(1)] by auto
  then show ?thesis
    using assms(2) by (auto simp: BloxrouteMessageValidator_validate_def BloxrouteMessageValidator_validate_payload_length_def
        BloxrouteMessageValidator_validate_control_flags_def split: option.split)
qed

lemma validate_of_frame:
  assumes "ib_inv b" and "connection_protocol_version v \<ge> FIRST_VALIDATING_VERSION" and "in_content b = take k (frame_of m @ rest)"
    and "deliverable v m" and "full \<longrightarrow> 20 + length (snd m) \<le> length (in_content b)"
  shows "\<exists>b'. BloxrouteMessageValidator_validate v full (Some (MESSAGE_TYPE (fst m))) 20 (Some (length (snd m))) b = (Inr (), b')
    \<and> ib_inv b' \<and> in_content b' = in_content b"
proof -
  have start: "length (in_content b) < 4 \<or> take 4 (in_content b) = STARTING_SEQUENCE_BYTES"
  proof (cases "4 \<le> k")
    case True
    then have "take 4 (in_content b) = take 4 (frame_of m @ rest)" using assms(3) by (simp only: take_take min.absorb1)
    then show ?thesis by (simp add: frame_of_parts(1))
  qed (use assms(3) in simp)
  have flag: "in_content b ! (20 + length (snd m) - 1) AND VALID \<noteq> 0" if "full"
  proof -
    have ne: "snd m \<noteq> []" "last (snd m) AND VALID \<noteq> 0" using assms(4) by (simp_all add: deliverable_def good_body_def)
    have "19 + length (snd m) < k"
    proof -
      have "length (in_content b) \<le> k" unfolding assms(3) by (simp del: take_append)
      then show ?thesis using assms(5) that by simp
    qed
    then have "in_content b ! (19 + length (snd m)) = frame_of m ! (19 + length (snd m))"
      using assms(3) by (simp add: nth_append del: take_append)
    then show ?thesis using frame_of_parts(2)[OF ne(1)] ne(2) by simp
  qed
  have "size_ok v (MESSAGE_TYPE (fst m)) (length (snd m))" using assms(4) by (simp add: deliverable_def)
  then show ?thesis
    using validator_spec[OF assms(1,2), of 20 "length (snd m)" full "MESSAGE_TYPE (fst m)"] start flag assms(5) by auto
qed

abbreviation bx_methods where
  "bx_methods v act \<equiv> base_methods (BloxrouteMessageValidator_validate v) (subclass_handlers act)"

text \<open>What the handler of a message does to the attributes of the subclass; without a handler, nothing.\<close>

definition act_on :: "(bytes \<Rightarrow> (bx_class \<times> message \<Rightarrow> 'x \<Rightarrow> 'x) option) \<Rightarrow> wire_message \<Rightarrow> 'x \<Rightarrow> 'x" where
  "act_on act m x = (case act (MESSAGE_TYPE (fst m)) of None \<Rightarrow> x | Some f \<Rightarrow> f (message_of m) x)"

text \<open>
  A connection that listens: alive, established, and with a buffer in order. Two states agree when
  they differ at most in the received bytes, the counters of \<open>process_message\<close> and the attributes of
  the subclass.
\<close>

definition listening :: "'x connection_scheme \<Rightarrow> bool" where
  "listening c \<longleftrightarrow> rcv_inv c \<and> alive (conn_socket c) \<and> established c"

definition agree :: "'x connection_scheme \<Rightarrow> 'x connection_scheme \<Rightarrow> bool" where
  "agree c c' \<longleftrightarrow>
     c' = c\<lparr>inputbuf := inputbuf c', num_bad_messages := num_bad_messages c',
            processing_message_index := processing_message_index c', connection.more := connection.more c'\<rparr>"

lemma agree_refl: "agree c c"
  by (simp add: agree_def)

lemma agree_trans: "agree a b \<Longrightarrow> agree b c \<Longrightarrow> agree a c"
  unfolding agree_def by (cases a; cases b; cases c) simp

lemma agree_listening: "agree c c' \<Longrightarrow> listening c \<Longrightarrow> ib_inv (inputbuf c') \<Longrightarrow> listening c'"
  unfolding agree_def listening_def rcv_inv_def by (cases c; cases c') simp

lemma agree_updates:
  "agree c (c\<lparr>inputbuf := b\<rparr>)" "agree c (c\<lparr>processing_message_index := i\<rparr>)"
  "agree c (connection.more_update g (c\<lparr>inputbuf := b, num_bad_messages := n, processing_message_index := i\<rparr>))"
  by (simp_all add: agree_def)

lemma iteration_partial:
  assumes "listening c" and "connection_protocol_version v \<ge> FIRST_VALIDATING_VERSION" and "deliverable v m"
    and "received c = take k (frame_of m)" and "length (received c) < length (frame_of m)"
  shows "\<exists>b. process_message_iteration (bx_methods v act) c = (Inr False, c\<lparr>inputbuf := b\<rparr>)
    \<and> ib_inv b \<and> in_content b = received c"
proof -
  have inv: "rcv_inv c" and al: "alive (conn_socket c)" using assms(1) by (simp_all add: listening_def)
  let ?l = "\<lparr>is_full_msg = False, l_payload_len = None, l_msg = None\<rparr>"
  have hs: "header_size c = 20" using inv by (simp add: rcv_inv_def)
  obtain p c1 b2 where p: "AbstractConnection_pre_process_msg c = (Inr p, c1)" "\<not> cp_is_full_message p"
    "c1 = c\<lparr>inputbuf := inputbuf c1\<rparr>"
    "BloxrouteMessageValidator_validate v False (cp_msg_type p) 20 (cp_payload_len p) (inputbuf c1) = (Inr (), b2)"
    "ib_inv b2" "in_content b2 = received c"
  proof (cases "length (received c) < 20")
    case True
    obtain p c1 where p: "AbstractConnection_pre_process_msg c = (Inr p, c1)" "keeps c c1" "c1 = c\<lparr>inputbuf := inputbuf c1\<rparr>"
      "\<not> cp_is_full_message p" "cp_msg_type p = None" "cp_payload_len p = None"
      using pre_process_spec[OF inv] True by auto
    have b: "ib_inv (inputbuf c1)" "in_content (inputbuf c1) = received c"
      using p(2) by (simp_all add: takes_def rcv_inv_def received_def)
    show thesis
      using that[OF p(1,4,3)] validate_prefix[OF b(1) assms(2), of k m "[]" 20] b assms(4) True p(5,6)
      by (auto simp: min_less_iff_disj)
  next
    case False
    obtain c1 where p: "AbstractConnection_pre_process_msg c
      = (Inr \<lparr>cp_is_full_message = False, cp_should_process_message = True,
              cp_msg_type = Some (MESSAGE_TYPE (fst m)), cp_payload_len = Some (length (snd m))\<rparr>, c1)"
      "keeps c c1" "c1 = c\<lparr>inputbuf := inputbuf c1\<rparr>"
      using preview_of_frame[OF inv _ assms(3), of k "[]"] assms(4,5) False by auto
    have b: "ib_inv (inputbuf c1)" "in_content (inputbuf c1) = received c"
      using p(2) by (simp_all add: takes_def rcv_inv_def received_def)
    show thesis
      using that[OF p(1) _ p(3)] validate_of_frame[OF b(1) assms(2) _ assms(3), of k "[]" False] b assms(4) by auto
  qed
  have c1: "header_size c1 = 20" "c1\<lparr>inputbuf := b2\<rparr> = c\<lparr>inputbuf := b2\<rparr>"
    using p(3) hs by (metis (no_types) connection.select_convs connection.surjective connection.update_convs(1))+
  have "process_message_try (bx_methods v act) (c, ?l)
      = (Inr Return, c\<lparr>inputbuf := b2\<rparr>, \<lparr>is_full_msg = False, l_payload_len = cp_payload_len p, l_msg = None\<rparr>)"
    using al p(1,2,4) c1
    by (simp add: process_message_try_def base_methods_def on_conn_def Let_def on_inputbuf_def AbstractConnection_process_msg_type_def)
  then show ?thesis using p(5,6) by (auto simp: process_message_iteration_def)
qed

lemma iteration_full:
  assumes "listening c" and "connection_protocol_version v \<ge> FIRST_VALIDATING_VERSION" and "deliverable v m"
    and "received c = frame_of m @ rest"
  shows "\<exists>b. process_message_iteration (bx_methods v act) c
      = (Inr True, connection.more_update (act_on act m)
           (c\<lparr>inputbuf := b, num_bad_messages := 0, processing_message_index := processing_message_index c + 1\<rparr>))
    \<and> ib_inv b \<and> in_content b = rest"
proof -
  let ?n = "length (snd m)"
  let ?l = "\<lparr>is_full_msg = False, l_payload_len = None, l_msg = None\<rparr>"
  let ?p = "\<lparr>cp_is_full_message = True, cp_should_process_message = True,
             cp_msg_type = Some (MESSAGE_TYPE (fst m)), cp_payload_len = Some ?n\<rparr>"
  have inv: "rcv_inv c" and al: "alive (conn_socket c)" and est: "established c" using assms(1) by (simp_all add: listening_def)
  have hs: "header_size c = 20" using inv by (simp add: rcv_inv_def)
  have r: "received c = take (length (received c)) (frame_of m @ rest)" using assms(4) by simp
  obtain c1 where p: "AbstractConnection_pre_process_msg c = (Inr ?p, c1)" "keeps c c1" "c1 = c\<lparr>inputbuf := inputbuf c1\<rparr>"
    using preview_of_frame[OF inv r assms(3)] assms(4) by auto
  have b1: "ib_inv (inputbuf c1)" "in_content (inputbuf c1) = received c"
    using p(2) by (simp_all add: takes_def rcv_inv_def received_def)
  obtain b2 where b2: "BloxrouteMessageValidator_validate v True (Some (MESSAGE_TYPE (fst m))) 20 (Some ?n) (inputbuf c1) = (Inr (), b2)"
    "ib_inv b2" "in_content b2 = received c"
    using validate_of_frame[OF b1(1) assms(2) _ assms(3), of "length (received c)" rest True] b1(2) r assms(4) by auto
  let ?c2 = "c\<lparr>inputbuf := b2\<rparr>"
  have c1: "header_size c1 = 20" "c1\<lparr>inputbuf := b2\<rparr> = ?c2"
    using p(3) hs by (metis (no_types) connection.select_convs connection.surjective connection.update_convs(1))+
  have inv2: "rcv_inv ?c2" "received ?c2 = frame_of m @ rest" using b2 hs assms(4) by (simp_all add: rcv_inv_def received_def)
  obtain c3 where c3: "AbstractConnection_pop_next_message ?n ?c2 = (Inr (message_of m), c3)" "takes (20 + ?n) ?c2 c3"
    "c3 = ?c2\<lparr>inputbuf := inputbuf c3\<rparr>"
    using pop_next_message_spec[OF inv2(1), of ?n] inv2(2) frame_of_message[OF assms(3)] by auto
  define b where "b = inputbuf c3"
  have c3': "c3 = c\<lparr>inputbuf := b\<rparr>" using c3(3) by (simp add: b_def)
  have b: "ib_inv b" "in_content b = rest" using c3(2) inv2(2) by (simp_all add: takes_def rcv_inv_def received_def b_def)
  let ?l3 = "\<lparr>is_full_msg = True, l_payload_len = Some ?n, l_msg = Some (snd (message_of m))\<rparr>"
  have d: "process_message_dispatch (bx_methods v act) (Some (MESSAGE_TYPE (fst m))) (message_of m) (c3, ?l3)
      = (Inr Completed, connection.more_update (act_on act m) c3, ?l3)"
    using est unfolding c3'
    by (cases "act (MESSAGE_TYPE (fst m))")
      (simp_all add: process_message_dispatch_def base_methods_def subclass_handlers_def on_conn_def act_on_def)
  have "process_message_try (bx_methods v act) (c, ?l) = process_message_dispatch (bx_methods v act) (Some (MESSAGE_TYPE (fst m))) (message_of m) (c3, ?l3)"
    using al p(1) b2(1) c1 c3(1) rawbytes_message_of[of m]
    by (simp add: process_message_try_def base_methods_def on_conn_def Let_def on_inputbuf_def AbstractConnection_process_msg_type_def
        need_len_def)
  then have "process_message_iteration (bx_methods v act) c = (Inr True, connection.more_update (act_on act m)
           (c\<lparr>inputbuf := b, num_bad_messages := 0, processing_message_index := processing_message_index c + 1\<rparr>))"
    unfolding d by (simp add: process_message_iteration_def c3')
  then show ?thesis using b by blast
qed

text \<open>
  All complete messages at the head of the buffer are handled in the order they were sent, the
  incomplete one after them stays.
\<close>

lemma loop_delivers:
  assumes "connection_protocol_version v \<ge> FIRST_VALIDATING_VERSION" and "deliverable v m"
  shows "listening c \<Longrightarrow> list_all (deliverable v) ms \<Longrightarrow> received c = concat (map frame_of ms) @ take k (frame_of m) \<Longrightarrow>
    k < length (frame_of m) \<Longrightarrow> length ms < fuel \<Longrightarrow>
    \<exists>c'. process_message_loop (bx_methods v act) fuel c = Some (Inr (), c') \<and> agree c c' \<and> listening c'
      \<and> received c' = take k (frame_of m) \<and> connection.more c' = fold (act_on act) ms (connection.more c)"
proof (induction ms arbitrary: c fuel)
  case Nil
  then obtain fuel' where f: "fuel = Suc fuel'" by (cases fuel) auto
  obtain b where b: "process_message_iteration (bx_methods v act) c = (Inr False, c\<lparr>inputbuf := b\<rparr>)" "ib_inv b" "in_content b = received c"
    using iteration_partial[OF Nil(1) assms(1,2), of k act] Nil(3,4) by auto
  have "agree c (c\<lparr>inputbuf := b\<rparr>)" by (rule agree_updates(1))
  then show ?case
    using b f Nil agree_listening[OF _ Nil(1)] by (auto simp: received_def)
next
  case (Cons x xs)
  then obtain fuel' where f: "fuel = Suc fuel'" by (cases fuel) auto
  have x: "deliverable v x" and rx: "received c = frame_of x @ (concat (map frame_of xs) @ take k (frame_of m))"
    using Cons.prems(2,3) by simp_all
  obtain b where b: "process_message_iteration (bx_methods v act) c = (Inr True, connection.more_update (act_on act x)
      (c\<lparr>inputbuf := b, num_bad_messages := 0, processing_message_index := processing_message_index c + 1\<rparr>))"
    "ib_inv b" "in_content b = concat (map frame_of xs) @ take k (frame_of m)"
    using iteration_full[OF Cons.prems(1) assms(1) x rx, of act] by blast
  let ?c1 = "connection.more_update (act_on act x)
      (c\<lparr>inputbuf := b, num_bad_messages := 0, processing_message_index := processing_message_index c + 1\<rparr>)"
  have a: "agree c ?c1" by (rule agree_updates(3))
  have "listening ?c1" using agree_listening[OF a Cons.prems(1)] b(2) by simp
  moreover have "received ?c1 = concat (map frame_of xs) @ take k (frame_of m)" using b(3) by (simp add: received_def)
  ultimately obtain c' where "process_message_loop (bx_methods v act) fuel' ?c1 = Some (Inr (), c')" "agree ?c1 c'" "listening c'"
    "received c' = take k (frame_of m)" "connection.more c' = fold (act_on act) xs (connection.more ?c1)"
    using Cons.IH[of ?c1 fuel'] Cons.prems f by auto
  then show ?case using b(1) f agree_trans[OF a] by auto
qed

lemma agree_in_pool: "agree c c' \<Longrightarrow> in_pool c' = in_pool c"
  unfolding agree_def by (cases c; cases c') simp

text \<open>Bytes arrive in pieces, each handed to the connection as it comes.\<close>

primrec receive_pieces ::
    "'x connection_scheme conn_methods \<Rightarrow> nat \<Rightarrow> piece list \<Rightarrow> 'x connection_scheme \<Rightarrow> (unit result \<times> 'x connection_scheme) option" where
  "receive_pieces cm fuel [] c = Some (Inr (), c)"
| "receive_pieces cm fuel (p # ps) c =
     (case AbstractNode_on_bytes_received cm fuel p c of
        Some (Inr _, c1) \<Rightarrow> receive_pieces cm fuel ps c1
      | r \<Rightarrow> r)"

definition a_ping :: wire_message where
  "a_ping = (PingMessage, replicate 8 0 @ [1])"

lemma a_ping_deliverable: "deliverable v a_ping"
  by (simp add: a_ping_def deliverable_def good_body_def fixed_payload_def size_ok_validate
      BloxrouteMessageValidator_validate_payload_length_def block_size_types_def MESSAGE_TYPE_def ascii_def
      DEFAULT_MAX_PAYLOAD_LEN_BYTES_def split: option.split)

text \<open>A prefix of a stream of frames is a number of whole frames and an incomplete one.\<close>

lemma stream_prefix:
  assumes "list_all (deliverable v) ms" and "t @ u = concat (map frame_of ms)"
  shows "\<exists>j m k. j \<le> length ms \<and> deliverable v m \<and> k < length (frame_of m)
    \<and> t = concat (map frame_of (take j ms)) @ take k (frame_of m)
    \<and> take k (frame_of m) @ u = concat (map frame_of (drop j ms)) \<and> (drop j ms = [] \<longrightarrow> k = 0)
    \<and> (\<forall>x xs. drop j ms = x # xs \<longrightarrow> k < length (frame_of x))"
  using assms
proof (induction ms arbitrary: t)
  case Nil
  then show ?case using a_ping_deliverable by (intro exI[of _ 0] exI[of _ a_ping] exI[of _ 0]) simp
next
  case (Cons x xs)
  show ?case
  proof (cases "length t < length (frame_of x)")
    case True
    then have "t = take (length t) (frame_of x)"
      using Cons.prems(2) by (metis append_eq_append_conv_if concat.simps(2) less_imp_le list.simps(9))
    then show ?thesis
      using Cons.prems True by (intro exI[of _ 0] exI[of _ x] exI[of _ "length t"]) simp
  next
    case False
    have "take (length (frame_of x)) (t @ u) = frame_of x" "drop (length (frame_of x)) (t @ u) = concat (map frame_of xs)"
      unfolding Cons.prems(2) by (simp_all del: length_frame_of)
    then have "take (length (frame_of x)) t = frame_of x" "drop (length (frame_of x)) t @ u = concat (map frame_of xs)"
      using False by simp_all
    moreover from this(1) have "t = frame_of x @ drop (length (frame_of x)) t" by (metis append_take_drop_id)
    ultimately obtain t' where t': "t = frame_of x @ t'" "t' @ u = concat (map frame_of xs)" by blast
    have "list_all (deliverable v) xs" using Cons.prems(1) by simp
    obtain j m k where "j \<le> length xs" "deliverable v m" "k < length (frame_of m)"
      "t' = concat (map frame_of (take j xs)) @ take k (frame_of m)"
      "take k (frame_of m) @ u = concat (map frame_of (drop j xs))" "drop j xs = [] \<longrightarrow> k = 0"
      "\<forall>y ys. drop j xs = y # ys \<longrightarrow> k < length (frame_of y)"
      using Cons.IH[OF _ t'(2)] \<open>list_all (deliverable v) xs\<close> by blast
    then show ?thesis using t'(1) by (intro exI[of _ "Suc j"] exI[of _ m] exI[of _ k]) simp
  qed
qed

lemma receive_pieces_delivers:
  assumes "connection_protocol_version v \<ge> FIRST_VALIDATING_VERSION"
  shows "listening c \<Longrightarrow> in_pool c \<Longrightarrow> list_all (deliverable v) ms \<Longrightarrow> length ms < fuel \<Longrightarrow>
    received c @ concat (map snd ps) = concat (map frame_of ms) \<Longrightarrow>
    (\<forall>x xs. ms = x # xs \<longrightarrow> length (received c) < length (frame_of x)) \<Longrightarrow>
    \<exists>c'. receive_pieces (bx_methods v act) fuel ps c = Some (Inr (), c') \<and> agree c c' \<and> listening c'
      \<and> received c' = [] \<and> connection.more c' = fold (act_on act) ms (connection.more c)"
proof (induction ps arbitrary: c ms)
  case Nil
  then have "ms = []" by (cases ms) auto
  then show ?case using Nil by (simp add: agree_refl)
next
  case (Cons p ps)
  have e: "(received c @ snd p) @ concat (map snd ps) = concat (map frame_of ms)" using Cons.prems(5) by simp
  obtain j m k where s: "j \<le> length ms" "deliverable v m" "k < length (frame_of m)"
    "received c @ snd p = concat (map frame_of (take j ms)) @ take k (frame_of m)"
    "take k (frame_of m) @ concat (map snd ps) = concat (map frame_of (drop j ms))" "drop j ms = [] \<longrightarrow> k = 0"
    "\<forall>x xs. drop j ms = x # xs \<longrightarrow> k < length (frame_of x)"
    using stream_prefix[OF Cons.prems(3) e] by blast
  let ?c1 = "c\<lparr>inputbuf := InputBuffer_add_bytes p (inputbuf c), processing_message_index := 0\<rparr>"
  have inv: "ib_inv (inputbuf c)" using Cons.prems(1) by (simp add: listening_def rcv_inv_def)
  have a1: "agree c ?c1" by (simp add: agree_def)
  have l1: "listening ?c1" using agree_listening[OF a1 Cons.prems(1)] inv by simp
  have r1: "received ?c1 = concat (map frame_of (take j ms)) @ take k (frame_of m)" using s(4) by (simp add: received_def)
  have d1: "list_all (deliverable v) (take j ms)" using Cons.prems(3) by (auto simp: list_all_iff dest: in_set_takeD)
  obtain c' where c': "process_message_loop (bx_methods v act) fuel ?c1 = Some (Inr (), c')" "agree ?c1 c'" "listening c'"
    "received c' = take k (frame_of m)" "connection.more c' = fold (act_on act) (take j ms) (connection.more ?c1)"
    using loop_delivers[OF assms s(2) l1 d1 r1 s(3), of fuel act] Cons.prems(4) s(1) by auto
  have step: "AbstractNode_on_bytes_received (bx_methods v act) fuel p c = Some (Inr (), c')"
    using c'(1) Cons.prems(1,2)
    by (simp add: AbstractNode_on_bytes_received_def AbstractConnection_is_alive_def AbstractConnection_add_received_bytes_def
        AbstractConnection_process_message_def listening_def)
  have a: "agree c c'" by (rule agree_trans[OF a1 c'(2)])
  have ip: "in_pool c'" using agree_in_pool[OF a] Cons.prems(2) by simp
  have "length (drop j ms) < fuel" using Cons.prems(4) by simp
  moreover have "list_all (deliverable v) (drop j ms)" using Cons.prems(3) by (auto simp: list_all_iff dest: in_set_dropD)
  ultimately obtain c2 where c2: "receive_pieces (bx_methods v act) fuel ps c' = Some (Inr (), c2)" "agree c' c2" "listening c2"
    "received c2 = []" "connection.more c2 = fold (act_on act) (drop j ms) (connection.more c')"
    using Cons.IH[OF c'(3) ip, of "drop j ms"] s(3,5,7) c'(4) by auto
  moreover have "fold (act_on act) (drop j ms) (fold (act_on act) (take j ms) x) = fold (act_on act) ms x" for x
    using fun_cong[OF fold_append[of "act_on act" "take j ms" "drop j ms"], of x] by simp
  ultimately show ?case using step c'(5) agree_trans[OF a c2(2)] by simp
qed

text \<open>
  C2. Messages survive the stream: however the bytes of a sequence of well-formed messages are cut into
  pieces, each message reaches its handler exactly once and in order, nothing else of the connection
  changes, and no byte is left over.
\<close>

theorem messages_delivered_in_order:
  assumes "connection_protocol_version v \<ge> FIRST_VALIDATING_VERSION" and "listening c" and "in_pool c" and "received c = []"
    and "list_all (deliverable v) ms" and "concat (map snd pieces) = concat (map frame_of ms)" and "length ms < fuel"
  shows "\<exists>c'. receive_pieces (bx_methods v act) fuel pieces c = Some (Inr (), c') \<and> agree c c' \<and> listening c'
    \<and> received c' = [] \<and> connection.more c' = fold (act_on act) ms (connection.more c)"
  using receive_pieces_delivers[OF assms(1-3,5,7)] assms(4,6) by auto

theorem messages_delivered_in_order_witness:
  "\<exists>c'. receive_pieces (bx_methods \<lparr>size_validation_settings = None, connection_protocol_version = 23\<rparr> (\<lambda>_. None)) 3
      [(Bytearray, take 30 (frame_of a_ping @ frame_of a_ping)), (ReadOnly, drop 30 (frame_of a_ping @ frame_of a_ping))]
      (blank_connection\<lparr>established := True\<rparr>) = Some (Inr (), c') \<and> received c' = []"
proof -
  let ?c = "blank_connection\<lparr>established := True\<rparr>"
  let ?s = "frame_of a_ping @ frame_of a_ping"
  have l: "listening ?c" "in_pool ?c" "received ?c = []"
    by (simp_all add: listening_def rcv_inv_def blank_connection_def received_def)
  have e: "concat (map snd [(Bytearray, take 30 ?s), (ReadOnly, drop 30 ?s)]) = concat (map frame_of [a_ping, a_ping])"
    by (simp del: take_append drop_append)
  show ?thesis
    using messages_delivered_in_order[OF _ l _ e, of "\<lparr>size_validation_settings = None, connection_protocol_version = 23\<rparr>" 3 "\<lambda>_. None"]
      a_ping_deliverable
    by (auto simp del: take_append drop_append receive_pieces.simps)
qed

subsection \<open>Bad messages and the handshake gate\<close>

text \<open>A complete message within the limits whose last byte lacks the \<open>VALID\<close> flag.\<close>

definition spoiled :: "BloxrouteMessageValidator \<Rightarrow> wire_message \<Rightarrow> bool" where
  "spoiled v m \<longleftrightarrow> snd m \<noteq> [] \<and> last (snd m) AND VALID = 0 \<and> length (snd m) < 256 ^ 4
     \<and> size_ok v (MESSAGE_TYPE (fst m)) (length (snd m))"

lemma header_of_message:
  assumes "received c = frame_of m @ rest" and "length (snd m) < 256 ^ 4" and "rcv_inv c"
  shows "\<exists>c'. AbstractConnection_pre_process_msg c
      = (Inr \<lparr>cp_is_full_message = True, cp_should_process_message = True,
              cp_msg_type = Some (MESSAGE_TYPE (fst m)), cp_payload_len = Some (length (snd m))\<rparr>, c')
    \<and> keeps c c' \<and> c' = c\<lparr>inputbuf := inputbuf c'\<rparr>"
proof -
  have u: "AbstractBloxrouteMessage_unpack (take 20 (received c)) = Inr (MESSAGE_TYPE (fst m), length (snd m))"
    using unpack_header_of_frame[OF MESSAGE_TYPE_good, of "snd m" "fst m" rest] assms(1,2) by (simp add: frame_of_def)
  obtain p c' where p: "AbstractConnection_pre_process_msg c = (Inr p, c')" "keeps c c'" "c' = c\<lparr>inputbuf := inputbuf c'\<rparr>"
    "cp_should_process_message p" "cp_msg_type p = Some (MESSAGE_TYPE (fst m))" "cp_payload_len p = Some (length (snd m))"
    "cp_is_full_message p"
    using pre_process_spec[OF assms(3)] assms(1) u by auto
  have "p = \<lparr>cp_is_full_message = True, cp_should_process_message = True,
              cp_msg_type = Some (MESSAGE_TYPE (fst m)), cp_payload_len = Some (length (snd m))\<rparr>"
    using p(4-7) by (cases p) simp
  then show ?thesis using p(1-3) by blast
qed

lemma validate_spoiled:
  assumes "ib_inv b" and "connection_protocol_version v \<ge> FIRST_VALIDATING_VERSION" and "in_content b = frame_of m @ rest"
    and "spoiled v m"
  shows "\<exists>b' n. BloxrouteMessageValidator_validate v True (Some (MESSAGE_TYPE (fst m))) 20 (Some (length (snd m))) b
      = (Inl (ControlFlagValidationError n), b') \<and> ib_inv b' \<and> in_content b' = in_content b"
proof -
  have f: "in_content b ! (19 + length (snd m)) = last (snd m)" "take 4 (in_content b) = STARTING_SEQUENCE_BYTES"
    using assms(3,4) frame_of_parts[of m] by (simp_all add: nth_append spoiled_def)
  obtain b1 where b1: "BloxrouteMessageValidator_validate_starting_sequence b = (Inr (), b1)" "ib_inv b1" "in_content b1 = in_content b"
    using starting_sequence_spec[OF assms(1)] f(2) by auto
  obtain b2 where b2: "BloxrouteMessageValidator_validate_control_flags True 20 (Some (length (snd m))) b1
      = (Inl (ControlFlagValidationError (unat (last (snd m)))), b2)" "ib_inv b2" "in_content b2 = in_content b"
    using control_flags_spec[OF b1(2), of 20 "length (snd m)" True] b1(3) f(1) assms(3,4) by (auto simp: spoiled_def)
  have "case size_validation_settings v of None \<Rightarrow> True
      | Some s \<Rightarrow> BloxrouteMessageValidator_validate_payload_length s (Some (MESSAGE_TYPE (fst m))) (Some (length (snd m))) = Inr ()"
    using assms(4) by (simp add: spoiled_def size_ok_validate)
  then show ?thesis
    using assms(2) b1(1) b2 by (auto simp: BloxrouteMessageValidator_validate_def split: option.splits)
qed

lemma last_bytes_peek:
  assumes "rcv_inv c"
  shows "\<exists>r c'. AbstractConnection_get_last_msg_bytes None (in_length (inputbuf c)) (Some n) c = (Inr r, c')
    \<and> keeps c c' \<and> c' = c\<lparr>inputbuf := inputbuf c'\<rparr>"
proof -
  have hs: "header_size c = 20" using assms by (simp add: rcv_inv_def)
  obtain bs b where "InputBuffer_peek_message (int (min (20 + n) 512000)) (inputbuf c) = Inr (bs, b)" "ib_inv b"
    "in_content b = in_content (inputbuf c)"
    using peek_message_spec[of "inputbuf c" "int (min (20 + n) 512000)"] assms by (auto simp: rcv_inv_def)
  then show ?thesis
    using hs by (auto simp: AbstractConnection_get_last_msg_bytes_def on_inputbuf_def keep_on_error_def takes_def
        rcv_inv_def received_def)
qed

lemma mark_for_close_closes:
  assumes "alive (conn_socket c)" and "has_transport (conn_socket c)"
  shows "AbstractConnection_mark_for_close retry c = (Inr (), snd (AbstractConnection_mark_for_close retry c))
    \<and> \<not> alive (conn_socket (snd (AbstractConnection_mark_for_close retry c)))
    \<and> inputbuf (snd (AbstractConnection_mark_for_close retry c)) = inputbuf c
    \<and> num_bad_messages (snd (AbstractConnection_mark_for_close retry c)) = num_bad_messages c
    \<and> connection.more (snd (AbstractConnection_mark_for_close retry c)) = connection.more c"
  using assms by (simp add: AbstractConnection_mark_for_close_def Socket_mark_for_close_def Let_def)

lemma iteration_spoiled:
  assumes "listening c" and "has_transport (conn_socket c)" and "connection_protocol_version v \<ge> FIRST_VALIDATING_VERSION"
    and "spoiled v m" and "received c = frame_of m @ rest"
  shows "\<exists>b. ib_inv b \<and> in_content b = rest \<and> process_message_iteration (bx_methods v act) c
      = (if num_bad_messages c = MAX_BAD_MESSAGES
         then (Inr False, snd (AbstractConnection_mark_for_close None (c\<lparr>inputbuf := b\<rparr>)))
         else (Inr True, c\<lparr>inputbuf := b, num_bad_messages := num_bad_messages c + 1,
                           processing_message_index := processing_message_index c + 1\<rparr>))"
proof -
  let ?n = "length (snd m)" and ?cm = "bx_methods v act"
  let ?start = "\<lparr>is_full_msg = False, l_payload_len = None, l_msg = None\<rparr>"
  let ?l = "\<lparr>is_full_msg = True, l_payload_len = Some ?n, l_msg = None\<rparr>"
  have inv: "rcv_inv c" and al: "alive (conn_socket c)" using assms(1) by (simp_all add: listening_def)
  have hs: "header_size c = 20" using inv by (simp add: rcv_inv_def)
  obtain c1 where p: "AbstractConnection_pre_process_msg c = (Inr \<lparr>cp_is_full_message = True, cp_should_process_message = True,
             cp_msg_type = Some (MESSAGE_TYPE (fst m)), cp_payload_len = Some ?n\<rparr>, c1)" "keeps c c1" "c1 = c\<lparr>inputbuf := inputbuf c1\<rparr>"
    using header_of_message[OF assms(5) _ inv] assms(4) by (auto simp: spoiled_def)
  have b1: "ib_inv (inputbuf c1)" "in_content (inputbuf c1) = frame_of m @ rest"
    using p(2) assms(5) by (simp_all add: takes_def rcv_inv_def received_def)
  obtain b2 k where b2: "BloxrouteMessageValidator_validate v True (Some (MESSAGE_TYPE (fst m))) 20 (Some ?n) (inputbuf c1)
      = (Inl (ControlFlagValidationError k), b2)" "ib_inv b2" "in_content b2 = frame_of m @ rest"
    using validate_spoiled[OF b1(1) assms(3) b1(2) assms(4)] b1(2) by auto
  let ?c2 = "c\<lparr>inputbuf := b2\<rparr>"
  have c1: "header_size c1 = 20" "c1\<lparr>inputbuf := b2\<rparr> = ?c2"
    using p(3) hs by (metis (no_types) connection.select_convs connection.surjective connection.update_convs(1))+
  have try_eq: "process_message_try ?cm (c, ?start) = (Inl (ControlFlagValidationError k), ?c2, ?l)"
    using al p(1) b2(1) c1
    by (simp add: process_message_try_def base_methods_def on_conn_def Let_def on_inputbuf_def)
  have inv2: "rcv_inv ?c2" "received ?c2 = received c" "in_length (inputbuf ?c2) = in_length (inputbuf c)"
    using b2 hs assms(5) rcv_length[OF inv] by (simp_all add: rcv_inv_def received_def ib_inv_def)
  obtain lb c3 where lb: "AbstractConnection_get_last_msg_bytes None (in_length (inputbuf ?c2)) (Some ?n) ?c2 = (Inr lb, c3)"
    "keeps ?c2 c3" "c3 = ?c2\<lparr>inputbuf := inputbuf c3\<rparr>"
    using last_bytes_peek[OF inv2(1)] by blast
  have len3: "in_length (inputbuf c) = in_length (inputbuf c3)"
    using rcv_length[OF inv] rcv_length[OF takes_inv[OF lb(2)]] lb(2) inv2(2) by (simp add: takes_def)
  obtain c4 where c4: "AbstractConnection_clean_up_current_msg (Some ?n) True c3 = (Inr (), c4)" "takes (20 + ?n) c3 c4"
    "c4 = c3\<lparr>inputbuf := inputbuf c4\<rparr>"
    using clean_up_takes[OF takes_inv[OF lb(2)], of ?n] lb(2) inv2(2) assms(5) by (auto simp: takes_def)
  define b where "b = inputbuf c4"
  have c4': "c4 = c\<lparr>inputbuf := b\<rparr>"
  proof -
    have "c4 = (?c2\<lparr>inputbuf := inputbuf c3\<rparr>)\<lparr>inputbuf := b\<rparr>" using c4(3) lb(3) unfolding b_def by simp
    then show ?thesis by simp
  qed
  have b: "ib_inv b" "in_content b = rest"
    using c4(2) lb(2) inv2(2) assms(5) unfolding b_def by (simp_all add: takes_def rcv_inv_def received_def)
  have "process_message_except ?cm (in_length (inputbuf c)) (ControlFlagValidationError k) ?l ?c2
      = AbstractConnection_report_bad_message ?cm c4"
    using lb(1) inv2(3) len3 c4(1) by (simp add: process_message_except_def recover_or_close_def)
  then have "process_message_iteration ?cm c = sbind (AbstractConnection_report_bad_message ?cm c4) (\<lambda>leave c2.
      if leave then (Inr False, c2) else (Inr True, c2\<lparr>processing_message_index := processing_message_index c2 + 1\<rparr>))"
    unfolding process_message_iteration_def try_eq by simp
  moreover obtain c5 where "AbstractConnection_mark_for_close None c4 = (Inr (), c5)"
    using mark_for_close_closes[of c4 None] al assms(2) by (auto simp: c4')
  ultimately have "process_message_iteration ?cm c
      = (if num_bad_messages c = MAX_BAD_MESSAGES
         then (Inr False, snd (AbstractConnection_mark_for_close None (c\<lparr>inputbuf := b\<rparr>)))
         else (Inr True, c\<lparr>inputbuf := b, num_bad_messages := num_bad_messages c + 1,
                           processing_message_index := processing_message_index c + 1\<rparr>))"
    by (auto simp: AbstractConnection_report_bad_message_def c4' base_methods_def elim!: sbindE)
  then show ?thesis using b by blast
qed

text \<open>
  C5. Three bad messages in a row are dropped one by one; the fourth closes the connection and nothing
  behind it is looked at. No handler runs.
\<close>

theorem bad_messages_close:
  assumes "connection_protocol_version v \<ge> FIRST_VALIDATING_VERSION" and "list_all (spoiled v) bad"
    and "listening c" and "has_transport (conn_socket c)" and "num_bad_messages c \<le> MAX_BAD_MESSAGES"
    and "received c = concat (map frame_of bad)" and "length bad < fuel"
  shows "\<exists>c'. process_message_loop (bx_methods v act) fuel c = Some (Inr (), c')
    \<and> (alive (conn_socket c') \<longleftrightarrow> num_bad_messages c + length bad \<le> MAX_BAD_MESSAGES)
    \<and> received c' = concat (map frame_of (drop (MAX_BAD_MESSAGES + 1 - num_bad_messages c) bad))
    \<and> connection.more c' = connection.more c"
  using assms(2-)
proof (induction bad arbitrary: c fuel)
  case Nil
  then obtain fuel' where f: "fuel = Suc fuel'" by (cases fuel) auto
  obtain b where "process_message_iteration (bx_methods v act) c = (Inr False, c\<lparr>inputbuf := b\<rparr>)" "ib_inv b" "in_content b = []"
    using iteration_partial[OF Nil(2) assms(1) a_ping_deliverable, of 0 act] Nil(5) by auto
  then show ?case using f Nil by (auto simp: listening_def received_def)
next
  case (Cons m bad)
  then obtain fuel' where f: "fuel = Suc fuel'" by (cases fuel) auto
  have m: "spoiled v m" and r: "received c = frame_of m @ concat (map frame_of bad)" using Cons.prems(1,5) by simp_all
  obtain b where b: "ib_inv b" "in_content b = concat (map frame_of bad)" "process_message_iteration (bx_methods v act) c
      = (if num_bad_messages c = MAX_BAD_MESSAGES
         then (Inr False, snd (AbstractConnection_mark_for_close None (c\<lparr>inputbuf := b\<rparr>)))
         else (Inr True, c\<lparr>inputbuf := b, num_bad_messages := num_bad_messages c + 1,
                           processing_message_index := processing_message_index c + 1\<rparr>))"
    using iteration_spoiled[OF Cons.prems(2,3) assms(1) m r, of act] by blast
  show ?case
  proof (cases "num_bad_messages c = 3")
    case True
    then show ?thesis
      using b f Cons.prems mark_for_close_closes[of "c\<lparr>inputbuf := b\<rparr>" None] by (auto simp: listening_def received_def)
  next
    case False
    let ?c1 = "c\<lparr>inputbuf := b, num_bad_messages := num_bad_messages c + 1, processing_message_index := processing_message_index c + 1\<rparr>"
    have "listening ?c1" using Cons.prems(2) b(1) by (simp add: listening_def rcv_inv_def)
    then obtain c' where c': "process_message_loop (bx_methods v act) fuel' ?c1 = Some (Inr (), c')"
      "alive (conn_socket c') \<longleftrightarrow> num_bad_messages ?c1 + length bad \<le> 3"
      "received c' = concat (map frame_of (drop (4 - num_bad_messages ?c1) bad))" "connection.more c' = connection.more ?c1"
      using Cons.IH[of ?c1 fuel'] Cons.prems f False b(2) by (auto simp: received_def)
    have "drop (4 - num_bad_messages c) (m # bad) = drop (4 - num_bad_messages ?c1) bad"
      using False Cons.prems(4) by (simp add: drop_Cons' diff_commute)
    then show ?thesis using c' b(3) f False by simp
  qed
qed

theorem bad_messages_close_witness:
  "\<exists>c'. process_message_loop (bx_methods \<lparr>size_validation_settings = None, connection_protocol_version = 23\<rparr> (\<lambda>_. None)) 6
      (blank_connection\<lparr>established := True, inputbuf :=
         InputBuffer_add_bytes (Bytearray, concat (map frame_of (replicate 5 (PingMessage, [0])))) InputBuffer_init\<rparr>)
      = Some (Inr (), c') \<and> \<not> alive (conn_socket c') \<and> received c' = frame_of (PingMessage, [0])"
proof -
  let ?v = "\<lparr>size_validation_settings = None, connection_protocol_version = 23\<rparr>"
  let ?bad = "replicate 5 (PingMessage, [0])"
  let ?c = "blank_connection\<lparr>established := True, inputbuf := InputBuffer_add_bytes (Bytearray, concat (map frame_of ?bad)) InputBuffer_init\<rparr>"
  have s: "list_all (spoiled ?v) ?bad" by (simp add: list_all_iff spoiled_def size_ok_validate)
  have l: "listening ?c" "has_transport (conn_socket ?c)" "num_bad_messages ?c \<le> 3"
    by (simp_all add: listening_def rcv_inv_def blank_connection_def del: map_replicate)
  have r: "received ?c = concat (map frame_of ?bad)" by (simp add: received_def del: map_replicate)
  obtain c' where "process_message_loop (bx_methods ?v (\<lambda>_. None)) 6 ?c = Some (Inr (), c')"
    "alive (conn_socket c') \<longleftrightarrow> num_bad_messages ?c + length ?bad \<le> 3"
    "received c' = concat (map frame_of (drop (3 + 1 - num_bad_messages ?c) ?bad))"
    using bad_messages_close[OF _ s l r, of 6 "\<lambda>_. None"] by auto
  then show ?thesis by (intro exI[of _ c']) (simp add: blank_connection_def)
qed

text \<open>
  C6. Before the handshake is complete only the messages of the handshake are handled: any other message
  closes the connection and its handler does not run.
\<close>

theorem handshake_gate:
  assumes "connection_protocol_version v \<ge> FIRST_VALIDATING_VERSION" and "deliverable v m" and "received c = frame_of m @ rest"
    and "rcv_inv c" and "alive (conn_socket c)" and "has_transport (conn_socket c)"
    and "\<not> established c" and "MESSAGE_TYPE (fst m) \<notin> set (hello_messages c)"
  shows "\<exists>c'. process_message_loop (bx_methods v act) (Suc fuel) c = Some (Inr (), c')
    \<and> \<not> alive (conn_socket c') \<and> received c' = rest \<and> connection.more c' = connection.more c"
proof -
  let ?n = "length (snd m)" and ?cm = "bx_methods v act"
  let ?l3 = "\<lparr>is_full_msg = True, l_payload_len = Some ?n, l_msg = Some (snd (message_of m))\<rparr>"
  let ?start = "\<lparr>is_full_msg = False, l_payload_len = None, l_msg = None\<rparr>"
  have hs: "header_size c = 20" using assms(4) by (simp add: rcv_inv_def)
  obtain c1 where p: "AbstractConnection_pre_process_msg c = (Inr \<lparr>cp_is_full_message = True, cp_should_process_message = True,
             cp_msg_type = Some (MESSAGE_TYPE (fst m)), cp_payload_len = Some ?n\<rparr>, c1)" "keeps c c1" "c1 = c\<lparr>inputbuf := inputbuf c1\<rparr>"
    using header_of_message[OF assms(3) _ assms(4)] assms(2) by (auto simp: deliverable_def good_body_def)
  have b1: "ib_inv (inputbuf c1)" "in_content (inputbuf c1) = take (length (received c)) (frame_of m @ rest)"
    using p(2) assms(3) by (simp_all add: takes_def rcv_inv_def received_def)
  obtain b2 where b2: "BloxrouteMessageValidator_validate v True (Some (MESSAGE_TYPE (fst m))) 20 (Some ?n) (inputbuf c1) = (Inr (), b2)"
    "ib_inv b2" "in_content b2 = frame_of m @ rest"
    using validate_of_frame[OF b1(1) assms(1) b1(2) assms(2), of True] b1(2) assms(3) by auto
  let ?c2 = "c\<lparr>inputbuf := b2\<rparr>"
  have c1: "header_size c1 = 20" "c1\<lparr>inputbuf := b2\<rparr> = ?c2"
    using p(3) hs by (metis (no_types) connection.select_convs connection.surjective connection.update_convs(1))+
  have inv2: "rcv_inv ?c2" "received ?c2 = frame_of m @ rest" using b2 hs by (simp_all add: rcv_inv_def received_def)
  obtain c3 where c3: "AbstractConnection_pop_next_message ?n ?c2 = (Inr (message_of m), c3)" "takes (20 + ?n) ?c2 c3"
    "c3 = ?c2\<lparr>inputbuf := inputbuf c3\<rparr>"
    using pop_next_message_spec[OF inv2(1), of ?n] inv2(2) frame_of_message[OF assms(2)] by auto
  define b where "b = inputbuf c3"
  have c3': "c3 = c\<lparr>inputbuf := b\<rparr>" using c3(3) by (simp add: b_def)
  have rb: "in_content b = rest" using c3(2) inv2(2) by (simp add: takes_def received_def b_def)
  obtain c4 where c4: "AbstractConnection_mark_for_close None c3 = (Inr (), c4)" "\<not> alive (conn_socket c4)"
    "inputbuf c4 = b" "connection.more c4 = connection.more c"
    using mark_for_close_closes[of c3 None] assms(5,6) by (auto simp: c3')
  have gate: "\<not> established c3 \<and> Some (MESSAGE_TYPE (fst m)) \<notin> Some ` set (hello_messages c3)"
    using assms(7,8) by (auto simp: c3')
  have "process_message_try ?cm (c, ?start) = process_message_dispatch ?cm (Some (MESSAGE_TYPE (fst m))) (message_of m) (c3, ?l3)"
    using assms(5) p(1) b2(1) c1 c3(1) rawbytes_message_of[of m]
    by (simp add: process_message_try_def base_methods_def on_conn_def Let_def on_inputbuf_def AbstractConnection_process_msg_type_def
        need_len_def)
  also have "\<dots> = (Inr Return, c4, ?l3)"
    using gate c4(1) by (simp add: process_message_dispatch_def on_conn_def base_methods_def)
  finally have "process_message_iteration ?cm c = (Inr False, c4)"
    by (simp add: process_message_iteration_def)
  then show ?thesis using c4(2-4) rb by (simp add: received_def)
qed

theorem handshake_gate_witness:
  "\<exists>c'. process_message_loop (bx_methods \<lparr>size_validation_settings = None, connection_protocol_version = 23\<rparr> (\<lambda>_. None)) 1
      (blank_connection\<lparr>inputbuf := InputBuffer_add_bytes (Bytearray, frame_of a_ping) InputBuffer_init\<rparr>) = Some (Inr (), c')
    \<and> \<not> alive (conn_socket c')"
proof -
  let ?c = "blank_connection\<lparr>inputbuf := InputBuffer_add_bytes (Bytearray, frame_of a_ping) InputBuffer_init\<rparr>"
  have "received ?c = frame_of a_ping @ []" "rcv_inv ?c" "alive (conn_socket ?c)" "has_transport (conn_socket ?c)"
    "\<not> established ?c" "MESSAGE_TYPE (fst a_ping) \<notin> set (hello_messages ?c)"
    by (simp_all add: received_def rcv_inv_def blank_connection_def)
  from handshake_gate[OF _ a_ping_deliverable this, of "\<lparr>size_validation_settings = None, connection_protocol_version = 23\<rparr>" "\<lambda>_. None" 0]
  show ?thesis by auto
qed

subsection \<open>Sending in order\<close>

text \<open>Operations of the sending side: a message is queued, the transport resumes, buffering is switched off.\<close>

datatype send_op = Queue_message time bytes | Resume time | Unbuffer time

definition stop_on_error :: "unit result \<times> 'c \<Rightarrow> 'c result" where
  "stop_on_error rc = (case rc of (Inl e, _) \<Rightarrow> Inl e | (Inr _, c) \<Rightarrow> Inr c)"

fun send_step :: "(bytes \<Rightarrow> bool) \<Rightarrow> 'x connection_scheme \<Rightarrow> send_op \<Rightarrow> 'x connection_scheme result" where
  "send_step full c (Queue_message now b) = stop_on_error (AbstractConnection_enqueue_msg_bytes full now b False c)"
| "send_step full c (Resume now) = stop_on_error (Socket_resume_writing full now c)"
| "send_step full c (Unbuffer now) = stop_on_error (InternalNodeConnection_disable_buffering full now c)"

fun sent_astep :: "bytes \<Rightarrow> send_op \<Rightarrow> bytes" where
  "sent_astep s (Queue_message _ b) = s @ b"
| "sent_astep s _ = s"

definition sending :: "'x connection_scheme \<Rightarrow> bool" where
  "sending c \<longleftrightarrow> conn_out_inv c \<and> alive (conn_socket c)"

lemma flush_unbuffered:
  assumes "ob_inv ob"
  shows "ob_inv ((OutputBuffer_flush ob)\<lparr>enable_buffering := False\<rparr>)"
    "out_content ((OutputBuffer_flush ob)\<lparr>enable_buffering := False\<rparr>) = out_content ob"
proof -
  have f: "ob_inv (OutputBuffer_flush ob)" "out_content (OutputBuffer_flush ob) = out_content ob"
    "last_bytearray (OutputBuffer_flush ob) = None"
    using flush_spec[OF assms] by (simp_all add: OutputBuffer_flush_def split: option.splits)
  show "out_content ((OutputBuffer_flush ob)\<lparr>enable_buffering := False\<rparr>) = out_content ob"
    using f(2,3) by (simp add: out_content_def held_back_def)
  then show "ob_inv ((OutputBuffer_flush ob)\<lparr>enable_buffering := False\<rparr>)"
    using f by (simp add: ob_inv_def batch_ok_def out_content_def held_back_def split: list.splits)
qed

lemma send_step_spec:
  assumes "sending c"
  shows "\<exists>c'. send_step full c x = Inr c' \<and> sending c' \<and> outgoing c' = sent_astep (outgoing c) x"
proof -
  have inv: "conn_out_inv c" and al: "alive (conn_socket c)" using assms by (simp_all add: sending_def)
  have alive_kept: "alive (conn_socket c')" if "same_but_output c1 c'" "alive (conn_socket c1)" for c1 c' :: "'a connection_scheme"
    using that by (simp add: same_but_output_def)
  show ?thesis
  proof (cases x)
    case (Queue_message now b)
    then show ?thesis
      using enqueue_msg_bytes_spec[OF inv al, of full now b] alive_kept[OF _ al] by (auto simp: stop_on_error_def sending_def)
  next
    case (Resume now)
    let ?c = "c\<lparr>conn_socket := (conn_socket c)\<lparr>can_send := True\<rparr>\<rparr>"
    have "conn_out_inv ?c" "outgoing ?c = outgoing c" using inv by (simp_all add: conn_out_inv_def outgoing_def)
    then show ?thesis
      using Resume Socket_send_spec[of ?c full now] alive_kept[of ?c] al
      by (auto simp: Socket_resume_writing_def stop_on_error_def sending_def)
  next
    case (Unbuffer now)
    let ?c = "c\<lparr>outputbuf := (OutputBuffer_flush (outputbuf c))\<lparr>enable_buffering := False\<rparr>\<rparr>"
    have "conn_out_inv ?c" "outgoing ?c = outgoing c"
      using inv flush_unbuffered[of "outputbuf c"] by (simp_all add: conn_out_inv_def outgoing_def)
    then show ?thesis
      using Unbuffer Socket_send_spec[of ?c full now] alive_kept[of ?c] al
      by (auto simp: InternalNodeConnection_disable_buffering_def stop_on_error_def sending_def)
  qed
qed

interpretation sender: refined_system "send_step full" sending "\<lambda>_. True" outgoing sent_astep for full
proof
  fix s s' :: "'a connection_scheme" and x
  assume s: "sending s"
  show "\<exists>s'. send_step full s x = Inr s' \<and> sending s'" using send_step_spec[OF s] by blast
  show "outgoing s' = sent_astep (outgoing s) x" if "send_step full s x = Inr s'"
    using send_step_spec[OF s, of full x] that by auto
qed

fun queued :: "send_op \<Rightarrow> bytes" where
  "queued (Queue_message _ b) = b"
| "queued _ = []"

lemma foldl_sent_astep: "foldl sent_astep a ops = a @ concat (map queued ops)"
proof (induction ops arbitrary: a)
  case (Cons x xs)
  then show ?case by (cases x) simp_all
qed simp

text \<open>
  C3. What a connection writes to its socket is exactly the messages queued on it, in order: the bytes
  written so far followed by those still in the output buffer are the concatenation of all messages,
  whatever the transport pauses in between, whether or not messages are batched.
\<close>

theorem connection_sends_in_order:
  assumes "sending c"
  shows "\<exists>c'. rfold (send_step full) c ops = Inr c' \<and> sending c'
    \<and> written (conn_socket c') @ out_content (outputbuf c') = outgoing c @ concat (map queued ops)"
  using sender.run_refines[OF assms, of ops full] by (auto simp: list_all_iff foldl_sent_astep outgoing_def)

theorem connection_sends_in_order_witness:
  "\<exists>c'. rfold (send_step (\<lambda>_. True)) blank_connection [Queue_message 0 [1, 2], Queue_message 1 [3], Resume 2] = Inr c'
    \<and> written (conn_socket c') @ out_content (outputbuf c') = [1, 2, 3]"
proof -
  have "sending blank_connection" "outgoing blank_connection = []"
    using ob_inv_init[of None None False]
    by (simp_all add: sending_def conn_out_inv_def blank_connection_def outgoing_def)
  then show ?thesis
    using connection_sends_in_order[of blank_connection "\<lambda>_. True" "[Queue_message 0 [1, 2], Queue_message 1 [3], Resume 2]"] by auto
qed

subsection \<open>The handshake\<close>

lemma flag_bit: "flag_in (2 ^ k) s \<longleftrightarrow> bit s k"
proof
  assume "flag_in (2 ^ k) s"
  then have "bit (2 ^ k AND s) k = bit (2 ^ k :: nat) k" by (simp add: flag_in_def)
  then show "bit s k" by (simp add: bit_simps)
qed (auto simp: flag_in_def bit_simps intro!: bit_eqI)

lemma flag_two: "flag_in (a OR b) s \<longleftrightarrow> flag_in a s \<and> flag_in b s"
  by (auto simp: flag_in_def bit_eq_iff bit_simps)

lemma state_bits:
  "flag_in 10 s \<longleftrightarrow> bit s 1 \<and> bit s 3" "flag_in 6 s \<longleftrightarrow> bit s 1 \<and> bit s 2"
  "bit (s OR 4) n \<longleftrightarrow> bit s n \<or> n = 2" "bit (s OR 8) n \<longleftrightarrow> bit s n \<or> n = 3" for s :: nat
proof -
  have "(10 :: nat) = 2 ^ 1 OR 2 ^ 3" "(6 :: nat) = 2 ^ 1 OR 2 ^ 2" by simp_all
  then show "flag_in 10 s \<longleftrightarrow> bit s 1 \<and> bit s 3" "flag_in 6 s \<longleftrightarrow> bit s 1 \<and> bit s 2"
    by (simp_all only: flag_two flag_bit)
  have "bit (4 :: nat) n \<longleftrightarrow> n = 2" "bit (8 :: nat) n \<longleftrightarrow> n = 3"
    using bit_exp_iff[where ?'a=nat, of 2 n] bit_exp_iff[where ?'a=nat, of 3 n] by auto
  then show "bit (s OR 4) n \<longleftrightarrow> bit s n \<or> n = 2" "bit (s OR 8) n \<longleftrightarrow> bit s n \<or> n = 3"
    by (simp_all add: bit_or_iff)
qed

lemma msg_hello_spec:
  fixes d :: "'a connection_scheme"
  assumes "sending d" and "\<not> established d" and "bit (conn_state d) 1" and "ack_message d = Some ack"
    and "AbstractInternalMessage_rawbytes ack = Inr (raw, ack')"
  shows "\<exists>c1. AbstractConnection_msg_hello full now (\<lambda>_. None) close node_id d = (Inr False, c1)
      \<and> (established c1 \<longleftrightarrow> bit (conn_state d) 3) \<and> outgoing c1 = outgoing d @ raw
      \<and> (\<not> bit (conn_state d) 3 \<longrightarrow> conn_state c1 = conn_state d OR 4)
      \<and> sending c1 \<and> ping_interval_s c1 = ping_interval_s d"
proof -
  define d2 where "d2 = (if peer_id d = None then d\<lparr>conn_state := conn_state d OR 4, peer_id := node_id\<rparr>
                          else d\<lparr>conn_state := conn_state d OR 4\<rparr>)"
  have f: "conn_out_inv d2" "alive (conn_socket d2)" "outgoing d2 = outgoing d" "ack_message d2 = Some ack"
    "\<not> established d2" "conn_state d2 = conn_state d OR 4" "ping_interval_s d2 = ping_interval_s d"
    using assms(1-4) by (simp_all add: d2_def sending_def conn_out_inv_def outgoing_def)
  obtain d3 where d3: "AbstractConnection_enqueue_msg_bytes full now raw False d2 = (Inr (), d3)"
    "outgoing d3 = outgoing d @ raw" "same_but_output d2 d3" "conn_out_inv d3"
    using enqueue_msg_bytes_spec[OF f(1,2), of full now raw] f(3) by auto
  have g: "conn_state d3 = conn_state d OR 4" "\<not> established d3" "alive (conn_socket d3)" "ping_interval_s d3 = ping_interval_s d"
    using same_but_output_fields[OF d3(3)] f by simp_all
  have "AbstractConnection_msg_hello full now (\<lambda>_. None) close node_id d
      = (Inr False, if flag_in 10 (conn_state d3) then AbstractConnection_on_connection_established d3 else d3)"
    using d3(1) f(4) assms(5)
    by (simp add: AbstractConnection_msg_hello_def AbstractConnection_enqueue_msg_def d2_def Let_def split: if_splits)
  then show ?thesis
    using g d3(2,4) assms(3) by (simp add: state_bits AbstractConnection_on_connection_established_def AbstractConnection_is_active_def
        outgoing_def sending_def conn_out_inv_def)
qed

text \<open>
  C7. A connection is established exactly when both halves of the handshake are done, in either order:
  the peer's hello has arrived, which is answered by one acknowledgement, and the peer has
  acknowledged ours.
\<close>

theorem handshake_needs_both:
  assumes "sending c" and "\<not> established c" and "bit (conn_state c) 1" and "\<not> bit (conn_state c) 2" and "\<not> bit (conn_state c) 3"
    and "ack_message c = Some ack" and "AbstractInternalMessage_rawbytes ack = Inr (raw, ack')"
  shows "\<exists>c1 c2. AbstractConnection_msg_hello full now (\<lambda>_. None) close node_id c = (Inr False, c1)
    \<and> AbstractConnection_msg_hello full now (\<lambda>_. None) close node_id (AbstractConnection_msg_ack c) = (Inr False, c2)
    \<and> \<not> established c1 \<and> \<not> established (AbstractConnection_msg_ack c)
    \<and> established (AbstractConnection_msg_ack c1) \<and> established c2
    \<and> outgoing c1 = outgoing c @ raw \<and> outgoing c2 = outgoing c @ raw"
proof -
  let ?a = "AbstractConnection_msg_ack c"
  have a: "sending ?a" "\<not> established ?a" "bit (conn_state ?a) 1" "ack_message ?a = Some ack" "bit (conn_state ?a) 3"
    "outgoing ?a = outgoing c"
    using assms by (simp_all add: AbstractConnection_msg_ack_def state_bits sending_def conn_out_inv_def outgoing_def)
  obtain c1 where c1: "AbstractConnection_msg_hello full now (\<lambda>_. None) close node_id c = (Inr False, c1)" "\<not> established c1"
    "outgoing c1 = outgoing c @ raw" "conn_state c1 = conn_state c OR 4"
    using msg_hello_spec[OF assms(1-3,6,7)] assms(5) by blast
  obtain c2 where c2: "AbstractConnection_msg_hello full now (\<lambda>_. None) close node_id ?a = (Inr False, c2)" "established c2"
    "outgoing c2 = outgoing c @ raw"
    using msg_hello_spec[OF a(1-4) assms(7), of full now close node_id] a(5,6) by auto
  have "established (AbstractConnection_msg_ack c1)"
    using c1(2,4) assms(3) by (simp add: AbstractConnection_msg_ack_def state_bits AbstractConnection_on_connection_established_def
        AbstractConnection_is_active_def)
  then show ?thesis using c1 c2 a(2) by blast
qed

theorem handshake_needs_both_witness:
  "\<exists>c1. AbstractConnection_msg_hello (\<lambda>_. False) 0 (\<lambda>_. None) AbstractConnection_mark_for_close (Some ''peer'')
      (blank_connection\<lparr>conn_state := 3, ack_message := Some (snd (message_of (AckMessage, [1])))\<rparr>) = (Inr False, c1)
    \<and> \<not> established c1 \<and> established (AbstractConnection_msg_ack c1)"
proof -
  let ?c = "blank_connection\<lparr>conn_state := 3, ack_message := Some (snd (message_of (AckMessage, [1])))\<rparr>"
  have "sending ?c"
    using ob_inv_init[of None None False] by (simp add: sending_def conn_out_inv_def blank_connection_def)
  moreover have "\<not> established ?c" "bit (conn_state ?c) 1" "\<not> bit (conn_state ?c) 2" "\<not> bit (conn_state ?c) 3"
    "ack_message ?c = Some (snd (message_of (AckMessage, [1])))"
    by (simp_all add: blank_connection_def bit_iff_odd)
  ultimately show ?thesis
    using handshake_needs_both[of ?c _ _ _ "\<lambda>_. False" 0 AbstractConnection_mark_for_close "Some ''peer''"]
      rawbytes_message_of[of "(AckMessage, [1])"] by blast
qed

end
