(* ===== verification/Connection_Pool.thy ===== *)
theory Connection_Pool
  imports Basic_Values
begin

text \<open>
  The connection pool of a node, \<open>connections/connection_pool.py\<close>: the tables by file number, address,
  connection type and node id, and the number of connections per address.

  A connection object is a reference, a natural number; a store maps it to the attributes the pool
  reads. Dictionaries are association lists in insertion order. The metrics and the memory
  statistics are left out.
\<close>

subsection \<open>State and operations\<close>

record conn_info =
  ci_file_no :: nat
  ci_peer_ip :: string
  ci_peer_port :: nat
  ci_peer_id :: "string option"
  ci_type :: nat
  ci_network_num :: nat

type_synonym conn_store = "nat \<Rightarrow> conn_info"

abbreviation (input) INITIAL_FILENO :: nat where "INITIAL_FILENO \<equiv> 100"

record ConnectionPool =
  by_fileno :: "nat option list"
  by_ipport :: "((string \<times> nat) \<times> nat) list"
  by_connection_type :: "(nat \<times> nat list) list"
  by_node_id :: "(string \<times> nat) list"
  len_fileno :: nat
  count_conn_by_ip :: "(string \<times> int) list"

definition ConnectionPool_init :: ConnectionPool where
  "ConnectionPool_init =
     \<lparr>by_fileno = replicate INITIAL_FILENO None, by_ipport = [], by_connection_type = [], by_node_id = [],
      len_fileno = INITIAL_FILENO, count_conn_by_ip = []\<rparr>"

text \<open>The loop that makes room for a file number.\<close>

function grow_fileno :: "nat \<Rightarrow> ConnectionPool \<Rightarrow> ConnectionPool" where
  "grow_fileno fileno p =
     (if fileno \<ge> len_fileno p
      then grow_fileno fileno (p\<lparr>by_fileno := by_fileno p @ replicate INITIAL_FILENO None,
                                 len_fileno := len_fileno p + INITIAL_FILENO\<rparr>)
      else p)"
  by pat_completeness auto
termination
  by (relation "measure (\<lambda>(fileno, p). Suc fileno - len_fileno p)") auto

declare grow_fileno.simps [simp del]

text \<open>Reading a missing key of the two default dictionaries.\<close>

definition conns_of_type :: "ConnectionPool \<Rightarrow> nat \<Rightarrow> nat list" where
  "conns_of_type p t = (case map_of (by_connection_type p) t of None \<Rightarrow> [] | Some l \<Rightarrow> l)"

definition conn_count :: "ConnectionPool \<Rightarrow> string \<Rightarrow> int" where
  "conn_count p ip = (case map_of (count_conn_by_ip p) ip of None \<Rightarrow> 0 | Some n \<Rightarrow> n)"

definition ConnectionPool_add :: "conn_store \<Rightarrow> nat \<Rightarrow> string \<Rightarrow> nat \<Rightarrow> nat \<Rightarrow> ConnectionPool \<Rightarrow> ConnectionPool result" where
  "ConnectionPool_add st fileno ip port conn p =
     (if map_of (by_ipport p) (ip, port) \<noteq> None then Inl AssertionError
      else let p1 = grow_fileno fileno p
           in if fileno \<ge> length (by_fileno p1) then Inl IndexError
              else Inr (p1\<lparr>by_fileno := (by_fileno p1)[fileno := Some conn],
                           by_ipport := AList.update (ip, port) conn (by_ipport p1),
                           by_connection_type :=
                             AList.update (ci_type (st conn)) (conns_of_type p1 (ci_type (st conn)) @ [conn]) (by_connection_type p1),
                           count_conn_by_ip := AList.update ip (conn_count p1 ip + 1) (count_conn_by_ip p1)\<rparr>))"

definition ConnectionPool_update_port :: "conn_store \<Rightarrow> nat \<Rightarrow> nat \<Rightarrow> nat \<Rightarrow> ConnectionPool \<Rightarrow> ConnectionPool" where
  "ConnectionPool_update_port st old_port new_port conn p =
     (let ip = ci_peer_ip (st conn);
          table = (if map_of (by_ipport p) (ip, old_port) \<noteq> None then AList.delete (ip, old_port) (by_ipport p) else by_ipport p)
      in p\<lparr>by_ipport := AList.update (ip, new_port) conn table\<rparr>)"

definition ConnectionPool_index_conn_node_id :: "string \<Rightarrow> nat \<Rightarrow> ConnectionPool \<Rightarrow> ConnectionPool" where
  "ConnectionPool_index_conn_node_id node_id conn p = p\<lparr>by_node_id := AList.update node_id conn (by_node_id p)\<rparr>"

definition ConnectionPool_has_connection :: "string option \<Rightarrow> nat option \<Rightarrow> string option \<Rightarrow> ConnectionPool \<Rightarrow> bool" where
  "ConnectionPool_has_connection ip port node_id p =
     (if node_id \<noteq> None \<and> map_of (by_node_id p) (the node_id) \<noteq> None then True
      else if ip = None \<or> port = None then False
      else map_of (by_ipport p) (the ip, the port) \<noteq> None)"

text \<open>The types in the order of the table, each with its connections, when they share a bit with a wanted type.\<close>

definition ConnectionPool_iter_by_connection_types :: "nat list \<Rightarrow> ConnectionPool \<Rightarrow> nat list list" where
  "ConnectionPool_iter_by_connection_types connection_types p =
     map snd (filter (\<lambda>(t, _). list_ex (\<lambda>m. t AND m \<noteq> 0) connection_types) (by_connection_type p))"

definition ConnectionPool_get_by_connection_types :: "nat list \<Rightarrow> ConnectionPool \<Rightarrow> nat list" where
  "ConnectionPool_get_by_connection_types connection_types p =
     concat (ConnectionPool_iter_by_connection_types connection_types p)"

definition ConnectionPool_get_connection_by_network_num :: "conn_store \<Rightarrow> nat \<Rightarrow> ConnectionPool \<Rightarrow> nat list" where
  "ConnectionPool_get_connection_by_network_num st network_num p =
     filter (\<lambda>c. ci_network_num (st c) = network_num)
       (ConnectionPool_get_by_connection_types [CT ''GATEWAY'', CT ''RELAY_PROXY''] p)"

definition ConnectionPool_get_number_of_connections :: "nat \<Rightarrow> ConnectionPool \<Rightarrow> nat" where
  "ConnectionPool_get_number_of_connections connection_type p =
     length (ConnectionPool_get_by_connection_types [connection_type] p)"

definition ConnectionPool_get_by_ipport :: "string \<Rightarrow> nat \<Rightarrow> string option \<Rightarrow> ConnectionPool \<Rightarrow> nat result" where
  "ConnectionPool_get_by_ipport ip port node_id p =
     (case map_of (by_ipport p) (ip, port) of
        Some c \<Rightarrow> Inr c
      | None \<Rightarrow> (case Option.bind node_id (map_of (by_node_id p)) of Some c \<Rightarrow> Inr c | None \<Rightarrow> Inl KeyError))"

definition ConnectionPool_get_by_fileno :: "nat \<Rightarrow> ConnectionPool \<Rightarrow> nat option result" where
  "ConnectionPool_get_by_fileno fileno p =
     (if fileno \<ge> len_fileno p then Inr None
      else if fileno \<ge> length (by_fileno p) then Inl IndexError
      else Inr (by_fileno p ! fileno))"

definition ConnectionPool_get_by_node_id :: "string \<Rightarrow> ConnectionPool \<Rightarrow> nat result" where
  "ConnectionPool_get_by_node_id node_id p = (case map_of (by_node_id p) node_id of Some c \<Rightarrow> Inr c | None \<Rightarrow> Inl KeyError)"

text \<open>
  Deleting a connection. Reading the counter of an address without connections creates it, so the
  counter then becomes \<open>-1\<close>. An empty peer id counts as none.
\<close>

definition delete_from_type :: "conn_store \<Rightarrow> nat \<Rightarrow> ConnectionPool \<Rightarrow> ConnectionPool result" where
  "delete_from_type st conn p =
     (case map_of (by_connection_type p) (ci_type (st conn)) of
        None \<Rightarrow> Inr p
      | Some l \<Rightarrow>
          if length l = 1 then Inr (p\<lparr>by_connection_type := AList.delete (ci_type (st conn)) (by_connection_type p)\<rparr>)
          else if conn \<notin> set l then Inl ValueError
          else Inr (p\<lparr>by_connection_type := AList.update (ci_type (st conn)) (remove1 conn l) (by_connection_type p)\<rparr>))"

definition ConnectionPool_delete :: "conn_store \<Rightarrow> nat \<Rightarrow> ConnectionPool \<Rightarrow> ConnectionPool result" where
  "ConnectionPool_delete st conn p =
     (let i = st conn; ip = ci_peer_ip i; ipport = (ip, ci_peer_port i)
      in if ci_file_no i \<ge> length (by_fileno p) then Inl IndexError
         else let p1 = p\<lparr>by_fileno := (by_fileno p)[ci_file_no i := None]\<rparr>;
                  p2 = (case map_of (by_ipport p1) ipport of
                          Some c \<Rightarrow> if ci_file_no (st c) = ci_file_no i then p1\<lparr>by_ipport := AList.delete ipport (by_ipport p1)\<rparr> else p1
                        | None \<Rightarrow> p1)
              in rbind (delete_from_type st conn p2) (\<lambda>p3.
                 let p4 = (if conn_count p3 ip = 1 then p3\<lparr>count_conn_by_ip := AList.delete ip (count_conn_by_ip p3)\<rparr>
                           else p3\<lparr>count_conn_by_ip := AList.update ip (conn_count p3 ip - 1) (count_conn_by_ip p3)\<rparr>)
                 in Inr (case ci_peer_id i of
                           Some pid \<Rightarrow> if pid \<noteq> [] \<and> map_of (by_node_id p4) pid \<noteq> None
                                      then p4\<lparr>by_node_id := AList.delete pid (by_node_id p4)\<rparr> else p4
                         | None \<Rightarrow> p4)))"

text \<open>\<open>update_connection_type\<close> also changes the attribute of the connection: the store is part of the result.\<close>

definition ConnectionPool_update_connection_type ::
    "nat \<Rightarrow> nat \<Rightarrow> conn_store \<times> ConnectionPool \<Rightarrow> (conn_store \<times> ConnectionPool) result" where
  "ConnectionPool_update_connection_type conn connection_type sp =
     rbind (ConnectionPool_delete (fst sp) conn (snd sp)) (\<lambda>p1.
       let st1 = (fst sp)(conn := (fst sp conn)\<lparr>ci_type := connection_type\<rparr>); i = st1 conn
       in rbind (ConnectionPool_add st1 (ci_file_no i) (ci_peer_ip i) (ci_peer_port i) conn p1) (\<lambda>p2.
            case ci_peer_id i of
              None \<Rightarrow> Inl AssertionError
            | Some pid \<Rightarrow> Inr (st1, ConnectionPool_index_conn_node_id pid conn p2)))"

definition ConnectionPool_items :: "ConnectionPool \<Rightarrow> (nat \<times> nat) list" where
  "ConnectionPool_items p = List.map_filter (\<lambda>(fileno, c). map_option (Pair fileno) c) (List.enumerate 0 (by_fileno p))"

definition ConnectionPool_iter :: "ConnectionPool \<Rightarrow> nat list" where
  "ConnectionPool_iter p = map snd (by_ipport p)"

definition ConnectionPool_len :: "ConnectionPool \<Rightarrow> nat" where
  "ConnectionPool_len p = length (by_ipport p)"

subsection \<open>The invariant\<close>

text \<open>
  The tables describe one set \<open>L\<close> of live connections: each is found under its file number and its
  address, listed once under its type and counted once for its address, and nothing else is in the tables.
\<close>

abbreviation addr_of :: "conn_store \<Rightarrow> nat \<Rightarrow> string \<times> nat" where
  "addr_of st c \<equiv> (ci_peer_ip (st c), ci_peer_port (st c))"

text \<open>\<open>indexes m key L\<close>: the table \<open>m\<close> finds exactly the members of \<open>L\<close>, each under its key.\<close>

definition indexes :: "('k \<Rightarrow> 'v option) \<Rightarrow> ('v \<Rightarrow> 'k) \<Rightarrow> 'v set \<Rightarrow> bool" where
  "indexes m key L \<longleftrightarrow> (\<forall>k v. m k = Some v \<longleftrightarrow> v \<in> L \<and> key v = k)"

lemma indexes_empty: "indexes (\<lambda>_. None) key {}"
  by (simp add: indexes_def)

lemma indexes_lookup: "indexes m key L \<Longrightarrow> v \<in> L \<Longrightarrow> m (key v) = Some v"
  by (simp add: indexes_def)

lemma indexes_free:
  assumes "indexes m key L"
  shows "m k = None \<longleftrightarrow> k \<notin> key ` L"
proof
  assume "m k = None"
  then show "k \<notin> key ` L" using indexes_lookup[OF assms] by fastforce
next
  assume "k \<notin> key ` L"
  then show "m k = None" using assms unfolding indexes_def by (cases "m k") auto
qed

lemma indexes_inj: "indexes m key L \<Longrightarrow> inj_on key L"
  using indexes_lookup[of m key L] by (intro inj_onI) (metis option.inject)

lemma indexes_insert:
  assumes "indexes m key L" and "key c \<notin> key ` L"
  shows "indexes (m(key c \<mapsto> c)) key (insert c L)"
  unfolding indexes_def
proof (intro allI)
  fix k v
  have "v \<notin> L" if "key v = key c" using assms(2) that by (metis image_eqI)
  then show "(m(key c \<mapsto> c)) k = Some v \<longleftrightarrow> v \<in> insert c L \<and> key v = k"
    using assms(1) by (cases "k = key c") (auto simp: indexes_def)
qed

lemma indexes_delete:
  assumes "indexes m key L" and "c \<in> L"
  shows "indexes (m(key c := None)) key (L - {c})"
  unfolding indexes_def
proof (intro allI)
  fix k v
  have "v = c" if "v \<in> L" "key v = key c" using indexes_inj[OF assms(1)] that assms(2) by (auto dest: inj_onD)
  then show "(m(key c := None)) k = Some v \<longleftrightarrow> v \<in> L - {c} \<and> key v = k"
    using assms by (cases "k = key c") (auto simp: indexes_def)
qed

definition file_at :: "nat option list \<Rightarrow> nat \<Rightarrow> nat option" where
  "file_at files f = (if f < length files then files ! f else None)"

lemma file_at_simps:
  "f < length files \<Longrightarrow> file_at (files[f := x]) = (file_at files)(f := x)"
  "file_at (files @ replicate k None) = file_at files" "file_at (replicate k None) = (\<lambda>_. None)"
  by (auto simp: file_at_def nth_append fun_eq_iff)

definition types_ok :: "conn_store \<Rightarrow> nat set \<Rightarrow> (nat \<times> nat list) list \<Rightarrow> bool" where
  "types_ok st L table \<longleftrightarrow> distinct (map fst table) \<and>
     (\<forall>t. map_of table t = None \<longrightarrow> (\<forall>c \<in> L. ci_type (st c) \<noteq> t)) \<and>
     (\<forall>t l. map_of table t = Some l \<longrightarrow> l \<noteq> [] \<and> distinct l \<and> set l = {c \<in> L. ci_type (st c) = t})"

definition counts_ok :: "conn_store \<Rightarrow> nat set \<Rightarrow> (string \<times> int) list \<Rightarrow> bool" where
  "counts_ok st L table \<longleftrightarrow> distinct (map fst table) \<and>
     (\<forall>ip. map_of table ip = (let n = card {c \<in> L. ci_peer_ip (st c) = ip} in if n = 0 then None else Some (int n)))"

definition pool_inv :: "conn_store \<Rightarrow> nat set \<Rightarrow> ConnectionPool \<Rightarrow> bool" where
  "pool_inv st L p \<longleftrightarrow> finite L \<and> len_fileno p = length (by_fileno p) \<and> indexes (file_at (by_fileno p)) (\<lambda>c. ci_file_no (st c)) L
     \<and> distinct (map fst (by_ipport p)) \<and> indexes (map_of (by_ipport p)) (addr_of st) L \<and> types_ok st L (by_connection_type p) \<and> counts_ok st L (count_conn_by_ip p)"

lemma pool_inv_init: "pool_inv st {} ConnectionPool_init"
  by (simp add: pool_inv_def ConnectionPool_init_def file_at_simps(3) indexes_empty types_ok_def counts_ok_def
      indexes_empty[unfolded fun_eq_iff] del: replicate.simps)

lemma grow_fileno_spec:
  "\<exists>k. grow_fileno fileno p = p\<lparr>by_fileno := by_fileno p @ replicate k None, len_fileno := len_fileno p + k\<rparr>
    \<and> fileno < len_fileno p + k"
proof (induction fileno p rule: grow_fileno.induct)
  case (1 fileno p)
  show ?case
  proof (cases "fileno \<ge> len_fileno p")
    case True
    have "grow_fileno fileno p = grow_fileno fileno (p\<lparr>by_fileno := by_fileno p @ replicate 100 None, len_fileno := len_fileno p + 100\<rparr>)"
      using True by (subst grow_fileno.simps) simp
    then obtain k where "grow_fileno fileno p
        = p\<lparr>by_fileno := by_fileno p @ replicate 100 None @ replicate k None, len_fileno := len_fileno p + 100 + k\<rparr>"
      "fileno < len_fileno p + 100 + k"
      using 1[OF True] by auto
    then show ?thesis by (intro exI[of _ "100 + k"]) (simp add: replicate_add)
  next
    case False
    then show ?thesis by (subst grow_fileno.simps) (auto intro: exI[of _ 0])
  qed
qed

lemma types_ok_add:
  assumes "types_ok st L table" and "c \<notin> L"
  shows "types_ok st (insert c L) (AList.update (ci_type (st c)) ((case map_of table (ci_type (st c)) of None \<Rightarrow> [] | Some l \<Rightarrow> l) @ [c]) table)"
proof -
  let ?t = "ci_type (st c)"
  define l where "l = (case map_of table ?t of None \<Rightarrow> [] | Some l \<Rightarrow> l)"
  have l: "distinct l \<and> set l = {d \<in> L. ci_type (st d) = ?t}"
  proof (cases "map_of table ?t")
    case None
    then have "\<forall>d \<in> L. ci_type (st d) \<noteq> ?t" using assms(1) unfolding types_ok_def by blast
    then show ?thesis by (auto simp: l_def None)
  next
    case (Some l')
    then have "distinct l' \<and> set l' = {d \<in> L. ci_type (st d) = ?t}" using assms(1) unfolding types_ok_def by blast
    then show ?thesis by (simp add: l_def Some)
  qed
  have "distinct (map fst (AList.update ?t (l @ [c]) table))" using assms(1) by (simp add: types_ok_def)
  moreover have "\<forall>d \<in> insert c L. ci_type (st d) \<noteq> t" if "map_of (AList.update ?t (l @ [c]) table) t = None" for t
  proof -
    have "t \<noteq> ?t \<and> map_of table t = None" using that by (cases "t = ?t") simp_all
    then show ?thesis using assms(1) unfolding types_ok_def by blast
  qed
  moreover have "l' \<noteq> [] \<and> distinct l' \<and> set l' = {d \<in> insert c L. ci_type (st d) = t}"
    if "map_of (AList.update ?t (l @ [c]) table) t = Some l'" for t l'
  proof (cases "t = ?t")
    case True
    then have "l' = l @ [c]" using that by simp
    then show ?thesis using l assms(2) True by auto
  next
    case False
    then have "l' \<noteq> [] \<and> distinct l' \<and> set l' = {d \<in> L. ci_type (st d) = t}"
      using that assms(1) unfolding types_ok_def by simp
    then show ?thesis using False by auto
  qed
  ultimately show ?thesis unfolding types_ok_def l_def by blast
qed

lemma counts_ok_add:
  assumes "counts_ok st L table" and "c \<notin> L" and "finite L"
  shows "counts_ok st (insert c L) (AList.update (ci_peer_ip (st c))
    ((case map_of table (ci_peer_ip (st c)) of None \<Rightarrow> 0 | Some n \<Rightarrow> n) + 1) table)"
proof -
  have "{d \<in> insert c L. ci_peer_ip (st d) = ip} = (if ci_peer_ip (st c) = ip then insert c {d \<in> L. ci_peer_ip (st d) = ip} else {d \<in> L. ci_peer_ip (st d) = ip})" for ip
    by auto
  then show ?thesis using assms by (auto simp: counts_ok_def Let_def split: if_splits)
qed

lemma add_spec:
  assumes "pool_inv st L p" and "ci_file_no (st c) \<notin> (\<lambda>c. ci_file_no (st c)) ` L" and "addr_of st c \<notin> addr_of st ` L"
  shows "\<exists>p'. ConnectionPool_add st (ci_file_no (st c)) (ci_peer_ip (st c)) (ci_peer_port (st c)) c p = Inr p'
    \<and> pool_inv st (insert c L) p' \<and> by_node_id p' = by_node_id p"
proof -
  note inv = assms(1)[unfolded pool_inv_def]
  have new: "c \<notin> L" using assms(2) by auto
  obtain k where g: "grow_fileno (ci_file_no (st c)) p = p\<lparr>by_fileno := by_fileno p @ replicate k None, len_fileno := len_fileno p + k\<rparr>"
    "ci_file_no (st c) < len_fileno p + k"
    using grow_fileno_spec by blast
  have free: "map_of (by_ipport p) (addr_of st c) = None"
    using inv assms(3) indexes_free by metis
  have len: "ci_file_no (st c) < length (by_fileno p @ replicate k None)" using g(2) inv by simp
  have f: "indexes (file_at ((by_fileno p @ replicate k None)[ci_file_no (st c) := Some c])) (\<lambda>c. ci_file_no (st c)) (insert c L)"
    unfolding file_at_simps(1)[OF len] file_at_simps(2) using inv indexes_insert[OF _ assms(2)] by simp
  have a: "indexes (map_of (AList.update (addr_of st c) c (by_ipport p))) (addr_of st) (insert c L)"
    using inv indexes_insert[OF _ assms(3)] by simp
  show ?thesis
    using len inv free f a types_ok_add[OF _ new] counts_ok_add[OF _ new]
    by (simp add: ConnectionPool_add_def g(1) Let_def pool_inv_def conns_of_type_def conn_count_def)
qed

lemma types_ok_delete:
  assumes "types_ok st L (by_connection_type p)" and "c \<in> L"
  shows "\<exists>p'. delete_from_type st c p = Inr p' \<and> types_ok st (L - {c}) (by_connection_type p')
    \<and> p' = p\<lparr>by_connection_type := by_connection_type p'\<rparr>"
proof -
  let ?t = "ci_type (st c)" and ?table = "by_connection_type p"
  obtain l where l: "map_of ?table ?t = Some l" "distinct l" "set l = {d \<in> L. ci_type (st d) = ?t}"
    using assms by (cases "map_of ?table ?t") (auto simp: types_ok_def)
  have c: "c \<in> set l" using l(3) assms(2) by simp
  have others: "{d \<in> L - {c}. ci_type (st d) = t} = {d \<in> L. ci_type (st d) = t}" if "t \<noteq> ?t" for t using that by auto
  have same: "{d \<in> L - {c}. ci_type (st d) = ?t} = set l - {c}" using l(3) by auto
  show ?thesis
  proof (cases "length l = 1")
    case True
    then have "l = [c]" using c by (cases l) auto
    then have "types_ok st (L - {c}) (AList.delete ?t ?table)"
      using assms(1) same others unfolding types_ok_def by auto
    then show ?thesis using True l(1) by (simp add: delete_from_type_def)
  next
    case False
    have "remove1 c l \<noteq> []" using False c by (cases l) auto
    moreover have "set (remove1 c l) = set l - {c}" using l(2) by simp
    ultimately have "types_ok st (L - {c}) (AList.update ?t (remove1 c l) ?table)"
      using assms(1) l(2) same others unfolding types_ok_def by auto
    then show ?thesis using False c l(1) by (simp add: delete_from_type_def)
  qed
qed

lemma counts_ok_delete:
  assumes "counts_ok st L table" and "c \<in> L" and "finite L"
  defines "n \<equiv> (case map_of table (ci_peer_ip (st c)) of None \<Rightarrow> 0 | Some n \<Rightarrow> n)"
  shows "counts_ok st (L - {c}) (if n = 1 then AList.delete (ci_peer_ip (st c)) table
    else AList.update (ci_peer_ip (st c)) (n - 1) table)"
proof -
  let ?ip = "ci_peer_ip (st c)"
  have c: "c \<in> {d \<in> L. ci_peer_ip (st d) = ?ip}" "finite {d \<in> L. ci_peer_ip (st d) = ?ip}" using assms(2,3) by auto
  then have pos: "card {d \<in> L. ci_peer_ip (st d) = ?ip} > 0" by (simp add: card_gt_0_iff) auto
  then have n: "n = int (card {d \<in> L. ci_peer_ip (st d) = ?ip})" using assms(1) by (simp add: n_def counts_ok_def Let_def)
  have "{d \<in> L - {c}. ci_peer_ip (st d) = ?ip} = {d \<in> L. ci_peer_ip (st d) = ?ip} - {c}" by auto
  then have same: "card {d \<in> L - {c}. ci_peer_ip (st d) = ?ip} = card {d \<in> L. ci_peer_ip (st d) = ?ip} - 1" using c by simp
  have others: "{d \<in> L - {c}. ci_peer_ip (st d) = ip} = {d \<in> L. ci_peer_ip (st d) = ip}" if "ip \<noteq> ?ip" for ip using that by auto
  have d: "distinct (map fst table)" and m: "map_of table ip = (let n = card {d \<in> L. ci_peer_ip (st d) = ip} in if n = 0 then None else Some (int n))" for ip
    using assms(1) by (simp_all add: counts_ok_def)
  show ?thesis unfolding counts_ok_def
  proof (intro conjI allI)
    show "distinct (map fst (if n = 1 then AList.delete ?ip table else AList.update ?ip (n - 1) table))" using d by simp
    fix ip
    show "map_of (if n = 1 then AList.delete ?ip table else AList.update ?ip (n - 1) table) ip
        = (let n = card {d \<in> L - {c}. ci_peer_ip (st d) = ip} in if n = 0 then None else Some (int n))"
    proof (cases "ip = ?ip")
      case True
      then show ?thesis using n pos same by (simp add: Let_def)
    next
      case False
      then show ?thesis using m[of ip] others[OF False] by (simp add: Let_def)
    qed
  qed
qed

lemma pool_addrs: "pool_inv st L p \<Longrightarrow> indexes (map_of (by_ipport p)) (addr_of st) L"
  by (simp add: pool_inv_def)

lemma delete_spec:
  assumes "pool_inv st L p" and "c \<in> L"
  shows "\<exists>p'. ConnectionPool_delete st c p = Inr p' \<and> pool_inv st (L - {c}) p'
    \<and> by_node_id p' = (case ci_peer_id (st c) of Some pid \<Rightarrow>
        if pid \<noteq> [] \<and> map_of (by_node_id p) pid \<noteq> None then AList.delete pid (by_node_id p) else by_node_id p | None \<Rightarrow> by_node_id p)"
proof -
  let ?f = "ci_file_no (st c)" and ?ip = "ci_peer_ip (st c)"
  note inv = assms(1)[unfolded pool_inv_def]
  have "file_at (by_fileno p) ?f = Some c" using inv indexes_lookup[OF _ assms(2)] by metis
  then have len: "?f < length (by_fileno p)" by (simp add: file_at_def split: if_splits)
  have at: "map_of (by_ipport p) (addr_of st c) = Some c" using inv indexes_lookup[OF _ assms(2)] by metis
  let ?p2 = "p\<lparr>by_fileno := (by_fileno p)[?f := None], by_ipport := AList.delete (addr_of st c) (by_ipport p)\<rparr>"
  obtain types where t: "delete_from_type st c ?p2 = Inr (?p2\<lparr>by_connection_type := types\<rparr>)" "types_ok st (L - {c}) types"
    using types_ok_delete[of st L ?p2 c] inv assms(2) by fastforce
  let ?n = "conn_count p ?ip"
  let ?counts = "if ?n = 1 then AList.delete ?ip (count_conn_by_ip p) else AList.update ?ip (?n - 1) (count_conn_by_ip p)"
  let ?nodes = "case ci_peer_id (st c) of Some pid \<Rightarrow>
        if pid \<noteq> [] \<and> map_of (by_node_id p) pid \<noteq> None then AList.delete pid (by_node_id p) else by_node_id p | None \<Rightarrow> by_node_id p"
  let ?p' = "p\<lparr>by_fileno := (by_fileno p)[?f := None], by_ipport := AList.delete (addr_of st c) (by_ipport p),
               by_connection_type := types, count_conn_by_ip := ?counts, by_node_id := ?nodes\<rparr>"
  have cnt: "conn_count (?p2\<lparr>by_connection_type := types\<rparr>) ?ip = ?n" by (simp add: conn_count_def)
  have "ConnectionPool_delete st c p = Inr ?p'"
    using len at t(1) cnt by (auto simp: ConnectionPool_delete_def Let_def split: option.splits)
  moreover have "indexes (file_at ((by_fileno p)[?f := None])) (\<lambda>c. ci_file_no (st c)) (L - {c})"
    unfolding file_at_simps(1)[OF len] using inv indexes_delete[OF _ assms(2)] by metis
  moreover have "indexes (map_of (AList.delete (addr_of st c) (by_ipport p))) (addr_of st) (L - {c})"
    using indexes_delete[OF pool_addrs[OF assms(1)] assms(2)] by simp
  moreover have "counts_ok st (L - {c}) ?counts"
    unfolding conn_count_def using inv assms(2) by (intro counts_ok_delete) simp_all
  ultimately show ?thesis
    using t(2) inv by (intro exI[of _ ?p'] conjI) (simp_all add: pool_inv_def)
qed

text \<open>
  The life of a pool: connections with fresh file numbers and addresses are added, live ones get
  their node id indexed and are deleted, possibly changing their type in between.
\<close>

inductive pool_run :: "conn_store \<Rightarrow> nat set \<Rightarrow> ConnectionPool \<Rightarrow> bool" for st where
  start: "pool_run st {} ConnectionPool_init"
| added: "pool_run st L p \<Longrightarrow> ci_file_no (st c) \<notin> (\<lambda>c. ci_file_no (st c)) ` L \<Longrightarrow>
    ConnectionPool_add st (ci_file_no (st c)) (ci_peer_ip (st c)) (ci_peer_port (st c)) c p = Inr p' \<Longrightarrow> pool_run st (insert c L) p'"
| indexed: "pool_run st L p \<Longrightarrow> c \<in> L \<Longrightarrow> ci_peer_id (st c) = Some pid \<Longrightarrow> pid \<noteq> [] \<Longrightarrow>
    pool_run st L (ConnectionPool_index_conn_node_id pid c p)"
| deleted: "pool_run st L p \<Longrightarrow> c \<in> L \<Longrightarrow> ConnectionPool_delete st c p = Inr p' \<Longrightarrow> pool_run st (L - {c}) p'"

inductive_cases pool_run_addedE: "pool_run st (insert c L) p"

definition nodes_ok :: "conn_store \<Rightarrow> nat set \<Rightarrow> ConnectionPool \<Rightarrow> bool" where
  "nodes_ok st L p \<longleftrightarrow> (\<forall>pid c. map_of (by_node_id p) pid = Some c \<longrightarrow> c \<in> L \<and> ci_peer_id (st c) = Some pid \<and> pid \<noteq> [])"

lemma pool_run_inv: "pool_run st L p \<Longrightarrow> pool_inv st L p \<and> nodes_ok st L p"
proof (induction rule: pool_run.induct)
  case start
  show ?case using pool_inv_init by (simp add: nodes_ok_def ConnectionPool_init_def)
next
  case (added L p c p')
  have "map_of (by_ipport p) (addr_of st c) = None" using added.hyps(3) by (simp add: ConnectionPool_add_def split: if_splits)
  then have "addr_of st c \<notin> addr_of st ` L" using indexes_free[OF pool_addrs[OF conjunct1[OF added.IH]]] by simp
  from add_spec[OF conjunct1[OF added.IH] added.hyps(2) this] show ?case
    using added.IH added.hyps(3) by (auto simp: nodes_ok_def)
next
  case (indexed L p c pid)
  then show ?case by (auto simp: ConnectionPool_index_conn_node_id_def pool_inv_def nodes_ok_def)
next
  case (deleted L p c p')
  from delete_spec[OF conjunct1[OF deleted.IH] deleted.hyps(2)] obtain p1 where
    p1: "ConnectionPool_delete st c p = Inr p1" "pool_inv st (L - {c}) p1"
    "by_node_id p1 = (case ci_peer_id (st c) of Some pid \<Rightarrow>
        if pid \<noteq> [] \<and> map_of (by_node_id p) pid \<noteq> None then AList.delete pid (by_node_id p) else by_node_id p | None \<Rightarrow> by_node_id p)"
    by blast
  have "d \<in> L - {c} \<and> ci_peer_id (st d) = Some pid \<and> pid \<noteq> []" if "map_of (by_node_id p1) pid = Some d" for pid d
  proof -
    have old: "map_of (by_node_id p) pid = Some d" and "ci_peer_id (st c) \<noteq> Some pid \<or> pid = []"
      using that p1(3) by (auto split: option.splits if_splits)
    then show ?thesis using deleted.IH by (auto simp: nodes_ok_def)
  qed
  then show ?case using p1(1,2) deleted.hyps(3) by (simp add: nodes_ok_def)
qed

lemma distinct_values_length:
  assumes "distinct (map fst table)" and "indexes (map_of table) key L"
  shows "length table = card L \<and> distinct (map snd table) \<and> set (map snd table) = L"
proof -
  have s: "set (map snd table) = L"
    using assms by (auto simp: indexes_def) (metis map_of_SomeD snd_conv image_eqI)
  have "inj_on snd (set table)"
    using assms by (auto simp: inj_on_def indexes_def) 
  then have "distinct (map snd table)" using assms(1) by (simp add: distinct_map)
  then show ?thesis using s by (metis distinct_card length_map)
qed

lemma types_ok_lookup:
  assumes "types_ok st L (by_connection_type p)"
  shows "distinct (conns_of_type p t) \<and> set (conns_of_type p t) = {c \<in> L. ci_type (st c) = t}"
proof (cases "map_of (by_connection_type p) t")
  case None
  then have "\<forall>d \<in> L. ci_type (st d) \<noteq> t" using assms unfolding types_ok_def by blast
  then show ?thesis by (auto simp: conns_of_type_def None)
next
  case (Some l)
  then show ?thesis using assms unfolding types_ok_def conns_of_type_def by simp
qed

text \<open>
  C11. Whatever has been added, indexed and deleted, the tables agree about which connections are live:
  lookups by file number and by address find exactly the live connection there, iteration over the
  pool and over all types lists each live connection once, the counter of an address is the number
  of its connections, and a node id leads to a live connection of that peer.
\<close>

theorem pool_tables_agree:
  assumes "pool_run st L p"
  shows "(\<forall>f. \<exists>r. ConnectionPool_get_by_fileno f p = Inr r \<and> (\<forall>c. r = Some c \<longleftrightarrow> c \<in> L \<and> ci_file_no (st c) = f))
    \<and> (\<forall>ip port c. ConnectionPool_get_by_ipport ip port None p = Inr c \<longleftrightarrow> c \<in> L \<and> addr_of st c = (ip, port))
    \<and> (\<forall>ip port. ConnectionPool_has_connection (Some ip) (Some port) None p \<longleftrightarrow> (ip, port) \<in> addr_of st ` L)
    \<and> distinct (ConnectionPool_iter p) \<and> set (ConnectionPool_iter p) = L \<and> ConnectionPool_len p = card L
    \<and> (\<forall>ip. conn_count p ip = int (card {c \<in> L. ci_peer_ip (st c) = ip}))
    \<and> (\<forall>t. distinct (conns_of_type p t) \<and> set (conns_of_type p t) = {c \<in> L. ci_type (st c) = t})
    \<and> (\<forall>pid c. ConnectionPool_get_by_node_id pid p = Inr c \<longrightarrow> c \<in> L \<and> ci_peer_id (st c) = Some pid)"
proof -
  have inv: "pool_inv st L p" and nodes: "nodes_ok st L p" using pool_run_inv[OF assms] by simp_all
  have fi: "indexes (file_at (by_fileno p)) (\<lambda>c. ci_file_no (st c)) L" and len: "len_fileno p = length (by_fileno p)"
    and d: "distinct (map fst (by_ipport p))" and t: "types_ok st L (by_connection_type p)" and n: "counts_ok st L (count_conn_by_ip p)"
    using inv by (simp_all add: pool_inv_def)
  note ai = pool_addrs[OF inv]
  have "ConnectionPool_get_by_fileno f p = Inr (file_at (by_fileno p) f)" for f
    by (simp add: ConnectionPool_get_by_fileno_def file_at_def len)
  moreover have "ConnectionPool_get_by_ipport ip port None p = Inr c \<longleftrightarrow> c \<in> L \<and> addr_of st c = (ip, port)" for ip port c
  proof -
    have "ConnectionPool_get_by_ipport ip port None p = Inr c \<longleftrightarrow> map_of (by_ipport p) (ip, port) = Some c"
      by (simp add: ConnectionPool_get_by_ipport_def split: option.split)
    then show ?thesis using ai unfolding indexes_def by metis
  qed
  moreover have "ConnectionPool_has_connection (Some ip) (Some port) None p \<longleftrightarrow> (ip, port) \<in> addr_of st ` L" for ip port
    using indexes_free[OF ai, of "(ip, port)"] by (simp add: ConnectionPool_has_connection_def)
  moreover have "distinct (ConnectionPool_iter p) \<and> set (ConnectionPool_iter p) = L \<and> ConnectionPool_len p = card L"
    using distinct_values_length[OF d ai] by (simp add: ConnectionPool_iter_def ConnectionPool_len_def)
  moreover have "conn_count p ip = int (card {c \<in> L. ci_peer_ip (st c) = ip})" for ip
    using n by (simp add: counts_ok_def conn_count_def Let_def)
  moreover have "distinct (conns_of_type p ty) \<and> set (conns_of_type p ty) = {c \<in> L. ci_type (st c) = ty}" for ty
    by (rule types_ok_lookup[OF t])
  moreover have "c \<in> L \<and> ci_peer_id (st c) = Some pid" if "ConnectionPool_get_by_node_id pid p = Inr c" for pid c
    using nodes that by (auto simp: nodes_ok_def ConnectionPool_get_by_node_id_def split: option.splits)
  moreover have "\<exists>r. Inr (file_at (by_fileno p) f) = Inr r \<and> (\<forall>c. r = Some c \<longleftrightarrow> c \<in> L \<and> ci_file_no (st c) = f)" for f
    using fi unfolding indexes_def by simp
  ultimately show ?thesis by (simp only:) blast
qed

text \<open>
  No operation of such a run fails: a live connection can always be deleted and a new one added,
  unless its address is taken, which fails the assertion of \<open>add\<close>.
\<close>

theorem pool_operations_total:
  assumes "pool_run st L p"
  shows "(\<forall>c \<in> L. \<exists>p'. ConnectionPool_delete st c p = Inr p')
    \<and> (\<forall>c. ci_file_no (st c) \<notin> (\<lambda>c. ci_file_no (st c)) ` L \<longrightarrow>
         (if addr_of st c \<in> addr_of st ` L
          then ConnectionPool_add st (ci_file_no (st c)) (ci_peer_ip (st c)) (ci_peer_port (st c)) c p = Inl AssertionError
          else \<exists>p'. ConnectionPool_add st (ci_file_no (st c)) (ci_peer_ip (st c)) (ci_peer_port (st c)) c p = Inr p'))"
proof -
  have inv: "pool_inv st L p" using pool_run_inv[OF assms] by simp
  have "ConnectionPool_add st (ci_file_no (st c)) (ci_peer_ip (st c)) (ci_peer_port (st c)) c p = Inl AssertionError"
    if "addr_of st c \<in> addr_of st ` L" for c
    using indexes_free[OF pool_addrs[OF inv], of "addr_of st c"] that by (simp add: ConnectionPool_add_def)
  then show ?thesis using add_spec[OF inv] delete_spec[OF inv] by (simp only: if_bool_eq_conj) blast
qed

text \<open>
  Deleting a connection forgets its node id even when the id is indexed for another live connection
  of the same peer, which is then no longer found by its id.
\<close>

theorem delete_forgets_other_peer:
  assumes "pool_run st L p" and "c \<in> L" and "d \<in> L" and "c \<noteq> d"
    and "ci_peer_id (st c) = Some pid" and "ci_peer_id (st d) = Some pid" and "pid \<noteq> []"
  shows "\<exists>p'. ConnectionPool_delete st c (ConnectionPool_index_conn_node_id pid d p) = Inr p'
    \<and> pool_run st (L - {c}) p' \<and> d \<in> L - {c} \<and> ConnectionPool_get_by_node_id pid p' = Inl KeyError"
proof -
  let ?p = "ConnectionPool_index_conn_node_id pid d p"
  have run: "pool_run st L ?p" by (rule indexed[OF assms(1,3,6,7)])
  then obtain p' where p': "ConnectionPool_delete st c ?p = Inr p'" "by_node_id p' = AList.delete pid (by_node_id ?p)"
    using delete_spec[of st L ?p c] pool_run_inv[OF run] assms(2,5,7)
    by (auto simp: ConnectionPool_index_conn_node_id_def split: if_splits)
  then show ?thesis
    using deleted[OF run assms(2) p'(1)] assms(3,4) by (auto simp: ConnectionPool_get_by_node_id_def)
qed

subsection \<open>Connections by type\<close>

lemma types_ok_entry:
  "types_ok st L table \<Longrightarrow> (t, l) \<in> set table \<Longrightarrow> distinct l \<and> set l = {c \<in> L. ci_type (st c) = t}"
  unfolding types_ok_def by (metis map_of_is_SomeI)

lemma distinct_concat_types:
  assumes "types_ok st L table" and "distinct (map fst sub)" and "set sub \<subseteq> set table"
  shows "distinct (concat (map snd sub)) \<and> set (concat (map snd sub)) = {c \<in> L. ci_type (st c) \<in> fst ` set sub}"
  using assms(2,3)
proof (induction sub)
  case (Cons e sub)
  obtain t l where e: "e = (t, l)" by (cases e)
  have l: "distinct l" "set l = {c \<in> L. ci_type (st c) = t}" using types_ok_entry[OF assms(1)] Cons.prems e by auto
  have "t \<notin> fst ` set sub" using Cons.prems e by simp
  then show ?case using Cons l e by auto
qed simp

text \<open>Selecting connections by types lists exactly the live ones whose type shares a bit with one of them, once each.\<close>

theorem get_by_types_exact:
  assumes "pool_run st L p"
  shows "distinct (ConnectionPool_get_by_connection_types types p)
    \<and> set (ConnectionPool_get_by_connection_types types p) = {c \<in> L. \<exists>m \<in> set types. ci_type (st c) AND m \<noteq> 0}"
proof -
  let ?P = "\<lambda>t. \<exists>m \<in> set types. t AND m \<noteq> (0 :: nat)" and ?table = "by_connection_type p"
  let ?sub = "filter (\<lambda>(t, _). list_ex (\<lambda>m. t AND m \<noteq> 0) types) ?table"
  have t: "types_ok st L ?table" using pool_run_inv[OF assms] by (simp add: pool_inv_def)
  have d: "distinct (map fst ?table)" using t by (simp add: types_ok_def)
  have "distinct (map fst ?sub)" using d by (simp add: distinct_map inj_on_def)
  note s = distinct_concat_types[OF t this filter_is_subset]
  have "ci_type (st c) \<in> fst ` set ?table" if "c \<in> L" for c
    using t that unfolding types_ok_def by (metis map_of_eq_None_iff)
  then have "{c \<in> L. ci_type (st c) \<in> fst ` set ?sub} = {c \<in> L. ?P (ci_type (st c))}"
    by (force simp: list_ex_iff)
  then show ?thesis using s by (simp add: ConnectionPool_get_by_connection_types_def ConnectionPool_iter_by_connection_types_def)
qed

text \<open>
  Changing the type of a connection keeps the set of live connections and all tables in order, for
  the changed store, and indexes the peer.
\<close>

lemma store_cong:
  assumes "\<And>d. d \<in> L \<Longrightarrow> st' d = st d"
  shows "indexes m (\<lambda>c. g (st' c)) L = indexes m (\<lambda>c. g (st c)) L" "types_ok st' L types = types_ok st L types"
    "counts_ok st' L counts = counts_ok st L counts"
proof -
  show "indexes m (\<lambda>c. g (st' c)) L = indexes m (\<lambda>c. g (st c)) L" unfolding indexes_def using assms by auto
  have n: "{c \<in> L. f (st' c) = k} = {c \<in> L. f (st c) = k}" for f :: "conn_info \<Rightarrow> nat" and k using assms by auto
  have s: "{c \<in> L. f (st' c) = k} = {c \<in> L. f (st c) = k}" for f :: "conn_info \<Rightarrow> string" and k using assms by auto
  have b: "(\<forall>c \<in> L. ci_type (st' c) \<noteq> t) = (\<forall>c \<in> L. ci_type (st c) \<noteq> t)" for t using assms by simp
  show "types_ok st' L types = types_ok st L types" unfolding types_ok_def n b ..
  show "counts_ok st' L counts = counts_ok st L counts" unfolding counts_ok_def s ..
qed

lemma pool_inv_store_cong:
  assumes "pool_inv st L p" and "\<And>d. d \<in> L \<Longrightarrow> st' d = st d"
  shows "pool_inv st' L p"
proof -
  have "indexes (map_of (by_ipport p)) (\<lambda>c. addr_of st' c) L"
    using pool_addrs[OF assms(1)] store_cong(1)[of L st' st, where g="\<lambda>x. (ci_peer_ip x, ci_peer_port x)"] assms(2) by simp
  moreover have "indexes (file_at (by_fileno p)) (\<lambda>c. ci_file_no (st' c)) L"
    using assms store_cong(1)[of L st' st, where g=ci_file_no] by (simp add: pool_inv_def)
  ultimately show ?thesis
    using assms(1) store_cong(2,3)[of L st' st, OF assms(2)] unfolding pool_inv_def by simp
qed

theorem update_type_keeps_tables:
  assumes "pool_run st L p" and "c \<in> L" and "ci_peer_id (st c) = Some pid"
  shows "\<exists>p'. ConnectionPool_update_connection_type c ty (st, p) = Inr (st(c := (st c)\<lparr>ci_type := ty\<rparr>), p')
    \<and> pool_inv (st(c := (st c)\<lparr>ci_type := ty\<rparr>)) L p' \<and> c \<in> set (conns_of_type p' ty)
    \<and> ConnectionPool_get_by_node_id pid p' = Inr c"
proof -
  let ?st = "st(c := (st c)\<lparr>ci_type := ty\<rparr>)"
  have inv: "pool_inv st L p" using pool_run_inv[OF assms(1)] by simp
  obtain p1 where p1: "ConnectionPool_delete st c p = Inr p1" "pool_inv st (L - {c}) p1"
    using delete_spec[OF inv assms(2)] by blast
  have inv1: "pool_inv ?st (L - {c}) p1" by (rule pool_inv_store_cong[OF p1(2)]) simp
  have "indexes (file_at (by_fileno p)) (\<lambda>c. ci_file_no (st c)) L" using inv by (simp add: pool_inv_def)
  note fi = indexes_inj[OF this] and ad = indexes_inj[OF pool_addrs[OF inv]]
  have fresh: "ci_file_no (?st c) \<notin> (\<lambda>c. ci_file_no (?st c)) ` (L - {c})" "addr_of ?st c \<notin> addr_of ?st ` (L - {c})"
    using inj_onD[OF fi _ _ assms(2)] inj_onD[OF ad _ _ assms(2)] by auto
  obtain p2 where p2: "ConnectionPool_add ?st (ci_file_no (?st c)) (ci_peer_ip (?st c)) (ci_peer_port (?st c)) c p1 = Inr p2"
    "pool_inv ?st (insert c (L - {c})) p2"
    using add_spec[OF inv1 fresh] by blast
  let ?p' = "ConnectionPool_index_conn_node_id pid c p2"
  have "pool_inv ?st L ?p'" using p2(2) assms(2) by (simp add: pool_inv_def insert_absorb ConnectionPool_index_conn_node_id_def)
  moreover from this have "c \<in> set (conns_of_type ?p' ty)"
    using types_ok_lookup[of ?st L ?p' ty] assms(2) by (simp add: pool_inv_def)
  moreover have "ConnectionPool_update_connection_type c ty (st, p) = Inr (?st, ?p')"
    using p1(1) p2(1) assms(3) by (simp add: ConnectionPool_update_connection_type_def Let_def)
  ultimately show ?thesis by (simp add: ConnectionPool_index_conn_node_id_def ConnectionPool_get_by_node_id_def)
qed

subsection \<open>Witnesses\<close>

definition two_conns :: conn_store where
  "two_conns c = \<lparr>ci_file_no = c, ci_peer_ip = ''10.0.0.1'', ci_peer_port = 9000 + c, ci_peer_id = Some ''peer'',
                  ci_type = CT ''GATEWAY'', ci_network_num = 5\<rparr>"

lemma two_conns_run: "\<exists>p. pool_run two_conns {7, 130} p"
proof -
  obtain p1 where p1: "ConnectionPool_add two_conns 7 ''10.0.0.1'' 9007 7 ConnectionPool_init = Inr p1"
    using add_spec[OF pool_inv_init, of two_conns 7] by (auto simp: two_conns_def)
  have r1: "pool_run two_conns {7} p1"
    using added[OF start, of two_conns 7 p1] p1 by (simp add: two_conns_def)
  obtain p2 where p2: "ConnectionPool_add two_conns 130 ''10.0.0.1'' 9130 130 p1 = Inr p2"
    using add_spec[OF conjunct1[OF pool_run_inv[OF r1]], of 130] by (auto simp: two_conns_def)
  have "pool_run two_conns {130, 7} p2"
    using added[OF r1, of 130 p2] p2 by (simp add: two_conns_def)
  then show ?thesis by (auto simp: insert_commute)
qed

theorem pool_tables_agree_witness:
  "\<exists>p. pool_run two_conns {7, 130} p \<and> ConnectionPool_len p = 2 \<and> conn_count p ''10.0.0.1'' = 2"
proof -
  obtain p where p: "pool_run two_conns {7, 130} p" using two_conns_run by blast
  have "ConnectionPool_len p = card {7, 130 :: nat}" using pool_tables_agree[OF p] by (elim conjE)
  moreover have "\<forall>ip. conn_count p ip = int (card {c \<in> {7, 130}. ci_peer_ip (two_conns c) = ip})"
    using pool_tables_agree[OF p] by (elim conjE)
  moreover have "{c \<in> {7, 130}. ci_peer_ip (two_conns c) = ''10.0.0.1''} = {7, 130}" by (auto simp: two_conns_def)
  ultimately have "ConnectionPool_len p = 2" "conn_count p ''10.0.0.1'' = 2" by simp_all
  then show ?thesis using p by blast
qed

theorem pool_operations_total_witness:
  "\<exists>p p'. pool_run two_conns {7, 130} p \<and> ConnectionPool_delete two_conns 7 p = Inr p'"
  using two_conns_run pool_operations_total[of two_conns "{7, 130}"] by blast

theorem delete_forgets_other_peer_witness:
  "\<exists>p p'. ConnectionPool_delete two_conns 7 p = Inr p' \<and> pool_run two_conns {130} p' \<and> ConnectionPool_get_by_node_id ''peer'' p' = Inl KeyError"
proof -
  obtain p where p: "pool_run two_conns {7, 130} p" using two_conns_run by blast
  have "{7, 130} - {7 :: nat} = {130}" by auto
  moreover have "ci_peer_id (two_conns c) = Some ''peer''" for c by (simp add: two_conns_def)
  ultimately show ?thesis using delete_forgets_other_peer[OF p, of 7 130 "''peer''"] by auto
qed

theorem get_by_types_exact_witness:
  "\<exists>p. pool_run two_conns {7, 130} p \<and> set (ConnectionPool_get_by_connection_types [CT ''EXTERNAL_GATEWAY''] p) = {7, 130}"
proof -
  obtain p where p: "pool_run two_conns {7, 130} p" using two_conns_run by blast
  have "ci_type (two_conns c) AND CT ''EXTERNAL_GATEWAY'' \<noteq> 0" for c by (simp add: two_conns_def ConnectionType_values_def)
  then have "{c \<in> {7, 130}. \<exists>m \<in> set [CT ''EXTERNAL_GATEWAY'']. ci_type (two_conns c) AND m \<noteq> 0} = {7, 130}" by auto
  with get_by_types_exact[OF p, of "[CT ''EXTERNAL_GATEWAY'']"]
  have "set (ConnectionPool_get_by_connection_types [CT ''EXTERNAL_GATEWAY''] p) = {7, 130}" by (elim conjE) (rule trans)
  then show ?thesis using p by (intro exI[of _ p] conjI)
qed

theorem update_type_keeps_tables_witness:
  "\<exists>p p'. ConnectionPool_update_connection_type 7 (CT ''RELAY_BLOCK'') (two_conns, p)
      = Inr (two_conns(7 := (two_conns 7)\<lparr>ci_type := CT ''RELAY_BLOCK''\<rparr>), p')"
  using two_conns_run update_type_keeps_tables[of two_conns "{7, 130}" _ 7 "''peer''" "CT ''RELAY_BLOCK''"]
  by (fastforce simp: two_conns_def)

end
