(* ===== verification/Broadcast_Messages.thy ===== *)
theory Broadcast_Messages
  imports Messages
begin

text \<open>
  The messages that nodes broadcast: \<open>utils/uuid_pack.py\<close> for node ids, the fields all of them share
  (\<open>messages/bloxroute/abstract_broadcast_message.py\<close>), transactions (\<open>tx_message.py\<close>), blocks
  (\<open>broadcast_message.py\<close>), keys (\<open>key_message.py\<close>) and the clean-up messages
  (\<open>abstract_cleanup_message.py\<close>, \<open>block_confirmation_message.py\<close>, \<open>transaction_cleanup_message.py\<close>).

  Identifiers are 8-bit strings; text that is only encoded and decoded (account ids) is its UTF-8 bytes.
  A timestamp is the 64-bit pattern of a double.
\<close>

subsection \<open>Node ids\<close>

text \<open>\<open>s.replace(p, "")\<close> for a pattern that is not empty, and \<open>s.strip(chars)\<close>.\<close>

function remove_all :: "string \<Rightarrow> string \<Rightarrow> string" where
  "remove_all p [] = []"
| "remove_all p (c # cs) =
     (if p \<noteq> [] \<and> take (length p) (c # cs) = p then remove_all p (drop (length p) (c # cs)) else c # remove_all p cs)"
  by pat_completeness auto
termination
  by (relation "measure (\<lambda>(_, s). length s)") auto

definition strip_chars :: "char list \<Rightarrow> string \<Rightarrow> string" where
  "strip_chars chars s = rev (dropWhile (\<lambda>c. c \<in> set chars) (rev (dropWhile (\<lambda>c. c \<in> set chars) s)))"

text \<open>\<open>int(s, 16)\<close>: surrounding blanks, a sign, a \<open>0x\<close> prefix, and single underscores between digits are accepted.\<close>

definition py_whitespace :: "char list" where
  "py_whitespace =
     [CHR 0x09, CHR 0x0A, CHR 0x0B, CHR 0x0C, CHR 0x0D, CHR 0x1C, CHR 0x1D, CHR 0x1E, CHR 0x1F, CHR 0x20, CHR 0x85, CHR 0xA0]"

fun hex_number :: "nat \<Rightarrow> string \<Rightarrow> nat option" where
  "hex_number acc [] = None"
| "hex_number acc (c # cs) =
     (case map_of hex_values c of
        None \<Rightarrow> None
      | Some d \<Rightarrow>
          let v = 16 * acc + d
          in case cs of [] \<Rightarrow> Some v | c' # cs' \<Rightarrow> if c' = CHR ''_'' then hex_number v cs' else hex_number v cs)"

definition drop_0x :: "string \<Rightarrow> string" where
  "drop_0x s = (if take 2 s \<in> {''0x'', ''0X''} then (let t = drop 2 s in if take 1 t = ''_'' then drop 1 t else t) else s)"

definition py_int16 :: "string \<Rightarrow> int result" where
  "py_int16 s0 =
     (let s = strip_chars py_whitespace s0;
          (sign, t) = (if take 1 s = ''-'' then (-1, drop 1 s) else if take 1 s = ''+'' then (1, drop 1 s) else (1, s))
      in case hex_number 0 (drop_0x t) of None \<Rightarrow> Inl ValueError | Some v \<Rightarrow> Inr (sign * int v))"

text \<open>\<open>uuid.UUID(s).bytes\<close> and \<open>str(uuid.UUID(bytes=b))\<close>.\<close>

definition uuid_parse :: "string \<Rightarrow> bytes result" where
  "uuid_parse s =
     (let h = remove_all ''-'' (strip_chars ''{}'' (remove_all ''uuid:'' (remove_all ''urn:'' s)))
      in if length h \<noteq> 32 then Inl ValueError
         else rbind (py_int16 h) (\<lambda>v.
                if 0 \<le> v \<and> v < 2 ^ 128 then Inr (rev (le_bytes 16 (nat v))) else Inl ValueError))"

definition uuid_str :: "bytes \<Rightarrow> string result" where
  "uuid_str b =
     (if length b \<noteq> 16 then Inl ValueError
      else let h = bytes_to_hex b
           in Inr (bslice 0 8 h @ ''-'' @ bslice 8 12 h @ ''-'' @ bslice 12 16 h @ ''-'' @ bslice 16 20 h @ ''-'' @ drop 20 h))"

definition EMPTY_SOURCE_ID :: bytes where "EMPTY_SOURCE_ID = replicate 16 0"
definition DECODED_EMPTY_SOURCE_ID :: string where "DECODED_EMPTY_SOURCE_ID = replicate 16 (CHR 0x00)"

definition uuid_pack_to_bytes :: "string \<Rightarrow> bytes" where
  "uuid_pack_to_bytes string_input =
     (if string_input = [] then EMPTY_SOURCE_ID
      else case uuid_parse string_input of Inl _ \<Rightarrow> EMPTY_SOURCE_ID | Inr raw \<Rightarrow> raw)"

definition uuid_pack_from_bytes :: "bytes \<Rightarrow> string option result" where
  "uuid_pack_from_bytes bytes_input =
     (if bytes_input = [] \<or> rstrip0 bytes_input = [] then Inr None
      else rbind (uuid_str bytes_input) (\<lambda>s. Inr (Some s)))"

lemma length_uuid_pack_to_bytes [simp]: "length (uuid_pack_to_bytes s) = 16"
  by (auto simp: uuid_pack_to_bytes_def EMPTY_SOURCE_ID_def uuid_parse_def rbind_def Let_def split: sum.split)

lemma remove_all_absent: "p \<noteq> [] \<Longrightarrow> hd p \<notin> set s \<Longrightarrow> remove_all p s = s"
proof (induction p s rule: remove_all.induct)
  case (2 p c cs)
  have "take (length p) (c # cs) \<noteq> p" using 2(3,4) by (cases p) auto
  then show ?case using 2 by simp
qed simp

lemma remove_all_char: "remove_all [x] s = filter (\<lambda>c. c \<noteq> x) s"
  by (induction s) auto

lemma dropWhile_none: "\<forall>c \<in> set s. \<not> P c \<Longrightarrow> dropWhile P s = s"
  by (cases s) auto

lemma strip_absent: "set s \<inter> set chars = {} \<Longrightarrow> strip_chars chars s = s"
  by (auto simp: strip_chars_def dropWhile_none disjoint_iff)

lemma nibbles: "unat (b :: byte) div 16 < 16" "unat b mod 16 < 16"
  using unsigned_less[of b, where ?'a = nat] by (simp_all add: less_mult_imp_div_less)

lemma hex_number_bytes:
  "bs \<noteq> [] \<Longrightarrow> hex_number acc (bytes_to_hex bs) = Some (acc * 256 ^ length bs + of_le (rev bs))"
proof (induction bs arbitrary: acc)
  case (Cons b bs)
  have d: "map_of hex_values (hex_digit (unat b div 16)) = Some (unat b div 16)"
    "map_of hex_values (hex_digit (unat b mod 16)) = Some (unat b mod 16)"
    by (rule hex_value_digit, rule nibbles)+
  have u: "map_of hex_values CHR ''_'' = None" by (simp add: hex_values_def hex_digits_def upt_rec numeral_nat)
  have v: "16 * (16 * acc + unat b div 16) + unat b mod 16 = 256 * acc + unat b" by simp
  have of_le_app: "of_le (xs @ ys) = of_le xs + 256 ^ length xs * of_le ys" for xs ys
    by (induction xs) (simp_all add: algebra_simps)
  show ?case
  proof (cases bs)
    case Nil
    then show ?thesis using d u v by (auto simp: bytes_to_hex_def hex_byte_def Let_def)
  next
    case (Cons b' bs')
    have "bytes_to_hex bs \<noteq> []" "hd (bytes_to_hex bs) = hex_digit (unat b' div 16)"
      using Cons by (simp_all add: bytes_to_hex_def hex_byte_def)
    moreover have "map_of hex_values (hex_digit (unat b' div 16)) \<noteq> None"
      using hex_value_digit[OF nibbles(1)[of b']] by simp
    moreover have "hex_digit (unat b' div 16) \<noteq> CHR ''_''" using calculation(3) u by metis
    ultimately obtain c cs where c: "bytes_to_hex bs = c # cs" "c \<noteq> CHR ''_''"
      by (cases "bytes_to_hex bs") auto
    have "hex_number acc (bytes_to_hex (b # bs)) = hex_number (unat b + 256 * acc) (bytes_to_hex bs)"
      using c d u v by (auto simp: bytes_to_hex_def hex_byte_def Let_def)
    then show ?thesis using Cons.IH Cons by (simp add: of_le_app algebra_simps)
  qed
qed simp

lemma set_bytes_to_hex: "set (bytes_to_hex bs) \<subseteq> set hex_digits"
proof -
  have "n < 16 \<Longrightarrow> hex_digit n \<in> set hex_digits" for n
    unfolding hex_digit_def by (rule nth_mem) (simp add: hex_digits_def)
  then show ?thesis
    using nibbles by (auto simp: bytes_to_hex_def hex_byte_def)
qed

lemma py_int16_bytes:
  assumes "bs \<noteq> []"
  shows "py_int16 (bytes_to_hex bs) = Inr (int (of_le (rev bs)))"
proof -
  let ?h = "bytes_to_hex bs"
  have sub: "c \<in> set ?h \<Longrightarrow> c \<in> set hex_digits" for c using set_bytes_to_hex[of bs] by blast
  have n: "c \<notin> set ?h" if "c \<notin> set hex_digits" for c using sub that by blast
  have "set hex_digits \<inter> set py_whitespace = {}" by (simp add: hex_digits_def py_whitespace_def)
  then have "set ?h \<inter> set py_whitespace = {}" using sub by blast
  then have "strip_chars py_whitespace ?h = ?h" by (rule strip_absent)
  moreover have "take 1 ?h \<noteq> [c]" if "c \<notin> set hex_digits" for c
    using n[OF that] in_set_takeD[of c 1 ?h] by fastforce
  then have "take 1 ?h \<noteq> ''-''" "take 1 ?h \<noteq> ''+''" by (simp_all add: hex_digits_def)
  moreover have "drop_0x ?h = ?h"
  proof -
    have "CHR ''x'' \<notin> set (take 2 ?h)" "CHR ''X'' \<notin> set (take 2 ?h)"
      using n[of "CHR ''x''"] n[of "CHR ''X''"] by (auto simp: hex_digits_def dest: in_set_takeD)
    then show ?thesis by (auto simp: drop_0x_def)
  qed
  ultimately show ?thesis
    using hex_number_bytes[OF assms, of 0] by (simp add: py_int16_def Let_def)
qed

lemma uuid_pieces:
  "bslice 0 8 h @ bslice 8 12 h @ bslice 12 16 h @ bslice 16 20 h @ drop 20 h = h"
proof -
  have step: "bslice i j h @ drop j h = drop i h" if "i \<le> j" for i j
    using append_take_drop_id[of "j - i" "drop i h"] that by (simp add: bslice_def)
  show ?thesis
    unfolding step[of 16 20, simplified] step[of 12 16, simplified] step[of 8 12, simplified] step[of 0 8, simplified] by simp
qed

text \<open>The canonical form of an id is parsed back to the bytes it was printed from.\<close>

lemma uuid_str_parse:
  assumes "length b = 16"
  shows "\<exists>s. uuid_str b = Inr s \<and> uuid_parse s = Inr b"
proof -
  let ?h = "bytes_to_hex b"
  let ?s = "bslice 0 8 ?h @ ''-'' @ bslice 8 12 ?h @ ''-'' @ bslice 12 16 ?h @ ''-'' @ bslice 16 20 ?h @ ''-'' @ drop 20 ?h"
  have len: "length ?h = 32" using assms by simp
  have part: "set (bslice i j ?h) \<subseteq> set hex_digits" "set (drop i ?h) \<subseteq> set hex_digits" for i j
    using set_bytes_to_hex[of b] set_take_subset[of "j - i" "drop i ?h"] set_drop_subset[of i ?h]
    by (auto simp: bslice_def)
  have chars: "set ?s \<subseteq> insert CHR ''-'' (set hex_digits)"
    using part(1)[of 0 8] part(1)[of 8 12] part(1)[of 12 16] part(1)[of 16 20] part(2)[of 20]
    by (simp only: set_append list.set Un_subset_iff insert_subset) auto
  have "CHR ''u'' \<notin> set ?s" "set ?s \<inter> set ''{}'' = {}"
    using chars by (auto simp: hex_digits_def)
  then have "strip_chars ''{}'' (remove_all ''uuid:'' (remove_all ''urn:'' ?s)) = ?s"
    by (simp add: remove_all_absent strip_absent)
  moreover have "remove_all ''-'' ?s = ?h"
  proof -
    have keep: "filter (\<lambda>c. c \<noteq> CHR ''-'') xs = xs" if "set xs \<subseteq> set hex_digits" for xs
      using that by (intro filter_True) (auto simp: hex_digits_def)
    have "remove_all ''-'' ?s = bslice 0 8 ?h @ bslice 8 12 ?h @ bslice 12 16 ?h @ bslice 16 20 ?h @ drop 20 ?h"
      unfolding remove_all_char by (simp add: keep part keep[OF part(1)[of 0 8, unfolded bslice_0]])
    also have "\<dots> = ?h"
      by (rule uuid_pieces)
    finally show ?thesis .
  qed
  moreover have "py_int16 ?h = Inr (int (of_le (rev b)))"
    using assms by (intro py_int16_bytes) auto
  moreover have "of_le (rev b) < 2 ^ 128" "le_bytes 16 (of_le (rev b)) = rev b"
    using of_le_bound[of "rev b"] le_bytes_of_le[of "rev b"] assms by simp_all
  ultimately have "uuid_parse ?s = Inr b"
    using len by (simp add: uuid_parse_def Let_def nat_less_real_le)
  then show ?thesis using assms by (simp add: uuid_str_def Let_def)
qed

text \<open>
  Node ids survive packing: sixteen bytes that are not all zero are unpacked to an id that is packed
  into the same bytes, so distinct ids stay distinct; whatever the id, sixteen bytes are packed.
\<close>

lemma uuid_round_trip:
  assumes "length b = 16" and "rstrip0 b \<noteq> []"
  shows "\<exists>s. uuid_pack_from_bytes b = Inr (Some s) \<and> s \<noteq> [] \<and> uuid_pack_to_bytes s = b"
proof -
  obtain s where s: "uuid_str b = Inr s" "uuid_parse s = Inr b" using uuid_str_parse[OF assms(1)] by blast
  then have "s \<noteq> []" by (auto simp: uuid_str_def Let_def split: if_splits)
  then show ?thesis
    using s assms by (auto simp: uuid_pack_from_bytes_def uuid_pack_to_bytes_def rstrip0_def)
qed

lemma uuid_empty: "uuid_pack_from_bytes (replicate 16 0) = Inr None"
  using rstrip0_append_zeros[of "[]" 16] by (simp add: uuid_pack_from_bytes_def rstrip0_def)

subsection \<open>Text\<close>

text \<open>Which bytes \<open>bytes.decode("utf-8")\<close> accepts.\<close>

definition utf8_tail :: "byte \<Rightarrow> bool" where
  "utf8_tail b \<longleftrightarrow> 0x80 \<le> b \<and> b < 0xC0"

fun utf8_valid :: "bytes \<Rightarrow> bool" where
  "utf8_valid [] \<longleftrightarrow> True"
| "utf8_valid (a # bs) \<longleftrightarrow>
     (if a < 0x80 then utf8_valid bs
      else if 0xC2 \<le> a \<and> a < 0xE0 then (case bs of b # r \<Rightarrow> utf8_tail b \<and> utf8_valid r | _ \<Rightarrow> False)
      else if 0xE0 \<le> a \<and> a < 0xF0
      then (case bs of
              b # c # r \<Rightarrow> utf8_tail b \<and> utf8_tail c \<and> (a = 0xE0 \<longrightarrow> 0xA0 \<le> b) \<and> (a = 0xED \<longrightarrow> b < 0xA0) \<and> utf8_valid r
            | _ \<Rightarrow> False)
      else if 0xF0 \<le> a \<and> a < 0xF5
      then (case bs of
              b # c # d # r \<Rightarrow> utf8_tail b \<and> utf8_tail c \<and> utf8_tail d \<and> (a = 0xF0 \<longrightarrow> 0x90 \<le> b) \<and> (a = 0xF4 \<longrightarrow> b < 0x90)
                              \<and> utf8_valid r
            | _ \<Rightarrow> False)
      else False)"

definition utf8_decode :: "bytes \<Rightarrow> bytes result" where
  "utf8_decode b = (if utf8_valid b then Inr b else Inl UnicodeDecodeErr)"

lemma utf8_ascii: "list_all (\<lambda>b. b < 0x80) bs \<Longrightarrow> utf8_valid bs"
  by (induction bs) auto

subsection \<open>Fields of all broadcast messages\<close>

record broadcast = message +
  bm_hash :: "object_hash option"
  bm_network_num :: "nat option"
  bm_source_id :: "string option"
  bm_message_id :: "object_hash option"

abbreviation (input) BROADCAST_PAYLOAD_LENGTH :: nat where "BROADCAST_PAYLOAD_LENGTH \<equiv> 53"
abbreviation (input) SOURCE_ID_OFFSET :: nat where "SOURCE_ID_OFFSET \<equiv> 56"

text \<open>Where the fields of a subclass begin: behind the shared fields, the control byte not counted.\<close>

abbreviation (input) PAYLOAD_START_OFFSET :: nat where "PAYLOAD_START_OFFSET \<equiv> 72"

definition AbstractBroadcastMessage_init ::
    "bytes \<Rightarrow> nat \<Rightarrow> object_hash option \<Rightarrow> nat option \<Rightarrow> string option \<Rightarrow> bytes option \<Rightarrow> 'a broadcast_scheme \<Rightarrow>
     'a broadcast_scheme result" where
  "AbstractBroadcastMessage_init msg_type payload_len message_hash network_num source_id buf m =
     (let b = (case buf of None \<Rightarrow> replicate (HEADER_LENGTH + payload_len) 0 | Some b \<Rightarrow> b)
      in rbind (AbstractBloxrouteMessage_init msg_type (length b - HEADER_LENGTH) (m\<lparr>msg_buf := b\<rparr>)) (\<lambda>m1.
           if buf \<noteq> None then Inr m1
           else case (message_hash, network_num, source_id) of
             (Some h, Some n, Some s) \<Rightarrow>
               rbind (put_raw SHA256_HASH_LEN (msg_buf m1) HEADER_LENGTH (binary h)) (\<lambda>(b1, off).
               rbind (put_u NETWORK_NUM_LEN b1 off n) (\<lambda>(b2, off).
               rbind (pack_s NODE_ID_SIZE_IN_BYTES b2 off (uuid_pack_to_bytes s)) (\<lambda>b3. Inr (m1\<lparr>msg_buf := b3\<rparr>))))
           | _ \<Rightarrow> Inl AssertionError))"

definition AbstractBroadcastMessage_set_message_hash :: "object_hash \<Rightarrow> 'a broadcast_scheme \<Rightarrow> 'a broadcast_scheme" where
  "AbstractBroadcastMessage_set_message_hash h m =
     m\<lparr>msg_buf := slice_assign HEADER_LENGTH (HEADER_LENGTH + SHA256_HASH_LEN) (binary h) (msg_buf m)\<rparr>"

definition AbstractBroadcastMessage_message_hash :: "'a broadcast_scheme \<Rightarrow> (object_hash \<times> 'a broadcast_scheme) result" where
  "AbstractBroadcastMessage_message_hash m =
     (case bm_hash m of
        Some h \<Rightarrow> Inr (h, m)
      | None \<Rightarrow> rbind (Sha256Hash_init (bslice HEADER_LENGTH (HEADER_LENGTH + SHA256_HASH_LEN) (msg_buf m))) (\<lambda>h.
                  Inr (h, m\<lparr>bm_hash := Some h\<rparr>)))"

definition AbstractBroadcastMessage_message_id :: "'a broadcast_scheme \<Rightarrow> (object_hash \<times> 'a broadcast_scheme) result" where
  "AbstractBroadcastMessage_message_id m =
     (case bm_message_id m of
        Some h \<Rightarrow> Inr (h, m)
      | None \<Rightarrow> rbind (ConcatHash_init (bslice HEADER_LENGTH (HEADER_LENGTH + SHA256_HASH_LEN + NETWORK_NUM_LEN) (msg_buf m)) 0)
                  (\<lambda>h. Inr (h, m\<lparr>bm_message_id := Some h\<rparr>)))"

definition AbstractBroadcastMessage_network_num :: "'a broadcast_scheme \<Rightarrow> (nat \<times> 'a broadcast_scheme) result" where
  "AbstractBroadcastMessage_network_num m =
     (case bm_network_num m of
        Some n \<Rightarrow> Inr (n, m)
      | None \<Rightarrow> rbind (unpack_from 4 (msg_buf m) (HEADER_LENGTH + SHA256_HASH_LEN)) (\<lambda>n. Inr (n, m\<lparr>bm_network_num := Some n\<rparr>)))"

definition AbstractBroadcastMessage_source_id :: "'a broadcast_scheme \<Rightarrow> (string \<times> 'a broadcast_scheme) result" where
  "AbstractBroadcastMessage_source_id m =
     (case bm_source_id m of
        Some s \<Rightarrow> Inr (s, m)
      | None \<Rightarrow>
          rbind (unpack_s NODE_ID_SIZE_IN_BYTES (msg_buf m) SOURCE_ID_OFFSET) (\<lambda>b.
          rbind (uuid_pack_from_bytes b) (\<lambda>r.
            let s = (case r of None \<Rightarrow> DECODED_EMPTY_SOURCE_ID | Some s \<Rightarrow> s)
            in Inr (s, m\<lparr>bm_source_id := Some s\<rparr>))))"

definition AbstractBroadcastMessage_source_id_as_str :: "'a broadcast_scheme \<Rightarrow> (string \<times> 'a broadcast_scheme) result" where
  "AbstractBroadcastMessage_source_id_as_str m =
     rbind (AbstractBroadcastMessage_source_id m) (\<lambda>(s, m').
       Inr (if s = DECODED_EMPTY_SOURCE_ID then ''None'' else s, m'))"

text \<open>The attribute is assigned before the bytes are written; writing fails on a buffer that is too short.\<close>

definition AbstractBroadcastMessage_set_source_id :: "string \<Rightarrow> 'a broadcast_scheme \<Rightarrow> 'a broadcast_scheme result" where
  "AbstractBroadcastMessage_set_source_id s m =
     rbind (pack_s NODE_ID_SIZE_IN_BYTES (msg_buf m) SOURCE_ID_OFFSET (uuid_pack_to_bytes s)) (\<lambda>b.
       Inr (m\<lparr>bm_source_id := Some s, msg_buf := b\<rparr>))"

definition AbstractBroadcastMessage_has_source_id :: "'a broadcast_scheme \<Rightarrow> (bool \<times> 'a broadcast_scheme) result" where
  "AbstractBroadcastMessage_has_source_id m =
     rbind (AbstractBroadcastMessage_source_id m) (\<lambda>(s, m'). Inr (s \<noteq> DECODED_EMPTY_SOURCE_ID, m'))"

text \<open>What the constructor leaves on the wire, and what the accessors find there.\<close>

definition broadcast_head :: "bytes \<Rightarrow> nat \<Rightarrow> bytes \<Rightarrow> bytes" where
  "broadcast_head h n src = h @ le_bytes 4 n @ src"

lemma length_broadcast_head: "length h = 32 \<Longrightarrow> length src = 16 \<Longrightarrow> length (broadcast_head h n src) = 52"
  by (simp add: broadcast_head_def)

lemma mark_valid_zeros: "mark_valid (replicate (Suc k) 0) = replicate k 0 @ [1]"
  by (simp add: mark_valid_def butlast_conv_take last_replicate del: replicate_Suc)

lemma broadcast_init_new:
  assumes "length (binary h) = 32" and "n < 256 ^ 4" and "53 + k < 256 ^ 4"
  shows "AbstractBroadcastMessage_init ty (53 + k) (Some h) (Some n) (Some s) None m
    = Inr (m\<lparr>msg_buf := frame ty (broadcast_head (binary h) n (uuid_pack_to_bytes s) @ replicate k 0 @ [1]),
             msg_type_field := Some ty, payload_len_field := Some (53 + k), payload_field := None, msg_priority := False\<rparr>)"
proof -
  let ?u = "uuid_pack_to_bytes s"
  let ?hdr = "STARTING_SEQUENCE_BYTES @ pad_to 12 ty @ le_bytes 4 (53 + k)"
  have m: "msg_buf (m\<lparr>msg_buf := replicate (20 + (53 + k)) 0\<rparr>) = replicate 20 0 @ replicate (53 + k) 0"
    by (simp flip: replicate_add)
  have z: "mark_valid (replicate (53 + k) 0) = replicate 32 0 @ replicate 4 0 @ replicate 16 0 @ replicate k 0 @ [1]"
    using mark_valid_zeros[of "52 + k"] by (simp add: replicate_add[symmetric] append_assoc[symmetric] del: append_assoc)
  have l: "length ?hdr = 20" by simp
  have "53 + k < 256 ^ 4" "replicate (53 + k) 0 \<noteq> []" using assms(3) by simp_all
  note init_frame[OF m _ this(2,1), of ty]
  moreover have "writes (\<lambda>b off. rbind (put_raw 32 b off (binary h)) (\<lambda>(b, off). rbind (put_u 4 b off n) (\<lambda>(b, off).
      rbind (pack_s 16 b off ?u) (\<lambda>b. Inr (b, off + 16))))) (binary h @ le_bytes 4 n @ ?u)"
    using assms by (intro writes_seq writes_raw writes_u) (simp_all add: writes_def pack_s_def)
  then have "rbind (put_raw 32 (?hdr @ mark_valid (replicate (53 + k) 0)) 20 (binary h)) (\<lambda>(b, off). rbind (put_u 4 b off n) (\<lambda>(b, off).
      rbind (pack_s 16 b off ?u) (\<lambda>b. Inr (b, off + 16)))) = Inr (bput 20 (binary h @ le_bytes 4 n @ ?u) (?hdr @ mark_valid (replicate (53 + k) 0)), 72)"
    unfolding writes_def using assms(1) by simp
  moreover have "bput 20 (binary h @ le_bytes 4 n @ ?u) (?hdr @ mark_valid (replicate (53 + k) 0))
      = ?hdr @ (binary h @ le_bytes 4 n @ ?u) @ replicate k 0 @ [1]"
    using bput_at_end[of "binary h @ le_bytes 4 n @ ?u" "replicate 32 0 @ replicate 4 0 @ replicate 16 0" ?hdr "replicate k 0 @ [1]"]
      assms(1) l z by simp
  ultimately show ?thesis
    by (auto simp: AbstractBroadcastMessage_init_def Let_def SHA256_HASH_LEN_def rbind_def frame_def broadcast_head_def assms(1)
        split: sum.splits)
qed

text \<open>Reading a field in the middle of nested appends, by the lengths in front of it.\<close>

lemma bslice_skip: "length a \<le> i \<Longrightarrow> bslice i j (a @ r) = bslice (i - length a) (j - length a) r"
  by (simp add: bslice_def)

lemma take_hit: "length a = n \<Longrightarrow> take n (a @ r) = a"
  by simp

lemmas bfield_simps = bslice_skip take_hit unpack_from_def unpack_s_def frame_def broadcast_head_def

text \<open>The shared fields of a message that has cached nothing yet.\<close>

definition fresh_broadcast :: "'a broadcast_scheme \<Rightarrow> bool" where
  "fresh_broadcast m \<longleftrightarrow> bm_hash m = None \<and> bm_network_num m = None \<and> bm_source_id m = None \<and> bm_message_id m = None"

definition source_of :: "bytes \<Rightarrow> string" where
  "source_of src = (case uuid_pack_from_bytes src of Inr (Some s) \<Rightarrow> s | _ \<Rightarrow> DECODED_EMPTY_SOURCE_ID)"

lemma uuid_from_16: "length b = 16 \<Longrightarrow> \<exists>r. uuid_pack_from_bytes b = Inr r"
  by (auto simp: uuid_pack_from_bytes_def uuid_str_def Let_def)

lemma broadcast_fields:
  assumes "fresh_broadcast m" and "msg_buf m = frame ty (broadcast_head h n src @ rest)"
    and "length h = 32" and "n < 256 ^ 4" and "length src = 16"
  shows "AbstractBroadcastMessage_message_hash m
      = Inr (\<lparr>binary = h, hash_value = of_le (drop 28 h)\<rparr>, m\<lparr>bm_hash := Some \<lparr>binary = h, hash_value = of_le (drop 28 h)\<rparr>\<rparr>)"
    and "AbstractBroadcastMessage_network_num m = Inr (n, m\<lparr>bm_network_num := Some n\<rparr>)"
    and "AbstractBroadcastMessage_source_id m = Inr (source_of src, m\<lparr>bm_source_id := Some (source_of src)\<rparr>)"
proof -
  show "AbstractBroadcastMessage_message_hash m
      = Inr (\<lparr>binary = h, hash_value = of_le (drop 28 h)\<rparr>, m\<lparr>bm_hash := Some \<lparr>binary = h, hash_value = of_le (drop 28 h)\<rparr>\<rparr>)"
    using assms by (simp add: AbstractBroadcastMessage_message_hash_def fresh_broadcast_def bfield_simps Sha256Hash_init_ok
        SHA256_HASH_LEN_def)
  show "AbstractBroadcastMessage_network_num m = Inr (n, m\<lparr>bm_network_num := Some n\<rparr>)"
    using assms by (simp add: AbstractBroadcastMessage_network_num_def fresh_broadcast_def bfield_simps of_le_le_bytes
        SHA256_HASH_LEN_def)
  obtain r where "uuid_pack_from_bytes src = Inr r" using uuid_from_16[OF assms(5)] by blast
  then show "AbstractBroadcastMessage_source_id m = Inr (source_of src, m\<lparr>bm_source_id := Some (source_of src)\<rparr>)"
    using assms by (simp add: AbstractBroadcastMessage_source_id_def fresh_broadcast_def bfield_simps source_of_def split: option.split)
qed

subsection \<open>Transaction messages\<close>

text \<open>
  \<open>TxMessage\<close> and the classes \<open>TxMessageV6\<close> to \<open>TxMessageV21\<close> of older protocol versions differ in the
  fields between the short id and the contents: a layout gives the width of each (0 when the class has
  no such field), the values its flag enumeration accepts and the value of a missing flag.
\<close>

record tx_layout =
  flag_len :: nat
  flag_bound :: nat
  no_flag :: nat
  timestamp_len :: nat
  account_len :: nat

definition TxMessage_layout :: tx_layout where
  "TxMessage_layout = \<lparr>flag_len = 2, flag_bound = 8192, no_flag = NO_FLAGS, timestamp_len = 8, account_len = 36\<rparr>"

record tx_message = broadcast +
  tm_short_id :: "nat option"
  tm_tx_val :: "bytes option"
  tm_flag :: "nat option"
  tm_timestamp :: "nat option"
  tm_account_id :: bytes

abbreviation (input) NULL_TX_TIMESTAMP :: nat where "NULL_TX_TIMESTAMP \<equiv> 0"

definition DECODED_EMPTY_ACCOUNT_ID :: bytes where "DECODED_EMPTY_ACCOUNT_ID = replicate 36 0"

definition tx_message_blank :: tx_message where
  "tx_message_blank =
     \<lparr>msg_buf = [], msg_type_field = None, payload_len_field = None, payload_field = None, msg_priority = False,
      bm_hash = None, bm_network_num = None, bm_source_id = None, bm_message_id = None,
      tm_short_id = None, tm_tx_val = None, tm_flag = None, tm_timestamp = None, tm_account_id = DECODED_EMPTY_ACCOUNT_ID\<rparr>"

text \<open>Writing an integer field that a class may not have, and a padded text field.\<close>

definition put_opt :: "nat \<Rightarrow> bytes \<Rightarrow> nat \<Rightarrow> nat \<Rightarrow> (bytes \<times> nat) result" where
  "put_opt w b off v = (if w = 0 then Inr (b, off) else put_u w b off v)"

definition put_s :: "nat \<Rightarrow> bytes \<Rightarrow> nat \<Rightarrow> bytes \<Rightarrow> (bytes \<times> nat) result" where
  "put_s n b off s = (if n = 0 then Inr (b, off) else rbind (pack_s n b off s) (\<lambda>b'. Inr (b', off + n)))"

definition put_tx_fields ::
    "tx_layout \<Rightarrow> nat \<Rightarrow> nat option \<Rightarrow> nat \<Rightarrow> bytes \<Rightarrow> bytes option \<Rightarrow> bytes \<Rightarrow> nat \<Rightarrow> (bytes \<times> nat) result" where
  "put_tx_fields L short_id flag timestamp account_id tx_val b off =
     rbind (put_u 4 b off short_id) (\<lambda>(b, off).
     rbind (put_opt (flag_len L) b off (case flag of None \<Rightarrow> no_flag L | Some f \<Rightarrow> f)) (\<lambda>(b, off).
     rbind (put_opt (timestamp_len L) b off timestamp) (\<lambda>(b, off).
     rbind (put_s (account_len L) b off account_id) (\<lambda>(b, off).
       case tx_val of None \<Rightarrow> Inr (b, off) | Some v \<Rightarrow> put_raw (length v) b off v))))"

definition tx_init ::
    "tx_layout \<Rightarrow> object_hash option \<Rightarrow> nat option \<Rightarrow> string \<Rightarrow> nat \<Rightarrow> bytes option \<Rightarrow> nat option \<Rightarrow> nat \<Rightarrow> bytes option \<Rightarrow>
     bytes option \<Rightarrow> tx_message result" where
  "tx_init L message_hash network_num source_id short_id tx_val flag timestamp account_id buf =
     (let account = (case account_id of None \<Rightarrow> DECODED_EMPTY_ACCOUNT_ID | Some a \<Rightarrow> a);
          payload_len = BROADCAST_PAYLOAD_LENGTH + 4 + flag_len L + timestamp_len L + account_len L
                        + (case tx_val of None \<Rightarrow> 0 | Some v \<Rightarrow> length v)
      in rbind (AbstractBroadcastMessage_init (MESSAGE_TYPE TxMessageClass) payload_len message_hash network_num (Some source_id)
                  buf tx_message_blank) (\<lambda>m.
           if buf \<noteq> None then Inr m
           else rbind (put_tx_fields L short_id flag timestamp account tx_val (msg_buf m) PAYLOAD_START_OFFSET) (\<lambda>(b, _).
                  Inr (m\<lparr>msg_buf := b\<rparr>))))"

definition TxMessage_init ::
    "object_hash option \<Rightarrow> nat option \<Rightarrow> string \<Rightarrow> nat \<Rightarrow> bytes option \<Rightarrow> nat option \<Rightarrow> nat \<Rightarrow> bytes option \<Rightarrow>
     bytes option \<Rightarrow> tx_message result" where
  "TxMessage_init = tx_init TxMessage_layout"

abbreviation (input) tx_flag_off :: nat where "tx_flag_off \<equiv> 76"

definition tx_timestamp_off :: "tx_layout \<Rightarrow> nat" where "tx_timestamp_off L = tx_flag_off + flag_len L"
definition tx_account_off :: "tx_layout \<Rightarrow> nat" where "tx_account_off L = tx_timestamp_off L + timestamp_len L"
definition tx_val_off :: "tx_layout \<Rightarrow> nat" where "tx_val_off L = tx_account_off L + account_len L"

definition tx_short_id :: "tx_message \<Rightarrow> (nat \<times> tx_message) result" where
  "tx_short_id m =
     (case tm_short_id m of
        Some s \<Rightarrow> Inr (s, m)
      | None \<Rightarrow> rbind (unpack_from 4 (msg_buf m) PAYLOAD_START_OFFSET) (\<lambda>s. Inr (s, m\<lparr>tm_short_id := Some s\<rparr>)))"

definition tx_has_short_id :: "tx_message \<Rightarrow> (bool \<times> tx_message) result" where
  "tx_has_short_id m = rbind (tx_short_id m) (\<lambda>(s, m'). Inr (s \<noteq> 0, m'))"

text \<open>\<open>transaction_flag\<close>, or \<open>quota_type\<close> of the classes that store a quota: a value outside the enumeration raises.\<close>

definition tx_flag :: "tx_layout \<Rightarrow> tx_message \<Rightarrow> (nat \<times> tx_message) result" where
  "tx_flag L m =
     (case tm_flag m of
        Some f \<Rightarrow> Inr (f, m)
      | None \<Rightarrow> rbind (unpack_from (flag_len L) (msg_buf m) tx_flag_off) (\<lambda>f.
                  if f < flag_bound L then Inr (f, m\<lparr>tm_flag := Some f\<rparr>) else Inl ValueError))"

definition tx_set_flag :: "tx_layout \<Rightarrow> nat \<Rightarrow> tx_message \<Rightarrow> tx_message result" where
  "tx_set_flag L f m = rbind (pack_into (flag_len L) (msg_buf m) tx_flag_off f) (\<lambda>b. Inr (m\<lparr>tm_flag := Some f, msg_buf := b\<rparr>))"

definition tx_timestamp :: "tx_layout \<Rightarrow> tx_message \<Rightarrow> (nat \<times> tx_message) result" where
  "tx_timestamp L m =
     (case tm_timestamp m of
        Some t \<Rightarrow> Inr (t, m)
      | None \<Rightarrow> rbind (unpack_from (timestamp_len L) (msg_buf m) (tx_timestamp_off L)) (\<lambda>t. Inr (t, m\<lparr>tm_timestamp := Some t\<rparr>)))"

definition tx_set_timestamp :: "tx_layout \<Rightarrow> nat \<Rightarrow> tx_message \<Rightarrow> tx_message result" where
  "tx_set_timestamp L t m =
     rbind (pack_into (timestamp_len L) (msg_buf m) (tx_timestamp_off L) t) (\<lambda>b. Inr (m\<lparr>tm_timestamp := Some t, msg_buf := b\<rparr>))"

definition TxMessage_account_id :: "tx_message \<Rightarrow> (bytes \<times> tx_message) result" where
  "TxMessage_account_id m =
     (if tm_account_id m = DECODED_EMPTY_ACCOUNT_ID
      then rbind (unpack_s 36 (msg_buf m) (tx_account_off TxMessage_layout)) (\<lambda>b.
           rbind (utf8_decode (rstrip0 b)) (\<lambda>a. Inr (a, m\<lparr>tm_account_id := a\<rparr>)))
      else Inr (tm_account_id m, m))"

definition tx_tx_val :: "tx_layout \<Rightarrow> tx_message \<Rightarrow> (bytes \<times> tx_message) result" where
  "tx_tx_val L m =
     (case tm_tx_val m of
        Some v \<Rightarrow> Inr (v, m)
      | None \<Rightarrow> rbind (AbstractInternalMessage_payload_len m) (\<lambda>(n, m').
                  let v = (if n = 0 then [] else bslice (tx_val_off L) (HEADER_LENGTH + n - CONTROL_FLAGS_LEN) (msg_buf m'))
                  in Inr (v, m'\<lparr>tm_tx_val := Some v\<rparr>)))"

definition tx_is_compact :: "tx_layout \<Rightarrow> tx_message \<Rightarrow> (bool \<times> tx_message) result" where
  "tx_is_compact L m = rbind (tx_tx_val L m) (\<lambda>(v, m'). Inr (v = [], m'))"

definition tx_clear_short_id :: "tx_message \<Rightarrow> tx_message result" where
  "tx_clear_short_id m =
     rbind (pack_into 4 (msg_buf m) PAYLOAD_START_OFFSET 0) (\<lambda>b. Inr (m\<lparr>msg_buf := b, tm_short_id := Some 0\<rparr>))"

definition tx_clear_timestamp :: "tx_layout \<Rightarrow> tx_message \<Rightarrow> tx_message result" where
  "tx_clear_timestamp L m =
     rbind (pack_into (timestamp_len L) (msg_buf m) (tx_timestamp_off L) NULL_TX_TIMESTAMP) (\<lambda>b.
       Inr (m\<lparr>msg_buf := b, tm_timestamp := Some NULL_TX_TIMESTAMP\<rparr>))"

definition tx_clear_protected_fields :: "tx_layout \<Rightarrow> tx_message \<Rightarrow> tx_message result" where
  "tx_clear_protected_fields L m = rbind (tx_clear_short_id m) (tx_clear_timestamp L)"

definition TxMessage_quota_type :: "tx_message \<Rightarrow> (string \<times> tx_message) result" where
  "TxMessage_quota_type m =
     rbind (tx_flag TxMessage_layout m) (\<lambda>(f, m'). Inr (TransactionFlag_get_quota_type f, m'))"

subsection \<open>The fields of a transaction message\<close>

text \<open>
  The abstract value of a transaction message: its fields, read off the bytes. The attributes an
  object caches are redundant; the invariant says that they agree with the bytes.
\<close>

record tx_fields =
  f_hash :: bytes
  f_network :: nat
  f_source :: bytes
  f_short_id :: nat
  f_flag :: nat
  f_timestamp :: nat
  f_account :: bytes
  f_val :: bytes

definition tx_abs :: "tx_layout \<Rightarrow> tx_message \<Rightarrow> tx_fields" where
  "tx_abs L m = (let b = msg_buf m in
     \<lparr>f_hash = bslice 20 52 b, f_network = of_le (bslice 52 56 b), f_source = bslice 56 72 b,
      f_short_id = of_le (bslice 72 76 b), f_flag = of_le (bslice 76 (tx_timestamp_off L) b),
      f_timestamp = of_le (bslice (tx_timestamp_off L) (tx_account_off L) b),
      f_account = rstrip0 (bslice (tx_account_off L) (tx_val_off L) b), f_val = bslice (tx_val_off L) (length b - 1) b\<rparr>)"

definition tx_cached :: "tx_fields \<Rightarrow> tx_message \<Rightarrow> bool" where
  "tx_cached f m \<longleftrightarrow>
     (\<forall>h. bm_hash m = Some h \<longrightarrow> binary h = f_hash f)
     \<and> bm_network_num m \<in> {None, Some (f_network f)}
     \<and> (\<forall>s. bm_source_id m = Some s \<longrightarrow> uuid_pack_to_bytes s = f_source f)
     \<and> tm_short_id m \<in> {None, Some (f_short_id f)} \<and> tm_flag m \<in> {None, Some (f_flag f)}
     \<and> tm_timestamp m \<in> {None, Some (f_timestamp f)} \<and> tm_tx_val m \<in> {None, Some (f_val f)}
     \<and> tm_account_id m \<in> {DECODED_EMPTY_ACCOUNT_ID, f_account f}"

definition tx_inv :: "tx_layout \<Rightarrow> tx_message \<Rightarrow> bool" where
  "tx_inv L m \<longleftrightarrow> tx_val_off L < length (msg_buf m) \<and> payload_len_field m = Some (length (msg_buf m) - 20)
     \<and> f_flag (tx_abs L m) < flag_bound L \<and> utf8_valid (f_account (tx_abs L m)) \<and> tx_cached (tx_abs L m) m"

lemmas tx_offs = tx_timestamp_off_def tx_account_off_def tx_val_off_def

text \<open>An operation that returns a value and may cache it: the value is right and the fields stay.\<close>

definition tx_returns :: "tx_layout \<Rightarrow> (tx_message \<Rightarrow> ('a \<times> tx_message) result) \<Rightarrow> ('a \<Rightarrow> bool) \<Rightarrow> tx_message \<Rightarrow> bool" where
  "tx_returns L g P m \<longleftrightarrow> (\<exists>x m'. g m = Inr (x, m') \<and> P x \<and> tx_inv L m' \<and> tx_abs L m' = tx_abs L m \<and> msg_buf m' = msg_buf m)"

lemma tx_returns_simple:
  assumes "g m = Inr (x, m')" and "P x" and "tx_inv L m" and "msg_buf m' = msg_buf m"
    and "payload_len_field m' = payload_len_field m" and "tx_cached (tx_abs L m) m'"
  shows "tx_returns L g P m"
proof -
  have "tx_abs L m' = tx_abs L m" using assms(4) by (simp add: tx_abs_def)
  then show ?thesis using assms unfolding tx_returns_def tx_inv_def by auto
qed

lemma decoded_empty_source: "uuid_pack_to_bytes DECODED_EMPTY_SOURCE_ID = replicate 16 0"
proof -
  have "CHR ''u'' \<notin> set DECODED_EMPTY_SOURCE_ID" "CHR ''-'' \<notin> set DECODED_EMPTY_SOURCE_ID"
    "set DECODED_EMPTY_SOURCE_ID \<inter> set ''{}'' = {}"
    by (simp_all add: DECODED_EMPTY_SOURCE_ID_def set_replicate_conv_if)
  then have "uuid_parse DECODED_EMPTY_SOURCE_ID = Inl ValueError"
    by (simp add: uuid_parse_def remove_all_absent strip_absent) (simp add: DECODED_EMPTY_SOURCE_ID_def)
  then show ?thesis by (simp add: uuid_pack_to_bytes_def EMPTY_SOURCE_ID_def)
qed

lemma source_of_packs: "length b = 16 \<Longrightarrow> uuid_pack_to_bytes (source_of b) = b"
proof (cases "rstrip0 b = []")
  case True
  assume len: "length b = 16"
  have "\<forall>x \<in> set b. x = 0" using True by (simp add: rstrip0_def)
  then have "b = replicate 16 0" using len replicate_length_same[of b 0] by simp
  then show ?thesis by (simp add: source_of_def uuid_empty decoded_empty_source)
next
  case False
  assume "length b = 16"
  then show ?thesis using uuid_round_trip[OF _ False] by (auto simp: source_of_def)
qed

text \<open>An accessor that looks at its cached attribute first.\<close>

lemma tx_returns_cached:
  assumes "tx_inv L m" and "g m = (case attr of Some x \<Rightarrow> Inr (x, m) | None \<Rightarrow> Inr (y, m'))"
    and "\<And>x. attr = Some x \<Longrightarrow> P x" and "P y" and "msg_buf m' = msg_buf m"
    and "payload_len_field m' = payload_len_field m" and "tx_cached (tx_abs L m) m'"
  shows "tx_returns L g P m"
proof (cases attr)
  case None
  then show ?thesis using assms by (intro tx_returns_simple[of g m y m']) simp_all
next
  case (Some x)
  then show ?thesis
    using assms(1-3) by (intro tx_returns_simple[of g m x m]) (simp_all add: tx_inv_def)
qed

lemma tx_cached_update:
  assumes "tx_cached f m"
  shows "binary h = f_hash f \<Longrightarrow> tx_cached f (m\<lparr>bm_hash := Some h\<rparr>)"
    and "n = f_network f \<Longrightarrow> tx_cached f (m\<lparr>bm_network_num := Some n\<rparr>)"
    and "uuid_pack_to_bytes s = f_source f \<Longrightarrow> tx_cached f (m\<lparr>bm_source_id := Some s\<rparr>)"
    and "sid = f_short_id f \<Longrightarrow> tx_cached f (m\<lparr>tm_short_id := Some sid\<rparr>)"
    and "fl = f_flag f \<Longrightarrow> tx_cached f (m\<lparr>tm_flag := Some fl\<rparr>)"
    and "t = f_timestamp f \<Longrightarrow> tx_cached f (m\<lparr>tm_timestamp := Some t\<rparr>)"
    and "v = f_val f \<Longrightarrow> tx_cached f (m\<lparr>tm_tx_val := Some v\<rparr>)"
    and "a = f_account f \<Longrightarrow> tx_cached f (m\<lparr>tm_account_id := a\<rparr>)"
  using assms by (simp_all add: tx_cached_def)

lemma tx_cached_attrs:
  assumes "tx_cached f m"
  shows "bm_hash m = Some h \<Longrightarrow> binary h = f_hash f" and "bm_network_num m = Some n \<Longrightarrow> n = f_network f"
    and "bm_source_id m = Some s \<Longrightarrow> uuid_pack_to_bytes s = f_source f" and "tm_short_id m = Some sid \<Longrightarrow> sid = f_short_id f"
    and "tm_flag m = Some fl \<Longrightarrow> fl = f_flag f" and "tm_timestamp m = Some t \<Longrightarrow> t = f_timestamp f"
    and "tm_tx_val m = Some v \<Longrightarrow> v = f_val f"
  using assms by (simp_all add: tx_cached_def)

lemma tx_facts:
  assumes "tx_inv L m"
  shows "tx_val_off L < length (msg_buf m)" "payload_len_field m = Some (length (msg_buf m) - 20)"
    "f_flag (tx_abs L m) < flag_bound L" "utf8_valid (f_account (tx_abs L m))" "tx_cached (tx_abs L m) m"
    "76 \<le> tx_timestamp_off L" "tx_timestamp_off L \<le> tx_account_off L" "tx_account_off L \<le> tx_val_off L"
    "76 < length (msg_buf m)"
  using assms unfolding tx_inv_def by (simp_all add: tx_offs)

lemma tx_abs_fields:
  "f_hash (tx_abs L m) = bslice 20 52 (msg_buf m)" "f_network (tx_abs L m) = of_le (bslice 52 56 (msg_buf m))"
  "f_source (tx_abs L m) = bslice 56 72 (msg_buf m)" "f_short_id (tx_abs L m) = of_le (bslice 72 76 (msg_buf m))"
  "f_flag (tx_abs L m) = of_le (bslice 76 (tx_timestamp_off L) (msg_buf m))"
  "f_timestamp (tx_abs L m) = of_le (bslice (tx_timestamp_off L) (tx_account_off L) (msg_buf m))"
  "f_account (tx_abs L m) = rstrip0 (bslice (tx_account_off L) (tx_val_off L) (msg_buf m))"
  "f_val (tx_abs L m) = bslice (tx_val_off L) (length (msg_buf m) - 1) (msg_buf m)"
  by (simp_all add: tx_abs_def Let_def)

text \<open>Each accessor of a coherent message returns its field.\<close>

lemma tx_read_hash:
  assumes "tx_inv L m"
  shows "tx_returns L AbstractBroadcastMessage_message_hash (\<lambda>h. binary h = f_hash (tx_abs L m)) m"
proof (rule tx_returns_cached[OF assms, where attr = "bm_hash m"])
  let ?b = "bslice 20 52 (msg_buf m)"
  let ?h = "\<lparr>binary = ?b, hash_value = of_le (drop 28 ?b)\<rparr>"
  have "length ?b = 32" using tx_facts(9)[OF assms] by simp
  then show "AbstractBroadcastMessage_message_hash m
      = (case bm_hash m of Some x \<Rightarrow> Inr (x, m) | None \<Rightarrow> Inr (?h, m\<lparr>bm_hash := Some ?h\<rparr>))"
    by (simp add: AbstractBroadcastMessage_message_hash_def Sha256Hash_init_ok SHA256_HASH_LEN_def cong: option.case_cong)
  show "binary ?h = f_hash (tx_abs L m)" by (simp add: tx_abs_fields)
  then show "tx_cached (tx_abs L m) (m\<lparr>bm_hash := Some ?h\<rparr>)" by (rule tx_cached_update[OF tx_facts(5)[OF assms]])
qed (use tx_cached_attrs[OF tx_facts(5)[OF assms]] in simp_all)

lemma tx_read_network:
  assumes "tx_inv L m"
  shows "tx_returns L AbstractBroadcastMessage_network_num (\<lambda>n. n = f_network (tx_abs L m)) m"
proof (rule tx_returns_cached[OF assms, where attr = "bm_network_num m"])
  show "AbstractBroadcastMessage_network_num m = (case bm_network_num m of Some x \<Rightarrow> Inr (x, m)
      | None \<Rightarrow> Inr (f_network (tx_abs L m), m\<lparr>bm_network_num := Some (f_network (tx_abs L m))\<rparr>))"
    using tx_facts(9)[OF assms]
    by (simp add: AbstractBroadcastMessage_network_num_def unpack_from_def SHA256_HASH_LEN_def tx_abs_fields split: option.split)
  show "tx_cached (tx_abs L m) (m\<lparr>bm_network_num := Some (f_network (tx_abs L m))\<rparr>)"
    by (rule tx_cached_update[OF tx_facts(5)[OF assms]]) simp
qed (use tx_cached_attrs[OF tx_facts(5)[OF assms]] in simp_all)

lemma tx_read_source:
  assumes "tx_inv L m"
  shows "tx_returns L AbstractBroadcastMessage_source_id (\<lambda>s. uuid_pack_to_bytes s = f_source (tx_abs L m)) m"
proof (rule tx_returns_cached[OF assms, where attr = "bm_source_id m"])
  let ?b = "bslice 56 72 (msg_buf m)"
  have b: "length ?b = 16" using tx_facts(9)[OF assms] by simp
  obtain r where "uuid_pack_from_bytes ?b = Inr r" using uuid_from_16[OF b] by blast
  then show "AbstractBroadcastMessage_source_id m = (case bm_source_id m of Some x \<Rightarrow> Inr (x, m)
      | None \<Rightarrow> Inr (source_of ?b, m\<lparr>bm_source_id := Some (source_of ?b)\<rparr>))"
    using tx_facts(9)[OF assms]
    by (simp add: AbstractBroadcastMessage_source_id_def unpack_s_def source_of_def split: option.split)
  show "uuid_pack_to_bytes (source_of ?b) = f_source (tx_abs L m)" using source_of_packs[OF b] by (simp add: tx_abs_fields)
  then show "tx_cached (tx_abs L m) (m\<lparr>bm_source_id := Some (source_of ?b)\<rparr>)"
    by (rule tx_cached_update[OF tx_facts(5)[OF assms]])
qed (use tx_cached_attrs[OF tx_facts(5)[OF assms]] in simp_all)

lemma tx_read_short_id:
  assumes "tx_inv L m"
  shows "tx_returns L tx_short_id (\<lambda>s. s = f_short_id (tx_abs L m)) m"
proof (rule tx_returns_cached[OF assms, where attr = "tm_short_id m"])
  show "tx_short_id m = (case tm_short_id m of Some x \<Rightarrow> Inr (x, m)
      | None \<Rightarrow> Inr (f_short_id (tx_abs L m), m\<lparr>tm_short_id := Some (f_short_id (tx_abs L m))\<rparr>))"
    using tx_facts(9)[OF assms] by (simp add: tx_short_id_def unpack_from_def tx_abs_fields split: option.split)
  show "tx_cached (tx_abs L m) (m\<lparr>tm_short_id := Some (f_short_id (tx_abs L m))\<rparr>)"
    by (rule tx_cached_update[OF tx_facts(5)[OF assms]]) simp
qed (use tx_cached_attrs[OF tx_facts(5)[OF assms]] in simp_all)

lemma tx_read_flag:
  assumes "tx_inv L m"
  shows "tx_returns L (tx_flag L) (\<lambda>f. f = f_flag (tx_abs L m)) m"
proof (rule tx_returns_cached[OF assms, where attr = "tm_flag m"])
  have "76 + flag_len L \<le> length (msg_buf m)" using tx_facts(1)[OF assms] by (simp add: tx_offs)
  then show "tx_flag L m = (case tm_flag m of Some x \<Rightarrow> Inr (x, m)
      | None \<Rightarrow> Inr (f_flag (tx_abs L m), m\<lparr>tm_flag := Some (f_flag (tx_abs L m))\<rparr>))"
    using tx_facts(3)[OF assms] by (simp add: tx_flag_def unpack_from_def tx_abs_fields tx_timestamp_off_def cong: option.case_cong)
  show "tx_cached (tx_abs L m) (m\<lparr>tm_flag := Some (f_flag (tx_abs L m))\<rparr>)"
    by (rule tx_cached_update[OF tx_facts(5)[OF assms]]) simp
qed (use tx_cached_attrs[OF tx_facts(5)[OF assms]] in simp_all)

lemma tx_read_timestamp:
  assumes "tx_inv L m"
  shows "tx_returns L (tx_timestamp L) (\<lambda>t. t = f_timestamp (tx_abs L m)) m"
proof (rule tx_returns_cached[OF assms, where attr = "tm_timestamp m"])
  have "tx_timestamp_off L + timestamp_len L \<le> length (msg_buf m)" using tx_facts(1)[OF assms] by (simp add: tx_offs)
  then show "tx_timestamp L m = (case tm_timestamp m of Some x \<Rightarrow> Inr (x, m)
      | None \<Rightarrow> Inr (f_timestamp (tx_abs L m), m\<lparr>tm_timestamp := Some (f_timestamp (tx_abs L m))\<rparr>))"
    by (simp add: tx_timestamp_def unpack_from_def tx_abs_fields tx_account_off_def split: option.split)
  show "tx_cached (tx_abs L m) (m\<lparr>tm_timestamp := Some (f_timestamp (tx_abs L m))\<rparr>)"
    by (rule tx_cached_update[OF tx_facts(5)[OF assms]]) simp
qed (use tx_cached_attrs[OF tx_facts(5)[OF assms]] in simp_all)

lemma tx_read_val:
  assumes "tx_inv L m"
  shows "tx_returns L (tx_tx_val L) (\<lambda>v. v = f_val (tx_abs L m)) m"
proof (rule tx_returns_cached[OF assms, where attr = "tm_tx_val m"])
  show "tx_tx_val L m = (case tm_tx_val m of Some x \<Rightarrow> Inr (x, m)
      | None \<Rightarrow> Inr (f_val (tx_abs L m), m\<lparr>tm_tx_val := Some (f_val (tx_abs L m))\<rparr>))"
    using tx_facts(2,9)[OF assms]
    by (simp add: tx_tx_val_def AbstractInternalMessage_payload_len_def tx_abs_fields Let_def split: option.split)
  show "tx_cached (tx_abs L m) (m\<lparr>tm_tx_val := Some (f_val (tx_abs L m))\<rparr>)"
    by (rule tx_cached_update[OF tx_facts(5)[OF assms]]) simp
qed (use tx_cached_attrs[OF tx_facts(5)[OF assms]] in simp_all)

lemma tx_read_account:
  assumes "tx_inv TxMessage_layout m"
  shows "tx_returns TxMessage_layout TxMessage_account_id
    (\<lambda>a. a = f_account (tx_abs TxMessage_layout m)) m"
proof -
  let ?a = "f_account (tx_abs TxMessage_layout m)"
  have len: "122 < length (msg_buf m)" using tx_facts(1)[OF assms] by (simp add: tx_offs TxMessage_layout_def)
  show ?thesis
  proof (cases "tm_account_id m = DECODED_EMPTY_ACCOUNT_ID")
    case True
    then have "TxMessage_account_id m = Inr (?a, m\<lparr>tm_account_id := ?a\<rparr>)"
      using len tx_facts(4)[OF assms]
      by (simp add: TxMessage_account_id_def unpack_s_def utf8_decode_def tx_abs_fields tx_offs TxMessage_layout_def)
    from this refl assms show ?thesis
      by (rule tx_returns_simple) (simp_all add: tx_cached_update(8)[OF tx_facts(5)[OF assms] refl])
  next
    case False
    then have "tm_account_id m = ?a" using tx_facts(5)[OF assms] by (simp add: tx_cached_def)
    with False have "TxMessage_account_id m = Inr (?a, m)" by (simp add: TxMessage_account_id_def)
    from this refl assms show ?thesis
      by (rule tx_returns_simple) (simp_all add: tx_facts(5)[OF assms])
  qed
qed

lemmas tx_reads = tx_read_hash tx_read_network tx_read_source tx_read_short_id tx_read_flag tx_read_timestamp tx_read_val

text \<open>Each setter changes its field and nothing else.\<close>

definition tx_becomes :: "tx_layout \<Rightarrow> (tx_message \<Rightarrow> tx_message result) \<Rightarrow> tx_message \<Rightarrow> tx_fields \<Rightarrow> bool" where
  "tx_becomes L g m f \<longleftrightarrow> (\<exists>m'. g m = Inr m' \<and> tx_inv L m' \<and> tx_abs L m' = f)"

lemma tx_becomesI:
  assumes "g m = Inr m'" and "tx_abs L m' = f" and "length (msg_buf m') = length (msg_buf m)" and "payload_len_field m' = payload_len_field m"
    and "tx_inv L m" and "f_flag f < flag_bound L" and "f_account f = f_account (tx_abs L m)" and "tx_cached f m'"
  shows "tx_becomes L g m f"
  using assms tx_facts[OF assms(5)] unfolding tx_becomes_def tx_inv_def by auto

lemma tx_set_flag_spec:
  assumes "tx_inv L m" and "x < flag_bound L" and "x < 256 ^ flag_len L"
  shows "tx_becomes L (tx_set_flag L x) m ((tx_abs L m)\<lparr>f_flag := x\<rparr>)"
proof (rule tx_becomesI[OF _ _ _ _ assms(1)])
  let ?b = "bput 76 (le_bytes (flag_len L) x) (msg_buf m)"
  let ?m = "m\<lparr>tm_flag := Some x, msg_buf := ?b\<rparr>"
  have fits: "76 + flag_len L + timestamp_len L + account_len L < length (msg_buf m)"
    using tx_facts(1)[OF assms(1)] by (simp add: tx_offs)
  then show "tx_set_flag L x m = Inr ?m" using assms(3) by (simp add: tx_set_flag_def pack_into_def)
  show "tx_abs L ?m = (tx_abs L m)\<lparr>f_flag := x\<rparr>"
    using fits assms(3) by (simp add: tx_abs_def Let_def byte_simps tx_offs)
  show "length (msg_buf ?m) = length (msg_buf m)" using fits by simp
  show "tx_cached ((tx_abs L m)\<lparr>f_flag := x\<rparr>) ?m" using tx_facts(5)[OF assms(1)] by (simp add: tx_cached_def)
qed (use assms(2) in simp_all)

lemma tx_set_timestamp_spec:
  assumes "tx_inv L m" and "x < 256 ^ timestamp_len L"
  shows "tx_becomes L (tx_set_timestamp L x) m ((tx_abs L m)\<lparr>f_timestamp := x\<rparr>)"
proof (rule tx_becomesI[OF _ _ _ _ assms(1)])
  let ?b = "bput (tx_timestamp_off L) (le_bytes (timestamp_len L) x) (msg_buf m)"
  let ?m = "m\<lparr>tm_timestamp := Some x, msg_buf := ?b\<rparr>"
  have fits: "76 + flag_len L + timestamp_len L + account_len L < length (msg_buf m)"
    using tx_facts(1)[OF assms(1)] by (simp add: tx_offs)
  then show "tx_set_timestamp L x m = Inr ?m" using assms(2) by (simp add: tx_set_timestamp_def pack_into_def tx_offs)
  show "tx_abs L ?m = (tx_abs L m)\<lparr>f_timestamp := x\<rparr>"
    using fits assms(2) by (simp add: tx_abs_def Let_def byte_simps tx_offs)
  show "length (msg_buf ?m) = length (msg_buf m)" using fits by (simp add: tx_offs)
  show "tx_cached ((tx_abs L m)\<lparr>f_timestamp := x\<rparr>) ?m" using tx_facts(5)[OF assms(1)] by (simp add: tx_cached_def)
qed (use tx_facts(3)[OF assms(1)] in simp_all)

lemma tx_clear_timestamp_spec:
  assumes "tx_inv L m"
  shows "tx_becomes L (tx_clear_timestamp L) m ((tx_abs L m)\<lparr>f_timestamp := NULL_TX_TIMESTAMP\<rparr>)"
proof -
  have "tx_clear_timestamp L m = tx_set_timestamp L NULL_TX_TIMESTAMP m"
    by (cases "pack_into (timestamp_len L) (msg_buf m) (tx_timestamp_off L) 0")
      (simp_all add: tx_clear_timestamp_def tx_set_timestamp_def)
  then show ?thesis using tx_set_timestamp_spec[OF assms, of 0] by (simp add: tx_becomes_def)
qed

lemma tx_clear_short_id_spec:
  assumes "tx_inv L m"
  shows "tx_becomes L tx_clear_short_id m ((tx_abs L m)\<lparr>f_short_id := 0\<rparr>)"
proof (rule tx_becomesI[OF _ _ _ _ assms(1)])
  let ?b = "bput 72 (le_bytes 4 0) (msg_buf m)"
  let ?m = "m\<lparr>msg_buf := ?b, tm_short_id := Some 0\<rparr>"
  have fits: "76 + flag_len L + timestamp_len L + account_len L < length (msg_buf m)"
    using tx_facts(1)[OF assms(1)] by (simp add: tx_offs)
  then show "tx_clear_short_id m = Inr ?m" by (simp add: tx_clear_short_id_def pack_into_def)
  show "tx_abs L ?m = (tx_abs L m)\<lparr>f_short_id := 0\<rparr>"
    using fits by (simp add: tx_abs_def Let_def byte_simps tx_offs del: le_bytes_zero)
  show "length (msg_buf ?m) = length (msg_buf m)" using fits by simp
  show "tx_cached ((tx_abs L m)\<lparr>f_short_id := 0\<rparr>) ?m" using tx_facts(5)[OF assms(1)] by (simp add: tx_cached_def)
qed (use tx_facts(3)[OF assms(1)] in simp_all)

lemma tx_clear_protected_spec:
  assumes "tx_inv L m"
  shows "tx_becomes L (tx_clear_protected_fields L) m ((tx_abs L m)\<lparr>f_short_id := 0, f_timestamp := NULL_TX_TIMESTAMP\<rparr>)"
proof -
  obtain m1 where m1: "tx_clear_short_id m = Inr m1" "tx_inv L m1" "tx_abs L m1 = (tx_abs L m)\<lparr>f_short_id := 0\<rparr>"
    using tx_clear_short_id_spec[OF assms] by (auto simp: tx_becomes_def)
  then show ?thesis
    using tx_clear_timestamp_spec[OF m1(2)] by (simp add: tx_becomes_def tx_clear_protected_fields_def)
qed

lemma tx_set_source_spec:
  assumes "tx_inv L m"
  shows "tx_becomes L (AbstractBroadcastMessage_set_source_id s) m ((tx_abs L m)\<lparr>f_source := uuid_pack_to_bytes s\<rparr>)"
proof (rule tx_becomesI[OF _ _ _ _ assms(1)])
  let ?b = "bput 56 (uuid_pack_to_bytes s) (msg_buf m)"
  let ?m = "m\<lparr>bm_source_id := Some s, msg_buf := ?b\<rparr>"
  have fits: "76 + flag_len L + timestamp_len L + account_len L < length (msg_buf m)"
    using tx_facts(1)[OF assms(1)] by (simp add: tx_offs)
  then show "AbstractBroadcastMessage_set_source_id s m = Inr ?m"
    by (simp add: AbstractBroadcastMessage_set_source_id_def pack_s_def)
  show "tx_abs L ?m = (tx_abs L m)\<lparr>f_source := uuid_pack_to_bytes s\<rparr>"
    using fits by (simp add: tx_abs_def Let_def byte_simps tx_offs)
  show "length (msg_buf ?m) = length (msg_buf m)" using fits by simp
  show "tx_cached ((tx_abs L m)\<lparr>f_source := uuid_pack_to_bytes s\<rparr>) ?m" using tx_facts(5)[OF assms(1)] by (simp add: tx_cached_def)
qed (use tx_facts(3)[OF assms(1)] in simp_all)

subsection \<open>Building and reading a transaction message\<close>

definition tx_body :: "tx_layout \<Rightarrow> tx_fields \<Rightarrow> bytes" where
  "tx_body L f = broadcast_head (f_hash f) (f_network f) (f_source f) @ le_bytes 4 (f_short_id f) @ le_bytes (flag_len L) (f_flag f)
     @ le_bytes (timestamp_len L) (f_timestamp f) @ pad_to (account_len L) (f_account f) @ f_val f @ [1]"

definition tx_valid :: "tx_layout \<Rightarrow> tx_fields \<Rightarrow> bool" where
  "tx_valid L f \<longleftrightarrow> length (f_hash f) = 32 \<and> f_network f < 256 ^ 4 \<and> length (f_source f) = 16 \<and> f_short_id f < 256 ^ 4
     \<and> f_flag f < 256 ^ flag_len L \<and> f_flag f < flag_bound L \<and> f_timestamp f < 256 ^ timestamp_len L
     \<and> length (f_account f) \<le> account_len L \<and> utf8_valid (f_account f) \<and> (f_account f = [] \<or> last (f_account f) \<noteq> 0)
     \<and> 57 + flag_len L + timestamp_len L + account_len L + length (f_val f) < 256 ^ 4"

definition tx_object :: "tx_layout \<Rightarrow> tx_fields \<Rightarrow> tx_message" where
  "tx_object L f = tx_message_blank\<lparr>msg_buf := frame (MESSAGE_TYPE TxMessageClass) (tx_body L f),
     msg_type_field := Some (MESSAGE_TYPE TxMessageClass), payload_len_field := Some (length (tx_body L f))\<rparr>"

lemma tx_body_length:
  "tx_valid L f \<Longrightarrow> length (tx_body L f) = 57 + flag_len L + timestamp_len L + account_len L + length (f_val f)"
  by (simp add: tx_body_def tx_valid_def broadcast_head_def)

lemma tx_body_good: "tx_valid L f \<Longrightarrow> good_body (tx_body L f)"
  using tx_body_length[of L f] by (simp add: good_body_def tx_valid_def) (simp add: tx_body_def)

lemma writes_opt: "v < 256 ^ w \<Longrightarrow> writes (\<lambda>b o'. put_opt w b o' v) (le_bytes w v)"
  using writes_u[of v w] by (cases "w = 0") (simp_all add: put_opt_def writes_nothing)

lemma writes_s: "writes (\<lambda>b o'. put_s n b o' s) (pad_to n s)"
proof (cases "n = 0")
  case True
  then show ?thesis by (simp add: put_s_def writes_nothing pad_to_def)
next
  case False
  then show ?thesis by (simp add: put_s_def writes_def pack_s_def)
qed

lemma writes_val:
  "writes (\<lambda>b o'. case tx_val of None \<Rightarrow> Inr (b, o') | Some v \<Rightarrow> put_raw (length v) b o' v) (case tx_val of None \<Rightarrow> [] | Some v \<Rightarrow> v)"
  by (cases tx_val) (simp_all add: writes_nothing writes_raw)

lemma tx_init_new:
  assumes "tx_valid L f" and "f_hash f = binary h" and "f_source f = uuid_pack_to_bytes s"
    and "f_val f = (case tx_val of None \<Rightarrow> [] | Some v \<Rightarrow> v)" and "f_flag f = (case flag of None \<Rightarrow> no_flag L | Some x \<Rightarrow> x)"
    and "pad_to (account_len L) (case a of None \<Rightarrow> DECODED_EMPTY_ACCOUNT_ID | Some a \<Rightarrow> a) = pad_to (account_len L) (f_account f)"
  shows "tx_init L (Some h) (Some (f_network f)) s (f_short_id f) tx_val flag (f_timestamp f) a None = Inr (tx_object L f)"
proof -
  let ?k = "4 + flag_len L + timestamp_len L + account_len L + length (f_val f)"
  let ?acc = "case a of None \<Rightarrow> DECODED_EMPTY_ACCOUNT_ID | Some a \<Rightarrow> a"
  let ?e = "le_bytes 4 (f_short_id f) @ le_bytes (flag_len L) (f_flag f) @ le_bytes (timestamp_len L) (f_timestamp f)
      @ pad_to (account_len L) ?acc @ f_val f"
  let ?head = "broadcast_head (f_hash f) (f_network f) (f_source f)"
  let ?ty = "MESSAGE_TYPE TxMessageClass"
  let ?pre = "STARTING_SEQUENCE_BYTES @ pad_to 12 ?ty @ le_bytes 4 (53 + ?k) @ ?head"
  note v = assms(1)[unfolded tx_valid_def]
  have w: "writes (put_tx_fields L (f_short_id f) flag (f_timestamp f) ?acc tx_val) ?e"
    unfolding put_tx_fields_def assms(4,5)[symmetric] unfolding assms(4)
    using v assms(5) by (intro writes_seq writes_u writes_opt writes_s writes_val) simp_all
  have pre: "length ?pre = 72" using v by (simp add: broadcast_head_def)
  have fr: "frame ?ty (?head @ replicate ?k 0 @ [1]) = ?pre @ replicate ?k 0 @ [1]"
    using v by (simp add: frame_def broadcast_head_def ac_simps)
  have len: "length ?e = ?k" by simp
  have "put_tx_fields L (f_short_id f) flag (f_timestamp f) ?acc tx_val (?pre @ replicate ?k 0 @ [1]) 72
      = Inr (bput 72 ?e (?pre @ replicate ?k 0 @ [1]), 72 + length ?e)"
    using w pre len unfolding writes_def by simp
  moreover have "bput 72 ?e (?pre @ replicate ?k 0 @ [1]) = ?pre @ ?e @ [1]"
    using bput_at_end[of ?e "replicate ?k 0" ?pre "[1]"] pre len by simp
  moreover have "?pre @ ?e @ [1] = frame ?ty (tx_body L f)"
    using tx_body_length[OF assms(1)] by (simp add: frame_def tx_body_def assms(6) ac_simps)
  moreover have "AbstractBroadcastMessage_init ?ty (53 + ?k) (Some h) (Some (f_network f)) (Some s) None tx_message_blank
      = Inr (tx_message_blank\<lparr>msg_buf := frame ?ty (?head @ replicate ?k 0 @ [1]), msg_type_field := Some ?ty,
               payload_len_field := Some (53 + ?k), payload_field := None, msg_priority := False\<rparr>)"
    using broadcast_init_new[of h "f_network f" ?k ?ty s tx_message_blank] v assms(2,3) by simp
  moreover have "53 + ?k = 57 + flag_len L + timestamp_len L + account_len L + (case tx_val of None \<Rightarrow> 0 | Some v \<Rightarrow> length v)"
    using assms(4) by (simp split: option.split)
  ultimately show ?thesis
    using tx_body_length[OF assms(1)] fr
    by (simp add: tx_init_def Let_def tx_object_def tx_message_blank_def ac_simps)
qed

lemma tx_init_parse:
  assumes "tx_valid L f"
  shows "tx_init L None None [] 0 None None 0 None (Some (frame (MESSAGE_TYPE TxMessageClass) (tx_body L f))) = Inr (tx_object L f)"
proof -
  let ?ty = "MESSAGE_TYPE TxMessageClass" and ?body = "tx_body L f"
  let ?h = "STARTING_SEQUENCE_BYTES @ pad_to 12 ?ty @ le_bytes 4 (length ?body)"
  have g: "good_body ?body" by (rule tx_body_good[OF assms])
  have "msg_buf (tx_message_blank\<lparr>msg_buf := frame ?ty ?body\<rparr>) = ?h @ ?body" "length ?h = 20" "?body \<noteq> []" "length ?body < 256 ^ 4"
    using g by (simp_all add: frame_def good_body_def)
  note init_frame[OF this, of ?ty]
  moreover have "mark_valid ?body = ?body" using g by (simp add: good_body_def mark_valid_good)
  ultimately show ?thesis
    by (simp add: tx_init_def AbstractBroadcastMessage_init_def Let_def tx_object_def frame_def tx_message_blank_def)
qed

lemma tx_object_abs:
  assumes "tx_valid L f"
  shows "tx_abs L (tx_object L f) = f"
proof -
  note v = assms[unfolded tx_valid_def]
  let ?pre = "STARTING_SEQUENCE_BYTES @ pad_to 12 (MESSAGE_TYPE TxMessageClass) @ le_bytes 4 (length (tx_body L f))"
  have b: "msg_buf (tx_object L f) = ?pre @ f_hash f @ le_bytes 4 (f_network f) @ f_source f @ le_bytes 4 (f_short_id f)
      @ le_bytes (flag_len L) (f_flag f) @ le_bytes (timestamp_len L) (f_timestamp f) @ pad_to (account_len L) (f_account f) @ f_val f @ [1]"
    by (simp add: tx_object_def frame_def tx_body_def broadcast_head_def)
  have "rstrip0 (pad_to (account_len L) (f_account f)) = f_account f" using v by (intro rstrip0_pad_to) auto
  then have "f_hash (tx_abs L (tx_object L f)) = f_hash f" "f_network (tx_abs L (tx_object L f)) = f_network f"
    "f_source (tx_abs L (tx_object L f)) = f_source f" "f_short_id (tx_abs L (tx_object L f)) = f_short_id f"
    "f_flag (tx_abs L (tx_object L f)) = f_flag f" "f_timestamp (tx_abs L (tx_object L f)) = f_timestamp f"
    "f_account (tx_abs L (tx_object L f)) = f_account f" "f_val (tx_abs L (tx_object L f)) = f_val f"
    unfolding tx_abs_fields b using v by (simp_all add: bslice_skip take_hit tx_offs of_le_le_bytes)
  then show ?thesis by simp
qed

lemma tx_object_inv:
  assumes "tx_valid L f"
  shows "tx_inv L (tx_object L f)"
proof -
  have "tx_cached f (tx_object L f)" by (simp add: tx_cached_def tx_object_def tx_message_blank_def)
  then show ?thesis
    using assms tx_body_length[OF assms] unfolding tx_inv_def tx_object_abs[OF assms]
    by (simp add: tx_object_def tx_valid_def tx_offs)
qed

text \<open>
  The operations of a transaction message, and what each does to its fields. The hash and the message id
  are remembered when they are first read, and \<open>set_message_hash\<close> does not drop them: the specification
  keeps, next to the fields, the hash that was current when each of the two was first read.
\<close>

datatype tx_op =
    ReadHash | ReadMessageId | ReadNetworkNum | ReadSourceId | ReadShortId | ReadFlag | ReadTimestamp | ReadAccountId | ReadTxVal
  | SetMessageHash object_hash | SetFlag nat | SetTimestamp nat | SetSourceId string
  | ClearShortId | ClearTimestamp | ClearProtectedFields

definition run_read :: "('a \<times> tx_message) result \<Rightarrow> tx_message result" where
  "run_read r = rbind r (\<lambda>(_, m). Inr m)"

definition tx_step :: "tx_message \<Rightarrow> tx_op \<Rightarrow> tx_message result" where
  "tx_step m op =
     (let L = TxMessage_layout in
      case op of
        ReadHash \<Rightarrow> run_read (AbstractBroadcastMessage_message_hash m)
      | ReadMessageId \<Rightarrow> run_read (AbstractBroadcastMessage_message_id m)
      | ReadNetworkNum \<Rightarrow> run_read (AbstractBroadcastMessage_network_num m)
      | ReadSourceId \<Rightarrow> run_read (AbstractBroadcastMessage_source_id m)
      | ReadShortId \<Rightarrow> run_read (tx_short_id m)
      | ReadFlag \<Rightarrow> run_read (tx_flag L m)
      | ReadTimestamp \<Rightarrow> run_read (tx_timestamp L m)
      | ReadAccountId \<Rightarrow> run_read (TxMessage_account_id m)
      | ReadTxVal \<Rightarrow> run_read (tx_tx_val L m)
      | SetMessageHash h \<Rightarrow> Inr (AbstractBroadcastMessage_set_message_hash h m)
      | SetFlag f \<Rightarrow> tx_set_flag L f m
      | SetTimestamp t \<Rightarrow> tx_set_timestamp L t m
      | SetSourceId s \<Rightarrow> AbstractBroadcastMessage_set_source_id s m
      | ClearShortId \<Rightarrow> tx_clear_short_id m
      | ClearTimestamp \<Rightarrow> tx_clear_timestamp L m
      | ClearProtectedFields \<Rightarrow> tx_clear_protected_fields L m)"

definition tx_admissible :: "tx_op \<Rightarrow> bool" where
  "tx_admissible op = (case op of SetMessageHash h \<Rightarrow> length (binary h) = 32 | SetFlag f \<Rightarrow> f < 8192 | SetTimestamp t \<Rightarrow> t < 256 ^ 8 | _ \<Rightarrow> True)"

type_synonym tx_spec = "tx_fields \<times> bytes option \<times> bytes option"

definition remembered :: "bytes option \<Rightarrow> tx_fields \<Rightarrow> bytes" where
  "remembered h f = (case h of None \<Rightarrow> f_hash f | Some x \<Rightarrow> x)"

definition set_fields :: "tx_op \<Rightarrow> tx_fields \<Rightarrow> tx_fields" where
  "set_fields op f =
     (case op of
        SetMessageHash x \<Rightarrow> f\<lparr>f_hash := binary x\<rparr>
      | SetFlag x \<Rightarrow> f\<lparr>f_flag := x\<rparr>
      | SetTimestamp t \<Rightarrow> f\<lparr>f_timestamp := t\<rparr>
      | SetSourceId s \<Rightarrow> f\<lparr>f_source := uuid_pack_to_bytes s\<rparr>
      | ClearShortId \<Rightarrow> f\<lparr>f_short_id := 0\<rparr>
      | ClearTimestamp \<Rightarrow> f\<lparr>f_timestamp := 0\<rparr>
      | ClearProtectedFields \<Rightarrow> f\<lparr>f_short_id := 0, f_timestamp := 0\<rparr>
      | _ \<Rightarrow> f)"

fun tx_spec_step :: "tx_spec \<Rightarrow> tx_op \<Rightarrow> tx_spec" where
  "tx_spec_step (f, h, i) ReadHash = (f, Some (remembered h f), i)"
| "tx_spec_step (f, h, i) ReadMessageId = (f, h, Some (remembered i f))"
| "tx_spec_step (f, h, i) op = (set_fields op f, h, i)"

lemma tx_returns_step:
  "tx_returns L g P m \<Longrightarrow> \<exists>m'. run_read (g m) = Inr m' \<and> tx_inv L m' \<and> tx_abs L m' = tx_abs L m"
  by (auto simp: tx_returns_def run_read_def)

lemma tx_returns_some: "tx_returns L g P m \<Longrightarrow> \<exists>x m'. g m = Inr (x, m') \<and> P x"
  by (auto simp: tx_returns_def)

lemma tx_returns_value: "tx_returns L g (\<lambda>x. x = v) m \<Longrightarrow> \<exists>m'. g m = Inr (v, m')"
  by (auto simp: tx_returns_def)

text \<open>Operations other than those on the hash neither look at what is remembered of it nor change it.\<close>

fun on_hash :: "tx_op \<Rightarrow> bool" where
  "on_hash ReadHash = True"
| "on_hash ReadMessageId = True"
| "on_hash (SetMessageHash x) = True"
| "on_hash _ = False"

definition forget :: "tx_message \<Rightarrow> tx_message" where
  "forget m = m\<lparr>bm_hash := None, bm_message_id := None\<rparr>"

lemma plain_step_spec:
  assumes "tx_inv TxMessage_layout m" and "tx_admissible op" and "\<not> on_hash op"
  shows "\<exists>m'. tx_step m op = Inr m' \<and> tx_inv TxMessage_layout m'
    \<and> tx_abs TxMessage_layout m' = set_fields op (tx_abs TxMessage_layout m)"
proof -
  have f: "x < 8192 \<Longrightarrow> x < flag_bound TxMessage_layout \<and> x < 256 ^ flag_len TxMessage_layout"
    and t: "timestamp_len TxMessage_layout = 8" for x
    by (simp_all add: TxMessage_layout_def)
  show ?thesis
    using assms(2,3) tx_reads[OF assms(1), THEN tx_returns_step] tx_read_account[OF assms(1), THEN tx_returns_step]
      tx_set_flag_spec[OF assms(1)] tx_set_timestamp_spec[OF assms(1)] tx_set_source_spec[OF assms(1)]
      tx_clear_short_id_spec[OF assms(1)] tx_clear_timestamp_spec[OF assms(1)] tx_clear_protected_spec[OF assms(1)]
    by (cases op) (simp_all add: tx_step_def set_fields_def tx_admissible_def tx_becomes_def f t)
qed

lemma forget_reads:
  "AbstractBroadcastMessage_network_num (forget m) = rbind (AbstractBroadcastMessage_network_num m) (\<lambda>(x, m'). Inr (x, forget m'))"
  "AbstractBroadcastMessage_source_id (forget m) = rbind (AbstractBroadcastMessage_source_id m) (\<lambda>(x, m'). Inr (x, forget m'))"
  "tx_short_id (forget m) = rbind (tx_short_id m) (\<lambda>(x, m'). Inr (x, forget m'))"
  "tx_flag L (forget m) = rbind (tx_flag L m) (\<lambda>(x, m'). Inr (x, forget m'))"
  "tx_timestamp L (forget m) = rbind (tx_timestamp L m) (\<lambda>(x, m'). Inr (x, forget m'))"
  "TxMessage_account_id (forget m) = rbind (TxMessage_account_id m) (\<lambda>(x, m'). Inr (x, forget m'))"
  "tx_tx_val L (forget m) = rbind (tx_tx_val L m) (\<lambda>(x, m'). Inr (x, forget m'))"
  by (auto simp: forget_def AbstractBroadcastMessage_network_num_def AbstractBroadcastMessage_source_id_def tx_short_id_def tx_flag_def
      tx_timestamp_def TxMessage_account_id_def tx_tx_val_def AbstractInternalMessage_payload_len_def rbind_def Let_def
      split: option.split sum.split)

lemma forget_sets:
  "tx_set_flag L x (forget m) = rbind (tx_set_flag L x m) (\<lambda>m'. Inr (forget m'))"
  "tx_set_timestamp L x (forget m) = rbind (tx_set_timestamp L x m) (\<lambda>m'. Inr (forget m'))"
  "AbstractBroadcastMessage_set_source_id y (forget m) = rbind (AbstractBroadcastMessage_set_source_id y m) (\<lambda>m'. Inr (forget m'))"
  "tx_clear_short_id (forget m) = rbind (tx_clear_short_id m) (\<lambda>m'. Inr (forget m'))"
  "tx_clear_timestamp L (forget m) = rbind (tx_clear_timestamp L m) (\<lambda>m'. Inr (forget m'))"
  by (auto simp: forget_def tx_set_flag_def tx_set_timestamp_def AbstractBroadcastMessage_set_source_id_def
      tx_clear_short_id_def tx_clear_timestamp_def rbind_def split: sum.split)

lemma forget_clear: "tx_clear_protected_fields L (forget m) = rbind (tx_clear_protected_fields L m) (\<lambda>m'. Inr (forget m'))"
  by (simp add: tx_clear_protected_fields_def forget_sets rbind_assoc)

lemma plain_step_forget: "\<not> on_hash op \<Longrightarrow> tx_step (forget m) op = rbind (tx_step m op) (\<lambda>m'. Inr (forget m'))"
  by (cases op) (simp_all add: tx_step_def run_read_def forget_reads forget_sets forget_clear rbind_assoc split_def)

definition keeps_hash :: "tx_message \<Rightarrow> tx_message \<Rightarrow> bool" where
  "keeps_hash m m' \<longleftrightarrow> bm_hash m' = bm_hash m \<and> bm_message_id m' = bm_message_id m"

lemma read_network_keeps: "AbstractBroadcastMessage_network_num m = Inr (v, m') \<Longrightarrow> keeps_hash m m'"
  by (auto simp: keeps_hash_def AbstractBroadcastMessage_network_num_def rbind_eq_Inr Let_def split: option.splits if_splits)

lemma read_source_keeps: "AbstractBroadcastMessage_source_id m = Inr (v, m') \<Longrightarrow> keeps_hash m m'"
  unfolding AbstractBroadcastMessage_source_id_def Let_def keeps_hash_def
  by (cases "bm_source_id m") (auto simp: rbind_eq_Inr)

lemma read_short_id_keeps: "tx_short_id m = Inr (v, m') \<Longrightarrow> keeps_hash m m'"
  by (auto simp: keeps_hash_def tx_short_id_def rbind_eq_Inr Let_def split: option.splits if_splits)

lemma read_flag_keeps: "tx_flag L m = Inr (v, m') \<Longrightarrow> keeps_hash m m'"
  by (auto simp: keeps_hash_def tx_flag_def rbind_eq_Inr Let_def split: option.splits if_splits)

lemma read_timestamp_keeps: "tx_timestamp L m = Inr (v, m') \<Longrightarrow> keeps_hash m m'"
  by (auto simp: keeps_hash_def tx_timestamp_def rbind_eq_Inr Let_def split: option.splits if_splits)

lemma read_account_keeps: "TxMessage_account_id m = Inr (v, m') \<Longrightarrow> keeps_hash m m'"
  by (auto simp: keeps_hash_def TxMessage_account_id_def rbind_eq_Inr Let_def split: option.splits if_splits)

lemma read_val_keeps: "tx_tx_val L m = Inr (v, m') \<Longrightarrow> keeps_hash m m'"
  by (auto simp: keeps_hash_def tx_tx_val_def rbind_eq_Inr Let_def AbstractInternalMessage_payload_len_def split: option.splits if_splits)

lemma sets_keep:
  "tx_set_flag L x m = Inr m' \<Longrightarrow> keeps_hash m m'"
  "tx_set_timestamp L x m = Inr m' \<Longrightarrow> keeps_hash m m'"
  "AbstractBroadcastMessage_set_source_id y m = Inr m' \<Longrightarrow> keeps_hash m m'"
  "tx_clear_short_id m = Inr m' \<Longrightarrow> keeps_hash m m'"
  "tx_clear_timestamp L m = Inr m' \<Longrightarrow> keeps_hash m m'"
  by (auto simp: keeps_hash_def tx_set_flag_def tx_set_timestamp_def AbstractBroadcastMessage_set_source_id_def
      tx_clear_short_id_def tx_clear_timestamp_def rbind_eq_Inr)

lemma clear_keeps: "tx_clear_protected_fields L m = Inr m' \<Longrightarrow> keeps_hash m m'"
  using sets_keep(4,5) by (fastforce simp: tx_clear_protected_fields_def rbind_eq_Inr keeps_hash_def)

lemmas keeps = read_network_keeps read_source_keeps read_short_id_keeps read_flag_keeps read_timestamp_keeps read_account_keeps
  read_val_keeps sets_keep clear_keeps

lemma plain_step_keeps:
  assumes "\<not> on_hash op" and "tx_step m op = Inr m'"
  shows "keeps_hash m m'"
  using assms by (cases op) (auto simp: tx_step_def run_read_def rbind_eq_Inr Let_def intro: keeps)

definition tx_view :: "tx_message \<Rightarrow> tx_spec" where
  "tx_view m = (tx_abs TxMessage_layout m, map_option binary (bm_hash m), map_option (\<lambda>x. take 32 (binary x)) (bm_message_id m))"

definition tx_coherent :: "tx_message \<Rightarrow> bool" where
  "tx_coherent m \<longleftrightarrow> tx_inv TxMessage_layout (forget m)
     \<and> (\<forall>x. bm_message_id m = Some x \<longrightarrow> drop 32 (binary x) = le_bytes 4 (f_network (tx_abs TxMessage_layout m)))"

lemma forget_simps [simp]:
  "msg_buf (forget m) = msg_buf m" "tx_abs L (forget m) = tx_abs L m"
  "forget (m\<lparr>bm_hash := h\<rparr>) = forget m" "forget (m\<lparr>bm_message_id := h\<rparr>) = forget m"
  "forget (m\<lparr>msg_buf := b\<rparr>) = (forget m)\<lparr>msg_buf := b\<rparr>"
  by (simp_all add: forget_def tx_abs_def)

lemma tx_abs_remembered [simp]: "tx_abs L (m\<lparr>bm_hash := h\<rparr>) = tx_abs L m" "tx_abs L (m\<lparr>bm_message_id := h\<rparr>) = tx_abs L m"
  by (simp_all add: tx_abs_def)

lemma set_fields_network [simp]: "f_network (set_fields op f) = f_network f"
  by (cases op) (simp_all add: set_fields_def)

lemma plain_step_view:
  assumes "tx_coherent m" and "tx_admissible op" and "\<not> on_hash op"
  shows "\<exists>m'. tx_step m op = Inr m' \<and> tx_coherent m' \<and> tx_view m' = tx_spec_step (tx_view m) op"
proof -
  obtain m1 where m1: "tx_step (forget m) op = Inr m1" "tx_inv TxMessage_layout m1"
    "tx_abs TxMessage_layout m1 = set_fields op (tx_abs TxMessage_layout m)"
    using plain_step_spec[of "forget m" op] assms by (auto simp: tx_coherent_def)
  then obtain m' where m': "tx_step m op = Inr m'" "m1 = forget m'" using plain_step_forget[OF assms(3), of m] by (auto simp: rbind_eq_Inr)
  have keeps: "bm_hash m' = bm_hash m" "bm_message_id m' = bm_message_id m"
    using plain_step_keeps[OF assms(3) m'(1)] by (simp_all add: keeps_hash_def)
  have "tx_coherent m'" using assms(1) m1(2,3) m'(2) keeps by (simp add: tx_coherent_def)
  moreover have "tx_view m' = tx_spec_step (tx_view m) op"
    using m1(3) m'(2) assms(3) keeps by (cases op) (simp_all add: tx_view_def)
  ultimately show ?thesis using m'(1) by blast
qed

lemma read_hash_view:
  assumes "tx_coherent m"
  shows "\<exists>x m'. AbstractBroadcastMessage_message_hash m = Inr (x, m') \<and> tx_coherent m' \<and> binary x = remembered (fst (snd (tx_view m))) (tx_abs TxMessage_layout m)
    \<and> tx_view m' = tx_spec_step (tx_view m) ReadHash"
proof (cases "bm_hash m")
  case (Some h)
  then show ?thesis using assms by (simp add: AbstractBroadcastMessage_message_hash_def tx_view_def remembered_def)
next
  case None
  have "76 < length (msg_buf m)" using assms tx_facts(9)[of TxMessage_layout "forget m"] by (simp add: tx_coherent_def)
  then have "AbstractBroadcastMessage_message_hash m = Inr (\<lparr>binary = bslice 20 52 (msg_buf m), hash_value = of_le (drop 28 (bslice 20 52 (msg_buf m)))\<rparr>,
      m\<lparr>bm_hash := Some \<lparr>binary = bslice 20 52 (msg_buf m), hash_value = of_le (drop 28 (bslice 20 52 (msg_buf m)))\<rparr>\<rparr>)"
    using None by (simp add: AbstractBroadcastMessage_message_hash_def Sha256Hash_init_ok SHA256_HASH_LEN_def)
  then show ?thesis using assms None by (simp add: tx_coherent_def tx_view_def remembered_def tx_abs_fields)
qed

lemma read_id_view:
  assumes "tx_coherent m"
  shows "\<exists>x m'. AbstractBroadcastMessage_message_id m = Inr (x, m') \<and> tx_coherent m'
    \<and> binary x = remembered (snd (snd (tx_view m))) (tx_abs TxMessage_layout m) @ le_bytes 4 (f_network (tx_abs TxMessage_layout m))
    \<and> tx_view m' = tx_spec_step (tx_view m) ReadMessageId"
proof (cases "bm_message_id m")
  case (Some h)
  then have "binary h = take 32 (binary h) @ le_bytes 4 (f_network (tx_abs TxMessage_layout m))"
    using assms append_take_drop_id[of 32 "binary h"] by (simp add: tx_coherent_def)
  then show ?thesis using assms Some by (simp add: AbstractBroadcastMessage_message_id_def tx_view_def remembered_def tx_coherent_def)
next
  case None
  let ?b = "bslice 20 56 (msg_buf m)"
  have len: "76 < length (msg_buf m)" using assms tx_facts(9)[of TxMessage_layout "forget m"] by (simp add: tx_coherent_def)
  then have "length ?b = 36" "length (bslice 0 4 ?b) = 4" by simp_all
  then obtain x where x: "ConcatHash_init ?b 0 = Inr x" "binary x = ?b"
    by (auto simp: ConcatHash_init_def AbstractObjectHash_init_def Let_def PARTIAL_HASH_LENGTH_def)
  have "take 32 ?b = bslice 20 52 (msg_buf m)" "drop 32 ?b = bslice 52 56 (msg_buf m)" using len by (simp_all add: bslice_def min_def drop_take)
  moreover have "le_bytes 4 (of_le (bslice 52 56 (msg_buf m))) = bslice 52 56 (msg_buf m)" using len le_bytes_of_le[of "bslice 52 56 (msg_buf m)"] by simp
  moreover from calculation have "?b = bslice 20 52 (msg_buf m) @ bslice 52 56 (msg_buf m)" by (metis append_take_drop_id)
  moreover have "AbstractBroadcastMessage_message_id m = Inr (x, m\<lparr>bm_message_id := Some x\<rparr>)"
    using None x by (simp add: AbstractBroadcastMessage_message_id_def SHA256_HASH_LEN_def)
  ultimately show ?thesis using assms None x(2) by (simp add: tx_coherent_def tx_view_def remembered_def tx_abs_fields)
qed

lemma set_hash_view:
  assumes "tx_coherent m" and "length (binary x) = 32"
  shows "tx_coherent (AbstractBroadcastMessage_set_message_hash x m)"
    and "tx_view (AbstractBroadcastMessage_set_message_hash x m) = tx_spec_step (tx_view m) (SetMessageHash x)"
proof -
  let ?b = "bput 20 (binary x) (msg_buf m)"
  have inv: "tx_inv TxMessage_layout (forget m)" using assms(1) by (simp add: tx_coherent_def)
  have fits: "122 < length (msg_buf m)" using tx_facts(1)[OF inv] by (simp add: tx_offs TxMessage_layout_def)
  have set: "AbstractBroadcastMessage_set_message_hash x m = m\<lparr>msg_buf := ?b\<rparr>"
    using fits assms(2) by (simp add: AbstractBroadcastMessage_set_message_hash_def SHA256_HASH_LEN_def slice_assign_def bput_def)
  have abs: "tx_abs TxMessage_layout (m\<lparr>msg_buf := ?b\<rparr>) = (tx_abs TxMessage_layout m)\<lparr>f_hash := binary x\<rparr>"
    using fits assms(2) by (simp add: tx_abs_def Let_def byte_simps tx_offs TxMessage_layout_def)
  have abs': "tx_abs TxMessage_layout ((forget m)\<lparr>msg_buf := ?b\<rparr>) = (tx_abs TxMessage_layout m)\<lparr>f_hash := binary x\<rparr>"
    using abs by (simp add: tx_abs_def)
  have "tx_inv TxMessage_layout ((forget m)\<lparr>msg_buf := ?b\<rparr>)"
    using inv fits assms(2) unfolding tx_inv_def abs' by (simp add: tx_cached_def forget_def)
  then show "tx_coherent (AbstractBroadcastMessage_set_message_hash x m)"
    using assms(1) abs unfolding set by (simp add: tx_coherent_def)
  show "tx_view (AbstractBroadcastMessage_set_message_hash x m) = tx_spec_step (tx_view m) (SetMessageHash x)"
    unfolding set tx_view_def abs by (simp add: set_fields_def)
qed

lemma tx_step_view:
  assumes "tx_coherent m" and "tx_admissible op"
  shows "\<exists>m'. tx_step m op = Inr m' \<and> tx_coherent m' \<and> tx_view m' = tx_spec_step (tx_view m) op"
proof (cases "on_hash op")
  case False
  then show ?thesis using plain_step_view[OF assms] by blast
next
  case True
  then consider "op = ReadHash" | "op = ReadMessageId" | x where "op = SetMessageHash x" by (cases op) auto
  then show ?thesis
  proof cases
    case 1
    then show ?thesis using read_hash_view[OF assms(1)] by (auto simp: tx_step_def run_read_def)
  next
    case 2
    then show ?thesis using read_id_view[OF assms(1)] by (auto simp: tx_step_def run_read_def)
  next
    case 3
    then show ?thesis using set_hash_view[OF assms(1)] assms(2) by (simp add: tx_step_def tx_admissible_def)
  qed
qed

interpretation tx_message: refined_system tx_step tx_coherent tx_admissible tx_view tx_spec_step
proof unfold_locales
  fix m op m'
  assume a: "tx_coherent m" "tx_admissible op"
  show "\<exists>m'. tx_step m op = Inr m' \<and> tx_coherent m'" using tx_step_view[OF a] by blast
  assume "tx_step m op = Inr m'"
  then show "tx_view m' = tx_spec_step (tx_view m) op" using tx_step_view[OF a] by auto
qed

lemma spec_keeps_hash:
  "(\<forall>x. SetMessageHash x \<notin> set ops) \<Longrightarrow> foldl tx_spec_step (f, h, i) ops = (g, h', i') \<Longrightarrow> h \<in> {None, Some (f_hash f)} \<Longrightarrow> i \<in> {None, Some (f_hash f)}
    \<Longrightarrow> f_hash g = f_hash f \<and> remembered h' g = f_hash f \<and> remembered i' g = f_hash f"
proof (induction ops arbitrary: f h i)
  case Nil
  then show ?case by (auto simp: remembered_def)
next
  case (Cons op ops)
  obtain f1 h1 i1 where s: "tx_spec_step (f, h, i) op = (f1, h1, i1)" by (cases "tx_spec_step (f, h, i) op")
  have op: "\<forall>x. op \<noteq> SetMessageHash x" using Cons.prems(1) by auto
  then have "f_hash f1 = f_hash f" "h1 \<in> {None, Some (f_hash f)}" "i1 \<in> {None, Some (f_hash f)}"
    using s Cons.prems(3,4) by (cases op; auto simp: set_fields_def remembered_def)+
  then show ?case using Cons.IH[of f1 h1 i1] Cons.prems(1,2) s by auto
qed

text \<open>
  What the accessors of a transaction message answer, but for the account id, which only the current class has.
\<close>

definition tx_answers :: "tx_layout \<Rightarrow> tx_message \<Rightarrow> tx_fields \<Rightarrow> bool" where
  "tx_answers L m f \<longleftrightarrow>
     (\<exists>h m'. AbstractBroadcastMessage_message_hash m = Inr (h, m') \<and> binary h = f_hash f)
     \<and> (\<exists>m'. AbstractBroadcastMessage_network_num m = Inr (f_network f, m'))
     \<and> (\<exists>s m'. AbstractBroadcastMessage_source_id m = Inr (s, m') \<and> uuid_pack_to_bytes s = f_source f)
     \<and> (\<exists>m'. tx_short_id m = Inr (f_short_id f, m'))
     \<and> (\<exists>m'. tx_flag L m = Inr (f_flag f, m'))
     \<and> (\<exists>m'. tx_timestamp L m = Inr (f_timestamp f, m'))
     \<and> (\<exists>m'. tx_tx_val L m = Inr (f_val f, m'))"

lemma tx_answers_abs:
  assumes "tx_inv L m"
  shows "tx_answers L m (tx_abs L m)"
  unfolding tx_answers_def
  by (intro conjI tx_returns_some[OF tx_reads(1)[OF assms]] tx_returns_some[OF tx_reads(3)[OF assms]] tx_returns_value[OF tx_reads(2)[OF assms]]
      tx_returns_value[OF tx_reads(4)[OF assms]] tx_returns_value[OF tx_reads(5)[OF assms]] tx_returns_value[OF tx_reads(6)[OF assms]]
      tx_returns_value[OF tx_reads(7)[OF assms]])

lemma tx_answers_account:
  "tx_inv TxMessage_layout m \<Longrightarrow> \<exists>m'. TxMessage_account_id m = Inr (f_account (tx_abs TxMessage_layout m), m')"
  by (rule tx_returns_value[OF tx_read_account])

lemma forget_value: "acc (forget m) = rbind (acc m) (\<lambda>(x, m'). Inr (x, forget m')) \<Longrightarrow> \<exists>p. acc (forget m) = Inr (v, p) \<Longrightarrow> \<exists>p. acc m = Inr (v, p)"
  by (auto simp: rbind_eq_Inr)

text \<open>
  C13. A transaction message behaves as the record of its fields: whatever is read and set on it, in any
  order, no operation raises, each accessor then returns the field its setters left, and the bytes to
  send hold exactly these fields. The hash and the message id are the exception: each answers with the
  hash that was current when it was first read, which is the hash of the bytes as long as
  \<open>set_message_hash\<close> is not called.
\<close>

theorem tx_message_refines_fields:
  assumes "tx_valid TxMessage_layout f" and "list_all tx_admissible ops" and "foldl tx_spec_step (f, None, None) ops = (g, h, i)"
  shows "\<exists>m. rfold tx_step (tx_object TxMessage_layout f) ops = Inr m
    \<and> (\<exists>x m'. AbstractBroadcastMessage_message_hash m = Inr (x, m') \<and> binary x = remembered h g)
    \<and> (\<exists>x m'. AbstractBroadcastMessage_message_id m = Inr (x, m') \<and> binary x = remembered i g @ le_bytes 4 (f_network g))
    \<and> ((\<forall>x. SetMessageHash x \<notin> set ops) \<longrightarrow> remembered h g = f_hash g \<and> remembered i g = f_hash g)
    \<and> (\<exists>m'. AbstractBroadcastMessage_network_num m = Inr (f_network g, m'))
    \<and> (\<exists>s m'. AbstractBroadcastMessage_source_id m = Inr (s, m') \<and> uuid_pack_to_bytes s = f_source g)
    \<and> (\<exists>m'. tx_short_id m = Inr (f_short_id g, m'))
    \<and> (\<exists>m'. tx_flag TxMessage_layout m = Inr (f_flag g, m'))
    \<and> (\<exists>m'. tx_timestamp TxMessage_layout m = Inr (f_timestamp g, m'))
    \<and> (\<exists>m'. TxMessage_account_id m = Inr (f_account g, m'))
    \<and> (\<exists>m'. tx_tx_val TxMessage_layout m = Inr (f_val g, m'))
    \<and> tx_abs TxMessage_layout m = g"
proof -
  have "forget (tx_object TxMessage_layout f) = tx_object TxMessage_layout f"
    by (simp add: forget_def tx_object_def tx_message_blank_def)
  then have "tx_coherent (tx_object TxMessage_layout f)" "tx_view (tx_object TxMessage_layout f) = (f, None, None)"
    using tx_object_inv[OF assms(1)] tx_object_abs[OF assms(1)]
    by (simp_all add: tx_coherent_def tx_view_def) (simp_all add: tx_object_def tx_message_blank_def)
  then obtain m where m: "rfold tx_step (tx_object TxMessage_layout f) ops = Inr m" "tx_coherent m" "tx_view m = (g, h, i)"
    using tx_message.run_refines[of "tx_object TxMessage_layout f" ops] assms(2,3) by auto
  have inv: "tx_inv TxMessage_layout (forget m)" and abs: "tx_abs TxMessage_layout m = g" using m(2,3) by (simp_all add: tx_coherent_def tx_view_def)
  note r = tx_answers_abs[OF inv, unfolded tx_answers_def forget_simps(2) abs] tx_answers_account[OF inv, unfolded forget_simps(2) abs]
  show ?thesis
  proof (rule exI[of _ m], intro conjI m(1) abs)
    show "\<exists>x m'. AbstractBroadcastMessage_message_hash m = Inr (x, m') \<and> binary x = remembered h g"
      using read_hash_view[OF m(2)] m(3) abs by auto
    show "\<exists>x m'. AbstractBroadcastMessage_message_id m = Inr (x, m') \<and> binary x = remembered i g @ le_bytes 4 (f_network g)"
      using read_id_view[OF m(2)] m(3) abs by auto
    show "(\<forall>x. SetMessageHash x \<notin> set ops) \<longrightarrow> remembered h g = f_hash g \<and> remembered i g = f_hash g"
      using spec_keeps_hash[OF _ assms(3)] by auto
    show "\<exists>s m'. AbstractBroadcastMessage_source_id m = Inr (s, m') \<and> uuid_pack_to_bytes s = f_source g"
      using r(1) forget_reads(2)[of m] by (auto simp: rbind_eq_Inr)
    show "\<exists>p. AbstractBroadcastMessage_network_num m = Inr (f_network g, p)"
      by (rule forget_value[of AbstractBroadcastMessage_network_num, OF forget_reads(1)]) (use r(1) in blast)
    show "\<exists>p. tx_short_id m = Inr (f_short_id g, p)"
      by (rule forget_value[of tx_short_id, OF forget_reads(3)]) (use r(1) in blast)
    show "\<exists>p. tx_flag TxMessage_layout m = Inr (f_flag g, p)"
      by (rule forget_value[of "tx_flag TxMessage_layout", OF forget_reads(4)]) (use r(1) in blast)
    show "\<exists>p. tx_timestamp TxMessage_layout m = Inr (f_timestamp g, p)"
      by (rule forget_value[of "tx_timestamp TxMessage_layout", OF forget_reads(5)]) (use r(1) in blast)
    show "\<exists>p. TxMessage_account_id m = Inr (f_account g, p)"
      by (rule forget_value[of TxMessage_account_id, OF forget_reads(6)]) (use r(2) in blast)
    show "\<exists>p. tx_tx_val TxMessage_layout m = Inr (f_val g, p)"
      by (rule forget_value[of "tx_tx_val TxMessage_layout", OF forget_reads(7)]) (use r(1) in blast)
  qed
qed


definition sample_tx :: tx_fields where
  "sample_tx = \<lparr>f_hash = replicate 32 7, f_network = 5, f_source = replicate 16 0, f_short_id = 300, f_flag = 3,
     f_timestamp = 4611686018427387904, f_account = ascii ''acc-1'', f_val = [1, 2, 3]\<rparr>"

lemma sample_tx_valid: "tx_valid TxMessage_layout sample_tx"
  by (simp add: tx_valid_def sample_tx_def TxMessage_layout_def ascii_def)

lemma uuid_pack_empty: "uuid_pack_to_bytes [] = replicate 16 0"
  by (simp add: uuid_pack_to_bytes_def EMPTY_SOURCE_ID_def)


theorem tx_message_refines_fields_witness:
  "\<exists>m m' x m''. rfold tx_step (tx_object TxMessage_layout sample_tx)
      [ReadShortId, ReadHash, SetMessageHash \<lparr>binary = replicate 32 9, hash_value = 0\<rparr>, ClearProtectedFields, SetFlag 2] = Inr m
    \<and> tx_short_id m = Inr (0, m') \<and> AbstractBroadcastMessage_message_hash m = Inr (x, m'') \<and> binary x = replicate 32 7"
proof -
  let ?x = "\<lparr>binary = replicate 32 9, hash_value = 0\<rparr>"
  let ?ops = "[ReadShortId, ReadHash, SetMessageHash ?x, ClearProtectedFields, SetFlag 2]"
  have "list_all tx_admissible ?ops" by (simp add: tx_admissible_def)
  moreover have "foldl tx_spec_step (sample_tx, None, None) ?ops
      = (sample_tx\<lparr>f_hash := replicate 32 9, f_short_id := 0, f_timestamp := 0, f_flag := 2\<rparr>, Some (replicate 32 7), None)"
    by (simp add: set_fields_def remembered_def sample_tx_def)
  ultimately show ?thesis using tx_message_refines_fields[OF sample_tx_valid, of ?ops] by (auto simp: remembered_def)
qed

text \<open>\<open>set_message_hash\<close> writes the bytes but leaves a hash that was read before in place.\<close>

lemma set_message_hash_stale:
  assumes "AbstractBroadcastMessage_message_hash m = Inr (h, m')"
  shows "AbstractBroadcastMessage_message_hash (AbstractBroadcastMessage_set_message_hash h2 m')
    = Inr (h, AbstractBroadcastMessage_set_message_hash h2 m')"
proof -
  have "bm_hash m' = Some h"
    using assms by (auto simp: AbstractBroadcastMessage_message_hash_def rbind_eq_Inr split: option.splits)
  then show ?thesis by (simp add: AbstractBroadcastMessage_message_hash_def AbstractBroadcastMessage_set_message_hash_def)
qed

subsection \<open>Blocks\<close>

record broadcast_msg = broadcast +
  bc_is_encrypted :: "bool option"
  bc_blob :: "bytes option"
  bc_broadcast_type :: "bytes option"
  bc_id_with_type :: "object_hash option"

definition broadcast_msg_blank :: broadcast_msg where
  "broadcast_msg_blank =
     \<lparr>msg_buf = [], msg_type_field = None, payload_len_field = None, payload_field = None, msg_priority = False,
      bm_hash = None, bm_network_num = None, bm_source_id = None, bm_message_id = None,
      bc_is_encrypted = None, bc_blob = None, bc_broadcast_type = None, bc_id_with_type = None\<rparr>"

text \<open>\<open>BroadcastMessageType\<close>: the encoded values of its members.\<close>

definition BroadcastMessageType_BLOCK :: bytes where "BroadcastMessageType_BLOCK = ascii ''blck''"
definition BroadcastMessageType_CONSENSUS :: bytes where "BroadcastMessageType_CONSENSUS = ascii ''cons''"

text \<open>\<open>len(blob)\<close> of a missing blob raises, after the fields before it were written.\<close>

definition put_block_fields :: "bytes \<Rightarrow> bool \<Rightarrow> bytes option \<Rightarrow> bytes \<Rightarrow> nat \<Rightarrow> (bytes \<times> nat) result" where
  "put_block_fields broadcast_type is_encrypted blob b off =
     rbind (put_s 4 b off broadcast_type) (\<lambda>(b, off).
     rbind (put_u 1 b off (if is_encrypted then 1 else 0)) (\<lambda>(b, off).
       case blob of None \<Rightarrow> Inl TypeError | Some bl \<Rightarrow> put_raw (length bl) b off bl))"

definition BroadcastMessage_init ::
    "object_hash option \<Rightarrow> nat option \<Rightarrow> string \<Rightarrow> bytes \<Rightarrow> bool \<Rightarrow> bytes option \<Rightarrow> bytes option \<Rightarrow> broadcast_msg result" where
  "BroadcastMessage_init message_hash network_num source_id broadcast_type is_encrypted blob buf =
     (let payload_len = (case blob of
            Some (x # xs) \<Rightarrow> BROADCAST_PAYLOAD_LENGTH + 4 + 1 + length (x # xs)
          | _ \<Rightarrow> BROADCAST_PAYLOAD_LENGTH)
      in rbind (AbstractBroadcastMessage_init (MESSAGE_TYPE BroadcastMessageClass) payload_len message_hash network_num (Some source_id)
                  buf broadcast_msg_blank) (\<lambda>m.
           if buf \<noteq> None then Inr m
           else rbind (put_block_fields broadcast_type is_encrypted blob (msg_buf m) PAYLOAD_START_OFFSET) (\<lambda>(b, _).
                  Inr (m\<lparr>msg_buf := b\<rparr>))))"

definition BroadcastMessage_broadcast_type :: "broadcast_msg \<Rightarrow> (bytes \<times> broadcast_msg) result" where
  "BroadcastMessage_broadcast_type m =
     (case bc_broadcast_type m of
        Some t \<Rightarrow> Inr (t, m)
      | None \<Rightarrow> rbind (unpack_s 4 (msg_buf m) PAYLOAD_START_OFFSET) (\<lambda>b.
                rbind (utf8_decode b) (\<lambda>t.
                  if t \<in> {BroadcastMessageType_BLOCK, BroadcastMessageType_CONSENSUS}
                  then Inr (t, m\<lparr>bc_broadcast_type := Some t\<rparr>) else Inl ValueError)))"

definition BroadcastMessage_is_encrypted :: "broadcast_msg \<Rightarrow> (bool \<times> broadcast_msg) result" where
  "BroadcastMessage_is_encrypted m =
     (case bc_is_encrypted m of
        Some e \<Rightarrow> Inr (e, m)
      | None \<Rightarrow> rbind (unpack_from 1 (msg_buf m) (PAYLOAD_START_OFFSET + 4)) (\<lambda>v.
                  Inr (v \<noteq> 0, m\<lparr>bc_is_encrypted := Some (v \<noteq> 0)\<rparr>)))"

definition BroadcastMessage_message_id :: "broadcast_msg \<Rightarrow> (object_hash \<times> broadcast_msg) result" where
  "BroadcastMessage_message_id m =
     (case bc_id_with_type m of
        Some h \<Rightarrow> Inr (h, m)
      | None \<Rightarrow> rbind (ConcatHash_init (bslice HEADER_LENGTH (HEADER_LENGTH + SHA256_HASH_LEN + NETWORK_NUM_LEN) (msg_buf m)
                          @ bslice PAYLOAD_START_OFFSET (PAYLOAD_START_OFFSET + 4) (msg_buf m)) 0) (\<lambda>h.
                  Inr (h, m\<lparr>bc_id_with_type := Some h\<rparr>)))"

definition BroadcastMessage_block_hash :: "broadcast_msg \<Rightarrow> (object_hash \<times> broadcast_msg) result" where
  "BroadcastMessage_block_hash m = AbstractBroadcastMessage_message_hash m"

definition BroadcastMessage_blob :: "broadcast_msg \<Rightarrow> (bytes \<times> broadcast_msg) result" where
  "BroadcastMessage_blob m =
     (case bc_blob m of
        Some v \<Rightarrow> Inr (v, m)
      | None \<Rightarrow> rbind (AbstractInternalMessage_payload_len m) (\<lambda>(n, m').
                  let v = bslice (PAYLOAD_START_OFFSET + 5) (HEADER_LENGTH + n - CONTROL_FLAGS_LEN) (msg_buf m')
                  in Inr (v, m'\<lparr>bc_blob := Some v\<rparr>)))"

definition BroadcastMessage_peek_network_num :: "InputBuffer \<Rightarrow> nat result \<times> InputBuffer" where
  "BroadcastMessage_peek_network_num input_buffer =
     (let off = HEADER_LENGTH + SHA256_HASH_LEN
      in if in_length input_buffer < int (off + NETWORK_NUM_LEN) then (Inl ValueError, input_buffer)
         else sbind (keep_on_error (InputBuffer_peek_message (int (off + NETWORK_NUM_LEN))) input_buffer)
                (\<lambda>bs b'. (unpack_from 4 bs off, b')))"

definition block_body :: "bytes \<Rightarrow> nat \<Rightarrow> bytes \<Rightarrow> bytes \<Rightarrow> bool \<Rightarrow> bytes \<Rightarrow> bytes" where
  "block_body h n src ty e blob = broadcast_head h n src @ ty @ [if e then 1 else 0] @ blob @ [1]"

definition block_object :: "bytes \<Rightarrow> broadcast_msg" where
  "block_object body = broadcast_msg_blank\<lparr>msg_buf := frame (MESSAGE_TYPE BroadcastMessageClass) body,
     msg_type_field := Some (MESSAGE_TYPE BroadcastMessageClass), payload_len_field := Some (length body)\<rparr>"

lemma bslice_Suc: "bslice (Suc i) (Suc j) (x # xs) = bslice i j xs"
  by (simp add: bslice_def)

lemma le_bytes_bool: "le_bytes (Suc 0) (if e then 1 else 0) = [if e then 1 else 0]"
  by simp

lemma block_init_new:
  assumes "length (binary h) = 32" and "n < 256 ^ 4" and "length ty = 4" and "blob \<noteq> []" and "58 + length blob < 256 ^ 4"
  shows "BroadcastMessage_init (Some h) (Some n) s ty e (Some blob) None
    = Inr (block_object (block_body (binary h) n (uuid_pack_to_bytes s) ty e blob))"
proof -
  let ?ty = "MESSAGE_TYPE BroadcastMessageClass" and ?k = "4 + 1 + length blob" and ?e = "ty @ [if e then 1 else 0] @ blob"
  let ?head = "broadcast_head (binary h) n (uuid_pack_to_bytes s)"
  let ?pre = "STARTING_SEQUENCE_BYTES @ pad_to 12 ?ty @ le_bytes 4 (53 + ?k) @ ?head"
  have w: "writes (put_block_fields ty e (Some blob)) (pad_to 4 ty @ le_bytes 1 (if e then 1 else 0) @ blob)"
    unfolding put_block_fields_def option.case by (intro writes_seq writes_s writes_u writes_raw) simp_all
  have pre: "length ?pre = 72" using assms(1) by (simp add: broadcast_head_def)
  have e: "pad_to 4 ty @ le_bytes 1 (if e then 1 else 0) @ blob = ?e" using assms(3) by simp
  have "put_block_fields ty e (Some blob) (?pre @ replicate ?k 0 @ [1]) 72 = Inr (bput 72 ?e (?pre @ replicate ?k 0 @ [1]), 72 + length ?e)"
    using w[unfolded writes_def e] pre assms(3) by simp
  moreover have "bput 72 ?e (?pre @ replicate ?k 0 @ [1]) = ?pre @ ?e @ [1]"
    using bput_at_end[of ?e "replicate ?k 0" ?pre "[1]"] pre assms(3) by simp
  moreover have "frame ?ty (?head @ replicate ?k 0 @ [1]) = ?pre @ replicate ?k 0 @ [1]"
    using assms(1) by (simp add: frame_def broadcast_head_def ac_simps)
  moreover have "?pre @ ?e @ [1] = frame ?ty (block_body (binary h) n (uuid_pack_to_bytes s) ty e blob)"
    using assms(1,3) by (simp add: frame_def block_body_def broadcast_head_def ac_simps)
  moreover have "AbstractBroadcastMessage_init ?ty (53 + ?k) (Some h) (Some n) (Some s) None broadcast_msg_blank
      = Inr (broadcast_msg_blank\<lparr>msg_buf := frame ?ty (?head @ replicate ?k 0 @ [1]), msg_type_field := Some ?ty,
               payload_len_field := Some (53 + ?k), payload_field := None, msg_priority := False\<rparr>)"
    using assms by (intro broadcast_init_new) simp_all
  moreover have "(case Some blob of Some (x # xs) \<Rightarrow> 53 + 4 + 1 + length (x # xs) | _ \<Rightarrow> 53) = 53 + ?k"
    using assms(4) by (cases blob) simp_all
  moreover have "length (block_body (binary h) n (uuid_pack_to_bytes s) ty e blob) = 53 + ?k"
    using assms(1,3) by (simp add: block_body_def broadcast_head_def)
  ultimately show ?thesis
    by (simp add: BroadcastMessage_init_def Let_def block_object_def broadcast_msg_blank_def)
qed

lemma block_init_parse:
  assumes "good_body body"
  shows "BroadcastMessage_init None None [] ty e None (Some (frame (MESSAGE_TYPE BroadcastMessageClass) body)) = Inr (block_object body)"
proof -
  let ?ty = "MESSAGE_TYPE BroadcastMessageClass"
  let ?h = "STARTING_SEQUENCE_BYTES @ pad_to 12 ?ty @ le_bytes 4 (length body)"
  have "msg_buf (broadcast_msg_blank\<lparr>msg_buf := frame ?ty body\<rparr>) = ?h @ body" "length ?h = 20" "body \<noteq> []" "length body < 256 ^ 4"
    using assms by (simp_all add: frame_def good_body_def)
  note init_frame[OF this, of ?ty]
  moreover have "mark_valid body = body" using assms by (simp add: good_body_def mark_valid_good)
  ultimately show ?thesis
    by (simp add: BroadcastMessage_init_def AbstractBroadcastMessage_init_def block_object_def frame_def broadcast_msg_blank_def)
qed

text \<open>
  C16. A block survives the wire: the constructor makes a well-formed frame, the received buffer gives the
  same object, and its accessors return the hash, network number, type, encryption flag and blob. A
  block without contents cannot be built.
\<close>

theorem broadcast_message_round_trip:
  assumes "length (binary h) = 32" and "n < 256 ^ 4" and "ty \<in> {BroadcastMessageType_BLOCK, BroadcastMessageType_CONSENSUS}"
    and "blob \<noteq> []" and "58 + length blob < 256 ^ 4"
  shows "\<exists>m. BroadcastMessage_init (Some h) (Some n) s ty e (Some blob) None = Inr m
    \<and> BroadcastMessage_init None None [] ty2 e2 None (Some (msg_buf m)) = Inr m
    \<and> (\<exists>h' m'. BroadcastMessage_block_hash m = Inr (h', m') \<and> AbstractObjectHash_eq h' h)
    \<and> (\<exists>m'. AbstractBroadcastMessage_network_num m = Inr (n, m'))
    \<and> (\<exists>m'. BroadcastMessage_broadcast_type m = Inr (ty, m'))
    \<and> (\<exists>m'. BroadcastMessage_is_encrypted m = Inr (e, m'))
    \<and> (\<exists>m'. BroadcastMessage_blob m = Inr (blob, m'))
    \<and> BroadcastMessage_init (Some h) (Some n) s ty e (Some []) None = Inl StructError"
proof -
  let ?body = "block_body (binary h) n (uuid_pack_to_bytes s) ty e blob"
  let ?m = "block_object ?body"
  have t: "length ty = 4" "utf8_valid ty"
    using assms(3) by (auto simp: BroadcastMessageType_BLOCK_def BroadcastMessageType_CONSENSUS_def ascii_def)
  have good: "good_body ?body" using assms(1,5) t(1) by (simp add: good_body_def block_body_def broadcast_head_def)
  have b: "msg_buf ?m = frame (MESSAGE_TYPE BroadcastMessageClass) (broadcast_head (binary h) n (uuid_pack_to_bytes s)
      @ ty @ [if e then 1 else 0] @ blob @ [1])" by (simp add: block_object_def block_body_def)
  have fresh: "fresh_broadcast ?m" by (simp add: fresh_broadcast_def block_object_def broadcast_msg_blank_def)
  have none: "bc_broadcast_type ?m = None" "bc_is_encrypted ?m = None" "bc_blob ?m = None" "payload_len_field ?m = Some (length ?body)"
    by (simp_all add: block_object_def broadcast_msg_blank_def)
  note f = broadcast_fields[OF fresh b assms(1,2) length_uuid_pack_to_bytes]
  have "BroadcastMessage_broadcast_type ?m = Inr (ty, ?m\<lparr>bc_broadcast_type := Some ty\<rparr>)"
    unfolding BroadcastMessage_broadcast_type_def none b using assms(1,3) t by (simp add: bfield_simps utf8_decode_def)
  moreover have "BroadcastMessage_is_encrypted ?m = Inr (e, ?m\<lparr>bc_is_encrypted := Some e\<rparr>)"
    unfolding BroadcastMessage_is_encrypted_def none b using assms(1) t by (simp add: bfield_simps)
  moreover have "BroadcastMessage_blob ?m = Inr (blob, ?m\<lparr>bc_blob := Some blob\<rparr>)"
    unfolding BroadcastMessage_blob_def AbstractInternalMessage_payload_len_def none b option.case rbind_Inr prod.case Let_def
    using assms(1) t by (simp add: bfield_simps block_body_def bslice_Suc)
  moreover have "BroadcastMessage_init (Some h) (Some n) s ty e (Some []) None = Inl StructError"
  proof -
    have "AbstractBroadcastMessage_init (MESSAGE_TYPE BroadcastMessageClass) 53 (Some h) (Some n) (Some s) None broadcast_msg_blank
      = Inr (broadcast_msg_blank\<lparr>msg_buf := frame (MESSAGE_TYPE BroadcastMessageClass)
          (broadcast_head (binary h) n (uuid_pack_to_bytes s) @ [1]), msg_type_field := Some (MESSAGE_TYPE BroadcastMessageClass),
          payload_len_field := Some 53, payload_field := None, msg_priority := False\<rparr>)"
      using broadcast_init_new[OF assms(1,2), of 0 "MESSAGE_TYPE BroadcastMessageClass" s broadcast_msg_blank] by simp
    then show ?thesis
      using assms(1) by (simp add: BroadcastMessage_init_def put_block_fields_def put_s_def pack_s_def length_broadcast_head)
  qed
  ultimately show ?thesis
    using block_init_new[OF assms(1,2) t(1) assms(4,5), of s e] block_init_parse[OF good, of ty2 e2] f(1,2) b
    by (auto simp: BroadcastMessage_block_hash_def AbstractObjectHash_eq_def block_object_def)
qed

theorem broadcast_message_round_trip_witness:
  "\<exists>m m'. BroadcastMessage_init (Some \<lparr>binary = replicate 32 9, hash_value = 0\<rparr>) (Some 5) [] BroadcastMessageType_BLOCK True
      (Some [4, 5]) None = Inr m \<and> BroadcastMessage_blob m = Inr ([4, 5], m')"
  using broadcast_message_round_trip[of "\<lparr>binary = replicate 32 9, hash_value = 0\<rparr>" 5 BroadcastMessageType_BLOCK "[4, 5]" "[]" True "[]" False]
  by auto

text \<open>The network number of a block is read from the stream as soon as its bytes have arrived.\<close>

lemma peek_network_num_spec:
  assumes "ib_inv b" and "56 \<le> length (in_content b)" and "length h = 32" and "n < 256 ^ 4"
    and "in_content b = take k (frame ty (broadcast_head h n src @ rest))"
  shows "\<exists>b'. BroadcastMessage_peek_network_num b = (Inr n, b') \<and> ib_inv b' \<and> in_content b' = in_content b"
proof -
  obtain bs b' r where p: "keep_on_error (InputBuffer_peek_message (int 56)) b = (Inr bs, b')" "ib_inv b'"
    "in_content b' = in_content b" "56 \<le> length bs" "in_content b = bs @ r"
    using peek_message_spec[OF assms(1), of "int 56"] assms(2) by (fastforce simp: keep_on_error_def)
  let ?pre = "STARTING_SEQUENCE_BYTES @ pad_to 12 ty @ le_bytes 4 (length (broadcast_head h n src @ rest))"
  have k: "56 \<le> k" using assms(2,5) by (metis length_take min.boundedE)
  have "bslice 52 56 bs = bslice 52 56 (in_content b)" using p(4,5) by (simp add: bslice_def)
  also have "\<dots> = bslice 52 56 (frame ty (broadcast_head h n src @ rest))" using k assms(5) by (simp only: bslice_take)
  also have "\<dots> = le_bytes 4 n" using assms(3) by (simp add: bfield_simps)
  finally have "unpack_from 4 bs 52 = Inr n" using p(4) assms(4) by (simp add: unpack_from_def of_le_le_bytes)
  then show ?thesis
    using p assms(1,2) by (simp add: BroadcastMessage_peek_network_num_def Let_def SHA256_HASH_LEN_def ib_inv_def)
qed

subsection \<open>Keys\<close>

text \<open>\<open>crypto.KEY_SIZE\<close>, the key size of the encryption library, is the argument \<open>key_size\<close>.\<close>

record key_message = broadcast +
  km_key :: "bytes option"

definition key_message_blank :: key_message where
  "key_message_blank =
     \<lparr>msg_buf = [], msg_type_field = None, payload_len_field = None, payload_field = None, msg_priority = False,
      bm_hash = None, bm_network_num = None, bm_source_id = None, bm_message_id = None, km_key = None\<rparr>"

definition KeyMessage_init ::
    "nat \<Rightarrow> object_hash option \<Rightarrow> nat option \<Rightarrow> string \<Rightarrow> bytes option \<Rightarrow> bytes option \<Rightarrow> key_message result" where
  "KeyMessage_init key_size message_hash network_num source_id key buf =
     rbind (AbstractBroadcastMessage_init (MESSAGE_TYPE KeyMessageClass) (BROADCAST_PAYLOAD_LENGTH + key_size) message_hash network_num
              (Some source_id) buf key_message_blank) (\<lambda>m.
       if buf \<noteq> None then Inr m
       else case key of
         None \<Rightarrow> Inl TypeError
       | Some k \<Rightarrow> if length k \<noteq> key_size then Inl ValueError
                  else rbind (put_raw key_size (msg_buf m) PAYLOAD_START_OFFSET k) (\<lambda>(b, _). Inr (m\<lparr>msg_buf := b\<rparr>)))"

definition KeyMessage_key :: "nat \<Rightarrow> key_message \<Rightarrow> bytes \<times> key_message" where
  "KeyMessage_key key_size m =
     (case km_key m of
        Some k \<Rightarrow> (k, m)
      | None \<Rightarrow> let k = bslice PAYLOAD_START_OFFSET (PAYLOAD_START_OFFSET + key_size) (msg_buf m) in (k, m\<lparr>km_key := Some k\<rparr>))"

definition key_object :: "bytes \<Rightarrow> key_message" where
  "key_object body = key_message_blank\<lparr>msg_buf := frame (MESSAGE_TYPE KeyMessageClass) body,
     msg_type_field := Some (MESSAGE_TYPE KeyMessageClass), payload_len_field := Some (length body)\<rparr>"

lemma key_message_round_trip:
  assumes "length (binary h) = 32" and "n < 256 ^ 4" and "53 + key_size < 256 ^ 4"
  shows "KeyMessage_init key_size (Some h) (Some n) s (Some k) None = (if length k = key_size
      then Inr (key_object (broadcast_head (binary h) n (uuid_pack_to_bytes s) @ k @ [1])) else Inl ValueError)"
    and "fst (KeyMessage_key (length k) (key_object (broadcast_head (binary h) n (uuid_pack_to_bytes s) @ k @ [1]))) = k"
proof -
  let ?ty = "MESSAGE_TYPE KeyMessageClass" and ?head = "broadcast_head (binary h) n (uuid_pack_to_bytes s)"
  let ?pre = "STARTING_SEQUENCE_BYTES @ pad_to 12 ?ty @ le_bytes 4 (53 + key_size) @ ?head"
  note hl = length_broadcast_head[OF assms(1) length_uuid_pack_to_bytes, of n s]
  have pre: "length ?pre = 72" using hl by simp
  have put: "bput 72 k (?pre @ replicate key_size 0 @ [1]) = ?pre @ k @ [1]" if "length k = key_size"
    using bput_at_end[of k "replicate key_size 0" ?pre "[1]"] pre that by simp
  have fr: "frame ?ty (?head @ replicate key_size 0 @ [1]) = ?pre @ replicate key_size 0 @ [1]"
    "length k = key_size \<Longrightarrow> frame ?ty (?head @ k @ [1]) = ?pre @ k @ [1]"
    using hl by (simp_all add: frame_def)
  show "KeyMessage_init key_size (Some h) (Some n) s (Some k) None = (if length k = key_size
      then Inr (key_object (?head @ k @ [1])) else Inl ValueError)"
    using broadcast_init_new[OF assms, of ?ty s key_message_blank] put fr hl
    by (simp add: KeyMessage_init_def put_raw_ok key_object_def key_message_blank_def)
  show "fst (KeyMessage_key (length k) (key_object (?head @ k @ [1]))) = k"
    using assms(1) by (simp add: KeyMessage_key_def key_object_def key_message_blank_def bfield_simps)
qed

subsection \<open>Clean-up messages\<close>

record cleanup_message = broadcast +
  cm_sids :: "nat list option"
  cm_tx_hashes :: "bytes list option"
  cm_sids_count :: "nat option"
  cm_tx_hashes_count :: "nat option"

definition cleanup_message_blank :: cleanup_message where
  "cleanup_message_blank =
     \<lparr>msg_buf = [], msg_type_field = None, payload_len_field = None, payload_field = None, msg_priority = False,
      bm_hash = None, bm_network_num = None, bm_source_id = None, bm_message_id = None,
      cm_sids = None, cm_tx_hashes = None, cm_sids_count = None, cm_tx_hashes_count = None\<rparr>"

definition put_cleanup_fields :: "nat list \<Rightarrow> bytes list \<Rightarrow> bytes \<Rightarrow> nat \<Rightarrow> (bytes \<times> nat) result" where
  "put_cleanup_fields sids tx_hashes b off =
     rbind (put_u 4 b off (length sids)) (\<lambda>(b, off).
     rbind (put_items (put_u 4) b off sids) (\<lambda>(b, off).
     rbind (put_u 4 b off (length tx_hashes)) (\<lambda>(b, off).
       put_items (put_raw SHA256_HASH_LEN) b off tx_hashes)))"

definition AbstractCleanupMessage_init ::
    "bytes \<Rightarrow> object_hash option \<Rightarrow> nat option \<Rightarrow> string \<Rightarrow> nat list option \<Rightarrow> bytes list option \<Rightarrow> bytes option \<Rightarrow> cleanup_message result" where
  "AbstractCleanupMessage_init msg_type message_hash network_num source_id sids tx_hashes buf =
     (if buf = None \<and> (tx_hashes = None \<or> sids = None) then Inl AssertionError
      else let payload_len = BROADCAST_PAYLOAD_LENGTH + 4 * 2 + length (the sids) * 4 + length (the tx_hashes) * SHA256_HASH_LEN
           in rbind (AbstractBroadcastMessage_init msg_type payload_len message_hash network_num (Some source_id) buf cleanup_message_blank)
                (\<lambda>m. if buf \<noteq> None then Inr m
                     else rbind (put_cleanup_fields (the sids) (the tx_hashes) (msg_buf m) PAYLOAD_START_OFFSET) (\<lambda>(b, _).
                            Inr (m\<lparr>msg_buf := b\<rparr>))))"

definition get_cleanup_fields :: "bytes \<Rightarrow> nat \<Rightarrow> ((nat list \<times> bytes list) \<times> nat) result" where
  "get_cleanup_fields b off =
     rbind (get_u 4 b off) (\<lambda>(sids_count, off).
     rbind (get_items (get_u 4) b off sids_count) (\<lambda>(sids, off).
     rbind (get_u 4 b off) (\<lambda>(tx_hashes_count, off).
     rbind (get_items get_hash b off tx_hashes_count) (\<lambda>(tx_hashes, off).
       Inr ((sids, tx_hashes), off)))))"

definition AbstractCleanupMessage_parse :: "cleanup_message \<Rightarrow> cleanup_message result" where
  "AbstractCleanupMessage_parse m =
     rbind (get_cleanup_fields (msg_buf m) PAYLOAD_START_OFFSET) (\<lambda>((sids, tx_hashes), _).
       Inr (m\<lparr>cm_sids := Some sids, cm_tx_hashes := Some tx_hashes, cm_sids_count := Some (length sids),
              cm_tx_hashes_count := Some (length tx_hashes)\<rparr>))"

definition AbstractCleanupMessage_short_ids :: "cleanup_message \<Rightarrow> (nat list \<times> cleanup_message) result" where
  "AbstractCleanupMessage_short_ids m =
     rbind (if cm_sids m = None then AbstractCleanupMessage_parse m else Inr m) (\<lambda>m'.
       case cm_sids m' of None \<Rightarrow> Inl AssertionError | Some sids \<Rightarrow> Inr (sids, m'))"

definition AbstractCleanupMessage_transaction_hashes :: "cleanup_message \<Rightarrow> (bytes list \<times> cleanup_message) result" where
  "AbstractCleanupMessage_transaction_hashes m =
     rbind (if cm_tx_hashes m = None then AbstractCleanupMessage_parse m else Inr m) (\<lambda>m'.
       case cm_tx_hashes m' of None \<Rightarrow> Inl AssertionError | Some hs \<Rightarrow> Inr (hs, m'))"

definition BlockConfirmationMessage_init ::
    "object_hash option \<Rightarrow> nat option \<Rightarrow> string \<Rightarrow> nat list option \<Rightarrow> bytes list option \<Rightarrow> bytes option \<Rightarrow> cleanup_message result" where
  "BlockConfirmationMessage_init = AbstractCleanupMessage_init (MESSAGE_TYPE BlockConfirmationMessage)"

text \<open>
  \<open>TransactionCleanupMessage\<close> names itself by a hash of its contents; \<open>double_sha256\<close> of
  \<open>utils/crypto.py\<close> is the SHA-256 of the standard library twice, and is an argument.
\<close>

definition TransactionCleanupMessage_init ::
    "(bytes \<Rightarrow> bytes) \<Rightarrow> nat option \<Rightarrow> string \<Rightarrow> nat list option \<Rightarrow> bytes list option \<Rightarrow> bytes option \<Rightarrow> cleanup_message result" where
  "TransactionCleanupMessage_init double_sha256 network_num source_id sids tx_hashes buf =
     rbind (Sha256Hash_init (replicate SHA256_HASH_LEN 0)) (\<lambda>null_hash.
     rbind (AbstractCleanupMessage_init (MESSAGE_TYPE TransactionCleanupMessage) (Some null_hash) network_num source_id sids tx_hashes buf)
       (\<lambda>m. if buf \<noteq> None then Inr m
            else rbind (Sha256Hash_init (double_sha256 (drop PAYLOAD_START_OFFSET (msg_buf m)))) (\<lambda>h.
                   Inr (AbstractBroadcastMessage_set_message_hash h m))))"

definition cleanup_enc :: "nat list \<Rightarrow> bytes list \<Rightarrow> bytes" where
  "cleanup_enc sids hs = short_ids_enc sids @ le_bytes 4 (length hs) @ concat hs"

definition cleanup_valid :: "nat list \<Rightarrow> bytes list \<Rightarrow> bool" where
  "cleanup_valid sids hs \<longleftrightarrow> valid_short_ids sids \<and> list_all (\<lambda>h. length h = 32) hs \<and> 61 + 4 * length sids + 32 * length hs < 256 ^ 4"

definition cleanup_object :: "bytes \<Rightarrow> bytes \<Rightarrow> cleanup_message" where
  "cleanup_object ty body = cleanup_message_blank\<lparr>msg_buf := frame ty body, msg_type_field := Some ty, payload_len_field := Some (length body)\<rparr>"

interpretation hash_field: buffer_codec "\<lambda>h. h" "put_raw SHA256_HASH_LEN" get_hash "\<lambda>h. length h = 32"
  by unfold_locales (simp_all add: byte_simps SHA256_HASH_LEN_def)

lemma hash_enc_list: "hash_field.enc_list hs = concat hs"
  by (induction hs) (simp_all add: hash_field.enc_list_simps)

lemma length_concat_hashes: "list_all (\<lambda>h. length h = 32) hs \<Longrightarrow> length (concat hs) = 32 * length hs"
  by (induction hs) simp_all

lemma writes_hashes: "list_all (\<lambda>h. length h = 32) hs \<Longrightarrow> writes (\<lambda>b o'. put_items (put_raw SHA256_HASH_LEN) b o' hs) (concat hs)"
  unfolding writes_def using hash_field.put_items_enc[of hs] by (simp add: hash_enc_list)

lemma reads_hashes:
  "list_all (\<lambda>h. length h = 32) hs \<Longrightarrow> reads (\<lambda>b o'. get_items get_hash b o' (length hs)) (concat hs) hs"
  unfolding reads_def using hash_field.get_items_enc[of hs] by (simp add: hash_enc_list)

lemma cleanup_writes:
  assumes "cleanup_valid sids hs"
  shows "writes (put_cleanup_fields sids hs) (cleanup_enc sids hs)"
  unfolding put_cleanup_fields_def cleanup_enc_def short_ids_enc_def append_assoc
  using assms by (intro writes_seq writes_u writes_uints writes_hashes) (auto simp: cleanup_valid_def valid_short_ids_def)

lemma cleanup_reads:
  assumes "cleanup_valid sids hs"
  shows "reads get_cleanup_fields (cleanup_enc sids hs) (sids, hs)"
proof -
  have "reads get_cleanup_fields (le_bytes 4 (length sids) @ uint.enc_list 4 sids @ le_bytes 4 (length hs) @ concat hs @ []) (sids, hs)"
    unfolding get_cleanup_fields_def using assms
    by (intro reads_seq[where x = "length sids"] reads_seq[where x = sids] reads_seq[where x = "length hs"] reads_seq[where x = hs]
        reads_u reads_uints reads_hashes reads_return) (auto simp: cleanup_valid_def valid_short_ids_def)
  then show ?thesis by (simp add: cleanup_enc_def short_ids_enc_def)
qed

lemma length_cleanup_enc: "cleanup_valid sids hs \<Longrightarrow> length (cleanup_enc sids hs) = 8 + 4 * length sids + 32 * length hs"
  by (simp add: cleanup_enc_def short_ids_enc_def cleanup_valid_def length_concat_hashes)

lemma cleanup_init_new:
  assumes "length (binary h) = 32" and "n < 256 ^ 4" and "cleanup_valid sids hs"
  shows "AbstractCleanupMessage_init ty (Some h) (Some n) s (Some sids) (Some hs) None
    = Inr (cleanup_object ty (broadcast_head (binary h) n (uuid_pack_to_bytes s) @ cleanup_enc sids hs @ [1]))"
proof -
  let ?k = "8 + 4 * length sids + 32 * length hs" and ?head = "broadcast_head (binary h) n (uuid_pack_to_bytes s)"
  let ?e = "cleanup_enc sids hs"
  let ?pre = "STARTING_SEQUENCE_BYTES @ pad_to 12 ty @ le_bytes 4 (53 + ?k) @ ?head"
  note hl = length_broadcast_head[OF assms(1) length_uuid_pack_to_bytes, of n s]
  have pre: "length ?pre = 72" using hl by simp
  note len = length_cleanup_enc[OF assms(3)]
  have "put_cleanup_fields sids hs (?pre @ replicate ?k 0 @ [1]) 72 = Inr (bput 72 ?e (?pre @ replicate ?k 0 @ [1]), 72 + length ?e)"
    using cleanup_writes[OF assms(3)] pre len unfolding writes_def by simp
  moreover have "bput 72 ?e (?pre @ replicate ?k 0 @ [1]) = ?pre @ ?e @ [1]"
    using bput_at_end[of ?e "replicate ?k 0" ?pre "[1]"] pre len by simp
  moreover have "frame ty (?head @ replicate ?k 0 @ [1]) = ?pre @ replicate ?k 0 @ [1]" "frame ty (?head @ ?e @ [1]) = ?pre @ ?e @ [1]"
    using hl len by (simp_all add: frame_def ac_simps)
  moreover have "AbstractBroadcastMessage_init ty (53 + ?k) (Some h) (Some n) (Some s) None cleanup_message_blank
      = Inr (cleanup_message_blank\<lparr>msg_buf := frame ty (?head @ replicate ?k 0 @ [1]), msg_type_field := Some ty,
               payload_len_field := Some (53 + ?k), payload_field := None, msg_priority := False\<rparr>)"
    using assms by (intro broadcast_init_new) (simp_all add: cleanup_valid_def)
  ultimately show ?thesis
    using hl len by (simp add: AbstractCleanupMessage_init_def Let_def cleanup_object_def cleanup_message_blank_def SHA256_HASH_LEN_def ac_simps)
qed

lemma cleanup_init_parse:
  assumes "good_body body"
  shows "AbstractCleanupMessage_init ty h n s None None (Some (frame ty body)) = Inr (cleanup_object ty body)"
proof -
  let ?h = "STARTING_SEQUENCE_BYTES @ pad_to 12 ty @ le_bytes 4 (length body)"
  have "msg_buf (cleanup_message_blank\<lparr>msg_buf := frame ty body\<rparr>) = ?h @ body" "length ?h = 20" "body \<noteq> []" "length body < 256 ^ 4"
    using assms by (simp_all add: frame_def good_body_def)
  note init_frame[OF this, of ty]
  moreover have "mark_valid body = body" using assms by (simp add: good_body_def mark_valid_good)
  ultimately show ?thesis
    by (simp add: AbstractCleanupMessage_init_def AbstractBroadcastMessage_init_def cleanup_object_def frame_def cleanup_message_blank_def)
qed

lemma cleanup_accessors:
  assumes "length h = 32" and "length src = 16" and "cleanup_valid sids hs"
    and "m = cleanup_object ty (broadcast_head h n src @ cleanup_enc sids hs @ [1])"
  shows "\<exists>m'. AbstractCleanupMessage_short_ids m = Inr (sids, m')"
    and "\<exists>m'. AbstractCleanupMessage_transaction_hashes m = Inr (hs, m')"
proof -
  let ?pre = "STARTING_SEQUENCE_BYTES @ pad_to 12 ty @ le_bytes 4 (length (broadcast_head h n src @ cleanup_enc sids hs @ [1])) @ broadcast_head h n src"
  have b: "msg_buf m = ?pre @ cleanup_enc sids hs @ [1]" by (simp add: assms(4) cleanup_object_def frame_def)
  have "length ?pre = 72" using length_broadcast_head[OF assms(1,2)] by simp
  moreover have "get_cleanup_fields (?pre @ cleanup_enc sids hs @ [1]) (length ?pre) = Inr ((sids, hs), length ?pre + length (cleanup_enc sids hs))"
    using cleanup_reads[OF assms(3)] unfolding reads_def by blast
  ultimately have g: "get_cleanup_fields (msg_buf m) 72 = Inr ((sids, hs), 72 + length (cleanup_enc sids hs))" unfolding b by simp
  have "cm_sids m = None" "cm_tx_hashes m = None" by (simp_all add: assms(4) cleanup_object_def cleanup_message_blank_def)
  then show "\<exists>m'. AbstractCleanupMessage_short_ids m = Inr (sids, m')" "\<exists>m'. AbstractCleanupMessage_transaction_hashes m = Inr (hs, m')"
    using g by (simp_all add: AbstractCleanupMessage_short_ids_def AbstractCleanupMessage_transaction_hashes_def AbstractCleanupMessage_parse_def)
qed

lemma set_hash_cleanup:
  assumes "length h = 32" and "length (binary h') = 32"
  shows "AbstractBroadcastMessage_set_message_hash h' (cleanup_object ty (broadcast_head h n src @ rest))
    = cleanup_object ty (broadcast_head (binary h') n src @ rest)"
proof -
  let ?pre = "STARTING_SEQUENCE_BYTES @ pad_to 12 ty @ le_bytes 4 (length (broadcast_head h n src @ rest))"
  have "slice_assign 20 52 (binary h') (?pre @ h @ le_bytes 4 n @ src @ rest) = ?pre @ binary h' @ le_bytes 4 n @ src @ rest"
    using assms bput_at_end[of "binary h'" h ?pre "le_bytes 4 n @ src @ rest"] by (simp add: slice_assign_bput)
  then show ?thesis
    using assms by (simp add: AbstractBroadcastMessage_set_message_hash_def cleanup_object_def frame_def broadcast_head_def SHA256_HASH_LEN_def
        cleanup_message_blank_def)
qed

text \<open>
  Clean-up messages survive the wire: a block confirmation or transaction clean-up built from short ids
  and hashes is a well-formed frame, the received buffer gives the same object, and both lists are read
  back. A transaction clean-up is named by the hash of its contents, which depends on nothing else.
\<close>

theorem cleanup_message_round_trip:
  assumes "length (binary h) = 32" and "n < 256 ^ 4" and "cleanup_valid sids hs" and "\<And>x. length (double_sha256 x) = 32"
  shows "\<exists>m t. BlockConfirmationMessage_init (Some h) (Some n) s (Some sids) (Some hs) None = Inr m
    \<and> BlockConfirmationMessage_init None None [] None None (Some (msg_buf m)) = Inr m
    \<and> (\<exists>m'. AbstractCleanupMessage_short_ids m = Inr (sids, m'))
    \<and> (\<exists>m'. AbstractCleanupMessage_transaction_hashes m = Inr (hs, m'))
    \<and> TransactionCleanupMessage_init double_sha256 (Some n) s (Some sids) (Some hs) None = Inr t
    \<and> TransactionCleanupMessage_init double_sha256 None [] None None (Some (msg_buf t)) = Inr t
    \<and> (\<exists>m'. AbstractCleanupMessage_short_ids t = Inr (sids, m'))
    \<and> (\<exists>m'. AbstractCleanupMessage_transaction_hashes t = Inr (hs, m'))
    \<and> (\<exists>x m'. AbstractBroadcastMessage_message_hash t = Inr (x, m') \<and> binary x = double_sha256 (cleanup_enc sids hs @ [1]))"
proof -
  let ?u = "uuid_pack_to_bytes s" and ?rest = "cleanup_enc sids hs @ [1]"
  let ?d = "double_sha256 ?rest" and ?z = "replicate 32 0 :: bytes"
  let ?m = "cleanup_object (MESSAGE_TYPE BlockConfirmationMessage) (broadcast_head (binary h) n ?u @ ?rest)"
  let ?tz = "cleanup_object (MESSAGE_TYPE TransactionCleanupMessage) (broadcast_head ?z n ?u @ ?rest)"
  let ?t = "cleanup_object (MESSAGE_TYPE TransactionCleanupMessage) (broadcast_head ?d n ?u @ ?rest)"
  let ?zh = "\<lparr>binary = ?z, hash_value = of_le (drop 28 ?z)\<rparr>" and ?dh = "\<lparr>binary = ?d, hash_value = of_le (drop 28 ?d)\<rparr>"
  have d: "length ?d = 32" by (rule assms(4))
  have good: "good_body (broadcast_head x n ?u @ ?rest)" if "length x = 32" for x
    using assms(3) that length_broadcast_head[of x ?u n] length_cleanup_enc[OF assms(3)] by (simp add: good_body_def cleanup_valid_def)
  have b: "msg_buf (cleanup_object ty body) = frame ty body" for ty body by (simp add: cleanup_object_def)
  have m: "BlockConfirmationMessage_init (Some h) (Some n) s (Some sids) (Some hs) None = Inr ?m"
    "BlockConfirmationMessage_init None None [] None None (Some (msg_buf ?m)) = Inr ?m"
    unfolding BlockConfirmationMessage_init_def b using cleanup_init_new[OF assms(1-3)] cleanup_init_parse[OF good[OF assms(1)]] by simp_all
  have null: "Sha256Hash_init (replicate SHA256_HASH_LEN 0) = Inr ?zh" by (simp add: SHA256_HASH_LEN_def Sha256Hash_init_ok)
  have "drop 72 (msg_buf ?tz) = ?rest"
    unfolding b by (simp add: frame_def broadcast_head_def)
  then have t: "TransactionCleanupMessage_init double_sha256 (Some n) s (Some sids) (Some hs) None = Inr ?t"
    using cleanup_init_new[of ?zh n sids hs "MESSAGE_TYPE TransactionCleanupMessage" s, OF _ assms(2,3)]
      set_hash_cleanup[of ?z ?dh] Sha256Hash_init_ok[OF d] d null by (simp add: TransactionCleanupMessage_init_def)
  have t': "TransactionCleanupMessage_init double_sha256 None [] None None (Some (msg_buf ?t)) = Inr ?t"
    unfolding b TransactionCleanupMessage_init_def null using cleanup_init_parse[OF good[OF d]] by simp
  have fresh: "fresh_broadcast ?t" by (simp add: fresh_broadcast_def cleanup_object_def cleanup_message_blank_def)
  from broadcast_fields(1)[OF fresh b d assms(2) length_uuid_pack_to_bytes]
  have hash: "\<exists>x m'. AbstractBroadcastMessage_message_hash ?t = Inr (x, m') \<and> binary x = ?d" by simp
  note acc = cleanup_accessors[OF _ length_uuid_pack_to_bytes assms(3) refl]
  show ?thesis
    by (rule exI[of _ ?m], rule exI[of _ ?t]) (intro conjI m t t' hash acc assms(1) d)
qed

theorem cleanup_message_round_trip_witness:
  "\<exists>t m'. TransactionCleanupMessage_init (\<lambda>x. replicate 32 (of_nat (length x))) (Some 5) [] (Some [3, 9]) (Some [replicate 32 4]) None = Inr t
    \<and> AbstractCleanupMessage_short_ids t = Inr ([3, 9], m')"
proof -
  have "cleanup_valid [3, 9] [replicate 32 4]" by (simp add: cleanup_valid_def valid_short_ids_def)
  from cleanup_message_round_trip[OF _ _ this, of "\<lparr>binary = replicate 32 9, hash_value = 0\<rparr>" 5 "\<lambda>x. replicate 32 (of_nat (length x))" "[]"]
  show ?thesis by auto
qed

end
