(* ===== verification/Versioned_Messages.thy ===== *)
theory Versioned_Messages
  imports Broadcast_Messages
begin

text \<open>
  Conversion between protocol versions (\<open>messages/versioning\<close>, \<open>messages/bloxroute/v6\<close> to \<open>v22\<close>): the
  transaction messages of older versions, the message converters, the converter factory of each version
  and the version manager. The converters of the performance statistics, which no other component
  reads, and the wrappers around the serializers of the synchronization messages are arguments.
\<close>

subsection \<open>Numbers\<close>

text \<open>
  A Python number is an int or a float, given by its 64-bit pattern. \<open>int(x)\<close> truncates a float and
  raises for an infinity or a NaN; packing an int below \<open>2 ^ 53\<close> as a double is exact.
\<close>

datatype py_num = PyInt int | PyFloat nat

definition int_of_double :: "nat \<Rightarrow> int result" where
  "int_of_double b =
     (let s = b div 2 ^ 63; e = b div 2 ^ 52 mod 2048; m = b mod 2 ^ 52
      in if e = 2047 then Inl (if m = 0 then OverflowErr else ValueError)
         else if e < 1023 then Inr 0
         else let mag = (if e \<ge> 1075 then (2 ^ 52 + m) * 2 ^ (e - 1075) else (2 ^ 52 + m) div 2 ^ (1075 - e))
              in Inr (if odd s then - int mag else int mag))"

definition py_int :: "py_num \<Rightarrow> int result" where
  "py_int x = (case x of PyInt i \<Rightarrow> Inr i | PyFloat b \<Rightarrow> int_of_double b)"

fun ilog2 :: "nat \<Rightarrow> nat" where
  "ilog2 n = (if n < 2 then 0 else Suc (ilog2 (n div 2)))"

declare ilog2.simps [simp del]

definition double_of_nat :: "nat \<Rightarrow> nat" where
  "double_of_nat n = (if n = 0 then 0 else let e = ilog2 n in (1023 + e) * 2 ^ 52 + (n - 2 ^ e) * 2 ^ (52 - e))"

lemma ilog2_bounds: "0 < n \<Longrightarrow> 2 ^ ilog2 n \<le> n \<and> n < 2 * 2 ^ ilog2 n"
proof (induction n rule: ilog2.induct)
  case (1 n)
  show ?case
  proof (cases "n < 2")
    case True
    then show ?thesis using 1 by (subst (1 2) ilog2.simps) auto
  next
    case False
    then have "2 ^ ilog2 (n div 2) \<le> n div 2 \<and> n div 2 < 2 * 2 ^ ilog2 (n div 2)" using 1 by auto
    moreover have "ilog2 n = Suc (ilog2 (n div 2))" using False by (subst ilog2.simps) simp
    ultimately show ?thesis by (simp del: power_Suc add: power_Suc) linarith
  qed
qed

lemma div_mod_digit: "m < k \<Longrightarrow> (a * k + m) div k = a \<and> (a * k + m) mod k = (m :: nat)"
  by simp

lemma int_of_double_of_nat:
  assumes "n < 2 ^ 53"
  shows "int_of_double (double_of_nat n) = Inr (int n)" and "double_of_nat n < 2 ^ 64"
proof -
  let ?e = "ilog2 n"
  have "int_of_double (double_of_nat n) = Inr (int n) \<and> double_of_nat n < 2 ^ 64"
  proof (cases "n = 0")
    case True
    then show ?thesis by (simp add: double_of_nat_def int_of_double_def)
  next
    case False
    have b: "2 ^ ?e \<le> n" "n < 2 * 2 ^ ?e" using ilog2_bounds[of n] False by auto
    have e: "?e \<le> 52"
    proof (rule ccontr)
      assume "\<not> ?e \<le> 52"
      then have "(2 :: nat) ^ 53 \<le> 2 ^ ?e" by (intro power_increasing) auto
      then show False using b assms by linarith
    qed
    let ?m = "(n - 2 ^ ?e) * 2 ^ (52 - ?e)"
    have p: "(2 :: nat) ^ ?e * 2 ^ (52 - ?e) = 2 ^ 52" using e by (simp flip: power_add)
    have "?m < 2 ^ ?e * 2 ^ (52 - ?e)" using b by (intro mult_strict_right_mono) auto
    then have m: "?m < 2 ^ 52" using p by simp
    have d: "double_of_nat n = (1023 + ?e) * 2 ^ 52 + ?m" using False by (simp add: double_of_nat_def Let_def)
    then have div: "double_of_nat n div 2 ^ 52 = 1023 + ?e" "double_of_nat n mod 2 ^ 52 = ?m"
      using div_mod_digit[OF m, of "1023 + ?e"] by (simp_all only:)
    have "2 ^ ?e * 2 ^ (52 - ?e) + (n - 2 ^ ?e) * 2 ^ (52 - ?e) = n * 2 ^ (52 - ?e)"
      unfolding distrib_right[symmetric] using b(1) by simp
    then have "2 ^ 52 + ?m = n * 2 ^ (52 - ?e)" unfolding p .
    then have mag: "(2 ^ 52 + ?m) div 2 ^ (52 - ?e) = n" by simp
    have lt: "double_of_nat n < 2 ^ 63"
    proof -
      have "double_of_nat n < (1024 + ?e) * 2 ^ 52" using d m by simp
      also have "\<dots> \<le> 1076 * 2 ^ 52" using e by simp
      finally show ?thesis by simp
    qed
    have s: "double_of_nat n div 2 ^ 63 = 0" by (rule div_less[OF lt])
    have mod: "(1023 + ?e) mod 2048 = 1023 + ?e" using e by simp
    have m2: "(if 1023 + ?e \<ge> 1075 then (2 ^ 52 + ?m) * 2 ^ (1023 + ?e - 1075) else (2 ^ 52 + ?m) div 2 ^ (1075 - (1023 + ?e))) = n"
    proof (cases "?e = 52")
      case True
      then show ?thesis using mag by simp
    next
      case False
      then have "1075 - (1023 + ?e) = 52 - ?e" "\<not> 1023 + ?e \<ge> 1075" using e by simp_all
      then show ?thesis using mag by (simp only: if_False)
    qed
    have "int_of_double (double_of_nat n) = Inr (int n)"
      unfolding int_of_double_def Let_def div s mod m2 using e by simp
    then show ?thesis using lt by simp
  qed
  then show "int_of_double (double_of_nat n) = Inr (int n)" "double_of_nat n < 2 ^ 64" by simp_all
qed

subsection \<open>Transaction messages of older versions\<close>

text \<open>\<open>QuotaType\<close>: one bit for the free and one for the paid quota.\<close>

abbreviation (input) FREE_DAILY_QUOTA :: nat where "FREE_DAILY_QUOTA \<equiv> 1"
abbreviation (input) PAID_DAILY_QUOTA :: nat where "PAID_DAILY_QUOTA \<equiv> 2"

definition TxMessageV21_layout :: tx_layout where
  "TxMessageV21_layout = \<lparr>flag_len = 2, flag_bound = 8192, no_flag = NO_FLAGS, timestamp_len = 8, account_len = 0\<rparr>"

definition TxMessageV20_layout :: tx_layout where
  "TxMessageV20_layout = \<lparr>flag_len = 2, flag_bound = 8192, no_flag = NO_FLAGS, timestamp_len = 4, account_len = 0\<rparr>"

definition TxMessageV19_layout :: tx_layout where
  "TxMessageV19_layout = \<lparr>flag_len = 2, flag_bound = 8192, no_flag = NO_FLAGS, timestamp_len = 4, account_len = 0\<rparr>"

definition TxMessageV17_layout :: tx_layout where
  "TxMessageV17_layout = \<lparr>flag_len = 2, flag_bound = 8192, no_flag = NO_FLAGS, timestamp_len = 4, account_len = 0\<rparr>"

definition TxMessageV15_layout :: tx_layout where
  "TxMessageV15_layout = \<lparr>flag_len = 1, flag_bound = 4, no_flag = FREE_DAILY_QUOTA, timestamp_len = 4, account_len = 0\<rparr>"

definition TxMessageV7_layout :: tx_layout where
  "TxMessageV7_layout = \<lparr>flag_len = 1, flag_bound = 4, no_flag = FREE_DAILY_QUOTA, timestamp_len = 0, account_len = 0\<rparr>"

definition TxMessageV6_layout :: tx_layout where
  "TxMessageV6_layout = \<lparr>flag_len = 0, flag_bound = 1, no_flag = 0, timestamp_len = 0, account_len = 0\<rparr>"

lemmas old_layouts = TxMessageV21_layout_def TxMessageV20_layout_def TxMessageV19_layout_def TxMessageV17_layout_def
  TxMessageV15_layout_def TxMessageV7_layout_def TxMessageV6_layout_def

text \<open>
  The classes with a 4-byte timestamp pack \<open>int(timestamp)\<close>, after the fields in front of it; a negative
  value does not fit.
\<close>

definition int_field :: "py_num \<Rightarrow> nat result" where
  "int_field x = rbind (py_int x) (\<lambda>i. if i < 0 then Inl StructError else Inr (nat i))"

definition tx_init_int ::
    "tx_layout \<Rightarrow> object_hash option \<Rightarrow> nat option \<Rightarrow> string \<Rightarrow> nat \<Rightarrow> bytes option \<Rightarrow> nat option \<Rightarrow> py_num \<Rightarrow> bytes option \<Rightarrow>
     tx_message result" where
  "tx_init_int L message_hash network_num source_id short_id tx_val flag timestamp buf =
     (case int_field timestamp of
        Inr t \<Rightarrow> tx_init L message_hash network_num source_id short_id tx_val flag t None buf
      | Inl e \<Rightarrow> rbind (tx_init L message_hash network_num source_id short_id tx_val flag 0 None buf)
                  (\<lambda>m. if buf = None then Inl e else Inr m))"

definition TxMessageV21_init ::
    "object_hash option \<Rightarrow> nat option \<Rightarrow> string \<Rightarrow> nat \<Rightarrow> bytes option \<Rightarrow> nat option \<Rightarrow> nat \<Rightarrow> bytes option \<Rightarrow> tx_message result" where
  "TxMessageV21_init h n s sid v flag ts buf = tx_init TxMessageV21_layout h n s sid v flag ts None buf"

definition TxMessageV20_init ::
    "object_hash option \<Rightarrow> nat option \<Rightarrow> string \<Rightarrow> nat \<Rightarrow> bytes option \<Rightarrow> nat option \<Rightarrow> py_num \<Rightarrow> bytes option \<Rightarrow> tx_message result" where
  "TxMessageV20_init = tx_init_int TxMessageV20_layout"

definition TxMessageV19_init ::
    "object_hash option \<Rightarrow> nat option \<Rightarrow> string \<Rightarrow> nat \<Rightarrow> bytes option \<Rightarrow> nat option \<Rightarrow> py_num \<Rightarrow> bytes option \<Rightarrow> tx_message result" where
  "TxMessageV19_init = tx_init_int TxMessageV19_layout"

definition TxMessageV17_init ::
    "object_hash option \<Rightarrow> nat option \<Rightarrow> string \<Rightarrow> nat \<Rightarrow> bytes option \<Rightarrow> nat option \<Rightarrow> py_num \<Rightarrow> bytes option \<Rightarrow> tx_message result" where
  "TxMessageV17_init = tx_init_int TxMessageV17_layout"

definition TxMessageV15_init ::
    "object_hash option \<Rightarrow> nat option \<Rightarrow> string \<Rightarrow> nat \<Rightarrow> bytes option \<Rightarrow> nat option \<Rightarrow> py_num \<Rightarrow> bytes option \<Rightarrow> tx_message result" where
  "TxMessageV15_init = tx_init_int TxMessageV15_layout"

definition TxMessageV7_init ::
    "object_hash option \<Rightarrow> nat option \<Rightarrow> string \<Rightarrow> nat \<Rightarrow> bytes option \<Rightarrow> nat option \<Rightarrow> bytes option \<Rightarrow> tx_message result" where
  "TxMessageV7_init h n s sid v quota buf = tx_init TxMessageV7_layout h n s sid v quota 0 None buf"

definition TxMessageV6_init ::
    "object_hash option \<Rightarrow> nat option \<Rightarrow> string \<Rightarrow> nat \<Rightarrow> bytes option \<Rightarrow> bytes option \<Rightarrow> tx_message result" where
  "TxMessageV6_init h n s sid v buf = tx_init TxMessageV6_layout h n s sid v None 0 None buf"

text \<open>Their accessors.\<close>

definition TxMessageV21_timestamp where "TxMessageV21_timestamp = tx_timestamp TxMessageV21_layout"
definition TxMessageV21_tx_val where "TxMessageV21_tx_val = tx_tx_val TxMessageV21_layout"
definition TxMessageV20_timestamp where "TxMessageV20_timestamp = tx_timestamp TxMessageV20_layout"
definition TxMessageV20_tx_val where "TxMessageV20_tx_val = tx_tx_val TxMessageV20_layout"
definition TxMessageV19_timestamp where "TxMessageV19_timestamp = tx_timestamp TxMessageV19_layout"
definition TxMessageV19_tx_val where "TxMessageV19_tx_val = tx_tx_val TxMessageV19_layout"
definition TxMessageV17_timestamp where "TxMessageV17_timestamp = tx_timestamp TxMessageV17_layout"
definition TxMessageV17_tx_val where "TxMessageV17_tx_val = tx_tx_val TxMessageV17_layout"
definition TxMessageV15_quota_type where "TxMessageV15_quota_type = tx_flag TxMessageV15_layout"
definition TxMessageV15_timestamp where "TxMessageV15_timestamp = tx_timestamp TxMessageV15_layout"
definition TxMessageV15_tx_val where "TxMessageV15_tx_val = tx_tx_val TxMessageV15_layout"
definition TxMessageV7_quota_type where "TxMessageV7_quota_type = tx_flag TxMessageV7_layout"
definition TxMessageV7_tx_val where "TxMessageV7_tx_val = tx_tx_val TxMessageV7_layout"
definition TxMessageV6_tx_val where "TxMessageV6_tx_val = tx_tx_val TxMessageV6_layout"

subsection \<open>Transaction converters\<close>

text \<open>The fields a converter reads of a message, through its accessors.\<close>

type_synonym tx_values = "object_hash \<times> nat \<times> string \<times> nat \<times> bytes \<times> nat \<times> nat"

definition tx_values :: "tx_layout \<Rightarrow> tx_message \<Rightarrow> (tx_values \<times> tx_message) result" where
  "tx_values L m =
     rbind (AbstractBroadcastMessage_message_hash m) (\<lambda>(tx_hash, m).
     rbind (AbstractBroadcastMessage_network_num m) (\<lambda>(network_num, m).
     rbind (AbstractBroadcastMessage_source_id m) (\<lambda>(source_id, m).
     rbind (tx_short_id m) (\<lambda>(short_id, m).
     rbind (tx_tx_val L m) (\<lambda>(tx_val, m).
     rbind (tx_flag L m) (\<lambda>(flag, m).
     rbind (tx_timestamp L m) (\<lambda>(ts, m).
       Inr ((tx_hash, network_num, source_id, short_id, tx_val, flag, ts), m))))))))"

definition TxMessageConverterV21_convert_to_older_version :: "tx_message \<Rightarrow> (tx_message \<times> tx_message) result" where
  "TxMessageConverterV21_convert_to_older_version msg =
     rbind (tx_values TxMessage_layout msg) (\<lambda>((h, n, s, sid, v, flag, ts), msg').
     rbind (TxMessageV21_init (Some h) (Some n) s sid (Some v) (Some flag) ts None) (\<lambda>old. Inr (old, msg')))"

definition TxMessageConverterV21_convert_from_older_version :: "tx_message \<Rightarrow> (tx_message \<times> tx_message) result" where
  "TxMessageConverterV21_convert_from_older_version msg =
     rbind (tx_values TxMessageV21_layout msg) (\<lambda>((h, n, s, sid, v, flag, ts), msg').
     rbind (TxMessage_init (Some h) (Some n) s sid (Some v) (Some flag) ts None None) (\<lambda>m. Inr (m, msg')))"

definition TxMessageConverterV20_convert_to_older_version :: "tx_message \<Rightarrow> (tx_message \<times> tx_message) result" where
  "TxMessageConverterV20_convert_to_older_version msg =
     rbind (tx_values TxMessage_layout msg) (\<lambda>((h, n, s, sid, v, flag, ts), msg').
     rbind (TxMessageV20_init (Some h) (Some n) s sid (Some v) (Some flag) (PyFloat ts) None) (\<lambda>old. Inr (old, msg')))"

definition TxMessageConverterV20_convert_from_older_version :: "tx_message \<Rightarrow> (tx_message \<times> tx_message) result" where
  "TxMessageConverterV20_convert_from_older_version msg =
     rbind (tx_values TxMessageV20_layout msg) (\<lambda>((h, n, s, sid, v, flag, ts), msg').
     rbind (TxMessage_init (Some h) (Some n) s sid (Some v) (Some flag) (double_of_nat ts) None None) (\<lambda>m. Inr (m, msg')))"

text \<open>
  Versions 17 and 19 clear the flags these versions do not know: \<open>LOCAL_REGION\<close>, \<open>PRIVATE_TX\<close>,
  \<open>ELITE_SENDER\<close> and the reserved ones. The timestamp is converted before the message is built.
\<close>

definition UNKNOWN_TRANSACTION_FLAGS :: nat where "UNKNOWN_TRANSACTION_FLAGS = 32 OR 64 OR 128 OR 1024 OR 2048 OR 4096"
definition INVERTED_UNKNOWN_TRANSACTION_FLAGS :: nat where "INVERTED_UNKNOWN_TRANSACTION_FLAGS = 8191 - UNKNOWN_TRANSACTION_FLAGS"

definition mask_flag :: "nat \<Rightarrow> nat" where
  "mask_flag flag = (if UNKNOWN_TRANSACTION_FLAGS AND flag \<noteq> 0 then flag AND INVERTED_UNKNOWN_TRANSACTION_FLAGS else flag)"

definition TxMessageConverterV19_convert_to_older_version :: "tx_message \<Rightarrow> (tx_message \<times> tx_message) result" where
  "TxMessageConverterV19_convert_to_older_version msg =
     rbind (tx_values TxMessage_layout msg) (\<lambda>((h, n, s, sid, v, flag, ts), msg').
     rbind (py_int (PyFloat ts)) (\<lambda>i.
     rbind (TxMessageV19_init (Some h) (Some n) s sid (Some v) (Some (mask_flag flag)) (PyInt i) None) (\<lambda>old. Inr (old, msg'))))"

definition TxMessageConverterV19_convert_from_older_version :: "tx_message \<Rightarrow> (tx_message \<times> tx_message) result" where
  "TxMessageConverterV19_convert_from_older_version msg =
     rbind (tx_values TxMessageV19_layout msg) (\<lambda>((h, n, s, sid, v, flag, ts), msg').
     rbind (TxMessage_init (Some h) (Some n) s sid (Some v) (Some flag) (double_of_nat ts) None None) (\<lambda>m. Inr (m, msg')))"

definition TxMessageConverterV17_convert_to_older_version :: "tx_message \<Rightarrow> (tx_message \<times> tx_message) result" where
  "TxMessageConverterV17_convert_to_older_version msg =
     rbind (tx_values TxMessage_layout msg) (\<lambda>((h, n, s, sid, v, flag, ts), msg').
     rbind (py_int (PyFloat ts)) (\<lambda>i.
     rbind (TxMessageV17_init (Some h) (Some n) s sid (Some v) (Some (mask_flag flag)) (PyInt i) None) (\<lambda>old. Inr (old, msg'))))"

definition TxMessageConverterV17_convert_from_older_version :: "tx_message \<Rightarrow> (tx_message \<times> tx_message) result" where
  "TxMessageConverterV17_convert_from_older_version msg =
     rbind (tx_values TxMessageV17_layout msg) (\<lambda>((h, n, s, sid, v, flag, ts), msg').
     rbind (TxMessage_init (Some h) (Some n) s sid (Some v) (Some flag) (double_of_nat ts) None None) (\<lambda>m. Inr (m, msg')))"

definition quota_value :: "string \<Rightarrow> nat" where
  "quota_value q = (if q = ''PAID_DAILY_QUOTA'' then PAID_DAILY_QUOTA else FREE_DAILY_QUOTA)"

definition TxMessageConverterV15_convert_to_older_version :: "tx_message \<Rightarrow> (tx_message \<times> tx_message) result" where
  "TxMessageConverterV15_convert_to_older_version msg =
     rbind (tx_values TxMessage_layout msg) (\<lambda>((h, n, s, sid, v, flag, ts), msg').
     rbind (TxMessageV15_init (Some h) (Some n) s sid (Some v) (Some (quota_value (TransactionFlag_get_quota_type flag))) (PyFloat ts) None)
       (\<lambda>old. Inr (old, msg')))"

definition TxMessageConverterV15_convert_from_older_version :: "tx_message \<Rightarrow> (tx_message \<times> tx_message) result" where
  "TxMessageConverterV15_convert_from_older_version msg =
     rbind (tx_values TxMessageV15_layout msg) (\<lambda>((h, n, s, sid, v, quota_type, ts), msg').
     rbind (TxMessage_init (Some h) (Some n) s sid (Some v) (Some (if flag_in FREE_DAILY_QUOTA quota_type then NO_FLAGS else PAID_TX))
              (double_of_nat ts) None None) (\<lambda>m. Inr (m, msg')))"

text \<open>
  Versions 7 and 6 work on the bytes: they cut the fields of the current version out, or put zeros in
  their place, and construct the other class from the result. Lengths are naturals, exact for every
  message that holds the fields of its class.
\<close>

definition cut_bytes :: "nat \<Rightarrow> nat \<Rightarrow> bytes \<Rightarrow> bytes" where
  "cut_bytes left right raw =
     (let b0 = replicate (left + length (drop right raw)) 0; b1 = slice_assign 0 left (take left raw) b0
      in slice_assign left (length b1) (drop right raw) b1)"

definition initialize_tx :: "tx_layout \<Rightarrow> bytes \<Rightarrow> nat \<Rightarrow> tx_message result" where
  "initialize_tx L b payload_len =
     rbind (tx_init L None None [] 0 None None 0 None (Some b)) (\<lambda>m.
       Inr (m\<lparr>msg_type_field := Some (MESSAGE_TYPE TxMessageClass), payload_len_field := Some payload_len\<rparr>))"

definition TxMessageConverterV7_convert_to_older_version :: "tx_message \<Rightarrow> (tx_message \<times> tx_message) result" where
  "TxMessageConverterV7_convert_to_older_version msg =
     rbind (AbstractInternalMessage_payload_len msg) (\<lambda>(n, msg).
     rbind (AbstractInternalMessage_rawbytes msg) (\<lambda>(raw, msg).
     rbind (initialize_tx TxMessageV7_layout (cut_bytes (72 + 4 + 1) (72 + 4 + 2 + 4) raw) (n - 1 - 4)) (\<lambda>old. Inr (old, msg))))"

definition TxMessageConverterV7_convert_from_older_version :: "tx_message \<Rightarrow> (tx_message \<times> tx_message) result" where
  "TxMessageConverterV7_convert_from_older_version msg =
     rbind (AbstractInternalMessage_payload_len msg) (\<lambda>(n, msg).
     rbind (AbstractInternalMessage_rawbytes msg) (\<lambda>(raw, msg).
       let left = 72 + 4 + 1; right = 72 + 4 + 2 + 4; new_len = n + 1 + 4;
           b1 = slice_assign 0 left (take left raw) (replicate (HEADER_LENGTH + new_len) 0)
       in rbind (pack_into 1 b1 left 0) (\<lambda>b2.
          rbind (pack_into 4 b2 left 0) (\<lambda>b3.
          rbind (initialize_tx TxMessage_layout (slice_assign right (length b3) (drop left raw) b3) new_len) (\<lambda>m. Inr (m, msg))))))"

definition TxMessageConverterV6_convert_to_older_version :: "tx_message \<Rightarrow> (tx_message \<times> tx_message) result" where
  "TxMessageConverterV6_convert_to_older_version msg =
     rbind (AbstractInternalMessage_payload_len msg) (\<lambda>(n, msg).
     rbind (AbstractInternalMessage_rawbytes msg) (\<lambda>(raw, msg).
       let old_len = n - 2 - 8 - 36; b = cut_bytes (72 + 4) (72 + 4 + 2 + 8 + 36) raw
       in rbind (pack_s MSG_TYPE_LEN b STARTING_SEQUENCE_BYTES_LEN (MESSAGE_TYPE TxMessageClass)) (\<lambda>b.
          rbind (pack_into 4 b (STARTING_SEQUENCE_BYTES_LEN + MSG_TYPE_LEN) old_len) (\<lambda>b.
          rbind (initialize_tx TxMessageV6_layout b old_len) (\<lambda>old. Inr (old, msg))))))"

definition TxMessageConverterV6_convert_from_older_version :: "tx_message \<Rightarrow> (tx_message \<times> tx_message) result" where
  "TxMessageConverterV6_convert_from_older_version msg =
     rbind (AbstractInternalMessage_payload_len msg) (\<lambda>(n, msg).
     rbind (AbstractInternalMessage_rawbytes msg) (\<lambda>(raw, msg).
       let left = 72 + 4; right = 72 + 4 + 2 + 8 + 36; new_len = n + 2 + 8 + 36;
           b1 = slice_assign 0 left (take left raw) (replicate (HEADER_LENGTH + new_len) 0)
       in rbind (pack_into 2 b1 left 0) (\<lambda>b2.
          rbind (pack_into 4 b2 (left + 2) 0) (\<lambda>b3.
          rbind (initialize_tx TxMessage_layout (slice_assign right (length b3) (drop left raw) b3) new_len) (\<lambda>m. Inr (m, msg))))))"

text \<open>The converter objects.\<close>

datatype tx_conv = TxConvV21 | TxConvV20 | TxConvV19 | TxConvV17 | TxConvV15 | TxConvV7 | TxConvV6

definition tx_to_older :: "tx_conv \<Rightarrow> tx_message \<Rightarrow> (tx_message \<times> tx_message) result" where
  "tx_to_older c = (case c of
      TxConvV21 \<Rightarrow> TxMessageConverterV21_convert_to_older_version | TxConvV20 \<Rightarrow> TxMessageConverterV20_convert_to_older_version
    | TxConvV19 \<Rightarrow> TxMessageConverterV19_convert_to_older_version | TxConvV17 \<Rightarrow> TxMessageConverterV17_convert_to_older_version
    | TxConvV15 \<Rightarrow> TxMessageConverterV15_convert_to_older_version | TxConvV7 \<Rightarrow> TxMessageConverterV7_convert_to_older_version
    | TxConvV6 \<Rightarrow> TxMessageConverterV6_convert_to_older_version)"

definition tx_from_older :: "tx_conv \<Rightarrow> tx_message \<Rightarrow> (tx_message \<times> tx_message) result" where
  "tx_from_older c = (case c of
      TxConvV21 \<Rightarrow> TxMessageConverterV21_convert_from_older_version | TxConvV20 \<Rightarrow> TxMessageConverterV20_convert_from_older_version
    | TxConvV19 \<Rightarrow> TxMessageConverterV19_convert_from_older_version | TxConvV17 \<Rightarrow> TxMessageConverterV17_convert_from_older_version
    | TxConvV15 \<Rightarrow> TxMessageConverterV15_convert_from_older_version | TxConvV7 \<Rightarrow> TxMessageConverterV7_convert_from_older_version
    | TxConvV6 \<Rightarrow> TxMessageConverterV6_convert_from_older_version)"

definition old_layout :: "tx_conv \<Rightarrow> tx_layout" where
  "old_layout c = (case c of TxConvV21 \<Rightarrow> TxMessageV21_layout | TxConvV20 \<Rightarrow> TxMessageV20_layout | TxConvV19 \<Rightarrow> TxMessageV19_layout
    | TxConvV17 \<Rightarrow> TxMessageV17_layout | TxConvV15 \<Rightarrow> TxMessageV15_layout | TxConvV7 \<Rightarrow> TxMessageV7_layout | TxConvV6 \<Rightarrow> TxMessageV6_layout)"

subsection \<open>What survives a conversion\<close>

text \<open>
  The fields an older version keeps: \<open>old_fields\<close> is the value of the older message, \<open>surviving\<close> what is
  left of a message that was converted to the older version and back. \<open>t\<close> is the timestamp in whole seconds.
  They are written with the numbers of the wire formats and not with the masks of the converters: versions
  17 to 19 know the five lowest flags, \<open>DELIVER_TO_NODE\<close> (bit 8) and \<open>VALIDATORS_ONLY\<close> (bit 9); version 15
  has a quota instead, 2 for a paid transaction (bit 1) and 1 for a free one.
\<close>

definition flags_of_v17 :: "nat \<Rightarrow> nat" where
  "flags_of_v17 x = x AND (1 OR 2 OR 4 OR 8 OR 16 OR 256 OR 512)"

definition quota_of_v15 :: "nat \<Rightarrow> nat" where
  "quota_of_v15 x = (if bit x 1 then 2 else 1)"

definition old_fields :: "tx_conv \<Rightarrow> nat \<Rightarrow> tx_fields \<Rightarrow> tx_fields" where
  "old_fields c t f = (case c of
      TxConvV21 \<Rightarrow> f\<lparr>f_account := []\<rparr>
    | TxConvV20 \<Rightarrow> f\<lparr>f_account := [], f_timestamp := t\<rparr>
    | TxConvV19 \<Rightarrow> f\<lparr>f_account := [], f_timestamp := t, f_flag := flags_of_v17 (f_flag f)\<rparr>
    | TxConvV17 \<Rightarrow> f\<lparr>f_account := [], f_timestamp := t, f_flag := flags_of_v17 (f_flag f)\<rparr>
    | TxConvV15 \<Rightarrow> f\<lparr>f_account := [], f_timestamp := t, f_flag := quota_of_v15 (f_flag f)\<rparr>
    | _ \<Rightarrow> f\<lparr>f_account := [], f_timestamp := 0, f_flag := 0\<rparr>)"

definition surviving :: "tx_conv \<Rightarrow> nat \<Rightarrow> tx_fields \<Rightarrow> tx_fields" where
  "surviving c t f = (case c of
      TxConvV21 \<Rightarrow> f\<lparr>f_account := []\<rparr>
    | TxConvV20 \<Rightarrow> f\<lparr>f_account := [], f_timestamp := double_of_nat t\<rparr>
    | TxConvV19 \<Rightarrow> f\<lparr>f_account := [], f_timestamp := double_of_nat t, f_flag := flags_of_v17 (f_flag f)\<rparr>
    | TxConvV17 \<Rightarrow> f\<lparr>f_account := [], f_timestamp := double_of_nat t, f_flag := flags_of_v17 (f_flag f)\<rparr>
    | TxConvV15 \<Rightarrow> f\<lparr>f_account := [], f_timestamp := double_of_nat t, f_flag := (if bit (f_flag f) 1 then 2 else 0)\<rparr>
    | _ \<Rightarrow> f\<lparr>f_account := [], f_timestamp := 0, f_flag := 0\<rparr>)"

lemma rstrip0_last: "rstrip0 xs = [] \<or> last (rstrip0 xs) \<noteq> 0"
proof -
  have "dropWhile (\<lambda>b. b = 0) (rev xs) = [] \<or> hd (dropWhile (\<lambda>b. b = 0) (rev xs)) \<noteq> 0"
    using hd_dropWhile[of "\<lambda>b. b = 0" "rev xs"] by blast
  then show ?thesis by (auto simp: rstrip0_def last_rev)
qed

lemma length_rstrip0: "length (rstrip0 xs) \<le> length xs"
  using length_dropWhile_le[of "\<lambda>b. b = 0" "rev xs"] by (simp add: rstrip0_def)

text \<open>The fields of a coherent message fit the fields of its class.\<close>

lemma tx_inv_valid:
  assumes "tx_inv L m" and "length (msg_buf m) < 256 ^ 4" and "flag_bound L \<le> 256 ^ flag_len L"
  shows "tx_valid L (tx_abs L m)"
proof -
  let ?b = "msg_buf m"
  have len: "76 + flag_len L + timestamp_len L + account_len L < length ?b" using tx_facts(1)[OF assms(1)] by (simp add: tx_offs)
  have bound: "of_le (bslice i (i + w) ?b) < 256 ^ w" if "i + w \<le> length ?b" for i w
    using of_le_bound[of "bslice i (i + w) ?b"] that by simp
  have "length (f_account (tx_abs L m)) \<le> account_len L"
    unfolding tx_abs_fields using len length_rstrip0[of "bslice (tx_account_off L) (tx_val_off L) ?b"] by (simp add: tx_offs)
  moreover have "f_account (tx_abs L m) = [] \<or> last (f_account (tx_abs L m)) \<noteq> 0" unfolding tx_abs_fields by (rule rstrip0_last)
  moreover have "57 + flag_len L + timestamp_len L + account_len L + length (f_val (tx_abs L m)) < 256 ^ 4"
    using len assms(2) by (simp add: tx_abs_fields tx_offs)
  moreover have "f_network (tx_abs L m) < 256 ^ 4" "f_short_id (tx_abs L m) < 256 ^ 4" "f_timestamp (tx_abs L m) < 256 ^ timestamp_len L"
    using bound[of 52 4] bound[of 72 4] bound[of "tx_timestamp_off L" "timestamp_len L"] len by (simp_all add: tx_abs_fields tx_offs)
  moreover have "length (f_hash (tx_abs L m)) = 32" "length (f_source (tx_abs L m)) = 16" using len by (simp_all add: tx_abs_fields)
  moreover have "f_flag (tx_abs L m) < 256 ^ flag_len L" using tx_facts(3)[OF assms(1)] assms(3) by simp
  ultimately show ?thesis using tx_facts(3,4)[OF assms(1)] unfolding tx_valid_def by blast
qed

lemma tx_values_spec:
  assumes "tx_inv L m" and "f = tx_abs L m"
  shows "\<exists>h s m'. tx_values L m = Inr ((h, f_network f, s, f_short_id f, f_val f, f_flag f, f_timestamp f), m')
    \<and> binary h = f_hash f \<and> uuid_pack_to_bytes s = f_source f \<and> msg_buf m' = msg_buf m"
proof -
  obtain h m1 where 1: "AbstractBroadcastMessage_message_hash m = Inr (h, m1)" "binary h = f_hash f" "tx_inv L m1" "tx_abs L m1 = f" "msg_buf m1 = msg_buf m"
    using tx_read_hash[OF assms(1)] unfolding tx_returns_def assms(2) by (elim exE conjE)
  obtain m2 where 2: "AbstractBroadcastMessage_network_num m1 = Inr (f_network f, m2)" "tx_inv L m2" "tx_abs L m2 = f" "msg_buf m2 = msg_buf m"
    using tx_read_network[OF 1(3)] unfolding tx_returns_def 1(4,5) by auto
  obtain s m3 where 3: "AbstractBroadcastMessage_source_id m2 = Inr (s, m3)" "uuid_pack_to_bytes s = f_source f" "tx_inv L m3" "tx_abs L m3 = f" "msg_buf m3 = msg_buf m"
    using tx_read_source[OF 2(2)] unfolding tx_returns_def 2(3,4) by auto
  obtain m4 where 4: "tx_short_id m3 = Inr (f_short_id f, m4)" "tx_inv L m4" "tx_abs L m4 = f" "msg_buf m4 = msg_buf m"
    using tx_read_short_id[OF 3(3)] unfolding tx_returns_def 3(4,5) by auto
  obtain m5 where 5: "tx_tx_val L m4 = Inr (f_val f, m5)" "tx_inv L m5" "tx_abs L m5 = f" "msg_buf m5 = msg_buf m"
    using tx_read_val[OF 4(2)] unfolding tx_returns_def 4(3,4) by auto
  obtain m6 where 6: "tx_flag L m5 = Inr (f_flag f, m6)" "tx_inv L m6" "tx_abs L m6 = f" "msg_buf m6 = msg_buf m"
    using tx_read_flag[OF 5(2)] unfolding tx_returns_def 5(3,4) by auto
  obtain m7 where 7: "tx_timestamp L m6 = Inr (f_timestamp f, m7)" "msg_buf m7 = msg_buf m"
    using tx_read_timestamp[OF 6(2)] unfolding tx_returns_def 6(3,4) by auto
  show ?thesis
    using 1(1,2) 2(1) 3(1,2) 4(1) 5(1) 6(1) 7 by (simp add: tx_values_def)
qed

lemma tx_rebuild:
  assumes "tx_inv L m" and "f = tx_abs L m" and "tx_valid L' g" and "account_len L' \<le> 36" and "f_account g = []"
    and "f_hash g = f_hash f" and "f_network g = f_network f" and "f_source g = f_source f" and "f_short_id g = f_short_id f"
    and "f_val g = f_val f"
  shows "\<exists>h s m'. tx_values L m = Inr ((h, f_network f, s, f_short_id f, f_val f, f_flag f, f_timestamp f), m')
    \<and> msg_buf m' = msg_buf m
    \<and> tx_init L' (Some h) (Some (f_network f)) s (f_short_id f) (Some (f_val f)) (Some (f_flag g)) (f_timestamp g) None None
      = Inr (tx_object L' g)"
proof -
  obtain h s m' where v: "tx_values L m = Inr ((h, f_network f, s, f_short_id f, f_val f, f_flag f, f_timestamp f), m')"
    "binary h = f_hash f" "uuid_pack_to_bytes s = f_source f" "msg_buf m' = msg_buf m"
    using tx_values_spec[OF assms(1,2)] by (elim exE conjE)
  have pad: "pad_to (account_len L') DECODED_EMPTY_ACCOUNT_ID = pad_to (account_len L') []"
    using assms(4) by (simp add: pad_to_def DECODED_EMPTY_ACCOUNT_ID_def min_def)
  have "tx_init L' (Some h) (Some (f_network g)) s (f_short_id g) (Some (f_val g)) (Some (f_flag g)) (f_timestamp g) None None
      = Inr (tx_object L' g)"
    using v(2,3) pad assms by (intro tx_init_new) simp_all
  then show ?thesis using v assms by auto
qed

lemma and_le_nat: "(x :: nat) AND y \<le> x"
proof -
  have "int (x AND y) \<le> int x" by (simp add: of_nat_and_eq AND_upper1)
  then show ?thesis by simp
qed

lemma paid_bit: "flag_in PAID_TX x \<longleftrightarrow> bit x 1"
proof -
  have "2 AND x = (if bit x 1 then 2 else 0)"
    by (rule bit_eqI) (auto simp: bit_and_iff bit_2_iff)
  then show ?thesis by (simp add: flag_in_def)
qed

lemma quota_value_spec: "quota_value (TransactionFlag_get_quota_type x) = quota_of_v15 x"
  by (simp add: quota_value_def TransactionFlag_get_quota_type_def paid_bit quota_of_v15_def)

lemma and_known_flags:
  assumes "x < 8192" and "x AND 7392 = 0"
  shows "(x :: nat) AND 799 = x"
proof -
  have "x = x AND 8191" using assms(1) take_bit_nat_eq_self[of x 13] by (simp add: take_bit_eq_mask mask_eq_exp_minus_1)
  also have "(8191 :: nat) = 799 OR 7392" by simp
  also have "x AND (799 OR 7392) = (x AND 799) OR (x AND 7392)" by (rule bit_eqI) (auto simp only: bit_and_iff bit_or_iff)
  finally show ?thesis using assms(2) by simp
qed

lemma mask_flag_spec: "x < 8192 \<Longrightarrow> mask_flag x = flags_of_v17 x"
  using and_known_flags[of x]
  by (simp add: mask_flag_def flags_of_v17_def UNKNOWN_TRANSACTION_FLAGS_def INVERTED_UNKNOWN_TRANSACTION_FLAGS_def and.commute)

lemma flags_of_v17_le: "flags_of_v17 x \<le> x"
  by (simp add: flags_of_v17_def and_le_nat del: or_numerals)

lemma quota_value_bound: "quota_of_v15 q < 4"
  by (simp add: quota_of_v15_def)

lemma old_fields_valid:
  assumes "tx_valid TxMessage_layout f" and "t < 2 ^ 32"
  shows "tx_valid (old_layout c) (old_fields c t f)"
  using assms flags_of_v17_le[of "f_flag f"] quota_value_bound[of "f_flag f"]
  by (cases c) (simp_all add: tx_valid_def old_layout_def old_fields_def old_layouts TxMessage_layout_def)

lemma surviving_valid:
  assumes "tx_valid TxMessage_layout f" and "t < 2 ^ 32"
  shows "tx_valid TxMessage_layout (surviving c t f)"
  using assms flags_of_v17_le[of "f_flag f"] int_of_double_of_nat(2)[of t]
  by (cases c) (simp_all add: tx_valid_def surviving_def TxMessage_layout_def)

definition by_fields :: "tx_conv \<Rightarrow> bool" where
  "by_fields c \<longleftrightarrow> c \<noteq> TxConvV7 \<and> c \<noteq> TxConvV6"

lemma to_older_by_fields:
  assumes "tx_inv TxMessage_layout m" and "f = tx_abs TxMessage_layout m" and "length (msg_buf m) < 256 ^ 4"
    and "int_of_double (f_timestamp f) = Inr (int t)" and "t < 2 ^ 32" and "by_fields c"
  shows "\<exists>m'. tx_to_older c m = Inr (tx_object (old_layout c) (old_fields c t f), m') \<and> msg_buf m' = msg_buf m"
proof -
  have tx: "tx_valid TxMessage_layout f"
    unfolding assms(2) using assms(1,3) by (rule tx_inv_valid) (simp add: TxMessage_layout_def)
  note valid = old_fields_valid[OF tx assms(5), of c]
  have flags: "mask_flag (f_flag f) = flags_of_v17 (f_flag f)"
    using tx mask_flag_spec by (simp add: tx_valid_def TxMessage_layout_def)
  have int: "int_field (PyFloat (f_timestamp f)) = Inr t" "int_field (PyInt (int t)) = Inr t" "py_int (PyFloat (f_timestamp f)) = Inr (int t)"
    using assms(4) by (simp_all add: int_field_def py_int_def)
  note re = tx_rebuild[OF assms(1,2) valid]
  show ?thesis
  proof (cases c)
    case TxConvV21
    then show ?thesis using re
      by (auto simp: old_fields_def old_layout_def old_layouts tx_to_older_def TxMessageConverterV21_convert_to_older_version_def TxMessageV21_init_def)
  next
    case TxConvV20
    then show ?thesis using re int
      by (auto simp: old_fields_def old_layout_def old_layouts tx_to_older_def TxMessageConverterV20_convert_to_older_version_def TxMessageV20_init_def tx_init_int_def)
  next
    case TxConvV19
    then show ?thesis using re int flags
      by (auto simp: old_fields_def old_layout_def old_layouts tx_to_older_def TxMessageConverterV19_convert_to_older_version_def TxMessageV19_init_def tx_init_int_def)
  next
    case TxConvV17
    then show ?thesis using re int flags
      by (auto simp: old_fields_def old_layout_def old_layouts tx_to_older_def TxMessageConverterV17_convert_to_older_version_def TxMessageV17_init_def tx_init_int_def)
  next
    case TxConvV15
    then show ?thesis using re int
      by (auto simp: old_fields_def old_layout_def old_layouts tx_to_older_def TxMessageConverterV15_convert_to_older_version_def TxMessageV15_init_def tx_init_int_def
          quota_value_spec)
  qed (use assms(6) in \<open>simp_all add: by_fields_def\<close>)
qed

lemma quota_paid: "flag_in 1 (quota_of_v15 x) \<longleftrightarrow> \<not> bit x 1"
  by (simp add: quota_of_v15_def flag_in_def)

lemma from_older_by_fields:
  assumes "tx_valid TxMessage_layout f" and "t < 2 ^ 32" and "by_fields c"
  shows "\<exists>m'. tx_from_older c (tx_object (old_layout c) (old_fields c t f)) = Inr (tx_object TxMessage_layout (surviving c t f), m')"
proof -
  let ?g = "old_fields c t f" and ?L = "old_layout c"
  note valid = old_fields_valid[OF assms(1,2), of c]
  note re = tx_rebuild[OF tx_object_inv[OF valid] tx_object_abs[OF valid, symmetric] surviving_valid[OF assms(1,2), of c]]
  show ?thesis
  proof (cases c)
    case TxConvV21
    then show ?thesis using re
      by (auto simp: old_fields_def surviving_def TxMessage_layout_def old_layout_def tx_from_older_def TxMessageConverterV21_convert_from_older_version_def
          TxMessage_init_def)
  next
    case TxConvV20
    then show ?thesis using re
      by (auto simp: old_fields_def surviving_def TxMessage_layout_def old_layout_def tx_from_older_def TxMessageConverterV20_convert_from_older_version_def
          TxMessage_init_def)
  next
    case TxConvV19
    then show ?thesis using re
      by (auto simp: old_fields_def surviving_def TxMessage_layout_def old_layout_def tx_from_older_def TxMessageConverterV19_convert_from_older_version_def
          TxMessage_init_def)
  next
    case TxConvV17
    then show ?thesis using re
      by (auto simp: old_fields_def surviving_def TxMessage_layout_def old_layout_def tx_from_older_def TxMessageConverterV17_convert_from_older_version_def
          TxMessage_init_def)
  next
    case TxConvV15
    then show ?thesis using re
      by (auto simp: old_fields_def surviving_def TxMessage_layout_def old_layout_def tx_from_older_def TxMessageConverterV15_convert_from_older_version_def
          TxMessage_init_def quota_paid[unfolded One_nat_def])
  qed (use assms(3) in \<open>simp_all add: by_fields_def\<close>)
qed

text \<open>Constructing a class from received bytes rewrites the header and sets the control flag, nothing else.\<close>

lemma tx_init_bytes:
  assumes "21 \<le> length b" and "length b < 256 ^ 4"
  shows "\<exists>m. tx_init L None None [] 0 None None 0 None (Some b) = Inr m \<and> length (msg_buf m) = length b
    \<and> payload_len_field m = Some (length b - 20)
    \<and> (\<forall>i j. 20 \<le> i \<longrightarrow> j \<le> length b - 1 \<longrightarrow> bslice i j (msg_buf m) = bslice i j b) \<and> (\<forall>f. tx_cached f m)"
proof -
  let ?ty = "MESSAGE_TYPE TxMessageClass" and ?body = "drop 20 b"
  let ?h = "STARTING_SEQUENCE_BYTES @ pad_to 12 ?ty @ le_bytes 4 (length b - 20)"
  let ?m = "tx_message_blank\<lparr>msg_buf := ?h @ mark_valid ?body, msg_type_field := Some ?ty, payload_len_field := Some (length b - 20)\<rparr>"
  have ne: "?body \<noteq> []" using assms(1) by simp
  have "msg_buf (tx_message_blank\<lparr>msg_buf := b\<rparr>) = take 20 b @ ?body" "length (take 20 b) = 20" "length b - 20 < 256 ^ 4"
    using assms by simp_all
  from init_frame[OF this(1,2) ne this(3), of ?ty]
  have "tx_init L None None [] 0 None None 0 None (Some b) = Inr ?m"
    by (simp add: tx_init_def AbstractBroadcastMessage_init_def Let_def tx_message_blank_def)
  moreover have "bslice i j (?h @ mark_valid ?body) = bslice i j b" if "20 \<le> i" "j \<le> length b - 1" for i j
  proof -
    have "bslice i j (?h @ mark_valid ?body) = bslice (i - 20) (j - 20) (butlast ?body @ [last ?body OR 1])"
      using that(1) by (simp add: bslice_skip mark_valid_def)
    also have "\<dots> = bslice (i - 20) (j - 20) (butlast ?body)"
    proof -
      have "j - 20 \<le> length (butlast ?body)" using that by simp
      then show ?thesis by (simp add: bslice_append)
    qed
    also have "\<dots> = bslice (i - 20) (j - 20) (butlast ?body @ [last ?body])"
    proof -
      have "j - 20 \<le> length (butlast ?body)" using that by simp
      then show ?thesis by (simp add: bslice_append)
    qed
    also have "\<dots> = bslice (i - 20) (j - 20) ?body" unfolding append_butlast_last_id[OF ne] ..
    also have "\<dots> = bslice i j b" using that by (simp add: bslice_def)
    finally show ?thesis .
  qed
  moreover have "tx_cached f ?m" for f by (simp add: tx_cached_def tx_message_blank_def)
  ultimately show ?thesis
    using ne assms by (intro exI[of _ ?m] conjI) simp_all
qed

definition bytes_fields :: "tx_layout \<Rightarrow> bytes \<Rightarrow> tx_fields" where
  "bytes_fields L b = tx_abs L (tx_message_blank\<lparr>msg_buf := b\<rparr>)"

lemma tx_abs_bytes: "tx_abs L m = bytes_fields L (msg_buf m)"
  by (simp add: bytes_fields_def tx_abs_def)

lemma initialize_tx_spec:
  assumes "tx_val_off L < length b" and "length b < 256 ^ 4" and "n = length b - 20" and "f = bytes_fields L b"
    and "f_flag f < flag_bound L" and "utf8_valid (f_account f)"
  shows "\<exists>m. initialize_tx L b n = Inr m \<and> tx_inv L m \<and> tx_abs L m = f \<and> length (msg_buf m) = length b"
proof -
  have "21 \<le> length b" using assms(1) by (simp add: tx_offs)
  from tx_init_bytes[OF this assms(2), of L]
  obtain m where m: "tx_init L None None [] 0 None None 0 None (Some b) = Inr m" "length (msg_buf m) = length b"
    "\<forall>i j. 20 \<le> i \<longrightarrow> j \<le> length b - 1 \<longrightarrow> bslice i j (msg_buf m) = bslice i j b" "\<forall>f. tx_cached f m"
    by (elim exE conjE)
  let ?m = "m\<lparr>msg_type_field := Some (MESSAGE_TYPE TxMessageClass), payload_len_field := Some n\<rparr>"
  have offs: "76 \<le> tx_timestamp_off L" "tx_timestamp_off L \<le> tx_account_off L" "tx_account_off L \<le> tx_val_off L"
    by (simp_all add: tx_offs)
  have abs: "tx_abs L ?m = f"
    using assms(1) offs by (simp add: assms(4) bytes_fields_def tx_abs_def Let_def m(2,3))
  have "tx_cached f ?m" using m(4) by (simp add: tx_cached_def)
  then have "tx_inv L ?m"
    using assms(1,3,5,6) m(2) unfolding tx_inv_def abs by simp
  then show ?thesis using m(1,2) abs by (simp add: initialize_tx_def)
qed

lemma rawbytes_inv:
  assumes "tx_inv L m"
  shows "AbstractInternalMessage_rawbytes m = Inr (msg_buf m, m)" and "AbstractInternalMessage_payload_len m = Inr (length (msg_buf m) - 20, m)"
  using tx_facts(2,9)[OF assms] by (simp_all add: AbstractInternalMessage_rawbytes_def AbstractInternalMessage_payload_len_def)

lemma cut_bytes_eq: "left \<le> right \<Longrightarrow> right \<le> length raw \<Longrightarrow> cut_bytes left right raw = take left raw @ drop right raw"
  by (simp add: cut_bytes_def Let_def slice_assign_def min_def)

lemma bslice_cut:
  "j \<le> left \<Longrightarrow> left \<le> length raw \<Longrightarrow> bslice i j (take left raw @ ys) = bslice i j raw"
  by (simp add: bslice_append bslice_take)

lemma v6_fields:
  assumes "\<And>i j. 20 \<le> i \<Longrightarrow> j \<le> 76 \<Longrightarrow> bslice i j b = bslice i j raw" and "bslice 76 (length b - 1) b = bslice 122 (length raw - 1) raw"
  shows "bytes_fields TxMessageV6_layout b = old_fields TxConvV6 t (bytes_fields TxMessage_layout raw)"
proof -
  have "bslice 76 76 b = []" by (simp add: bslice_def)
  then show ?thesis
    using assms unfolding bytes_fields_def old_fields_def tx_abs_def Let_def
    by (simp add: tx_offs old_layouts TxMessage_layout_def rstrip0_def)
qed

lemma v6_to_older:
  assumes "tx_inv TxMessage_layout m" and "length (msg_buf m) < 256 ^ 4"
  shows "\<exists>old. TxMessageConverterV6_convert_to_older_version m = Inr (old, m) \<and> tx_inv TxMessageV6_layout old
    \<and> tx_abs TxMessageV6_layout old = old_fields TxConvV6 t (tx_abs TxMessage_layout m) \<and> length (msg_buf old) + 46 = length (msg_buf m)"
proof -
  let ?raw = "msg_buf m" and ?n = "length (msg_buf m) - 20 - 2 - 8 - 36"
  let ?cut = "take 76 ?raw @ drop 122 ?raw"
  let ?b = "bput 16 (le_bytes 4 ?n) (bput 4 (pad_to 12 (MESSAGE_TYPE TxMessageClass)) ?cut)"
  have len: "122 < length ?raw" using tx_facts(1)[OF assms(1)] by (simp add: tx_offs TxMessage_layout_def)
  have lc: "length ?cut = length ?raw - 46" using len by simp
  have lb: "length ?b = length ?raw - 46" using len lc by simp
  have n: "?n < 256 ^ 4" "?n = length ?b - 20" using assms(2) lb len by simp_all
  have s: "bslice i j ?b = bslice i j ?raw" if "20 \<le> i" "j \<le> 76" for i j
    using that len lc by (simp add: bslice_bput_after bslice_cut)
  have v: "bslice 76 (length ?b - 1) ?b = bslice 122 (length ?raw - 1) ?raw"
    using len lc lb by (simp add: bslice_bput_after bslice_skip) (simp add: bslice_def)
  have f: "bytes_fields TxMessageV6_layout ?b = old_fields TxConvV6 t (tx_abs TxMessage_layout m)"
    unfolding tx_abs_bytes by (rule v6_fields) (fact s, fact v)
  have "tx_val_off TxMessageV6_layout < length ?b" "length ?b < 256 ^ 4" using len lb assms(2) by (simp_all add: tx_offs old_layouts)
  from initialize_tx_spec[OF this n(2) f[symmetric]]
  obtain old where "initialize_tx TxMessageV6_layout ?b ?n = Inr old" "tx_inv TxMessageV6_layout old"
    "tx_abs TxMessageV6_layout old = old_fields TxConvV6 t (tx_abs TxMessage_layout m)" "length (msg_buf old) = length ?b"
    by (auto simp: old_fields_def old_layouts)
  then show ?thesis
    using len lc lb n(1) by (simp add: TxMessageConverterV6_convert_to_older_version_def rawbytes_inv[OF assms(1)] Let_def cut_bytes_eq pack_s_def
        pack_into_def)
qed

lemma bput_zeros:
  "off = length a + i \<Longrightarrow> i + w \<le> k \<Longrightarrow> bput off (replicate w 0) (a @ replicate k 0) = a @ replicate k 0"
  by (simp add: bput_def flip: replicate_add)

text \<open>Both byte-level converters put zeros between the kept front part and the rest.\<close>

lemma grow_bytes:
  assumes "left \<le> length raw" and "left \<le> off1" and "off1 + w1 \<le> right" and "left \<le> off2" and "off2 + w2 \<le> right"
    and "n = length raw - 20 + (right - left)" and "20 \<le> left"
  shows "rbind (pack_into w1 (slice_assign 0 left (take left raw) (replicate (HEADER_LENGTH + n) 0)) off1 0) (\<lambda>b2.
      rbind (pack_into w2 b2 off2 0) (\<lambda>b3. F (slice_assign right (length b3) (drop left raw) b3)))
    = F (take left raw @ replicate (right - left) 0 @ drop left raw)"
proof -
  let ?k = "length raw - left + (right - left)"
  let ?z = "take left raw @ replicate ?k 0"
  have "20 + n - left = ?k" using assms by simp
  then have b1: "slice_assign 0 left (take left raw) (replicate (20 + n) 0) = ?z"
    using assms(1) by (simp add: slice_assign_def)
  have z1: "bput off1 (replicate w1 0) ?z = ?z"
    using bput_zeros[of off1 "take left raw" "off1 - left" w1 ?k] assms by simp
  have z2: "bput off2 (replicate w2 0) ?z = ?z"
    using bput_zeros[of off2 "take left raw" "off2 - left" w2 ?k] assms by simp
  have "length ?z = length raw + (right - left)" using assms(1) by simp
  then have fits: "off1 + w1 \<le> length ?z" "off2 + w2 \<le> length ?z" using assms by linarith+
  have "slice_assign right (length ?z) (drop left raw) ?z = take left raw @ replicate (right - left) 0 @ drop left raw"
    using assms order.trans[OF assms(2), of right] by (auto simp: slice_assign_def min_def dest: order.antisym)
  then show ?thesis
    unfolding b1 using z1 z2 fits by (simp only: pack_into_def le_bytes_zero zero_less_power zero_less_numeral simp_thms if_True rbind_Inr)
qed

lemma v6_from_older:
  assumes "tx_inv TxMessageV6_layout old" and "length (msg_buf old) + 46 < 256 ^ 4"
  shows "\<exists>m. TxMessageConverterV6_convert_from_older_version old = Inr (m, old) \<and> tx_inv TxMessage_layout m
    \<and> tx_abs TxMessage_layout m = tx_abs TxMessageV6_layout old"
proof -
  let ?raw = "msg_buf old" and ?n = "length (msg_buf old) - 20 + 2 + 8 + 36"
  let ?b = "take 76 ?raw @ replicate 46 0 @ drop 76 ?raw"
  have len: "76 < length ?raw" using tx_facts(1)[OF assms(1)] by (simp add: tx_offs old_layouts)
  have lb: "length ?b = length ?raw + 46" using len by simp
  have f: "bytes_fields TxMessage_layout b = bytes_fields TxMessageV6_layout ?raw" if "b = ?b" for b
  proof -
    have s: "bslice i j b = bslice i j ?raw" if "j \<le> 76" for i j
      using that len by (simp add: \<open>b = ?b\<close> bslice_cut)
    have z: "bslice 76 78 b = replicate 2 0" "bslice 78 86 b = replicate 8 0" "bslice 86 122 b = replicate 36 0"
      using len by (simp_all add: \<open>b = ?b\<close> bslice_skip) (simp_all add: bslice_def)
    have v: "bslice 122 (length b - 1) b = bslice 76 (length ?raw - 1) ?raw"
      using len by (simp add: \<open>b = ?b\<close> bslice_skip) (simp add: bslice_def)
    have e: "bslice 76 76 ?raw = []" "rstrip0 (replicate 36 0) = []" "rstrip0 [] = []"
      using rstrip0_append_zeros[of "[]" 36] by (simp_all add: bslice_def rstrip0_def)
    have "f_account (bytes_fields TxMessage_layout b) = []" "f_flag (bytes_fields TxMessage_layout b) = 0"
      "f_timestamp (bytes_fields TxMessage_layout b) = 0"
      unfolding bytes_fields_def tx_abs_fields by (simp_all add: tx_offs TxMessage_layout_def z e)
    then show ?thesis
      using v s unfolding bytes_fields_def by (simp add: tx_abs_def Let_def tx_offs old_layouts TxMessage_layout_def e)
  qed
  have ff: "bytes_fields TxMessage_layout ?b = bytes_fields TxMessageV6_layout ?raw" by (rule f) (rule refl)
  have p: "tx_val_off TxMessage_layout < length ?b" "length ?b < 256 ^ 4" "?n = length ?b - 20"
    using len assms(2) lb by (simp_all add: tx_offs TxMessage_layout_def)
  have "f_flag (bytes_fields TxMessage_layout ?b) < flag_bound TxMessage_layout" "utf8_valid (f_account (bytes_fields TxMessage_layout ?b))"
    unfolding ff unfolding bytes_fields_def tx_abs_fields by (simp_all add: tx_offs old_layouts TxMessage_layout_def bslice_def rstrip0_def)
  from initialize_tx_spec[OF p refl this]
  obtain m where m: "initialize_tx TxMessage_layout ?b ?n = Inr m" "tx_inv TxMessage_layout m"
    "tx_abs TxMessage_layout m = bytes_fields TxMessage_layout ?b" by (elim exE conjE)
  have g: "?n = length ?raw - 20 + (122 - 76)" by simp
  have "TxMessageConverterV6_convert_from_older_version old = rbind (initialize_tx TxMessage_layout ?b ?n) (\<lambda>m. Inr (m, old))"
    using grow_bytes[of 76 ?raw 76 2 122 78 4 ?n "\<lambda>b. rbind (initialize_tx TxMessage_layout b ?n) (\<lambda>m. Inr (m, old))"] len g
    by (simp add: TxMessageConverterV6_convert_from_older_version_def rawbytes_inv[OF assms(1)] Let_def)
  then show ?thesis using m ff unfolding tx_abs_bytes[of TxMessageV6_layout] by simp
qed

text \<open>
  Converting a transaction to an older version and back gives a message of the current version with the
  fields of the original, less what the older version cannot hold: the account id; the fraction of the
  timestamp below version 21; the newer flags below version 20; all flags but the quota up to version
  16; and in version 6 flags and timestamp altogether. Hash, network, source, short id and contents are kept.
\<close>

theorem tx_conversion_round_trip:
  assumes "tx_inv TxMessage_layout m" and "f = tx_abs TxMessage_layout m" and "length (msg_buf m) < 256 ^ 4"
    and "int_of_double (f_timestamp f) = Inr (int t)" and "t < 2 ^ 32" and "c \<noteq> TxConvV7"
  shows "\<exists>old m' new old'. tx_to_older c m = Inr (old, m') \<and> msg_buf m' = msg_buf m
    \<and> tx_inv (old_layout c) old \<and> tx_abs (old_layout c) old = old_fields c t f
    \<and> tx_from_older c old = Inr (new, old') \<and> tx_inv TxMessage_layout new \<and> tx_abs TxMessage_layout new = surviving c t f"
proof (cases "c = TxConvV6")
  case True
  obtain old where old: "TxMessageConverterV6_convert_to_older_version m = Inr (old, m)" "tx_inv TxMessageV6_layout old"
    "tx_abs TxMessageV6_layout old = old_fields TxConvV6 t f" "length (msg_buf old) + 46 = length (msg_buf m)"
    using v6_to_older[OF assms(1,3), of t] unfolding assms(2)[symmetric] by (elim exE conjE)
  have "length (msg_buf old) + 46 < 256 ^ 4" using old(4) assms(3) by simp
  from v6_from_older[OF old(2) this] obtain new where new: "TxMessageConverterV6_convert_from_older_version old = Inr (new, old)"
    "tx_inv TxMessage_layout new" "tx_abs TxMessage_layout new = tx_abs TxMessageV6_layout old" by (elim exE conjE)
  show ?thesis
    using True old(1-3) new by (auto simp: tx_to_older_def tx_from_older_def old_layout_def old_fields_def surviving_def)
next
  case False
  then have c: "by_fields c" using assms(6) by (simp add: by_fields_def)
  have valid: "tx_valid TxMessage_layout f"
    unfolding assms(2) using assms(1,3) by (rule tx_inv_valid) (simp add: TxMessage_layout_def)
  note old = old_fields_valid[OF valid assms(5), of c] and new = surviving_valid[OF valid assms(5), of c]
  show ?thesis
    using to_older_by_fields[OF assms(1-5) c] from_older_by_fields[OF valid assms(5) c] tx_object_inv[OF old] tx_object_abs[OF old]
      tx_object_inv[OF new] tx_object_abs[OF new] by (elim exE conjE) (intro exI conjI)
qed

lemma initialize_tx_val:
  assumes "21 \<le> length b" and "length b < 256 ^ 4" and "n = length b - 20"
  shows "\<exists>m m'. initialize_tx L b n = Inr m \<and> tx_tx_val L m = Inr (bslice (tx_val_off L) (length b - 1) b, m')"
proof -
  obtain m where m: "tx_init L None None [] 0 None None 0 None (Some b) = Inr m" "length (msg_buf m) = length b"
    "\<forall>i j. 20 \<le> i \<longrightarrow> j \<le> length b - 1 \<longrightarrow> bslice i j (msg_buf m) = bslice i j b" "\<forall>f. tx_cached f m"
    using tx_init_bytes[OF assms(1,2), of L] by (elim exE conjE)
  have "tm_tx_val m \<in> {None, Some [0]}" "tm_tx_val m \<in> {None, Some []}"
    using m(4)[THEN spec, of "undefined\<lparr>f_val := [0]\<rparr>"] m(4)[THEN spec, of "undefined\<lparr>f_val := []\<rparr>"] by (simp_all add: tx_cached_def)
  then have "tm_tx_val m = None" by auto
  then show ?thesis
    using m(1-3) assms by (simp add: initialize_tx_def tx_tx_val_def AbstractInternalMessage_payload_len_def Let_def tx_offs)
qed

lemma bslice_split:
  assumes "i \<le> k" and "k \<le> j"
  shows "bslice i j xs = bslice i k xs @ bslice k j xs"
proof -
  have "j - i = (k - i) + (j - k)" using assms by arith
  then have "take (j - i) (drop i xs) = take (k - i) (drop i xs) @ take (j - k) (drop (k - i) (drop i xs))" by (simp only: take_add)
  then show ?thesis using assms(1) by (simp add: bslice_def)
qed

text \<open>
  The converter of version 7 still cuts as if the current message had a four-byte timestamp and no
  account id. What it sends to a version 7 peer has forty foreign bytes in front of the contents, and
  of a transaction such a peer sends the first forty bytes of the contents are lost.
\<close>

theorem v7_conversion_shifts_contents:
  assumes "tx_inv TxMessage_layout m" and "length (msg_buf m) < 256 ^ 4"
    and "tx_inv TxMessageV7_layout old" and "length (msg_buf old) + 5 < 256 ^ 4"
  shows "(\<exists>o' o'' p. TxMessageConverterV7_convert_to_older_version m = Inr (o', m) \<and> length p = 40
        \<and> TxMessageV7_tx_val o' = Inr (p @ f_val (tx_abs TxMessage_layout m), o''))
    \<and> (\<exists>new new'. TxMessageConverterV7_convert_from_older_version old = Inr (new, old)
        \<and> tx_tx_val TxMessage_layout new = Inr (drop 40 (f_val (tx_abs TxMessageV7_layout old)), new'))"
proof
  let ?raw = "msg_buf m"
  let ?b = "take 77 ?raw @ drop 82 ?raw" and ?n = "length (msg_buf m) - 20 - 1 - 4"
  have len: "122 < length ?raw" using tx_facts(1)[OF assms(1)] by (simp add: tx_offs TxMessage_layout_def)
  have "21 \<le> length ?b" "length ?b < 256 ^ 4" "?n = length ?b - 20" using len assms(2) by simp_all
  from initialize_tx_val[OF this, of TxMessageV7_layout]
  obtain o' o'' where o: "initialize_tx TxMessageV7_layout ?b ?n = Inr o'"
    "tx_tx_val TxMessageV7_layout o' = Inr (bslice 77 (length ?b - 1) ?b, o'')" by (auto simp: tx_offs old_layouts)
  have "bslice 77 (length ?b - 1) ?b = bslice 82 (length ?raw - 1) ?raw"
    using len by (simp add: bslice_skip) (simp add: bslice_def)
  also have "\<dots> = bslice 82 122 ?raw @ bslice 122 (length ?raw - 1) ?raw"
    using len by (intro bslice_split) simp_all
  finally have "bslice 77 (length ?b - 1) ?b = bslice 82 122 ?raw @ f_val (tx_abs TxMessage_layout m)"
    by (simp add: tx_abs_fields tx_offs TxMessage_layout_def)
  moreover have "TxMessageConverterV7_convert_to_older_version m = Inr (o', m)"
    using o(1) len by (simp add: TxMessageConverterV7_convert_to_older_version_def rawbytes_inv[OF assms(1)] cut_bytes_eq)
  moreover have "length (bslice 82 122 ?raw) = 40" using len by simp
  ultimately show "\<exists>o' o'' p. TxMessageConverterV7_convert_to_older_version m = Inr (o', m) \<and> length p = 40
      \<and> TxMessageV7_tx_val o' = Inr (p @ f_val (tx_abs TxMessage_layout m), o'')"
    using o(2) unfolding TxMessageV7_tx_val_def by metis
next
  let ?raw = "msg_buf old" and ?n = "length (msg_buf old) - 20 + 1 + 4"
  let ?b = "take 77 ?raw @ replicate 5 0 @ drop 77 ?raw"
  have len: "77 < length ?raw" using tx_facts(1)[OF assms(3)] by (simp add: tx_offs old_layouts)
  have "21 \<le> length ?b" "length ?b < 256 ^ 4" "?n = length ?b - 20" using len assms(4) by simp_all
  from initialize_tx_val[OF this, of TxMessage_layout]
  obtain new new' where n: "initialize_tx TxMessage_layout ?b ?n = Inr new"
    "tx_tx_val TxMessage_layout new = Inr (bslice 122 (length ?b - 1) ?b, new')" by (auto simp: tx_offs TxMessage_layout_def)
  have "bslice 122 (length ?b - 1) ?b = drop 40 (bslice 77 (length ?raw - 1) ?raw)"
    using len by (simp add: bslice_skip) (simp add: bslice_def drop_take)
  then have v: "bslice 122 (length ?b - 1) ?b = drop 40 (f_val (tx_abs TxMessageV7_layout old))"
    by (simp add: tx_abs_fields tx_offs old_layouts)
  have l: "Suc (length ?raw - 16) = length ?raw - 15" using len by arith
  have "TxMessageConverterV7_convert_from_older_version old = rbind (initialize_tx TxMessage_layout ?b ?n) (\<lambda>m. Inr (m, old))"
    using grow_bytes[of 77 ?raw 77 1 82 77 4 ?n "\<lambda>b. rbind (initialize_tx TxMessage_layout b ?n) (\<lambda>m. Inr (m, old))"] len l
    by (simp add: TxMessageConverterV7_convert_from_older_version_def rawbytes_inv[OF assms(3)] Let_def)
  then show "\<exists>new new'. TxMessageConverterV7_convert_from_older_version old = Inr (new, old)
      \<and> tx_tx_val TxMessage_layout new = Inr (drop 40 (f_val (tx_abs TxMessageV7_layout old)), new')"
    using n v by simp
qed

text \<open>A message with a timestamp of 1600000000.5 seconds.\<close>

definition stamped_tx :: tx_fields where
  "stamped_tx = sample_tx\<lparr>f_timestamp := 4744497694395858944, f_flag := 35\<rparr>"

lemma stamped_tx_facts:
  "tx_valid TxMessage_layout stamped_tx" "int_of_double (f_timestamp stamped_tx) = Inr 1600000000"
  "length (msg_buf (tx_object TxMessage_layout stamped_tx)) < 256 ^ 4"
  by (simp_all add: stamped_tx_def sample_tx_def tx_valid_def TxMessage_layout_def ascii_def int_of_double_def Let_def tx_object_def
      tx_body_def broadcast_head_def)

theorem tx_conversion_round_trip_witness:
  "\<exists>old m' new old'. tx_to_older TxConvV19 (tx_object TxMessage_layout stamped_tx) = Inr (old, m')
    \<and> tx_from_older TxConvV19 old = Inr (new, old') \<and> f_flag (tx_abs TxMessage_layout new) = 3"
proof -
  have "flags_of_v17 35 = 3" by (simp add: flags_of_v17_def)
  moreover have "int_of_double (f_timestamp stamped_tx) = Inr (int 1600000000)" using stamped_tx_facts(2) by simp
  ultimately show ?thesis
    using tx_conversion_round_trip[OF tx_object_inv[OF stamped_tx_facts(1)] tx_object_abs[OF stamped_tx_facts(1), symmetric]
        stamped_tx_facts(3), of 1600000000 TxConvV19]
    by (auto simp: surviving_def stamped_tx_def sample_tx_def)
qed

theorem v7_conversion_shifts_contents_witness:
  "\<exists>new new'. TxMessageConverterV7_convert_from_older_version (tx_object TxMessageV7_layout (sample_tx\<lparr>f_flag := 1, f_timestamp := 0, f_account := []\<rparr>))
      = Inr (new, tx_object TxMessageV7_layout (sample_tx\<lparr>f_flag := 1, f_timestamp := 0, f_account := []\<rparr>))
    \<and> tx_tx_val TxMessage_layout new = Inr ([], new')"
proof -
  let ?f = "sample_tx\<lparr>f_flag := 1, f_timestamp := 0, f_account := []\<rparr>"
  have v: "tx_valid TxMessageV7_layout ?f" by (simp add: tx_valid_def sample_tx_def old_layouts)
  have "length (msg_buf (tx_object TxMessageV7_layout ?f)) + 5 < 256 ^ 4"
    by (simp add: tx_object_def tx_body_def sample_tx_def old_layouts broadcast_head_def)
  from v7_conversion_shifts_contents[OF tx_object_inv[OF stamped_tx_facts(1)] stamped_tx_facts(3) tx_object_inv[OF v] this]
  show ?thesis unfolding tx_object_abs[OF v] by (simp add: sample_tx_def)
qed

end
