(* ===== verification/Version_Manager.thy ===== *)
theory Version_Manager
  imports Versioned_Messages
begin

text \<open>
  Blocks of version 8 and their converter, the tables of converters and message classes of every
  protocol version (\<open>message_converter_factory_v*.py\<close>, \<open>bloxroute_message_factory_v*.py\<close>) and the version
  manager (\<open>versioning/abstract_version_manager.py\<close>, \<open>bloxroute_version_manager.py\<close>). The converters of
  synchronization, pong and statistics messages are an argument.
\<close>

subsection \<open>Blocks of version 8\<close>

definition put_block_fields_v8 :: "bool \<Rightarrow> bytes option \<Rightarrow> bytes \<Rightarrow> nat \<Rightarrow> (bytes \<times> nat) result" where
  "put_block_fields_v8 is_encrypted blob b off =
     rbind (put_u 1 b off (if is_encrypted then 1 else 0)) (\<lambda>(b, off).
       case blob of None \<Rightarrow> Inl TypeError | Some bl \<Rightarrow> put_raw (length bl) b off bl)"

definition BroadcastMessageV8_init ::
    "object_hash option \<Rightarrow> nat option \<Rightarrow> string \<Rightarrow> bool \<Rightarrow> bytes option \<Rightarrow> bytes option \<Rightarrow> broadcast_msg result" where
  "BroadcastMessageV8_init message_hash network_num source_id is_encrypted blob buf =
     (let payload_len = (case blob of
            Some (x # xs) \<Rightarrow> BROADCAST_PAYLOAD_LENGTH + 1 + length (x # xs)
          | _ \<Rightarrow> BROADCAST_PAYLOAD_LENGTH)
      in rbind (AbstractBroadcastMessage_init (MESSAGE_TYPE BroadcastMessageClass) payload_len message_hash network_num (Some source_id)
                  buf broadcast_msg_blank) (\<lambda>m.
           if buf \<noteq> None then Inr m
           else rbind (put_block_fields_v8 is_encrypted blob (msg_buf m) PAYLOAD_START_OFFSET) (\<lambda>(b, _). Inr (m\<lparr>msg_buf := b\<rparr>))))"

definition BroadcastMessageV8_is_encrypted :: "broadcast_msg \<Rightarrow> (bool \<times> broadcast_msg) result" where
  "BroadcastMessageV8_is_encrypted m =
     (case bc_is_encrypted m of
        Some e \<Rightarrow> Inr (e, m)
      | None \<Rightarrow> rbind (unpack_from 1 (msg_buf m) PAYLOAD_START_OFFSET) (\<lambda>v. Inr (v \<noteq> 0, m\<lparr>bc_is_encrypted := Some (v \<noteq> 0)\<rparr>)))"

definition BroadcastMessageV8_blob :: "broadcast_msg \<Rightarrow> (bytes \<times> broadcast_msg) result" where
  "BroadcastMessageV8_blob m =
     (case bc_blob m of
        Some v \<Rightarrow> Inr (v, m)
      | None \<Rightarrow> rbind (AbstractInternalMessage_payload_len m) (\<lambda>(n, m').
                  let v = bslice (PAYLOAD_START_OFFSET + 1) (HEADER_LENGTH + n - CONTROL_FLAGS_LEN) (msg_buf m')
                  in Inr (v, m'\<lparr>bc_blob := Some v\<rparr>)))"

definition initialize_block :: "(bytes \<Rightarrow> broadcast_msg result) \<Rightarrow> bytes \<Rightarrow> nat \<Rightarrow> broadcast_msg result" where
  "initialize_block cls b payload_len =
     rbind (cls b) (\<lambda>m. Inr (m\<lparr>msg_type_field := Some (MESSAGE_TYPE BroadcastMessageClass), payload_len_field := Some payload_len\<rparr>))"

abbreviation (input) BASE_LENGTH :: nat where "BASE_LENGTH \<equiv> 72"
abbreviation (input) BREAKPOINT :: nat where "BREAKPOINT \<equiv> 76"
abbreviation (input) BROADCAST_TYPE_LEN :: nat where "BROADCAST_TYPE_LEN \<equiv> 4"

definition BroadcastMessageConverterV8_convert_to_older_version :: "broadcast_msg \<Rightarrow> (broadcast_msg \<times> broadcast_msg) result" where
  "BroadcastMessageConverterV8_convert_to_older_version msg =
     rbind (AbstractInternalMessage_payload_len msg) (\<lambda>(n, msg).
     rbind (AbstractInternalMessage_rawbytes msg) (\<lambda>(raw, msg).
     rbind (initialize_block (\<lambda>b. BroadcastMessageV8_init None None [] False None (Some b)) (cut_bytes BASE_LENGTH BREAKPOINT raw)
              (n - BROADCAST_TYPE_LEN)) (\<lambda>old. Inr (old, msg))))"

definition BroadcastMessageConverterV8_convert_from_older_version :: "broadcast_msg \<Rightarrow> (broadcast_msg \<times> broadcast_msg) result" where
  "BroadcastMessageConverterV8_convert_from_older_version msg =
     rbind (AbstractInternalMessage_payload_len msg) (\<lambda>(n, msg).
     rbind (AbstractInternalMessage_rawbytes msg) (\<lambda>(raw, msg).
       let new_len = n + BROADCAST_TYPE_LEN;
           b1 = slice_assign 0 BASE_LENGTH (take BASE_LENGTH raw) (replicate (HEADER_LENGTH + new_len) 0)
       in rbind (pack_s BROADCAST_TYPE_LEN b1 BASE_LENGTH BroadcastMessageType_BLOCK) (\<lambda>b2.
          rbind (initialize_block (\<lambda>b. BroadcastMessage_init None None [] BroadcastMessageType_BLOCK False None (Some b))
                   (slice_assign BREAKPOINT (length b2) (drop BASE_LENGTH raw) b2) new_len) (\<lambda>m. Inr (m, msg)))))"

text \<open>The part of a block that is converted while the rest still arrives.\<close>

definition BroadcastMessageConverterV8_convert_first_bytes_to_older_version :: "bytes \<Rightarrow> bytes result" where
  "BroadcastMessageConverterV8_convert_first_bytes_to_older_version first_msg_bytes =
     (if length first_msg_bytes < BASE_LENGTH then Inl ValueError
      else rbind (AbstractBloxrouteMessage_unpack first_msg_bytes) (\<lambda>(command, payload_len).
             let b0 = replicate (length first_msg_bytes - BROADCAST_TYPE_LEN) 0;
                 b1 = slice_assign 0 BASE_LENGTH (take BASE_LENGTH first_msg_bytes) b0;
                 b2 = slice_assign BASE_LENGTH (length b1) (drop BREAKPOINT first_msg_bytes) b1
             in if payload_len < BROADCAST_TYPE_LEN then Inl StructError
                else rbind (pack_s MSG_TYPE_LEN b2 STARTING_SEQUENCE_BYTES_LEN command) (\<lambda>b3.
                     pack_into 4 b3 (STARTING_SEQUENCE_BYTES_LEN + MSG_TYPE_LEN) (payload_len - BROADCAST_TYPE_LEN))))"

definition BroadcastMessageConverterV8_convert_first_bytes_from_older_version :: "bytes \<Rightarrow> bytes result" where
  "BroadcastMessageConverterV8_convert_first_bytes_from_older_version first_msg_bytes =
     (if length first_msg_bytes < BASE_LENGTH then Inl ValueError
      else rbind (AbstractBloxrouteMessage_unpack first_msg_bytes) (\<lambda>(command, payload_len).
             let b0 = replicate (length first_msg_bytes + BROADCAST_TYPE_LEN) 0;
                 b1 = slice_assign 0 BASE_LENGTH (take BASE_LENGTH first_msg_bytes) b0;
                 b2 = slice_assign BREAKPOINT (length b1) (drop BASE_LENGTH first_msg_bytes) b1
             in rbind (pack_s BROADCAST_TYPE_LEN b2 BASE_LENGTH BroadcastMessageType_BLOCK) (\<lambda>b3.
                rbind (pack_s MSG_TYPE_LEN b3 STARTING_SEQUENCE_BYTES_LEN command) (\<lambda>b4.
                  pack_into 4 b4 (STARTING_SEQUENCE_BYTES_LEN + MSG_TYPE_LEN) (payload_len + BROADCAST_TYPE_LEN)))))"

text \<open>A block with and without its type, as bytes of a payload.\<close>

lemma length_BLOCK [simp]: "length BroadcastMessageType_BLOCK = 4"
  by (simp add: BroadcastMessageType_BLOCK_def ascii_def)

lemma blockv8_parse:
  assumes "good_body body"
  shows "BroadcastMessageV8_init None None [] e None (Some (frame (MESSAGE_TYPE BroadcastMessageClass) body)) = Inr (block_object body)"
  using block_init_parse[OF assms, of "[]" e] by (simp add: BroadcastMessageV8_init_def BroadcastMessage_init_def)

text \<open>The constructors write the header, whatever header the buffer had.\<close>

lemma block_init_header:
  assumes "length h = 20" and "good_body body"
  shows "BroadcastMessage_init None None [] ty e None (Some (h @ body)) = Inr (block_object body)"
    and "BroadcastMessageV8_init None None [] e None (Some (h @ body)) = Inr (block_object body)"
proof -
  let ?ty = "MESSAGE_TYPE BroadcastMessageClass"
  have "msg_buf (broadcast_msg_blank\<lparr>msg_buf := h @ body\<rparr>) = h @ body" "body \<noteq> []" "length body < 256 ^ 4"
    using assms by (simp_all add: good_body_def)
  note init_frame[OF this(1) assms(1) this(2,3), of ?ty]
  moreover have "mark_valid body = body" using assms(2) by (simp add: good_body_def mark_valid_good)
  ultimately have "AbstractBroadcastMessage_init ?ty n None None s (Some (h @ body)) broadcast_msg_blank = Inr (block_object body)" for n s
    using assms(1) by (simp add: AbstractBroadcastMessage_init_def block_object_def frame_def broadcast_msg_blank_def)
  then show "BroadcastMessage_init None None [] ty e None (Some (h @ body)) = Inr (block_object body)"
    "BroadcastMessageV8_init None None [] e None (Some (h @ body)) = Inr (block_object body)"
    by (simp_all add: BroadcastMessage_init_def BroadcastMessageV8_init_def)
qed

lemma block_object_raw:
  "AbstractInternalMessage_rawbytes (block_object body) = Inr (frame (MESSAGE_TYPE BroadcastMessageClass) body, block_object body)"
  "AbstractInternalMessage_payload_len (block_object body) = Inr (length body, block_object body)"
  by (simp_all add: AbstractInternalMessage_rawbytes_def AbstractInternalMessage_payload_len_def block_object_def)

lemma block_object_init: "initialize_block (\<lambda>_. Inr (block_object body)) b (length body) = Inr (block_object body)"
  by (simp add: initialize_block_def block_object_def)

abbreviation block_frame :: "bytes \<Rightarrow> bytes" where
  "block_frame \<equiv> frame (MESSAGE_TYPE BroadcastMessageClass)"

definition block_header :: "nat \<Rightarrow> bytes" where
  "block_header n = STARTING_SEQUENCE_BYTES @ pad_to 12 (MESSAGE_TYPE BroadcastMessageClass) @ le_bytes 4 n"

lemma length_block_header [simp]: "length (block_header n) = 20"
  by (simp add: block_header_def)

lemma block_frame_header: "block_frame body = block_header (length body) @ body"
  by (simp add: frame_def block_header_def)

lemma v8_to_older:
  assumes "length head = 52" and "length ty = 4" and "good_body (head @ rest)"
  shows "BroadcastMessageConverterV8_convert_to_older_version (block_object (head @ ty @ rest))
    = Inr (block_object (head @ rest), block_object (head @ ty @ rest))"
proof -
  let ?h = "block_header (length (head @ ty @ rest))"
  have "cut_bytes 72 76 (block_frame (head @ ty @ rest)) = ?h @ head @ rest"
    using assms(1,2) by (simp add: cut_bytes_eq) (simp add: block_frame_header)
  moreover have "initialize_block (\<lambda>b. BroadcastMessageV8_init None None [] False None (Some b)) (?h @ head @ rest) (length (head @ rest))
      = Inr (block_object (head @ rest))"
    using block_init_header(2)[OF _ assms(3), of ?h False] by (simp add: initialize_block_def block_object_def)
  moreover have "length (head @ ty @ rest) - 4 = length (head @ rest)" using assms(2) by simp
  ultimately show ?thesis
    unfolding BroadcastMessageConverterV8_convert_to_older_version_def block_object_raw rbind_Inr prod.case by (simp only: rbind_Inr)
qed

lemma v8_from_older:
  assumes "length head = 52" and "good_body (head @ BroadcastMessageType_BLOCK @ rest)"
  shows "BroadcastMessageConverterV8_convert_from_older_version (block_object (head @ rest))
    = Inr (block_object (head @ BroadcastMessageType_BLOCK @ rest), block_object (head @ rest))"
proof -
  let ?h = "block_header (length (head @ rest))" and ?B = BroadcastMessageType_BLOCK and ?n = "length (head @ rest) + 4"
  have b1: "slice_assign 0 72 (take 72 (block_frame (head @ rest))) (replicate (20 + ?n) 0) = (?h @ head) @ replicate 4 0 @ replicate (length rest) 0"
    using assms(1) by (simp add: block_frame_header slice_assign_def flip: replicate_add)
  have b2: "pack_s 4 ((?h @ head) @ replicate 4 0 @ replicate (length rest) 0) 72 ?B = Inr ((?h @ head) @ ?B @ replicate (length rest) 0)"
    using bput_at_end[of ?B "replicate 4 0" "?h @ head" "replicate (length rest) 0"] assms(1) by (simp add: pack_s_def)
  have b3: "slice_assign 76 (length ((?h @ head) @ ?B @ replicate (length rest) 0)) (drop 72 (block_frame (head @ rest)))
      ((?h @ head) @ ?B @ replicate (length rest) 0) = ?h @ head @ ?B @ rest"
    using assms(1) by (simp add: block_frame_header slice_assign_def)
  have init: "initialize_block (\<lambda>b. BroadcastMessage_init None None [] ?B False None (Some b)) (?h @ head @ ?B @ rest) (length (head @ ?B @ rest))
      = Inr (block_object (head @ ?B @ rest))"
    using block_init_header(1)[OF _ assms(2), of ?h ?B False] by (simp add: initialize_block_def block_object_def)
  have n: "?n = length (head @ ?B @ rest)" by simp
  show ?thesis
    unfolding BroadcastMessageConverterV8_convert_from_older_version_def block_object_raw rbind_Inr prod.case Let_def b1 b2 b3
    using init n by (simp only: rbind_Inr)
qed

text \<open>Rewriting the length in a prefix of a frame.\<close>

lemma rewrite_header:
  assumes "20 \<le> k" and "k \<le> 20 + length body" and "n < 256 ^ 4"
  shows "rbind (pack_s 12 (block_header m @ take (k - 20) body) 4 (MESSAGE_TYPE BroadcastMessageClass)) (\<lambda>b. pack_into 4 b (4 + 12) n)
    = Inr (block_header n @ take (k - 20) body)"
proof -
  let ?S = STARTING_SEQUENCE_BYTES and ?t = "pad_to 12 (MESSAGE_TYPE BroadcastMessageClass)" and ?r = "take (k - 20) body"
  have "bput 4 ?t (?S @ ?t @ le_bytes 4 m @ ?r) = ?S @ ?t @ le_bytes 4 m @ ?r"
    using bput_at_end[of ?t ?t ?S "le_bytes 4 m @ ?r"] by simp
  moreover have "bput 16 (le_bytes 4 n) ((?S @ ?t) @ le_bytes 4 m @ ?r) = (?S @ ?t) @ le_bytes 4 n @ ?r"
    using bput_at_end[of "le_bytes 4 n" "le_bytes 4 m" "?S @ ?t" ?r] by simp
  ultimately show ?thesis using assms by (simp add: block_header_def pack_s_def pack_into_def)
qed

lemma take_block_frame: "20 \<le> k \<Longrightarrow> take k (block_frame body) = block_header (length body) @ take (k - 20) body"
  by (simp add: block_frame_header)

lemma unpack_block_prefix:
  assumes "20 \<le> k" and "length body < 256 ^ 4"
  shows "AbstractBloxrouteMessage_unpack (take k (block_frame body)) = Inr (MESSAGE_TYPE BroadcastMessageClass, length body)"
proof -
  let ?a = "take k (block_frame body)"
  have "AbstractBloxrouteMessage_unpack ?a = AbstractBloxrouteMessage_unpack (take 20 ?a)"
    using unpack_prefix[of "take 20 ?a" "drop 20 ?a"] assms(1) unfolding append_take_drop_id by simp
  also have "take 20 ?a = take 20 (block_frame body @ [])" using assms(1) by (simp add: min_def)
  finally show ?thesis using unpack_header_of_frame[OF MESSAGE_TYPE_good assms(2), of BroadcastMessageClass "[]"] by simp
qed

lemma v8_first_to_older:
  assumes "length head = 52" and "length ty = 4" and "length (head @ ty @ rest) < 256 ^ 4" and "76 \<le> k"
  shows "BroadcastMessageConverterV8_convert_first_bytes_to_older_version (take k (block_frame (head @ ty @ rest)))
    = Inr (take (k - 4) (block_frame (head @ rest)))"
proof -
  let ?body = "head @ ty @ rest" and ?m = "length (head @ ty @ rest)"
  let ?k = "min k (20 + ?m)"
  let ?a = "take ?k (block_frame ?body)"
  have a: "take k (block_frame ?body) = ?a" by (simp add: min_def)
  have k: "76 \<le> ?k" "?k \<le> 20 + ?m" using assms(1,2,4) by simp_all
  have split: "?a = (block_header ?m @ head) @ ty @ take (?k - 76) rest"
    using k assms(1,2) by (simp add: take_block_frame del: min_less_iff_conj)
  have len: "length ?a = ?k" using k by simp
  have b1: "slice_assign 0 72 (take 72 ?a) (replicate (?k - 4) 0) = (block_header ?m @ head) @ replicate (?k - 76) 0"
    unfolding split using k assms(1) by (simp add: slice_assign_def)
  have b2: "slice_assign 72 (length ((block_header ?m @ head) @ replicate (?k - 76) 0)) (drop 76 ?a) ((block_header ?m @ head) @ replicate (?k - 76) 0)
      = block_header ?m @ take (?k - 4 - 20) (head @ rest)"
    unfolding split using k assms(1,2) by (simp add: slice_assign_def)
  have "length (head @ rest) = ?m - 4" using assms(2) by simp
  moreover have "rbind (pack_s 12 (block_header ?m @ take (?k - 4 - 20) (head @ rest)) 4 (MESSAGE_TYPE BroadcastMessageClass))
      (\<lambda>b. pack_into 4 b (4 + 12) (?m - 4)) = Inr (block_header (?m - 4) @ take (?k - 4 - 20) (head @ rest))"
    using k assms by (intro rewrite_header) simp_all
  moreover have "take (k - 4) (block_frame (head @ rest)) = block_header (length (head @ rest)) @ take (?k - 4 - 20) (head @ rest)"
    using assms(1,2,4) by (simp add: take_block_frame min_def)
  moreover have k20: "20 \<le> ?k" using k(1) by linarith
  moreover have "\<not> ?k < 72" "\<not> ?m < 4" using k(1) by linarith (simp add: assms(1))
  ultimately show ?thesis
    unfolding a BroadcastMessageConverterV8_convert_first_bytes_to_older_version_def len
    using unpack_block_prefix[OF k20 assms(3)] by (simp only: Let_def b1 b2 rbind_Inr prod.case if_False)
qed

lemma v8_first_from_older:
  assumes "length head = 52" and "length (head @ BroadcastMessageType_BLOCK @ rest) < 256 ^ 4" and "72 \<le> k"
  shows "BroadcastMessageConverterV8_convert_first_bytes_from_older_version (take k (block_frame (head @ rest)))
    = Inr (take (k + 4) (block_frame (head @ BroadcastMessageType_BLOCK @ rest)))"
proof -
  let ?B = BroadcastMessageType_BLOCK and ?m = "length (head @ rest)"
  let ?k = "min k (20 + ?m)"
  let ?a = "take ?k (block_frame (head @ rest))" and ?z = "replicate (?k + 4) 0 :: bytes"
  let ?r = "take (?k - 72) rest"
  have a: "take k (block_frame (head @ rest)) = ?a" by (simp add: min_def)
  have k: "72 \<le> ?k" "?k \<le> 20 + ?m" using assms(1,3) by simp_all
  have split: "?a = (block_header ?m @ head) @ ?r"
    using k assms(1) by (simp add: take_block_frame del: min_less_iff_conj)
  have lr: "length ?r = ?k - 72" using k assms(1) by simp
  have len: "length ?a = ?k" using k by simp
  have z: "drop 72 ?z = replicate 4 0 @ replicate (?k - 72) 0" using k by (simp flip: replicate_add)
  have b1: "slice_assign 0 72 (take 72 ?a) ?z = (block_header ?m @ head) @ replicate 4 0 @ replicate (?k - 72) 0"
    unfolding split using z assms(1) by (simp add: slice_assign_def)
  have b2: "slice_assign 76 (length ((block_header ?m @ head) @ replicate 4 0 @ replicate (?k - 72) 0)) (drop 72 ?a)
      ((block_header ?m @ head) @ replicate 4 0 @ replicate (?k - 72) 0) = (block_header ?m @ head) @ replicate 4 0 @ ?r"
    unfolding split using assms(1) by (simp add: slice_assign_def)
  have b3: "pack_s 4 ((block_header ?m @ head) @ replicate 4 0 @ ?r) 72 ?B = Inr (block_header ?m @ take (?k + 4 - 20) (head @ ?B @ rest))"
    using bput_at_end[of ?B "replicate 4 0" "block_header ?m @ head" ?r] assms(1) k(1) by (simp add: pack_s_def)
  have "length (head @ ?B @ rest) = ?m + 4" by simp
  moreover have "rbind (pack_s 12 (block_header ?m @ take (?k + 4 - 20) (head @ ?B @ rest)) 4 (MESSAGE_TYPE BroadcastMessageClass))
      (\<lambda>b. pack_into 4 b (4 + 12) (?m + 4)) = Inr (block_header (?m + 4) @ take (?k + 4 - 20) (head @ ?B @ rest))"
    using k assms by (intro rewrite_header) simp_all
  moreover have "take (k + 4) (block_frame (head @ ?B @ rest)) = block_header (length (head @ ?B @ rest)) @ take (?k + 4 - 20) (head @ ?B @ rest)"
    using assms(1,3) by (simp add: take_block_frame min_def)
  moreover have k20: "20 \<le> ?k" using k(1) by linarith
  moreover have small: "?m < 256 ^ 4" using assms(2) by simp
  moreover have "\<not> ?k < 72" using k(1) by linarith
  ultimately show ?thesis
    unfolding a BroadcastMessageConverterV8_convert_first_bytes_from_older_version_def len
    using unpack_block_prefix[OF k20 small] by (simp only: Let_def b1 b2 b3 rbind_Inr prod.case if_False)
qed

text \<open>
  C17. A block that is forwarded while it still arrives is converted like a complete one: converting its
  first bytes, from the end of the shared fields on, gives exactly the first bytes of the converted
  message, in both directions, so the remaining bytes can follow unchanged. Converting a complete block
  to version 8 and back keeps it, except that its type becomes \<open>BLOCK\<close>.
\<close>

theorem block_conversion_streams:
  assumes "length head = 52" and "length ty = 4" and "good_body (head @ BroadcastMessageType_BLOCK @ rest)" and "good_body (head @ rest)"
    and "76 \<le> k" and "72 \<le> j"
  shows "BroadcastMessageConverterV8_convert_to_older_version (block_object (head @ ty @ rest))
      = Inr (block_object (head @ rest), block_object (head @ ty @ rest))
    \<and> BroadcastMessageConverterV8_convert_from_older_version (block_object (head @ rest))
      = Inr (block_object (head @ BroadcastMessageType_BLOCK @ rest), block_object (head @ rest))
    \<and> BroadcastMessageConverterV8_convert_first_bytes_to_older_version (take k (msg_buf (block_object (head @ ty @ rest))))
      = Inr (take (k - 4) (msg_buf (block_object (head @ rest))))
    \<and> BroadcastMessageConverterV8_convert_first_bytes_from_older_version (take j (msg_buf (block_object (head @ rest))))
      = Inr (take (j + 4) (msg_buf (block_object (head @ BroadcastMessageType_BLOCK @ rest))))"
proof -
  have b: "msg_buf (block_object body) = block_frame body" for body by (simp add: block_object_def)
  have len: "length (head @ ty @ rest) < 256 ^ 4" "length (head @ BroadcastMessageType_BLOCK @ rest) < 256 ^ 4"
    using assms(2,3) by (simp_all add: good_body_def)
  show ?thesis
    unfolding b
    by (intro conjI v8_to_older[OF assms(1,2,4)] v8_from_older[OF assms(1,3)] v8_first_to_older[OF assms(1,2) len(1) assms(5)]
        v8_first_from_older[OF assms(1) len(2) assms(6)])
qed

theorem block_conversion_streams_witness:
  "BroadcastMessageConverterV8_convert_first_bytes_to_older_version
      (take 80 (msg_buf (block_object (replicate 52 3 @ BroadcastMessageType_CONSENSUS @ replicate 9 5 @ [1]))))
    = Inr (take 76 (msg_buf (block_object (replicate 52 3 @ replicate 9 5 @ [1]))))"
  using block_conversion_streams[of "replicate 52 3" BroadcastMessageType_CONSENSUS "replicate 9 5 @ [1]" 80 72]
  by (simp add: good_body_def BroadcastMessageType_CONSENSUS_def ascii_def)

subsection \<open>The tables of the versions\<close>

text \<open>Converter objects, named by the version of their module.\<close>

datatype message_converter =
    NoChanges | TxConverter tx_conv | TxSyncConverter nat | BroadcastConverterV8 | PongConverterV13 | BdnStatsConverter nat

text \<open>Each converter factory takes the mapping of the next version and overrides some types.\<close>

type_synonym converter_mapping = "(bytes \<times> message_converter) list"

definition MessageConverterFactoryV22 :: converter_mapping where "MessageConverterFactoryV22 = []"
definition MessageConverterFactoryV21 :: converter_mapping where
  "MessageConverterFactoryV21 = [(MESSAGE_TYPE TxMessageClass, TxConverter TxConvV21)]"
definition MessageConverterFactoryV20 :: converter_mapping where
  "MessageConverterFactoryV20 = AList.update (MESSAGE_TYPE TxMessageClass) (TxConverter TxConvV20) MessageConverterFactoryV21"
definition MessageConverterFactoryV19 :: converter_mapping where
  "MessageConverterFactoryV19 = AList.update (MESSAGE_TYPE TxMessageClass) (TxConverter TxConvV19) MessageConverterFactoryV20"
definition MessageConverterFactoryV18 :: converter_mapping where
  "MessageConverterFactoryV18 = AList.update (MESSAGE_TYPE BdnPerformanceStatsMessage) (BdnStatsConverter 18)
     (AList.update (MESSAGE_TYPE TxMessageClass) (TxConverter TxConvV17) MessageConverterFactoryV19)"
definition MessageConverterFactoryV17 :: converter_mapping where
  "MessageConverterFactoryV17 = AList.update (MESSAGE_TYPE BdnPerformanceStatsMessage) (BdnStatsConverter 16)
     (AList.update (MESSAGE_TYPE TxMessageClass) (TxConverter TxConvV17) MessageConverterFactoryV18)"
definition MessageConverterFactoryV16 :: converter_mapping where
  "MessageConverterFactoryV16 = AList.update (MESSAGE_TYPE BdnPerformanceStatsMessage) (BdnStatsConverter 16) MessageConverterFactoryV17"
definition MessageConverterFactoryV15 :: converter_mapping where
  "MessageConverterFactoryV15 = AList.update (MESSAGE_TYPE TxServiceSyncTxsMessage) (TxSyncConverter 15)
     (AList.update (MESSAGE_TYPE TxMessageClass) (TxConverter TxConvV15) MessageConverterFactoryV16)"
definition MessageConverterFactoryV14 :: converter_mapping where
  "MessageConverterFactoryV14 = AList.update (MESSAGE_TYPE BdnPerformanceStatsMessage) (BdnStatsConverter 14) MessageConverterFactoryV15"
definition MessageConverterFactoryV13 :: converter_mapping where
  "MessageConverterFactoryV13 = AList.update (MESSAGE_TYPE PongMessage) PongConverterV13 MessageConverterFactoryV14"
definition MessageConverterFactoryV12 :: converter_mapping where "MessageConverterFactoryV12 = MessageConverterFactoryV13"
definition MessageConverterFactoryV11 :: converter_mapping where "MessageConverterFactoryV11 = MessageConverterFactoryV12"
definition MessageConverterFactoryV10 :: converter_mapping where
  "MessageConverterFactoryV10 = AList.update (MESSAGE_TYPE BdnPerformanceStatsMessage) (BdnStatsConverter 10) MessageConverterFactoryV11"
definition MessageConverterFactoryV9 :: converter_mapping where
  "MessageConverterFactoryV9 = AList.update (MESSAGE_TYPE BdnPerformanceStatsMessage) (BdnStatsConverter 9) MessageConverterFactoryV10"
definition MessageConverterFactoryV8 :: converter_mapping where
  "MessageConverterFactoryV8 = AList.update (MESSAGE_TYPE BroadcastMessageClass) BroadcastConverterV8 MessageConverterFactoryV9"
definition MessageConverterFactoryV7 :: converter_mapping where
  "MessageConverterFactoryV7 = AList.update (MESSAGE_TYPE TxMessageClass) (TxConverter TxConvV7) MessageConverterFactoryV8"
definition MessageConverterFactoryV6 :: converter_mapping where
  "MessageConverterFactoryV6 = AList.update (MESSAGE_TYPE TxServiceSyncTxsMessage) (TxSyncConverter 6)
     (AList.update (MESSAGE_TYPE TxMessageClass) (TxConverter TxConvV6) MessageConverterFactoryV7)"

lemmas converter_factories = MessageConverterFactoryV22_def MessageConverterFactoryV21_def MessageConverterFactoryV20_def
  MessageConverterFactoryV19_def MessageConverterFactoryV18_def MessageConverterFactoryV17_def MessageConverterFactoryV16_def
  MessageConverterFactoryV15_def MessageConverterFactoryV14_def MessageConverterFactoryV13_def MessageConverterFactoryV12_def
  MessageConverterFactoryV11_def MessageConverterFactoryV10_def MessageConverterFactoryV9_def MessageConverterFactoryV8_def
  MessageConverterFactoryV7_def MessageConverterFactoryV6_def

definition get_message_converter :: "converter_mapping \<Rightarrow> bytes \<Rightarrow> message_converter result" where
  "get_message_converter mapping msg_type =
     (if msg_type = [] then Inl ValueError
      else case map_of mapping msg_type of None \<Rightarrow> Inr NoChanges | Some c \<Rightarrow> Inr c)"

text \<open>Message classes of older versions, and \<open>_MESSAGE_TYPE_MAPPING\<close> of each message factory; \<open>None\<close> withdraws a type.\<close>

datatype versioned_class =
    Current bx_class | OldTx tx_conv | TxServiceSyncTxsMessageV nat | BroadcastMessageV8 | PongMessageV13 | BdnPerformanceStatsMessageV nat

type_synonym class_mapping = "(bytes \<times> versioned_class option) list"

definition BloxrouteMessageFactoryV22 :: class_mapping where
  "BloxrouteMessageFactoryV22 = map (\<lambda>c. (MESSAGE_TYPE c, Some (Current c))) all_classes"
definition BloxrouteMessageFactoryV21 :: class_mapping where
  "BloxrouteMessageFactoryV21 = AList.update (MESSAGE_TYPE TxMessageClass) (Some (OldTx TxConvV21)) BloxrouteMessageFactoryV22"
definition BloxrouteMessageFactoryV20 :: class_mapping where
  "BloxrouteMessageFactoryV20 = AList.update (MESSAGE_TYPE TxMessageClass) (Some (OldTx TxConvV20)) BloxrouteMessageFactoryV21"
definition BloxrouteMessageFactoryV19 :: class_mapping where
  "BloxrouteMessageFactoryV19 = AList.update (MESSAGE_TYPE TxMessageClass) (Some (OldTx TxConvV19)) BloxrouteMessageFactoryV20"
definition BloxrouteMessageFactoryV18 :: class_mapping where
  "BloxrouteMessageFactoryV18 = AList.update (MESSAGE_TYPE BdnPerformanceStatsMessage) (Some (BdnPerformanceStatsMessageV 18)) BloxrouteMessageFactoryV19"
definition BloxrouteMessageFactoryV17 :: class_mapping where
  "BloxrouteMessageFactoryV17 = AList.update (MESSAGE_TYPE TxMessageClass) (Some (OldTx TxConvV17)) BloxrouteMessageFactoryV18"
definition BloxrouteMessageFactoryV16 :: class_mapping where
  "BloxrouteMessageFactoryV16 = AList.update (MESSAGE_TYPE BdnPerformanceStatsMessage) (Some (BdnPerformanceStatsMessageV 16)) BloxrouteMessageFactoryV17"
definition BloxrouteMessageFactoryV15 :: class_mapping where
  "BloxrouteMessageFactoryV15 = AList.update (MESSAGE_TYPE TxServiceSyncTxsMessage) (Some (TxServiceSyncTxsMessageV 15))
     (AList.update (MESSAGE_TYPE TxMessageClass) (Some (OldTx TxConvV15)) BloxrouteMessageFactoryV16)"
definition BloxrouteMessageFactoryV14 :: class_mapping where
  "BloxrouteMessageFactoryV14 = AList.update (MESSAGE_TYPE BdnPerformanceStatsMessage) (Some (BdnPerformanceStatsMessageV 14)) BloxrouteMessageFactoryV15"
definition BloxrouteMessageFactoryV13 :: class_mapping where
  "BloxrouteMessageFactoryV13 = AList.update (MESSAGE_TYPE PongMessage) (Some PongMessageV13) BloxrouteMessageFactoryV14"
definition BloxrouteMessageFactoryV12 :: class_mapping where "BloxrouteMessageFactoryV12 = BloxrouteMessageFactoryV13"
definition BloxrouteMessageFactoryV11 :: class_mapping where
  "BloxrouteMessageFactoryV11 = AList.update (MESSAGE_TYPE CompressedBlockTxsMessage) None
     (AList.update (MESSAGE_TYPE GetCompressedBlockTxsMessage) None
       (AList.update (MESSAGE_TYPE RefreshBlockchainNetworkMessage) None BloxrouteMessageFactoryV12))"
definition BloxrouteMessageFactoryV10 :: class_mapping where
  "BloxrouteMessageFactoryV10 = AList.update (MESSAGE_TYPE BdnPerformanceStatsMessage) (Some (BdnPerformanceStatsMessageV 10)) BloxrouteMessageFactoryV11"
definition BloxrouteMessageFactoryV9 :: class_mapping where
  "BloxrouteMessageFactoryV9 = AList.update (MESSAGE_TYPE BdnPerformanceStatsMessage) (Some (BdnPerformanceStatsMessageV 9)) BloxrouteMessageFactoryV10"
definition BloxrouteMessageFactoryV8 :: class_mapping where
  "BloxrouteMessageFactoryV8 = AList.update (MESSAGE_TYPE BroadcastMessageClass) (Some BroadcastMessageV8) BloxrouteMessageFactoryV9"
definition BloxrouteMessageFactoryV7 :: class_mapping where
  "BloxrouteMessageFactoryV7 = AList.update (MESSAGE_TYPE TxMessageClass) (Some (OldTx TxConvV7)) BloxrouteMessageFactoryV8"
definition BloxrouteMessageFactoryV6 :: class_mapping where
  "BloxrouteMessageFactoryV6 = AList.update (MESSAGE_TYPE TxServiceSyncTxsMessage) (Some (TxServiceSyncTxsMessageV 6))
     (AList.update (MESSAGE_TYPE TxMessageClass) (Some (OldTx TxConvV6)) BloxrouteMessageFactoryV7)"


lemmas class_factories = BloxrouteMessageFactoryV22_def BloxrouteMessageFactoryV21_def BloxrouteMessageFactoryV20_def
  BloxrouteMessageFactoryV19_def BloxrouteMessageFactoryV18_def BloxrouteMessageFactoryV17_def BloxrouteMessageFactoryV16_def
  BloxrouteMessageFactoryV15_def BloxrouteMessageFactoryV14_def BloxrouteMessageFactoryV13_def BloxrouteMessageFactoryV12_def
  BloxrouteMessageFactoryV11_def BloxrouteMessageFactoryV10_def BloxrouteMessageFactoryV9_def BloxrouteMessageFactoryV8_def
  BloxrouteMessageFactoryV7_def BloxrouteMessageFactoryV6_def

text \<open>The table of a factory object: \<open>AbstractMessageFactory.__init__\<close> leaves the withdrawn types out.\<close>

definition AbstractMessageFactory_init :: "class_mapping \<Rightarrow> (bytes \<times> versioned_class) list" where
  "AbstractMessageFactory_init mapping = List.map_filter (\<lambda>(k, v). map_option (Pair k) v) mapping"

text \<open>
  \<open>_PROTOCOL_TO_CONVERTER_FACTORY_MAPPING\<close> and \<open>_PROTOCOL_TO_FACTORY_MAPPING\<close>. The entries of version 22 are
  the modules \<open>message_converter_factory_v22\<close> and \<open>bloxroute_message_factory_v22\<close>, not the objects of the
  same name in them: \<open>ModuleEntry\<close> has none of the methods of a factory.
\<close>

datatype 'a entry = FactoryEntry 'a | ModuleEntry

definition protocol_to_converter_factory_mapping :: "(nat \<times> converter_mapping entry) list" where
  "protocol_to_converter_factory_mapping =
     [(6, FactoryEntry MessageConverterFactoryV6), (7, FactoryEntry MessageConverterFactoryV7),
      (8, FactoryEntry MessageConverterFactoryV8), (9, FactoryEntry MessageConverterFactoryV9),
      (10, FactoryEntry MessageConverterFactoryV10), (11, FactoryEntry MessageConverterFactoryV11),
      (12, FactoryEntry MessageConverterFactoryV12), (13, FactoryEntry MessageConverterFactoryV13),
      (14, FactoryEntry MessageConverterFactoryV14), (15, FactoryEntry MessageConverterFactoryV15),
      (16, FactoryEntry MessageConverterFactoryV16), (17, FactoryEntry MessageConverterFactoryV17),
      (18, FactoryEntry MessageConverterFactoryV18), (19, FactoryEntry MessageConverterFactoryV19),
      (20, FactoryEntry MessageConverterFactoryV20), (21, FactoryEntry MessageConverterFactoryV21), (22, ModuleEntry)]"

definition protocol_to_factory_mapping :: "(nat \<times> (bytes \<times> versioned_class) list entry) list" where
  "protocol_to_factory_mapping =
     map (\<lambda>(v, m). (v, FactoryEntry (AbstractMessageFactory_init m)))
       [(6, BloxrouteMessageFactoryV6), (7, BloxrouteMessageFactoryV7), (8, BloxrouteMessageFactoryV8),
        (9, BloxrouteMessageFactoryV9), (10, BloxrouteMessageFactoryV10), (11, BloxrouteMessageFactoryV11),
        (12, BloxrouteMessageFactoryV12), (13, BloxrouteMessageFactoryV13), (14, BloxrouteMessageFactoryV14),
        (15, BloxrouteMessageFactoryV15), (16, BloxrouteMessageFactoryV16), (17, BloxrouteMessageFactoryV17),
        (18, BloxrouteMessageFactoryV18), (19, BloxrouteMessageFactoryV19), (20, BloxrouteMessageFactoryV20),
        (21, BloxrouteMessageFactoryV21)]
     @ [(22, ModuleEntry), (23, FactoryEntry (map (\<lambda>(k, c). (k, Current c)) message_type_mapping))]"

definition AbstractVersionManager_get_message_factory_for_version ::
    "nat \<Rightarrow> (bytes \<times> versioned_class) list entry result" where
  "AbstractVersionManager_get_message_factory_for_version protocol_version =
     (if \<not> AbstractVersionManager_is_protocol_supported protocol_version then Inl ValueError
      else case map_of protocol_to_factory_mapping protocol_version of None \<Rightarrow> Inl NotImplementedErr | Some f \<Rightarrow> Inr f)"

definition AbstractVersionManager_get_message_converter :: "nat \<Rightarrow> bytes \<Rightarrow> message_converter result" where
  "AbstractVersionManager_get_message_converter version msg_type =
     (case map_of protocol_to_converter_factory_mapping version of
        None \<Rightarrow> Inl KeyError
      | Some ModuleEntry \<Rightarrow> Inl AttributeErr
      | Some (FactoryEntry mapping) \<Rightarrow> get_message_converter mapping msg_type)"

text \<open>The class with which version \<open>v\<close> reads messages of the type of \<open>c\<close>.\<close>

definition class_in_version :: "nat \<Rightarrow> bx_class \<Rightarrow> versioned_class option" where
  "class_in_version v c =
     (case AbstractVersionManager_get_message_factory_for_version v of
        Inr (FactoryEntry m) \<Rightarrow> map_of m (MESSAGE_TYPE c) | _ \<Rightarrow> None)"

subsection \<open>Converters and classes of a version\<close>

lemma MESSAGE_TYPE_inj [simp]: "MESSAGE_TYPE c = MESSAGE_TYPE d \<longleftrightarrow> c = d"
  by (metis mapping_MESSAGE_TYPE option.inject)

lemma MESSAGE_TYPE_not_Nil [simp]: "MESSAGE_TYPE c \<noteq> []"
  using MESSAGE_TYPE_good[of c] by (simp add: good_type_def)

lemma converter_by_class:
  "get_message_converter m (MESSAGE_TYPE c) = Inr (case map_of m (MESSAGE_TYPE c) of None \<Rightarrow> NoChanges | Some conv \<Rightarrow> conv)"
  by (simp add: get_message_converter_def split: option.split)

lemma map_of_classes: "map_of (map (\<lambda>d. (MESSAGE_TYPE d, f d)) all_classes) (MESSAGE_TYPE c) = Some (f c)"
proof -
  have "map_of (map (\<lambda>d. (MESSAGE_TYPE d, f d)) cs) (MESSAGE_TYPE c) = (if c \<in> set cs then Some (f c) else None)" for cs
    by (induction cs) auto
  moreover have "c \<in> set all_classes" by (cases c) (simp_all add: all_classes_def)
  ultimately show ?thesis by simp
qed

lemma map_of_factory:
  assumes "distinct (map fst m)"
  shows "map_of (AbstractMessageFactory_init m) k = Option.bind (map_of m k) id"
  using assms
proof (induction m)
  case (Cons p m)
  moreover have "Option.bind (map_of m k) (\<lambda>x. x) = None" if "fst p = k" using that Cons.prems by (simp add: map_of_eq_None_iff[THEN iffD2])
  ultimately show ?case by (cases p) (auto simp: AbstractMessageFactory_init_def map_filter_simps split: option.split)
qed (simp add: AbstractMessageFactory_init_def map_filter_simps)

lemma distinct_classes: "distinct (map fst BloxrouteMessageFactoryV22)"
proof -
  have "distinct all_classes" by (simp add: all_classes_def)
  then show ?thesis by (simp add: BloxrouteMessageFactoryV22_def distinct_map comp_def inj_on_def)
qed

lemma class_tables_distinct:
  "distinct (map fst BloxrouteMessageFactoryV6)" "distinct (map fst BloxrouteMessageFactoryV7)"
  "distinct (map fst BloxrouteMessageFactoryV8)" "distinct (map fst BloxrouteMessageFactoryV9)"
  "distinct (map fst BloxrouteMessageFactoryV10)" "distinct (map fst BloxrouteMessageFactoryV11)"
  "distinct (map fst BloxrouteMessageFactoryV12)" "distinct (map fst BloxrouteMessageFactoryV13)"
  "distinct (map fst BloxrouteMessageFactoryV14)" "distinct (map fst BloxrouteMessageFactoryV15)"
  "distinct (map fst BloxrouteMessageFactoryV16)" "distinct (map fst BloxrouteMessageFactoryV17)"
  "distinct (map fst BloxrouteMessageFactoryV18)" "distinct (map fst BloxrouteMessageFactoryV19)"
  "distinct (map fst BloxrouteMessageFactoryV20)" "distinct (map fst BloxrouteMessageFactoryV21)"
  unfolding class_factories by (intro distinct_update distinct_classes[unfolded BloxrouteMessageFactoryV22_def])+

lemma classes_of_version:
  "v \<in> {6, 7, 8, 9, 10, 11, 12, 13, 14, 15, 16, 17, 18, 19, 20, 21} \<Longrightarrow> class_in_version v c = Option.bind (map_of
     (if v = 6 then BloxrouteMessageFactoryV6 else if v = 7 then BloxrouteMessageFactoryV7
      else if v = 8 then BloxrouteMessageFactoryV8 else if v = 9 then BloxrouteMessageFactoryV9
      else if v = 10 then BloxrouteMessageFactoryV10 else if v = 11 then BloxrouteMessageFactoryV11
      else if v = 12 then BloxrouteMessageFactoryV12 else if v = 13 then BloxrouteMessageFactoryV13
      else if v = 14 then BloxrouteMessageFactoryV14 else if v = 15 then BloxrouteMessageFactoryV15
      else if v = 16 then BloxrouteMessageFactoryV16 else if v = 17 then BloxrouteMessageFactoryV17
      else if v = 18 then BloxrouteMessageFactoryV18 else if v = 19 then BloxrouteMessageFactoryV19
      else if v = 20 then BloxrouteMessageFactoryV20 else BloxrouteMessageFactoryV21) (MESSAGE_TYPE c)) id"
  by (auto simp: class_in_version_def AbstractVersionManager_get_message_factory_for_version_def protocol_to_factory_mapping_def
      AbstractVersionManager_is_protocol_supported_def map_of_factory class_tables_distinct)

lemma versions_in_range: "v \<in> {6..21::nat} \<longleftrightarrow> v \<in> {6, 7, 8, 9, 10, 11, 12, 13, 14, 15, 16, 17, 18, 19, 20, 21}"
  by (simp only: atLeastAtMost_iff insert_iff empty_iff) presburger

lemmas version_tables = AbstractVersionManager_get_message_converter_def protocol_to_converter_factory_mapping_def
  converter_by_class classes_of_version class_factories converter_factories update_conv' map_of_classes

text \<open>
  Two versions where the converter of a type does not go to the class that reads it: the performance
  statistics of version 17 are converted with the layout of version 16 and read with that of version 18,
  and the transactions of version 18 are converted with the layout of version 17 and read with the class
  of version 19, which has the same layout.
\<close>

lemma v17_stats_mismatch:
  "AbstractVersionManager_get_message_converter 17 (MESSAGE_TYPE BdnPerformanceStatsMessage) = Inr (BdnStatsConverter 16)"
  "class_in_version 17 BdnPerformanceStatsMessage = Some (BdnPerformanceStatsMessageV 18)"
  by (simp_all add: version_tables)

lemma v18_tx_mismatch:
  "AbstractVersionManager_get_message_converter 18 (MESSAGE_TYPE TxMessageClass) = Inr (TxConverter TxConvV17)"
  "class_in_version 18 TxMessageClass = Some (OldTx TxConvV19)"
  by (simp_all add: version_tables)

subsection \<open>The version manager\<close>

text \<open>
  A message object by its class; \<open>OtherMsg\<close> carries its class and its truth value, which is False only
  for the two classes of compressed block messages with \<open>__len__\<close> when they are empty.
\<close>

datatype bx_msg =
    TxMsg tx_message | OldTxMsg tx_conv tx_message | BlockMsg broadcast_msg | BlockMsgV8 broadcast_msg
  | OtherMsg versioned_class bool message

primrec bx_truth :: "bx_msg \<Rightarrow> bool" where
  "bx_truth (TxMsg m) = True"
| "bx_truth (OldTxMsg c m) = True"
| "bx_truth (BlockMsg m) = True"
| "bx_truth (BlockMsgV8 m) = True"
| "bx_truth (OtherMsg c t m) = t"

primrec bx_msg_type :: "bx_msg \<Rightarrow> (bytes \<times> bx_msg) result" where
  "bx_msg_type (TxMsg m) = rbind (AbstractInternalMessage_msg_type m) (\<lambda>(t, m). Inr (t, TxMsg m))"
| "bx_msg_type (OldTxMsg c m) = rbind (AbstractInternalMessage_msg_type m) (\<lambda>(t, m). Inr (t, OldTxMsg c m))"
| "bx_msg_type (BlockMsg m) = rbind (AbstractInternalMessage_msg_type m) (\<lambda>(t, m). Inr (t, BlockMsg m))"
| "bx_msg_type (BlockMsgV8 m) = rbind (AbstractInternalMessage_msg_type m) (\<lambda>(t, m). Inr (t, BlockMsgV8 m))"
| "bx_msg_type (OtherMsg c t m) = rbind (AbstractInternalMessage_msg_type m) (\<lambda>(ty, m). Inr (ty, OtherMsg c t m))"

text \<open>
  Dispatch to the methods of a converter object: each returns the converted message and the message it
  read, whose caches may be filled. \<open>rest\<close> stands for the converters of the other message classes.
\<close>

type_synonym conversion = "bx_msg \<Rightarrow> (bx_msg \<times> bx_msg) result"

definition convert_to_older_version :: "(message_converter \<Rightarrow> conversion) \<Rightarrow> message_converter \<Rightarrow> conversion" where
  "convert_to_older_version rest conv msg =
     (case (conv, msg) of
        (NoChanges, _) \<Rightarrow> Inr (msg, msg)
      | (TxConverter c, TxMsg m) \<Rightarrow> rbind (tx_to_older c m) (\<lambda>(old, m). Inr (OldTxMsg c old, TxMsg m))
      | (BroadcastConverterV8, BlockMsg m) \<Rightarrow>
          rbind (BroadcastMessageConverterV8_convert_to_older_version m) (\<lambda>(old, m). Inr (BlockMsgV8 old, BlockMsg m))
      | _ \<Rightarrow> rest conv msg)"

definition convert_from_older_version :: "(message_converter \<Rightarrow> conversion) \<Rightarrow> message_converter \<Rightarrow> conversion" where
  "convert_from_older_version rest conv msg =
     (case (conv, msg) of
        (NoChanges, _) \<Rightarrow> Inr (msg, msg)
      | (TxConverter c, OldTxMsg d m) \<Rightarrow> rbind (tx_from_older c m) (\<lambda>(new, m). Inr (TxMsg new, OldTxMsg d m))
      | (BroadcastConverterV8, BlockMsgV8 m) \<Rightarrow>
          rbind (BroadcastMessageConverterV8_convert_from_older_version m) (\<lambda>(new, m). Inr (BlockMsg new, BlockMsgV8 m))
      | _ \<Rightarrow> rest conv msg)"

text \<open>
  \<open>convert_message_to_older_version\<close>: the state is the message and its table \<open>converted_message\<close>. The
  table of an object built without \<open>AbstractBloxrouteMessage.__init__\<close> is missing (\<open>None\<close>); only a
  transaction looks into it.
\<close>

type_synonym converted = "(nat \<times> bx_msg) list option"

definition AbstractVersionManager_convert_message_to_older_version ::
    "(message_converter \<Rightarrow> conversion) \<Rightarrow> nat \<Rightarrow> bx_msg \<times> converted \<Rightarrow> bx_msg result \<times> bx_msg \<times> converted" where
  "AbstractVersionManager_convert_message_to_older_version rest v s =
     (let (msg, tab) = s;
          fresh = (case rbind (bx_msg_type msg) (\<lambda>(ty, msg).
                     rbind (AbstractVersionManager_get_message_converter v ty) (\<lambda>conv. convert_to_older_version rest conv msg)) of
              Inl e \<Rightarrow> (Inl e, s)
            | Inr (old, msg) \<Rightarrow>
                (case tab of None \<Rightarrow> (Inl AttributeErr, msg, tab) | Some t \<Rightarrow> (Inr old, msg, Some (AList.update v old t))))
      in if v = 0 \<or> \<not> bx_truth msg then (Inl ValueError, s)
         else if map_of protocol_to_converter_factory_mapping v = None then (Inl ValueError, s)
         else case msg of
                TxMsg m \<Rightarrow> (case tab of
                    None \<Rightarrow> (Inl AttributeErr, s)
                  | Some t \<Rightarrow> (case map_of t v of Some old \<Rightarrow> (Inr old, s) | None \<Rightarrow> fresh))
              | _ \<Rightarrow> fresh)"

definition AbstractVersionManager_convert_message_from_older_version ::
    "(message_converter \<Rightarrow> conversion) \<Rightarrow> nat \<Rightarrow> bx_msg \<Rightarrow> (bx_msg \<times> bx_msg) result" where
  "AbstractVersionManager_convert_message_from_older_version rest v msg =
     (if v = 0 \<or> \<not> bx_truth msg then Inl ValueError
      else if map_of protocol_to_converter_factory_mapping v = None then Inl ValueError
      else rbind (bx_msg_type msg) (\<lambda>(ty, msg).
           rbind (AbstractVersionManager_get_message_converter v ty) (\<lambda>conv. convert_from_older_version rest conv msg)))"

text \<open>The first and last bytes of a message that is still arriving, and the change of its length.\<close>

definition convert_first_bytes :: "bool \<Rightarrow> (message_converter \<Rightarrow> bytes \<Rightarrow> bytes result) \<Rightarrow> message_converter \<Rightarrow> bytes \<Rightarrow> bytes result" where
  "convert_first_bytes older rest conv b =
     (case conv of
        NoChanges \<Rightarrow> Inr b
      | TxConverter _ \<Rightarrow> Inl NotImplementedErr
      | BroadcastConverterV8 \<Rightarrow> (if older then BroadcastMessageConverterV8_convert_first_bytes_to_older_version b
                                else BroadcastMessageConverterV8_convert_first_bytes_from_older_version b)
      | _ \<Rightarrow> rest conv b)"

definition convert_last_bytes :: "(message_converter \<Rightarrow> bytes \<Rightarrow> bytes result) \<Rightarrow> message_converter \<Rightarrow> bytes \<Rightarrow> bytes result" where
  "convert_last_bytes rest conv b =
     (case conv of
        NoChanges \<Rightarrow> Inr b
      | TxConverter _ \<Rightarrow> Inl NotImplementedErr
      | BroadcastConverterV8 \<Rightarrow> Inr b
      | _ \<Rightarrow> rest conv b)"

definition size_change_to_older :: "(message_converter \<Rightarrow> int result) \<Rightarrow> message_converter \<Rightarrow> int result" where
  "size_change_to_older rest conv =
     (case conv of
        NoChanges \<Rightarrow> Inr 0
      | TxConverter c \<Rightarrow> if c = TxConvV17 \<or> c = TxConvV19 then Inr 0 else Inl NotImplementedErr
      | BroadcastConverterV8 \<Rightarrow> Inr (- int BROADCAST_TYPE_LEN)
      | _ \<Rightarrow> rest conv)"

definition size_change_from_older :: "(message_converter \<Rightarrow> int result) \<Rightarrow> message_converter \<Rightarrow> int result" where
  "size_change_from_older rest conv =
     (case conv of
        NoChanges \<Rightarrow> Inr 0
      | TxConverter c \<Rightarrow> if c = TxConvV17 \<or> c = TxConvV19 then Inr 0 else Inl NotImplementedErr
      | BroadcastConverterV8 \<Rightarrow> Inr (int BROADCAST_TYPE_LEN)
      | _ \<Rightarrow> rest conv)"

definition AbstractVersionManager_convert_message_first_bytes_to_older_version ::
    "(message_converter \<Rightarrow> bytes \<Rightarrow> bytes result) \<Rightarrow> nat \<Rightarrow> bytes \<Rightarrow> bytes \<Rightarrow> bytes result" where
  "AbstractVersionManager_convert_message_first_bytes_to_older_version rest v msg_type b =
     (if v = 0 \<or> msg_type = [] \<or> b = [] then Inl ValueError
      else rbind (AbstractVersionManager_get_message_converter v msg_type) (\<lambda>conv. convert_first_bytes True rest conv b))"

definition AbstractVersionManager_convert_message_first_bytes_from_older_version ::
    "(message_converter \<Rightarrow> bytes \<Rightarrow> bytes result) \<Rightarrow> nat \<Rightarrow> bytes \<Rightarrow> bytes \<Rightarrow> bytes result" where
  "AbstractVersionManager_convert_message_first_bytes_from_older_version rest v msg_type b =
     (if v = 0 \<or> msg_type = [] \<or> b = [] then Inl ValueError
      else rbind (AbstractVersionManager_get_message_converter v msg_type) (\<lambda>conv. convert_first_bytes False rest conv b))"

definition AbstractVersionManager_convert_message_last_bytes_to_older_version ::
    "(message_converter \<Rightarrow> bytes \<Rightarrow> bytes result) \<Rightarrow> nat \<Rightarrow> bytes \<Rightarrow> bytes \<Rightarrow> bytes result" where
  "AbstractVersionManager_convert_message_last_bytes_to_older_version rest v msg_type b =
     (if v = 0 \<or> msg_type = [] \<or> b = [] then Inl ValueError
      else rbind (AbstractVersionManager_get_message_converter v msg_type) (\<lambda>conv. convert_last_bytes rest conv b))"

definition AbstractVersionManager_convert_message_last_bytes_from_older_version ::
    "(message_converter \<Rightarrow> bytes \<Rightarrow> bytes result) \<Rightarrow> nat \<Rightarrow> bytes \<Rightarrow> bytes \<Rightarrow> bytes result" where
  "AbstractVersionManager_convert_message_last_bytes_from_older_version rest v msg_type b =
     (if v = 0 \<or> msg_type = [] \<or> b = [] then Inl ValueError
      else rbind (AbstractVersionManager_get_message_converter v msg_type) (\<lambda>conv. convert_last_bytes rest conv b))"

definition AbstractVersionManager_get_message_size_change_to_older_version ::
    "(message_converter \<Rightarrow> int result) \<Rightarrow> nat \<Rightarrow> bytes \<Rightarrow> int result" where
  "AbstractVersionManager_get_message_size_change_to_older_version rest v msg_type =
     (if v = 0 \<or> msg_type = [] then Inl ValueError
      else rbind (AbstractVersionManager_get_message_converter v msg_type) (size_change_to_older rest))"

definition AbstractVersionManager_get_message_size_change_from_older_version ::
    "(message_converter \<Rightarrow> int result) \<Rightarrow> nat \<Rightarrow> bytes \<Rightarrow> int result" where
  "AbstractVersionManager_get_message_size_change_from_older_version rest v msg_type =
     (if v = 0 \<or> msg_type = [] then Inl ValueError
      else rbind (AbstractVersionManager_get_message_converter v msg_type) (size_change_from_older rest))"

text \<open>The converter of transactions in each version.\<close>

definition tx_conv_of :: "nat \<Rightarrow> tx_conv" where
  "tx_conv_of v = (if v = 6 then TxConvV6 else if v = 7 then TxConvV7 else if v \<le> 15 then TxConvV15 else if v \<le> 18 then TxConvV17
     else if v = 19 then TxConvV19 else if v = 20 then TxConvV20 else TxConvV21)"

lemma tx_converter_of_version:
  "AbstractVersionManager_get_message_converter v (MESSAGE_TYPE TxMessageClass)
     = (if v \<in> {6..21} then Inr (TxConverter (tx_conv_of v)) else if v = 22 then Inl AttributeErr else Inl KeyError)"
proof (cases "v \<in> {6..21}")
  case True
  then show ?thesis unfolding versions_in_range
    by (elim insertE emptyE; hypsubst; simp add: version_tables tx_conv_of_def)
qed (auto simp: AbstractVersionManager_get_message_converter_def protocol_to_converter_factory_mapping_def)

lemma block_converter_of_version:
  "v \<in> {6..21} \<Longrightarrow> AbstractVersionManager_get_message_converter v (MESSAGE_TYPE BroadcastMessageClass)
     = Inr (if v \<le> 8 then BroadcastConverterV8 else NoChanges)"
  unfolding versions_in_range by (elim insertE emptyE; hypsubst; simp add: version_tables)
lemma tx_msg_type:
  assumes "tx_inv L m" and "msg_type_field m = Some (MESSAGE_TYPE TxMessageClass)"
  shows "bx_msg_type (TxMsg m) = Inr (MESSAGE_TYPE TxMessageClass, TxMsg m)"
    and "bx_msg_type (OldTxMsg c m) = Inr (MESSAGE_TYPE TxMessageClass, OldTxMsg c m)"
  using assms by (simp_all add: AbstractInternalMessage_msg_type_def)

lemma versions_known: "v \<in> {6..22} \<longleftrightarrow> v \<in> {6, 7, 8, 9, 10, 11, 12, 13, 14, 15, 16, 17, 18, 19, 20, 21, 22 :: nat}"
  by (simp only: atLeastAtMost_iff insert_iff empty_iff) presburger

lemma known_versions: "map_of protocol_to_converter_factory_mapping v = None \<longleftrightarrow> v \<notin> {6..22}"
  unfolding versions_known by (simp add: protocol_to_converter_factory_mapping_def)

lemma older_tx_type:
  assumes "tx_inv TxMessage_layout m" and "f = tx_abs TxMessage_layout m" and "length (msg_buf m) < 256 ^ 4"
    and "int_of_double (f_timestamp f) = Inr (int t)" and "t < 2 ^ 32" and "c \<noteq> TxConvV7" and "tx_to_older c m = Inr (old, m')"
  shows "msg_type_field old = Some (MESSAGE_TYPE TxMessageClass)"
proof (cases "c = TxConvV6")
  case True
  then show ?thesis using assms(7)
    by (auto simp: tx_to_older_def TxMessageConverterV6_convert_to_older_version_def initialize_tx_def rbind_eq_Inr Let_def)
next
  case False
  then have "by_fields c" using assms(6) by (simp add: by_fields_def)
  from to_older_by_fields[OF assms(1-5) this] show ?thesis using assms(7) by (auto simp: tx_object_def)
qed

text \<open>
  C12. The version manager carries a transaction to each of the versions 6 to 21 except 7 and back: a peer of
  version \<open>v\<close> is sent an older message whose bytes hold the fields its version has, which is remembered
  for the next peer of that version, and the accessors of the message it sends back answer the surviving
  fields; the account id is gone.
\<close>

theorem versioned_tx_round_trip:
  assumes "tx_inv TxMessage_layout m" and "f = tx_abs TxMessage_layout m" and "length (msg_buf m) < 256 ^ 4"
    and "msg_type_field m = Some (MESSAGE_TYPE TxMessageClass)"
    and "int_of_double (f_timestamp f) = Inr (int t)" and "t < 2 ^ 32" and "v \<in> {6..21}" and "v \<noteq> 7"
  shows "\<exists>old m' new old'. AbstractVersionManager_convert_message_to_older_version rest v (TxMsg m, Some [])
        = (Inr (OldTxMsg (tx_conv_of v) old), TxMsg m', Some [(v, OldTxMsg (tx_conv_of v) old)])
    \<and> msg_buf m' = msg_buf m \<and> tx_abs (old_layout (tx_conv_of v)) old = old_fields (tx_conv_of v) t f
    \<and> AbstractVersionManager_convert_message_from_older_version rest v (OldTxMsg (tx_conv_of v) old)
        = Inr (TxMsg new, OldTxMsg (tx_conv_of v) old')
    \<and> tx_answers TxMessage_layout new (surviving (tx_conv_of v) t f) \<and> (\<exists>p. TxMessage_account_id new = Inr ([], p))"
proof -
  let ?c = "tx_conv_of v"
  have c: "?c \<noteq> TxConvV7" using assms(7,8) by (simp add: tx_conv_of_def)
  obtain old m' new old' where conv: "tx_to_older ?c m = Inr (old, m')" "msg_buf m' = msg_buf m"
    "tx_inv (old_layout ?c) old" "tx_abs (old_layout ?c) old = old_fields ?c t f"
    "tx_from_older ?c old = Inr (new, old')" "tx_inv TxMessage_layout new" "tx_abs TxMessage_layout new = surviving ?c t f"
    using tx_conversion_round_trip[OF assms(1-3,5,6) c] by (elim exE conjE)
  have v: "v \<noteq> 0" "v \<in> {6..22}" using assms(7) by simp_all
  have old: "bx_msg_type (OldTxMsg ?c old) = Inr (MESSAGE_TYPE TxMessageClass, OldTxMsg ?c old)"
    using tx_msg_type(2)[OF conv(3) older_tx_type[OF assms(1-3,5,6) c conv(1)]] .
  have "AbstractVersionManager_convert_message_to_older_version rest v (TxMsg m, Some [])
        = (Inr (OldTxMsg ?c old), TxMsg m', Some [(v, OldTxMsg ?c old)])"
    using tx_msg_type(1)[OF assms(1,4)] v conv(1) assms(7) known_versions[of v]
    by (simp add: AbstractVersionManager_convert_message_to_older_version_def Let_def tx_converter_of_version
        convert_to_older_version_def del: bx_msg_type.simps)
  moreover have "AbstractVersionManager_convert_message_from_older_version rest v (OldTxMsg ?c old) = Inr (TxMsg new, OldTxMsg ?c old')"
    using old v conv(5) assms(7) known_versions[of v]
    by (simp add: AbstractVersionManager_convert_message_from_older_version_def tx_converter_of_version
        convert_from_older_version_def del: bx_msg_type.simps)
  moreover have "f_account (surviving ?c t f) = []" using c by (cases ?c) (simp_all add: surviving_def)
  then have "\<exists>p. TxMessage_account_id new = Inr ([], p)" using tx_answers_account[OF conv(6)] unfolding conv(7) by simp
  ultimately show ?thesis
    using conv(2,4) tx_answers_abs[OF conv(6)] unfolding conv(7) by (elim exE) (intro exI conjI)
qed

text \<open>
  A converted transaction is remembered for good: converting it again to the version returns the first
  result, even when the transaction has been given another short id, flag or timestamp in between.
\<close>

theorem conversion_is_remembered:
  assumes "AbstractVersionManager_convert_message_to_older_version rest v (TxMsg m, tab) = (Inr old, msg', tab')"
  shows "AbstractVersionManager_convert_message_to_older_version rest v (TxMsg changed, tab') = (Inr old, TxMsg changed, tab')"
proof -
  have "\<exists>t. tab' = Some t \<and> map_of t v = Some old" "v \<noteq> 0" "map_of protocol_to_converter_factory_mapping v \<noteq> None"
    using assms by (auto simp: AbstractVersionManager_convert_message_to_older_version_def Let_def update_conv'
        split: if_splits option.splits sum.splits prod.splits)
  then show ?thesis by (auto simp: AbstractVersionManager_convert_message_to_older_version_def)
qed

text \<open>
  Versions the manager cannot serve. Outside 6 to 22 nothing is converted; below 6 and above 23 there is
  no message factory. The entries of version 22 are modules: no converter can be asked of them, so no
  message can be sent to a peer of version 22, and its message factory is unusable.
\<close>

theorem versions_not_served:
  "(v \<notin> {6..22} \<longrightarrow> AbstractVersionManager_convert_message_to_older_version rest v s = (Inl ValueError, s)
      \<and> AbstractVersionManager_convert_message_from_older_version rest v (fst s) = Inl ValueError)
    \<and> (v < 6 \<longrightarrow> AbstractVersionManager_get_message_factory_for_version v = Inl ValueError)
    \<and> (23 < v \<longrightarrow> AbstractVersionManager_get_message_factory_for_version v = Inl NotImplementedErr)
    \<and> AbstractVersionManager_get_message_factory_for_version 22 = Inr ModuleEntry
    \<and> (bx_msg_type msg = Inr (ty, msg') \<and> bx_truth msg
      \<longrightarrow> AbstractVersionManager_convert_message_to_older_version rest 22 (msg, Some []) = (Inl AttributeErr, msg, Some []))"
proof (intro conjI impI)
  assume "v \<notin> {6..22}"
  then have n: "map_of protocol_to_converter_factory_mapping v = None" using known_versions by blast
  obtain msg tab where s: "s = (msg, tab)" by (cases s)
  show "AbstractVersionManager_convert_message_to_older_version rest v s = (Inl ValueError, s)"
    unfolding AbstractVersionManager_convert_message_to_older_version_def s Let_def split n by simp
  show "AbstractVersionManager_convert_message_from_older_version rest v (fst s) = Inl ValueError"
    unfolding AbstractVersionManager_convert_message_from_older_version_def n by simp
next
  assume "v < 6" then show "AbstractVersionManager_get_message_factory_for_version v = Inl ValueError"
    by (simp add: AbstractVersionManager_get_message_factory_for_version_def AbstractVersionManager_is_protocol_supported_def)
next
  assume "23 < v" then show "AbstractVersionManager_get_message_factory_for_version v = Inl NotImplementedErr"
    by (simp add: AbstractVersionManager_get_message_factory_for_version_def AbstractVersionManager_is_protocol_supported_def
        protocol_to_factory_mapping_def)
next
  show "AbstractVersionManager_get_message_factory_for_version 22 = Inr ModuleEntry"
    by (simp add: AbstractVersionManager_get_message_factory_for_version_def AbstractVersionManager_is_protocol_supported_def
        protocol_to_factory_mapping_def)
next
  assume a: "bx_msg_type msg = Inr (ty, msg') \<and> bx_truth msg"
  have "AbstractVersionManager_get_message_converter 22 ty = Inl AttributeErr"
    by (simp add: AbstractVersionManager_get_message_converter_def protocol_to_converter_factory_mapping_def)
  then show "AbstractVersionManager_convert_message_to_older_version rest 22 (msg, Some []) = (Inl AttributeErr, msg, Some [])"
    using a known_versions[of 22] by (cases msg)
      (auto simp: AbstractVersionManager_convert_message_to_older_version_def Let_def simp del: bx_msg_type.simps)
qed

theorem versioned_tx_round_trip_witness:
  "\<exists>old m' new old'. AbstractVersionManager_convert_message_to_older_version (\<lambda>_ _. Inl TypeError) 19
        (TxMsg (tx_object TxMessage_layout stamped_tx), Some [])
      = (Inr (OldTxMsg TxConvV19 old), TxMsg m', Some [(19, OldTxMsg TxConvV19 old)])
    \<and> AbstractVersionManager_convert_message_from_older_version (\<lambda>_ _. Inl TypeError) 19 (OldTxMsg TxConvV19 old)
      = Inr (TxMsg new, OldTxMsg TxConvV19 old') \<and> (\<exists>p. tx_flag TxMessage_layout new = Inr (3, p))"
proof -
  have f: "f_flag (surviving TxConvV19 1600000000 stamped_tx) = 3"
    by (simp add: surviving_def stamped_tx_def flags_of_v17_def)
  have t: "int_of_double (f_timestamp stamped_tx) = Inr (int 1600000000)" using stamped_tx_facts(2) by simp
  have ty: "msg_type_field (tx_object TxMessage_layout stamped_tx) = Some (MESSAGE_TYPE TxMessageClass)" by (simp add: tx_object_def)
  have c: "tx_conv_of 19 = TxConvV19" by (simp add: tx_conv_of_def)
  obtain old m' new old' where "AbstractVersionManager_convert_message_to_older_version (\<lambda>_ _. Inl TypeError) 19
        (TxMsg (tx_object TxMessage_layout stamped_tx), Some [])
      = (Inr (OldTxMsg TxConvV19 old), TxMsg m', Some [(19, OldTxMsg TxConvV19 old)])"
    "AbstractVersionManager_convert_message_from_older_version (\<lambda>_ _. Inl TypeError) 19 (OldTxMsg TxConvV19 old)
      = Inr (TxMsg new, OldTxMsg TxConvV19 old')" "tx_answers TxMessage_layout new (surviving TxConvV19 1600000000 stamped_tx)"
    using versioned_tx_round_trip[OF tx_object_inv[OF stamped_tx_facts(1)] tx_object_abs[OF stamped_tx_facts(1), symmetric]
        stamped_tx_facts(3) ty t, of 19 "\<lambda>_ _. Inl TypeError"] unfolding c by (auto simp del: bx_msg_type.simps)
  with f show ?thesis unfolding tx_answers_def by metis
qed

text \<open>A conversion that fails is not remembered; one that succeeds is.\<close>

theorem conversion_is_remembered_witness:
  "AbstractVersionManager_convert_message_to_older_version (\<lambda>_ _. Inl TypeError) 19
      (TxMsg (tx_object TxMessageV7_layout stamped_tx), Some [(19, BlockMsg broadcast_msg_blank)])
    = (Inr (BlockMsg broadcast_msg_blank), TxMsg (tx_object TxMessageV7_layout stamped_tx), Some [(19, BlockMsg broadcast_msg_blank)])"
  by (rule conversion_is_remembered[where m="tx_object TxMessage_layout stamped_tx" and msg'="TxMsg (tx_object TxMessage_layout stamped_tx)"
        and tab="Some [(19, BlockMsg broadcast_msg_blank)]"])
     (simp add: AbstractVersionManager_convert_message_to_older_version_def protocol_to_converter_factory_mapping_def)

theorem versions_not_served_witness:
  "AbstractVersionManager_convert_message_to_older_version (\<lambda>_ _. Inl TypeError) 5 (BlockMsg broadcast_msg_blank, Some [])
      = (Inl ValueError, BlockMsg broadcast_msg_blank, Some [])
    \<and> AbstractVersionManager_convert_message_to_older_version (\<lambda>_ _. Inl TypeError) 22
      (TxMsg (tx_object TxMessage_layout stamped_tx), Some []) = (Inl AttributeErr, TxMsg (tx_object TxMessage_layout stamped_tx), Some [])"
proof -
  have "bx_msg_type (TxMsg (tx_object TxMessage_layout stamped_tx)) = Inr (MESSAGE_TYPE TxMessageClass, TxMsg (tx_object TxMessage_layout stamped_tx))"
    by (simp add: AbstractInternalMessage_msg_type_def tx_object_def)
  then show ?thesis
    using versions_not_served[of 5 "\<lambda>_ _. Inl TypeError" "(BlockMsg broadcast_msg_blank, Some [])" "TxMsg (tx_object TxMessage_layout stamped_tx)"]
    by simp
qed

subsection \<open>Previews of blocks\<close>

text \<open>
  \<open>BroadcastMessagePreview\<close> and \<open>get_broadcast_message_preview\<close>, with which a relay starts to forward a block
  before it is complete. The preview of versions 6 and 7 has no type and no message id, that of version
  8 fills in the type of a block, that of version 9 and later reads it.
\<close>

record BroadcastMessagePreview =
  is_full_header :: bool
  pv_block_hash :: "object_hash option"
  pv_broadcast_type :: "bytes option"
  pv_message_id :: "object_hash option"
  pv_network_num :: "nat option"
  pv_source_id :: "string option"
  pv_payload_length :: "nat option"

definition no_preview :: BroadcastMessagePreview where
  "no_preview = \<lparr>is_full_header = False, pv_block_hash = None, pv_broadcast_type = None, pv_message_id = None, pv_network_num = None,
     pv_source_id = None, pv_payload_length = None\<rparr>"

abbreviation (input) broadcast_header_length :: nat where "broadcast_header_length \<equiv> 72"

definition read_network_and_source :: "bytes \<Rightarrow> (nat \<times> string option) result" where
  "read_network_and_source broadcast_header =
     rbind (unpack_from 4 (bslice 52 56 broadcast_header) 0) (\<lambda>network_num.
     rbind (unpack_s 16 (bslice 56 72 broadcast_header) 0) (\<lambda>src.
     rbind (uuid_pack_from_bytes src) (\<lambda>source_id. Inr (network_num, source_id))))"

definition with_broadcast_header ::
    "(nat option \<Rightarrow> bytes \<Rightarrow> BroadcastMessagePreview result) \<Rightarrow> InputBuffer \<Rightarrow> BroadcastMessagePreview result \<times> InputBuffer" where
  "with_broadcast_header read input_buffer =
     (if in_length input_buffer < int broadcast_header_length then (Inr no_preview, input_buffer)
      else sbind (keep_on_error AbstractMessageFactory_get_message_header_preview_from_input_buffer input_buffer) (\<lambda>p b1.
           sbind (keep_on_error (InputBuffer_peek_message (int broadcast_header_length)) b1) (\<lambda>broadcast_header b2.
             (read (preview_payload_length p) broadcast_header, b2))))"

definition BloxrouteMessageFactory_get_broadcast_message_preview ::
    "InputBuffer \<Rightarrow> BroadcastMessagePreview result \<times> InputBuffer" where
  "BloxrouteMessageFactory_get_broadcast_message_preview =
     with_broadcast_header (\<lambda>payload_length broadcast_header.
       rbind (read_network_and_source broadcast_header) (\<lambda>(network_num, source_id).
       let broadcast_type_bytearray = bslice 72 76 broadcast_header
       in rbind (unpack_s 4 broadcast_type_bytearray 0) (\<lambda>ty.
          rbind (utf8_decode ty) (\<lambda>broadcast_type.
            if broadcast_type \<notin> {BroadcastMessageType_BLOCK, BroadcastMessageType_CONSENSUS} then Inl ValueError
            else rbind (ConcatHash_init (bslice 20 56 broadcast_header @ broadcast_type_bytearray) 0) (\<lambda>message_id.
                 rbind (Sha256Hash_init (bslice 20 52 broadcast_header)) (\<lambda>block_hash.
                   Inr \<lparr>is_full_header = True, pv_block_hash = Some block_hash, pv_broadcast_type = Some broadcast_type,
                        pv_message_id = Some message_id, pv_network_num = Some network_num, pv_source_id = source_id,
                        pv_payload_length = payload_length\<rparr>))))))"

definition BloxrouteMessageFactoryV8_get_broadcast_message_preview ::
    "InputBuffer \<Rightarrow> BroadcastMessagePreview result \<times> InputBuffer" where
  "BloxrouteMessageFactoryV8_get_broadcast_message_preview =
     with_broadcast_header (\<lambda>payload_length broadcast_header.
       rbind (read_network_and_source broadcast_header) (\<lambda>(network_num, source_id).
       rbind (pack_s 4 (replicate 4 0) 0 BroadcastMessageType_BLOCK) (\<lambda>broadcast_type_bytearray.
       rbind (ConcatHash_init (bslice 20 56 broadcast_header @ broadcast_type_bytearray) 0) (\<lambda>message_id.
       rbind (Sha256Hash_init (bslice 20 52 broadcast_header)) (\<lambda>block_hash.
         Inr \<lparr>is_full_header = True, pv_block_hash = Some block_hash, pv_broadcast_type = Some BroadcastMessageType_BLOCK,
              pv_message_id = Some message_id, pv_network_num = Some network_num, pv_source_id = source_id,
              pv_payload_length = payload_length\<rparr>)))))"

definition BloxrouteMessageFactoryV7_get_broadcast_message_preview ::
    "InputBuffer \<Rightarrow> BroadcastMessagePreview result \<times> InputBuffer" where
  "BloxrouteMessageFactoryV7_get_broadcast_message_preview =
     with_broadcast_header (\<lambda>payload_length broadcast_header.
       rbind (read_network_and_source broadcast_header) (\<lambda>(network_num, source_id).
       rbind (Sha256Hash_init (bslice 20 52 broadcast_header)) (\<lambda>message_hash.
         Inr (no_preview\<lparr>is_full_header := True, pv_block_hash := Some message_hash, pv_network_num := Some network_num,
                pv_source_id := source_id, pv_payload_length := payload_length\<rparr>))))"

lemma long_head_kept:
  assumes "input_list b = (kind, head) # ps" and "n \<le> int (length head)"
  shows "InputBuffer_shrink_if_needed n False b = b"
  using assms by (simp add: InputBuffer_shrink_if_needed_def)

text \<open>With a first piece of 72 bytes or more, the whole piece is what the preview reads.\<close>

lemma with_header_long_head:
  assumes "ib_inv b" and "input_list b = (kind, head) # ps" and "72 \<le> length head"
    and "AbstractBloxrouteMessage_unpack (take 20 head) = Inr (ty, len)"
  shows "with_broadcast_header read b = (read (Some len) head, b)"
proof -
  have l: "72 \<le> in_length b" using assms(1-3) by (simp add: ib_inv_def in_content_def)
  have s: "InputBuffer_shrink_if_needed 20 False b = b" "InputBuffer_shrink_if_needed 72 False b = b"
    using long_head_kept[OF assms(2)] assms(3) by simp_all
  have p: "py_slice 0 20 head = take 20 head" using py_slice_nat[of 0 20 head] assms(3) by (simp add: bslice_def)
  have "AbstractMessageFactory_get_message_header_preview_from_input_buffer b
    = Inr (\<lparr>is_full_message = in_length b \<ge> int (len + 20), preview_command = Some ty, preview_payload_length = Some len\<rparr>, b)"
    using l s assms(2,4) p
    by (simp add: AbstractMessageFactory_get_message_header_preview_from_input_buffer_def InputBuffer_getitem_def InputBuffer_get_slice_def)
  moreover have "InputBuffer_peek_message 72 b = Inr (head, b)"
    using l s assms(2) by (simp add: InputBuffer_peek_message_def Let_def)
  ultimately show ?thesis using l by (simp add: with_broadcast_header_def keep_on_error_def)
qed

lemma short_header_no_preview:
  "in_length b < 72 \<Longrightarrow> with_broadcast_header read b = (Inr no_preview, b)"
  by (simp add: with_broadcast_header_def)

lemma block_head_fields:
  assumes "length h = 32" and "length src = 16" and "n < 256 ^ 4" and "length ty = 4" and "length (block_body h n src ty e blob) < 256 ^ 4"
    and "bs = take j (frame (MESSAGE_TYPE BroadcastMessageClass) (block_body h n src ty e blob))" and "72 \<le> j"
  shows "AbstractBloxrouteMessage_unpack (take 20 bs) = Inr (MESSAGE_TYPE BroadcastMessageClass, length (block_body h n src ty e blob))"
    and "bslice 20 52 bs = h" and "bslice 20 56 bs = h @ le_bytes 4 n" and "bslice 52 56 bs = le_bytes 4 n" and "bslice 56 72 bs = src"
    and "76 \<le> j \<Longrightarrow> bslice 72 76 bs = ty"
proof -
  let ?f = "frame (MESSAGE_TYPE BroadcastMessageClass) (block_body h n src ty e blob)"
  have b: "bslice i k bs = bslice i k ?f" if "k \<le> j" for i k unfolding assms(6) using that by (rule bslice_take)
  have "take 20 bs = take 20 ?f" using assms(7) unfolding assms(6) by simp
  then show "AbstractBloxrouteMessage_unpack (take 20 bs) = Inr (MESSAGE_TYPE BroadcastMessageClass, length (block_body h n src ty e blob))"
    using unpack_header_of_frame[OF MESSAGE_TYPE_good[of BroadcastMessageClass] assms(5), of "[]"] by simp
  show "bslice 20 52 bs = h" "bslice 52 56 bs = le_bytes 4 n" "bslice 56 72 bs = src" "bslice 20 56 bs = h @ le_bytes 4 n"
    using assms(1-3,7) by (simp_all add: b bfield_simps block_body_def)
  show "bslice 72 76 bs = ty" if "76 \<le> j" using assms(1-4) that by (simp add: b bfield_simps block_body_def)
qed

text \<open>
  C18. The preview of a block that is still arriving. Before 72 bytes are there it is empty; when the first
  piece of the input buffer holds the block up to its type, 76 bytes, the preview has the hash, type,
  network, source and length of the block; but a first piece that ends within the four bytes of the type
  raises an error, because the length that is waited for leaves the type out.
\<close>

theorem block_preview:
  assumes "ib_inv b" and "input_list b = (kind, piece) # ps" and "length h = 32" and "length src = 16" and "n < 256 ^ 4"
    and "ty \<in> {BroadcastMessageType_BLOCK, BroadcastMessageType_CONSENSUS}" and "length (block_body h n src ty e blob) < 256 ^ 4"
    and "piece = take j (frame (MESSAGE_TYPE BroadcastMessageClass) (block_body h n src ty e blob))"
    and "uuid_pack_from_bytes src = Inr sid"
  shows "(in_length b < 72 \<longrightarrow> BloxrouteMessageFactory_get_broadcast_message_preview b = (Inr no_preview, b))
    \<and> (76 \<le> j \<longrightarrow> (\<exists>p. BloxrouteMessageFactory_get_broadcast_message_preview b = (Inr p, b) \<and> is_full_header p
          \<and> map_option binary (pv_block_hash p) = Some h \<and> pv_broadcast_type p = Some ty
          \<and> map_option binary (pv_message_id p) = Some (h @ le_bytes 4 n @ ty) \<and> pv_network_num p = Some n \<and> pv_source_id p = sid
          \<and> pv_payload_length p = Some (length (block_body h n src ty e blob))))
    \<and> (72 \<le> j \<and> j < 76 \<longrightarrow> BloxrouteMessageFactory_get_broadcast_message_preview b = (Inl StructError, b))"
proof (intro conjI impI)
  let ?body = "block_body h n src ty e blob"
  have ty: "length ty = 4" "utf8_valid ty"
    using assms(6) by (auto simp: BroadcastMessageType_BLOCK_def BroadcastMessageType_CONSENSUS_def ascii_def)
  have frame: "76 \<le> length (frame (MESSAGE_TYPE BroadcastMessageClass) ?body)"
    using assms(3,4) ty(1) by (simp add: block_body_def broadcast_head_def)
  note fields = block_head_fields[OF assms(3-5) ty(1) assms(7,8)]
  have start: "BloxrouteMessageFactory_get_broadcast_message_preview b
      = (let t = bslice 72 76 piece in rbind (unpack_s 4 t 0) (\<lambda>t'. rbind (utf8_decode t') (\<lambda>d.
          if d \<notin> {BroadcastMessageType_BLOCK, BroadcastMessageType_CONSENSUS} then Inl ValueError
          else rbind (ConcatHash_init ((h @ le_bytes 4 n) @ t) 0) (\<lambda>i. rbind (Sha256Hash_init h) (\<lambda>bh.
            Inr \<lparr>is_full_header = True, pv_block_hash = Some bh, pv_broadcast_type = Some d, pv_message_id = Some i,
              pv_network_num = Some n, pv_source_id = sid, pv_payload_length = Some (length ?body)\<rparr>)))), b)" if j: "72 \<le> j"
  proof -
    have "72 \<le> length piece" using j frame unfolding assms(8) by simp
    then have "with_broadcast_header read b = (read (Some (length ?body)) piece, b)" for read
      using with_header_long_head[OF assms(1,2) _ fields(1)[OF j]] by blast
    moreover have "read_network_and_source piece = Inr (n, sid)"
      unfolding read_network_and_source_def fields(4,5)[OF j]
      using assms(4,5,9) by (simp add: unpack_from_def unpack_s_def bslice_def of_le_le_bytes)
    ultimately show ?thesis
      unfolding BloxrouteMessageFactory_get_broadcast_message_preview_def by (simp add: fields(2,3)[OF j] Let_def cong: if_cong)
  qed
  show "BloxrouteMessageFactory_get_broadcast_message_preview b = (Inr no_preview, b)" if "in_length b < 72"
    using short_header_no_preview[OF that] by (simp add: BloxrouteMessageFactory_get_broadcast_message_preview_def)
  show "BloxrouteMessageFactory_get_broadcast_message_preview b = (Inl StructError, b)" if j: "72 \<le> j \<and> j < 76"
  proof -
    have "length (bslice 72 76 piece) < 4" using j unfolding assms(8) by (simp add: bslice_def) linarith
    then have "unpack_s 4 (bslice 72 76 piece) 0 = Inl StructError" unfolding unpack_s_def by (simp only: add_0 not_le[symmetric] if_False)
    then show ?thesis using start j by (simp add: Let_def)
  qed
  assume j: "76 \<le> j"
  have "bslice 72 76 piece = ty" using fields(6) j by simp
  moreover have "ConcatHash_init ((h @ le_bytes 4 n) @ ty) 0
    = Inr \<lparr>binary = h @ le_bytes 4 n @ ty, hash_value = of_le (take 4 h)\<rparr>"
    using assms(3) ty(1) by (simp add: ConcatHash_init_def AbstractObjectHash_init_def bslice_def PARTIAL_HASH_LENGTH_def)
  ultimately show "\<exists>p. BloxrouteMessageFactory_get_broadcast_message_preview b = (Inr p, b) \<and> is_full_header p
          \<and> map_option binary (pv_block_hash p) = Some h \<and> pv_broadcast_type p = Some ty
          \<and> map_option binary (pv_message_id p) = Some (h @ le_bytes 4 n @ ty) \<and> pv_network_num p = Some n \<and> pv_source_id p = sid
          \<and> pv_payload_length p = Some (length ?body)"
    using start j ty assms(6) Sha256Hash_init_ok[OF assms(3)] by (simp add: unpack_s_def bslice_def utf8_decode_def Let_def)
qed

theorem block_preview_witness:
  "fst (BloxrouteMessageFactory_get_broadcast_message_preview
     (InputBuffer_add_bytes (Bytearray, take 74 (frame (MESSAGE_TYPE BroadcastMessageClass)
        (block_body (replicate 32 9) 5 (replicate 16 0) BroadcastMessageType_BLOCK True [4, 5]))) InputBuffer_init)) = Inl StructError"
proof -
  let ?f = "frame (MESSAGE_TYPE BroadcastMessageClass) (block_body (replicate 32 9) 5 (replicate 16 0) BroadcastMessageType_BLOCK True [4, 5])"
  have "ib_inv (InputBuffer_add_bytes (Bytearray, take 74 ?f) InputBuffer_init)" by simp
  moreover have "input_list (InputBuffer_add_bytes (Bytearray, take 74 ?f) InputBuffer_init) = [(Bytearray, take 74 ?f)]"
    by (simp add: InputBuffer_add_bytes_def InputBuffer_init_def)
  moreover have "length (block_body (replicate 32 9) 5 (replicate 16 0) BroadcastMessageType_BLOCK True [4, 5]) < 256 ^ 4"
    by (simp add: block_body_def broadcast_head_def BroadcastMessageType_BLOCK_def ascii_def)
  ultimately show ?thesis
    using block_preview[of "InputBuffer_add_bytes (Bytearray, take 74 ?f) InputBuffer_init" Bytearray "take 74 ?f" "[]" "replicate 32 9"
        "replicate 16 0" 5 BroadcastMessageType_BLOCK True "[4, 5]" 74 None]
    by (simp add: uuid_pack_from_bytes_def rstrip0_def)
qed

text \<open>
  The change of length the converters of versions 16 to 19 report for a transaction is 0, but the
  converted message is 40 bytes shorter: it has no account id and half the timestamp.
\<close>

theorem size_change_of_transactions:
  assumes "tx_inv TxMessage_layout m" and "f = tx_abs TxMessage_layout m" and "length (msg_buf m) < 256 ^ 4"
    and "int_of_double (f_timestamp f) = Inr (int t)" and "t < 2 ^ 32" and "v \<in> {16..19}"
  shows "AbstractVersionManager_get_message_size_change_to_older_version rest v (MESSAGE_TYPE TxMessageClass) = Inr 0
    \<and> (\<exists>old m'. tx_to_older (tx_conv_of v) m = Inr (old, m') \<and> length (msg_buf old) + 40 = length (msg_buf m))"
proof
  have c: "tx_conv_of v = TxConvV17 \<or> tx_conv_of v = TxConvV19" using assms(6) by (auto simp: tx_conv_of_def)
  show "AbstractVersionManager_get_message_size_change_to_older_version rest v (MESSAGE_TYPE TxMessageClass) = Inr 0"
    using assms(6) c by (auto simp: AbstractVersionManager_get_message_size_change_to_older_version_def tx_converter_of_version size_change_to_older_def)
  have bf: "by_fields (tx_conv_of v)" using c by (auto simp: by_fields_def)
  obtain m' where m': "tx_to_older (tx_conv_of v) m = Inr (tx_object (old_layout (tx_conv_of v)) (old_fields (tx_conv_of v) t f), m')"
    using to_older_by_fields[OF assms(1-5) bf] by blast
  have valid: "tx_valid TxMessage_layout f"
    unfolding assms(2) using assms(1,3) by (rule tx_inv_valid) (simp add: TxMessage_layout_def)
  have "length (msg_buf (tx_object (old_layout (tx_conv_of v)) (old_fields (tx_conv_of v) t f))) = 83 + length (f_val f)"
    using c tx_body_length[OF old_fields_valid[OF valid assms(5), of "tx_conv_of v"]]
    by (auto simp: tx_object_def old_layout_def old_layouts old_fields_def)
  moreover have "length (f_val f) + 123 = length (msg_buf m)"
    using assms(1) unfolding assms(2) by (auto simp: tx_abs_def tx_inv_def TxMessage_layout_def bslice_def Let_def tx_offs)
  ultimately show "\<exists>old m'. tx_to_older (tx_conv_of v) m = Inr (old, m') \<and> length (msg_buf old) + 40 = length (msg_buf m)"
    using m' by auto
qed

theorem size_change_of_transactions_witness:
  "AbstractVersionManager_get_message_size_change_to_older_version (\<lambda>_. Inl NotImplementedErr) 17 (MESSAGE_TYPE TxMessageClass) = Inr 0
    \<and> (\<exists>old m'. tx_to_older TxConvV17 (tx_object TxMessage_layout stamped_tx) = Inr (old, m'))"
proof -
  have t: "int_of_double (f_timestamp stamped_tx) = Inr (int 1600000000)" using stamped_tx_facts(2) by simp
  have c: "tx_conv_of 17 = TxConvV17" by (simp add: tx_conv_of_def)
  show ?thesis
    using size_change_of_transactions[OF tx_object_inv[OF stamped_tx_facts(1)] tx_object_abs[OF stamped_tx_facts(1), symmetric]
        stamped_tx_facts(3) t, of 17 "\<lambda>_. Inl NotImplementedErr"] unfolding c by auto
qed

end
