(* ===== verification/Old_Tx_Messages.thy ===== *)
theory Old_Tx_Messages
  imports Versioned_Messages
begin

text \<open>
  The accessors and setters of the transaction messages of versions 21, 20, 19, 17 and 15
  (\<open>messages/bloxroute/v21/tx_message_v21.py\<close> to \<open>v15/tx_message_v15.py\<close>), and the accessors the even older
  ones have. The classes repeat the code of the current one with other field widths, so each method is
  the method of the layout; versions up to 20 store a whole number of seconds as timestamp.

  The theorem says that each class implements a record of its fields: along any sequence of calls every
  call returns what the record says.
\<close>

subsection \<open>Methods\<close>

definition tx_set_int_timestamp :: "tx_layout \<Rightarrow> py_num \<Rightarrow> tx_message \<Rightarrow> tx_message result" where
  "tx_set_int_timestamp L timestamp m = rbind (int_field timestamp) (\<lambda>t. tx_set_timestamp L t m)"

definition tx_quota_type :: "tx_layout \<Rightarrow> tx_message \<Rightarrow> (string \<times> tx_message) result" where
  "tx_quota_type L m = rbind (tx_flag L m) (\<lambda>(f, m'). Inr (TransactionFlag_get_quota_type f, m'))"

definition TxMessageV21_tx_hash :: "tx_message \<Rightarrow> (object_hash \<times> tx_message) result" where
  "TxMessageV21_tx_hash = AbstractBroadcastMessage_message_hash"

definition TxMessageV21_short_id :: "tx_message \<Rightarrow> (nat \<times> tx_message) result" where
  "TxMessageV21_short_id = tx_short_id"

definition TxMessageV21_has_short_id :: "tx_message \<Rightarrow> (bool \<times> tx_message) result" where
  "TxMessageV21_has_short_id = tx_has_short_id"

definition TxMessageV21_transaction_flag :: "tx_message \<Rightarrow> (nat \<times> tx_message) result" where
  "TxMessageV21_transaction_flag = tx_flag TxMessageV21_layout"

definition TxMessageV21_set_transaction_flag :: "nat \<Rightarrow> tx_message \<Rightarrow> tx_message result" where
  "TxMessageV21_set_transaction_flag = tx_set_flag TxMessageV21_layout"

definition TxMessageV21_is_compact :: "tx_message \<Rightarrow> (bool \<times> tx_message) result" where
  "TxMessageV21_is_compact = tx_is_compact TxMessageV21_layout"

definition TxMessageV21_set_timestamp :: "nat \<Rightarrow> tx_message \<Rightarrow> tx_message result" where
  "TxMessageV21_set_timestamp = tx_set_timestamp TxMessageV21_layout"

definition TxMessageV21_clear_short_id :: "tx_message \<Rightarrow> tx_message result" where
  "TxMessageV21_clear_short_id = tx_clear_short_id"

definition TxMessageV21_clear_timestamp :: "tx_message \<Rightarrow> tx_message result" where
  "TxMessageV21_clear_timestamp = tx_clear_timestamp TxMessageV21_layout"

definition TxMessageV21_clear_protected_fields :: "tx_message \<Rightarrow> tx_message result" where
  "TxMessageV21_clear_protected_fields = tx_clear_protected_fields TxMessageV21_layout"

definition TxMessageV21_quota_type :: "tx_message \<Rightarrow> (string \<times> tx_message) result" where
  "TxMessageV21_quota_type = tx_quota_type TxMessageV21_layout"

definition TxMessageV20_tx_hash :: "tx_message \<Rightarrow> (object_hash \<times> tx_message) result" where
  "TxMessageV20_tx_hash = AbstractBroadcastMessage_message_hash"

definition TxMessageV20_short_id :: "tx_message \<Rightarrow> (nat \<times> tx_message) result" where
  "TxMessageV20_short_id = tx_short_id"

definition TxMessageV20_has_short_id :: "tx_message \<Rightarrow> (bool \<times> tx_message) result" where
  "TxMessageV20_has_short_id = tx_has_short_id"

definition TxMessageV20_transaction_flag :: "tx_message \<Rightarrow> (nat \<times> tx_message) result" where
  "TxMessageV20_transaction_flag = tx_flag TxMessageV20_layout"

definition TxMessageV20_set_transaction_flag :: "nat \<Rightarrow> tx_message \<Rightarrow> tx_message result" where
  "TxMessageV20_set_transaction_flag = tx_set_flag TxMessageV20_layout"

definition TxMessageV20_is_compact :: "tx_message \<Rightarrow> (bool \<times> tx_message) result" where
  "TxMessageV20_is_compact = tx_is_compact TxMessageV20_layout"

definition TxMessageV20_set_timestamp :: "py_num \<Rightarrow> tx_message \<Rightarrow> tx_message result" where
  "TxMessageV20_set_timestamp = tx_set_int_timestamp TxMessageV20_layout"

definition TxMessageV20_clear_short_id :: "tx_message \<Rightarrow> tx_message result" where
  "TxMessageV20_clear_short_id = tx_clear_short_id"

definition TxMessageV20_clear_timestamp :: "tx_message \<Rightarrow> tx_message result" where
  "TxMessageV20_clear_timestamp = tx_clear_timestamp TxMessageV20_layout"

definition TxMessageV20_clear_protected_fields :: "tx_message \<Rightarrow> tx_message result" where
  "TxMessageV20_clear_protected_fields = tx_clear_protected_fields TxMessageV20_layout"

definition TxMessageV20_quota_type :: "tx_message \<Rightarrow> (string \<times> tx_message) result" where
  "TxMessageV20_quota_type = tx_quota_type TxMessageV20_layout"

definition TxMessageV19_tx_hash :: "tx_message \<Rightarrow> (object_hash \<times> tx_message) result" where
  "TxMessageV19_tx_hash = AbstractBroadcastMessage_message_hash"

definition TxMessageV19_short_id :: "tx_message \<Rightarrow> (nat \<times> tx_message) result" where
  "TxMessageV19_short_id = tx_short_id"

definition TxMessageV19_has_short_id :: "tx_message \<Rightarrow> (bool \<times> tx_message) result" where
  "TxMessageV19_has_short_id = tx_has_short_id"

definition TxMessageV19_transaction_flag :: "tx_message \<Rightarrow> (nat \<times> tx_message) result" where
  "TxMessageV19_transaction_flag = tx_flag TxMessageV19_layout"

definition TxMessageV19_set_transaction_flag :: "nat \<Rightarrow> tx_message \<Rightarrow> tx_message result" where
  "TxMessageV19_set_transaction_flag = tx_set_flag TxMessageV19_layout"

definition TxMessageV19_is_compact :: "tx_message \<Rightarrow> (bool \<times> tx_message) result" where
  "TxMessageV19_is_compact = tx_is_compact TxMessageV19_layout"

definition TxMessageV19_set_timestamp :: "py_num \<Rightarrow> tx_message \<Rightarrow> tx_message result" where
  "TxMessageV19_set_timestamp = tx_set_int_timestamp TxMessageV19_layout"

definition TxMessageV19_clear_short_id :: "tx_message \<Rightarrow> tx_message result" where
  "TxMessageV19_clear_short_id = tx_clear_short_id"

definition TxMessageV19_clear_timestamp :: "tx_message \<Rightarrow> tx_message result" where
  "TxMessageV19_clear_timestamp = tx_clear_timestamp TxMessageV19_layout"

definition TxMessageV19_clear_protected_fields :: "tx_message \<Rightarrow> tx_message result" where
  "TxMessageV19_clear_protected_fields = tx_clear_protected_fields TxMessageV19_layout"

definition TxMessageV19_quota_type :: "tx_message \<Rightarrow> (string \<times> tx_message) result" where
  "TxMessageV19_quota_type = tx_quota_type TxMessageV19_layout"

definition TxMessageV17_tx_hash :: "tx_message \<Rightarrow> (object_hash \<times> tx_message) result" where
  "TxMessageV17_tx_hash = AbstractBroadcastMessage_message_hash"

definition TxMessageV17_short_id :: "tx_message \<Rightarrow> (nat \<times> tx_message) result" where
  "TxMessageV17_short_id = tx_short_id"

definition TxMessageV17_has_short_id :: "tx_message \<Rightarrow> (bool \<times> tx_message) result" where
  "TxMessageV17_has_short_id = tx_has_short_id"

definition TxMessageV17_transaction_flag :: "tx_message \<Rightarrow> (nat \<times> tx_message) result" where
  "TxMessageV17_transaction_flag = tx_flag TxMessageV17_layout"

definition TxMessageV17_set_transaction_flag :: "nat \<Rightarrow> tx_message \<Rightarrow> tx_message result" where
  "TxMessageV17_set_transaction_flag = tx_set_flag TxMessageV17_layout"

definition TxMessageV17_is_compact :: "tx_message \<Rightarrow> (bool \<times> tx_message) result" where
  "TxMessageV17_is_compact = tx_is_compact TxMessageV17_layout"

definition TxMessageV17_set_timestamp :: "py_num \<Rightarrow> tx_message \<Rightarrow> tx_message result" where
  "TxMessageV17_set_timestamp = tx_set_int_timestamp TxMessageV17_layout"

definition TxMessageV17_clear_short_id :: "tx_message \<Rightarrow> tx_message result" where
  "TxMessageV17_clear_short_id = tx_clear_short_id"

definition TxMessageV17_clear_timestamp :: "tx_message \<Rightarrow> tx_message result" where
  "TxMessageV17_clear_timestamp = tx_clear_timestamp TxMessageV17_layout"

definition TxMessageV17_clear_protected_fields :: "tx_message \<Rightarrow> tx_message result" where
  "TxMessageV17_clear_protected_fields = tx_clear_protected_fields TxMessageV17_layout"

definition TxMessageV17_quota_type :: "tx_message \<Rightarrow> (string \<times> tx_message) result" where
  "TxMessageV17_quota_type = tx_quota_type TxMessageV17_layout"

definition TxMessageV15_tx_hash :: "tx_message \<Rightarrow> (object_hash \<times> tx_message) result" where
  "TxMessageV15_tx_hash = AbstractBroadcastMessage_message_hash"

definition TxMessageV15_short_id :: "tx_message \<Rightarrow> (nat \<times> tx_message) result" where
  "TxMessageV15_short_id = tx_short_id"

definition TxMessageV15_has_short_id :: "tx_message \<Rightarrow> (bool \<times> tx_message) result" where
  "TxMessageV15_has_short_id = tx_has_short_id"

definition TxMessageV15_is_compact :: "tx_message \<Rightarrow> (bool \<times> tx_message) result" where
  "TxMessageV15_is_compact = tx_is_compact TxMessageV15_layout"

definition TxMessageV15_set_timestamp :: "py_num \<Rightarrow> tx_message \<Rightarrow> tx_message result" where
  "TxMessageV15_set_timestamp = tx_set_int_timestamp TxMessageV15_layout"

definition TxMessageV15_clear_short_id :: "tx_message \<Rightarrow> tx_message result" where
  "TxMessageV15_clear_short_id = tx_clear_short_id"

definition TxMessageV15_clear_timestamp :: "tx_message \<Rightarrow> tx_message result" where
  "TxMessageV15_clear_timestamp = tx_clear_timestamp TxMessageV15_layout"

definition TxMessageV15_clear_protected_fields :: "tx_message \<Rightarrow> tx_message result" where
  "TxMessageV15_clear_protected_fields = tx_clear_protected_fields TxMessageV15_layout"

definition TxMessageV7_tx_hash :: "tx_message \<Rightarrow> (object_hash \<times> tx_message) result" where
  "TxMessageV7_tx_hash = AbstractBroadcastMessage_message_hash"

definition TxMessageV7_short_id :: "tx_message \<Rightarrow> (nat \<times> tx_message) result" where
  "TxMessageV7_short_id = tx_short_id"

definition TxMessageV6_tx_hash :: "tx_message \<Rightarrow> (object_hash \<times> tx_message) result" where
  "TxMessageV6_tx_hash = AbstractBroadcastMessage_message_hash"

definition TxMessageV6_short_id :: "tx_message \<Rightarrow> (nat \<times> tx_message) result" where
  "TxMessageV6_short_id = tx_short_id"

subsection \<open>Calls and their answers\<close>

text \<open>
  A call of a method and what it returns. A class is the table of its methods; version 15 has no
  transaction flag, so \<open>CallFlag\<close> is its \<open>quota_type\<close> and the calls of methods it lacks raise \<open>AttributeError\<close>.
\<close>

datatype 't tx_call =
    CallHash | CallShortId | CallHasShortId | CallFlag | CallTimestamp | CallTxVal | CallIsCompact | CallQuotaType
  | CallSetFlag nat | CallSetTimestamp 't | CallClearShortId | CallClearTimestamp | CallClearProtectedFields

datatype tx_answer = AnswerBytes bytes | AnswerNat nat | AnswerBool bool | AnswerText string | NoAnswer

record 't tx_methods =
  mt_hash :: "tx_message \<Rightarrow> (object_hash \<times> tx_message) result"
  mt_short_id :: "tx_message \<Rightarrow> (nat \<times> tx_message) result"
  mt_has_short_id :: "tx_message \<Rightarrow> (bool \<times> tx_message) result"
  mt_flag :: "tx_message \<Rightarrow> (nat \<times> tx_message) result"
  mt_timestamp :: "tx_message \<Rightarrow> (nat \<times> tx_message) result"
  mt_tx_val :: "tx_message \<Rightarrow> (bytes \<times> tx_message) result"
  mt_is_compact :: "tx_message \<Rightarrow> (bool \<times> tx_message) result"
  mt_quota_type :: "tx_message \<Rightarrow> (string \<times> tx_message) result"
  mt_set_flag :: "nat \<Rightarrow> tx_message \<Rightarrow> tx_message result"
  mt_set_timestamp :: "'t \<Rightarrow> tx_message \<Rightarrow> tx_message result"
  mt_clear_short_id :: "tx_message \<Rightarrow> tx_message result"
  mt_clear_timestamp :: "tx_message \<Rightarrow> tx_message result"
  mt_clear_protected_fields :: "tx_message \<Rightarrow> tx_message result"

definition answer :: "('a \<Rightarrow> tx_answer) \<Rightarrow> ('a \<times> tx_message) result \<Rightarrow> (tx_message \<times> tx_answer) result" where
  "answer f r = rbind r (\<lambda>(x, m). Inr (m, f x))"

definition no_answer :: "tx_message result \<Rightarrow> (tx_message \<times> tx_answer) result" where
  "no_answer r = rbind r (\<lambda>m. Inr (m, NoAnswer))"

definition call_method :: "'t tx_methods \<Rightarrow> tx_message \<Rightarrow> 't tx_call \<Rightarrow> (tx_message \<times> tx_answer) result" where
  "call_method mt m c =
     (case c of
        CallHash \<Rightarrow> answer (\<lambda>h. AnswerBytes (binary h)) (mt_hash mt m)
      | CallShortId \<Rightarrow> answer AnswerNat (mt_short_id mt m)
      | CallHasShortId \<Rightarrow> answer AnswerBool (mt_has_short_id mt m)
      | CallFlag \<Rightarrow> answer AnswerNat (mt_flag mt m)
      | CallTimestamp \<Rightarrow> answer AnswerNat (mt_timestamp mt m)
      | CallTxVal \<Rightarrow> answer AnswerBytes (mt_tx_val mt m)
      | CallIsCompact \<Rightarrow> answer AnswerBool (mt_is_compact mt m)
      | CallQuotaType \<Rightarrow> answer AnswerText (mt_quota_type mt m)
      | CallSetFlag f \<Rightarrow> no_answer (mt_set_flag mt f m)
      | CallSetTimestamp t \<Rightarrow> no_answer (mt_set_timestamp mt t m)
      | CallClearShortId \<Rightarrow> no_answer (mt_clear_short_id mt m)
      | CallClearTimestamp \<Rightarrow> no_answer (mt_clear_timestamp mt m)
      | CallClearProtectedFields \<Rightarrow> no_answer (mt_clear_protected_fields mt m))"

definition call_step :: "'t tx_methods \<Rightarrow> tx_message \<times> tx_answer list \<Rightarrow> 't tx_call \<Rightarrow> (tx_message \<times> tx_answer list) result" where
  "call_step mt s c = rbind (call_method mt (fst s) c) (\<lambda>(m, a). Inr (m, snd s @ [a]))"

definition TxMessageV21_methods :: "nat tx_methods" where
  "TxMessageV21_methods =
     \<lparr>mt_hash = TxMessageV21_tx_hash, mt_short_id = TxMessageV21_short_id, mt_has_short_id = TxMessageV21_has_short_id,
      mt_flag = TxMessageV21_transaction_flag, mt_timestamp = TxMessageV21_timestamp, mt_tx_val = TxMessageV21_tx_val,
      mt_is_compact = TxMessageV21_is_compact, mt_quota_type = TxMessageV21_quota_type, mt_set_flag = TxMessageV21_set_transaction_flag,
      mt_set_timestamp = TxMessageV21_set_timestamp, mt_clear_short_id = TxMessageV21_clear_short_id,
      mt_clear_timestamp = TxMessageV21_clear_timestamp, mt_clear_protected_fields = TxMessageV21_clear_protected_fields\<rparr>"

definition TxMessageV20_methods :: "py_num tx_methods" where
  "TxMessageV20_methods =
     \<lparr>mt_hash = TxMessageV20_tx_hash, mt_short_id = TxMessageV20_short_id, mt_has_short_id = TxMessageV20_has_short_id,
      mt_flag = TxMessageV20_transaction_flag, mt_timestamp = TxMessageV20_timestamp, mt_tx_val = TxMessageV20_tx_val,
      mt_is_compact = TxMessageV20_is_compact, mt_quota_type = TxMessageV20_quota_type, mt_set_flag = TxMessageV20_set_transaction_flag,
      mt_set_timestamp = TxMessageV20_set_timestamp, mt_clear_short_id = TxMessageV20_clear_short_id,
      mt_clear_timestamp = TxMessageV20_clear_timestamp, mt_clear_protected_fields = TxMessageV20_clear_protected_fields\<rparr>"

definition TxMessageV19_methods :: "py_num tx_methods" where
  "TxMessageV19_methods =
     \<lparr>mt_hash = TxMessageV19_tx_hash, mt_short_id = TxMessageV19_short_id, mt_has_short_id = TxMessageV19_has_short_id,
      mt_flag = TxMessageV19_transaction_flag, mt_timestamp = TxMessageV19_timestamp, mt_tx_val = TxMessageV19_tx_val,
      mt_is_compact = TxMessageV19_is_compact, mt_quota_type = TxMessageV19_quota_type, mt_set_flag = TxMessageV19_set_transaction_flag,
      mt_set_timestamp = TxMessageV19_set_timestamp, mt_clear_short_id = TxMessageV19_clear_short_id,
      mt_clear_timestamp = TxMessageV19_clear_timestamp, mt_clear_protected_fields = TxMessageV19_clear_protected_fields\<rparr>"

definition TxMessageV17_methods :: "py_num tx_methods" where
  "TxMessageV17_methods =
     \<lparr>mt_hash = TxMessageV17_tx_hash, mt_short_id = TxMessageV17_short_id, mt_has_short_id = TxMessageV17_has_short_id,
      mt_flag = TxMessageV17_transaction_flag, mt_timestamp = TxMessageV17_timestamp, mt_tx_val = TxMessageV17_tx_val,
      mt_is_compact = TxMessageV17_is_compact, mt_quota_type = TxMessageV17_quota_type, mt_set_flag = TxMessageV17_set_transaction_flag,
      mt_set_timestamp = TxMessageV17_set_timestamp, mt_clear_short_id = TxMessageV17_clear_short_id,
      mt_clear_timestamp = TxMessageV17_clear_timestamp, mt_clear_protected_fields = TxMessageV17_clear_protected_fields\<rparr>"

definition TxMessageV15_methods :: "py_num tx_methods" where
  "TxMessageV15_methods =
     \<lparr>mt_hash = TxMessageV15_tx_hash, mt_short_id = TxMessageV15_short_id, mt_has_short_id = TxMessageV15_has_short_id,
      mt_flag = TxMessageV15_quota_type, mt_timestamp = TxMessageV15_timestamp, mt_tx_val = TxMessageV15_tx_val,
      mt_is_compact = TxMessageV15_is_compact, mt_quota_type = (\<lambda>_. Inl AttributeErr), mt_set_flag = (\<lambda>_ _. Inl AttributeErr),
      mt_set_timestamp = TxMessageV15_set_timestamp, mt_clear_short_id = TxMessageV15_clear_short_id,
      mt_clear_timestamp = TxMessageV15_clear_timestamp, mt_clear_protected_fields = TxMessageV15_clear_protected_fields\<rparr>"

text \<open>The same calls on the record of the fields; \<open>stamp\<close> is the number stored for a timestamp.\<close>

definition spec_call :: "('t \<Rightarrow> nat) \<Rightarrow> tx_fields \<times> tx_answer list \<Rightarrow> 't tx_call \<Rightarrow> tx_fields \<times> tx_answer list" where
  "spec_call stamp s c =
     (let f = fst s in
      case c of
        CallHash \<Rightarrow> (f, snd s @ [AnswerBytes (f_hash f)])
      | CallShortId \<Rightarrow> (f, snd s @ [AnswerNat (f_short_id f)])
      | CallHasShortId \<Rightarrow> (f, snd s @ [AnswerBool (f_short_id f \<noteq> 0)])
      | CallFlag \<Rightarrow> (f, snd s @ [AnswerNat (f_flag f)])
      | CallTimestamp \<Rightarrow> (f, snd s @ [AnswerNat (f_timestamp f)])
      | CallTxVal \<Rightarrow> (f, snd s @ [AnswerBytes (f_val f)])
      | CallIsCompact \<Rightarrow> (f, snd s @ [AnswerBool (f_val f = [])])
      | CallQuotaType \<Rightarrow> (f, snd s @ [AnswerText (TransactionFlag_get_quota_type (f_flag f))])
      | CallSetFlag x \<Rightarrow> (f\<lparr>f_flag := x\<rparr>, snd s @ [NoAnswer])
      | CallSetTimestamp t \<Rightarrow> (f\<lparr>f_timestamp := stamp t\<rparr>, snd s @ [NoAnswer])
      | CallClearShortId \<Rightarrow> (f\<lparr>f_short_id := 0\<rparr>, snd s @ [NoAnswer])
      | CallClearTimestamp \<Rightarrow> (f\<lparr>f_timestamp := 0\<rparr>, snd s @ [NoAnswer])
      | CallClearProtectedFields \<Rightarrow> (f\<lparr>f_short_id := 0, f_timestamp := 0\<rparr>, snd s @ [NoAnswer]))"

text \<open>
  The calls that are allowed: flags within the enumeration, timestamps that fit, and only methods the
  class has (\<open>flags\<close>).
\<close>

definition int_stamp :: "py_num \<Rightarrow> nat option" where
  "int_stamp t = (case int_field t of Inr v \<Rightarrow> Some v | Inl _ \<Rightarrow> None)"

definition allowed_call :: "tx_layout \<Rightarrow> ('t \<Rightarrow> nat option) \<Rightarrow> bool \<Rightarrow> 't tx_call \<Rightarrow> bool" where
  "allowed_call L stamp flags c =
     (case c of
        CallQuotaType \<Rightarrow> flags
      | CallSetFlag x \<Rightarrow> flags \<and> x < flag_bound L \<and> x < 256 ^ flag_len L
      | CallSetTimestamp t \<Rightarrow> (case stamp t of None \<Rightarrow> False | Some v \<Rightarrow> v < 256 ^ timestamp_len L)
      | _ \<Rightarrow> True)"

locale tx_class =
  fixes L :: tx_layout and mt :: "'t tx_methods" and stamp :: "'t \<Rightarrow> nat option" and flags :: bool
  assumes call_ok: "tx_inv L m \<Longrightarrow> allowed_call L stamp flags c \<Longrightarrow>
    \<exists>m' a. call_method mt m c = Inr (m', a) \<and> tx_inv L m' \<and> spec_call (\<lambda>t. the (stamp t)) (tx_abs L m, out) c = (tx_abs L m', out @ [a])"

sublocale tx_class \<subseteq> refined_system "call_step mt" "\<lambda>s. tx_inv L (fst s)" "allowed_call L stamp flags"
    "\<lambda>s. (tx_abs L (fst s), snd s)" "spec_call (\<lambda>t. the (stamp t))"
proof
  fix s s' :: "tx_message \<times> tx_answer list" and c
  assume a: "tx_inv L (fst s)" "allowed_call L stamp flags c"
  obtain m' x where c: "call_method mt (fst s) c = Inr (m', x)" "tx_inv L m'"
    "spec_call (\<lambda>t. the (stamp t)) (tx_abs L (fst s), snd s) c = (tx_abs L m', snd s @ [x])"
    using call_ok[OF a, of "snd s"] by (elim exE conjE)
  then show "\<exists>s'. call_step mt s c = Inr s' \<and> tx_inv L (fst s')" by (simp add: call_step_def)
  assume "call_step mt s c = Inr s'"
  then show "(tx_abs L (fst s'), snd s') = spec_call (\<lambda>t. the (stamp t)) (tx_abs L (fst s), snd s) c"
    using c by (auto simp: call_step_def)
qed

lemma answer_ok:
  assumes "tx_returns L g P m" and "\<And>x. P x \<Longrightarrow> f x = a"
  shows "\<exists>m'. answer f (g m) = Inr (m', a) \<and> tx_inv L m' \<and> tx_abs L m' = tx_abs L m"
  using assms by (auto simp: tx_returns_def answer_def)

lemma no_answer_ok:
  assumes "tx_becomes L g m fs"
  shows "\<exists>m'. no_answer (g m) = Inr (m', NoAnswer) \<and> tx_inv L m' \<and> tx_abs L m' = fs"
  using assms by (auto simp: tx_becomes_def no_answer_def)

lemma tx_returns_map:
  "tx_returns L g (\<lambda>x. x = v) m \<Longrightarrow> tx_returns L (\<lambda>m. rbind (g m) (\<lambda>(x, m'). Inr (h x, m'))) (\<lambda>y. y = h v) m"
  by (auto simp: tx_returns_def)

text \<open>A table of methods that are those of the layout meets the contract.\<close>

lemma layout_methods:
  assumes "mt_hash mt = AbstractBroadcastMessage_message_hash" "mt_short_id mt = tx_short_id" "mt_has_short_id mt = tx_has_short_id"
    and "mt_flag mt = tx_flag L" "mt_timestamp mt = tx_timestamp L" "mt_tx_val mt = tx_tx_val L" "mt_is_compact mt = tx_is_compact L"
    and "flags \<Longrightarrow> mt_quota_type mt = tx_quota_type L" "flags \<Longrightarrow> mt_set_flag mt = tx_set_flag L"
    and "\<And>t v. stamp t = Some v \<Longrightarrow> mt_set_timestamp mt t = tx_set_timestamp L v"
    and "mt_clear_short_id mt = tx_clear_short_id" "mt_clear_timestamp mt = tx_clear_timestamp L"
    and "mt_clear_protected_fields mt = tx_clear_protected_fields L"
  shows "tx_class L mt stamp flags"
proof
  fix m c and out :: "tx_answer list"
  assume i: "tx_inv L m" and a: "allowed_call L stamp flags c"
  let ?f = "tx_abs L m"
  note ms = assms
  have derived: "tx_returns L tx_has_short_id (\<lambda>x. x = (f_short_id ?f \<noteq> 0)) m"
    "tx_returns L (tx_is_compact L) (\<lambda>x. x = (f_val ?f = [])) m"
    "tx_returns L (tx_quota_type L) (\<lambda>x. x = TransactionFlag_get_quota_type (f_flag ?f)) m"
    using tx_returns_map[OF tx_read_short_id[OF i], of "\<lambda>s. s \<noteq> 0"] tx_returns_map[OF tx_read_val[OF i], of "\<lambda>v. v = []"]
      tx_returns_map[OF tx_read_flag[OF i], of TransactionFlag_get_quota_type]
    by (simp_all add: tx_has_short_id_def[abs_def] tx_is_compact_def[abs_def] tx_quota_type_def[abs_def])
  note reads = answer_ok[OF tx_read_hash[OF i]] answer_ok[OF tx_read_short_id[OF i]] answer_ok[OF tx_read_flag[OF i]]
    answer_ok[OF tx_read_timestamp[OF i]] answer_ok[OF tx_read_val[OF i]] answer_ok[OF derived(1)] answer_ok[OF derived(2)]
    answer_ok[OF derived(3)]
  note sets = no_answer_ok[OF tx_clear_short_id_spec[OF i]] no_answer_ok[OF tx_clear_timestamp_spec[OF i]]
    no_answer_ok[OF tx_clear_protected_spec[OF i]]
  show "\<exists>m' x. call_method mt m c = Inr (m', x) \<and> tx_inv L m' \<and> spec_call (\<lambda>t. the (stamp t)) (?f, out) c = (tx_abs L m', out @ [x])"
  proof (cases c)
    case CallHash
    then show ?thesis using reads(1)[of "\<lambda>h. AnswerBytes (binary h)" "AnswerBytes (f_hash ?f)"] ms(1) by (auto simp: call_method_def spec_call_def Let_def)
  next
    case CallShortId
    then show ?thesis using reads(2)[of AnswerNat "AnswerNat (f_short_id ?f)"] ms(2) by (auto simp: call_method_def spec_call_def Let_def)
  next
    case CallHasShortId
    then show ?thesis using reads(6)[of AnswerBool "AnswerBool (f_short_id ?f \<noteq> 0)"] ms(3) by (auto simp: call_method_def spec_call_def Let_def)
  next
    case CallFlag
    then show ?thesis using reads(3)[of AnswerNat "AnswerNat (f_flag ?f)"] ms(4) by (auto simp: call_method_def spec_call_def Let_def)
  next
    case CallTimestamp
    then show ?thesis using reads(4)[of AnswerNat "AnswerNat (f_timestamp ?f)"] ms(5) by (auto simp: call_method_def spec_call_def Let_def)
  next
    case CallTxVal
    then show ?thesis using reads(5)[of AnswerBytes "AnswerBytes (f_val ?f)"] ms(6) by (auto simp: call_method_def spec_call_def Let_def)
  next
    case CallIsCompact
    then show ?thesis using reads(7)[of AnswerBool "AnswerBool (f_val ?f = [])"] ms(7) by (auto simp: call_method_def spec_call_def Let_def)
  next
    case CallQuotaType
    then show ?thesis using reads(8)[of AnswerText "AnswerText (TransactionFlag_get_quota_type (f_flag ?f))"] ms(8) a
      by (auto simp: call_method_def spec_call_def Let_def allowed_call_def)
  next
    case (CallSetFlag x)
    then have x: "flags" "x < flag_bound L" "x < 256 ^ flag_len L" using a by (simp_all add: allowed_call_def)
    show ?thesis using no_answer_ok[OF tx_set_flag_spec[OF i x(2,3)]] ms(9)[OF x(1)] CallSetFlag by (auto simp: call_method_def spec_call_def Let_def)
  next
    case (CallSetTimestamp t)
    then obtain v where v: "stamp t = Some v" "v < 256 ^ timestamp_len L" using a by (auto simp: allowed_call_def split: option.splits)
    show ?thesis using no_answer_ok[OF tx_set_timestamp_spec[OF i v(2)]] ms(10)[OF v(1)] v(1) CallSetTimestamp
      by (auto simp: call_method_def spec_call_def Let_def)
  next
    case CallClearShortId
    then show ?thesis using sets(1) ms(11) by (auto simp: call_method_def spec_call_def Let_def)
  next
    case CallClearTimestamp
    then show ?thesis using sets(2) ms(12) by (auto simp: call_method_def spec_call_def Let_def)
  next
    case CallClearProtectedFields
    then show ?thesis using sets(3) ms(13) by (auto simp: call_method_def spec_call_def Let_def)
  qed
qed

lemma int_stamp_timestamp: "int_stamp t = Some v \<Longrightarrow> tx_set_int_timestamp L t = tx_set_timestamp L v"
  by (auto simp: int_stamp_def tx_set_int_timestamp_def fun_eq_iff split: sum.splits)

interpretation tx21: tx_class TxMessageV21_layout TxMessageV21_methods Some True
  by (rule layout_methods)
    (simp_all add: TxMessageV21_methods_def TxMessageV21_tx_hash_def TxMessageV21_short_id_def TxMessageV21_has_short_id_def TxMessageV21_is_compact_def
       TxMessageV21_set_timestamp_def TxMessageV21_clear_short_id_def TxMessageV21_clear_timestamp_def
       TxMessageV21_clear_protected_fields_def TxMessageV21_timestamp_def TxMessageV21_tx_val_def TxMessageV21_quota_type_def
       TxMessageV21_transaction_flag_def TxMessageV21_set_transaction_flag_def)

interpretation tx20: tx_class TxMessageV20_layout TxMessageV20_methods int_stamp True
  by (rule layout_methods)
    (simp_all add: TxMessageV20_methods_def TxMessageV20_tx_hash_def TxMessageV20_short_id_def TxMessageV20_has_short_id_def TxMessageV20_is_compact_def
       TxMessageV20_set_timestamp_def TxMessageV20_clear_short_id_def TxMessageV20_clear_timestamp_def
       TxMessageV20_clear_protected_fields_def TxMessageV20_timestamp_def TxMessageV20_tx_val_def TxMessageV20_quota_type_def
       TxMessageV20_transaction_flag_def TxMessageV20_set_transaction_flag_def int_stamp_timestamp)

interpretation tx19: tx_class TxMessageV19_layout TxMessageV19_methods int_stamp True
  by (rule layout_methods)
    (simp_all add: TxMessageV19_methods_def TxMessageV19_tx_hash_def TxMessageV19_short_id_def TxMessageV19_has_short_id_def TxMessageV19_is_compact_def
       TxMessageV19_set_timestamp_def TxMessageV19_clear_short_id_def TxMessageV19_clear_timestamp_def
       TxMessageV19_clear_protected_fields_def TxMessageV19_timestamp_def TxMessageV19_tx_val_def TxMessageV19_quota_type_def
       TxMessageV19_transaction_flag_def TxMessageV19_set_transaction_flag_def int_stamp_timestamp)

interpretation tx17: tx_class TxMessageV17_layout TxMessageV17_methods int_stamp True
  by (rule layout_methods)
    (simp_all add: TxMessageV17_methods_def TxMessageV17_tx_hash_def TxMessageV17_short_id_def TxMessageV17_has_short_id_def TxMessageV17_is_compact_def
       TxMessageV17_set_timestamp_def TxMessageV17_clear_short_id_def TxMessageV17_clear_timestamp_def
       TxMessageV17_clear_protected_fields_def TxMessageV17_timestamp_def TxMessageV17_tx_val_def TxMessageV17_quota_type_def
       TxMessageV17_transaction_flag_def TxMessageV17_set_transaction_flag_def int_stamp_timestamp)

interpretation tx15: tx_class TxMessageV15_layout TxMessageV15_methods int_stamp False
  by (rule layout_methods)
    (simp_all add: TxMessageV15_methods_def TxMessageV15_tx_hash_def TxMessageV15_short_id_def TxMessageV15_has_short_id_def TxMessageV15_is_compact_def
       TxMessageV15_set_timestamp_def TxMessageV15_clear_short_id_def TxMessageV15_clear_timestamp_def
       TxMessageV15_clear_protected_fields_def TxMessageV15_timestamp_def TxMessageV15_tx_val_def TxMessageV15_quota_type_def int_stamp_timestamp)

text \<open>Every class, along a whole run from a received message.\<close>

definition runs_as_fields :: "tx_layout \<Rightarrow> 't tx_methods \<Rightarrow> ('t \<Rightarrow> nat option) \<Rightarrow> tx_fields \<Rightarrow> 't tx_call list \<Rightarrow> bool" where
  "runs_as_fields L mt stamp f calls \<longleftrightarrow>
     (\<exists>m answers. rfold (call_step mt) (tx_object L f, []) calls = Inr (m, answers)
       \<and> foldl (spec_call (\<lambda>t. the (stamp t))) (f, []) calls = (tx_abs L m, answers))"

text \<open>
  C14. The transaction messages of versions 21, 20, 19, 17 and 15 behave as records of their fields: however
  their methods are called on a received message, no call raises, each returns what the record says,
  and the bytes hold the fields of the record at the end.
\<close>

theorem old_tx_messages_refine_fields:
  assumes "tx_valid TxMessageV21_layout f" and "list_all (allowed_call TxMessageV21_layout Some True) calls"
    and "tx_valid TxMessageV20_layout g" and "list_all (allowed_call TxMessageV20_layout int_stamp True) icalls"
    and "tx_valid TxMessageV15_layout q" and "list_all (allowed_call TxMessageV15_layout int_stamp False) qcalls"
  shows "runs_as_fields TxMessageV21_layout TxMessageV21_methods Some f calls
    \<and> runs_as_fields TxMessageV20_layout TxMessageV20_methods int_stamp g icalls
    \<and> runs_as_fields TxMessageV19_layout TxMessageV19_methods int_stamp g icalls
    \<and> runs_as_fields TxMessageV17_layout TxMessageV17_methods int_stamp g icalls
    \<and> runs_as_fields TxMessageV15_layout TxMessageV15_methods int_stamp q qcalls"
proof -
  have same: "TxMessageV19_layout = TxMessageV20_layout" "TxMessageV17_layout = TxMessageV20_layout" by (simp_all add: old_layouts)
  have start: "(tx_abs L (fst (tx_object L h, [] :: tx_answer list)), snd (tx_object L h, [] :: tx_answer list)) = (h, [])"
    "tx_inv L (fst (tx_object L h, [] :: tx_answer list))" if "tx_valid L h" for L h
    using that by (simp_all add: tx_object_abs tx_object_inv)
  show ?thesis
    unfolding runs_as_fields_def
    using tx21.run_refines[OF start(2)[OF assms(1)] assms(2), unfolded start(1)[OF assms(1)]]
      tx20.run_refines[OF start(2)[OF assms(3)] assms(4), unfolded start(1)[OF assms(3)]]
      tx19.run_refines[unfolded same, OF start(2)[OF assms(3)] assms(4), unfolded start(1)[OF assms(3)]]
      tx17.run_refines[unfolded same, OF start(2)[OF assms(3)] assms(4), unfolded start(1)[OF assms(3)]]
      tx15.run_refines[OF start(2)[OF assms(5)] assms(6), unfolded start(1)[OF assms(5)]]
    by (intro conjI) (auto simp: same)
qed

theorem old_tx_messages_refine_fields_witness:
  "runs_as_fields TxMessageV20_layout TxMessageV20_methods int_stamp (sample_tx\<lparr>f_account := [], f_timestamp := 9\<rparr>)
    [CallTimestamp, CallSetTimestamp (PyInt 1600000000), CallSetFlag 2, CallQuotaType, CallClearProtectedFields, CallHasShortId, CallTimestamp]"
proof -
  have v: "tx_valid TxMessageV21_layout (sample_tx\<lparr>f_account := [], f_timestamp := 9\<rparr>)" "tx_valid TxMessageV20_layout (sample_tx\<lparr>f_account := [], f_timestamp := 9\<rparr>)"
    "tx_valid TxMessageV15_layout (sample_tx\<lparr>f_account := [], f_timestamp := 9\<rparr>)"
    by (simp_all add: tx_valid_def sample_tx_def old_layouts ascii_def)
  show ?thesis
    using old_tx_messages_refine_fields[OF v(1) _ v(2) _ v(3), of "[]" _ "[]"]
    by (simp add: allowed_call_def int_stamp_def int_field_def py_int_def old_layouts)
qed

end
