(* ===== verification/Rlp.thy ===== *)
theory Rlp
  imports Bx_Prelude
begin

text \<open>
  The Recursive Length Prefix encoding of Ethereum, \<open>utils/blockchain_utils/eth/rlp_utils.py\<close>: integers,
  length prefixes and the items of a list. The encoding of strings and lists, which the code writes out
  where it needs it, is the reference \<open>rlp_enc\<close>; reading accepts exactly the encodings it gives.
\<close>

subsection \<open>Big-endian integers\<close>

definition big_endian_to_int :: "bytes \<Rightarrow> nat" where
  "big_endian_to_int value = of_le (rev value)"

fun bit_length :: "nat \<Rightarrow> nat" where
  "bit_length v = (if v = 0 then 0 else Suc (bit_length (v div 2)))"

declare bit_length.simps [simp del]

definition int_to_big_endian :: "nat \<Rightarrow> bytes" where
  "int_to_big_endian value = rev (le_bytes (max ((bit_length value + 7) div 8) 1) value)"

lemma bit_length_bounds: "v < 2 ^ bit_length v \<and> (0 < v \<longrightarrow> 2 ^ (bit_length v - 1) \<le> v)"
proof (induction v rule: bit_length.induct)
  case (1 v)
  show ?case
  proof (cases "v = 0")
    case False
    note ih = "1.IH"[OF False]
    have b: "bit_length v = Suc (bit_length (v div 2))" using False by (subst bit_length.simps) simp
    have "v < 2 * 2 ^ bit_length (v div 2)" using ih by linarith
    moreover have "2 ^ bit_length (v div 2) \<le> v"
    proof (cases "v div 2 = 0")
      case True
      then have "bit_length (v div 2) = 0" by (simp add: bit_length.simps)
      then show ?thesis using False by simp
    next
      case nz: False
      then have "0 < bit_length (v div 2)" by (subst bit_length.simps) simp
      then have "(2 :: nat) ^ bit_length (v div 2) = 2 * 2 ^ (bit_length (v div 2) - 1)" by (simp add: power_eq_if)
      then show ?thesis using ih nz by linarith
    qed
    ultimately show ?thesis by (simp add: b)
  qed (simp add: bit_length.simps)
qed

lemma length_int_to_big_endian: "length (int_to_big_endian v) = max ((bit_length v + 7) div 8) 1"
  by (simp add: int_to_big_endian_def)

lemma pow_256: "(256 :: nat) ^ n = 2 ^ (8 * n)"
  by (simp add: power_mult)

lemma int_to_big_endian_bounds:
  "v < 256 ^ length (int_to_big_endian v)" "0 < v \<Longrightarrow> 256 ^ (length (int_to_big_endian v) - 1) \<le> v"
proof -
  let ?b = "bit_length v" and ?n = "length (int_to_big_endian v)"
  have "?b \<le> 8 * ?n" unfolding length_int_to_big_endian by linarith
  then have "(2 :: nat) ^ ?b \<le> 2 ^ (8 * ?n)" by (rule power_increasing) simp
  then show "v < 256 ^ ?n" using bit_length_bounds[of v] unfolding pow_256 by linarith
  assume v: "0 < v"
  then have b: "0 < ?b" by (subst bit_length.simps) simp
  have "8 * (?n - 1) \<le> ?b - 1" using b unfolding length_int_to_big_endian by linarith
  then have "(2 :: nat) ^ (8 * (?n - 1)) \<le> 2 ^ (?b - 1)" by (rule power_increasing) simp
  then show "256 ^ (?n - 1) \<le> v" using bit_length_bounds[of v] v unfolding pow_256 by linarith
qed

lemma int_to_big_endian_not_Nil [simp]: "int_to_big_endian v \<noteq> []"
  using length_int_to_big_endian[of v] by auto

lemma big_endian_int [simp]: "big_endian_to_int (int_to_big_endian v) = v"
  using int_to_big_endian_bounds(1)[of v]
  by (simp add: big_endian_to_int_def int_to_big_endian_def of_le_le_bytes length_int_to_big_endian)

lemma of_le_append: "of_le (xs @ ys) = of_le xs + 256 ^ length xs * of_le ys"
  by (induction xs) (simp_all add: algebra_simps)

lemma big_endian_bounds:
  assumes "bs \<noteq> []" and "hd bs \<noteq> 0"
  shows "256 ^ (length bs - 1) \<le> big_endian_to_int bs" and "big_endian_to_int bs < 256 ^ length bs"
proof -
  obtain b rest where bs: "bs = b # rest" using assms(1) by (cases bs) auto
  have "1 \<le> unat b" using assms(2) bs by (simp add: Suc_le_eq unat_gt_0)
  then have "256 ^ length rest * 1 \<le> 256 ^ length rest * unat b" by (rule mult_le_mono2)
  then have "256 ^ length rest \<le> of_le (rev rest) + 256 ^ length rest * unat b" by linarith
  then show "256 ^ (length bs - 1) \<le> big_endian_to_int bs"
    by (simp add: bs big_endian_to_int_def of_le_append)
  show "big_endian_to_int bs < 256 ^ length bs" using of_le_bound[of "rev bs"] by (simp add: big_endian_to_int_def)
qed

text \<open>Without a leading zero byte the encoding of a number is unique.\<close>

lemma int_of_big_endian:
  assumes "bs \<noteq> []" and "hd bs \<noteq> 0"
  shows "int_to_big_endian (big_endian_to_int bs) = bs"
proof -
  let ?v = "big_endian_to_int bs" and ?m = "length (int_to_big_endian (big_endian_to_int bs))"
  note b = big_endian_bounds[OF assms] and i = int_to_big_endian_bounds[of ?v]
  have "0 < (256 :: nat) ^ (length bs - 1)" by simp
  then have pos: "0 < ?v" using b(1) by linarith
  have "256 ^ (?m - 1) < (256 :: nat) ^ length bs" using i(2)[OF pos] b(2) by linarith
  moreover have "256 ^ (length bs - 1) < (256 :: nat) ^ ?m" using i(1) b(1) by linarith
  ultimately have "?m - 1 < length bs" "length bs - 1 < ?m" by simp_all
  moreover have "0 < ?m" "0 < length bs" using assms(1) by simp_all
  ultimately have m: "?m = length bs" by linarith
  have "int_to_big_endian ?v = rev (le_bytes ?m ?v)" by (simp add: int_to_big_endian_def length_int_to_big_endian)
  also have "\<dots> = rev (le_bytes (length (rev bs)) (of_le (rev bs)))" unfolding m by (simp add: big_endian_to_int_def)
  finally show ?thesis by (simp only: le_bytes_of_le rev_rev_ident)
qed

lemma hd_int_to_big_endian:
  assumes "0 < v"
  shows "hd (int_to_big_endian v) \<noteq> 0"
proof
  let ?bs = "int_to_big_endian v"
  assume z: "hd ?bs = 0"
  then obtain rest where bs: "?bs = 0 # rest" by (metis int_to_big_endian_not_Nil list.collapse)
  have "v = of_le (rev rest @ [0])" using big_endian_int[of v] unfolding big_endian_to_int_def bs by simp
  then have "v < 256 ^ length rest" using of_le_bound[of "rev rest"] by (simp add: of_le_append)
  then show False using int_to_big_endian_bounds(2)[OF assms] bs by simp
qed

subsection \<open>Length prefixes\<close>

definition get_length_prefix :: "nat \<Rightarrow> nat \<Rightarrow> bytes result" where
  "get_length_prefix len offset =
     (if len < 56 then Inr [of_nat (offset + len)]
      else if len < 256 ^ 8
      then let length_string = int_to_big_endian len in Inr (of_nat (offset + 56 - 1 + length length_string) # length_string)
      else Inl ValueError)"

definition get_length_prefix_str :: "nat \<Rightarrow> bytes result" where
  "get_length_prefix_str len = get_length_prefix len 128"

definition get_length_prefix_list :: "nat \<Rightarrow> bytes result" where
  "get_length_prefix_list len = get_length_prefix len 192"

definition encode_int :: "nat \<Rightarrow> bytes result" where
  "encode_int value =
     (let s = (if value = 0 then [] else int_to_big_endian value)
      in if length s = 1 \<and> hd s < 128 then Inr s
         else rbind (get_length_prefix_str (length s)) (\<lambda>p. Inr (p @ s)))"

datatype rlp_type = RlpStr | RlpList

definition long_prefix :: "rlp_type \<Rightarrow> nat \<Rightarrow> bytes \<Rightarrow> nat \<Rightarrow> (rlp_type \<times> nat \<times> nat) result" where
  "long_prefix ty long_length rlp start =
     (if bslice (start + 1) (start + 2) rlp = [0] then Inl ParseError
      else let len = big_endian_to_int (bslice (start + 1) (start + 1 + long_length) rlp)
           in if len < 56 then Inl ParseError else Inr (ty, len, start + 1 + long_length))"

definition consume_length_prefix :: "bytes \<Rightarrow> nat \<Rightarrow> (rlp_type \<times> nat \<times> nat) result" where
  "consume_length_prefix rlp start =
     (if length rlp \<le> start then Inl IndexError
      else let first_byte = unat (rlp ! start)
      in if first_byte < 128 then Inr (RlpStr, 1, start)
         else if first_byte < 128 + 56
         then if first_byte - 128 = 1 \<and> length rlp \<le> start + 1 then Inl IndexError
              else if first_byte - 128 = 1 \<and> rlp ! (start + 1) < 128 then Inl ParseError
              else Inr (RlpStr, first_byte - 128, start + 1)
         else if first_byte < 192 then long_prefix RlpStr (first_byte - 128 - 56 + 1) rlp start
         else if first_byte < 192 + 56 then Inr (RlpList, first_byte - 192, start + 1)
         else long_prefix RlpList (first_byte - 192 - 56 + 1) rlp start)"

definition decode_int :: "bytes \<Rightarrow> nat \<Rightarrow> (nat \<times> nat) result" where
  "decode_int rlp start =
     rbind (consume_length_prefix rlp start) (\<lambda>(_, value_len, value_start).
       let value_bytes = bslice value_start (value_start + value_len) rlp
       in Inr (if value_bytes = [] then 0 else big_endian_to_int value_bytes, (value_start - start) + value_len))"

definition remove_length_prefix :: "bytes \<Rightarrow> bytes result" where
  "remove_length_prefix item_bytes =
     rbind (consume_length_prefix item_bytes 0) (\<lambda>(_, _, list_itm_start). Inr (drop list_itm_start item_bytes))"

lemma consume_advances:
  "consume_length_prefix rlp start = Inr (ty, n, s) \<Longrightarrow> start < s + n"
  by (auto simp: consume_length_prefix_def long_prefix_def Let_def split: if_splits)

text \<open>The loop of \<open>get_list_items_bytes\<close>; a string makes it remove the prefix of every later item as well.\<close>

function list_items_loop :: "bytes \<Rightarrow> nat \<Rightarrow> bool \<Rightarrow> bytes list result" where
  "list_items_loop list_bytes offset remove =
     (if offset < length list_bytes
      then case consume_length_prefix list_bytes offset of
             Inl e \<Rightarrow> Inl e
           | Inr (item_type, item_len, item_start) \<Rightarrow>
               let remove' = (remove \<or> item_type = RlpStr); item_bytes = bslice offset (item_start + item_len) list_bytes
               in rbind (if remove' then remove_length_prefix item_bytes else Inr item_bytes) (\<lambda>item.
                  rbind (list_items_loop list_bytes (item_start + item_len) remove') (\<lambda>items. Inr (item # items)))
      else if offset = length list_bytes then Inr [] else Inl AssertionError)"
  by pat_completeness auto
termination
  by (relation "measure (\<lambda>(b, off, _). length b - off)") (auto dest: consume_advances)

declare list_items_loop.simps [simp del]

definition get_list_items_bytes :: "bytes \<Rightarrow> bool \<Rightarrow> bytes list result" where
  "get_list_items_bytes list_bytes remove_items_length_prefix = list_items_loop list_bytes 0 remove_items_length_prefix"

definition get_first_list_field_items_bytes :: "bytes \<Rightarrow> bool \<Rightarrow> bytes list result" where
  "get_first_list_field_items_bytes object_bytes remove_items_length_prefix =
     rbind (remove_length_prefix object_bytes) (\<lambda>b. get_list_items_bytes b remove_items_length_prefix)"

subsection \<open>Reading what was written\<close>

text \<open>Strings, and lists with the encoding of their items as payload.\<close>

datatype rlp_item = StrItem (payload: bytes) | ListItem (payload: bytes)

fun rlp_prefix :: "rlp_item \<Rightarrow> bytes" where
  "rlp_prefix (StrItem s) = (if length s = 1 \<and> hd s < 128 then [] else case get_length_prefix_str (length s) of Inr p \<Rightarrow> p | Inl _ \<Rightarrow> [])"
| "rlp_prefix (ListItem s) = (case get_length_prefix_list (length s) of Inr p \<Rightarrow> p | Inl _ \<Rightarrow> [])"

definition rlp_enc :: "rlp_item \<Rightarrow> bytes" where
  "rlp_enc i = rlp_prefix i @ payload i"

definition rlp_ok :: "rlp_item \<Rightarrow> bool" where
  "rlp_ok i \<longleftrightarrow> length (payload i) < 256 ^ 8"

fun type_of :: "rlp_item \<Rightarrow> rlp_type" where
  "type_of (StrItem s) = RlpStr"
| "type_of (ListItem s) = RlpList"

fun item_of :: "rlp_type \<Rightarrow> bytes \<Rightarrow> rlp_item" where
  "item_of RlpStr s = StrItem s"
| "item_of RlpList s = ListItem s"

lemma long_length_bounds:
  assumes "56 \<le> n" and "n < 256 ^ 8"
  shows "1 \<le> length (int_to_big_endian n)" and "length (int_to_big_endian n) \<le> 8"
proof -
  show "1 \<le> length (int_to_big_endian n)" by (simp add: length_int_to_big_endian)
  have "256 ^ (length (int_to_big_endian n) - 1) \<le> n" using int_to_big_endian_bounds(2)[of n] assms(1) by simp
  then have "(256 :: nat) ^ (length (int_to_big_endian n) - 1) < 256 ^ 8" using assms(2) by linarith
  then have "length (int_to_big_endian n) - 1 < 8" by (simp only: power_strict_increasing_iff)
  then show "length (int_to_big_endian n) \<le> 8" by linarith
qed

lemma unat_byte: "k < 256 \<Longrightarrow> unat (of_nat k :: byte) = k"
  by (simp add: unat_of_nat)

lemma byte_less_128: "(x :: byte) < 128 \<longleftrightarrow> unat x < 128"
  by (simp add: word_less_nat_alt)

lemma long_prefix_read:
  assumes "56 \<le> n" and "n < 256 ^ 8" and "rlp = pre @ b # int_to_big_endian n @ post"
  shows "long_prefix ty (length (int_to_big_endian n)) rlp (length pre) = Inr (ty, n, length pre + 1 + length (int_to_big_endian n))"
proof -
  let ?k = "length (int_to_big_endian n)"
  have all: "bslice (length pre + 1) (length pre + 1 + ?k) rlp = int_to_big_endian n"
    unfolding assms(3) by (simp add: bslice_def)
  obtain x xs where x: "int_to_big_endian n = x # xs" by (cases "int_to_big_endian n") simp_all
  have "x \<noteq> 0" using hd_int_to_big_endian[of n] assms(1) x by simp
  moreover have "bslice (length pre + 1) (length pre + 2) rlp = [x]" unfolding assms(3) x by (simp add: bslice_def)
  ultimately show ?thesis using all assms(1) by (simp add: long_prefix_def)
qed

lemma consume_short_str:
  assumes "unat b = 128 + length s" and "length s < 56" and "\<not> (length s = 1 \<and> hd s < 128)"
  shows "consume_length_prefix (pre @ b # s @ post) (length pre) = Inr (RlpStr, length s, length pre + 1)"
proof (cases s)
  case (Cons x xs)
  have "(pre @ b # x # xs @ post) ! (length pre + 1) = x" by (simp add: nth_append)
  then show ?thesis using assms Cons by (simp add: consume_length_prefix_def Let_def)
qed (use assms in \<open>simp add: consume_length_prefix_def Let_def\<close>)

lemma consume_short_list:
  assumes "unat b = 192 + n" and "n < 56"
  shows "consume_length_prefix (pre @ b # post) (length pre) = Inr (RlpList, n, length pre + 1)"
  using assms by (simp add: consume_length_prefix_def Let_def)

lemma consume_long:
  assumes "56 \<le> n" and "n < 256 ^ 8" and "unat b = (if ty = RlpStr then 183 else 247) + length (int_to_big_endian n)"
  shows "consume_length_prefix (pre @ b # int_to_big_endian n @ post) (length pre)
    = Inr (ty, n, length pre + 1 + length (int_to_big_endian n))"
  using long_length_bounds[OF assms(1,2)] long_prefix_read[OF assms(1,2) refl, of ty pre b post] assms(3)
  by (cases ty) (simp_all add: consume_length_prefix_def Let_def)

lemma rlp_short_prefix:
  "length s < 56 \<Longrightarrow> \<not> (length s = 1 \<and> hd s < 128) \<Longrightarrow> \<exists>b. rlp_prefix (StrItem s) = [b] \<and> unat b = 128 + length s"
  "length s < 56 \<Longrightarrow> \<exists>b. rlp_prefix (ListItem s) = [b] \<and> unat b = 192 + length s"
proof -
  assume s: "length s < 56"
  have u: "unat (of_nat (128 + length s) :: byte) = 128 + length s" "unat (of_nat (192 + length s) :: byte) = 192 + length s"
    using s by (intro unat_byte; simp)+
  show "\<exists>b. rlp_prefix (ListItem s) = [b] \<and> unat b = 192 + length s"
    using s u(2) by (auto simp: get_length_prefix_list_def get_length_prefix_def simp del: of_nat_add)
  show "\<exists>b. rlp_prefix (StrItem s) = [b] \<and> unat b = 128 + length s" if "\<not> (length s = 1 \<and> hd s < 128)"
    using s u(1) that by (auto simp: get_length_prefix_str_def get_length_prefix_def simp del: of_nat_add)
qed

lemma rlp_long_prefix:
  assumes "56 \<le> length s" and "length s < 256 ^ 8"
  shows "\<exists>b. rlp_prefix (item_of ty s) = b # int_to_big_endian (length s)
    \<and> unat b = (if ty = RlpStr then 183 else 247) + length (int_to_big_endian (length s))"
proof -
  let ?k = "length (int_to_big_endian (length s))"
  have k: "?k \<le> 8" by (rule long_length_bounds[OF assms])
  have "unat (of_nat (183 + ?k) :: byte) = 183 + ?k" "unat (of_nat (247 + ?k) :: byte) = 247 + ?k"
    using k by (intro unat_byte; simp)+
  then show ?thesis using assms
    by (cases ty) (auto simp: get_length_prefix_str_def get_length_prefix_list_def get_length_prefix_def Let_def simp del: of_nat_add)
qed

lemma item_of_type [simp]: "item_of (type_of i) (payload i) = i"
  by (cases i) simp_all

text \<open>The prefix of an item is read as its type, the length of its payload and where it starts.\<close>

lemma consume_enc:
  assumes "rlp_ok i"
  shows "consume_length_prefix (pre @ rlp_enc i @ post) (length pre)
    = Inr (type_of i, length (payload i), length pre + length (rlp_prefix i))"
proof (cases "length (payload i) < 56")
  case False
  then obtain b where b: "rlp_prefix i = b # int_to_big_endian (length (payload i))"
    "unat b = (if type_of i = RlpStr then 183 else 247) + length (int_to_big_endian (length (payload i)))"
    using rlp_long_prefix[of "payload i" "type_of i"] assms by (auto simp: rlp_ok_def)
  show ?thesis
    using consume_long[OF _ _ b(2), of pre "payload i @ post"] False assms by (simp add: rlp_enc_def b(1) rlp_ok_def)
next
  case short: True
  show ?thesis
  proof (cases i)
    case (ListItem s)
    then obtain b where "rlp_prefix i = [b]" "unat b = 192 + length s" using rlp_short_prefix(2)[of s] short by auto
    then show ?thesis using consume_short_list[of b "length s" pre "s @ post"] ListItem short by (simp add: rlp_enc_def)
  next
    case (StrItem s)
    show ?thesis
    proof (cases "length s = 1 \<and> hd s < 128")
      case True
      then obtain x where x: "s = [x]" "x < 128" by (cases s) auto
      then show ?thesis using StrItem by (simp add: rlp_enc_def consume_length_prefix_def byte_less_128 Let_def)
    next
      case False
      then obtain b where "rlp_prefix i = [b]" "unat b = 128 + length s" using rlp_short_prefix(1)[of s] short StrItem by auto
      then show ?thesis using consume_short_str[of b s pre post] False StrItem short by (simp add: rlp_enc_def)
    qed
  qed
qed

subsection \<open>Only what could have been written is read\<close>

lemma byte_eq: "unat (x :: byte) = unat y \<Longrightarrow> x = y"
  by (simp add: word_unat_eq_iff)

lemma long_prefix_canonical:
  assumes "long_prefix ty k (pre @ b # rest) (length pre) = Inr (ty', n, s)" and "1 \<le> k" and "k \<le> 8"
    and "s + n \<le> length (pre @ b # rest)"
  shows "ty' = ty \<and> s = length pre + 1 + k \<and> 56 \<le> n \<and> n < 256 ^ 8 \<and> take k rest = int_to_big_endian n
    \<and> length (int_to_big_endian n) = k"
proof -
  let ?l = "take k rest"
  have sl: "bslice (length pre + 1) (length pre + 1 + k) (pre @ b # rest) = ?l"
    "bslice (length pre + 1) (length pre + 2) (pre @ b # rest) = take 1 rest" by (simp_all add: bslice_def)
  have r: "take 1 rest \<noteq> [0]" "ty' = ty" "n = big_endian_to_int ?l" "56 \<le> n" "s = length pre + 1 + k"
    using assms(1) unfolding long_prefix_def sl Let_def by (auto split: if_splits)
  have len: "length ?l = k" using assms(4) r(5) by simp
  then have ne: "?l \<noteq> []" using assms(2) by auto
  then obtain x xs where x: "rest = x # xs" by (cases rest) auto
  then have hd: "hd ?l \<noteq> 0" using r(1) assms(2) by (simp add: hd_take)
  have "n < 256 ^ k" using big_endian_bounds(2)[OF ne hd] len r(3) by simp
  also have "\<dots> \<le> 256 ^ 8" using assms(3) by (intro power_increasing) simp_all
  finally show ?thesis using int_of_big_endian[OF ne hd] len r by simp
qed

lemma consume_canonical:
  assumes "consume_length_prefix rlp start = Inr (ty, n, s)" and "s + n \<le> length rlp"
  shows "\<exists>i. rlp_ok i \<and> type_of i = ty \<and> payload i = bslice s (s + n) rlp \<and> s = start + length (rlp_prefix i)
    \<and> bslice start (s + n) rlp = rlp_enc i"
proof -
  have "start < length rlp" using assms(1) by (auto simp: consume_length_prefix_def split: if_splits)
  then obtain pre b rest where rlp: "rlp = pre @ b # rest" "length pre = start"
    using id_take_nth_drop[of start rlp] by (metis length_take min.absorb4)
  have c: "consume_length_prefix (pre @ b # rest) (length pre) = Inr (ty, n, s)" using assms(1) rlp by simp
  have len: "s + n \<le> length (pre @ b # rest)" using assms(2) rlp by simp
  have long: ?thesis if l: "s = length pre + 1 + k" "56 \<le> n" "n < 256 ^ 8" "take k rest = int_to_big_endian n"
    "length (int_to_big_endian n) = k" "unat b = (if ty = RlpStr then 183 else 247) + k" for k
  proof -
    let ?p = "take n (drop k rest)"
    have n: "length ?p = n" using len l(1) by simp
    obtain b' where b': "rlp_prefix (item_of ty ?p) = b' # int_to_big_endian n" "unat b' = unat b"
      using rlp_long_prefix[of ?p ty] l(2,3,5,6) unfolding n by auto
    have "bslice start (s + n) rlp = b # take k rest @ ?p"
      unfolding rlp(1) rlp(2)[symmetric] l(1) by (simp add: bslice_def take_add)
    moreover have "payload (item_of ty ?p) = ?p" "type_of (item_of ty ?p) = ty" by (cases ty; simp)+
    moreover have "bslice s (s + n) rlp = ?p" unfolding rlp(1) l(1) by (simp add: bslice_def)
    ultimately show ?thesis using b' byte_eq[OF b'(2)] l rlp(2) n
      by (intro exI[of _ "item_of ty ?p"]) (simp add: rlp_ok_def rlp_enc_def)
  qed
  have short: ?thesis if l: "s = length pre + 1" "n < 56" "rlp_prefix (item_of ty (take n rest)) = [b]"
  proof -
    have "bslice start (s + n) rlp = b # take n rest" "bslice s (s + n) rlp = take n rest"
      unfolding rlp(1) rlp(2)[symmetric] l(1) by (simp_all add: bslice_def)
    moreover have "payload (item_of ty (take n rest)) = take n rest" "type_of (item_of ty (take n rest)) = ty" by (cases ty; simp)+
    ultimately show ?thesis using l rlp(2)
      by (intro exI[of _ "item_of ty (take n rest)"]) (simp add: rlp_ok_def rlp_enc_def)
  qed
  consider "unat b < 128" | "128 \<le> unat b" "unat b < 184" | "184 \<le> unat b" "unat b < 192" | "192 \<le> unat b" "unat b < 248" | "248 \<le> unat b"
    by linarith
  then show ?thesis
  proof cases
    case 1
    then have "ty = RlpStr" "n = 1" "s = length pre" using c by (simp_all add: consume_length_prefix_def)
    moreover have "bslice start (start + 1) rlp = [b]" unfolding rlp(1) rlp(2)[symmetric] by (simp add: bslice_def)
    ultimately show ?thesis using 1 rlp(2) by (intro exI[of _ "StrItem [b]"]) (simp add: rlp_ok_def rlp_enc_def byte_less_128)
  next
    case 2
    have r: "ty = RlpStr" "s = length pre + 1" "n = unat b - 128" "\<not> (n = 1 \<and> rest ! 0 < 128)" "n = 1 \<longrightarrow> rest \<noteq> []"
      using c 2 by (auto simp: consume_length_prefix_def Let_def nth_append split: if_splits)
    have n: "length (take n rest) = n" "n < 56" "unat b = 128 + n" using len r 2 by simp_all
    have "\<not> (length (take n rest) = 1 \<and> hd (take n rest) < 128)" using r(4,5) n(1) by (cases rest) auto
    then obtain b' where "rlp_prefix (StrItem (take n rest)) = [b']" "unat b' = unat b"
      using rlp_short_prefix(1)[of "take n rest"] n by auto
    then show ?thesis using short r(1,2) n(2) byte_eq by auto
  next
    case 3
    then have "long_prefix RlpStr (Suc (unat b - 184)) (pre @ b # rest) (length pre) = Inr (ty, n, s)"
      using c by (simp add: consume_length_prefix_def)
    from long_prefix_canonical[OF this _ _ len] show ?thesis using long[of "Suc (unat b - 184)"] 3 by simp
  next
    case 4
    have r: "ty = RlpList" "s = length pre + 1" "n = unat b - 192"
      using c 4 by (auto simp: consume_length_prefix_def Let_def)
    have n: "length (take n rest) = n" "n < 56" "unat b = 192 + n" using len r 4 by simp_all
    then obtain b' where "rlp_prefix (ListItem (take n rest)) = [b']" "unat b' = unat b"
      using rlp_short_prefix(2)[of "take n rest"] n by auto
    then show ?thesis using short r(1,2) n(2) byte_eq by auto
  next
    case 5
    then have l: "long_prefix RlpList (Suc (unat b - 248)) (pre @ b # rest) (length pre) = Inr (ty, n, s)"
      using c by (simp add: consume_length_prefix_def)
    have "unat b < 256" using unsigned_less[of b] by simp
    then show ?thesis using long_prefix_canonical[OF l _ _ len] long[of "Suc (unat b - 248)"] 5 by simp
  qed
qed

subsection \<open>Integers and lists\<close>

lemma rlp_enc_not_Nil: "rlp_enc i \<noteq> []" if "rlp_ok i"
  using consume_enc[OF that, of "[]" "[]"] by (auto simp: consume_length_prefix_def)

lemma encode_int_enc:
  assumes "length (int_to_big_endian v) < 256 ^ 8"
  shows "encode_int v = Inr (rlp_enc (StrItem (if v = 0 then [] else int_to_big_endian v)))"
  using assms by (auto simp: encode_int_def rlp_enc_def get_length_prefix_str_def get_length_prefix_def Let_def)

text \<open>
  An integer is read back from its encoding, wherever it stands in a buffer, together with the number
  of bytes it takes.
\<close>

theorem rlp_int_round_trip:
  assumes "length (int_to_big_endian v) < 256 ^ 8"
  shows "\<exists>e. encode_int v = Inr e \<and> decode_int (pre @ e @ post) (length pre) = Inr (v, length e)"
proof -
  let ?s = "if v = 0 then [] else int_to_big_endian v"
  let ?i = "StrItem ?s"
  have ok: "rlp_ok ?i" using assms by (simp add: rlp_ok_def)
  have "bslice (length pre + length (rlp_prefix ?i)) (length pre + length (rlp_prefix ?i) + length ?s) (pre @ rlp_enc ?i @ post) = ?s"
    using bslice_middle[of "pre @ rlp_prefix ?i" ?s post] by (simp add: rlp_enc_def)
  then show ?thesis
    using encode_int_enc[OF assms] consume_enc[OF ok, of pre post]
    by (auto simp: decode_int_def rlp_enc_def Let_def simp del: rlp_prefix.simps)
qed

lemma remove_prefix_enc: "remove_length_prefix (rlp_enc i) = Inr (payload i)" if "rlp_ok i"
  using consume_enc[OF that, of "[]" "[]"] by (simp add: remove_length_prefix_def rlp_enc_def)

text \<open>What \<open>get_list_items_bytes\<close> returns for a list of items: payloads from the first string on.\<close>

fun items_view :: "bool \<Rightarrow> rlp_item list \<Rightarrow> bytes list" where
  "items_view remove [] = []"
| "items_view remove (i # is) =
     (let remove' = (remove \<or> type_of i = RlpStr) in (if remove' then payload i else rlp_enc i) # items_view remove' is)"

lemma loop_reads_items:
  assumes "\<forall>i \<in> set items. rlp_ok i"
  shows "list_items_loop (pre @ concat (map rlp_enc items)) (length pre) remove = Inr (items_view remove items)"
  using assms
proof (induction items arbitrary: pre remove)
  case Nil
  then show ?case by (simp add: list_items_loop.simps)
next
  case (Cons i items)
  let ?rest = "concat (map rlp_enc items)"
  have ok: "rlp_ok i" using Cons.prems by simp
  have len: "length (rlp_enc i) = length (rlp_prefix i) + length (payload i)" by (simp add: rlp_enc_def)
  have "bslice (length pre) (length pre + length (rlp_enc i)) (pre @ rlp_enc i @ ?rest) = rlp_enc i" by (rule bslice_middle)
  moreover have "length pre < length (pre @ rlp_enc i @ ?rest)" using rlp_enc_not_Nil[OF ok] by simp
  ultimately show ?case
    using consume_enc[OF ok, of pre ?rest] remove_prefix_enc[OF ok] Cons.IH[of "pre @ rlp_enc i"] Cons.prems
    by (subst list_items_loop.simps) (simp add: len add.assoc Let_def)
qed

lemma loop_accepts_items:
  "list_items_loop b offset remove = Inr out \<Longrightarrow> offset \<le> length b \<Longrightarrow>
    \<exists>items. (\<forall>i \<in> set items. rlp_ok i) \<and> drop offset b = concat (map rlp_enc items)"
proof (induction b offset remove arbitrary: out rule: list_items_loop.induct)
  case (1 b offset remove)
  show ?case
  proof (cases "offset < length b")
    case False
    then show ?thesis using "1.prems"(2) by (intro exI[of _ "[]"]) simp
  next
    case True
    obtain ty n s where c: "consume_length_prefix b offset = Inr (ty, n, s)"
      using "1.prems"(1) True by (subst (asm) list_items_loop.simps) (auto split: sum.splits)
    obtain out' where rec: "list_items_loop b (s + n) (remove \<or> ty = RlpStr) = Inr out'"
      using "1.prems"(1) True c by (subst (asm) list_items_loop.simps) (auto simp: rbind_eq_Inr Let_def)
    have len: "s + n \<le> length b"
      using rec by (subst (asm) list_items_loop.simps) (auto split: if_splits)
    obtain i where i: "rlp_ok i" "bslice offset (s + n) b = rlp_enc i" using consume_canonical[OF c len] by blast
    obtain items where items: "\<forall>i \<in> set items. rlp_ok i" "drop (s + n) b = concat (map rlp_enc items)"
      using "1.IH"[OF True c refl refl refl] rec len by fastforce
    have "drop offset b = bslice offset (s + n) b @ drop (s + n) b"
      using append_take_drop_id[of "s + n - offset" "drop offset b"] consume_advances[OF c] by (simp add: bslice_def)
    then show ?thesis using i items by (intro exI[of _ "i # items"]) simp
  qed
qed


text \<open>
  \<open>get_list_items_bytes\<close> accepts exactly the concatenations of encoded items and returns the items in
  order: whole encodings up to the first string, payloads from there on (everywhere when prefixes are
  to be removed). The documentation does not mention the change at the first string.
\<close>

lemma list_items_sticky:
  "get_list_items_bytes b remove = Inr out
    \<longleftrightarrow> (\<exists>items. (\<forall>i \<in> set items. rlp_ok i) \<and> b = concat (map rlp_enc items) \<and> out = items_view remove items)"
proof
  assume r: "get_list_items_bytes b remove = Inr out"
  then obtain items where i: "\<forall>i \<in> set items. rlp_ok i" "b = concat (map rlp_enc items)"
    using loop_accepts_items[of b 0 remove out] by (auto simp: get_list_items_bytes_def)
  moreover have "out = items_view remove items"
    using r loop_reads_items[OF i(1), of "[]" remove] i(2) by (simp add: get_list_items_bytes_def)
  ultimately show "\<exists>items. (\<forall>i \<in> set items. rlp_ok i) \<and> b = concat (map rlp_enc items) \<and> out = items_view remove items" by blast
next
  assume "\<exists>items. (\<forall>i \<in> set items. rlp_ok i) \<and> b = concat (map rlp_enc items) \<and> out = items_view remove items"
  then show "get_list_items_bytes b remove = Inr out"
    using loop_reads_items[of _ "[]" remove] by (auto simp: get_list_items_bytes_def)
qed


lemma short_list_ok: "rlp_ok (ListItem [5])" "rlp_enc (ListItem [5]) = [193, 5]"
  by (simp add: rlp_ok_def) code_simp


theorem rlp_int_round_trip_witness:
  "\<exists>e. encode_int 1024 = Inr e \<and> decode_int ([7] @ e @ [9]) (length [7 :: byte]) = Inr (1024, length e)"
  by (rule rlp_int_round_trip) (simp add: length_int_to_big_endian bit_length.simps)

text \<open>
  Reading a prefix never yields an encoding that the writer would not produce: two items with the same
  bytes are the same item.
\<close>

lemma rlp_enc_inject: "rlp_ok i \<Longrightarrow> rlp_ok j \<Longrightarrow> rlp_enc i = rlp_enc j \<Longrightarrow> i = j"
proof -
  assume ok: "rlp_ok i" "rlp_ok j" and e: "rlp_enc i = rlp_enc j"
  have "type_of i = type_of j" using consume_enc[OF ok(1), of "[]" "[]"] consume_enc[OF ok(2), of "[]" "[]"] e by simp
  moreover have "payload i = payload j" using remove_prefix_enc[OF ok(1)] remove_prefix_enc[OF ok(2)] e by simp
  ultimately show "i = j" by (metis item_of_type)
qed

text \<open>Errors are limited to the three the code raises.\<close>

lemma list_items_errors: "list_items_loop b offset remove = Inl e \<Longrightarrow> e \<in> {ParseError, IndexError, AssertionError}"
proof (induction b offset remove rule: list_items_loop.induct)
  case (1 b offset remove)
  have c: "e' \<in> {ParseError, IndexError}" if "consume_length_prefix r s = Inl e'" for r s e'
    using that by (auto simp: consume_length_prefix_def long_prefix_def Let_def split: if_splits)
  then have m: "e' \<in> {ParseError, IndexError}" if "remove_length_prefix r = Inl e'" for r e'
    using that by (auto simp: remove_length_prefix_def rbind_def split: sum.splits)
  show ?case using "1.prems" "1.IH"
    by (subst (asm) list_items_loop.simps) (auto simp: rbind_def Let_def split: if_splits sum.splits dest: c m)
qed

end
