(* ===== verification/Encrypted_Cache.thy ===== *)
theory Encrypted_Cache
  imports Expiring_Collections Basic_Values
begin

text \<open>
  The cache of encrypted blocks, \<open>storage/encrypted_cache.py\<close> and \<open>block_encrypted_cache.py\<close>. A node sends a
  block encrypted under a fresh key and releases the key later; the receiver stores whichever of the two
  arrives first. Encryption is the third-party package PyNaCl: \<open>decrypt\<close> stands for \<open>symmetric_decrypt\<close>, \<open>None\<close>
  for the \<open>ValueError\<close> or \<open>CryptoError\<close> with which it rejects a ciphertext, and the random key, the ciphertext and
  the hash that one call of \<open>symmetric_encrypt\<close> gives are arguments of \<open>encrypt_and_add_payload\<close>.
\<close>

subsection \<open>Cache and operations\<close>

record EncryptionCacheItem =
  item_key :: "bytes option"
  item_ciphertext :: "bytes option"
  item_payload :: "bytes option"

definition EncryptionCacheItem_decrypt ::
    "(bytes \<Rightarrow> bytes \<Rightarrow> bytes option) \<Rightarrow> EncryptionCacheItem \<Rightarrow> bytes result \<times> EncryptionCacheItem" where
  "EncryptionCacheItem_decrypt decrypt i =
     (case (item_key i, item_ciphertext i) of
        (Some k, Some c) \<Rightarrow> (case decrypt k c of
             Some p \<Rightarrow> (Inr p, i\<lparr>item_payload := Some p\<rparr>)
           | None \<Rightarrow> (Inl DecryptionError, i))
      | _ \<Rightarrow> (Inl DecryptionError, i))"

record EncryptedCache =
  enc_cache :: "(bytes \<times> EncryptionCacheItem) list"
  enc_expiration_queue :: "bytes ExpirationQueue"
  enc_expiration_time_s :: time

definition EncryptedCache_init :: "time \<Rightarrow> EncryptedCache result" where
  "EncryptedCache_init expiration_time_s =
     rbind (ExpirationQueue_init expiration_time_s) (\<lambda>q.
       Inr \<lparr>enc_cache = [], enc_expiration_queue = q, enc_expiration_time_s = expiration_time_s\<rparr>)"

definition EncryptedCache_add ::
    "('f, 'b, 'w) environment \<Rightarrow> 'f \<Rightarrow> 'b \<Rightarrow> bytes \<Rightarrow> EncryptionCacheItem \<Rightarrow> 'w \<Rightarrow> EncryptedCache \<Rightarrow> ('f, 'b) AlarmQueue
     \<Rightarrow> unit result \<times> EncryptedCache \<times> 'w \<times> ('f, 'b) AlarmQueue" where
  "EncryptedCache_add env cleanup no_args hash_key item w s q =
     (let s' = s\<lparr>enc_cache := AList.update hash_key item (enc_cache s),
                 enc_expiration_queue := ExpirationQueue_add (clock env w) hash_key (enc_expiration_queue s)\<rparr>
      in case AlarmQueue_register_approx_alarm env (enc_expiration_time_s s * 2) (enc_expiration_time_s s)
                (Callable cleanup) no_args w q of (r, w', q') \<Rightarrow> (r, s', w', q'))"

text \<open>The call of \<open>symmetric_encrypt\<close> gave \<open>key\<close> and \<open>ciphertext\<close>, and \<open>double_sha256\<close> of the ciphertext is \<open>hash_key\<close>.\<close>

definition EncryptedCache_encrypt_and_add_payload ::
    "('f, 'b, 'w) environment \<Rightarrow> 'f \<Rightarrow> 'b \<Rightarrow> bytes \<times> bytes \<Rightarrow> (bytes \<Rightarrow> bytes) \<Rightarrow> bytes \<Rightarrow> 'w \<Rightarrow> EncryptedCache \<Rightarrow> ('f, 'b) AlarmQueue
     \<Rightarrow> (bytes \<times> bytes) result \<times> EncryptedCache \<times> 'w \<times> ('f, 'b) AlarmQueue" where
  "EncryptedCache_encrypt_and_add_payload env cleanup no_args encrypted double_sha256 p w s q =
     (let (key, ciphertext) = encrypted; hash_key = double_sha256 ciphertext
      in case EncryptedCache_add env cleanup no_args hash_key
                \<lparr>item_key = Some key, item_ciphertext = Some ciphertext, item_payload = Some p\<rparr> w s q of
           (r, s', w', q') \<Rightarrow> (rbind r (\<lambda>_. Inr (ciphertext, hash_key)), s', w', q'))"

definition update_item :: "bytes \<Rightarrow> (EncryptionCacheItem \<Rightarrow> EncryptionCacheItem) \<Rightarrow> EncryptedCache \<Rightarrow> EncryptedCache" where
  "update_item hash_key f s = s\<lparr>enc_cache := AList.map_entry hash_key f (enc_cache s)\<rparr>"

definition EncryptedCache_add_ciphertext ::
    "('f, 'b, 'w) environment \<Rightarrow> 'f \<Rightarrow> 'b \<Rightarrow> bytes \<Rightarrow> bytes \<Rightarrow> 'w \<Rightarrow> EncryptedCache \<Rightarrow> ('f, 'b) AlarmQueue
     \<Rightarrow> unit result \<times> EncryptedCache \<times> 'w \<times> ('f, 'b) AlarmQueue" where
  "EncryptedCache_add_ciphertext env cleanup no_args hash_key ciphertext w s q =
     (if map_of (enc_cache s) hash_key \<noteq> None
      then (Inr (), update_item hash_key (\<lambda>i. i\<lparr>item_ciphertext := Some ciphertext\<rparr>) s, w, q)
      else EncryptedCache_add env cleanup no_args hash_key
             \<lparr>item_key = None, item_ciphertext = Some ciphertext, item_payload = None\<rparr> w s q)"

definition EncryptedCache_add_key ::
    "('f, 'b, 'w) environment \<Rightarrow> 'f \<Rightarrow> 'b \<Rightarrow> bytes \<Rightarrow> bytes \<Rightarrow> 'w \<Rightarrow> EncryptedCache \<Rightarrow> ('f, 'b) AlarmQueue
     \<Rightarrow> unit result \<times> EncryptedCache \<times> 'w \<times> ('f, 'b) AlarmQueue" where
  "EncryptedCache_add_key env cleanup no_args hash_key encryption_key w s q =
     (if map_of (enc_cache s) hash_key \<noteq> None
      then (Inr (), update_item hash_key (\<lambda>i. i\<lparr>item_key := Some encryption_key\<rparr>) s, w, q)
      else EncryptedCache_add env cleanup no_args hash_key
             \<lparr>item_key = Some encryption_key, item_ciphertext = None, item_payload = None\<rparr> w s q)"

definition EncryptedCache_pop_ciphertext :: "bytes \<Rightarrow> EncryptedCache \<Rightarrow> (bytes option \<times> EncryptedCache) result" where
  "EncryptedCache_pop_ciphertext hash_key s =
     (case map_of (enc_cache s) hash_key of
        None \<Rightarrow> Inl KeyError
      | Some i \<Rightarrow> Inr (item_ciphertext i, s\<lparr>enc_cache := AList.delete hash_key (enc_cache s)\<rparr>))"

text \<open>
  \<open>_safe_decrypt_item\<close>: the object \<open>cache_item\<close> is the entry of the cache. The log line after a failure slices
  the popped ciphertext, which raises when there is none.
\<close>

definition EncryptedCache_safe_decrypt_item ::
    "(bytes \<Rightarrow> bytes \<Rightarrow> bytes option) \<Rightarrow> EncryptionCacheItem \<Rightarrow> bytes \<Rightarrow> EncryptedCache \<Rightarrow> bytes option result \<times> EncryptedCache" where
  "EncryptedCache_safe_decrypt_item decrypt cache_item hash_key s =
     (case EncryptionCacheItem_decrypt decrypt cache_item of
        (Inr p, i) \<Rightarrow> (Inr (Some p), update_item hash_key (\<lambda>_. i) s)
      | (Inl e, _) \<Rightarrow>
          if e = DecryptionError
          then (case EncryptedCache_pop_ciphertext hash_key s of
                  Inl e \<Rightarrow> (Inl e, s)
                | Inr (failed_ciphertext, s') \<Rightarrow> (if failed_ciphertext = None then Inl TypeError else Inr None, s'))
          else (Inl e, s))"

definition EncryptedCache_decrypt_and_get_payload ::
    "(bytes \<Rightarrow> bytes \<Rightarrow> bytes option) \<Rightarrow> bytes \<Rightarrow> bytes \<Rightarrow> EncryptedCache \<Rightarrow> bytes option result \<times> EncryptedCache" where
  "EncryptedCache_decrypt_and_get_payload decrypt hash_key encryption_key s =
     (case map_of (enc_cache s) hash_key of
        None \<Rightarrow> (Inl KeyError, s)
      | Some i \<Rightarrow> let i' = i\<lparr>item_key := Some encryption_key\<rparr>
                 in EncryptedCache_safe_decrypt_item decrypt i' hash_key (update_item hash_key (\<lambda>_. i') s))"

definition EncryptedCache_decrypt_ciphertext ::
    "(bytes \<Rightarrow> bytes \<Rightarrow> bytes option) \<Rightarrow> bytes \<Rightarrow> bytes \<Rightarrow> EncryptedCache \<Rightarrow> bytes option result \<times> EncryptedCache" where
  "EncryptedCache_decrypt_ciphertext decrypt hash_key ciphertext s =
     (case map_of (enc_cache s) hash_key of
        None \<Rightarrow> (Inl KeyError, s)
      | Some i \<Rightarrow> let i' = i\<lparr>item_ciphertext := Some ciphertext\<rparr>
                 in EncryptedCache_safe_decrypt_item decrypt i' hash_key (update_item hash_key (\<lambda>_. i') s))"

definition EncryptedCache_get_encryption_key :: "bytes \<Rightarrow> EncryptedCache \<Rightarrow> bytes option result" where
  "EncryptedCache_get_encryption_key hash_key s =
     (case map_of (enc_cache s) hash_key of None \<Rightarrow> Inl KeyError | Some i \<Rightarrow> Inr (item_key i))"

definition EncryptedCache_has_encryption_key_for_hash :: "bytes \<Rightarrow> EncryptedCache \<Rightarrow> bool" where
  "EncryptedCache_has_encryption_key_for_hash hash_key s \<longleftrightarrow>
     (case map_of (enc_cache s) hash_key of None \<Rightarrow> False | Some i \<Rightarrow> item_key i \<noteq> None)"

definition EncryptedCache_has_ciphertext_for_hash :: "bytes \<Rightarrow> EncryptedCache \<Rightarrow> bool" where
  "EncryptedCache_has_ciphertext_for_hash hash_key s \<longleftrightarrow>
     (case map_of (enc_cache s) hash_key of None \<Rightarrow> False | Some i \<Rightarrow> item_ciphertext i \<noteq> None)"

definition EncryptedCache_hash_keys :: "EncryptedCache \<Rightarrow> bytes list" where
  "EncryptedCache_hash_keys s = map fst (enc_cache s)"

definition EncryptedCache_encryption_items :: "EncryptedCache \<Rightarrow> EncryptionCacheItem list" where
  "EncryptedCache_encryption_items s = map snd (enc_cache s)"

definition EncryptedCache_len :: "EncryptedCache \<Rightarrow> nat" where
  "EncryptedCache_len s = length (enc_cache s)"

definition EncryptedCache_remove_item :: "bytes \<Rightarrow> EncryptedCache \<Rightarrow> EncryptedCache" where
  "EncryptedCache_remove_item hash_key s =
     (if map_of (enc_cache s) hash_key \<noteq> None then s\<lparr>enc_cache := AList.delete hash_key (enc_cache s)\<rparr> else s)"

definition EncryptedCache_cleanup_old_cache_items :: "time \<Rightarrow> EncryptedCache \<Rightarrow> EncryptedCache result" where
  "EncryptedCache_cleanup_old_cache_items now s =
     rbind (ExpirationQueue_remove_expired enc_expiration_queue (\<lambda>q s. s\<lparr>enc_expiration_queue := q\<rparr>)
              (\<lambda>k s. Inr (EncryptedCache_remove_item k s)) now None None s)
       (\<lambda>(_, s'). Inr s')"

subsection \<open>The block cache\<close>

text \<open>Arguments of the block cache: a hash object, a memory view or bytes; \<open>tobytes\<close> exists on memory views only.\<close>

datatype hash_arg = HashObject object_hash | MemoryView bytes | PlainBytes bytes

primrec message_hash_to_hash_key :: "hash_arg \<Rightarrow> bytes" where
  "message_hash_to_hash_key (HashObject h) = binary h"
| "message_hash_to_hash_key (MemoryView b) = b"
| "message_hash_to_hash_key (PlainBytes b) = b"

primrec message_blob_to_ciphertext :: "hash_arg \<Rightarrow> bytes result" where
  "message_blob_to_ciphertext (HashObject h) = Inl AttributeErr"
| "message_blob_to_ciphertext (MemoryView b) = Inr b"
| "message_blob_to_ciphertext (PlainBytes b) = Inl AttributeErr"

definition BLOCK_CACHE_TIMEOUT_S :: time where "BLOCK_CACHE_TIMEOUT_S = 60 * 60"

definition BlockEncryptedCache_init :: "EncryptedCache result" where
  "BlockEncryptedCache_init = EncryptedCache_init BLOCK_CACHE_TIMEOUT_S"

definition BlockEncryptedCache_decrypt_ciphertext ::
    "(bytes \<Rightarrow> bytes \<Rightarrow> bytes option) \<Rightarrow> hash_arg \<Rightarrow> hash_arg \<Rightarrow> EncryptedCache \<Rightarrow> bytes option result \<times> EncryptedCache" where
  "BlockEncryptedCache_decrypt_ciphertext decrypt hash_key ciphertext s =
     (case message_blob_to_ciphertext ciphertext of
        Inl e \<Rightarrow> (Inl e, s)
      | Inr c \<Rightarrow> EncryptedCache_decrypt_ciphertext decrypt (message_hash_to_hash_key hash_key) c s)"

definition BlockEncryptedCache_decrypt_and_get_payload ::
    "(bytes \<Rightarrow> bytes \<Rightarrow> bytes option) \<Rightarrow> hash_arg \<Rightarrow> hash_arg \<Rightarrow> EncryptedCache \<Rightarrow> bytes option result \<times> EncryptedCache" where
  "BlockEncryptedCache_decrypt_and_get_payload decrypt hash_key encryption_key s =
     (case message_blob_to_ciphertext encryption_key of
        Inl e \<Rightarrow> (Inl e, s)
      | Inr k \<Rightarrow> EncryptedCache_decrypt_and_get_payload decrypt (message_hash_to_hash_key hash_key) k s)"

definition BlockEncryptedCache_has_encryption_key_for_hash :: "hash_arg \<Rightarrow> EncryptedCache \<Rightarrow> bool" where
  "BlockEncryptedCache_has_encryption_key_for_hash hash_key =
     EncryptedCache_has_encryption_key_for_hash (message_hash_to_hash_key hash_key)"

definition BlockEncryptedCache_has_ciphertext_for_hash :: "hash_arg \<Rightarrow> EncryptedCache \<Rightarrow> bool" where
  "BlockEncryptedCache_has_ciphertext_for_hash hash_key =
     EncryptedCache_has_ciphertext_for_hash (message_hash_to_hash_key hash_key)"

definition BlockEncryptedCache_add_ciphertext ::
    "('f, 'b, 'w) environment \<Rightarrow> 'f \<Rightarrow> 'b \<Rightarrow> hash_arg \<Rightarrow> hash_arg \<Rightarrow> 'w \<Rightarrow> EncryptedCache \<Rightarrow> ('f, 'b) AlarmQueue
     \<Rightarrow> unit result \<times> EncryptedCache \<times> 'w \<times> ('f, 'b) AlarmQueue" where
  "BlockEncryptedCache_add_ciphertext env cleanup no_args hash_key ciphertext w s q =
     (case message_blob_to_ciphertext ciphertext of
        Inl e \<Rightarrow> (Inl e, s, w, q)
      | Inr c \<Rightarrow> EncryptedCache_add_ciphertext env cleanup no_args (message_hash_to_hash_key hash_key) c w s q)"

definition BlockEncryptedCache_add_key ::
    "('f, 'b, 'w) environment \<Rightarrow> 'f \<Rightarrow> 'b \<Rightarrow> hash_arg \<Rightarrow> hash_arg \<Rightarrow> 'w \<Rightarrow> EncryptedCache \<Rightarrow> ('f, 'b) AlarmQueue
     \<Rightarrow> unit result \<times> EncryptedCache \<times> 'w \<times> ('f, 'b) AlarmQueue" where
  "BlockEncryptedCache_add_key env cleanup no_args hash_key encryption_key w s q =
     (case message_blob_to_ciphertext encryption_key of
        Inl e \<Rightarrow> (Inl e, s, w, q)
      | Inr k \<Rightarrow> EncryptedCache_add_key env cleanup no_args (message_hash_to_hash_key hash_key) k w s q)"

definition BlockEncryptedCache_pop_ciphertext :: "hash_arg \<Rightarrow> EncryptedCache \<Rightarrow> (bytes option \<times> EncryptedCache) result" where
  "BlockEncryptedCache_pop_ciphertext hash_key = EncryptedCache_pop_ciphertext (message_hash_to_hash_key hash_key)"

definition BlockEncryptedCache_remove_item :: "hash_arg \<Rightarrow> EncryptedCache \<Rightarrow> EncryptedCache" where
  "BlockEncryptedCache_remove_item hash_key = EncryptedCache_remove_item (message_hash_to_hash_key hash_key)"

subsection \<open>Invariant\<close>

text \<open>Every entry is watched by the expiration queue, so it is dropped in the end.\<close>

definition ec_inv :: "EncryptedCache \<Rightarrow> bool" where
  "ec_inv s \<longleftrightarrow> eq_wf (enc_expiration_queue s) \<and> distinct (map fst (enc_cache s))
     \<and> fst ` set (enc_cache s) \<subseteq> fst ` set (queue (enc_expiration_queue s))"

definition ec_lookup :: "EncryptedCache \<Rightarrow> bytes \<Rightarrow> EncryptionCacheItem option" where
  "ec_lookup s = map_of (enc_cache s)"

lemma map_of_map_entry: "map_of (AList.map_entry k f xs) = (\<lambda>k'. if k' = k then map_option f (map_of xs k) else map_of xs k')"
  by (induction k f xs rule: AList.map_entry.induct) (auto simp: fun_eq_iff)

lemma keys_map_entry: "map fst (AList.map_entry k f xs) = map fst xs"
  by (induction k f xs rule: AList.map_entry.induct) auto

lemma update_item_simps [simp]:
  "ec_lookup (update_item k f s) = (\<lambda>k'. if k' = k then map_option f (ec_lookup s k) else ec_lookup s k')"
  "ec_inv (update_item k f s) = ec_inv s" "enc_expiration_queue (update_item k f s) = enc_expiration_queue s"
  by (simp_all add: update_item_def ec_lookup_def map_of_map_entry ec_inv_def keys_map_entry cong: if_cong flip: set_map)

lemma ec_lookup_add [simp]:
  "ec_lookup (fst (snd (EncryptedCache_add env cl na k i w s q))) = (ec_lookup s)(k \<mapsto> i)"
  by (simp add: EncryptedCache_add_def ec_lookup_def update_conv' split: prod.split)

lemma ec_inv_add [simp]: "ec_inv s \<Longrightarrow> ec_inv (fst (snd (EncryptedCache_add env cl na k i w s q)))"
  by (auto simp: EncryptedCache_add_def ec_inv_def eq_wf_def distinct_update keys_update split: prod.split)

lemma ec_remove [simp]:
  "ec_lookup (EncryptedCache_remove_item k s) = (ec_lookup s)(k := None)"
  "ec_inv s \<Longrightarrow> ec_inv (EncryptedCache_remove_item k s)"
  "enc_expiration_queue (EncryptedCache_remove_item k s) = enc_expiration_queue s"
  by (auto simp: EncryptedCache_remove_item_def ec_lookup_def ec_inv_def delete_conv' keys_delete fun_upd_idem_iff
      distinct_delete intro!: ext)

lemma encrypt_adds:
  "fst (snd (EncryptedCache_encrypt_and_add_payload env cl na (key, c) ds p w s q))
     = fst (snd (EncryptedCache_add env cl na (ds c) \<lparr>item_key = Some key, item_ciphertext = Some c, item_payload = Some p\<rparr> w s q))"
  by (simp add: EncryptedCache_encrypt_and_add_payload_def Let_def split: prod.split)

interpretation encrypted_cache: quiet_owner enc_expiration_queue "\<lambda>q s. s\<lparr>enc_expiration_queue := q\<rparr>"
    "\<lambda>k s. Inr (EncryptedCache_remove_item k s)" ec_inv ec_lookup "\<lambda>k m. m(k := None)"
  by unfold_locales (auto simp: ec_inv_def eq_wf_def EncryptedCache_remove_item_def ec_lookup_def keys_delete distinct_delete
      delete_conv' map_of_eq_None_iff fun_upd_idem_iff intro!: ext)

subsection \<open>Properties\<close>

text \<open>
  C21. A block reaches the payload at its receiver in either order of arrival: stored ciphertext and then
  the key, or stored key and then the ciphertext, whatever else the cache holds; the sender keeps the
  key to release. \<open>decrypt\<close> must undo the encryption, as the encryption library documents.
\<close>

theorem encrypted_block_round_trip:
  assumes "decrypt key ciphertext = Some p" and "h = double_sha256 ciphertext"
  shows "(\<exists>s2. EncryptedCache_decrypt_and_get_payload decrypt h key
          (fst (snd (EncryptedCache_add_ciphertext env cl na h ciphertext w s q))) = (Inr (Some p), s2)
        \<and> EncryptedCache_get_encryption_key h s2 = Inr (Some key))
    \<and> (\<exists>s2. EncryptedCache_decrypt_ciphertext decrypt h ciphertext
          (fst (snd (EncryptedCache_add_key env cl na h key w s q))) = (Inr (Some p), s2)
        \<and> EncryptedCache_has_ciphertext_for_hash h s2)
    \<and> EncryptedCache_get_encryption_key h
        (fst (snd (EncryptedCache_encrypt_and_add_payload env cl na (key, ciphertext) double_sha256 p w s q))) = Inr (Some key)"
proof -
  let ?c = "fst (snd (EncryptedCache_add_ciphertext env cl na h ciphertext w s q))"
  let ?k = "fst (snd (EncryptedCache_add_key env cl na h key w s q))"
  have c: "\<exists>i. ec_lookup ?c h = Some i \<and> item_ciphertext i = Some ciphertext"
    by (auto simp: EncryptedCache_add_ciphertext_def ec_lookup_def[symmetric])
  have k: "\<exists>i. ec_lookup ?k h = Some i \<and> item_key i = Some key"
    by (auto simp: EncryptedCache_add_key_def ec_lookup_def[symmetric])
  have "ec_lookup (fst (snd (EncryptedCache_encrypt_and_add_payload env cl na (key, ciphertext) double_sha256 p w s q))) h
    = Some \<lparr>item_key = Some key, item_ciphertext = Some ciphertext, item_payload = Some p\<rparr>"
    by (simp add: encrypt_adds assms(2))
  then show ?thesis using c k assms(1)
    by (auto simp: EncryptedCache_decrypt_and_get_payload_def EncryptedCache_decrypt_ciphertext_def EncryptedCache_safe_decrypt_item_def
        EncryptionCacheItem_decrypt_def EncryptedCache_get_encryption_key_def EncryptedCache_has_ciphertext_for_hash_def
        ec_lookup_def[symmetric] Let_def)
qed

theorem encrypted_block_round_trip_witness:
  "\<exists>s2. EncryptedCache_decrypt_and_get_payload (\<lambda>k c. if c = k @ [9] then Some [9] else None) [3] [1, 2]
     (fst (snd (EncryptedCache_add_ciphertext timer_env ''cleanup'' () [3] [1, 2, 9] 0
        \<lparr>enc_cache = [], enc_expiration_queue = \<lparr>time_to_live_sec = 5, queue = []\<rparr>, enc_expiration_time_s = 5\<rparr> AlarmQueue_init)))
    = (Inr (Some [9]), s2)"
  using encrypted_block_round_trip[of "\<lambda>k c. if c = k @ [9] then Some [9] else None" "[1, 2]" "[1, 2, 9]" "[9]" "[3]" "\<lambda>_. [3]"
      timer_env "''cleanup''" "()" 0
      "\<lparr>enc_cache = [], enc_expiration_queue = \<lparr>time_to_live_sec = 5, queue = []\<rparr>, enc_expiration_time_s = 5\<rparr>" AlarmQueue_init]
  by auto

lemma ec_drop: "ec_lookup (t\<lparr>enc_cache := AList.delete h (enc_cache t)\<rparr>) = (ec_lookup t)(h := None)"
  by (simp add: ec_lookup_def)

lemmas decrypt_defs = EncryptedCache_decrypt_and_get_payload_def EncryptedCache_decrypt_ciphertext_def EncryptedCache_safe_decrypt_item_def
  EncryptedCache_pop_ciphertext_def EncryptionCacheItem_decrypt_def

text \<open>
  C22. A key that does not open the stored ciphertext, and a ciphertext that the stored key does not open or
  for which there is no key, give no payload and drop the entry and nothing else.
\<close>

theorem failed_decryption:
  assumes "ec_lookup s h = Some i"
  shows "(item_ciphertext i = Some c \<and> decrypt key c = None \<longrightarrow>
        (\<exists>s'. EncryptedCache_decrypt_and_get_payload decrypt h key s = (Inr None, s') \<and> ec_lookup s' = (ec_lookup s)(h := None)))
    \<and> (item_key i = None \<or> item_key i = Some k \<and> decrypt k ciphertext = None \<longrightarrow>
        (\<exists>s'. EncryptedCache_decrypt_ciphertext decrypt h ciphertext s = (Inr None, s') \<and> ec_lookup s' = (ec_lookup s)(h := None)))"
  using assms by (auto simp: decrypt_defs ec_lookup_def[symmetric] ec_drop fun_eq_iff Let_def)

theorem failed_decryption_witness:
  "\<exists>s'. EncryptedCache_decrypt_and_get_payload (\<lambda>_ _. None) [3] [1]
      \<lparr>enc_cache = [([3], \<lparr>item_key = None, item_ciphertext = Some [9], item_payload = None\<rparr>)],
        enc_expiration_queue = \<lparr>time_to_live_sec = 5, queue = [([3], 0)]\<rparr>, enc_expiration_time_s = 5\<rparr> = (Inr None, s')
    \<and> ec_lookup s' [3] = None"
proof -
  let ?s = "\<lparr>enc_cache = [([3], \<lparr>item_key = None, item_ciphertext = Some [9], item_payload = None\<rparr>)],
        enc_expiration_queue = \<lparr>time_to_live_sec = 5, queue = [([3], 0)]\<rparr>, enc_expiration_time_s = 5\<rparr>"
  have "ec_lookup ?s [3] = Some \<lparr>item_key = None, item_ciphertext = Some [9], item_payload = None\<rparr>" by (simp add: ec_lookup_def)
  from failed_decryption[OF this, THEN conjunct1, of "[9]" "\<lambda>_ _. None" "[1]"] show ?thesis
    by (elim impE exE conjE) (simp, intro exI conjI, assumption, simp)
qed

text \<open>
  A key for an entry without ciphertext raises \<open>TypeError\<close> instead of returning no payload, because the log
  line slices the missing ciphertext. The documentation promises \<open>None\<close>.
\<close>

lemma missing_ciphertext_raises:
  assumes "ec_lookup s h = Some i" and "item_ciphertext i = None"
  shows "\<exists>s'. EncryptedCache_decrypt_and_get_payload decrypt h key s = (Inl TypeError, s') \<and> ec_lookup s' = (ec_lookup s)(h := None)"
  using assms by (auto simp: decrypt_defs ec_lookup_def[symmetric] ec_drop fun_eq_iff Let_def)

text \<open>Every operation keeps each entry watched by the expiration queue.\<close>

lemma ec_inv_ops:
  assumes "ec_inv s"
  shows "ec_inv (fst (snd (EncryptedCache_add_ciphertext env cl na h c w s q)))"
    and "ec_inv (fst (snd (EncryptedCache_add_key env cl na h c w s q)))"
    and "ec_inv (fst (snd (EncryptedCache_encrypt_and_add_payload env cl na kc ds p w s q)))"
    and "ec_inv (snd (EncryptedCache_decrypt_and_get_payload decrypt h c s))"
    and "ec_inv (snd (EncryptedCache_decrypt_ciphertext decrypt h c s))"
    and "EncryptedCache_pop_ciphertext h s = Inr (r, s') \<Longrightarrow> ec_inv s'"
proof -
  show "ec_inv (fst (snd (EncryptedCache_add_ciphertext env cl na h c w s q)))"
    "ec_inv (fst (snd (EncryptedCache_add_key env cl na h c w s q)))"
    using assms by (simp_all add: EncryptedCache_add_ciphertext_def EncryptedCache_add_key_def)
  show "ec_inv (fst (snd (EncryptedCache_encrypt_and_add_payload env cl na kc ds p w s q)))"
    using assms by (cases kc) (simp add: encrypt_adds)
  have pop: "ec_inv t'" if "EncryptedCache_pop_ciphertext h t = Inr (r, t')" "ec_inv t" for r t t'
  proof -
    have "t' = EncryptedCache_remove_item h t"
      using that(1) by (auto simp: EncryptedCache_pop_ciphertext_def EncryptedCache_remove_item_def split: option.splits)
    then show ?thesis using ec_remove(2)[OF that(2)] by simp
  qed
  then show "EncryptedCache_pop_ciphertext h s = Inr (r, s') \<Longrightarrow> ec_inv s'" using assms by blast
  have "ec_inv (snd (EncryptedCache_safe_decrypt_item decrypt i h t))" if "ec_inv t" for i t
    using that pop[OF _ that] by (auto simp: EncryptedCache_safe_decrypt_item_def split: prod.split sum.split)
  then show "ec_inv (snd (EncryptedCache_decrypt_and_get_payload decrypt h c s))"
    "ec_inv (snd (EncryptedCache_decrypt_ciphertext decrypt h c s))"
    using assms by (auto simp: EncryptedCache_decrypt_and_get_payload_def EncryptedCache_decrypt_ciphertext_def Let_def split: option.split)
qed

text \<open>
  The clean-up drops exactly the entries added longer ago than the expiration time when the queue is in
  time order, keeps the others as they are, and keeps every entry watched.
\<close>

theorem encrypted_cache_cleanup_exact:
  assumes "ec_inv s" and "eq_in_time_order (enc_expiration_queue s)"
  shows "\<exists>s'. EncryptedCache_cleanup_old_cache_items now s = Inr s' \<and> ec_inv s'
    \<and> ec_lookup s' = (\<lambda>h. case map_of (queue (enc_expiration_queue s)) h of
          None \<Rightarrow> None
        | Some t \<Rightarrow> if now - t > time_to_live_sec (enc_expiration_queue s) then None else ec_lookup s h)"
proof -
  let ?q = "enc_expiration_queue s"
  let ?expired = "filter (eq_expired now ?q) (queue ?q)"
  have "takeWhile (eq_expired now ?q) (queue ?q) = ?expired"
    using assms(2) by (intro sorted_takeWhile_eq_filter[where f = snd, THEN conjunct1])
      (auto simp: eq_in_time_order_def eq_expired_def)
  then obtain s' where s': "EncryptedCache_cleanup_old_cache_items now s = Inr s'" "ec_inv s'"
    "ec_lookup s' = (\<lambda>k. if k \<in> set (map fst ?expired) then None else ec_lookup s k)"
    using encrypted_cache.remove_expired_quiet[OF assms(1), of now]
    by (auto simp: EncryptedCache_cleanup_old_cache_items_def fold_forget)
  have wf: "distinct (map fst (queue ?q))" using assms(1) by (simp add: ec_inv_def eq_wf_def)
  have key: "k \<in> set (map fst ?expired) \<longleftrightarrow> (\<exists>t. map_of (queue ?q) k = Some t \<and> now - t > time_to_live_sec ?q)" for k
    using wf by (force simp: eq_expired_def)
  have absent: "ec_lookup s k = None" if "map_of (queue ?q) k = None" for k
    using that assms(1) by (auto simp: ec_lookup_def ec_inv_def map_of_eq_None_iff)
  have "ec_lookup s' h = (case map_of (queue ?q) h of None \<Rightarrow> None
      | Some t \<Rightarrow> if now - t > time_to_live_sec ?q then None else ec_lookup s h)" for h
    using s'(3) key[of h] absent[of h] by (auto split: option.splits)
  with s' show ?thesis by blast
qed

theorem encrypted_cache_cleanup_exact_witness:
  "\<exists>s'. EncryptedCache_cleanup_old_cache_items 20
      \<lparr>enc_cache = [([3], \<lparr>item_key = Some [1], item_ciphertext = None, item_payload = None\<rparr>)],
        enc_expiration_queue = \<lparr>time_to_live_sec = 5, queue = [([3], 0)]\<rparr>, enc_expiration_time_s = 5\<rparr> = Inr s' \<and> ec_lookup s' [3] = None"
  using encrypted_cache_cleanup_exact[of "\<lparr>enc_cache = [([3], \<lparr>item_key = Some [1], item_ciphertext = None, item_payload = None\<rparr>)],
        enc_expiration_queue = \<lparr>time_to_live_sec = 5, queue = [([3], 0)]\<rparr>, enc_expiration_time_s = 5\<rparr>" 20]
  by (auto simp: ec_inv_def eq_wf_def eq_in_time_order_def)

end
