(* ===== verification/Sync_Messages.thy ===== *)
theory Sync_Messages
  imports Versioned_Messages
begin

text \<open>
  The messages by which nodes exchange transactions outside of a broadcast, under \<open>messages/bloxroute\<close>:
  requests for transactions by short id and their answers (\<open>get_txs_message.py\<close>, \<open>txs_message.py\<close>,
  \<open>get_tx_contents_message.py\<close>, \<open>tx_contents_message.py\<close>, \<open>get_compressed_block_txs_message.py\<close>,
  \<open>compressed_block_txs_message.py\<close>), the messages of the synchronization of transaction services
  (\<open>tx_service_sync_req_message.py\<close>, \<open>tx_service_sync_complete_message.py\<close>,
  \<open>tx_service_sync_txs_message.py\<close> with its classes and converters of versions 15 and 6,
  \<open>tx_service_sync_blocks_short_ids_message.py\<close>), and \<open>block_hash_message.py\<close>, \<open>block_holding_message.py\<close>.

  A class is a record that extends \<open>message\<close> by the attributes its accessors cache.
\<close>

subsection \<open>Writing and reading payloads\<close>

text \<open>
  The constructors write a payload into a zero buffer behind the header, leave a control byte and
  let \<open>AbstractBloxrouteMessage.__init__\<close> write the header.
\<close>

definition finish_message :: "bytes \<Rightarrow> 'a message_scheme \<Rightarrow> bytes \<Rightarrow> 'a message_scheme result" where
  "finish_message msg_type m b = AbstractBloxrouteMessage_init msg_type (length b - HEADER_LENGTH) (m\<lparr>msg_buf := b\<rparr>)"

definition payload_object :: "bytes \<Rightarrow> bytes \<Rightarrow> 'a message_scheme \<Rightarrow> 'a message_scheme" where
  "payload_object ty e m = m\<lparr>msg_buf := frame ty (e @ [1]), msg_type_field := Some ty, payload_len_field := Some (length e + 1),
     payload_field := None, msg_priority := False\<rparr>"

lemma finish_payload:
  assumes "length h = 20" and "length e + 1 < 256 ^ 4" and "c = 0 \<or> c = 1"
  shows "finish_message ty m (h @ e @ [c]) = Inr (payload_object ty e m)"
proof -
  have "mark_valid (e @ [c]) = e @ [1]" using assms(3) by (auto simp: mark_valid_def butlast_append)
  then show ?thesis
    using assms init_frame[of "m\<lparr>msg_buf := h @ e @ [c]\<rparr>" h "e @ [c]" "length e + 1" ty]
    by (simp add: finish_message_def payload_object_def frame_def)
qed

lemma write_payload:
  assumes "writes p e"
  shows "p (replicate (20 + length e + 1) 0) 20 = Inr (replicate 20 0 @ e @ [0], 20 + length e)"
proof -
  have z: "replicate (20 + length e + 1) 0 = replicate 20 0 @ replicate (length e) 0 @ replicate 1 (0 :: byte)"
    by (simp only: replicate_add append_assoc)
  show ?thesis
    using assms bput_at_end[of e "replicate (length e) 0" "replicate 20 0" "[0]"] unfolding z writes_def by simp
qed

lemma read_payload:
  assumes "reads g e x"
  shows "g (frame ty (e @ post)) 20 = Inr (x, 20 + length e)"
proof -
  let ?h = "STARTING_SEQUENCE_BYTES @ pad_to 12 ty @ le_bytes 4 (length (e @ post))"
  have "g (?h @ e @ post) (length ?h) = Inr (x, length ?h + length e)" using assms unfolding reads_def by blast
  then show ?thesis by (simp add: frame_def)
qed

subsection \<open>Requests for transactions\<close>

record get_txs_message = message +
  gt_short_ids :: "nat list option"

definition get_txs_blank :: "bytes \<Rightarrow> get_txs_message" where
  "get_txs_blank b =
     \<lparr>msg_buf = b, msg_type_field = None, payload_len_field = None, payload_field = None, msg_priority = False, gt_short_ids = None\<rparr>"

definition GetTxsMessage_short_ids_to_bytes :: "nat list \<Rightarrow> bytes result" where
  "GetTxsMessage_short_ids_to_bytes short_ids =
     (let msg_size = STARTING_SEQUENCE_BYTES_LEN + BX_HDR_COMMON_OFF + short_ids_get_serialized_length (length short_ids) + CONTROL_FLAGS_LEN
      in rbind (serialize_short_ids_to_buffer short_ids (replicate msg_size 0) HEADER_LENGTH) (\<lambda>(buf, _). Inr buf))"

text \<open>Without short ids and without a buffer the constructor asks for the length of \<open>None\<close>.\<close>

definition GetTxsMessage_init :: "nat list option \<Rightarrow> bytes option \<Rightarrow> get_txs_message result" where
  "GetTxsMessage_init short_ids buf =
     (case buf of
        None \<Rightarrow> rbind (opt_or TypeError short_ids) (\<lambda>sids.
                  rbind (GetTxsMessage_short_ids_to_bytes sids) (finish_message (MESSAGE_TYPE GetTxsMessage) (get_txs_blank [])))
      | Some b \<Rightarrow> Inr (get_txs_blank b))"

definition GetTxsMessage_get_short_ids :: "get_txs_message \<Rightarrow> (nat list \<times> get_txs_message) result" where
  "GetTxsMessage_get_short_ids m =
     (case gt_short_ids m of
        Some s \<Rightarrow> Inr (s, m)
      | None \<Rightarrow> rbind (deserialize_short_ids_from_buffer (msg_buf m) HEADER_LENGTH) (\<lambda>(s, _). Inr (s, m\<lparr>gt_short_ids := Some s\<rparr>)))"

definition GetTxsMessage_get_serialized_short_ids :: "get_txs_message \<Rightarrow> (bytes \<times> get_txs_message) result" where
  "GetTxsMessage_get_serialized_short_ids m =
     rbind (AbstractInternalMessage_rawbytes m) (\<lambda>(raw, m'). Inr (bslice HEADER_LENGTH (length raw - CONTROL_FLAGS_LEN) raw, m'))"

record txs_message = message +
  xm_txs :: "TransactionInfo list option"

definition txs_blank :: txs_message where
  "txs_blank =
     \<lparr>msg_buf = [], msg_type_field = None, payload_len_field = None, payload_field = None, msg_priority = False, xm_txs = None\<rparr>"

definition TxsMessage_txs_to_bytes :: "TransactionInfo list \<Rightarrow> bytes result" where
  "TxsMessage_txs_to_bytes txs =
     rbind (transactions_info_get_serialized_length txs) (\<lambda>n.
     rbind (serialize_transactions_info_to_buffer txs (replicate (HEADER_LENGTH + n + CONTROL_FLAGS_LEN) 0) HEADER_LENGTH) (\<lambda>(buf, _). Inr buf))"

definition TxsMessage_init :: "TransactionInfo list option \<Rightarrow> bytes option \<Rightarrow> txs_message result" where
  "TxsMessage_init txs buf =
     rbind (case buf of Some b \<Rightarrow> Inr b | None \<Rightarrow> rbind (opt_or AssertionError txs) TxsMessage_txs_to_bytes) (\<lambda>b.
       finish_message (MESSAGE_TYPE TxsMessage) txs_blank b)"

definition TxsMessage_get_txs :: "txs_message \<Rightarrow> (TransactionInfo list \<times> txs_message) result" where
  "TxsMessage_get_txs m =
     (case xm_txs m of
        Some t \<Rightarrow> Inr (t, m)
      | None \<Rightarrow> rbind (deserialize_transactions_info_from_buffer (msg_buf m) HEADER_LENGTH) (\<lambda>(t, _). Inr (t, m\<lparr>xm_txs := Some t\<rparr>)))"

record get_tx_contents_message = message +
  gc_network_num :: "nat option"
  gc_short_id :: "nat option"

definition get_tx_contents_blank :: "bytes \<Rightarrow> get_tx_contents_message" where
  "get_tx_contents_blank b =
     \<lparr>msg_buf = b, msg_type_field = None, payload_len_field = None, payload_field = None, msg_priority = False,
      gc_network_num = None, gc_short_id = None\<rparr>"

definition GetTxContentsMessage_init :: "nat option \<Rightarrow> nat option \<Rightarrow> bytes option \<Rightarrow> get_tx_contents_message result" where
  "GetTxContentsMessage_init network_num short_id buf =
     (case buf of
        None \<Rightarrow>
          rbind (opt_or StructError network_num) (\<lambda>n.
          rbind (put_u 4 (replicate (HEADER_LENGTH + NETWORK_NUM_LEN + 4 + CONTROL_FLAGS_LEN) 0) HEADER_LENGTH n) (\<lambda>(b, off).
          rbind (opt_or StructError short_id) (\<lambda>s.
          rbind (put_u 4 b off s) (\<lambda>(b, _). finish_message (MESSAGE_TYPE GetTxContentsMessage) (get_tx_contents_blank []) b))))
      | Some b \<Rightarrow> Inr (get_tx_contents_blank b))"

definition GetTxContentsMessage_parse :: "get_tx_contents_message \<Rightarrow> get_tx_contents_message result" where
  "GetTxContentsMessage_parse m =
     rbind (get_u 4 (msg_buf m) HEADER_LENGTH) (\<lambda>(n, off).
     rbind (get_u 4 (msg_buf m) off) (\<lambda>(s, _). Inr (m\<lparr>gc_network_num := Some n, gc_short_id := Some s\<rparr>)))"

text \<open>\<open>assert self._network_num\<close> fails on the value 0 too.\<close>

definition GetTxContentsMessage_network_num :: "get_tx_contents_message \<Rightarrow> (nat \<times> get_tx_contents_message) result" where
  "GetTxContentsMessage_network_num m =
     rbind (if gc_network_num m = None then GetTxContentsMessage_parse m else Inr m) (\<lambda>m'.
     rbind (rassert AssertionError (gc_network_num m' \<notin> {None, Some 0})) (\<lambda>_. Inr (the (gc_network_num m'), m')))"

definition GetTxContentsMessage_get_short_id :: "get_tx_contents_message \<Rightarrow> (nat \<times> get_tx_contents_message) result" where
  "GetTxContentsMessage_get_short_id m =
     rbind (if gc_short_id m = None then GetTxContentsMessage_parse m else Inr m) (\<lambda>m'.
     rbind (rassert AssertionError (gc_short_id m' \<notin> {None, Some 0})) (\<lambda>_. Inr (the (gc_short_id m'), m')))"

record tx_contents_message = message +
  tc_network_num :: "nat option"
  tc_tx_info :: "TransactionInfo option"

definition tx_contents_blank :: "bytes \<Rightarrow> tx_contents_message" where
  "tx_contents_blank b =
     \<lparr>msg_buf = b, msg_type_field = None, payload_len_field = None, payload_field = None, msg_priority = False,
      tc_network_num = None, tc_tx_info = None\<rparr>"

text \<open>A missing contents has no length, a missing hash is not a sequence of bytes: both are type errors.\<close>

definition TxContentsMessage_init :: "nat option \<Rightarrow> TransactionInfo option \<Rightarrow> bytes option \<Rightarrow> tx_contents_message result" where
  "TxContentsMessage_init network_num tx_info buf =
     (case buf of
        None \<Rightarrow>
          rbind (opt_or AttributeErr tx_info) (\<lambda>info.
          rbind (opt_or TypeError (ti_contents info)) (\<lambda>contents.
          let msg_size = HEADER_LENGTH + NETWORK_NUM_LEN + 4 + SHA256_HASH_LEN + 4 + CONTROL_FLAGS_LEN + length contents
          in rbind (opt_or StructError network_num) (\<lambda>n.
             rbind (put_u 4 (replicate msg_size 0) HEADER_LENGTH n) (\<lambda>(b, off).
             rbind (opt_or StructError (ti_short_id info)) (\<lambda>s.
             rbind (put_u 4 b off s) (\<lambda>(b, off).
             rbind (opt_or TypeError (ti_hash info)) (\<lambda>h.
             rbind (put_raw SHA256_HASH_LEN b off h) (\<lambda>(b, off).
             rbind (put_u 4 b off (length contents)) (\<lambda>(b, off).
             rbind (put_raw (length contents) b off contents) (\<lambda>(b, _).
               AbstractBloxrouteMessage_init (MESSAGE_TYPE TxContentsMessage) (msg_size - HEADER_LENGTH)
                 ((tx_contents_blank [])\<lparr>msg_buf := b\<rparr>)))))))))))
      | Some b \<Rightarrow> Inr (tx_contents_blank b))"

definition TxContentsMessage_parse :: "tx_contents_message \<Rightarrow> tx_contents_message result" where
  "TxContentsMessage_parse m =
     rbind (get_u 4 (msg_buf m) HEADER_LENGTH) (\<lambda>(n, off).
     rbind (get_u 4 (msg_buf m) off) (\<lambda>(s, off).
     rbind (get_hash (msg_buf m) off) (\<lambda>(h, off).
     rbind (get_u 4 (msg_buf m) off) (\<lambda>(tx_size, off).
     rbind (get_raw tx_size (msg_buf m) off) (\<lambda>(tx, _).
       Inr (m\<lparr>tc_network_num := Some n, tc_tx_info := Some \<lparr>ti_hash = Some h, ti_contents = Some tx, ti_short_id = Some s\<rparr>\<rparr>))))))"

definition TxContentsMessage_network_num :: "tx_contents_message \<Rightarrow> (nat \<times> tx_contents_message) result" where
  "TxContentsMessage_network_num m =
     rbind (if tc_network_num m = None then TxContentsMessage_parse m else Inr m) (\<lambda>m'.
     rbind (opt_or AssertionError (tc_network_num m')) (\<lambda>n. Inr (n, m')))"

definition TxContentsMessage_get_tx_info :: "tx_contents_message \<Rightarrow> (TransactionInfo \<times> tx_contents_message) result" where
  "TxContentsMessage_get_tx_info m =
     rbind (if tc_tx_info m = None then TxContentsMessage_parse m else Inr m) (\<lambda>m'.
     rbind (opt_or AssertionError (tc_tx_info m')) (\<lambda>t. Inr (t, m')))"

subsection \<open>Transactions of a compressed block\<close>

record get_block_txs_message = message +
  gb_network_num :: "nat option"
  gb_block_hash :: "object_hash option"
  gb_short_ids :: "nat list option"

definition get_block_txs_blank :: "bytes \<Rightarrow> get_block_txs_message" where
  "get_block_txs_blank b =
     \<lparr>msg_buf = b, msg_type_field = None, payload_len_field = None, payload_field = None, msg_priority = False,
      gb_network_num = None, gb_block_hash = None, gb_short_ids = None\<rparr>"

definition GetCompressedBlockTxsMessage_serialize :: "nat option \<Rightarrow> object_hash option \<Rightarrow> nat list option \<Rightarrow> bytes result" where
  "GetCompressedBlockTxsMessage_serialize network_num block_hash short_ids =
     rbind (opt_or TypeError short_ids) (\<lambda>sids.
     let msg_size = STARTING_SEQUENCE_BYTES_LEN + BX_HDR_COMMON_OFF + 4 + SHA256_HASH_LEN + short_ids_get_serialized_length (length sids)
                    + CONTROL_FLAGS_LEN
     in rbind (opt_or StructError network_num) (\<lambda>n.
        rbind (put_u 4 (replicate msg_size 0) HEADER_LENGTH n) (\<lambda>(buf, off).
        rbind (opt_or AttributeErr block_hash) (\<lambda>h.
        rbind (put_raw SHA256_HASH_LEN buf off (binary h)) (\<lambda>(buf, off).
        rbind (serialize_short_ids_to_buffer sids buf off) (\<lambda>(buf, _). Inr buf))))))"

definition GetCompressedBlockTxsMessage_init ::
    "nat option \<Rightarrow> object_hash option \<Rightarrow> nat list option \<Rightarrow> bytes option \<Rightarrow> get_block_txs_message result" where
  "GetCompressedBlockTxsMessage_init network_num block_hash short_ids buf =
     (case buf of
        None \<Rightarrow> rbind (GetCompressedBlockTxsMessage_serialize network_num block_hash short_ids)
                  (finish_message (MESSAGE_TYPE GetCompressedBlockTxsMessage) (get_block_txs_blank []))
      | Some b \<Rightarrow> Inr (get_block_txs_blank b))"

definition GetCompressedBlockTxsMessage_parse :: "get_block_txs_message \<Rightarrow> get_block_txs_message result" where
  "GetCompressedBlockTxsMessage_parse m =
     rbind (get_u 4 (msg_buf m) HEADER_LENGTH) (\<lambda>(n, off).
     rbind (Sha256Hash_init (bslice off (off + SHA256_HASH_LEN) (msg_buf m))) (\<lambda>h.
     rbind (deserialize_short_ids_from_buffer (msg_buf m) (off + SHA256_HASH_LEN)) (\<lambda>(sids, _).
       Inr (m\<lparr>gb_network_num := Some n, gb_block_hash := Some h, gb_short_ids := Some sids\<rparr>))))"

definition GetCompressedBlockTxsMessage_get_short_ids :: "get_block_txs_message \<Rightarrow> (nat list \<times> get_block_txs_message) result" where
  "GetCompressedBlockTxsMessage_get_short_ids m =
     rbind (if gb_short_ids m = None then GetCompressedBlockTxsMessage_parse m else Inr m) (\<lambda>m'.
     rbind (opt_or AssertionError (gb_short_ids m')) (\<lambda>x. Inr (x, m')))"

definition GetCompressedBlockTxsMessage_block_hash :: "get_block_txs_message \<Rightarrow> (object_hash \<times> get_block_txs_message) result" where
  "GetCompressedBlockTxsMessage_block_hash m =
     rbind (if gb_block_hash m = None then GetCompressedBlockTxsMessage_parse m else Inr m) (\<lambda>m'.
     rbind (opt_or AssertionError (gb_block_hash m')) (\<lambda>x. Inr (x, m')))"

definition GetCompressedBlockTxsMessage_network_num :: "get_block_txs_message \<Rightarrow> (nat \<times> get_block_txs_message) result" where
  "GetCompressedBlockTxsMessage_network_num m =
     rbind (if gb_network_num m = None then GetCompressedBlockTxsMessage_parse m else Inr m) (\<lambda>m'.
     rbind (opt_or AssertionError (gb_network_num m')) (\<lambda>x. Inr (x, m')))"

definition GetCompressedBlockTxsMessage_get_serialized_short_ids :: "get_block_txs_message \<Rightarrow> (bytes \<times> get_block_txs_message) result" where
  "GetCompressedBlockTxsMessage_get_serialized_short_ids m =
     rbind (AbstractInternalMessage_rawbytes m) (\<lambda>(raw, m').
       Inr (bslice (HEADER_LENGTH + 4 + SHA256_HASH_LEN) (length raw - CONTROL_FLAGS_LEN) raw, m'))"

definition GetCompressedBlockTxsMessage_len :: "get_block_txs_message \<Rightarrow> (nat \<times> get_block_txs_message) result" where
  "GetCompressedBlockTxsMessage_len m = rbind (GetCompressedBlockTxsMessage_get_short_ids m) (\<lambda>(s, m'). Inr (length s, m'))"

record block_txs_message = message +
  bt_txs :: "TransactionInfo list option"
  bt_txs_count :: "nat option"
  bt_network_num :: "nat option"
  bt_block_hash :: "object_hash option"

definition block_txs_blank :: block_txs_message where
  "block_txs_blank =
     \<lparr>msg_buf = [], msg_type_field = None, payload_len_field = None, payload_field = None, msg_priority = False,
      bt_txs = None, bt_txs_count = None, bt_network_num = None, bt_block_hash = None\<rparr>"

abbreviation (input) txs_info_offset :: nat where "txs_info_offset \<equiv> 56"

definition CompressedBlockTxsMessage_serialize :: "nat \<Rightarrow> object_hash \<Rightarrow> TransactionInfo list \<Rightarrow> bytes result" where
  "CompressedBlockTxsMessage_serialize network_num block_hash txs =
     rbind (transactions_info_get_serialized_length txs) (\<lambda>n.
     rbind (put_u 4 (replicate (txs_info_offset + n + CONTROL_FLAGS_LEN) 0) HEADER_LENGTH network_num) (\<lambda>(buf, off).
     rbind (put_raw SHA256_HASH_LEN buf off (binary block_hash)) (\<lambda>(buf, off).
     rbind (serialize_transactions_info_to_buffer txs buf off) (\<lambda>(buf, _). Inr buf))))"

definition CompressedBlockTxsMessage_init ::
    "nat option \<Rightarrow> object_hash option \<Rightarrow> TransactionInfo list option \<Rightarrow> bytes option \<Rightarrow> block_txs_message result" where
  "CompressedBlockTxsMessage_init network_num block_hash txs buf =
     rbind (case buf of
              Some b \<Rightarrow> Inr b
            | None \<Rightarrow> (case (network_num, block_hash, txs) of
                         (Some n, Some h, Some t) \<Rightarrow> CompressedBlockTxsMessage_serialize n h t
                       | _ \<Rightarrow> Inl AssertionError)) (\<lambda>b.
       finish_message (MESSAGE_TYPE CompressedBlockTxsMessage) block_txs_blank b)"

definition CompressedBlockTxsMessage_parse :: "block_txs_message \<Rightarrow> block_txs_message result" where
  "CompressedBlockTxsMessage_parse m =
     rbind (get_u 4 (msg_buf m) HEADER_LENGTH) (\<lambda>(n, off).
     rbind (Sha256Hash_init (bslice off (off + SHA256_HASH_LEN) (msg_buf m))) (\<lambda>h.
     rbind (deserialize_transactions_info_from_buffer (msg_buf m) (off + SHA256_HASH_LEN)) (\<lambda>(txs, _).
       Inr (m\<lparr>bt_network_num := Some n, bt_block_hash := Some h, bt_txs := Some txs\<rparr>))))"

definition CompressedBlockTxsMessage_get_txs :: "block_txs_message \<Rightarrow> (TransactionInfo list \<times> block_txs_message) result" where
  "CompressedBlockTxsMessage_get_txs m =
     rbind (if bt_txs m = None then CompressedBlockTxsMessage_parse m else Inr m) (\<lambda>m'.
     rbind (opt_or AssertionError (bt_txs m')) (\<lambda>x. Inr (x, m')))"

definition CompressedBlockTxsMessage_get_txs_count :: "block_txs_message \<Rightarrow> (nat \<times> block_txs_message) result" where
  "CompressedBlockTxsMessage_get_txs_count m =
     (case bt_txs_count m of
        Some n \<Rightarrow> Inr (n, m)
      | None \<Rightarrow> rbind (unpack_from 4 (msg_buf m) (HEADER_LENGTH + 4 + SHA256_HASH_LEN)) (\<lambda>n. Inr (n, m\<lparr>bt_txs_count := Some n\<rparr>)))"

definition CompressedBlockTxsMessage_block_hash :: "block_txs_message \<Rightarrow> (object_hash \<times> block_txs_message) result" where
  "CompressedBlockTxsMessage_block_hash m =
     rbind (if bt_block_hash m = None then CompressedBlockTxsMessage_parse m else Inr m) (\<lambda>m'.
     rbind (opt_or AssertionError (bt_block_hash m')) (\<lambda>x. Inr (x, m')))"

definition CompressedBlockTxsMessage_network_num :: "block_txs_message \<Rightarrow> (nat \<times> block_txs_message) result" where
  "CompressedBlockTxsMessage_network_num m =
     rbind (if bt_network_num m = None then CompressedBlockTxsMessage_parse m else Inr m) (\<lambda>m'.
     rbind (opt_or AssertionError (bt_network_num m')) (\<lambda>x. Inr (x, m')))"

definition CompressedBlockTxsMessage_len :: "block_txs_message \<Rightarrow> (nat \<times> block_txs_message) result" where
  "CompressedBlockTxsMessage_len m = rbind (CompressedBlockTxsMessage_get_txs m) (\<lambda>(s, m'). Inr (length s, m'))"

definition CompressedBlockTxsMessage_to_txs_message :: "block_txs_message \<Rightarrow> (txs_message \<times> block_txs_message) result" where
  "CompressedBlockTxsMessage_to_txs_message m =
     rbind (AbstractInternalMessage_rawbytes m) (\<lambda>(raw, m').
       let txs_info_bytes = drop txs_info_offset raw;
           b = slice_assign HEADER_LENGTH (HEADER_LENGTH + length txs_info_bytes) txs_info_bytes
                 (replicate (HEADER_LENGTH + length txs_info_bytes) 0)
       in rbind (TxsMessage_init None (Some b)) (\<lambda>t. Inr (t, m')))"

subsection \<open>Synchronization of transaction services\<close>

record sync_network_message = message +
  sn_network_num :: "nat option"

definition sync_network_blank :: sync_network_message where
  "sync_network_blank =
     \<lparr>msg_buf = [], msg_type_field = None, payload_len_field = None, payload_field = None, msg_priority = False, sn_network_num = None\<rparr>"

text \<open>Without a network number and without a buffer, \<open>len(None)\<close> raises.\<close>

definition TxServiceSyncReqMessage_init :: "nat option \<Rightarrow> bytes option \<Rightarrow> sync_network_message result" where
  "TxServiceSyncReqMessage_init network_num buf =
     rbind (case (buf, network_num) of
              (Some b, _) \<Rightarrow> Inr b
            | (None, Some n) \<Rightarrow> pack_into 4 (replicate (HEADER_LENGTH + NETWORK_NUM_LEN + CONTROL_FLAGS_LEN) 0) HEADER_LENGTH n
            | (None, None) \<Rightarrow> Inl TypeError) (\<lambda>b.
       finish_message (MESSAGE_TYPE TxServiceSyncReqMessage) sync_network_blank b)"

definition sync_network_num :: "sync_network_message \<Rightarrow> (nat \<times> sync_network_message) result" where
  "sync_network_num m =
     (case sn_network_num m of
        Some n \<Rightarrow> Inr (n, m)
      | None \<Rightarrow> rbind (unpack_from 4 (msg_buf m) HEADER_LENGTH) (\<lambda>n. Inr (n, m\<lparr>sn_network_num := Some n\<rparr>)))"

definition TxServiceSyncReqMessage_network_num :: "sync_network_message \<Rightarrow> (nat \<times> sync_network_message) result" where
  "TxServiceSyncReqMessage_network_num = sync_network_num"

text \<open>Here a network number is written into a given buffer as well, and kept.\<close>

definition TxServiceSyncCompleteMessage_init :: "nat option \<Rightarrow> bytes option \<Rightarrow> sync_network_message result" where
  "TxServiceSyncCompleteMessage_init network_num buf =
     (let b = (case buf of None \<Rightarrow> replicate (HEADER_LENGTH + 4 + CONTROL_FLAGS_LEN) 0 | Some b \<Rightarrow> b)
      in rbind (case network_num of None \<Rightarrow> Inr b | Some n \<Rightarrow> pack_into 4 b HEADER_LENGTH n) (\<lambda>b.
           finish_message (MESSAGE_TYPE TxServiceSyncCompleteMessage) (sync_network_blank\<lparr>sn_network_num := network_num\<rparr>) b))"

definition TxServiceSyncCompleteMessage_network_num :: "sync_network_message \<Rightarrow> (nat \<times> sync_network_message) result" where
  "TxServiceSyncCompleteMessage_network_num = sync_network_num"

record sync_txs_message = message +
  st_network_num :: "nat option"
  st_tx_count :: "nat option"

definition sync_txs_blank :: "nat option \<Rightarrow> nat option \<Rightarrow> sync_txs_message" where
  "sync_txs_blank network_num tx_count =
     \<lparr>msg_buf = [], msg_type_field = None, payload_len_field = None, payload_field = None, msg_priority = False,
      st_network_num = network_num, st_tx_count = tx_count\<rparr>"

text \<open>\<open>struct.pack_into("<LL", buf, HEADER_LENGTH, network_num, count)\<close>.\<close>

definition pack_two :: "bytes \<Rightarrow> nat option \<Rightarrow> nat option \<Rightarrow> bytes result" where
  "pack_two b network_num cnt =
     rbind (opt_or StructError network_num) (\<lambda>n.
     rbind (opt_or StructError cnt) (\<lambda>c.
     rbind (put_u 4 b HEADER_LENGTH n) (\<lambda>(b, off). rbind (put_u 4 b off c) (\<lambda>(b, _). Inr b))))"

definition TxServiceSyncTxsMessage_txs_content_short_ids_serialize :: "nat option \<Rightarrow> TxContentShortIds list \<Rightarrow> bytes result" where
  "TxServiceSyncTxsMessage_txs_content_short_ids_serialize network_num txs =
     rbind (pack_two (replicate (HEADER_LENGTH + 4 + 4) 0) network_num (Some (length txs))) (\<lambda>b.
     rbind (serialize_txs_content_short_ids_into_bytes txs) (\<lambda>e. Inr (b @ e)))"

definition TxServiceSyncTxsMessage_init ::
    "nat option \<Rightarrow> TxContentShortIds list option \<Rightarrow> bytes option \<Rightarrow> nat option \<Rightarrow> bytes option \<Rightarrow> sync_txs_message result" where
  "TxServiceSyncTxsMessage_init network_num txs_content_short_ids txs_buffer tx_count buf =
     rbind (case (buf, txs_content_short_ids, txs_buffer) of
              (Some b, _, _) \<Rightarrow> Inr (b, map_option length txs_content_short_ids)
            | (None, Some txs, _) \<Rightarrow>
                rbind (TxServiceSyncTxsMessage_txs_content_short_ids_serialize network_num txs) (\<lambda>b.
                  Inr (b @ replicate CONTROL_FLAGS_LEN 0, Some (length txs)))
            | (None, None, Some tb) \<Rightarrow>
                let txs_offset = HEADER_LENGTH + 4 + 4
                in rbind (pack_two (replicate (txs_offset + length tb + CONTROL_FLAGS_LEN) 0) network_num tx_count) (\<lambda>b.
                     Inr (slice_assign txs_offset (txs_offset + length tb) tb b, tx_count))
            | (None, None, None) \<Rightarrow> Inl AttributeErr) (\<lambda>(b, cnt).
       finish_message (MESSAGE_TYPE TxServiceSyncTxsMessage) (sync_txs_blank network_num cnt) b)"

text \<open>
  The class of versions 15 and 6, with the serializer of the version as argument: a control byte is
  appended to a received buffer too.
\<close>

definition old_sync_txs_init ::
    "(TxContentShortIds list \<Rightarrow> bytes result) \<Rightarrow> nat option \<Rightarrow> TxContentShortIds list option \<Rightarrow> bytes option \<Rightarrow>
     sync_txs_message result" where
  "old_sync_txs_init serialize network_num txs_content_short_ids buf =
     rbind (case (buf, txs_content_short_ids) of
              (Some b, _) \<Rightarrow> Inr b
            | (None, Some txs) \<Rightarrow>
                rbind (pack_two (replicate (HEADER_LENGTH + 4 + 4) 0) network_num (Some (length txs))) (\<lambda>b.
                rbind (serialize txs) (\<lambda>e. Inr (b @ e)))
            | (None, None) \<Rightarrow> Inl AttributeErr) (\<lambda>b.
       finish_message (MESSAGE_TYPE TxServiceSyncTxsMessage) (sync_txs_blank network_num (map_option length txs_content_short_ids))
         (b @ replicate CONTROL_FLAGS_LEN 0))"

definition TxServiceSyncTxsMessageV15_init :: "nat option \<Rightarrow> TxContentShortIds list option \<Rightarrow> bytes option \<Rightarrow> sync_txs_message result" where
  "TxServiceSyncTxsMessageV15_init = old_sync_txs_init serialize_txs_v15"

definition TxServiceSyncTxsMessageV6_init :: "nat option \<Rightarrow> TxContentShortIds list option \<Rightarrow> bytes option \<Rightarrow> sync_txs_message result" where
  "TxServiceSyncTxsMessageV6_init = old_sync_txs_init serialize_txs_v6"

text \<open>The accessors are the same in the three classes but for the deserializer.\<close>

definition TxServiceSyncTxsMessage_network_num :: "sync_txs_message \<Rightarrow> (nat \<times> sync_txs_message) result" where
  "TxServiceSyncTxsMessage_network_num m =
     (case st_network_num m of
        Some n \<Rightarrow> Inr (n, m)
      | None \<Rightarrow> rbind (unpack_from 4 (msg_buf m) HEADER_LENGTH) (\<lambda>n. Inr (n, m\<lparr>st_network_num := Some n\<rparr>)))"

definition TxServiceSyncTxsMessage_tx_count :: "sync_txs_message \<Rightarrow> (nat \<times> sync_txs_message) result" where
  "TxServiceSyncTxsMessage_tx_count m =
     (case st_tx_count m of
        Some n \<Rightarrow> Inr (n, m)
      | None \<Rightarrow> rbind (unpack_from 4 (msg_buf m) (HEADER_LENGTH + 4)) (\<lambda>n. Inr (n, m\<lparr>st_tx_count := Some n\<rparr>)))"

definition sync_txs_items ::
    "(bytes \<Rightarrow> nat \<Rightarrow> nat \<Rightarrow> TxContentShortIds list result) \<Rightarrow> sync_txs_message \<Rightarrow> (TxContentShortIds list \<times> sync_txs_message) result" where
  "sync_txs_items deserialize m =
     rbind (TxServiceSyncTxsMessage_tx_count m) (\<lambda>(n, m').
     rbind (deserialize (msg_buf m') (HEADER_LENGTH + 4 + 4) n) (\<lambda>txs. Inr (txs, m')))"

definition TxServiceSyncTxsMessage_txs_content_short_ids :: "sync_txs_message \<Rightarrow> (TxContentShortIds list \<times> sync_txs_message) result" where
  "TxServiceSyncTxsMessage_txs_content_short_ids = sync_txs_items deserialize_txs_content_short_ids_from_buffer"

definition TxServiceSyncTxsMessageV15_txs_content_short_ids :: "sync_txs_message \<Rightarrow> (TxContentShortIds list \<times> sync_txs_message) result" where
  "TxServiceSyncTxsMessageV15_txs_content_short_ids = sync_txs_items deserialize_txs_v15"

definition TxServiceSyncTxsMessageV6_txs_content_short_ids :: "sync_txs_message \<Rightarrow> (TxContentShortIds list \<times> sync_txs_message) result" where
  "TxServiceSyncTxsMessageV6_txs_content_short_ids = sync_txs_items deserialize_txs_v6"

text \<open>The converters. The type of their messages is always the expected one.\<close>

definition TxSyncMessageConverterV15_convert_to_older_version :: "sync_txs_message \<Rightarrow> (sync_txs_message \<times> sync_txs_message) result" where
  "TxSyncMessageConverterV15_convert_to_older_version msg =
     rbind (TxServiceSyncTxsMessage_txs_content_short_ids msg) (\<lambda>(txs, msg).
     rbind (TxServiceSyncTxsMessage_network_num msg) (\<lambda>(n, msg).
     rbind (TxServiceSyncTxsMessageV15_init (Some n)
              (Some (map (\<lambda>t. t\<lparr>tcs_short_id_flags := map (\<lambda>f. quota_value (TransactionFlag_get_quota_type f)) (tcs_short_id_flags t)\<rparr>) txs))
              None) (\<lambda>m. Inr (m, msg))))"

text \<open>\<open>TransactionFlag(short_id_flag.value)\<close> for every quota type.\<close>

primrec flags_of_quotas :: "nat list \<Rightarrow> nat list result" where
  "flags_of_quotas [] = Inr []"
| "flags_of_quotas (q # qs) = rbind (TransactionFlag_of q) (\<lambda>f. rbind (flags_of_quotas qs) (\<lambda>fs. Inr (f # fs)))"

primrec with_flags_of_quotas :: "TxContentShortIds list \<Rightarrow> TxContentShortIds list result" where
  "with_flags_of_quotas [] = Inr []"
| "with_flags_of_quotas (t # ts) =
     rbind (flags_of_quotas (tcs_short_id_flags t)) (\<lambda>fs.
     rbind (with_flags_of_quotas ts) (\<lambda>ts'. Inr (t\<lparr>tcs_short_id_flags := fs\<rparr> # ts')))"

definition TxSyncMessageConverterV15_convert_from_older_version :: "sync_txs_message \<Rightarrow> (sync_txs_message \<times> sync_txs_message) result" where
  "TxSyncMessageConverterV15_convert_from_older_version msg =
     rbind (TxServiceSyncTxsMessageV15_txs_content_short_ids msg) (\<lambda>(txs, msg).
     rbind (with_flags_of_quotas txs) (\<lambda>txs'.
     rbind (TxServiceSyncTxsMessage_network_num msg) (\<lambda>(n, msg).
     rbind (TxServiceSyncTxsMessage_init (Some n) (Some txs') None None None) (\<lambda>m. Inr (m, msg)))))"

definition TxSyncMessageConverterV6_convert_to_older_version :: "sync_txs_message \<Rightarrow> (sync_txs_message \<times> sync_txs_message) result" where
  "TxSyncMessageConverterV6_convert_to_older_version msg =
     rbind (TxServiceSyncTxsMessage_txs_content_short_ids msg) (\<lambda>(txs, msg).
     rbind (TxServiceSyncTxsMessage_network_num msg) (\<lambda>(n, msg).
     rbind (TxServiceSyncTxsMessageV6_init (Some n) (Some (map (\<lambda>t. t\<lparr>tcs_short_id_flags := []\<rparr>) txs)) None) (\<lambda>m. Inr (m, msg))))"

definition TxSyncMessageConverterV6_convert_from_older_version :: "sync_txs_message \<Rightarrow> (sync_txs_message \<times> sync_txs_message) result" where
  "TxSyncMessageConverterV6_convert_from_older_version msg =
     rbind (TxServiceSyncTxsMessageV6_txs_content_short_ids msg) (\<lambda>(txs, msg).
     rbind (TxServiceSyncTxsMessage_network_num msg) (\<lambda>(n, msg).
     rbind (TxServiceSyncTxsMessage_init (Some n)
              (Some (map (\<lambda>t. t\<lparr>tcs_short_id_flags := map (\<lambda>_. NO_FLAGS) (tcs_short_ids t)\<rparr>) txs)) None None None) (\<lambda>m. Inr (m, msg))))"

record sync_blocks_message = message +
  sb_network_num :: "nat option"
  sb_block_count :: "nat option"

definition sync_blocks_blank :: "nat option \<Rightarrow> nat option \<Rightarrow> sync_blocks_message" where
  "sync_blocks_blank network_num block_count =
     \<lparr>msg_buf = [], msg_type_field = None, payload_len_field = None, payload_field = None, msg_priority = False,
      sb_network_num = network_num, sb_block_count = block_count\<rparr>"

definition TxServiceSyncBlocksShortIdsMessage_parse :: "nat option \<Rightarrow> BlockShortIds list \<Rightarrow> bytes result" where
  "TxServiceSyncBlocksShortIdsMessage_parse network_num blocks =
     rbind (pack_two (replicate (HEADER_LENGTH + 2 * 4) 0) network_num (Some (length blocks))) (\<lambda>b.
     rbind (serialize_blocks_short_ids_into_bytes blocks) (\<lambda>e. Inr (b @ e)))"

definition TxServiceSyncBlocksShortIdsMessage_init ::
    "nat option \<Rightarrow> BlockShortIds list option \<Rightarrow> bytes option \<Rightarrow> sync_blocks_message result" where
  "TxServiceSyncBlocksShortIdsMessage_init network_num blocks_short_ids buf =
     rbind (case (buf, blocks_short_ids) of
              (Some b, _) \<Rightarrow> Inr b
            | (None, Some blocks) \<Rightarrow> TxServiceSyncBlocksShortIdsMessage_parse network_num blocks
            | (None, None) \<Rightarrow> Inl AttributeErr) (\<lambda>b.
       finish_message (MESSAGE_TYPE TxServiceSyncBlocksShortIdsMessage) (sync_blocks_blank network_num (map_option length blocks_short_ids))
         (b @ replicate CONTROL_FLAGS_LEN 0))"

definition TxServiceSyncBlocksShortIdsMessage_network_num :: "sync_blocks_message \<Rightarrow> (nat \<times> sync_blocks_message) result" where
  "TxServiceSyncBlocksShortIdsMessage_network_num m =
     (case sb_network_num m of
        Some n \<Rightarrow> Inr (n, m)
      | None \<Rightarrow> rbind (unpack_from 4 (msg_buf m) HEADER_LENGTH) (\<lambda>n. Inr (n, m\<lparr>sb_network_num := Some n\<rparr>)))"

definition TxServiceSyncBlocksShortIdsMessage_block_count :: "sync_blocks_message \<Rightarrow> (nat \<times> sync_blocks_message) result" where
  "TxServiceSyncBlocksShortIdsMessage_block_count m =
     (case sb_block_count m of
        Some n \<Rightarrow> Inr (n, m)
      | None \<Rightarrow> rbind (unpack_from 4 (msg_buf m) (HEADER_LENGTH + 4)) (\<lambda>n. Inr (n, m\<lparr>sb_block_count := Some n\<rparr>)))"

definition TxServiceSyncBlocksShortIdsMessage_blocks_short_ids :: "sync_blocks_message \<Rightarrow> (BlockShortIds list \<times> sync_blocks_message) result" where
  "TxServiceSyncBlocksShortIdsMessage_blocks_short_ids m =
     rbind (TxServiceSyncBlocksShortIdsMessage_block_count m) (\<lambda>(n, m').
     rbind (deserialize_blocks_short_ids_from_buffer (msg_buf m') (HEADER_LENGTH + 2 * 4) n) (\<lambda>x. Inr (x, m')))"

subsection \<open>Hashes of blocks\<close>

record block_hash_message = message +
  bh_block_hash :: "object_hash option"

definition block_hash_blank :: "bytes \<Rightarrow> block_hash_message" where
  "block_hash_blank b =
     \<lparr>msg_buf = b, msg_type_field = None, payload_len_field = None, payload_field = None, msg_priority = False, bh_block_hash = None\<rparr>"

text \<open>\<open>BlockHashMessage\<close> is abstract: its type is that of the subclass.\<close>

definition BlockHashMessage_init :: "bytes \<Rightarrow> object_hash option \<Rightarrow> bytes option \<Rightarrow> block_hash_message result" where
  "BlockHashMessage_init msg_type block_hash buf =
     rbind (case buf of
              Some b \<Rightarrow> Inr b
            | None \<Rightarrow> rbind (opt_or AttributeErr block_hash) (\<lambda>h.
                        rbind (put_raw SHA256_HASH_LEN (replicate (HEADER_LENGTH + (SHA256_HASH_LEN + CONTROL_FLAGS_LEN)) 0) HEADER_LENGTH
                                 (binary h)) (\<lambda>(b, _). Inr b))) (\<lambda>b.
       AbstractBloxrouteMessage_init msg_type (SHA256_HASH_LEN + CONTROL_FLAGS_LEN) (block_hash_blank b))"

definition BlockHashMessage_block_hash :: "block_hash_message \<Rightarrow> (object_hash \<times> block_hash_message) result" where
  "BlockHashMessage_block_hash m =
     (case bh_block_hash m of
        Some h \<Rightarrow> Inr (h, m)
      | None \<Rightarrow> rbind (Sha256Hash_init (bslice HEADER_LENGTH (HEADER_LENGTH + SHA256_HASH_LEN) (msg_buf m))) (\<lambda>h.
                  Inr (h, m\<lparr>bh_block_hash := Some h\<rparr>)))"

definition BlockHoldingMessage_init :: "object_hash option \<Rightarrow> nat option \<Rightarrow> string \<Rightarrow> bytes option \<Rightarrow> broadcast result" where
  "BlockHoldingMessage_init block_hash network_num source_id buf =
     AbstractBroadcastMessage_init (MESSAGE_TYPE BlockHoldingMessage) BROADCAST_PAYLOAD_LENGTH block_hash network_num (Some source_id) buf
       \<lparr>msg_buf = [], msg_type_field = None, payload_len_field = None, payload_field = None, msg_priority = False,
        bm_hash = None, bm_network_num = None, bm_source_id = None, bm_message_id = None\<rparr>"

definition BlockHoldingMessage_block_hash :: "broadcast \<Rightarrow> (object_hash \<times> broadcast) result" where
  "BlockHoldingMessage_block_hash = AbstractBroadcastMessage_message_hash"

subsection \<open>Synchronized transactions in every version\<close>

lemma pack_two_ok:
  assumes "n < 256 ^ 4" and "c < 256 ^ 4"
  shows "pack_two (replicate (28 + k) 0) (Some n) (Some c) = Inr (replicate 20 0 @ le_bytes 4 n @ le_bytes 4 c @ replicate k 0)"
proof -
  have z: "replicate (28 + k) 0 = replicate 20 0 @ (replicate 4 0 @ replicate 4 0) @ replicate k (0 :: byte)"
    by (simp only: replicate_add[symmetric]) simp
  have "writes (\<lambda>b o'. rbind (put_u 4 b o' n) (\<lambda>(b, o'). put_u 4 b o' c)) (le_bytes 4 n @ le_bytes 4 c)"
    using assms by (intro writes_seq writes_u)
  then have "rbind (put_u 4 (replicate (28 + k) 0) 20 n) (\<lambda>(b, o'). put_u 4 b o' c)
      = Inr (bput 20 (le_bytes 4 n @ le_bytes 4 c) (replicate (28 + k) 0), 28)"
    unfolding writes_def by simp
  moreover have "bput 20 (le_bytes 4 n @ le_bytes 4 c) (replicate (28 + k) 0) = replicate 20 0 @ (le_bytes 4 n @ le_bytes 4 c) @ replicate k 0"
    unfolding z using bput_at_end[of "le_bytes 4 n @ le_bytes 4 c" "replicate 4 0 @ replicate 4 0" "replicate 20 0" "replicate k 0"] by simp
  ultimately show ?thesis
    by (auto simp: pack_two_def opt_or_def rbind_def split: sum.splits)
qed

lemmas pack_two_28 = pack_two_ok[of _ _ 0, simplified]

text \<open>The payload of a message with transactions of format \<open>w\<close>, and the object of a sender.\<close>

definition sync_body :: "nat \<Rightarrow> nat \<Rightarrow> TxContentShortIds list \<Rightarrow> bytes" where
  "sync_body w n txs = le_bytes 4 n @ le_bytes 4 (length txs) @ txs.enc_list w txs"

definition sync_object :: "nat \<Rightarrow> nat \<Rightarrow> TxContentShortIds list \<Rightarrow> sync_txs_message" where
  "sync_object w n txs = payload_object (MESSAGE_TYPE TxServiceSyncTxsMessage) (sync_body w n txs) (sync_txs_blank (Some n) (Some (length txs)))"

definition sync_ok :: "nat \<Rightarrow> (nat \<Rightarrow> nat result) \<Rightarrow> nat \<Rightarrow> TxContentShortIds list \<Rightarrow> bool" where
  "sync_ok w fo n txs \<longleftrightarrow> n < 256 ^ 4 \<and> length txs < 256 ^ 4 \<and> list_all (valid_tx w fo) txs \<and> length (sync_body w n txs) + 1 < 256 ^ 4"

lemma sync_txs_new:
  assumes "sync_ok 2 TransactionFlag_of n txs"
  shows "TxServiceSyncTxsMessage_init (Some n) (Some txs) tb tc None = Inr (sync_object 2 n txs)"
proof -
  have "pack_two (replicate 28 0) (Some n) (Some (length txs)) = Inr (replicate 20 0 @ le_bytes 4 n @ le_bytes 4 (length txs))"
    using assms by (intro pack_two_28) (simp_all add: sync_ok_def)
  moreover have "serialize_txs 2 txs = Inr (txs.enc_list 2 txs)" using assms txs_serialize(1) by (auto simp: sync_ok_def)
  moreover have "finish_message (MESSAGE_TYPE TxServiceSyncTxsMessage) (sync_txs_blank (Some n) (Some (length txs)))
      (replicate 20 0 @ sync_body 2 n txs @ [0]) = Inr (sync_object 2 n txs)"
    unfolding sync_object_def using assms by (intro finish_payload) (simp_all add: sync_ok_def)
  ultimately show ?thesis
    by (simp add: TxServiceSyncTxsMessage_init_def TxServiceSyncTxsMessage_txs_content_short_ids_serialize_def
        serialize_txs_content_short_ids_into_bytes_def sync_body_def)
qed

lemma old_sync_txs_new:
  assumes "sync_ok w fo n txs"
  shows "old_sync_txs_init (serialize_txs w) (Some n) (Some txs) None = Inr (sync_object w n txs)"
proof -
  have "pack_two (replicate 28 0) (Some n) (Some (length txs)) = Inr (replicate 20 0 @ le_bytes 4 n @ le_bytes 4 (length txs))"
    using assms by (intro pack_two_28) (simp_all add: sync_ok_def)
  moreover have "serialize_txs w txs = Inr (txs.enc_list w txs)" using assms txs_serialize(1) by (auto simp: sync_ok_def)
  moreover have "finish_message (MESSAGE_TYPE TxServiceSyncTxsMessage) (sync_txs_blank (Some n) (Some (length txs)))
      (replicate 20 0 @ sync_body w n txs @ [0]) = Inr (sync_object w n txs)"
    unfolding sync_object_def using assms by (intro finish_payload) (simp_all add: sync_ok_def)
  ultimately show ?thesis by (simp add: old_sync_txs_init_def sync_body_def)
qed

text \<open>Whatever the attributes of a message hold, if anything: its bytes or the values it was made from.\<close>

definition holds_sync :: "nat \<Rightarrow> nat \<Rightarrow> TxContentShortIds list \<Rightarrow> sync_txs_message \<Rightarrow> bool" where
  "holds_sync w n txs m \<longleftrightarrow> (\<exists>post. msg_buf m = frame (MESSAGE_TYPE TxServiceSyncTxsMessage) (sync_body w n txs @ post))
     \<and> st_network_num m \<in> {None, Some n} \<and> st_tx_count m \<in> {None, Some (length txs)}"

lemma holds_sync_object: "holds_sync w n txs (sync_object w n txs)"
  by (auto simp: holds_sync_def sync_object_def payload_object_def sync_txs_blank_def)

lemma holds_sync_reads:
  assumes "holds_sync w n txs m" and "sync_ok w fo n txs"
  shows "\<exists>m'. TxServiceSyncTxsMessage_network_num m = Inr (n, m') \<and> holds_sync w n txs m'"
    and "\<exists>m'. sync_txs_items (deserialize_txs w fo) m = Inr (txs, m') \<and> holds_sync w n txs m'"
proof -
  obtain post where b: "msg_buf m = frame (MESSAGE_TYPE TxServiceSyncTxsMessage) (sync_body w n txs @ post)"
    using assms(1) unfolding holds_sync_def by blast
  have "n < 256 ^ 4" "length txs < 256 ^ 4" using assms(2) by (simp_all add: sync_ok_def)
  then have u: "unpack_from 4 (msg_buf m) 20 = Inr n" "unpack_from 4 (msg_buf m) 24 = Inr (length txs)"
    by (simp_all add: b sync_body_def bfield_simps of_le_le_bytes)
  show "\<exists>m'. TxServiceSyncTxsMessage_network_num m = Inr (n, m') \<and> holds_sync w n txs m'"
    using u(1) assms(1) by (cases "st_network_num m") (auto simp: TxServiceSyncTxsMessage_network_num_def holds_sync_def)
  let ?h = "STARTING_SEQUENCE_BYTES @ pad_to 12 (MESSAGE_TYPE TxServiceSyncTxsMessage) @ le_bytes 4 (length (sync_body w n txs @ post))
      @ le_bytes 4 n @ le_bytes 4 (length txs)"
  have "deserialize_txs w fo (?h @ txs.enc_list w txs @ post) (length ?h) (length txs) = Inr txs"
    using assms(2) by (intro txs_serialize(2)) (simp add: sync_ok_def)
  then have d: "deserialize_txs w fo (msg_buf m) 28 (length txs) = Inr txs"
    by (simp add: b frame_def sync_body_def)
  obtain m' where m': "TxServiceSyncTxsMessage_tx_count m = Inr (length txs, m')" "msg_buf m' = msg_buf m"
    "st_network_num m' = st_network_num m" "st_tx_count m' = Some (length txs)"
    using u(2) assms(1) by (cases "st_tx_count m") (auto simp: TxServiceSyncTxsMessage_tx_count_def holds_sync_def)
  then have "holds_sync w n txs m'" using assms(1) by (auto simp: holds_sync_def)
  then show "\<exists>m'. sync_txs_items (deserialize_txs w fo) m = Inr (txs, m') \<and> holds_sync w n txs m'"
    using m' d by (simp add: sync_txs_items_def)
qed

lemma sync_txs_received:
  assumes "sync_ok w fo n txs"
  shows "\<exists>m. TxServiceSyncTxsMessage_init None None None None (Some (msg_buf (sync_object w n txs))) = Inr m \<and> holds_sync w n txs m
      \<and> msg_buf m = msg_buf (sync_object w n txs)"
    and "\<exists>m. length (sync_body w n txs) + 2 < 256 ^ 4 \<longrightarrow>
      old_sync_txs_init ser None None (Some (msg_buf (sync_object w n txs))) = Inr m \<and> holds_sync w n txs m"
proof -
  let ?ty = "MESSAGE_TYPE TxServiceSyncTxsMessage" and ?e = "sync_body w n txs"
  let ?h = "STARTING_SEQUENCE_BYTES @ pad_to 12 ?ty @ le_bytes 4 (length ?e + 1)"
  have b: "msg_buf (sync_object w n txs) = ?h @ ?e @ [1]" by (simp add: sync_object_def payload_object_def frame_def)
  have l: "length ?e + 1 < 256 ^ 4" using assms by (simp add: sync_ok_def)
  have "finish_message ?ty (sync_txs_blank None None) (?h @ ?e @ [1]) = Inr (payload_object ?ty ?e (sync_txs_blank None None))"
    using l by (intro finish_payload) simp_all
  then show "\<exists>m. TxServiceSyncTxsMessage_init None None None None (Some (msg_buf (sync_object w n txs))) = Inr m \<and> holds_sync w n txs m
      \<and> msg_buf m = msg_buf (sync_object w n txs)"
    unfolding b by (auto simp: TxServiceSyncTxsMessage_init_def holds_sync_def payload_object_def sync_txs_blank_def frame_def)
  let ?m = "payload_object ?ty (?e @ [1]) (sync_txs_blank None None)"
  have "finish_message ?ty (sync_txs_blank None None) (?h @ (?e @ [1]) @ [0]) = Inr ?m" if "length ?e + 2 < 256 ^ 4"
    using that by (intro finish_payload) simp_all
  moreover have "holds_sync w n txs ?m" by (auto simp: holds_sync_def payload_object_def sync_txs_blank_def)
  ultimately show "\<exists>m. length ?e + 2 < 256 ^ 4 \<longrightarrow>
      old_sync_txs_init ser None None (Some (msg_buf (sync_object w n txs))) = Inr m \<and> holds_sync w n txs m"
    unfolding b by (intro exI[of _ ?m]) (simp add: old_sync_txs_init_def)
qed

text \<open>What the older versions keep of the flags: the quota, or nothing.\<close>

definition quota_flags :: "TxContentShortIds list \<Rightarrow> TxContentShortIds list" where
  "quota_flags = map (\<lambda>t. t\<lparr>tcs_short_id_flags := map (\<lambda>f. if flag_in PAID_TX f then 2 else 1) (tcs_short_id_flags t)\<rparr>)"

definition no_flags :: "TxContentShortIds list \<Rightarrow> TxContentShortIds list" where
  "no_flags = map (\<lambda>t. t\<lparr>tcs_short_id_flags := map (\<lambda>_. NO_FLAGS) (tcs_short_ids t)\<rparr>)"

definition drop_flags :: "TxContentShortIds list \<Rightarrow> TxContentShortIds list" where
  "drop_flags = map (\<lambda>t. t\<lparr>tcs_short_id_flags := []\<rparr>)"

lemma quota_value_flag: "quota_value (TransactionFlag_get_quota_type f) = (if flag_in PAID_TX f then 2 else 1)"
  by (simp add: quota_value_def TransactionFlag_get_quota_type_def)

lemma valid_tx_flags:
  assumes "valid_tx 2 TransactionFlag_of t"
  shows "w \<noteq> 0 \<Longrightarrow> length fs = length (tcs_short_ids t) \<Longrightarrow> list_all (\<lambda>v. v < 256 ^ w \<and> fo v = Inr v) fs \<Longrightarrow>
      valid_tx w fo (t\<lparr>tcs_short_id_flags := fs\<rparr>)"
    and "valid_tx 0 fo (t\<lparr>tcs_short_id_flags := []\<rparr>)"
    and "length (tcs_short_id_flags t) = length (tcs_short_ids t)"
  using assms by (simp_all add: valid_tx_def tx_is_complete_def)

lemma quota_flags_small:
  "list_all (\<lambda>v. v < 256 ^ 1 \<and> QuotaType_of v = Inr v) (map (\<lambda>f. if flag_in PAID_TX f then 2 else 1) fs)"
  "list_all (\<lambda>v. v < 256 ^ 2 \<and> TransactionFlag_of v = Inr v) (map (\<lambda>f. if flag_in PAID_TX f then 2 else 1) fs)"
  "list_all (\<lambda>v. v < 256 ^ 2 \<and> TransactionFlag_of v = Inr v) (map (\<lambda>_. NO_FLAGS) sids)"
  by (induction fs) (simp_all add: QuotaType_of_def TransactionFlag_of_def list_all_iff)

lemma converted_valid:
  assumes "list_all (valid_tx 2 TransactionFlag_of) txs"
  shows "list_all (valid_tx 1 QuotaType_of) (quota_flags txs)" and "list_all (valid_tx 2 TransactionFlag_of) (quota_flags txs)"
    and "list_all (valid_tx 0 Inr) (drop_flags txs)" and "list_all (valid_tx 2 TransactionFlag_of) (no_flags txs)"
proof -
  have v: "valid_tx 2 TransactionFlag_of t" if "t \<in> set txs" for t using assms that by (simp add: list_all_iff)
  note f = valid_tx_flags[OF v]
  have "valid_tx 2 TransactionFlag_of (t\<lparr>tcs_short_id_flags := map (\<lambda>_. NO_FLAGS) (tcs_short_ids t)\<rparr>)" if "t \<in> set txs" for t
    by (rule f(1)[OF that _ _ quota_flags_small(3)]) simp_all
  then show "list_all (valid_tx 2 TransactionFlag_of) (no_flags txs)" by (simp add: no_flags_def list_all_iff)
  show "list_all (valid_tx 1 QuotaType_of) (quota_flags txs)" "list_all (valid_tx 2 TransactionFlag_of) (quota_flags txs)"
    "list_all (valid_tx 0 Inr) (drop_flags txs)"
    unfolding quota_flags_def drop_flags_def list_all_iff
    using f(1)[of _ 1 _ QuotaType_of, OF _ _ _ quota_flags_small(1)] f(1)[of _ 2 _ TransactionFlag_of, OF _ _ _ quota_flags_small(2)] f(2,3)
    by (simp_all only: set_map ball_simps) (simp_all del: One_nat_def)
qed

lemma converted_length:
  "length (quota_flags txs) = length txs" "length (drop_flags txs) = length txs" "length (no_flags txs) = length txs"
  by (simp_all add: quota_flags_def drop_flags_def no_flags_def)

lemma tx_bytes_len_flags: "w \<le> 2 \<Longrightarrow> tx_bytes_len w (t\<lparr>tcs_short_id_flags := fs\<rparr>) \<le> tx_bytes_len 2 t"
  unfolding tx_bytes_len_def by (simp add: mult_le_mono1 split: option.split)

lemma converted_bytes_len:
  "w \<le> 2 \<Longrightarrow> sum_list (map (tx_bytes_len w) (quota_flags txs)) \<le> sum_list (map (tx_bytes_len 2) txs)"
  "w \<le> 2 \<Longrightarrow> sum_list (map (tx_bytes_len w) (drop_flags txs)) \<le> sum_list (map (tx_bytes_len 2) txs)"
  "w \<le> 2 \<Longrightarrow> sum_list (map (tx_bytes_len w) (no_flags txs)) \<le> sum_list (map (tx_bytes_len 2) txs)"
  unfolding quota_flags_def drop_flags_def no_flags_def map_map o_def by (rule sum_list_mono, rule tx_bytes_len_flags, assumption)+

lemma sync_body_length: "list_all (valid_tx w fo) txs \<Longrightarrow> length (sync_body w n txs) = 8 + sum_list (map (tx_bytes_len w) txs)"
  by (simp add: sync_body_def txs_enc_length)

lemma converted_ok:
  assumes "sync_ok 2 TransactionFlag_of n txs"
  shows "sync_ok 1 QuotaType_of n (quota_flags txs)" and "sync_ok 2 TransactionFlag_of n (quota_flags txs)"
    and "sync_ok 0 Inr n (drop_flags txs)" and "sync_ok 2 TransactionFlag_of n (no_flags txs)"
proof -
  have v: "list_all (valid_tx 2 TransactionFlag_of) txs" and b: "n < 256 ^ 4" "length txs < 256 ^ 4"
    "8 + sum_list (map (tx_bytes_len 2) txs) + 1 < 256 ^ 4"
    using assms sync_body_length[of 2 TransactionFlag_of txs n] unfolding sync_ok_def by simp_all
  note c = converted_valid[OF v]
  note l = sync_body_length[OF c(1), of n] sync_body_length[OF c(2), of n] sync_body_length[OF c(3), of n] sync_body_length[OF c(4), of n]
  show "sync_ok 1 QuotaType_of n (quota_flags txs)" "sync_ok 2 TransactionFlag_of n (quota_flags txs)"
    "sync_ok 0 Inr n (drop_flags txs)" "sync_ok 2 TransactionFlag_of n (no_flags txs)"
    unfolding sync_ok_def l converted_length
    using b c converted_bytes_len(1)[of 1 txs] converted_bytes_len(1)[of 2 txs] converted_bytes_len(2)[of 0 txs] converted_bytes_len(3)[of 2 txs]
    by (simp_all del: One_nat_def)
qed

lemma flags_of_small: "list_all (\<lambda>q. q < 8192) qs \<Longrightarrow> flags_of_quotas qs = Inr qs"
  by (induction qs) (simp_all add: TransactionFlag_of_def)

lemma with_flags_of_quota_flags: "with_flags_of_quotas (quota_flags txs) = Inr (quota_flags txs)"
proof (induction txs)
  case (Cons t txs)
  have "flags_of_quotas (map (\<lambda>f. if flag_in PAID_TX f then 2 else 1) fs) = Inr (map (\<lambda>f. if flag_in PAID_TX f then 2 else 1) fs)" for fs
    by (rule flags_of_small) (auto simp: list_all_iff)
  then show ?case using Cons by (simp add: quota_flags_def)
qed (simp add: quota_flags_def)

definition value_of :: "('a \<times> 'b) result \<Rightarrow> 'a result" where
  "value_of r = rbind r (\<lambda>(x, _). Inr x)"

lemma value_ofI: "\<exists>m'. r = Inr (x, m') \<and> P m' \<Longrightarrow> value_of r = Inr x"
  by (auto simp: value_of_def)

lemma v15_conversion:
  assumes "sync_ok 2 TransactionFlag_of n txs" and "holds_sync 2 n txs m"
  shows "\<exists>m'. TxSyncMessageConverterV15_convert_to_older_version m = Inr (sync_object 1 n (quota_flags txs), m') \<and> holds_sync 2 n txs m'"
    and "holds_sync 1 n (quota_flags txs) old \<Longrightarrow>
      \<exists>m'. TxSyncMessageConverterV15_convert_from_older_version old = Inr (sync_object 2 n (quota_flags txs), m')"
proof -
  obtain m1 where m1: "sync_txs_items (deserialize_txs 2 TransactionFlag_of) m = Inr (txs, m1)" "holds_sync 2 n txs m1"
    using holds_sync_reads(2)[OF assms(2,1)] by blast
  obtain m2 where m2: "TxServiceSyncTxsMessage_network_num m1 = Inr (n, m2)" "holds_sync 2 n txs m2"
    using holds_sync_reads(1)[OF m1(2) assms(1)] by blast
  show "\<exists>m'. TxSyncMessageConverterV15_convert_to_older_version m = Inr (sync_object 1 n (quota_flags txs), m') \<and> holds_sync 2 n txs m'"
    using m1(1) m2 old_sync_txs_new[OF converted_ok(1)[OF assms(1)]]
    by (simp add: TxSyncMessageConverterV15_convert_to_older_version_def TxServiceSyncTxsMessage_txs_content_short_ids_def
        deserialize_txs_content_short_ids_from_buffer_def TxServiceSyncTxsMessageV15_init_def serialize_txs_v15_def quota_value_flag
        quota_flags_def)
  assume h: "holds_sync 1 n (quota_flags txs) old"
  note ok = converted_ok(1,2)[OF assms(1)]
  obtain o1 where o1: "sync_txs_items (deserialize_txs 1 QuotaType_of) old = Inr (quota_flags txs, o1)" "holds_sync 1 n (quota_flags txs) o1"
    using holds_sync_reads(2)[OF h ok(1)] by blast
  obtain o2 where o2: "TxServiceSyncTxsMessage_network_num o1 = Inr (n, o2)"
    using holds_sync_reads(1)[OF o1(2) ok(1)] by blast
  show "\<exists>m'. TxSyncMessageConverterV15_convert_from_older_version old = Inr (sync_object 2 n (quota_flags txs), m')"
    using o1(1) o2 sync_txs_new[OF ok(2), of None None]
    by (simp add: TxSyncMessageConverterV15_convert_from_older_version_def TxServiceSyncTxsMessageV15_txs_content_short_ids_def
        deserialize_txs_v15_def with_flags_of_quota_flags)
qed

lemma v6_conversion:
  assumes "sync_ok 2 TransactionFlag_of n txs" and "holds_sync 2 n txs m"
  shows "\<exists>m'. TxSyncMessageConverterV6_convert_to_older_version m = Inr (sync_object 0 n (drop_flags txs), m') \<and> holds_sync 2 n txs m'"
    and "holds_sync 0 n (drop_flags txs) old \<Longrightarrow>
      \<exists>m'. TxSyncMessageConverterV6_convert_from_older_version old = Inr (sync_object 2 n (no_flags txs), m')"
proof -
  obtain m1 where m1: "sync_txs_items (deserialize_txs 2 TransactionFlag_of) m = Inr (txs, m1)" "holds_sync 2 n txs m1"
    using holds_sync_reads(2)[OF assms(2,1)] by blast
  obtain m2 where m2: "TxServiceSyncTxsMessage_network_num m1 = Inr (n, m2)" "holds_sync 2 n txs m2"
    using holds_sync_reads(1)[OF m1(2) assms(1)] by blast
  show "\<exists>m'. TxSyncMessageConverterV6_convert_to_older_version m = Inr (sync_object 0 n (drop_flags txs), m') \<and> holds_sync 2 n txs m'"
    using m1(1) m2 old_sync_txs_new[OF converted_ok(3)[OF assms(1)]]
    by (simp add: TxSyncMessageConverterV6_convert_to_older_version_def TxServiceSyncTxsMessage_txs_content_short_ids_def
        deserialize_txs_content_short_ids_from_buffer_def TxServiceSyncTxsMessageV6_init_def serialize_txs_v6_def drop_flags_def)
  assume h: "holds_sync 0 n (drop_flags txs) old"
  note ok = converted_ok(3,4)[OF assms(1)]
  obtain o1 where o1: "sync_txs_items (deserialize_txs 0 Inr) old = Inr (drop_flags txs, o1)" "holds_sync 0 n (drop_flags txs) o1"
    using holds_sync_reads(2)[OF h ok(1)] by blast
  obtain o2 where o2: "TxServiceSyncTxsMessage_network_num o1 = Inr (n, o2)"
    using holds_sync_reads(1)[OF o1(2) ok(1)] by blast
  have "map (\<lambda>t. t\<lparr>tcs_short_id_flags := map (\<lambda>_. NO_FLAGS) (tcs_short_ids t)\<rparr>) (drop_flags txs) = no_flags txs"
    by (simp add: drop_flags_def no_flags_def)
  then show "\<exists>m'. TxSyncMessageConverterV6_convert_from_older_version old = Inr (sync_object 2 n (no_flags txs), m')"
    using o1(1) o2 sync_txs_new[OF ok(2), of None None]
    by (simp add: TxSyncMessageConverterV6_convert_from_older_version_def TxServiceSyncTxsMessageV6_txs_content_short_ids_def
        deserialize_txs_v6_def)
qed

text \<open>
  C34. Complete transactions (with contents and with short ids other than 0, each with its flag) that one
  service sends to another arrive unchanged, and a peer of an older version gets them converted: to version 15 and back every flag is reduced to its quota, and a transaction of
  the free quota comes back with the flag \<open>STATUS_MONITORING\<close>, the transaction flag of value 1; to version 6
  and back all flags are lost. Hashes, contents, short ids and network number stay.
\<close>

theorem sync_txs_versions:
  assumes "n < 256 ^ 4" and "length txs < 256 ^ 4" and "list_all (valid_tx 2 TransactionFlag_of) txs"
    and "9 + get_serialized_txs_content_short_ids_bytes_len txs < 256 ^ 4"
  shows "\<exists>m r. TxServiceSyncTxsMessage_init (Some n) (Some txs) None None None = Inr m
    \<and> TxServiceSyncTxsMessage_init None None None None (Some (msg_buf m)) = Inr r \<and> msg_buf r = msg_buf m
    \<and> value_of (TxServiceSyncTxsMessage_network_num r) = Inr n \<and> value_of (TxServiceSyncTxsMessage_txs_content_short_ids r) = Inr txs
    \<and> (\<exists>old new. value_of (TxSyncMessageConverterV15_convert_to_older_version r) = Inr old
        \<and> value_of (TxServiceSyncTxsMessageV15_txs_content_short_ids old) = Inr (quota_flags txs)
        \<and> value_of (TxSyncMessageConverterV15_convert_from_older_version old) = Inr new
        \<and> TxServiceSyncTxsMessage_init (Some n) (Some (quota_flags txs)) None None None = Inr new)
    \<and> (\<exists>old new. value_of (TxSyncMessageConverterV6_convert_to_older_version r) = Inr old
        \<and> value_of (TxServiceSyncTxsMessageV6_txs_content_short_ids old) = Inr (drop_flags txs)
        \<and> value_of (TxSyncMessageConverterV6_convert_from_older_version old) = Inr new
        \<and> TxServiceSyncTxsMessage_init (Some n) (Some (no_flags txs)) None None None = Inr new)"
proof -
  have ok: "sync_ok 2 TransactionFlag_of n txs"
    using assms sync_body_length[OF assms(3), of n]
    by (simp add: sync_ok_def get_serialized_txs_content_short_ids_bytes_len_def get_serialized_tx_content_short_ids_bytes_len_def)
  obtain r where r: "TxServiceSyncTxsMessage_init None None None None (Some (msg_buf (sync_object 2 n txs))) = Inr r"
    "holds_sync 2 n txs r" "msg_buf r = msg_buf (sync_object 2 n txs)"
    using sync_txs_received(1)[OF ok] by blast
  note rd = holds_sync_reads[OF r(2) ok, THEN value_ofI]
  note c15 = v15_conversion(1)[OF ok r(2), THEN value_ofI] v15_conversion(2)[OF ok r(2) holds_sync_object]
    holds_sync_reads(2)[OF holds_sync_object converted_ok(1)[OF ok], THEN value_ofI]
  note c6 = v6_conversion(1)[OF ok r(2), THEN value_ofI] v6_conversion(2)[OF ok r(2) holds_sync_object]
    holds_sync_reads(2)[OF holds_sync_object converted_ok(3)[OF ok], THEN value_ofI]
  have f: "value_of (TxSyncMessageConverterV15_convert_from_older_version (sync_object 1 n (quota_flags txs))) = Inr (sync_object 2 n (quota_flags txs))"
    "value_of (TxSyncMessageConverterV6_convert_from_older_version (sync_object 0 n (drop_flags txs))) = Inr (sync_object 2 n (no_flags txs))"
    using c15(2) c6(2) by (auto simp: value_of_def)
  show ?thesis
    using sync_txs_new[OF ok, of None None] r(1,3) rd c15(1,3) c6(1,3) f sync_txs_new[OF converted_ok(2)[OF ok], of None None]
      sync_txs_new[OF converted_ok(4)[OF ok], of None None]
    by (simp add: TxServiceSyncTxsMessage_txs_content_short_ids_def TxServiceSyncTxsMessageV15_txs_content_short_ids_def
        TxServiceSyncTxsMessageV6_txs_content_short_ids_def deserialize_txs_content_short_ids_from_buffer_def
        deserialize_txs_v15_def deserialize_txs_v6_def)
qed

theorem sync_txs_versions_witness:
  "\<exists>m. TxServiceSyncTxsMessage_init (Some 5)
      (Some [\<lparr>tcs_tx_hash = replicate 32 7, tcs_tx_content = Some [1, 2, 3], tcs_short_ids = [5], tcs_short_id_flags = [0]\<rparr>]) None None None = Inr m
    \<and> quota_flags [\<lparr>tcs_tx_hash = replicate 32 7, tcs_tx_content = Some [1, 2, 3], tcs_short_ids = [5], tcs_short_id_flags = [0]\<rparr>]
      = [\<lparr>tcs_tx_hash = replicate 32 7, tcs_tx_content = Some [1, 2, 3], tcs_short_ids = [5], tcs_short_id_flags = [1]\<rparr>]"
proof -
  let ?t = "\<lparr>tcs_tx_hash = replicate 32 7, tcs_tx_content = Some [1, 2, 3], tcs_short_ids = [5], tcs_short_id_flags = [0]\<rparr>"
  have "list_all (valid_tx 2 TransactionFlag_of) [?t]" by (simp add: valid_tx_def tx_is_complete_def TransactionFlag_of_def)
  moreover have "9 + get_serialized_txs_content_short_ids_bytes_len [?t] < 256 ^ 4"
    by (simp add: get_serialized_txs_content_short_ids_bytes_len_def get_serialized_tx_content_short_ids_bytes_len_def tx_bytes_len_def
        SHA256_HASH_LEN_def)
  ultimately show ?thesis
    using sync_txs_versions[of 5 "[?t]"] by (auto simp: quota_flags_def flag_in_def)
qed

subsection \<open>Requested transactions\<close>

definition tx_infos_enc :: "TransactionInfo list \<Rightarrow> bytes" where
  "tx_infos_enc txs = le_bytes 4 (length txs) @ tx_info.enc_list txs"

definition valid_tx_infos :: "TransactionInfo list \<Rightarrow> bool" where
  "valid_tx_infos txs \<longleftrightarrow> list_all valid_tx_info txs \<and> length txs < 256 ^ 4"

lemma tx_infos_writes:
  assumes "valid_tx_infos txs"
  shows "writes (\<lambda>b o'. serialize_transactions_info_to_buffer txs b o') (tx_infos_enc txs)"
proof -
  have "writes (\<lambda>b o'. put_items put_tx_info b o' txs) (tx_info.enc_list txs)"
    using assms tx_info.put_items_enc by (simp add: writes_def valid_tx_infos_def)
  then show ?thesis
    unfolding serialize_transactions_info_to_buffer_def tx_infos_enc_def using assms
    by (intro writes_seq writes_u) (simp_all add: valid_tx_infos_def)
qed

lemma tx_infos_reads:
  assumes "valid_tx_infos txs"
  shows "reads deserialize_transactions_info_from_buffer (tx_infos_enc txs) txs"
proof -
  have "reads (\<lambda>b o'. get_items get_tx_info b o' (length txs)) (tx_info.enc_list txs) txs"
    using assms tx_info.get_items_enc by (simp add: reads_def valid_tx_infos_def)
  then show ?thesis
    unfolding deserialize_transactions_info_from_buffer_def[abs_def] tx_infos_enc_def using assms
    by (intro reads_seq[OF reads_u]) (simp_all add: valid_tx_infos_def)
qed

lemma short_ids_writes: "valid_short_ids sids \<Longrightarrow> writes (\<lambda>b o'. serialize_short_ids_to_buffer sids b o') (short_ids_enc sids)"
  using short_ids.put_enc by (simp add: writes_def)

lemma short_ids_reads: "valid_short_ids sids \<Longrightarrow> reads deserialize_short_ids_from_buffer (short_ids_enc sids) sids"
  using short_ids.get_enc by (simp add: reads_def)

lemma tx_infos_length: "valid_tx_infos txs \<Longrightarrow> transactions_info_get_serialized_length txs = Inr (length (tx_infos_enc txs))"
  by (simp add: tx_info_length valid_tx_infos_def tx_infos_enc_def)

lemma txs_message_new:
  assumes "valid_tx_infos txs" and "length (tx_infos_enc txs) + 1 < 256 ^ 4"
  shows "TxsMessage_init (Some txs) None = Inr (payload_object (MESSAGE_TYPE TxsMessage) (tx_infos_enc txs) txs_blank)"
  using write_payload[OF tx_infos_writes[OF assms(1)]] finish_payload[of "replicate 20 0" "tx_infos_enc txs" 0 "MESSAGE_TYPE TxsMessage" txs_blank] assms
  by (simp add: TxsMessage_init_def TxsMessage_txs_to_bytes_def opt_or_def tx_infos_length)

lemma txs_message_get:
  assumes "valid_tx_infos txs"
  shows "value_of (TxsMessage_get_txs (payload_object (MESSAGE_TYPE TxsMessage) (tx_infos_enc txs) txs_blank)) = Inr txs"
  using read_payload[OF tx_infos_reads[OF assms], of "MESSAGE_TYPE TxsMessage" "[1]"]
  by (simp add: TxsMessage_get_txs_def payload_object_def txs_blank_def value_of_def)

definition block_head :: "nat \<Rightarrow> bytes \<Rightarrow> bytes" where
  "block_head n h = le_bytes 4 n @ h"

lemma length_block_head [simp]: "length (block_head n h) = 4 + length h"
  by (simp add: block_head_def)

lemma block_txs_new:
  assumes "n < 256 ^ 4" and "length (binary h) = 32" and "valid_tx_infos txs" and "37 + length (tx_infos_enc txs) < 256 ^ 4"
  shows "CompressedBlockTxsMessage_init (Some n) (Some h) (Some txs) None
    = Inr (payload_object (MESSAGE_TYPE CompressedBlockTxsMessage) (block_head n (binary h) @ tx_infos_enc txs) block_txs_blank)"
proof -
  let ?e = "block_head n (binary h) @ tx_infos_enc txs"
  have "writes (\<lambda>b o'. rbind (put_u 4 b o' n) (\<lambda>(b, o'). rbind (put_raw 32 b o' (binary h)) (\<lambda>(b, o').
      serialize_transactions_info_to_buffer txs b o'))) (le_bytes 4 n @ binary h @ tx_infos_enc txs)"
    using assms by (intro writes_seq writes_u writes_raw tx_infos_writes) simp_all
  from write_payload[OF this] have "rbind (put_u 4 (replicate (57 + length (tx_infos_enc txs)) 0) 20 n) (\<lambda>(b, o').
      rbind (put_raw 32 b o' (binary h)) (\<lambda>(b, o'). serialize_transactions_info_to_buffer txs b o'))
      = Inr (replicate 20 0 @ ?e @ [0], 56 + length (tx_infos_enc txs))"
    using assms(2) by (simp add: block_head_def)
  moreover have "finish_message (MESSAGE_TYPE CompressedBlockTxsMessage) block_txs_blank (replicate 20 0 @ ?e @ [0])
      = Inr (payload_object (MESSAGE_TYPE CompressedBlockTxsMessage) ?e block_txs_blank)"
    using assms by (intro finish_payload) simp_all
  ultimately show ?thesis
    by (auto simp: CompressedBlockTxsMessage_init_def CompressedBlockTxsMessage_serialize_def tx_infos_length[OF assms(3)]
        SHA256_HASH_LEN_def rbind_def split: sum.splits)
qed

lemma read_behind:
  assumes "reads g e x"
  shows "g (frame ty (a @ e @ post)) (20 + length a) = Inr (x, 20 + length a + length e)"
proof -
  let ?h = "STARTING_SEQUENCE_BYTES @ pad_to 12 ty @ le_bytes 4 (length (a @ e @ post)) @ a"
  have "g (?h @ e @ post) (length ?h) = Inr (x, length ?h + length e)" using assms unfolding reads_def by blast
  then show ?thesis by (simp add: frame_def)
qed

lemma block_txs_fields:
  assumes "n < 256 ^ 4" and "length h = 32" and "valid_tx_infos txs"
    and "m = payload_object (MESSAGE_TYPE CompressedBlockTxsMessage) (block_head n h @ tx_infos_enc txs) block_txs_blank"
  shows "CompressedBlockTxsMessage_parse m
      = Inr (m\<lparr>bt_network_num := Some n, bt_block_hash := Some \<lparr>binary = h, hash_value = of_le (drop 28 h)\<rparr>, bt_txs := Some txs\<rparr>)"
    and "value_of (CompressedBlockTxsMessage_get_txs_count m) = Inr (length txs)"
proof -
  have b: "msg_buf m = frame (MESSAGE_TYPE CompressedBlockTxsMessage) (block_head n h @ tx_infos_enc txs @ [1])"
    using assms(4) by (simp add: payload_object_def)
  have "get_u 4 (msg_buf m) 20 = Inr (n, 24)" "bslice 24 56 (msg_buf m) = h" "unpack_from 4 (msg_buf m) 56 = Inr (length txs)"
    using assms(1-3) by (simp_all add: b get_u_def block_head_def tx_infos_enc_def valid_tx_infos_def bfield_simps of_le_le_bytes)
  moreover have "deserialize_transactions_info_from_buffer (msg_buf m) 56 = Inr (txs, 56 + length (tx_infos_enc txs))"
    unfolding b using read_behind[OF tx_infos_reads[OF assms(3)], of _ "block_head n h" "[1]"] assms(2) by simp
  ultimately show "CompressedBlockTxsMessage_parse m
      = Inr (m\<lparr>bt_network_num := Some n, bt_block_hash := Some \<lparr>binary = h, hash_value = of_le (drop 28 h)\<rparr>, bt_txs := Some txs\<rparr>)"
    "value_of (CompressedBlockTxsMessage_get_txs_count m) = Inr (length txs)"
    using assms(2,4) by (simp_all add: CompressedBlockTxsMessage_parse_def SHA256_HASH_LEN_def Sha256Hash_init_ok
        CompressedBlockTxsMessage_get_txs_count_def value_of_def payload_object_def block_txs_blank_def)
qed

text \<open>
  C36. The transactions a gateway misses in a compressed block: from the answer of the relay it reads the
  network number, the hash of the block and the transactions, and the message that only carries the
  transactions is exactly the one a node would have been sent that had asked for them by short id.
\<close>

theorem block_txs_forwarded:
  assumes "n < 256 ^ 4" and "length (binary h) = 32" and "list_all valid_tx_info txs" and "length txs < 256 ^ 4"
    and "transactions_info_get_serialized_length txs = Inr k" and "37 + k < 256 ^ 4"
  shows "\<exists>m r t h'. CompressedBlockTxsMessage_init (Some n) (Some h) (Some txs) None = Inr m
    \<and> CompressedBlockTxsMessage_init None None None (Some (msg_buf m)) = Inr r
    \<and> value_of (CompressedBlockTxsMessage_network_num r) = Inr n
    \<and> value_of (CompressedBlockTxsMessage_block_hash r) = Inr h' \<and> binary h' = binary h
    \<and> value_of (CompressedBlockTxsMessage_get_txs r) = Inr txs
    \<and> value_of (CompressedBlockTxsMessage_get_txs_count r) = Inr (length txs)
    \<and> value_of (CompressedBlockTxsMessage_to_txs_message r) = Inr t
    \<and> TxsMessage_init (Some txs) None = Inr t \<and> value_of (TxsMessage_get_txs t) = Inr txs"
proof -
  let ?e = "tx_infos_enc txs" and ?ty = "MESSAGE_TYPE CompressedBlockTxsMessage"
  have v: "valid_tx_infos txs" using assms(3,4) by (simp add: valid_tx_infos_def)
  have k: "k = length ?e" using tx_infos_length[OF v] assms(5) by simp
  let ?m = "payload_object ?ty (block_head n (binary h) @ ?e) block_txs_blank"
  let ?t = "payload_object (MESSAGE_TYPE TxsMessage) ?e txs_blank"
  let ?h = "STARTING_SEQUENCE_BYTES @ pad_to 12 ?ty @ le_bytes 4 (length (block_head n (binary h) @ ?e @ [1]))"
  have b: "msg_buf ?m = ?h @ (block_head n (binary h) @ ?e) @ [1]" by (simp add: payload_object_def frame_def)
  have new: "CompressedBlockTxsMessage_init (Some n) (Some h) (Some txs) None = Inr ?m"
    using block_txs_new[OF assms(1,2) v] assms(6) k by simp
  have "finish_message ?ty block_txs_blank (?h @ (block_head n (binary h) @ ?e) @ [1]) = Inr ?m"
    using assms(2,6) k by (intro finish_payload) simp_all
  then have recv: "CompressedBlockTxsMessage_init None None None (Some (msg_buf ?m)) = Inr ?m"
    unfolding b by (simp add: CompressedBlockTxsMessage_init_def)
  note f = block_txs_fields[OF assms(1,2) v refl]
  have c: "bt_network_num ?m = None" "bt_block_hash ?m = None" "bt_txs ?m = None" by (simp_all add: payload_object_def block_txs_blank_def)
  have raw: "AbstractInternalMessage_rawbytes ?m = Inr (msg_buf ?m, ?m)"
    by (simp add: AbstractInternalMessage_rawbytes_def AbstractInternalMessage_payload_len_def payload_object_def)
  have d: "drop 56 (msg_buf ?m) = ?e @ [1]" unfolding b using assms(2) by (simp add: block_head_def)
  have "finish_message (MESSAGE_TYPE TxsMessage) txs_blank (replicate 20 0 @ ?e @ [1]) = Inr ?t"
    using assms(6) k by (intro finish_payload) simp_all
  then have fwd: "value_of (CompressedBlockTxsMessage_to_txs_message ?m) = Inr ?t"
    unfolding CompressedBlockTxsMessage_to_txs_message_def raw rbind_Inr prod.case d
    by (simp add: TxsMessage_init_def slice_assign_def value_of_def)
  show ?thesis
    using new recv f fwd c txs_message_new[OF v] txs_message_get[OF v] assms(6) k
    by (intro exI[of _ ?m] exI[of _ ?t] exI[of _ "\<lparr>binary = binary h, hash_value = of_le (drop 28 (binary h))\<rparr>"])
      (simp add: CompressedBlockTxsMessage_network_num_def CompressedBlockTxsMessage_block_hash_def
        CompressedBlockTxsMessage_get_txs_def opt_or_def value_of_def)
qed

theorem block_txs_forwarded_witness:
  "\<exists>m t. CompressedBlockTxsMessage_init (Some 5) (Some \<lparr>binary = replicate 32 4, hash_value = 0\<rparr>)
      (Some [\<lparr>ti_hash = Some (replicate 32 3), ti_contents = Some [1], ti_short_id = Some 9\<rparr>]) None = Inr m
    \<and> TxsMessage_init (Some [\<lparr>ti_hash = Some (replicate 32 3), ti_contents = Some [1], ti_short_id = Some 9\<rparr>]) None = Inr t"
proof -
  let ?t = "\<lparr>ti_hash = Some (replicate 32 3), ti_contents = Some [1], ti_short_id = Some 9\<rparr>"
  let ?h = "\<lparr>binary = replicate 32 4, hash_value = 0\<rparr> :: object_hash"
  have "list_all valid_tx_info [?t]" by (simp add: valid_tx_info_def)
  moreover have "transactions_info_get_serialized_length [?t] = Inr 45"
    by (simp add: transactions_info_get_serialized_length_def opt_or_def SHA256_HASH_LEN_def)
  ultimately show ?thesis
    using block_txs_forwarded[of 5 ?h "[?t]" 45] by auto
qed

lemma get_txs_read_back:
  assumes "valid_short_ids sids" and "5 + 4 * length sids < 256 ^ 4"
  shows "\<exists>m r. GetTxsMessage_init (Some sids) None = Inr m \<and> GetTxsMessage_init None (Some (msg_buf m)) = Inr r
    \<and> value_of (GetTxsMessage_get_short_ids r) = Inr sids
    \<and> value_of (GetTxsMessage_get_serialized_short_ids m) = serialize_short_ids sids"
proof -
  let ?e = "short_ids_enc sids" and ?ty = "MESSAGE_TYPE GetTxsMessage"
  let ?m = "payload_object ?ty ?e (get_txs_blank [])"
  have l: "length ?e = 4 + 4 * length sids" by (simp add: short_ids_enc_def)
  have "GetTxsMessage_init (Some sids) None = Inr ?m"
    using write_payload[OF short_ids_writes[OF assms(1)]] finish_payload[of "replicate 20 0" ?e 0 ?ty "get_txs_blank []"] assms l
    by (simp add: GetTxsMessage_init_def GetTxsMessage_short_ids_to_bytes_def opt_or_def short_ids_get_serialized_length_def mult.commute)
  moreover have b: "msg_buf ?m = frame ?ty (?e @ [1])" by (simp add: payload_object_def)
  moreover have "value_of (GetTxsMessage_get_short_ids (get_txs_blank (frame ?ty (?e @ [1])))) = Inr sids"
    using read_payload[OF short_ids_reads[OF assms(1)], of ?ty "[1]"]
    by (simp add: GetTxsMessage_get_short_ids_def get_txs_blank_def value_of_def)
  moreover have "value_of (GetTxsMessage_get_serialized_short_ids ?m) = Inr ?e"
    using bslice_middle[of "STARTING_SEQUENCE_BYTES @ pad_to 12 ?ty @ le_bytes 4 (length ?e + 1)" ?e "[1]"]
    by (simp add: GetTxsMessage_get_serialized_short_ids_def AbstractInternalMessage_rawbytes_def AbstractInternalMessage_payload_len_def
        value_of_def payload_object_def) (simp add: frame_def)
  ultimately show ?thesis
    using serialize_short_ids_enc[OF assms(1)] by (auto simp: GetTxsMessage_init_def)
qed

lemma get_tx_contents_read_back:
  assumes "n < 256 ^ 4" and "s < 256 ^ 4"
  shows "\<exists>m r. GetTxContentsMessage_init (Some n) (Some s) None = Inr m \<and> GetTxContentsMessage_init None None (Some (msg_buf m)) = Inr r
    \<and> value_of (GetTxContentsMessage_network_num r) = (if n = 0 then Inl AssertionError else Inr n)
    \<and> value_of (GetTxContentsMessage_get_short_id r) = (if s = 0 then Inl AssertionError else Inr s)"
proof -
  let ?e = "le_bytes 4 n @ le_bytes 4 s" and ?ty = "MESSAGE_TYPE GetTxContentsMessage"
  let ?m = "payload_object ?ty ?e (get_tx_contents_blank [])" and ?r = "get_tx_contents_blank (frame ?ty (?e @ [1]))"
  have "writes (\<lambda>b o'. rbind (put_u 4 b o' n) (\<lambda>(b, o'). put_u 4 b o' s)) ?e" using assms by (intro writes_seq writes_u)
  from write_payload[OF this] have "rbind (put_u 4 (replicate 29 0) 20 n) (\<lambda>(b, o'). put_u 4 b o' s) = Inr (replicate 20 0 @ ?e @ [0], 28)"
    by simp
  then have new: "GetTxContentsMessage_init (Some n) (Some s) None = Inr ?m"
    using finish_payload[of "replicate 20 0" ?e 0 ?ty "get_tx_contents_blank []"]
    by (auto simp: GetTxContentsMessage_init_def opt_or_def rbind_def split: sum.splits)
  have "get_u 4 (msg_buf ?r) 20 = Inr (n, 24)" "get_u 4 (msg_buf ?r) 24 = Inr (s, 28)"
    using assms by (simp_all add: get_tx_contents_blank_def get_u_def bfield_simps of_le_le_bytes)
  then have "GetTxContentsMessage_parse ?r = Inr (?r\<lparr>gc_network_num := Some n, gc_short_id := Some s\<rparr>)"
    by (simp add: GetTxContentsMessage_parse_def)
  then have "value_of (GetTxContentsMessage_network_num ?r) = (if n = 0 then Inl AssertionError else Inr n)"
    "value_of (GetTxContentsMessage_get_short_id ?r) = (if s = 0 then Inl AssertionError else Inr s)"
    by (simp_all add: GetTxContentsMessage_network_num_def GetTxContentsMessage_get_short_id_def value_of_def get_tx_contents_blank_def
        rassert_def)
  then show ?thesis using new by (auto simp: GetTxContentsMessage_init_def payload_object_def)
qed

lemma get_block_txs_read_back:
  assumes "n < 256 ^ 4" and "length (binary h) = 32" and "valid_short_ids sids" and "41 + 4 * length sids < 256 ^ 4"
  shows "\<exists>m r h'. GetCompressedBlockTxsMessage_init (Some n) (Some h) (Some sids) None = Inr m
    \<and> GetCompressedBlockTxsMessage_init None None None (Some (msg_buf m)) = Inr r
    \<and> value_of (GetCompressedBlockTxsMessage_network_num r) = Inr n
    \<and> value_of (GetCompressedBlockTxsMessage_block_hash r) = Inr h' \<and> binary h' = binary h
    \<and> value_of (GetCompressedBlockTxsMessage_get_short_ids r) = Inr sids"
proof -
  let ?s = "short_ids_enc sids" and ?ty = "MESSAGE_TYPE GetCompressedBlockTxsMessage"
  let ?e = "block_head n (binary h) @ ?s"
  let ?m = "payload_object ?ty ?e (get_block_txs_blank [])" and ?r = "get_block_txs_blank (frame ?ty (?e @ [1]))"
  have l: "length ?s = 4 + 4 * length sids" by (simp add: short_ids_enc_def)
  have "writes (\<lambda>b o'. rbind (put_u 4 b o' n) (\<lambda>(b, o'). rbind (put_raw 32 b o' (binary h)) (\<lambda>(b, o').
      serialize_short_ids_to_buffer sids b o'))) (le_bytes 4 n @ binary h @ ?s)"
    using assms by (intro writes_seq writes_u writes_raw short_ids_writes) simp_all
  from write_payload[OF this] have w: "rbind (put_u 4 (replicate (57 + (4 + length sids * 4)) 0) 20 n) (\<lambda>(b, o').
      rbind (put_raw 32 b o' (binary h)) (\<lambda>(b, o'). serialize_short_ids_to_buffer sids b o'))
      = Inr (replicate 20 0 @ ?e @ [0], 56 + length ?s)"
    using assms(2) l by (simp add: block_head_def algebra_simps)
  have "finish_message ?ty (get_block_txs_blank []) (replicate 20 0 @ ?e @ [0]) = Inr ?m"
    using assms l by (intro finish_payload) simp_all
  then have new: "GetCompressedBlockTxsMessage_init (Some n) (Some h) (Some sids) None = Inr ?m"
    using w by (auto simp: GetCompressedBlockTxsMessage_init_def GetCompressedBlockTxsMessage_serialize_def opt_or_def Let_def
        short_ids_get_serialized_length_def SHA256_HASH_LEN_def rbind_def split: sum.splits)
  let ?h = "\<lparr>binary = binary h, hash_value = of_le (drop 28 (binary h))\<rparr> :: object_hash"
  have mb: "msg_buf ?r = frame ?ty (block_head n (binary h) @ ?s @ [1])" by (simp add: get_block_txs_blank_def)
  have "get_u 4 (msg_buf ?r) 20 = Inr (n, 24)" "bslice 24 56 (msg_buf ?r) = binary h"
    unfolding mb using assms(1,2) by (simp_all add: get_u_def block_head_def bfield_simps of_le_le_bytes)
  moreover have "deserialize_short_ids_from_buffer (msg_buf ?r) 56 = Inr (sids, 56 + length ?s)"
    unfolding mb using read_behind[OF short_ids_reads[OF assms(3)], of ?ty "block_head n (binary h)" "[1]"] assms(2) by simp
  ultimately have "GetCompressedBlockTxsMessage_parse ?r = Inr (?r\<lparr>gb_network_num := Some n, gb_block_hash := Some ?h, gb_short_ids := Some sids\<rparr>)"
    using assms(2) by (simp add: GetCompressedBlockTxsMessage_parse_def SHA256_HASH_LEN_def Sha256Hash_init_ok)
  moreover have "gb_network_num ?r = None" "gb_block_hash ?r = None" "gb_short_ids ?r = None" by (simp_all add: get_block_txs_blank_def)
  ultimately show ?thesis
    using new by (intro exI[of _ ?m] exI[of _ ?r] exI[of _ ?h])
      (simp add: GetCompressedBlockTxsMessage_init_def payload_object_def GetCompressedBlockTxsMessage_network_num_def
        GetCompressedBlockTxsMessage_block_hash_def GetCompressedBlockTxsMessage_get_short_ids_def opt_or_def value_of_def)
qed

text \<open>
  C37. Requests carry what is asked for: the short ids of a request for transactions, also as the
  serialized list that is handed on; network number and short id of a request for contents, where the
  reader refuses the value 0 by a failed assertion; network number, block hash and short ids of a
  request for the transactions of a block.
\<close>

theorem requests_read_back:
  assumes "valid_short_ids sids" and "41 + 4 * length sids < 256 ^ 4" and "n < 256 ^ 4" and "s < 256 ^ 4" and "length (binary h) = 32"
  shows "(\<exists>m r. GetTxsMessage_init (Some sids) None = Inr m \<and> GetTxsMessage_init None (Some (msg_buf m)) = Inr r
      \<and> value_of (GetTxsMessage_get_short_ids r) = Inr sids
      \<and> value_of (GetTxsMessage_get_serialized_short_ids m) = serialize_short_ids sids)
    \<and> (\<exists>m r. GetTxContentsMessage_init (Some n) (Some s) None = Inr m \<and> GetTxContentsMessage_init None None (Some (msg_buf m)) = Inr r
      \<and> value_of (GetTxContentsMessage_network_num r) = (if n = 0 then Inl AssertionError else Inr n)
      \<and> value_of (GetTxContentsMessage_get_short_id r) = (if s = 0 then Inl AssertionError else Inr s))
    \<and> (\<exists>m r h'. GetCompressedBlockTxsMessage_init (Some n) (Some h) (Some sids) None = Inr m
      \<and> GetCompressedBlockTxsMessage_init None None None (Some (msg_buf m)) = Inr r
      \<and> value_of (GetCompressedBlockTxsMessage_network_num r) = Inr n
      \<and> value_of (GetCompressedBlockTxsMessage_block_hash r) = Inr h' \<and> binary h' = binary h
      \<and> value_of (GetCompressedBlockTxsMessage_get_short_ids r) = Inr sids)"
  using get_txs_read_back[OF assms(1)] get_tx_contents_read_back[OF assms(3,4)] get_block_txs_read_back[OF assms(3,5,1,2)] assms(2)
  by (intro conjI) simp_all

theorem requests_read_back_witness:
  "\<exists>m r. GetTxsMessage_init (Some [7, 9]) None = Inr m \<and> GetTxsMessage_init None (Some (msg_buf m)) = Inr r
    \<and> value_of (GetTxsMessage_get_short_ids r) = Inr [7, 9]"
proof -
  have "valid_short_ids [7, 9]" by (simp add: valid_short_ids_def)
  from requests_read_back[OF this, of 5 3 "\<lparr>binary = replicate 32 4, hash_value = 0\<rparr>"] show ?thesis by auto
qed

lemma tx_contents_read_back:
  assumes "n < 256 ^ 4" and "valid_tx_info t" and "45 + length (the (ti_contents t)) < 256 ^ 4"
  shows "\<exists>m r. TxContentsMessage_init (Some n) (Some t) None = Inr m \<and> TxContentsMessage_init None None (Some (msg_buf m)) = Inr r
    \<and> value_of (TxContentsMessage_network_num r) = Inr n \<and> value_of (TxContentsMessage_get_tx_info r) = Inr t"
proof -
  obtain h c s where t: "ti_hash t = Some h" "ti_contents t = Some c" "ti_short_id t = Some s"
    "length h = 32" "length c < 256 ^ 4" "s < 256 ^ 4"
    using assms(2) unfolding valid_tx_info_def by blast
  have t': "t = \<lparr>ti_hash = Some h, ti_contents = Some c, ti_short_id = Some s\<rparr>" using t by simp
  let ?e = "le_bytes 4 n @ le_bytes 4 s @ h @ le_bytes 4 (length c) @ c" and ?ty = "MESSAGE_TYPE TxContentsMessage"
  let ?m = "payload_object ?ty ?e (tx_contents_blank [])" and ?r = "tx_contents_blank (frame ?ty (?e @ [1]))"
  have "writes (\<lambda>b o'. rbind (put_u 4 b o' n) (\<lambda>(b, o'). rbind (put_u 4 b o' s) (\<lambda>(b, o'). rbind (put_raw 32 b o' h) (\<lambda>(b, o').
      rbind (put_u 4 b o' (length c)) (\<lambda>(b, o'). put_raw (length c) b o' c))))) ?e"
    using assms(1) t by (intro writes_seq writes_u writes_raw) simp_all
  from write_payload[OF this] have w: "rbind (put_u 4 (replicate (65 + length c) 0) 20 n) (\<lambda>(b, o'). rbind (put_u 4 b o' s) (\<lambda>(b, o').
      rbind (put_raw 32 b o' h) (\<lambda>(b, o'). rbind (put_u 4 b o' (length c)) (\<lambda>(b, o'). put_raw (length c) b o' c))))
      = Inr (replicate 20 0 @ ?e @ [0], 64 + length c)"
    using t(4) by simp
  have "finish_message ?ty (tx_contents_blank []) (replicate 20 0 @ ?e @ [0]) = Inr ?m"
    using assms(3) t by (intro finish_payload) simp_all
  then have new: "TxContentsMessage_init (Some n) (Some t) None = Inr ?m"
    using w t by (auto simp: TxContentsMessage_init_def finish_message_def opt_or_def Let_def SHA256_HASH_LEN_def rbind_def split: sum.splits)
  have "reads (\<lambda>b o'. rbind (get_u 4 b o') (\<lambda>(n, o'). rbind (get_u 4 b o') (\<lambda>(s, o'). rbind (get_hash b o') (\<lambda>(h, o').
      rbind (get_u 4 b o') (\<lambda>(z, o'). rbind (get_raw z b o') (\<lambda>(c, o'). Inr ((n, s, h, c), o'))))))) (?e @ []) (n, s, h, c)"
    unfolding append_assoc using assms(1) t
    by (intro reads_seq[OF reads_u] reads_seq[OF reads_hash] reads_seq[OF reads_raw] reads_return) simp_all
  from read_payload[OF this, of ?ty "[1]"]
  have "TxContentsMessage_parse ?r = Inr (?r\<lparr>tc_network_num := Some n, tc_tx_info := Some t\<rparr>)"
    by (auto simp: TxContentsMessage_parse_def tx_contents_blank_def t' rbind_def split: sum.splits)
  then show ?thesis
    using new by (intro exI[of _ ?m] exI[of _ ?r]) (simp add: TxContentsMessage_init_def payload_object_def TxContentsMessage_network_num_def
        TxContentsMessage_get_tx_info_def value_of_def opt_or_def tx_contents_blank_def)
qed

lemma sync_network_read_back:
  assumes "n < 256 ^ 4"
  shows "\<exists>m r. TxServiceSyncReqMessage_init (Some n) None = Inr m \<and> TxServiceSyncReqMessage_init None (Some (msg_buf m)) = Inr r
      \<and> value_of (TxServiceSyncReqMessage_network_num r) = Inr n"
    and "\<exists>m r. TxServiceSyncCompleteMessage_init (Some n) None = Inr m \<and> TxServiceSyncCompleteMessage_init None (Some (msg_buf m)) = Inr r
      \<and> value_of (TxServiceSyncCompleteMessage_network_num r) = Inr n"
proof -
  have "writes (\<lambda>b o'. put_u 4 b o' n) (le_bytes 4 n)" using assms by (rule writes_u)
  from write_payload[OF this] have w: "pack_into 4 (replicate 25 0) 20 n = Inr (replicate 20 0 @ le_bytes 4 n @ [0])"
    by (auto simp: put_u_def rbind_def split: sum.splits)
  let ?o = "\<lambda>ty. payload_object ty (le_bytes 4 n)" and ?h = "\<lambda>ty. STARTING_SEQUENCE_BYTES @ pad_to 12 ty @ le_bytes 4 5"
  have f: "finish_message ty m (replicate 20 0 @ le_bytes 4 n @ [0]) = Inr (?o ty m)"
    "finish_message ty m (frame ty (le_bytes 4 n @ [1])) = Inr (?o ty m)" for ty and m :: sync_network_message
    using finish_payload[of "replicate 20 0" "le_bytes 4 n" 0 ty m] finish_payload[of "?h ty" "le_bytes 4 n" 1 ty m] by (simp_all add: frame_def)
  have u: "unpack_from 4 (frame ty (le_bytes 4 n @ [1])) 20 = Inr n" for ty
    using assms by (simp add: bfield_simps of_le_le_bytes)
  show "\<exists>m r. TxServiceSyncReqMessage_init (Some n) None = Inr m \<and> TxServiceSyncReqMessage_init None (Some (msg_buf m)) = Inr r
      \<and> value_of (TxServiceSyncReqMessage_network_num r) = Inr n"
    "\<exists>m r. TxServiceSyncCompleteMessage_init (Some n) None = Inr m \<and> TxServiceSyncCompleteMessage_init None (Some (msg_buf m)) = Inr r
      \<and> value_of (TxServiceSyncCompleteMessage_network_num r) = Inr n"
    by (simp_all add: TxServiceSyncReqMessage_init_def TxServiceSyncCompleteMessage_init_def TxServiceSyncReqMessage_network_num_def
        TxServiceSyncCompleteMessage_network_num_def sync_network_num_def w f u payload_object_def sync_network_blank_def value_of_def)
qed

lemma sync_blocks_read_back:
  assumes "n < 256 ^ 4" and "length blocks < 256 ^ 4" and "list_all valid_block_short_ids blocks"
    and "10 + get_serialized_blocks_short_ids_bytes_len blocks < 256 ^ 4"
  shows "\<exists>m r. TxServiceSyncBlocksShortIdsMessage_init (Some n) (Some blocks) None = Inr m
    \<and> TxServiceSyncBlocksShortIdsMessage_init None None (Some (msg_buf m)) = Inr r \<and> length (msg_buf r) = length (msg_buf m) + 1
    \<and> value_of (TxServiceSyncBlocksShortIdsMessage_network_num r) = Inr n
    \<and> value_of (TxServiceSyncBlocksShortIdsMessage_blocks_short_ids r) = Inr blocks"
proof -
  let ?ty = "MESSAGE_TYPE TxServiceSyncBlocksShortIdsMessage" and ?k = "length blocks"
  obtain bs where bs: "serialize_blocks_short_ids_into_bytes blocks = Inr bs" "length bs = get_serialized_blocks_short_ids_bytes_len blocks"
    and d: "\<And>pre post. deserialize_blocks_short_ids_from_buffer (pre @ bs @ post) (length pre) ?k = Inr blocks"
    using blocks_short_ids_round_trip[OF assms(3)] by (metis (no_types, lifting) sum.inject(2))
  let ?e = "le_bytes 4 n @ le_bytes 4 ?k @ bs"
  let ?m = "payload_object ?ty ?e (sync_blocks_blank (Some n) (Some ?k))" and ?r = "payload_object ?ty (?e @ [1]) (sync_blocks_blank None None)"
  let ?h = "STARTING_SEQUENCE_BYTES @ pad_to 12 ?ty @ le_bytes 4 (length ?e + 1)"
  have "pack_two (replicate 28 0) (Some n) (Some ?k) = Inr (replicate 20 0 @ le_bytes 4 n @ le_bytes 4 ?k)"
    using assms(1,2) by (intro pack_two_28) simp_all
  moreover have "finish_message ?ty (sync_blocks_blank (Some n) (Some ?k)) (replicate 20 0 @ ?e @ [0]) = Inr ?m"
    using assms(4) bs(2) by (intro finish_payload) simp_all
  ultimately have new: "TxServiceSyncBlocksShortIdsMessage_init (Some n) (Some blocks) None = Inr ?m"
    using bs(1) by (simp add: TxServiceSyncBlocksShortIdsMessage_init_def TxServiceSyncBlocksShortIdsMessage_parse_def)
  have "msg_buf ?m = ?h @ ?e @ [1]" by (simp add: payload_object_def frame_def)
  moreover have "finish_message ?ty (sync_blocks_blank None None) (?h @ (?e @ [1]) @ [0]) = Inr ?r"
    using assms(4) bs(2) by (intro finish_payload) simp_all
  ultimately have recv: "TxServiceSyncBlocksShortIdsMessage_init None None (Some (msg_buf ?m)) = Inr ?r"
    by (simp add: TxServiceSyncBlocksShortIdsMessage_init_def)
  have b: "msg_buf ?r = frame ?ty (?e @ [1, 1])" by (simp add: payload_object_def)
  have u: "unpack_from 4 (msg_buf ?r) 20 = Inr n" "unpack_from 4 (msg_buf ?r) 24 = Inr ?k"
    unfolding b using assms(1,2) by (simp_all add: bfield_simps of_le_le_bytes)
  have "deserialize_blocks_short_ids_from_buffer (msg_buf ?r) 28 ?k = Inr blocks"
    unfolding b using d[of "STARTING_SEQUENCE_BYTES @ pad_to 12 ?ty @ le_bytes 4 (length ?e + 2) @ le_bytes 4 n @ le_bytes 4 ?k" "[1, 1]"]
    by (simp add: frame_def)
  moreover have "sb_network_num ?r = None" "sb_block_count ?r = None" by (simp_all add: payload_object_def sync_blocks_blank_def)
  moreover have "length (msg_buf ?r) = length (msg_buf ?m) + 1" by (simp add: payload_object_def)
  ultimately show ?thesis
    using new recv u by (intro exI[of _ ?m] exI[of _ ?r] conjI)
      (simp_all add: TxServiceSyncBlocksShortIdsMessage_network_num_def TxServiceSyncBlocksShortIdsMessage_block_count_def
        TxServiceSyncBlocksShortIdsMessage_blocks_short_ids_def value_of_def)
qed

text \<open>
  The other messages of a synchronization: request and completion carry the network number, the
  answer to a request for contents the transaction, and the blocks with their short ids arrive
  unchanged, although the receiving constructor makes the message one byte longer.
\<close>

theorem sync_answers_read_back:
  assumes "n < 256 ^ 4" and "length blocks < 256 ^ 4" and "list_all valid_block_short_ids blocks"
    and "10 + get_serialized_blocks_short_ids_bytes_len blocks < 256 ^ 4" and "valid_tx_info t" and "45 + length (the (ti_contents t)) < 256 ^ 4"
  shows "(\<exists>m r. TxServiceSyncBlocksShortIdsMessage_init (Some n) (Some blocks) None = Inr m
      \<and> TxServiceSyncBlocksShortIdsMessage_init None None (Some (msg_buf m)) = Inr r \<and> length (msg_buf r) = length (msg_buf m) + 1
      \<and> value_of (TxServiceSyncBlocksShortIdsMessage_network_num r) = Inr n
      \<and> value_of (TxServiceSyncBlocksShortIdsMessage_blocks_short_ids r) = Inr blocks)
    \<and> (\<exists>m r. TxContentsMessage_init (Some n) (Some t) None = Inr m \<and> TxContentsMessage_init None None (Some (msg_buf m)) = Inr r
      \<and> value_of (TxContentsMessage_network_num r) = Inr n \<and> value_of (TxContentsMessage_get_tx_info r) = Inr t)
    \<and> (\<exists>m r. TxServiceSyncReqMessage_init (Some n) None = Inr m \<and> TxServiceSyncReqMessage_init None (Some (msg_buf m)) = Inr r
      \<and> value_of (TxServiceSyncReqMessage_network_num r) = Inr n)
    \<and> (\<exists>m r. TxServiceSyncCompleteMessage_init (Some n) None = Inr m \<and> TxServiceSyncCompleteMessage_init None (Some (msg_buf m)) = Inr r
      \<and> value_of (TxServiceSyncCompleteMessage_network_num r) = Inr n)"
  by (intro conjI sync_blocks_read_back[OF assms(1-4)] tx_contents_read_back[OF assms(1,5,6)] sync_network_read_back[OF assms(1)])

theorem sync_answers_read_back_witness:
  "\<exists>m r. TxServiceSyncBlocksShortIdsMessage_init (Some 5) (Some [(replicate 32 7, [1, 2])]) None = Inr m
    \<and> TxServiceSyncBlocksShortIdsMessage_init None None (Some (msg_buf m)) = Inr r
    \<and> value_of (TxServiceSyncBlocksShortIdsMessage_blocks_short_ids r) = Inr [(replicate 32 7, [1, 2])]"
proof -
  let ?t = "\<lparr>ti_hash = Some (replicate 32 3), ti_contents = Some [1], ti_short_id = Some 9\<rparr>"
  have "list_all valid_block_short_ids [(replicate 32 7, [1, 2])]" by (simp add: valid_block_short_ids_def valid_short_ids_def)
  moreover have "10 + get_serialized_blocks_short_ids_bytes_len [(replicate 32 7 :: bytes, [1, 2])] < 256 ^ 4"
    by (simp add: get_serialized_blocks_short_ids_bytes_len_def SHA256_HASH_LEN_def)
  moreover have "valid_tx_info ?t" "45 + length (the (ti_contents ?t)) < 256 ^ 4" by (simp_all add: valid_tx_info_def)
  ultimately show ?thesis
    using sync_answers_read_back[of 5 "[(replicate 32 7, [1, 2])]" ?t] by auto
qed

end
