(* ===== verification/Node_Messages.thy ===== *)
theory Node_Messages
  imports Versioned_Messages
begin

text \<open>
  The messages by which two nodes greet each other and keep a connection alive: the templates of
  \<open>utils/message_buffer_builder.py\<close>, \<open>version_message.py\<close>, \<open>hello_message.py\<close>, \<open>keep_alive_message.py\<close>,
  \<open>ping_message.py\<close>, \<open>pong_message.py\<close> with its class and converter of version 13, and the messages that
  carry nothing but a header (\<open>ack_message.py\<close>, \<open>blockchain_network_message.py\<close>,
  \<open>disconnect_relay_peer_message.py\<close>), all under \<open>messages/bloxroute\<close>.
\<close>

subsection \<open>Templates of payloads\<close>

text \<open>
  The values a template packs: integers, identifiers and raw bytes; the formats are those of
  \<open>struct\<close> that the templates use.
\<close>

datatype payload_value = IntValue nat | TextValue string | BytesValue bytes

datatype payload_format = FormatL | FormatQ | FormatS nat

primrec calcsize :: "payload_format \<Rightarrow> nat" where
  "calcsize FormatL = 4"
| "calcsize FormatQ = 8"
| "calcsize (FormatS n) = n"

fun truthy :: "payload_value option \<Rightarrow> bool" where
  "truthy None \<longleftrightarrow> False"
| "truthy (Some (IntValue n)) \<longleftrightarrow> n \<noteq> 0"
| "truthy (Some (TextValue s)) \<longleftrightarrow> s \<noteq> []"
| "truthy (Some (BytesValue b)) \<longleftrightarrow> b \<noteq> []"

fun struct_pack :: "payload_format \<Rightarrow> bytes \<Rightarrow> nat \<Rightarrow> payload_value \<Rightarrow> bytes result" where
  "struct_pack FormatL buf off (IntValue n) = pack_into 4 buf off n"
| "struct_pack FormatQ buf off (IntValue n) = pack_into 8 buf off n"
| "struct_pack (FormatS w) buf off (BytesValue b) = pack_s w buf off b"
| "struct_pack _ buf off _ = Inl StructError"

primrec struct_unpack :: "payload_format \<Rightarrow> bytes \<Rightarrow> nat \<Rightarrow> payload_value result" where
  "struct_unpack FormatL buf off = rbind (unpack_from 4 buf off) (\<lambda>n. Inr (IntValue n))"
| "struct_unpack FormatQ buf off = rbind (unpack_from 8 buf off) (\<lambda>n. Inr (IntValue n))"
| "struct_unpack (FormatS w) buf off = rbind (unpack_s w buf off) (\<lambda>b. Inr (BytesValue b))"

record PayloadElement =
  el_name :: string
  el_structure :: payload_format
  el_default :: "payload_value option"
  el_size :: nat
  el_decode :: "payload_value \<Rightarrow> payload_value option result"
  el_encode :: "payload_value \<Rightarrow> payload_value"
  el_block_name :: "string option"
  el_block_version :: "nat option"
  el_offset :: nat

text \<open>A missing \<open>decode\<close> or \<open>encode\<close> is the identity; the offset is set when the element enters a block.\<close>

definition PayloadElement_init ::
    "string \<Rightarrow> payload_format \<Rightarrow> payload_value option \<Rightarrow> (payload_value \<Rightarrow> payload_value option result) option \<Rightarrow>
     (payload_value \<Rightarrow> payload_value) option \<Rightarrow> PayloadElement" where
  "PayloadElement_init name structure default_value decode encode =
     \<lparr>el_name = name, el_structure = structure, el_default = default_value, el_size = calcsize structure,
      el_decode = (case decode of None \<Rightarrow> (\<lambda>x. Inr (Some x)) | Some f \<Rightarrow> f),
      el_encode = (case encode of None \<Rightarrow> (\<lambda>x. x) | Some f \<Rightarrow> f),
      el_block_name = None, el_block_version = None, el_offset = 0\<rparr>"

record PayloadBlock =
  pb_name :: string
  pb_version :: nat
  pb_start_offset :: nat
  pb_off :: nat
  pb_size :: nat
  pb_elements :: "PayloadElement list"

datatype payload_item = Element PayloadElement | Block PayloadBlock

text \<open>\<open>_iter_input\<close> over elements, and over items; the elements of a block inside a block are laid out anew.\<close>

definition add_element :: "string \<Rightarrow> nat \<Rightarrow> PayloadBlock \<Rightarrow> PayloadElement \<Rightarrow> PayloadBlock" where
  "add_element name version blk e =
     blk\<lparr>pb_elements := pb_elements blk @ [e\<lparr>el_block_name := Some name, el_block_version := Some version, el_offset := pb_off blk\<rparr>],
         pb_off := pb_off blk + el_size e, pb_size := pb_size blk + el_size e\<rparr>"

definition PayloadBlock_iter_input :: "string \<Rightarrow> nat \<Rightarrow> payload_item list \<Rightarrow> PayloadBlock \<Rightarrow> PayloadBlock" where
  "PayloadBlock_iter_input name version items blk =
     foldl (\<lambda>blk item. case item of
              Element e \<Rightarrow> add_element name version blk e
            | Block b \<Rightarrow> foldl (add_element (pb_name b) (pb_version b)) blk (pb_elements b)) blk items"

definition PayloadBlock_init :: "nat \<Rightarrow> string \<Rightarrow> nat \<Rightarrow> payload_item list \<Rightarrow> PayloadBlock" where
  "PayloadBlock_init off name version items =
     PayloadBlock_iter_input name version items
       \<lparr>pb_name = name, pb_version = version, pb_start_offset = off, pb_off = off, pb_size = 0, pb_elements = []\<rparr>"

text \<open>The value of an element: \<open>kwargs.get(element.name, element.default)\<close>.\<close>

type_synonym kwargs = "(string \<times> payload_value option) list"

definition element_value :: "kwargs \<Rightarrow> PayloadElement \<Rightarrow> payload_value option" where
  "element_value kwargs e = (case map_of kwargs (el_name e) of Some v \<Rightarrow> v | None \<Rightarrow> el_default e)"

definition build_element :: "kwargs \<Rightarrow> bytes \<Rightarrow> PayloadElement \<Rightarrow> bytes result" where
  "build_element kwargs buf e =
     (let s = element_value kwargs e
      in if el_offset e + el_size e > length buf \<and> s \<noteq> None then Inr buf
         else if \<not> truthy s then Inr buf
         else case struct_pack (el_structure e) buf (el_offset e) (el_encode e (the s)) of
                Inl _ \<Rightarrow> Inl GenericException | Inr buf' \<Rightarrow> Inr buf')"

definition PayloadBlock_build :: "PayloadBlock \<Rightarrow> bytes \<Rightarrow> kwargs \<Rightarrow> bytes result" where
  "PayloadBlock_build blk buf kwargs = rfold (build_element kwargs) buf (pb_elements blk)"

definition read_element :: "bytes \<Rightarrow> kwargs \<Rightarrow> PayloadElement \<Rightarrow> kwargs result" where
  "read_element buf contents e =
     (if el_offset e + el_size e > length buf then Inr (AList.update (el_name e) None contents)
      else rbind (struct_unpack (el_structure e) buf (el_offset e)) (\<lambda>s.
           rbind (el_decode e s) (\<lambda>v. Inr (AList.update (el_name e) v contents))))"

definition PayloadBlock_read :: "PayloadBlock \<Rightarrow> bytes \<Rightarrow> kwargs result" where
  "PayloadBlock_read blk buf = rfold (read_element buf) [] (pb_elements blk)"

text \<open>\<open>contents.get(name)\<close>.\<close>

definition get_content :: "kwargs \<Rightarrow> string \<Rightarrow> payload_value option" where
  "get_content contents name = (case map_of contents name of Some v \<Rightarrow> v | None \<Rightarrow> None)"

text \<open>
  What a template does to a buffer, piece by piece: elements stand one behind the other from the
  offset of the block on; building replaces the pieces of the elements that have a value, reading
  decodes every piece.
\<close>

primrec laid_out :: "nat \<Rightarrow> PayloadElement list \<Rightarrow> bool" where
  "laid_out off [] \<longleftrightarrow> True"
| "laid_out off (e # es) \<longleftrightarrow> el_offset e = off \<and> el_size e = calcsize (el_structure e) \<and> laid_out (off + el_size e) es"

lemma laid_out_append:
  "laid_out off (es @ es') \<longleftrightarrow> laid_out off es \<and> laid_out (off + sum_list (map el_size es)) es'"
  by (induction es arbitrary: off) (auto simp: ac_simps)

definition good_element :: "PayloadElement \<Rightarrow> bool" where
  "good_element e \<longleftrightarrow> el_size e = calcsize (el_structure e)"

definition good_block :: "PayloadBlock \<Rightarrow> bool" where
  "good_block b \<longleftrightarrow> laid_out (pb_start_offset b) (pb_elements b) \<and> pb_size b = sum_list (map el_size (pb_elements b))
     \<and> pb_off b = pb_start_offset b + pb_size b \<and> list_all good_element (pb_elements b)"

lemma add_element_good: "good_block b \<Longrightarrow> good_element e \<Longrightarrow> good_block (add_element n v b e)"
  by (auto simp: good_block_def add_element_def laid_out_append good_element_def)

lemma add_elements_good: "good_block b \<Longrightarrow> list_all good_element es \<Longrightarrow> good_block (foldl (add_element n v) b es)"
  by (induction es arbitrary: b) (auto simp: add_element_good)

lemma add_elements_start: "pb_start_offset (foldl (add_element n v) b es) = pb_start_offset b"
  by (induction es arbitrary: b) (auto simp: add_element_def)

definition good_item :: "payload_item \<Rightarrow> bool" where
  "good_item i \<longleftrightarrow> (case i of Element e \<Rightarrow> good_element e | Block b \<Rightarrow> good_block b)"

lemma iter_input_good:
  "good_block b \<Longrightarrow> list_all good_item items \<Longrightarrow>
   good_block (PayloadBlock_iter_input n v items b) \<and> pb_start_offset (PayloadBlock_iter_input n v items b) = pb_start_offset b"
  unfolding PayloadBlock_iter_input_def
proof (induction items arbitrary: b)
  case (Cons i items)
  show ?case
  proof (cases i)
    case (Element e)
    then have "good_block (add_element n v b e)" using Cons.prems by (simp add: add_element_good good_item_def)
    from Cons.IH[OF this] show ?thesis using Cons.prems Element by (simp add: add_element_def)
  next
    case (Block b')
    then have "list_all good_element (pb_elements b')" using Cons.prems by (simp add: good_item_def good_block_def)
    then have "good_block (foldl (add_element (pb_name b') (pb_version b')) b (pb_elements b'))"
      using Cons.prems(1) by (rule add_elements_good[rotated])
    from Cons.IH[OF this] show ?thesis using Cons.prems Block by (simp add: add_elements_start)
  qed
qed simp

lemma block_init_good:
  assumes "list_all good_item items"
  shows "good_block (PayloadBlock_init off n v items)" and "pb_start_offset (PayloadBlock_init off n v items) = off"
proof -
  have "good_block \<lparr>pb_name = n, pb_version = v, pb_start_offset = off, pb_off = off, pb_size = 0, pb_elements = []\<rparr>"
    by (simp add: good_block_def)
  from iter_input_good[OF this assms] show "good_block (PayloadBlock_init off n v items)" "pb_start_offset (PayloadBlock_init off n v items) = off"
    by (simp_all add: PayloadBlock_init_def)
qed

lemma PayloadElement_init_good [simp]: "good_element (PayloadElement_init n s d de en)"
  by (simp add: good_element_def PayloadElement_init_def)

fun format_ok :: "payload_format \<Rightarrow> payload_value \<Rightarrow> bool" where
  "format_ok FormatL (IntValue n) \<longleftrightarrow> n < 256 ^ 4"
| "format_ok FormatQ (IntValue n) \<longleftrightarrow> n < 256 ^ 8"
| "format_ok (FormatS w) (BytesValue b) \<longleftrightarrow> True"
| "format_ok _ _ \<longleftrightarrow> False"

fun format_bytes :: "payload_format \<Rightarrow> payload_value \<Rightarrow> bytes" where
  "format_bytes FormatL (IntValue n) = le_bytes 4 n"
| "format_bytes FormatQ (IntValue n) = le_bytes 8 n"
| "format_bytes (FormatS w) (BytesValue b) = pad_to w b"
| "format_bytes _ _ = []"

primrec bytes_value :: "payload_format \<Rightarrow> bytes \<Rightarrow> payload_value" where
  "bytes_value FormatL b = IntValue (of_le b)"
| "bytes_value FormatQ b = IntValue (of_le b)"
| "bytes_value (FormatS w) b = BytesValue b"

definition built_piece :: "kwargs \<Rightarrow> PayloadElement \<Rightarrow> bytes \<Rightarrow> bytes" where
  "built_piece kw e p =
     (if truthy (element_value kw e) then format_bytes (el_structure e) (el_encode e (the (element_value kw e))) else p)"

definition fits :: "kwargs \<Rightarrow> PayloadElement \<Rightarrow> bool" where
  "fits kw e \<longleftrightarrow> (truthy (element_value kw e) \<longrightarrow> format_ok (el_structure e) (el_encode e (the (element_value kw e))))"

lemma struct_pack_middle:
  assumes "format_ok s v" and "length p = calcsize s"
  shows "struct_pack s (pre @ p @ post) (length pre) v = Inr (pre @ format_bytes s v @ post)"
  using assms by (cases "(s, v)" rule: format_ok.cases) (simp_all add: pack_into_def pack_s_def bput_at_end)

lemma struct_unpack_middle:
  assumes "length p = calcsize s"
  shows "struct_unpack s (pre @ p @ post) (length pre) = Inr (bytes_value s p)"
proof (cases s)
  case FormatL
  then show ?thesis using assms unpack_from_middle[of p 4 pre post] by simp
next
  case FormatQ
  then show ?thesis using assms unpack_from_middle[of p 8 pre post] by simp
next
  case (FormatS w)
  then show ?thesis using assms unpack_s_middle[of p w pre post] by simp
qed

lemma length_format_bytes: "format_ok s v \<Longrightarrow> length (format_bytes s v) = calcsize s"
  by (cases "(s, v)" rule: format_ok.cases) simp_all

lemma build_element_middle:
  assumes "fits kw e" and "el_offset e = length pre" and "el_size e = calcsize (el_structure e)" and "length p = el_size e"
  shows "build_element kw (pre @ p @ post) e = Inr (pre @ built_piece kw e p @ post)" and "length (built_piece kw e p) = el_size e"
proof -
  show "build_element kw (pre @ p @ post) e = Inr (pre @ built_piece kw e p @ post)"
    using assms struct_pack_middle[of "el_structure e" "el_encode e (the (element_value kw e))" p pre post]
    by (simp add: build_element_def built_piece_def fits_def Let_def)
  show "length (built_piece kw e p) = el_size e"
    using assms by (simp add: built_piece_def fits_def length_format_bytes)
qed

lemma build_pieces:
  assumes "laid_out (length pre) es" and "list_all (fits kw) es" and "list_all2 (\<lambda>e p. length p = el_size e) es ps"
  shows "rfold (build_element kw) (pre @ concat ps @ post) es = Inr (pre @ concat (map2 (built_piece kw) es ps) @ post)
    \<and> list_all2 (\<lambda>e p. length p = el_size e) es (map2 (built_piece kw) es ps)"
  using assms
proof (induction es arbitrary: pre ps)
  case (Cons e es)
  then obtain p ps' where ps: "ps = p # ps'" "length p = el_size e" "list_all2 (\<lambda>e p. length p = el_size e) es ps'"
    by (auto simp: list_all2_Cons1)
  have e: "fits kw e" "el_offset e = length pre" "el_size e = calcsize (el_structure e)" using Cons.prems(1,2) by simp_all
  note b = build_element_middle(1)[OF e ps(2), of "concat ps' @ post"] build_element_middle(2)[OF e ps(2)]
  have "laid_out (length (pre @ built_piece kw e p)) es" using Cons.prems(1) b(2) by auto
  from Cons.IH[OF this _ ps(3)] show ?case using Cons.prems(2) ps(1) b by simp
qed simp

lemma read_pieces:
  assumes "laid_out (length pre) es" and "list_all2 (\<lambda>e p. length p = el_size e) es ps" and "distinct (map el_name es)"
    and "list_all2 (\<lambda>(e, p) v. el_decode e (bytes_value (el_structure e) p) = Inr v) (zip es ps) vs"
  shows "\<exists>c. rfold (read_element (pre @ concat ps @ post)) c0 es = Inr c
    \<and> map_of c = (\<lambda>n. case map_of (zip (map el_name es) vs) n of Some v \<Rightarrow> Some v | None \<Rightarrow> map_of c0 n)"
  using assms
proof (induction es arbitrary: pre ps vs c0)
  case (Cons e es)
  then obtain p ps' where ps: "ps = p # ps'" "length p = el_size e" "list_all2 (\<lambda>e p. length p = el_size e) es ps'"
    by (auto simp: list_all2_Cons1)
  then obtain v vs' where vs: "vs = v # vs'" "el_decode e (bytes_value (el_structure e) p) = Inr v"
    "list_all2 (\<lambda>(e, p) v. el_decode e (bytes_value (el_structure e) p) = Inr v) (zip es ps') vs'"
    using Cons.prems(4) by (auto simp: list_all2_Cons1)
  let ?b = "pre @ p @ concat ps' @ post"
  have e: "el_offset e = length pre" "length p = calcsize (el_structure e)" using Cons.prems(1) ps(2) by simp_all
  have "read_element ?b c0 e = Inr (AList.update (el_name e) v c0)"
    using struct_unpack_middle[OF e(2), of pre "concat ps' @ post"] vs(2) e ps(2) by (simp add: read_element_def)
  moreover have "laid_out (length (pre @ p)) es" using Cons.prems(1) ps(2) by auto
  from Cons.IH[OF this ps(3) _ vs(3), of "AList.update (el_name e) v c0"] Cons.prems(3)
  obtain c where "rfold (read_element ?b) (AList.update (el_name e) v c0) es = Inr c"
    "map_of c = (\<lambda>n. case map_of (zip (map el_name es) vs') n of Some v \<Rightarrow> Some v | None \<Rightarrow> map_of (AList.update (el_name e) v c0) n)"
    by auto
  moreover have "map_of (zip (map el_name es) vs') (el_name e) = None"
    using Cons.prems(3) ps(3) vs(3) by (auto simp: map_of_eq_None_iff dest!: set_zip_leftD)
  ultimately show ?case using ps(1) vs(1) by (auto simp: fun_eq_iff split: option.split)
qed simp

lemma block_build:
  assumes "good_block b" and "pb_start_offset b = length pre" and "list_all (fits kw) (pb_elements b)"
    and "list_all2 (\<lambda>e p. length p = el_size e) (pb_elements b) ps"
  shows "PayloadBlock_build b (pre @ concat ps @ post) kw = Inr (pre @ concat (map2 (built_piece kw) (pb_elements b) ps) @ post)"
  using build_pieces[of pre "pb_elements b" kw ps post] assms by (simp add: PayloadBlock_build_def good_block_def)

lemma block_read:
  assumes "good_block b" and "pb_start_offset b = length pre" and "distinct (map el_name (pb_elements b))"
    and "list_all2 (\<lambda>e p. length p = el_size e) (pb_elements b) ps"
    and "list_all2 (\<lambda>(e, p) v. el_decode e (bytes_value (el_structure e) p) = Inr v) (zip (pb_elements b) ps) vs"
  shows "\<exists>c. PayloadBlock_read b (pre @ concat ps @ post) = Inr c \<and> map_of c = map_of (zip (map el_name (pb_elements b)) vs)"
proof -
  have "laid_out (length pre) (pb_elements b)" using assms(1,2) by (simp add: good_block_def)
  moreover have "(\<lambda>n. case f n of Some v \<Rightarrow> Some v | None \<Rightarrow> map_of [] n) = f" for f :: "string \<Rightarrow> payload_value option option"
    by (auto simp: fun_eq_iff split: option.split)
  ultimately show ?thesis
    using read_pieces[OF _ assms(4,3,5), of pre post "[]"] by (simp add: PayloadBlock_read_def)
qed

subsection \<open>Greeting\<close>

definition VERSION_MESSAGE_BLOCK :: PayloadBlock where
  "VERSION_MESSAGE_BLOCK = PayloadBlock_init HEADER_LENGTH ''VersionMessage'' 0
     [Element (PayloadElement_init ''protocol_version'' FormatL None None None),
      Element (PayloadElement_init ''network_num'' FormatL None None None)]"

record version_message = message +
  vm_protocol_version :: "nat option"
  vm_network_num :: "nat option"

abbreviation (input) VERSION_BASE_LENGTH :: nat where "VERSION_BASE_LENGTH \<equiv> 28"

fun int_content :: "payload_value option \<Rightarrow> nat option" where
  "int_content (Some (IntValue n)) = Some n"
| "int_content _ = None"

fun text_content :: "payload_value option \<Rightarrow> string option" where
  "text_content (Some (TextValue s)) = Some s"
| "text_content _ = None"

definition VersionMessage_init ::
    "bytes \<Rightarrow> nat \<Rightarrow> nat option \<Rightarrow> nat option \<Rightarrow> 'a version_message_scheme \<Rightarrow> 'a version_message_scheme result" where
  "VersionMessage_init msg_type payload_len protocol_version network_num m =
     rbind (case (protocol_version, network_num) of
              (Some v, Some n) \<Rightarrow>
                if length (msg_buf m) < VERSION_BASE_LENGTH then Inl ValueError
                else PayloadBlock_build VERSION_MESSAGE_BLOCK (msg_buf m)
                       [(''protocol_version'', Some (IntValue v)), (''network_num'', Some (IntValue n))]
            | _ \<Rightarrow> Inr (msg_buf m)) (\<lambda>b.
       AbstractBloxrouteMessage_init msg_type payload_len (m\<lparr>msg_buf := b, vm_protocol_version := None, vm_network_num := None\<rparr>))"

definition VersionMessage_unpack :: "'a version_message_scheme \<Rightarrow> 'a version_message_scheme result" where
  "VersionMessage_unpack m =
     rbind (PayloadBlock_read VERSION_MESSAGE_BLOCK (msg_buf m)) (\<lambda>c.
       Inr (m\<lparr>vm_protocol_version := int_content (get_content c ''protocol_version''),
              vm_network_num := int_content (get_content c ''network_num'')\<rparr>))"

definition VersionMessage_protocol_version :: "'a version_message_scheme \<Rightarrow> (nat option \<times> 'a version_message_scheme) result" where
  "VersionMessage_protocol_version m =
     rbind (if vm_protocol_version m = None then VersionMessage_unpack m else Inr m) (\<lambda>m'. Inr (vm_protocol_version m', m'))"

definition VersionMessage_network_num :: "'a version_message_scheme \<Rightarrow> (nat option \<times> 'a version_message_scheme) result" where
  "VersionMessage_network_num m =
     rbind (if vm_network_num m = None then VersionMessage_unpack m else Inr m) (\<lambda>m'. Inr (vm_network_num m', m'))"

text \<open>The node id is packed by \<open>uuid_pack.to_bytes\<close> and read by \<open>uuid_pack.from_bytes\<close>.\<close>

fun encode_node_id :: "payload_value \<Rightarrow> payload_value" where
  "encode_node_id (TextValue s) = BytesValue (uuid_pack_to_bytes s)"
| "encode_node_id v = v"

fun decode_node_id :: "payload_value \<Rightarrow> payload_value option result" where
  "decode_node_id (BytesValue b) = rbind (uuid_pack_from_bytes b) (\<lambda>r. Inr (map_option TextValue r))"
| "decode_node_id v = Inl TypeError"

definition HELLO_MESSAGE_BLOCK :: PayloadBlock where
  "HELLO_MESSAGE_BLOCK = PayloadBlock_init VERSION_BASE_LENGTH ''HelloMessage'' PROTOCOL_VERSION
     [Element (PayloadElement_init ''node_id'' (FormatS NODE_ID_SIZE_IN_BYTES) None (Some decode_node_id) (Some encode_node_id))]"

definition HELLO_MESSAGE_LENGTH :: nat where
  "HELLO_MESSAGE_LENGTH = pb_size VERSION_MESSAGE_BLOCK + pb_size HELLO_MESSAGE_BLOCK + CONTROL_FLAGS_LEN"

record hello_message = version_message +
  hm_node_id :: "string option"

definition hello_message_blank :: "bytes \<Rightarrow> hello_message" where
  "hello_message_blank b =
     \<lparr>msg_buf = b, msg_type_field = None, payload_len_field = None, payload_field = None, msg_priority = False,
      vm_protocol_version = None, vm_network_num = None, hm_node_id = None\<rparr>"

definition HelloMessage_init :: "nat option \<Rightarrow> nat option \<Rightarrow> string option \<Rightarrow> bytes option \<Rightarrow> hello_message result" where
  "HelloMessage_init protocol_version network_num node_id buf =
     rbind (case buf of
              Some b \<Rightarrow> Inr b
            | None \<Rightarrow> PayloadBlock_build HELLO_MESSAGE_BLOCK (replicate (HEADER_LENGTH + HELLO_MESSAGE_LENGTH) 0)
                        [(''node_id'', map_option TextValue node_id)]) (\<lambda>b.
       VersionMessage_init (MESSAGE_TYPE HelloMessage) HELLO_MESSAGE_LENGTH protocol_version network_num (hello_message_blank b))"

definition HelloMessage_node_id :: "hello_message \<Rightarrow> (string option \<times> hello_message) result" where
  "HelloMessage_node_id m =
     rbind (if hm_node_id m = None
            then rbind (PayloadBlock_read HELLO_MESSAGE_BLOCK (msg_buf m)) (\<lambda>c.
                   Inr (m\<lparr>hm_node_id := text_content (get_content c ''node_id'')\<rparr>))
            else Inr m) (\<lambda>m'. Inr (hm_node_id m', m'))"

lemmas block_defs = VERSION_MESSAGE_BLOCK_def HELLO_MESSAGE_BLOCK_def

lemma version_elements:
  "map el_name (pb_elements VERSION_MESSAGE_BLOCK) = [''protocol_version'', ''network_num'']"
  "pb_elements HELLO_MESSAGE_BLOCK = [(PayloadElement_init ''node_id'' (FormatS 16) None (Some decode_node_id) (Some encode_node_id))
     \<lparr>el_block_name := Some ''HelloMessage'', el_block_version := Some 23, el_offset := 28\<rparr>]"
  by (simp_all add: block_defs PayloadBlock_init_def PayloadBlock_iter_input_def add_element_def PayloadElement_init_def)

lemma version_blocks_good:
  "good_block VERSION_MESSAGE_BLOCK" "pb_start_offset VERSION_MESSAGE_BLOCK = 20"
  "good_block HELLO_MESSAGE_BLOCK" "pb_start_offset HELLO_MESSAGE_BLOCK = 28"
  by (simp_all add: block_defs block_init_good good_item_def)

lemma hello_length: "HELLO_MESSAGE_LENGTH = 25"
  by (simp add: HELLO_MESSAGE_LENGTH_def block_defs PayloadBlock_init_def PayloadBlock_iter_input_def add_element_def PayloadElement_init_def)

lemma version_build:
  assumes "v < 256 ^ 4" and "n < 256 ^ 4" and "length pre = 20"
  shows "PayloadBlock_build VERSION_MESSAGE_BLOCK (pre @ replicate 4 0 @ replicate 4 0 @ post)
      [(''protocol_version'', Some (IntValue v)), (''network_num'', Some (IntValue n))]
    = Inr (pre @ le_bytes 4 v @ le_bytes 4 n @ post)"
proof -
  let ?kw = "[(''protocol_version'', Some (IntValue v)), (''network_num'', Some (IntValue n))]"
  let ?es = "pb_elements VERSION_MESSAGE_BLOCK"
  have es: "list_all (fits ?kw) ?es" "list_all2 (\<lambda>e p. length p = el_size e) ?es [replicate 4 0, replicate 4 0]"
    "map2 (built_piece ?kw) ?es [replicate 4 0, replicate 4 0] = [le_bytes 4 v, le_bytes 4 n]"
    using assms(1,2) by (simp_all add: block_defs PayloadBlock_init_def PayloadBlock_iter_input_def add_element_def PayloadElement_init_def
        fits_def built_piece_def element_value_def)
  show ?thesis
    using block_build[of VERSION_MESSAGE_BLOCK pre ?kw "[replicate 4 0, replicate 4 0]" post] assms(3) version_blocks_good es by simp
qed

lemma version_read:
  assumes "v < 256 ^ 4" and "n < 256 ^ 4" and "length pre = 20"
  shows "\<exists>c. PayloadBlock_read VERSION_MESSAGE_BLOCK (pre @ le_bytes 4 v @ le_bytes 4 n @ post) = Inr c
    \<and> get_content c ''protocol_version'' = Some (IntValue v) \<and> get_content c ''network_num'' = Some (IntValue n)"
proof -
  let ?es = "pb_elements VERSION_MESSAGE_BLOCK" and ?ps = "[le_bytes 4 v, le_bytes 4 n]"
  have es: "list_all2 (\<lambda>e p. length p = el_size e) ?es ?ps"
    "list_all2 (\<lambda>(e, p) v. el_decode e (bytes_value (el_structure e) p) = Inr v) (zip ?es ?ps) [Some (IntValue v), Some (IntValue n)]"
    using assms(1,2) by (simp_all add: block_defs PayloadBlock_init_def PayloadBlock_iter_input_def add_element_def PayloadElement_init_def
        of_le_le_bytes)
  obtain c where c: "PayloadBlock_read VERSION_MESSAGE_BLOCK (pre @ concat ?ps @ post) = Inr c"
    "map_of c = map_of (zip (map el_name ?es) [Some (IntValue v), Some (IntValue n)])"
    using block_read[OF version_blocks_good(1) _ _ es, of pre post] assms(3) version_blocks_good(2) by (auto simp: version_elements)
  then show ?thesis by (auto simp: get_content_def version_elements)
qed

lemma hello_build:
  assumes "length pre = 28"
  shows "PayloadBlock_build HELLO_MESSAGE_BLOCK (pre @ replicate 16 0 @ post) [(''node_id'', map_option TextValue node_id)]
    = Inr (pre @ (case node_id of None \<Rightarrow> replicate 16 0 | Some s \<Rightarrow> uuid_pack_to_bytes s) @ post)"
proof -
  let ?kw = "[(''node_id'', map_option TextValue node_id)]" and ?es = "pb_elements HELLO_MESSAGE_BLOCK"
  let ?e = "(PayloadElement_init ''node_id'' (FormatS 16) None (Some decode_node_id) (Some encode_node_id))
     \<lparr>el_block_name := Some ''HelloMessage'', el_block_version := Some 23, el_offset := 28\<rparr>"
  have e: "element_value ?kw ?e = map_option TextValue node_id" "el_encode ?e = encode_node_id" "el_structure ?e = FormatS 16" "el_size ?e = 16"
    by (simp_all add: element_value_def PayloadElement_init_def)
  have f: "fits ?kw ?e" unfolding fits_def e by (cases node_id) simp_all
  have "uuid_pack_to_bytes [] = replicate 16 0" by (simp add: uuid_pack_to_bytes_def EMPTY_SOURCE_ID_def)
  then have b: "built_piece ?kw ?e (replicate 16 0) = (case node_id of None \<Rightarrow> replicate 16 0 | Some s \<Rightarrow> uuid_pack_to_bytes s)"
    unfolding built_piece_def e by (cases node_id) auto
  have es: "list_all (fits ?kw) ?es" "list_all2 (\<lambda>e p. length p = el_size e) ?es [replicate 16 0]"
    "map2 (built_piece ?kw) ?es [replicate 16 0] = [case node_id of None \<Rightarrow> replicate 16 0 | Some s \<Rightarrow> uuid_pack_to_bytes s]"
    unfolding version_elements using f b e(4) by simp_all
  show ?thesis
    using block_build[of HELLO_MESSAGE_BLOCK pre ?kw "[replicate 16 0]" post] assms version_blocks_good es by simp
qed

lemma hello_read:
  assumes "length pre = 28" and "length src = 16"
  shows "\<exists>c r. uuid_pack_from_bytes src = Inr r \<and> PayloadBlock_read HELLO_MESSAGE_BLOCK (pre @ src @ post) = Inr c
    \<and> get_content c ''node_id'' = map_option TextValue r"
proof -
  obtain r where r: "uuid_pack_from_bytes src = Inr r" using uuid_from_16[OF assms(2)] by blast
  let ?es = "pb_elements HELLO_MESSAGE_BLOCK"
  have es: "list_all2 (\<lambda>e p. length p = el_size e) ?es [src]"
    "list_all2 (\<lambda>(e, p) v. el_decode e (bytes_value (el_structure e) p) = Inr v) (zip ?es [src]) [map_option TextValue r]"
    using assms(2) r by (simp_all add: version_elements PayloadElement_init_def)
  have st: "pb_start_offset HELLO_MESSAGE_BLOCK = length pre" and d: "distinct (map el_name ?es)"
    using assms(1) by (simp_all add: version_blocks_good version_elements)
  obtain c where "PayloadBlock_read HELLO_MESSAGE_BLOCK (pre @ concat [src] @ post) = Inr c"
    "map_of c = map_of (zip (map el_name ?es) [map_option TextValue r])"
    using block_read[OF version_blocks_good(3) st d es, of post] by (elim exE conjE)
  then show ?thesis using r by (auto simp: get_content_def version_elements PayloadElement_init_def)
qed

definition hello_body :: "nat \<Rightarrow> nat \<Rightarrow> bytes \<Rightarrow> bytes" where
  "hello_body v n src = le_bytes 4 v @ le_bytes 4 n @ src @ [1]"

definition hello_object :: "nat \<Rightarrow> nat \<Rightarrow> bytes \<Rightarrow> hello_message" where
  "hello_object v n src = (hello_message_blank (frame (MESSAGE_TYPE HelloMessage) (hello_body v n src)))
     \<lparr>msg_type_field := Some (MESSAGE_TYPE HelloMessage), payload_len_field := Some 25\<rparr>"

lemma hello_new:
  assumes "v < 256 ^ 4" and "n < 256 ^ 4"
  shows "HelloMessage_init (Some v) (Some n) (Some s) None = Inr (hello_object v n (uuid_pack_to_bytes s))"
proof -
  let ?u = "uuid_pack_to_bytes s" and ?z = "replicate 20 0 :: bytes"
  have z: "replicate 45 0 = replicate 28 0 @ replicate 16 0 @ replicate 1 (0 :: byte)"
    "replicate 28 0 = ?z @ replicate 4 0 @ replicate 4 0"
    by (simp_all only: replicate_add[symmetric]) simp_all
  have b1: "PayloadBlock_build HELLO_MESSAGE_BLOCK (replicate 45 0) [(''node_id'', Some (TextValue s))]
      = Inr (?z @ replicate 4 0 @ replicate 4 0 @ ?u @ [0])"
    using hello_build[of "replicate 28 0" "replicate 1 0" "Some s"] unfolding z(1) by (simp add: z(2))
  have m: "msg_buf ((hello_message_blank (?z @ replicate 4 0 @ replicate 4 0 @ ?u @ [0]))
      \<lparr>msg_buf := ?z @ le_bytes 4 v @ le_bytes 4 n @ ?u @ [0], vm_protocol_version := None, vm_network_num := None\<rparr>)
      = ?z @ (le_bytes 4 v @ le_bytes 4 n @ ?u @ [0])" by simp
  have v: "mark_valid (le_bytes 4 v @ le_bytes 4 n @ ?u @ [0]) = le_bytes 4 v @ le_bytes 4 n @ ?u @ [1]"
    by (simp add: mark_valid_def butlast_append)
  show ?thesis
    using version_build[OF assms, of ?z "?u @ [0]"] b1 init_frame[OF m, of 25 "MESSAGE_TYPE HelloMessage"] v
    by (simp add: HelloMessage_init_def VersionMessage_init_def hello_length hello_message_blank_def hello_object_def hello_body_def frame_def)
qed

lemma hello_received:
  assumes "length src = 16"
  shows "HelloMessage_init None None node_id (Some (frame (MESSAGE_TYPE HelloMessage) (hello_body v n src))) = Inr (hello_object v n src)"
proof -
  let ?h = "STARTING_SEQUENCE_BYTES @ pad_to 12 (MESSAGE_TYPE HelloMessage) @ le_bytes 4 25"
  have m: "msg_buf ((hello_message_blank (frame (MESSAGE_TYPE HelloMessage) (hello_body v n src)))
      \<lparr>msg_buf := frame (MESSAGE_TYPE HelloMessage) (hello_body v n src), vm_protocol_version := None, vm_network_num := None\<rparr>)
      = ?h @ hello_body v n src" using assms by (simp add: frame_def hello_body_def)
  have "mark_valid (hello_body v n src) = hello_body v n src" "hello_body v n src \<noteq> []"
    by (simp_all add: mark_valid_def hello_body_def butlast_append)
  then show ?thesis
    using init_frame[OF m, of 25 "MESSAGE_TYPE HelloMessage"] assms
    by (simp add: HelloMessage_init_def VersionMessage_init_def hello_length hello_object_def frame_def hello_message_blank_def
        hello_body_def)
qed

lemma hello_accessors:
  assumes "v < 256 ^ 4" and "n < 256 ^ 4" and "length src = 16"
  shows "rbind (VersionMessage_protocol_version (hello_object v n src)) (\<lambda>(x, m). Inr x) = Inr (Some v)"
    and "rbind (VersionMessage_network_num (hello_object v n src)) (\<lambda>(x, m). Inr x) = Inr (Some n)"
    and "rbind (HelloMessage_node_id (hello_object v n src)) (\<lambda>(x, m). Inr x) = uuid_pack_from_bytes src"
proof -
  let ?h = "STARTING_SEQUENCE_BYTES @ pad_to 12 (MESSAGE_TYPE HelloMessage) @ le_bytes 4 25"
  let ?m = "hello_object v n src"
  have b: "msg_buf ?m = ?h @ le_bytes 4 v @ le_bytes 4 n @ src @ [1]"
    "msg_buf ?m = (?h @ le_bytes 4 v @ le_bytes 4 n) @ src @ [1]"
    using assms(3) by (simp_all add: hello_object_def hello_message_blank_def frame_def hello_body_def)
  have l: "length ?h = 20" "length (?h @ le_bytes 4 v @ le_bytes 4 n) = 28" by simp_all
  have f: "vm_protocol_version ?m = None" "vm_network_num ?m = None" "hm_node_id ?m = None"
    by (simp_all add: hello_object_def hello_message_blank_def)
  obtain c where "PayloadBlock_read VERSION_MESSAGE_BLOCK (msg_buf ?m) = Inr c"
    "get_content c ''protocol_version'' = Some (IntValue v)" "get_content c ''network_num'' = Some (IntValue n)"
    unfolding b(1) using version_read[OF assms(1,2) l(1)] by blast
  then show "rbind (VersionMessage_protocol_version ?m) (\<lambda>(x, m). Inr x) = Inr (Some v)"
    "rbind (VersionMessage_network_num ?m) (\<lambda>(x, m). Inr x) = Inr (Some n)"
    using f by (simp_all add: VersionMessage_protocol_version_def VersionMessage_network_num_def VersionMessage_unpack_def)
  obtain c r where "uuid_pack_from_bytes src = Inr r" "PayloadBlock_read HELLO_MESSAGE_BLOCK (msg_buf ?m) = Inr c"
    "get_content c ''node_id'' = map_option TextValue r"
    unfolding b(2) using hello_read[OF l(2) assms(3)] by blast
  moreover have "text_content (map_option TextValue r) = r" by (cases r) simp_all
  ultimately show "rbind (HelloMessage_node_id ?m) (\<lambda>(x, m). Inr x) = uuid_pack_from_bytes src"
    using f by (simp add: HelloMessage_node_id_def)
qed

text \<open>
  A node introduces itself by its hello message: the receiver reads from the bytes exactly the
  protocol version, the network number and the id that the sender packed, an id in canonical form
  unchanged.
\<close>

theorem hello_round_trip:
  assumes "v < 256 ^ 4" and "n < 256 ^ 4" and "length raw = 16" and "rstrip0 raw \<noteq> []" and "uuid_str raw = Inr s"
  shows "\<exists>m m'. HelloMessage_init (Some v) (Some n) (Some s) None = Inr m
    \<and> msg_buf m = frame (MESSAGE_TYPE HelloMessage) (le_bytes 4 v @ le_bytes 4 n @ raw @ [1])
    \<and> HelloMessage_init None None None (Some (msg_buf m)) = Inr m'
    \<and> rbind (VersionMessage_protocol_version m') (\<lambda>(x, m). Inr x) = Inr (Some v)
    \<and> rbind (VersionMessage_network_num m') (\<lambda>(x, m). Inr x) = Inr (Some n)
    \<and> rbind (HelloMessage_node_id m') (\<lambda>(x, m). Inr x) = Inr (Some s)"
proof -
  have "uuid_parse s = Inr raw" using uuid_str_parse[OF assms(3)] assms(5) by simp
  moreover have "uuid_parse [] = Inl ValueError" by (simp add: uuid_parse_def strip_chars_def)
  ultimately have s: "uuid_pack_to_bytes s = raw" by (auto simp: uuid_pack_to_bytes_def)
  have "raw \<noteq> []" using assms(3) by auto
  then have "uuid_pack_from_bytes raw = Inr (Some s)" using assms(4,5) by (simp add: uuid_pack_from_bytes_def)
  moreover have "msg_buf (hello_object v n raw) = frame (MESSAGE_TYPE HelloMessage) (hello_body v n raw)"
    by (simp add: hello_object_def hello_message_blank_def)
  ultimately show ?thesis
    using hello_new[OF assms(1,2), of s] hello_received[OF assms(3), of None v n] hello_accessors[OF assms(1,2,3)] s
    by (simp add: hello_body_def)
qed

theorem hello_round_trip_witness:
  "\<exists>s m m'. uuid_str (replicate 16 7) = Inr s \<and> HelloMessage_init (Some 23) (Some 5) (Some s) None = Inr m
    \<and> HelloMessage_init None None None (Some (msg_buf m)) = Inr m'
    \<and> rbind (HelloMessage_node_id m') (\<lambda>(x, m). Inr x) = Inr (Some s)"
proof -
  obtain s where s: "uuid_str (replicate 16 7) = Inr s" using uuid_str_parse[of "replicate 16 7"] by auto
  have "rstrip0 (replicate 16 7) \<noteq> []" using rstrip0_id[of "replicate 16 7"] by simp
  from hello_round_trip[OF _ _ _ this s, of 23 5] s show ?thesis by auto
qed

subsection \<open>Keep-alive\<close>

text \<open>\<open>lambda x: x or None\<close>.\<close>

fun decode_or_none :: "payload_value \<Rightarrow> payload_value option result" where
  "decode_or_none v = Inr (if truthy (Some v) then Some v else None)"

definition KEEP_ALIVE_MESSAGE_BLOCK :: PayloadBlock where
  "KEEP_ALIVE_MESSAGE_BLOCK = PayloadBlock_init HEADER_LENGTH ''ResponseMessage'' PROTOCOL_VERSION
     [Element (PayloadElement_init ''nonce'' FormatQ None (Some decode_or_none) None)]"

definition KEEP_ALIVE_MESSAGE_LENGTH :: nat where
  "KEEP_ALIVE_MESSAGE_LENGTH = pb_size KEEP_ALIVE_MESSAGE_BLOCK + CONTROL_FLAGS_LEN"

record keep_alive_message = message +
  ka_nonce :: "nat option"

record pong_message = keep_alive_message +
  po_timestamp :: "nat option"

definition keep_alive_blank :: keep_alive_message where
  "keep_alive_blank =
     \<lparr>msg_buf = [], msg_type_field = None, payload_len_field = None, payload_field = None, msg_priority = False, ka_nonce = None\<rparr>"

definition pong_blank :: pong_message where
  "pong_blank =
     \<lparr>msg_buf = [], msg_type_field = None, payload_len_field = None, payload_field = None, msg_priority = False, ka_nonce = None,
      po_timestamp = None\<rparr>"

definition KeepAliveMessage_init ::
    "bytes \<Rightarrow> nat option \<Rightarrow> bytes option \<Rightarrow> nat option \<Rightarrow> 'a keep_alive_message_scheme \<Rightarrow> 'a keep_alive_message_scheme result" where
  "KeepAliveMessage_init msg_type nonce buf payload_length m =
     (let n = (case payload_length of None \<Rightarrow> KEEP_ALIVE_MESSAGE_LENGTH | Some n \<Rightarrow> n);
          b = (case buf of None \<Rightarrow> replicate (HEADER_LENGTH + n) 0 | Some b \<Rightarrow> b)
      in rbind (PayloadBlock_build KEEP_ALIVE_MESSAGE_BLOCK b [(''nonce'', map_option IntValue nonce)]) (\<lambda>b.
           AbstractBloxrouteMessage_init msg_type n (m\<lparr>msg_buf := b, ka_nonce := None\<rparr>)))"

definition KeepAliveMessage_unpack :: "'a keep_alive_message_scheme \<Rightarrow> 'a keep_alive_message_scheme result" where
  "KeepAliveMessage_unpack m =
     rbind (PayloadBlock_read KEEP_ALIVE_MESSAGE_BLOCK (msg_buf m)) (\<lambda>c.
       Inr (m\<lparr>ka_nonce := int_content (get_content c ''nonce'')\<rparr>))"

definition KeepAliveMessage_nonce :: "'a keep_alive_message_scheme \<Rightarrow> (nat \<times> 'a keep_alive_message_scheme) result" where
  "KeepAliveMessage_nonce m =
     rbind (if ka_nonce m = None then KeepAliveMessage_unpack m else Inr m) (\<lambda>m'.
       Inr (case ka_nonce m' of None \<Rightarrow> 0 | Some n \<Rightarrow> n, m'))"

definition PingMessage_init :: "nat option \<Rightarrow> bytes option \<Rightarrow> keep_alive_message result" where
  "PingMessage_init nonce buf = KeepAliveMessage_init (MESSAGE_TYPE PingMessage) nonce buf None keep_alive_blank"

definition PONG_MESSAGE_BLOCK :: PayloadBlock where
  "PONG_MESSAGE_BLOCK = PayloadBlock_init HEADER_LENGTH ''ResponseMessage'' PROTOCOL_VERSION
     [Element (PayloadElement_init ''nonce'' FormatQ None (Some decode_or_none) None),
      Element (PayloadElement_init ''timestamp'' FormatQ None (Some decode_or_none) None)]"

definition PONG_MESSAGE_LENGTH :: nat where
  "PONG_MESSAGE_LENGTH = pb_size PONG_MESSAGE_BLOCK + CONTROL_FLAGS_LEN"

definition PongMessage_init :: "nat option \<Rightarrow> nat option \<Rightarrow> bytes option \<Rightarrow> pong_message result" where
  "PongMessage_init nonce timestamp buf =
     rbind (PayloadBlock_build PONG_MESSAGE_BLOCK (case buf of None \<Rightarrow> replicate (HEADER_LENGTH + PONG_MESSAGE_LENGTH) 0 | Some b \<Rightarrow> b)
              [(''timestamp'', map_option IntValue timestamp)]) (\<lambda>b.
       KeepAliveMessage_init (MESSAGE_TYPE PongMessage) nonce (Some b) (Some PONG_MESSAGE_LENGTH) pong_blank)"

definition PongMessage_timestamp :: "pong_message \<Rightarrow> (nat option \<times> pong_message) result" where
  "PongMessage_timestamp m =
     rbind (if po_timestamp m = None
            then rbind (PayloadBlock_read PONG_MESSAGE_BLOCK (msg_buf m)) (\<lambda>c.
                   Inr (m\<lparr>ka_nonce := int_content (get_content c ''nonce''), po_timestamp := int_content (get_content c ''timestamp'')\<rparr>))
            else Inr m) (\<lambda>m'. Inr (po_timestamp m', m'))"

subsection \<open>Pong messages of version 13\<close>

definition PongMessageV13_init :: "nat option \<Rightarrow> bytes option \<Rightarrow> keep_alive_message result" where
  "PongMessageV13_init nonce buf = KeepAliveMessage_init (MESSAGE_TYPE PongMessage) nonce buf None keep_alive_blank"

abbreviation (input) PONG_BREAKPOINT :: nat where "PONG_BREAKPOINT \<equiv> 28"
abbreviation (input) PONG_LENGTH_DIFFERENCE :: nat where "PONG_LENGTH_DIFFERENCE \<equiv> 8"

text \<open>
  The converter. Its messages are pongs, so the test of the message type always passes. The payload of
  a pong has at least 8 bytes here; of a shorter one the source would remember a negative length.
\<close>

definition PongMessageConverterV13_convert_to_older_version :: "pong_message \<Rightarrow> (keep_alive_message \<times> pong_message) result" where
  "PongMessageConverterV13_convert_to_older_version msg =
     rbind (AbstractInternalMessage_payload_len msg) (\<lambda>(n, msg).
     rbind (AbstractInternalMessage_rawbytes msg) (\<lambda>(raw, msg).
       let b = replicate (HEADER_LENGTH + KEEP_ALIVE_MESSAGE_LENGTH) 0;
           b = slice_assign 0 PONG_BREAKPOINT (take PONG_BREAKPOINT raw) b;
           b = slice_assign PONG_BREAKPOINT (length b) (drop (PONG_BREAKPOINT + PONG_LENGTH_DIFFERENCE) raw) b
       in rbind (PongMessageV13_init None (Some b)) (\<lambda>m.
            Inr (m\<lparr>msg_type_field := Some (MESSAGE_TYPE PongMessage), payload_len_field := Some (n - PONG_LENGTH_DIFFERENCE)\<rparr>, msg))))"

definition PongMessageConverterV13_convert_from_older_version :: "keep_alive_message \<Rightarrow> (pong_message \<times> keep_alive_message) result" where
  "PongMessageConverterV13_convert_from_older_version msg =
     rbind (AbstractInternalMessage_payload_len msg) (\<lambda>(n, msg).
     rbind (AbstractInternalMessage_rawbytes msg) (\<lambda>(raw, msg).
       let b = replicate (HEADER_LENGTH + PONG_MESSAGE_LENGTH) 0;
           b = slice_assign 0 PONG_BREAKPOINT (take PONG_BREAKPOINT raw) b;
           b = slice_assign (PONG_BREAKPOINT + PONG_LENGTH_DIFFERENCE) (length b) (drop PONG_BREAKPOINT raw) b
       in rbind (PongMessage_init None None (Some b)) (\<lambda>m.
            Inr (m\<lparr>msg_type_field := Some (MESSAGE_TYPE PongMessage), payload_len_field := Some (n + PONG_LENGTH_DIFFERENCE)\<rparr>, msg))))"

definition PongMessageConverterV13_get_message_size_change_to_older_version :: int where
  "PongMessageConverterV13_get_message_size_change_to_older_version = - int PONG_LENGTH_DIFFERENCE"

definition PongMessageConverterV13_get_message_size_change_from_older_version :: int where
  "PongMessageConverterV13_get_message_size_change_from_older_version = int PONG_LENGTH_DIFFERENCE"

subsection \<open>Messages without a payload\<close>

text \<open>A received buffer is only wrapped by \<open>AckMessage\<close> and \<open>DisconnectRelayPeerMessage\<close>.\<close>

definition AckMessage_init :: "bytes option \<Rightarrow> message result" where
  "AckMessage_init buf =
     (case buf of
        None \<Rightarrow> AbstractBloxrouteMessage_init (MESSAGE_TYPE AckMessage) CONTROL_FLAGS_LEN
                  (blank_message (replicate (HEADER_LENGTH + CONTROL_FLAGS_LEN) 0))
      | Some b \<Rightarrow> Inr (blank_message b))"

definition DisconnectRelayPeerMessage_init :: "bytes option \<Rightarrow> message result" where
  "DisconnectRelayPeerMessage_init buf =
     (case buf of
        None \<Rightarrow> AbstractBloxrouteMessage_init (MESSAGE_TYPE DisconnectRelayPeerMessage) CONTROL_FLAGS_LEN
                  (blank_message (replicate (HEADER_LENGTH + CONTROL_FLAGS_LEN) 0))
      | Some b \<Rightarrow> Inr (blank_message b))"

definition RefreshBlockchainNetworkMessage_init :: "bytes option \<Rightarrow> message result" where
  "RefreshBlockchainNetworkMessage_init buf =
     AbstractBloxrouteMessage_init (MESSAGE_TYPE RefreshBlockchainNetworkMessage) CONTROL_FLAGS_LEN
       (blank_message (case buf of None \<Rightarrow> replicate (HEADER_LENGTH + CONTROL_FLAGS_LEN) 0 | Some b \<Rightarrow> b))"

subsection \<open>What a pong carries\<close>

definition q_element :: "string \<Rightarrow> nat \<Rightarrow> PayloadElement" where
  "q_element name off = (PayloadElement_init name FormatQ None (Some decode_or_none) None)
     \<lparr>el_block_name := Some ''ResponseMessage'', el_block_version := Some 23, el_offset := off\<rparr>"

lemma keep_alive_elements:
  "pb_elements KEEP_ALIVE_MESSAGE_BLOCK = [q_element ''nonce'' 20]"
  "pb_elements PONG_MESSAGE_BLOCK = [q_element ''nonce'' 20, q_element ''timestamp'' 28]"
  by (simp_all add: KEEP_ALIVE_MESSAGE_BLOCK_def PONG_MESSAGE_BLOCK_def PayloadBlock_init_def PayloadBlock_iter_input_def
      add_element_def PayloadElement_init_def q_element_def)

lemma keep_alive_good:
  "good_block KEEP_ALIVE_MESSAGE_BLOCK" "pb_start_offset KEEP_ALIVE_MESSAGE_BLOCK = 20"
  "good_block PONG_MESSAGE_BLOCK" "pb_start_offset PONG_MESSAGE_BLOCK = 20"
  by (simp_all add: KEEP_ALIVE_MESSAGE_BLOCK_def PONG_MESSAGE_BLOCK_def block_init_good good_item_def)

lemma keep_alive_lengths: "KEEP_ALIVE_MESSAGE_LENGTH = 9" "PONG_MESSAGE_LENGTH = 17"
  by (simp_all add: KEEP_ALIVE_MESSAGE_LENGTH_def PONG_MESSAGE_LENGTH_def KEEP_ALIVE_MESSAGE_BLOCK_def PONG_MESSAGE_BLOCK_def
      PayloadBlock_init_def PayloadBlock_iter_input_def add_element_def PayloadElement_init_def)

definition q_bytes :: "nat option \<Rightarrow> bytes \<Rightarrow> bytes" where
  "q_bytes v old = (case v of None \<Rightarrow> old | Some n \<Rightarrow> if n = 0 then old else le_bytes 8 n)"

lemma q_bytes_fresh: "q_bytes v (replicate 8 0) = le_bytes 8 (case v of None \<Rightarrow> 0 | Some n \<Rightarrow> n)"
  by (auto simp: q_bytes_def split: option.split)

lemma q_bytes_None [simp]: "q_bytes None old = old"
  by (simp add: q_bytes_def)

definition q_ok :: "nat option \<Rightarrow> bool" where
  "q_ok v \<longleftrightarrow> (\<forall>n. v = Some n \<longrightarrow> n < 256 ^ 8)"

lemma q_element_facts:
  "el_name (q_element nm off) = nm" "el_size (q_element nm off) = 8" "el_structure (q_element nm off) = FormatQ"
  "el_decode (q_element nm off) = decode_or_none" "el_encode (q_element nm off) = (\<lambda>x. x)" "el_default (q_element nm off) = None"
  by (simp_all add: q_element_def PayloadElement_init_def)

lemma q_element_built:
  assumes "q_ok v" and "element_value kw (q_element nm off) = map_option IntValue v"
  shows "fits kw (q_element nm off)" and "built_piece kw (q_element nm off) p = q_bytes v p"
  using assms by (cases v; auto simp: fits_def built_piece_def q_element_facts q_bytes_def q_ok_def)+

lemma keep_alive_build:
  assumes "q_ok nonce" and "length pre = 20" and "length old = 8"
  shows "PayloadBlock_build KEEP_ALIVE_MESSAGE_BLOCK (pre @ old @ post) [(''nonce'', map_option IntValue nonce)]
    = Inr (pre @ q_bytes nonce old @ post)"
proof -
  let ?kw = "[(''nonce'', map_option IntValue nonce)]"
  have "element_value ?kw (q_element ''nonce'' 20) = map_option IntValue nonce"
    by (simp add: element_value_def q_element_facts)
  note e = q_element_built[OF assms(1) this]
  show ?thesis
    using block_build[of KEEP_ALIVE_MESSAGE_BLOCK pre ?kw "[old]" post] e assms keep_alive_good
    by (simp add: keep_alive_elements q_element_facts)
qed

lemma pong_build:
  assumes "q_ok ts" and "length pre = 20" and "length old = 8" and "length old' = 8"
  shows "PayloadBlock_build PONG_MESSAGE_BLOCK (pre @ old @ old' @ post) [(''timestamp'', map_option IntValue ts)]
    = Inr (pre @ old @ q_bytes ts old' @ post)"
proof -
  let ?kw = "[(''timestamp'', map_option IntValue ts)]"
  have "element_value ?kw (q_element ''timestamp'' 28) = map_option IntValue ts"
    "element_value ?kw (q_element ''nonce'' 20) = map_option IntValue None"
    by (simp_all add: element_value_def q_element_facts)
  note e = q_element_built[OF assms(1) this(1)] q_element_built[OF _ this(2)]
  show ?thesis
    using block_build[of PONG_MESSAGE_BLOCK pre ?kw "[old, old']" post] e assms keep_alive_good
    by (simp add: keep_alive_elements q_element_facts q_ok_def)
qed

lemma q_decode: "length p = 8 \<Longrightarrow> decode_or_none (bytes_value FormatQ p) = Inr (if of_le p = 0 then None else Some (IntValue (of_le p)))"
  by simp

lemma keep_alive_read:
  assumes "length pre = 20" and "length p = 8"
  shows "\<exists>c. PayloadBlock_read KEEP_ALIVE_MESSAGE_BLOCK (pre @ p @ post) = Inr c
    \<and> get_content c ''nonce'' = (if of_le p = 0 then None else Some (IntValue (of_le p)))"
proof -
  let ?es = "pb_elements KEEP_ALIVE_MESSAGE_BLOCK" and ?v = "if of_le p = 0 then None else Some (IntValue (of_le p))"
  have es: "pb_start_offset KEEP_ALIVE_MESSAGE_BLOCK = length pre" "distinct (map el_name ?es)"
    "list_all2 (\<lambda>e p. length p = el_size e) ?es [p]"
    "list_all2 (\<lambda>(e, p) v. el_decode e (bytes_value (el_structure e) p) = Inr v) (zip ?es [p]) [?v]"
    using assms by (simp_all add: keep_alive_good keep_alive_elements q_element_facts)
  obtain c where "PayloadBlock_read KEEP_ALIVE_MESSAGE_BLOCK (pre @ concat [p] @ post) = Inr c" "map_of c = map_of (zip (map el_name ?es) [?v])"
    using block_read[OF keep_alive_good(1) es, of post] by (elim exE conjE)
  then show ?thesis by (simp add: get_content_def keep_alive_elements q_element_facts)
qed

lemma pong_read:
  assumes "length pre = 20" and "length p = 8" and "length p' = 8"
  shows "\<exists>c. PayloadBlock_read PONG_MESSAGE_BLOCK (pre @ p @ p' @ post) = Inr c
    \<and> get_content c ''timestamp'' = (if of_le p' = 0 then None else Some (IntValue (of_le p')))"
proof -
  let ?es = "pb_elements PONG_MESSAGE_BLOCK"
  let ?v = "if of_le p = 0 then None else Some (IntValue (of_le p))" and ?v' = "if of_le p' = 0 then None else Some (IntValue (of_le p'))"
  have es: "pb_start_offset PONG_MESSAGE_BLOCK = length pre" "distinct (map el_name ?es)"
    "list_all2 (\<lambda>e p. length p = el_size e) ?es [p, p']"
    "list_all2 (\<lambda>(e, p) v. el_decode e (bytes_value (el_structure e) p) = Inr v) (zip ?es [p, p']) [?v, ?v']"
    using assms by (simp_all add: keep_alive_good keep_alive_elements q_element_facts)
  obtain c where "PayloadBlock_read PONG_MESSAGE_BLOCK (pre @ concat [p, p'] @ post) = Inr c" "map_of c = map_of (zip (map el_name ?es) [?v, ?v'])"
    using block_read[OF keep_alive_good(3) es, of post] by (elim exE conjE)
  then show ?thesis by (simp add: get_content_def keep_alive_elements q_element_facts)
qed

definition pong_frame :: "nat \<Rightarrow> nat \<Rightarrow> bytes" where
  "pong_frame nonce ts = frame (MESSAGE_TYPE PongMessage) (le_bytes 8 nonce @ le_bytes 8 ts @ [1])"

definition pong_object :: "nat \<Rightarrow> nat \<Rightarrow> pong_message" where
  "pong_object nonce ts = pong_blank\<lparr>msg_buf := pong_frame nonce ts, msg_type_field := Some (MESSAGE_TYPE PongMessage),
     payload_len_field := Some 17\<rparr>"

definition keep_alive_object :: "bx_class \<Rightarrow> nat \<Rightarrow> keep_alive_message" where
  "keep_alive_object c nonce = keep_alive_blank\<lparr>msg_buf := frame (MESSAGE_TYPE c) (le_bytes 8 nonce @ [1]),
     msg_type_field := Some (MESSAGE_TYPE c), payload_len_field := Some 9\<rparr>"

text \<open>The constructors on any header of 20 bytes: the values given are written over what is there.\<close>

lemma keep_alive_init:
  assumes "q_ok nonce" and "length h = 20" and "length old = 8" and "c = 0 \<or> c = 1" and "n < 256 ^ 4"
  shows "KeepAliveMessage_init ty nonce (Some (h @ old @ old' @ [c])) (Some n) m
    = Inr (m\<lparr>msg_buf := STARTING_SEQUENCE_BYTES @ pad_to 12 ty @ le_bytes 4 n @ q_bytes nonce old @ old' @ [1], ka_nonce := None,
             msg_type_field := Some ty, payload_len_field := Some n, payload_field := None, msg_priority := False\<rparr>)"
proof -
  let ?b = "q_bytes nonce old @ old' @ [c]"
  have "msg_buf (m\<lparr>msg_buf := h @ ?b, ka_nonce := None\<rparr>) = h @ ?b" "?b \<noteq> []" by simp_all
  note init_frame[OF this(1) assms(2) this(2) assms(5), of ty]
  moreover have "mark_valid ?b = q_bytes nonce old @ old' @ [1]"
    using assms(4) by (auto simp: mark_valid_def butlast_append)
  ultimately show ?thesis
    using keep_alive_build[OF assms(1,2,3), of "old' @ [c]"] by (simp add: KeepAliveMessage_init_def)
qed

lemma keep_alive_init_default:
  "KeepAliveMessage_init ty nonce buf None m = KeepAliveMessage_init ty nonce (Some (case buf of None \<Rightarrow> replicate 29 0 | Some b \<Rightarrow> b)) (Some 9) m"
  by (simp add: KeepAliveMessage_init_def keep_alive_lengths split: option.split)

definition or_zero :: "nat option \<Rightarrow> nat" where
  "or_zero v = (case v of None \<Rightarrow> 0 | Some n \<Rightarrow> n)"

lemma or_zero_bound: "q_ok v \<Longrightarrow> or_zero v < 256 ^ 8"
  by (auto simp: q_ok_def or_zero_def split: option.split)

lemma zero_pieces:
  "replicate 29 0 = replicate 20 0 @ replicate 8 0 @ [] @ [0 :: byte]"
  "replicate 37 0 = replicate 20 0 @ replicate 8 0 @ replicate 8 0 @ [0 :: byte]"
proof -
  have "replicate 29 0 = replicate 20 0 @ replicate 8 0 @ replicate 1 (0 :: byte)"
    "replicate 37 0 = replicate 20 0 @ replicate 8 0 @ replicate 8 0 @ replicate 1 (0 :: byte)"
    by (simp_all only: replicate_add[symmetric]) simp_all
  then show "replicate 29 0 = replicate 20 0 @ replicate 8 0 @ [] @ [0 :: byte]"
    "replicate 37 0 = replicate 20 0 @ replicate 8 0 @ replicate 8 0 @ [0 :: byte]" by simp_all
qed

lemma keep_alive_new:
  assumes "q_ok nonce"
  shows "KeepAliveMessage_init (MESSAGE_TYPE c) nonce None None keep_alive_blank = Inr (keep_alive_object c (or_zero nonce))"
  using keep_alive_init[OF assms, of "replicate 20 0" "replicate 8 0" 0 9 "MESSAGE_TYPE c" "[]" keep_alive_blank]
  unfolding keep_alive_init_default
  by (simp add: zero_pieces(1) q_bytes_fresh or_zero_def[symmetric] keep_alive_object_def frame_def keep_alive_blank_def)

lemma keep_alive_received:
  assumes "length h = 20"
  shows "KeepAliveMessage_init (MESSAGE_TYPE c) None (Some (h @ le_bytes 8 n @ [1])) None keep_alive_blank = Inr (keep_alive_object c n)"
  using keep_alive_init[of None h "le_bytes 8 n" 1 9 "MESSAGE_TYPE c" "[]" keep_alive_blank] assms
  unfolding keep_alive_init_default
  by (simp add: keep_alive_object_def frame_def keep_alive_blank_def q_ok_def)

lemma pong_new:
  assumes "q_ok nonce" and "q_ok ts"
  shows "PongMessage_init nonce ts None = Inr (pong_object (or_zero nonce) (or_zero ts))"
proof -
  have "PayloadBlock_build PONG_MESSAGE_BLOCK (replicate 37 0) [(''timestamp'', map_option IntValue ts)]
      = Inr (replicate 20 0 @ replicate 8 0 @ le_bytes 8 (or_zero ts) @ [0])"
    using pong_build[OF assms(2), of "replicate 20 0" "replicate 8 0" "replicate 8 0" "[0]"]
    by (simp add: zero_pieces(2) q_bytes_fresh or_zero_def[symmetric])
  then show ?thesis
    using keep_alive_init[OF assms(1), of "replicate 20 0" "replicate 8 0" 0 17 "MESSAGE_TYPE PongMessage" "le_bytes 8 (or_zero ts)" pong_blank]
    by (simp add: PongMessage_init_def keep_alive_lengths q_bytes_fresh or_zero_def[symmetric] pong_object_def pong_frame_def frame_def
        pong_blank_def)
qed

lemma pong_received:
  assumes "length h = 20"
  shows "PongMessage_init None None (Some (h @ le_bytes 8 n @ le_bytes 8 t @ [1])) = Inr (pong_object n t)"
  using keep_alive_init[of None h "le_bytes 8 n" 1 17 "MESSAGE_TYPE PongMessage" "le_bytes 8 t" pong_blank]
    pong_build[of None h "le_bytes 8 n" "le_bytes 8 t" "[1]"] assms
  by (simp add: PongMessage_init_def keep_alive_lengths pong_object_def pong_frame_def frame_def pong_blank_def q_ok_def)

lemma frame_header: "frame ty body = (STARTING_SEQUENCE_BYTES @ pad_to 12 ty @ le_bytes 4 (length body)) @ body"
  by (simp add: frame_def)

lemma nonce_of_buf:
  assumes "ka_nonce m = None" and "msg_buf m = frame ty (le_bytes 8 n @ post)" and "n < 256 ^ 8"
  shows "rbind (KeepAliveMessage_nonce m) (\<lambda>(x, _). Inr x) = Inr n"
proof -
  obtain c where "PayloadBlock_read KEEP_ALIVE_MESSAGE_BLOCK (msg_buf m) = Inr c"
    "get_content c ''nonce'' = (if n = 0 then None else Some (IntValue n))"
    unfolding assms(2) frame_header
    using keep_alive_read[of "STARTING_SEQUENCE_BYTES @ pad_to 12 ty @ le_bytes 4 (length (le_bytes 8 n @ post))" "le_bytes 8 n" post] assms(3)
    by (auto simp: of_le_le_bytes)
  then show ?thesis using assms(1) by (simp add: KeepAliveMessage_nonce_def KeepAliveMessage_unpack_def)
qed

lemma pong_timestamp:
  assumes "t < 256 ^ 8"
  shows "rbind (PongMessage_timestamp (pong_object n t)) (\<lambda>(x, _). Inr x) = Inr (if t = 0 then None else Some t)"
proof -
  let ?h = "STARTING_SEQUENCE_BYTES @ pad_to 12 (MESSAGE_TYPE PongMessage) @ le_bytes 4 17"
  have b: "msg_buf (pong_object n t) = ?h @ le_bytes 8 n @ le_bytes 8 t @ [1]"
    by (simp add: pong_object_def pong_frame_def frame_def)
  obtain c where "PayloadBlock_read PONG_MESSAGE_BLOCK (msg_buf (pong_object n t)) = Inr c"
    "get_content c ''timestamp'' = (if t = 0 then None else Some (IntValue t))"
    unfolding b using pong_read[of ?h "le_bytes 8 n" "le_bytes 8 t" "[1]"] assms by (auto simp: of_le_le_bytes)
  moreover have "po_timestamp (pong_object n t) = None" by (simp add: pong_object_def pong_blank_def)
  ultimately show ?thesis by (simp add: PongMessage_timestamp_def)
qed

lemma pong_to_v13:
  "PongMessageConverterV13_convert_to_older_version (pong_object n t) = Inr (keep_alive_object PongMessage n, pong_object n t)"
proof -
  let ?m = "pong_object n t" and ?h = "STARTING_SEQUENCE_BYTES @ pad_to 12 (MESSAGE_TYPE PongMessage) @ le_bytes 4 17"
  have raw: "pong_frame n t = ?h @ le_bytes 8 n @ le_bytes 8 t @ [1]" by (simp add: pong_frame_def frame_def)
  have "AbstractInternalMessage_payload_len ?m = Inr (17, ?m)" "AbstractInternalMessage_rawbytes ?m = Inr (pong_frame n t, ?m)"
    by (simp_all add: AbstractInternalMessage_payload_len_def AbstractInternalMessage_rawbytes_def pong_object_def pong_frame_def)
  moreover have "slice_assign 28 29 (drop 36 (pong_frame n t)) (slice_assign 0 28 (take 28 (pong_frame n t)) (replicate 29 0)) = ?h @ le_bytes 8 n @ [1]"
    unfolding raw by (simp add: slice_assign_def)
  moreover have "length (slice_assign 0 28 (take 28 (pong_frame n t)) (replicate 29 0)) = 29"
    unfolding raw by (simp add: slice_assign_def)
  ultimately show ?thesis
    using keep_alive_received[of ?h PongMessage n]
    by (simp add: PongMessageConverterV13_convert_to_older_version_def PongMessageV13_init_def keep_alive_lengths keep_alive_object_def)
qed

lemma pong_from_v13:
  "PongMessageConverterV13_convert_from_older_version (keep_alive_object PongMessage n) = Inr (pong_object n 0, keep_alive_object PongMessage n)"
proof -
  let ?m = "keep_alive_object PongMessage n" and ?h = "STARTING_SEQUENCE_BYTES @ pad_to 12 (MESSAGE_TYPE PongMessage) @ le_bytes 4 9"
  let ?f = "frame (MESSAGE_TYPE PongMessage) (le_bytes 8 n @ [1])"
  have raw: "?f = ?h @ le_bytes 8 n @ [1]" by (simp add: frame_def)
  have "AbstractInternalMessage_payload_len ?m = Inr (9, ?m)" "AbstractInternalMessage_rawbytes ?m = Inr (?f, ?m)"
    by (simp_all add: AbstractInternalMessage_payload_len_def AbstractInternalMessage_rawbytes_def keep_alive_object_def)
  moreover have s1: "slice_assign 0 28 (take 28 ?f) (replicate 37 0) = (?h @ le_bytes 8 n) @ replicate 8 0 @ [0]"
    unfolding raw zero_pieces(2) by (simp add: slice_assign_def)
  moreover have "slice_assign 36 37 (drop 28 ?f) ((?h @ le_bytes 8 n) @ replicate 8 0 @ [0]) = ?h @ le_bytes 8 n @ le_bytes 8 0 @ [1]"
    unfolding raw by (simp add: slice_assign_def)
  ultimately show ?thesis
    using pong_received[of ?h n 0]
    by (simp add: PongMessageConverterV13_convert_from_older_version_def keep_alive_lengths pong_object_def)
qed

text \<open>
  A pong answers with the nonce of the ping and the time at which it was sent: the receiver reads
  both from the bytes, a missing nonce as 0 and a missing or zero timestamp as \<open>None\<close>. For a peer of
  version 13 the timestamp is cut out and the nonce stays; from such a peer a pong arrives without one.
\<close>

theorem pong_round_trip:
  assumes "\<forall>n. nonce = Some n \<longrightarrow> n < 2 ^ 64" and "\<forall>t. ts = Some t \<longrightarrow> t < 2 ^ 64"
  shows "\<exists>m. PongMessage_init nonce ts None = Inr m
    \<and> PongMessage_init None None (Some (msg_buf m)) = Inr m
    \<and> rbind (KeepAliveMessage_nonce m) (\<lambda>(x, _). Inr x) = Inr (case nonce of None \<Rightarrow> 0 | Some n \<Rightarrow> n)
    \<and> rbind (PongMessage_timestamp m) (\<lambda>(x, _). Inr x) = Inr (if ts = Some 0 then None else ts)
    \<and> (\<exists>old new. PongMessageConverterV13_convert_to_older_version m = Inr (old, m)
        \<and> PongMessageV13_init nonce None = Inr old
        \<and> rbind (KeepAliveMessage_nonce old) (\<lambda>(x, _). Inr x) = Inr (case nonce of None \<Rightarrow> 0 | Some n \<Rightarrow> n)
        \<and> int (length (msg_buf old)) = int (length (msg_buf m)) + PongMessageConverterV13_get_message_size_change_to_older_version
        \<and> PongMessageConverterV13_convert_from_older_version old = Inr (new, old)
        \<and> PongMessage_init nonce None None = Inr new)"
proof -
  have ok: "q_ok nonce" "q_ok ts" "q_ok None" using assms by (simp_all add: q_ok_def)
  let ?n = "or_zero nonce" and ?t = "or_zero ts"
  let ?m = "pong_object ?n ?t" and ?o = "keep_alive_object PongMessage ?n"
  have b: "?n < 256 ^ 8" "?t < 256 ^ 8" using ok by (simp_all only: or_zero_bound)
  have mb: "msg_buf ?m = frame (MESSAGE_TYPE PongMessage) (le_bytes 8 ?n @ le_bytes 8 ?t @ [1])"
    "msg_buf ?o = frame (MESSAGE_TYPE PongMessage) (le_bytes 8 ?n @ [1])"
    by (simp_all add: pong_object_def pong_frame_def keep_alive_object_def)
  have recv: "PongMessage_init None None (Some (msg_buf ?m)) = Inr ?m"
    unfolding mb(1) frame_header by (rule pong_received) simp
  have nonce: "rbind (KeepAliveMessage_nonce ?m) (\<lambda>(x, _). Inr x) = Inr ?n" "rbind (KeepAliveMessage_nonce ?o) (\<lambda>(x, _). Inr x) = Inr ?n"
    using nonce_of_buf[OF _ mb(1) b(1)] nonce_of_buf[OF _ mb(2) b(1)] by (simp_all add: pong_object_def pong_blank_def keep_alive_object_def keep_alive_blank_def)
  have ts: "rbind (PongMessage_timestamp ?m) (\<lambda>(x, _). Inr x) = Inr (if ts = Some 0 then None else ts)"
    using pong_timestamp[OF b(2)] by (cases ts) (auto simp: or_zero_def)
  have old: "PongMessageV13_init nonce None = Inr ?o" using keep_alive_new[OF ok(1)] by (simp add: PongMessageV13_init_def)
  have new: "PongMessage_init nonce None None = Inr (pong_object ?n 0)" using pong_new[OF ok(1,3)] by (simp add: or_zero_def)
  have len: "int (length (msg_buf ?o)) = int (length (msg_buf ?m)) + PongMessageConverterV13_get_message_size_change_to_older_version"
    unfolding mb by (simp add: PongMessageConverterV13_get_message_size_change_to_older_version_def)
  show ?thesis
    unfolding or_zero_def[symmetric]
    using pong_new[OF ok(1,2)] recv nonce ts old new len pong_to_v13 pong_from_v13
    by (intro exI[of _ ?m] conjI exI[of _ ?o] exI[of _ "pong_object ?n 0"])
qed

theorem pong_round_trip_witness:
  "\<exists>m. PongMessage_init (Some 5) (Some 77) None = Inr m \<and> rbind (PongMessage_timestamp m) (\<lambda>(x, _). Inr x) = Inr (Some 77)"
  using pong_round_trip[of "Some 5" "Some 77"] by auto

end
