(* ===== verification/Tx_Sync.thy ===== *)
theory Tx_Sync
  imports Sync_Messages Node_Messages Transaction_Service
begin

text \<open>
  The synchronization of transaction services between nodes: the construction of the messages
  (\<open>services/tx_sync_service_helpers.py\<close>), the service that sends them step by step and takes them in
  (\<open>services/tx_sync_service.py\<close>), the parts of \<open>connections/internal_node_connection.py\<close> it works with,
  \<open>utils/transaction_short_id_buckets.py\<close> and \<open>utils/nonce_generator.py\<close>.

  The loops that build a message stop when their time is over; the answers of the clock are an
  argument: \<open>late k\<close> says that the time is over when the loop looks for the \<open>k\<close>-th time.
\<close>

subsection \<open>Building messages\<close>

abbreviation (input) TXS_MSG_SIZE :: nat where "TXS_MSG_SIZE \<equiv> 64000"
abbreviation (input) GATEWAY_SYNC_MAX_MESSAGE_SIZE_BYTES :: nat where "GATEWAY_SYNC_MAX_MESSAGE_SIZE_BYTES \<equiv> 512000"

definition snapshot_entry :: "TransactionService \<Rightarrow> bool \<Rightarrow> bytes \<Rightarrow> TxContentShortIds result" where
  "snapshot_entry s sync_tx_content tx_hash =
     rbind (TransactionService_get_transaction_key (Some tx_hash) None) (\<lambda>key.
       let short_ids = TransactionService_get_short_ids_by_key key s
       in Inr \<lparr>tcs_tx_hash = transaction_hash key,
               tcs_tx_content = (if sync_tx_content then TransactionService_get_transaction_by_key key s else Some []),
               tcs_short_ids = short_ids,
               tcs_short_id_flags = map (\<lambda>sid. TransactionService_get_short_id_transaction_type sid s) short_ids\<rparr>)"

text \<open>The loop pops hashes from the end of the snapshot; here it runs over the reversed list.\<close>

fun create_txs_loop ::
    "(nat \<Rightarrow> bool) \<Rightarrow> TransactionService \<Rightarrow> bool \<Rightarrow> nat \<Rightarrow> nat \<Rightarrow> bytes list \<Rightarrow> (TxContentShortIds list \<times> bytes list) result" where
  "create_txs_loop late s sync_tx_content k txs_msg_len [] = Inr ([], [])"
| "create_txs_loop late s sync_tx_content k txs_msg_len (h # hs) =
     rbind (snapshot_entry s sync_tx_content h) (\<lambda>t.
       let n = txs_msg_len + get_serialized_tx_content_short_ids_bytes_len t
       in if n \<ge> TXS_MSG_SIZE \<or> late k then Inr ([t], hs)
          else rbind (create_txs_loop late s sync_tx_content (Suc k) n hs) (\<lambda>(ts, rest). Inr (t # ts, rest)))"

definition create_txs_service_msg ::
    "(nat \<Rightarrow> bool) \<Rightarrow> TransactionService \<Rightarrow> bytes list \<Rightarrow> bool \<Rightarrow> (TxContentShortIds list \<times> bytes list) result" where
  "create_txs_service_msg late s tx_service_snap sync_tx_content =
     rbind (create_txs_loop late s sync_tx_content 0 0 (rev tx_service_snap)) (\<lambda>(ts, rest). Inr (ts, rev rest))"

text \<open>The same from the time of assignment on. The result also holds the short ids without a transaction.\<close>

record from_time_state =
  ft_txs :: "TxContentShortIds list"
  ft_len :: nat
  ft_snapshot :: "string list"
  ft_expired :: "nat list"
  ft_timestamp :: time
  ft_checks :: nat

definition from_time_entry :: "TransactionService \<Rightarrow> bool \<Rightarrow> string \<Rightarrow> TxContentShortIds result" where
  "from_time_entry s sync_tx_content cache_key =
     rbind (TransactionService_get_transaction_key None (Some cache_key)) (\<lambda>key.
     rbind (opt_or KeyError (map_of (tx_cache_key_to_short_ids s) (transaction_cache_key key))) (\<lambda>short_ids.
     rbind (if sync_tx_content \<and> TransactionService_has_transaction_contents_by_key key s
            then opt_or KeyError (map_of (tx_cache_key_to_contents s) (transaction_cache_key key)) else Inr []) (\<lambda>content.
       Inr \<lparr>tcs_tx_hash = transaction_hash key, tcs_tx_content = Some content, tcs_short_ids = short_ids,
            tcs_short_id_flags = map (\<lambda>sid. TransactionService_get_short_id_transaction_type sid s) short_ids\<rparr>)))"

fun from_time_loop ::
    "(nat \<Rightarrow> bool) \<Rightarrow> TransactionService \<Rightarrow> time \<Rightarrow> bool \<Rightarrow> (nat \<times> time) list \<Rightarrow> from_time_state \<Rightarrow> (bool \<times> from_time_state) result" where
  "from_time_loop late s start_time sync_tx_content [] st = Inr (True, st)"
| "from_time_loop late s start_time sync_tx_content ((sid, timestamp) # items) st0 =
     (let st = st0\<lparr>ft_timestamp := timestamp\<rparr>
      in if timestamp \<le> start_time then from_time_loop late s start_time sync_tx_content items st
         else case map_of (short_id_to_tx_cache_key s) sid of
                None \<Rightarrow> from_time_loop late s start_time sync_tx_content items (st\<lparr>ft_expired := ft_expired st @ [sid]\<rparr>)
              | Some cache_key \<Rightarrow>
                  rbind (TransactionService_get_transaction_key None (Some cache_key)) (\<lambda>_.
                  if cache_key \<in> set (ft_snapshot st) then from_time_loop late s start_time sync_tx_content items st
                  else rbind (from_time_entry s sync_tx_content cache_key) (\<lambda>t.
                         let st' = st\<lparr>ft_txs := ft_txs st @ [t], ft_len := ft_len st + get_serialized_tx_content_short_ids_bytes_len t,
                                      ft_snapshot := set_add cache_key (ft_snapshot st), ft_checks := Suc (ft_checks st)\<rparr>
                         in if ft_len st' \<ge> TXS_MSG_SIZE \<or> late (ft_checks st) then Inr (False, st')
                            else from_time_loop late s start_time sync_tx_content items st')))"

definition create_txs_service_msg_from_time ::
    "(nat \<Rightarrow> bool) \<Rightarrow> TransactionService \<Rightarrow> time \<Rightarrow> bool \<Rightarrow> string list option \<Rightarrow>
     ((TxContentShortIds list \<times> time \<times> bool \<times> string list) \<times> TransactionService) result" where
  "create_txs_service_msg_from_time late s start_time sync_tx_content snapshot_cache_keys =
     rbind (from_time_loop late s start_time sync_tx_content (queue (tx_assignment_expire_queue s))
              \<lparr>ft_txs = [], ft_len = 0, ft_snapshot = (case snapshot_cache_keys of None \<Rightarrow> [] | Some ks \<Rightarrow> ks), ft_expired = [],
               ft_timestamp = start_time, ft_checks = 0\<rparr>) (\<lambda>(done, st).
       Inr ((ft_txs st, ft_timestamp st, done, ft_snapshot st),
            s\<lparr>tx_assignment_expire_queue := foldl (\<lambda>q sid. ExpirationQueue_remove sid q) (tx_assignment_expire_queue s) (ft_expired st)\<rparr>))"

text \<open>
  From a buffer with the serialized transactions behind their number. The loop counts transactions
  and looks at the clock before each, so \<open>tx_count\<close> numbers the checks.
\<close>

function from_buffer_loop :: "(nat \<Rightarrow> bool) \<Rightarrow> bytes \<Rightarrow> nat \<Rightarrow> nat \<Rightarrow> nat \<Rightarrow> (nat \<times> nat \<times> bool) result" where
  "from_buffer_loop late txs_buffer start_offset tx_count current_pos =
     (if late tx_count \<or> current_pos - start_offset > GATEWAY_SYNC_MAX_MESSAGE_SIZE_BYTES then Inr (tx_count, current_pos, False)
      else case unpack_from 4 txs_buffer (current_pos + SHA256_HASH_LEN) of
             Inl e \<Rightarrow> Inl e
           | Inr content_len \<Rightarrow>
               let short_ids_offset = current_pos + SHA256_HASH_LEN + 4 + 4 + content_len
               in case unpack_from 2 txs_buffer short_ids_offset of
                    Inl e \<Rightarrow> Inl e
                  | Inr short_ids \<Rightarrow>
                      let pos = short_ids_offset + 2 + (4 + 2) * short_ids
                      in if pos \<ge> length txs_buffer then Inr (Suc tx_count, pos, True)
                         else from_buffer_loop late txs_buffer start_offset (Suc tx_count) pos)"
  by pat_completeness auto
termination
  by (relation "measure (\<lambda>(_, b, _, _, pos). length b - pos)") (auto simp: SHA256_HASH_LEN_def)

declare from_buffer_loop.simps [simp del]

definition create_txs_service_msg_from_buffer ::
    "(nat \<Rightarrow> bool) \<Rightarrow> nat \<Rightarrow> bytes \<Rightarrow> nat \<Rightarrow> (sync_txs_message \<times> nat \<times> nat \<times> bool) result" where
  "create_txs_service_msg_from_buffer late network_num txs_buffer start_offset =
     rbind (if start_offset = 0 \<and> length txs_buffer \<le> GATEWAY_SYNC_MAX_MESSAGE_SIZE_BYTES
            then rbind (unpack_from 4 txs_buffer 0) (\<lambda>n. Inr (4, n, length txs_buffer, True))
            else let start = (if start_offset = 0 then 4 else start_offset)
                 in rbind (from_buffer_loop late txs_buffer start 0 start) (\<lambda>(n, pos, complete). Inr (start, n, pos, complete)))
       (\<lambda>(start, tx_count, current_pos, complete_buffer).
          rbind (TxServiceSyncTxsMessage_init (Some network_num) None (Some (bslice start current_pos txs_buffer)) (Some tx_count) None)
            (\<lambda>m. Inr (m, tx_count, current_pos, complete_buffer)))"

subsection \<open>A buffer is sent completely\<close>

abbreviation enc_txs :: "TxContentShortIds list \<Rightarrow> bytes" where
  "enc_txs \<equiv> txs.enc_list 2"

abbreviation valid_entry :: "TxContentShortIds \<Rightarrow> bool" where
  "valid_entry \<equiv> valid_tx 2 TransactionFlag_of"

lemma enc_txs_append: "enc_txs (a @ b) = enc_txs a @ enc_txs b"
  by (induction a) (simp_all add: txs.enc_list_simps)

lemma length_tx_enc:
  "valid_entry t \<Longrightarrow> length (tx_enc 2 t) = 42 + length (the (tcs_tx_content t)) + 6 * length (tcs_short_ids t)"
  by (auto simp: tx_enc_def valid_tx_def)

lemma entry_fields:
  assumes "valid_entry t"
  shows "unpack_from 4 (pre @ tx_enc 2 t @ post) (length pre + 32) = Inr (length (the (tcs_tx_content t)))"
    and "unpack_from 2 (pre @ tx_enc 2 t @ post) (length pre + 40 + length (the (tcs_tx_content t))) = Inr (length (tcs_short_ids t))"
proof -
  let ?c = "the (tcs_tx_content t)" and ?s = "tcs_short_ids t"
  let ?r = "uint.enc_list 4 ?s @ uint.enc_list 2 (tcs_short_id_flags t) @ post"
  have v: "length (tcs_tx_hash t) = 32" "length ?c < 256 ^ 4" "length ?s < 256 ^ 2" using assms by (simp_all add: valid_tx_def)
  have "unpack_from 4 ((pre @ tcs_tx_hash t) @ le_bytes 4 (length ?c) @ ?c @ le_bytes 4 0 @ le_bytes 2 (length ?s) @ ?r)
      (length (pre @ tcs_tx_hash t)) = Inr (of_le (le_bytes 4 (length ?c)))"
    by (rule unpack_from_middle) simp
  moreover have "unpack_from 2 ((pre @ tcs_tx_hash t @ le_bytes 4 (length ?c) @ ?c @ le_bytes 4 0) @ le_bytes 2 (length ?s) @ ?r)
      (length (pre @ tcs_tx_hash t @ le_bytes 4 (length ?c) @ ?c @ le_bytes 4 0)) = Inr (of_le (le_bytes 2 (length ?s)))"
    by (rule unpack_from_middle) simp
  ultimately show "unpack_from 4 (pre @ tx_enc 2 t @ post) (length pre + 32) = Inr (length ?c)"
    "unpack_from 2 (pre @ tx_enc 2 t @ post) (length pre + 40 + length ?c) = Inr (length ?s)"
    using v by (simp_all add: tx_enc_def of_le_le_bytes ac_simps)
qed

lemma from_buffer_loop_spec:
  assumes "list_all valid_entry txs" and "txs \<noteq> []" and "start \<le> length pre"
  shows "\<exists>j \<le> length txs. from_buffer_loop late (pre @ enc_txs txs) start c (length pre)
      = Inr (c + j, length pre + length (enc_txs (take j txs)), j = length txs)
    \<and> (\<not> late c \<and> length pre - start \<le> GATEWAY_SYNC_MAX_MESSAGE_SIZE_BYTES \<longrightarrow> 0 < j)"
  using assms
proof (induction txs arbitrary: pre c)
  case (Cons t txs)
  let ?b = "pre @ enc_txs (t # txs)" and ?p = "length pre + length (tx_enc 2 t)"
  show ?case
  proof (cases "late c \<or> length pre - start > 512000")
    case True
    then have "from_buffer_loop late ?b start c (length pre) = Inr (c, length pre, False)" by (subst from_buffer_loop.simps) simp
    then show ?thesis using True by (intro exI[of _ 0]) (auto simp: txs.enc_list_simps)
  next
    case False
    have t: "valid_entry t" "list_all valid_entry txs" using Cons.prems(1) by simp_all
    have b: "?b = pre @ tx_enc 2 t @ enc_txs txs" by (simp add: txs.enc_list_simps)
    have step: "from_buffer_loop late ?b start c (length pre)
        = (if ?p \<ge> length ?b then Inr (Suc c, ?p, True) else from_buffer_loop late ?b start (Suc c) ?p)"
      using False entry_fields[OF t(1), of pre "enc_txs txs"] length_tx_enc[OF t(1)] unfolding b
      by (subst from_buffer_loop.simps) (simp add: SHA256_HASH_LEN_def Let_def ac_simps)
    show ?thesis
    proof (cases "txs = []")
      case True
      then show ?thesis using step by (intro exI[of _ 1]) (simp add: txs.enc_list_simps)
    next
      case rest: False
      then obtain u us where "txs = u # us" by (cases txs) auto
      then have "\<not> ?p \<ge> length ?b" using t(2) length_tx_enc[of u] by (auto simp: txs.enc_list_simps)
      then have s: "from_buffer_loop late ?b start c (length pre) = from_buffer_loop late ?b start (Suc c) ?p" using step by simp
      have b': "?b = (pre @ tx_enc 2 t) @ enc_txs txs" using b by simp
      obtain j where j: "j \<le> length txs" "from_buffer_loop late ((pre @ tx_enc 2 t) @ enc_txs txs) start (Suc c) (length (pre @ tx_enc 2 t))
          = Inr (Suc c + j, length (pre @ tx_enc 2 t) + length (enc_txs (take j txs)), j = length txs)"
        using Cons.IH[OF t(2) rest, of "pre @ tx_enc 2 t" "Suc c"] Cons.prems(3) by auto
      show ?thesis
        using s j unfolding b' by (intro exI[of _ "Suc j"]) (simp add: txs.enc_list_simps)
    qed
  qed
qed simp

lemma message_from_buffer:
  assumes "sync_ok 2 TransactionFlag_of n ts"
  shows "TxServiceSyncTxsMessage_init (Some n) None (Some (enc_txs ts)) (Some (length ts)) None = Inr (sync_object 2 n ts)"
proof -
  let ?e = "enc_txs ts" and ?h = "le_bytes 4 n @ le_bytes 4 (length ts)"
  have "pack_two (replicate (28 + (length ?e + 1)) 0) (Some n) (Some (length ts)) = Inr (replicate 20 0 @ ?h @ replicate (length ?e + 1) 0)"
    using assms pack_two_ok[of n "length ts" "length ?e + 1"] by (simp add: sync_ok_def)
  moreover have "slice_assign 28 (28 + length ?e) ?e (replicate 20 0 @ ?h @ replicate (length ?e + 1) 0) = replicate 20 0 @ sync_body 2 n ts @ [0]"
    by (simp add: slice_assign_def sync_body_def drop_replicate flip: replicate_Suc) simp
  moreover have "finish_message (MESSAGE_TYPE TxServiceSyncTxsMessage) (sync_txs_blank (Some n) (Some (length ts)))
      (replicate 20 0 @ sync_body 2 n ts @ [0]) = Inr (sync_object 2 n ts)"
    unfolding sync_object_def using assms by (intro finish_payload) (simp_all add: sync_ok_def)
  ultimately show ?thesis by (simp add: TxServiceSyncTxsMessage_init_def Let_def del: replicate.simps)
qed

text \<open>
  A buffer of serialized transactions and the offsets at which a message may begin: 0 at first, then
  the end of the transactions sent so far.
\<close>

definition sync_buffer :: "TxContentShortIds list \<Rightarrow> bytes" where
  "sync_buffer txs = le_bytes 4 (length txs) @ enc_txs txs"

definition offset_of :: "TxContentShortIds list \<Rightarrow> nat \<Rightarrow> nat" where
  "offset_of txs i = 4 + length (enc_txs (take i txs))"

definition at_offset :: "TxContentShortIds list \<Rightarrow> nat \<Rightarrow> nat \<Rightarrow> bool" where
  "at_offset txs i off \<longleftrightarrow> (i = 0 \<and> off = 0) \<or> (i < length txs \<and> off = offset_of txs i)"

definition sendable :: "nat \<Rightarrow> TxContentShortIds list \<Rightarrow> bool" where
  "sendable n txs \<longleftrightarrow> n < 256 ^ 4 \<and> list_all valid_entry txs \<and> 16 + length (enc_txs txs) < 256 ^ 4"

lemma enc_txs_split: "enc_txs txs = enc_txs (take i txs) @ enc_txs (take j (drop i txs)) @ enc_txs (drop (i + j) txs)"
proof -
  have "enc_txs txs = enc_txs (take i txs @ take j (drop i txs) @ drop (i + j) txs)"
    by (metis append_take_drop_id drop_drop add.commute)
  then show ?thesis by (simp only: enc_txs_append)
qed

lemma length_le_enc: "list_all valid_entry ts \<Longrightarrow> length ts \<le> length (enc_txs ts)"
proof (induction ts)
  case (Cons t ts)
  then show ?case using length_tx_enc[of t] by (simp add: txs.enc_list_simps)
qed simp

lemma sendable_part:
  assumes "sendable n txs"
  shows "sync_ok 2 TransactionFlag_of n (take j (drop i txs))"
proof -
  let ?p = "take j (drop i txs)"
  have "set ?p \<subseteq> set txs" by (meson set_drop_subset set_take_subset subset_trans)
  then have v: "list_all valid_entry ?p" using assms by (auto simp: sendable_def list_all_iff)
  moreover have "length (enc_txs ?p) \<le> length (enc_txs txs)" using arg_cong[OF enc_txs_split[of txs i j], of length] by simp
  ultimately show ?thesis using assms length_le_enc[OF v] by (auto simp: sync_ok_def sync_body_def sendable_def)
qed

lemma take_take_drop: "take i xs @ take j (drop i xs) = take (i + j) xs"
  by (simp add: take_add)

lemma from_buffer_chunk:
  assumes "sendable n txs" and "at_offset txs i off"
  shows "\<exists>j \<le> length txs - i. create_txs_service_msg_from_buffer late n (sync_buffer txs) off
      = Inr (sync_object 2 n (take j (drop i txs)), j, offset_of txs (i + j), i + j = length txs)
    \<and> (\<not> late 0 \<longrightarrow> 0 < j \<or> i + j = length txs)"
proof (cases "off = 0 \<and> length (sync_buffer txs) \<le> 512000")
  case True
  then have i: "i = 0" using assms(2) by (auto simp: at_offset_def offset_of_def)
  have "length txs < 256 ^ 4" using assms(1) length_le_enc[of txs] by (auto simp: sendable_def)
  then have "unpack_from 4 (sync_buffer txs) 0 = Inr (length txs)"
    using unpack_from_middle[of "le_bytes 4 (length txs)" 4 "[]" "enc_txs txs"] by (simp add: sync_buffer_def of_le_le_bytes)
  moreover have "bslice 4 (length (sync_buffer txs)) (sync_buffer txs) = enc_txs txs"
    by (simp add: sync_buffer_def bslice_def)
  ultimately show ?thesis
    using True i message_from_buffer[OF sendable_part[OF assms(1), of "length txs" 0]]
    by (intro exI[of _ "length txs"]) (simp add: create_txs_service_msg_from_buffer_def offset_of_def sync_buffer_def)
next
  case False
  let ?pre = "le_bytes 4 (length txs) @ enc_txs (take i txs)"
  have i: "i < length txs"
  proof (cases "off = 0")
    case True
    then have "txs \<noteq> []" using False by (auto simp: sync_buffer_def txs.enc_list_simps)
    then show ?thesis using True assms(2) by (auto simp: at_offset_def offset_of_def)
  qed (use assms(2) in \<open>auto simp: at_offset_def\<close>)
  have start: "(if off = 0 then 4 else off) = length ?pre" using assms(2) by (auto simp: at_offset_def offset_of_def txs.enc_list_simps)
  have b: "sync_buffer txs = ?pre @ enc_txs (drop i txs)"
    using enc_txs_append[of "take i txs" "drop i txs"] by (simp add: sync_buffer_def)
  have v: "list_all valid_entry (drop i txs)" using assms(1) by (auto simp: sendable_def list_all_iff dest: in_set_dropD)
  obtain j where j: "j \<le> length (drop i txs)" "from_buffer_loop late (?pre @ enc_txs (drop i txs)) (length ?pre) 0 (length ?pre)
      = Inr (0 + j, length ?pre + length (enc_txs (take j (drop i txs))), j = length (drop i txs))" "\<not> late 0 \<longrightarrow> 0 < j"
    using from_buffer_loop_spec[OF v, of "length ?pre" ?pre late 0] i by auto
  have pos: "length ?pre + length (enc_txs (take j (drop i txs))) = offset_of txs (i + j)"
    unfolding offset_of_def take_take_drop[symmetric] enc_txs_append by simp
  have "bslice (length ?pre) (offset_of txs (i + j)) (sync_buffer txs) = enc_txs (take j (drop i txs))"
    unfolding pos[symmetric] sync_buffer_def
    by (subst enc_txs_split[of txs i j]) (use bslice_middle[of ?pre "enc_txs (take j (drop i txs))" "enc_txs (drop (i + j) txs)"] in simp)
  moreover have "length (take j (drop i txs)) = j" using j(1) by simp
  ultimately show ?thesis
    using False j(2,3) i j(1) message_from_buffer[OF sendable_part[OF assms(1), of j i]] unfolding b[symmetric] pos
    by (intro exI[of _ j]) (auto simp: create_txs_service_msg_from_buffer_def Let_def start)
qed

subsection \<open>The connection of a synchronization\<close>

text \<open>
  What the service uses of an \<open>InternalNodeConnection\<close>: the messages it enqueued, as they were before a
  conversion to an older version, the pings it waits for and the latencies measured with them. A
  missing entry of \<open>sc_latencies\<close> counts as 0, the entry \<open>None\<close> says that a ping is under way.
\<close>

datatype sync_out =
    OutTxs sync_txs_message | OutBlocks sync_blocks_message | OutComplete sync_network_message | OutReq sync_network_message
  | OutPing keep_alive_message | OutPong pong_message

record sync_conn =
  sc_established :: bool
  sc_alive :: bool
  sc_out :: "sync_out list"
  sc_ping_timestamps :: "(nat \<times> time) list"
  sc_latencies :: "(nat \<times> time option) list"
  sc_nonces :: "(nat \<times> nat) list"
  sc_inbound_peer_latency :: time

definition sc_is_active :: "sync_conn \<Rightarrow> bool" where
  "sc_is_active c \<longleftrightarrow> sc_established c \<and> sc_alive c"

text \<open>
  \<open>sc_out\<close> lists the messages that were handed to \<open>enqueue_msg\<close> of the connection while it was alive. To a
  peer of the current protocol version these are the messages sent; how \<open>enqueue_msg\<close> converts a message
  for an older peer, and the versions for which it raises, is \<open>enqueue_versioned\<close> in \<open>Internal_Connection\<close>.
\<close>

definition sync_enqueue :: "sync_out \<Rightarrow> sync_conn \<Rightarrow> sync_conn" where
  "sync_enqueue msg c = (if sc_alive c then c\<lparr>sc_out := sc_out c @ [msg]\<rparr> else c)"

text \<open>Nonces are times in microseconds.\<close>

definition get_nonce :: "time \<Rightarrow> nat" where
  "get_nonce now = nat \<lfloor>now * 10 ^ 6\<rfloor>"

definition get_timestamp_from_nonce :: "nat \<Rightarrow> time" where
  "get_timestamp_from_nonce nonce = real nonce / 10 ^ 6"

definition InternalNodeConnection_ping_message :: "time \<Rightarrow> sync_conn \<Rightarrow> (keep_alive_message \<times> sync_conn) result" where
  "InternalNodeConnection_ping_message now c =
     (let nonce = get_nonce now
      in rbind (PingMessage_init (Some nonce) None) (\<lambda>m. Inr (m, c\<lparr>sc_ping_timestamps := AList.update nonce now (sc_ping_timestamps c)\<rparr>)))"

definition InternalNodeConnection_check_ping_latency_for_network :: "time \<Rightarrow> nat \<Rightarrow> sync_conn \<Rightarrow> sync_conn result" where
  "InternalNodeConnection_check_ping_latency_for_network now network_num c =
     rbind (InternalNodeConnection_ping_message now c) (\<lambda>(m, c1).
     rbind (KeepAliveMessage_nonce m) (\<lambda>(nonce, m').
       let c2 = sync_enqueue (OutPing m) c1
       in Inr (c2\<lparr>sc_nonces := AList.update nonce network_num (sc_nonces c2), sc_latencies := AList.update network_num None (sc_latencies c2)\<rparr>)))"

definition InternalNodeConnection_update_tx_sync_complete :: "nat \<Rightarrow> sync_conn \<Rightarrow> sync_conn" where
  "InternalNodeConnection_update_tx_sync_complete network_num c =
     c\<lparr>sc_latencies := AList.delete network_num (sc_latencies c), sc_nonces := filter (\<lambda>(_, n). n \<noteq> network_num) (sc_nonces c)\<rparr>"

text \<open>The handlers, without the measurements they report.\<close>

definition InternalNodeConnection_msg_ping :: "time \<Rightarrow> keep_alive_message \<Rightarrow> sync_conn \<Rightarrow> sync_conn result" where
  "InternalNodeConnection_msg_ping now msg c =
     rbind (KeepAliveMessage_nonce msg) (\<lambda>(nonce, _).
     rbind (PongMessage_init (Some nonce) (Some (get_nonce now)) None) (\<lambda>pong.
       Inr (sync_enqueue (OutPong pong) (c\<lparr>sc_inbound_peer_latency := now - get_timestamp_from_nonce nonce\<rparr>))))"

definition InternalNodeConnection_msg_pong :: "time \<Rightarrow> pong_message \<Rightarrow> sync_conn \<Rightarrow> sync_conn result" where
  "InternalNodeConnection_msg_pong now msg c =
     rbind (KeepAliveMessage_nonce msg) (\<lambda>(nonce, msg).
     rbind (PongMessage_timestamp msg) (\<lambda>(timestamp, _).
       let c1 = (case timestamp of Some t \<Rightarrow> if t \<noteq> 0 then c\<lparr>sc_inbound_peer_latency := now - get_timestamp_from_nonce t\<rparr> else c | None \<Rightarrow> c)
       in Inr (case map_of (sc_ping_timestamps c1) nonce of
                 None \<Rightarrow> c1
               | Some request_time \<Rightarrow>
                   (case map_of (sc_nonces c1) nonce of
                      None \<Rightarrow> c1
                    | Some network_num \<Rightarrow> c1\<lparr>sc_latencies := AList.update network_num (Some (now - request_time)) (sc_latencies c1)\<rparr>))))"

subsection \<open>The synchronization service\<close>

abbreviation (input) SENDING_TX_MSGS_TIMEOUT_S :: time where "SENDING_TX_MSGS_TIMEOUT_S \<equiv> 900"
abbreviation (input) TX_SERVICE_SYNC_TXS_S :: time where "TX_SERVICE_SYNC_TXS_S \<equiv> 1 / 100"
abbreviation (input) LAST_MSG_FROM_RELAY_THRESHOLD_S :: time where "LAST_MSG_FROM_RELAY_THRESHOLD_S \<equiv> 30"
abbreviation (input) TX_SID_INTERVAL :: nat where "TX_SID_INTERVAL \<equiv> 10000000"

record BucketInfo =
  bucket_count :: nat
  bucket_max :: nat

type_synonym TransactionShortIdBuckets = "(nat \<times> BucketInfo) list"

definition TransactionShortIdBuckets_incr_short_id :: "nat \<Rightarrow> TransactionShortIdBuckets \<Rightarrow> TransactionShortIdBuckets" where
  "TransactionShortIdBuckets_incr_short_id short_id buckets =
     (let bucket = short_id - short_id mod TX_SID_INTERVAL;
          info = (case map_of buckets bucket of None \<Rightarrow> \<lparr>bucket_count = 0, bucket_max = 0\<rparr> | Some i \<Rightarrow> i)
      in AList.update bucket \<lparr>bucket_count = bucket_count info + 1,
           bucket_max = (if short_id > bucket_max info then short_id else bucket_max info)\<rparr> buckets)"

text \<open>The functions that alarms call, with the arguments they are registered with.\<close>

datatype sync_callback =
    SendTxs nat "bytes list" bool time nat nat time
  | SendTxsFromTime nat bool time nat nat time time "string list option"
  | SendTxsFromBuffer nat bytes time nat nat time nat
  | CheckSyncRelayConnections

record sync_metrics =
  m_msgs :: nat
  m_tx_count :: nat
  m_tx_content_count :: nat

text \<open>What the service uses of its node; \<open>nd_alarms\<close> holds the alarms that are registered, by their ids.\<close>

record sync_node =
  nd_last_sync_message :: "(nat \<times> time) list"
  nd_start_sync_time :: "time option"
  nd_sync_metrics :: "(nat \<times> sync_metrics) list"
  nd_short_id_buckets :: "(nat \<times> TransactionShortIdBuckets) list"
  nd_check_relay_alarm :: "nat option"
  nd_timeout_alarm :: "nat option"
  nd_alarms :: "(nat \<times> time \<times> sync_callback) list"
  nd_next_alarm :: nat
  nd_fully_updated :: bool

record TxSyncService =
  sy_conn :: "sync_conn option"
  sy_node :: sync_node
  sy_alarms :: "(nat \<times> nat) list"

definition node_register_alarm :: "time \<Rightarrow> sync_callback \<Rightarrow> sync_node \<Rightarrow> nat \<times> sync_node" where
  "node_register_alarm delay cb nd =
     (nd_next_alarm nd, nd\<lparr>nd_alarms := nd_alarms nd @ [(nd_next_alarm nd, delay, cb)], nd_next_alarm := Suc (nd_next_alarm nd)\<rparr>)"

definition node_unregister_alarm :: "nat \<Rightarrow> sync_node \<Rightarrow> sync_node" where
  "node_unregister_alarm alarm nd = nd\<lparr>nd_alarms := AList.delete alarm (nd_alarms nd)\<rparr>"

definition TxSyncService_init :: "sync_conn \<Rightarrow> sync_node \<Rightarrow> TxSyncService" where
  "TxSyncService_init conn nd = \<lparr>sy_conn = Some conn, sy_node = nd, sy_alarms = []\<rparr>"

definition TxSyncService_dispose :: "TxSyncService \<Rightarrow> TxSyncService" where
  "TxSyncService_dispose s = s\<lparr>sy_conn := None\<rparr>"

text \<open>A service that was disposed has no connection; using it raises.\<close>

definition with_conn :: "TxSyncService \<Rightarrow> (sync_conn \<Rightarrow> 'a result) \<Rightarrow> 'a result" where
  "with_conn s f = rbind (opt_or AttributeErr (sy_conn s)) f"

definition TxSyncService_send_tx_service_sync_complete :: "nat \<Rightarrow> TxSyncService \<Rightarrow> TxSyncService result" where
  "TxSyncService_send_tx_service_sync_complete network_num s =
     with_conn s (\<lambda>c.
     rbind (TxServiceSyncCompleteMessage_init (Some network_num) None) (\<lambda>m.
       Inr (s\<lparr>sy_conn := Some (sync_enqueue (OutComplete m)
                (InternalNodeConnection_update_tx_sync_complete network_num c))\<rparr>)))"

definition TxSyncService_send_tx_service_sync_req :: "time \<Rightarrow> nat \<Rightarrow> TxSyncService \<Rightarrow> TxSyncService result" where
  "TxSyncService_send_tx_service_sync_req now network_num s =
     with_conn s (\<lambda>c.
     rbind (TxServiceSyncReqMessage_init (Some network_num) None) (\<lambda>m.
       let nd1 = (sy_node s)\<lparr>nd_last_sync_message := AList.update network_num now (nd_last_sync_message (sy_node s)),
                             nd_short_id_buckets := AList.delete network_num (nd_short_id_buckets (sy_node s)),
                             nd_sync_metrics := AList.delete network_num (nd_sync_metrics (sy_node s))\<rparr>;
           nd2 = (case nd_check_relay_alarm nd1 of None \<Rightarrow> nd1 | Some a \<Rightarrow> node_unregister_alarm a nd1);
           (alarm, nd3) = node_register_alarm LAST_MSG_FROM_RELAY_THRESHOLD_S CheckSyncRelayConnections nd2
       in Inr (s\<lparr>sy_conn := Some (sync_enqueue (OutReq m) c), sy_node := nd3\<lparr>nd_check_relay_alarm := Some alarm\<rparr>\<rparr>)))"

definition TxSyncService_send_tx_service_sync_blocks_short_ids :: "TransactionService \<Rightarrow> nat \<Rightarrow> TxSyncService \<Rightarrow> TxSyncService result" where
  "TxSyncService_send_tx_service_sync_blocks_short_ids tx_service network_num s =
     with_conn s (\<lambda>c.
     rbind (TxServiceSyncBlocksShortIdsMessage_init (Some network_num) (Some (short_ids_seen_in_block tx_service)) None) (\<lambda>m.
       Inr (s\<lparr>sy_conn := Some (sync_enqueue (OutBlocks m) c)\<rparr>)))"

text \<open>
  The three ways of sending transactions. Each call sends one message if the last ping was answered,
  then either asks an alarm to go on or tells the peer that all was sent. \<open>late\<close> holds the answers of
  the clock while the message is built, \<open>elapsed\<close> the time it took, \<open>tx_service\<close> what
  \<open>get_tx_service\<close> returns for the network.
\<close>

definition ping_latency :: "nat \<Rightarrow> sync_conn \<Rightarrow> time option" where
  "ping_latency network_num c = (case map_of (sc_latencies c) network_num of None \<Rightarrow> Some 0 | Some l \<Rightarrow> l)"

definition next_interval :: "time option \<Rightarrow> time" where
  "next_interval latency = (case latency of None \<Rightarrow> TX_SERVICE_SYNC_TXS_S | Some l \<Rightarrow> max (l * (1 / 2)) TX_SERVICE_SYNC_TXS_S)"

definition set_sync_alarm :: "nat \<Rightarrow> time \<Rightarrow> sync_callback \<Rightarrow> TxSyncService \<Rightarrow> TxSyncService" where
  "set_sync_alarm network_num delay cb s =
     (let (alarm, nd) = node_register_alarm delay cb (sy_node s)
      in s\<lparr>sy_node := nd, sy_alarms := AList.update network_num alarm (sy_alarms s)\<rparr>)"

definition send_and_ping :: "time \<Rightarrow> nat \<Rightarrow> sync_txs_message \<Rightarrow> sync_conn \<Rightarrow> sync_conn result" where
  "send_and_ping now network_num m c =
     InternalNodeConnection_check_ping_latency_for_network now network_num (sync_enqueue (OutTxs m) c)"

definition TxSyncService_send_tx_service_sync_txs ::
    "(nat \<Rightarrow> bool) \<Rightarrow> time \<Rightarrow> time \<Rightarrow> TransactionService \<Rightarrow> nat \<Rightarrow> bytes list \<Rightarrow> bool \<Rightarrow> time \<Rightarrow> nat \<Rightarrow> nat \<Rightarrow> time \<Rightarrow>
     TxSyncService \<Rightarrow> TxSyncService result" where
  "TxSyncService_send_tx_service_sync_txs late now elapsed tx_service network_num snap sync_tx_content duration msgs_count total_tx_count
       sending_start s0 =
     (let s = s0\<lparr>sy_alarms := AList.delete network_num (sy_alarms s0)\<rparr>
      in with_conn s (\<lambda>c.
           if \<not> sc_is_active c then TxSyncService_send_tx_service_sync_complete network_num s
           else let start = (if sending_start = 0 then now else sending_start); latency = ping_latency network_num c
                in if now - start < SENDING_TX_MSGS_TIMEOUT_S
                   then rbind (if snap \<noteq> [] \<and> latency \<noteq> None
                               then rbind (create_txs_service_msg late tx_service snap sync_tx_content) (\<lambda>(txs, rest).
                                    rbind (TxServiceSyncTxsMessage_init (Some network_num) (Some txs) None None None) (\<lambda>m.
                                    rbind (send_and_ping now network_num m c) (\<lambda>c'.
                                      Inr (rest, duration + elapsed, msgs_count + 1, total_tx_count + length txs, s\<lparr>sy_conn := Some c'\<rparr>))))
                               else Inr (snap, duration, msgs_count, total_tx_count, s)) (\<lambda>(snap', duration', msgs', total', s').
                          if snap' \<noteq> []
                          then Inr (set_sync_alarm network_num (next_interval latency)
                                 (SendTxs network_num snap' sync_tx_content duration' msgs' total' start) s')
                          else TxSyncService_send_tx_service_sync_complete network_num s')
                   else TxSyncService_send_tx_service_sync_complete network_num s))"

definition TxSyncService_send_tx_service_sync_txs_from_time ::
    "(nat \<Rightarrow> bool) \<Rightarrow> time \<Rightarrow> time \<Rightarrow> TransactionService \<Rightarrow> nat \<Rightarrow> bool \<Rightarrow> time \<Rightarrow> nat \<Rightarrow> nat \<Rightarrow> time \<Rightarrow> time \<Rightarrow> string list option \<Rightarrow>
     TxSyncService \<Rightarrow> (TxSyncService \<times> TransactionService) result" where
  "TxSyncService_send_tx_service_sync_txs_from_time late now elapsed tx_service network_num sync_tx_content duration msgs_count total_tx_count
       sending_start start_time snapshot s0 =
     (let s = s0\<lparr>sy_alarms := AList.delete network_num (sy_alarms s0)\<rparr>;
          complete = (\<lambda>ts s. rbind (TxSyncService_send_tx_service_sync_complete network_num s) (\<lambda>s'. Inr (s', ts)))
      in with_conn s (\<lambda>c.
           if \<not> sc_is_active c then complete tx_service s
           else let start = (if sending_start = 0 then now else sending_start); latency = ping_latency network_num c
                in if now - start < SENDING_TX_MSGS_TIMEOUT_S
                   then rbind (if latency \<noteq> None
                               then rbind (create_txs_service_msg_from_time late tx_service start_time sync_tx_content snapshot)
                                      (\<lambda>((txs, last, fin, keys), ts).
                                    rbind (TxServiceSyncTxsMessage_init (Some network_num) (Some txs) None None None) (\<lambda>m.
                                    rbind (send_and_ping now network_num m c) (\<lambda>c'.
                                      Inr (fin, last, Some keys, duration + elapsed, msgs_count + 1, total_tx_count + length txs,
                                           s\<lparr>sy_conn := Some c'\<rparr>, ts))))
                               else Inr (False, start_time, snapshot, duration, msgs_count, total_tx_count, s, tx_service))
                        (\<lambda>(fin, last, keys, duration', msgs', total', s', ts).
                          if \<not> fin
                          then Inr (set_sync_alarm network_num (next_interval latency)
                                 (SendTxsFromTime network_num sync_tx_content duration' msgs' total' start last keys) s', ts)
                          else complete ts s')
                   else complete tx_service s))"

definition TxSyncService_send_tx_service_sync_txs_from_buffer ::
    "(nat \<Rightarrow> bool) \<Rightarrow> time \<Rightarrow> time \<Rightarrow> nat \<Rightarrow> nat \<Rightarrow> bytes \<Rightarrow> time \<Rightarrow> nat \<Rightarrow> nat \<Rightarrow> time \<Rightarrow> nat \<Rightarrow> TxSyncService \<Rightarrow> TxSyncService result" where
  "TxSyncService_send_tx_service_sync_txs_from_buffer late now elapsed service_network_num network_num txs_buffer duration msgs_count
       total_tx_count sending_start start_offset s0 =
     (let s = s0\<lparr>sy_alarms := AList.delete network_num (sy_alarms s0)\<rparr>
      in case sy_conn s of
           None \<Rightarrow> Inr s
         | Some c \<Rightarrow>
             if \<not> sc_is_active c then TxSyncService_send_tx_service_sync_complete network_num s
             else let start = (if sending_start = 0 then now else sending_start); latency = ping_latency network_num c
                  in if now - start < SENDING_TX_MSGS_TIMEOUT_S
                     then rbind (if latency \<noteq> None
                                 then rbind (create_txs_service_msg_from_buffer late service_network_num txs_buffer start_offset)
                                        (\<lambda>(m, txs_count, end_offset, fin).
                                      rbind (send_and_ping now network_num m c) (\<lambda>c'.
                                        Inr (fin, end_offset, duration + elapsed, msgs_count + 1, total_tx_count + txs_count,
                                             s\<lparr>sy_conn := Some c'\<rparr>)))
                                 else Inr (False, start_offset, duration, msgs_count, total_tx_count, s))
                          (\<lambda>(fin, end_offset, duration', msgs', total', s').
                            if \<not> fin
                            then Inr (set_sync_alarm network_num (next_interval latency)
                                   (SendTxsFromBuffer network_num txs_buffer duration' msgs' total' start end_offset) s')
                            else TxSyncService_send_tx_service_sync_complete network_num s')
                     else TxSyncService_send_tx_service_sync_complete network_num s)"

text \<open>Taking in the transactions of a peer.\<close>

definition note_item :: "nat \<Rightarrow> sync_node \<times> TransactionService \<Rightarrow> TxSyncMsgProcessingItem \<Rightarrow> sync_node \<times> TransactionService" where
  "note_item network_num p item =
     (let nd = fst p;
          m0 = (case map_of (nd_sync_metrics nd) network_num of None \<Rightarrow> \<lparr>m_msgs = 0, m_tx_count = 0, m_tx_content_count = 0\<rparr> | Some m \<Rightarrow> m);
          m1 = m0\<lparr>m_tx_count := m_tx_count m0 + 1,
                  m_tx_content_count := (if item_content_length item > 0 then m_tx_content_count m0 + 1 else m_tx_content_count m0)\<rparr>
      in foldl (\<lambda>(nd, ts) (sid, flag).
                  let buckets = (case map_of (nd_short_id_buckets nd) network_num of None \<Rightarrow> [] | Some b \<Rightarrow> b)
                  in (nd\<lparr>nd_short_id_buckets := AList.update network_num (TransactionShortIdBuckets_incr_short_id sid buckets) (nd_short_id_buckets nd)\<rparr>,
                      if flag_in PAID_TX flag then TransactionService_set_short_id_transaction_type sid flag ts else ts))
           (nd\<lparr>nd_sync_metrics := AList.update network_num m1 (nd_sync_metrics nd)\<rparr>, snd p)
           (zip (item_short_ids item) (item_transaction_flag_types item)))"

definition TxSyncService_msg_tx_service_sync_txs ::
    "time \<Rightarrow> sync_txs_message \<Rightarrow> TxSyncService \<times> TransactionService \<Rightarrow> (TxSyncService \<times> TransactionService) result" where
  "TxSyncService_msg_tx_service_sync_txs now msg p =
     (let s = fst p in
      rbind (TxServiceSyncTxsMessage_network_num msg) (\<lambda>(network_num, msg).
      rbind (TxServiceSyncTxsMessage_txs_content_short_ids msg) (\<lambda>(txs, _).
      rbind (TransactionService_process_tx_sync_message now txs (snd p)) (\<lambda>(items, ts).
        let nd = sy_node s;
            m0 = (case map_of (nd_sync_metrics nd) network_num of None \<Rightarrow> \<lparr>m_msgs = 0, m_tx_count = 0, m_tx_content_count = 0\<rparr> | Some m \<Rightarrow> m);
            nd1 = nd\<lparr>nd_last_sync_message := AList.update network_num now (nd_last_sync_message nd),
                     nd_sync_metrics := AList.update network_num (m0\<lparr>m_msgs := m_msgs m0 + 1\<rparr>) (nd_sync_metrics nd)\<rparr>;
            (nd2, ts') = foldl (note_item network_num) (nd1, ts) items
        in Inr (s\<lparr>sy_node := nd2\<rparr>, ts')))))"

text \<open>
  The end of a synchronization, without the statistics it logs. A gateway ignores it on the
  connection to a block relay.
\<close>

definition TxSyncService_msg_tx_service_sync_complete ::
    "bool \<Rightarrow> bool \<Rightarrow> sync_network_message \<Rightarrow> TxSyncService \<Rightarrow> TxSyncService result" where
  "TxSyncService_msg_tx_service_sync_complete is_gateway is_relay_block msg s =
     (if is_gateway \<and> is_relay_block then Inr s
      else let nd = sy_node s;
               nd1 = (case nd_check_relay_alarm nd of None \<Rightarrow> nd | Some a \<Rightarrow> (node_unregister_alarm a nd)\<lparr>nd_check_relay_alarm := None\<rparr>);
               nd2 = (case nd_timeout_alarm nd1 of None \<Rightarrow> nd1 | Some a \<Rightarrow> (node_unregister_alarm a nd1)\<lparr>nd_timeout_alarm := None\<rparr>)
           in rbind (TxServiceSyncCompleteMessage_network_num msg) (\<lambda>(network_num, _).
              rbind (opt_or TypeError (nd_start_sync_time nd2)) (\<lambda>_.
                Inr (s\<lparr>sy_node := nd2\<lparr>nd_last_sync_message := AList.delete network_num (nd_last_sync_message nd2), nd_fully_updated := True\<rparr>\<rparr>))))"

subsection \<open>A synchronization from a buffer, to its end\<close>

definition alarms_ok :: "sync_node \<Rightarrow> bool" where
  "alarms_ok nd \<longleftrightarrow> (\<forall>a \<in> fst ` set (nd_alarms nd). a < nd_next_alarm nd)"

lemma set_sync_alarm_facts:
  assumes "alarms_ok (sy_node s)"
  shows "sy_conn (set_sync_alarm n d cb s) = sy_conn s" and "alarms_ok (sy_node (set_sync_alarm n d cb s))"
    and "map_of (sy_alarms (set_sync_alarm n d cb s)) n = Some (nd_next_alarm (sy_node s))"
    and "map_of (nd_alarms (sy_node (set_sync_alarm n d cb s))) (nd_next_alarm (sy_node s)) = Some (d, cb)"
proof -
  have "map_of (nd_alarms (sy_node s)) (nd_next_alarm (sy_node s)) = None"
    using assms by (auto simp: alarms_ok_def map_of_eq_None_iff)
  then show "map_of (nd_alarms (sy_node (set_sync_alarm n d cb s))) (nd_next_alarm (sy_node s)) = Some (d, cb)"
    by (simp add: set_sync_alarm_def node_register_alarm_def map_add_def)
  show "sy_conn (set_sync_alarm n d cb s) = sy_conn s" "alarms_ok (sy_node (set_sync_alarm n d cb s))"
    "map_of (sy_alarms (set_sync_alarm n d cb s)) n = Some (nd_next_alarm (sy_node s))"
    using assms by (auto simp: set_sync_alarm_def node_register_alarm_def alarms_ok_def less_Suc_eq)
qed

lemma send_and_ping_ok:
  assumes "sc_is_active c" and "get_nonce now < 256 ^ 8"
  shows "\<exists>c' p. send_and_ping now n m c = Inr c' \<and> sc_is_active c' \<and> sc_out c' = sc_out c @ [OutTxs m, OutPing p]
    \<and> value_of (KeepAliveMessage_nonce p) = Inr (get_nonce now) \<and> map_of (sc_ping_timestamps c') (get_nonce now) = Some now
    \<and> map_of (sc_nonces c') (get_nonce now) = Some n \<and> map_of (sc_latencies c') n = Some None"
proof -
  let ?k = "get_nonce now"
  have p: "PingMessage_init (Some ?k) None = Inr (keep_alive_object PingMessage ?k)"
    using keep_alive_new[of "Some ?k" PingMessage] assms(2) by (simp add: PingMessage_init_def q_ok_def or_zero_def)
  have "rbind (KeepAliveMessage_nonce (keep_alive_object PingMessage ?k)) (\<lambda>(x, _). Inr x) = Inr ?k"
    using assms(2) by (intro nonce_of_buf[of _ "MESSAGE_TYPE PingMessage" _ "[1]"]) (simp_all add: keep_alive_object_def keep_alive_blank_def)
  then obtain q where q: "KeepAliveMessage_nonce (keep_alive_object PingMessage ?k) = Inr (?k, q)"
    by (auto simp: rbind_eq_Inr)
  show ?thesis
    using assms(1) p q
    by (intro exI[of _ "(c\<lparr>sc_out := sc_out c @ [OutTxs m, OutPing (keep_alive_object PingMessage ?k)],
          sc_ping_timestamps := AList.update ?k now (sc_ping_timestamps c), sc_nonces := AList.update ?k n (sc_nonces c),
          sc_latencies := AList.update n None (sc_latencies c)\<rparr>)"] exI[of _ "keep_alive_object PingMessage ?k"])
      (simp add: send_and_ping_def InternalNodeConnection_check_ping_latency_for_network_def InternalNodeConnection_ping_message_def
        sync_enqueue_def sc_is_active_def value_of_def Let_def)
qed

lemma complete_ok:
  assumes "sy_conn s = Some c" and "sc_is_active c" and "n < 256 ^ 4"
  shows "\<exists>s' m c'. TxSyncService_send_tx_service_sync_complete n s = Inr s' \<and> TxServiceSyncCompleteMessage_init (Some n) None = Inr m
    \<and> sy_conn s' = Some c' \<and> sc_out c' = sc_out c @ [OutComplete m] \<and> sy_alarms s' = sy_alarms s \<and> map_of (sc_latencies c') n = None"
  using assms sync_network_read_back(2)[OF assms(3)]
  by (auto simp: TxSyncService_send_tx_service_sync_complete_def with_conn_def opt_or_def sync_enqueue_def
      InternalNodeConnection_update_tx_sync_complete_def sc_is_active_def)

lemma from_buffer_step:
  assumes ok: "sendable n txs" "at_offset txs i off" and conn: "sy_conn s = Some c" "sc_is_active c" "ping_latency n c \<noteq> None"
    and node: "alarms_ok (sy_node s)" and time: "now - (if start = 0 then now else start) < SENDING_TX_MSGS_TIMEOUT_S" "get_nonce now < 256 ^ 8"
  shows "\<exists>j s' c' p. j \<le> length txs - i \<and> (\<not> late 0 \<longrightarrow> 0 < j \<or> i + j = length txs)
    \<and> TxSyncService_send_tx_service_sync_txs_from_buffer late now elapsed n n (sync_buffer txs) d ms tc start off s = Inr s'
    \<and> sy_conn s' = Some c'
    \<and> (if i + j = length txs
       then \<exists>m. TxServiceSyncCompleteMessage_init (Some n) None = Inr m \<and> map_of (sy_alarms s') n = None
          \<and> sc_out c' = sc_out c @ [OutTxs (sync_object 2 n (take j (drop i txs))), OutPing p, OutComplete m]
       else sc_is_active c' \<and> alarms_ok (sy_node s') \<and> map_of (sc_ping_timestamps c') (get_nonce now) = Some now
          \<and> map_of (sc_nonces c') (get_nonce now) = Some n \<and> sc_out c' = sc_out c @ [OutTxs (sync_object 2 n (take j (drop i txs))), OutPing p]
          \<and> (\<exists>a d'. map_of (sy_alarms s') n = Some a \<and> map_of (nd_alarms (sy_node s')) a
              = Some (d', SendTxsFromBuffer n (sync_buffer txs) (d + elapsed) (ms + 1) (tc + j) (if start = 0 then now else start)
                  (offset_of txs (i + j)))))"
proof -
  let ?s = "s\<lparr>sy_alarms := AList.delete n (sy_alarms s)\<rparr>" and ?start = "if start = 0 then now else start"
  obtain j where j: "j \<le> length txs - i" "create_txs_service_msg_from_buffer late n (sync_buffer txs) off
      = Inr (sync_object 2 n (take j (drop i txs)), j, offset_of txs (i + j), i + j = length txs)"
    "\<not> late 0 \<longrightarrow> 0 < j \<or> i + j = length txs"
    using from_buffer_chunk[OF ok, of late] by blast
  let ?m = "sync_object 2 n (take j (drop i txs))"
  obtain c1 p where c1: "send_and_ping now n ?m c = Inr c1" "sc_is_active c1" "sc_out c1 = sc_out c @ [OutTxs ?m, OutPing p]"
    "map_of (sc_ping_timestamps c1) (get_nonce now) = Some now" "map_of (sc_nonces c1) (get_nonce now) = Some n"
    using send_and_ping_ok[OF conn(2) time(2)] by blast
  let ?s1 = "?s\<lparr>sy_conn := Some c1\<rparr>"
  show ?thesis
  proof (cases "i + j = length txs")
    case True
    have "n < 256 ^ 4" using ok(1) by (simp add: sendable_def)
    then obtain s' m c' where s': "TxSyncService_send_tx_service_sync_complete n ?s1 = Inr s'" "TxServiceSyncCompleteMessage_init (Some n) None = Inr m"
      "sy_conn s' = Some c'" "sc_out c' = sc_out c1 @ [OutComplete m]" "sy_alarms s' = sy_alarms ?s1"
      using complete_ok[of ?s1 c1 n] c1(2) by auto
    then have "TxSyncService_send_tx_service_sync_txs_from_buffer late now elapsed n n (sync_buffer txs) d ms tc start off s = Inr s'"
      using conn j(2) c1(1) time(1) True by (simp add: TxSyncService_send_tx_service_sync_txs_from_buffer_def Let_def)
    then show ?thesis
      using j(1,3) s' c1(3) True by (intro exI[of _ j] exI[of _ s'] exI[of _ c'] exI[of _ p]) simp
  next
    case False
    let ?cb = "SendTxsFromBuffer n (sync_buffer txs) (d + elapsed) (ms + 1) (tc + j) ?start (offset_of txs (i + j))"
    let ?s' = "set_sync_alarm n (next_interval (ping_latency n c)) ?cb ?s1"
    have "TxSyncService_send_tx_service_sync_txs_from_buffer late now elapsed n n (sync_buffer txs) d ms tc start off s = Inr ?s'"
      using conn j(2) c1(1) time(1) False by (simp add: TxSyncService_send_tx_service_sync_txs_from_buffer_def Let_def)
    moreover have "alarms_ok (sy_node ?s1)" using node by simp
    note set_sync_alarm_facts[OF this, of n "next_interval (ping_latency n c)" ?cb]
    ultimately show ?thesis
      using j(1,3) c1(2-5) False by (intro exI[of _ j] exI[of _ ?s'] exI[of _ c1] exI[of _ p]) simp
  qed
qed

lemma pong_accessors:
  assumes "k < 256 ^ 8" and "t < 256 ^ 8"
  shows "\<exists>q r. KeepAliveMessage_nonce (pong_object k t) = Inr (k, q) \<and> PongMessage_timestamp q = Inr (if t = 0 then None else Some t, r)"
proof -
  let ?m = "pong_object k t" and ?h = "STARTING_SEQUENCE_BYTES @ pad_to 12 (MESSAGE_TYPE PongMessage) @ le_bytes 4 17"
  have b: "msg_buf ?m = ?h @ le_bytes 8 k @ le_bytes 8 t @ [1]" by (simp add: pong_object_def pong_frame_def frame_def)
  have f: "ka_nonce ?m = None" "po_timestamp ?m = None" by (simp_all add: pong_object_def pong_blank_def)
  obtain c where c: "PayloadBlock_read KEEP_ALIVE_MESSAGE_BLOCK (msg_buf ?m) = Inr c"
    "get_content c ''nonce'' = (if k = 0 then None else Some (IntValue k))"
    unfolding b using keep_alive_read[of ?h "le_bytes 8 k" "le_bytes 8 t @ [1]"] assms(1) by (auto simp: of_le_le_bytes)
  obtain e where e: "PayloadBlock_read PONG_MESSAGE_BLOCK (msg_buf ?m) = Inr e"
    "get_content e ''timestamp'' = (if t = 0 then None else Some (IntValue t))"
    unfolding b using pong_read[of ?h "le_bytes 8 k" "le_bytes 8 t" "[1]"] assms(2) by (auto simp: of_le_le_bytes)
  show ?thesis
    using c e f by (simp add: KeepAliveMessage_nonce_def KeepAliveMessage_unpack_def PongMessage_timestamp_def)
qed

text \<open>A pong to a ping that was sent for a network makes the latency of the network known.\<close>

lemma pong_sets_latency:
  assumes "map_of (sc_ping_timestamps c) k = Some sent" and "map_of (sc_nonces c) k = Some n" and "k < 256 ^ 8" and "t < 256 ^ 8"
  shows "\<exists>c'. InternalNodeConnection_msg_pong now (pong_object k t) c = Inr c' \<and> ping_latency n c' = Some (now - sent)
    \<and> sc_is_active c' = sc_is_active c \<and> sc_out c' = sc_out c"
  using pong_accessors[OF assms(3,4)] assms(1,2)
  by (auto simp: InternalNodeConnection_msg_pong_def ping_latency_def sc_is_active_def)

text \<open>
  A run: in each round the alarm of the synchronization fires, then the peer answers the ping. A round
  is given by the answers of the clock, the time of the call, the time building the message took, the
  time of the pong and the timestamp in it.
\<close>

record sync_round =
  rd_late :: "nat \<Rightarrow> bool"
  rd_now :: time
  rd_elapsed :: time
  rd_pong_time :: time
  rd_pong_timestamp :: nat

definition answer_ping :: "sync_round \<Rightarrow> nat \<Rightarrow> TxSyncService \<Rightarrow> TxSyncService result" where
  "answer_ping r alarm s =
     with_conn s (\<lambda>c. rbind (InternalNodeConnection_msg_pong (rd_pong_time r) (pong_object (get_nonce (rd_now r)) (rd_pong_timestamp r)) c)
       (\<lambda>c'. Inr (s\<lparr>sy_conn := Some c', sy_node := node_unregister_alarm alarm (sy_node s)\<rparr>)))"

fun run_sync :: "sync_round list \<Rightarrow> sync_callback \<Rightarrow> TxSyncService \<Rightarrow> TxSyncService result" where
  "run_sync (r # rs) (SendTxsFromBuffer n buf d ms tc start off) s =
     rbind (TxSyncService_send_tx_service_sync_txs_from_buffer (rd_late r) (rd_now r) (rd_elapsed r) n n buf d ms tc start off s) (\<lambda>s1.
       case map_of (sy_alarms s1) n of
         None \<Rightarrow> Inr s1
       | Some alarm \<Rightarrow>
           (case map_of (nd_alarms (sy_node s1)) alarm of
              None \<Rightarrow> Inr s1
            | Some (_, cb) \<Rightarrow> rbind (answer_ping r alarm s1) (run_sync rs cb)))"
| "run_sync _ _ s = Inr s"

fun sent_txs :: "sync_out list \<Rightarrow> sync_txs_message list" where
  "sent_txs [] = []"
| "sent_txs (OutTxs m # out) = m # sent_txs out"
| "sent_txs (_ # out) = sent_txs out"

lemma sent_txs_append: "sent_txs (a @ b) = sent_txs a @ sent_txs b"
  by (induction a rule: sent_txs.induct) simp_all

definition good_round :: "time \<Rightarrow> sync_round \<Rightarrow> bool" where
  "good_round start r \<longleftrightarrow> \<not> rd_late r 0 \<and> rd_now r - start < SENDING_TX_MSGS_TIMEOUT_S \<and> get_nonce (rd_now r) < 256 ^ 8
     \<and> rd_pong_timestamp r < 256 ^ 8"

lemma run_sync_from:
  assumes "sendable n txs" and "at_offset txs i off" and "start \<noteq> 0" and "list_all (good_round start) rs" and "length txs - i < length rs"
    and "sy_conn s = Some c" and "sc_is_active c" and "ping_latency n c \<noteq> None" and "alarms_ok (sy_node s)"
  shows "\<exists>s' c' m new tss. run_sync rs (SendTxsFromBuffer n (sync_buffer txs) d ms tc start off) s = Inr s' \<and> sy_conn s' = Some c'
    \<and> map_of (sy_alarms s') n = None \<and> TxServiceSyncCompleteMessage_init (Some n) None = Inr m \<and> sc_out c' = sc_out c @ new @ [OutComplete m]
    \<and> sent_txs new = map (sync_object 2 n) tss \<and> concat tss = drop i txs"
  using assms(2,4-)
proof (induction rs arbitrary: i off s c d ms tc)
  case (Cons r rs)
  have r: "\<not> rd_late r 0" "rd_now r - (if start = 0 then rd_now r else start) < 900" "get_nonce (rd_now r) < 256 ^ 8" "rd_pong_timestamp r < 256 ^ 8"
    using conjunct1[OF Cons.prems(2)[unfolded list.pred_inject(2)]] assms(3) by (simp_all add: good_round_def)
  have rs: "list_all (good_round start) rs" using Cons.prems(2) by simp
  obtain j s1 c1 p where st: "j \<le> length txs - i" "\<not> rd_late r 0 \<longrightarrow> 0 < j \<or> i + j = length txs"
    "TxSyncService_send_tx_service_sync_txs_from_buffer (rd_late r) (rd_now r) (rd_elapsed r) n n (sync_buffer txs) d ms tc start off s = Inr s1"
    "sy_conn s1 = Some c1"
    and res: "if i + j = length txs
       then \<exists>m. TxServiceSyncCompleteMessage_init (Some n) None = Inr m \<and> map_of (sy_alarms s1) n = None
          \<and> sc_out c1 = sc_out c @ [OutTxs (sync_object 2 n (take j (drop i txs))), OutPing p, OutComplete m]
       else sc_is_active c1 \<and> alarms_ok (sy_node s1) \<and> map_of (sc_ping_timestamps c1) (get_nonce (rd_now r)) = Some (rd_now r)
          \<and> map_of (sc_nonces c1) (get_nonce (rd_now r)) = Some n
          \<and> sc_out c1 = sc_out c @ [OutTxs (sync_object 2 n (take j (drop i txs))), OutPing p]
          \<and> (\<exists>a d'. map_of (sy_alarms s1) n = Some a \<and> map_of (nd_alarms (sy_node s1)) a
              = Some (d', SendTxsFromBuffer n (sync_buffer txs) (d + rd_elapsed r) (ms + 1) (tc + j)
                  (if start = 0 then rd_now r else start) (offset_of txs (i + j))))"
    using from_buffer_step[OF assms(1) Cons.prems(1,4,5,6,7) r(2,3), of "rd_late r" "rd_elapsed r" d ms tc] by (elim exE conjE) blast
  show ?case
  proof (cases "i + j = length txs")
    case True
    then obtain m where m: "TxServiceSyncCompleteMessage_init (Some n) None = Inr m" "map_of (sy_alarms s1) n = None"
      "sc_out c1 = sc_out c @ [OutTxs (sync_object 2 n (take j (drop i txs))), OutPing p, OutComplete m]"
      using res by auto
    have "take j (drop i txs) = drop i txs" using True by simp
    then show ?thesis
      using st(3,4) m by (intro exI[of _ s1] exI[of _ c1] exI[of _ m]
          exI[of _ "[OutTxs (sync_object 2 n (take j (drop i txs))), OutPing p]"] exI[of _ "[drop i txs]"]) simp
  next
    case False
    then have g: "sc_is_active c1" "alarms_ok (sy_node s1)" "map_of (sc_ping_timestamps c1) (get_nonce (rd_now r)) = Some (rd_now r)"
      "map_of (sc_nonces c1) (get_nonce (rd_now r)) = Some n" "sc_out c1 = sc_out c @ [OutTxs (sync_object 2 n (take j (drop i txs))), OutPing p]"
      using res by simp_all
    obtain a d' where a: "map_of (sy_alarms s1) n = Some a" "map_of (nd_alarms (sy_node s1)) a
        = Some (d', SendTxsFromBuffer n (sync_buffer txs) (d + rd_elapsed r) (ms + 1) (tc + j) start (offset_of txs (i + j)))"
      using res False assms(3) by auto
    obtain c2 where c2: "InternalNodeConnection_msg_pong (rd_pong_time r) (pong_object (get_nonce (rd_now r)) (rd_pong_timestamp r)) c1 = Inr c2"
      "ping_latency n c2 = Some (rd_pong_time r - rd_now r)" "sc_is_active c2" "sc_out c2 = sc_out c1"
      using pong_sets_latency[OF g(3,4) r(3,4)] g(1) by blast
    let ?s2 = "s1\<lparr>sy_conn := Some c2, sy_node := node_unregister_alarm a (sy_node s1)\<rparr>"
    have an: "answer_ping r a s1 = Inr ?s2" using c2(1) st(4) by (simp add: answer_ping_def with_conn_def opt_or_def)
    have j0: "0 < j" using st(2) r(1) False by simp
    have ofs: "at_offset txs (i + j) (offset_of txs (i + j))" using st(1) False Cons.prems(1) by (auto simp: at_offset_def)
    have ao: "alarms_ok (sy_node ?s2)" using g(2) by (auto simp: alarms_ok_def node_unregister_alarm_def keys_delete)
    have la: "ping_latency n c2 \<noteq> None" and sc: "sy_conn ?s2 = Some c2" using c2(2) by simp_all
    have ln: "length txs - (i + j) < length rs" using Cons.prems(3) j0 st(1) False by simp
    obtain s' c' m new tss where ih: "run_sync rs (SendTxsFromBuffer n (sync_buffer txs) (d + rd_elapsed r) (ms + 1) (tc + j) start
        (offset_of txs (i + j))) ?s2 = Inr s'" "sy_conn s' = Some c'" "map_of (sy_alarms s') n = None"
      "TxServiceSyncCompleteMessage_init (Some n) None = Inr m" "sc_out c' = sc_out c2 @ new @ [OutComplete m]"
      "sent_txs new = map (sync_object 2 n) tss" "concat tss = drop (i + j) txs"
      using Cons.IH[OF ofs rs ln sc c2(3) la ao, of "d + rd_elapsed r" "ms + 1" "tc + j"] by (elim exE conjE)
    have "take j (drop i txs) @ drop (i + j) txs = drop i txs"
      using append_take_drop_id[of j "drop i txs"] by (simp add: add.commute)
    then show ?thesis
      using st(3) a an ih g(5) c2(4) by (intro exI[of _ s'] exI[of _ c'] exI[of _ m]
          exI[of _ "[OutTxs (sync_object 2 n (take j (drop i txs))), OutPing p] @ new"] exI[of _ "take j (drop i txs) # tss"]) simp
  qed
qed simp

text \<open>
  C33. A peer of the current protocol version that answers the pings gets the whole buffer: if each message
  gets at least one transaction before the clock stops its building, and every round begins within the
  900 seconds for the whole synchronization, the messages sent carry, one after the other, exactly the
  transactions of the buffer in their order, the last message says that the synchronization is complete,
  and the entry of the network in \<open>_sync_alarms\<close> is gone. As many rounds as there are transactions, and
  one more, are enough.
\<close>

theorem sync_from_buffer_delivers:
  assumes "n < 256 ^ 4" and "list_all valid_entry txs" and "16 + get_serialized_txs_content_short_ids_bytes_len txs < 256 ^ 4"
    and "length txs < length (r # rs)" and "rd_now r \<noteq> 0" and "list_all (good_round (rd_now r)) (r # rs)"
    and "sy_conn s = Some c" and "sc_is_active c" and "ping_latency n c \<noteq> None" and "alarms_ok (sy_node s)"
  shows "\<exists>s' c' m new tss. run_sync (r # rs) (SendTxsFromBuffer n (sync_buffer txs) 0 0 0 0 0) s = Inr s' \<and> sy_conn s' = Some c'
    \<and> map_of (sy_alarms s') n = None \<and> TxServiceSyncCompleteMessage_init (Some n) None = Inr m
    \<and> sc_out c' = sc_out c @ new @ [OutComplete m] \<and> concat tss = txs
    \<and> list_all2 (\<lambda>m ts. \<exists>msg. TxServiceSyncTxsMessage_init None None None None (Some (msg_buf m)) = Inr msg
        \<and> value_of (TxServiceSyncTxsMessage_network_num msg) = Inr n
        \<and> value_of (TxServiceSyncTxsMessage_txs_content_short_ids msg) = Inr ts) (sent_txs new) tss"
proof -
  have "length (enc_txs txs) = get_serialized_txs_content_short_ids_bytes_len txs"
    using txs_enc_length[OF assms(2)]
    by (simp add: get_serialized_txs_content_short_ids_bytes_len_def get_serialized_tx_content_short_ids_bytes_len_def)
  then have ok: "sendable n txs" using assms(1-3) by (simp add: sendable_def)
  have first: "run_sync (r # rs) (SendTxsFromBuffer n (sync_buffer txs) 0 0 0 0 0) s
      = run_sync (r # rs) (SendTxsFromBuffer n (sync_buffer txs) 0 0 0 (rd_now r) 0) s"
    by (simp add: TxSyncService_send_tx_service_sync_txs_from_buffer_def)
  have at: "at_offset txs 0 0" by (simp add: at_offset_def)
  have len: "length txs - 0 < length (r # rs)" using assms(4) by simp
  obtain s' c' m new tss where run: "run_sync (r # rs) (SendTxsFromBuffer n (sync_buffer txs) 0 0 0 (rd_now r) 0) s = Inr s'"
    "sy_conn s' = Some c'" "map_of (sy_alarms s') n = None" "TxServiceSyncCompleteMessage_init (Some n) None = Inr m"
    "sc_out c' = sc_out c @ new @ [OutComplete m]" "sent_txs new = map (sync_object 2 n) tss" "concat tss = drop 0 txs"
    using run_sync_from[OF ok at assms(5,6) len assms(7-10), of 0 0 0] by (elim exE conjE)
  have "\<exists>msg. TxServiceSyncTxsMessage_init None None None None (Some (msg_buf (sync_object 2 n ts))) = Inr msg
      \<and> value_of (TxServiceSyncTxsMessage_network_num msg) = Inr n
      \<and> value_of (TxServiceSyncTxsMessage_txs_content_short_ids msg) = Inr ts" if in_tss: "ts \<in> set tss" for ts
  proof -
    obtain a b where "tss = a @ ts # b" using split_list[OF in_tss] by blast
    then have "txs = concat a @ ts @ concat b" using run(7) by simp
    then have "ts = take (length ts) (drop (length (concat a)) txs)" by simp
    then have o: "sync_ok 2 TransactionFlag_of n ts" using sendable_part[OF ok] by metis
    obtain msg where "TxServiceSyncTxsMessage_init None None None None (Some (msg_buf (sync_object 2 n ts))) = Inr msg" "holds_sync 2 n ts msg"
      using sync_txs_received(1)[OF o] by blast
    then show ?thesis
      using holds_sync_reads[OF _ o, THEN value_ofI] by (auto simp: TxServiceSyncTxsMessage_txs_content_short_ids_def
          deserialize_txs_content_short_ids_from_buffer_def)
  qed
  then have "list_all2 (\<lambda>m ts. \<exists>msg. TxServiceSyncTxsMessage_init None None None None (Some (msg_buf m)) = Inr msg
        \<and> value_of (TxServiceSyncTxsMessage_network_num msg) = Inr n
        \<and> value_of (TxServiceSyncTxsMessage_txs_content_short_ids msg) = Inr ts) (sent_txs new) tss"
    unfolding run(6) list_all2_map1 by (simp add: list.rel_refl_strong)
  then show ?thesis
    using run first by (intro exI[of _ s'] exI[of _ c'] exI[of _ m] exI[of _ new] exI[of _ tss]) simp
qed

definition idle_conn :: sync_conn where
  "idle_conn = \<lparr>sc_established = True, sc_alive = True, sc_out = [], sc_ping_timestamps = [], sc_latencies = [], sc_nonces = [],
     sc_inbound_peer_latency = 0\<rparr>"

definition idle_node :: sync_node where
  "idle_node = \<lparr>nd_last_sync_message = [], nd_start_sync_time = None, nd_sync_metrics = [], nd_short_id_buckets = [],
     nd_check_relay_alarm = None, nd_timeout_alarm = None, nd_alarms = [], nd_next_alarm = 0, nd_fully_updated = False\<rparr>"

theorem sync_from_buffer_delivers_witness:
  "\<exists>s' r. run_sync [r, r]
      (SendTxsFromBuffer 5 (sync_buffer [\<lparr>tcs_tx_hash = replicate 32 7, tcs_tx_content = Some [1, 2, 3], tcs_short_ids = [5],
        tcs_short_id_flags = [0]\<rparr>]) 0 0 0 0 0) (TxSyncService_init idle_conn idle_node) = Inr s'"
proof -
  let ?t = "\<lparr>tcs_tx_hash = replicate 32 7, tcs_tx_content = Some [1, 2, 3], tcs_short_ids = [5], tcs_short_id_flags = [0]\<rparr>"
  let ?r = "\<lparr>rd_late = \<lambda>_. False, rd_now = 1, rd_elapsed = 0, rd_pong_time = 2, rd_pong_timestamp = 7\<rparr>"
  have t: "list_all valid_entry [?t]" by (simp add: valid_tx_def tx_is_complete_def TransactionFlag_of_def)
  have l: "16 + get_serialized_txs_content_short_ids_bytes_len [?t] < 256 ^ 4"
    by (simp add: get_serialized_txs_content_short_ids_bytes_len_def get_serialized_tx_content_short_ids_bytes_len_def tx_bytes_len_def
        SHA256_HASH_LEN_def)
  have g: "list_all (good_round (rd_now ?r)) [?r, ?r]" by (simp add: good_round_def get_nonce_def)
  have s: "sy_conn (TxSyncService_init idle_conn idle_node) = Some idle_conn" "sc_is_active idle_conn" "ping_latency 5 idle_conn \<noteq> None"
    "alarms_ok (sy_node (TxSyncService_init idle_conn idle_node))"
    by (simp_all add: TxSyncService_init_def idle_conn_def idle_node_def sc_is_active_def ping_latency_def alarms_ok_def)
  have n: "(5 :: nat) < 256 ^ 4" "length [?t] < length [?r, ?r]" "rd_now ?r \<noteq> 0" by simp_all
  obtain s' where "run_sync [?r, ?r] (SendTxsFromBuffer 5 (sync_buffer [?t]) 0 0 0 0 0) (TxSyncService_init idle_conn idle_node) = Inr s'"
    using sync_from_buffer_delivers[OF n(1) t l n(2,3) g s] by (elim exE conjE)
  then show ?thesis by (intro exI)
qed

subsection \<open>Synchronization from a time\<close>

text \<open>
  A message built from the time of assignment on leaves off at the time of its last transaction, and
  the next one begins behind that time: transactions assigned at the same time as the last one sent
  are skipped, and the synchronization ends without them.
\<close>

theorem from_time_skips_equal_times:
  assumes "queue (tx_assignment_expire_queue s) = [(sid1, t), (sid2, t)]" and "t > start_time" and "late 0"
    and "map_of (short_id_to_tx_cache_key s) sid1 = Some k1" and "map_of (short_id_to_tx_cache_key s) sid2 = Some k2"
    and "TransactionService_get_transaction_key None (Some k1) = Inr key1" and "from_time_entry s sync_tx_content k1 = Inr e1"
  shows "create_txs_service_msg_from_time late s start_time sync_tx_content None = Inr (([e1], t, False, [k1]), s)
    \<and> create_txs_service_msg_from_time late' s t sync_tx_content (Some [k1]) = Inr (([], t, True, [k1]), s)"
  using assms by (simp add: create_txs_service_msg_from_time_def set_add_def Let_def)

definition two_assigned :: TransactionService where
  "two_assigned =
     (projr (TransactionService_init \<lparr>sid_expire_time = 100, dump_removed_short_ids = False, transaction_pool_memory_limit = None\<rparr> None))
       \<lparr>tx_assignment_expire_queue := \<lparr>time_to_live_sec = 100, queue = [(1, 5), (2, 5)]\<rparr>,
        short_id_to_tx_cache_key := [(1, bytes_to_hex (replicate 32 7)), (2, bytes_to_hex (replicate 32 8))],
        tx_cache_key_to_short_ids := [(bytes_to_hex (replicate 32 7), [1]), (bytes_to_hex (replicate 32 8), [2])]\<rparr>"

text \<open>
  From a snapshot of hashes: a message takes transactions from the end of the list, at least one, and
  leaves the rest for the next message, so that nothing is sent twice and nothing is forgotten.
\<close>

lemma create_txs_loop_takes:
  assumes "list_all (\<lambda>h. length h = 32) hs"
  shows "\<exists>ts rest. create_txs_loop late s b k n hs = Inr (ts, rest) \<and> hs = map tcs_tx_hash ts @ rest \<and> (hs \<noteq> [] \<longrightarrow> ts \<noteq> [])
    \<and> list_all (\<lambda>t. snapshot_entry s b (tcs_tx_hash t) = Inr t) ts"
  using assms
proof (induction hs arbitrary: k n)
  case (Cons h hs)
  have key: "TransactionService_get_transaction_key (Some h) None = Inr \<lparr>transaction_hash = h, transaction_cache_key = TransactionService_tx_hash_to_cache_key h\<rparr>"
    using Cons.prems by (simp add: TransactionService_get_transaction_key_def wrap_sha256_def Sha256Hash_init_ok)
  then obtain t where t: "snapshot_entry s b h = Inr t" "tcs_tx_hash t = h" by (simp add: snapshot_entry_def Let_def)
  let ?n = "n + get_serialized_tx_content_short_ids_bytes_len t"
  obtain ts rest where ih: "create_txs_loop late s b (Suc k) ?n hs = Inr (ts, rest)" "hs = map tcs_tx_hash ts @ rest"
    "list_all (\<lambda>t. snapshot_entry s b (tcs_tx_hash t) = Inr t) ts"
    using Cons.IH[of "Suc k" ?n] Cons.prems by auto
  show ?case
  proof (cases "?n \<ge> TXS_MSG_SIZE \<or> late k")
    case True
    then show ?thesis using t by (intro exI[of _ "[t]"] exI[of _ hs]) simp
  next
    case False
    then show ?thesis using t ih by (intro exI[of _ "t # ts"] exI[of _ rest]) simp
  qed
qed simp

theorem snapshot_message_progress:
  assumes "list_all (\<lambda>h. length h = 32) snap"
  shows "\<exists>ts rest. create_txs_service_msg late s snap sync_tx_content = Inr (ts, rest)
    \<and> snap = rest @ rev (map tcs_tx_hash ts) \<and> (snap \<noteq> [] \<longrightarrow> length rest < length snap)
    \<and> list_all (\<lambda>t. snapshot_entry s sync_tx_content (tcs_tx_hash t) = Inr t) ts"
proof -
  obtain ts rest where l: "create_txs_loop late s sync_tx_content 0 0 (rev snap) = Inr (ts, rest)" "rev snap = map tcs_tx_hash ts @ rest"
    "rev snap \<noteq> [] \<longrightarrow> ts \<noteq> []" "list_all (\<lambda>t. snapshot_entry s sync_tx_content (tcs_tx_hash t) = Inr t) ts"
    using create_txs_loop_takes[of "rev snap" late s sync_tx_content 0 0] assms by auto
  have "snap = rev rest @ rev (map tcs_tx_hash ts)" using arg_cong[OF l(2), of rev] by simp
  moreover from this have "snap \<noteq> [] \<longrightarrow> length (rev rest) < length snap" using l(3) by auto
  ultimately show ?thesis using l(1,4) by (intro exI[of _ ts] exI[of _ "rev rest"]) (simp add: create_txs_service_msg_def)
qed

theorem snapshot_message_progress_witness:
  "\<exists>ts rest. create_txs_service_msg (\<lambda>_. True) two_assigned [replicate 32 7, replicate 32 8] False = Inr (ts, rest)
    \<and> [replicate 32 7, replicate 32 8] = rest @ rev (map tcs_tx_hash ts)"
  using snapshot_message_progress[of "[replicate 32 7, replicate 32 8]" "\<lambda>_. True" two_assigned False] by auto

theorem from_time_skips_equal_times_witness:
  "\<exists>e. create_txs_service_msg_from_time (\<lambda>_. True) two_assigned 0 False None = Inr (([e], 5, False, [bytes_to_hex (replicate 32 7)]), two_assigned)
    \<and> create_txs_service_msg_from_time (\<lambda>_. False) two_assigned 5 False (Some [bytes_to_hex (replicate 32 7)])
      = Inr (([], 5, True, [bytes_to_hex (replicate 32 7)]), two_assigned)"
proof -
  let ?k = "bytes_to_hex (replicate 32 7)" and ?k2 = "bytes_to_hex (replicate 32 8)"
  have f: "queue (tx_assignment_expire_queue two_assigned) = [(1, 5), (2, 5)]"
    "short_id_to_tx_cache_key two_assigned = [(1, ?k), (2, ?k2)]" "tx_cache_key_to_short_ids two_assigned = [(?k, [1]), (?k2, [2])]"
    by (simp_all add: two_assigned_def TransactionService_init_def ExpirationQueue_init_def TX_CONTENT_NO_SID_EXPIRE_S_def)
  have key: "TransactionService_get_transaction_key None (Some ?k) = Inr \<lparr>transaction_hash = replicate 32 7, transaction_cache_key = ?k\<rparr>"
    by (simp add: TransactionService_get_transaction_key_def TransactionService_tx_cache_key_to_hash_def hex_round_trip Sha256Hash_init_ok)
  obtain e where e: "from_time_entry two_assigned False ?k = Inr e"
    using key f(3) by (simp add: from_time_entry_def opt_or_def)
  show ?thesis
    using from_time_skips_equal_times[OF f(1) _ _ _ _ key e, of 0 "\<lambda>_. True" ?k2 "\<lambda>_. False"] f(2) by auto
qed

subsection \<open>The end of a synchronization\<close>

lemma complete_result:
  assumes "n < 256 ^ 4" and "sy_conn s = Some c"
  shows "\<exists>s' c' m. TxSyncService_send_tx_service_sync_complete n s = Inr s' \<and> TxServiceSyncCompleteMessage_init (Some n) None = Inr m
    \<and> sy_conn s' = Some c' \<and> sc_out c' = (if sc_alive c then sc_out c @ [OutComplete m] else sc_out c)
    \<and> map_of (sc_latencies c') n = None \<and> sy_alarms s' = sy_alarms s"
  using sync_network_read_back(2)[OF assms(1)] assms(2)
  by (cases "sc_alive c") (auto simp: TxSyncService_send_tx_service_sync_complete_def with_conn_def opt_or_def sync_enqueue_def
      InternalNodeConnection_update_tx_sync_complete_def)



subsection \<open>Taking in a message\<close>

definition metrics_of :: "nat \<Rightarrow> sync_node \<Rightarrow> sync_metrics" where
  "metrics_of n nd = (case map_of (nd_sync_metrics nd) n of None \<Rightarrow> \<lparr>m_msgs = 0, m_tx_count = 0, m_tx_content_count = 0\<rparr> | Some m \<Rightarrow> m)"

lemma note_item_metrics:
  "metrics_of n (fst (note_item n p item)) = (metrics_of n (fst p))\<lparr>m_tx_count := m_tx_count (metrics_of n (fst p)) + 1,
     m_tx_content_count := m_tx_content_count (metrics_of n (fst p)) + (if item_content_length item > 0 then 1 else 0)\<rparr>"
proof -
  let ?f = "\<lambda>(nd, ts) (sid, flag).
      let buckets = (case map_of (nd_short_id_buckets nd) n of None \<Rightarrow> [] | Some b \<Rightarrow> b)
      in (nd\<lparr>nd_short_id_buckets := AList.update n (TransactionShortIdBuckets_incr_short_id sid buckets) (nd_short_id_buckets nd)\<rparr>,
          if flag_in PAID_TX flag then TransactionService_set_short_id_transaction_type sid flag ts else ts)"
  have "nd_sync_metrics (fst (foldl ?f q xs)) = nd_sync_metrics (fst q)" for q :: "sync_node \<times> TransactionService" and xs
    by (induction xs arbitrary: q) (auto simp: Let_def split: prod.splits)
  then show ?thesis by (simp add: note_item_def metrics_of_def Let_def)
qed

lemma note_items_metrics:
  "m_msgs (metrics_of n (fst (foldl (note_item n) p items))) = m_msgs (metrics_of n (fst p))
   \<and> m_tx_count (metrics_of n (fst (foldl (note_item n) p items))) = m_tx_count (metrics_of n (fst p)) + length items
   \<and> m_tx_content_count (metrics_of n (fst (foldl (note_item n) p items)))
       = m_tx_content_count (metrics_of n (fst p)) + length (filter (\<lambda>i. item_content_length i > 0) items)"
  by (induction items arbitrary: p) (simp_all add: note_item_metrics)

lemma note_items_last_sync: "nd_last_sync_message (fst (foldl (note_item n) p items)) = nd_last_sync_message (fst p)"
proof -
  have f: "nd_last_sync_message (fst (foldl (\<lambda>(nd, ts) (sid, flag).
      let buckets = (case map_of (nd_short_id_buckets nd) n of None \<Rightarrow> [] | Some b \<Rightarrow> b)
      in (nd\<lparr>nd_short_id_buckets := AList.update n (TransactionShortIdBuckets_incr_short_id sid buckets) (nd_short_id_buckets nd)\<rparr>,
          if flag_in PAID_TX flag then TransactionService_set_short_id_transaction_type sid flag ts else ts)) q xs)) = nd_last_sync_message (fst q)"
    for q :: "sync_node \<times> TransactionService" and xs
    by (induction xs arbitrary: q) (auto simp: Let_def split: prod.splits)
  have "nd_last_sync_message (fst (note_item n p item)) = nd_last_sync_message (fst p)" for p item
    using f by (simp add: note_item_def Let_def)
  then show ?thesis by (induction items arbitrary: p) simp_all
qed

lemma process_items:
  assumes "rfold (process_tx_sync_item now) (acc, s) txs = Inr (items, s')"
  shows "\<exists>new. items = acc @ new \<and> list_all2 (\<lambda>i t. item_short_ids i = tcs_short_ids t
      \<and> item_content_length i = length (case tcs_tx_content t of None \<Rightarrow> [] | Some c \<Rightarrow> c)) new txs"
  using assms
proof (induction txs arbitrary: acc s)
  case (Cons t txs)
  obtain p where p: "process_tx_sync_item now (acc, s) t = Inr p" "rfold (process_tx_sync_item now) p txs = Inr (items, s')"
    using Cons.prems by (auto simp: rbind_eq_Inr)
  then obtain i s1 where i: "p = (acc @ [i], s1)" "item_short_ids i = tcs_short_ids t"
    "item_content_length i = length (case tcs_tx_content t of None \<Rightarrow> [] | Some c \<Rightarrow> c)"
    by (fastforce simp: process_tx_sync_item_def rbind_eq_Inr Let_def)
  obtain new where "items = (acc @ [i]) @ new" "list_all2 (\<lambda>i t. item_short_ids i = tcs_short_ids t
      \<and> item_content_length i = length (case tcs_tx_content t of None \<Rightarrow> [] | Some c \<Rightarrow> c)) new txs"
    using Cons.IH[of "acc @ [i]" s1] p(2) i(1) by blast
  then show ?case using i(2,3) by (intro exI[of _ "i # new"]) simp
qed simp

text \<open>
  A message that was taken in is counted: one message, as many transactions as it carries, and the
  ones among them with contents; the time of the last message of the network is now.
\<close>

theorem sync_message_counted:
  assumes "TxSyncService_msg_tx_service_sync_txs now msg (s, ts) = Inr (s', ts')"
    and "holds_sync 2 n txs msg" and "sync_ok 2 TransactionFlag_of n txs"
  shows "m_msgs (metrics_of n (sy_node s')) = m_msgs (metrics_of n (sy_node s)) + 1
    \<and> m_tx_count (metrics_of n (sy_node s')) = m_tx_count (metrics_of n (sy_node s)) + length txs
    \<and> m_tx_content_count (metrics_of n (sy_node s'))
      = m_tx_content_count (metrics_of n (sy_node s)) + length (filter (\<lambda>t. tcs_tx_content t \<noteq> Some []) txs)
    \<and> map_of (nd_last_sync_message (sy_node s')) n = Some now \<and> sy_conn s' = sy_conn s"
proof -
  obtain m1 where m1: "TxServiceSyncTxsMessage_network_num msg = Inr (n, m1)" "holds_sync 2 n txs m1"
    using holds_sync_reads(1)[OF assms(2,3)] by blast
  obtain m2 where m2: "TxServiceSyncTxsMessage_txs_content_short_ids m1 = Inr (txs, m2)"
    using holds_sync_reads(2)[OF m1(2) assms(3)]
    by (auto simp: TxServiceSyncTxsMessage_txs_content_short_ids_def deserialize_txs_content_short_ids_from_buffer_def)
  obtain items ts1 where it: "TransactionService_process_tx_sync_message now txs ts = Inr (items, ts1)"
    using assms(1) m1(1) m2 by (auto simp: TxSyncService_msg_tx_service_sync_txs_def rbind_eq_Inr)
  let ?nd = "sy_node s" and ?m = "metrics_of n (sy_node s)"
  let ?nd1 = "?nd\<lparr>nd_last_sync_message := AList.update n now (nd_last_sync_message ?nd),
      nd_sync_metrics := AList.update n (?m\<lparr>m_msgs := m_msgs ?m + 1\<rparr>) (nd_sync_metrics ?nd)\<rparr>"
  let ?p = "foldl (note_item n) (?nd1, ts1) items"
  have s': "s' = s\<lparr>sy_node := fst ?p\<rparr>"
    using assms(1) m1(1) m2 it by (simp add: TxSyncService_msg_tx_service_sync_txs_def metrics_of_def Let_def split: prod.splits)
  have m0: "metrics_of n ?nd1 = ?m\<lparr>m_msgs := m_msgs ?m + 1\<rparr>" by (simp add: metrics_of_def)
  obtain new where "items = [] @ new" and new: "list_all2 (\<lambda>i t. item_short_ids i = tcs_short_ids t
      \<and> item_content_length i = length (case tcs_tx_content t of None \<Rightarrow> [] | Some c \<Rightarrow> c)) new txs"
    using process_items[OF it[unfolded TransactionService_process_tx_sync_message_def]] by blast
  have v: "\<forall>t \<in> set txs. tcs_tx_content t \<noteq> None" using assms(3) by (auto simp: sync_ok_def list_all_iff valid_tx_def tx_is_complete_def)
  have "length (filter (\<lambda>i. item_content_length i > 0) new) = length (filter (\<lambda>t. tcs_tx_content t \<noteq> Some []) txs)"
    using new v by (induction rule: list_all2_induct) auto
  moreover have "length new = length txs" using new by (rule list_all2_lengthD)
  ultimately show ?thesis
    using note_items_metrics[of n "(?nd1, ts1)" items] note_items_last_sync[of n "(?nd1, ts1)" items] m0 \<open>items = [] @ new\<close>
    by (simp add: s')
qed

end
