(* ===== verification/Stats_Messages.thy ===== *)
theory Stats_Messages
  imports Sync_Messages
begin

text \<open>
  The statistics gateways report to relays: \<open>messages/bloxroute/bdn_performance_stats_message.py\<close>, the
  formats of versions 9, 10, 14, 16 and 18 and their converters, and the packing of addresses
  (\<open>utils/stats/message_utils.py\<close>).

  The times of an interval are the 64-bit patterns of their timestamps, the \<open>datetime\<close> objects around
  them are left out. An address is what \<open>inet_pton\<close> reads from its text: four bytes, sixteen bytes, or
  neither.
\<close>

subsection \<open>Addresses\<close>

datatype ip_address = IPv4 bytes | IPv6 bytes | NoAddress

type_synonym IpEndpoint = "ip_address \<times> nat"

definition IP_V4_PREFIX :: bytes where "IP_V4_PREFIX = replicate 10 0 @ [0xFF, 0xFF]"

definition set_byte :: "nat \<Rightarrow> byte \<Rightarrow> bytes \<Rightarrow> bytes result" where
  "set_byte i v buf = (if i < length buf then Inr (buf[i := v]) else Inl IndexError)"

definition pack_ip_port :: "bytes \<Rightarrow> nat \<Rightarrow> ip_address \<Rightarrow> nat \<Rightarrow> bytes result" where
  "pack_ip_port buf offset ip port =
     rbind (set_byte (offset + 10) 0xFF buf) (\<lambda>b.
     rbind (set_byte (offset + 11) 0xFF b) (\<lambda>b.
       case ip of
         IPv4 a \<Rightarrow> pack_into 2 (slice_assign (offset + 12) (offset + 16) a b) (offset + 16) port
       | IPv6 a \<Rightarrow> pack_into 2 (slice_assign offset (offset + 16) a b) (offset + 16) port
       | NoAddress \<Rightarrow> Inr b))"

definition unpack_ip_port :: "bytes \<Rightarrow> IpEndpoint result" where
  "unpack_ip_port buf =
     rbind (unpack_from 2 buf 16) (\<lambda>port.
       Inr (if take 12 buf = IP_V4_PREFIX then IPv4 (bslice 12 16 buf) else IPv6 (take 16 buf), port))"

subsection \<open>Fields in sequence\<close>

text \<open>\<open>struct.pack_into\<close> and \<open>struct.unpack_from\<close> of several unsigned fields, each with its width.\<close>

definition put_fields :: "bytes \<Rightarrow> nat \<Rightarrow> (nat \<times> nat) list \<Rightarrow> (bytes \<times> nat) result" where
  "put_fields b off fs = put_items (\<lambda>b off (w, v). put_u w b off v) b off fs"

primrec get_fields :: "bytes \<Rightarrow> nat \<Rightarrow> nat list \<Rightarrow> (nat list \<times> nat) result" where
  "get_fields b off [] = Inr ([], off)"
| "get_fields b off (w # ws) =
     rbind (get_u w b off) (\<lambda>(v, off). rbind (get_fields b off ws) (\<lambda>(vs, off). Inr (v # vs, off)))"

subsection \<open>Statistics per blockchain node\<close>

record BdnPerformanceStatsDataV18 =
  new_blocks_received_from_blockchain_node :: nat
  new_blocks_received_from_bdn :: nat
  new_blocks_seen :: nat
  new_block_messages_from_blockchain_node :: nat
  new_block_announcements_from_blockchain_node :: nat
  new_tx_received_from_blockchain_node :: nat
  new_tx_received_from_bdn :: nat
  new_tx_received_from_blockchain_node_low_fee :: nat
  new_tx_received_from_bdn_low_fee :: nat

record BdnPerformanceStatsData = BdnPerformanceStatsDataV18 +
  tx_sent_to_node :: nat
  duplicate_tx_from_node :: nat

definition v18_fields :: "'a BdnPerformanceStatsDataV18_scheme \<Rightarrow> (nat \<times> nat) list" where
  "v18_fields d =
     [(2, new_blocks_received_from_blockchain_node d), (2, new_blocks_received_from_bdn d),
      (4, new_tx_received_from_blockchain_node d), (4, new_tx_received_from_bdn d), (4, new_blocks_seen d),
      (4, new_block_messages_from_blockchain_node d), (4, new_block_announcements_from_blockchain_node d)]"

definition put_node_stats_v18 :: "bytes \<Rightarrow> nat \<Rightarrow> IpEndpoint \<times> BdnPerformanceStatsDataV18 \<Rightarrow> (bytes \<times> nat) result" where
  "put_node_stats_v18 b off p =
     rbind (pack_ip_port b off (fst (fst p)) (snd (fst p))) (\<lambda>b. put_fields b (off + 18) (v18_fields (snd p)))"

definition put_node_stats :: "bytes \<Rightarrow> nat \<Rightarrow> IpEndpoint \<times> BdnPerformanceStatsData \<Rightarrow> (bytes \<times> nat) result" where
  "put_node_stats b off p =
     rbind (pack_ip_port b off (fst (fst p)) (snd (fst p))) (\<lambda>b.
       put_fields b (off + 18) (v18_fields (snd p) @ [(4, tx_sent_to_node (snd p)), (4, duplicate_tx_from_node (snd p))]))"

definition stats_data_v18 :: "nat list \<Rightarrow> BdnPerformanceStatsDataV18" where
  "stats_data_v18 v =
     \<lparr>new_blocks_received_from_blockchain_node = v ! 0, new_blocks_received_from_bdn = v ! 1, new_blocks_seen = v ! 4,
      new_block_messages_from_blockchain_node = v ! 5, new_block_announcements_from_blockchain_node = v ! 6,
      new_tx_received_from_blockchain_node = v ! 2, new_tx_received_from_bdn = v ! 3,
      new_tx_received_from_blockchain_node_low_fee = 0, new_tx_received_from_bdn_low_fee = 0\<rparr>"

definition stats_data :: "nat list \<Rightarrow> BdnPerformanceStatsData" where
  "stats_data v = BdnPerformanceStatsDataV18.extend (stats_data_v18 v) (BdnPerformanceStatsData.fields (v ! 7) (v ! 8))"

definition get_node_stats_v18 :: "bytes \<Rightarrow> nat \<Rightarrow> ((IpEndpoint \<times> BdnPerformanceStatsDataV18) \<times> nat) result" where
  "get_node_stats_v18 b off =
     rbind (unpack_ip_port (drop off b)) (\<lambda>endpoint.
     rbind (get_fields b (off + 18) [2, 2, 4, 4, 4, 4, 4]) (\<lambda>(v, off). Inr ((endpoint, stats_data_v18 v), off)))"

definition get_node_stats :: "bytes \<Rightarrow> nat \<Rightarrow> ((IpEndpoint \<times> BdnPerformanceStatsData) \<times> nat) result" where
  "get_node_stats b off =
     rbind (unpack_ip_port (drop off b)) (\<lambda>endpoint.
     rbind (get_fields b (off + 18) [2, 2, 4, 4, 4, 4, 4, 4, 4]) (\<lambda>(v, off). Inr ((endpoint, stats_data v), off)))"

subsection \<open>The messages with statistics per node\<close>

abbreviation (input) UNSIGNED_SHORT_MAX_VALUE :: nat where "UNSIGNED_SHORT_MAX_VALUE \<equiv> 65535"

record 'd stats_message = message +
  sm_interval_start_time :: "nat option"
  sm_interval_end_time :: "nat option"
  sm_memory_utilization_mb :: "nat option"
  sm_node_stats :: "(IpEndpoint \<times> 'd) list option"

definition stats_blank :: "'d stats_message" where
  "stats_blank =
     \<lparr>msg_buf = [], msg_type_field = None, payload_len_field = None, payload_field = None, msg_priority = False,
      sm_interval_start_time = None, sm_interval_end_time = None, sm_memory_utilization_mb = None, sm_node_stats = None\<rparr>"

text \<open>
  Both classes differ in the length and the fields of an entry only; \<open>put\<close> and \<open>get\<close> write and read one
  entry. The dictionary of a parsed message has one entry per endpoint, the last one.
\<close>

definition stats_serialize ::
    "nat \<Rightarrow> (bytes \<Rightarrow> nat \<Rightarrow> IpEndpoint \<times> 'd \<Rightarrow> (bytes \<times> nat) result) \<Rightarrow> nat \<Rightarrow> nat \<Rightarrow> nat \<Rightarrow> (IpEndpoint \<times> 'd) list \<Rightarrow> bytes result" where
  "stats_serialize entry_len put start_time end_time memory_utilization_mb node_stats =
     (let stats_serialized_length = 2 + length node_stats * entry_len;
          node_stats_offset = HEADER_LENGTH + 2 + 2 * 8
      in rbind (put_fields (replicate (node_stats_offset + stats_serialized_length + CONTROL_FLAGS_LEN) 0) HEADER_LENGTH
                  [(8, start_time), (8, end_time), (2, min memory_utilization_mb UNSIGNED_SHORT_MAX_VALUE), (2, length node_stats)])
         (\<lambda>(b, off). rbind (put_items put b off node_stats) (\<lambda>(b, _). Inr b)))"

definition stats_init ::
    "(nat \<Rightarrow> nat \<Rightarrow> nat \<Rightarrow> (IpEndpoint \<times> 'd) list \<Rightarrow> bytes result) \<Rightarrow> nat option \<Rightarrow> nat option \<Rightarrow> nat option \<Rightarrow>
     (IpEndpoint \<times> 'd) list option \<Rightarrow> bytes option \<Rightarrow> 'd stats_message result" where
  "stats_init serialize start_time end_time memory_utilization_mb node_stats buf =
     rbind (case buf of
              Some b \<Rightarrow> Inr b
            | None \<Rightarrow> rbind (opt_or AssertionError start_time) (\<lambda>s. rbind (opt_or AssertionError end_time) (\<lambda>e.
                      rbind (opt_or AssertionError memory_utilization_mb) (\<lambda>mb. rbind (opt_or AssertionError node_stats) (\<lambda>ns.
                        serialize s e mb ns)))))
       (finish_message (MESSAGE_TYPE BdnPerformanceStatsMessage) stats_blank)"

definition stats_unpack :: "(bytes \<Rightarrow> nat \<Rightarrow> ((IpEndpoint \<times> 'd) \<times> nat) result) \<Rightarrow> 'd stats_message \<Rightarrow> 'd stats_message result" where
  "stats_unpack get m =
     rbind (get_fields (msg_buf m) HEADER_LENGTH [8, 8, 2, 2]) (\<lambda>(v, off).
     rbind (get_items get (msg_buf m) off (v ! 3)) (\<lambda>(entries, _).
       Inr (m\<lparr>sm_interval_start_time := Some (v ! 0), sm_interval_end_time := Some (v ! 1), sm_memory_utilization_mb := Some (v ! 2),
              sm_node_stats := Some (foldl (\<lambda>d (k, x). AList.update k x d) [] entries)\<rparr>)))"

text \<open>An accessor unpacks the message when its field is not there yet.\<close>

definition unpacked_field :: "('m \<Rightarrow> 'm result) \<Rightarrow> ('m \<Rightarrow> 'v option) \<Rightarrow> 'm \<Rightarrow> ('v \<times> 'm) result" where
  "unpacked_field unpack field m =
     rbind (if field m = None then unpack m else Inr m) (\<lambda>m'. rbind (opt_or AssertionError (field m')) (\<lambda>v. Inr (v, m')))"

definition BdnPerformanceStatsMessage_serialize :: "nat \<Rightarrow> nat \<Rightarrow> nat \<Rightarrow> (IpEndpoint \<times> BdnPerformanceStatsData) list \<Rightarrow> bytes result" where
  "BdnPerformanceStatsMessage_serialize = stats_serialize (16 + 2 + 2 * 2 + 7 * 4) put_node_stats"

definition BdnPerformanceStatsMessage_init ::
    "nat option \<Rightarrow> nat option \<Rightarrow> nat option \<Rightarrow> (IpEndpoint \<times> BdnPerformanceStatsData) list option \<Rightarrow> bytes option \<Rightarrow>
     BdnPerformanceStatsData stats_message result" where
  "BdnPerformanceStatsMessage_init = stats_init BdnPerformanceStatsMessage_serialize"

definition BdnPerformanceStatsMessage_unpack :: "BdnPerformanceStatsData stats_message \<Rightarrow> BdnPerformanceStatsData stats_message result" where
  "BdnPerformanceStatsMessage_unpack = stats_unpack get_node_stats"

definition BdnPerformanceStatsMessage_interval_start_time :: "BdnPerformanceStatsData stats_message \<Rightarrow> (nat \<times> BdnPerformanceStatsData stats_message) result" where
  "BdnPerformanceStatsMessage_interval_start_time = unpacked_field BdnPerformanceStatsMessage_unpack sm_interval_start_time"

definition BdnPerformanceStatsMessage_interval_end_time :: "BdnPerformanceStatsData stats_message \<Rightarrow> (nat \<times> BdnPerformanceStatsData stats_message) result" where
  "BdnPerformanceStatsMessage_interval_end_time = unpacked_field BdnPerformanceStatsMessage_unpack sm_interval_end_time"

definition BdnPerformanceStatsMessage_memory_utilization :: "BdnPerformanceStatsData stats_message \<Rightarrow> (nat \<times> BdnPerformanceStatsData stats_message) result" where
  "BdnPerformanceStatsMessage_memory_utilization = unpacked_field BdnPerformanceStatsMessage_unpack sm_memory_utilization_mb"

definition BdnPerformanceStatsMessage_node_stats :: "BdnPerformanceStatsData stats_message \<Rightarrow> ((IpEndpoint \<times> BdnPerformanceStatsData) list \<times> BdnPerformanceStatsData stats_message) result" where
  "BdnPerformanceStatsMessage_node_stats = unpacked_field BdnPerformanceStatsMessage_unpack sm_node_stats"

definition BdnPerformanceStatsMessageV18_serialize :: "nat \<Rightarrow> nat \<Rightarrow> nat \<Rightarrow> (IpEndpoint \<times> BdnPerformanceStatsDataV18) list \<Rightarrow> bytes result" where
  "BdnPerformanceStatsMessageV18_serialize = stats_serialize (16 + 2 + 2 * 2 + 5 * 4) put_node_stats_v18"

definition BdnPerformanceStatsMessageV18_init ::
    "nat option \<Rightarrow> nat option \<Rightarrow> nat option \<Rightarrow> (IpEndpoint \<times> BdnPerformanceStatsDataV18) list option \<Rightarrow> bytes option \<Rightarrow>
     BdnPerformanceStatsDataV18 stats_message result" where
  "BdnPerformanceStatsMessageV18_init = stats_init BdnPerformanceStatsMessageV18_serialize"

definition BdnPerformanceStatsMessageV18_unpack :: "BdnPerformanceStatsDataV18 stats_message \<Rightarrow> BdnPerformanceStatsDataV18 stats_message result" where
  "BdnPerformanceStatsMessageV18_unpack = stats_unpack get_node_stats_v18"

definition BdnPerformanceStatsMessageV18_interval_start_time :: "BdnPerformanceStatsDataV18 stats_message \<Rightarrow> (nat \<times> BdnPerformanceStatsDataV18 stats_message) result" where
  "BdnPerformanceStatsMessageV18_interval_start_time = unpacked_field BdnPerformanceStatsMessageV18_unpack sm_interval_start_time"

definition BdnPerformanceStatsMessageV18_interval_end_time :: "BdnPerformanceStatsDataV18 stats_message \<Rightarrow> (nat \<times> BdnPerformanceStatsDataV18 stats_message) result" where
  "BdnPerformanceStatsMessageV18_interval_end_time = unpacked_field BdnPerformanceStatsMessageV18_unpack sm_interval_end_time"

definition BdnPerformanceStatsMessageV18_memory_utilization :: "BdnPerformanceStatsDataV18 stats_message \<Rightarrow> (nat \<times> BdnPerformanceStatsDataV18 stats_message) result" where
  "BdnPerformanceStatsMessageV18_memory_utilization = unpacked_field BdnPerformanceStatsMessageV18_unpack sm_memory_utilization_mb"

definition BdnPerformanceStatsMessageV18_node_stats :: "BdnPerformanceStatsDataV18 stats_message \<Rightarrow> ((IpEndpoint \<times> BdnPerformanceStatsDataV18) list \<times> BdnPerformanceStatsDataV18 stats_message) result" where
  "BdnPerformanceStatsMessageV18_node_stats = unpacked_field BdnPerformanceStatsMessageV18_unpack sm_node_stats"

subsection \<open>The messages of older versions\<close>

text \<open>
  Versions before 18 report one set of numbers. The attributes a version does not have stay \<open>None\<close>.
\<close>

record old_stats_message = message +
  os_interval_start_time :: "nat option"
  os_interval_end_time :: "nat option"
  os_new_blocks_received_from_blockchain_node :: "nat option"
  os_new_blocks_received_from_bdn :: "nat option"
  os_new_tx_received_from_blockchain_node :: "nat option"
  os_new_tx_received_from_bdn :: "nat option"
  os_memory_utilization_mb :: "nat option"
  os_new_blocks_seen :: "nat option"
  os_new_block_messages_from_blockchain_node :: "nat option"
  os_new_block_announcements_from_blockchain_node :: "nat option"

definition old_stats_blank :: old_stats_message where
  "old_stats_blank =
     \<lparr>msg_buf = [], msg_type_field = None, payload_len_field = None, payload_field = None, msg_priority = False,
      os_interval_start_time = None, os_interval_end_time = None, os_new_blocks_received_from_blockchain_node = None,
      os_new_blocks_received_from_bdn = None, os_new_tx_received_from_blockchain_node = None,
      os_new_tx_received_from_bdn = None, os_memory_utilization_mb = None, os_new_blocks_seen = None,
      os_new_block_messages_from_blockchain_node = None, os_new_block_announcements_from_blockchain_node = None\<rparr>"

text \<open>
  A constructor asserts that it got every argument and packs them in this order, each with the width
  of its field; \<open>cap\<close> marks the memory, which is cut to what its field holds.
\<close>

definition old_stats_init :: "nat \<Rightarrow> (nat \<times> bool \<times> nat option) list \<Rightarrow> bytes option \<Rightarrow> old_stats_message result" where
  "old_stats_init msg_size args buf =
     rbind (case buf of
              Some b \<Rightarrow> Inr b
            | None \<Rightarrow> if list_ex (\<lambda>(_, _, v). v = None) args then Inl AssertionError
                      else rbind (put_fields (replicate msg_size 0) HEADER_LENGTH
                                    (map (\<lambda>(w, cap, v). (w, if cap then min (the v) UNSIGNED_SHORT_MAX_VALUE else the v)) args))
                           (\<lambda>(b, _). Inr b))
       (finish_message (MESSAGE_TYPE BdnPerformanceStatsMessage) old_stats_blank)"

definition BdnPerformanceStatsMessageV16_MSG_SIZE :: nat where
  "BdnPerformanceStatsMessageV16_MSG_SIZE = HEADER_LENGTH + 2 * 8 + 3 * 2 + 2 * 4 + 3 * 4 + CONTROL_FLAGS_LEN"

definition BdnPerformanceStatsMessageV16_init ::
    "nat option \<Rightarrow> nat option \<Rightarrow> nat option \<Rightarrow> nat option \<Rightarrow> nat option \<Rightarrow> nat option \<Rightarrow> nat option \<Rightarrow>
     nat option \<Rightarrow> nat option \<Rightarrow> nat option \<Rightarrow> bytes option \<Rightarrow>
     old_stats_message result" where
  "BdnPerformanceStatsMessageV16_init s e bn bb tn tb mb seen msgs anns buf =
     old_stats_init BdnPerformanceStatsMessageV16_MSG_SIZE
       [(8, False, s), (8, False, e), (2, False, bn), (2, False, bb), (4, False, tn), (4, False, tb), (2, True, mb),
        (4, False, seen), (4, False, msgs), (4, False, anns)] buf"

definition BdnPerformanceStatsMessageV16_unpack :: "old_stats_message \<Rightarrow> old_stats_message result" where
  "BdnPerformanceStatsMessageV16_unpack m =
     rbind (get_fields (msg_buf m) HEADER_LENGTH [8, 8, 2, 2, 4, 4, 2, 4, 4, 4]) (\<lambda>(v, _).
       Inr (m\<lparr>os_interval_start_time := Some (v ! 0), os_interval_end_time := Some (v ! 1),
              os_new_blocks_received_from_blockchain_node := Some (v ! 2), os_new_blocks_received_from_bdn := Some (v ! 3),
              os_new_tx_received_from_blockchain_node := Some (v ! 4), os_new_tx_received_from_bdn := Some (v ! 5),
              os_memory_utilization_mb := Some (v ! 6), os_new_blocks_seen := Some (v ! 7),
              os_new_block_messages_from_blockchain_node := Some (v ! 8), os_new_block_announcements_from_blockchain_node := Some (v ! 9)\<rparr>))"

definition BdnPerformanceStatsMessageV16_interval_start_time :: "old_stats_message \<Rightarrow> (nat \<times> old_stats_message) result" where
  "BdnPerformanceStatsMessageV16_interval_start_time = unpacked_field BdnPerformanceStatsMessageV16_unpack os_interval_start_time"

definition BdnPerformanceStatsMessageV16_interval_end_time :: "old_stats_message \<Rightarrow> (nat \<times> old_stats_message) result" where
  "BdnPerformanceStatsMessageV16_interval_end_time = unpacked_field BdnPerformanceStatsMessageV16_unpack os_interval_end_time"

definition BdnPerformanceStatsMessageV16_new_blocks_from_blockchain_node :: "old_stats_message \<Rightarrow> (nat \<times> old_stats_message) result" where
  "BdnPerformanceStatsMessageV16_new_blocks_from_blockchain_node = unpacked_field BdnPerformanceStatsMessageV16_unpack os_new_blocks_received_from_blockchain_node"

definition BdnPerformanceStatsMessageV16_new_blocks_from_bdn :: "old_stats_message \<Rightarrow> (nat \<times> old_stats_message) result" where
  "BdnPerformanceStatsMessageV16_new_blocks_from_bdn = unpacked_field BdnPerformanceStatsMessageV16_unpack os_new_blocks_received_from_bdn"

definition BdnPerformanceStatsMessageV16_new_tx_from_blockchain_node :: "old_stats_message \<Rightarrow> (nat \<times> old_stats_message) result" where
  "BdnPerformanceStatsMessageV16_new_tx_from_blockchain_node = unpacked_field BdnPerformanceStatsMessageV16_unpack os_new_tx_received_from_blockchain_node"

definition BdnPerformanceStatsMessageV16_new_tx_from_bdn :: "old_stats_message \<Rightarrow> (nat \<times> old_stats_message) result" where
  "BdnPerformanceStatsMessageV16_new_tx_from_bdn = unpacked_field BdnPerformanceStatsMessageV16_unpack os_new_tx_received_from_bdn"

definition BdnPerformanceStatsMessageV16_memory_utilization :: "old_stats_message \<Rightarrow> (nat \<times> old_stats_message) result" where
  "BdnPerformanceStatsMessageV16_memory_utilization = unpacked_field BdnPerformanceStatsMessageV16_unpack os_memory_utilization_mb"

definition BdnPerformanceStatsMessageV16_new_blocks_seen :: "old_stats_message \<Rightarrow> (nat \<times> old_stats_message) result" where
  "BdnPerformanceStatsMessageV16_new_blocks_seen = unpacked_field BdnPerformanceStatsMessageV16_unpack os_new_blocks_seen"

definition BdnPerformanceStatsMessageV16_new_block_messages_from_blockchain_node :: "old_stats_message \<Rightarrow> (nat \<times> old_stats_message) result" where
  "BdnPerformanceStatsMessageV16_new_block_messages_from_blockchain_node = unpacked_field BdnPerformanceStatsMessageV16_unpack os_new_block_messages_from_blockchain_node"

definition BdnPerformanceStatsMessageV16_new_block_announcements_from_blockchain_node :: "old_stats_message \<Rightarrow> (nat \<times> old_stats_message) result" where
  "BdnPerformanceStatsMessageV16_new_block_announcements_from_blockchain_node = unpacked_field BdnPerformanceStatsMessageV16_unpack os_new_block_announcements_from_blockchain_node"

definition BdnPerformanceStatsMessageV14_MSG_SIZE :: nat where
  "BdnPerformanceStatsMessageV14_MSG_SIZE = HEADER_LENGTH + 2 * 8 + 3 * 2 + 2 * 4 + CONTROL_FLAGS_LEN"

definition BdnPerformanceStatsMessageV14_init ::
    "nat option \<Rightarrow> nat option \<Rightarrow> nat option \<Rightarrow> nat option \<Rightarrow> nat option \<Rightarrow> nat option \<Rightarrow> nat option \<Rightarrow> bytes option \<Rightarrow>
     old_stats_message result" where
  "BdnPerformanceStatsMessageV14_init s e bn bb tn tb mb buf =
     old_stats_init BdnPerformanceStatsMessageV14_MSG_SIZE
       [(8, False, s), (8, False, e), (2, False, bn), (2, False, bb), (4, False, tn), (4, False, tb), (2, True, mb)] buf"

definition BdnPerformanceStatsMessageV14_unpack :: "old_stats_message \<Rightarrow> old_stats_message result" where
  "BdnPerformanceStatsMessageV14_unpack m =
     rbind (get_fields (msg_buf m) HEADER_LENGTH [8, 8, 2, 2, 4, 4, 2]) (\<lambda>(v, _).
       Inr (m\<lparr>os_interval_start_time := Some (v ! 0), os_interval_end_time := Some (v ! 1),
              os_new_blocks_received_from_blockchain_node := Some (v ! 2), os_new_blocks_received_from_bdn := Some (v ! 3),
              os_new_tx_received_from_blockchain_node := Some (v ! 4), os_new_tx_received_from_bdn := Some (v ! 5),
              os_memory_utilization_mb := Some (v ! 6)\<rparr>))"

definition BdnPerformanceStatsMessageV14_interval_start_time :: "old_stats_message \<Rightarrow> (nat \<times> old_stats_message) result" where
  "BdnPerformanceStatsMessageV14_interval_start_time = unpacked_field BdnPerformanceStatsMessageV14_unpack os_interval_start_time"

definition BdnPerformanceStatsMessageV14_interval_end_time :: "old_stats_message \<Rightarrow> (nat \<times> old_stats_message) result" where
  "BdnPerformanceStatsMessageV14_interval_end_time = unpacked_field BdnPerformanceStatsMessageV14_unpack os_interval_end_time"

definition BdnPerformanceStatsMessageV14_new_blocks_from_blockchain_node :: "old_stats_message \<Rightarrow> (nat \<times> old_stats_message) result" where
  "BdnPerformanceStatsMessageV14_new_blocks_from_blockchain_node = unpacked_field BdnPerformanceStatsMessageV14_unpack os_new_blocks_received_from_blockchain_node"

definition BdnPerformanceStatsMessageV14_new_blocks_from_bdn :: "old_stats_message \<Rightarrow> (nat \<times> old_stats_message) result" where
  "BdnPerformanceStatsMessageV14_new_blocks_from_bdn = unpacked_field BdnPerformanceStatsMessageV14_unpack os_new_blocks_received_from_bdn"

definition BdnPerformanceStatsMessageV14_new_tx_from_blockchain_node :: "old_stats_message \<Rightarrow> (nat \<times> old_stats_message) result" where
  "BdnPerformanceStatsMessageV14_new_tx_from_blockchain_node = unpacked_field BdnPerformanceStatsMessageV14_unpack os_new_tx_received_from_blockchain_node"

definition BdnPerformanceStatsMessageV14_new_tx_from_bdn :: "old_stats_message \<Rightarrow> (nat \<times> old_stats_message) result" where
  "BdnPerformanceStatsMessageV14_new_tx_from_bdn = unpacked_field BdnPerformanceStatsMessageV14_unpack os_new_tx_received_from_bdn"

definition BdnPerformanceStatsMessageV14_memory_utilization :: "old_stats_message \<Rightarrow> (nat \<times> old_stats_message) result" where
  "BdnPerformanceStatsMessageV14_memory_utilization = unpacked_field BdnPerformanceStatsMessageV14_unpack os_memory_utilization_mb"

definition BdnPerformanceStatsMessageV10_MSG_SIZE :: nat where
  "BdnPerformanceStatsMessageV10_MSG_SIZE = HEADER_LENGTH + 2 * 8 + 2 * 2 + 2 * 4 + CONTROL_FLAGS_LEN"

definition BdnPerformanceStatsMessageV10_init ::
    "nat option \<Rightarrow> nat option \<Rightarrow> nat option \<Rightarrow> nat option \<Rightarrow> nat option \<Rightarrow> nat option \<Rightarrow> bytes option \<Rightarrow>
     old_stats_message result" where
  "BdnPerformanceStatsMessageV10_init s e bn bb tn tb buf =
     old_stats_init BdnPerformanceStatsMessageV10_MSG_SIZE
       [(8, False, s), (8, False, e), (2, False, bn), (2, False, bb), (4, False, tn), (4, False, tb)] buf"

definition BdnPerformanceStatsMessageV10_unpack :: "old_stats_message \<Rightarrow> old_stats_message result" where
  "BdnPerformanceStatsMessageV10_unpack m =
     rbind (get_fields (msg_buf m) HEADER_LENGTH [8, 8, 2, 2, 4, 4]) (\<lambda>(v, _).
       Inr (m\<lparr>os_interval_start_time := Some (v ! 0), os_interval_end_time := Some (v ! 1),
              os_new_blocks_received_from_blockchain_node := Some (v ! 2), os_new_blocks_received_from_bdn := Some (v ! 3),
              os_new_tx_received_from_blockchain_node := Some (v ! 4), os_new_tx_received_from_bdn := Some (v ! 5)\<rparr>))"

definition BdnPerformanceStatsMessageV10_interval_start_time :: "old_stats_message \<Rightarrow> (nat \<times> old_stats_message) result" where
  "BdnPerformanceStatsMessageV10_interval_start_time = unpacked_field BdnPerformanceStatsMessageV10_unpack os_interval_start_time"

definition BdnPerformanceStatsMessageV10_interval_end_time :: "old_stats_message \<Rightarrow> (nat \<times> old_stats_message) result" where
  "BdnPerformanceStatsMessageV10_interval_end_time = unpacked_field BdnPerformanceStatsMessageV10_unpack os_interval_end_time"

definition BdnPerformanceStatsMessageV10_new_blocks_from_blockchain_node :: "old_stats_message \<Rightarrow> (nat \<times> old_stats_message) result" where
  "BdnPerformanceStatsMessageV10_new_blocks_from_blockchain_node = unpacked_field BdnPerformanceStatsMessageV10_unpack os_new_blocks_received_from_blockchain_node"

definition BdnPerformanceStatsMessageV10_new_blocks_from_bdn :: "old_stats_message \<Rightarrow> (nat \<times> old_stats_message) result" where
  "BdnPerformanceStatsMessageV10_new_blocks_from_bdn = unpacked_field BdnPerformanceStatsMessageV10_unpack os_new_blocks_received_from_bdn"

definition BdnPerformanceStatsMessageV10_new_tx_from_blockchain_node :: "old_stats_message \<Rightarrow> (nat \<times> old_stats_message) result" where
  "BdnPerformanceStatsMessageV10_new_tx_from_blockchain_node = unpacked_field BdnPerformanceStatsMessageV10_unpack os_new_tx_received_from_blockchain_node"

definition BdnPerformanceStatsMessageV10_new_tx_from_bdn :: "old_stats_message \<Rightarrow> (nat \<times> old_stats_message) result" where
  "BdnPerformanceStatsMessageV10_new_tx_from_bdn = unpacked_field BdnPerformanceStatsMessageV10_unpack os_new_tx_received_from_bdn"

definition BdnPerformanceStatsMessageV9_MSG_SIZE :: nat where
  "BdnPerformanceStatsMessageV9_MSG_SIZE = HEADER_LENGTH + 2 * 8 + 4 * 2 + CONTROL_FLAGS_LEN"

definition BdnPerformanceStatsMessageV9_init ::
    "nat option \<Rightarrow> nat option \<Rightarrow> nat option \<Rightarrow> nat option \<Rightarrow> nat option \<Rightarrow> nat option \<Rightarrow> bytes option \<Rightarrow>
     old_stats_message result" where
  "BdnPerformanceStatsMessageV9_init s e bn bb tn tb buf =
     old_stats_init BdnPerformanceStatsMessageV9_MSG_SIZE
       [(8, False, s), (8, False, e), (2, False, bn), (2, False, bb), (2, False, tn), (2, False, tb)] buf"

definition BdnPerformanceStatsMessageV9_unpack :: "old_stats_message \<Rightarrow> old_stats_message result" where
  "BdnPerformanceStatsMessageV9_unpack m =
     rbind (get_fields (msg_buf m) HEADER_LENGTH [8, 8, 2, 2, 2, 2]) (\<lambda>(v, _).
       Inr (m\<lparr>os_interval_start_time := Some (v ! 0), os_interval_end_time := Some (v ! 1),
              os_new_blocks_received_from_blockchain_node := Some (v ! 2), os_new_blocks_received_from_bdn := Some (v ! 3),
              os_new_tx_received_from_blockchain_node := Some (v ! 4), os_new_tx_received_from_bdn := Some (v ! 5)\<rparr>))"

definition BdnPerformanceStatsMessageV9_interval_start_time :: "old_stats_message \<Rightarrow> (nat \<times> old_stats_message) result" where
  "BdnPerformanceStatsMessageV9_interval_start_time = unpacked_field BdnPerformanceStatsMessageV9_unpack os_interval_start_time"

definition BdnPerformanceStatsMessageV9_interval_end_time :: "old_stats_message \<Rightarrow> (nat \<times> old_stats_message) result" where
  "BdnPerformanceStatsMessageV9_interval_end_time = unpacked_field BdnPerformanceStatsMessageV9_unpack os_interval_end_time"

definition BdnPerformanceStatsMessageV9_new_blocks_from_blockchain_node :: "old_stats_message \<Rightarrow> (nat \<times> old_stats_message) result" where
  "BdnPerformanceStatsMessageV9_new_blocks_from_blockchain_node = unpacked_field BdnPerformanceStatsMessageV9_unpack os_new_blocks_received_from_blockchain_node"

definition BdnPerformanceStatsMessageV9_new_blocks_from_bdn :: "old_stats_message \<Rightarrow> (nat \<times> old_stats_message) result" where
  "BdnPerformanceStatsMessageV9_new_blocks_from_bdn = unpacked_field BdnPerformanceStatsMessageV9_unpack os_new_blocks_received_from_bdn"

definition BdnPerformanceStatsMessageV9_new_tx_from_blockchain_node :: "old_stats_message \<Rightarrow> (nat \<times> old_stats_message) result" where
  "BdnPerformanceStatsMessageV9_new_tx_from_blockchain_node = unpacked_field BdnPerformanceStatsMessageV9_unpack os_new_tx_received_from_blockchain_node"

definition BdnPerformanceStatsMessageV9_new_tx_from_bdn :: "old_stats_message \<Rightarrow> (nat \<times> old_stats_message) result" where
  "BdnPerformanceStatsMessageV9_new_tx_from_bdn = unpacked_field BdnPerformanceStatsMessageV9_unpack os_new_tx_received_from_bdn"

subsection \<open>Converters\<close>

text \<open>
  Statistics go from gateways to relays only: a relay converts what it receives from older gateways.
  The converters of versions 9 to 16 build a message with one entry under a placeholder address, that
  of version 18 adds the two new numbers to every entry. \<open>initialize_stats\<close> is \<open>initialize_class\<close> with the
  current class.
\<close>

definition initialize_stats :: "bytes \<Rightarrow> bytes \<times> nat \<Rightarrow> BdnPerformanceStatsData stats_message result" where
  "initialize_stats b unpacked_args =
     rbind (BdnPerformanceStatsMessage_init None None None None (Some b)) (\<lambda>m.
       Inr (m\<lparr>msg_type_field := Some (fst unpacked_args), payload_len_field := Some (snd unpacked_args)\<rparr>))"

abbreviation (input) INTERVAL_TIMES_BREAKPOINT :: nat where "INTERVAL_TIMES_BREAKPOINT \<equiv> 36"
abbreviation (input) FIRST_STATS_SETS_BREAKPOINT :: nat where "FIRST_STATS_SETS_BREAKPOINT \<equiv> 48"
abbreviation (input) V16_MEMORY_UTILIZATION_BREAKPOINT :: nat where "V16_MEMORY_UTILIZATION_BREAKPOINT \<equiv> 50"
abbreviation (input) SECOND_STATS_SET_BREAKPOINT :: nat where "SECOND_STATS_SET_BREAKPOINT \<equiv> 62"

text \<open>The placeholder and the number of peers in front of it, at the offset of the number.\<close>

definition put_single_peer :: "bytes \<Rightarrow> nat \<Rightarrow> (bytes \<times> nat) result" where
  "put_single_peer b off =
     rbind (put_u 2 b off 1) (\<lambda>(b, off). rbind (pack_ip_port b off (IPv4 [0, 0, 0, 0]) 0) (\<lambda>b. Inr (b, off + 18)))"

definition BdnPerformanceStatsMessageConverterV16_LENGTH_DIFFERENCE :: nat where
  "BdnPerformanceStatsMessageConverterV16_LENGTH_DIFFERENCE = 16 + 2 * 2 + 2 * 4"

definition BdnPerformanceStatsMessageConverterV16_convert_from_older_version ::
    "old_stats_message \<Rightarrow> (BdnPerformanceStatsData stats_message \<times> old_stats_message) result" where
  "BdnPerformanceStatsMessageConverterV16_convert_from_older_version m0 =
     rbind (AbstractInternalMessage_payload_len m0) (\<lambda>(n, m).
     rbind (AbstractInternalMessage_rawbytes m) (\<lambda>(raw, m).
       let new_len = BdnPerformanceStatsMessageV16_MSG_SIZE + BdnPerformanceStatsMessageConverterV16_LENGTH_DIFFERENCE;
           b = slice_assign 0 INTERVAL_TIMES_BREAKPOINT (take INTERVAL_TIMES_BREAKPOINT raw) (replicate new_len 0);
           off = INTERVAL_TIMES_BREAKPOINT;
           b = slice_assign off (off + 2) (bslice FIRST_STATS_SETS_BREAKPOINT (FIRST_STATS_SETS_BREAKPOINT + 2) raw) b
       in rbind (put_single_peer b (off + 2)) (\<lambda>(b, off).
          let b = slice_assign off (off + 12) (bslice INTERVAL_TIMES_BREAKPOINT (INTERVAL_TIMES_BREAKPOINT + 12) raw) b;
              off = off + 12;
              b = slice_assign off (off + 12) (bslice V16_MEMORY_UTILIZATION_BREAKPOINT (V16_MEMORY_UTILIZATION_BREAKPOINT + 12) raw) b
          in rbind (put_fields b (off + 12) [(4, 0), (4, 0)]) (\<lambda>(b, off).
             rbind (initialize_stats (take off b @ drop SECOND_STATS_SET_BREAKPOINT raw)
                      (MESSAGE_TYPE BdnPerformanceStatsMessage, n + BdnPerformanceStatsMessageConverterV16_LENGTH_DIFFERENCE)) (\<lambda>r.
               Inr (r, m))))))"

definition BdnPerformanceStatsMessageConverterV14_LENGTH_DIFFERENCE :: nat where
  "BdnPerformanceStatsMessageConverterV14_LENGTH_DIFFERENCE = 5 * 4 + 16 + 2 * 2"

definition BdnPerformanceStatsMessageConverterV14_convert_from_older_version ::
    "old_stats_message \<Rightarrow> (BdnPerformanceStatsData stats_message \<times> old_stats_message) result" where
  "BdnPerformanceStatsMessageConverterV14_convert_from_older_version m0 =
     rbind (AbstractInternalMessage_payload_len m0) (\<lambda>(n, m).
     rbind (AbstractInternalMessage_rawbytes m) (\<lambda>(raw, m).
       let new_len = BdnPerformanceStatsMessageV14_MSG_SIZE + BdnPerformanceStatsMessageConverterV14_LENGTH_DIFFERENCE;
           b = slice_assign 0 INTERVAL_TIMES_BREAKPOINT (take INTERVAL_TIMES_BREAKPOINT raw) (replicate new_len 0);
           off = INTERVAL_TIMES_BREAKPOINT;
           b = slice_assign off (off + 2) (bslice FIRST_STATS_SETS_BREAKPOINT (FIRST_STATS_SETS_BREAKPOINT + 2) raw) b
       in rbind (put_single_peer b (off + 2)) (\<lambda>(b, off).
          let b = slice_assign off (off + 12) (bslice INTERVAL_TIMES_BREAKPOINT (INTERVAL_TIMES_BREAKPOINT + 12) raw) b
          in rbind (put_fields b (off + 12) [(4, 0), (4, 0), (4, 0), (4, 0), (4, 0)]) (\<lambda>(b, off).
             rbind (initialize_stats (take off b @ drop FIRST_STATS_SETS_BREAKPOINT raw)
                      (MESSAGE_TYPE BdnPerformanceStatsMessage, n + BdnPerformanceStatsMessageConverterV14_LENGTH_DIFFERENCE)) (\<lambda>r.
               Inr (r, m))))))"

definition BdnPerformanceStatsMessageConverterV10_LENGTH_DIFFERENCE :: nat where
  "BdnPerformanceStatsMessageConverterV10_LENGTH_DIFFERENCE = 2 + 5 * 4 + 16 + 2 * 2"

definition BdnPerformanceStatsMessageConverterV10_convert_from_older_version ::
    "old_stats_message \<Rightarrow> (BdnPerformanceStatsData stats_message \<times> old_stats_message) result" where
  "BdnPerformanceStatsMessageConverterV10_convert_from_older_version m0 =
     rbind (AbstractInternalMessage_payload_len m0) (\<lambda>(n, m).
     rbind (AbstractInternalMessage_rawbytes m) (\<lambda>(raw, m).
       let new_len = BdnPerformanceStatsMessageV10_MSG_SIZE + BdnPerformanceStatsMessageConverterV10_LENGTH_DIFFERENCE;
           b = slice_assign 0 INTERVAL_TIMES_BREAKPOINT (take INTERVAL_TIMES_BREAKPOINT raw) (replicate new_len 0)
       in rbind (put_u 2 b INTERVAL_TIMES_BREAKPOINT 0) (\<lambda>(b, off).
          rbind (put_single_peer b off) (\<lambda>(b, off).
          let b = slice_assign off (off + 12) (bslice INTERVAL_TIMES_BREAKPOINT (INTERVAL_TIMES_BREAKPOINT + 12) raw) b
          in rbind (put_fields b (off + 12) [(4, 0), (4, 0), (4, 0), (4, 0), (4, 0)]) (\<lambda>(b, off).
             rbind (initialize_stats (take off b @ drop FIRST_STATS_SETS_BREAKPOINT raw)
                      (MESSAGE_TYPE BdnPerformanceStatsMessage, n + BdnPerformanceStatsMessageConverterV10_LENGTH_DIFFERENCE)) (\<lambda>r.
               Inr (r, m)))))))"

definition BdnPerformanceStatsMessageConverterV9_LENGTH_DIFFERENCE :: nat where
  "BdnPerformanceStatsMessageConverterV9_LENGTH_DIFFERENCE = 2 + 2 * (4 - 2) + 5 * 4 + 16 + 2 * 2"

abbreviation (input) BLOCK_STATS_BREAKPOINT :: nat where "BLOCK_STATS_BREAKPOINT \<equiv> 40"
abbreviation (input) TX_STATS_BREAKPOINT :: nat where "TX_STATS_BREAKPOINT \<equiv> 44"

definition BdnPerformanceStatsMessageConverterV9_convert_from_older_version ::
    "old_stats_message \<Rightarrow> (BdnPerformanceStatsData stats_message \<times> old_stats_message) result" where
  "BdnPerformanceStatsMessageConverterV9_convert_from_older_version m0 =
     rbind (AbstractInternalMessage_payload_len m0) (\<lambda>(n, m).
     rbind (AbstractInternalMessage_rawbytes m) (\<lambda>(raw, m).
       let new_len = BdnPerformanceStatsMessageV9_MSG_SIZE + BdnPerformanceStatsMessageConverterV9_LENGTH_DIFFERENCE;
           b = slice_assign 0 INTERVAL_TIMES_BREAKPOINT (take INTERVAL_TIMES_BREAKPOINT raw) (replicate new_len 0)
       in rbind (put_u 2 b INTERVAL_TIMES_BREAKPOINT 0) (\<lambda>(b, off).
          rbind (put_single_peer b off) (\<lambda>(b, off).
          let b = slice_assign off (off + 4) (bslice INTERVAL_TIMES_BREAKPOINT (INTERVAL_TIMES_BREAKPOINT + 4) raw) b
          in rbind (unpack_from 2 raw BLOCK_STATS_BREAKPOINT) (\<lambda>tx_received_from_blockchain_node.
             rbind (unpack_from 2 raw (BLOCK_STATS_BREAKPOINT + 2)) (\<lambda>tx_received_from_bdn.
             rbind (put_fields b (off + 4) [(4, tx_received_from_blockchain_node), (4, tx_received_from_bdn),
                      (4, 0), (4, 0), (4, 0), (4, 0), (4, 0)]) (\<lambda>(b, off).
             rbind (initialize_stats (take off b @ drop TX_STATS_BREAKPOINT raw)
                      (MESSAGE_TYPE BdnPerformanceStatsMessage, n + BdnPerformanceStatsMessageConverterV9_LENGTH_DIFFERENCE)) (\<lambda>r.
               Inr (r, m)))))))))"

text \<open>
  Version 18 reads the number of peers as four bytes, although the constructor writes two: the upper
  half are the first two bytes of the first address. \<open>alloc\<close> says for which sizes \<open>bytearray\<close> gets its
  memory; the misread number can ask for 200 GB.
\<close>

abbreviation (input) MESSAGE_LEN_WITHOUT_NODE_STATS :: nat where "MESSAGE_LEN_WITHOUT_NODE_STATS \<equiv> 41"
abbreviation (input) V18_MEMORY_UTILIZATION_BREAKPOINT :: nat where "V18_MEMORY_UTILIZATION_BREAKPOINT \<equiv> 38"
abbreviation (input) NUM_BLOCKCHAIN_PEERS_BREAKPOINT :: nat where "NUM_BLOCKCHAIN_PEERS_BREAKPOINT \<equiv> 40"
abbreviation (input) OLD_MESSAGE_NODE_STATS_LEN :: nat where "OLD_MESSAGE_NODE_STATS_LEN \<equiv> 42"
abbreviation (input) NEW_MESSAGE_NODE_STATS_LEN :: nat where "NEW_MESSAGE_NODE_STATS_LEN \<equiv> 50"

primrec v18_copy_loop :: "bytes \<Rightarrow> nat \<Rightarrow> bytes \<times> nat \<times> nat \<Rightarrow> (bytes \<times> nat \<times> nat) result" where
  "v18_copy_loop raw 0 s = Inr s"
| "v18_copy_loop raw (Suc k) s =
     (let (b, new_off, old_off) = s;
          b = slice_assign new_off (new_off + OLD_MESSAGE_NODE_STATS_LEN) (bslice old_off (old_off + OLD_MESSAGE_NODE_STATS_LEN) raw) b
      in rbind (put_fields b (new_off + OLD_MESSAGE_NODE_STATS_LEN) [(4, 0), (4, 0)]) (\<lambda>(b, new_off).
           v18_copy_loop raw k (b, new_off, old_off + OLD_MESSAGE_NODE_STATS_LEN)))"

definition BdnPerformanceStatsMessageConverterV18_convert_from_older_version ::
    "(nat \<Rightarrow> bool) \<Rightarrow> BdnPerformanceStatsDataV18 stats_message \<Rightarrow>
     (BdnPerformanceStatsData stats_message \<times> BdnPerformanceStatsDataV18 stats_message) result" where
  "BdnPerformanceStatsMessageConverterV18_convert_from_older_version alloc m0 =
     rbind (AbstractInternalMessage_rawbytes m0) (\<lambda>(raw, m).
     rbind (if length raw = MESSAGE_LEN_WITHOUT_NODE_STATS then Inr 0 else unpack_from 4 raw V18_MEMORY_UTILIZATION_BREAKPOINT)
       (\<lambda>num_blockchain_peers.
     rbind (AbstractInternalMessage_payload_len m) (\<lambda>(n, m).
       let new_len = MESSAGE_LEN_WITHOUT_NODE_STATS + num_blockchain_peers * NEW_MESSAGE_NODE_STATS_LEN;
           b = slice_assign 0 NUM_BLOCKCHAIN_PEERS_BREAKPOINT (take NUM_BLOCKCHAIN_PEERS_BREAKPOINT raw) (replicate new_len 0)
       in if \<not> alloc new_len then Inl MemoryErr
          else rbind (v18_copy_loop raw num_blockchain_peers (b, NUM_BLOCKCHAIN_PEERS_BREAKPOINT, NUM_BLOCKCHAIN_PEERS_BREAKPOINT))
            (\<lambda>(b, new_off, old_off).
          rbind (initialize_stats (take new_off b @ drop old_off raw)
                   (MESSAGE_TYPE BdnPerformanceStatsMessage,
                    n + (NEW_MESSAGE_NODE_STATS_LEN - OLD_MESSAGE_NODE_STATS_LEN) * num_blockchain_peers)) (\<lambda>r. Inr (r, m))))))"

definition BdnPerformanceStatsMessageConverterV18_convert_to_older_version :: "'a \<Rightarrow> 'b result" where
  "BdnPerformanceStatsMessageConverterV18_convert_to_older_version msg = Inl NotImplementedErr"

definition BdnPerformanceStatsMessageConverterV16_convert_to_older_version :: "'a \<Rightarrow> 'b result" where
  "BdnPerformanceStatsMessageConverterV16_convert_to_older_version msg = Inl NotImplementedErr"

definition BdnPerformanceStatsMessageConverterV14_convert_to_older_version :: "'a \<Rightarrow> 'b result" where
  "BdnPerformanceStatsMessageConverterV14_convert_to_older_version msg = Inl NotImplementedErr"

definition BdnPerformanceStatsMessageConverterV10_convert_to_older_version :: "'a \<Rightarrow> 'b result" where
  "BdnPerformanceStatsMessageConverterV10_convert_to_older_version msg = Inl NotImplementedErr"

definition BdnPerformanceStatsMessageConverterV9_convert_to_older_version :: "'a \<Rightarrow> 'b result" where
  "BdnPerformanceStatsMessageConverterV9_convert_to_older_version msg = Inl NotImplementedErr"

definition BdnPerformanceStatsMessageConverterV18_get_message_size_change_from_older_version :: "int result" where
  "BdnPerformanceStatsMessageConverterV18_get_message_size_change_from_older_version = Inl NotImplementedErr"

definition BdnPerformanceStatsMessageConverterV16_get_message_size_change_from_older_version :: "int result" where
  "BdnPerformanceStatsMessageConverterV16_get_message_size_change_from_older_version =
     Inr (int BdnPerformanceStatsMessageConverterV16_LENGTH_DIFFERENCE)"

definition BdnPerformanceStatsMessageConverterV14_get_message_size_change_from_older_version :: "int result" where
  "BdnPerformanceStatsMessageConverterV14_get_message_size_change_from_older_version =
     Inr (int BdnPerformanceStatsMessageConverterV14_LENGTH_DIFFERENCE)"

definition BdnPerformanceStatsMessageConverterV10_get_message_size_change_from_older_version :: "int result" where
  "BdnPerformanceStatsMessageConverterV10_get_message_size_change_from_older_version =
     Inr (int BdnPerformanceStatsMessageConverterV10_LENGTH_DIFFERENCE)"

definition BdnPerformanceStatsMessageConverterV9_get_message_size_change_from_older_version :: "int result" where
  "BdnPerformanceStatsMessageConverterV9_get_message_size_change_from_older_version =
     Inr (int BdnPerformanceStatsMessageConverterV9_LENGTH_DIFFERENCE)"

definition BdnPerformanceStatsMessageConverterV10_get_message_size_change_to_older_version :: "int result" where
  "BdnPerformanceStatsMessageConverterV10_get_message_size_change_to_older_version =
     Inr (- int BdnPerformanceStatsMessageConverterV10_LENGTH_DIFFERENCE)"

definition BdnPerformanceStatsMessageConverterV9_get_message_size_change_to_older_version :: "int result" where
  "BdnPerformanceStatsMessageConverterV9_get_message_size_change_to_older_version =
     Inr (- int BdnPerformanceStatsMessageConverterV9_LENGTH_DIFFERENCE)"

subsection \<open>Writing into fresh buffers\<close>

text \<open>
  An address of the fourth version leaves its first bytes as they are, so entries are only written
  right into a buffer of zeros: \<open>fills p e\<close> says that \<open>p\<close> puts the bytes \<open>e\<close> there.
\<close>

definition fills :: "(bytes \<Rightarrow> nat \<Rightarrow> (bytes \<times> nat) result) \<Rightarrow> bytes \<Rightarrow> bool" where
  "fills p e \<longleftrightarrow> (\<forall>pre post. p (pre @ replicate (length e) 0 @ post) (length pre) = Inr (pre @ e @ post, length pre + length e))"

lemma fillsD: "fills p e \<Longrightarrow> p (pre @ replicate (length e) 0 @ post) (length pre) = Inr (pre @ e @ post, length pre + length e)"
  by (simp add: fills_def)

lemma writes_fills: "writes p e \<Longrightarrow> fills p e"
  by (simp add: writes_def fills_def bput_at_end)

lemma fills_seq:
  assumes "fills p e1" and "fills q e2"
  shows "fills (\<lambda>b o'. rbind (p b o') (\<lambda>(b, o'). q b o')) (e1 @ e2)"
  unfolding fills_def
proof (intro allI)
  fix pre post :: bytes
  have z: "pre @ replicate (length (e1 @ e2)) 0 @ post = pre @ replicate (length e1) 0 @ (replicate (length e2) 0 @ post)"
    by (simp add: replicate_add)
  have "q ((pre @ e1) @ replicate (length e2) 0 @ post) (length (pre @ e1)) = Inr ((pre @ e1) @ e2 @ post, length (pre @ e1) + length e2)"
    using assms(2) by (rule fillsD)
  then show "rbind (p (pre @ replicate (length (e1 @ e2)) 0 @ post) (length pre)) (\<lambda>(b, o'). q b o')
      = Inr (pre @ (e1 @ e2) @ post, length pre + length (e1 @ e2))"
    unfolding z fillsD[OF assms(1)] by (simp add: add.assoc)
qed

lemma fills_items:
  assumes "\<And>x. x \<in> set xs \<Longrightarrow> fills (\<lambda>b o'. put b o' x) (enc x)"
  shows "fills (\<lambda>b o'. put_items put b o' xs) (concat (map enc xs))"
  using assms
proof (induction xs)
  case Nil
  then show ?case by (simp add: fills_def)
next
  case (Cons x xs)
  then show ?case using fills_seq[of "\<lambda>b o'. put b o' x" "enc x" "\<lambda>b o'. put_items put b o' xs"] by simp
qed

lemma reads_items:
  assumes "\<And>x. x \<in> set xs \<Longrightarrow> reads get (enc x) (f x)"
  shows "reads (\<lambda>b o'. get_items get b o' (length xs)) (concat (map enc xs)) (map f xs)"
  using assms
proof (induction xs)
  case Nil
  then show ?case by (simp add: reads_def)
next
  case (Cons x xs)
  have "reads (\<lambda>b o'. rbind (get_items get b o' (length xs)) (\<lambda>(ys, o''). Inr (f x # ys, o''))) (concat (map enc xs) @ []) (f x # map f xs)"
    using Cons by (intro reads_seq) (auto simp: reads_return)
  then have "reads (\<lambda>b o'. rbind (get b o') (\<lambda>(y, o'). rbind (get_items get b o' (length xs)) (\<lambda>(ys, o''). Inr (y # ys, o''))))
      (enc x @ concat (map enc xs)) (f x # map f xs)"
    using Cons.prems by (intro reads_seq) auto
  then show ?case by simp
qed

definition fields_enc :: "(nat \<times> nat) list \<Rightarrow> bytes" where
  "fields_enc fs = concat (map (\<lambda>(w, v). le_bytes w v) fs)"

abbreviation fields_ok :: "(nat \<times> nat) list \<Rightarrow> bool" where
  "fields_ok fs \<equiv> list_all (\<lambda>(w, v). v < 256 ^ w) fs"

lemma fields_enc_simps [simp]:
  "fields_enc [] = []" "fields_enc ((w, v) # fs) = le_bytes w v @ fields_enc fs" "fields_enc (fs @ gs) = fields_enc fs @ fields_enc gs"
  by (simp_all add: fields_enc_def)

lemma fills_fields: "fields_ok fs \<Longrightarrow> fills (\<lambda>b o'. put_fields b o' fs) (fields_enc fs)"
  unfolding put_fields_def fields_enc_def by (rule fills_items) (auto simp: list_all_iff intro!: writes_fills writes_u)

lemma reads_fields: "fields_ok fs \<Longrightarrow> reads (\<lambda>b o'. get_fields b o' (map fst fs)) (fields_enc fs) (map snd fs)"
proof (induction fs)
  case Nil
  then show ?case by (simp add: reads_def)
next
  case (Cons p fs)
  obtain w v where p: "p = (w, v)" by (cases p)
  have "reads (\<lambda>b o'. rbind (get_fields b o' (map fst fs)) (\<lambda>(vs, o''). Inr (v # vs, o''))) (fields_enc fs @ []) (v # map snd fs)"
    using Cons by (intro reads_seq) (auto simp: reads_return)
  then have "reads (\<lambda>b o'. rbind (get_u w b o') (\<lambda>(v, o'). rbind (get_fields b o' (map fst fs)) (\<lambda>(vs, o''). Inr (v # vs, o''))))
      (le_bytes w v @ fields_enc fs) (v # map snd fs)"
    using Cons.prems p by (intro reads_seq) (auto intro: reads_u)
  then show ?case by (simp add: p)
qed

text \<open>Addresses.\<close>

definition valid_endpoint :: "IpEndpoint \<Rightarrow> bool" where
  "valid_endpoint e \<longleftrightarrow> snd e < 256 ^ 2 \<and>
     (case fst e of IPv4 a \<Rightarrow> length a = 4 | IPv6 a \<Rightarrow> length a = 16 \<and> take 12 a \<noteq> IP_V4_PREFIX | NoAddress \<Rightarrow> False)"

definition endpoint_enc :: "IpEndpoint \<Rightarrow> bytes" where
  "endpoint_enc e = (case fst e of IPv4 a \<Rightarrow> IP_V4_PREFIX @ a | IPv6 a \<Rightarrow> a | NoAddress \<Rightarrow> []) @ le_bytes 2 (snd e)"

lemma endpoint_enc_length: "valid_endpoint e \<Longrightarrow> length (endpoint_enc e) = 18"
  by (auto simp: valid_endpoint_def endpoint_enc_def IP_V4_PREFIX_def split: ip_address.splits)

lemma pack_ip_port_ok:
  assumes "valid_endpoint e"
  shows "pack_ip_port (pre @ replicate 18 0 @ post) (length pre) (fst e) (snd e) = Inr (pre @ endpoint_enc e @ post)"
proof -
  have z: "replicate 18 (0 :: byte) = replicate 10 0 @ [0, 0, 0, 0, 0, 0, 0, 0]" by (simp add: eval_nat_numeral)
  have s: "set_byte (length pre + 10) 0xFF (pre @ replicate 18 0 @ post) = Inr (pre @ replicate 10 0 @ [0xFF, 0, 0, 0, 0, 0, 0, 0] @ post)"
    "set_byte (length pre + 11) 0xFF (pre @ replicate 10 0 @ [0xFF, 0, 0, 0, 0, 0, 0, 0] @ post)
      = Inr ((pre @ IP_V4_PREFIX) @ [0, 0, 0, 0, 0, 0] @ post)"
    unfolding z by (simp_all add: set_byte_def list_update_append IP_V4_PREFIX_def)
  have l: "length IP_V4_PREFIX = 12" by (simp add: IP_V4_PREFIX_def)
  show ?thesis
  proof (cases "fst e")
    case (IPv4 a)
    have "slice_assign (length pre + 12) (length pre + 16) a ((pre @ IP_V4_PREFIX) @ [0, 0, 0, 0, 0, 0] @ post) = (pre @ IP_V4_PREFIX @ a) @ [0, 0] @ post"
      by (simp add: slice_assign_def l eval_nat_numeral)
    moreover have "pack_into 2 ((pre @ IP_V4_PREFIX @ a) @ [0, 0] @ post) (length pre + 16) (snd e) = Inr ((pre @ IP_V4_PREFIX @ a) @ le_bytes 2 (snd e) @ post)"
      using assms IPv4 bput_at_end[of "le_bytes 2 (snd e)" "[0, 0]" "pre @ IP_V4_PREFIX @ a" post]
      by (simp add: pack_into_def valid_endpoint_def l)
    ultimately show ?thesis using IPv4 by (simp add: pack_ip_port_def s[simplified] endpoint_enc_def s)
  next
    case (IPv6 a)
    have "slice_assign (length pre) (length pre + 16) a ((pre @ IP_V4_PREFIX) @ [0, 0, 0, 0, 0, 0] @ post) = (pre @ a) @ [0, 0] @ post"
      by (simp add: slice_assign_def l eval_nat_numeral)
    moreover have "pack_into 2 ((pre @ a) @ [0, 0] @ post) (length pre + 16) (snd e) = Inr ((pre @ a) @ le_bytes 2 (snd e) @ post)"
      using assms IPv6 bput_at_end[of "le_bytes 2 (snd e)" "[0, 0]" "pre @ a" post]
      by (simp add: pack_into_def valid_endpoint_def l)
    ultimately show ?thesis using IPv6 by (simp add: pack_ip_port_def s[simplified] endpoint_enc_def s)
  qed (use assms in \<open>simp add: valid_endpoint_def\<close>)
qed

lemma unpack_ip_port_ok:
  assumes "valid_endpoint e"
  shows "unpack_ip_port (endpoint_enc e @ post) = Inr e"
proof -
  have l: "length IP_V4_PREFIX = 12" by (simp add: IP_V4_PREFIX_def)
  have p: "unpack_from 2 ((a @ le_bytes 2 (snd e)) @ post) 16 = Inr (snd e)" if "length a = 16" for a
    using that assms unpack_from_middle[of "le_bytes 2 (snd e)" 2 a post] by (simp add: valid_endpoint_def of_le_le_bytes)
  show ?thesis
  proof (cases "fst e")
    case (IPv4 a)
    then have "length a = 4" using assms by (simp add: valid_endpoint_def)
    then show ?thesis using IPv4 p[of "IP_V4_PREFIX @ a"] by (cases e) (simp add: unpack_ip_port_def endpoint_enc_def l bslice_def)
  next
    case (IPv6 a)
    then have "length a = 16" "take 12 a \<noteq> IP_V4_PREFIX" using assms by (simp_all add: valid_endpoint_def)
    then show ?thesis using IPv6 p[of a] by (cases e) (simp add: unpack_ip_port_def endpoint_enc_def)
  qed (use assms in \<open>simp add: valid_endpoint_def\<close>)
qed

subsection \<open>Messages with statistics per node, written and read\<close>

definition head_fields :: "nat \<Rightarrow> nat \<Rightarrow> nat \<Rightarrow> nat \<Rightarrow> (nat \<times> nat) list" where
  "head_fields s e mb n = [(8, s), (8, e), (2, min mb UNSIGNED_SHORT_MAX_VALUE), (2, n)]"

definition stats_body :: "(IpEndpoint \<times> 'd \<Rightarrow> bytes) \<Rightarrow> nat \<Rightarrow> nat \<Rightarrow> nat \<Rightarrow> (IpEndpoint \<times> 'd) list \<Rightarrow> bytes" where
  "stats_body enc s e mb ns = fields_enc (head_fields s e mb (length ns)) @ concat (map enc ns)"

abbreviation stats_object :: "(IpEndpoint \<times> 'd \<Rightarrow> bytes) \<Rightarrow> nat \<Rightarrow> nat \<Rightarrow> nat \<Rightarrow> (IpEndpoint \<times> 'd) list \<Rightarrow> 'd stats_message" where
  "stats_object enc s e mb ns \<equiv> payload_object (MESSAGE_TYPE BdnPerformanceStatsMessage) (stats_body enc s e mb ns) stats_blank"

lemma foldl_update_distinct:
  "distinct (map fst (acc @ xs)) \<Longrightarrow> foldl (\<lambda>d (k, x). AList.update k x d) acc xs = acc @ xs"
proof (induction xs arbitrary: acc)
  case (Cons p xs)
  obtain k x where p: "p = (k, x)" by (cases p)
  have "map_of acc k = None" using Cons.prems p by (auto simp: map_of_eq_None_iff)
  then have u: "AList.update k x acc = acc @ [(k, x)]" by (induction acc) (auto split: if_splits)
  have "foldl (\<lambda>d (k, x). AList.update k x d) (acc @ [(k, x)]) xs = (acc @ [(k, x)]) @ xs"
    using Cons.prems p by (intro Cons.IH) auto
  then show ?case using p u by simp
qed simp

text \<open>What the messages need of a format of entries: \<open>seen\<close> is what a receiver reads of the numbers.\<close>

locale stats_format =
  fixes entry_len :: nat
    and put :: "bytes \<Rightarrow> nat \<Rightarrow> IpEndpoint \<times> 'd \<Rightarrow> (bytes \<times> nat) result"
    and get :: "bytes \<Rightarrow> nat \<Rightarrow> ((IpEndpoint \<times> 'd) \<times> nat) result"
    and enc :: "IpEndpoint \<times> 'd \<Rightarrow> bytes"
    and valid :: "IpEndpoint \<times> 'd \<Rightarrow> bool"
    and seen :: "'d \<Rightarrow> 'd"
  assumes put_entry: "valid x \<Longrightarrow> fills (\<lambda>b o'. put b o' x) (enc x)"
    and get_entry: "valid x \<Longrightarrow> reads get (enc x) (fst x, seen (snd x))"
    and entry_length: "valid x \<Longrightarrow> length (enc x) = entry_len"
begin

lemma body_length: "list_all valid ns \<Longrightarrow> length (stats_body enc s e mb ns) = 20 + length ns * entry_len"
  unfolding stats_body_def head_fields_def by (induction ns) (simp_all add: entry_length)

lemma body_fills:
  assumes "s < 256 ^ 8" and "e < 256 ^ 8" and "length ns < 256 ^ 2" and "list_all valid ns"
  shows "fills (\<lambda>b o'. rbind (put_fields b o' (head_fields s e mb (length ns))) (\<lambda>(b, o'). put_items put b o' ns)) (stats_body enc s e mb ns)"
  unfolding stats_body_def
proof (rule fills_seq)
  have "fields_ok (head_fields s e mb (length ns))" using assms by (simp add: head_fields_def)
  then show "fills (\<lambda>b o'. put_fields b o' (head_fields s e mb (length ns))) (fields_enc (head_fields s e mb (length ns)))"
    by (rule fills_fields)
  show "fills (\<lambda>b o'. put_items put b o' ns) (concat (map enc ns))"
    using assms(4) by (intro fills_items put_entry) (simp add: list_all_iff)
qed

lemma serialize_ok:
  assumes "s < 256 ^ 8" and "e < 256 ^ 8" and "length ns < 256 ^ 2" and "list_all valid ns"
  shows "stats_serialize entry_len put s e mb ns = Inr (replicate 20 0 @ stats_body enc s e mb ns @ [0])"
proof -
  let ?e = "stats_body enc s e mb ns"
  have l: "length ?e = 20 + length ns * entry_len" using assms(4) by (rule body_length)
  have z: "replicate (20 + 2 + 2 * 8 + (2 + length ns * entry_len) + 1) (0 :: byte) = replicate 20 0 @ replicate (length ?e) 0 @ [0]"
  proof -
    have "20 + 2 + 2 * 8 + (2 + length ns * entry_len) + 1 = 20 + (length ?e + 1)" by (simp add: l)
    then show ?thesis by (simp only: replicate_add) simp
  qed
  have f: "rbind (put_fields (replicate 20 0 @ replicate (length ?e) 0 @ [0]) 20 (head_fields s e mb (length ns))) (\<lambda>(b, o'). put_items put b o' ns)
      = Inr (replicate 20 0 @ ?e @ [0], 20 + length ?e)"
    using fillsD[OF body_fills[OF assms, of mb], of "replicate 20 0" "[0]"] by simp
  have "stats_serialize entry_len put s e mb ns
      = rbind (rbind (put_fields (replicate 20 0 @ replicate (length ?e) 0 @ [0]) 20 (head_fields s e mb (length ns))) (\<lambda>(b, o'). put_items put b o' ns))
          (\<lambda>(b, _). Inr b)"
    unfolding stats_serialize_def Let_def z rbind_assoc head_fields_def by (simp add: case_prod_unfold)
  then show ?thesis unfolding f by simp
qed

lemma init_ok:
  assumes "s < 256 ^ 8" and "e < 256 ^ 8" and "length ns < 256 ^ 2" and "list_all valid ns" and "entry_len < 256"
  shows "stats_init (stats_serialize entry_len put) (Some s) (Some e) (Some mb) (Some ns) None = Inr (stats_object enc s e mb ns)"
    and "stats_init ser None None None None (Some (msg_buf (stats_object enc s e mb ns))) = Inr (stats_object enc s e mb ns)"
proof -
  let ?e = "stats_body enc s e mb ns" and ?ty = "MESSAGE_TYPE BdnPerformanceStatsMessage"
  have "length ns * entry_len \<le> 256 ^ 2 * 256" using assms(3,5) by (intro mult_mono) simp_all
  then have l: "length ?e + 1 < 256 ^ 4" unfolding body_length[OF assms(4)] by simp
  show "stats_init (stats_serialize entry_len put) (Some s) (Some e) (Some mb) (Some ns) None = Inr (stats_object enc s e mb ns)"
    using finish_payload[of "replicate 20 0" ?e 0 ?ty stats_blank] l
    by (simp add: stats_init_def opt_or_def serialize_ok[OF assms(1-4)])
  have b: "msg_buf (stats_object enc s e mb ns) = (STARTING_SEQUENCE_BYTES @ pad_to 12 ?ty @ le_bytes 4 (length (?e @ [1]))) @ ?e @ [1]"
    by (simp add: payload_object_def frame_def)
  show "stats_init ser None None None None (Some (msg_buf (stats_object enc s e mb ns))) = Inr (stats_object enc s e mb ns)"
    unfolding b stats_init_def option.case rbind_Inr using l by (intro finish_payload) (simp_all add: STARTING_SEQUENCE_BYTES_def)
qed

lemma unpack_stats_frame:
  assumes "s < 256 ^ 8" and "e < 256 ^ 8" and "length ns < 256 ^ 2" and "list_all valid ns" and "distinct (map fst ns)"
    and m: "msg_buf m = frame ty (stats_body enc s e mb ns @ post)"
  shows "stats_unpack get m
    = Inr (m\<lparr>sm_interval_start_time := Some s, sm_interval_end_time := Some e,
        sm_memory_utilization_mb := Some (min mb UNSIGNED_SHORT_MAX_VALUE), sm_node_stats := Some (map (\<lambda>(k, d). (k, seen d)) ns)\<rparr>)"
proof -
  let ?h = "fields_enc (head_fields s e mb (length ns))" and ?c = "concat (map enc ns)"
  have b: "msg_buf m = frame ty (?h @ ?c @ post)" by (simp add: m stats_body_def)
  have ok: "fields_ok (head_fields s e mb (length ns))" using assms by (simp add: head_fields_def)
  have h: "get_fields (msg_buf m) 20 [8, 8, 2, 2] = Inr ([s, e, min mb 65535, length ns], 20 + length ?h)"
    using read_payload[OF reads_fields[OF ok], of ty "?c @ post"] unfolding b by (simp add: head_fields_def)
  have "reads (\<lambda>b o'. get_items get b o' (length ns)) ?c (map (\<lambda>x. (fst x, seen (snd x))) ns)"
    using assms(4) by (intro reads_items get_entry) (simp add: list_all_iff)
  from read_behind[OF this, of ty ?h post]
  have c: "get_items get (msg_buf m) (20 + length ?h) (length ns) = Inr (map (\<lambda>(k, d). (k, seen d)) ns, 20 + length ?h + length ?c)"
    unfolding b by (simp add: case_prod_unfold)
  have "map fst (map (\<lambda>(k, d). (k, seen d)) ns) = map fst ns" by auto
  then have "foldl (\<lambda>d (k, x). AList.update k x d) [] (map (\<lambda>(k, d). (k, seen d)) ns) = map (\<lambda>(k, d). (k, seen d)) ns"
    using foldl_update_distinct[of "[]" "map (\<lambda>(k, d). (k, seen d)) ns"] assms(5) by (simp only: append_Nil)
  then show ?thesis unfolding stats_unpack_def h by (simp add: c)
qed

lemma unpack_ok:
  assumes "s < 256 ^ 8" and "e < 256 ^ 8" and "length ns < 256 ^ 2" and "list_all valid ns" and "distinct (map fst ns)"
  shows "stats_unpack get (stats_object enc s e mb ns)
    = Inr ((stats_object enc s e mb ns)\<lparr>sm_interval_start_time := Some s, sm_interval_end_time := Some e,
        sm_memory_utilization_mb := Some (min mb UNSIGNED_SHORT_MAX_VALUE), sm_node_stats := Some (map (\<lambda>(k, d). (k, seen d)) ns)\<rparr>)"
  by (rule unpack_stats_frame[OF assms, of _ "MESSAGE_TYPE BdnPerformanceStatsMessage" mb "[1]"]) (simp add: payload_object_def)

end

lemma fills_entry:
  assumes "valid_endpoint ep" and "fields_ok fs"
  shows "fills (\<lambda>b o'. rbind (pack_ip_port b o' (fst ep) (snd ep)) (\<lambda>b. put_fields b (o' + 18) fs)) (endpoint_enc ep @ fields_enc fs)"
proof -
  have "fills (\<lambda>b o'. rbind (pack_ip_port b o' (fst ep) (snd ep)) (\<lambda>b. Inr (b, o' + 18))) (endpoint_enc ep)"
    using pack_ip_port_ok[OF assms(1)] by (simp add: fills_def endpoint_enc_length[OF assms(1)])
  from fills_seq[OF this fills_fields[OF assms(2)]] show ?thesis by (simp add: rbind_assoc)
qed

lemma reads_entry:
  assumes "valid_endpoint ep" and "fields_ok fs" and "ws = map fst fs"
  shows "reads (\<lambda>b o'. rbind (unpack_ip_port (drop o' b)) (\<lambda>endpoint. rbind (get_fields b (o' + 18) ws) (\<lambda>(v, off). Inr ((endpoint, g v), off))))
    (endpoint_enc ep @ fields_enc fs) (ep, g (map snd fs))"
proof -
  have "reads (\<lambda>b o'. rbind (unpack_ip_port (drop o' b)) (\<lambda>endpoint. Inr (endpoint, o' + 18))) (endpoint_enc ep) ep"
    by (simp add: reads_def unpack_ip_port_ok[OF assms(1)] endpoint_enc_length[OF assms(1)])
  moreover have "reads (\<lambda>b o'. rbind (get_fields b o' ws) (\<lambda>(v, off). Inr ((ep, g v), off))) (fields_enc fs @ []) (ep, g (map snd fs))"
    using reads_fields[OF assms(2)] assms(3) by (intro reads_seq) (auto simp: reads_return)
  ultimately have "reads (\<lambda>b o'. rbind (rbind (unpack_ip_port (drop o' b)) (\<lambda>endpoint. Inr (endpoint, o' + 18)))
      (\<lambda>(endpoint, o'). rbind (get_fields b o' ws) (\<lambda>(v, off). Inr ((endpoint, g v), off)))) (endpoint_enc ep @ fields_enc fs @ []) (ep, g (map snd fs))"
    by (rule reads_seq)
  then show ?thesis by (simp add: rbind_assoc)
qed

text \<open>The numbers of transactions with low fees are not sent.\<close>

definition seen_data :: "'a BdnPerformanceStatsDataV18_scheme \<Rightarrow> 'a BdnPerformanceStatsDataV18_scheme" where
  "seen_data d = d\<lparr>new_tx_received_from_blockchain_node_low_fee := 0, new_tx_received_from_bdn_low_fee := 0\<rparr>"

definition new_fields :: "BdnPerformanceStatsData \<Rightarrow> (nat \<times> nat) list" where
  "new_fields d = v18_fields d @ [(4, tx_sent_to_node d), (4, duplicate_tx_from_node d)]"

definition node_enc_v18 :: "IpEndpoint \<times> BdnPerformanceStatsDataV18 \<Rightarrow> bytes" where
  "node_enc_v18 p = endpoint_enc (fst p) @ fields_enc (v18_fields (snd p))"

definition node_enc :: "IpEndpoint \<times> BdnPerformanceStatsData \<Rightarrow> bytes" where
  "node_enc p = endpoint_enc (fst p) @ fields_enc (new_fields (snd p))"

definition valid_node_v18 :: "IpEndpoint \<times> BdnPerformanceStatsDataV18 \<Rightarrow> bool" where
  "valid_node_v18 p \<longleftrightarrow> valid_endpoint (fst p) \<and> fields_ok (v18_fields (snd p))"

definition valid_node :: "IpEndpoint \<times> BdnPerformanceStatsData \<Rightarrow> bool" where
  "valid_node p \<longleftrightarrow> valid_endpoint (fst p) \<and> fields_ok (new_fields (snd p))"

lemma stats_data_read:
  "stats_data_v18 (map snd (v18_fields d)) = seen_data d" "stats_data (map snd (new_fields n)) = seen_data n"
  by (simp_all add: stats_data_v18_def v18_fields_def seen_data_def stats_data_def new_fields_def BdnPerformanceStatsDataV18.defs
      BdnPerformanceStatsData.defs)

lemma node_enc_v18_length: "valid_node_v18 p \<Longrightarrow> length (node_enc_v18 p) = 42"
  by (simp add: valid_node_v18_def node_enc_v18_def endpoint_enc_length v18_fields_def)

lemma node_enc_length: "valid_node p \<Longrightarrow> length (node_enc p) = 50"
  by (simp add: valid_node_def node_enc_def endpoint_enc_length new_fields_def v18_fields_def)

interpretation v18: stats_format "16 + 2 + 2 * 2 + 5 * 4" put_node_stats_v18 get_node_stats_v18 node_enc_v18 valid_node_v18 seen_data
proof
  fix p assume v: "valid_node_v18 p"
  show "fills (\<lambda>b o'. put_node_stats_v18 b o' p) (node_enc_v18 p)"
    using v fills_entry[of "fst p"] by (simp add: put_node_stats_v18_def node_enc_v18_def valid_node_v18_def)
  show "reads get_node_stats_v18 (node_enc_v18 p) (fst p, seen_data (snd p))"
    using v reads_entry[of "fst p" "v18_fields (snd p)" "[2, 2, 4, 4, 4, 4, 4]" stats_data_v18]
    unfolding get_node_stats_v18_def node_enc_v18_def valid_node_v18_def stats_data_read by (simp add: v18_fields_def)
qed (simp add: node_enc_v18_length)

interpretation cur: stats_format "16 + 2 + 2 * 2 + 7 * 4" put_node_stats get_node_stats node_enc valid_node seen_data
proof
  fix p assume v: "valid_node p"
  show "fills (\<lambda>b o'. put_node_stats b o' p) (node_enc p)"
    using v fills_entry[of "fst p" "new_fields (snd p)"] unfolding put_node_stats_def node_enc_def valid_node_def new_fields_def by blast
  show "reads get_node_stats (node_enc p) (fst p, seen_data (snd p))"
    using v reads_entry[of "fst p" "new_fields (snd p)" "[2, 2, 4, 4, 4, 4, 4, 4, 4]" stats_data]
    unfolding get_node_stats_def node_enc_def valid_node_def stats_data_read by (simp add: new_fields_def v18_fields_def)
qed (simp add: node_enc_length)

lemma v18_init_ok:
  assumes "s < 256 ^ 8" and "e < 256 ^ 8" and "length ns < 256 ^ 2" and "list_all valid_node_v18 ns"
  shows "BdnPerformanceStatsMessageV18_init (Some s) (Some e) (Some mb) (Some ns) None = Inr (stats_object node_enc_v18 s e mb ns)"
    and "BdnPerformanceStatsMessageV18_init None None None None (Some (msg_buf (stats_object node_enc_v18 s e mb ns)))
      = Inr (stats_object node_enc_v18 s e mb ns)"
  using v18.init_ok[OF assms] unfolding BdnPerformanceStatsMessageV18_init_def BdnPerformanceStatsMessageV18_serialize_def by simp_all

lemma cur_init_ok:
  assumes "s < 256 ^ 8" and "e < 256 ^ 8" and "length ns < 256 ^ 2" and "list_all valid_node ns"
  shows "BdnPerformanceStatsMessage_init (Some s) (Some e) (Some mb) (Some ns) None = Inr (stats_object node_enc s e mb ns)"
    and "BdnPerformanceStatsMessage_init None None None None (Some (msg_buf (stats_object node_enc s e mb ns)))
      = Inr (stats_object node_enc s e mb ns)"
  using cur.init_ok[OF assms] unfolding BdnPerformanceStatsMessage_init_def BdnPerformanceStatsMessage_serialize_def by simp_all

lemma unpacked_fieldI:
  "field m = None \<Longrightarrow> unpack m = Inr m' \<Longrightarrow> field m' = Some v \<Longrightarrow> value_of (unpacked_field unpack field m) = Inr v"
  by (simp add: unpacked_field_def opt_or_def value_of_def)

lemma stats_object_blank [simp]:
  "sm_interval_start_time (stats_object enc s e mb ns) = None" "sm_interval_end_time (stats_object enc s e mb ns) = None"
  "sm_memory_utilization_mb (stats_object enc s e mb ns) = None" "sm_node_stats (stats_object enc s e mb ns) = None"
  by (simp_all add: payload_object_def stats_blank_def)

text \<open>
  What a gateway reports arrives: interval, memory, cut to 65535, and the numbers of each endpoint;
  only the two numbers of low fee transactions stay behind.
\<close>

theorem stats_round_trip:
  assumes "s < 256 ^ 8" and "e < 256 ^ 8" and "length ns < 256 ^ 2" and "list_all valid_node ns" and "distinct (map fst ns)"
  shows "\<exists>m. BdnPerformanceStatsMessage_init (Some s) (Some e) (Some mb) (Some ns) None = Inr m
    \<and> BdnPerformanceStatsMessage_init None None None None (Some (msg_buf m)) = Inr m
    \<and> value_of (BdnPerformanceStatsMessage_interval_start_time m) = Inr s
    \<and> value_of (BdnPerformanceStatsMessage_interval_end_time m) = Inr e
    \<and> value_of (BdnPerformanceStatsMessage_memory_utilization m) = Inr (min mb UNSIGNED_SHORT_MAX_VALUE)
    \<and> value_of (BdnPerformanceStatsMessage_node_stats m) = Inr (map (\<lambda>(k, d). (k, seen_data d)) ns)"
  using cur_init_ok[OF assms(1-4), of mb]
  by (intro exI[of _ "stats_object node_enc s e mb ns"] conjI)
    (auto intro!: unpacked_fieldI cur.unpack_ok assms simp: BdnPerformanceStatsMessage_interval_start_time_def BdnPerformanceStatsMessage_unpack_def
      BdnPerformanceStatsMessage_interval_end_time_def BdnPerformanceStatsMessage_memory_utilization_def BdnPerformanceStatsMessage_node_stats_def)

definition sample_stats :: BdnPerformanceStatsData where
  "sample_stats = \<lparr>new_blocks_received_from_blockchain_node = 1, new_blocks_received_from_bdn = 2, new_blocks_seen = 3,
      new_block_messages_from_blockchain_node = 4, new_block_announcements_from_blockchain_node = 5,
      new_tx_received_from_blockchain_node = 6, new_tx_received_from_bdn = 7,
      new_tx_received_from_blockchain_node_low_fee = 0, new_tx_received_from_bdn_low_fee = 0,
      tx_sent_to_node = 8, duplicate_tx_from_node = 9\<rparr>"

theorem stats_round_trip_witness:
  "\<exists>m. BdnPerformanceStatsMessage_init (Some 3) (Some 4) (Some 70000) (Some [((IPv4 [127, 0, 0, 1], 8001), sample_stats)]) None = Inr m
    \<and> value_of (BdnPerformanceStatsMessage_memory_utilization m) = Inr 65535
    \<and> value_of (BdnPerformanceStatsMessage_node_stats m) = Inr [((IPv4 [127, 0, 0, 1], 8001), sample_stats)]"
proof -
  have v: "list_all valid_node [((IPv4 [127, 0, 0, 1], 8001), sample_stats)]"
    by (simp add: valid_node_def valid_endpoint_def new_fields_def v18_fields_def sample_stats_def)
  have "map (\<lambda>(k, d). (k, seen_data d)) [((IPv4 [127, 0, 0, 1], 8001), sample_stats)] = [((IPv4 [127, 0, 0, 1], 8001), sample_stats)]"
    by (simp add: seen_data_def sample_stats_def)
  then show ?thesis using stats_round_trip[OF _ _ _ v, of 3 4 70000] by auto
qed

subsection \<open>Statistics of older gateways\<close>

lemma old_stats_init_ok:
  assumes "list_all (\<lambda>(_, _, v). v \<noteq> None) args"
    and "fs = map (\<lambda>(w, cap, v). (w, if cap then min (the v) UNSIGNED_SHORT_MAX_VALUE else the v)) args"
    and "fields_ok fs" and "n = 20 + length (fields_enc fs) + 1" and "n < 256 ^ 4"
  shows "old_stats_init n args None = Inr (payload_object (MESSAGE_TYPE BdnPerformanceStatsMessage) (fields_enc fs) old_stats_blank)"
proof -
  have a: "\<not> list_ex (\<lambda>(_, _, v). v = None) args" using assms(1) by (auto simp: list_ex_iff list_all_iff)
  have z: "replicate n (0 :: byte) = replicate 20 0 @ replicate (length (fields_enc fs)) 0 @ [0]"
    unfolding assms(4) by (simp only: replicate_add append_assoc) simp
  have "put_fields (replicate n 0) 20 fs = Inr (replicate 20 0 @ fields_enc fs @ [0], 20 + length (fields_enc fs))"
    using fillsD[OF fills_fields[OF assms(3)], of "replicate 20 0" "[0]"] unfolding z by simp
  then show ?thesis
    using a finish_payload[of "replicate 20 0" "fields_enc fs" 0 _ old_stats_blank] assms(2,4,5) by (simp add: old_stats_init_def)
qed

lemma payload_object_raw:
  "AbstractInternalMessage_payload_len (payload_object ty body m) = Inr (length body + 1, payload_object ty body m)"
  "AbstractInternalMessage_rawbytes (payload_object ty body m) = Inr (frame ty (body @ [1]), payload_object ty body m)"
  by (simp_all add: AbstractInternalMessage_payload_len_def AbstractInternalMessage_rawbytes_def payload_object_def)

lemma initialize_stats_ok:
  assumes "length h = 20" and "length body + 1 < 256 ^ 4"
  shows "initialize_stats (h @ body @ [1]) (MESSAGE_TYPE BdnPerformanceStatsMessage, n)
    = Inr ((payload_object (MESSAGE_TYPE BdnPerformanceStatsMessage) body stats_blank)\<lparr>payload_len_field := Some n\<rparr>)"
  using finish_payload[OF assms, of 1 "MESSAGE_TYPE BdnPerformanceStatsMessage" "stats_blank :: BdnPerformanceStatsData stats_message"]
  by (simp add: initialize_stats_def BdnPerformanceStatsMessage_init_def stats_init_def payload_object_def)

definition placeholder :: IpEndpoint where "placeholder = (IPv4 [0, 0, 0, 0], 0)"

lemma put_single_peer_ok: "put_single_peer (pre @ replicate 20 0 @ post) (length pre)
    = Inr (pre @ (le_bytes 2 1 @ endpoint_enc placeholder) @ post, length pre + 20)"
proof -
  have v: "valid_endpoint placeholder" by (simp add: placeholder_def valid_endpoint_def)
  have "fills (\<lambda>b o'. rbind (pack_ip_port b o' (fst placeholder) (snd placeholder)) (\<lambda>b. Inr (b, o' + 18))) (endpoint_enc placeholder)"
    using pack_ip_port_ok[OF v] by (simp add: fills_def endpoint_enc_length[OF v])
  then have "fills (\<lambda>b o'. rbind (put_u 2 b o' 1) (\<lambda>(b, o'). rbind (pack_ip_port b o' (fst placeholder) (snd placeholder)) (\<lambda>b. Inr (b, o' + 18))))
      (le_bytes 2 1 @ endpoint_enc placeholder)"
    by (intro fills_seq[OF writes_fills[OF writes_u]]) simp_all
  from fillsD[OF this, of pre post] show ?thesis
    unfolding put_single_peer_def by (simp add: endpoint_enc_length[OF v] placeholder_def[symmetric] del: le_bytes.simps)
      (simp add: placeholder_def)
qed

definition single_data :: "nat \<Rightarrow> nat \<Rightarrow> nat \<Rightarrow> nat \<Rightarrow> nat \<Rightarrow> nat \<Rightarrow> nat \<Rightarrow> BdnPerformanceStatsData" where
  "single_data bn bb tn tb sn ms an =
     \<lparr>new_blocks_received_from_blockchain_node = bn, new_blocks_received_from_bdn = bb, new_blocks_seen = sn,
      new_block_messages_from_blockchain_node = ms, new_block_announcements_from_blockchain_node = an,
      new_tx_received_from_blockchain_node = tn, new_tx_received_from_bdn = tb,
      new_tx_received_from_blockchain_node_low_fee = 0, new_tx_received_from_bdn_low_fee = 0,
      tx_sent_to_node = 0, duplicate_tx_from_node = 0\<rparr>"

definition single_body :: "nat \<Rightarrow> nat \<Rightarrow> nat \<Rightarrow> nat \<Rightarrow> nat \<Rightarrow> nat \<Rightarrow> nat \<Rightarrow> nat \<Rightarrow> nat \<Rightarrow> nat \<Rightarrow> bytes" where
  "single_body s e mb bn bb tn tb sn ms an =
     (le_bytes 8 s @ le_bytes 8 e) @ le_bytes 2 mb @ (le_bytes 2 1 @ endpoint_enc placeholder) @
     (le_bytes 2 bn @ le_bytes 2 bb @ le_bytes 4 tn @ le_bytes 4 tb) @ (le_bytes 4 sn @ le_bytes 4 ms @ le_bytes 4 an) @ replicate 8 0"

lemma stats_body_single:
  assumes "mb < 256 ^ 2"
  shows "stats_body node_enc s e mb [(placeholder, single_data bn bb tn tb sn ms an)] = single_body s e mb bn bb tn tb sn ms an"
proof -
  have "min mb 65535 = mb" using assms by simp
  moreover have "le_bytes 4 0 @ le_bytes 4 0 = replicate 8 0" by (simp add: replicate_add[symmetric])
  ultimately show ?thesis
    by (simp add: stats_body_def head_fields_def node_enc_def new_fields_def v18_fields_def single_data_def single_body_def del: le_bytes.simps le_bytes_zero)
qed

lemma placeholder_length [simp]: "length (endpoint_enc placeholder) = 18"
  by (rule endpoint_enc_length) (simp add: placeholder_def valid_endpoint_def)

lemma single_body_length: "length (single_body s e mb bn bb tn tb sn ms an) = 70"
  by (simp add: single_body_def)

text \<open>Zeros written over zeros.\<close>

lemma put_zero_fields:
  assumes "length pre = off"
  shows "put_fields (pre @ replicate (4 * k) 0 @ post) off (replicate k (4, 0)) = Inr (pre @ replicate (4 * k) 0 @ post, off + 4 * k)"
proof -
  have e: "fields_enc (replicate k (4, 0)) = replicate (4 * k) 0"
    by (induction k) (simp_all add: fields_enc_def replicate_add)
  have "fields_ok (replicate k (4, 0))" by (simp add: list_all_iff)
  from fillsD[OF fills_fields[OF this], of pre post] show ?thesis unfolding e using assms by simp
qed

text \<open>
  The steps the converters share: header and interval \<open>h @ t\<close>, memory \<open>mm\<close>, one peer, first numbers \<open>b\<close>.
\<close>

abbreviation (input) one_peer :: bytes where "one_peer \<equiv> le_bytes 2 1 @ endpoint_enc placeholder"

lemma converter_steps:
  assumes "length h = 20" and "length t = 16" and "length mm = 2" and "length b = 12"
  shows "slice_assign 0 36 (h @ t) (replicate 91 0) = (h @ t) @ replicate 2 0 @ replicate 53 0"
    and "slice_assign 36 (36 + 2) mm ((h @ t) @ replicate 2 0 @ replicate 53 0) = (h @ t @ mm) @ replicate 20 0 @ replicate 33 0"
    and "put_u 2 ((h @ t) @ replicate 2 0 @ replicate 53 0) 36 0 = Inr ((h @ t @ replicate 2 0) @ replicate 20 0 @ replicate 33 0, 36 + 2)"
    and "put_single_peer ((h @ t @ mm) @ replicate 20 0 @ replicate 33 0) (36 + 2)
      = Inr ((h @ t @ mm @ one_peer) @ replicate 12 0 @ replicate 21 0, 58)"
    and "slice_assign 58 (58 + 12) b ((h @ t @ mm @ one_peer) @ replicate 12 0 @ replicate 21 0)
      = (h @ t @ mm @ one_peer @ b) @ replicate 12 0 @ replicate (4 * 2) 0 @ [0]"
    and "slice_assign 58 (58 + 12) b ((h @ t @ mm @ one_peer) @ replicate 12 0 @ replicate 21 0)
      = (h @ t @ mm @ one_peer @ b) @ replicate (4 * 5) 0 @ [0]"
proof -
  have r: "replicate 91 (0 :: byte) = replicate 36 0 @ replicate 55 0" "replicate 55 (0 :: byte) = replicate 2 0 @ replicate 53 0"
    "replicate 53 (0 :: byte) = replicate 20 0 @ replicate 33 0" "replicate 33 (0 :: byte) = replicate 12 0 @ replicate 21 0"
    "replicate 21 (0 :: byte) = replicate 12 0 @ replicate (4 * 2) 0 @ [0]" "replicate 21 (0 :: byte) = replicate (4 * 5) 0 @ [0]"
    by (simp_all add: replicate_add[symmetric] replicate_append_same replicate_Suc[symmetric] del: replicate.simps)
  show "slice_assign 0 36 (h @ t) (replicate 91 0) = (h @ t) @ replicate 2 0 @ replicate 53 0"
    unfolding r(1,2) using assms by (simp add: slice_assign_def)
  show "slice_assign 36 (36 + 2) mm ((h @ t) @ replicate 2 0 @ replicate 53 0) = (h @ t @ mm) @ replicate 20 0 @ replicate 33 0"
    unfolding r(3) using assms by (simp add: slice_assign_def)
  show "put_u 2 ((h @ t) @ replicate 2 0 @ replicate 53 0) 36 0 = Inr ((h @ t @ replicate 2 0) @ replicate 20 0 @ replicate 33 0, 36 + 2)"
    unfolding r(3) using assms fillsD[OF writes_fills[OF writes_u[of 0 2]], of "h @ t" "replicate 20 0 @ replicate 33 0"] by simp
  show "put_single_peer ((h @ t @ mm) @ replicate 20 0 @ replicate 33 0) (36 + 2) = Inr ((h @ t @ mm @ one_peer) @ replicate 12 0 @ replicate 21 0, 58)"
    using put_single_peer_ok[of "h @ t @ mm" "replicate 33 0"] assms unfolding r(4) by simp
  show "slice_assign 58 (58 + 12) b ((h @ t @ mm @ one_peer) @ replicate 12 0 @ replicate 21 0)
      = (h @ t @ mm @ one_peer @ b) @ replicate 12 0 @ replicate (4 * 2) 0 @ [0]"
    unfolding r(5) using assms by (simp add: slice_assign_def)
  show "slice_assign 58 (58 + 12) b ((h @ t @ mm @ one_peer) @ replicate 12 0 @ replicate 21 0) = (h @ t @ mm @ one_peer @ b) @ replicate (4 * 5) 0 @ [0]"
    unfolding r(6) using assms by (simp add: slice_assign_def)
qed

lemma zero_fields: "[(4, 0), (4, 0)] = replicate 2 (4, 0 :: nat)" "[(4, 0), (4, 0), (4, 0), (4, 0), (4, 0)] = replicate 5 (4, 0 :: nat)"
  by (simp_all add: eval_nat_numeral)

lemma v16_bytes:
  assumes "length h = 20" and "length t = 16" and "length b = 12" and "length mm = 2" and "length c = 12"
    and raw: "raw = h @ t @ b @ mm @ c @ [1]" and m: "AbstractInternalMessage_payload_len m = Inr (n, m)" "AbstractInternalMessage_rawbytes m = Inr (raw, m)"
  shows "BdnPerformanceStatsMessageConverterV16_convert_from_older_version m
    = rbind (initialize_stats (h @ (t @ mm @ one_peer @ b @ c @ replicate 8 0) @ [1])
        (MESSAGE_TYPE BdnPerformanceStatsMessage, n + 28)) (\<lambda>r. Inr (r, m))"
proof -
  have s: "take 36 raw = h @ t" "bslice 48 (48 + 2) raw = mm" "bslice 36 (36 + 12) raw = b" "bslice 50 (50 + 12) raw = c"
    using assms(1-5) by (simp_all add: raw bslice_def)
  note st = converter_steps[OF assms(1,2,4,3)]
  have 5: "slice_assign (58 + 12) (58 + 12 + 12) c ((h @ t @ mm @ one_peer @ b) @ replicate 12 0 @ replicate (4 * 2) 0 @ [0])
      = (h @ t @ mm @ one_peer @ b @ c) @ replicate (4 * 2) 0 @ [0]"
    using assms(1-5) by (simp add: slice_assign_def)
  have 6: "put_fields ((h @ t @ mm @ one_peer @ b @ c) @ replicate (4 * 2) 0 @ [0]) (58 + 12 + 12) [(4, 0), (4, 0)]
      = Inr ((h @ t @ mm @ one_peer @ b @ c) @ replicate (4 * 2) 0 @ [0], 90)"
    using put_zero_fields[of "h @ t @ mm @ one_peer @ b @ c" 82 2 "[0]"] assms(1-5) unfolding zero_fields by simp
  have 7: "take 90 ((h @ t @ mm @ one_peer @ b @ c) @ replicate (4 * 2) 0 @ [0]) @ drop 62 raw = h @ (t @ mm @ one_peer @ b @ c @ replicate 8 0) @ [1]"
    using assms(1-5) by (simp add: raw)
  have l: "BdnPerformanceStatsMessageV16_MSG_SIZE + 28 = 91" "BdnPerformanceStatsMessageConverterV16_LENGTH_DIFFERENCE = 28"
    by (simp_all add: BdnPerformanceStatsMessageV16_MSG_SIZE_def BdnPerformanceStatsMessageConverterV16_LENGTH_DIFFERENCE_def)
  show ?thesis
    unfolding BdnPerformanceStatsMessageConverterV16_convert_from_older_version_def m rbind_Inr prod.case Let_def l s st(1,2,4,5) 5 6 7 ..
qed

lemma v14_bytes:
  assumes "length h = 20" and "length t = 16" and "length b = 12" and "length mm = 2"
    and raw: "raw = h @ t @ b @ mm @ [1]" and m: "AbstractInternalMessage_payload_len m = Inr (n, m)" "AbstractInternalMessage_rawbytes m = Inr (raw, m)"
  shows "BdnPerformanceStatsMessageConverterV14_convert_from_older_version m
    = rbind (initialize_stats (h @ ((t @ mm @ one_peer @ b @ replicate 20 0) @ mm) @ [1])
        (MESSAGE_TYPE BdnPerformanceStatsMessage, n + 40)) (\<lambda>r. Inr (r, m))"
proof -
  have s: "take 36 raw = h @ t" "bslice 48 (48 + 2) raw = mm" "bslice 36 (36 + 12) raw = b"
    using assms(1-4) by (simp_all add: raw bslice_def)
  note st = converter_steps[OF assms(1,2,4,3)]
  have 6: "put_fields ((h @ t @ mm @ one_peer @ b) @ replicate (4 * 5) 0 @ [0]) (58 + 12) [(4, 0), (4, 0), (4, 0), (4, 0), (4, 0)]
      = Inr ((h @ t @ mm @ one_peer @ b) @ replicate (4 * 5) 0 @ [0], 90)"
    using put_zero_fields[of "h @ t @ mm @ one_peer @ b" 70 5 "[0]"] assms(1-4) unfolding zero_fields(2) by simp
  have 7: "take 90 ((h @ t @ mm @ one_peer @ b) @ replicate (4 * 5) 0 @ [0]) @ drop 48 raw = h @ ((t @ mm @ one_peer @ b @ replicate 20 0) @ mm) @ [1]"
    using assms(1-4) by (simp add: raw)
  have l: "BdnPerformanceStatsMessageV14_MSG_SIZE + 40 = 91" "BdnPerformanceStatsMessageConverterV14_LENGTH_DIFFERENCE = 40"
    by (simp_all add: BdnPerformanceStatsMessageV14_MSG_SIZE_def BdnPerformanceStatsMessageConverterV14_LENGTH_DIFFERENCE_def)
  show ?thesis
    unfolding BdnPerformanceStatsMessageConverterV14_convert_from_older_version_def m rbind_Inr prod.case Let_def l s st(1,2,4,6) 6 7 ..
qed

lemma v10_bytes:
  assumes "length h = 20" and "length t = 16" and "length b = 12"
    and raw: "raw = h @ t @ b @ [1]" and m: "AbstractInternalMessage_payload_len m = Inr (n, m)" "AbstractInternalMessage_rawbytes m = Inr (raw, m)"
  shows "BdnPerformanceStatsMessageConverterV10_convert_from_older_version m
    = rbind (initialize_stats (h @ (t @ replicate 2 0 @ one_peer @ b @ replicate 20 0) @ [1])
        (MESSAGE_TYPE BdnPerformanceStatsMessage, n + 42)) (\<lambda>r. Inr (r, m))"
proof -
  let ?mm = "replicate 2 (0 :: byte)"
  have s: "take 36 raw = h @ t" "bslice 36 (36 + 12) raw = b"
    using assms(1-3) by (simp_all add: raw bslice_def)
  note st = converter_steps[OF assms(1,2) _ assms(3), of ?mm, OF length_replicate]
  have 6: "put_fields ((h @ t @ ?mm @ one_peer @ b) @ replicate (4 * 5) 0 @ [0]) (58 + 12) [(4, 0), (4, 0), (4, 0), (4, 0), (4, 0)]
      = Inr ((h @ t @ ?mm @ one_peer @ b) @ replicate (4 * 5) 0 @ [0], 90)"
    using put_zero_fields[of "h @ t @ ?mm @ one_peer @ b" 70 5 "[0]"] assms(1-3) unfolding zero_fields(2) by simp
  have 7: "take 90 ((h @ t @ ?mm @ one_peer @ b) @ replicate (4 * 5) 0 @ [0]) @ drop 48 raw = h @ (t @ ?mm @ one_peer @ b @ replicate 20 0) @ [1]"
    using assms(1-3) by (simp add: raw)
  have l: "BdnPerformanceStatsMessageV10_MSG_SIZE + 42 = 91" "BdnPerformanceStatsMessageConverterV10_LENGTH_DIFFERENCE = 42"
    by (simp_all add: BdnPerformanceStatsMessageV10_MSG_SIZE_def BdnPerformanceStatsMessageConverterV10_LENGTH_DIFFERENCE_def)
  show ?thesis
    unfolding BdnPerformanceStatsMessageConverterV10_convert_from_older_version_def m rbind_Inr prod.case Let_def l s st(1,3,4,6) 6 7 ..
qed

lemma v9_bytes:
  assumes "length h = 20" and "length t = 16" and "length b = 4" and "x < 256 ^ 2" and "y < 256 ^ 2"
    and raw: "raw = h @ t @ b @ le_bytes 2 x @ le_bytes 2 y @ [1]"
    and m: "AbstractInternalMessage_payload_len m = Inr (n, m)" "AbstractInternalMessage_rawbytes m = Inr (raw, m)"
  shows "BdnPerformanceStatsMessageConverterV9_convert_from_older_version m
    = rbind (initialize_stats (h @ (t @ replicate 2 0 @ one_peer @ (b @ le_bytes 4 x @ le_bytes 4 y) @ replicate 20 0) @ [1])
        (MESSAGE_TYPE BdnPerformanceStatsMessage, n + 46)) (\<lambda>r. Inr (r, m))"
proof -
  let ?mm = "replicate 2 (0 :: byte)" and ?fs = "[(4, x), (4, y), (4, 0), (4, 0), (4, 0), (4, 0), (4, 0)] :: (nat \<times> nat) list"
  have s: "take 36 raw = h @ t" "bslice 36 (36 + 4) raw = b"
    using assms(1-3) by (simp_all add: raw bslice_def)
  have u: "unpack_from 2 raw 40 = Inr x" "unpack_from 2 raw (40 + 2) = Inr y"
    using unpack_from_middle[of "le_bytes 2 x" 2 "h @ t @ b" "le_bytes 2 y @ [1]"]
      unpack_from_middle[of "le_bytes 2 y" 2 "h @ t @ b @ le_bytes 2 x" "[1]"] assms(1-5) by (simp_all add: raw of_le_le_bytes)
  have "length (replicate 12 (0 :: byte)) = 12" by simp
  note st = converter_steps[OF assms(1,2) _ this, of ?mm, OF length_replicate]
  have z: "replicate 12 (0 :: byte) @ replicate 21 0 = replicate 4 0 @ replicate 28 0 @ [0]"
    by (simp add: replicate_add[symmetric] replicate_append_same replicate_Suc[symmetric] del: replicate.simps)
  have 5: "slice_assign 58 (58 + 4) b ((h @ t @ ?mm @ one_peer) @ replicate 12 0 @ replicate 21 0) = (h @ t @ ?mm @ one_peer @ b) @ replicate 28 0 @ [0]"
    unfolding z using assms(1-3) by (simp add: slice_assign_def)
  have e: "fields_enc ?fs = (le_bytes 4 x @ le_bytes 4 y) @ replicate 20 0" by (simp add: replicate_add[symmetric] del: le_bytes.simps)
  have "fields_ok ?fs" using assms(4,5) by simp
  from fillsD[OF fills_fields[OF this], of "h @ t @ ?mm @ one_peer @ b" "[0]"]
  have 6: "put_fields ((h @ t @ ?mm @ one_peer @ b) @ replicate 28 0 @ [0]) (58 + 4) ?fs
      = Inr ((h @ t @ ?mm @ one_peer @ b @ le_bytes 4 x @ le_bytes 4 y) @ replicate 20 0 @ [0], 90)"
    unfolding e using assms(1-3) by simp
  have 7: "take 90 ((h @ t @ ?mm @ one_peer @ b @ le_bytes 4 x @ le_bytes 4 y) @ replicate 20 0 @ [0]) @ drop 44 raw
      = h @ (t @ ?mm @ one_peer @ (b @ le_bytes 4 x @ le_bytes 4 y) @ replicate 20 0) @ [1]"
    using assms(1-3) by (simp add: raw)
  have l: "BdnPerformanceStatsMessageV9_MSG_SIZE + 46 = 91" "BdnPerformanceStatsMessageConverterV9_LENGTH_DIFFERENCE = 46"
    by (simp_all add: BdnPerformanceStatsMessageV9_MSG_SIZE_def BdnPerformanceStatsMessageConverterV9_LENGTH_DIFFERENCE_def)
  show ?thesis
    unfolding BdnPerformanceStatsMessageConverterV9_convert_from_older_version_def m rbind_Inr prod.case Let_def l s st(1,3,4) 5 u 6 7 ..
qed

lemma frame_split: "frame ty body = (STARTING_SEQUENCE_BYTES @ pad_to 12 ty @ le_bytes 4 (length body)) @ body"
  by (simp add: frame_def)

lemma single_object:
  assumes "s < 256 ^ 8" and "e < 256 ^ 8" and "mb < 256 ^ 2" and "fields_ok (v18_fields (single_data bn bb tn tb sn ms an))"
  shows "BdnPerformanceStatsMessage_init (Some s) (Some e) (Some mb) (Some [(placeholder, single_data bn bb tn tb sn ms an)]) None
      = Inr (payload_object (MESSAGE_TYPE BdnPerformanceStatsMessage) (single_body s e mb bn bb tn tb sn ms an) stats_blank)"
    and "list_all valid_node [(placeholder, single_data bn bb tn tb sn ms an)]"
proof -
  show v: "list_all valid_node [(placeholder, single_data bn bb tn tb sn ms an)]"
    using assms(4) by (simp add: valid_node_def new_fields_def valid_endpoint_def placeholder_def single_data_def)
  then show "BdnPerformanceStatsMessage_init (Some s) (Some e) (Some mb) (Some [(placeholder, single_data bn bb tn tb sn ms an)]) None
      = Inr (payload_object (MESSAGE_TYPE BdnPerformanceStatsMessage) (single_body s e mb bn bb tn tb sn ms an) stats_blank)"
    using cur_init_ok(1)[OF assms(1,2) _ v, of mb] unfolding stats_body_single[OF assms(3)] by simp
qed

lemma initialize_single:
  assumes "length h = 20" and "length body = 70"
  shows "initialize_stats (h @ body @ [1]) (MESSAGE_TYPE BdnPerformanceStatsMessage, 71)
    = Inr (payload_object (MESSAGE_TYPE BdnPerformanceStatsMessage) body stats_blank)"
  using initialize_stats_ok[OF assms(1), of body 71] assms(2) by (simp add: payload_object_def)

lemma v16_converted:
  assumes "s < 256 ^ 8" and "e < 256 ^ 8" and "bn < 256 ^ 2" and "bb < 256 ^ 2" and "tn < 256 ^ 4" and "tb < 256 ^ 4"
    and "sn < 256 ^ 4" and "ms < 256 ^ 4" and "an < 256 ^ 4"
  shows "\<exists>m r. BdnPerformanceStatsMessageV16_init (Some s) (Some e) (Some bn) (Some bb) (Some tn) (Some tb) (Some mb) (Some sn) (Some ms) (Some an) None = Inr m
    \<and> value_of (BdnPerformanceStatsMessageConverterV16_convert_from_older_version m) = Inr r
    \<and> BdnPerformanceStatsMessage_init (Some s) (Some e) (Some (min mb UNSIGNED_SHORT_MAX_VALUE)) (Some [(placeholder, single_data bn bb tn tb sn ms an)]) None = Inr r"
proof -
  let ?ty = "MESSAGE_TYPE BdnPerformanceStatsMessage" and ?mb = "min mb 65535"
  let ?fs = "[(8, s), (8, e), (2, bn), (2, bb), (4, tn), (4, tb), (2, ?mb), (4, sn), (4, ms), (4, an)] :: (nat \<times> nat) list"
  let ?m = "payload_object ?ty (fields_enc ?fs) old_stats_blank"
  let ?h = "STARTING_SEQUENCE_BYTES @ pad_to 12 ?ty @ le_bytes 4 (length (fields_enc ?fs @ [1]))"
  have i: "BdnPerformanceStatsMessageV16_init (Some s) (Some e) (Some bn) (Some bb) (Some tn) (Some tb) (Some mb) (Some sn) (Some ms) (Some an) None = Inr ?m"
    unfolding BdnPerformanceStatsMessageV16_init_def using assms
    by (intro old_stats_init_ok) (simp_all add: BdnPerformanceStatsMessageV16_MSG_SIZE_def)
  have raw: "AbstractInternalMessage_rawbytes ?m = Inr (?h @ (le_bytes 8 s @ le_bytes 8 e) @ (le_bytes 2 bn @ le_bytes 2 bb @ le_bytes 4 tn @ le_bytes 4 tb)
      @ le_bytes 2 ?mb @ (le_bytes 4 sn @ le_bytes 4 ms @ le_bytes 4 an) @ [1], ?m)"
    unfolding payload_object_raw frame_split by simp
  have n: "AbstractInternalMessage_payload_len ?m = Inr (43, ?m)" unfolding payload_object_raw by simp
  have h: "length ?h = 20" by (simp add: STARTING_SEQUENCE_BYTES_def)
  have "value_of (BdnPerformanceStatsMessageConverterV16_convert_from_older_version ?m)
      = Inr (payload_object ?ty (single_body s e ?mb bn bb tn tb sn ms an) stats_blank)"
    using v16_bytes[OF h _ _ _ _ refl n raw] initialize_single[OF h single_body_length[of s e ?mb bn bb tn tb sn ms an]]
    by (simp add: single_body_def value_of_def)
  then show ?thesis using i single_object(1)[OF assms(1,2), of ?mb bn bb tn tb sn ms an] assms by (auto simp: v18_fields_def single_data_def)
qed

lemma zero_numbers: "le_bytes 4 0 @ le_bytes 4 0 @ le_bytes 4 0 @ replicate 8 0 = replicate 20 0"
  by (simp add: replicate_add[symmetric])

lemma v10_converted:
  assumes "s < 256 ^ 8" and "e < 256 ^ 8" and "bn < 256 ^ 2" and "bb < 256 ^ 2" and "tn < 256 ^ 4" and "tb < 256 ^ 4"
  shows "\<exists>m r. BdnPerformanceStatsMessageV10_init (Some s) (Some e) (Some bn) (Some bb) (Some tn) (Some tb) None = Inr m
    \<and> value_of (BdnPerformanceStatsMessageConverterV10_convert_from_older_version m) = Inr r
    \<and> BdnPerformanceStatsMessage_init (Some s) (Some e) (Some 0) (Some [(placeholder, single_data bn bb tn tb 0 0 0)]) None = Inr r"
proof -
  let ?ty = "MESSAGE_TYPE BdnPerformanceStatsMessage"
  let ?fs = "[(8, s), (8, e), (2, bn), (2, bb), (4, tn), (4, tb)] :: (nat \<times> nat) list"
  let ?m = "payload_object ?ty (fields_enc ?fs) old_stats_blank"
  let ?h = "STARTING_SEQUENCE_BYTES @ pad_to 12 ?ty @ le_bytes 4 (length (fields_enc ?fs @ [1]))"
  have i: "BdnPerformanceStatsMessageV10_init (Some s) (Some e) (Some bn) (Some bb) (Some tn) (Some tb) None = Inr ?m"
    unfolding BdnPerformanceStatsMessageV10_init_def using assms
    by (intro old_stats_init_ok) (simp_all add: BdnPerformanceStatsMessageV10_MSG_SIZE_def)
  have raw: "AbstractInternalMessage_rawbytes ?m
      = Inr (?h @ (le_bytes 8 s @ le_bytes 8 e) @ (le_bytes 2 bn @ le_bytes 2 bb @ le_bytes 4 tn @ le_bytes 4 tb) @ [1], ?m)"
    unfolding payload_object_raw frame_split by simp
  have n: "AbstractInternalMessage_payload_len ?m = Inr (29, ?m)" unfolding payload_object_raw by simp
  have h: "length ?h = 20" by (simp add: STARTING_SEQUENCE_BYTES_def)
  have b: "single_body s e 0 bn bb tn tb 0 0 0 = (le_bytes 8 s @ le_bytes 8 e) @ replicate 2 0 @ one_peer
      @ (le_bytes 2 bn @ le_bytes 2 bb @ le_bytes 4 tn @ le_bytes 4 tb) @ replicate 20 0"
    unfolding single_body_def zero_numbers[symmetric] by simp
  have "value_of (BdnPerformanceStatsMessageConverterV10_convert_from_older_version ?m)
      = Inr (payload_object ?ty (single_body s e 0 bn bb tn tb 0 0 0) stats_blank)"
    using v10_bytes[OF h _ _ refl n raw] initialize_single[OF h single_body_length[of s e 0 bn bb tn tb 0 0 0]]
    unfolding b by (simp add: value_of_def)
  then show ?thesis using i single_object(1)[OF assms(1,2), of 0 bn bb tn tb 0 0 0] assms by (auto simp: v18_fields_def single_data_def)
qed

lemma v9_converted:
  assumes "s < 256 ^ 8" and "e < 256 ^ 8" and "bn < 256 ^ 2" and "bb < 256 ^ 2" and "tn < 256 ^ 2" and "tb < 256 ^ 2"
  shows "\<exists>m r. BdnPerformanceStatsMessageV9_init (Some s) (Some e) (Some bn) (Some bb) (Some tn) (Some tb) None = Inr m
    \<and> value_of (BdnPerformanceStatsMessageConverterV9_convert_from_older_version m) = Inr r
    \<and> BdnPerformanceStatsMessage_init (Some s) (Some e) (Some 0) (Some [(placeholder, single_data bn bb tn tb 0 0 0)]) None = Inr r"
proof -
  let ?ty = "MESSAGE_TYPE BdnPerformanceStatsMessage"
  let ?fs = "[(8, s), (8, e), (2, bn), (2, bb), (2, tn), (2, tb)] :: (nat \<times> nat) list"
  let ?m = "payload_object ?ty (fields_enc ?fs) old_stats_blank"
  let ?h = "STARTING_SEQUENCE_BYTES @ pad_to 12 ?ty @ le_bytes 4 (length (fields_enc ?fs @ [1]))"
  have i: "BdnPerformanceStatsMessageV9_init (Some s) (Some e) (Some bn) (Some bb) (Some tn) (Some tb) None = Inr ?m"
    unfolding BdnPerformanceStatsMessageV9_init_def using assms
    by (intro old_stats_init_ok) (simp_all add: BdnPerformanceStatsMessageV9_MSG_SIZE_def)
  have raw: "AbstractInternalMessage_rawbytes ?m
      = Inr (?h @ (le_bytes 8 s @ le_bytes 8 e) @ (le_bytes 2 bn @ le_bytes 2 bb) @ le_bytes 2 tn @ le_bytes 2 tb @ [1], ?m)"
    unfolding payload_object_raw frame_split by simp
  have n: "AbstractInternalMessage_payload_len ?m = Inr (25, ?m)" unfolding payload_object_raw by simp
  have h: "length ?h = 20" by (simp add: STARTING_SEQUENCE_BYTES_def)
  have b: "single_body s e 0 bn bb tn tb 0 0 0 = (le_bytes 8 s @ le_bytes 8 e) @ replicate 2 0 @ one_peer
      @ ((le_bytes 2 bn @ le_bytes 2 bb) @ le_bytes 4 tn @ le_bytes 4 tb) @ replicate 20 0"
    unfolding single_body_def zero_numbers[symmetric] by simp
  have "value_of (BdnPerformanceStatsMessageConverterV9_convert_from_older_version ?m)
      = Inr (payload_object ?ty (single_body s e 0 bn bb tn tb 0 0 0) stats_blank)"
    using v9_bytes[OF h _ _ assms(5,6) refl n raw] initialize_single[OF h single_body_length[of s e 0 bn bb tn tb 0 0 0]]
    unfolding b by (simp add: value_of_def)
  then show ?thesis using i single_object(1)[OF assms(1,2), of 0 bn bb tn tb 0 0 0] assms by (auto simp: v18_fields_def single_data_def)
qed

text \<open>
  C39. The statistics of an older gateway count as those of one peer with a placeholder address: what a
  relay gets from a message of version 16, 10 or 9 is exactly the message a current gateway with one
  peer would have sent, with zero for the numbers the older version does not have. The numbers of
  transactions have four bytes in versions 16 and 10 and two bytes in version 9.
\<close>

theorem old_stats_converted:
  assumes "s < 256 ^ 8" and "e < 256 ^ 8" and "bn < 256 ^ 2" and "bb < 256 ^ 2" and "tn < 256 ^ 4" and "tb < 256 ^ 4"
    and "sn < 256 ^ 4" and "ms < 256 ^ 4" and "an < 256 ^ 4"
  shows "(\<exists>m r. BdnPerformanceStatsMessageV16_init (Some s) (Some e) (Some bn) (Some bb) (Some tn) (Some tb) (Some mb) (Some sn) (Some ms) (Some an) None = Inr m
      \<and> value_of (BdnPerformanceStatsMessageConverterV16_convert_from_older_version m) = Inr r
      \<and> BdnPerformanceStatsMessage_init (Some s) (Some e) (Some (min mb UNSIGNED_SHORT_MAX_VALUE)) (Some [(placeholder, single_data bn bb tn tb sn ms an)]) None = Inr r)
    \<and> (\<exists>m r. BdnPerformanceStatsMessageV10_init (Some s) (Some e) (Some bn) (Some bb) (Some tn) (Some tb) None = Inr m
      \<and> value_of (BdnPerformanceStatsMessageConverterV10_convert_from_older_version m) = Inr r
      \<and> BdnPerformanceStatsMessage_init (Some s) (Some e) (Some 0) (Some [(placeholder, single_data bn bb tn tb 0 0 0)]) None = Inr r)
    \<and> (tn < 256 ^ 2 \<longrightarrow> tb < 256 ^ 2 \<longrightarrow>
        (\<exists>m r. BdnPerformanceStatsMessageV9_init (Some s) (Some e) (Some bn) (Some bb) (Some tn) (Some tb) None = Inr m
      \<and> value_of (BdnPerformanceStatsMessageConverterV9_convert_from_older_version m) = Inr r
      \<and> BdnPerformanceStatsMessage_init (Some s) (Some e) (Some 0) (Some [(placeholder, single_data bn bb tn tb 0 0 0)]) None = Inr r))"
  using v16_converted[of s e bn bb tn tb sn ms an mb] v10_converted[of s e bn bb tn tb] v9_converted[of s e bn bb tn tb] assms
  by (intro conjI) simp_all

theorem old_stats_converted_witness:
  "\<exists>m r. BdnPerformanceStatsMessageV10_init (Some 1) (Some 2) (Some 3) (Some 4) (Some 70000) (Some 6) None = Inr m
    \<and> value_of (BdnPerformanceStatsMessageConverterV10_convert_from_older_version m) = Inr r
    \<and> BdnPerformanceStatsMessage_init (Some 1) (Some 2) (Some 0) (Some [(placeholder, single_data 3 4 70000 6 0 0 0)]) None = Inr r"
  using old_stats_converted[of 1 2 3 4 70000 6 7 8 9 10] by simp

text \<open>
  Version 14 has no second set of numbers, but its converter copies the tail of the old message from
  the memory on: the numbers arrive, with zeros for the missing ones, and the converted message is two
  bytes longer than the length it announces.
\<close>

theorem v14_stats_too_long:
  assumes "s < 256 ^ 8" and "e < 256 ^ 8" and "bn < 256 ^ 2" and "bb < 256 ^ 2" and "tn < 256 ^ 4" and "tb < 256 ^ 4"
  shows "\<exists>m r. BdnPerformanceStatsMessageV14_init (Some s) (Some e) (Some bn) (Some bb) (Some tn) (Some tb) (Some mb) None = Inr m
    \<and> value_of (BdnPerformanceStatsMessageConverterV14_convert_from_older_version m) = Inr r
    \<and> value_of (BdnPerformanceStatsMessage_memory_utilization r) = Inr (min mb UNSIGNED_SHORT_MAX_VALUE)
    \<and> value_of (BdnPerformanceStatsMessage_node_stats r) = Inr [(placeholder, single_data bn bb tn tb 0 0 0)]
    \<and> value_of (AbstractInternalMessage_payload_len r) = Inr 71 \<and> length (msg_buf r) = HEADER_LENGTH + 71 + 2"
proof -
  let ?ty = "MESSAGE_TYPE BdnPerformanceStatsMessage" and ?mb = "min mb 65535"
  let ?fs = "[(8, s), (8, e), (2, bn), (2, bb), (4, tn), (4, tb), (2, ?mb)] :: (nat \<times> nat) list"
  let ?m = "payload_object ?ty (fields_enc ?fs) old_stats_blank"
  let ?h = "STARTING_SEQUENCE_BYTES @ pad_to 12 ?ty @ le_bytes 4 (length (fields_enc ?fs @ [1]))"
  let ?b = "single_body s e ?mb bn bb tn tb 0 0 0" and ?ns = "[(placeholder, single_data bn bb tn tb 0 0 0)]"
  let ?r = "(payload_object ?ty (?b @ le_bytes 2 ?mb) (stats_blank :: BdnPerformanceStatsData stats_message))\<lparr>payload_len_field := Some 71\<rparr>"
  have i: "BdnPerformanceStatsMessageV14_init (Some s) (Some e) (Some bn) (Some bb) (Some tn) (Some tb) (Some mb) None = Inr ?m"
    unfolding BdnPerformanceStatsMessageV14_init_def using assms
    by (intro old_stats_init_ok) (simp_all add: BdnPerformanceStatsMessageV14_MSG_SIZE_def)
  have raw: "AbstractInternalMessage_rawbytes ?m
      = Inr (?h @ (le_bytes 8 s @ le_bytes 8 e) @ (le_bytes 2 bn @ le_bytes 2 bb @ le_bytes 4 tn @ le_bytes 4 tb) @ le_bytes 2 ?mb @ [1], ?m)"
    unfolding payload_object_raw frame_split by simp
  have n: "AbstractInternalMessage_payload_len ?m = Inr (31, ?m)" unfolding payload_object_raw by simp
  have h: "length ?h = 20" by (simp add: STARTING_SEQUENCE_BYTES_def)
  have b: "?b = (le_bytes 8 s @ le_bytes 8 e) @ le_bytes 2 ?mb @ one_peer
      @ (le_bytes 2 bn @ le_bytes 2 bb @ le_bytes 4 tn @ le_bytes 4 tb) @ replicate 20 0"
    unfolding single_body_def zero_numbers[symmetric] by simp
  have c: "value_of (BdnPerformanceStatsMessageConverterV14_convert_from_older_version ?m) = Inr ?r"
    using v14_bytes[OF h _ _ _ refl n raw] initialize_stats_ok[OF h, of "?b @ le_bytes 2 ?mb" 71]
    by (simp add: b value_of_def)
  have mb: "?mb < 256 ^ 2" by simp
  have v: "list_all valid_node ?ns" using single_object(2)[OF assms(1,2), of ?mb bn bb tn tb 0 0 0] assms by (simp add: v18_fields_def single_data_def)
  have "stats_unpack get_node_stats ?r = Inr (?r\<lparr>sm_interval_start_time := Some s, sm_interval_end_time := Some e,
      sm_memory_utilization_mb := Some ?mb, sm_node_stats := Some ?ns\<rparr>)"
    using cur.unpack_stats_frame[OF assms(1,2) _ v, of ?r ?ty ?mb "le_bytes 2 ?mb @ [1]"] stats_body_single[OF mb]
    by (simp add: payload_object_def seen_data_def single_data_def)
  then have "value_of (BdnPerformanceStatsMessage_memory_utilization ?r) = Inr ?mb" "value_of (BdnPerformanceStatsMessage_node_stats ?r) = Inr ?ns"
    by (auto intro!: unpacked_fieldI simp: BdnPerformanceStatsMessage_memory_utilization_def BdnPerformanceStatsMessage_node_stats_def
        BdnPerformanceStatsMessage_unpack_def payload_object_def stats_blank_def)
  moreover have "value_of (AbstractInternalMessage_payload_len ?r) = Inr 71" "length (msg_buf ?r) = 20 + 71 + 2"
    by (simp_all add: AbstractInternalMessage_payload_len_def value_of_def payload_object_def frame_def STARTING_SEQUENCE_BYTES_def single_body_length)
  ultimately show ?thesis using i c by (intro exI[of _ ?m] exI[of _ ?r] conjI)
qed

theorem v14_stats_too_long_witness:
  "\<exists>m r. BdnPerformanceStatsMessageV14_init (Some 1) (Some 2) (Some 3) (Some 4) (Some 5) (Some 6) (Some 7) None = Inr m
    \<and> value_of (BdnPerformanceStatsMessageConverterV14_convert_from_older_version m) = Inr r
    \<and> value_of (AbstractInternalMessage_payload_len r) = Inr 71 \<and> length (msg_buf r) = 93"
  using v14_stats_too_long[of 1 2 3 4 5 6 7] by auto

subsection \<open>Statistics of version 18\<close>

definition with_new_numbers :: "BdnPerformanceStatsDataV18 \<Rightarrow> BdnPerformanceStatsData" where
  "with_new_numbers d = BdnPerformanceStatsDataV18.extend d (BdnPerformanceStatsData.fields 0 0)"

lemma node_enc_upgraded: "node_enc (k, with_new_numbers d) = node_enc_v18 (k, d) @ replicate 8 0"
  by (simp add: node_enc_def node_enc_v18_def new_fields_def v18_fields_def with_new_numbers_def BdnPerformanceStatsDataV18.defs
      BdnPerformanceStatsData.defs replicate_add[symmetric] del: le_bytes.simps)

lemma upgraded_valid: "valid_node (k, with_new_numbers d) = valid_node_v18 (k, d)"
  by (simp add: valid_node_def valid_node_v18_def new_fields_def v18_fields_def with_new_numbers_def BdnPerformanceStatsDataV18.defs
      BdnPerformanceStatsData.defs)

abbreviation upgraded :: "(IpEndpoint \<times> BdnPerformanceStatsDataV18) list \<Rightarrow> (IpEndpoint \<times> BdnPerformanceStatsData) list" where
  "upgraded ns \<equiv> map (\<lambda>(k, d). (k, with_new_numbers d)) ns"

lemma v18_copy_entries:
  assumes "list_all valid_node_v18 ns"
  shows "v18_copy_loop (old @ concat (map node_enc_v18 ns) @ post) (length ns + k)
      (new @ replicate (length ns * 50) 0 @ tail, length new, length old)
    = v18_copy_loop (old @ concat (map node_enc_v18 ns) @ post) k
      (new @ concat (map node_enc (upgraded ns)) @ tail, length new + length ns * 50, length old + length ns * 42)"
  using assms
proof (induction ns arbitrary: old new)
  case (Cons p ns)
  obtain a d where p: "p = (a, d)" by (cases p)
  let ?e = "node_enc_v18 p" and ?z = "replicate 8 (0 :: byte)" and ?raw = "old @ concat (map node_enc_v18 (p # ns)) @ post"
  have l: "length ?e = 42" using Cons.prems by (simp add: node_enc_v18_length)
  have z: "replicate (length (p # ns) * 50) (0 :: byte) = replicate 42 0 @ replicate (4 * 2) 0 @ replicate (length ns * 50) 0"
    by (simp add: replicate_add[symmetric])
  have 1: "slice_assign (length new) (length new + 42) (bslice (length old) (length old + 42) ?raw)
      (new @ replicate (length (p # ns) * 50) 0 @ tail) = (new @ ?e) @ replicate (4 * 2) 0 @ replicate (length ns * 50) 0 @ tail"
    unfolding z using l by (simp add: slice_assign_def bslice_def)
  have 2: "put_fields ((new @ ?e) @ replicate (4 * 2) 0 @ replicate (length ns * 50) 0 @ tail) (length new + 42) [(4, 0), (4, 0)]
      = Inr ((new @ ?e @ ?z) @ replicate (length ns * 50) 0 @ tail, length new + 50)"
    unfolding zero_fields(1) using put_zero_fields[of "new @ ?e" "length new + 42" 2 "replicate (length ns * 50) 0 @ tail"] l by simp
  have ih: "v18_copy_loop ((old @ ?e) @ concat (map node_enc_v18 ns) @ post) (length ns + k)
      ((new @ ?e @ ?z) @ replicate (length ns * 50) 0 @ tail, length (new @ ?e @ ?z), length (old @ ?e))
    = v18_copy_loop ((old @ ?e) @ concat (map node_enc_v18 ns) @ post) k
      ((new @ ?e @ ?z) @ concat (map node_enc (upgraded ns)) @ tail, length (new @ ?e @ ?z) + length ns * 50, length (old @ ?e) + length ns * 42)"
    using Cons.prems by (intro Cons.IH) simp
  have "v18_copy_loop ?raw (length (p # ns) + k) (new @ replicate (length (p # ns) * 50) 0 @ tail, length new, length old)
      = v18_copy_loop ?raw (length ns + k) ((new @ ?e @ ?z) @ replicate (length ns * 50) 0 @ tail, length new + 50, length old + 42)"
    by (simp only: list.size add_Suc add.commute[of _ "Suc 0"] add_Suc_right v18_copy_loop.simps Let_def prod.case)
      (simp add: 1[simplified] 2[simplified])
  then show ?case using ih l p by (simp add: node_enc_upgraded add.assoc)
qed simp

text \<open>Behind the end of the old message the copy shrinks the buffer until nothing can be packed.\<close>

lemma put_zeros_short:
  assumes "length b < off + 8"
  shows "put_fields b off [(4, 0), (4, 0)] = Inl StructError"
  using assms by (auto simp: put_fields_def put_u_def pack_into_def rbind_def)

lemma v18_copy_behind:
  assumes "0 < k" and "length raw \<le> old_off + 1" and "length b \<le> new_off + k * 50 + 1"
  shows "v18_copy_loop raw k (b, new_off, old_off) = Inl StructError"
  using assms
proof (induction k arbitrary: b new_off old_off)
  case (Suc k)
  let ?c = "bslice old_off (old_off + 42) raw"
  let ?b = "slice_assign new_off (new_off + 42) ?c b"
  have c: "length ?c \<le> 1" using Suc.prems(2) by (simp add: bslice_def)
  show ?case
  proof (cases "length ?b < new_off + 50")
    case True
    then show ?thesis by (simp add: put_zeros_short)
  next
    case False
    then have l: "length ?b + 41 \<le> length b" using c by (simp add: slice_assign_def)
    then have k: "0 < k" using Suc.prems(3) False by (cases k) simp_all
    obtain b' where b': "put_fields ?b (new_off + 42) [(4, 0), (4, 0)] = Inr (b', new_off + 50)" "length b' = length ?b"
      using False by (simp add: put_fields_def put_u_def pack_into_def)
    have "v18_copy_loop raw k (b', new_off + 50, old_off + 42) = Inl StructError"
      using Suc.prems b'(2) l k by (intro Suc.IH) simp_all
    then show ?thesis by (simp add: b'(1))
  qed
qed simp

lemma v18_peer_count:
  assumes "list_all valid_node_v18 (p # ns)" and "length (p # ns) < 256 ^ 2" and "length h = 38"
  shows "unpack_from 4 (h @ le_bytes 2 (length (p # ns)) @ concat (map node_enc_v18 (p # ns)) @ post) 38
    = Inr (length (p # ns) + 256 ^ 2 * of_le (take 2 (endpoint_enc (fst p))))"
proof -
  let ?x = "take 2 (endpoint_enc (fst p))" and ?n = "length (p # ns)"
  have l: "length ?x = 2" using assms(1) by (simp add: valid_node_v18_def endpoint_enc_length)
  have "concat (map node_enc_v18 (p # ns)) = ?x @ drop 2 (endpoint_enc (fst p)) @ fields_enc (v18_fields (snd p)) @ concat (map node_enc_v18 ns)"
    by (simp add: node_enc_v18_def append_assoc[symmetric] del: append_assoc)
  then have "unpack_from 4 (h @ le_bytes 2 ?n @ concat (map node_enc_v18 (p # ns)) @ post) 38 = Inr (of_le (le_bytes 2 ?n @ ?x))"
    using unpack_from_middle[of "le_bytes 2 ?n @ ?x" 4 h] assms(3) l by simp
  moreover have "of_le (xs @ ys) = of_le xs + 256 ^ length xs * of_le ys" for xs ys
    by (induction xs) (simp_all add: algebra_simps)
  ultimately show ?thesis using assms(2) by (simp add: of_le_le_bytes del: le_bytes.simps)
qed

definition misread_peers :: "(IpEndpoint \<times> BdnPerformanceStatsDataV18) list \<Rightarrow> nat" where
  "misread_peers ns = (case ns of [] \<Rightarrow> 0 | p # _ \<Rightarrow> 256 ^ 2 * of_le (take 2 (endpoint_enc (fst p))))"

lemma v18_conversion_loop:
  assumes "list_all valid_node_v18 ns" and "length h = 40" and raw: "raw = h @ concat (map node_enc_v18 ns) @ [1]"
  shows "v18_copy_loop raw (length ns + k) (slice_assign 0 40 (take 40 raw) (replicate (41 + (length ns + k) * 50) 0), 40, 40)
    = (if k = 0 then Inr (h @ concat (map node_enc (upgraded ns)) @ [0], 40 + length ns * 50, 40 + length ns * 42) else Inl StructError)"
proof -
  have "length (concat (map node_enc_v18 ns)) = length ns * 42"
    using assms(1) by (induction ns) (simp_all add: node_enc_v18_length)
  then have lr: "length raw = 41 + length ns * 42" using assms(2) by (simp add: raw)
  have ln: "length (concat (map node_enc (upgraded ns))) = length ns * 50"
    using assms(1) by (induction ns) (auto simp: node_enc_upgraded node_enc_v18_length)
  have "replicate (41 + (length ns + k) * 50) (0 :: byte) = replicate 40 0 @ replicate (length ns * 50) 0 @ replicate (k * 50 + 1) 0"
    by (simp only: replicate_add[symmetric]) (simp add: algebra_simps)
  then have b: "slice_assign 0 40 (take 40 raw) (replicate (41 + (length ns + k) * 50) 0) = h @ replicate (length ns * 50) 0 @ replicate (k * 50 + 1) 0"
    using assms(2) by (simp add: slice_assign_def raw del: replicate_Suc)
  have "v18_copy_loop raw (length ns + k) (h @ replicate (length ns * 50) 0 @ replicate (k * 50 + 1) 0, 40, 40)
      = v18_copy_loop raw k (h @ concat (map node_enc (upgraded ns)) @ replicate (k * 50 + 1) 0, 40 + length ns * 50, 40 + length ns * 42)"
    using v18_copy_entries[OF assms(1), of h "[1]" k h "replicate (k * 50 + 1) 0"] assms(2) unfolding raw by (simp del: replicate_Suc)
  moreover have "v18_copy_loop raw k (h @ concat (map node_enc (upgraded ns)) @ replicate (k * 50 + 1) 0, 40 + length ns * 50, 40 + length ns * 42)
      = Inl StructError" if "k \<noteq> 0"
    using that assms(2) ln by (intro v18_copy_behind) (simp_all add: lr)
  ultimately show ?thesis unfolding b by (cases "k = 0") simp_all
qed

lemma take_exactly: "n = length xs \<Longrightarrow> take n (xs @ ys) = xs"
  by simp

lemma drop_exactly: "n = length xs \<Longrightarrow> drop n (xs @ ys) = ys"
  by simp

lemma v18_convert:
  assumes "s < 256 ^ 8" and "e < 256 ^ 8" and "length ns < 256 ^ 2" and "list_all valid_node_v18 ns"
  shows "value_of (BdnPerformanceStatsMessageConverterV18_convert_from_older_version alloc (stats_object node_enc_v18 s e mb ns))
    = (if \<not> alloc (41 + (length ns + misread_peers ns) * 50) then Inl MemoryErr
       else if misread_peers ns = 0 then Inr (stats_object node_enc s e mb (upgraded ns)) else Inl StructError)"
proof -
  let ?ty = "MESSAGE_TYPE BdnPerformanceStatsMessage" and ?m = "stats_object node_enc_v18 s e mb ns"
  let ?body = "stats_body node_enc_v18 s e mb ns" and ?new = "stats_body node_enc s e mb (upgraded ns)"
  let ?h20 = "STARTING_SEQUENCE_BYTES @ pad_to 12 ?ty @ le_bytes 4 (length (?body @ [1]))"
  let ?h38 = "?h20 @ le_bytes 8 s @ le_bytes 8 e @ le_bytes 2 (min mb 65535)"
  let ?h = "?h38 @ le_bytes 2 (length ns)" and ?raw = "frame ?ty (?body @ [1])" and ?x = "misread_peers ns"
  have h: "length ?h20 = 20" "length ?h38 = 38" "length ?h = 40" by (simp_all add: STARTING_SEQUENCE_BYTES_def)
  have raw: "?raw = ?h @ concat (map node_enc_v18 ns) @ [1]" by (simp add: frame_def stats_body_def head_fields_def)
  have l: "length ?body = 20 + length ns * 42" using v18.body_length[OF assms(4)] by simp
  have cnt: "(if length ?raw = 41 then Inr 0 else unpack_from 4 ?raw 38) = Inr (length ns + ?x)"
  proof (cases ns)
    case Nil
    then show ?thesis using l by (simp add: frame_def STARTING_SEQUENCE_BYTES_def misread_peers_def)
  next
    case (Cons p ps)
    have "length ?raw \<noteq> 41" using l Cons by (simp add: frame_def STARTING_SEQUENCE_BYTES_def)
    moreover have "unpack_from 4 ?raw 38 = Inr (length ns + ?x)"
    proof -
      have "?x = 256 ^ 2 * of_le (take 2 (endpoint_enc (fst p)))" by (simp add: misread_peers_def Cons)
      then show ?thesis using v18_peer_count[of p ps ?h38 "[1]", folded Cons] assms(3,4) h(2) unfolding raw by simp
    qed
    ultimately show ?thesis by simp
  qed
  have lp: "v18_copy_loop ?raw (length ns + ?x) (slice_assign 0 40 (take 40 ?raw) (replicate (41 + (length ns + ?x) * 50) 0), 40, 40)
      = (if ?x = 0 then Inr (?h @ concat (map node_enc (upgraded ns)) @ [0], 40 + length ns * 50, 40 + length ns * 42) else Inl StructError)"
    using assms(4) h(3) raw by (rule v18_conversion_loop)
  have un: "list_all valid_node (upgraded ns)" using assms(4) by (auto simp: list_all_iff upgraded_valid)
  have ln: "length ?new = 20 + length ns * 50" using cur.body_length[OF un] by simp
  have fin: "take (40 + length ns * 50) (?h @ concat (map node_enc (upgraded ns)) @ [0]) @ drop (40 + length ns * 42) ?raw = ?h20 @ ?new @ [1]"
  proof -
    have a: "?h @ concat (map node_enc (upgraded ns)) @ [0] = (?h20 @ ?new) @ [0]" "?raw = (?h20 @ ?body) @ [1]"
      by (simp_all add: stats_body_def head_fields_def frame_def)
    have "take (40 + length ns * 50) ((?h20 @ ?new) @ [0]) = ?h20 @ ?new" using h(1) ln by (intro take_exactly) simp
    moreover have "drop (40 + length ns * 42) ((?h20 @ ?body) @ [1]) = [1]" using h(1) l by (intro drop_exactly) simp
    ultimately show ?thesis unfolding a by (simp only: append_assoc)
  qed
  have i: "initialize_stats (?h20 @ ?new @ [1]) (?ty, length ?body + 1 + (50 - 42) * (length ns + 0)) = Inr (stats_object node_enc s e mb (upgraded ns))"
  proof -
    have n: "length ?body + 1 + (50 - 42) * (length ns + 0) = length ?new + 1" using l ln by simp
    show ?thesis unfolding n using initialize_stats_ok[OF h(1), of ?new "length ?new + 1"] assms(3) ln by (simp add: payload_object_def)
  qed
  show ?thesis
  proof (cases "?x = 0")
    case True
    then show ?thesis
      unfolding BdnPerformanceStatsMessageConverterV18_convert_from_older_version_def payload_object_raw rbind_Inr prod.case cnt Let_def lp
        if_P[OF True] fin using i True by (simp add: value_of_def)
  next
    case False
    then show ?thesis
      unfolding BdnPerformanceStatsMessageConverterV18_convert_from_older_version_def payload_object_raw rbind_Inr prod.case cnt Let_def lp
      by (simp add: value_of_def)
  qed
qed

text \<open>The first address begins with two zero bytes on the wire: every address of the fourth version, and \<open>::1\<close>.\<close>

fun begins_with_zeros :: "(IpEndpoint \<times> 'd) list \<Rightarrow> bool" where
  "begins_with_zeros (((IPv6 a, port), d) # ns) = (take 2 a = [0, 0])"
| "begins_with_zeros _ = True"

lemma misread_zeros:
  assumes "list_all valid_node_v18 ns"
  shows "misread_peers ns = 0 \<longleftrightarrow> begins_with_zeros ns"
proof (cases ns)
  case (Cons p nt)
  obtain ip port d where p: "p = ((ip, port), d)" by (metis prod.collapse)
  show ?thesis
  proof (cases ip)
    case (IPv6 a)
    then have "length a = 16" using assms Cons p by (simp add: valid_node_v18_def valid_endpoint_def)
    then obtain x y rest where a: "a = x # y # rest" by (cases a rule: list.exhaust; cases "tl a") auto
    show ?thesis using Cons p IPv6 a by (auto simp: misread_peers_def endpoint_enc_def unat_eq_0)
  qed (use Cons p assms in \<open>auto simp: misread_peers_def endpoint_enc_def IP_V4_PREFIX_def valid_node_v18_def valid_endpoint_def\<close>)
qed (simp add: misread_peers_def)

text \<open>
  C40. The statistics of version 18, one set per peer, are converted to exactly the message of a current
  gateway with zero for the two new numbers, if the address of the first peer begins with two zero bytes
  on the wire, as every address of the fourth version does and \<open>::1\<close> too, and the converted message can
  be allocated. The converter reads the number of peers together with these two bytes: when one of them
  is not zero, it never returns a message, and raises \<open>MemoryError\<close> or \<open>struct.error\<close>.
\<close>

theorem v18_stats_converted:
  assumes "s < 256 ^ 8" and "e < 256 ^ 8" and "length ns < 256 ^ 2" and "list_all valid_node_v18 ns"
  shows "\<exists>m. BdnPerformanceStatsMessageV18_init (Some s) (Some e) (Some mb) (Some ns) None = Inr m
    \<and> BdnPerformanceStatsMessageV18_init None None None None (Some (msg_buf m)) = Inr m
    \<and> (begins_with_zeros ns \<longrightarrow> alloc (41 + length ns * 50) \<longrightarrow>
        (\<exists>r. value_of (BdnPerformanceStatsMessageConverterV18_convert_from_older_version alloc m) = Inr r
          \<and> BdnPerformanceStatsMessage_init (Some s) (Some e) (Some mb) (Some (map (\<lambda>(k, d). (k, with_new_numbers d)) ns)) None = Inr r))
    \<and> (begins_with_zeros ns \<longrightarrow> \<not> alloc (41 + length ns * 50) \<longrightarrow>
        value_of (BdnPerformanceStatsMessageConverterV18_convert_from_older_version alloc m) = Inl MemoryErr)
    \<and> (\<not> begins_with_zeros ns \<longrightarrow>
        value_of (BdnPerformanceStatsMessageConverterV18_convert_from_older_version alloc m) \<in> {Inl MemoryErr, Inl StructError})"
proof -
  let ?m = "stats_object node_enc_v18 s e mb ns"
  have u: "list_all valid_node (upgraded ns)" using assms(4) by (auto simp: list_all_iff upgraded_valid)
  note c = v18_convert[OF assms, of alloc mb] and z = misread_zeros[OF assms(4)]
  show ?thesis
  proof (intro exI[of _ ?m] conjI impI)
    assume "begins_with_zeros ns" "alloc (41 + length ns * 50)"
    then show "\<exists>r. value_of (BdnPerformanceStatsMessageConverterV18_convert_from_older_version alloc ?m) = Inr r
        \<and> BdnPerformanceStatsMessage_init (Some s) (Some e) (Some mb) (Some (upgraded ns)) None = Inr r"
      using c z cur_init_ok(1)[OF assms(1,2) _ u, of mb] assms(3) by simp
  qed (use c z v18_init_ok[OF assms, of mb] in simp_all)
qed

definition sample_stats_v18 :: BdnPerformanceStatsDataV18 where
  "sample_stats_v18 = \<lparr>new_blocks_received_from_blockchain_node = 1, new_blocks_received_from_bdn = 2, new_blocks_seen = 3,
      new_block_messages_from_blockchain_node = 4, new_block_announcements_from_blockchain_node = 5,
      new_tx_received_from_blockchain_node = 6, new_tx_received_from_bdn = 7,
      new_tx_received_from_blockchain_node_low_fee = 0, new_tx_received_from_bdn_low_fee = 0\<rparr>"

theorem v18_stats_converted_witness:
  "\<exists>m. BdnPerformanceStatsMessageV18_init (Some 3) (Some 4) (Some 5)
      (Some [((IPv6 [32, 1, 13, 184, 0, 0, 0, 0, 0, 0, 0, 0, 0, 0, 0, 1], 8001), sample_stats_v18)]) None = Inr m
    \<and> value_of (BdnPerformanceStatsMessageConverterV18_convert_from_older_version (\<lambda>n. n < 2 ^ 30) m) \<in> {Inl MemoryErr, Inl StructError}"
proof -
  let ?a = "[32, 1, 13, 184, 0, 0, 0, 0, 0, 0, 0, 0, 0, 0, 0, 1] :: bytes"
  have "hd IP_V4_PREFIX = 0" by (simp add: IP_V4_PREFIX_def hd_append)
  then have "hd (take 12 ?a) \<noteq> hd IP_V4_PREFIX" by simp
  then have "take 12 ?a \<noteq> IP_V4_PREFIX" by metis
  then have v: "list_all valid_node_v18 [((IPv6 ?a, 8001), sample_stats_v18)]"
    by (simp add: valid_node_v18_def valid_endpoint_def v18_fields_def sample_stats_v18_def)
  have n: "(3 :: nat) < 256 ^ 8" "(4 :: nat) < 256 ^ 8" "length [((IPv6 ?a, 8001 :: nat), sample_stats_v18)] < 256 ^ 2" by simp_all
  have z: "\<not> begins_with_zeros [((IPv6 ?a, 8001 :: nat), sample_stats_v18)]" by simp
  obtain m where m: "BdnPerformanceStatsMessageV18_init (Some 3) (Some 4) (Some 5) (Some [((IPv6 ?a, 8001), sample_stats_v18)]) None = Inr m"
    and c: "\<not> begins_with_zeros [((IPv6 ?a, 8001 :: nat), sample_stats_v18)] \<longrightarrow>
        value_of (BdnPerformanceStatsMessageConverterV18_convert_from_older_version (\<lambda>n. n < 2 ^ 30) m) \<in> {Inl MemoryErr, Inl StructError}"
    using v18_stats_converted[OF n v, of 5 "\<lambda>n. n < 2 ^ 30"] by (elim exE conjE)
  from m mp[OF c z] show ?thesis by (intro exI[of _ m] conjI)
qed

end
