(* ===== verification/Notice_Messages.thy ===== *)
theory Notice_Messages
  imports Stats_Messages
begin

text \<open>
  Two messages with a list and with text: the routes a node announces
  (\<open>messages/bloxroute/routing_update_message.py\<close>) and the notifications of a relay
  (\<open>messages/bloxroute/notification_message.py\<close>, \<open>models/notification_code.py\<close>).

  A route is the text of a node id; reading an id of zeros gives \<open>None\<close>. The text of a notification is its
  UTF-8 bytes.
\<close>

subsection \<open>Routing updates\<close>

record routing_message = broadcast +
  rm_origin_node_id :: "string option"
  rm_forwarding_node_id :: "string option"
  rm_routing_update_id :: "object_hash option"
  rm_routing_update :: "string option list option"

definition routing_blank :: routing_message where
  "routing_blank =
     \<lparr>msg_buf = [], msg_type_field = None, payload_len_field = None, payload_field = None, msg_priority = False,
      bm_hash = None, bm_network_num = None, bm_source_id = None, bm_message_id = None,
      rm_origin_node_id = None, rm_forwarding_node_id = None, rm_routing_update_id = None, rm_routing_update = None\<rparr>"

abbreviation (input) ALL_NETWORK_NUM :: nat where "ALL_NETWORK_NUM \<equiv> 0"

definition ROUTING_PAYLOAD_LENGTH :: nat where
  "ROUTING_PAYLOAD_LENGTH = BROADCAST_PAYLOAD_LENGTH + NODE_ID_SIZE_IN_BYTES + NODE_ID_SIZE_IN_BYTES + SHA256_HASH_LEN + 4"

definition put_node_id :: "bytes \<Rightarrow> nat \<Rightarrow> string \<Rightarrow> (bytes \<times> nat) result" where
  "put_node_id b off node_id = put_s NODE_ID_SIZE_IN_BYTES b off (uuid_pack_to_bytes node_id)"

definition get_node_id :: "bytes \<Rightarrow> nat \<Rightarrow> (string option \<times> nat) result" where
  "get_node_id b off =
     rbind (unpack_s NODE_ID_SIZE_IN_BYTES b off) (\<lambda>raw. rbind (uuid_pack_from_bytes raw) (\<lambda>r.
       Inr (r, off + NODE_ID_SIZE_IN_BYTES)))"

definition put_routing :: "string \<Rightarrow> string \<Rightarrow> object_hash \<Rightarrow> string list \<Rightarrow> bytes \<Rightarrow> nat \<Rightarrow> (bytes \<times> nat) result" where
  "put_routing origin_node_id forwarding_node_id routing_update_id routing_update b off =
     rbind (put_node_id b off origin_node_id) (\<lambda>(b, off).
     rbind (put_node_id b off forwarding_node_id) (\<lambda>(b, off).
     rbind (put_raw SHA256_HASH_LEN b off (binary routing_update_id)) (\<lambda>(b, off).
     rbind (put_u 4 b off (length routing_update)) (\<lambda>(b, off).
       put_items put_node_id b off routing_update))))"

definition RoutingUpdateMessage_init ::
    "object_hash option \<Rightarrow> string \<Rightarrow> string option \<Rightarrow> string option \<Rightarrow> object_hash option \<Rightarrow> string list option \<Rightarrow>
     bytes option \<Rightarrow> routing_message result" where
  "RoutingUpdateMessage_init message_hash source_id origin_node_id forwarding_node_id routing_update_id routing_update buf =
     (let payload_len = ROUTING_PAYLOAD_LENGTH
                        + (case routing_update of None \<Rightarrow> 0 | Some r \<Rightarrow> length r * NODE_ID_SIZE_IN_BYTES)
      in rbind (AbstractBroadcastMessage_init (MESSAGE_TYPE RoutingUpdateMessageClass) payload_len message_hash
                  (Some ALL_NETWORK_NUM) (Some source_id) buf routing_blank) (\<lambda>m.
           if buf \<noteq> None then Inr m
           else rbind (opt_or AssertionError origin_node_id) (\<lambda>origin.
                rbind (opt_or AssertionError routing_update) (\<lambda>routes.
                rbind (opt_or AssertionError forwarding_node_id) (\<lambda>forwarding.
                rbind (opt_or AssertionError routing_update_id) (\<lambda>update_id.
                rbind (put_routing origin forwarding update_id routes (msg_buf m) PAYLOAD_START_OFFSET) (\<lambda>(b, _).
                  Inr (m\<lparr>msg_buf := b\<rparr>))))))))"

text \<open>A missing id is stored as \<open>None\<close> again, so the accessor fails each time it is called.\<close>

definition RoutingUpdateMessage_origin_node_id :: "routing_message \<Rightarrow> (string \<times> routing_message) result" where
  "RoutingUpdateMessage_origin_node_id m =
     (case rm_origin_node_id m of
        Some s \<Rightarrow> Inr (s, m)
      | None \<Rightarrow> rbind (get_node_id (msg_buf m) PAYLOAD_START_OFFSET) (\<lambda>(r, _).
                rbind (opt_or AssertionError r) (\<lambda>s. Inr (s, m\<lparr>rm_origin_node_id := Some s\<rparr>))))"

definition RoutingUpdateMessage_forwarding_node_id :: "routing_message \<Rightarrow> (string \<times> routing_message) result" where
  "RoutingUpdateMessage_forwarding_node_id m =
     (case rm_forwarding_node_id m of
        Some s \<Rightarrow> Inr (s, m)
      | None \<Rightarrow> rbind (get_node_id (msg_buf m) (PAYLOAD_START_OFFSET + NODE_ID_SIZE_IN_BYTES)) (\<lambda>(r, _).
                rbind (opt_or AssertionError r) (\<lambda>s. Inr (s, m\<lparr>rm_forwarding_node_id := Some s\<rparr>))))"

definition RoutingUpdateMessage_routing_update_id :: "routing_message \<Rightarrow> (object_hash \<times> routing_message) result" where
  "RoutingUpdateMessage_routing_update_id m =
     (case rm_routing_update_id m of
        Some h \<Rightarrow> Inr (h, m)
      | None \<Rightarrow>
          let off = PAYLOAD_START_OFFSET + 2 * NODE_ID_SIZE_IN_BYTES
          in rbind (Sha256Hash_init (bslice off (off + SHA256_HASH_LEN) (msg_buf m))) (\<lambda>h.
               Inr (h, m\<lparr>rm_routing_update_id := Some h\<rparr>)))"

definition RoutingUpdateMessage_routing_update :: "routing_message \<Rightarrow> (string option list \<times> routing_message) result" where
  "RoutingUpdateMessage_routing_update m =
     (case rm_routing_update m of
        Some r \<Rightarrow> Inr (r, m)
      | None \<Rightarrow>
          rbind (get_u 4 (msg_buf m) (PAYLOAD_START_OFFSET + 2 * NODE_ID_SIZE_IN_BYTES + SHA256_HASH_LEN)) (\<lambda>(route_count, off).
          rbind (get_items get_node_id (msg_buf m) off route_count) (\<lambda>(routes, _).
            Inr (routes, m\<lparr>rm_routing_update := Some routes\<rparr>))))"

subsection \<open>Notifications\<close>

record notification = message +
  nm_raw :: "bytes option"
  nm_notification_code :: "nat option"

definition notification_blank :: notification where
  "notification_blank =
     \<lparr>msg_buf = [], msg_type_field = None, payload_len_field = None, payload_field = None, msg_priority = False,
      nm_raw = None, nm_notification_code = None\<rparr>"

text \<open>\<open>len\<close> of a text counts its characters, that is the bytes that do not continue one.\<close>

definition text_len :: "bytes \<Rightarrow> nat" where
  "text_len raw = length (filter (\<lambda>b. \<not> utf8_tail b) raw)"

definition NOTIFICATION_BASE_LENGTH :: nat where "NOTIFICATION_BASE_LENGTH = HEADER_LENGTH + 2 + CONTROL_FLAGS_LEN"

definition NotificationMessage_init :: "nat option \<Rightarrow> bytes option \<Rightarrow> bytes option \<Rightarrow> notification result" where
  "NotificationMessage_init notification_code raw buf =
     rbind (case buf of
              Some b \<Rightarrow> Inr (b, length b)
            | None \<Rightarrow>
                let buffer_len = NOTIFICATION_BASE_LENGTH + (case raw of None \<Rightarrow> 0 | Some t \<Rightarrow> text_len t)
                in rbind (opt_or StructError notification_code) (\<lambda>c.
                   rbind (put_u 2 (replicate buffer_len 0) HEADER_LENGTH c) (\<lambda>(b, off).
                     Inr (case raw of None \<Rightarrow> b | Some t \<Rightarrow> slice_assign off (off + length t) t b, buffer_len))))
       (\<lambda>(b, buffer_len).
          AbstractBloxrouteMessage_init (MESSAGE_TYPE NotificationMessage) (buffer_len - HEADER_LENGTH)
            (notification_blank\<lparr>msg_buf := b\<rparr>))"

text \<open>Members of \<open>NotificationCode\<close> are integers; a code without a member is kept as the integer it is.\<close>

definition NotificationMessage_unpack :: "notification \<Rightarrow> notification result" where
  "NotificationMessage_unpack m =
     rbind (get_u 2 (msg_buf m) HEADER_LENGTH) (\<lambda>(c, off).
     rbind (AbstractInternalMessage_payload_len m) (\<lambda>(n, m').
     rbind (utf8_decode (bslice off (HEADER_LENGTH + n - CONTROL_FLAGS_LEN) (msg_buf m'))) (\<lambda>t.
       Inr (m'\<lparr>nm_notification_code := Some c, nm_raw := Some t\<rparr>))))"

definition NotificationMessage_notification_code :: "notification \<Rightarrow> (nat \<times> notification) result" where
  "NotificationMessage_notification_code = unpacked_field NotificationMessage_unpack nm_notification_code"

definition NotificationMessage_raw_message :: "notification \<Rightarrow> (bytes \<times> notification) result" where
  "NotificationMessage_raw_message = unpacked_field NotificationMessage_unpack nm_raw"

datatype LogLevel = CRITICAL | ERROR | WARNING | STATS | INFO | DEBUG | TRACE | NOTSET

definition NotificationMessage_level :: "notification \<Rightarrow> (LogLevel \<times> notification) result" where
  "NotificationMessage_level m =
     rbind (unpacked_field NotificationMessage_unpack nm_notification_code m) (\<lambda>(c, m').
       Inr (if c < 2000 then DEBUG else if c < 4000 then INFO else if c < 6000 then WARNING else ERROR, m'))"

subsection \<open>What a routing update carries\<close>

text \<open>The id a node finds where another one has written \<open>s\<close>: \<open>None\<close> when \<open>s\<close> is not the text of an id.\<close>

definition id_read :: "string \<Rightarrow> string option" where
  "id_read s = (case uuid_pack_from_bytes (uuid_pack_to_bytes s) of Inr r \<Rightarrow> r | Inl _ \<Rightarrow> None)"

lemma id_read_ok: "uuid_pack_from_bytes (uuid_pack_to_bytes s) = Inr (id_read s)"
  using uuid_from_16[of "uuid_pack_to_bytes s"] by (auto simp: id_read_def)

text \<open>The ids nodes have are the texts of non-zero 16-byte values.\<close>

definition printed_id :: "string \<Rightarrow> bool" where
  "printed_id s \<longleftrightarrow> (\<exists>b. length b = 16 \<and> rstrip0 b \<noteq> [] \<and> uuid_str b = Inr s)"

lemma id_read_printed: "printed_id s \<Longrightarrow> id_read s = Some s"
proof -
  assume "printed_id s"
  then obtain b where b: "length b = 16" "rstrip0 b \<noteq> []" "uuid_str b = Inr s" unfolding printed_id_def by blast
  obtain s' where s': "uuid_pack_from_bytes b = Inr (Some s')" "uuid_pack_to_bytes s' = b"
    using uuid_round_trip[OF b(1,2)] by blast
  moreover have "uuid_pack_from_bytes b = Inr (Some s)" using b by (auto simp: uuid_pack_from_bytes_def rstrip0_def)
  ultimately show ?thesis by (simp add: id_read_def)
qed

lemma id_read_unparsable: "uuid_parse s = Inl e \<Longrightarrow> id_read s = None"
  using uuid_empty by (simp add: id_read_def uuid_pack_to_bytes_def EMPTY_SOURCE_ID_def)

lemma writes_node_id: "writes (\<lambda>b o'. put_node_id b o' s) (uuid_pack_to_bytes s)"
  using writes_s[of 16 "uuid_pack_to_bytes s"] by (simp add: put_node_id_def pad_to_def)

lemma reads_node_id: "reads get_node_id (uuid_pack_to_bytes s) (id_read s)"
  by (simp add: reads_def get_node_id_def unpack_s_def bslice_skip bslice_def id_read_ok)

definition routing_enc :: "string \<Rightarrow> string \<Rightarrow> bytes \<Rightarrow> string list \<Rightarrow> bytes" where
  "routing_enc origin forwarding u routes =
     uuid_pack_to_bytes origin @ uuid_pack_to_bytes forwarding @ u @ le_bytes 4 (length routes) @ concat (map uuid_pack_to_bytes routes)"

lemma length_ids: "length (concat (map uuid_pack_to_bytes routes)) = 16 * length routes"
  by (induction routes) simp_all

lemma routing_enc_length: "length u = 32 \<Longrightarrow> length (routing_enc origin forwarding u routes) = 68 + 16 * length routes"
  by (simp add: routing_enc_def length_ids)

lemma fills_routing:
  assumes "length (binary u) = 32" and "length routes < 256 ^ 4"
  shows "fills (put_routing origin forwarding u routes) (routing_enc origin forwarding (binary u) routes)"
  unfolding put_routing_def routing_enc_def
  by (intro fills_seq writes_fills[OF writes_node_id] writes_fills[OF writes_raw] writes_fills[OF writes_u] fills_items)
    (use assms in \<open>simp_all add: SHA256_HASH_LEN_def\<close>)

definition routing_object :: "bytes \<Rightarrow> bytes \<Rightarrow> bytes \<Rightarrow> routing_message" where
  "routing_object h src e = payload_object (MESSAGE_TYPE RoutingUpdateMessageClass) (broadcast_head h 0 src @ e) routing_blank"

lemma routing_init_new:
  assumes "length (binary h) = 32" and "length (binary u) = 32" and "121 + 16 * length routes < 256 ^ 4"
  shows "RoutingUpdateMessage_init (Some h) src (Some origin) (Some forwarding) (Some u) (Some routes) None
    = Inr (routing_object (binary h) (uuid_pack_to_bytes src) (routing_enc origin forwarding (binary u) routes))"
proof -
  let ?ty = "MESSAGE_TYPE RoutingUpdateMessageClass" and ?k = "68 + 16 * length routes"
  let ?e = "routing_enc origin forwarding (binary u) routes"
  let ?head = "broadcast_head (binary h) 0 (uuid_pack_to_bytes src)"
  let ?pre = "STARTING_SEQUENCE_BYTES @ pad_to 12 ?ty @ le_bytes 4 (53 + ?k) @ ?head"
  have len: "length ?e = ?k" by (rule routing_enc_length[OF assms(2)])
  have pre: "length ?pre = 72" using assms(1) by (simp add: broadcast_head_def)
  have init: "AbstractBroadcastMessage_init ?ty (53 + ?k) (Some h) (Some 0) (Some src) None routing_blank
      = Inr (routing_blank\<lparr>msg_buf := frame ?ty (?head @ replicate ?k 0 @ [1]), msg_type_field := Some ?ty,
               payload_len_field := Some (53 + ?k), payload_field := None, msg_priority := False\<rparr>)"
    by (rule broadcast_init_new) (use assms in simp_all)
  have fr: "frame ?ty (?head @ replicate ?k 0 @ [1]) = ?pre @ replicate (length ?e) 0 @ [1]"
    using assms(1) unfolding len by (simp add: frame_def broadcast_head_def ac_simps)
  have "put_routing origin forwarding u routes (?pre @ replicate (length ?e) 0 @ [1]) (length ?pre)
      = Inr (?pre @ ?e @ [1], length ?pre + length ?e)"
    by (rule fillsD[OF fills_routing]) (use assms in simp_all)
  moreover have "?pre @ ?e @ [1] = frame ?ty ((?head @ ?e) @ [1])"
    using len assms(1) by (simp add: frame_def broadcast_head_def ac_simps)
  ultimately have put: "put_routing origin forwarding u routes (frame ?ty (?head @ replicate ?k 0 @ [1])) 72
      = Inr (frame ?ty ((?head @ ?e) @ [1]), 72 + length ?e)"
    unfolding fr pre by simp
  have pl: "ROUTING_PAYLOAD_LENGTH + length routes * 16 = 53 + ?k" by (simp add: ROUTING_PAYLOAD_LENGTH_def SHA256_HASH_LEN_def)
  have bl: "length (?head @ ?e) + 1 = 53 + ?k" using len assms(1) by (simp add: broadcast_head_def)
  show ?thesis
    unfolding RoutingUpdateMessage_init_def Let_def option.case pl init routing_object_def payload_object_def bl
    using put by (simp add: opt_or_def routing_blank_def)
qed

lemma routing_init_parse:
  assumes "length h = 32" and "length src = 16" and "53 + length e < 256 ^ 4"
  shows "RoutingUpdateMessage_init None [] None None None None (Some (msg_buf (routing_object h src e))) = Inr (routing_object h src e)"
proof -
  let ?ty = "MESSAGE_TYPE RoutingUpdateMessageClass" and ?body = "broadcast_head h 0 src @ e"
  let ?h = "STARTING_SEQUENCE_BYTES @ pad_to 12 ?ty @ le_bytes 4 (length (?body @ [1]))"
  have "finish_message ?ty routing_blank (?h @ ?body @ [1]) = Inr (payload_object ?ty ?body routing_blank)"
    by (rule finish_payload) (use assms in \<open>simp_all add: broadcast_head_def\<close>)
  moreover have "msg_buf (routing_object h src e) = ?h @ ?body @ [1]" by (simp add: routing_object_def payload_object_def frame_def)
  ultimately show ?thesis
    unfolding RoutingUpdateMessage_init_def AbstractBroadcastMessage_init_def Let_def option.case finish_message_def
    by (simp add: routing_object_def)
qed

lemma routing_object_fields:
  assumes "length h = 32" and "length src = 16" and "length u = 32" and "length routes < 256 ^ 4"
    and "m = routing_object h src (routing_enc origin forwarding u routes)"
  shows "get_node_id (msg_buf m) 72 = Inr (id_read origin, 88)"
    and "get_node_id (msg_buf m) 88 = Inr (id_read forwarding, 104)"
    and "bslice 104 136 (msg_buf m) = u"
    and "get_u 4 (msg_buf m) 136 = Inr (length routes, 140)"
    and "get_items get_node_id (msg_buf m) 140 (length routes) = Inr (map id_read routes, 140 + 16 * length routes)"
proof -
  let ?ty = "MESSAGE_TYPE RoutingUpdateMessageClass"
  let ?o = "uuid_pack_to_bytes origin" and ?f = "uuid_pack_to_bytes forwarding" and ?n = "le_bytes 4 (length routes)"
  let ?r = "concat (map uuid_pack_to_bytes routes)" and ?head = "broadcast_head h 0 src"
  have b: "msg_buf m = frame ?ty (?head @ ?o @ ?f @ u @ ?n @ ?r @ [1])"
    by (simp add: assms(5) routing_object_def payload_object_def routing_enc_def)
  have l: "length ?head = 52" by (rule length_broadcast_head[OF assms(1,2)])
  show "get_node_id (msg_buf m) 72 = Inr (id_read origin, 88)"
    using read_behind[OF reads_node_id[of origin], of ?ty ?head "?f @ u @ ?n @ ?r @ [1]"] l b by simp
  show "get_node_id (msg_buf m) 88 = Inr (id_read forwarding, 104)"
    using read_behind[OF reads_node_id[of forwarding], of ?ty "?head @ ?o" "u @ ?n @ ?r @ [1]"] l b by simp
  show "bslice 104 136 (msg_buf m) = u"
    using read_behind[OF reads_raw[of u 32], of ?ty "?head @ ?o @ ?f" "?n @ ?r @ [1]"] l b assms(3) by (simp add: get_raw_def)
  show "get_u 4 (msg_buf m) 136 = Inr (length routes, 140)"
    using read_behind[OF reads_u[OF assms(4)], of ?ty "?head @ ?o @ ?f @ u" "?r @ [1]"] l b assms(3) by simp
  have "reads (\<lambda>b o'. get_items get_node_id b o' (length routes)) ?r (map id_read routes)"
    by (rule reads_items) (rule reads_node_id)
  from read_behind[OF this, of ?ty "?head @ ?o @ ?f @ u @ ?n" "[1]"]
  show "get_items get_node_id (msg_buf m) 140 (length routes) = Inr (map id_read routes, 140 + 16 * length routes)"
    using l b assms(3) by (simp add: length_ids)
qed

text \<open>
  C38. A routing update that is built from printed node ids and parsed from its bytes gives the hash, the source,
  the network number 0, both node ids, the id of the update and all routes in their order.
\<close>
theorem routing_round_trip:
  assumes "length (binary h) = 32" and "length (binary u) = 32" and "121 + 16 * length routes < 256 ^ 4"
    and "printed_id src" and "printed_id origin" and "printed_id forwarding" and "list_all printed_id routes"
  shows "\<exists>m. RoutingUpdateMessage_init (Some h) src (Some origin) (Some forwarding) (Some u) (Some routes) None = Inr m
    \<and> RoutingUpdateMessage_init None [] None None None None (Some (msg_buf m)) = Inr m
    \<and> rbind (value_of (AbstractBroadcastMessage_message_hash m)) (\<lambda>x. Inr (binary x)) = Inr (binary h)
    \<and> value_of (AbstractBroadcastMessage_network_num m) = Inr ALL_NETWORK_NUM
    \<and> value_of (AbstractBroadcastMessage_source_id m) = Inr src
    \<and> value_of (RoutingUpdateMessage_origin_node_id m) = Inr origin
    \<and> value_of (RoutingUpdateMessage_forwarding_node_id m) = Inr forwarding
    \<and> rbind (value_of (RoutingUpdateMessage_routing_update_id m)) (\<lambda>x. Inr (binary x)) = Inr (binary u)
    \<and> value_of (RoutingUpdateMessage_routing_update m) = Inr (map Some routes)"
proof -
  let ?s = "uuid_pack_to_bytes src" and ?e = "routing_enc origin forwarding (binary u) routes"
  define m where "m = routing_object (binary h) ?s ?e"
  have blank: "fresh_broadcast m" "rm_origin_node_id m = None" "rm_forwarding_node_id m = None" "rm_routing_update_id m = None"
    "rm_routing_update m = None"
    by (simp_all add: m_def routing_object_def payload_object_def routing_blank_def fresh_broadcast_def)
  have ids: "id_read origin = Some origin" "id_read forwarding = Some forwarding" "map id_read routes = map Some routes"
    using assms(5-7) by (auto simp: id_read_printed list_all_iff)
  have src: "source_of ?s = src" using id_read_printed[OF assms(4)] id_read_ok[of src] by (simp add: source_of_def)
  have buf: "msg_buf m = frame (MESSAGE_TYPE RoutingUpdateMessageClass) (broadcast_head (binary h) 0 ?s @ ?e @ [1])"
    by (simp add: m_def routing_object_def payload_object_def)
  have n: "length routes < 256 ^ 4" using assms(3) by simp
  note head = broadcast_fields[OF blank(1) buf assms(1) _ length_uuid_pack_to_bytes]
  note fields = routing_object_fields[OF assms(1) length_uuid_pack_to_bytes assms(2) n m_def]
  have "RoutingUpdateMessage_init None [] None None None None (Some (msg_buf m)) = Inr m"
    unfolding m_def by (rule routing_init_parse) (use assms routing_enc_length[OF assms(2)] in simp_all)
  moreover note routing_init_new[OF assms(1-3), of src origin forwarding, folded m_def]
  moreover have "rbind (value_of (AbstractBroadcastMessage_message_hash m)) (\<lambda>x. Inr (binary x)) = Inr (binary h)"
    "value_of (AbstractBroadcastMessage_network_num m) = Inr 0" "value_of (AbstractBroadcastMessage_source_id m) = Inr src"
    by (simp_all add: head value_of_def src)
  moreover have "value_of (RoutingUpdateMessage_origin_node_id m) = Inr origin"
    "value_of (RoutingUpdateMessage_forwarding_node_id m) = Inr forwarding"
    using fields(1,2) ids by (simp_all add: RoutingUpdateMessage_origin_node_id_def RoutingUpdateMessage_forwarding_node_id_def
        blank value_of_def opt_or_def)
  moreover have "rbind (value_of (RoutingUpdateMessage_routing_update_id m)) (\<lambda>x. Inr (binary x)) = Inr (binary u)"
    using fields(3) assms(2) by (simp add: RoutingUpdateMessage_routing_update_id_def blank value_of_def SHA256_HASH_LEN_def
        Sha256Hash_init_ok)
  moreover have "value_of (RoutingUpdateMessage_routing_update m) = Inr (map Some routes)"
    using fields(4,5) ids by (simp add: RoutingUpdateMessage_routing_update_def blank value_of_def SHA256_HASH_LEN_def)
  ultimately show ?thesis by (intro exI conjI)
qed

definition example_id :: string where "example_id = ''00000000-0000-0000-0000-000000000001''"

lemma example_id_printed: "printed_id example_id"
  unfolding printed_id_def by (rule exI[of _ "replicate 15 0 @ [1]"]) code_simp

theorem routing_round_trip_witness:
  "\<exists>m. RoutingUpdateMessage_init (Some \<lparr>binary = replicate 32 7, hash_value = 0\<rparr>) example_id (Some example_id) (Some example_id)
         (Some \<lparr>binary = replicate 32 9, hash_value = 0\<rparr>) (Some [example_id, example_id]) None = Inr m
    \<and> value_of (RoutingUpdateMessage_routing_update m) = Inr [Some example_id, Some example_id]"
  using routing_round_trip[of "\<lparr>binary = replicate 32 7, hash_value = 0\<rparr>" "\<lparr>binary = replicate 32 9, hash_value = 0\<rparr>"
      "[example_id, example_id]" example_id example_id example_id] example_id_printed by auto

text \<open>An id that is not the text of a uuid is written as zeros: the reader of the origin fails and a route is \<open>None\<close>.\<close>

lemma bad_ids_are_lost:
  assumes "length (binary h) = 32" and "length (binary u) = 32" and "121 + 16 * length routes < 256 ^ 4"
    and "uuid_parse origin = Inl e" and "list_all (\<lambda>r. uuid_parse r = Inl ValueError) routes"
  shows "\<exists>m. RoutingUpdateMessage_init (Some h) src (Some origin) (Some forwarding) (Some u) (Some routes) None = Inr m
    \<and> RoutingUpdateMessage_origin_node_id m = Inl AssertionError
    \<and> value_of (RoutingUpdateMessage_routing_update m) = Inr (replicate (length routes) None)"
proof -
  let ?e = "routing_enc origin forwarding (binary u) routes"
  define m where "m = routing_object (binary h) (uuid_pack_to_bytes src) ?e"
  have blank: "rm_origin_node_id m = None" "rm_routing_update m = None"
    by (simp_all add: m_def routing_object_def payload_object_def routing_blank_def)
  have ids: "id_read origin = None" "map id_read routes = replicate (length routes) None"
    using assms(4,5) by (auto simp: id_read_unparsable list_all_iff simp flip: map_replicate_const)
  have n: "length routes < 256 ^ 4" using assms(3) by simp
  note fields = routing_object_fields[OF assms(1) length_uuid_pack_to_bytes assms(2) n m_def]
  have "RoutingUpdateMessage_origin_node_id m = Inl AssertionError"
    using fields(1) ids by (simp add: RoutingUpdateMessage_origin_node_id_def blank opt_or_def)
  moreover have "value_of (RoutingUpdateMessage_routing_update m) = Inr (replicate (length routes) None)"
    using fields(4,5) ids by (simp add: RoutingUpdateMessage_routing_update_def blank value_of_def SHA256_HASH_LEN_def)
  moreover note routing_init_new[OF assms(1-3), of src origin forwarding, folded m_def]
  ultimately show ?thesis by (intro exI conjI)
qed

subsection \<open>What a notification carries\<close>

lemma ascii_no_tail: "b < 0x80 \<Longrightarrow> \<not> utf8_tail b"
  by (auto simp: utf8_tail_def)

lemma text_len_ascii: "list_all (\<lambda>b. b < 0x80) t \<Longrightarrow> text_len t = length t"
  by (induction t) (auto simp: text_len_def ascii_no_tail)

lemma notification_init_new:
  assumes "c < 256 ^ 2" and "text_len t = length t" and "3 + length t < 256 ^ 4"
  shows "NotificationMessage_init (Some c) (Some t) None
    = Inr (payload_object (MESSAGE_TYPE NotificationMessage) (le_bytes 2 c @ t) notification_blank)"
proof -
  let ?n = "20 + length (le_bytes 2 c @ t) + 1"
  have z: "replicate ?n (0 :: byte) = replicate 20 0 @ replicate 2 0 @ replicate (length t) 0 @ [0]"
    by (simp only: replicate_add append_assoc length_append length_le_bytes) simp
  have p: "put_u 2 (replicate ?n 0) 20 c = Inr (replicate 20 0 @ le_bytes 2 c @ replicate (length t) 0 @ [0], 22)"
    using fillsD[OF writes_fills[OF writes_u[OF assms(1)]], of "replicate 20 0" "replicate (length t) 0 @ [0]"] unfolding z by simp
  have a: "slice_assign 22 (22 + length t) t (replicate 20 0 @ le_bytes 2 c @ replicate (length t) 0 @ [0])
      = replicate 20 0 @ (le_bytes 2 c @ t) @ [0]"
    by (simp add: slice_assign_def)
  have f: "finish_message (MESSAGE_TYPE NotificationMessage) notification_blank (replicate 20 0 @ (le_bytes 2 c @ t) @ [0])
      = Inr (payload_object (MESSAGE_TYPE NotificationMessage) (le_bytes 2 c @ t) notification_blank)"
    by (rule finish_payload) (use assms(3) in simp_all)
  have l: "NOTIFICATION_BASE_LENGTH + text_len t = ?n" using assms(2) by (simp add: NOTIFICATION_BASE_LENGTH_def)
  show ?thesis
    unfolding NotificationMessage_init_def Let_def option.case l
    using p a f[unfolded finish_message_def] by (simp add: opt_or_def)
qed

lemma notification_unpack_object:
  assumes "c < 256 ^ 2" and "utf8_valid t"
    and "m = payload_object (MESSAGE_TYPE NotificationMessage) (le_bytes 2 c @ t) notification_blank"
  shows "NotificationMessage_unpack m = Inr (m\<lparr>nm_notification_code := Some c, nm_raw := Some t\<rparr>)"
proof -
  let ?ty = "MESSAGE_TYPE NotificationMessage"
  have b: "msg_buf m = frame ?ty (le_bytes 2 c @ t @ [1])" by (simp add: assms(3) payload_object_def)
  have "get_u 2 (msg_buf m) 20 = Inr (c, 22)" using read_payload[OF reads_u[OF assms(1)], of ?ty "t @ [1]"] b by simp
  moreover have "AbstractInternalMessage_payload_len m = Inr (3 + length t, m)"
    using payload_object_raw(1)[of ?ty "le_bytes 2 c @ t" notification_blank] assms(3) by simp
  moreover have "bslice 22 (22 + length t) (msg_buf m) = t"
    using read_behind[OF reads_raw[OF refl, of t], of ?ty "le_bytes 2 c" "[1]"] b by (simp add: get_raw_def)
  ultimately show ?thesis using assms(2) by (simp add: NotificationMessage_unpack_def utf8_decode_def)
qed

text \<open>
  A notification with a text of ASCII characters gives, after being parsed from its bytes, its code, the
  level of its code and its text.
\<close>
theorem notification_round_trip:
  assumes "c < 256 ^ 2" and "list_all (\<lambda>b. b < 0x80) t" and "3 + length t < 256 ^ 4"
  shows "\<exists>m. NotificationMessage_init (Some c) (Some t) None = Inr m
    \<and> NotificationMessage_init None None (Some (msg_buf m)) = Inr m
    \<and> value_of (NotificationMessage_notification_code m) = Inr c \<and> value_of (NotificationMessage_raw_message m) = Inr t
    \<and> value_of (NotificationMessage_level m)
        = Inr (if c < 2000 then DEBUG else if c < 4000 then INFO else if c < 6000 then WARNING else ERROR)"
proof -
  let ?ty = "MESSAGE_TYPE NotificationMessage"
  define m where "m = payload_object ?ty (le_bytes 2 c @ t) notification_blank"
  have blank: "nm_notification_code m = None" "nm_raw m = None" by (simp_all add: m_def payload_object_def notification_blank_def)
  note unpack = notification_unpack_object[OF assms(1) utf8_ascii[OF assms(2)] m_def]
  let ?h = "STARTING_SEQUENCE_BYTES @ pad_to 12 ?ty @ le_bytes 4 (length (le_bytes 2 c @ t @ [1]))"
  have "msg_buf m = ?h @ (le_bytes 2 c @ t) @ [1]" by (simp add: m_def payload_object_def frame_def)
  moreover have "finish_message ?ty notification_blank (?h @ (le_bytes 2 c @ t) @ [1]) = Inr m"
    unfolding m_def by (rule finish_payload) (use assms in simp_all)
  ultimately have "NotificationMessage_init None None (Some (msg_buf m)) = Inr m"
    by (simp add: NotificationMessage_init_def finish_message_def)
  moreover have "NotificationMessage_init (Some c) (Some t) None = Inr m"
    unfolding m_def by (rule notification_init_new[OF assms(1) text_len_ascii[OF assms(2)] assms(3)])
  moreover have "value_of (NotificationMessage_notification_code m) = Inr c" "value_of (NotificationMessage_raw_message m) = Inr t"
    unfolding NotificationMessage_notification_code_def NotificationMessage_raw_message_def
    by (simp_all add: unpacked_field_def unpack blank opt_or_def value_of_def)
  moreover have "value_of (NotificationMessage_level m)
      = Inr (if c < 2000 then DEBUG else if c < 4000 then INFO else if c < 6000 then WARNING else ERROR)"
    using unpack blank by (simp add: NotificationMessage_level_def unpacked_field_def opt_or_def value_of_def)
  ultimately show ?thesis by (intro exI conjI)
qed

theorem notification_round_trip_witness:
  "\<exists>m. NotificationMessage_init (Some 4003) (Some [0x6F, 0x6B]) None = Inr m
    \<and> value_of (NotificationMessage_raw_message m) = Inr [0x6F, 0x6B] \<and> value_of (NotificationMessage_level m) = Inr WARNING"
  using notification_round_trip[of 4003 "[0x6F, 0x6B]"] by auto

lemma notification_init_long:
  assumes "c < 256 ^ 2" and "text_len t < length t" and "3 + text_len t < 256 ^ 4"
  shows "NotificationMessage_init (Some c) (Some t) None
    = Inr (notification_blank\<lparr>msg_buf := STARTING_SEQUENCE_BYTES @ pad_to 12 (MESSAGE_TYPE NotificationMessage)
             @ le_bytes 4 (3 + text_len t) @ mark_valid (le_bytes 2 c @ t),
           msg_type_field := Some (MESSAGE_TYPE NotificationMessage), payload_len_field := Some (3 + text_len t),
           payload_field := None, msg_priority := False\<rparr>)"
proof -
  let ?z = "replicate (text_len t + 1) (0 :: byte)"
  have n: "NOTIFICATION_BASE_LENGTH + text_len t = 20 + (2 + (text_len t + 1))" by (simp add: NOTIFICATION_BASE_LENGTH_def)
  have z: "replicate (20 + (2 + (text_len t + 1))) 0 = replicate 20 0 @ replicate 2 0 @ ?z" by (simp only: replicate_add append_assoc)
  have "put_u 2 (replicate 20 0 @ replicate 2 0 @ ?z) 20 c = Inr (replicate 20 0 @ le_bytes 2 c @ ?z, 22)"
    using fillsD[OF writes_fills[OF writes_u[OF assms(1)]], of "replicate 20 0" ?z] by (simp only: length_replicate length_le_bytes) simp
  moreover have "slice_assign 22 (22 + length t) t (replicate 20 0 @ le_bytes 2 c @ ?z) = replicate 20 0 @ le_bytes 2 c @ t"
    using assms(2) by (simp add: slice_assign_def del: replicate_Suc replicate.simps)
  moreover have "AbstractBloxrouteMessage_init (MESSAGE_TYPE NotificationMessage) (3 + text_len t)
      (notification_blank\<lparr>msg_buf := replicate 20 0 @ le_bytes 2 c @ t\<rparr>)
    = Inr ((notification_blank\<lparr>msg_buf := replicate 20 0 @ le_bytes 2 c @ t\<rparr>)\<lparr>msg_buf := STARTING_SEQUENCE_BYTES
             @ pad_to 12 (MESSAGE_TYPE NotificationMessage) @ le_bytes 4 (3 + text_len t) @ mark_valid (le_bytes 2 c @ t),
           msg_type_field := Some (MESSAGE_TYPE NotificationMessage), payload_len_field := Some (3 + text_len t),
           payload_field := None, msg_priority := False\<rparr>)"
    by (rule init_frame[of _ "replicate 20 0"]) (use assms in auto)
  ultimately show ?thesis
    unfolding NotificationMessage_init_def Let_def option.case n z by (simp add: opt_or_def)
qed

text \<open>
  The buffer is as long as the text has characters, but its bytes are written: a text with a character of
  several bytes makes the buffer longer than its header says and never reads back, not even on the object
  that was built.
\<close>
theorem longer_text_is_cut:
  assumes "c < 256 ^ 2" and "text_len t < length t" and "3 + text_len t < 256 ^ 4"
  shows "\<exists>m. NotificationMessage_init (Some c) (Some t) None = Inr m
    \<and> AbstractInternalMessage_payload_len m = Inr (3 + text_len t, m) \<and> length (msg_buf m) = 22 + length t
    \<and> value_of (NotificationMessage_raw_message m) \<noteq> Inr t"
proof (intro exI conjI)
  let ?m = "notification_blank\<lparr>msg_buf := STARTING_SEQUENCE_BYTES @ pad_to 12 (MESSAGE_TYPE NotificationMessage)
      @ le_bytes 4 (3 + text_len t) @ mark_valid (le_bytes 2 c @ t),
    msg_type_field := Some (MESSAGE_TYPE NotificationMessage), payload_len_field := Some (3 + text_len t),
    payload_field := None, msg_priority := False\<rparr>"
  show "NotificationMessage_init (Some c) (Some t) None = Inr ?m" by (rule notification_init_long[OF assms])
  show n: "AbstractInternalMessage_payload_len ?m = Inr (3 + text_len t, ?m)" by (simp add: AbstractInternalMessage_payload_len_def)
  show "length (msg_buf ?m) = 22 + length t" using assms(2) by (simp add: mark_valid_def)
  have "nm_raw ?m = None" by (simp add: notification_blank_def)
  then have "length r \<le> text_len t" if "value_of (NotificationMessage_raw_message ?m) = Inr r" for r
    using that n
    by (auto simp: NotificationMessage_raw_message_def unpacked_field_def NotificationMessage_unpack_def value_of_def opt_or_def
        utf8_decode_def bslice_def get_u_def unpack_from_def split: if_splits)
  then show "value_of (NotificationMessage_raw_message ?m) \<noteq> Inr t" using assms(2) by (auto simp: not_less[symmetric])
qed

theorem longer_text_is_cut_witness:
  "\<exists>m. NotificationMessage_init (Some 4003) (Some [0xE2, 0x82, 0xAC]) None = Inr m
    \<and> value_of (NotificationMessage_raw_message m) \<noteq> Inr [0xE2, 0x82, 0xAC]"
  using longer_text_is_cut[of 4003 "[0xE2, 0x82, 0xAC]"] by (auto simp: text_len_def utf8_tail_def)

text \<open>The euro sign: the byte that is sent as the control byte is part of the text and lacks the flag \<open>VALID\<close>.\<close>

lemma euro_sign_invalid:
  "rbind (NotificationMessage_init (Some 4003) (Some [0xE2, 0x82, 0xAC]) None) (\<lambda>m.
     rbind (AbstractInternalMessage_rawbytes m) (\<lambda>(b, _). Inr (last b AND VALID))) = Inr 0"
proof -
  have t: "text_len [0xE2, 0x82, 0xAC] = 1" by (simp add: text_len_def utf8_tail_def)
  show ?thesis
    using notification_init_long[of 4003 "[0xE2, 0x82, 0xAC]", unfolded t]
    by (simp add: AbstractInternalMessage_rawbytes_def AbstractInternalMessage_payload_len_def mark_valid_def butlast_append)
qed

end
