(* ===== verification/Internal_Connection.thy ===== *)
theory Internal_Connection
  imports Connection Connection_Pool Version_Manager Node_Messages
begin

text \<open>
  Connections between bloXroute nodes (\<open>connections/internal_node_connection.py\<close>): the protocol version is
  taken from the hello message of the peer, messages are converted to it when they are sent; and the
  service that sends one message to many connections (\<open>services/broadcast_service.py\<close>).

  Synchronization and the latencies of pings are in \<open>Tx_Sync\<close>. What \<open>rawbytes\<close> caches in a message is
  not followed.
\<close>

subsection \<open>The protocol version\<close>

record internal_connection = connection +
  ic_protocol_version :: nat
  ic_message_factory :: "(bytes \<times> versioned_class) list entry"
  ic_network_num :: "nat option"

definition InternalNodeConnection_set_protocol_version_and_message_factory ::
    "'x internal_connection_scheme \<Rightarrow> bool result \<times> 'x internal_connection_scheme" where
  "InternalNodeConnection_set_protocol_version_and_message_factory c =
     (if flag_in HELLO_RECVD (conn_state c) then (Inr True, c)
      else sbind (on_inputbuf AbstractVersionManager_get_connection_protocol_version c) (\<lambda>v c1.
        if \<not> AbstractVersionManager_is_protocol_supported v
        then sbind (InternalNodeConnection_mark_for_close None c1) (\<lambda>_ c2. (Inr False, c2))
        else let protocol_version = (if v > PROTOCOL_VERSION then PROTOCOL_VERSION else v);
                 c2 = c1\<lparr>ic_protocol_version := protocol_version\<rparr>
             in case AbstractVersionManager_get_message_factory_for_version protocol_version of
                  Inl e \<Rightarrow> (Inl e, c2)
                | Inr f \<Rightarrow> (Inr True, c2\<lparr>ic_message_factory := f\<rparr>)))"

text \<open>The header is read the same way by every factory; the module in place of that of version 22 has no such method.\<close>

definition InternalNodeConnection_pre_process_msg ::
    "'x internal_connection_scheme \<Rightarrow> ConnectionMessagePreview result \<times> 'x internal_connection_scheme" where
  "InternalNodeConnection_pre_process_msg c =
     sbind (InternalNodeConnection_set_protocol_version_and_message_factory c) (\<lambda>success c1.
       if \<not> success
       then (Inr \<lparr>cp_is_full_message = False, cp_should_process_message = True, cp_msg_type = None, cp_payload_len = None\<rparr>, c1)
       else case ic_message_factory c1 of
              ModuleEntry \<Rightarrow> (Inl AttributeErr, c1)
            | FactoryEntry _ \<Rightarrow> AbstractConnection_pre_process_msg c1)"

abbreviation (input) DEFAULT_NETWORK_NUM :: nat where "DEFAULT_NETWORK_NUM \<equiv> 1"

definition peek_broadcast_msg_network_num :: "'x internal_connection_scheme \<Rightarrow> nat result \<times> 'x internal_connection_scheme" where
  "peek_broadcast_msg_network_num c =
     (if ic_protocol_version c = 1 then (Inr DEFAULT_NETWORK_NUM, c) else on_inputbuf BroadcastMessage_peek_network_num c)"

subsection \<open>The handshake\<close>

text \<open>
  \<open>msg_hello\<close> of the class: the base class first, which sends the acknowledgement (no version changes it,
  and the hello message of a peer of version 22 is not parsed), then the network of the peer is compared with that of the node; 0 stands for all networks.
\<close>

definition InternalNodeConnection_msg_hello ::
    "(bytes \<Rightarrow> bool) \<Rightarrow> time \<Rightarrow> (string option \<Rightarrow> (bool \<times> bool) option) \<Rightarrow> nat \<Rightarrow> hello_message
     \<Rightarrow> 'x internal_connection_scheme \<Rightarrow> bool result \<times> 'x internal_connection_scheme" where
  "InternalNodeConnection_msg_hello full now duplicate node_network_num msg c =
     (case HelloMessage_node_id msg of
        Inl e \<Rightarrow> (Inl e, c\<lparr>conn_state := conn_state c OR HELLO_RECVD\<rparr>)
      | Inr (node_id, msg) \<Rightarrow>
          sbind (AbstractConnection_msg_hello full now duplicate InternalNodeConnection_mark_for_close node_id c) (\<lambda>close_other c1.
            if \<not> AbstractConnection_is_alive c1 then (Inr close_other, c1)
            else case VersionMessage_network_num msg of
                   Inl e \<Rightarrow> (Inl e, c1)
                 | Inr (network_num, _) \<Rightarrow>
                     if node_network_num \<noteq> 0 \<and> network_num \<noteq> Some node_network_num
                     then sbind (InternalNodeConnection_mark_for_close None c1) (\<lambda>_ c2. (Inr close_other, c2))
                     else (case AbstractConnection_schedule_pings now (c1\<lparr>ic_network_num := network_num\<rparr>) of
                             Inl e \<Rightarrow> (Inl e, c1\<lparr>ic_network_num := network_num\<rparr>)
                           | Inr c2 \<Rightarrow> (Inr close_other, c2))))"

subsection \<open>Kinds of connections\<close>

definition is_gateway_connection :: "nat \<Rightarrow> bool" where
  "is_gateway_connection connection_type \<longleftrightarrow> flag_in connection_type (CT ''GATEWAY'')"

definition is_external_gateway_connection :: "nat \<Rightarrow> bool" where
  "is_external_gateway_connection connection_type \<longleftrightarrow>
     flag_in connection_type (CT ''EXTERNAL_GATEWAY'') \<or> connection_type = CT ''GATEWAY''"

definition is_internal_gateway_connection :: "nat \<Rightarrow> bool" where
  "is_internal_gateway_connection connection_type \<longleftrightarrow> flag_in connection_type (CT ''INTERNAL_GATEWAY'')"

definition is_relay_connection :: "nat \<Rightarrow> bool" where
  "is_relay_connection connection_type \<longleftrightarrow> flag_in connection_type (CT ''RELAY_ALL'')"

definition is_proxy_connection :: "nat \<Rightarrow> bool" where
  "is_proxy_connection connection_type \<longleftrightarrow> flag_in connection_type (CT ''RELAY_PROXY'')"

subsection \<open>Sending in the version of the peer\<close>

primrec bx_rawbytes :: "bx_msg \<Rightarrow> bytes result" where
  "bx_rawbytes (TxMsg m) = rbind (AbstractInternalMessage_rawbytes m) (\<lambda>(raw, _). Inr raw)"
| "bx_rawbytes (OldTxMsg c m) = rbind (AbstractInternalMessage_rawbytes m) (\<lambda>(raw, _). Inr raw)"
| "bx_rawbytes (BlockMsg m) = rbind (AbstractInternalMessage_rawbytes m) (\<lambda>(raw, _). Inr raw)"
| "bx_rawbytes (BlockMsgV8 m) = rbind (AbstractInternalMessage_rawbytes m) (\<lambda>(raw, _). Inr raw)"
| "bx_rawbytes (OtherMsg c t m) = rbind (AbstractInternalMessage_rawbytes m) (\<lambda>(raw, _). Inr raw)"

text \<open>\<open>enqueue_msg\<close>, on the connection and on the message with its table of converted messages.\<close>

definition enqueue_versioned ::
    "(bytes \<Rightarrow> bool) \<Rightarrow> time \<Rightarrow> (message_converter \<Rightarrow> conversion) \<Rightarrow> bool \<Rightarrow> bx_msg \<times> converted \<Rightarrow> 'x internal_connection_scheme
     \<Rightarrow> unit result \<times> 'x internal_connection_scheme \<times> bx_msg \<times> converted" where
  "enqueue_versioned full now rest prepend s c =
     (if \<not> AbstractConnection_is_alive c then (Inr (), c, s)
      else let (r, s1) = (if ic_protocol_version c < PROTOCOL_VERSION
                          then AbstractVersionManager_convert_message_to_older_version rest (ic_protocol_version c) s
                          else (Inr (fst s), s))
           in case rbind r bx_rawbytes of
                Inl e \<Rightarrow> (Inl e, c, s1)
              | Inr raw \<Rightarrow> (let (u, c1) = AbstractConnection_enqueue_msg_bytes full now raw prepend c in (u, c1, s1)))"

subsection \<open>The broadcast service\<close>

record BroadcastOptions =
  broadcasting_connection :: "nat option"
  prepend_to_queue :: bool
  connection_types :: "nat list"

definition BroadcastOptions_init :: "nat option \<Rightarrow> bool \<Rightarrow> nat list option \<Rightarrow> BroadcastOptions" where
  "BroadcastOptions_init conn prepend types =
     \<lparr>broadcasting_connection = conn, prepend_to_queue = prepend,
      connection_types = (case types of None \<Rightarrow> [] | Some ts \<Rightarrow> ts)\<rparr>"

text \<open>
  Connections are references; their states are in a store. The abstract method
  \<open>should_broadcast_to_connection\<close> and the \<open>enqueue_msg\<close> of the connection class are arguments; the
  latter works on the message too, whose state is \<open>'s\<close>.
\<close>

type_synonym ('s, 'c) enqueue_method = "bool \<Rightarrow> 's \<Rightarrow> 'c \<Rightarrow> unit result \<times> 'c \<times> 's"

definition BroadcastService_get_connections_for_broadcast ::
    "(nat \<Rightarrow> bool) \<Rightarrow> ConnectionPool \<Rightarrow> BroadcastOptions \<Rightarrow> nat list" where
  "BroadcastService_get_connections_for_broadcast should_broadcast pool options =
     filter (\<lambda>c. should_broadcast c \<and> Some c \<noteq> broadcasting_connection options)
       (ConnectionPool_get_by_connection_types (connection_types options) pool)"

primrec BroadcastService_broadcast_to_connections ::
    "('s, 'x connection_scheme) enqueue_method \<Rightarrow> bool \<Rightarrow> nat list \<Rightarrow> (nat \<Rightarrow> 'x connection_scheme) \<times> 's
     \<Rightarrow> nat list result \<times> (nat \<Rightarrow> 'x connection_scheme) \<times> 's" where
  "BroadcastService_broadcast_to_connections enqueue prepend [] s = (Inr [], s)"
| "BroadcastService_broadcast_to_connections enqueue prepend (i # is) s =
     (if AbstractConnection_is_active (fst s i)
      then (case enqueue prepend (snd s) (fst s i) of
              (Inl e, c, m) \<Rightarrow> (Inl e, (fst s)(i := c), m)
            | (Inr _, c, m) \<Rightarrow>
                sbind (BroadcastService_broadcast_to_connections enqueue prepend is ((fst s)(i := c), m)) (\<lambda>sent s1. (Inr (i # sent), s1)))
      else BroadcastService_broadcast_to_connections enqueue prepend is s)"

definition BroadcastService_broadcast ::
    "('s, 'x connection_scheme) enqueue_method \<Rightarrow> (nat \<Rightarrow> bool) \<Rightarrow> ConnectionPool \<Rightarrow> BroadcastOptions
     \<Rightarrow> (nat \<Rightarrow> 'x connection_scheme) \<times> 's \<Rightarrow> nat list result \<times> (nat \<Rightarrow> 'x connection_scheme) \<times> 's" where
  "BroadcastService_broadcast enqueue should_broadcast pool options s =
     BroadcastService_broadcast_to_connections enqueue (prepend_to_queue options)
       (BroadcastService_get_connections_for_broadcast should_broadcast pool options) s"

subsection \<open>A message reaches every chosen connection once\<close>

text \<open>What a broadcast relies on: sending to an active connection appends bytes of the right kind to its stream.\<close>

definition recipients ::
    "conn_store \<Rightarrow> nat set \<Rightarrow> (nat \<Rightarrow> bool) \<Rightarrow> BroadcastOptions \<Rightarrow> (nat \<Rightarrow> 'x connection_scheme) \<Rightarrow> nat set" where
  "recipients st L should options conns =
     {i \<in> L. (\<exists>m \<in> set (connection_types options). ci_type (st i) AND m \<noteq> 0) \<and> should i
             \<and> Some i \<noteq> broadcasting_connection options \<and> AbstractConnection_is_active (conns i)}"

locale broadcast_target =
  fixes enqueue :: "('s, 'x connection_scheme) enqueue_method"
    and ready :: "'x connection_scheme \<Rightarrow> bool"
    and valid :: "'s \<Rightarrow> bool"
    and wire :: "'x connection_scheme \<Rightarrow> bytes \<Rightarrow> bool"
  assumes enqueue_sends: "ready c \<Longrightarrow> AbstractConnection_is_active c \<Longrightarrow> valid s \<Longrightarrow>
    \<exists>c' s' w. enqueue False s c = (Inr (), c', s') \<and> valid s' \<and> wire c w \<and> outgoing c' = outgoing c @ w \<and> same_but_output c c'"
begin

definition delivered :: "bool \<Rightarrow> 'x connection_scheme \<Rightarrow> 'x connection_scheme \<Rightarrow> bool" where
  "delivered sent c c' \<longleftrightarrow>
     (if sent then same_but_output c c' \<and> (\<exists>w. wire c w \<and> outgoing c' = outgoing c @ w) else c' = c)"

lemma to_connections:
  assumes "distinct is" and "\<And>i. i \<in> set is \<Longrightarrow> AbstractConnection_is_active (conns i) \<Longrightarrow> ready (conns i)" and "valid s"
  shows "\<exists>conns' s'. BroadcastService_broadcast_to_connections enqueue False is (conns, s)
      = (Inr (filter (\<lambda>i. AbstractConnection_is_active (conns i)) is), conns', s')
    \<and> (\<forall>i. delivered (i \<in> set is \<and> AbstractConnection_is_active (conns i)) (conns i) (conns' i))"
  using assms
proof (induction "is" arbitrary: conns s)
  case Nil
  then show ?case by (simp add: delivered_def)
next
  case (Cons i "is")
  show ?case
  proof (cases "AbstractConnection_is_active (conns i)")
    case False
    obtain conns' s' where ih: "BroadcastService_broadcast_to_connections enqueue False is (conns, s)
          = (Inr (filter (\<lambda>i. AbstractConnection_is_active (conns i)) is), conns', s')"
      "\<forall>j. delivered (j \<in> set is \<and> AbstractConnection_is_active (conns j)) (conns j) (conns' j)"
      using Cons.IH[of conns s] Cons.prems by auto
    moreover have "(j \<in> set (i # is) \<and> AbstractConnection_is_active (conns j)) = (j \<in> set is \<and> AbstractConnection_is_active (conns j))" for j
      using False by auto
    ultimately show ?thesis using False by simp
  next
    case True
    obtain c' s1 w where e: "enqueue False s (conns i) = (Inr (), c', s1)" "valid s1" "wire (conns i) w"
      "outgoing c' = outgoing (conns i) @ w" "same_but_output (conns i) c'"
      using enqueue_sends[OF Cons.prems(2)[of i] True Cons.prems(3)] True by auto
    let ?conns = "conns(i := c')"
    have i: "i \<notin> set is" and d: "distinct is" using Cons.prems(1) by simp_all
    have prem: "ready (?conns j)" if "j \<in> set is" "AbstractConnection_is_active (?conns j)" for j
      using that i Cons.prems(2)[of j] by (cases "j = i") simp_all
    obtain conns' s' where ih: "BroadcastService_broadcast_to_connections enqueue False is (?conns, s1)
          = (Inr (filter (\<lambda>j. AbstractConnection_is_active (?conns j)) is), conns', s')"
      "\<forall>j. delivered (j \<in> set is \<and> AbstractConnection_is_active (?conns j)) (?conns j) (conns' j)"
      using Cons.IH[of ?conns s1, OF d prem e(2)] by blast
    have f: "filter (\<lambda>j. AbstractConnection_is_active (?conns j)) is = filter (\<lambda>j. AbstractConnection_is_active (conns j)) is"
      by (rule filter_cong) (use i in auto)
    have "delivered (j \<in> set (i # is) \<and> AbstractConnection_is_active (conns j)) (conns j) (conns' j)" for j
    proof (cases "j = i")
      case True
      then have "conns' j = c'" using ih(2)[THEN spec, of j] i by (simp add: delivered_def)
      then show ?thesis using True e \<open>AbstractConnection_is_active (conns i)\<close> by (auto simp: delivered_def)
    next
      case False
      then show ?thesis using ih(2)[THEN spec, of j] by simp
    qed
    then show ?thesis using True e(1) ih(1) unfolding f by simp
  qed
qed

lemma from_pool:
  assumes "pool_run st L p" and "\<forall>i \<in> recipients st L should options conns. ready (conns i)" and "valid s"
    and "\<not> prepend_to_queue options"
  shows "\<exists>sent conns' s'. BroadcastService_broadcast enqueue should p options (conns, s) = (Inr sent, conns', s') \<and> distinct sent
    \<and> set sent = recipients st L should options conns
    \<and> (\<forall>i. delivered (i \<in> set sent) (conns i) (conns' i))"
proof -
  let ?ids = "BroadcastService_get_connections_for_broadcast should p options"
  have types: "distinct (ConnectionPool_get_by_connection_types (connection_types options) p)"
    "set (ConnectionPool_get_by_connection_types (connection_types options) p)
      = {c \<in> L. \<exists>m \<in> set (connection_types options). ci_type (st c) AND m \<noteq> 0}"
    using get_by_types_exact[OF assms(1)] by blast+
  have ids: "distinct ?ids" "set ?ids = {i \<in> L. (\<exists>m \<in> set (connection_types options). ci_type (st i) AND m \<noteq> 0) \<and> should i
      \<and> Some i \<noteq> broadcasting_connection options}"
    unfolding BroadcastService_get_connections_for_broadcast_def set_filter types(2) using types(1) by auto
  obtain conns' s' where "BroadcastService_broadcast_to_connections enqueue False ?ids (conns, s)
      = (Inr (filter (\<lambda>i. AbstractConnection_is_active (conns i)) ?ids), conns', s')"
    "\<forall>i. delivered (i \<in> set ?ids \<and> AbstractConnection_is_active (conns i)) (conns i) (conns' i)"
    using to_connections[OF ids(1) _ assms(3), of conns] ids(2) assms(2) by (fastforce simp: recipients_def)
  then show ?thesis
    using assms(4) ids
    by (intro exI[of _ "filter (\<lambda>i. AbstractConnection_is_active (conns i)) ?ids"] exI[of _ conns'] exI[of _ s'] conjI)
       (auto simp: BroadcastService_broadcast_def recipients_def)
qed

end

text \<open>Connections without versions send the bytes of the message as they are.\<close>

definition enqueue_plain :: "(bytes \<Rightarrow> bool) \<Rightarrow> time \<Rightarrow> (message, 'x connection_scheme) enqueue_method" where
  "enqueue_plain full now prepend m c = (let (r, c') = AbstractConnection_enqueue_msg full now (Some m) prepend c in (r, c', m))"

interpretation plain: broadcast_target "enqueue_plain full now" conn_out_inv
    "\<lambda>m. \<exists>m'. AbstractInternalMessage_rawbytes m = Inr (raw, m')" "\<lambda>c w. w = raw" for full now raw
proof (unfold_locales, goal_cases)
  case (1 c m)
  then obtain c' where "AbstractConnection_enqueue_msg_bytes full now raw False c = (Inr (), c')" "outgoing c' = outgoing c @ raw"
    "same_but_output c c'"
    using enqueue_msg_bytes_spec[of c full now raw] by (auto simp: AbstractConnection_is_active_def)
  then show ?case using 1 by (auto simp: enqueue_plain_def AbstractConnection_enqueue_msg_def)
qed

subsection \<open>A transaction in the version of each peer\<close>

text \<open>Reading the values of a transaction keeps its invariant and its type.\<close>

lemma keeps_type_opt:
  assumes "(case r of Some x \<Rightarrow> Inr (x, m) | None \<Rightarrow> rbind q k) = Inr (y, m')"
    and "\<And>a. k a = Inr (y, m') \<Longrightarrow> msg_type_field m' = msg_type_field m"
  shows "msg_type_field m' = msg_type_field m"
  using assms by (cases r) (auto simp: rbind_eq_Inr)

lemma tx_reads_keep_type:
  "AbstractBroadcastMessage_message_hash m = Inr (h, m') \<Longrightarrow> msg_type_field m' = msg_type_field m"
  "AbstractBroadcastMessage_network_num m = Inr (n, m') \<Longrightarrow> msg_type_field m' = msg_type_field m"
  "AbstractBroadcastMessage_source_id m = Inr (s, m') \<Longrightarrow> msg_type_field m' = msg_type_field m"
  unfolding AbstractBroadcastMessage_message_hash_def AbstractBroadcastMessage_network_num_def AbstractBroadcastMessage_source_id_def
  by (erule keeps_type_opt; force simp: rbind_eq_Inr Let_def)+

lemma tx_field_reads_keep_type:
  "tx_short_id m = Inr (x, m') \<Longrightarrow> msg_type_field m' = msg_type_field m"
  "tx_flag L m = Inr (f, m') \<Longrightarrow> msg_type_field m' = msg_type_field m"
  "tx_timestamp L m = Inr (t, m') \<Longrightarrow> msg_type_field m' = msg_type_field m"
  unfolding tx_short_id_def tx_flag_def tx_timestamp_def
  by (erule keeps_type_opt; force simp: rbind_eq_Inr Let_def split: if_splits)+

lemma tx_val_keeps_type: "tx_tx_val L m = Inr (v, m') \<Longrightarrow> payload_len_field m = Some n \<Longrightarrow> msg_type_field m' = msg_type_field m"
  unfolding tx_tx_val_def AbstractInternalMessage_payload_len_def
  by (cases "tm_tx_val m") (auto simp: Let_def)

lemma tx_returns_same:
  assumes "tx_returns L g P m" and "g m = Inr (x, m')"
  shows "tx_inv L m'"
  using assms by (auto simp: tx_returns_def)

lemma tx_values_keep:
  assumes "tx_values L m = Inr (x, m')" and "tx_inv L m"
  shows "tx_inv L m' \<and> msg_type_field m' = msg_type_field m"
proof -
  obtain h m1 n m2 s m3 i m4 v m5 f m6 t where r: "AbstractBroadcastMessage_message_hash m = Inr (h, m1)"
    "AbstractBroadcastMessage_network_num m1 = Inr (n, m2)" "AbstractBroadcastMessage_source_id m2 = Inr (s, m3)"
    "tx_short_id m3 = Inr (i, m4)" "tx_tx_val L m4 = Inr (v, m5)" "tx_flag L m5 = Inr (f, m6)" "tx_timestamp L m6 = Inr (t, m')"
    using assms(1) unfolding tx_values_def rbind_eq_Inr split_paired_Ex prod.case by (elim exE conjE) (metis prod.inject sum.inject(2))
  have "tx_inv L m1" by (rule tx_returns_same[OF tx_read_hash[OF assms(2)] r(1)])
  then have "tx_inv L m2" by (rule tx_returns_same[OF tx_read_network r(2)])
  then have "tx_inv L m3" by (rule tx_returns_same[OF tx_read_source r(3)])
  then have "tx_inv L m4" by (rule tx_returns_same[OF tx_read_short_id r(4)])
  then have v: "msg_type_field m5 = msg_type_field m4" using tx_val_keeps_type[OF r(5)] by (simp add: tx_inv_def)
  have "tx_inv L m5" using \<open>tx_inv L m4\<close> by (rule tx_returns_same[OF tx_read_val r(5)])
  then have "tx_inv L m6" by (rule tx_returns_same[OF tx_read_flag r(6)])
  then have "tx_inv L m'" by (rule tx_returns_same[OF tx_read_timestamp r(7)])
  then show ?thesis using r(1)[THEN tx_reads_keep_type(1)] r(2)[THEN tx_reads_keep_type(2)]
      r(3)[THEN tx_reads_keep_type(3)] r(4)[THEN tx_field_reads_keep_type(1)] v
      r(6)[THEN tx_field_reads_keep_type(2)] r(7)[THEN tx_field_reads_keep_type(3)] by simp
qed

lemma to_older_keeps:
  assumes "tx_to_older c m = Inr (old, m')" and "tx_inv TxMessage_layout m" and "c \<noteq> TxConvV7"
  shows "tx_inv TxMessage_layout m' \<and> msg_type_field m' = msg_type_field m"
proof (cases "c = TxConvV6")
  case True
  then have "m' = m" using assms(1) rawbytes_inv[OF assms(2)]
    by (auto simp: tx_to_older_def TxMessageConverterV6_convert_to_older_version_def rbind_eq_Inr Let_def)
  then show ?thesis using assms(2) by simp
next
  case False
  have "\<exists>x. tx_values TxMessage_layout m = Inr (x, m')"
    using assms(1,3) False
    by (cases c) (force simp: tx_to_older_def TxMessageConverterV21_convert_to_older_version_def
        TxMessageConverterV20_convert_to_older_version_def TxMessageConverterV19_convert_to_older_version_def
        TxMessageConverterV17_convert_to_older_version_def TxMessageConverterV15_convert_to_older_version_def rbind_eq_Inr Let_def)+
  then show ?thesis using tx_values_keep assms(2) by blast
qed

text \<open>
  The versions a transaction can be sent to, what its bytes carry in each of them, and a transaction with
  its converted messages: \<open>f\<close> are its fields, \<open>t\<close> is its time in whole seconds.
\<close>

definition served :: "nat \<Rightarrow> bool" where
  "served v \<longleftrightarrow> v \<in> {6..21} \<and> v \<noteq> 7 \<or> PROTOCOL_VERSION \<le> v"

definition carries :: "tx_fields \<Rightarrow> nat \<Rightarrow> nat \<Rightarrow> bytes \<Rightarrow> bool" where
  "carries f t v w \<longleftrightarrow>
     (if v < PROTOCOL_VERSION then bytes_fields (old_layout (tx_conv_of v)) w = old_fields (tx_conv_of v) t f
      else bytes_fields TxMessage_layout w = f)"

definition good_conversion :: "tx_fields \<Rightarrow> nat \<Rightarrow> nat \<Rightarrow> bx_msg \<Rightarrow> bool" where
  "good_conversion f t v old \<longleftrightarrow>
     (\<exists>c o'. old = OldTxMsg c o' \<and> tx_inv (old_layout (tx_conv_of v)) o' \<and> tx_abs (old_layout (tx_conv_of v)) o' = old_fields (tx_conv_of v) t f)"

definition sendable_tx :: "tx_fields \<Rightarrow> nat \<Rightarrow> bx_msg \<times> converted \<Rightarrow> bool" where
  "sendable_tx f t s \<longleftrightarrow> int_of_double (f_timestamp f) = Inr (int t) \<and> t < 2 ^ 32
     \<and> (\<exists>m tab. s = (TxMsg m, Some tab) \<and> tx_inv TxMessage_layout m \<and> tx_abs TxMessage_layout m = f \<and> length (msg_buf m) < 256 ^ 4
          \<and> msg_type_field m = Some (MESSAGE_TYPE TxMessageClass)
          \<and> (\<forall>v old. v < PROTOCOL_VERSION \<longrightarrow> map_of tab v = Some old \<longrightarrow> good_conversion f t v old))"

lemma good_conversion_wire:
  assumes "good_conversion f t v old" and "v < PROTOCOL_VERSION"
  shows "\<exists>w. bx_rawbytes old = Inr w \<and> carries f t v w"
  using assms by (auto simp: good_conversion_def carries_def rawbytes_inv(1) tx_abs_bytes)

lemma convert_sendable:
  assumes "sendable_tx f t s" and "served v" and "v < PROTOCOL_VERSION"
  shows "\<exists>old s'. AbstractVersionManager_convert_message_to_older_version rest v s = (Inr old, s') \<and> sendable_tx f t s' \<and> good_conversion f t v old"
proof -
  obtain m tab where s: "s = (TxMsg m, Some tab)" "tx_inv TxMessage_layout m" "f = tx_abs TxMessage_layout m" "length (msg_buf m) < 256 ^ 4"
    "msg_type_field m = Some (MESSAGE_TYPE TxMessageClass)" and tab: "\<And>v old. v < PROTOCOL_VERSION \<Longrightarrow> map_of tab v = Some old \<Longrightarrow> good_conversion f t v old"
    and t: "int_of_double (f_timestamp f) = Inr (int t)" "t < 2 ^ 32"
    using assms(1) unfolding sendable_tx_def by (elim exE conjE) blast
  have v: "v \<in> {6..21}" "v \<noteq> 7" "v \<noteq> 0" "v \<in> {6..22}" using assms(2,3) by (auto simp: served_def)
  show ?thesis
  proof (cases "map_of tab v")
    case (Some old)
    then show ?thesis
      using tab assms(1,3) v(3,4) known_versions[of v] s(1) by (auto simp: AbstractVersionManager_convert_message_to_older_version_def)
  next
    case None
    let ?c = "tx_conv_of v"
    have c: "?c \<noteq> TxConvV7" using v(1,2) by (simp add: tx_conv_of_def)
    obtain old m' where conv: "tx_to_older ?c m = Inr (old, m')" "msg_buf m' = msg_buf m"
      "tx_inv (old_layout ?c) old" "tx_abs (old_layout ?c) old = old_fields ?c t f"
      using tx_conversion_round_trip[OF s(2-4) t c] by (elim exE conjE)
    note m' = to_older_keeps[OF conv(1) s(2) c]
    have g: "good_conversion f t v (OldTxMsg ?c old)" using conv(3,4) by (auto simp: good_conversion_def)
    have "AbstractVersionManager_convert_message_to_older_version rest v s
        = (Inr (OldTxMsg ?c old), TxMsg m', Some (AList.update v (OldTxMsg ?c old) tab))"
      using tx_msg_type(1)[OF s(2,5)] v conv(1) known_versions[of v] None s(1)
      by (simp add: AbstractVersionManager_convert_message_to_older_version_def Let_def tx_converter_of_version
          convert_to_older_version_def del: bx_msg_type.simps)
    moreover have "tx_abs TxMessage_layout m' = f" using conv(2) s(3) by (simp add: tx_abs_bytes)
    then have "sendable_tx f t (TxMsg m', Some (AList.update v (OldTxMsg ?c old) tab))"
      using m' s(4,5) t conv(2) tab g by (auto simp: sendable_tx_def update_conv')
    ultimately show ?thesis using g by blast
  qed
qed

interpretation versioned: broadcast_target "enqueue_versioned full now rest" "\<lambda>c. conn_out_inv c \<and> served (ic_protocol_version c)"
    "sendable_tx f t" "\<lambda>c. carries f t (ic_protocol_version c)" for full now rest f t
proof (unfold_locales, goal_cases)
  case (1 c s)
  let ?v = "ic_protocol_version c"
  have "\<exists>r s1 w. (if ?v < PROTOCOL_VERSION then AbstractVersionManager_convert_message_to_older_version rest ?v s else (Inr (fst s), s))
      = (Inr r, s1) \<and> sendable_tx f t s1 \<and> bx_rawbytes r = Inr w \<and> carries f t ?v w"
  proof (cases "?v < PROTOCOL_VERSION")
    case True
    then show ?thesis using convert_sendable[OF 1(3) _ True, of rest] good_conversion_wire[OF _ True] 1(1) by fastforce
  next
    case False
    obtain m tab where m: "s = (TxMsg m, tab)" "tx_inv TxMessage_layout m" "tx_abs TxMessage_layout m = f"
      using 1(3) by (auto simp: sendable_tx_def)
    then show ?thesis using False 1(3) by (auto simp: carries_def rawbytes_inv(1) tx_abs_bytes)
  qed
  then obtain r s1 w where r: "(if ?v < PROTOCOL_VERSION then AbstractVersionManager_convert_message_to_older_version rest ?v s else (Inr (fst s), s))
      = (Inr r, s1)" "sendable_tx f t s1" "bx_rawbytes r = Inr w" "carries f t ?v w" by blast
  obtain c' where "AbstractConnection_enqueue_msg_bytes full now w False c = (Inr (), c')" "outgoing c' = outgoing c @ w" "same_but_output c c'"
    using enqueue_msg_bytes_spec[of c full now w] 1(1,2) by (auto simp: AbstractConnection_is_active_def)
  then show ?case
    using r 1(2) unfolding enqueue_versioned_def r(1)
    by (auto simp: AbstractConnection_is_alive_def AbstractConnection_is_active_def)
qed

text \<open>
  C8. A transaction is broadcast by appending it (not in front of the queues), and every recipient speaks the
  current version or one of the versions 6 to 21 except 7. Then exactly the recipients are sent it, each
  once: the active connections of the wanted types that the service chooses, the origin left out. Each
  gets, behind what it was sent before, the transaction in its own version with the fields that version
  has. No other connection is touched, whatever version it speaks. (A recipient of version 22 makes the
  broadcast raise, one of version 7 is sent shifted contents.)
\<close>
theorem broadcast_reaches_peers:
  assumes "pool_run st L p" and "sendable_tx f t s" and "\<not> prepend_to_queue options"
    and "\<forall>i \<in> recipients st L should options conns. conn_out_inv (conns i) \<and> served (ic_protocol_version (conns i))"
  shows "\<exists>sent conns' s'. BroadcastService_broadcast (enqueue_versioned full now rest) should p options (conns, s) = (Inr sent, conns', s')
    \<and> distinct sent \<and> set sent = recipients st L should options conns
    \<and> (\<forall>i. if i \<in> set sent
           then \<exists>w. outgoing (conns' i) = outgoing (conns i) @ w \<and> carries f t (ic_protocol_version (conns i)) w
           else conns' i = conns i)"
proof -
  obtain sent conns' s' where b: "BroadcastService_broadcast (enqueue_versioned full now rest) should p options (conns, s) = (Inr sent, conns', s')"
    "distinct sent" "set sent = recipients st L should options conns"
    "\<forall>i. versioned.delivered f t (i \<in> set sent) (conns i) (conns' i)"
    using versioned.from_pool[where conns=conns and full=full and now=now and rest=rest and should=should, OF assms(1,4,2,3)]
    by (elim exE conjE)
  have "if i \<in> set sent then \<exists>w. outgoing (conns' i) = outgoing (conns i) @ w \<and> carries f t (ic_protocol_version (conns i)) w
      else conns' i = conns i" for i
    using b(4)[THEN spec, of i] by (auto simp: versioned.delivered_def split: if_splits)
  with b(1-3) show ?thesis by (intro exI conjI allI)
qed

definition idle_internal :: "nat \<Rightarrow> internal_connection" where
  "idle_internal v = connection.extend
     (blank_connection\<lparr>established := True, conn_socket := (conn_socket blank_connection)\<lparr>alive := True, has_transport := True\<rparr>\<rparr>)
     (internal_connection.fields v ModuleEntry None)"

theorem broadcast_reaches_peers_witness:
  "\<exists>p sent conns' s'. BroadcastService_broadcast (enqueue_versioned (\<lambda>_. False) 0 (\<lambda>_ _. Inl TypeError)) (\<lambda>_. True) p
        (BroadcastOptions_init (Some 7) False (Some [CT ''EXTERNAL_GATEWAY''])) (\<lambda>_. idle_internal 19, TxMsg (tx_object TxMessage_layout stamped_tx), Some [])
      = (Inr sent, conns', s') \<and> set sent = {130}"
proof -
  obtain p where p: "pool_run two_conns {7, 130} p" using two_conns_run by blast
  let ?o = "BroadcastOptions_init (Some 7) False (Some [CT ''EXTERNAL_GATEWAY''])"
  have t: "int_of_double (f_timestamp stamped_tx) = Inr (int 1600000000)" using stamped_tx_facts(2) by simp
  have tx: "sendable_tx stamped_tx 1600000000 (TxMsg (tx_object TxMessage_layout stamped_tx), Some [])"
    unfolding sendable_tx_def using t tx_object_inv[OF stamped_tx_facts(1)] tx_object_abs[OF stamped_tx_facts(1)] stamped_tx_facts(3)
    by (auto simp: tx_object_def)
  have c: "conn_out_inv (idle_internal 19)" "served (ic_protocol_version (idle_internal 19))" "AbstractConnection_is_active (idle_internal 19)"
    by (simp_all add: idle_internal_def blank_connection_def conn_out_inv_def served_def AbstractConnection_is_active_def
        connection.defs internal_connection.defs ob_inv_init)
  have "ci_type (two_conns c) AND CT ''EXTERNAL_GATEWAY'' \<noteq> 0" for c by (simp add: two_conns_def ConnectionType_values_def)
  then have ids: "recipients two_conns {7, 130} (\<lambda>_. True) ?o (\<lambda>_. idle_internal 19) = {130}"
    using c(3) by (auto simp: BroadcastOptions_init_def recipients_def)
  have "\<not> prepend_to_queue ?o" by (simp add: BroadcastOptions_init_def)
  moreover have "\<forall>i \<in> {130 :: nat}. conn_out_inv (idle_internal 19) \<and> served (ic_protocol_version (idle_internal 19))" using c by blast
  ultimately show ?thesis
    using broadcast_reaches_peers[OF p tx, of ?o "\<lambda>_. True" "\<lambda>_. idle_internal 19" "\<lambda>_. False" 0 "\<lambda>_ _. Inl TypeError", unfolded ids]
    by blast
qed

subsection \<open>Negotiation\<close>

lemma internal_close_ok:
  assumes "has_transport (conn_socket c)"
  shows "\<exists>c'. InternalNodeConnection_mark_for_close r c = (Inr (), c') \<and> \<not> alive (conn_socket c') \<and> inputbuf c' = inputbuf c"
  using assms by (auto simp: InternalNodeConnection_mark_for_close_def AbstractConnection_mark_for_close_def Socket_mark_for_close_def
      AbstractConnection_cancel_pong_timeout_def Let_def split: option.split)

lemma factory_of_supported:
  "6 \<le> v \<Longrightarrow> \<exists>f. AbstractVersionManager_get_message_factory_for_version (min v 23) = Inr (if v = 22 then ModuleEntry else FactoryEntry f)"
proof -
  assume "6 \<le> v"
  then have "min v 23 \<in> {6..22} \<or> min v 23 = 23" "v = 22 \<longleftrightarrow> min v 23 = 22" by auto
  then show ?thesis unfolding versions_known
    by (elim disjE insertE emptyE) (simp_all add: AbstractVersionManager_get_message_factory_for_version_def
        AbstractVersionManager_is_protocol_supported_def protocol_to_factory_mapping_def)
qed

text \<open>
  C9. A connection whose peer has not introduced itself takes the version from the first 24 bytes it receives
  of a hello message, however they arrive: below version 6 it is closed, above version 23 it speaks
  version 23. It stores the entry its version has in the table of factories, and the bytes stay. For
  every version but 22 the entry is a factory and the message is read on with the new state; for version
  22 it is a module, and reading the message raises \<open>AttributeError\<close>.
\<close>
theorem version_negotiated:
  assumes "\<not> flag_in HELLO_RECVD (conn_state c)" and "ib_inv (inputbuf c)" and "has_transport (conn_socket c)"
    and "24 \<le> length (received c)" and "v < 256 ^ 4" and "8 \<le> length body" and "length body < 256 ^ 4 - 4"
    and "received c = take k (frame (MESSAGE_TYPE HelloMessage) (le_bytes 4 v @ body) @ rest)"
  shows "\<exists>c'. InternalNodeConnection_set_protocol_version_and_message_factory c = (Inr (6 \<le> v), c') \<and> received c' = received c
    \<and> (if 6 \<le> v
       then alive (conn_socket c') = alive (conn_socket c) \<and> ic_protocol_version c' = min v PROTOCOL_VERSION
            \<and> AbstractVersionManager_get_message_factory_for_version (min v PROTOCOL_VERSION) = Inr (ic_message_factory c')
            \<and> (if v = 22 then ic_message_factory c' = ModuleEntry \<and> InternalNodeConnection_pre_process_msg c = (Inl AttributeErr, c')
               else (\<exists>f. ic_message_factory c' = FactoryEntry f) \<and> InternalNodeConnection_pre_process_msg c = AbstractConnection_pre_process_msg c')
       else \<not> alive (conn_socket c'))"
proof -
  obtain b where b: "AbstractVersionManager_get_connection_protocol_version (inputbuf c) = (Inr v, b)" "in_content b = in_content (inputbuf c)"
    using hello_gives_version[OF assms(2) _ assms(5-7)] assms(4,8) by (auto simp: received_def)
  let ?c1 = "c\<lparr>inputbuf := b\<rparr>"
  have i: "on_inputbuf AbstractVersionManager_get_connection_protocol_version c = (Inr v, ?c1)"
    using b(1) by (simp add: on_inputbuf_def)
  have r: "received ?c1 = received c" using b(2) by (simp add: received_def)
  have m: "(if v > PROTOCOL_VERSION then PROTOCOL_VERSION else v) = min v PROTOCOL_VERSION" by simp
  show ?thesis
  proof (cases "6 \<le> v")
    case True
    obtain f where f: "AbstractVersionManager_get_message_factory_for_version (min v PROTOCOL_VERSION) = Inr (if v = 22 then ModuleEntry else FactoryEntry f)"
      using factory_of_supported[OF True] by blast
    then have set: "InternalNodeConnection_set_protocol_version_and_message_factory c
        = (Inr True, ?c1\<lparr>ic_protocol_version := min v PROTOCOL_VERSION, ic_message_factory := if v = 22 then ModuleEntry else FactoryEntry f\<rparr>)"
      using True i assms(1) m
      by (simp add: InternalNodeConnection_set_protocol_version_and_message_factory_def AbstractVersionManager_is_protocol_supported_def
          Let_def del: min_less_iff_conj)
    then show ?thesis using True f r by (simp add: InternalNodeConnection_pre_process_msg_def received_def)
  next
    case False
    obtain c' where "InternalNodeConnection_mark_for_close None ?c1 = (Inr (), c')" "\<not> alive (conn_socket c')" "inputbuf c' = inputbuf ?c1"
      using internal_close_ok[of ?c1 None] assms(3) by auto
    then show ?thesis using False i r assms(1)
      by (simp add: InternalNodeConnection_set_protocol_version_and_message_factory_def AbstractVersionManager_is_protocol_supported_def
          received_def)
  qed
qed

lemma idle_internal_simps:
  "conn_state (idle_internal v) = CONNECTING" "ib_inv (inputbuf (idle_internal v))" "has_transport (conn_socket (idle_internal v))"
  "in_content (inputbuf (idle_internal v)) = []" "ib_inv (InputBuffer_add_bytes p (inputbuf (idle_internal v)))"
  by (simp_all add: idle_internal_def blank_connection_def connection.defs internal_connection.defs)

theorem version_negotiated_witness:
  "\<exists>c'. InternalNodeConnection_set_protocol_version_and_message_factory
      ((idle_internal 23)\<lparr>inputbuf := InputBuffer_add_bytes (Bytearray, frame (MESSAGE_TYPE HelloMessage) (le_bytes 4 25 @ replicate 20 0 @ [1]))
         (inputbuf (idle_internal 23))\<rparr>) = (Inr True, c') \<and> ic_protocol_version c' = 23"
proof -
  let ?f = "frame (MESSAGE_TYPE HelloMessage) (le_bytes 4 25 @ replicate 20 0 @ [1])"
  let ?c = "(idle_internal 23)\<lparr>inputbuf := InputBuffer_add_bytes (Bytearray, ?f) (inputbuf (idle_internal 23))\<rparr>"
  have "received ?c = take 45 (?f @ [])" by (simp add: received_def idle_internal_simps)
  moreover have "\<not> flag_in HELLO_RECVD (conn_state ?c)" by (simp add: idle_internal_simps flag_in_def)
  ultimately show ?thesis
    using version_negotiated[of ?c 25 "replicate 20 0 @ [1]" 45 "[]"] idle_internal_simps(3,5) by auto
qed

lemma schedule_pings_ok:
  fixes c :: "'x internal_connection_scheme"
  assumes "0 \<le> ping_interval_s c"
  shows "\<exists>c'. AbstractConnection_schedule_pings now c = Inr c' \<and> alive (conn_socket c') = alive (conn_socket c)
    \<and> ic_network_num c' = ic_network_num c"
  using assms by (auto simp: AbstractConnection_schedule_pings_def AbstractConnection_unschedule_pings_def register_conn_alarm_def
      AlarmQueue_register_alarm_def timer_env_def Let_def split: option.split)

text \<open>
  C10. A peer that introduces itself is acknowledged, and the connection stays open exactly when the node serves
  all networks or the peer is in the network of the node; an open connection knows the network of its peer.
\<close>
theorem hello_checks_network:
  fixes c :: "'x internal_connection_scheme"
  assumes "sending c" and "\<not> established c" and "bit (conn_state c) 1" and "ack_message c = Some ack"
    and "AbstractInternalMessage_rawbytes ack = Inr (raw, ack')" and "0 \<le> ping_interval_s c"
    and "v < 256 ^ 4" and "n < 256 ^ 4" and "length src = 16"
  shows "\<exists>c'. InternalNodeConnection_msg_hello full now (\<lambda>_. None) node_network_num (hello_object v n src) c = (Inr False, c')
    \<and> (if node_network_num = 0 \<or> n = node_network_num then alive (conn_socket c') \<and> ic_network_num c' = Some n
       else \<not> alive (conn_socket c'))"
proof -
  obtain r where r: "uuid_pack_from_bytes src = Inr r" using uuid_from_16[OF assms(9)] by blast
  then obtain msg where msg: "HelloMessage_node_id (hello_object v n src) = Inr (r, msg)" "msg_buf msg = msg_buf (hello_object v n src)"
      "vm_network_num msg = vm_network_num (hello_object v n src)"
    using hello_accessors(3)[OF assms(7-9)] by (auto simp: HelloMessage_node_id_def rbind_eq_Inr split: if_splits)
  have "rbind (VersionMessage_network_num msg) (\<lambda>(x, m). Inr x) = rbind (VersionMessage_network_num (hello_object v n src)) (\<lambda>(x, m). Inr x)"
    using msg(2,3) by (auto simp: VersionMessage_network_num_def VersionMessage_unpack_def rbind_def split: sum.split)
  then obtain msg' where net: "VersionMessage_network_num msg = Inr (Some n, msg')"
    using hello_accessors(2)[OF assms(7-9)] by (auto simp: rbind_eq_Inr)
  obtain c1 where c1: "AbstractConnection_msg_hello full now (\<lambda>_. None) InternalNodeConnection_mark_for_close r c = (Inr False, c1)"
    "sending c1" "ping_interval_s c1 = ping_interval_s c"
    using msg_hello_spec[OF assms(1-5), of full now InternalNodeConnection_mark_for_close r] by blast
  have alive: "alive (conn_socket c1)" "has_transport (conn_socket c1)" using c1(2) by (simp_all add: sending_def conn_out_inv_def)
  obtain c2 where c2: "InternalNodeConnection_mark_for_close None c1 = (Inr (), c2)" "\<not> alive (conn_socket c2)"
    using internal_close_ok[OF alive(2), of None] by blast
  obtain c3 where c3: "AbstractConnection_schedule_pings now (c1\<lparr>ic_network_num := Some n\<rparr>) = Inr c3" "alive (conn_socket c3)"
    "ic_network_num c3 = Some n"
    using schedule_pings_ok[of "c1\<lparr>ic_network_num := Some n\<rparr>" now] c1(3) assms(6) alive(1) by auto
  show ?thesis
    using msg(1) net c1(1) alive(1) c2 c3
    by (auto simp: InternalNodeConnection_msg_hello_def AbstractConnection_is_alive_def)
qed

theorem hello_checks_network_witness:
  "\<exists>c'. InternalNodeConnection_msg_hello (\<lambda>_. False) 0 (\<lambda>_. None) 5 (hello_object 23 6 (replicate 16 7))
      ((idle_internal 23)\<lparr>established := False, conn_state := 3, ack_message := Some (snd (message_of (AckMessage, [1])))\<rparr>) = (Inr False, c')
    \<and> \<not> alive (conn_socket c')"
proof -
  let ?c = "(idle_internal 23)\<lparr>established := False, conn_state := 3, ack_message := Some (snd (message_of (AckMessage, [1])))\<rparr>"
  have "sending ?c" "0 \<le> ping_interval_s ?c"
    by (simp_all add: idle_internal_def blank_connection_def connection.defs internal_connection.defs sending_def conn_out_inv_def ob_inv_init)
  moreover have "bit (conn_state ?c) 1" by (simp add: bit_simps)
  ultimately show ?thesis
    using hello_checks_network[OF _ _ _ _ rawbytes_message_of[of "(AckMessage, [1])"], of ?c 23 6 "replicate 16 7" "\<lambda>_. False" 0 5] by auto
qed

end
