(* ===== verification/Spec2Isabelle.thy ===== *)
theory Spec2Isabelle
  imports Expiring_Collections Transaction_Invariant Connection Connection_Pool Version_Manager Old_Tx_Messages Rlp Encrypted_Cache Tx_Sync Notice_Messages Internal_Connection
begin

text \<open>
  A verification library for \<open>bxcommon\<close>, the Python code the gateways and relays of the bloXroute network
  share. Nodes exchange transactions and blocks in their own message format; a transaction is sent once
  in full with a short id and later blocks refer to it by that id. Paths below are relative to
  \<open>src/src/bxcommon\<close>.

  \<^bold>\<open>The parts and how they interact.\<close> The event loop hands the bytes of a socket to the node
  (\<open>AbstractNode.on_bytes_received\<close>), which appends them to the \<open>InputBuffer\<close> of the connection and calls
  \<open>AbstractConnection.process_message\<close>. It previews the header through the message factory, has the validator
  check it, pops complete messages, and dispatches them to handlers; the reply of a handler is queued in
  the \<open>OutputBuffer\<close> and written to the transport, and the \<open>MessageTracker\<close> attributes sent bytes to messages.
  The \<open>ConnectionPool\<close> indexes the connections of a node. Messages for a peer of an older protocol version
  pass through the version manager, which picks the converter of that version and type. The
  \<open>TransactionService\<close> keeps contents and short ids, expires them by \<open>ExpirationQueue\<close>s and by alarms of the
  \<open>AlarmQueue\<close>, and is synchronized with peers by the \<open>TxSyncService\<close> in messages built with the list
  serializers. The \<open>BroadcastService\<close> sends a message to the connections of the pool that want it.

  \<^bold>\<open>Theories.\<close>

  \<^item> \<open>Bx_Prelude\<close>: exceptions and results, bytes and struct packing, slices, association lists; the
    collections of rewrite rules the other theories use.
  \<^item> \<open>Collections_Bx\<close>: \<open>utils/expiration_queue.py\<close>, \<open>limited_size_dict.py\<close>, \<open>limited_size_set.py\<close>,
    \<open>collections/priority_queue.py\<close>. Size bounds, eviction of the oldest, exact expiry.
  \<^item> \<open>Heap_Queue\<close>, \<open>Alarm_Queue\<close>: the binary heap of the Python library and \<open>utils/alarm_queue.py\<close>. The heap
    invariant is kept; alarms that are due fire once and in order.
  \<^item> \<open>Expiring_Collections\<close>: \<open>utils/expiring_set.py\<close>, \<open>expiring_dict.py\<close> on top of both.
  \<^item> \<open>Buffers\<close>: \<open>utils/buffers\<close>. The input buffer refines a byte stream, the output buffer a queue of bytes
    sent, started and waiting, the tracker a list of owners of bytes.
  \<^item> \<open>Basic_Values\<close>: \<open>utils/convert.py\<close>, \<open>object_hash.py\<close>, \<open>flag_enum.py\<close> and the enumerations of \<open>models\<close>.
  \<^item> \<open>Serializers\<close>: the \<open>*_serializer.py\<close> of \<open>messages/bloxroute\<close>, as codecs of which the round trips are proved
    once in a locale.
  \<^item> \<open>Transaction_Service\<close>, \<open>Transaction_Invariant\<close>: \<open>services/transaction_service.py\<close>; the invariant of its
    tables, that every operation keeps it, the behaviour of each operation and runs of operations.
  \<^item> \<open>Messages\<close>: header, control flags, message factory, validator and \<open>get_connection_protocol_version\<close>.
  \<^item> \<open>Broadcast_Messages\<close>: \<open>utils/uuid_pack.py\<close>, \<open>abstract_broadcast_message.py\<close>, \<open>tx_message.py\<close>,
    \<open>broadcast_message.py\<close>, \<open>key_message.py\<close> and the clean-up messages. The transaction message with its caches
    refines a record of fields.
  \<^item> \<open>Node_Messages\<close>, \<open>Notice_Messages\<close>: hello, ping, pong and other fixed messages, notifications, routing
    updates. Round trips through constructor, received buffer and accessors.
  \<^item> \<open>Sync_Messages\<close>, \<open>Tx_Sync\<close>: the messages of requested and synchronized transactions with their
    converters, and \<open>services/tx_sync_service.py\<close> with its helpers and the pings of
    \<open>internal_node_connection.py\<close>: what is delivered, when it gives up.
  \<^item> \<open>Stats_Messages\<close>: the performance statistics of every version and their converters.
  \<^item> \<open>Versioned_Messages\<close>, \<open>Version_Manager\<close>: the older transaction and block classes under \<open>v6\<close> to \<open>v21\<close>, their
    converters, the tables of converters and classes of every version, and \<open>abstract_version_manager.py\<close>.
  \<^item> \<open>Old_Tx_Messages\<close>: the methods of the transaction messages of versions 15 to 21, each of which refines
    the record of the fields of its version; proved once in a locale.
  \<^item> \<open>Rlp\<close>: \<open>utils/blockchain_utils/eth/rlp_utils.py\<close>. Lists of items are read exactly when they are
    concatenations of encodings.
  \<^item> \<open>Encrypted_Cache\<close>: \<open>storage/encrypted_cache.py\<close>. Both orders of key and ciphertext, failures.
  \<^item> \<open>Connection\<close>: \<open>connections/abstract_connection.py\<close> with the parts of \<open>internal_node_connection.py\<close>, of
    \<open>abstract_node.py\<close> and of the socket protocol it calls. In-order delivery and sending, termination of
    the receiving loop, the handshake, bad messages.
  \<^item> \<open>Internal_Connection\<close>: \<open>connections/internal_node_connection.py\<close> and \<open>services/broadcast_service.py\<close>:
    negotiation of the version, the check of the network, sending in the version of the peer.
  \<^item> \<open>Connection_Pool\<close>: \<open>connections/connection_pool.py\<close> and the agreement of its four tables.

  \<^bold>\<open>Conventions.\<close> A class is a record, a method \<open>m\<close> of class \<open>C\<close> the definition \<open>C_m\<close>. Raised exceptions are the left
  summand of \<open>result\<close>; where the state at the raise matters the state is returned beside the result.
  Dictionaries are association lists in insertion order, sets distinct lists. The clock, callbacks,
  methods that subclasses override, the asyncio transport and constants of third-party packages are
  arguments; an operation reads the clock once. Times are reals, except that the timestamp of a message
  is the 64-bit pattern of its double. Text is its UTF-8 bytes. Lengths and unsigned fields are
  naturals, and packing a value that does not fit its field raises \<open>StructError\<close> as in the code.

  \<^bold>\<open>Loops.\<close> Structural recursion and measures where the code loops over data. The loops whose end depends
  on callbacks have fuel: the receiving loop of a connection (one step per received byte is proved
  to be enough) and the loop of the alarm queue (one step per alarm and one more). The loop of the memory limit ends because each step shortens its queue; a
  synchronization is a list of rounds, and one round per transaction and one more are shown to suffice.

  \<^bold>\<open>Not modelled.\<close> Logging, statistics and memory measurements have no effect on the behaviour proved here.
  The node life cycle, the asyncio event loop, TLS, HTTP and websocket services, feeds and RPC are I/O
  around third-party packages. The extension transaction service wraps a C++ module that is not part
  of the repository. The converters of pong, synchronization and statistics messages are an argument of
  the version manager; they are modelled on their own in \<open>Node_Messages\<close>, \<open>Sync_Messages\<close> and
  \<open>Stats_Messages\<close>. The connection of \<open>Tx_Sync\<close> stands for one of the current protocol version. The manifest
  lists every part with what is left out of it.
\<close>

end
